(* ===== verification/Prelude.thy ===== *)
theory Prelude
  imports Complex_Main "HOL-Library.Word" "HOL-Library.Sublist"
begin

text \<open>
  Shared vocabulary of the development: time and durations, the parts of Go's
  \<^verbatim>\<open>strings\<close>, \<^verbatim>\<open>strconv\<close> and \<^verbatim>\<open>time\<close> packages that the modelled code calls, finite maps,
  and the two locales that the components with mutable state instantiate: a machine with an
  invariant, and a pool of slots.

  A Go \<^verbatim>\<open>string\<close> is a byte sequence, hence a \<^typ>\<open>string\<close>, whose characters are bytes.
  A \<^verbatim>\<open>time.Time\<close> is a number of nanoseconds (an \<^typ>\<open>int\<close>, with 0 for the zero time) and a
  \<^verbatim>\<open>time.Duration\<close> a difference of two of them; every call of \<^verbatim>\<open>time.Now\<close> is an argument
  \<open>now\<close> of the definition. A Go map is a partial function, a \<^verbatim>\<open>float64\<close> a real number.
\<close>

section \<open>Collections of rewrite rules\<close>

named_theorems go_lib \<open>definitions of the Go library functions\<close>
named_theorems step_defs \<open>definitions of the operations of a component\<close>
named_theorems inv_defs \<open>definitions of the invariants\<close>

section \<open>Types\<close>

type_synonym time = int
type_synonym duration = int
type_synonym u32 = "32 word"
type_synonym u64 = "64 word"
type_synonym i32 = "32 word"

abbreviation millisecond :: duration where "millisecond \<equiv> 1000000"
abbreviation second :: duration where "second \<equiv> 1000000000"
abbreviation minute :: duration where "minute \<equiv> 60 * second"
abbreviation hour :: duration where "hour \<equiv> 60 * minute"

text \<open>\<^verbatim>\<open>t.IsZero()\<close>\<close>

definition IsZero :: "time \<Rightarrow> bool" where
  "IsZero t \<longleftrightarrow> t = 0"

text \<open>The conversion of a float64 to an integer type truncates towards zero.\<close>

definition trunc :: "real \<Rightarrow> int" where
  "trunc x = (if 0 \<le> x then \<lfloor>x\<rfloor> else - \<lfloor>- x\<rfloor>)"

lemma trunc_of_int [simp]: "trunc (of_int n) = n"
  by (simp add: trunc_def flip: of_int_minus)

lemma trunc_nonneg [simp]: "0 \<le> x \<Longrightarrow> 0 \<le> trunc x"
  by (simp add: trunc_def)

lemma trunc_mono: "x \<le> y \<Longrightarrow> trunc x \<le> trunc y"
proof (cases "0 \<le> x")
  case True
  assume "x \<le> y"
  with True show ?thesis by (simp add: trunc_def floor_mono)
next
  case False
  assume "x \<le> y"
  show ?thesis
  proof (cases "0 \<le> y")
    case True
    from False have "0 \<le> \<lfloor>- x\<rfloor>" by simp
    moreover from True have "0 \<le> \<lfloor>y\<rfloor>" by simp
    ultimately have "- \<lfloor>- x\<rfloor> \<le> \<lfloor>y\<rfloor>" by linarith
    then show ?thesis using False True unfolding trunc_def by presburger
  next
    case False
    with \<open>\<not> 0 \<le> x\<close> \<open>x \<le> y\<close> show ?thesis by (simp add: trunc_def floor_mono)
  qed
qed

lemma trunc_le: "0 \<le> x \<Longrightarrow> real_of_int (trunc x) \<le> x"
  by (simp add: trunc_def)

text \<open>\<^verbatim>\<open>d.Seconds()\<close>\<close>

definition Seconds :: "duration \<Rightarrow> real" where
  "Seconds d = of_int d / 1000000000"

text \<open>The values of a metrics map.\<close>

datatype metric = MStr string | MInt int | MReal real

section \<open>Strings\<close>

definition HasPrefix :: "string \<Rightarrow> string \<Rightarrow> bool" where
  [go_lib]: "HasPrefix s p \<longleftrightarrow> take (length p) s = p"

definition HasSuffix :: "string \<Rightarrow> string \<Rightarrow> bool" where
  [go_lib]: "HasSuffix s p \<longleftrightarrow> length p \<le> length s \<and> drop (length s - length p) s = p"

fun Contains :: "string \<Rightarrow> string \<Rightarrow> bool" where
  "Contains [] sub \<longleftrightarrow> sub = []"
| "Contains (c # s) sub \<longleftrightarrow> HasPrefix (c # s) sub \<or> Contains s sub"

definition TrimPrefix :: "string \<Rightarrow> string \<Rightarrow> string" where
  [go_lib]: "TrimPrefix s p = (if HasPrefix s p then drop (length p) s else s)"

definition TrimSuffix :: "string \<Rightarrow> string \<Rightarrow> string" where
  [go_lib]: "TrimSuffix s suf = (if HasSuffix s suf then take (length s - length suf) s else s)"

text \<open>\<^verbatim>\<open>strings.IndexByte\<close>, with \<^term>\<open>None\<close> for the result -1.\<close>

fun IndexByte :: "string \<Rightarrow> char \<Rightarrow> nat option" where
  "IndexByte [] c = None"
| "IndexByte (x # s) c = (if x = c then Some 0 else map_option Suc (IndexByte s c))"

text \<open>\<^verbatim>\<open>strings.Split\<close> with a one-byte separator; the result is never empty.\<close>

fun Split :: "string \<Rightarrow> char \<Rightarrow> string list" where
  "Split [] sep = [[]]"
| "Split (x # s) sep =
     (if x = sep then [] # Split s sep
      else (case Split s sep of [] \<Rightarrow> [[x]] | w # ws \<Rightarrow> (x # w) # ws))"

text \<open>\<^verbatim>\<open>strings.ReplaceAll\<close> for a non-empty pattern: left to right, without overlap.\<close>

function ReplaceAll :: "string \<Rightarrow> string \<Rightarrow> string \<Rightarrow> string" where
  "ReplaceAll [] old new = []"
| "ReplaceAll (c # s) old new =
     (if old \<noteq> [] \<and> HasPrefix (c # s) old
      then new @ ReplaceAll (drop (length old) (c # s)) old new
      else c # ReplaceAll s old new)"
  by pat_completeness auto
termination
  by (relation "measure (\<lambda>(s, old, new). length s)") (auto simp: Suc_le_eq)

definition toLower :: "char \<Rightarrow> char" where
  "toLower b = (if 65 \<le> (of_char b :: nat) \<and> (of_char b :: nat) \<le> 90
                then char_of ((of_char b :: nat) + 32) else b)"

text \<open>\<^verbatim>\<open>strings.ToLower\<close> on ASCII letters; other bytes are kept.\<close>

definition ToLower :: "string \<Rightarrow> string" where
  [go_lib]: "ToLower s = map toLower s"

text \<open>The UTF-8 encodings of the code points for which \<^verbatim>\<open>unicode.IsSpace\<close> holds.\<close>

definition space_runes :: "string list" where
  "space_runes =
    [[CHR 0x09], [CHR 0x0A], [CHR 0x0B], [CHR 0x0C], [CHR 0x0D], [CHR 0x20],
     [CHR 0xC2, CHR 0x85], [CHR 0xC2, CHR 0xA0], [CHR 0xE1, CHR 0x9A, CHR 0x80],
     [CHR 0xE2, CHR 0x80, CHR 0x80], [CHR 0xE2, CHR 0x80, CHR 0x81],
     [CHR 0xE2, CHR 0x80, CHR 0x82], [CHR 0xE2, CHR 0x80, CHR 0x83],
     [CHR 0xE2, CHR 0x80, CHR 0x84], [CHR 0xE2, CHR 0x80, CHR 0x85],
     [CHR 0xE2, CHR 0x80, CHR 0x86], [CHR 0xE2, CHR 0x80, CHR 0x87],
     [CHR 0xE2, CHR 0x80, CHR 0x88], [CHR 0xE2, CHR 0x80, CHR 0x89],
     [CHR 0xE2, CHR 0x80, CHR 0x8A], [CHR 0xE2, CHR 0x80, CHR 0xA8],
     [CHR 0xE2, CHR 0x80, CHR 0xA9], [CHR 0xE2, CHR 0x80, CHR 0xAF],
     [CHR 0xE2, CHR 0x81, CHR 0x9F], [CHR 0xE3, CHR 0x80, CHR 0x80]]"

function strip_front :: "string list \<Rightarrow> string \<Rightarrow> string" where
  "strip_front rs s =
     (case find (\<lambda>r. r \<noteq> [] \<and> HasPrefix s r) rs of
        None \<Rightarrow> s
      | Some r \<Rightarrow> strip_front rs (drop (length r) s))"
  by pat_completeness auto
termination
proof (relation "measure (\<lambda>(rs, s). length s)", simp)
  fix rs :: "string list" and s r
  assume "find (\<lambda>r. r \<noteq> [] \<and> HasPrefix s r) rs = Some r"
  then have "r \<noteq> []" "HasPrefix s r" by (auto simp: find_Some_iff)
  then have "0 < length r" "length r \<le> length s"
    by (auto simp: HasPrefix_def) (metis length_take linorder_le_cases min.absorb_iff2)
  then have "length s - length r < length s" by linarith
  then show "((rs, drop (length r) s), (rs, s)) \<in> measure (\<lambda>(rs, s). length s)" by simp
qed

declare strip_front.simps [simp del]

text \<open>\<^verbatim>\<open>strings.TrimSpace\<close>\<close>

definition TrimSpace :: "string \<Rightarrow> string" where
  "TrimSpace s = rev (strip_front (map rev space_runes) (rev (strip_front space_runes s)))"

subsection \<open>Facts about strings\<close>

lemma HasPrefix_iff: "HasPrefix s p \<longleftrightarrow> (\<exists>t. s = p @ t)"
  unfolding HasPrefix_def by (metis append_eq_conv_conj append_take_drop_id)

lemma HasSuffix_iff: "HasSuffix s p \<longleftrightarrow> (\<exists>t. s = t @ p)"
  unfolding HasSuffix_def
  by (metis append_eq_conv_conj append_take_drop_id diff_le_self length_append length_drop
      le_add2 add_diff_cancel_right')

lemma Contains_iff: "Contains s sub \<longleftrightarrow> (\<exists>a b. s = a @ sub @ b)"
proof (induction s)
  case Nil
  then show ?case by auto
next
  case (Cons c s)
  have "(\<exists>a b. c # s = a @ sub @ b) \<longleftrightarrow> (\<exists>b. c # s = sub @ b) \<or> (\<exists>a b. s = a @ sub @ b)"
    by (metis append_Cons append_Nil list.exhaust list.inject)
  then show ?case using Cons by (simp add: HasPrefix_iff)
qed

lemma Contains_single: "Contains s [c] \<longleftrightarrow> c \<in> set s"
  by (auto simp: Contains_iff dest: split_list)

lemma IndexByte_Some:
  "IndexByte s c = Some i \<Longrightarrow> i < length s \<and> s ! i = c \<and> c \<notin> set (take i s)"
  by (induction s arbitrary: i) (auto split: if_splits)

lemma IndexByte_None: "IndexByte s c = None \<longleftrightarrow> c \<notin> set s"
  by (induction s) auto

lemma IndexByte_append: "c \<notin> set k \<Longrightarrow> IndexByte (k @ c # v) c = Some (length k)"
  by (induction k) auto

lemma Split_nonempty [simp]: "Split s sep \<noteq> []"
  by (cases s) (auto split: list.splits)

lemma Split_no_sep: "w \<in> set (Split s sep) \<Longrightarrow> sep \<notin> set w"
proof (induction s arbitrary: w)
  case Nil
  then show ?case by simp
next
  case (Cons x s)
  then show ?case by (cases "Split s sep") (auto split: if_splits)
qed

lemma Split_absent: "sep \<notin> set s \<Longrightarrow> Split s sep = [s]"
  by (induction s) auto

lemma Split_append: "sep \<notin> set w \<Longrightarrow> Split (w @ sep # s) sep = w # Split s sep"
  by (induction w) auto

lemma ReplaceAll_delete: "ReplaceAll s [c] [] = filter (\<lambda>x. x \<noteq> c) s"
  by (induction s) (auto simp: HasPrefix_def)

text \<open>\<^verbatim>\<open>fmt.Sprintf("%d", n)\<close>\<close>

fun show_nat :: "nat \<Rightarrow> string" where
  "show_nat n = (if n < 10 then [char_of (48 + n)]
                 else show_nat (n div 10) @ [char_of (48 + n mod 10)])"

declare show_nat.simps [simp del]

definition show_int :: "int \<Rightarrow> string" where
  "show_int i = (if i < 0 then ''-'' @ show_nat (nat (- i)) else show_nat (nat i))"

lemma show_nat_nonempty [simp]: "show_nat n \<noteq> []"
  by (subst show_nat.simps) simp

section \<open>Lists\<close>

lemma distinct_map_filter: "distinct (map f xs) \<Longrightarrow> distinct (map f (filter P xs))"
  by (induction xs) auto

lemma length_filter_le_mono:
  "(\<And>x. x \<in> set xs \<Longrightarrow> P x \<Longrightarrow> Q x) \<Longrightarrow> length (filter P xs) \<le> length (filter Q xs)"
  by (induction xs) (auto simp: le_SucI)

section \<open>Machines with an invariant\<close>

text \<open>
  A component whose operations are serialised by its mutex is a machine: a state and a total
  step function on the events that reach it. What holds initially and is kept by every step
  holds after every sequence of events.
\<close>

locale machine =
  fixes init :: "'s"
    and step :: "'e \<Rightarrow> 's \<Rightarrow> 's"
    and ok :: "'s \<Rightarrow> bool"
  assumes ok_init: "ok init"
    and ok_step: "ok s \<Longrightarrow> ok (step e s)"
begin

lemma ok_fold: "ok s \<Longrightarrow> ok (fold step es s)"
  by (induction es arbitrary: s) (auto intro: ok_step)

lemma ok_run: "ok (fold step es init)"
  by (rule ok_fold [OF ok_init])

end

section \<open>Pools of slots\<close>

text \<open>
  A buffered channel used as a counting semaphore: \<open>take_slot\<close> is the non-blocking send of a
  \<^verbatim>\<open>select\<close> with a \<^verbatim>\<open>default\<close> branch (\<^term>\<open>None\<close> when the channel is full), \<open>free_slot\<close>
  the receive of the deferred function of a holder.
\<close>

locale slot_pool =
  fixes used :: "'s \<Rightarrow> nat"
    and slots :: "'s \<Rightarrow> nat"
    and take_slot :: "'s \<Rightarrow> 's option"
    and free_slot :: "'s \<Rightarrow> 's"
  assumes take_some: "take_slot s = Some s' \<Longrightarrow> used s < slots s \<and> used s' = Suc (used s)"
    and take_none: "take_slot s = None \<longleftrightarrow> slots s \<le> used s"
    and slots_take: "take_slot s = Some s' \<Longrightarrow> slots s' = slots s"
    and free_used: "0 < used s \<Longrightarrow> used (free_slot s) = used s - 1"
    and slots_free: "slots (free_slot s) = slots s"
begin

text \<open>A schedule of attempts (\<^term>\<open>True\<close>) and releases (\<^term>\<open>False\<close>) by the holders.\<close>

fun play :: "bool list \<Rightarrow> 's \<Rightarrow> 's" where
  "play [] s = s"
| "play (True # bs) s = play bs (case take_slot s of None \<Rightarrow> s | Some s' \<Rightarrow> s')"
| "play (False # bs) s = play bs (if 0 < used s then free_slot s else s)"

lemma play_slots: "slots (play bs s) = slots s"
  by (induction bs s rule: play.induct) (auto simp: slots_free dest: slots_take split: option.splits)

lemma play_bound: "used s \<le> slots s \<Longrightarrow> used (play bs s) \<le> slots s"
proof (induction bs s rule: play.induct)
  case (1 s)
  then show ?case by simp
next
  case (2 bs s)
  let ?s' = "case take_slot s of None \<Rightarrow> s | Some s' \<Rightarrow> s'"
  have "used ?s' \<le> slots ?s'" and "slots ?s' = slots s"
    using 2(2) take_some [of s] slots_take [of s] by (auto simp: Suc_le_eq split: option.splits)
  with 2(1) show ?case by simp
next
  case (3 bs s)
  let ?s' = "if 0 < used s then free_slot s else s"
  have "used ?s' \<le> slots ?s'" and "slots ?s' = slots s"
    using 3(2) by (auto simp: free_used slots_free)
  with 3(1) show ?case by simp
qed

lemma take_iff: "(\<exists>s'. take_slot s = Some s') \<longleftrightarrow> used s < slots s"
  using take_none [of s] by (cases "take_slot s") auto

lemma take_free: "take_slot s = Some s' \<Longrightarrow> used (free_slot s') = used s"
  using free_used [of s'] take_some [of s s'] by simp

end

end
