(* ===== verification/GoError.thy ===== *)
theory GoError
  imports Prelude
begin

text \<open>
  Error values (\<^verbatim>\<open>src/core/errors.go\<close> and the sentinel errors of the other files of
  \<^verbatim>\<open>src/core\<close>). A Go error is a sentinel (compared by identity), an error of code that is not
  part of the program (an identity and a message), the struct \<^verbatim>\<open>NonZeroExitError\<close>, or the
  result of \<^verbatim>\<open>fmt.Errorf\<close>, whose parts are the literal text and the operands of the format;
  an operand of the verb \<^verbatim>\<open>%w\<close> is wrapped. The theory shows that \<^verbatim>\<open>errors.Is\<close> sees through
  every wrapper, and that the hand-written case-insensitive search decides what it should.
\<close>

datatype sentinel =
    ErrContainerNotFound | ErrContainerStartFailed | ErrContainerCreateFailed
  | ErrContainerStopFailed | ErrContainerRemoveFailed
  | ErrImageNotFound | ErrImagePullFailed | ErrLocalImageNotFound
  | ErrServiceNotFound | ErrServiceCreateFailed | ErrServiceStartFailed | ErrServiceRemoveFailed
  | ErrJobNotFound | ErrJobAlreadyExists | ErrJobExecution | ErrMaxTimeRunning | ErrUnexpected
  | ErrCircularDependency | ErrWorkflowInvalid
  | ErrEmptyCommand | ErrUnsupportedFieldType | ErrImageOrContainer | ErrImageRequired
  | ErrInvalidVolume
  | ErrSchedulerTimeout | ErrConcurrencyLimitReached
  | ErrShutdownInProgress | ErrShutdownTimeout | ErrJobCanceled | ErrCannotStartJob
  | ErrWaitTimeout
  | ErrCircuitBreakerOpen | ErrCircuitBreakerHalfOpen | ErrCircuitBreakerUnknown
  | ErrRateLimitExceeded | ErrTokensExceedCapacity | ErrBulkheadFull
  | ErrResponseChannelClosed
  | ErrSkippedExecution | ErrEmptyScheduler | ErrEmptySchedule | ErrNilContainerInspector
  | ContextCanceled | ContextDeadlineExceeded

primrec sentinel_text :: "sentinel \<Rightarrow> string" where
  "sentinel_text ErrContainerNotFound = ''container not found''"
| "sentinel_text ErrContainerStartFailed = ''failed to start container''"
| "sentinel_text ErrContainerCreateFailed = ''failed to create container''"
| "sentinel_text ErrContainerStopFailed = ''failed to stop container''"
| "sentinel_text ErrContainerRemoveFailed = ''failed to remove container''"
| "sentinel_text ErrImageNotFound = ''image not found''"
| "sentinel_text ErrImagePullFailed = ''failed to pull image''"
| "sentinel_text ErrLocalImageNotFound = ''local image not found''"
| "sentinel_text ErrServiceNotFound = ''service not found''"
| "sentinel_text ErrServiceCreateFailed = ''failed to create service''"
| "sentinel_text ErrServiceStartFailed = ''failed to start service''"
| "sentinel_text ErrServiceRemoveFailed = ''failed to remove service''"
| "sentinel_text ErrJobNotFound = ''job not found''"
| "sentinel_text ErrJobAlreadyExists = ''job already exists''"
| "sentinel_text ErrJobExecution = ''job execution failed''"
| "sentinel_text ErrMaxTimeRunning = ''max runtime exceeded''"
| "sentinel_text ErrUnexpected = ''unexpected error''"
| "sentinel_text ErrCircularDependency = ''circular dependency detected''"
| "sentinel_text ErrWorkflowInvalid = ''invalid workflow configuration''"
| "sentinel_text ErrEmptyCommand = ''command cannot be empty''"
| "sentinel_text ErrUnsupportedFieldType = ''unsupported field type''"
| "sentinel_text ErrImageOrContainer =
     ''job-run requires either '' @ CHR 0x27 # ''image'' @ CHR 0x27 # '' or '' @
       CHR 0x27 # ''container'' @ [CHR 0x27]"
| "sentinel_text ErrImageRequired =
     ''job-service-run requires '' @ CHR 0x27 # ''image'' @ CHR 0x27 #
       '' to create a new swarm service''"
| "sentinel_text ErrInvalidVolume = ''invalid volume: expected source:target[:ro|rw]''"
| "sentinel_text ErrSchedulerTimeout = ''scheduler stop timed out''"
| "sentinel_text ErrConcurrencyLimitReached = ''max concurrent jobs limit reached''"
| "sentinel_text ErrShutdownInProgress = ''shutdown already in progress''"
| "sentinel_text ErrShutdownTimeout = ''shutdown timed out''"
| "sentinel_text ErrJobCanceled = ''job canceled: shutdown in progress''"
| "sentinel_text ErrCannotStartJob = ''cannot start job during shutdown''"
| "sentinel_text ErrWaitTimeout = ''timeout waiting for jobs to complete''"
| "sentinel_text ErrCircuitBreakerOpen = ''circuit breaker is open''"
| "sentinel_text ErrCircuitBreakerHalfOpen =
     ''circuit breaker is half-open but max calls reached''"
| "sentinel_text ErrCircuitBreakerUnknown = ''circuit breaker is in unknown state''"
| "sentinel_text ErrRateLimitExceeded = ''rate limit exceeded''"
| "sentinel_text ErrTokensExceedCapacity = ''requested tokens exceed capacity''"
| "sentinel_text ErrBulkheadFull = ''bulkhead is full''"
| "sentinel_text ErrResponseChannelClosed = ''response channel closed unexpectedly''"
| "sentinel_text ErrSkippedExecution = ''skipped execution''"
| "sentinel_text ErrEmptyScheduler = ''unable to start an empty scheduler''"
| "sentinel_text ErrEmptySchedule = ''unable to add a job with an empty schedule''"
| "sentinel_text ErrNilContainerInspector = ''container inspector is nil''"
| "sentinel_text ContextCanceled = ''context canceled''"
| "sentinel_text ContextDeadlineExceeded = ''context deadline exceeded''"

datatype go_error =
    Sentinel sentinel
  | Opaque nat string
  | NonZeroExitError int
  | Errorf "err_part list"
and err_part =
    Lit string
  | Str string
  | Quoted string
  | Num int
  | Dur duration
  | Wrap go_error

section \<open>Messages\<close>

text \<open>
  \<^verbatim>\<open>time.Duration.String\<close>: the fraction without its trailing zeros, then the largest units
  that are not zero.
\<close>

fun strip_zeros :: "string \<Rightarrow> string" where
  "strip_zeros s = rev (dropWhile (\<lambda>c. c = CHR ''0'') (rev s))"

definition pad_zeros :: "nat \<Rightarrow> string \<Rightarrow> string" where
  "pad_zeros n s = replicate (n - length s) (CHR ''0'') @ s"

definition fmtFrac :: "nat \<Rightarrow> nat \<Rightarrow> string" where
  "fmtFrac v prec =
     (let f = strip_zeros (pad_zeros prec (show_nat (v mod 10 ^ prec)))
      in if f = [] then [] else CHR ''.'' # f)"

definition duration_string :: "duration \<Rightarrow> string" where
  "duration_string d =
     (let u = nat \<bar>d\<bar>;
          body =
            (if u = 0 then ''0s''
             else if u < 1000 then show_nat u @ ''ns''
             else if u < 1000000
               then show_nat (u div 1000) @ fmtFrac u 3 @ [CHR 0xC2, CHR 0xB5] @ ''s''
             else if u < 1000000000 then show_nat (u div 1000000) @ fmtFrac u 6 @ ''ms''
             else
               let s = u div 1000000000; m = s div 60; h = m div 60
               in (if 0 < h then show_nat h @ ''h'' else []) @
                  (if 0 < m then show_nat (m mod 60) @ ''m'' else []) @
                  show_nat (s mod 60) @ fmtFrac u 9 @ ''s'')
      in if d < 0 then CHR ''-'' # body else body)"

text \<open>\<^verbatim>\<open>strconv.Quote\<close>, for the verb \<^verbatim>\<open>%q\<close>; bytes above 0x7F are taken to be printable.\<close>

definition hex_digit :: "nat \<Rightarrow> char" where
  "hex_digit n = (if n < 10 then char_of (48 + n) else char_of (87 + n))"

definition quote_byte :: "char \<Rightarrow> string" where
  "quote_byte c =
     (let n = (of_char c :: nat) in
      if n = 34 then [CHR 0x5C, CHR 0x22]
      else if n = 92 then [CHR 0x5C, CHR 0x5C]
      else if n = 7 then CHR 0x5C # ''a''
      else if n = 8 then CHR 0x5C # ''b''
      else if n = 12 then CHR 0x5C # ''f''
      else if n = 10 then CHR 0x5C # ''n''
      else if n = 13 then CHR 0x5C # ''r''
      else if n = 9 then CHR 0x5C # ''t''
      else if n = 11 then CHR 0x5C # ''v''
      else if n < 32 \<or> n = 127
        then CHR 0x5C # CHR ''x'' # [hex_digit (n div 16), hex_digit (n mod 16)]
      else [c])"

definition quote_string :: "string \<Rightarrow> string" where
  "quote_string s = CHR 0x22 # concat (map quote_byte s) @ [CHR 0x22]"

text \<open>The method \<^verbatim>\<open>Error()\<close>.\<close>

fun err_msg :: "go_error \<Rightarrow> string"
  and part_msg :: "err_part \<Rightarrow> string" where
  "err_msg (Sentinel s) = sentinel_text s"
| "err_msg (Opaque i m) = m"
| "err_msg (NonZeroExitError n) = ''non-zero exit code: '' @ show_int n"
| "err_msg (Errorf ps) = concat (map part_msg ps)"
| "part_msg (Lit s) = s"
| "part_msg (Str s) = s"
| "part_msg (Quoted s) = quote_string s"
| "part_msg (Num n) = show_int n"
| "part_msg (Dur d) = duration_string d"
| "part_msg (Wrap e) = err_msg e"

section \<open>Unwrapping\<close>

text \<open>\<^verbatim>\<open>errors.Is\<close> for a sentinel: a search of the tree of wrapped errors.\<close>

fun errors_Is :: "go_error \<Rightarrow> sentinel \<Rightarrow> bool"
  and part_Is :: "err_part \<Rightarrow> sentinel \<Rightarrow> bool" where
  "errors_Is (Sentinel s) t \<longleftrightarrow> s = t"
| "errors_Is (Opaque i m) t \<longleftrightarrow> False"
| "errors_Is (NonZeroExitError n) t \<longleftrightarrow> False"
| "errors_Is (Errorf ps) t \<longleftrightarrow> list_ex (\<lambda>p. part_Is p t) ps"
| "part_Is (Lit s) t \<longleftrightarrow> False"
| "part_Is (Str s) t \<longleftrightarrow> False"
| "part_Is (Quoted s) t \<longleftrightarrow> False"
| "part_Is (Num n) t \<longleftrightarrow> False"
| "part_Is (Dur d) t \<longleftrightarrow> False"
| "part_Is (Wrap e) t \<longleftrightarrow> errors_Is e t"

fun as_NonZeroExit :: "go_error \<Rightarrow> bool"
  and part_as_NonZeroExit :: "err_part \<Rightarrow> bool" where
  "as_NonZeroExit (Sentinel s) \<longleftrightarrow> False"
| "as_NonZeroExit (Opaque i m) \<longleftrightarrow> False"
| "as_NonZeroExit (NonZeroExitError n) \<longleftrightarrow> True"
| "as_NonZeroExit (Errorf ps) \<longleftrightarrow> list_ex part_as_NonZeroExit ps"
| "part_as_NonZeroExit (Lit s) \<longleftrightarrow> False"
| "part_as_NonZeroExit (Str s) \<longleftrightarrow> False"
| "part_as_NonZeroExit (Quoted s) \<longleftrightarrow> False"
| "part_as_NonZeroExit (Num n) \<longleftrightarrow> False"
| "part_as_NonZeroExit (Dur d) \<longleftrightarrow> False"
| "part_as_NonZeroExit (Wrap e) \<longleftrightarrow> as_NonZeroExit e"

type_synonym result = "go_error option"

definition err_is :: "result \<Rightarrow> sentinel \<Rightarrow> bool" where
  "err_is r t \<longleftrightarrow> (case r of None \<Rightarrow> False | Some e \<Rightarrow> errors_Is e t)"

lemma err_is_simps [simp]:
  "err_is None t \<longleftrightarrow> False"
  "err_is (Some e) t \<longleftrightarrow> errors_Is e t"
  by (simp_all add: err_is_def)

section \<open>Wrappers of core/errors.go\<close>

definition wrap_error :: "string \<Rightarrow> string \<Rightarrow> string \<Rightarrow> result \<Rightarrow> result" where
  "wrap_error noun op obj err =
     map_option (\<lambda>e. Errorf [Str op, Lit noun, Quoted obj, Lit '': '', Wrap e]) err"

definition WrapContainerError :: "string \<Rightarrow> string \<Rightarrow> result \<Rightarrow> result" where
  "WrapContainerError op containerID err = wrap_error '' container '' op containerID err"

definition WrapImageError :: "string \<Rightarrow> string \<Rightarrow> result \<Rightarrow> result" where
  "WrapImageError op img err = wrap_error '' image '' op img err"

definition WrapServiceError :: "string \<Rightarrow> string \<Rightarrow> result \<Rightarrow> result" where
  "WrapServiceError op serviceID err = wrap_error '' service '' op serviceID err"

definition WrapJobError :: "string \<Rightarrow> string \<Rightarrow> result \<Rightarrow> result" where
  "WrapJobError op jobName err = wrap_error '' job '' op jobName err"

section \<open>Case-insensitive search\<close>

definition match_at :: "string \<Rightarrow> string \<Rightarrow> nat \<Rightarrow> bool" where
  "match_at s sub i \<longleftrightarrow> list_all (\<lambda>j. toLower (s ! (i + j)) = toLower (sub ! j)) [0..<length sub]"

definition containsIgnoreCase :: "string \<Rightarrow> string \<Rightarrow> bool" where
  "containsIgnoreCase s sub \<longleftrightarrow>
     (if sub = [] then True
      else if length s < length sub then False
      else list_ex (match_at s sub) [0..<length s - length sub + 1])"

definition stringContains :: "string \<Rightarrow> string \<Rightarrow> bool" where
  "stringContains s sub \<longleftrightarrow> length sub \<le> length s \<and> (s = sub \<or> containsIgnoreCase s sub)"

definition networkErrors :: "string list" where
  "networkErrors = [''connection refused'', ''connection reset'', ''timeout'',
     ''temporary failure'', ''no such host'', ''network unreachable'']"

definition containsNetworkError :: "result \<Rightarrow> bool" where
  "containsNetworkError err \<longleftrightarrow>
     (case err of None \<Rightarrow> False
      | Some e \<Rightarrow> list_ex (stringContains (err_msg e)) networkErrors)"

definition IsRetryableError :: "result \<Rightarrow> bool" where
  "IsRetryableError err \<longleftrightarrow>
     (case err of None \<Rightarrow> False
      | Some e \<Rightarrow> errors_Is e ErrContainerStartFailed \<or> errors_Is e ErrImagePullFailed \<or>
                  errors_Is e ErrServiceStartFailed \<or> containsNetworkError err)"

definition IsNonZeroExitError :: "result \<Rightarrow> bool" where
  "IsNonZeroExitError err \<longleftrightarrow> (case err of None \<Rightarrow> False | Some e \<Rightarrow> as_NonZeroExit e)"

section \<open>Properties\<close>

lemma wrap_error_cases:
  "wrap_error noun op obj err = None \<longleftrightarrow> err = None"
  "err_is (wrap_error noun op obj err) t = err_is err t"
  by (cases err; simp add: wrap_error_def)+

lemma match_at_iff:
  assumes "i + length sub \<le> length s"
  shows "match_at s sub i \<longleftrightarrow> map toLower (take (length sub) (drop i s)) = map toLower sub"
proof -
  have len: "length (map toLower (take (length sub) (drop i s))) = length (map toLower sub)"
    using assms by simp
  show ?thesis
    unfolding list_eq_iff_nth_eq match_at_def list_all_iff using assms len by auto
qed

lemma containsIgnoreCase_iff: "containsIgnoreCase s sub \<longleftrightarrow> Contains (ToLower s) (ToLower sub)"
proof (cases "length sub \<le> length s")
  case False
  then have "\<not> Contains (ToLower s) (ToLower sub)"
    by (auto simp: Contains_iff ToLower_def dest!: arg_cong [where f = length])
  with False show ?thesis by (auto simp: containsIgnoreCase_def)
next
  case True
  have "set [0..<length s - length sub + 1] = {i. i \<le> length s - length sub}"
    by (auto simp del: upt_Suc)
  then have "containsIgnoreCase s sub \<longleftrightarrow> (\<exists>i \<le> length s - length sub. match_at s sub i)"
    using True unfolding containsIgnoreCase_def list_ex_iff
    by (cases "sub = []") (auto simp: match_at_def)
  also have "\<dots> \<longleftrightarrow> (\<exists>i \<le> length s - length sub.
      take (length sub) (drop i (ToLower s)) = ToLower sub)"
    using True by (intro ex_cong1 conj_cong refl)
      (auto simp: match_at_iff ToLower_def take_map drop_map)
  also have "\<dots> \<longleftrightarrow> Contains (ToLower s) (ToLower sub)"
  proof
    assume "\<exists>i \<le> length s - length sub. take (length sub) (drop i (ToLower s)) = ToLower sub"
    then obtain i where "take (length sub) (drop i (ToLower s)) = ToLower sub" by blast
    then show "Contains (ToLower s) (ToLower sub)"
      unfolding Contains_iff by (metis append_take_drop_id)
  next
    assume "Contains (ToLower s) (ToLower sub)"
    then obtain a b where ab: "ToLower s = a @ ToLower sub @ b" by (auto simp: Contains_iff)
    from arg_cong [OF ab, of length] have "length a \<le> length s - length sub"
      by (simp add: ToLower_def)
    moreover have "take (length sub) (drop (length a) (ToLower s)) = ToLower sub"
      by (simp add: ab) (simp add: ToLower_def)
    ultimately show "\<exists>i \<le> length s - length sub.
        take (length sub) (drop i (ToLower s)) = ToLower sub" by blast
  qed
  finally show ?thesis .
qed

lemma stringContains_iff: "stringContains s sub \<longleftrightarrow> Contains (ToLower s) (ToLower sub)"
proof -
  have "length sub \<le> length s" if "Contains (ToLower s) (ToLower sub)"
    using that by (auto simp: Contains_iff ToLower_def dest!: arg_cong [where f = length])
  moreover have "containsIgnoreCase s s"
    by (simp add: containsIgnoreCase_iff) (auto simp: Contains_iff intro: exI [of _ "[]"])
  ultimately show ?thesis
    by (auto simp: stringContains_def containsIgnoreCase_iff [symmetric])
qed

end
