(* ===== verification/Execution.thy ===== *)
theory Execution
  imports GoError
begin

text \<open>
  One run of a job: the execution record, the middleware container and the context that walks
  the middleware chain (\<^verbatim>\<open>src/core/common.go\<close>), the counters and the history of a job
  (\<^verbatim>\<open>src/core/bare_job.go\<close>) and the overlap middleware (\<^verbatim>\<open>src/middlewares/overlap.go\<close>).

  The job body is a function on the run state. A middleware may stop the execution, calls
  \<^verbatim>\<open>ctx.Next\<close>, may stop the execution with the error it got back, and then has its effect
  (mail, Slack, saved output, webhook) on the world \<open>'w\<close>; this is the shape of the method
  \<^verbatim>\<open>Run\<close> of every middleware under \<^verbatim>\<open>src/middlewares\<close>. The fields of \<^verbatim>\<open>Context\<close> that steer
  the chain are private to the package, so no middleware changes them. A panic of the job body
  unwinds the chain, as no middleware recovers from it. Log output is not part of the state.
\<close>

section \<open>Executions\<close>

record execution =
  e_ID :: string
  e_Date :: time
  e_Duration :: duration
  e_IsRunning :: bool
  e_Failed :: bool
  e_Skipped :: bool
  e_Error :: result
  e_OutputStream :: "string option"
  e_ErrorStream :: "string option"
  e_CapturedStdout :: string
  e_CapturedStderr :: string

definition new_execution :: "string \<Rightarrow> string \<Rightarrow> string \<Rightarrow> execution" where
  "new_execution i out err =
     \<lparr>e_ID = i, e_Date = 0, e_Duration = 0, e_IsRunning = False, e_Failed = False,
      e_Skipped = False, e_Error = None, e_OutputStream = Some out, e_ErrorStream = Some err,
      e_CapturedStdout = [], e_CapturedStderr = []\<rparr>"

text \<open>
  \<^verbatim>\<open>NewExecution\<close>: the arguments are the results of the two \<^verbatim>\<open>DefaultBufferPool.Get\<close> calls and
  of \<^verbatim>\<open>randomID\<close>; the second component lists the buffers given back with \<^verbatim>\<open>Put\<close>.
\<close>

definition NewExecution ::
  "(go_error + string) \<Rightarrow> (go_error + string) \<Rightarrow> (go_error + string) \<Rightarrow>
   (go_error + execution) \<times> string list" where
  "NewExecution get_out get_err rand_id =
     (case get_out of
        Inl e \<Rightarrow> (Inl (Errorf [Lit ''failed to get output buffer: '', Wrap e]), [])
      | Inr bufOut \<Rightarrow>
          (case get_err of
             Inl e \<Rightarrow> (Inl (Errorf [Lit ''failed to get error buffer: '', Wrap e]), [bufOut])
           | Inr bufErr \<Rightarrow>
               (case rand_id of
                  Inl e \<Rightarrow> (Inl e, [bufOut, bufErr])
                | Inr i \<Rightarrow> (Inr (new_execution i bufOut bufErr), []))))"

definition exec_Start :: "time \<Rightarrow> execution \<Rightarrow> execution" where
  "exec_Start now e = e\<lparr>e_IsRunning := True, e_Date := now\<rparr>"

text \<open>\<^verbatim>\<open>Execution.Stop\<close> reads the clock for an unset date (\<open>now\<close>) and for the duration (\<open>now'\<close>).\<close>

definition exec_Stop :: "time \<Rightarrow> time \<Rightarrow> result \<Rightarrow> execution \<Rightarrow> execution" where
  "exec_Stop now now' err e =
     (let date = (if IsZero (e_Date e) then now else e_Date e);
          d = now' - date;
          e1 = e\<lparr>e_IsRunning := False, e_Date := date,
                 e_Duration := (if d \<le> 0 then 1 else d)\<rparr>
      in if err \<noteq> None \<and> \<not> err_is err ErrSkippedExecution
           then e1\<lparr>e_Error := err, e_Failed := True\<rparr>
         else if err_is err ErrSkippedExecution then e1\<lparr>e_Skipped := True\<rparr>
         else e1)"

definition GetStdout :: "execution \<Rightarrow> string" where
  "GetStdout e = (case e_OutputStream e of Some s \<Rightarrow> s | None \<Rightarrow> e_CapturedStdout e)"

definition GetStderr :: "execution \<Rightarrow> string" where
  "GetStderr e = (case e_ErrorStream e of Some s \<Rightarrow> s | None \<Rightarrow> e_CapturedStderr e)"

text \<open>\<^verbatim>\<open>Execution.Cleanup\<close>; the second component lists the buffers given back to the pool.\<close>

definition exec_Cleanup :: "execution \<Rightarrow> execution \<times> string list" where
  "exec_Cleanup e =
     (let (e1, p1) = (case e_OutputStream e of
            None \<Rightarrow> (e, [])
          | Some s \<Rightarrow> (e\<lparr>e_CapturedStdout := s, e_OutputStream := None\<rparr>, [s]))
      in case e_ErrorStream e1 of
           None \<Rightarrow> (e1, p1)
         | Some s \<Rightarrow> (e1\<lparr>e_CapturedStderr := s, e_ErrorStream := None\<rparr>, p1 @ [s]))"

section \<open>The run state, middlewares and jobs\<close>

record 'w run =
  r_exec :: execution
  r_running :: i32
  r_now :: time
  r_world :: 'w

record 'w middleware =
  mw_type :: string
  mw_ContinueOnStop :: bool
  mw_pre :: "'w run \<Rightarrow> result option"
  mw_stops :: bool
  mw_effect :: "'w run \<Rightarrow> 'w \<times> time"

datatype outcome = Return result | Panicked

type_synonym 'w body = "'w run \<Rightarrow> outcome \<times> 'w \<times> time"

definition NotifyStart :: "i32 \<Rightarrow> i32" where
  "NotifyStart n = n + 1"

definition NotifyStop :: "i32 \<Rightarrow> i32" where
  "NotifyStop n = n - 1"

definition ctx_Start :: "'w run \<Rightarrow> 'w run" where
  "ctx_Start r = r\<lparr>r_exec := exec_Start (r_now r) (r_exec r), r_running := NotifyStart (r_running r)\<rparr>"

definition ctx_Stop :: "result \<Rightarrow> 'w run \<Rightarrow> 'w run" where
  "ctx_Stop err r =
     (if \<not> e_IsRunning (r_exec r) then r
      else r\<lparr>r_exec := exec_Stop (r_now r) (r_now r) err (r_exec r),
             r_running := NotifyStop (r_running r)\<rparr>)"

section \<open>The middleware container\<close>

record 'w container =
  mc_m :: "string \<rightharpoonup> 'w middleware"
  mc_order :: "string list"

definition empty_container :: "'w container" where
  "empty_container = \<lparr>mc_m = Map.empty, mc_order = []\<rparr>"

text \<open>\<^verbatim>\<open>Use\<close>, with \<open>use_one\<close> for its loop body; a nil middleware is an argument \<^term>\<open>None\<close>.\<close>

definition use_one :: "'w middleware \<Rightarrow> 'w container \<Rightarrow> 'w container" where
  "use_one m c =
     (if mc_m c (mw_type m) \<noteq> None then c
      else c\<lparr>mc_order := mc_order c @ [mw_type m], mc_m := (mc_m c)(mw_type m \<mapsto> m)\<rparr>)"

fun Use :: "'w middleware option list \<Rightarrow> 'w container \<Rightarrow> 'w container" where
  "Use [] c = c"
| "Use (None # ms) c = Use ms c"
| "Use (Some m # ms) c = Use ms (use_one m c)"

definition ResetMiddlewares :: "'w middleware option list \<Rightarrow> 'w container \<Rightarrow> 'w container" where
  "ResetMiddlewares ms c = Use ms (c\<lparr>mc_m := Map.empty, mc_order := []\<rparr>)"

definition Middlewares :: "'w container \<Rightarrow> 'w middleware list" where
  "Middlewares c = List.map_filter (mc_m c) (mc_order c)"

definition container_ok :: "'w container \<Rightarrow> bool" where
  [inv_defs]: "container_ok c \<longleftrightarrow>
     distinct (mc_order c) \<and> dom (mc_m c) = set (mc_order c) \<and>
     (\<forall>t m. mc_m c t = Some m \<longrightarrow> mw_type m = t)"

section \<open>The context and the chain\<close>

record 'w ctx =
  c_middlewares :: "'w middleware list"
  c_current :: nat
  c_executed :: bool
  c_run :: "'w run"

definition NewContext :: "'w container \<Rightarrow> 'w run \<Rightarrow> 'w ctx" where
  "NewContext mws r =
     \<lparr>c_middlewares = Middlewares mws, c_current = 0, c_executed = False, c_run = r\<rparr>"

definition c_IsRunning :: "'w ctx \<Rightarrow> bool" where
  "c_IsRunning c = e_IsRunning (r_exec (c_run c))"

definition c_Stop :: "result \<Rightarrow> 'w ctx \<Rightarrow> 'w ctx" where
  "c_Stop err c = c\<lparr>c_run := ctx_Stop err (c_run c)\<rparr>"

text \<open>What a middleware does before and after its call of \<^verbatim>\<open>ctx.Next\<close>.\<close>

definition mw_before :: "'w middleware \<Rightarrow> 'w ctx \<Rightarrow> 'w ctx" where
  "mw_before m c = (case mw_pre m (c_run c) of None \<Rightarrow> c | Some err \<Rightarrow> c_Stop err c)"

definition mw_after :: "'w middleware \<Rightarrow> result \<Rightarrow> 'w ctx \<Rightarrow> 'w ctx" where
  "mw_after m err c =
     (let c1 = (if mw_stops m then c_Stop err c else c);
          (w, t) = mw_effect m (c_run c1)
      in c1\<lparr>c_run := (c_run c1)\<lparr>r_world := w, r_now := t\<rparr>\<rparr>)"

text \<open>The end of \<^verbatim>\<open>doNext\<close>: the job itself.\<close>

definition run_job :: "'w body \<Rightarrow> 'w ctx \<Rightarrow> outcome \<times> 'w ctx" where
  "run_job job c =
     (let (res, w, t) = job (c_run c);
          c1 = c\<lparr>c_executed := True, c_run := (c_run c)\<lparr>r_world := w, r_now := t\<rparr>\<rparr>
      in (case res of
            Panicked \<Rightarrow> (Panicked, c1)
          | Return None \<Rightarrow> (Return None, c1)
          | Return (Some e) \<Rightarrow> (Return (Some (Errorf [Lit ''job run: '', Wrap e])), c1)))"

lemma before_frame [simp]:
  "c_current (mw_before m c) = c_current c"
  "c_middlewares (mw_before m c) = c_middlewares c"
  "c_executed (mw_before m c) = c_executed c"
  by (simp_all add: mw_before_def c_Stop_def split: option.splits)

function Next :: "'w body \<Rightarrow> 'w ctx \<Rightarrow> outcome \<times> 'w ctx"
  and doNext :: "'w body \<Rightarrow> 'w ctx \<Rightarrow> outcome \<times> 'w ctx" where
  "Next job c =
     (case doNext job c of
        (Panicked, c1) \<Rightarrow> (Panicked, c1)
      | (Return err, c1) \<Rightarrow>
          (Return None, if err \<noteq> None \<or> c_executed c1 then c_Stop err c1 else c1))"
| "doNext job c =
     (if c_current c < length (c_middlewares c) then
        let m = c_middlewares c ! c_current c;
            c1 = c\<lparr>c_current := Suc (c_current c)\<rparr>
        in if \<not> c_IsRunning c1 \<and> \<not> mw_ContinueOnStop m then doNext job c1
           else (case Next job (mw_before m c1) of
                   (Panicked, c2) \<Rightarrow> (Panicked, c2)
                 | (Return err, c2) \<Rightarrow>
                     (Return (map_option (\<lambda>e. Errorf [Lit ''middleware run: '', Wrap e]) err),
                      mw_after m err c2))
      else if \<not> c_IsRunning c then (Return None, c)
      else run_job job c)"
  by pat_completeness auto

termination
  by (relation "measure (case_sum
        (\<lambda>(job, c). 2 * (length (c_middlewares c) - c_current c) + 1)
        (\<lambda>(job, c). 2 * (length (c_middlewares c) - c_current c)))") auto

declare Next.simps [simp del] doNext.simps [simp del]

section \<open>The overlap middleware\<close>

definition Overlap :: "bool \<Rightarrow> 'w middleware" where
  "Overlap NoOverlap =
     \<lparr>mw_type = ''*middlewares.Overlap'', mw_ContinueOnStop = False,
      mw_pre = (\<lambda>r. if NoOverlap \<and> 1 <s r_running r
                    then Some (Some (Sentinel ErrSkippedExecution)) else None),
      mw_stops = False, mw_effect = (\<lambda>r. (r_world r, r_now r))\<rparr>"

text \<open>\<^verbatim>\<open>NewOverlap\<close>: nil for the empty configuration.\<close>

definition NewOverlap :: "bool \<Rightarrow> 'w middleware option" where
  "NewOverlap NoOverlap = (if NoOverlap then Some (Overlap NoOverlap) else None)"

section \<open>Job history\<close>

record job_log =
  jl_HistoryLimit :: int
  jl_history :: "execution list"
  jl_lastRun :: "execution option"

definition SetLastRun :: "execution \<Rightarrow> job_log \<Rightarrow> job_log" where
  "SetLastRun e j =
     (let h = jl_history j @ [e]; hl = jl_HistoryLimit j
      in j\<lparr>jl_lastRun := Some e,
           jl_history := (if 0 < hl \<and> hl < int (length h)
                          then drop (length h - nat hl) h else h)\<rparr>)"

definition GetLastRun :: "job_log \<Rightarrow> execution option" where
  "GetLastRun j = jl_lastRun j"

definition GetHistory :: "job_log \<Rightarrow> execution list" where
  "GetHistory j = jl_history j"

section \<open>Stopping\<close>

lemma exec_Stop_simps [simp]:
  "e_IsRunning (exec_Stop now now' err e) \<longleftrightarrow> False"
  "e_ID (exec_Stop now now' err e) = e_ID e"
  "e_OutputStream (exec_Stop now now' err e) = e_OutputStream e"
  "e_ErrorStream (exec_Stop now now' err e) = e_ErrorStream e"
  by (simp_all add: exec_Stop_def Let_def)

lemma exec_Stop_status:
  assumes "\<not> e_Failed e" "\<not> e_Skipped e"
  shows "e_Failed (exec_Stop now now' err e) \<longleftrightarrow> err \<noteq> None \<and> \<not> err_is err ErrSkippedExecution"
    and "e_Skipped (exec_Stop now now' err e) \<longleftrightarrow> err_is err ErrSkippedExecution"
  using assms by (auto simp: exec_Stop_def Let_def)

lemma exec_Stop_positive: "0 < e_Duration (exec_Stop now now' err e)"
  by (simp add: exec_Stop_def Let_def)

lemma ctx_Stop_running [simp]: "\<not> e_IsRunning (r_exec (ctx_Stop err r))"
  by (simp add: ctx_Stop_def)

lemma ctx_Stop_world [simp]: "r_world (ctx_Stop err r) = r_world r" "r_now (ctx_Stop err r) = r_now r"
  by (simp_all add: ctx_Stop_def)

lemma ctx_Stop_idle: "\<not> e_IsRunning (r_exec r) \<Longrightarrow> ctx_Stop err r = r"
  by (simp add: ctx_Stop_def)

text \<open>
  The number of runs of the job that are counted but are not this one. Stopping trades the
  flag for the counter, so it is the quantity that the whole chain keeps.
\<close>

definition others :: "'w run \<Rightarrow> i32" where
  "others r = r_running r - (if e_IsRunning (r_exec r) then 1 else 0)"

lemma others_ctx_Stop [simp]: "others (ctx_Stop err r) = others r"
  by (simp add: others_def ctx_Stop_def NotifyStop_def)

lemma others_world [simp]: "others (r\<lparr>r_world := w, r_now := t\<rparr>) = others r"
  by (simp add: others_def)

lemma others_before [simp]: "others (c_run (mw_before m c)) = others (c_run c)"
  by (simp add: mw_before_def c_Stop_def split: option.splits)

lemma others_after [simp]: "others (c_run (mw_after m err c)) = others (c_run c)"
  by (simp add: mw_after_def c_Stop_def Let_def split: prod.splits)

lemma others_run_job: "run_job job c = (res, c1) \<Longrightarrow> others (c_run c1) = others (c_run c)"
  by (auto simp: run_job_def Let_def split: prod.splits outcome.splits option.splits)

section \<open>The chain\<close>

text \<open>The four ways \<^verbatim>\<open>doNext\<close> goes on: a skipped middleware, a middleware, the end of the chain
  on a stopped and on a running execution.\<close>

lemma doNext_skip:
  assumes "c_current c < length (c_middlewares c)" "\<not> c_IsRunning c"
    "\<not> mw_ContinueOnStop (c_middlewares c ! c_current c)"
  shows "doNext job c = doNext job (c\<lparr>c_current := Suc (c_current c)\<rparr>)"
  using assms by (subst doNext.simps) (simp add: Let_def c_IsRunning_def)

lemma doNext_mw:
  assumes "c_current c < length (c_middlewares c)"
    "c_IsRunning c \<or> mw_ContinueOnStop (c_middlewares c ! c_current c)"
  shows "doNext job c =
     (case Next job (mw_before (c_middlewares c ! c_current c) (c\<lparr>c_current := Suc (c_current c)\<rparr>)) of
        (Panicked, c2) \<Rightarrow> (Panicked, c2)
      | (Return err, c2) \<Rightarrow>
          (Return (map_option (\<lambda>e. Errorf [Lit ''middleware run: '', Wrap e]) err),
           mw_after (c_middlewares c ! c_current c) err c2))"
proof -
  have "\<not> (\<not> c_IsRunning (c\<lparr>c_current := Suc (c_current c)\<rparr>) \<and>
           \<not> mw_ContinueOnStop (c_middlewares c ! c_current c))"
    using assms(2) by (simp add: c_IsRunning_def)
  with assms(1) show ?thesis
    by (subst doNext.simps) (simp only: Let_def if_True if_False simp_thms)
qed

lemma doNext_idle:
  "\<not> c_current c < length (c_middlewares c) \<Longrightarrow> \<not> c_IsRunning c \<Longrightarrow> doNext job c = (Return None, c)"
  by (subst doNext.simps) simp

lemma doNext_job:
  "\<not> c_current c < length (c_middlewares c) \<Longrightarrow> c_IsRunning c \<Longrightarrow> doNext job c = run_job job c"
  by (subst doNext.simps) simp

lemma Next_never_errs: "fst (Next job c) = Return None \<or> fst (Next job c) = Panicked"
  by (subst (1 2) Next.simps) (auto split: prod.splits outcome.splits)

lemma Next_Return: "Next job c = (Return err, c1) \<Longrightarrow> err = None"
  using Next_never_errs [of job c] by simp

lemma Next_ok:
  "doNext job c = (Return err, c1) \<Longrightarrow>
     Next job c = (Return None, if err \<noteq> None \<or> c_executed c1 then c_Stop err c1 else c1)"
  by (subst Next.simps) simp

lemma Next_panic: "doNext job c = (Panicked, c1) \<Longrightarrow> Next job c = (Panicked, c1)"
  by (subst Next.simps) simp

text \<open>An induction over the chain with these cases.\<close>

lemma chain_induct [case_names step skip mw idle job]:
  assumes step: "\<And>c. Q c \<Longrightarrow> P c"
    and skip: "\<And>c. c_current c < length (c_middlewares c) \<Longrightarrow> \<not> c_IsRunning c \<Longrightarrow>
      \<not> mw_ContinueOnStop (c_middlewares c ! c_current c) \<Longrightarrow>
      Q (c\<lparr>c_current := Suc (c_current c)\<rparr>) \<Longrightarrow> Q c"
    and mw: "\<And>c. c_current c < length (c_middlewares c) \<Longrightarrow>
      c_IsRunning c \<or> mw_ContinueOnStop (c_middlewares c ! c_current c) \<Longrightarrow>
      P (mw_before (c_middlewares c ! c_current c) (c\<lparr>c_current := Suc (c_current c)\<rparr>)) \<Longrightarrow> Q c"
    and idle: "\<And>c. \<not> c_current c < length (c_middlewares c) \<Longrightarrow> \<not> c_IsRunning c \<Longrightarrow> Q c"
    and job: "\<And>c. \<not> c_current c < length (c_middlewares c) \<Longrightarrow> c_IsRunning c \<Longrightarrow> Q c"
  shows "P c" "Q c"
proof -
  have "Q c" for c
  proof (induction "length (c_middlewares c) - c_current c" arbitrary: c rule: less_induct)
    case less
    let ?c1 = "c\<lparr>c_current := Suc (c_current c)\<rparr>"
    let ?m = "c_middlewares c ! c_current c"
    show ?case
    proof (cases "c_current c < length (c_middlewares c)")
      case True
      then have d: "length (c_middlewares c) - Suc (c_current c) <
          length (c_middlewares c) - c_current c" by linarith
      show ?thesis
      proof (cases "c_IsRunning c \<or> mw_ContinueOnStop ?m")
        case run: True
        have "Q (mw_before ?m ?c1)" using less [of "mw_before ?m ?c1"] d by simp
        then show ?thesis using mw [OF True run] step by blast
      next
        case sk: False
        have "Q ?c1" using less [of ?c1] d by simp
        with sk show ?thesis using skip [OF True] by blast
      qed
    next
      case False
      then show ?thesis using idle job by blast
    qed
  qed
  then show "P c" "Q c" using step by blast+
qed

lemma others_chain:
  "others (c_run (snd (Next job c))) = others (c_run c)"
  "others (c_run (snd (doNext job c))) = others (c_run c)"
proof (induction c rule: chain_induct)
  case (step c)
  then show ?case
    by (subst Next.simps) (auto simp: c_Stop_def split: prod.splits outcome.splits)
next
  case (skip c)
  then show ?case by (simp add: doNext_skip)
next
  case (mw c)
  then show ?case by (auto simp: doNext_mw split: prod.splits outcome.splits)
next
  case (idle c)
  then show ?case by (simp add: doNext_idle)
next
  case (job c)
  then show ?case by (cases "run_job job c") (auto simp: doNext_job dest: others_run_job)
qed

lemma run_job_running:
  "run_job job c = (res, c1) \<Longrightarrow> c_IsRunning c1 = c_IsRunning c \<and> c_executed c1"
  by (auto simp: run_job_def c_IsRunning_def Let_def split: prod.splits outcome.splits option.splits)

lemma after_running: "\<not> c_IsRunning c \<Longrightarrow> \<not> c_IsRunning (mw_after m err c)"
  by (simp add: mw_after_def c_IsRunning_def c_Stop_def Let_def split: prod.splits)

lemma after_exec: "\<not> c_IsRunning c \<Longrightarrow> r_exec (c_run (mw_after m err c)) = r_exec (c_run c)"
  by (simp add: mw_after_def c_IsRunning_def c_Stop_def ctx_Stop_idle Let_def split: prod.splits)

lemma c_Stop_not_running [simp]: "\<not> c_IsRunning (c_Stop err c)"
  by (simp add: c_IsRunning_def c_Stop_def)

text \<open>
  A chain that returns has stopped the execution; a chain that panics leaves it running.
\<close>

definition settled :: "outcome \<times> 'w ctx \<Rightarrow> bool" where
  "settled rc \<longleftrightarrow> (case fst rc of Panicked \<Rightarrow> c_IsRunning (snd rc) | Return _ \<Rightarrow> \<not> c_IsRunning (snd rc))"

lemma chain_settles:
  "settled (Next job c)"
  "settled (doNext job c) \<or> c_executed (snd (doNext job c)) \<and> fst (doNext job c) \<noteq> Panicked"
proof (induction c rule: chain_induct)
  case (step c)
  then show ?case
    by (subst Next.simps) (auto simp: settled_def split: prod.splits outcome.splits)
next
  case (skip c)
  then show ?case by (simp add: doNext_skip)
next
  case (mw c)
  then show ?case
    by (auto simp: doNext_mw settled_def after_running split: prod.splits outcome.splits)
next
  case (idle c)
  then show ?case by (simp add: doNext_idle settled_def)
next
  case (job c)
  then show ?case
    by (cases "run_job job c") (auto simp: doNext_job settled_def dest: run_job_running split: outcome.splits)
qed

text \<open>
  A measure \<open>cnt\<close> of the world that the middlewares leave alone and that the job body
  increments counts the calls of the body: at most one, and none on a stopped execution.
\<close>

definition counts_body :: "('w \<Rightarrow> nat) \<Rightarrow> 'w body \<Rightarrow> 'w middleware list \<Rightarrow> bool" where
  "counts_body cnt job ms \<longleftrightarrow>
     (\<forall>r. cnt (fst (snd (job r))) = Suc (cnt (r_world r))) \<and>
     (\<forall>m \<in> set ms. \<forall>r. cnt (fst (mw_effect m r)) = cnt (r_world r))"

lemma after_cnt:
  assumes "counts_body cnt job ms" "m \<in> set ms"
  shows "cnt (r_world (c_run (mw_after m err c))) = cnt (r_world (c_run c))"
  using assms
  by (auto simp: mw_after_def counts_body_def c_Stop_def Let_def split: prod.splits)
     (metis ctx_Stop_world(1) fst_conv, metis fst_conv)

lemma before_world [simp]: "r_world (c_run (mw_before m c)) = r_world (c_run c)"
  by (simp add: mw_before_def c_Stop_def split: option.splits)

lemma run_job_cnt:
  assumes "counts_body cnt job ms"
  shows "cnt (r_world (c_run (snd (run_job job c)))) = Suc (cnt (r_world (c_run c)))"
proof -
  obtain res w t where j: "job (c_run c) = (res, w, t)" by (metis prod_cases3)
  have "cnt (fst (snd (job (c_run c)))) = Suc (cnt (r_world (c_run c)))"
    using assms by (simp add: counts_body_def)
  with j show ?thesis by (simp add: run_job_def Let_def split: outcome.splits option.splits)
qed

lemma before_not_running: "\<not> c_IsRunning c \<Longrightarrow> \<not> c_IsRunning (mw_before m c)"
  by (simp add: mw_before_def c_IsRunning_def c_Stop_def split: option.splits)

lemma chain_runs_body_once:
  assumes "counts_body cnt job ms"
  shows "c_middlewares c = ms \<Longrightarrow>
      (let w' = r_world (c_run (snd (Next job c))); w = r_world (c_run c) in
       cnt w \<le> cnt w' \<and> cnt w' \<le> Suc (cnt w) \<and> (\<not> c_IsRunning c \<longrightarrow> cnt w' = cnt w))"
    and "c_middlewares c = ms \<Longrightarrow>
      (let w' = r_world (c_run (snd (doNext job c))); w = r_world (c_run c) in
       cnt w \<le> cnt w' \<and> cnt w' \<le> Suc (cnt w) \<and> (\<not> c_IsRunning c \<longrightarrow> cnt w' = cnt w))"
proof (induction c rule: chain_induct)
  case (step c)
  have "r_world (c_run (snd (Next job c))) = r_world (c_run (snd (doNext job c)))"
    by (subst Next.simps) (auto simp: c_Stop_def split: prod.splits outcome.splits)
  with step show ?case by simp
next
  case (skip c)
  then show ?case by (simp add: doNext_skip c_IsRunning_def)
next
  case (mw c)
  let ?m = "c_middlewares c ! c_current c"
  let ?c1 = "c\<lparr>c_current := Suc (c_current c)\<rparr>"
  have m: "?m \<in> set ms" using mw(1,4) by auto
  have ih: "let w' = r_world (c_run (snd (Next job (mw_before ?m ?c1)))); w = r_world (c_run c) in
       cnt w \<le> cnt w' \<and> cnt w' \<le> Suc (cnt w) \<and> (\<not> c_IsRunning c \<longrightarrow> cnt w' = cnt w)"
    using mw(3,4) before_not_running [of ?c1 ?m] by (auto simp: Let_def c_IsRunning_def)
  obtain res c2 where n: "Next job (mw_before ?m ?c1) = (res, c2)" by fastforce
  have "cnt (r_world (c_run (snd (doNext job c)))) = cnt (r_world (c_run c2))"
    using mw(1,2) n after_cnt [OF assms m]
    by (simp add: doNext_mw split: outcome.splits)
  with ih n show ?case by (simp add: Let_def)
next
  case (idle c)
  then show ?case by (simp add: doNext_idle)
next
  case (job c)
  then show ?case using run_job_cnt [OF assms, of c] by (simp add: doNext_job)
qed

text \<open>
  With no middleware stopping the execution beforehand, the body is called on the initial run
  state and its result decides how the execution ends.
\<close>

definition never_stops :: "'w middleware list \<Rightarrow> bool" where
  "never_stops ms \<longleftrightarrow> (\<forall>m \<in> set ms. \<forall>r. mw_pre m r = None)"

definition job_error :: "result \<Rightarrow> result" where
  "job_error err = map_option (\<lambda>e. Errorf [Lit ''job run: '', Wrap e]) err"

lemma job_error_simps [simp]:
  "job_error err = None \<longleftrightarrow> err = None"
  "err_is (job_error err) t = err_is err t"
  by (cases err; simp add: job_error_def)+

lemma passive_chain:
  assumes pas: "never_stops ms"
  shows "c_middlewares c = ms \<Longrightarrow> c_IsRunning c \<Longrightarrow> job (c_run c) = (Return err, w, t) \<Longrightarrow>
      fst (Next job c) = Return None \<and>
      r_exec (c_run (snd (Next job c))) = exec_Stop t t (job_error err) (r_exec (c_run c))"
    and "c_middlewares c = ms \<Longrightarrow> c_IsRunning c \<Longrightarrow> job (c_run c) = (Return err, w, t) \<Longrightarrow>
      (if c_IsRunning (snd (doNext job c))
       then fst (doNext job c) = Return (job_error err) \<and> c_executed (snd (doNext job c)) \<and>
            r_exec (c_run (snd (doNext job c))) = r_exec (c_run c) \<and>
            r_now (c_run (snd (doNext job c))) = t
       else fst (doNext job c) = Return None \<and>
            r_exec (c_run (snd (doNext job c))) = exec_Stop t t (job_error err) (r_exec (c_run c)))"
proof (induction c rule: chain_induct)
  case (step c)
  obtain o' c1 where d: "doNext job c = (o', c1)" by fastforce
  show ?case using step d
    by (subst (1 2) Next.simps)
       (auto simp: c_Stop_def ctx_Stop_def c_IsRunning_def split: if_splits)
next
  case (skip c)
  then show ?case by simp
next
  case (mw c)
  let ?m = "c_middlewares c ! c_current c"
  let ?c1 = "c\<lparr>c_current := Suc (c_current c)\<rparr>"
  have "?m \<in> set ms" using mw(1,4) by auto
  then have b: "mw_before ?m ?c1 = ?c1" using pas by (simp add: mw_before_def never_stops_def)
  obtain res c2 where n: "Next job ?c1 = (res, c2)" by fastforce
  have ih: "fst (Next job ?c1) = Return None"
    "r_exec (c_run (snd (Next job ?c1))) = exec_Stop t t (job_error err) (r_exec (c_run c))"
    using mw(3-6) b by (simp_all add: c_IsRunning_def)
  then have "res = Return None" and "\<not> c_IsRunning c2" using n by (simp_all add: c_IsRunning_def)
  then show ?case
    using mw(1,2) b n ih(2) by (simp add: doNext_mw after_running after_exec)
next
  case (idle c)
  then show ?case by simp
next
  case (job c)
  then show ?case
    by (cases err) (auto simp: doNext_job run_job_def job_error_def c_IsRunning_def)
qed

lemma passive_chain_counts:
  assumes pas: "never_stops ms" and cnt: "counts_body cnt job ms"
  shows "c_middlewares c = ms \<Longrightarrow> c_IsRunning c \<Longrightarrow> cnt (r_world (c_run (snd (Next job c)))) = Suc (cnt (r_world (c_run c)))"
    and "c_middlewares c = ms \<Longrightarrow> c_IsRunning c \<Longrightarrow> cnt (r_world (c_run (snd (doNext job c)))) = Suc (cnt (r_world (c_run c)))"
proof (induction c rule: chain_induct)
  case (step c)
  have "r_world (c_run (snd (Next job c))) = r_world (c_run (snd (doNext job c)))"
    by (subst Next.simps) (auto simp: c_Stop_def split: prod.splits outcome.splits)
  with step show ?case by simp
next
  case (skip c)
  then show ?case by simp
next
  case (mw c)
  let ?m = "c_middlewares c ! c_current c"
  let ?c1 = "c\<lparr>c_current := Suc (c_current c)\<rparr>"
  have m: "?m \<in> set ms" using mw(1,4) by auto
  then have b: "mw_before ?m ?c1 = ?c1" using pas by (simp add: mw_before_def never_stops_def)
  obtain res c2 where n: "Next job ?c1 = (res, c2)" by fastforce
  have "cnt (r_world (c_run c2)) = Suc (cnt (r_world (c_run c)))"
    using mw(3-5) b n by (simp add: c_IsRunning_def)
  then show ?case using mw(1,2) b n after_cnt [OF cnt m] by (simp add: doNext_mw split: outcome.splits)
next
  case (idle c)
  then show ?case by simp
next
  case (job c)
  then show ?case using run_job_cnt [OF cnt, of c] by (simp add: doNext_job)
qed

lemma passive_chain_panic:
  assumes pas: "never_stops ms"
  shows "c_middlewares c = ms \<Longrightarrow> c_IsRunning c \<Longrightarrow> job (c_run c) = (Panicked, w, t) \<Longrightarrow>
      fst (Next job c) = Panicked"
    and "c_middlewares c = ms \<Longrightarrow> c_IsRunning c \<Longrightarrow> job (c_run c) = (Panicked, w, t) \<Longrightarrow>
      fst (doNext job c) = Panicked"
proof (induction c rule: chain_induct)
  case (step c)
  then show ?case by (subst Next.simps) (auto split: prod.splits outcome.splits)
next
  case (mw c)
  let ?m = "c_middlewares c ! c_current c"
  let ?c1 = "c\<lparr>c_current := Suc (c_current c)\<rparr>"
  have "?m \<in> set ms" using mw(1,4) by auto
  then have b: "mw_before ?m ?c1 = ?c1" using pas by (simp add: mw_before_def never_stops_def)
  then have "fst (Next job ?c1) = Panicked" using mw(3-6) by (simp add: c_IsRunning_def)
  with mw(1,2) b show ?case by (auto simp: doNext_mw split: prod.splits outcome.splits)
qed (simp_all add: doNext_job run_job_def)

section \<open>Facts about the container\<close>

lemma use_one_frame: "mc_m c t = Some m \<Longrightarrow> mc_m (use_one m' c) t = Some m"
  by (auto simp: use_one_def)

lemma use_one_member: "mc_m (use_one m c) (mw_type m) \<noteq> None"
  by (simp add: use_one_def)

lemma use_one_ok:
  assumes "container_ok c"
  shows "container_ok (use_one m c)"
proof (cases "mc_m c (mw_type m)")
  case None
  then have "mw_type m \<notin> set (mc_order c)" using assms by (auto simp: container_ok_def)
  with assms None show ?thesis by (auto simp: container_ok_def use_one_def)
next
  case (Some m')
  with assms show ?thesis by (simp add: use_one_def)
qed

lemma use_one_known: "mc_m c (mw_type m) \<noteq> None \<Longrightarrow> use_one m c = c"
  by (simp add: use_one_def)

lemma Use_frame: "mc_m c t = Some m \<Longrightarrow> mc_m (Use ms c) t = Some m"
  by (induction ms c rule: Use.induct) (auto simp: use_one_frame)

lemma Use_ok: "container_ok c \<Longrightarrow> container_ok (Use ms c)"
  by (induction ms c rule: Use.induct) (auto simp: use_one_ok)

lemma Use_member: "Some m \<in> set ms \<Longrightarrow> mc_m (Use ms c) (mw_type m) \<noteq> None"
proof (induction ms c rule: Use.induct)
  case (3 m' ms c)
  then show ?case using Use_frame use_one_member [of m c] by (cases "m = m'") fastforce+
qed simp_all

lemma Use_known: "(\<And>m. Some m \<in> set ms \<Longrightarrow> mc_m c (mw_type m) \<noteq> None) \<Longrightarrow> Use ms c = c"
  by (induction ms c rule: Use.induct) (auto simp: use_one_known)

lemma Middlewares_types:
  assumes "container_ok c"
  shows "map mw_type (Middlewares c) = mc_order c"
proof -
  have "map mw_type (List.map_filter (mc_m c) ts) = ts" if "set ts \<subseteq> dom (mc_m c)" for ts
    using that
  proof (induction ts)
    case (Cons t ts)
    then obtain m where m: "mc_m c t = Some m" by auto
    with assms have "mw_type m = t" by (simp add: container_ok_def)
    with Cons m show ?case by (simp add: List.map_filter_def)
  qed (simp add: List.map_filter_def)
  with assms show ?thesis by (simp add: Middlewares_def container_ok_def)
qed

interpretation mc: machine empty_container Use container_ok
  by unfold_locales (simp add: container_ok_def empty_container_def, rule Use_ok)

section \<open>Facts about the history\<close>

definition new_log :: "int \<Rightarrow> job_log" where
  "new_log hl = \<lparr>jl_HistoryLimit = hl, jl_history = [], jl_lastRun = None\<rparr>"

definition log_ok :: "int \<Rightarrow> job_log \<Rightarrow> bool" where
  [inv_defs]: "log_ok hl j \<longleftrightarrow> jl_HistoryLimit j = hl \<and>
     (0 < hl \<longrightarrow> int (length (jl_history j)) \<le> hl) \<and>
     jl_lastRun j = (if jl_history j = [] then None else Some (last (jl_history j)))"

lemma last_drop_append: "n \<le> length xs \<Longrightarrow> last (drop n (xs @ [x])) = x"
  by (simp add: last_append)

lemma SetLastRun_ok: "log_ok hl j \<Longrightarrow> log_ok hl (SetLastRun e j)"
  by (auto simp: log_ok_def SetLastRun_def Let_def)

interpretation jl: machine "new_log hl" SetLastRun "log_ok hl" for hl
  by unfold_locales (simp add: log_ok_def new_log_def, rule SetLastRun_ok)

text \<open>The history holds the most recent executions.\<close>

definition recent :: "int \<Rightarrow> 'a list \<Rightarrow> 'a list" where
  "recent hl xs = (if 0 < hl then drop (length xs - nat hl) xs else xs)"

lemma recent_snoc:
  "recent hl (recent hl xs @ [x]) = recent hl (xs @ [x])"
proof (cases "0 < hl \<and> nat hl \<le> length xs")
  case True
  then have "0 < hl" and len: "nat hl \<le> length xs" by auto
  then obtain k where k: "nat hl = Suc k" by (metis Suc_pred' zero_less_nat_eq)
  have "recent hl xs = drop (length xs - Suc k) xs"
    using \<open>0 < hl\<close> k by (simp add: recent_def)
  then show ?thesis
    using \<open>0 < hl\<close> len k by (simp add: recent_def Suc_diff_Suc)
next
  case False
  then show ?thesis by (auto simp: recent_def)
qed

lemma SetLastRun_history:
  "jl_history (SetLastRun e j) = recent (jl_HistoryLimit j) (jl_history j @ [e])"
  by (auto simp: SetLastRun_def recent_def Let_def)

lemma history_fold:
  "jl_history (fold SetLastRun es (new_log hl)) = recent hl es"
proof (induction es rule: rev_induct)
  case Nil
  then show ?case by (simp add: recent_def new_log_def)
next
  case (snoc e es)
  have "jl_HistoryLimit (fold SetLastRun es (new_log hl)) = hl"
    using jl.ok_run [of hl es] by (simp add: log_ok_def)
  with snoc show ?case by (simp add: SetLastRun_history recent_snoc)
qed

section \<open>Properties\<close>

text \<open>(execution_status): an execution that is stopped once has a positive duration, is no longer
  running, and is failed exactly when the error is not nil and does not wrap
  \<^verbatim>\<open>ErrSkippedExecution\<close>, skipped exactly when it wraps it, so never both.\<close>

theorem execution_status:
  assumes "\<not> e_Failed e" "\<not> e_Skipped e"
  shows "let e' = exec_Stop now now' err e in
     \<not> e_IsRunning e' \<and> 0 < e_Duration e' \<and>
     (e_Failed e' \<longleftrightarrow> err \<noteq> None \<and> \<not> err_is err ErrSkippedExecution) \<and>
     (e_Skipped e' \<longleftrightarrow> err_is err ErrSkippedExecution) \<and> \<not> (e_Failed e' \<and> e_Skipped e')"
  using exec_Stop_status [OF assms, of now now' err] exec_Stop_positive [of now now' err e]
  by (auto simp: Let_def)

theorem execution_status_witness:
  "\<not> e_Failed (exec_Stop 5 9 (Some (Errorf [Lit ''job run: '', Wrap (Sentinel ErrSkippedExecution)]))
      (exec_Start 3 (new_execution ''a1'' [] [])))"
proof -
  let ?e = "exec_Start 3 (new_execution ''a1'' [] [])"
  have "\<not> e_Failed ?e" "\<not> e_Skipped ?e" by (simp_all add: exec_Start_def new_execution_def)
  from execution_status [OF this, of 5 9
      "Some (Errorf [Lit ''job run: '', Wrap (Sentinel ErrSkippedExecution)])"]
  show ?thesis by (simp add: Let_def)
qed

text \<open>(buffers_conserved): \<^verbatim>\<open>NewExecution\<close> either keeps both buffers in the execution it
  returns or gives back every buffer it took, and \<^verbatim>\<open>Cleanup\<close> later gives back the two
  buffers while the output stays readable; a second \<^verbatim>\<open>Cleanup\<close> gives back nothing.\<close>

theorem buffers_conserved:
  "(\<forall>e ret. NewExecution g1 g2 i = (Inl e, ret) \<longrightarrow>
      ret = (case g1 of Inl _ \<Rightarrow> [] | Inr b1 \<Rightarrow> (case g2 of Inl _ \<Rightarrow> [b1] | Inr b2 \<Rightarrow> [b1, b2]))) \<and>
   (\<forall>x ret. NewExecution g1 g2 i = (Inr x, ret) \<longrightarrow> ret = [] \<and>
      (\<exists>b1 b2. g1 = Inr b1 \<and> g2 = Inr b2 \<and> snd (exec_Cleanup x) = [b1, b2] \<and>
         GetStdout (fst (exec_Cleanup x)) = b1 \<and> GetStderr (fst (exec_Cleanup x)) = b2 \<and>
         snd (exec_Cleanup (fst (exec_Cleanup x))) = []))"
  by (auto simp: NewExecution_def new_execution_def exec_Cleanup_def GetStdout_def GetStderr_def
      split: sum.splits)

theorem buffers_conserved_witness:
  "snd (exec_Cleanup (new_execution ''id'' ''o'' ''e'')) = [''o'', ''e'']"
  using buffers_conserved [of "Inr ''o''" "Inr ''e''" "Inr ''id''"]
  by (simp add: NewExecution_def new_execution_def)

text \<open>(history_is_recent_runs): after any sequence of runs the history holds the last
  \<^verbatim>\<open>HistoryLimit\<close> of them in order (all of them for a limit of 0 or less) and the last run
  is its last element.\<close>

theorem history_is_recent_runs:
  "let j = fold SetLastRun es (new_log hl) in
     GetHistory j = (if 0 < hl then drop (length es - nat hl) es else es) \<and>
     GetLastRun j = (if GetHistory j = [] then None else Some (last (GetHistory j)))"
  using history_fold [of es hl] jl.ok_run [of hl es]
  by (simp add: Let_def GetHistory_def GetLastRun_def log_ok_def recent_def)

text \<open>(middlewares_registered_once): whatever is passed to \<^verbatim>\<open>Use\<close>, the chain has one middleware
  per type, in the order of first registration; what is registered stays; and passing the
  same middlewares again changes nothing.\<close>

theorem middlewares_registered_once:
  "let c = fold Use mss empty_container in
     distinct (map mw_type (Middlewares c)) \<and> map mw_type (Middlewares c) = mc_order c \<and>
     (\<forall>t m ms. mc_m c t = Some m \<longrightarrow> mc_m (Use ms c) t = Some m) \<and>
     (\<forall>ms. Use ms (Use ms c) = Use ms c)"
proof -
  let ?c = "fold Use mss empty_container"
  have ok: "container_ok ?c" by (rule mc.ok_run)
  have "Use ms (Use ms ?c) = Use ms ?c" for ms by (intro Use_known Use_member)
  with ok show ?thesis
    by (simp add: Let_def Middlewares_types Use_frame) (simp add: container_ok_def)
qed

theorem middlewares_registered_once_witness:
  "map mw_type (Middlewares (Use [None, Some (Overlap True), Some (Overlap True)] empty_container))
     = [''*middlewares.Overlap'']"
  using middlewares_registered_once [of "[[None, Some (Overlap True :: unit middleware), Some (Overlap True)]]"]
  by (simp add: Let_def Overlap_def empty_container_def Middlewares_def List.map_filter_def use_one_def)

end
