(* ===== verification/Workflow.thy ===== *)
theory Workflow
  imports Execution
begin

text \<open>
  Job definitions (\<^verbatim>\<open>BareJob\<close> of \<^verbatim>\<open>src/core/bare_job.go\<close>) and the wiring of the dependencies
  between jobs (\<^verbatim>\<open>src/core/workflow.go\<close>): the edges are collected from the configuration,
  their end points are checked, and go-cron is asked to add them one by one. go-cron is not
  part of the program; its \<^verbatim>\<open>AddDependencyByName\<close> is an argument, and what its documentation
  promises (it refuses unknown entries and edges that close a cycle) is the predicate
  \<open>cron_dag_laws\<close>.
\<close>

section \<open>Jobs\<close>

text \<open>The fields of \<^verbatim>\<open>BareJob\<close> the scheduler reads or writes; every job type embeds one.\<close>

record 'w bare_job =
  bj_Schedule :: string
  bj_Name :: string
  bj_Command :: string
  bj_RunOnStartup :: bool
  bj_Dependencies :: "string list"
  bj_OnSuccess :: "string list"
  bj_OnFailure :: "string list"
  bj_mws :: "'w container"
  bj_cronID :: u64

section \<open>Edges\<close>

datatype TriggerCondition = OnSuccess | OnFailure

record dependencyEdge =
  de_child :: string
  de_parent :: string
  de_condition :: TriggerCondition

definition edge :: "string \<Rightarrow> string \<Rightarrow> TriggerCondition \<Rightarrow> dependencyEdge" where
  "edge ch p k = \<lparr>de_child = ch, de_parent = p, de_condition = k\<rparr>"

definition job_edges :: "'w bare_job \<Rightarrow> dependencyEdge list" where
  "job_edges j =
     map (\<lambda>parent. edge (bj_Name j) parent OnSuccess) (bj_Dependencies j) @
     map (\<lambda>target. edge target (bj_Name j) OnSuccess) (bj_OnSuccess j) @
     map (\<lambda>target. edge target (bj_Name j) OnFailure) (bj_OnFailure j)"

primrec collectDependencyEdges :: "'w bare_job list \<Rightarrow> dependencyEdge list" where
  "collectDependencyEdges [] = []"
| "collectDependencyEdges (j # js) = job_edges j @ collectDependencyEdges js"

primrec check_edges :: "string set \<Rightarrow> dependencyEdge list \<Rightarrow> result" where
  "check_edges jobSet [] = None"
| "check_edges jobSet (e # es) =
     (if de_child e \<notin> jobSet
      then Some (Errorf [Wrap (Sentinel ErrJobNotFound), Lit '': dependency target '',
             Quoted (de_child e), Lit '' not found''])
      else if de_parent e \<notin> jobSet
      then Some (Errorf [Wrap (Sentinel ErrJobNotFound), Lit '': dependency parent '',
             Quoted (de_parent e), Lit '' not found''])
      else check_edges jobSet es)"

definition validateEdgeTargets :: "'w bare_job list \<Rightarrow> dependencyEdge list \<Rightarrow> result" where
  "validateEdgeTargets jobs edges = check_edges (bj_Name ` set jobs) edges"

text \<open>
  \<open>is_cycle err\<close> is \<^verbatim>\<open>errors.Is(err, cron.ErrCycleDetected)\<close>, \<open>add\<close> is \<^verbatim>\<open>AddDependencyByName\<close>.
\<close>

type_synonym 'c add_dependency = "string \<Rightarrow> string \<Rightarrow> TriggerCondition \<Rightarrow> 'c \<Rightarrow> result \<times> 'c"

primrec wireEdges ::
  "(go_error \<Rightarrow> bool) \<Rightarrow> 'c add_dependency \<Rightarrow> dependencyEdge list \<Rightarrow> 'c \<Rightarrow> result \<times> 'c" where
  "wireEdges is_cycle add [] c = (None, c)"
| "wireEdges is_cycle add (e # es) c =
     (case add (de_child e) (de_parent e) (de_condition e) c of
        (Some err, c') \<Rightarrow>
          (if is_cycle err
           then (Some (Errorf [Wrap (Sentinel ErrCircularDependency), Lit '': '', Wrap err,
                   Lit '' (edge: '', Str (de_parent e), Lit '' -> '', Str (de_child e), Lit '')'']), c')
           else (Some (Errorf [Wrap (Sentinel ErrWorkflowInvalid), Lit '': failed to add dependency '',
                   Str (de_parent e), Lit '' -> '', Str (de_child e), Lit '': '', Wrap err]), c'))
      | (None, c') \<Rightarrow> wireEdges is_cycle add es c')"

definition BuildWorkflowDependencies ::
  "(go_error \<Rightarrow> bool) \<Rightarrow> 'c add_dependency \<Rightarrow> 'w bare_job list \<Rightarrow> 'c \<Rightarrow> result \<times> 'c" where
  "BuildWorkflowDependencies is_cycle add jobs c =
     (let edges = collectDependencyEdges jobs in
      if edges = [] then (None, c)
      else case validateEdgeTargets jobs edges of
             Some err \<Rightarrow> (Some err, c)
           | None \<Rightarrow> wireEdges is_cycle add edges c)"

section \<open>What go-cron promises\<close>

definition edge_graph :: "dependencyEdge list \<Rightarrow> (string \<times> string) set" where
  "edge_graph es = (\<lambda>e. (de_parent e, de_child e)) ` set es"

text \<open>
  \<open>entries c\<close> are the names of the entries of the scheduler \<open>c\<close> and \<open>deps c\<close> its dependency
  edges. An edge is added iff both ends are entries and the graph stays acyclic; otherwise
  nothing changes, and the error is the cycle error iff only the cycle is in the way.
\<close>

definition cron_dag_laws ::
  "('c \<Rightarrow> string set) \<Rightarrow> ('c \<Rightarrow> dependencyEdge list) \<Rightarrow> (go_error \<Rightarrow> bool) \<Rightarrow> 'c add_dependency \<Rightarrow> bool"
where
  "cron_dag_laws entries deps is_cycle add \<longleftrightarrow>
     (\<forall>ch p k c.
        let ok = (ch \<in> entries c \<and> p \<in> entries c); es = deps c @ [edge ch p k] in
        case add ch p k c of
          (None, c') \<Rightarrow> ok \<and> acyclic (edge_graph es) \<and> deps c' = es \<and> entries c' = entries c
        | (Some err, c') \<Rightarrow> c' = c \<and> \<not> (ok \<and> acyclic (edge_graph es)) \<and> (is_cycle err \<longleftrightarrow> ok))"

section \<open>Facts\<close>

lemma edge_sel [simp]:
  "de_child (edge ch p k) = ch" "de_parent (edge ch p k) = p" "de_condition (edge ch p k) = k"
  by (simp_all add: edge_def)

lemma edge_eta [simp]: "edge (de_child e) (de_parent e) (de_condition e) = e"
  by (simp add: edge_def)

lemma edge_graph_append [simp]: "edge_graph (xs @ ys) = edge_graph xs \<union> edge_graph ys"
  by (auto simp: edge_graph_def)

lemma edge_graph_Cons [simp]: "edge_graph (e # es) = insert (de_parent e, de_child e) (edge_graph es)"
  by (simp add: edge_graph_def)

lemma edge_graph_Nil [simp]: "edge_graph [] = {}"
  by (simp add: edge_graph_def)

lemma acyclic_empty: "acyclic {}"
  by (simp add: acyclic_def)

lemma set_collect: "set (collectDependencyEdges js) = (\<Union>j\<in>set js. set (job_edges j))"
  by (induction js) auto

lemma check_edges_None:
  "check_edges N es = None \<longleftrightarrow> (\<forall>e\<in>set es. de_child e \<in> N \<and> de_parent e \<in> N)"
  by (induction es) auto

lemma check_edges_Some: "check_edges N es = Some err \<Longrightarrow> errors_Is err ErrJobNotFound"
  by (induction es) (auto split: if_splits)

lemma cron_dag_add:
  assumes "cron_dag_laws entries deps is_cycle add" "add ch p k c = (None, c')"
  shows "ch \<in> entries c \<and> p \<in> entries c \<and> acyclic (edge_graph (deps c @ [edge ch p k])) \<and>
    deps c' = deps c @ [edge ch p k] \<and> entries c' = entries c"
  using assms(1) [unfolded cron_dag_laws_def Let_def, rule_format, where ch = ch and p = p and k = k and c = c] assms(2) by auto

lemma cron_dag_refuse:
  assumes "cron_dag_laws entries deps is_cycle add" "add ch p k c = (Some err, c')"
    "ch \<in> entries c" "p \<in> entries c"
  shows "c' = c \<and> \<not> acyclic (edge_graph (deps c @ [edge ch p k])) \<and> is_cycle err"
  using assms(1) [unfolded cron_dag_laws_def Let_def, rule_format, where ch = ch and p = p and k = k and c = c] assms(2-) by auto

text \<open>The loop adds a prefix of the edges, up to the first one that closes a cycle.\<close>

lemma wireEdges_prefix:
  assumes laws: "cron_dag_laws entries deps is_cycle add"
    and known: "\<forall>e\<in>set es. de_child e \<in> entries c \<and> de_parent e \<in> entries c"
    and wired: "wireEdges is_cycle add es c = (r, c')"
  shows "(r = None \<longrightarrow> deps c' = deps c @ es \<and> (es \<noteq> [] \<longrightarrow> acyclic (edge_graph (deps c @ es)))) \<and>
    (r \<noteq> None \<longrightarrow> err_is r ErrCircularDependency \<and>
       (\<exists>pre e post. es = pre @ e # post \<and> deps c' = deps c @ pre \<and>
          \<not> acyclic (edge_graph (deps c @ pre @ [e]))))"
  using known wired
proof (induction es arbitrary: c)
  case Nil
  then show ?case by simp
next
  case (Cons e es)
  obtain r1 c1 where a: "add (de_child e) (de_parent e) (de_condition e) c = (r1, c1)"
    by fastforce
  show ?case
  proof (cases r1)
    case None
    note d = cron_dag_add [OF laws, of "de_child e" "de_parent e" "de_condition e" c c1]
    have d1: "deps c1 = deps c @ [e]" "entries c1 = entries c" "acyclic (edge_graph (deps c @ [e]))"
      using d a None by auto
    have w: "wireEdges is_cycle add es c1 = (r, c')" using Cons.prems(2) a None by simp
    note ih = Cons.IH [OF _ w]
    show ?thesis
    proof (cases "r = None")
      case True
      then show ?thesis using ih Cons.prems(1) d1 w by (cases es) auto
    next
      case False
      then obtain pre e' post where "es = pre @ e' # post" "deps c' = deps c @ (e # pre)"
        "\<not> acyclic (edge_graph (deps c @ (e # pre) @ [e']))" "err_is r ErrCircularDependency"
        using ih Cons.prems(1) d1 by auto
      then show ?thesis by (metis False append_Cons)
    qed
  next
    case (Some err)
    note d = cron_dag_refuse [OF laws, of "de_child e" "de_parent e" "de_condition e" c err c1]
    have d1: "c1 = c" "\<not> acyclic (edge_graph (deps c @ [e]))" "is_cycle err"
      using d a Some Cons.prems(1) by auto
    have rc: "r = Some (Errorf [Wrap (Sentinel ErrCircularDependency), Lit '': '', Wrap err,
                   Lit '' (edge: '', Str (de_parent e), Lit '' -> '', Str (de_child e), Lit '')''])" "c' = c"
      using Cons.prems(2) a Some d1 by auto
    have "\<exists>pre x post. e # es = pre @ x # post \<and> deps c' = deps c @ pre \<and>
        \<not> acyclic (edge_graph (deps c @ pre @ [x]))"
      by (rule exI [of _ "[]"]) (use d1 rc in auto)
    moreover have "err_is r ErrCircularDependency" by (simp add: rc err_is_def)
    ultimately show ?thesis using rc by simp
  qed
qed

section \<open>Properties\<close>

text \<open>C21 (workflow_accepted_iff): the wiring of the workflow succeeds exactly when every job that a
  dependency names exists and the dependency graph has no cycle; then go-cron has exactly the
  edges that the configuration declares: \<^verbatim>\<open>depends-on\<close> from the parent, \<^verbatim>\<open>on-success\<close> and
  \<^verbatim>\<open>on-failure\<close> to the target.\<close>

theorem workflow_accepted_iff:
  assumes "cron_dag_laws entries deps is_cycle add" "deps c = []" "entries c = bj_Name ` set jobs"
  shows "let es = collectDependencyEdges jobs; (r, c') = BuildWorkflowDependencies is_cycle add jobs c in
    (r = None \<longleftrightarrow> (\<forall>e\<in>set es. de_child e \<in> bj_Name ` set jobs \<and> de_parent e \<in> bj_Name ` set jobs) \<and>
                 acyclic (edge_graph es)) \<and>
    (r = None \<longrightarrow> deps c' = es) \<and>
    (edge ch p k \<in> set es \<longleftrightarrow>
       (\<exists>j\<in>set jobs. bj_Name j = ch \<and> p \<in> set (bj_Dependencies j) \<and> k = OnSuccess) \<or>
       (\<exists>j\<in>set jobs. bj_Name j = p \<and> ch \<in> set (bj_OnSuccess j) \<and> k = OnSuccess) \<or>
       (\<exists>j\<in>set jobs. bj_Name j = p \<and> ch \<in> set (bj_OnFailure j) \<and> k = OnFailure))"
proof -
  let ?es = "collectDependencyEdges jobs" and ?N = "bj_Name ` set jobs"
  obtain r c' where b: "BuildWorkflowDependencies is_cycle add jobs c = (r, c')" by fastforce
  have mem: "edge ch p k \<in> set ?es \<longleftrightarrow>
       (\<exists>j\<in>set jobs. bj_Name j = ch \<and> p \<in> set (bj_Dependencies j) \<and> k = OnSuccess) \<or>
       (\<exists>j\<in>set jobs. bj_Name j = p \<and> ch \<in> set (bj_OnSuccess j) \<and> k = OnSuccess) \<or>
       (\<exists>j\<in>set jobs. bj_Name j = p \<and> ch \<in> set (bj_OnFailure j) \<and> k = OnFailure)"
    by (auto simp: set_collect job_edges_def edge_def)
  have "(r = None \<longleftrightarrow> check_edges ?N ?es = None \<and> acyclic (edge_graph ?es)) \<and> (r = None \<longrightarrow> deps c' = ?es)"
  proof (cases "?es = [] \<or> check_edges ?N ?es \<noteq> None")
    case True
    then show ?thesis using b assms(2)
      by (auto simp: BuildWorkflowDependencies_def validateEdgeTargets_def Let_def acyclic_empty split: if_splits)
  next
    case False
    then have w: "wireEdges is_cycle add ?es c = (r, c')" and ok: "check_edges ?N ?es = None"
      using b by (auto simp: BuildWorkflowDependencies_def validateEdgeTargets_def Let_def split: option.splits)
    have known: "\<forall>e\<in>set ?es. de_child e \<in> entries c \<and> de_parent e \<in> entries c"
      using ok assms(3) by (simp add: check_edges_None)
    note pre = wireEdges_prefix [OF assms(1) known w]
    show ?thesis
    proof (cases "r = None")
      case True
      then show ?thesis using pre ok False assms(2) by auto
    next
      case r: False
      then obtain pr e post where "?es = pr @ e # post" "\<not> acyclic (edge_graph (pr @ [e]))"
        using pre assms(2) by auto
      moreover have "edge_graph (pr @ [e]) \<subseteq> edge_graph (pr @ e # post)" by auto
      ultimately show ?thesis using r by (metis acyclic_subset)
    qed
  qed
  then show ?thesis by (simp add: b mem check_edges_None)
qed

text \<open>A concrete scheduler that keeps entry names and edges.\<close>

definition list_add :: "(string list \<times> dependencyEdge list) add_dependency" where
  "list_add ch p k c =
     (case c of (ns, es) \<Rightarrow>
        if ch \<notin> set ns \<or> p \<notin> set ns then (Some (Opaque 1 ''entry not found''), c)
        else if \<not> acyclic (edge_graph (es @ [edge ch p k])) then (Some (Opaque 2 ''cycle''), c)
        else (None, ns, es @ [edge ch p k]))"

definition list_is_cycle :: "go_error \<Rightarrow> bool" where
  "list_is_cycle e \<longleftrightarrow> e = Opaque 2 ''cycle''"

lemma list_add_laws: "cron_dag_laws (set \<circ> fst) snd list_is_cycle list_add"
  by (auto simp: cron_dag_laws_def list_add_def list_is_cycle_def Let_def split: prod.splits)

definition plain_job :: "string \<Rightarrow> string list \<Rightarrow> unit bare_job" where
  "plain_job n ds = \<lparr>bj_Schedule = ''@daily'', bj_Name = n, bj_Command = [], bj_RunOnStartup = False,
     bj_Dependencies = ds, bj_OnSuccess = [], bj_OnFailure = [], bj_mws = empty_container, bj_cronID = 0\<rparr>"

theorem workflow_accepted_iff_witness:
  "fst (BuildWorkflowDependencies list_is_cycle list_add
      [plain_job ''a'' [], plain_job ''b'' [''a'']] ([''a'', ''b''], [])) = None \<and>
   fst (BuildWorkflowDependencies list_is_cycle list_add
      [plain_job ''a'' [''b''], plain_job ''b'' [''a'']] ([''a'', ''b''], [])) \<noteq> None"
proof -
  let ?js1 = "[plain_job ''a'' [], plain_job ''b'' [''a'']]"
  let ?js2 = "[plain_job ''a'' [''b''], plain_job ''b'' [''a'']]"
  have e1: "collectDependencyEdges ?js1 = [edge ''b'' ''a'' OnSuccess]"
    and e2: "collectDependencyEdges ?js2 = [edge ''a'' ''b'' OnSuccess, edge ''b'' ''a'' OnSuccess]"
    by (simp_all add: plain_job_def job_edges_def)
  have n: "bj_Name ` set ?js1 = {''a'', ''b''}" "bj_Name ` set ?js2 = {''a'', ''b''}"
    by (simp_all add: plain_job_def)
  have cyc: "\<not> acyclic {(''b'', ''a''), (''a'', ''b'')}" and ac: "acyclic {(''a'', ''b'')}"
    by (auto simp: acyclic_insert acyclic_empty)
  note w = workflow_accepted_iff [OF list_add_laws, where c = "([''a'', ''b''], [])"]
  note w1 = w [where jobs = ?js1, unfolded e1 n Let_def case_prod_beta]
  note w2 = w [where jobs = ?js2, unfolded e2 n Let_def case_prod_beta]
  have "fst (BuildWorkflowDependencies list_is_cycle list_add ?js1 ([''a'', ''b''], [])) = None"
    using w1 [THEN conjunct1] ac by simp
  moreover have "fst (BuildWorkflowDependencies list_is_cycle list_add ?js2 ([''a'', ''b''], [])) \<noteq> None"
    using w2 [THEN conjunct1] cyc by (simp add: insert_commute)
  ultimately show ?thesis by blast
qed

text \<open>(workflow_failure_partial): a dependency on a job that does not exist leaves go-cron without
  any edge and reports \<^verbatim>\<open>ErrJobNotFound\<close>; a cycle is reported as \<^verbatim>\<open>ErrCircularDependency\<close> and
  leaves the edges before the one that closes it, which are not rolled back.\<close>

theorem workflow_failure_partial:
  assumes "cron_dag_laws entries deps is_cycle add" "deps c = []" "entries c = bj_Name ` set jobs"
    "BuildWorkflowDependencies is_cycle add jobs c = (Some err, c')"
  shows "(errors_Is err ErrJobNotFound \<and> c' = c) \<or>
    (errors_Is err ErrCircularDependency \<and>
     (\<exists>pre e post. collectDependencyEdges jobs = pre @ e # post \<and> deps c' = pre \<and>
        \<not> acyclic (edge_graph (pre @ [e]))))"
proof (cases "check_edges (bj_Name ` set jobs) (collectDependencyEdges jobs)")
  case (Some e)
  then show ?thesis using assms(4) check_edges_Some [OF Some]
    by (auto simp: BuildWorkflowDependencies_def validateEdgeTargets_def Let_def split: if_splits)
next
  case None
  then have w: "wireEdges is_cycle add (collectDependencyEdges jobs) c = (Some err, c')"
    using assms(4)
    by (auto simp: BuildWorkflowDependencies_def validateEdgeTargets_def Let_def split: if_splits)
  have known: "\<forall>e\<in>set (collectDependencyEdges jobs). de_child e \<in> entries c \<and> de_parent e \<in> entries c"
    using None assms(3) by (simp add: check_edges_None)
  show ?thesis using wireEdges_prefix [OF assms(1) known w] assms(2) by (simp add: err_is_def)
qed

theorem workflow_failure_partial_witness:
  "\<exists>err c'. BuildWorkflowDependencies list_is_cycle list_add [plain_job ''a'' [''x'']] ([''a''], [])
      = (Some err, c') \<and> (c' = ([''a''], []) \<or> snd c' = [])"
proof -
  let ?b = "BuildWorkflowDependencies list_is_cycle list_add [plain_job ''a'' [''x'']] ([''a''], [])"
  obtain err c' where b: "?b = (Some err, c')"
    by (auto simp: BuildWorkflowDependencies_def validateEdgeTargets_def plain_job_def job_edges_def)
  have "collectDependencyEdges [plain_job ''a'' [''x'']] = [edge ''a'' ''x'' OnSuccess]"
    by (simp add: plain_job_def job_edges_def)
  moreover have "((set \<circ> fst) ([''a''], [] :: dependencyEdge list)) = bj_Name ` set [plain_job ''a'' [''x'']]"
    by (simp add: plain_job_def)
  ultimately have "c' = ([''a''], []) \<or> snd c' = []"
    using workflow_failure_partial [OF list_add_laws _ _ b] by (auto simp: Cons_eq_append_conv)
  with b show ?thesis by blast
qed

end
