(* ===== verification/Semaphore.thy ===== *)
theory Semaphore
  imports Prelude
begin

text \<open>
  The limit on concurrent jobs of \<^verbatim>\<open>src/core/scheduler.go\<close>: \<^verbatim>\<open>concurrencySemaphore\<close>, a buffered
  channel that \<^verbatim>\<open>SetMaxConcurrentJobs\<close> may replace, and \<^verbatim>\<open>maxConcurrentSkipJob\<close>, which reads the
  channel, takes a slot of it in a second step and gives it back to that same channel. A job that
  is running while the channel is replaced holds a slot of the old channel, and so does one that had
  read the channel before. The bounds hold for every interleaving of these steps and replacements.
\<close>

section \<open>Channels\<close>

record sem_chan =
  ch_cap :: nat
  ch_len :: nat

definition make_chan :: "nat \<Rightarrow> sem_chan" where
  "make_chan n = \<lparr>ch_cap = n, ch_len = 0\<rparr>"

definition try_send :: "sem_chan \<Rightarrow> sem_chan option" where
  "try_send ch = (if ch_len ch < ch_cap ch then Some (ch\<lparr>ch_len := Suc (ch_len ch)\<rparr>) else None)"

definition receive :: "sem_chan \<Rightarrow> sem_chan" where
  "receive ch = ch\<lparr>ch_len := ch_len ch - 1\<rparr>"

interpretation chp: slot_pool ch_len ch_cap try_send receive
  by unfold_locales (auto simp: try_send_def receive_def split: if_splits)

section \<open>The semaphore\<close>

text \<open>\<open>cs_chans\<close> holds the channels made so far, \<open>cs_ch\<close> the index of the one in the field \<^verbatim>\<open>ch\<close>.\<close>

record concurrencySemaphore =
  cs_chans :: "sem_chan list"
  cs_ch :: nat
  cs_cap :: nat

definition newConcurrencySemaphore :: "nat \<Rightarrow> concurrencySemaphore" where
  "newConcurrencySemaphore n = \<lparr>cs_chans = [make_chan n], cs_ch = 0, cs_cap = n\<rparr>"

definition resize :: "nat \<Rightarrow> concurrencySemaphore \<Rightarrow> concurrencySemaphore" where
  "resize n cs = cs\<lparr>cs_chans := cs_chans cs @ [make_chan n], cs_ch := length (cs_chans cs), cs_cap := n\<rparr>"

definition getChan :: "concurrencySemaphore \<Rightarrow> nat" where
  "getChan cs = cs_ch cs"

definition getCap :: "concurrencySemaphore \<Rightarrow> nat" where
  "getCap cs = cs_cap cs"

text \<open>The steps of \<^verbatim>\<open>maxConcurrentSkipJob.RunWithContext\<close> after \<^verbatim>\<open>getChan\<close>: the \<^verbatim>\<open>select\<close> that takes a
  slot of the channel \<open>k\<close> it has read or skips the run, and the deferred receive on that channel.\<close>

definition skip_select :: "nat \<Rightarrow> concurrencySemaphore \<Rightarrow> bool \<times> concurrencySemaphore" where
  "skip_select k cs =
     (case try_send (cs_chans cs ! k) of
        Some ch \<Rightarrow> (True, cs\<lparr>cs_chans := (cs_chans cs)[k := ch]\<rparr>)
      | None \<Rightarrow> (False, cs))"

definition skip_leave :: "nat \<Rightarrow> concurrencySemaphore \<Rightarrow> concurrencySemaphore" where
  "skip_leave k cs = cs\<lparr>cs_chans := (cs_chans cs)[k := receive (cs_chans cs ! k)]\<rparr>"

text \<open>The whole call, when nothing else happens meanwhile; the third component tells whether the
  run was skipped.\<close>

definition skip_RunWithContext ::
  "('s \<Rightarrow> 's) \<Rightarrow> concurrencySemaphore \<Rightarrow> 's \<Rightarrow> concurrencySemaphore \<times> 's \<times> bool" where
  "skip_RunWithContext inner cs s =
     (let k = getChan cs in
      case skip_select k cs of
        (True, cs1) \<Rightarrow> (skip_leave k cs1, inner s, False)
      | (False, cs1) \<Rightarrow> (cs1, s, True))"

section \<open>Interleavings\<close>

text \<open>The state of all callers: the channels that starting jobs have read and not yet tried, and for every job
  in flight the channel it holds a slot of.\<close>

record callers =
  ca_sem :: concurrencySemaphore
  ca_read :: "nat list"
  ca_held :: "nat list"

datatype sem_event = ReadChan | Select nat | EndRun nat | Resize nat

fun sem_step :: "sem_event \<Rightarrow> callers \<Rightarrow> callers" where
  "sem_step ReadChan c = c\<lparr>ca_read := getChan (ca_sem c) # ca_read c\<rparr>"
| "sem_step (Select k) c =
     (if k \<in> set (ca_read c)
      then case skip_select k (ca_sem c) of
             (taken, cs) \<Rightarrow> c\<lparr>ca_sem := cs, ca_read := remove1 k (ca_read c),
                              ca_held := (if taken then k # ca_held c else ca_held c)\<rparr>
      else c)"
| "sem_step (EndRun k) c =
     (if k \<in> set (ca_held c)
      then c\<lparr>ca_sem := skip_leave k (ca_sem c), ca_held := remove1 k (ca_held c)\<rparr> else c)"
| "sem_step (Resize n) c = c\<lparr>ca_sem := resize n (ca_sem c)\<rparr>"

definition no_callers :: "nat \<Rightarrow> callers" where
  "no_callers n = \<lparr>ca_sem = newConcurrencySemaphore n, ca_read = [], ca_held = []\<rparr>"

definition sem_ok :: "callers \<Rightarrow> bool" where
  "sem_ok c \<longleftrightarrow>
     Suc (cs_ch (ca_sem c)) = length (cs_chans (ca_sem c)) \<and> ch_cap (cs_chans (ca_sem c) ! cs_ch (ca_sem c)) = cs_cap (ca_sem c) \<and>
     set (ca_held c) \<subseteq> {..<length (cs_chans (ca_sem c))} \<and> set (ca_read c) \<subseteq> {..<length (cs_chans (ca_sem c))} \<and>
     (\<forall>k < length (cs_chans (ca_sem c)). ch_len (cs_chans (ca_sem c) ! k) = count_list (ca_held c) k \<and>
        ch_len (cs_chans (ca_sem c) ! k) \<le> ch_cap (cs_chans (ca_sem c) ! k))"

definition sem_caps :: "concurrencySemaphore \<Rightarrow> nat list" where
  "sem_caps cs = map ch_cap (cs_chans cs)"

lemma count_list_remove1: "k \<in> set hs \<Longrightarrow> count_list (remove1 k hs) j = count_list hs j - (if j = k then 1 else 0)"
  by (induction hs) (auto simp: count_list_0_iff Suc_diff_le count_notin)

lemma sem_ok_select:
  assumes "sem_ok c"
  shows "sem_ok (sem_step (Select k) c)"
proof (cases "k \<in> set (ca_read c)")
  case True
  moreover have "set (remove1 k (ca_read c)) \<subseteq> set (ca_read c)" by (rule set_remove1_subset)
  ultimately show ?thesis using assms
    by (auto simp: sem_ok_def skip_select_def try_send_def nth_list_update split: option.splits if_splits)
next
  case False
  then show ?thesis using assms by simp
qed

lemma sem_ok_leave:
  assumes "sem_ok c"
  shows "sem_ok (sem_step (EndRun k) c)"
proof (cases "k \<in> set (ca_held c)")
  case True
  then have "0 < count_list (ca_held c) k" using count_list_0_iff [of "ca_held c" k] by simp
  moreover have "set (remove1 k (ca_held c)) \<subseteq> set (ca_held c)" by (rule set_remove1_subset)
  ultimately show ?thesis using assms True
    by (auto simp: sem_ok_def skip_leave_def receive_def nth_list_update count_list_remove1)
next
  case False
  then show ?thesis using assms by simp
qed

lemma sem_ok_resize:
  assumes "sem_ok c"
  shows "sem_ok (sem_step (Resize n) c)"
proof -
  have "count_list (ca_held c) (length (cs_chans (ca_sem c))) = 0"
    using assms by (auto simp: sem_ok_def count_list_0_iff)
  with assms show ?thesis
    by (auto simp: sem_ok_def resize_def make_chan_def nth_append less_Suc_eq)
qed

lemma sem_ok_step: "sem_ok c \<Longrightarrow> sem_ok (sem_step e c)"
proof (cases e)
  case ReadChan
  moreover assume "sem_ok c"
  ultimately show ?thesis by (auto simp: sem_ok_def getChan_def)
qed (auto simp only: sem_ok_select sem_ok_leave sem_ok_resize)

interpretation smm: machine "no_callers n" sem_step sem_ok for n
  by unfold_locales (simp add: no_callers_def sem_ok_def newConcurrencySemaphore_def make_chan_def, rule sem_ok_step)

lemma length_count_list: "set hs \<subseteq> {..<n :: nat} \<Longrightarrow> length hs = (\<Sum>k<n. count_list hs k)"
  by (subst sum_count_set [symmetric, of hs "{..<n}"]) auto

lemma sem_ok_total:
  assumes "sem_ok c"
  shows "length (ca_held c) \<le> sum_list (sem_caps (ca_sem c))"
proof -
  let ?cs = "ca_sem c" and ?hs = "ca_held c"
  have "length ?hs = (\<Sum>k<length (cs_chans ?cs). count_list ?hs k)"
    using assms by (intro length_count_list) (simp add: sem_ok_def)
  also have "\<dots> \<le> (\<Sum>k<length (cs_chans ?cs). sem_caps ?cs ! k)"
    using assms by (intro sum_mono) (auto simp: sem_ok_def sem_caps_def)
  also have "\<dots> = sum_list (sem_caps ?cs)"
    by (simp add: sem_caps_def sum_list_sum_nth atLeast0LessThan)
  finally show ?thesis .
qed

fun resizes :: "sem_event list \<Rightarrow> nat list" where
  "resizes [] = []"
| "resizes (Resize n # es) = n # resizes es"
| "resizes (_ # es) = resizes es"

lemma sem_caps_step: "sem_caps (ca_sem (sem_step e c)) = sem_caps (ca_sem c) @ resizes [e]"
proof -
  have u: "map ch_cap (xs[k := x]) = map ch_cap xs" if "ch_cap x = ch_cap (xs ! k)" for xs k x
    by (metis list_update_id map_update that)
  show ?thesis
    by (cases e) (auto simp: sem_caps_def skip_select_def skip_leave_def resize_def make_chan_def
        try_send_def receive_def u split: option.splits if_splits)
qed

lemma resizes_append: "resizes (es @ fs) = resizes es @ resizes fs"
  by (induction es rule: resizes.induct) simp_all

lemma sem_caps_run: "sem_caps (ca_sem (fold sem_step es c)) = sem_caps (ca_sem c) @ resizes es"
proof (induction es arbitrary: c)
  case (Cons e es)
  then show ?case using sem_caps_step [of e c] resizes_append [of "[e]" es] by simp
qed simp

lemma sem_limits: "sem_caps (ca_sem (fold sem_step es (no_callers n))) = n # resizes es"
  by (simp add: sem_caps_run) (simp add: no_callers_def sem_caps_def newConcurrencySemaphore_def make_chan_def)

section \<open>Properties\<close>

text \<open>C23 (concurrent_jobs_bound): under every interleaving of reads of the channel, attempts to take a slot, job ends
  and replacements of the semaphore, the jobs that hold a slot of the channel with a limit set so far never exceed that limit, the
  current channel is the one of the last limit, all jobs in flight never exceed the sum of the limits (so the initial limit
  alone when it is never replaced), and a job that has read a channel is skipped exactly when
  the holders of that channel, which may have been replaced since, have reached its limit.\<close>

theorem concurrent_jobs_bound:
  assumes "k \<le> length (resizes es)"
  shows "let c = fold sem_step es (no_callers n); limits = n # resizes es in
     count_list (ca_held c) k \<le> limits ! k \<and>
     getChan (ca_sem c) = length (resizes es) \<and> getCap (ca_sem c) = last limits \<and>
     length (ca_held c) \<le> sum_list limits \<and>
     (fst (skip_select k (ca_sem c)) \<longleftrightarrow> count_list (ca_held c) k < limits ! k) \<and>
     set (ca_read c) \<union> set (ca_held c) \<subseteq> {..length (resizes es)}"
proof -
  let ?c = "fold sem_step es (no_callers n)" and ?L = "n # resizes es"
  let ?chans = "cs_chans (ca_sem ?c)"
  have ok: "sem_ok ?c" by (rule smm.ok_run)
  have caps: "map ch_cap ?chans = ?L" using sem_limits [of es n] by (simp add: sem_caps_def)
  have len: "length ?chans = Suc (length (resizes es))" using arg_cong [OF caps, of length] by simp
  then have k: "k < length ?chans" using assms by simp
  have nth: "ch_cap (?chans ! i) = ?L ! i" if "i < length ?chans" for i
    using nth_map [OF that, of ch_cap] unfolding caps by simp
  have cur: "cs_ch (ca_sem ?c) = length (resizes es)" using ok len by (simp add: sem_ok_def)
  have "last ?L = ?L ! length (resizes es)" using last_conv_nth [of ?L] by (simp del: last.simps)
  then have "getCap (ca_sem ?c) = last ?L"
    using ok nth [of "length (resizes es)"] len cur by (simp add: sem_ok_def getCap_def del: last.simps)
  moreover have "count_list (ca_held ?c) k \<le> ?L ! k" "ch_len (?chans ! k) = count_list (ca_held ?c) k"
    using ok k nth [OF k] by (auto simp: sem_ok_def)
  moreover from this have "fst (skip_select k (ca_sem ?c)) \<longleftrightarrow> count_list (ca_held ?c) k < ?L ! k"
    using nth [OF k] by (simp add: skip_select_def try_send_def)
  moreover have "length (ca_held ?c) \<le> sum_list ?L" using sem_ok_total [OF ok] sem_limits [of es n] by simp
  moreover have "set (ca_read ?c) \<union> set (ca_held ?c) \<subseteq> {..length (resizes es)}"
    using ok len by (auto simp: sem_ok_def less_Suc_eq_le)
  ultimately show ?thesis using cur by (simp add: Let_def getChan_def)
qed

text \<open>A job that has read the channel before it is replaced still takes a slot of the old one.\<close>

theorem concurrent_jobs_bound_witness:
  "count_list (ca_held (fold sem_step [ReadChan, Resize 1, Select 0, ReadChan, Select 1, ReadChan, Select 1] (no_callers 2))) 1 \<le> 1"
proof -
  define es where "es = [ReadChan, Resize 1, Select 0, ReadChan, Select 1, ReadChan, Select 1]"
  have r: "resizes es = [1]" by (simp add: es_def)
  then have "count_list (ca_held (fold sem_step es (no_callers 2))) 1 \<le> 1"
    using concurrent_jobs_bound [of 1 es 2] by (simp add: Let_def)
  then show ?thesis unfolding es_def .
qed

end
