(* ===== verification/Scheduler.thy ===== *)
theory Scheduler
  imports Workflow Semaphore
begin

text \<open>
  The scheduler's registry of jobs (\<^verbatim>\<open>src/core/scheduler.go\<close>). A job is a pointer: the slice
  \<^verbatim>\<open>Jobs\<close>, the map \<^verbatim>\<open>jobsByName\<close> and the list \<^verbatim>\<open>Removed\<close> hold references, and
  \<^verbatim>\<open>SetCronJobID\<close> and \<^verbatim>\<open>Use\<close> change the object behind a reference (the field \<open>s_heap\<close>). go-cron
  is not part of the program: the methods of \<^verbatim>\<open>cron.Cron\<close> that the scheduler calls are the fields
  of an argument of type \<open>cron_api\<close>, and the documented behaviour the scheduler relies on (entries
  have unique names and identifiers, removal by name and by tag) is the predicate \<open>cron_laws\<close>.

  The theory shows that the slice, the map, the set of disabled names and go-cron's entries stay
  consistent under every sequence of operations, that the operations implement a map from names
  to jobs with a flag, and that a job replaced by \<^verbatim>\<open>UpdateJob\<close> falls out of the tag operations.
\<close>

section \<open>go-cron\<close>

type_synonym ref = nat

record cron_entry =
  ce_ID :: nat
  ce_Name :: string
  ce_Tags :: "string list"

record 'c cron_api =
  cr_new :: 'c
  AddJob :: "string \<Rightarrow> ref \<Rightarrow> string \<Rightarrow> string list \<Rightarrow> bool \<Rightarrow> 'c \<Rightarrow> (go_error + nat) \<times> 'c"
  RemoveByName :: "string \<Rightarrow> 'c \<Rightarrow> 'c"
  WaitForJobByName :: "string \<Rightarrow> 'c \<Rightarrow> 'c"
  Entries :: "'c \<Rightarrow> cron_entry list"
  EntriesByTag :: "string \<Rightarrow> 'c \<Rightarrow> cron_entry list"
  RemoveByTag :: "string \<Rightarrow> 'c \<Rightarrow> nat \<times> 'c"
  UpdateEntryJobByName :: "string \<Rightarrow> string \<Rightarrow> ref \<Rightarrow> 'c \<Rightarrow> result \<times> 'c"
  PauseEntryByName :: "string \<Rightarrow> 'c \<Rightarrow> result \<times> 'c"
  ResumeEntryByName :: "string \<Rightarrow> 'c \<Rightarrow> result \<times> 'c"
  TriggerEntryByName :: "string \<Rightarrow> 'c \<Rightarrow> result \<times> 'c"
  AddDependencyByName :: "'c add_dependency"
  is_ErrCycleDetected :: "go_error \<Rightarrow> bool"
  cron_Start :: "'c \<Rightarrow> 'c"
  cron_StopWithTimeout :: "duration \<Rightarrow> 'c \<Rightarrow> bool \<times> 'c"
  cron_IsRunning :: "'c \<Rightarrow> bool"

section \<open>State\<close>

record ('c, 'w) Scheduler =
  s_heap :: "ref \<Rightarrow> 'w bare_job"
  s_Jobs :: "ref list"
  s_Removed :: "ref list"
  s_mws :: "'w container"
  s_cron :: 'c
  s_maxConcurrentJobs :: int
  s_concurrencySem :: concurrencySemaphore
  s_jobsByName :: "string \<rightharpoonup> ref"
  s_disabledNames :: "string set"

abbreviation name_of :: "('c, 'w) Scheduler \<Rightarrow> ref \<Rightarrow> string" where
  "name_of s r \<equiv> bj_Name (s_heap s r)"

abbreviation id_of :: "('c, 'w) Scheduler \<Rightarrow> ref \<Rightarrow> u64" where
  "id_of s r \<equiv> bj_cronID (s_heap s r)"

definition IsTriggeredSchedule :: "string \<Rightarrow> bool" where
  "IsTriggeredSchedule schedule \<longleftrightarrow>
     schedule = ''@triggered'' \<or> schedule = ''@manual'' \<or> schedule = ''@none''"

definition newSchedulerInternal ::
  "'c cron_api \<Rightarrow> (ref \<Rightarrow> 'w bare_job) \<Rightarrow> ('c, 'w) Scheduler" where
  "newSchedulerInternal cr h =
     \<lparr>s_heap = h, s_Jobs = [], s_Removed = [], s_mws = empty_container, s_cron = cr_new cr,
      s_maxConcurrentJobs = 10, s_concurrencySem = newConcurrencySemaphore 10,
      s_jobsByName = Map.empty, s_disabledNames = {}\<rparr>"

definition SetMaxConcurrentJobs :: "int \<Rightarrow> ('c, 'w) Scheduler \<Rightarrow> ('c, 'w) Scheduler" where
  "SetMaxConcurrentJobs maxJobs s =
     (let n = (if maxJobs < 1 then 1 else maxJobs)
      in s\<lparr>s_maxConcurrentJobs := n, s_concurrencySem := resize (nat n) (s_concurrencySem s)\<rparr>)"

section \<open>Adding and removing jobs\<close>

text \<open>\<^verbatim>\<open>j.Use(s.Middlewares()...)\<close> on the object behind a reference\<close>

definition use_global_mws :: "ref \<Rightarrow> ('c, 'w) Scheduler \<Rightarrow> ('c, 'w) Scheduler" where
  "use_global_mws r s =
     (let j = s_heap s r
      in s\<lparr>s_heap := (s_heap s)(r := j\<lparr>bj_mws := Use (map Some (Middlewares (s_mws s))) (bj_mws j)\<rparr>)\<rparr>)"

definition SetCronJobID :: "u64 \<Rightarrow> ref \<Rightarrow> ('c, 'w) Scheduler \<Rightarrow> ('c, 'w) Scheduler" where
  "SetCronJobID i r s = s\<lparr>s_heap := (s_heap s)(r := (s_heap s r)\<lparr>bj_cronID := i\<rparr>)\<rparr>"

definition AddJobWithTags ::
  "'c cron_api \<Rightarrow> ref \<Rightarrow> string list \<Rightarrow> ('c, 'w) Scheduler \<Rightarrow> result \<times> ('c, 'w) Scheduler" where
  "AddJobWithTags cr r tags s =
     (let j = s_heap s r in
      if bj_Schedule j = [] then (Some (Sentinel ErrEmptySchedule), s)
      else
        let s1 = use_global_mws r s in
        case AddJob cr (bj_Schedule j) r (bj_Name j) tags (bj_RunOnStartup j) (s_cron s1) of
          (Inl err, c) \<Rightarrow> (Some (Errorf [Lit ''add cron job: '', Wrap err]), s1\<lparr>s_cron := c\<rparr>)
        | (Inr i, c) \<Rightarrow>
            let s2 = SetCronJobID (of_nat i) r (s1\<lparr>s_cron := c\<rparr>)
            in (None, s2\<lparr>s_Jobs := s_Jobs s2 @ [r], s_jobsByName := (s_jobsByName s2)(bj_Name j \<mapsto> r)\<rparr>))"

fun remove_first :: "('a \<Rightarrow> bool) \<Rightarrow> 'a list \<Rightarrow> 'a list" where
  "remove_first P [] = []"
| "remove_first P (x # xs) = (if P x then xs else x # remove_first P xs)"

definition RemoveJob :: "'c cron_api \<Rightarrow> ref \<Rightarrow> ('c, 'w) Scheduler \<Rightarrow> result \<times> ('c, 'w) Scheduler" where
  "RemoveJob cr r s =
     (let n = name_of s r in
      (None, s\<lparr>s_cron := WaitForJobByName cr n (RemoveByName cr n (s_cron s)),
               s_Jobs := remove_first (\<lambda>j. j = r \<or> id_of s j = id_of s r) (s_Jobs s),
               s_jobsByName := (s_jobsByName s)(n := None),
               s_disabledNames := s_disabledNames s - {n},
               s_Removed := s_Removed s @ [r]\<rparr>))"

text \<open>The search from the end for the job of one entry, and its removal.\<close>

definition drop_entry :: "cron_entry \<Rightarrow> ('c, 'w) Scheduler \<Rightarrow> ('c, 'w) Scheduler" where
  "drop_entry e s =
     (case find (\<lambda>j. id_of s j = of_nat (ce_ID e)) (rev (s_Jobs s)) of
        None \<Rightarrow> s
      | Some j \<Rightarrow>
          s\<lparr>s_jobsByName := (s_jobsByName s)(name_of s j := None),
            s_disabledNames := s_disabledNames s - {name_of s j},
            s_Removed := s_Removed s @ [j],
            s_Jobs := rev (remove_first (\<lambda>j. id_of s j = of_nat (ce_ID e)) (rev (s_Jobs s)))\<rparr>)"

definition RemoveJobsByTag :: "'c cron_api \<Rightarrow> string \<Rightarrow> ('c, 'w) Scheduler \<Rightarrow> nat \<times> ('c, 'w) Scheduler" where
  "RemoveJobsByTag cr tag s =
     (let entries = EntriesByTag cr tag (s_cron s) in
      if entries = [] then (0, s)
      else let (count, c) = RemoveByTag cr tag (s_cron s)
           in (count, fold drop_entry entries (s\<lparr>s_cron := c\<rparr>)))"

definition GetJobsByTag :: "'c cron_api \<Rightarrow> string \<Rightarrow> ('c, 'w) Scheduler \<Rightarrow> ref list" where
  "GetJobsByTag cr tag s =
     List.map_filter (\<lambda>e. find (\<lambda>j. id_of s j = of_nat (ce_ID e)) (s_Jobs s))
       (EntriesByTag cr tag (s_cron s))"

section \<open>Start and stop\<close>

definition sched_Start :: "'c cron_api \<Rightarrow> ('c, 'w) Scheduler \<Rightarrow> result \<times> ('c, 'w) Scheduler" where
  "sched_Start cr s =
     (let byName = fold (\<lambda>r m. m(name_of s r \<mapsto> r)) (s_Jobs s) (s_jobsByName s);
          (_, c) = BuildWorkflowDependencies (is_ErrCycleDetected cr) (AddDependencyByName cr)
                     (map (s_heap s) (s_Jobs s)) (s_cron s)
      in (None, s\<lparr>s_jobsByName := byName, s_cron := cron_Start cr c\<rparr>))"

definition StopWithTimeout ::
  "'c cron_api \<Rightarrow> duration \<Rightarrow> ('c, 'w) Scheduler \<Rightarrow> result \<times> ('c, 'w) Scheduler" where
  "StopWithTimeout cr timeout s =
     (case cron_StopWithTimeout cr timeout (s_cron s) of
        (completed, c) \<Rightarrow>
          (if \<not> completed
           then Some (Errorf [Wrap (Sentinel ErrSchedulerTimeout), Lit '' after '', Dur timeout]) else None,
           s\<lparr>s_cron := c\<rparr>))"

definition sched_Stop :: "'c cron_api \<Rightarrow> ('c, 'w) Scheduler \<Rightarrow> result \<times> ('c, 'w) Scheduler" where
  "sched_Stop cr s = StopWithTimeout cr (30 * second) s"

definition RunJob :: "'c cron_api \<Rightarrow> string \<Rightarrow> ('c, 'w) Scheduler \<Rightarrow> result \<times> ('c, 'w) Scheduler" where
  "RunJob cr jobName s =
     (if s_jobsByName s jobName = None \<or> jobName \<in> s_disabledNames s
      then (Some (Errorf [Wrap (Sentinel ErrJobNotFound), Lit '': '', Str jobName]), s)
      else case TriggerEntryByName cr jobName (s_cron s) of
             (Some err, c) \<Rightarrow>
               (Some (Errorf [Lit ''trigger job '', Str jobName, Lit '': '', Wrap err]), s\<lparr>s_cron := c\<rparr>)
           | (None, c) \<Rightarrow> (None, s\<lparr>s_cron := c\<rparr>))"

section \<open>Queries\<close>

definition GetRemovedJobs :: "('c, 'w) Scheduler \<Rightarrow> ref list" where
  "GetRemovedJobs s = s_Removed s"

definition GetDisabledJobs :: "('c, 'w) Scheduler \<Rightarrow> ref list" where
  "GetDisabledJobs s = filter (\<lambda>j. name_of s j \<in> s_disabledNames s) (s_Jobs s)"

definition GetActiveJobs :: "('c, 'w) Scheduler \<Rightarrow> ref list" where
  "GetActiveJobs s = filter (\<lambda>j. name_of s j \<notin> s_disabledNames s) (s_Jobs s)"

definition getJob :: "('c, 'w) Scheduler \<Rightarrow> string \<Rightarrow> ref option" where
  "getJob s name = find (\<lambda>j. name_of s j = name) (s_Jobs s)"

definition lookupJob :: "string \<Rightarrow> ('c, 'w) Scheduler \<Rightarrow> ref option" where
  "lookupJob name s = s_jobsByName s name"

definition GetAnyJob :: "string \<Rightarrow> ('c, 'w) Scheduler \<Rightarrow> ref option" where
  "GetAnyJob name s = s_jobsByName s name"

definition GetJob :: "string \<Rightarrow> ('c, 'w) Scheduler \<Rightarrow> ref option" where
  "GetJob name s = (if name \<in> s_disabledNames s then None else lookupJob name s)"

definition GetDisabledJob :: "string \<Rightarrow> ('c, 'w) Scheduler \<Rightarrow> ref option" where
  "GetDisabledJob name s = (if name \<notin> s_disabledNames s then None else lookupJob name s)"

section \<open>Replacing, disabling and enabling\<close>

fun replace_first :: "('a \<Rightarrow> bool) \<Rightarrow> 'a \<Rightarrow> 'a list \<Rightarrow> 'a list" where
  "replace_first P y [] = []"
| "replace_first P y (x # xs) = (if P x then y # xs else x # replace_first P y xs)"

definition UpdateJob ::
  "'c cron_api \<Rightarrow> string \<Rightarrow> string \<Rightarrow> ref \<Rightarrow> ('c, 'w) Scheduler \<Rightarrow> result \<times> ('c, 'w) Scheduler" where
  "UpdateJob cr name newSchedule newJob s =
     (if getJob s name = None \<or> name \<in> s_disabledNames s
      then (Some (Errorf [Wrap (Sentinel ErrJobNotFound), Lit '': '', Quoted name]), s)
      else
        let s1 = use_global_mws newJob s in
        case UpdateEntryJobByName cr name newSchedule newJob (s_cron s1) of
          (Some err, c) \<Rightarrow> (Some (Errorf [Lit ''update job: '', Wrap err]), s1\<lparr>s_cron := c\<rparr>)
        | (None, c) \<Rightarrow>
            (None, s1\<lparr>s_cron := c,
                      s_Jobs := replace_first (\<lambda>j. name_of s1 j = name) newJob (s_Jobs s1),
                      s_jobsByName := (s_jobsByName s1)(name \<mapsto> newJob)\<rparr>))"

definition DisableJob :: "'c cron_api \<Rightarrow> string \<Rightarrow> ('c, 'w) Scheduler \<Rightarrow> result \<times> ('c, 'w) Scheduler" where
  "DisableJob cr name s =
     (if getJob s name = None
      then (Some (Errorf [Wrap (Sentinel ErrJobNotFound), Lit '': '', Quoted name]), s)
      else if name \<in> s_disabledNames s then (None, s)
      else case PauseEntryByName cr name (s_cron s) of
             (Some err, c) \<Rightarrow> (Some (Errorf [Lit ''pause job: '', Wrap err]), s\<lparr>s_cron := c\<rparr>)
           | (None, c) \<Rightarrow> (None, s\<lparr>s_cron := c, s_disabledNames := insert name (s_disabledNames s)\<rparr>))"

definition EnableJob :: "'c cron_api \<Rightarrow> string \<Rightarrow> ('c, 'w) Scheduler \<Rightarrow> result \<times> ('c, 'w) Scheduler" where
  "EnableJob cr name s =
     (if name \<notin> s_disabledNames s
      then (if s_jobsByName s name \<noteq> None then (None, s)
            else (Some (Errorf [Wrap (Sentinel ErrJobNotFound), Lit '': '', Quoted name]), s))
      else if getJob s name = None
      then (Some (Errorf [Wrap (Sentinel ErrJobNotFound), Lit '': '', Quoted name]), s)
      else case ResumeEntryByName cr name (s_cron s) of
             (Some err, c) \<Rightarrow> (Some (Errorf [Lit ''resume job: '', Wrap err]), s\<lparr>s_cron := c\<rparr>)
           | (None, c) \<Rightarrow> (None, s\<lparr>s_cron := c, s_disabledNames := s_disabledNames s - {name}\<rparr>))"

section \<open>Workflow metrics\<close>

datatype JobResult = ResultPending | ResultSuccess | ResultFailure | ResultSkipped

record status_flags =
  hasFailure :: bool
  hasSuccess :: bool
  hasSkipped :: bool

fun count_result :: "JobResult \<Rightarrow> status_flags \<Rightarrow> status_flags" where
  "count_result ResultFailure f = f\<lparr>hasFailure := True\<rparr>"
| "count_result ResultSuccess f = f\<lparr>hasSuccess := True\<rparr>"
| "count_result ResultSkipped f = f\<lparr>hasSkipped := True\<rparr>"
| "count_result ResultPending f = f"

text \<open>The results in the order in which the range over the map visits them.\<close>

definition workflowStatus :: "JobResult list \<Rightarrow> string" where
  "workflowStatus results =
     (if results = [] then ''success''
      else
        let f = fold count_result results \<lparr>hasFailure = False, hasSuccess = False, hasSkipped = False\<rparr>
        in if hasFailure f then ''failure''
           else if hasSuccess f \<and> \<not> hasSkipped f then ''success''
           else if hasSkipped f \<and> \<not> hasSuccess f then ''skipped''
           else ''mixed'')"

datatype workflow_metric = WorkflowComplete string string | WorkflowJobResult string string

text \<open>\<open>entry_name\<close> is the name of \<^verbatim>\<open>cron.Entry(id)\<close>, \<open>result_string\<close> is \<^verbatim>\<open>JobResult.String\<close>.\<close>

definition recordWorkflowMetrics ::
  "(nat \<Rightarrow> string) \<Rightarrow> (JobResult \<Rightarrow> string) \<Rightarrow> nat \<Rightarrow> (nat \<times> JobResult) list \<Rightarrow> workflow_metric list" where
  "recordWorkflowMetrics entry_name result_string rootID results =
     (let entryName = (\<lambda>i. if entry_name i \<noteq> [] then entry_name i else ''unknown'')
      in WorkflowComplete (entryName rootID) (workflowStatus (map snd results)) #
         map (\<lambda>(i, r). WorkflowJobResult (entryName i) (result_string r)) results)"

section \<open>What go-cron promises\<close>

definition cron_add_law :: "'c cron_api \<Rightarrow> bool" where
  "cron_add_law cr \<longleftrightarrow> Entries cr (cr_new cr) = [] \<and>
     (\<forall>sched r n tags now c. n \<noteq> [] \<longrightarrow>
        (case AddJob cr sched r n tags now c of
           (Inl err, c') \<Rightarrow> Entries cr c' = Entries cr c
         | (Inr i, c') \<Rightarrow>
             0 < i \<and> i < 2 ^ 64 \<and> i \<notin> ce_ID ` set (Entries cr c) \<and> n \<notin> ce_Name ` set (Entries cr c) \<and>
             set (Entries cr c') = insert \<lparr>ce_ID = i, ce_Name = n, ce_Tags = tags\<rparr> (set (Entries cr c))))"

definition cron_remove_law :: "'c cron_api \<Rightarrow> bool" where
  "cron_remove_law cr \<longleftrightarrow>
     (\<forall>n c. n \<noteq> [] \<longrightarrow>
        set (Entries cr (RemoveByName cr n c)) = {e \<in> set (Entries cr c). ce_Name e \<noteq> n}) \<and>
     (\<forall>t c. set (EntriesByTag cr t c) = {e \<in> set (Entries cr c). t \<in> set (ce_Tags e)} \<and>
        set (Entries cr (snd (RemoveByTag cr t c))) = {e \<in> set (Entries cr c). t \<notin> set (ce_Tags e)})"

definition cron_pause_law :: "'c cron_api \<Rightarrow> bool" where
  "cron_pause_law cr \<longleftrightarrow>
     (\<forall>n c. n \<in> ce_Name ` set (Entries cr c) \<longrightarrow>
        fst (PauseEntryByName cr n c) = None \<and> fst (ResumeEntryByName cr n c) = None)"

text \<open>No other operation adds or removes entries.\<close>

definition cron_frame_law :: "'c cron_api \<Rightarrow> bool" where
  "cron_frame_law cr \<longleftrightarrow>
     (\<forall>n c. Entries cr (WaitForJobByName cr n c) = Entries cr c \<and>
        Entries cr (snd (PauseEntryByName cr n c)) = Entries cr c \<and>
        Entries cr (snd (ResumeEntryByName cr n c)) = Entries cr c \<and>
        Entries cr (snd (TriggerEntryByName cr n c)) = Entries cr c) \<and>
     (\<forall>n sched r c. Entries cr (snd (UpdateEntryJobByName cr n sched r c)) = Entries cr c) \<and>
     (\<forall>ch p k c. Entries cr (snd (AddDependencyByName cr ch p k c)) = Entries cr c) \<and>
     (\<forall>c. Entries cr (cron_Start cr c) = Entries cr c) \<and>
     (\<forall>d c. Entries cr (snd (cron_StopWithTimeout cr d c)) = Entries cr c)"

definition cron_laws :: "'c cron_api \<Rightarrow> bool" where
  "cron_laws cr \<longleftrightarrow> cron_add_law cr \<and> cron_remove_law cr \<and> cron_pause_law cr \<and> cron_frame_law cr"

section \<open>The invariant\<close>

definition registry_ok :: "('c, 'w) Scheduler \<Rightarrow> bool" where
  "registry_ok s \<longleftrightarrow>
     distinct (map (name_of s) (s_Jobs s)) \<and> [] \<notin> name_of s ` set (s_Jobs s) \<and>
     (\<forall>n r. s_jobsByName s n = Some r \<longleftrightarrow> r \<in> set (s_Jobs s) \<and> name_of s r = n) \<and>
     s_disabledNames s \<subseteq> name_of s ` set (s_Jobs s)"

definition entries_ok :: "('c, 'w) Scheduler \<Rightarrow> cron_entry set \<Rightarrow> bool" where
  "entries_ok s E \<longleftrightarrow>
     inj_on ce_ID E \<and> inj_on ce_Name E \<and> (\<forall>e\<in>E. 0 < ce_ID e \<and> ce_ID e < 2 ^ 64) \<and>
     (\<lambda>r. (name_of s r, id_of s r)) ` set (s_Jobs s) = (\<lambda>e. (ce_Name e, of_nat (ce_ID e))) ` E"

definition sched_ok :: "'c cron_api \<Rightarrow> ('c, 'w) Scheduler \<Rightarrow> bool" where
  "sched_ok cr s \<longleftrightarrow> registry_ok s \<and> entries_ok s (set (Entries cr (s_cron s)))"

text \<open>The abstract registry: the job of a name, and whether it is disabled.\<close>

definition registry :: "('c, 'w) Scheduler \<Rightarrow> string \<rightharpoonup> ref \<times> bool" where
  "registry s n = map_option (\<lambda>r. (r, n \<in> s_disabledNames s)) (s_jobsByName s n)"

end
