(* ===== verification/Registry.thy ===== *)
theory Registry
  imports Scheduler
begin

text \<open>
  The correctness of the scheduler's registry of jobs, the definitions of \<open>Scheduler\<close>: every
  operation keeps the invariant and implements its effect on the abstract registry.
\<close>

section \<open>Lists\<close>

lemma remove_first_id: "(\<forall>x\<in>set xs. \<not> P x) \<Longrightarrow> remove_first P xs = xs"
  by (induction xs) auto

lemma set_remove_first_subset: "set (remove_first P xs) \<subseteq> set xs"
  by (induction xs) auto

lemma remove_first_filter:
  "distinct xs \<Longrightarrow> (\<And>x y. x \<in> set xs \<Longrightarrow> y \<in> set xs \<Longrightarrow> P x \<Longrightarrow> P y \<Longrightarrow> x = y) \<Longrightarrow>
   remove_first P xs = filter (\<lambda>x. \<not> P x) xs"
proof (induction xs)
  case (Cons a xs)
  show ?case
  proof (cases "P a")
    case True
    then have "\<forall>x\<in>set xs. \<not> P x" using Cons.prems by (metis distinct.simps(2) list.set_intros)
    then have "filter (\<lambda>x. \<not> P x) xs = xs" by (simp add: filter_id_conv)
    with True show ?thesis by simp
  next
    case False
    then show ?thesis using Cons by simp
  qed
qed simp

lemma find_Some_in: "find P xs = Some x \<Longrightarrow> x \<in> set xs \<and> P x"
  by (auto simp: find_Some_iff)

lemma find_unique:
  assumes "x \<in> set xs" "P x" "\<And>y. y \<in> set xs \<Longrightarrow> P y \<Longrightarrow> y = x"
  shows "find P xs = Some x"
proof (cases "find P xs")
  case None
  then show ?thesis using assms(1,2) by (simp add: find_None_iff)
next
  case (Some y)
  then show ?thesis using find_Some_in [OF Some] assms(3) by simp
qed

lemma replace_first_others:
  "distinct (map f xs) \<Longrightarrow> x \<in> set (replace_first (\<lambda>j. f j = n) y xs) \<Longrightarrow> x = y \<or> f x \<noteq> n"
  by (induction xs) (auto split: if_splits, metis image_eqI)

lemma set_List_map_filter: "set (List.map_filter f xs) = {y. \<exists>x\<in>set xs. f x = Some y}"
  by (induction xs) (auto simp: map_filter_simps split: option.splits)

section \<open>What the invariant gives\<close>

lemma name_inj: "registry_ok s \<Longrightarrow> inj_on (name_of s) (set (s_Jobs s))"
  by (simp add: registry_ok_def distinct_map)

lemma jobs_distinct: "registry_ok s \<Longrightarrow> distinct (s_Jobs s)"
  by (simp add: registry_ok_def distinct_map)

lemma byName_iff:
  "registry_ok s \<Longrightarrow> s_jobsByName s n = Some r \<longleftrightarrow> r \<in> set (s_Jobs s) \<and> name_of s r = n"
  by (simp add: registry_ok_def)

lemma byName_None:
  assumes "registry_ok s"
  shows "s_jobsByName s n = None \<longleftrightarrow> n \<notin> name_of s ` set (s_Jobs s)"
proof -
  have "(\<exists>r. s_jobsByName s n = Some r) \<longleftrightarrow> n \<in> name_of s ` set (s_Jobs s)"
    using byName_iff [OF assms, of n] by auto
  then show ?thesis by auto
qed

lemma getJob_byName:
  assumes "registry_ok s"
  shows "getJob s n = s_jobsByName s n"
proof (cases "getJob s n")
  case None
  then have "n \<notin> name_of s ` set (s_Jobs s)" by (auto simp: getJob_def find_None_iff)
  with None show ?thesis using byName_None [OF assms] by metis
next
  case (Some r)
  then have "r \<in> set (s_Jobs s)" "name_of s r = n"
    using find_Some_in unfolding getJob_def by fastforce+
  with Some show ?thesis using byName_iff [OF assms, of n r] by simp
qed

lemma of_nat_u64_inj:
  assumes "(of_nat a :: u64) = of_nat b" "a < 2 ^ 64" "b < 2 ^ 64"
  shows "a = b"
  using arg_cong [OF assms(1), of unat] assms(2,3) by (simp add: unat_of_nat)

lemma entry_unique:
  assumes "entries_ok s E" "e \<in> E" "e' \<in> E" "(of_nat (ce_ID e) :: u64) = of_nat (ce_ID e')"
  shows "e = e'"
proof -
  have "ce_ID e < 2 ^ 64" "ce_ID e' < 2 ^ 64" using assms(1-3) by (auto simp: entries_ok_def)
  then have "ce_ID e = ce_ID e'" using assms(4) by (intro of_nat_u64_inj) auto
  then show ?thesis using assms(1-3) by (auto simp: entries_ok_def inj_on_def)
qed

lemma job_entry:
  assumes "entries_ok s E" "r \<in> set (s_Jobs s)"
  obtains e where "e \<in> E" "ce_Name e = name_of s r" "id_of s r = of_nat (ce_ID e)"
proof -
  have "(name_of s r, id_of s r) \<in> (\<lambda>e. (ce_Name e, of_nat (ce_ID e))) ` E"
    using assms by (auto simp: entries_ok_def)
  then show thesis using that by auto
qed

lemma entry_job:
  assumes "entries_ok s E" "e \<in> E"
  obtains r where "r \<in> set (s_Jobs s)" "name_of s r = ce_Name e" "id_of s r = of_nat (ce_ID e)"
proof -
  have "(ce_Name e, of_nat (ce_ID e)) \<in> (\<lambda>r. (name_of s r, id_of s r)) ` set (s_Jobs s)"
    using assms by (auto simp: entries_ok_def)
  then show thesis using that by auto
qed

lemma job_with_id:
  assumes "registry_ok s" "entries_ok s E" "r \<in> set (s_Jobs s)" "x \<in> set (s_Jobs s)" "id_of s x = id_of s r"
  shows "x = r"
proof -
  obtain e e' where e: "e \<in> E" "ce_Name e = name_of s r" "id_of s r = of_nat (ce_ID e)"
    "e' \<in> E" "ce_Name e' = name_of s x" "id_of s x = of_nat (ce_ID e')"
    using job_entry [OF assms(2,3)] job_entry [OF assms(2,4)] by metis
  then have "e' = e" using assms(5) by (metis entry_unique [OF assms(2)])
  with e have "name_of s x = name_of s r" by simp
  then show ?thesis using name_inj [OF assms(1)] assms(3,4) by (simp add: inj_on_def)
qed

lemma entry_names:
  assumes "entries_ok s E"
  shows "ce_Name ` E = name_of s ` set (s_Jobs s)"
proof -
  have "fst ` (\<lambda>r. (name_of s r, id_of s r)) ` set (s_Jobs s) = fst ` (\<lambda>e. (ce_Name e, of_nat (ce_ID e) :: u64)) ` E"
    using assms by (simp add: entries_ok_def)
  then show ?thesis by (simp add: image_image)
qed

section \<open>Restriction to a set of names\<close>

definition restricted :: "string set \<Rightarrow> ('c, 'w) Scheduler \<Rightarrow> ('c, 'w) Scheduler \<Rightarrow> bool" where
  "restricted K s s' \<longleftrightarrow> s_heap s' = s_heap s \<and> s_Jobs s' = filter (\<lambda>r. name_of s r \<in> K) (s_Jobs s) \<and>
     s_jobsByName s' = s_jobsByName s |` K \<and> s_disabledNames s' = s_disabledNames s \<inter> K"

lemma restricted_registry: "restricted K s s' \<Longrightarrow> registry s' = registry s |` K"
  by (auto simp: restricted_def registry_def restrict_map_def)

lemma restricted_registry_ok:
  assumes "registry_ok s" "restricted K s s'"
  shows "registry_ok s'"
  using assms
  by (auto simp: registry_ok_def restricted_def distinct_map_filter restrict_map_def subset_iff)

lemma restricted_entries_ok:
  assumes "entries_ok s E" "restricted K s s'"
  shows "entries_ok s' {e \<in> E. ce_Name e \<in> K}"
proof -
  have img: "(\<lambda>r. (name_of s r, id_of s r)) ` set (s_Jobs s) = (\<lambda>e. (ce_Name e, of_nat (ce_ID e))) ` E"
    using assms(1) by (simp add: entries_ok_def)
  have "(\<lambda>r. (name_of s r, id_of s r)) ` {r \<in> set (s_Jobs s). name_of s r \<in> K} =
      {p \<in> (\<lambda>r. (name_of s r, id_of s r)) ` set (s_Jobs s). fst p \<in> K}" by auto
  also have "\<dots> = (\<lambda>e. (ce_Name e, of_nat (ce_ID e))) ` {e \<in> E. ce_Name e \<in> K}"
    unfolding img by auto
  finally show ?thesis using assms by (auto simp: entries_ok_def restricted_def inj_on_def)
qed

section \<open>Removal\<close>

lemma RemoveJob_restricted:
  assumes "registry_ok s" "entries_ok s E" "r \<in> set (s_Jobs s)"
  shows "restricted (- {name_of s r}) s (snd (RemoveJob cr r s))"
proof -
  have p: "(x = r \<or> id_of s x = id_of s r) \<longleftrightarrow> x = r" if "x \<in> set (s_Jobs s)" for x
    using job_with_id [OF assms(1,2,3) that] by auto
  have "remove_first (\<lambda>j. j = r \<or> id_of s j = id_of s r) (s_Jobs s) =
      filter (\<lambda>j. \<not> (j = r \<or> id_of s j = id_of s r)) (s_Jobs s)"
    by (rule remove_first_filter) (use jobs_distinct [OF assms(1)] p in auto)
  also have "\<dots> = filter (\<lambda>j. name_of s j \<in> - {name_of s r}) (s_Jobs s)"
    using p name_inj [OF assms(1)] assms(3) by (intro filter_cong) (auto simp: inj_on_def)
  finally show ?thesis
    by (auto simp: restricted_def RemoveJob_def Let_def restrict_map_def)
qed

lemma drop_entry_restricted:
  assumes ok: "registry_ok s" "entries_ok s E" and e: "e \<in> E" and r: "restricted K s s1"
  shows "restricted (K - {ce_Name e}) s (drop_entry e s1)"
proof -
  obtain x where x: "x \<in> set (s_Jobs s)" "name_of s x = ce_Name e" "id_of s x = of_nat (ce_ID e)"
    using entry_job [OF ok(2) e] .
  let ?P = "\<lambda>j. id_of s j = of_nat (ce_ID e)"
  have p: "?P j \<longleftrightarrow> j = x" if "j \<in> set (s_Jobs s)" for j
    using job_with_id [OF ok x(1) that] x(3) by auto
  have h: "s_heap s1 = s_heap s" and j: "s_Jobs s1 = filter (\<lambda>r. name_of s r \<in> K) (s_Jobs s)"
    using r by (auto simp: restricted_def)
  show ?thesis
  proof (cases "ce_Name e \<in> K")
    case True
    then have f: "find ?P (rev (s_Jobs s1)) = Some x"
      using x p j by (intro find_unique) auto
    have "rev (remove_first ?P (rev (s_Jobs s1))) = rev (filter (\<lambda>j. \<not> ?P j) (rev (s_Jobs s1)))"
      by (subst remove_first_filter) (use jobs_distinct [OF ok(1)] p j in auto)
    also have "\<dots> = filter (\<lambda>j. name_of s j \<in> K - {ce_Name e}) (s_Jobs s)"
    proof -
      have "name_of s k \<in> K \<and> \<not> ?P k \<longleftrightarrow> name_of s k \<in> K - {ce_Name e}" if "k \<in> set (s_Jobs s)" for k
        using p [OF that] x name_inj [OF ok(1)] that by (auto simp: inj_on_def)
      then show ?thesis by (simp add: j rev_filter conj_commute cong: filter_cong)
    qed
    finally show ?thesis
      using r f x by (auto simp: restricted_def drop_entry_def restrict_map_def h)
  next
    case False
    then have "find ?P (rev (s_Jobs s1)) = None"
      using x p j by (auto simp: find_None_iff)
    then show ?thesis using r False by (simp add: drop_entry_def h)
  qed
qed

lemma drop_entries_restricted:
  assumes "registry_ok s" "entries_ok s E" "set es \<subseteq> E" "restricted K s s1"
  shows "restricted (K - ce_Name ` set es) s (fold drop_entry es s1)"
  using assms(3,4)
proof (induction es arbitrary: s1 K)
  case (Cons e es)
  have "restricted (K - {ce_Name e} - ce_Name ` set es) s (fold drop_entry es (drop_entry e s1))"
    by (rule Cons.IH) (use Cons.prems drop_entry_restricted [OF assms(1,2)] in auto)
  moreover have "K - ce_Name ` set (e # es) = K - {ce_Name e} - ce_Name ` set es" by auto
  ultimately show ?case by simp
qed simp

lemma cron_untouched [simp]: "s_cron (drop_entry e s) = s_cron s"
  by (simp add: drop_entry_def split: option.splits)

lemma fold_cron_untouched [simp]: "s_cron (fold drop_entry es s) = s_cron s"
  by (induction es arbitrary: s) auto

lemma restricted_UNIV: "restricted UNIV s (s\<lparr>s_cron := c\<rparr>)"
  by (simp add: restricted_def restrict_map_def)

definition tagged :: "'c cron_api \<Rightarrow> string \<Rightarrow> ('c, 'w) Scheduler \<Rightarrow> string set" where
  "tagged cr t s = ce_Name ` {e \<in> set (Entries cr (s_cron s)). t \<in> set (ce_Tags e)}"

lemma RemoveJobsByTag_restricted:
  assumes "cron_remove_law cr" "registry_ok s" "entries_ok s (set (Entries cr (s_cron s)))"
  shows "restricted (- tagged cr t s) s (snd (RemoveJobsByTag cr t s))"
proof -
  let ?es = "EntriesByTag cr t (s_cron s)"
  have es: "set ?es = {e \<in> set (Entries cr (s_cron s)). t \<in> set (ce_Tags e)}"
    using assms(1) by (simp add: cron_remove_law_def)
  then have tg: "ce_Name ` set ?es = tagged cr t s" by (simp add: tagged_def)
  show ?thesis
  proof (cases "?es = []")
    case True
    with tg have "tagged cr t s = {}" by simp
    with True show ?thesis using restricted_UNIV [of s "s_cron s"] by (simp add: RemoveJobsByTag_def)
  next
    case False
    have "restricted (UNIV - ce_Name ` set ?es) s (fold drop_entry ?es (s\<lparr>s_cron := c\<rparr>))" for c
      by (rule drop_entries_restricted [OF assms(2,3)]) (use es restricted_UNIV in auto)
    with False tg show ?thesis
      by (simp add: RemoveJobsByTag_def Compl_eq_Diff_UNIV split: prod.splits)
  qed
qed

section \<open>The invariant is kept\<close>

lemma sched_ok_RemoveJob:
  assumes "cron_laws cr" "sched_ok cr s" "r \<in> set (s_Jobs s)"
  shows "sched_ok cr (snd (RemoveJob cr r s))"
proof -
  have ok: "registry_ok s" "entries_ok s (set (Entries cr (s_cron s)))"
    using assms(2) by (simp_all add: sched_ok_def)
  note r = RemoveJob_restricted [OF ok assms(3), of cr]
  have "name_of s r \<noteq> []" using ok(1) assms(3) by (force simp: registry_ok_def)
  then have "set (Entries cr (s_cron (snd (RemoveJob cr r s)))) =
      {e \<in> set (Entries cr (s_cron s)). ce_Name e \<in> - {name_of s r}}"
    using assms(1) by (simp add: cron_laws_def cron_remove_law_def cron_frame_law_def RemoveJob_def Let_def)
  then show ?thesis
    using restricted_registry_ok [OF ok(1) r] restricted_entries_ok [OF ok(2) r] by (simp add: sched_ok_def)
qed

lemma tagged_entries:
  assumes "entries_ok s (set (Entries cr (s_cron s)))"
  shows "{e \<in> set (Entries cr (s_cron s)). ce_Name e \<in> - tagged cr t s} =
     {e \<in> set (Entries cr (s_cron s)). t \<notin> set (ce_Tags e)}"
  using assms by (fastforce simp: tagged_def entries_ok_def inj_on_def)

lemma sched_ok_RemoveJobsByTag:
  assumes "cron_laws cr" "sched_ok cr s"
  shows "sched_ok cr (snd (RemoveJobsByTag cr t s))"
proof -
  have ok: "registry_ok s" "entries_ok s (set (Entries cr (s_cron s)))"
    using assms(2) by (simp_all add: sched_ok_def)
  have law: "cron_remove_law cr" using assms(1) by (simp add: cron_laws_def)
  note r = RemoveJobsByTag_restricted [OF law ok, of t]
  have "set (Entries cr (s_cron (snd (RemoveJobsByTag cr t s)))) =
      {e \<in> set (Entries cr (s_cron s)). t \<notin> set (ce_Tags e)}"
  proof (cases "EntriesByTag cr t (s_cron s) = []")
    case True
    then have "{e \<in> set (Entries cr (s_cron s)). t \<in> set (ce_Tags e)} = {}"
      using law unfolding cron_remove_law_def by (metis set_empty2)
    with True show ?thesis by (auto simp: RemoveJobsByTag_def)
  next
    case False
    then show ?thesis using law
      by (auto simp: RemoveJobsByTag_def cron_remove_law_def Let_def split: prod.splits) (metis (mono_tags, lifting) mem_Collect_eq snd_conv)+
  qed
  then show ?thesis
    using restricted_registry_ok [OF ok(1) r] restricted_entries_ok [OF ok(2) r] tagged_entries [OF ok(2)]
    by (simp add: sched_ok_def)
qed

lemma use_global_mws_frame [simp]:
  "name_of (use_global_mws r s) x = name_of s x" "id_of (use_global_mws r s) x = id_of s x"
  "s_Jobs (use_global_mws r s) = s_Jobs s" "s_cron (use_global_mws r s) = s_cron s"
  "s_jobsByName (use_global_mws r s) = s_jobsByName s"
  "s_disabledNames (use_global_mws r s) = s_disabledNames s"
  by (simp_all add: use_global_mws_def Let_def)

text \<open>The invariant only reads names, identifiers, the slice, the map, the set and the entries.\<close>

lemma sched_ok_cong:
  assumes "sched_ok cr s" "name_of s' = name_of s" "id_of s' = id_of s" "s_Jobs s' = s_Jobs s"
    "s_jobsByName s' = s_jobsByName s" "s_disabledNames s' \<subseteq> name_of s ` set (s_Jobs s)"
    "set (Entries cr (s_cron s')) = set (Entries cr (s_cron s))"
  shows "sched_ok cr s'"
proof -
  have n: "name_of s' x = name_of s x" "id_of s' x = id_of s x" for x
    using assms(2,3) by (simp_all add: fun_eq_iff)
  show ?thesis using assms(1,4-) by (auto simp: sched_ok_def registry_ok_def entries_ok_def n)
qed

lemma cron_add_error:
  assumes "cron_laws cr" "n \<noteq> []" "AddJob cr sched r n tags now c = (Inl err, c')"
  shows "Entries cr c' = Entries cr c"
  using assms(1) [unfolded cron_laws_def cron_add_law_def, THEN conjunct1, THEN conjunct2, rule_format,
      OF assms(2), where sched = sched and r = r and tags = tags and now = now and c = c] assms(3)
  by simp

lemma cron_add_ok:
  assumes "cron_laws cr" "n \<noteq> []" "AddJob cr sched r n tags now c = (Inr i, c')"
  shows "0 < i \<and> i < 2 ^ 64 \<and> i \<notin> ce_ID ` set (Entries cr c) \<and> n \<notin> ce_Name ` set (Entries cr c) \<and>
     set (Entries cr c') = insert \<lparr>ce_ID = i, ce_Name = n, ce_Tags = tags\<rparr> (set (Entries cr c))"
  using assms(1) [unfolded cron_laws_def cron_add_law_def, THEN conjunct1, THEN conjunct2, rule_format,
      OF assms(2), where sched = sched and r = r and tags = tags and now = now and c = c] assms(3)
  by simp

lemma AddJobWithTags_error:
  assumes "cron_laws cr" "sched_ok cr s" "name_of s r \<noteq> []" "AddJobWithTags cr r tags s = (Some err, s')"
  shows "sched_ok cr s' \<and> registry s' = registry s \<and> s_Jobs s' = s_Jobs s"
proof (cases "bj_Schedule (s_heap s r) = []")
  case True
  then show ?thesis using assms by (auto simp: AddJobWithTags_def Let_def)
next
  case False
  then obtain e c where a: "AddJob cr (bj_Schedule (s_heap s r)) r (name_of s r) tags
      (bj_RunOnStartup (s_heap s r)) (s_cron s) = (Inl e, c)" and s': "s' = (use_global_mws r s)\<lparr>s_cron := c\<rparr>"
    using assms(4) by (auto simp: AddJobWithTags_def Let_def split: prod.splits sum.splits)
  have "Entries cr c = Entries cr (s_cron s)"
    by (rule cron_add_error [OF assms(1,3) a])
  moreover have "s_disabledNames s \<subseteq> name_of s ` set (s_Jobs s)"
    using assms(2) by (simp add: sched_ok_def registry_ok_def)
  ultimately have "sched_ok cr s'"
    by (intro sched_ok_cong [OF assms(2)]) (auto simp: s' fun_eq_iff)
  then show ?thesis by (auto simp: s' registry_def fun_eq_iff)
qed

lemma AddJobWithTags_ok:
  assumes laws: "cron_laws cr" and ok: "sched_ok cr s" and n: "name_of s r \<noteq> []"
    and a: "AddJobWithTags cr r tags s = (None, s')"
  shows "sched_ok cr s' \<and> registry s (name_of s r) = None \<and>
    registry s' = (registry s)(name_of s r \<mapsto> (r, False)) \<and> s_Jobs s' = s_Jobs s @ [r] \<and>
    (\<exists>e \<in> set (Entries cr (s_cron s')). ce_Name e = name_of s r \<and> ce_Tags e = tags)"
proof -
  let ?n = "name_of s r" and ?E = "set (Entries cr (s_cron s))"
  have reg: "registry_ok s" and ent: "entries_ok s ?E" using ok by (simp_all add: sched_ok_def)
  obtain i c where add: "AddJob cr (bj_Schedule (s_heap s r)) r ?n tags
      (bj_RunOnStartup (s_heap s r)) (s_cron s) = (Inr i, c)"
    and h: "s_heap s' = (s_heap (use_global_mws r s))(r := (s_heap (use_global_mws r s) r)\<lparr>bj_cronID := of_nat i\<rparr>)"
    and f: "s_Jobs s' = s_Jobs s @ [r]" "s_jobsByName s' = (s_jobsByName s)(?n \<mapsto> r)"
      "s_disabledNames s' = s_disabledNames s" "s_cron s' = c"
    using a by (auto simp: AddJobWithTags_def SetCronJobID_def Let_def split: prod.splits sum.splits if_splits)
  have l: "0 < i" "i < 2 ^ 64" "i \<notin> ce_ID ` ?E" "?n \<notin> ce_Name ` ?E"
    "set (Entries cr c) = insert \<lparr>ce_ID = i, ce_Name = ?n, ce_Tags = tags\<rparr> ?E"
    using cron_add_ok [OF laws n add] by simp_all
  have nn: "?n \<notin> name_of s ` set (s_Jobs s)" using l(4) entry_names [OF ent] by simp
  then have nr: "r \<notin> set (s_Jobs s)" by auto
  have nm: "name_of s' x = name_of s x" for x by (simp add: h)
  have ids: "id_of s' x = id_of s x" if "x \<in> set (s_Jobs s)" for x
    using that nr by (auto simp: h)
  have nn2: "name_of s x \<noteq> ?n" if "x \<in> set (s_Jobs s)" for x
    using nn that by (metis image_eqI)
  have "registry_ok s'"
    using reg nn nn2 n byName_None [OF reg, of ?n] by (auto simp: registry_ok_def f nm)
  moreover have "entries_ok s' (set (Entries cr (s_cron s')))"
  proof -
    have "(\<lambda>x. (name_of s' x, id_of s' x)) ` set (s_Jobs s) = (\<lambda>x. (name_of s x, id_of s x)) ` set (s_Jobs s)"
      by (intro image_cong) (auto simp: nm ids)
    then have "(\<lambda>x. (name_of s' x, id_of s' x)) ` set (s_Jobs s') =
        insert (?n, of_nat i) ((\<lambda>x. (name_of s x, id_of s x)) ` set (s_Jobs s))"
      by (simp add: f nm) (simp add: h)
    moreover have "inj_on ce_ID (set (Entries cr c)) \<and> inj_on ce_Name (set (Entries cr c))"
      using ent l(3-5) by (simp add: entries_ok_def inj_on_insert) blast
    ultimately show ?thesis using ent l(1,2,5) by (simp add: entries_ok_def f)
  qed
  moreover have "registry s ?n = None" using byName_None [OF reg, of ?n] nn by (simp add: registry_def)
  moreover have "?n \<notin> s_disabledNames s" using nn reg by (auto simp: registry_ok_def)
  ultimately show ?thesis using l(5) by (auto simp: sched_ok_def registry_def f fun_eq_iff)
qed

lemma sched_ok_AddJobWithTags:
  assumes "cron_laws cr" "sched_ok cr s" "name_of s r \<noteq> []"
  shows "sched_ok cr (snd (AddJobWithTags cr r tags s))"
proof (cases "AddJobWithTags cr r tags s")
  case (Pair e s')
  then show ?thesis
    using AddJobWithTags_ok [OF assms, of tags s'] AddJobWithTags_error [OF assms, of tags _ s']
    by (cases e) auto
qed

lemma frame_entries:
  assumes "cron_laws cr"
  shows "Entries cr (snd (PauseEntryByName cr n c)) = Entries cr c"
    "Entries cr (snd (ResumeEntryByName cr n c)) = Entries cr c"
    "Entries cr (snd (TriggerEntryByName cr n c)) = Entries cr c"
    "Entries cr (snd (UpdateEntryJobByName cr n sched r c)) = Entries cr c"
    "Entries cr (snd (AddDependencyByName cr ch p k c)) = Entries cr c"
    "Entries cr (cron_Start cr c) = Entries cr c"
    "Entries cr (snd (cron_StopWithTimeout cr d c)) = Entries cr c"
  using assms by (simp_all add: cron_laws_def cron_frame_law_def)

lemma disabled_subset: "sched_ok cr s \<Longrightarrow> s_disabledNames s \<subseteq> name_of s ` set (s_Jobs s)"
  by (simp add: sched_ok_def registry_ok_def)

text \<open>A pause or a resume of an entry, and the change of the set of disabled names.\<close>

lemma sched_ok_toggle:
  assumes "sched_ok cr s" "D \<subseteq> name_of s ` set (s_Jobs s)" "Entries cr c = Entries cr (s_cron s)"
  shows "sched_ok cr (s\<lparr>s_cron := c, s_disabledNames := D\<rparr>)"
  by (rule sched_ok_cong [OF assms(1)]) (use assms in auto)

lemma sched_ok_cron:
  assumes "sched_ok cr s" "Entries cr c = Entries cr (s_cron s)"
  shows "sched_ok cr (s\<lparr>s_cron := c\<rparr>)"
  by (rule sched_ok_cong [OF assms(1)]) (use assms disabled_subset [OF assms(1)] in auto)

lemma DisableJob_effect:
  assumes laws: "cron_laws cr" and ok: "sched_ok cr s"
  shows "case registry s n of
      None \<Rightarrow> err_is (fst (DisableJob cr n s)) ErrJobNotFound \<and> snd (DisableJob cr n s) = s
    | Some (r, _) \<Rightarrow> fst (DisableJob cr n s) = None \<and> sched_ok cr (snd (DisableJob cr n s)) \<and>
        s_Jobs (snd (DisableJob cr n s)) = s_Jobs s \<and>
        registry (snd (DisableJob cr n s)) = (registry s)(n \<mapsto> (r, True))"
proof -
  have reg: "registry_ok s" and ent: "entries_ok s (set (Entries cr (s_cron s)))"
    using ok by (simp_all add: sched_ok_def)
  show ?thesis
  proof (cases "s_jobsByName s n")
    case None
    then show ?thesis by (simp add: registry_def DisableJob_def getJob_byName [OF reg] err_is_def)
  next
    case (Some r)
    then have n: "n \<in> name_of s ` set (s_Jobs s)" using byName_iff [OF reg, of n r] by auto
    show ?thesis
    proof (cases "n \<in> s_disabledNames s")
      case True
      then show ?thesis using Some ok by (auto simp: registry_def DisableJob_def getJob_byName [OF reg] fun_eq_iff)
    next
      case False
      have "fst (PauseEntryByName cr n (s_cron s)) = None"
        using laws n entry_names [OF ent] by (simp add: cron_laws_def cron_pause_law_def)
      then obtain c where p: "PauseEntryByName cr n (s_cron s) = (None, c)" by (metis prod.collapse)
      then have d: "DisableJob cr n s = (None, s\<lparr>s_cron := c, s_disabledNames := insert n (s_disabledNames s)\<rparr>)"
        using Some False by (simp add: DisableJob_def getJob_byName [OF reg])
      have "sched_ok cr (s\<lparr>s_cron := c, s_disabledNames := insert n (s_disabledNames s)\<rparr>)"
        using n disabled_subset [OF ok] frame_entries(1) [OF laws, of n "s_cron s"] p
        by (intro sched_ok_toggle [OF ok]) auto
      then show ?thesis using Some by (auto simp: registry_def d fun_eq_iff)
    qed
  qed
qed

lemma EnableJob_effect:
  assumes laws: "cron_laws cr" and ok: "sched_ok cr s"
  shows "case registry s n of
      None \<Rightarrow> err_is (fst (EnableJob cr n s)) ErrJobNotFound \<and> snd (EnableJob cr n s) = s
    | Some (r, _) \<Rightarrow> fst (EnableJob cr n s) = None \<and> sched_ok cr (snd (EnableJob cr n s)) \<and>
        s_Jobs (snd (EnableJob cr n s)) = s_Jobs s \<and>
        registry (snd (EnableJob cr n s)) = (registry s)(n \<mapsto> (r, False))"
proof -
  have reg: "registry_ok s" and ent: "entries_ok s (set (Entries cr (s_cron s)))"
    using ok by (simp_all add: sched_ok_def)
  show ?thesis
  proof (cases "s_jobsByName s n")
    case None
    then have "n \<notin> s_disabledNames s" using byName_None [OF reg, of n] disabled_subset [OF ok] by auto
    with None show ?thesis by (simp add: registry_def EnableJob_def err_is_def)
  next
    case (Some r)
    then have n: "n \<in> name_of s ` set (s_Jobs s)" using byName_iff [OF reg, of n r] by auto
    show ?thesis
    proof (cases "n \<in> s_disabledNames s")
      case False
      then show ?thesis using Some ok by (auto simp: registry_def EnableJob_def fun_eq_iff)
    next
      case True
      have "fst (ResumeEntryByName cr n (s_cron s)) = None"
        using laws n entry_names [OF ent] by (simp add: cron_laws_def cron_pause_law_def)
      then obtain c where p: "ResumeEntryByName cr n (s_cron s) = (None, c)" by (metis prod.collapse)
      then have d: "EnableJob cr n s = (None, s\<lparr>s_cron := c, s_disabledNames := s_disabledNames s - {n}\<rparr>)"
        using Some True by (simp add: EnableJob_def getJob_byName [OF reg])
      have "sched_ok cr (s\<lparr>s_cron := c, s_disabledNames := s_disabledNames s - {n}\<rparr>)"
        using disabled_subset [OF ok] frame_entries(2) [OF laws, of n "s_cron s"] p
        by (intro sched_ok_toggle [OF ok]) auto
      then show ?thesis using Some by (auto simp: registry_def d fun_eq_iff)
    qed
  qed
qed

lemma sched_ok_DisableJob: "cron_laws cr \<Longrightarrow> sched_ok cr s \<Longrightarrow> sched_ok cr (snd (DisableJob cr n s))"
  using DisableJob_effect [of cr s n] by (auto split: option.splits)

lemma sched_ok_EnableJob: "cron_laws cr \<Longrightarrow> sched_ok cr s \<Longrightarrow> sched_ok cr (snd (EnableJob cr n s))"
  using EnableJob_effect [of cr s n] by (auto split: option.splits)

lemma RunJob_frame:
  assumes "cron_laws cr" "sched_ok cr s"
  shows "sched_ok cr (snd (RunJob cr n s)) \<and> registry (snd (RunJob cr n s)) = registry s"
proof (cases "TriggerEntryByName cr n (s_cron s)")
  case (Pair e c)
  then have "Entries cr c = Entries cr (s_cron s)" using frame_entries(3) [OF assms(1), of n "s_cron s"] by simp
  then have "sched_ok cr (s\<lparr>s_cron := c\<rparr>)" by (rule sched_ok_cron [OF assms(2)])
  with assms(2) Pair show ?thesis by (auto simp: RunJob_def registry_def fun_eq_iff split: option.splits)
qed

lemma BuildWorkflow_entries:
  assumes "cron_laws cr"
  shows "Entries cr (snd (BuildWorkflowDependencies cyc (AddDependencyByName cr) js c)) = Entries cr c"
proof -
  have "Entries cr (snd (wireEdges cyc (AddDependencyByName cr) es c)) = Entries cr c" for es c
  proof (induction es arbitrary: c)
    case (Cons e es)
    obtain r c1 where a: "AddDependencyByName cr (de_child e) (de_parent e) (de_condition e) c = (r, c1)"
      by fastforce
    then have "Entries cr c1 = Entries cr c"
      using frame_entries(5) [OF assms, of "de_child e" "de_parent e" "de_condition e" c] by simp
    with a Cons show ?case by (auto split: option.splits)
  qed simp
  then show ?thesis by (auto simp: BuildWorkflowDependencies_def Let_def split: option.splits)
qed

text \<open>The map is rebuilt from the slice when the scheduler starts, without effect.\<close>

lemma rebuild_byName:
  assumes "\<forall>r\<in>set rs. m (f r) = Some r"
  shows "fold (\<lambda>r m. m(f r \<mapsto> r)) rs m = m"
  using assms
proof (induction rs)
  case (Cons r rs)
  then have "m(f r \<mapsto> r) = m" by (intro map_upd_triv) simp
  with Cons show ?case by (simp only: fold_simps list.set ball_simps) blast
qed simp

lemma Start_frame:
  assumes "cron_laws cr" "sched_ok cr s"
  shows "sched_ok cr (snd (sched_Start cr s)) \<and> registry (snd (sched_Start cr s)) = registry s"
proof -
  have "\<forall>r\<in>set (s_Jobs s). s_jobsByName s (name_of s r) = Some r"
    using assms(2) by (auto simp: sched_ok_def registry_ok_def)
  then have b: "fold (\<lambda>r m. m(name_of s r \<mapsto> r)) (s_Jobs s) (s_jobsByName s) = s_jobsByName s"
    by (rule rebuild_byName)
  obtain r c where w: "BuildWorkflowDependencies (is_ErrCycleDetected cr) (AddDependencyByName cr)
      (map (s_heap s) (s_Jobs s)) (s_cron s) = (r, c)" by fastforce
  then have "Entries cr (cron_Start cr c) = Entries cr (s_cron s)"
    using BuildWorkflow_entries [OF assms(1), of "is_ErrCycleDetected cr" "map (s_heap s) (s_Jobs s)" "s_cron s"]
      frame_entries(6) [OF assms(1)] by simp
  then have "sched_ok cr (s\<lparr>s_cron := cron_Start cr c\<rparr>)" by (rule sched_ok_cron [OF assms(2)])
  with w b show ?thesis by (simp add: sched_Start_def registry_def [abs_def])
qed

lemma StopWithTimeout_frame:
  assumes "cron_laws cr" "sched_ok cr s"
  shows "sched_ok cr (snd (StopWithTimeout cr d s)) \<and> registry (snd (StopWithTimeout cr d s)) = registry s"
proof (cases "cron_StopWithTimeout cr d (s_cron s)")
  case (Pair b c)
  then have "Entries cr c = Entries cr (s_cron s)" using frame_entries(7) [OF assms(1), of d "s_cron s"] by simp
  then have "sched_ok cr (s\<lparr>s_cron := c\<rparr>)" by (rule sched_ok_cron [OF assms(2)])
  with Pair show ?thesis by (simp add: StopWithTimeout_def registry_def fun_eq_iff)
qed

section \<open>Updates\<close>

lemma map_replace_first:
  "f new = n \<Longrightarrow> map f (replace_first (\<lambda>x. f x = n) new xs) = map f xs"
  by (induction xs) auto

lemma set_replace_first:
  "distinct (map f xs) \<Longrightarrow> j \<in> set xs \<Longrightarrow> f j = n \<Longrightarrow> set (replace_first (\<lambda>x. f x = n) new xs) = insert new (set xs - {j})"
  by (induction xs) (auto simp: replace_first_others)

text \<open>The list, the map and the disabled names stay consistent under updates; the identifiers need not.\<close>

lemma UpdateJob_registry_ok:
  assumes "registry_ok s" "new \<notin> set (s_Jobs s)" "name_of s new = n"
  shows "registry_ok (snd (UpdateJob cr n sched new s))"
proof (cases "getJob s n = None \<or> n \<in> s_disabledNames s")
  case True
  then show ?thesis using assms(1) by (auto simp: UpdateJob_def)
next
  case False
  then obtain j where j: "s_jobsByName s n = Some j" using getJob_byName [OF assms(1)] by auto
  then have jin: "j \<in> set (s_Jobs s)" "name_of s j = n" using byName_iff [OF assms(1)] by auto
  have dist: "distinct (map (name_of s) (s_Jobs s))" using assms(1) by (simp add: registry_ok_def)
  obtain res c where u: "UpdateEntryJobByName cr n sched new (s_cron s) = (res, c)" by fastforce
  let ?js = "replace_first (\<lambda>x. name_of s x = n) new (s_Jobs s)"
  have names: "map (name_of s) ?js = map (name_of s) (s_Jobs s)" by (rule map_replace_first [where f = "name_of s", OF assms(3)])
  have js: "set ?js = insert new (set (s_Jobs s) - {j})" by (rule set_replace_first [OF dist jin])
  have im: "name_of s ` set ?js = name_of s ` set (s_Jobs s)" using arg_cong [OF names, of set] by simp
  have by': "((s_jobsByName s)(n \<mapsto> new)) m = Some x \<longleftrightarrow> x \<in> set ?js \<and> name_of s x = m" for m x
    using byName_iff [OF assms(1), of m x] js jin name_inj [OF assms(1)] assms(2,3) by (auto simp: inj_on_def)
  show ?thesis
  proof (cases res)
    case None
    have nm: "name_of (snd (UpdateJob cr n sched new s)) x = name_of s x" for x
      using False by (simp add: UpdateJob_def Let_def u None)
    have "s_Jobs (snd (UpdateJob cr n sched new s)) = ?js"
      "s_jobsByName (snd (UpdateJob cr n sched new s)) = (s_jobsByName s)(n \<mapsto> new)"
      "s_disabledNames (snd (UpdateJob cr n sched new s)) = s_disabledNames s"
      using False by (auto simp: UpdateJob_def Let_def u None)
    then show ?thesis
      using assms(1) names im by' unfolding registry_ok_def nm by simp
  next
    case (Some err)
    then show ?thesis using False assms(1) by (simp add: UpdateJob_def Let_def u registry_ok_def)
  qed
qed

text \<open>What is left of the invariant after an update: everything but the identifiers of the entries.\<close>

definition named_ok :: "'c cron_api \<Rightarrow> ('c, 'w) Scheduler \<Rightarrow> bool" where
  "named_ok cr s \<longleftrightarrow> registry_ok s \<and> ce_Name ` set (Entries cr (s_cron s)) = name_of s ` set (s_Jobs s)"

lemma sched_ok_named: "sched_ok cr s \<Longrightarrow> named_ok cr s"
  using entry_names [of s "set (Entries cr (s_cron s))"] by (simp add: sched_ok_def named_ok_def)

lemma named_ok_cong:
  assumes "named_ok cr s" "name_of s' = name_of s" "s_Jobs s' = s_Jobs s" "s_jobsByName s' = s_jobsByName s"
    "s_disabledNames s' \<subseteq> name_of s ` set (s_Jobs s)" "Entries cr (s_cron s') = Entries cr (s_cron s)"
  shows "named_ok cr s'"
proof -
  have n: "name_of s' x = name_of s x" for x using assms(2) by (simp add: fun_eq_iff)
  show ?thesis using assms(1,3-) by (auto simp: named_ok_def registry_ok_def n)
qed

lemma named_disabled: "named_ok cr s \<Longrightarrow> s_disabledNames s \<subseteq> name_of s ` set (s_Jobs s)"
  by (simp add: named_ok_def registry_ok_def)

lemma named_ok_cron: "named_ok cr s \<Longrightarrow> Entries cr c = Entries cr (s_cron s) \<Longrightarrow> named_ok cr (s\<lparr>s_cron := c\<rparr>)"
  by (rule named_ok_cong) (use named_disabled in auto)

lemma named_ok_toggle:
  "named_ok cr s \<Longrightarrow> D \<subseteq> name_of s ` set (s_Jobs s) \<Longrightarrow> Entries cr c = Entries cr (s_cron s) \<Longrightarrow>
   named_ok cr (s\<lparr>s_cron := c, s_disabledNames := D\<rparr>)"
  by (rule named_ok_cong) auto

lemma named_ok_AddJobWithTags:
  assumes laws: "cron_laws cr" and ok: "named_ok cr s" and n: "name_of s r \<noteq> []"
  shows "named_ok cr (snd (AddJobWithTags cr r tags s))"
proof (cases "bj_Schedule (s_heap s r) = []")
  case True
  then show ?thesis using ok by (simp add: AddJobWithTags_def Let_def)
next
  case False
  let ?n = "name_of s r"
  obtain res c where add: "AddJob cr (bj_Schedule (s_heap s r)) r ?n tags (bj_RunOnStartup (s_heap s r)) (s_cron s) = (res, c)"
    by fastforce
  show ?thesis
  proof (cases res)
    case (Inl err)
    then have s': "snd (AddJobWithTags cr r tags s) = (use_global_mws r s)\<lparr>s_cron := c\<rparr>"
      using False add by (simp add: AddJobWithTags_def Let_def)
    have "Entries cr c = Entries cr (s_cron s)" using cron_add_error [OF laws n] add Inl by blast
    then show ?thesis unfolding s' using named_disabled [OF ok] by (intro named_ok_cong [OF ok]) (simp_all add: fun_eq_iff)
  next
    case (Inr i)
    let ?s' = "snd (AddJobWithTags cr r tags s)"
    have f: "s_Jobs ?s' = s_Jobs s @ [r]" "s_jobsByName ?s' = (s_jobsByName s)(?n \<mapsto> r)"
      "s_disabledNames ?s' = s_disabledNames s" "s_cron ?s' = c"
      using False add Inr by (simp_all add: AddJobWithTags_def SetCronJobID_def Let_def)
    have nm: "name_of ?s' x = name_of s x" for x
      using False add Inr by (simp add: AddJobWithTags_def SetCronJobID_def Let_def)
    have l: "?n \<notin> ce_Name ` set (Entries cr (s_cron s))"
      "set (Entries cr c) = insert \<lparr>ce_ID = i, ce_Name = ?n, ce_Tags = tags\<rparr> (set (Entries cr (s_cron s)))"
      using cron_add_ok [OF laws n] add Inr by blast+
    have reg: "registry_ok s" and names: "ce_Name ` set (Entries cr (s_cron s)) = name_of s ` set (s_Jobs s)"
      using ok by (simp_all add: named_ok_def)
    have nn: "?n \<notin> name_of s ` set (s_Jobs s)" using l(1) names by simp
    then have nn2: "name_of s x \<noteq> ?n" if "x \<in> set (s_Jobs s)" for x using that by (metis image_eqI)
    have "registry_ok ?s'"
      using reg nn nn2 n byName_None [OF reg, of ?n] by (auto simp: registry_ok_def f nm)
    then show ?thesis using l(2) names by (simp add: named_ok_def f nm)
  qed
qed

lemma named_ok_DisableJob: "cron_laws cr \<Longrightarrow> named_ok cr s \<Longrightarrow> named_ok cr (snd (DisableJob cr n s))"
proof (cases "PauseEntryByName cr n (s_cron s)")
  case (Pair e c)
  moreover assume laws: "cron_laws cr" and ok: "named_ok cr s"
  ultimately have ent: "Entries cr c = Entries cr (s_cron s)" using frame_entries(1) [of cr n "s_cron s"] by simp
  have "n \<in> name_of s ` set (s_Jobs s)" if "getJob s n \<noteq> None"
    using that by (auto simp: getJob_def find_Some_iff dest: nth_mem)
  then have "named_ok cr (s\<lparr>s_cron := c, s_disabledNames := insert n (s_disabledNames s)\<rparr>)" if "getJob s n \<noteq> None"
    using that named_disabled [OF ok] by (intro named_ok_toggle [OF ok _ ent]) auto
  then show ?thesis using ok Pair named_ok_cron [OF ok ent] by (auto simp: DisableJob_def split: option.splits)
qed

lemma named_ok_EnableJob: "cron_laws cr \<Longrightarrow> named_ok cr s \<Longrightarrow> named_ok cr (snd (EnableJob cr n s))"
proof (cases "ResumeEntryByName cr n (s_cron s)")
  case (Pair e c)
  moreover assume laws: "cron_laws cr" and ok: "named_ok cr s"
  ultimately have ent: "Entries cr c = Entries cr (s_cron s)" using frame_entries(2) [of cr n "s_cron s"] by simp
  have "named_ok cr (s\<lparr>s_cron := c, s_disabledNames := s_disabledNames s - {n}\<rparr>)"
    using named_disabled [OF ok] by (intro named_ok_toggle [OF ok _ ent]) auto
  then show ?thesis using ok Pair named_ok_cron [OF ok ent] by (auto simp: EnableJob_def split: option.splits)
qed

lemma named_ok_RunJob: "cron_laws cr \<Longrightarrow> named_ok cr s \<Longrightarrow> named_ok cr (snd (RunJob cr n s))"
  using frame_entries(3) [of cr n "s_cron s"] named_ok_cron [of cr s]
  by (auto simp: RunJob_def split: option.splits prod.splits)

lemma named_ok_Start: "cron_laws cr \<Longrightarrow> named_ok cr s \<Longrightarrow> named_ok cr (snd (sched_Start cr s))"
proof -
  assume laws: "cron_laws cr" and ok: "named_ok cr s"
  have "\<forall>r\<in>set (s_Jobs s). s_jobsByName s (name_of s r) = Some r"
    using ok by (auto simp: named_ok_def registry_ok_def)
  then have b: "fold (\<lambda>r m. m(name_of s r \<mapsto> r)) (s_Jobs s) (s_jobsByName s) = s_jobsByName s"
    by (rule rebuild_byName)
  obtain r c where w: "BuildWorkflowDependencies (is_ErrCycleDetected cr) (AddDependencyByName cr)
      (map (s_heap s) (s_Jobs s)) (s_cron s) = (r, c)" by fastforce
  then have "Entries cr (cron_Start cr c) = Entries cr (s_cron s)"
    using BuildWorkflow_entries [OF laws, of "is_ErrCycleDetected cr" "map (s_heap s) (s_Jobs s)" "s_cron s"]
      frame_entries(6) [OF laws] by simp
  then have "named_ok cr (s\<lparr>s_cron := cron_Start cr c\<rparr>)" by (rule named_ok_cron [OF ok])
  with w b show ?thesis by (simp add: sched_Start_def)
qed

lemma named_ok_StopWithTimeout: "cron_laws cr \<Longrightarrow> named_ok cr s \<Longrightarrow> named_ok cr (snd (StopWithTimeout cr d s))"
  using frame_entries(7) [of cr d "s_cron s"] named_ok_cron [of cr s]
  by (auto simp: StopWithTimeout_def split: prod.splits)

lemma UpdateJob_names:
  assumes "cron_laws cr" "name_of s r = n"
  shows "Entries cr (s_cron (snd (UpdateJob cr n sched r s))) = Entries cr (s_cron s) \<and>
    name_of (snd (UpdateJob cr n sched r s)) ` set (s_Jobs (snd (UpdateJob cr n sched r s))) = name_of s ` set (s_Jobs s)"
proof -
  obtain res c where u: "UpdateEntryJobByName cr n sched r (s_cron s) = (res, c)" by fastforce
  then have "Entries cr c = Entries cr (s_cron s)" using frame_entries(4) [OF assms(1), of n sched r "s_cron s"] by simp
  moreover have "name_of s ` set (replace_first (\<lambda>j. name_of s j = n) r (s_Jobs s)) = name_of s ` set (s_Jobs s)"
    using arg_cong [OF map_replace_first [where f = "name_of s", OF assms(2)], of set] by simp
  moreover have "name_of (s\<lparr>s_heap := s_heap (use_global_mws r s)\<rparr>) x = name_of s x" for x by simp
  ultimately show ?thesis using u by (auto simp: UpdateJob_def Let_def split: option.splits)
qed

lemma named_ok_UpdateJob:
  assumes "cron_laws cr" "named_ok cr s" "r \<notin> set (s_Jobs s)" "name_of s r = n"
  shows "named_ok cr (snd (UpdateJob cr n sched r s))"
  using assms UpdateJob_registry_ok [of s r n cr sched] UpdateJob_names [OF assms(1,4)] by (simp add: named_ok_def)

section \<open>Sequences of operations\<close>

text \<open>
  The operations as events. A job that is added has a name, a job that is removed is one that
  is registered, and a job that is put in place of another is a new object of its name, which is how the
  callers under \<^verbatim>\<open>src/cli\<close> and \<^verbatim>\<open>src/web\<close> use them.
\<close>

datatype sched_event =
    EvAdd ref "string list" | EvRemove ref | EvRemoveByTag string | EvUpdate string string ref | EvDisable string
  | EvEnable string | EvRun string | EvStart | EvStop duration

fun sched_step :: "'c cron_api \<Rightarrow> sched_event \<Rightarrow> ('c, 'w) Scheduler \<Rightarrow> ('c, 'w) Scheduler" where
  "sched_step cr (EvAdd r tags) s = (if name_of s r = [] then s else snd (AddJobWithTags cr r tags s))"
| "sched_step cr (EvRemove r) s = (if r \<in> set (s_Jobs s) then snd (RemoveJob cr r s) else s)"
| "sched_step cr (EvRemoveByTag t) s = snd (RemoveJobsByTag cr t s)"
| "sched_step cr (EvUpdate n sched r) s =
     (if name_of s r = n \<and> r \<notin> set (s_Jobs s) then snd (UpdateJob cr n sched r s) else s)"
| "sched_step cr (EvDisable n) s = snd (DisableJob cr n s)"
| "sched_step cr (EvEnable n) s = snd (EnableJob cr n s)"
| "sched_step cr (EvRun n) s = snd (RunJob cr n s)"
| "sched_step cr EvStart s = snd (sched_Start cr s)"
| "sched_step cr (EvStop d) s = snd (StopWithTimeout cr d s)"

text \<open>Identifiers are lost by an update and used by the removals, so the invariant holds until a removal
  follows an update.\<close>

datatype id_phase = IdsKnown | IdsLost | IdsMisused

fun track_ids :: "sched_event \<Rightarrow> id_phase \<Rightarrow> id_phase" where
  "track_ids (EvUpdate n sched r) p = (if p = IdsKnown then IdsLost else p)"
| "track_ids (EvRemove r) p = (if p = IdsLost then IdsMisused else p)"
| "track_ids (EvRemoveByTag t) p = (if p = IdsLost then IdsMisused else p)"
| "track_ids _ p = p"

definition removal_after_update :: "sched_event list \<Rightarrow> bool" where
  "removal_after_update es \<longleftrightarrow> fold track_ids es IdsKnown = IdsMisused"

definition phase_ok :: "'c cron_api \<Rightarrow> id_phase \<times> ('c, 'w) Scheduler \<Rightarrow> bool" where
  "phase_ok cr ps \<longleftrightarrow> (case fst ps of IdsKnown \<Rightarrow> sched_ok cr (snd ps) | IdsLost \<Rightarrow> named_ok cr (snd ps) | IdsMisused \<Rightarrow> True)"

definition phase_step :: "'c cron_api \<Rightarrow> sched_event \<Rightarrow> id_phase \<times> ('c, 'w) Scheduler \<Rightarrow> id_phase \<times> ('c, 'w) Scheduler" where
  "phase_step cr e ps = (track_ids e (fst ps), sched_step cr e (snd ps))"

lemma sched_ok_step: "cron_laws cr \<Longrightarrow> sched_ok cr s \<Longrightarrow> \<nexists>n sched r. e = EvUpdate n sched r \<Longrightarrow> sched_ok cr (sched_step cr e s)"
  by (cases e) (simp_all add: sched_ok_AddJobWithTags sched_ok_RemoveJob sched_ok_RemoveJobsByTag
      sched_ok_DisableJob sched_ok_EnableJob RunJob_frame Start_frame StopWithTimeout_frame)

lemma named_ok_step:
  "cron_laws cr \<Longrightarrow> named_ok cr s \<Longrightarrow> (\<nexists>r. e = EvRemove r) \<Longrightarrow> (\<nexists>t. e = EvRemoveByTag t) \<Longrightarrow> named_ok cr (sched_step cr e s)"
  by (cases e) (simp_all add: named_ok_AddJobWithTags named_ok_UpdateJob named_ok_DisableJob named_ok_EnableJob
      named_ok_RunJob named_ok_Start named_ok_StopWithTimeout)

lemma phase_ok_step: "cron_laws cr \<Longrightarrow> phase_ok cr ps \<Longrightarrow> phase_ok cr (phase_step cr e ps)"
  using sched_ok_step [of cr "snd ps" e] named_ok_step [of cr "snd ps" e] sched_ok_named [of cr "snd ps"]
  by (cases e; cases "fst ps") (simp_all add: phase_ok_def phase_step_def del: sched_step.simps)

lemma sched_ok_init: "cron_laws cr \<Longrightarrow> sched_ok cr (newSchedulerInternal cr h)"
  by (simp add: sched_ok_def registry_ok_def entries_ok_def newSchedulerInternal_def cron_laws_def cron_add_law_def)

interpretation scm: machine "(IdsKnown, newSchedulerInternal cr h)" "phase_step cr" "\<lambda>ps. cron_laws cr \<longrightarrow> phase_ok cr ps" for cr h
  by unfold_locales (simp_all add: phase_ok_step, simp add: phase_ok_def sched_ok_init)

lemma phase_run: "fold (phase_step cr) es (p, s) = (fold track_ids es p, fold (sched_step cr) es s)"
  by (induction es arbitrary: p s) (simp_all add: phase_step_def)

lemma run_named_ok:
  assumes "cron_laws cr" "\<not> removal_after_update es"
  shows "named_ok cr (fold (sched_step cr) es (newSchedulerInternal cr h))"
  using scm.ok_run [of cr es h] assms sched_ok_named
  by (auto simp: phase_run phase_ok_def removal_after_update_def split: id_phase.splits)

text \<open>Writing an object that is not scheduled changes nothing for the scheduler.\<close>

lemma heap_fresh:
  assumes "sched_ok cr s" "r \<notin> set (s_Jobs s)"
  shows "sched_ok cr (s\<lparr>s_heap := (s_heap s)(r := j)\<rparr>)"
proof -
  let ?s = "s\<lparr>s_heap := (s_heap s)(r := j)\<rparr>"
  have n: "name_of ?s x = name_of s x" "id_of ?s x = id_of s x" if "x \<in> set (s_Jobs s)" for x
    using that assms(2) by auto
  have im: "name_of ?s ` set (s_Jobs s) = name_of s ` set (s_Jobs s)" using n by (intro image_cong) auto
  have mp: "map (name_of ?s) (s_Jobs s) = map (name_of s) (s_Jobs s)" using n by (intro map_cong) auto
  have ok: "registry_ok s" using assms(1) by (simp add: sched_ok_def)
  have b: "s_jobsByName s m = Some x \<longleftrightarrow> x \<in> set (s_Jobs s) \<and> name_of ?s x = m" for m x
    using ok n(1) [of x] unfolding registry_ok_def by metis
  have f: "s_Jobs ?s = s_Jobs s" "s_disabledNames ?s = s_disabledNames s" by simp_all
  have "registry_ok ?s"
    unfolding registry_ok_def
  proof (intro conjI allI)
    show "distinct (map (name_of ?s) (s_Jobs ?s))" unfolding f mp using ok by (simp add: registry_ok_def)
    show "[] \<notin> name_of ?s ` set (s_Jobs ?s)" unfolding f im using ok by (simp add: registry_ok_def)
    show "s_disabledNames ?s \<subseteq> name_of ?s ` set (s_Jobs ?s)" unfolding f im using ok by (simp add: registry_ok_def)
    show "s_jobsByName ?s m = Some x \<longleftrightarrow> x \<in> set (s_Jobs ?s) \<and> name_of ?s x = m" for m x using b [of m x] by simp
  qed
  moreover have "(\<lambda>x. (name_of ?s x, id_of ?s x)) ` set (s_Jobs s) = (\<lambda>x. (name_of s x, id_of s x)) ` set (s_Jobs s)"
    using n by (intro image_cong) auto
  ultimately show ?thesis using assms(1) by (simp add: sched_ok_def entries_ok_def)
qed

section \<open>A concrete scheduler\<close>

text \<open>A list of entries with the rules of \<open>cron_laws\<close>.\<close>

definition list_cron :: "cron_entry list cron_api" where
  "list_cron =
     \<lparr>cr_new = [],
      AddJob = (\<lambda>sched r n tags now c.
        let i = Suc (foldr max (map ce_ID c) 0) in
        if n \<in> ce_Name ` set c then (Inl (Opaque 3 ''duplicate name''), c)
        else if 2 ^ 64 \<le> i then (Inl (Opaque 4 ''too many entries''), c)
        else (Inr i, c @ [\<lparr>ce_ID = i, ce_Name = n, ce_Tags = tags\<rparr>])),
      RemoveByName = (\<lambda>n c. filter (\<lambda>e. ce_Name e \<noteq> n) c),
      WaitForJobByName = (\<lambda>n c. c),
      Entries = id,
      EntriesByTag = (\<lambda>t c. filter (\<lambda>e. t \<in> set (ce_Tags e)) c),
      RemoveByTag = (\<lambda>t c. (length (filter (\<lambda>e. t \<in> set (ce_Tags e)) c), filter (\<lambda>e. t \<notin> set (ce_Tags e)) c)),
      UpdateEntryJobByName = (\<lambda>n sched r c. (if n \<in> ce_Name ` set c then None else Some (Opaque 1 ''entry not found''), c)),
      PauseEntryByName = (\<lambda>n c. (if n \<in> ce_Name ` set c then None else Some (Opaque 1 ''entry not found''), c)),
      ResumeEntryByName = (\<lambda>n c. (if n \<in> ce_Name ` set c then None else Some (Opaque 1 ''entry not found''), c)),
      TriggerEntryByName = (\<lambda>n c. (if n \<in> ce_Name ` set c then None else Some (Opaque 1 ''entry not found''), c)),
      AddDependencyByName = (\<lambda>ch p k c. (None, c)),
      is_ErrCycleDetected = list_is_cycle,
      cron_Start = id,
      cron_StopWithTimeout = (\<lambda>d c. (True, c)),
      cron_IsRunning = (\<lambda>c. True)\<rparr>"

lemma foldr_max_ge: "x \<in> set xs \<Longrightarrow> x \<le> foldr max xs (0 :: nat)"
  by (induction xs) auto

lemma list_cron_laws: "cron_laws list_cron"
proof -
  have fresh: "Suc (foldr max (map ce_ID c) 0) \<notin> ce_ID ` set c" for c
    using foldr_max_ge [of _ "map ce_ID c"] by (auto simp: Suc_le_eq image_iff) (metis image_eqI leD lessI)
  show ?thesis
    unfolding cron_laws_def cron_add_law_def cron_remove_law_def cron_pause_law_def cron_frame_law_def
    by (simp add: list_cron_def Let_def) (use fresh in blast)
qed

definition two_jobs :: "ref \<Rightarrow> unit bare_job" where
  "two_jobs r = plain_job (if r = 1 then ''b'' else ''a'') []"

section \<open>Properties\<close>



text \<open>C1 (registry_refinement): on every consistent state the operations implement a map from names to
  jobs with a disabled flag: adding a job extends the map at a name that was free and appends to
  the list, a refused job changes nothing, removing a registered job deletes exactly its name,
  disabling and enabling set the flag, and an unknown name is reported as \<^verbatim>\<open>ErrJobNotFound\<close> and
  changes nothing.\<close>

theorem registry_refinement:
  assumes "cron_laws cr" "sched_ok cr s" "name_of s r \<noteq> []"
  shows "(case AddJobWithTags cr r tags s of
        (None, s') \<Rightarrow> registry s (name_of s r) = None \<and> s_Jobs s' = s_Jobs s @ [r] \<and>
          registry s' = (registry s)(name_of s r \<mapsto> (r, False))
      | (Some _, s') \<Rightarrow> registry s' = registry s \<and> s_Jobs s' = s_Jobs s) \<and>
    (r \<in> set (s_Jobs s) \<longrightarrow> registry (snd (RemoveJob cr r s)) = (registry s)(name_of s r := None) \<and>
       s_Jobs (snd (RemoveJob cr r s)) = removeAll r (s_Jobs s)) \<and>
    (case registry s n of
       None \<Rightarrow> err_is (fst (DisableJob cr n s)) ErrJobNotFound \<and> snd (DisableJob cr n s) = s \<and>
         err_is (fst (EnableJob cr n s)) ErrJobNotFound \<and> snd (EnableJob cr n s) = s
     | Some (x, _) \<Rightarrow> registry (snd (DisableJob cr n s)) = (registry s)(n \<mapsto> (x, True)) \<and>
         registry (snd (EnableJob cr n s)) = (registry s)(n \<mapsto> (x, False)))"
proof (intro conjI impI, goal_cases)
  case 1
  show ?case using AddJobWithTags_ok [OF assms, of tags] AddJobWithTags_error [OF assms, of tags]
    by (auto split: prod.splits option.splits)
next
  case 2
  have ok: "registry_ok s" "entries_ok s (set (Entries cr (s_cron s)))"
    using assms(2) by (simp_all add: sched_ok_def)
  show ?case using restricted_registry [OF RemoveJob_restricted [OF ok 2, of cr]]
    by (auto simp: restrict_map_def fun_eq_iff)
next
  case 3
  have ok: "registry_ok s" "entries_ok s (set (Entries cr (s_cron s)))"
    using assms(2) by (simp_all add: sched_ok_def)
  have "(name_of s x \<in> - {name_of s r}) = (r \<noteq> x)" if "x \<in> set (s_Jobs s)" for x
    using name_inj [OF ok(1)] 3 that by (auto simp: inj_on_def)
  then show ?case using RemoveJob_restricted [OF ok 3, of cr]
    unfolding restricted_def removeAll_filter_not_eq by (metis (mono_tags, lifting) filter_cong)
next
  case 4
  show ?case using DisableJob_effect [OF assms(1,2), of n] EnableJob_effect [OF assms(1,2), of n]
    by (auto split: option.splits)
qed

theorem registry_refinement_witness:
  "registry (snd (AddJobWithTags list_cron 0 [] (newSchedulerInternal list_cron two_jobs))) =
     [''a'' \<mapsto> (0, False)]"
proof -
  let ?s = "newSchedulerInternal list_cron two_jobs"
  have n: "name_of ?s 0 = ''a''" "bj_Schedule (s_heap ?s 0) \<noteq> []"
    by (simp_all add: newSchedulerInternal_def two_jobs_def plain_job_def)
  have "fst (AddJobWithTags list_cron 0 [] ?s) = None"
    using n by (simp add: AddJobWithTags_def list_cron_def newSchedulerInternal_def Let_def use_global_mws_def)
  moreover have "registry ?s = Map.empty" by (simp add: registry_def [abs_def] newSchedulerInternal_def)
  ultimately show ?thesis
    using registry_refinement [OF list_cron_laws sched_ok_init [OF list_cron_laws, of two_jobs], of 0 "[]" "''x''"] n
    by (auto split: prod.splits)
qed

text \<open>(tag_operations_exact): on a consistent state the query by tag returns exactly the jobs whose
  entry has the tag, and the removal by tag removes exactly those names.\<close>

theorem tag_operations_exact:
  assumes "cron_laws cr" "sched_ok cr s"
  shows "set (GetJobsByTag cr t s) = {r \<in> set (s_Jobs s). name_of s r \<in> tagged cr t s} \<and>
    registry (snd (RemoveJobsByTag cr t s)) = registry s |` (- tagged cr t s)"
proof -
  let ?E = "set (Entries cr (s_cron s))" and ?f = "\<lambda>e. find (\<lambda>j. id_of s j = of_nat (ce_ID e)) (s_Jobs s)"
  have ok: "registry_ok s" "entries_ok s ?E" and law: "cron_remove_law cr"
    using assms by (simp_all add: sched_ok_def cron_laws_def)
  have es: "set (EntriesByTag cr t (s_cron s)) = {e \<in> ?E. t \<in> set (ce_Tags e)}"
    using law by (simp add: cron_remove_law_def)
  have find: "?f e = Some r \<longleftrightarrow> r \<in> set (s_Jobs s) \<and> name_of s r = ce_Name e" if e: "e \<in> ?E" for e r
  proof -
    obtain x where x: "x \<in> set (s_Jobs s)" "name_of s x = ce_Name e" "id_of s x = of_nat (ce_ID e)"
      using entry_job [OF ok(2) e] .
    have "?f e = Some x"
      by (rule find_unique [OF x(1)]) (simp add: x(3), rule job_with_id [OF ok x(1)], simp_all add: x(3))
    moreover have "r \<in> set (s_Jobs s) \<and> name_of s r = ce_Name e \<longleftrightarrow> r = x"
      using x(1,2) name_inj [OF ok(1)] unfolding inj_on_def by metis
    ultimately show ?thesis by auto
  qed
  have "set (GetJobsByTag cr t s) = {r. \<exists>e \<in> ?E. t \<in> set (ce_Tags e) \<and> ?f e = Some r}"
    by (auto simp: GetJobsByTag_def set_List_map_filter es)
  also have "\<dots> = {r \<in> set (s_Jobs s). name_of s r \<in> tagged cr t s}"
    using find by (auto simp: tagged_def)
  finally show ?thesis
    using restricted_registry [OF RemoveJobsByTag_restricted [OF law ok, of t]] by simp
qed

lemma add_plain:
  "\<exists>s'. AddJobWithTags list_cron 0 [''t''] (newSchedulerInternal list_cron two_jobs) = (None, s') \<and>
     name_of s' = name_of (newSchedulerInternal list_cron two_jobs) \<and> id_of s' 2 = 0"
  by (simp add: AddJobWithTags_def list_cron_def newSchedulerInternal_def Let_def use_global_mws_def
      SetCronJobID_def two_jobs_def plain_job_def fun_eq_iff)

lemma plain_names: "name_of (newSchedulerInternal cr two_jobs) r = (if r = 1 then ''b'' else ''a'')"
  by (simp add: newSchedulerInternal_def two_jobs_def plain_job_def)

lemma added_state:
  obtains s' where "AddJobWithTags list_cron 0 [''t''] (newSchedulerInternal list_cron two_jobs) = (None, s')"
    "sched_ok list_cron s'" "s_Jobs s' = [0]" "s_disabledNames s' = {}" "''a'' \<in> tagged list_cron ''t'' s'"
    "name_of s' 0 = ''a''" "name_of s' 2 = ''a''" "id_of s' 2 = 0" "registry s' ''a'' = Some (0, False)"
proof -
  let ?s = "newSchedulerInternal list_cron two_jobs"
  obtain s' where a: "AddJobWithTags list_cron 0 [''t''] ?s = (None, s')"
    and n: "name_of s' = name_of ?s" and i: "id_of s' 2 = 0" using add_plain by blast
  have nn: "name_of s' 0 = ''a''" "name_of s' 2 = ''a''"
    using fun_cong [OF n, of 0] fun_cong [OF n, of 2] by (simp_all add: plain_names)
  have ok0: "sched_ok list_cron ?s" by (rule sched_ok_init [OF list_cron_laws])
  have n0: "name_of ?s 0 = ''a''" by (simp add: plain_names)
  then have n1: "name_of ?s 0 \<noteq> []" by simp
  note add = AddJobWithTags_ok [OF list_cron_laws ok0 n1 a, unfolded n0]
  have r: "sched_ok list_cron s'" "s_Jobs s' = s_Jobs ?s @ [0]" "registry s' = (registry ?s)(''a'' \<mapsto> (0, False))"
    "\<exists>e \<in> set (Entries list_cron (s_cron s')). ce_Name e = ''a'' \<and> ce_Tags e = [''t'']"
    using add by blast+
  have j: "s_Jobs s' = [0]" using r(2) by (simp add: newSchedulerInternal_def)
  have t: "''a'' \<in> tagged list_cron ''t'' s'" using r(4) unfolding tagged_def by force
  have g: "registry s' ''a'' = Some (0, False)" by (simp add: r(3))
  then have "''a'' \<notin> s_disabledNames s'" by (auto simp: registry_def)
  then have "s_disabledNames s' = {}" using disabled_subset [OF r(1)] j nn(1) by auto
  then show thesis using that a r(1) j t nn i g by blast
qed

theorem tag_operations_exact_witness:
  "\<exists>s'. AddJobWithTags list_cron 0 [''t''] (newSchedulerInternal list_cron two_jobs) = (None, s') \<and>
     set (GetJobsByTag list_cron ''t'' s') = {0} \<and> registry (snd (RemoveJobsByTag list_cron ''t'' s')) ''a'' = None"
proof -
  obtain s' where s': "AddJobWithTags list_cron 0 [''t''] (newSchedulerInternal list_cron two_jobs) = (None, s')"
    "sched_ok list_cron s'" "s_Jobs s' = [0]" "''a'' \<in> tagged list_cron ''t'' s'" "name_of s' 0 = ''a''"
    by (rule added_state)
  note x = tag_operations_exact [OF list_cron_laws s'(2), of "''t''"]
  have "set (GetJobsByTag list_cron ''t'' s') = {0}"
    unfolding x [THEN conjunct1] s'(3) using s'(4,5) by auto
  moreover have "registry (snd (RemoveJobsByTag list_cron ''t'' s')) ''a'' = None"
    unfolding x [THEN conjunct2] using s'(4) by simp
  ultimately show ?thesis using s'(1) by blast
qed

text \<open>A job without an identifier survives the removal of entries: \<open>detached n r\<close> says that \<open>n\<close>
  names the active job \<open>r\<close> and that no other job with an identifier has this name.\<close>

definition detached :: "string \<Rightarrow> ref \<Rightarrow> ('c, 'w) Scheduler \<Rightarrow> bool" where
  "detached n r s \<longleftrightarrow> (\<forall>j\<in>set (s_Jobs s). id_of s j \<noteq> 0 \<longrightarrow> name_of s j \<noteq> n) \<and>
     s_jobsByName s n = Some r \<and> n \<notin> s_disabledNames s"

lemma detached_drop:
  assumes "detached n r s" "(of_nat (ce_ID e) :: u64) \<noteq> 0"
  shows "detached n r (drop_entry e s)"
proof (cases "find (\<lambda>j. id_of s j = of_nat (ce_ID e)) (rev (s_Jobs s))")
  case None
  then show ?thesis using assms(1) by (simp add: drop_entry_def)
next
  case (Some j)
  then have "j \<in> set (s_Jobs s)" "id_of s j \<noteq> 0" using find_Some_in [OF Some] assms(2) by auto
  then have "name_of s j \<noteq> n" using assms(1) by (simp add: detached_def)
  with Some assms(1) show ?thesis
    using set_remove_first_subset [of "\<lambda>j. id_of s j = of_nat (ce_ID e)" "rev (s_Jobs s)"]
    unfolding detached_def drop_entry_def by (simp add: subset_iff)
qed

lemma detached_drops:
  "detached n r s \<Longrightarrow> \<forall>e\<in>set es. (of_nat (ce_ID e) :: u64) \<noteq> 0 \<Longrightarrow> detached n r (fold drop_entry es s)"
  by (induction es arbitrary: s) (simp_all add: detached_drop)

lemma entry_id_nonzero:
  assumes "entries_ok s E" "e \<in> E"
  shows "(of_nat (ce_ID e) :: u64) \<noteq> 0"
proof
  assume "(of_nat (ce_ID e) :: u64) = 0"
  moreover have "ce_ID e < 2 ^ 64" "0 < ce_ID e" using assms by (auto simp: entries_ok_def)
  ultimately show False using of_nat_u64_inj [of "ce_ID e" 0] by simp
qed

lemma UpdateJob_detaches:
  assumes "cron_laws cr" "sched_ok cr s" "name_of s newJob = n" "id_of s newJob = 0"
    "UpdateJob cr n sched newJob s = (None, s')"
  shows "detached n newJob s' \<and> id_of s' newJob = 0 \<and> Entries cr (s_cron s') = Entries cr (s_cron s)"
proof -
  obtain c where c: "UpdateEntryJobByName cr n sched newJob (s_cron s) = (None, c)" and d: "n \<notin> s_disabledNames s"
    and s': "s' = (use_global_mws newJob s)\<lparr>s_cron := c,
        s_Jobs := replace_first (\<lambda>j. name_of s j = n) newJob (s_Jobs s),
        s_jobsByName := (s_jobsByName s)(n \<mapsto> newJob)\<rparr>"
  proof (cases "UpdateEntryJobByName cr n sched newJob (s_cron s)")
    case (Pair err c)
    then show thesis using that assms(5) by (cases err) (simp_all add: UpdateJob_def split: if_splits)
  qed
  have dist: "distinct (map (name_of s) (s_Jobs s))" using assms(2) by (simp add: sched_ok_def registry_ok_def)
  have "name_of s j \<noteq> n" if "j \<in> set (s_Jobs s')" "id_of s j \<noteq> 0" for j
    using replace_first_others [OF dist, of j n newJob] that assms(4) by (auto simp: s')
  moreover have "Entries cr c = Entries cr (s_cron s)"
    using frame_entries(4) [OF assms(1), of n sched newJob "s_cron s"] c by simp
  ultimately show ?thesis using d assms(4) by (auto simp: detached_def s')
qed

text \<open>(update_detaches_tags): \<^verbatim>\<open>UpdateJob\<close> puts the new job in place of the old one but does not give
  it the identifier of the cron entry. A job whose identifier is still unset is therefore
  missing from the query by tag, and a removal by tag takes its entry out of go-cron while the
  scheduler still lists the job as active.\<close>

theorem update_detaches_tags:
  assumes laws: "cron_laws cr" and ok: "sched_ok cr s"
    and new: "name_of s newJob = n" "id_of s newJob = 0"
    and tag: "n \<in> tagged cr t s" and upd: "UpdateJob cr n sched newJob s = (None, s')"
  shows "newJob \<notin> set (GetJobsByTag cr t s') \<and>
    (let s'' = snd (RemoveJobsByTag cr t s') in
       GetJob n s'' = Some newJob \<and> n \<notin> ce_Name ` set (Entries cr (s_cron s'')))"
proof -
  let ?E = "set (Entries cr (s_cron s))" and ?es = "EntriesByTag cr t (s_cron s')"
  have ent: "entries_ok s ?E" and law: "cron_remove_law cr"
    using ok laws by (simp_all add: sched_ok_def cron_laws_def)
  note u = UpdateJob_detaches [OF laws ok new upd]
  have es: "set ?es = {e \<in> ?E. t \<in> set (ce_Tags e)}" using law u by (simp add: cron_remove_law_def)
  then have nz: "\<forall>e\<in>set ?es. (of_nat (ce_ID e) :: u64) \<noteq> 0" using entry_id_nonzero [OF ent] by simp
  have "newJob \<notin> set (GetJobsByTag cr t s')"
  proof
    assume "newJob \<in> set (GetJobsByTag cr t s')"
    then obtain e where "e \<in> set ?es" "find (\<lambda>j. id_of s' j = of_nat (ce_ID e)) (s_Jobs s') = Some newJob"
      by (auto simp: GetJobsByTag_def set_List_map_filter)
    then have "id_of s' newJob = of_nat (ce_ID e)" by (simp add: find_Some_iff) blast
    then show False using nz u \<open>e \<in> set ?es\<close> by simp
  qed
  moreover obtain k c where rm: "RemoveByTag cr t (s_cron s') = (k, c)" by fastforce
  moreover have "set (Entries cr c) = {e \<in> ?E. t \<notin> set (ce_Tags e)}"
  proof -
    have "set (Entries cr (snd (RemoveByTag cr t (s_cron s')))) = {e \<in> ?E. t \<notin> set (ce_Tags e)}"
      using law u by (simp add: cron_remove_law_def)
    then show ?thesis by (simp add: rm)
  qed
  moreover have "n \<notin> ce_Name ` {e \<in> ?E. t \<notin> set (ce_Tags e)}"
    using tag ent unfolding tagged_def entries_ok_def inj_on_def by blast
  moreover have "?es \<noteq> []" using tag es unfolding tagged_def by force
  then have "snd (RemoveJobsByTag cr t s') = fold drop_entry ?es (s'\<lparr>s_cron := c\<rparr>)"
    by (simp add: RemoveJobsByTag_def rm)
  moreover have "detached n newJob (fold drop_entry ?es (s'\<lparr>s_cron := c\<rparr>))"
    by (rule detached_drops [OF _ nz]) (use u in \<open>simp add: detached_def\<close>)
  ultimately show ?thesis by (simp add: detached_def GetJob_def lookupJob_def)
qed

theorem update_detaches_tags_witness:
  "\<exists>s s'. AddJobWithTags list_cron 0 [''t''] (newSchedulerInternal list_cron two_jobs) = (None, s) \<and>
     UpdateJob list_cron ''a'' ''@hourly'' 2 s = (None, s') \<and>
     GetJob ''a'' (snd (RemoveJobsByTag list_cron ''t'' s')) = Some 2"
proof -
  obtain s where s: "AddJobWithTags list_cron 0 [''t''] (newSchedulerInternal list_cron two_jobs) = (None, s)"
    "sched_ok list_cron s" "s_Jobs s = [0]" "s_disabledNames s = {}" "''a'' \<in> tagged list_cron ''t'' s"
    "name_of s 0 = ''a''" "name_of s 2 = ''a''" "id_of s 2 = 0"
    by (rule added_state)
  have "''a'' \<in> ce_Name ` set (s_cron s)" using s(5) by (auto simp: tagged_def list_cron_def)
  then have "UpdateEntryJobByName list_cron ''a'' ''@hourly'' 2 (s_cron s) = (None, s_cron s)"
    by (simp add: list_cron_def)
  then obtain s' where u: "UpdateJob list_cron ''a'' ''@hourly'' 2 s = (None, s')"
    using s(3,4,6) by (simp add: UpdateJob_def getJob_def)
  from update_detaches_tags [OF list_cron_laws s(2,7,8,5) u] s(1) u show ?thesis
    unfolding Let_def by blast
qed

lemma count_result_flags:
  "hasFailure (count_result r f) \<longleftrightarrow> hasFailure f \<or> r = ResultFailure"
  "hasSuccess (count_result r f) \<longleftrightarrow> hasSuccess f \<or> r = ResultSuccess"
  "hasSkipped (count_result r f) \<longleftrightarrow> hasSkipped f \<or> r = ResultSkipped"
  by (cases r; simp)+

text \<open>(workflow_status): the status of a finished workflow depends only on which results occur, not on
  the order in which the map of results is traversed: failure wins, success needs at least one
  success and nothing skipped, and no result at all counts as success.\<close>

theorem workflow_status:
  "workflowStatus rs =
     (if ResultFailure \<in> set rs then ''failure''
      else if rs = [] \<or> (ResultSuccess \<in> set rs \<and> ResultSkipped \<notin> set rs) then ''success''
      else if ResultSkipped \<in> set rs \<and> ResultSuccess \<notin> set rs then ''skipped''
      else ''mixed'')"
proof -
  have "hasFailure (fold count_result rs f) \<longleftrightarrow> hasFailure f \<or> ResultFailure \<in> set rs"
    and "hasSuccess (fold count_result rs f) \<longleftrightarrow> hasSuccess f \<or> ResultSuccess \<in> set rs"
    and "hasSkipped (fold count_result rs f) \<longleftrightarrow> hasSkipped f \<or> ResultSkipped \<in> set rs" for f
    by (induction rs arbitrary: f) (auto simp: count_result_flags)
  then show ?thesis by (simp add: workflowStatus_def Let_def)
qed

end
