(* ===== verification/Retry.thy ===== *)
theory Retry
  imports Execution
begin

text \<open>
  The retry executor of the scheduler (\<^verbatim>\<open>src/core/retry.go\<close>). The function that is retried is an
  argument on a state \<open>'s\<close>; \<open>interrupted n\<close> says whether the \<^verbatim>\<open>select\<close> after attempt \<open>n\<close> takes
  the branch of the cancelled context, and with which \<^verbatim>\<open>ctx.Err()\<close>. The calls of the metrics
  recorder and the delays handed to \<^verbatim>\<open>time.After\<close> are collected in order. The conversion of a
  float64 that does not fit an int is implementation-defined in Go: it is the argument \<open>oob\<close>.
\<close>

record RetryConfig =
  rc_MaxRetries :: int
  rc_RetryDelayMs :: int
  rc_RetryExponential :: bool
  rc_RetryMaxDelayMs :: int

definition wrap64 :: "int \<Rightarrow> int" where
  "wrap64 n = (n + 2 ^ 63) mod 2 ^ 64 - 2 ^ 63"

definition float_to_int :: "(real \<Rightarrow> int) \<Rightarrow> real \<Rightarrow> int" where
  "float_to_int oob x = (if - (2 ^ 63) \<le> trunc x \<and> trunc x < 2 ^ 63 then trunc x else oob x)"

definition calculateDelay :: "(real \<Rightarrow> int) \<Rightarrow> RetryConfig \<Rightarrow> nat \<Rightarrow> duration" where
  "calculateDelay oob cfg attempt =
     (let delayMs =
        (if rc_RetryExponential cfg
         then min (float_to_int oob (of_int (rc_RetryDelayMs cfg) * 2 ^ attempt))
                  (rc_RetryMaxDelayMs cfg)
         else rc_RetryDelayMs cfg)
      in wrap64 (delayMs * millisecond))"

record 's retry_state =
  rs_state :: 's
  rs_metrics :: "(string \<times> int \<times> bool) list"
  rs_sleeps :: "duration list"

record retry_env =
  env_oob :: "real \<Rightarrow> int"
  env_metrics :: bool
  env_interrupted :: "nat \<Rightarrow> result"

definition RecordJobRetry ::
  "retry_env \<Rightarrow> string \<Rightarrow> int \<Rightarrow> bool \<Rightarrow> 's retry_state \<Rightarrow> 's retry_state" where
  "RecordJobRetry env name attempt ok st =
     (if env_metrics env then st\<lparr>rs_metrics := rs_metrics st @ [(name, attempt, ok)]\<rparr> else st)"

text \<open>After the loop: all retries are exhausted.\<close>

definition retries_exhausted ::
  "retry_env \<Rightarrow> string \<Rightarrow> int \<Rightarrow> result \<Rightarrow> 's retry_state \<Rightarrow> outcome \<times> 's retry_state" where
  "retries_exhausted env name maxr lastErr st =
     (Return (Some (Errorf [Lit ''job failed after '', Num (maxr + 1), Lit '' attempts: '',
        (case lastErr of None \<Rightarrow> Lit ''%!w(<nil>)'' | Some e \<Rightarrow> Wrap e)])),
      RecordJobRetry env name (maxr + 1) False st)"

function retry_loop ::
  "retry_env \<Rightarrow> string \<Rightarrow> RetryConfig \<Rightarrow> ('s \<Rightarrow> outcome \<times> 's) \<Rightarrow> nat \<Rightarrow> result \<Rightarrow>
   's retry_state \<Rightarrow> outcome \<times> 's retry_state" where
  "retry_loop env name cfg runFunc attempt lastErr st =
     (if int attempt \<le> rc_MaxRetries cfg then
        let (res, s') = runFunc (rs_state st); st1 = st\<lparr>rs_state := s'\<rparr>
        in (case res of
              Panicked \<Rightarrow> (Panicked, st1)
            | Return None \<Rightarrow>
                (Return None,
                 if 0 < attempt then RecordJobRetry env name (int attempt) True st1 else st1)
            | Return (Some e) \<Rightarrow>
                if rc_MaxRetries cfg \<le> int attempt
                then retries_exhausted env name (rc_MaxRetries cfg) (Some e) st1
                else
                  let delay = calculateDelay (env_oob env) cfg attempt;
                      st2 = RecordJobRetry env name (int attempt + 1) False st1;
                      st3 = st2\<lparr>rs_sleeps := rs_sleeps st2 @ [delay]\<rparr>
                  in (case env_interrupted env attempt of
                        Some ce \<Rightarrow>
                          (Return (Some (Errorf [Lit ''job '', Quoted name,
                             Lit '' retry interrupted: '', Wrap ce])), st3)
                      | None \<Rightarrow> retry_loop env name cfg runFunc (Suc attempt) (Some e) st3))
      else retries_exhausted env name (rc_MaxRetries cfg) lastErr st)"
  by pat_completeness auto
termination
  by (relation "measure (\<lambda>(env, name, cfg, runFunc, attempt, lastErr, st).
        nat (rc_MaxRetries cfg + 1) - attempt)") auto

declare retry_loop.simps [simp del]

text \<open>\<^verbatim>\<open>ExecuteWithRetry\<close>; the configuration is \<^term>\<open>None\<close> for a job that is not retryable.\<close>

definition ExecuteWithRetry ::
  "retry_env \<Rightarrow> string \<Rightarrow> RetryConfig option \<Rightarrow> ('s \<Rightarrow> outcome \<times> 's) \<Rightarrow> 's retry_state \<Rightarrow>
   outcome \<times> 's retry_state" where
  "ExecuteWithRetry env name config runFunc st =
     (let once = (let (res, s') = runFunc (rs_state st) in (res, st\<lparr>rs_state := s'\<rparr>))
      in case config of
           None \<Rightarrow> once
         | Some cfg \<Rightarrow>
             if rc_MaxRetries cfg \<le> 0 then once
             else retry_loop env name cfg runFunc 0 None st)"

section \<open>Delays\<close>

lemma wrap64_id: "- (2 ^ 63) \<le> n \<Longrightarrow> n < 2 ^ 63 \<Longrightarrow> wrap64 n = n"
  by (simp add: wrap64_def)

lemma backoff_exact:
  assumes "0 \<le> d" "d * 2 ^ n < 2 ^ 63"
  shows "float_to_int oob (of_int d * 2 ^ n) = d * 2 ^ n"
proof -
  have "(of_int d * 2 ^ n :: real) = of_int (d * 2 ^ n)" by simp
  then have "trunc (of_int d * 2 ^ n) = d * 2 ^ n" by (metis trunc_of_int)
  moreover have "- (2 ^ 63) \<le> d * 2 ^ n"
    by (rule order_trans [of _ 0]) (use assms in simp_all)
  ultimately show ?thesis using assms by (simp only: float_to_int_def simp_thms if_True)
qed

lemma delay_value:
  assumes "0 \<le> rc_RetryDelayMs cfg" "0 \<le> rc_RetryMaxDelayMs cfg"
    "rc_RetryMaxDelayMs cfg \<le> 9223372036854" "rc_RetryExponential cfg"
    "rc_RetryDelayMs cfg * 2 ^ attempt < 2 ^ 63"
  shows "calculateDelay oob cfg attempt =
    min (rc_RetryDelayMs cfg * 2 ^ attempt) (rc_RetryMaxDelayMs cfg) * millisecond"
proof -
  let ?m = "min (rc_RetryDelayMs cfg * 2 ^ attempt) (rc_RetryMaxDelayMs cfg)"
  have "0 \<le> ?m" and "?m \<le> 9223372036854" using assms by simp_all
  moreover have "wrap64 (m * millisecond) = m * millisecond" if "0 \<le> m" "m \<le> 9223372036854" for m
    using that by (intro wrap64_id) simp_all
  ultimately have "wrap64 (?m * millisecond) = ?m * millisecond" by blast
  then show ?thesis using assms backoff_exact [of "rc_RetryDelayMs cfg" attempt oob]
    by (simp add: calculateDelay_def)
qed

section \<open>The loop\<close>

text \<open>The state after \<open>k\<close> calls and the outcome of the call that follows.\<close>

fun after_calls :: "('s \<Rightarrow> outcome \<times> 's) \<Rightarrow> nat \<Rightarrow> 's \<Rightarrow> 's" where
  "after_calls f 0 s = s"
| "after_calls f (Suc k) s = snd (f (after_calls f k s))"

definition call_result :: "('s \<Rightarrow> outcome \<times> 's) \<Rightarrow> nat \<Rightarrow> 's \<Rightarrow> outcome" where
  "call_result f k s = fst (f (after_calls f k s))"

lemma retry_loop_success:
  assumes "int attempt \<le> rc_MaxRetries cfg" "runFunc (rs_state st) = (Return None, s')"
  shows "retry_loop env name cfg runFunc attempt lastErr st =
     (Return None, if 0 < attempt then RecordJobRetry env name (int attempt) True (st\<lparr>rs_state := s'\<rparr>)
                   else st\<lparr>rs_state := s'\<rparr>)"
  using assms by (subst retry_loop.simps) simp

lemma retry_loop_panic:
  assumes "int attempt \<le> rc_MaxRetries cfg" "runFunc (rs_state st) = (Panicked, s')"
  shows "retry_loop env name cfg runFunc attempt lastErr st = (Panicked, st\<lparr>rs_state := s'\<rparr>)"
  using assms by (subst retry_loop.simps) simp

lemma retry_loop_last:
  assumes "rc_MaxRetries cfg = int attempt" "runFunc (rs_state st) = (Return (Some e), s')"
  shows "retry_loop env name cfg runFunc attempt lastErr st =
     retries_exhausted env name (int attempt) (Some e) (st\<lparr>rs_state := s'\<rparr>)"
  using assms by (subst retry_loop.simps) simp

lemma retry_loop_again:
  assumes "int attempt < rc_MaxRetries cfg" "runFunc (rs_state st) = (Return (Some e), s')"
    "env_interrupted env attempt = None"
  shows "retry_loop env name cfg runFunc attempt lastErr st =
     retry_loop env name cfg runFunc (Suc attempt) (Some e)
       ((RecordJobRetry env name (int attempt + 1) False (st\<lparr>rs_state := s'\<rparr>))
          \<lparr>rs_sleeps := rs_sleeps st @ [calculateDelay (env_oob env) cfg attempt]\<rparr>)"
proof -
  have "rs_sleeps (RecordJobRetry env name (int attempt + 1) False (st\<lparr>rs_state := s'\<rparr>)) = rs_sleeps st"
    by (simp add: RecordJobRetry_def)
  with assms show ?thesis by (subst retry_loop.simps) (simp add: Let_def)
qed

text \<open>After \<open>k\<close> failures the loop stands at attempt \<open>k\<close>, with the \<open>k\<close> back-off delays behind it.\<close>

lemma retry_loop_reaches:
  assumes "int k \<le> rc_MaxRetries cfg"
    and "\<And>i. i < k \<Longrightarrow> \<exists>e. call_result f i (rs_state st) = Return (Some e)"
    and "\<And>i. i < k \<Longrightarrow> env_interrupted env i = None"
  shows "\<exists>lastErr ms. retry_loop env name cfg f 0 None st =
     retry_loop env name cfg f k lastErr
       \<lparr>rs_state = after_calls f k (rs_state st), rs_metrics = rs_metrics st @ ms,
        rs_sleeps = rs_sleeps st @ map (calculateDelay (env_oob env) cfg) [0..<k]\<rparr>"
  using assms
proof (induction k)
  case 0
  have "st = \<lparr>rs_state = rs_state st, rs_metrics = rs_metrics st @ [], rs_sleeps = rs_sleeps st\<rparr>" by simp
  then show ?case by (metis after_calls.simps(1) append_Nil2 list.simps(8) upt_0)
next
  case (Suc k)
  then obtain lastErr ms where ih: "retry_loop env name cfg f 0 None st =
     retry_loop env name cfg f k lastErr
       \<lparr>rs_state = after_calls f k (rs_state st), rs_metrics = rs_metrics st @ ms,
        rs_sleeps = rs_sleeps st @ map (calculateDelay (env_oob env) cfg) [0..<k]\<rparr>"
    by fastforce
  let ?st = "\<lparr>rs_state = after_calls f k (rs_state st), rs_metrics = rs_metrics st @ ms,
        rs_sleeps = rs_sleeps st @ map (calculateDelay (env_oob env) cfg) [0..<k]\<rparr>"
  from Suc.prems(2) [of k] obtain e s' where
    f: "f (rs_state ?st) = (Return (Some e), s')" and s': "after_calls f (Suc k) (rs_state st) = s'"
    by (auto simp: call_result_def) (metis prod.collapse snd_conv)
  have "int k < rc_MaxRetries cfg" "env_interrupted env k = None" using Suc.prems(1,3) by auto
  from retry_loop_again [of k cfg f ?st e s' env name lastErr, OF this(1) f this(2)] ih s' show ?case
    by (auto simp: RecordJobRetry_def simp del: after_calls.simps)
qed

lemma call_resultE:
  assumes "call_result f k s = res"
  obtains s' where "f (after_calls f k s) = (res, s')" "after_calls f (Suc k) s = s'"
  using assms by (cases "f (after_calls f k s)") (auto simp: call_result_def)

lemma ExecuteWithRetry_loop:
  "0 < rc_MaxRetries cfg \<Longrightarrow>
   ExecuteWithRetry env name (Some cfg) f st = retry_loop env name cfg f 0 None st"
  by (simp add: ExecuteWithRetry_def)

text \<open>A function that never reports an error is called once and nothing is recorded.\<close>

lemma ExecuteWithRetry_no_error:
  assumes "fst (f (rs_state st)) = Return None \<or> fst (f (rs_state st)) = Panicked"
  shows "ExecuteWithRetry env name config f st =
     (fst (f (rs_state st)), st\<lparr>rs_state := snd (f (rs_state st))\<rparr>)"
proof (cases "\<exists>cfg. config = Some cfg \<and> 0 < rc_MaxRetries cfg")
  case True
  then obtain cfg where "config = Some cfg" "0 < rc_MaxRetries cfg" by blast
  with assms show ?thesis
    by (cases "f (rs_state st)")
       (auto simp: ExecuteWithRetry_loop retry_loop_success retry_loop_panic)
next
  case False
  then show ?thesis
    by (auto simp: ExecuteWithRetry_def Let_def split: option.splits prod.splits)
qed

text \<open>The number of calls is bounded, whatever the outcomes.\<close>

lemma retry_loop_calls:
  assumes cnt: "\<And>s. cnt (snd (f s)) = Suc (cnt s)"
  shows "cnt (rs_state (snd (retry_loop env name cfg f attempt lastErr st)))
     \<le> cnt (rs_state st) + (nat (rc_MaxRetries cfg + 1) - attempt)"
proof (induction "nat (rc_MaxRetries cfg + 1) - attempt" arbitrary: attempt lastErr st rule: less_induct)
  case less
  obtain res s' where f: "f (rs_state st) = (res, s')" by fastforce
  have s': "cnt s' = Suc (cnt (rs_state st))" using cnt [of "rs_state st"] f by simp
  consider (exit) "rc_MaxRetries cfg < int attempt"
    | (last) "int attempt \<le> rc_MaxRetries cfg" "\<And>e. res = Return (Some e) \<Longrightarrow>
        rc_MaxRetries cfg \<le> int attempt \<or> env_interrupted env attempt \<noteq> None"
    | (again) e where "int attempt < rc_MaxRetries cfg" "res = Return (Some e)"
        "env_interrupted env attempt = None"
    by fastforce
  then show ?case
  proof cases
    case exit
    then show ?thesis
      by (subst retry_loop.simps) (simp add: retries_exhausted_def RecordJobRetry_def)
  next
    case last
    then have "0 < nat (rc_MaxRetries cfg + 1) - attempt" by linarith
    moreover have "rs_state (snd (retry_loop env name cfg f attempt lastErr st)) = s'"
      using last f
      by (subst retry_loop.simps)
         (auto simp: retries_exhausted_def RecordJobRetry_def Let_def split: outcome.splits option.splits)
    ultimately show ?thesis using s' by simp
  next
    case again
    then have "nat (rc_MaxRetries cfg + 1) - Suc attempt < nat (rc_MaxRetries cfg + 1) - attempt"
      by linarith
    let ?st3 = "(RecordJobRetry env name (int attempt + 1) False (st\<lparr>rs_state := s'\<rparr>))
          \<lparr>rs_sleeps := rs_sleeps st @ [calculateDelay (env_oob env) cfg attempt]\<rparr>"
    have "rs_state ?st3 = s'" by (simp add: RecordJobRetry_def)
    moreover have "cnt (rs_state (snd (retry_loop env name cfg f (Suc attempt) (Some e) ?st3)))
        \<le> cnt (rs_state ?st3) + (nat (rc_MaxRetries cfg + 1) - Suc attempt)"
      by (rule less) fact
    moreover have "retry_loop env name cfg f attempt lastErr st =
        retry_loop env name cfg f (Suc attempt) (Some e) ?st3"
      using again f by (intro retry_loop_again) simp_all
    moreover have "Suc (cnt (rs_state st)) + (nat (rc_MaxRetries cfg + 1) - Suc attempt) =
        cnt (rs_state st) + (nat (rc_MaxRetries cfg + 1) - attempt)"
      using again(1) by linarith
    ultimately show ?thesis using s' by simp
  qed
qed

section \<open>Properties\<close>

text \<open>(retry_delay_backoff): for a non-negative configuration whose powers fit an int64, the
  exponential back-off doubles from attempt to attempt, never decreases and never exceeds the
  configured maximum.\<close>

theorem retry_delay_backoff:
  assumes "0 \<le> rc_RetryDelayMs cfg" "0 \<le> rc_RetryMaxDelayMs cfg"
    "rc_RetryMaxDelayMs cfg \<le> 9223372036854" "rc_RetryExponential cfg"
    "rc_RetryDelayMs cfg * 2 ^ Suc attempt < 2 ^ 63"
  shows "calculateDelay oob cfg attempt =
           min (rc_RetryDelayMs cfg * 2 ^ attempt) (rc_RetryMaxDelayMs cfg) * millisecond \<and>
         0 \<le> calculateDelay oob cfg attempt \<and>
         calculateDelay oob cfg attempt \<le> calculateDelay oob cfg (Suc attempt) \<and>
         calculateDelay oob cfg (Suc attempt) \<le> rc_RetryMaxDelayMs cfg * millisecond"
proof -
  have mono: "rc_RetryDelayMs cfg * 2 ^ attempt \<le> rc_RetryDelayMs cfg * 2 ^ Suc attempt"
    using assms(1) by simp
  with assms(5) have "rc_RetryDelayMs cfg * 2 ^ attempt < 2 ^ 63" by linarith
  note v = delay_value [OF assms(1-4) this, of oob] delay_value [OF assms, of oob]
  have "0 \<le> calculateDelay oob cfg attempt"
    unfolding v using assms(1,2) by simp
  moreover have "calculateDelay oob cfg attempt \<le> calculateDelay oob cfg (Suc attempt)"
    unfolding v using mono by (intro mult_right_mono) auto
  moreover have "calculateDelay oob cfg (Suc attempt) \<le> rc_RetryMaxDelayMs cfg * millisecond"
    unfolding v(2) by (intro mult_right_mono) auto
  ultimately show ?thesis using v(1) by simp
qed

definition default_retry :: RetryConfig where
  "default_retry = \<lparr>rc_MaxRetries = 3, rc_RetryDelayMs = 1000, rc_RetryExponential = True,
     rc_RetryMaxDelayMs = 60000\<rparr>"

theorem retry_delay_backoff_witness:
  "calculateDelay (\<lambda>_. 0) default_retry 2 \<le> calculateDelay (\<lambda>_. 0) default_retry 3 \<and>
   calculateDelay (\<lambda>_. 0) default_retry 2 = 4000 * millisecond"
  using retry_delay_backoff [of default_retry 2 "\<lambda>_. 0"] by (simp add: default_retry_def)

text \<open>(retry_until_success): a retryable function whose first \<open>k\<close> calls fail and whose next call
  succeeds is called \<open>k + 1\<close> times, with the \<open>k\<close> back-off delays between the calls, and the
  result is nil, provided that \<open>k\<close> is within the configured retries and nothing interrupts it.\<close>

theorem retry_until_success:
  assumes "0 < rc_MaxRetries cfg" "int k \<le> rc_MaxRetries cfg"
    and "\<And>i. i < k \<Longrightarrow> \<exists>e. call_result f i (rs_state st) = Return (Some e)"
    and "call_result f k (rs_state st) = Return None"
    and "\<And>i. i < k \<Longrightarrow> env_interrupted env i = None"
  shows "fst (ExecuteWithRetry env name (Some cfg) f st) = Return None \<and>
     rs_state (snd (ExecuteWithRetry env name (Some cfg) f st)) = after_calls f (Suc k) (rs_state st) \<and>
     rs_sleeps (snd (ExecuteWithRetry env name (Some cfg) f st)) =
       rs_sleeps st @ map (calculateDelay (env_oob env) cfg) [0..<k]"
proof -
  from retry_loop_reaches [OF assms(2) assms(3) assms(5), where name = name]
  obtain lastErr ms where "retry_loop env name cfg f 0 None st =
     retry_loop env name cfg f k lastErr
       \<lparr>rs_state = after_calls f k (rs_state st), rs_metrics = rs_metrics st @ ms,
        rs_sleeps = rs_sleeps st @ map (calculateDelay (env_oob env) cfg) [0..<k]\<rparr>" by blast
  moreover obtain s' where "f (after_calls f k (rs_state st)) = (Return None, s')"
    "after_calls f (Suc k) (rs_state st) = s'" using assms(4) by (rule call_resultE)
  ultimately show ?thesis
    using assms(1,2)
    by (simp add: ExecuteWithRetry_loop retry_loop_success RecordJobRetry_def del: after_calls.simps)
qed

text \<open>The function of the witness counts its calls and fails on the first two.\<close>

definition flaky :: "nat \<Rightarrow> outcome \<times> nat" where
  "flaky n = (Return (if n < 2 then Some (Opaque 0 ''boom'') else None), Suc n)"

definition calm_env :: retry_env where
  "calm_env = \<lparr>env_oob = (\<lambda>_. 0), env_metrics = True, env_interrupted = (\<lambda>_. None)\<rparr>"

theorem retry_until_success_witness:
  "rs_state (snd (ExecuteWithRetry calm_env ''j'' (Some default_retry) flaky
      \<lparr>rs_state = 0, rs_metrics = [], rs_sleeps = []\<rparr>)) = 3"
proof -
  let ?st = "\<lparr>rs_state = 0, rs_metrics = [], rs_sleeps = []\<rparr> :: nat retry_state"
  have n: "after_calls flaky k 0 = k" for k by (induction k) (simp_all add: flaky_def)
  have "\<exists>e. call_result flaky i (rs_state ?st) = Return (Some e)" if "i < 2" for i
    using that by (simp add: call_result_def n) (simp add: flaky_def)
  moreover have "call_result flaky 2 (rs_state ?st) = Return None"
    by (simp add: call_result_def n) (simp add: flaky_def)
  ultimately show ?thesis
    using retry_until_success [of default_retry 2 flaky ?st calm_env "''j''"]
    by (simp add: default_retry_def calm_env_def n)
qed

text \<open>(retry_exhausted): a function that fails on each of the \<^verbatim>\<open>MaxRetries + 1\<close> attempts is called
  exactly that often, and the result is an error that wraps the error of the last attempt.\<close>

theorem retry_exhausted:
  assumes "rc_MaxRetries cfg = int n" "0 < n"
    and "\<And>i. i < n \<Longrightarrow> \<exists>e. call_result f i (rs_state st) = Return (Some e)"
    and "call_result f n (rs_state st) = Return (Some e)"
    and "\<And>i. i < n \<Longrightarrow> env_interrupted env i = None"
  shows "fst (ExecuteWithRetry env name (Some cfg) f st) =
       Return (Some (Errorf [Lit ''job failed after '', Num (int n + 1), Lit '' attempts: '', Wrap e])) \<and>
     rs_state (snd (ExecuteWithRetry env name (Some cfg) f st)) = after_calls f (Suc n) (rs_state st) \<and>
     length (rs_sleeps (snd (ExecuteWithRetry env name (Some cfg) f st))) = length (rs_sleeps st) + n"
proof -
  have le: "int n \<le> rc_MaxRetries cfg" using assms(1) by simp
  from retry_loop_reaches [OF le assms(3) assms(5), where name = name]
  obtain lastErr ms where "retry_loop env name cfg f 0 None st =
     retry_loop env name cfg f n lastErr
       \<lparr>rs_state = after_calls f n (rs_state st), rs_metrics = rs_metrics st @ ms,
        rs_sleeps = rs_sleeps st @ map (calculateDelay (env_oob env) cfg) [0..<n]\<rparr>" by blast
  moreover obtain s' where "f (after_calls f n (rs_state st)) = (Return (Some e), s')"
    "after_calls f (Suc n) (rs_state st) = s'" using assms(4) by (rule call_resultE)
  ultimately show ?thesis
    using assms(1,2)
    by (simp add: ExecuteWithRetry_loop retry_loop_last retries_exhausted_def RecordJobRetry_def
        del: after_calls.simps)
qed

theorem retry_exhausted_witness:
  "rs_state (snd (ExecuteWithRetry calm_env ''j'' (Some (default_retry\<lparr>rc_MaxRetries := 1\<rparr>)) flaky
      \<lparr>rs_state = 0, rs_metrics = [], rs_sleeps = []\<rparr>)) = 2"
proof -
  let ?st = "\<lparr>rs_state = 0, rs_metrics = [], rs_sleeps = []\<rparr> :: nat retry_state"
  have n: "after_calls flaky k 0 = k" for k by (induction k) (simp_all add: flaky_def)
  have c: "call_result flaky i (rs_state ?st) = Return (Some (Opaque 0 ''boom''))" if "i < 2" for i
    using that by (simp add: call_result_def n) (simp add: flaky_def)
  show ?thesis
    using retry_exhausted [of "default_retry\<lparr>rc_MaxRetries := 1\<rparr>" 1 flaky ?st "Opaque 0 ''boom''"
        calm_env "''j''"] c n [of "Suc (Suc 0)"]
    by (simp add: default_retry_def calm_env_def numeral_2_eq_2)
qed

end
