(* ===== verification/JobRun.thy ===== *)
theory JobRun
  imports Retry
begin

text \<open>
  One firing of a job by the scheduler: \<^verbatim>\<open>jobWrapper.runWithCtx\<close> of \<^verbatim>\<open>src/core/scheduler.go\<close>
  with the deadline of \<^verbatim>\<open>boundJobContext\<close>, the middleware chain, the retry executor, the
  history and the completion callback. What go-cron and the buffer pool answer (whether the
  scheduler is running, the new execution) are arguments.

  The chain reports every error through the execution and returns nil, so the retry executor
  never sees a failure: this theory shows that a job runs at most once per firing whatever its
  retry configuration. A panic of the job leaves its counter of running invocations too high,
  which the overlap middleware then takes for a run that never ends.
\<close>

record 'w sjob =
  j_Name :: string
  j_retry :: "RetryConfig option"
  j_MaxRuntime :: "duration option"
  j_body :: "'w body"
  j_mws :: "'w container"
  j_running :: i32
  j_log :: job_log

definition defaultJobMaxRuntime :: duration where
  "defaultJobMaxRuntime = 24 * hour"

text \<open>The timeout that \<^verbatim>\<open>boundJobContext\<close> gives the context; \<open>mp\<close> is the value of
  \<^verbatim>\<open>GetMaxRuntime\<close>, \<^term>\<open>None\<close> for a job that is no \<^verbatim>\<open>MaxRuntimeProvider\<close>.\<close>

definition boundJobContext :: "duration option \<Rightarrow> duration \<Rightarrow> duration" where
  "boundJobContext mp defaultMax =
     (let d = (case mp of Some jm \<Rightarrow> if 0 < jm then jm else defaultMax | None \<Rightarrow> defaultMax)
      in if d \<le> 0 then defaultJobMaxRuntime else d)"

record 'w firing =
  f_job :: "'w sjob"
  f_world :: 'w
  f_now :: time
  f_callbacks :: "(string \<times> bool) list"
  f_metrics :: "(string \<times> int \<times> bool) list"
  f_sleeps :: "duration list"

text \<open>
  \<^verbatim>\<open>jobWrapper.stop\<close>: the context is stopped and the execution enters the history. The history
  holds a pointer to the execution, so it shows the effect of the deferred \<^verbatim>\<open>Cleanup\<close>.
\<close>

definition wrapper_stop :: "result \<Rightarrow> 'w ctx \<Rightarrow> 'w sjob \<Rightarrow> 'w ctx \<times> 'w sjob" where
  "wrapper_stop err c j =
     (let c1 = c_Stop err c
      in (c1, j\<lparr>j_running := r_running (c_run c1),
               j_log := SetLastRun (fst (exec_Cleanup (r_exec (c_run c1)))) (j_log j)\<rparr>))"

text \<open>The state of the retry executor at the start of a firing.\<close>

definition start_state :: "'w sjob \<Rightarrow> execution \<Rightarrow> 'w \<Rightarrow> time \<Rightarrow> 'w ctx retry_state" where
  "start_state j e w now =
     \<lparr>rs_state = NewContext (j_mws j)
        (ctx_Start \<lparr>r_exec = e, r_running = j_running j, r_now = now, r_world = w\<rparr>),
      rs_metrics = [], rs_sleeps = []\<rparr>"

definition runWithCtx ::
  "retry_env \<Rightarrow> bool \<Rightarrow> (go_error + execution) \<Rightarrow> bool \<Rightarrow> 'w sjob \<Rightarrow> 'w \<Rightarrow> time \<Rightarrow> 'w firing" where
  "runWithCtx env cron_running new_exec has_callback j w now =
     (let idle = \<lparr>f_job = j, f_world = w, f_now = now, f_callbacks = [], f_metrics = [], f_sleeps = []\<rparr>
      in if \<not> cron_running then idle
         else case new_exec of
           Inl _ \<Rightarrow> idle
         | Inr e \<Rightarrow>
             let (res, st) = ExecuteWithRetry env (j_Name j) (j_retry j) (Next (j_body j))
                               (start_state j e w now);
                 c = rs_state st
             in case res of
                  Panicked \<Rightarrow>
                    \<lparr>f_job = j\<lparr>j_running := r_running (c_run c)\<rparr>, f_world = r_world (c_run c),
                     f_now = r_now (c_run c), f_callbacks = [],
                     f_metrics = rs_metrics st, f_sleeps = rs_sleeps st\<rparr>
                | Return err \<Rightarrow>
                    let (c1, j1) = wrapper_stop err c j
                    in \<lparr>f_job = j1, f_world = r_world (c_run c1), f_now = r_now (c_run c1),
                        f_callbacks =
                          (if has_callback
                           then [(j_Name j, err = None \<and> \<not> e_Failed (r_exec (c_run c1)))] else []),
                        f_metrics = rs_metrics st, f_sleeps = rs_sleeps st\<rparr>)"

section \<open>The firing of a job\<close>

abbreviation start_ctx :: "'w sjob \<Rightarrow> execution \<Rightarrow> 'w \<Rightarrow> time \<Rightarrow> 'w ctx" where
  "start_ctx j e w now \<equiv> rs_state (start_state j e w now)"

lemma start_state_simps [simp]:
  "rs_metrics (start_state j e w now) = []" "rs_sleeps (start_state j e w now) = []"
  by (simp_all add: start_state_def)

lemma start_ctx_simps [simp]:
  "c_middlewares (start_ctx j e w now) = Middlewares (j_mws j)"
  "c_IsRunning (start_ctx j e w now)"
  "r_world (c_run (start_ctx j e w now)) = w"
  "others (c_run (start_ctx j e w now)) = j_running j"
  "r_exec (c_run (start_ctx j e w now)) = exec_Start now e"
  by (simp_all add: start_state_def NewContext_def c_IsRunning_def ctx_Start_def exec_Start_def
      others_def NotifyStart_def)

text \<open>What the retry executor does with the chain: it calls it once.\<close>

lemma chain_called_once:
  "ExecuteWithRetry env name cfg (Next body) (start_state j e w now) =
     (fst (Next body (start_ctx j e w now)),
      (start_state j e w now)\<lparr>rs_state := snd (Next body (start_ctx j e w now))\<rparr>)"
  by (rule ExecuteWithRetry_no_error) (rule Next_never_errs)

lemma runWithCtx_return:
  assumes "Next (j_body j) (start_ctx j e w now) = (Return None, c)"
  shows "runWithCtx env True (Inr e) cb j w now =
     \<lparr>f_job = j\<lparr>j_running := r_running (c_run c),
               j_log := SetLastRun (fst (exec_Cleanup (r_exec (c_run c)))) (j_log j)\<rparr>,
      f_world = r_world (c_run c), f_now = r_now (c_run c),
      f_callbacks = (if cb then [(j_Name j, \<not> e_Failed (r_exec (c_run c)))] else []),
      f_metrics = [], f_sleeps = []\<rparr>"
proof -
  have "settled (Next (j_body j) (start_ctx j e w now))" by (rule chain_settles(1))
  then have "\<not> e_IsRunning (r_exec (c_run c))" using assms by (simp add: settled_def c_IsRunning_def)
  then have "c_Stop None c = c" by (simp add: c_Stop_def ctx_Stop_idle)
  then show ?thesis
    using assms by (simp add: runWithCtx_def chain_called_once wrapper_stop_def Let_def)
qed

lemma runWithCtx_panic:
  assumes "Next (j_body j) (start_ctx j e w now) = (Panicked, c)"
  shows "runWithCtx env True (Inr e) cb j w now =
     \<lparr>f_job = j\<lparr>j_running := r_running (c_run c)\<rparr>, f_world = r_world (c_run c),
      f_now = r_now (c_run c), f_callbacks = [], f_metrics = [], f_sleeps = []\<rparr>"
  using assms by (simp add: runWithCtx_def chain_called_once Let_def)

lemma runWithCtx_idle:
  "runWithCtx env False ne cb j w now =
     \<lparr>f_job = j, f_world = w, f_now = now, f_callbacks = [], f_metrics = [], f_sleeps = []\<rparr>"
  "runWithCtx env r (Inl err) cb j w now =
     \<lparr>f_job = j, f_world = w, f_now = now, f_callbacks = [], f_metrics = [], f_sleeps = []\<rparr>"
  by (simp_all add: runWithCtx_def Let_def)

lemma firing_cases:
  obtains (idle) "runWithCtx env r ne cb j w now =
       \<lparr>f_job = j, f_world = w, f_now = now, f_callbacks = [], f_metrics = [], f_sleeps = []\<rparr>"
  | (run) e where "r" "ne = Inr e"
  by (cases r; cases ne) (auto simp: runWithCtx_idle)

section \<open>Properties\<close>

text \<open>C40 (retries_never_happen): a firing never retries. Whatever the retry configuration of the job,
  whatever its outcome, no retry is recorded, no back-off delay is waited for and the body of
  the job is called at most once, because \<^verbatim>\<open>Context.Next\<close> always returns nil.\<close>

theorem retries_never_happen:
  assumes "counts_body cnt (j_body j) (Middlewares (j_mws j))"
  shows "let f = runWithCtx env r ne cb (j\<lparr>j_retry := Some cfg\<rparr>) w now in
     f_metrics f = [] \<and> f_sleeps f = [] \<and> cnt (f_world f) \<le> Suc (cnt w)"
proof (cases rule: firing_cases [of env r ne cb "j\<lparr>j_retry := Some cfg\<rparr>" w now])
  case idle
  then show ?thesis by (simp add: Let_def)
next
  case (run e)
  let ?j = "j\<lparr>j_retry := Some cfg\<rparr>"
  let ?n = "Next (j_body ?j) (start_ctx ?j e w now)"
  have "cnt (r_world (c_run (snd ?n))) \<le> Suc (cnt w)"
    using chain_runs_body_once(1) [of cnt "j_body ?j" "Middlewares (j_mws ?j)" "start_ctx ?j e w now"]
      assms by (simp add: Let_def)
  moreover have "fst ?n = Return None \<or> fst ?n = Panicked" by (rule Next_never_errs)
  ultimately show ?thesis
    using run by (cases ?n) (auto simp: Let_def runWithCtx_return runWithCtx_panic)
qed

text \<open>The job of the witness counts its calls and always fails.\<close>

definition failing_job :: "nat sjob" where
  "failing_job = \<lparr>j_Name = ''backup'', j_retry = None, j_MaxRuntime = None,
     j_body = (\<lambda>r. (Return (Some (Opaque 0 ''connection refused'')), Suc (r_world r), r_now r + 5)),
     j_mws = empty_container, j_running = 0, j_log = new_log 10\<rparr>"

theorem retries_never_happen_witness:
  "f_sleeps (runWithCtx calm_env True (Inr (new_execution ''1'' [] [])) True
      (failing_job\<lparr>j_retry := Some default_retry\<rparr>) 0 100) = []"
proof -
  have "counts_body id (j_body failing_job) (Middlewares (j_mws failing_job))"
    by (simp add: counts_body_def failing_job_def empty_container_def Middlewares_def List.map_filter_def)
  from retries_never_happen [OF this] show ?thesis by (simp add: Let_def)
qed

text \<open>(running_counter_balanced): a firing whose job does not panic leaves the number of running
  invocations of the job where it was, whatever the middlewares do.\<close>

theorem running_counter_balanced:
  assumes "\<And>rs. fst (j_body j rs) \<noteq> Panicked"
  shows "j_running (f_job (runWithCtx env r ne cb j w now)) = j_running j"
proof (cases rule: firing_cases [of env r ne cb j w now])
  case idle
  then show ?thesis by simp
next
  case (run e)
  have np: "fst (Next (j_body j) c) \<noteq> Panicked" "fst (doNext (j_body j) c) \<noteq> Panicked" for c
  proof (induction c rule: chain_induct)
    case (step c)
    then show ?case by (subst Next.simps) (auto split: prod.splits outcome.splits)
  next
    case (job c)
    then show ?case using assms [of "c_run c"]
      by (auto simp: doNext_job run_job_def Let_def split: prod.splits outcome.splits option.splits)
  qed (auto simp: doNext_skip doNext_mw doNext_idle split: prod.splits outcome.splits)
  obtain c where c: "Next (j_body j) (start_ctx j e w now) = (Return None, c)"
    using Next_never_errs [of "j_body j" "start_ctx j e w now"] np(1) [of "start_ctx j e w now"]
    by (cases "Next (j_body j) (start_ctx j e w now)") auto
  have "others (c_run c) = j_running j"
    using others_chain(1) [of "j_body j" "start_ctx j e w now"] c by simp
  moreover have "\<not> c_IsRunning c"
    using chain_settles(1) [of "j_body j" "start_ctx j e w now"] c by (simp add: settled_def)
  ultimately show ?thesis using run c by (simp add: runWithCtx_return others_def c_IsRunning_def)
qed

theorem running_counter_balanced_witness:
  "j_running (f_job (runWithCtx calm_env True (Inr (new_execution ''1'' [] [])) True failing_job 0 100)) = 0"
  using running_counter_balanced [of failing_job] by (simp add: failing_job_def)

text \<open>C33 (firing_reports_job_result): with middlewares that do not stop the execution, one firing calls the body exactly once, by every measure that the
  body increases and the middlewares leave alone. When the body returns, the firing appends one execution to the history of the job, within its limit: the one it
  was given, no longer running, failed exactly for an error other than a skip and skipped exactly for a skip; and the
  completion callback reports success exactly when this execution did not fail. When the body panics, nothing enters the history
  and no callback is made.\<close>

theorem firing_reports_job_result:
  assumes "never_stops (Middlewares (j_mws j))" "\<not> e_Failed e" "\<not> e_Skipped e"
    and "counts_body cnt (j_body j) (Middlewares (j_mws j))"
  shows "let f = runWithCtx env True (Inr e) True j w now in
     cnt (f_world f) = Suc (cnt w) \<and>
     (case fst (j_body j (c_run (start_ctx j e w now))) of
        Panicked \<Rightarrow> j_log (f_job f) = j_log j \<and> f_callbacks f = []
      | Return err \<Rightarrow>
          \<exists>x. GetHistory (j_log (f_job f)) = recent (jl_HistoryLimit (j_log j)) (GetHistory (j_log j) @ [x]) \<and>
            e_ID x = e_ID e \<and> \<not> e_IsRunning x \<and>
            (e_Failed x \<longleftrightarrow> err \<noteq> None \<and> \<not> err_is err ErrSkippedExecution) \<and>
            (e_Skipped x \<longleftrightarrow> err_is err ErrSkippedExecution) \<and>
            f_callbacks f = [(j_Name j, \<not> e_Failed x)])"
proof -
  let ?s = "start_ctx j e w now"
  obtain r w' t where body: "j_body j (c_run ?s) = (r, w', t)" by (metis prod_cases3)
  have m: "c_middlewares ?s = Middlewares (j_mws j)" "c_IsRunning ?s" by simp_all
  have n: "cnt (r_world (c_run (snd (Next (j_body j) ?s)))) = Suc (cnt w)"
    using passive_chain_counts(1) [OF assms(1,4) m] by simp
  show ?thesis
  proof (cases r)
    case Panicked
    obtain c where c: "Next (j_body j) ?s = (Panicked, c)"
      using passive_chain_panic(1) [OF assms(1) m, of "j_body j" w' t] body Panicked by (cases "Next (j_body j) ?s") auto
    with n body Panicked show ?thesis by (simp add: Let_def runWithCtx_panic)
  next
    case (Return err)
    obtain c where c: "Next (j_body j) ?s = (Return None, c)"
      and ex: "r_exec (c_run c) = exec_Stop t t (job_error err) (exec_Start now e)"
      using passive_chain(1) [OF assms(1) m, of "j_body j" err w' t] body Return by (cases "Next (j_body j) ?s") auto
    let ?x = "fst (exec_Cleanup (r_exec (c_run c)))"
    have cl: "e_IsRunning (fst (exec_Cleanup x)) = e_IsRunning x" "e_Failed (fst (exec_Cleanup x)) = e_Failed x"
      "e_Skipped (fst (exec_Cleanup x)) = e_Skipped x" "e_ID (fst (exec_Cleanup x)) = e_ID x" for x
      by (simp_all add: exec_Cleanup_def split: option.splits)
    have st: "e_Failed (exec_Stop t t (job_error err) (exec_Start now e)) \<longleftrightarrow>
         err \<noteq> None \<and> \<not> err_is err ErrSkippedExecution"
      "e_Skipped (exec_Stop t t (job_error err) (exec_Start now e)) \<longleftrightarrow> err_is err ErrSkippedExecution"
      "e_ID (exec_Stop t t (job_error err) (exec_Start now e)) = e_ID e"
      using exec_Stop_status [of "exec_Start now e" t t "job_error err"] assms(2,3)
      by (simp_all add: exec_Start_def)
    have ni: "\<not> e_IsRunning (exec_Stop t t (job_error err) (exec_Start now e))" by (simp add: exec_Stop_def Let_def)
    show ?thesis
      using c n body Return ni
      by (simp add: Let_def runWithCtx_return GetHistory_def SetLastRun_history)
        (intro exI [of _ ?x], simp add: ex cl st, simp add: exec_Start_def)
  qed
qed

theorem firing_reports_job_result_witness:
  "f_callbacks (runWithCtx calm_env True (Inr (new_execution ''1'' [] [])) True failing_job 0 100) =
     [(''backup'', False)] \<and>
   f_world (runWithCtx calm_env True (Inr (new_execution ''1'' [] [])) True failing_job 0 100) = 1"
proof -
  have "never_stops (Middlewares (j_mws failing_job))"
    by (simp add: never_stops_def failing_job_def empty_container_def Middlewares_def List.map_filter_def)
  moreover have "counts_body id (j_body failing_job) (Middlewares (j_mws failing_job))"
    by (simp add: counts_body_def failing_job_def empty_container_def Middlewares_def List.map_filter_def)
  ultimately show ?thesis
    using firing_reports_job_result [of failing_job "new_execution ''1'' [] []" id calm_env 0 100]
    by (auto simp: Let_def failing_job_def new_execution_def)
qed

text \<open>(panic_leaks_running_counter): a panic of the body is recovered by the wrapper, but the context
  is not stopped: the counter of running invocations stays one too high, the run does not
  enter the history and the completion callback is not called.\<close>

theorem panic_leaks_running_counter:
  assumes "never_stops (Middlewares (j_mws j))"
    and "j_body j (c_run (start_ctx j e w now)) = (Panicked, w', t)"
  shows "let f = runWithCtx env True (Inr e) cb j w now in
     j_running (f_job f) = j_running j + 1 \<and> j_log (f_job f) = j_log j \<and> f_callbacks f = []"
proof -
  obtain c where c: "Next (j_body j) (start_ctx j e w now) = (Panicked, c)"
    using passive_chain_panic(1) [of "Middlewares (j_mws j)" "start_ctx j e w now" "j_body j" w' t] assms
    by (cases "Next (j_body j) (start_ctx j e w now)") auto
  have "others (c_run c) = j_running j" "c_IsRunning c"
    using others_chain(1) [of "j_body j" "start_ctx j e w now"] c
      chain_settles(1) [of "j_body j" "start_ctx j e w now"] by (simp_all add: settled_def)
  then have "r_running (c_run c) = j_running j + 1"
    by (simp add: others_def c_IsRunning_def diff_eq_eq)
  with c show ?thesis by (simp add: Let_def runWithCtx_panic)
qed

definition panicking_job :: "nat sjob" where
  "panicking_job = failing_job\<lparr>j_body := (\<lambda>r. (Panicked, r_world r, r_now r))\<rparr>"

theorem panic_leaks_running_counter_witness:
  "j_running (f_job (runWithCtx calm_env True (Inr (new_execution ''1'' [] [])) True panicking_job 0 100)) = 1"
proof -
  have "never_stops (Middlewares (j_mws panicking_job))"
    by (simp add: never_stops_def panicking_job_def failing_job_def empty_container_def
        Middlewares_def List.map_filter_def)
  from panic_leaks_running_counter [OF this, of "new_execution ''1'' [] []" 0 100 0 100 calm_env True]
  show ?thesis
    by (simp add: Let_def panicking_job_def failing_job_def start_state_def NewContext_def ctx_Start_def)
qed

text \<open>(overlap_skips_second_run): a job with the overlap middleware alone whose counter says that a
  run is in progress does not call its body: the execution is recorded as skipped and the
  counter is left unchanged. In particular the counter left by a panic blocks the job for good.\<close>

theorem overlap_skips_second_run:
  assumes "Middlewares (j_mws j) = [Overlap True]"
    and "1 <s j_running j + 1" and "\<not> e_Skipped e" and "\<not> e_Failed e"
  shows "let f = runWithCtx env True (Inr e) cb j w now in
     f_world f = w \<and> j_running (f_job f) = j_running j \<and>
     (\<exists>x. GetLastRun (j_log (f_job f)) = Some x \<and> e_Skipped x \<and> \<not> e_Failed x)"
proof -
  let ?s = "start_ctx j e w now"
  let ?err = "Some (Sentinel ErrSkippedExecution)"
  let ?c = "c_Stop ?err (?s\<lparr>c_current := Suc 0\<rparr>)"
  have run: "c_run ?s = \<lparr>r_exec = exec_Start now e, r_running = j_running j + 1, r_now = now, r_world = w\<rparr>"
    by (simp add: start_state_def NewContext_def ctx_Start_def NotifyStart_def)
  have cur: "c_current ?s = 0" "\<not> c_executed ?s"
    by (simp_all add: start_state_def NewContext_def)
  have b: "mw_before (Overlap True) (?s\<lparr>c_current := Suc 0\<rparr>) = ?c"
    using assms(2) by (simp add: mw_before_def Overlap_def run)
  have frame: "c_middlewares ?c = [Overlap True]" "c_current ?c = Suc 0" "\<not> c_executed ?c"
    using assms(1) cur by (simp_all add: c_Stop_def)
  have "doNext (j_body j) ?c = (Return None, ?c)"
    by (rule doNext_idle) (simp_all add: frame)
  then have n: "Next (j_body j) ?c = (Return None, ?c)" using frame by (simp add: Next_ok)
  have "doNext (j_body j) ?s = (Return None, mw_after (Overlap True) None ?c)"
    using assms(1) cur n b by (subst doNext_mw) simp_all
  moreover have a: "mw_after (Overlap True) None ?c = ?c"
    by (simp add: mw_after_def Overlap_def)
  ultimately have "Next (j_body j) ?s = (Return None, ?c)" using frame by (simp add: Next_ok)
  moreover have "c_run ?c = ctx_Stop ?err (c_run ?s)" by (simp add: c_Stop_def)
  moreover have "ctx_Stop ?err (c_run ?s) =
      \<lparr>r_exec = exec_Stop now now ?err (exec_Start now e), r_running = j_running j, r_now = now, r_world = w\<rparr>"
    by (simp add: ctx_Stop_def run NotifyStop_def) (simp add: exec_Start_def)
  moreover have "e_Skipped (exec_Stop now now ?err (exec_Start now e))"
    "\<not> e_Failed (exec_Stop now now ?err (exec_Start now e))"
    using exec_Stop_status [of "exec_Start now e" now now ?err] assms(3,4)
    by (simp_all add: exec_Start_def)
  ultimately show ?thesis
    by (simp add: Let_def runWithCtx_return GetLastRun_def SetLastRun_def exec_Cleanup_def split: option.splits)
qed

text \<open>One panic, then a firing of the same job with the overlap middleware: the body is skipped.\<close>

theorem overlap_skips_second_run_witness:
  "let j1 = f_job (runWithCtx calm_env True (Inr (new_execution ''1'' [] [])) True panicking_job 0 100);
       j2 = j1\<lparr>j_body := j_body failing_job, j_mws := Use [NewOverlap True] empty_container\<rparr>
   in f_world (runWithCtx calm_env True (Inr (new_execution ''2'' [] [])) True j2 0 200) = 0"
proof -
  have n: "Next (j_body panicking_job) (start_ctx panicking_job (new_execution ''1'' [] []) 0 100) =
     (Panicked, (start_ctx panicking_job (new_execution ''1'' [] []) 0 100)\<lparr>c_executed := True\<rparr>)"
    by (rule Next_panic, subst doNext_job)
       (simp_all add: start_state_def NewContext_def panicking_job_def failing_job_def
          empty_container_def Middlewares_def List.map_filter_def run_job_def ctx_Start_def
          c_IsRunning_def exec_Start_def)
  have "j_running (f_job (runWithCtx calm_env True (Inr (new_execution ''1'' [] [])) True
          panicking_job 0 100)) = 1"
    unfolding runWithCtx_panic [OF n]
    by (simp add: start_state_def NewContext_def ctx_Start_def NotifyStart_def panicking_job_def failing_job_def)
  moreover have "(1 :: i32) <s 1 + 1" by (simp add: word_sless_alt)
  moreover have "Middlewares (Use [NewOverlap True] empty_container) = [Overlap True :: nat middleware]"
    by (simp add: NewOverlap_def use_one_def empty_container_def Middlewares_def List.map_filter_def)
  moreover have "\<not> e_Skipped (new_execution ''2'' [] [])" "\<not> e_Failed (new_execution ''2'' [] [])"
    by (simp_all add: new_execution_def)
  ultimately show ?thesis
    using overlap_skips_second_run [of "(f_job (runWithCtx calm_env True (Inr (new_execution ''1'' [] []))
        True panicking_job 0 100))\<lparr>j_body := j_body failing_job,
        j_mws := Use [NewOverlap True] empty_container\<rparr>" "new_execution ''2'' [] []" calm_env True 0 200]
    by (simp add: Let_def)
qed

text \<open>(job_deadline_bounded): every firing has a positive deadline: the job's own maximum runtime
  if it has a positive one, else the default of the scheduler, else 24 hours.\<close>

theorem job_deadline_bounded:
  "0 < boundJobContext mp d \<and>
   (\<forall>m. mp = Some m \<and> 0 < m \<longrightarrow> boundJobContext mp d = m) \<and>
   ((\<forall>m. mp = Some m \<longrightarrow> m \<le> 0) \<and> 0 < d \<longrightarrow> boundJobContext mp d = d) \<and>
   ((\<forall>m. mp = Some m \<longrightarrow> m \<le> 0) \<and> d \<le> 0 \<longrightarrow> boundJobContext mp d = 24 * hour)"
  by (auto simp: boundJobContext_def defaultJobMaxRuntime_def Let_def split: option.splits)

theorem job_deadline_bounded_witness:
  "boundJobContext (Some 0) (5 * minute) = 5 * minute"
  using job_deadline_bounded [of "Some 0" "5 * minute"] by simp

end
