(* ===== verification/Resilience.thy ===== *)
theory Resilience
  imports GoError
begin

text \<open>
  The resilience patterns of \<^verbatim>\<open>src/core/resilience.go\<close>: \<^verbatim>\<open>Retry\<close> with a policy, the circuit
  breaker, the token bucket and the bulkhead. The guarded function is an argument on a state
  \<open>'s\<close>. Each method of the circuit breaker and of the token bucket holds the mutex, so it is
  one atomic step; the calls of concurrent goroutines are sequences of such steps. Counters have
  their Go width. Floating-point numbers are reals, so rounding is not modelled.
\<close>

section \<open>Retry with a policy\<close>

record RetryPolicy =
  rp_MaxAttempts :: int
  rp_InitialDelay :: duration
  rp_MaxDelay :: duration
  rp_BackoffFactor :: real
  rp_JitterFactor :: real
  rp_RetryableErrors :: "go_error \<Rightarrow> bool"

definition DefaultRetryPolicy :: RetryPolicy where
  "DefaultRetryPolicy = \<lparr>rp_MaxAttempts = 3, rp_InitialDelay = 1 * second, rp_MaxDelay = 30 * second,
     rp_BackoffFactor = 2, rp_JitterFactor = 1 / 10, rp_RetryableErrors = (\<lambda>_. True)\<rparr>"

text \<open>\<^verbatim>\<open>math.Mod(x, 1)\<close>\<close>

definition math_Mod1 :: "real \<Rightarrow> real" where
  "math_Mod1 x = x - of_int (trunc x)"

definition jitter :: "RetryPolicy \<Rightarrow> duration \<Rightarrow> time \<Rightarrow> duration" where
  "jitter p delay now =
     trunc (of_int delay * rp_JitterFactor p * (1 / 2 - math_Mod1 (of_int now)))"

definition next_delay :: "RetryPolicy \<Rightarrow> duration \<Rightarrow> duration" where
  "next_delay p delay = min (trunc (of_int delay * rp_BackoffFactor p)) (rp_MaxDelay p)"

text \<open>The clock read for the jitter after each attempt, and what cancels the wait after it.\<close>

record wait_env =
  we_now :: "nat \<Rightarrow> time"
  we_cancel :: "nat \<Rightarrow> result"

text \<open>The loop of \<^verbatim>\<open>Retry\<close>; the last component collects the durations slept.\<close>

function policy_loop ::
  "wait_env \<Rightarrow> RetryPolicy \<Rightarrow> ('s \<Rightarrow> result \<times> 's) \<Rightarrow> nat \<Rightarrow> duration \<Rightarrow> result \<Rightarrow> 's \<Rightarrow>
   duration list \<Rightarrow> result \<times> 's \<times> duration list" where
  "policy_loop env p fn attempt delay lastErr s sl =
     (if int attempt \<le> rp_MaxAttempts p then
        case fn s of
          (None, s') \<Rightarrow> (None, s', sl)
        | (Some e, s') \<Rightarrow>
            if \<not> rp_RetryableErrors p e
            then (Some (Errorf [Lit ''non-retryable error: '', Wrap e]), s', sl)
            else if rp_MaxAttempts p \<le> int attempt
            then (Some (Errorf [Lit ''max retry attempts ('', Num (rp_MaxAttempts p),
                    Lit '') exceeded: '', Wrap e]), s', sl)
            else
              let sl' = sl @ [delay + jitter p delay (we_now env attempt)]
              in (case we_cancel env attempt of
                    Some ce \<Rightarrow> (Some (Errorf [Lit ''retry canceled: '', Wrap ce]), s', sl')
                  | None \<Rightarrow> policy_loop env p fn (Suc attempt) (next_delay p delay) (Some e) s' sl')
      else (Some (Errorf [Lit ''max retry attempts ('', Num (rp_MaxAttempts p), Lit '') exceeded: '',
              (case lastErr of None \<Rightarrow> Lit ''%!w(<nil>)'' | Some e \<Rightarrow> Wrap e)]), s, sl))"
  by pat_completeness auto
termination
  by (relation "measure (\<lambda>(env, p, fn, attempt, delay, lastErr, s, sl).
        nat (rp_MaxAttempts p + 1) - attempt)") auto

declare policy_loop.simps [simp del]

definition Retry :: "wait_env \<Rightarrow> RetryPolicy option \<Rightarrow> ('s \<Rightarrow> result \<times> 's) \<Rightarrow> 's \<Rightarrow>
    result \<times> 's \<times> duration list" where
  "Retry env policy fn s =
     (let p = (case policy of None \<Rightarrow> DefaultRetryPolicy | Some p \<Rightarrow> p)
      in policy_loop env p fn 1 (rp_InitialDelay p) None s [])"

subsection \<open>Facts about the loop\<close>

lemma jitter_eq: "jitter p delay now = trunc (of_int delay * rp_JitterFactor p / 2)"
  by (simp add: jitter_def math_Mod1_def)

text \<open>The loop goes on after a retryable error with attempts left and no cancellation; else it ends
  with at most one more call and at most one more sleep.\<close>

definition goes_on :: "wait_env \<Rightarrow> RetryPolicy \<Rightarrow> nat \<Rightarrow> result \<Rightarrow> bool" where
  "goes_on env p attempt r \<longleftrightarrow> int attempt < rp_MaxAttempts p \<and> we_cancel env attempt = None \<and>
     (\<exists>e. r = Some e \<and> rp_RetryableErrors p e)"

lemma policy_again:
  assumes "fn s = (r, s')" "goes_on env p attempt r"
  shows "policy_loop env p fn attempt delay lastErr s sl =
     policy_loop env p fn (Suc attempt) (next_delay p delay) r s'
       (sl @ [delay + jitter p delay (we_now env attempt)])"
  using assms by (subst policy_loop.simps) (auto simp: goes_on_def Let_def)

lemma policy_end:
  assumes "fn s = (r, s')" "\<not> goes_on env p attempt r"
    "policy_loop env p fn attempt delay lastErr s sl = (res, t, sl')"
  shows "(t = s' \<and> int attempt \<le> rp_MaxAttempts p \<or> t = s) \<and> (res = None \<longrightarrow> r = None \<and> t = s') \<and>
     (sl' = sl \<or> sl' = sl @ [delay + jitter p delay (we_now env attempt)])"
  using assms by (subst (asm) policy_loop.simps)
    (auto simp: goes_on_def Let_def split: if_splits option.splits)

lemma policy_measure:
  "goes_on env p attempt r \<Longrightarrow>
   nat (rp_MaxAttempts p + 1) - Suc attempt < nat (rp_MaxAttempts p + 1) - attempt"
  by (auto simp: goes_on_def)

text \<open>Induction over the attempts.\<close>

lemma policy_induct [case_names again finish]:
  assumes again: "\<And>attempt delay lastErr s sl r s'. fn s = (r, s') \<Longrightarrow> goes_on env p attempt r \<Longrightarrow>
      P (Suc attempt) (next_delay p delay) r s' (sl @ [delay + jitter p delay (we_now env attempt)]) \<Longrightarrow>
      P attempt delay lastErr s sl"
    and finish: "\<And>attempt delay lastErr s sl r s'. fn s = (r, s') \<Longrightarrow> \<not> goes_on env p attempt r \<Longrightarrow>
      P attempt delay lastErr s sl"
  shows "P attempt delay lastErr s (sl :: duration list)"
proof (induction "nat (rp_MaxAttempts p + 1) - attempt" arbitrary: attempt delay lastErr s sl
    rule: less_induct)
  case less
  obtain r s' where f: "fn s = (r, s')" by fastforce
  show ?case
  proof (cases "goes_on env p attempt r")
    case True
    then show ?thesis using again [OF f True] less policy_measure [OF True] by blast
  next
    case False
    then show ?thesis by (rule finish [OF f])
  qed
qed

text \<open>Every sleep is at most the bounded delay and half of its jitter share.\<close>

lemma policy_sleep_bound:
  assumes "0 \<le> rp_JitterFactor p" "delay \<le> rp_MaxDelay p"
  shows "delay + jitter p delay now \<le> rp_MaxDelay p + trunc (of_int (rp_MaxDelay p) * rp_JitterFactor p / 2)"
proof -
  have "of_int delay * rp_JitterFactor p / 2 \<le> of_int (rp_MaxDelay p) * rp_JitterFactor p / 2"
    using assms by (simp add: mult_right_mono)
  from trunc_mono [OF this] show ?thesis using assms(2) by (simp add: jitter_eq)
qed

lemma policy_loop_sleeps:
  assumes "0 \<le> rp_JitterFactor p"
  shows "delay \<le> rp_MaxDelay p \<Longrightarrow>
     \<forall>d \<in> set sl. d \<le> rp_MaxDelay p + trunc (of_int (rp_MaxDelay p) * rp_JitterFactor p / 2) \<Longrightarrow>
     \<forall>d \<in> set (snd (snd (policy_loop env p fn attempt delay lastErr s sl))).
       d \<le> rp_MaxDelay p + trunc (of_int (rp_MaxDelay p) * rp_JitterFactor p / 2)"
proof (induction attempt delay lastErr s sl rule: policy_induct [where fn = fn and env = env and p = p])
  case (again attempt delay lastErr s sl r s')
  show ?case
    unfolding policy_again [of fn s r s' env p attempt delay lastErr sl, OF again(1,2)]
  proof (rule again.IH)
    show "next_delay p delay \<le> rp_MaxDelay p" by (simp add: next_delay_def)
  qed (use again.prems policy_sleep_bound [OF assms again.prems(1)] in auto)
next
  case (finish attempt delay lastErr s sl r s')
  obtain res t sl' where e: "policy_loop env p fn attempt delay lastErr s sl = (res, t, sl')"
    by (metis prod_cases3)
  then show ?case
    using policy_end [of fn s r s' env p attempt delay lastErr sl, OF finish(1,2) e] finish.prems policy_sleep_bound [OF assms finish.prems(1)]
    by (elim conjE disjE) simp_all
qed

lemma policy_loop_calls:
  assumes cnt: "\<And>s. cnt (snd (fn s)) = Suc (cnt s)"
  shows "cnt (fst (snd (policy_loop env p fn attempt delay lastErr s sl)))
     \<le> cnt s + (nat (rp_MaxAttempts p + 1) - attempt)"
proof (induction attempt delay lastErr s sl rule: policy_induct [where fn = fn and env = env and p = p])
  case (again attempt delay lastErr s sl r s')
  have "cnt s' = Suc (cnt s)" using cnt [of s] again(1) by simp
  with again(3) policy_measure [OF again(2)] show ?case
    unfolding policy_again [of fn s r s' env p attempt delay lastErr sl, OF again(1,2)] by linarith
next
  case (finish attempt delay lastErr s sl r s')
  obtain res t sl' where e: "policy_loop env p fn attempt delay lastErr s sl = (res, t, sl')"
    by (metis prod_cases3)
  have "cnt s' = Suc (cnt s)" using cnt [of s] finish(1) by simp
  then show ?case using policy_end [of fn s r s' env p attempt delay lastErr sl, OF finish(1,2) e] e by auto
qed

lemma policy_loop_nil:
  "policy_loop env p fn attempt delay lastErr s sl = (None, t, sl') \<Longrightarrow> \<exists>s0. fn s0 = (None, t)"
proof (induction attempt delay lastErr s sl rule: policy_induct [where fn = fn and env = env and p = p])
  case (again attempt delay lastErr s sl r s')
  then show ?case by (simp only: policy_again [of fn s r s' env p attempt delay lastErr sl, OF again(1,2)])
next
  case (finish attempt delay lastErr s sl r s')
  then show ?case using policy_end [of fn s r s' env p attempt delay lastErr sl, OF finish] by auto
qed

section \<open>The circuit breaker\<close>

datatype CircuitBreakerState = StateClosed | StateOpen | StateHalfOpen | StateOther int

fun CBState_String :: "CircuitBreakerState \<Rightarrow> string" where
  "CBState_String StateClosed = ''closed''"
| "CBState_String StateOpen = ''open''"
| "CBState_String StateHalfOpen = ''half-open''"
| "CBState_String (StateOther n) = ''unknown''"

record CircuitBreaker =
  cb_name :: string
  cb_maxFailures :: u32
  cb_resetTimeout :: duration
  cb_halfOpenMaxCalls :: u32
  cb_state :: CircuitBreakerState
  cb_failures :: u32
  cb_lastFailureTime :: time
  cb_successCount :: u32
  cb_halfOpenCalls :: u32
  cb_totalCalls :: u64
  cb_totalFailures :: u64
  cb_totalSuccesses :: u64
  cb_lastOpenedAt :: time
  cb_openDuration :: duration

definition NewCircuitBreaker :: "string \<Rightarrow> u32 \<Rightarrow> duration \<Rightarrow> CircuitBreaker" where
  "NewCircuitBreaker name maxFailures resetTimeout =
     \<lparr>cb_name = name, cb_maxFailures = maxFailures, cb_resetTimeout = resetTimeout,
      cb_halfOpenMaxCalls = 1, cb_state = StateClosed, cb_failures = 0, cb_lastFailureTime = 0,
      cb_successCount = 0, cb_halfOpenCalls = 0, cb_totalCalls = 0, cb_totalFailures = 0,
      cb_totalSuccesses = 0, cb_lastOpenedAt = 0, cb_openDuration = 0\<rparr>"

definition transitionToOpen :: "time \<Rightarrow> CircuitBreaker \<Rightarrow> CircuitBreaker" where
  [step_defs]: "transitionToOpen now cb =
     cb\<lparr>cb_state := StateOpen, cb_lastOpenedAt := now, cb_failures := 0, cb_successCount := 0,
        cb_halfOpenCalls := 0\<rparr>"

definition transitionToHalfOpen :: "time \<Rightarrow> CircuitBreaker \<Rightarrow> CircuitBreaker" where
  [step_defs]: "transitionToHalfOpen now cb =
     (let cb1 = cb\<lparr>cb_state := StateHalfOpen, cb_successCount := 0, cb_halfOpenCalls := 0\<rparr>
      in if \<not> IsZero (cb_lastOpenedAt cb)
         then cb1\<lparr>cb_openDuration := cb_openDuration cb + (now - cb_lastOpenedAt cb)\<rparr> else cb1)"

definition transitionToClosed :: "CircuitBreaker \<Rightarrow> CircuitBreaker" where
  [step_defs]: "transitionToClosed cb =
     cb\<lparr>cb_state := StateClosed, cb_failures := 0, cb_successCount := 0, cb_halfOpenCalls := 0\<rparr>"

definition beforeCall :: "time \<Rightarrow> CircuitBreaker \<Rightarrow> result \<times> CircuitBreaker" where
  [step_defs]: "beforeCall now cb0 =
     (let cb = cb0\<lparr>cb_totalCalls := cb_totalCalls cb0 + 1\<rparr>
      in case cb_state cb of
           StateClosed \<Rightarrow> (None, cb)
         | StateOpen \<Rightarrow>
             if cb_resetTimeout cb < now - cb_lastFailureTime cb
             then (None, transitionToHalfOpen now cb)
             else (Some (Errorf [Wrap (Sentinel ErrCircuitBreakerOpen), Lit '': '', Str (cb_name cb)]), cb)
         | StateHalfOpen \<Rightarrow>
             if cb_halfOpenMaxCalls cb \<le> cb_halfOpenCalls cb
             then (Some (Errorf [Wrap (Sentinel ErrCircuitBreakerHalfOpen), Lit '': '', Str (cb_name cb)]), cb)
             else (None, cb\<lparr>cb_halfOpenCalls := cb_halfOpenCalls cb + 1\<rparr>)
         | StateOther n \<Rightarrow>
             (Some (Errorf [Wrap (Sentinel ErrCircuitBreakerUnknown), Lit '': '', Str (cb_name cb)]), cb))"

definition onSuccess :: "CircuitBreaker \<Rightarrow> CircuitBreaker" where
  [step_defs]: "onSuccess cb0 =
     (let cb = cb0\<lparr>cb_totalSuccesses := cb_totalSuccesses cb0 + 1\<rparr>
      in case cb_state cb of
           StateClosed \<Rightarrow> cb\<lparr>cb_failures := 0\<rparr>
         | StateHalfOpen \<Rightarrow>
             let cb1 = cb\<lparr>cb_successCount := cb_successCount cb + 1\<rparr>
             in if cb_halfOpenMaxCalls cb1 \<le> cb_successCount cb1 then transitionToClosed cb1 else cb1
         | _ \<Rightarrow> cb)"

definition onFailure :: "time \<Rightarrow> CircuitBreaker \<Rightarrow> CircuitBreaker" where
  [step_defs]: "onFailure now cb0 =
     (let cb = cb0\<lparr>cb_totalFailures := cb_totalFailures cb0 + 1, cb_failures := cb_failures cb0 + 1,
                   cb_lastFailureTime := now\<rparr>
      in case cb_state cb of
           StateClosed \<Rightarrow>
             if cb_maxFailures cb \<le> cb_failures cb then transitionToOpen now cb else cb
         | StateHalfOpen \<Rightarrow> transitionToOpen now cb
         | _ \<Rightarrow> cb)"

definition afterCall :: "time \<Rightarrow> bool \<Rightarrow> CircuitBreaker \<Rightarrow> CircuitBreaker" where
  [step_defs]: "afterCall now success cb = (if success then onSuccess cb else onFailure now cb)"

text \<open>\<^verbatim>\<open>CircuitBreaker.Execute\<close> of one goroutine; \<open>now\<close> and \<open>now'\<close> are the times before and after
  the function.\<close>

definition cb_Execute ::
  "time \<Rightarrow> time \<Rightarrow> ('s \<Rightarrow> result \<times> 's) \<Rightarrow> CircuitBreaker \<times> 's \<Rightarrow> result \<times> CircuitBreaker \<times> 's" where
  "cb_Execute now now' fn cbs =
     (case beforeCall now (fst cbs) of
        (Some e, cb) \<Rightarrow> (Some e, cb, snd cbs)
      | (None, cb) \<Rightarrow>
          let (err, s') = fn (snd cbs)
          in (err, afterCall now' (err = None) cb, s'))"

definition cb_GetState :: "CircuitBreaker \<Rightarrow> CircuitBreakerState" where
  "cb_GetState cb = cb_state cb"

definition cb_GetMetrics :: "CircuitBreaker \<Rightarrow> (string \<times> metric) list" where
  "cb_GetMetrics cb =
     [(''name'', MStr (cb_name cb)), (''state'', MStr (CBState_String (cb_state cb))),
      (''total_calls'', MInt (uint (cb_totalCalls cb))),
      (''total_successes'', MInt (uint (cb_totalSuccesses cb))),
      (''total_failures'', MInt (uint (cb_totalFailures cb))),
      (''current_failures'', MInt (uint (cb_failures cb))),
      (''open_duration'', MReal (Seconds (cb_openDuration cb)))]"

subsection \<open>Interleavings\<close>

text \<open>The steps of any number of goroutines that share a circuit breaker.\<close>

datatype cb_event = Before time | After time bool

fun cb_step :: "cb_event \<Rightarrow> CircuitBreaker \<Rightarrow> CircuitBreaker" where
  "cb_step (Before now) cb = snd (beforeCall now cb)"
| "cb_step (After now ok) cb = afterCall now ok cb"

definition cb_ok :: "CircuitBreaker \<Rightarrow> bool" where
  [inv_defs]: "cb_ok cb \<longleftrightarrow>
     (\<forall>n. cb_state cb \<noteq> StateOther n) \<and> 0 < cb_halfOpenMaxCalls cb \<and>
     (cb_state cb = StateClosed \<longrightarrow> cb_failures cb < cb_maxFailures cb) \<and>
     cb_successCount cb < cb_halfOpenMaxCalls cb \<and> cb_halfOpenCalls cb \<le> cb_halfOpenMaxCalls cb \<and>
     0 < cb_maxFailures cb"

lemma word_inc_le: "(a :: 'a :: len word) < b \<Longrightarrow> a + 1 \<le> b"
  by (metis inc_le)

lemma beforeCall_ok: "cb_ok cb \<Longrightarrow> cb_ok (snd (beforeCall now cb))"
  by (auto simp: cb_ok_def step_defs Let_def word_inc_le not_le
      split: CircuitBreakerState.splits)

lemma onSuccess_ok: "cb_ok cb \<Longrightarrow> cb_ok (onSuccess cb)"
  by (auto simp: cb_ok_def step_defs Let_def not_le split: CircuitBreakerState.splits)

lemma onFailure_ok: "cb_ok cb \<Longrightarrow> cb_ok (onFailure now cb)"
  by (auto simp: cb_ok_def step_defs Let_def not_le split: CircuitBreakerState.splits)

lemma cb_step_ok: "cb_ok cb \<Longrightarrow> cb_ok (cb_step ev cb)"
  by (cases ev) (auto simp: beforeCall_ok onSuccess_ok onFailure_ok afterCall_def)

lemma cb_new_ok: "0 < m \<Longrightarrow> cb_ok (NewCircuitBreaker name m timeout)"
  by (simp add: cb_ok_def NewCircuitBreaker_def)

interpretation cbm: machine "NewCircuitBreaker name m timeout" cb_step "\<lambda>cb. 0 < m \<longrightarrow> cb_ok cb"
  for name m timeout
  by unfold_locales (simp_all add: cb_new_ok cb_step_ok)

subsection \<open>One goroutine\<close>

lemma unat_suc_less:
  assumes "(a :: u32) < b"
  shows "unat (a + 1) = Suc (unat a)"
proof -
  have "unat a < unat b" using assms by (simp add: word_less_nat_alt)
  then have "unat a + 1 < 2 ^ 32" using unsigned_less [of b, where 'a = nat] by simp
  then show ?thesis by (simp add: unat_word_ariths)
qed

lemma beforeCall_timeout: "cb_resetTimeout (snd (beforeCall now cb)) = cb_resetTimeout cb"
  by (simp add: beforeCall_def transitionToHalfOpen_def Let_def split: CircuitBreakerState.splits)

lemma afterCall_timeout: "cb_resetTimeout (afterCall now ok cb) = cb_resetTimeout cb"
  by (simp add: afterCall_def onSuccess_def onFailure_def transitionToOpen_def transitionToClosed_def
      Let_def split: CircuitBreakerState.splits)

lemma cb_Execute_timeout:
  "cb_resetTimeout (fst (snd (cb_Execute now now' fn (cb, s)))) = cb_resetTimeout cb"
  using beforeCall_timeout [of now cb]
  by (auto simp: cb_Execute_def Let_def afterCall_timeout split: prod.splits option.splits)

lemma closed_failure:
  assumes "cb_state cb = StateClosed" "fn s = (Some e, s')"
  shows "cb_Execute now now' fn (cb, s) = (Some e, onFailure now' (cb\<lparr>cb_totalCalls := cb_totalCalls cb + 1\<rparr>), s')"
  using assms by (simp add: cb_Execute_def beforeCall_def afterCall_def Let_def)

lemma onFailure_closed:
  assumes "cb_state cb = StateClosed"
  shows "cb_state (onFailure now cb) =
      (if cb_maxFailures cb \<le> cb_failures cb + 1 then StateOpen else StateClosed)"
    and "\<not> cb_maxFailures cb \<le> cb_failures cb + 1 \<Longrightarrow> cb_failures (onFailure now cb) = cb_failures cb + 1"
    and "cb_lastFailureTime (onFailure now cb) = now"
    and "cb_maxFailures (onFailure now cb) = cb_maxFailures cb"
  using assms by (simp_all add: onFailure_def transitionToOpen_def Let_def)

text \<open>Calls of a function that fails, one after the other.\<close>

fun failing_calls :: "('s \<Rightarrow> result \<times> 's) \<Rightarrow> (time \<times> time) list \<Rightarrow> CircuitBreaker \<times> 's \<Rightarrow> CircuitBreaker \<times> 's" where
  "failing_calls fn [] cbs = cbs"
| "failing_calls fn ((t, t') # ts) cbs = failing_calls fn ts (snd (cb_Execute t t' fn cbs))"

lemma failing_calls_closed:
  assumes fail: "\<And>s. \<exists>e. fst (fn s) = Some e"
  shows "cb_state cb = StateClosed \<Longrightarrow> unat (cb_failures cb) + length ts < unat (cb_maxFailures cb) \<Longrightarrow>
     cb_state (fst (failing_calls fn ts (cb, s))) = StateClosed \<and>
     unat (cb_failures (fst (failing_calls fn ts (cb, s)))) = unat (cb_failures cb) + length ts \<and>
     cb_maxFailures (fst (failing_calls fn ts (cb, s))) = cb_maxFailures cb \<and>
     snd (failing_calls fn ts (cb, s)) = ((\<lambda>s. snd (fn s)) ^^ length ts) s"
proof (induction ts arbitrary: cb s)
  case Nil
  then show ?case by simp
next
  case (Cons t ts)
  obtain t1 t2 where t: "t = (t1, t2)" by fastforce
  obtain e s' where f: "fn s = (Some e, s')" using fail [of s] by (metis prod.collapse)
  let ?cb = "onFailure t2 (cb\<lparr>cb_totalCalls := cb_totalCalls cb + 1\<rparr>)"
  have lt: "cb_failures cb < cb_maxFailures cb" using Cons.prems(2) by (simp add: word_less_nat_alt)
  have u: "unat (cb_failures cb + 1) = Suc (unat (cb_failures cb))" by (rule unat_suc_less [OF lt])
  then have nle: "\<not> cb_maxFailures cb \<le> cb_failures cb + 1"
    using Cons.prems(2) by (simp add: word_le_nat_alt)
  have st: "cb_state ?cb = StateClosed" "cb_failures ?cb = cb_failures cb + 1"
    "cb_maxFailures ?cb = cb_maxFailures cb"
    using onFailure_closed [of "cb\<lparr>cb_totalCalls := cb_totalCalls cb + 1\<rparr>" t2] Cons.prems(1) nle
    by simp_all
  have "snd (cb_Execute t1 t2 fn (cb, s)) = (?cb, s')"
    using closed_failure [where fn = fn, OF Cons.prems(1) f] by simp
  moreover have "((\<lambda>s. snd (fn s)) ^^ length (t # ts)) s = ((\<lambda>s. snd (fn s)) ^^ length ts) s'"
    by (simp only: length_Cons funpow_Suc_right o_apply f snd_conv)
  ultimately show ?case
    using Cons.IH [of ?cb s'] Cons.prems(2) st u t by (simp del: funpow.simps(2))
qed

lemma open_rejects:
  assumes "cb_state cb = StateOpen" "now - cb_lastFailureTime cb \<le> cb_resetTimeout cb"
  shows "cb_Execute now now' fn (cb, s) =
     (Some (Errorf [Wrap (Sentinel ErrCircuitBreakerOpen), Lit '': '', Str (cb_name cb)]),
      cb\<lparr>cb_totalCalls := cb_totalCalls cb + 1\<rparr>, s)"
  using assms by (simp add: cb_Execute_def beforeCall_def Let_def)

section \<open>Properties\<close>

text \<open>(policy_retry_bounded): \<^verbatim>\<open>Retry\<close> calls the function at most \<^verbatim>\<open>MaxAttempts\<close> times, returns nil
  only when the last call returned nil, and sleeps never longer than the maximal delay plus its
  jitter share, for an initial delay within the maximum.\<close>

theorem policy_retry_bounded:
  assumes "\<And>s. cnt (snd (fn s)) = Suc (cnt s)"
    and "0 \<le> rp_JitterFactor p" and "rp_InitialDelay p \<le> rp_MaxDelay p"
  shows "let (res, s', sleeps) = Retry env (Some p) fn s in
     cnt s' \<le> cnt s + nat (rp_MaxAttempts p) \<and>
     (res = None \<longrightarrow> (\<exists>s0. fn s0 = (None, s'))) \<and>
     (\<forall>d \<in> set sleeps. d \<le> rp_MaxDelay p + trunc (of_int (rp_MaxDelay p) * rp_JitterFactor p / 2))"
proof -
  obtain res s' sl where e: "policy_loop env p fn 1 (rp_InitialDelay p) None s [] = (res, s', sl)"
    by (metis prod_cases3)
  have "cnt s' \<le> cnt s + (nat (rp_MaxAttempts p + 1) - 1)"
    using policy_loop_calls [where cnt = cnt, OF assms(1), of env p 1 "rp_InitialDelay p" None s "[]"] e by simp
  moreover have "nat (rp_MaxAttempts p + 1) - 1 = nat (rp_MaxAttempts p)" by simp
  moreover have "\<forall>d \<in> set sl. d \<le> rp_MaxDelay p + trunc (of_int (rp_MaxDelay p) * rp_JitterFactor p / 2)"
    using policy_loop_sleeps [OF assms(2,3), of "[]" env fn 1 None s] e by simp
  ultimately show ?thesis
    using e policy_loop_nil [of env p fn 1 "rp_InitialDelay p" None s "[]" s' sl]
    by (auto simp: Retry_def)
qed

definition steady_env :: wait_env where
  "steady_env = \<lparr>we_now = int, we_cancel = (\<lambda>_. None)\<rparr>"

theorem policy_retry_bounded_witness:
  "let (res, s', sleeps) = Retry steady_env (Some DefaultRetryPolicy)
      (\<lambda>n :: nat. (Some (Opaque 0 ''x''), Suc n)) 0 in s' \<le> 3"
  using policy_retry_bounded [of id "\<lambda>n :: nat. (Some (Opaque 0 ''x''), Suc n)" DefaultRetryPolicy steady_env 0]
  by (simp add: DefaultRetryPolicy_def split: prod.splits)

text \<open>(jitter_is_constant): the jitter does not vary. A number of nanoseconds has no fractional part,
  so the term \<^verbatim>\<open>math.Mod(now, 1)\<close> is 0 at every time, and the jitter is always the same
  non-negative half of the jitter share of the delay.\<close>

theorem jitter_is_constant:
  "jitter p delay now = jitter p delay now' \<and>
   jitter p delay now = trunc (of_int delay * rp_JitterFactor p / 2)"
  by (simp add: jitter_eq)

text \<open>The failures since the last success, as the calls report them.\<close>

definition count_failure :: "cb_event \<Rightarrow> nat \<Rightarrow> nat" where
  "count_failure e n = (case e of Before _ \<Rightarrow> n | After _ ok \<Rightarrow> if ok then 0 else Suc n)"

definition failure_streak :: "cb_event list \<Rightarrow> nat" where
  "failure_streak evs = fold count_failure evs 0"

lemma failure_streak_snoc: "failure_streak (evs @ [e]) = count_failure e (failure_streak evs)"
  by (simp add: failure_streak_def)

text \<open>While the breaker is closed its counter is the number of failures since the last success.\<close>

lemma onFailure_closed_iff:
  "cb_state cb = StateClosed \<Longrightarrow>
   onFailure now cb = (let cb' = cb\<lparr>cb_totalFailures := cb_totalFailures cb + 1, cb_failures := cb_failures cb + 1,
     cb_lastFailureTime := now\<rparr> in if cb_maxFailures cb \<le> cb_failures cb + 1 then transitionToOpen now cb' else cb')"
  by (simp add: step_defs)

definition streak_ok :: "u32 \<Rightarrow> cb_event list \<Rightarrow> CircuitBreaker \<Rightarrow> bool" where
  "streak_ok m evs cb \<longleftrightarrow> cb_ok cb \<and> cb_maxFailures cb = m \<and>
     (if cb_state cb = StateClosed then unat (cb_failures cb) = failure_streak evs
      else \<exists>pre suf. evs = pre @ suf \<and> failure_streak pre = unat m)"

lemma streak_prefix: "(\<exists>pre suf. evs = pre @ suf \<and> P pre) \<Longrightarrow> (\<exists>pre suf. evs @ [e] = pre @ suf \<and> P pre)"
  by (metis append_assoc)

lemma beforeCall_state:
  "cb_maxFailures (snd (beforeCall now cb)) = cb_maxFailures cb"
  "cb_state (snd (beforeCall now cb)) = StateClosed \<longleftrightarrow> cb_state cb = StateClosed"
  "cb_state cb = StateClosed \<Longrightarrow> cb_failures (snd (beforeCall now cb)) = cb_failures cb"
  by (auto simp: step_defs Let_def split: CircuitBreakerState.splits)

lemma afterCall_max: "cb_maxFailures (afterCall now ok cb) = cb_maxFailures cb"
  by (auto simp: step_defs Let_def split: CircuitBreakerState.splits)

lemma onSuccess_streak:
  "(cb_state cb = StateClosed \<longrightarrow> cb_state (onSuccess cb) = StateClosed) \<and>
   (cb_state (onSuccess cb) = StateClosed \<longrightarrow> cb_failures (onSuccess cb) = 0)"
  by (auto simp: step_defs Let_def split: CircuitBreakerState.splits)

lemma onFailure_open: "cb_state cb \<noteq> StateClosed \<Longrightarrow> cb_state (onFailure now cb) \<noteq> StateClosed"
  by (auto simp: step_defs Let_def split: CircuitBreakerState.splits)

lemma streak_step:
  assumes "streak_ok m evs cb"
  shows "streak_ok m (evs @ [e]) (cb_step e cb)"
proof -
  have ok: "cb_ok (cb_step e cb)" and mx: "cb_maxFailures (cb_step e cb) = m"
    using assms cb_step_ok [of cb e] by (cases e; simp add: streak_ok_def beforeCall_state afterCall_max)+
  have old: "\<exists>pre suf. evs @ [e] = pre @ suf \<and> failure_streak pre = unat m" if "cb_state cb \<noteq> StateClosed"
    using assms that streak_prefix [of evs "\<lambda>pre. failure_streak pre = unat m" e] by (simp add: streak_ok_def)
  show ?thesis
  proof (cases e)
    case (Before now)
    then show ?thesis
      using assms ok mx old by (auto simp: streak_ok_def beforeCall_state failure_streak_snoc count_failure_def)
  next
    case (After now success)
    show ?thesis
    proof (cases success)
      case True
      then show ?thesis
        using After ok mx old onSuccess_streak [of cb]
        by (auto simp: streak_ok_def failure_streak_snoc count_failure_def afterCall_def)
    next
      case False
      then have step: "cb_step e cb = onFailure now cb" using After by (simp add: afterCall_def)
      have streak: "failure_streak (evs @ [e]) = Suc (failure_streak evs)"
        using After False by (simp add: failure_streak_snoc count_failure_def)
      show ?thesis
      proof (cases "cb_state cb = StateClosed")
        case True
        then have f: "cb_failures cb < m" "unat (cb_failures cb) = failure_streak evs"
          using assms by (auto simp: streak_ok_def cb_ok_def)
        then have inc: "unat (cb_failures cb + 1) = failure_streak (evs @ [e])" "cb_failures cb + 1 \<le> m"
          using unat_suc_less [of "cb_failures cb" m] word_inc_le [of "cb_failures cb" m] by (simp_all add: streak)
        have mf: "cb_maxFailures cb = m" using assms by (simp add: streak_ok_def)
        show ?thesis
        proof (cases "m \<le> cb_failures cb + 1")
          case le: True
          then have "failure_streak (evs @ [e]) = unat m" using inc by simp
          then have "\<exists>pre suf. evs @ [e] = pre @ suf \<and> failure_streak pre = unat m"
            by (intro exI [of _ "evs @ [e]"] exI [of _ "[]"]) simp
          then show ?thesis
            using ok mx le True mf unfolding streak_ok_def step onFailure_closed_iff [OF True]
            by (simp add: Let_def transitionToOpen_def)
        next
          case False
          then show ?thesis
            using ok mx True mf inc(1) unfolding streak_ok_def step onFailure_closed_iff [OF True] by (simp add: Let_def)
        qed
      next
        case False
        then show ?thesis using ok mx old onFailure_open [OF False, of now] by (simp add: streak_ok_def step)
      qed
    qed
  qed
qed

lemma streak_run:
  assumes "0 < m"
  shows "streak_ok m evs (fold cb_step evs (NewCircuitBreaker name m timeout))"
proof (induction evs rule: rev_induct)
  case Nil
  show ?case using cb_new_ok [OF assms] by (simp add: streak_ok_def NewCircuitBreaker_def failure_streak_def)
next
  case (snoc e evs)
  then show ?case using streak_step by simp
qed

text \<open>C22 (circuit_breaker_safe): however the steps of concurrent callers interleave, a breaker created with a
  positive threshold is closed only while fewer than \<^verbatim>\<open>maxFailures\<close> of the reported calls have failed since the last
  success, and it is not closed only after some moment at which exactly \<^verbatim>\<open>maxFailures\<close> had failed since the last
  success; it is always closed, open or half-open, and its half-open counters stay within \<^verbatim>\<open>halfOpenMaxCalls\<close>.\<close>

theorem circuit_breaker_safe:
  assumes "0 < m"
  shows "let cb = fold cb_step evs (NewCircuitBreaker name m timeout) in
     (cb_state cb = StateClosed \<longrightarrow> failure_streak evs < unat m) \<and>
     (cb_state cb \<noteq> StateClosed \<longrightarrow> (\<exists>pre suf. evs = pre @ suf \<and> failure_streak pre = unat m)) \<and>
     (cb_state cb = StateClosed \<or> cb_state cb = StateOpen \<or> cb_state cb = StateHalfOpen) \<and>
     cb_halfOpenCalls cb \<le> cb_halfOpenMaxCalls cb \<and> cb_successCount cb < cb_halfOpenMaxCalls cb"
proof -
  let ?cb = "fold cb_step evs (NewCircuitBreaker name m timeout)"
  have "cb_ok ?cb" using cbm.ok_run [of m evs name timeout] assms by simp
  then show ?thesis using streak_run [OF assms, of evs name timeout]
    by (cases "cb_state ?cb") (auto simp: cb_ok_def streak_ok_def word_less_nat_alt Let_def)
qed

theorem circuit_breaker_safe_witness:
  "\<exists>pre suf. [Before 1, After 2 False, Before 3, After 4 False, Before 5] = pre @ suf \<and> failure_streak pre = unat (2 :: u32)"
proof -
  let ?evs = "[Before 1, After 2 False, Before 3, After 4 False, Before 5]"
  have "cb_state (fold cb_step ?evs (NewCircuitBreaker ''b'' 2 10)) = StateOpen" by code_simp
  then show ?thesis using circuit_breaker_safe [of 2 ?evs "''b''" 10] by (simp add: Let_def del: fold_simps)
qed

text \<open>(circuit_breaker_trips): a fresh breaker lets exactly \<^verbatim>\<open>maxFailures\<close> failing calls through and
  is then open; until the reset timeout has passed since the last failure every further call is
  rejected with \<^verbatim>\<open>ErrCircuitBreakerOpen\<close> without running the function.\<close>

theorem circuit_breaker_trips:
  assumes fail: "\<And>s. \<exists>e. fst (fn s) = Some e"
    and len: "Suc (length ts) = unat m"
    and soon: "now \<le> t' + timeout"
  shows "let (cb, s') = failing_calls fn (ts @ [(t, t')]) (NewCircuitBreaker name m timeout, s) in
     cb_GetState cb = StateOpen \<and> s' = ((\<lambda>s. snd (fn s)) ^^ unat m) s \<and>
     (\<exists>e cb2. cb_Execute now now' fn (cb, s') = (Some e, cb2, s') \<and> errors_Is e ErrCircuitBreakerOpen)"
proof -
  let ?c0 = "NewCircuitBreaker name m timeout"
  obtain cb1 s1 where r: "failing_calls fn ts (?c0, s) = (cb1, s1)" by fastforce
  have cfg: "cb_resetTimeout (fst (failing_calls fn us (c, x))) = cb_resetTimeout c" for us c x
  proof (induction us arbitrary: c x)
    case (Cons u us)
    obtain r c' x' where "cb_Execute (fst u) (snd u) fn (c, x) = (r, c', x')" by (metis prod_cases3)
    with cb_Execute_timeout [of "fst u" "snd u" fn c x] Cons [of c' x'] show ?case by (cases u) simp
  qed simp
  have "unat (cb_failures ?c0) + length ts < unat (cb_maxFailures ?c0)"
    using len by (simp add: NewCircuitBreaker_def)
  from failing_calls_closed [where fn = fn, OF fail _ this, of s] r
  have c1: "cb_state cb1 = StateClosed" "unat (cb_failures cb1) = length ts" "cb_maxFailures cb1 = m"
    "s1 = ((\<lambda>s. snd (fn s)) ^^ length ts) s" by (simp_all add: NewCircuitBreaker_def)
  obtain e s2 where f: "fn s1 = (Some e, s2)" using fail [of s1] by (metis prod.collapse)
  let ?cb = "onFailure t' (cb1\<lparr>cb_totalCalls := cb_totalCalls cb1 + 1\<rparr>)"
  have "cb_failures cb1 < m" using c1 len by (simp add: word_less_nat_alt)
  then have "m \<le> cb_failures cb1 + 1"
    using unat_suc_less c1(2) len by (simp add: word_le_nat_alt)
  then have o: "cb_state ?cb = StateOpen" "cb_lastFailureTime ?cb = t'"
    using onFailure_closed [of "cb1\<lparr>cb_totalCalls := cb_totalCalls cb1 + 1\<rparr>" t'] c1 by simp_all
  have app: "failing_calls fn (us @ vs) c = failing_calls fn vs (failing_calls fn us c)" for us vs c
    by (induction fn us c rule: failing_calls.induct) simp_all
  have fin: "failing_calls fn (ts @ [(t, t')]) (?c0, s) = (?cb, s2)"
    using closed_failure [where fn = fn, OF c1(1) f] by (simp add: app r)
  have "cb_resetTimeout ?cb = timeout"
    using cfg [of "ts @ [(t, t')]" ?c0 s] by (simp add: fin) (simp add: NewCircuitBreaker_def)
  with open_rejects [of ?cb now now' fn s2] o soon
  have "\<exists>e cb2. cb_Execute now now' fn (?cb, s2) = (Some e, cb2, s2) \<and> errors_Is e ErrCircuitBreakerOpen"
    by simp
  moreover have "s2 = ((\<lambda>s. snd (fn s)) ^^ unat m) s" using f c1(4) len by (simp flip: len)
  ultimately show ?thesis using fin o(1) by (simp add: cb_GetState_def)
qed

theorem circuit_breaker_trips_witness:
  "cb_GetState (fst (failing_calls (\<lambda>n :: nat. (Some (Opaque 0 ''x''), Suc n)) [(1, 2), (3, 4)]
     (NewCircuitBreaker ''b'' 2 10, 0))) = StateOpen"
  using circuit_breaker_trips [of "\<lambda>n :: nat. (Some (Opaque 0 ''x''), Suc n)" "[(1, 2)]" 2 14 4 10 3 "''b''" 0 15]
  by (simp add: Let_def split: prod.splits)

text \<open>(circuit_breaker_recovers): the first call after the reset timeout runs the function; a success
  closes a breaker with one half-open call and clears its failures, a failure opens it again
  from that moment on.\<close>

theorem circuit_breaker_recovers:
  assumes "cb_state cb = StateOpen" "cb_resetTimeout cb < now - cb_lastFailureTime cb"
    and "cb_halfOpenMaxCalls cb = 1"
    and "fn s = (err, s')"
  shows "let (res, cb', s1) = cb_Execute now now' fn (cb, s) in
     res = err \<and> s1 = s' \<and>
     (err = None \<longrightarrow> cb_state cb' = StateClosed \<and> cb_failures cb' = 0) \<and>
     (err \<noteq> None \<longrightarrow> cb_state cb' = StateOpen \<and> cb_lastFailureTime cb' = now')"
  using assms by (simp add: cb_Execute_def step_defs Let_def)

theorem circuit_breaker_recovers_witness:
  "let (res, cb', s1) = cb_Execute 100 105 (\<lambda>n :: nat. (None, Suc n))
       ((NewCircuitBreaker ''b'' 2 10)\<lparr>cb_state := StateOpen, cb_lastFailureTime := 50\<rparr>, 0)
   in cb_state cb' = StateClosed"
  using circuit_breaker_recovers [of "(NewCircuitBreaker ''b'' 2 10)\<lparr>cb_state := StateOpen, cb_lastFailureTime := 50\<rparr>"
      100 "\<lambda>n :: nat. (None, Suc n)" 0 None 1 105]
  by (simp add: NewCircuitBreaker_def split: prod.splits)

text \<open>(half_open_admits_one_more): the call that moves the breaker to half-open is not counted against
  \<^verbatim>\<open>halfOpenMaxCalls\<close>: of the calls that start after the reset timeout and before any of them
  returns, one more than the configured number is let through.\<close>

theorem half_open_admits_one_more:
  assumes "cb_state cb = StateOpen" "cb_resetTimeout cb < t1 - cb_lastFailureTime cb"
    and "cb_halfOpenMaxCalls cb = 1"
  shows "let (r1, cb1) = beforeCall t1 cb; (r2, cb2) = beforeCall t2 cb1; (r3, cb3) = beforeCall t3 cb2 in
     r1 = None \<and> r2 = None \<and> err_is r3 ErrCircuitBreakerHalfOpen"
  using assms by (simp add: step_defs Let_def)

theorem half_open_admits_one_more_witness:
  "let cb = (NewCircuitBreaker ''b'' 2 10)\<lparr>cb_state := StateOpen, cb_lastFailureTime := 50\<rparr>;
       (r1, cb1) = beforeCall 100 cb; (r2, cb2) = beforeCall 101 cb1 in r2 = None"
  using half_open_admits_one_more [of "(NewCircuitBreaker ''b'' 2 10)\<lparr>cb_state := StateOpen, cb_lastFailureTime := 50\<rparr>"
      100 101 102]
  by (simp add: NewCircuitBreaker_def split: prod.splits)

end
