(* ===== verification/RateLimits.thy ===== *)
theory RateLimits
  imports GoError
begin

text \<open>
  The limiters of \<^verbatim>\<open>src/core/resilience.go\<close>: the token bucket \<^verbatim>\<open>RateLimiter\<close> and the
  \<^verbatim>\<open>Bulkhead\<close>. The bucket is refilled with the time that has passed at every request; the
  theory bounds the tokens granted over any sequence of requests. The bulkhead is a pool of
  slots with a gauge and counters; the bound on the calls in flight holds for every
  interleaving of its callers.
\<close>

section \<open>The token bucket\<close>

record RateLimiter =
  rl_rate :: real
  rl_capacity :: int
  rl_tokens :: real
  rl_lastRefill :: time

definition NewRateLimiter :: "time \<Rightarrow> real \<Rightarrow> int \<Rightarrow> RateLimiter" where
  "NewRateLimiter now rt capacity =
     \<lparr>rl_rate = rt, rl_capacity = capacity, rl_tokens = of_int capacity, rl_lastRefill = now\<rparr>"

definition refill :: "time \<Rightarrow> RateLimiter \<Rightarrow> RateLimiter" where
  "refill now rl =
     (let tokens = rl_tokens rl + Seconds (now - rl_lastRefill rl) * rl_rate rl
      in rl\<lparr>rl_tokens := (if of_int (rl_capacity rl) < tokens then of_int (rl_capacity rl) else tokens),
            rl_lastRefill := now\<rparr>)"

definition AllowN :: "time \<Rightarrow> int \<Rightarrow> RateLimiter \<Rightarrow> bool \<times> RateLimiter" where
  "AllowN now n rl0 =
     (let rl = refill now rl0
      in if of_int n \<le> rl_tokens rl then (True, rl\<lparr>rl_tokens := rl_tokens rl - of_int n\<rparr>)
         else (False, rl))"

definition Allow :: "time \<Rightarrow> RateLimiter \<Rightarrow> bool \<times> RateLimiter" where
  "Allow now rl = AllowN now 1 rl"

text \<open>
  \<^verbatim>\<open>WaitN\<close>: the events are what ends the waits of the loop, one per round, a timer or the
  cancellation of the context; the result is \<^term>\<open>None\<close> while the caller is still blocked. The
  last component collects the durations of the timers.
\<close>

datatype wait_event = Woken time | Cancelled go_error

fun waitN_loop :: "int \<Rightarrow> time \<Rightarrow> wait_event list \<Rightarrow> RateLimiter \<Rightarrow> duration list \<Rightarrow>
    result option \<times> RateLimiter \<times> duration list" where
  "waitN_loop n now evs rl ws =
     (case AllowN now n rl of
        (True, rl') \<Rightarrow> (Some None, rl', ws)
      | (False, rl') \<Rightarrow>
          let w = trunc ((of_int n - rl_tokens rl') / rl_rate rl' * 1000) * millisecond;
              ws' = ws @ [w]
          in (case evs of
                [] \<Rightarrow> (None, rl', ws')
              | Cancelled ce # _ \<Rightarrow>
                  (Some (Some (Errorf [Lit ''rate limiter wait canceled: '', Wrap ce])), rl', ws')
              | Woken t # evs' \<Rightarrow> waitN_loop n t evs' rl' ws'))"

declare waitN_loop.simps [simp del]

definition WaitN :: "int \<Rightarrow> time \<Rightarrow> wait_event list \<Rightarrow> RateLimiter \<Rightarrow>
    result option \<times> RateLimiter \<times> duration list" where
  "WaitN n now evs rl =
     (if rl_capacity rl < n then (Some (Some (Sentinel ErrTokensExceedCapacity)), rl, [])
      else waitN_loop n now evs rl [])"

definition Wait :: "time \<Rightarrow> wait_event list \<Rightarrow> RateLimiter \<Rightarrow> result option \<times> RateLimiter \<times> duration list" where
  "Wait now evs rl = WaitN 1 now evs rl"

subsection \<open>Facts about the bucket\<close>

definition bucket_ok :: "RateLimiter \<Rightarrow> bool" where
  [inv_defs]: "bucket_ok rl \<longleftrightarrow> 0 \<le> rl_tokens rl \<and> rl_tokens rl \<le> of_int (rl_capacity rl) \<and> 0 \<le> rl_rate rl"

lemma refill_simps [simp]:
  "rl_rate (refill now rl) = rl_rate rl" "rl_capacity (refill now rl) = rl_capacity rl"
  "rl_lastRefill (refill now rl) = now"
  by (simp_all add: refill_def Let_def)

lemma AllowN_frame [simp]:
  "rl_rate (snd (AllowN now n rl)) = rl_rate rl"
  "rl_capacity (snd (AllowN now n rl)) = rl_capacity rl"
  "rl_lastRefill (snd (AllowN now n rl)) = now"
  by (simp_all add: AllowN_def Let_def)

lemma refill_bounds:
  assumes "bucket_ok rl" "rl_lastRefill rl \<le> now"
  shows "bucket_ok (refill now rl)"
    and "rl_tokens rl \<le> rl_tokens (refill now rl)"
    and "rl_tokens (refill now rl) \<le> rl_tokens rl + Seconds (now - rl_lastRefill rl) * rl_rate rl"
proof -
  have "0 \<le> Seconds (now - rl_lastRefill rl) * rl_rate rl"
    using assms by (simp add: Seconds_def bucket_ok_def)
  then show "bucket_ok (refill now rl)" "rl_tokens rl \<le> rl_tokens (refill now rl)"
    "rl_tokens (refill now rl) \<le> rl_tokens rl + Seconds (now - rl_lastRefill rl) * rl_rate rl"
    using assms by (auto simp: bucket_ok_def refill_def Let_def)
qed

lemma AllowN_ok:
  assumes "bucket_ok rl" "rl_lastRefill rl \<le> now" "0 \<le> n"
  shows "bucket_ok (snd (AllowN now n rl))"
  using refill_bounds(1) [OF assms(1,2)] assms(3)
  by (auto simp: AllowN_def Let_def bucket_ok_def)

text \<open>What a request gets and what it leaves never exceed what was there and what has flowed in.\<close>

lemma AllowN_conserves:
  assumes "bucket_ok rl" "rl_lastRefill rl \<le> now"
  shows "(if fst (AllowN now n rl) then of_int n else 0) + rl_tokens (snd (AllowN now n rl))
     \<le> rl_tokens rl + Seconds (now - rl_lastRefill rl) * rl_rate rl"
  using refill_bounds(3) [OF assms] by (simp add: AllowN_def Let_def)

text \<open>A sequence of requests, each at a time, and the tokens granted to them.\<close>

fun granted :: "(time \<times> int) list \<Rightarrow> RateLimiter \<Rightarrow> int \<times> RateLimiter" where
  "granted [] rl = (0, rl)"
| "granted ((t, n) # qs) rl =
     (let (ok, rl') = AllowN t n rl; (g, rl'') = granted qs rl'
      in ((if ok then n else 0) + g, rl''))"

fun ordered_requests :: "time \<Rightarrow> (time \<times> int) list \<Rightarrow> bool" where
  "ordered_requests t0 [] \<longleftrightarrow> True"
| "ordered_requests t0 ((t, n) # qs) \<longleftrightarrow> t0 \<le> t \<and> 0 \<le> n \<and> ordered_requests t qs"

lemma Seconds_diff: "Seconds (b - a) + Seconds (c - b) = Seconds (c - a)"
  by (simp add: Seconds_def add_divide_distrib [symmetric])

lemma granted_conserves:
  "bucket_ok rl \<Longrightarrow> ordered_requests (rl_lastRefill rl) qs \<Longrightarrow>
   of_int (fst (granted qs rl)) + rl_tokens (snd (granted qs rl))
     \<le> rl_tokens rl + Seconds (rl_lastRefill (snd (granted qs rl)) - rl_lastRefill rl) * rl_rate rl \<and>
   bucket_ok (snd (granted qs rl)) \<and> rl_lastRefill rl \<le> rl_lastRefill (snd (granted qs rl)) \<and>
   rl_rate (snd (granted qs rl)) = rl_rate rl"
proof (induction qs arbitrary: rl)
  case Nil
  then show ?case by (simp add: Seconds_def)
next
  case (Cons q qs)
  obtain t n where q: "q = (t, n)" by fastforce
  obtain ok rl' where a: "AllowN t n rl = (ok, rl')" by fastforce
  obtain g rl'' where g: "granted qs rl' = (g, rl'')" by fastforce
  have pre: "rl_lastRefill rl \<le> t" "0 \<le> n" "ordered_requests t qs" using Cons.prems(2) q by simp_all
  have ok': "bucket_ok rl'" "rl_lastRefill rl' = t" "rl_rate rl' = rl_rate rl"
    using AllowN_ok [OF Cons.prems(1) pre(1,2)] AllowN_frame [of t n rl] a by simp_all
  have c: "(if ok then of_int n else 0) + rl_tokens rl'
      \<le> rl_tokens rl + Seconds (t - rl_lastRefill rl) * rl_rate rl"
    using AllowN_conserves [OF Cons.prems(1) pre(1), of n] a by simp
  have ih: "of_int g + rl_tokens rl'' \<le> rl_tokens rl' + Seconds (rl_lastRefill rl'' - t) * rl_rate rl"
    "bucket_ok rl''" "t \<le> rl_lastRefill rl''" "rl_rate rl'' = rl_rate rl"
    using Cons.IH [OF ok'(1)] pre(3) ok' g by simp_all
  have "Seconds (t - rl_lastRefill rl) * rl_rate rl + Seconds (rl_lastRefill rl'' - t) * rl_rate rl
      = Seconds (rl_lastRefill rl'' - rl_lastRefill rl) * rl_rate rl"
    by (simp add: Seconds_diff [of t "rl_lastRefill rl" "rl_lastRefill rl''", symmetric] distrib_right)
  with c ih(1) have "(if ok then of_int n else 0) + of_int g + rl_tokens rl''
      \<le> rl_tokens rl + Seconds (rl_lastRefill rl'' - rl_lastRefill rl) * rl_rate rl" by linarith
  then have "of_int ((if ok then n else 0) + g) + rl_tokens rl''
      \<le> rl_tokens rl + Seconds (rl_lastRefill rl'' - rl_lastRefill rl) * rl_rate rl" by (cases ok) simp_all
  with ih(2-4) pre(1) show ?case by (simp add: q a g Let_def)
qed

lemma granted_capacity: "rl_capacity (snd (granted qs rl)) = rl_capacity rl"
proof (induction qs arbitrary: rl)
  case (Cons q qs)
  obtain t n where q: "q = (t, n)" by fastforce
  obtain ok rl' where a: "AllowN t n rl = (ok, rl')" by fastforce
  have "rl_capacity rl' = rl_capacity rl" using AllowN_frame(2) [of t n rl] a by simp
  with Cons [of rl'] show ?case by (cases "granted qs rl'") (simp add: q a Let_def)
qed simp

lemma waitN_wakes:
  assumes "bucket_ok rl" "rl_lastRefill rl \<le> now" "now \<le> t" "n \<le> rl_capacity rl" "0 \<le> n"
    and "of_int n \<le> rl_tokens (snd (AllowN now n rl)) + Seconds (t - now) * rl_rate rl"
  shows "fst (waitN_loop n now (Woken t # evs) rl ws) = Some None"
proof (cases "fst (AllowN now n rl)")
  case True
  then show ?thesis by (subst waitN_loop.simps) (auto split: prod.splits)
next
  case False
  let ?rl = "snd (AllowN now n rl)"
  have "of_int n \<le> rl_tokens (refill t ?rl)"
    using assms(4,6) by (simp add: refill_def Let_def)
  then have "fst (AllowN t n ?rl)" by (simp add: AllowN_def Let_def)
  then have "fst (waitN_loop n t evs ?rl ws') = Some None" for ws'
    by (subst waitN_loop.simps) (auto split: prod.splits)
  with False show ?thesis
    by (subst waitN_loop.simps) (auto simp: Let_def split: prod.splits)
qed

section \<open>The bulkhead\<close>

record Bulkhead =
  bh_name :: string
  bh_maxConcurrent :: nat
  bh_semaphore :: nat
  bh_active :: i32
  bh_rejected :: u64
  bh_completed :: u64

definition NewBulkhead :: "string \<Rightarrow> nat \<Rightarrow> Bulkhead" where
  "NewBulkhead name maxConcurrent =
     \<lparr>bh_name = name, bh_maxConcurrent = maxConcurrent, bh_semaphore = 0, bh_active = 0,
      bh_rejected = 0, bh_completed = 0\<rparr>"

text \<open>
  The \<^verbatim>\<open>select\<close> of \<^verbatim>\<open>Execute\<close>: \<open>ctx\<close> is the error of the context if it is done, and \<open>pick\<close> is the
  choice that Go makes at random when both the slot and the context are ready.
\<close>

definition bh_enter :: "result \<Rightarrow> bool \<Rightarrow> Bulkhead \<Rightarrow> result \<times> Bulkhead" where
  "bh_enter ctx pick b =
     (if bh_semaphore b < bh_maxConcurrent b \<and> (ctx = None \<or> pick)
      then (None, b\<lparr>bh_semaphore := Suc (bh_semaphore b), bh_active := bh_active b + 1\<rparr>)
      else (case ctx of
              Some ce \<Rightarrow>
                (Some (Errorf [Lit ''bulkhead '', Lit [CHR 0x27], Str (bh_name b), Lit [CHR 0x27],
                   Lit '' context canceled: '', Wrap ce]),
                 b\<lparr>bh_rejected := bh_rejected b + 1\<rparr>)
            | None \<Rightarrow>
                (Some (Errorf [Wrap (Sentinel ErrBulkheadFull), Lit '': '', Str (bh_name b), Lit '' ('',
                   Num (int (bh_maxConcurrent b)), Lit ''/'', Num (int (bh_maxConcurrent b)), Lit '')'']),
                 b\<lparr>bh_rejected := bh_rejected b + 1\<rparr>)))"

text \<open>The deferred function that releases the slot.\<close>

definition bh_leave :: "Bulkhead \<Rightarrow> Bulkhead" where
  "bh_leave b = b\<lparr>bh_semaphore := bh_semaphore b - 1, bh_active := bh_active b - 1,
                  bh_completed := bh_completed b + 1\<rparr>"

text \<open>The function may itself change the bulkhead, as other callers run meanwhile.\<close>

definition bh_Execute ::
  "result \<Rightarrow> bool \<Rightarrow> (Bulkhead \<times> 's \<Rightarrow> result \<times> Bulkhead \<times> 's) \<Rightarrow> Bulkhead \<times> 's \<Rightarrow>
   result \<times> Bulkhead \<times> 's" where
  "bh_Execute ctx pick fn bs =
     (case bh_enter ctx pick (fst bs) of
        (Some e, b) \<Rightarrow> (Some e, b, snd bs)
      | (None, b) \<Rightarrow> let (err, b', s') = fn (b, snd bs) in (err, bh_leave b', s'))"

definition bh_GetMetrics :: "Bulkhead \<Rightarrow> (string \<times> metric) list" where
  "bh_GetMetrics b =
     [(''name'', MStr (bh_name b)), (''max_concurrent'', MInt (int (bh_maxConcurrent b))),
      (''active'', MInt (sint (bh_active b))), (''rejected'', MInt (uint (bh_rejected b))),
      (''completed'', MInt (uint (bh_completed b)))]"

interpretation bh: slot_pool bh_semaphore bh_maxConcurrent
  "\<lambda>b. (case bh_enter None False b of (None, b') \<Rightarrow> Some b' | (Some _, _) \<Rightarrow> None)" bh_leave
  by unfold_locales (auto simp: bh_enter_def bh_leave_def split: if_splits)

text \<open>The steps of the callers of one bulkhead; a caller leaves only after it has entered.\<close>

datatype bh_event = Enter result bool | Leave

fun bh_step :: "bh_event \<Rightarrow> Bulkhead \<Rightarrow> Bulkhead" where
  "bh_step (Enter ctx pick) b = snd (bh_enter ctx pick b)"
| "bh_step Leave b = (if 0 < bh_semaphore b then bh_leave b else b)"

definition bh_ok :: "nat \<Rightarrow> Bulkhead \<Rightarrow> bool" where
  [inv_defs]: "bh_ok n b \<longleftrightarrow> bh_maxConcurrent b = n \<and> bh_semaphore b \<le> n \<and>
     bh_active b = of_nat (bh_semaphore b)"

lemma bh_step_ok: "bh_ok n b \<Longrightarrow> bh_ok n (bh_step ev b)"
  by (cases ev) (auto simp: bh_ok_def bh_enter_def bh_leave_def of_nat_diff split: option.splits)

interpretation bhm: machine "NewBulkhead name n" bh_step "bh_ok n" for name n
  by unfold_locales (simp_all add: bh_step_ok, simp add: bh_ok_def NewBulkhead_def)

section \<open>Properties\<close>

text \<open>(token_bucket_bound): over any sequence of requests at increasing times the tokens granted never
  exceed the capacity plus what the rate has refilled since the bucket was created.\<close>

theorem token_bucket_bound:
  assumes "0 \<le> rt" "0 \<le> capacity" "ordered_requests t0 qs"
  shows "let (g, rl) = granted qs (NewRateLimiter t0 rt capacity) in
     of_int g \<le> of_int capacity + Seconds (rl_lastRefill rl - t0) * rt \<and>
     0 \<le> rl_tokens rl \<and> rl_tokens rl \<le> of_int capacity"
proof -
  let ?rl = "NewRateLimiter t0 rt capacity"
  have ok: "bucket_ok ?rl" "rl_lastRefill ?rl = t0" "rl_tokens ?rl = of_int capacity" "rl_rate ?rl = rt"
    using assms by (simp_all add: bucket_ok_def NewRateLimiter_def)
  obtain g rl where g: "granted qs ?rl = (g, rl)" by fastforce
  have "rl_capacity rl = capacity" using granted_capacity [of qs ?rl] g by (simp add: NewRateLimiter_def)
  moreover have "of_int g + rl_tokens rl \<le> of_int capacity + Seconds (rl_lastRefill rl - t0) * rt \<and> bucket_ok rl"
    using granted_conserves [OF ok(1), of qs] ok(2-4) assms(3) g by simp
  ultimately show ?thesis using g by (auto simp: bucket_ok_def)
qed

theorem token_bucket_bound_witness:
  "real_of_int (fst (granted [(0, 1), (0, 1), (second, 1)] (NewRateLimiter 0 1 1))) \<le> 2"
  using token_bucket_bound [of 1 1 0 "[(0, 1), (0, 1), (second, 1)]"]
  by (simp add: NewRateLimiter_def AllowN_def refill_def Seconds_def Let_def)

text \<open>(wait_grants_after_refill): \<^verbatim>\<open>WaitN\<close> rejects a request above the capacity at once, and a request
  within it returns nil on the first wake-up by which the missing tokens have been refilled.\<close>

theorem wait_grants_after_refill:
  "(rl_capacity rl < n \<longrightarrow> WaitN n now evs rl = (Some (Some (Sentinel ErrTokensExceedCapacity)), rl, [])) \<and>
   (bucket_ok rl \<and> rl_lastRefill rl \<le> now \<and> now \<le> t \<and> 0 \<le> n \<and> n \<le> rl_capacity rl \<and>
    of_int n \<le> rl_tokens (snd (AllowN now n rl)) + Seconds (t - now) * rl_rate rl \<longrightarrow>
      fst (WaitN n now (Woken t # evs) rl) = Some None)"
  using waitN_wakes [of rl now t n evs "[]"] by (auto simp: WaitN_def)

theorem wait_grants_after_refill_witness:
  "fst (WaitN 1 0 [Woken (2 * second)] ((NewRateLimiter 0 1 1)\<lparr>rl_tokens := 0\<rparr>)) = Some None"
  using wait_grants_after_refill [of "(NewRateLimiter 0 1 1)\<lparr>rl_tokens := 0\<rparr>" 1 0 "[]" "2 * second"]
  by (simp add: NewRateLimiter_def bucket_ok_def AllowN_def refill_def Seconds_def Let_def)

text \<open>(bulkhead_bound): however its callers interleave, a bulkhead never has more than
  \<^verbatim>\<open>maxConcurrent\<close> calls in flight, its gauge equals the number of slots taken, and a caller is
  turned away with \<^verbatim>\<open>ErrBulkheadFull\<close> exactly when every slot is taken.\<close>

theorem bulkhead_bound:
  "let b = fold bh_step evs (NewBulkhead name n) in
     bh_semaphore b \<le> n \<and> bh_active b = of_nat (bh_semaphore b) \<and>
     (fst (bh_enter None pick b) = None \<longleftrightarrow> bh_semaphore b < n) \<and>
     (err_is (fst (bh_enter None pick b)) ErrBulkheadFull \<longleftrightarrow> bh_semaphore b = n)"
proof -
  let ?b = "fold bh_step evs (NewBulkhead name n)"
  have "bh_ok n ?b" by (rule bhm.ok_run)
  then show ?thesis by (auto simp: bh_ok_def bh_enter_def Let_def)
qed

end
