(* ===== verification/ResilientJob.thy ===== *)
theory ResilientJob
  imports Resilience RateLimits
begin

text \<open>
  The resilient job executor (\<^verbatim>\<open>src/core/resilient_job.go\<close>): a job run behind the rate limiter, the
  bulkhead, the circuit breaker and \<^verbatim>\<open>Retry\<close>, in this order. The job is a function on a state
  \<open>'s\<close>. The context of \<^verbatim>\<open>Execute\<close> is created by the call, so it is not yet done when the
  bulkhead looks at it. The recorder of metrics is the list of the calls it got.
\<close>

record ResilientJobExecutor =
  rje_name :: string
  rje_retryPolicy :: "RetryPolicy option"
  rje_circuitBreaker :: CircuitBreaker
  rje_rateLimiter :: RateLimiter
  rje_bulkhead :: Bulkhead
  rje_metrics :: "(string \<times> metric) list option"

text \<open>The predicate \<^verbatim>\<open>RetryableErrors\<close> of the policy of a resilient job.\<close>

definition job_retryable :: "go_error \<Rightarrow> bool" where
  "job_retryable err \<longleftrightarrow>
     (if errors_Is err ContextCanceled then False
      else if errors_Is err ErrSkippedExecution then False
      else if Contains (err_msg err) ''404'' \<or> Contains (err_msg err) ''not found'' then False
      else if Contains (err_msg err) ''400'' \<or> Contains (err_msg err) ''invalid'' then False
      else True)"

definition NewResilientJobExecutor :: "time \<Rightarrow> string \<Rightarrow> ResilientJobExecutor" where
  "NewResilientJobExecutor now jobName =
     \<lparr>rje_name = jobName,
      rje_retryPolicy = Some \<lparr>rp_MaxAttempts = 3, rp_InitialDelay = 2 * second, rp_MaxDelay = 60 * second,
        rp_BackoffFactor = 2, rp_JitterFactor = 1 / 10, rp_RetryableErrors = job_retryable\<rparr>,
      rje_circuitBreaker = NewCircuitBreaker (''job_'' @ jobName) 5 (30 * second),
      rje_rateLimiter = NewRateLimiter now 1 10,
      rje_bulkhead = NewBulkhead (''job_'' @ jobName) 3,
      rje_metrics = None\<rparr>"

definition executeJob :: "string \<Rightarrow> ('s \<Rightarrow> result \<times> 's) \<Rightarrow> 's \<Rightarrow> result \<times> 's" where
  "executeJob name job s =
     (case job s of
        (Some e, s') \<Rightarrow>
          (Some (Errorf [Lit ''resilient job '', Str name, Lit '' execution failed: '', Wrap e]), s')
      | (None, s') \<Rightarrow> (None, s'))"

definition recordMetrics :: "bool \<Rightarrow> ResilientJobExecutor \<Rightarrow> ResilientJobExecutor" where
  "recordMetrics success r =
     (case rje_metrics r of
        None \<Rightarrow> r
      | Some ms \<Rightarrow>
          r\<lparr>rje_metrics := Some (ms @
              [(''job.'' @ rje_name r @ ''.last_execution'', MInt (if success then 1 else 0))] @
              map (\<lambda>(k, v). (''circuit_breaker.'' @ k, v)) (cb_GetMetrics (rje_circuitBreaker r)) @
              map (\<lambda>(k, v). (''bulkhead.'' @ k, v)) (bh_GetMetrics (rje_bulkhead r)))\<rparr>)"

text \<open>The times of the clock reads of one call: at the limiter and around the guarded function.\<close>

record call_times =
  ct_limiter :: time
  ct_before :: time
  ct_after :: time
  ct_env :: wait_env

definition guarded_call ::
  "call_times \<Rightarrow> ResilientJobExecutor \<Rightarrow> ('s \<Rightarrow> result \<times> 's) \<Rightarrow> CircuitBreaker \<times> 's \<Rightarrow>
   result \<times> CircuitBreaker \<times> 's" where
  "guarded_call ct r job =
     cb_Execute (ct_before ct) (ct_after ct)
       (\<lambda>s. let (err, s', _) = Retry (ct_env ct) (rje_retryPolicy r) (executeJob (rje_name r) job) s
             in (err, s'))"

definition rje_Execute ::
  "call_times \<Rightarrow> ('s \<Rightarrow> result \<times> 's) \<Rightarrow> ResilientJobExecutor \<times> 's \<Rightarrow>
   result \<times> ResilientJobExecutor \<times> 's" where
  "rje_Execute ct job rs =
     (let (r, s) = rs; (ok, rl) = Allow (ct_limiter ct) (rje_rateLimiter r);
          r1 = r\<lparr>rje_rateLimiter := rl\<rparr>
      in if \<not> ok
         then (Some (Errorf [Wrap (Sentinel ErrRateLimitExceeded), Lit '': '', Str (rje_name r)]), r1, s)
         else
           let (err, bh, cb, s') =
                 bh_Execute None False
                   (\<lambda>(b, cb, s). let (err, cb', s') = guarded_call ct r1 job (cb, s) in (err, b, cb', s'))
                   (rje_bulkhead r1, rje_circuitBreaker r1, s);
               r2 = r1\<lparr>rje_bulkhead := bh, rje_circuitBreaker := cb\<rparr>
           in (err, recordMetrics (err = None) r2, s'))"

definition SetRetryPolicy :: "RetryPolicy option \<Rightarrow> ResilientJobExecutor \<Rightarrow> ResilientJobExecutor" where
  "SetRetryPolicy policy r = r\<lparr>rje_retryPolicy := policy\<rparr>"

definition SetCircuitBreaker :: "CircuitBreaker \<Rightarrow> ResilientJobExecutor \<Rightarrow> ResilientJobExecutor" where
  "SetCircuitBreaker cb r = r\<lparr>rje_circuitBreaker := cb\<rparr>"

definition SetRateLimiter :: "RateLimiter \<Rightarrow> ResilientJobExecutor \<Rightarrow> ResilientJobExecutor" where
  "SetRateLimiter rl r = r\<lparr>rje_rateLimiter := rl\<rparr>"

definition SetBulkhead :: "Bulkhead \<Rightarrow> ResilientJobExecutor \<Rightarrow> ResilientJobExecutor" where
  "SetBulkhead bh r = r\<lparr>rje_bulkhead := bh\<rparr>"

definition rje_SetMetricsRecorder ::
  "(string \<times> metric) list option \<Rightarrow> ResilientJobExecutor \<Rightarrow> ResilientJobExecutor" where
  "rje_SetMetricsRecorder m r = r\<lparr>rje_metrics := m\<rparr>"

definition GetCircuitBreakerState :: "ResilientJobExecutor \<Rightarrow> CircuitBreakerState" where
  "GetCircuitBreakerState r = cb_GetState (rje_circuitBreaker r)"

definition ResetCircuitBreaker :: "ResilientJobExecutor \<Rightarrow> ResilientJobExecutor" where
  "ResetCircuitBreaker r = r\<lparr>rje_circuitBreaker := transitionToClosed (rje_circuitBreaker r)\<rparr>"

section \<open>Facts\<close>

lemma recordMetrics_frame [simp]:
  "rje_bulkhead (recordMetrics ok r) = rje_bulkhead r"
  "rje_circuitBreaker (recordMetrics ok r) = rje_circuitBreaker r"
  "rje_rateLimiter (recordMetrics ok r) = rje_rateLimiter r"
  "rje_name (recordMetrics ok r) = rje_name r"
  by (simp_all add: recordMetrics_def split: option.splits)

lemma executeJob_calls:
  "(\<And>s. cnt (snd (job s)) = Suc (cnt s)) \<Longrightarrow> cnt (snd (executeJob name job s)) = Suc (cnt s)"
  by (auto simp: executeJob_def split: prod.splits option.splits) (metis snd_conv)+

lemma job_retryable_wrap:
  "errors_Is e ErrSkippedExecution \<or> errors_Is e ContextCanceled \<Longrightarrow>
   \<not> job_retryable (Errorf [Lit a, Str n, Lit b, Wrap e])"
  by (auto simp: job_retryable_def)

lemma Contains_append: "Contains t sub \<Longrightarrow> Contains (s @ t) sub"
  by (auto simp: Contains_iff) (metis append.assoc)

lemma job_retryable_message:
  assumes "Contains (err_msg e) p" "p \<in> {''404'', ''not found'', ''400'', ''invalid''}"
  shows "\<not> job_retryable (Errorf [Lit a, Str n, Lit b, Wrap e])"
proof -
  have "Contains (err_msg (Errorf [Lit a, Str n, Lit b, Wrap e])) p"
    using assms(1) by (simp add: Contains_append)
  with assms(2) show ?thesis unfolding job_retryable_def by (elim insertE) auto
qed

text \<open>Whatever the breaker decides, the job is called at most as often as the policy allows.\<close>

lemma guarded_call_calls:
  assumes "\<And>s. cnt (snd (job s)) = Suc (cnt s)"
  shows "cnt (snd (snd (guarded_call ct (r\<lparr>rje_retryPolicy := Some p\<rparr>) job (cb, s))))
     \<le> cnt s + nat (rp_MaxAttempts p)"
proof -
  let ?fn = "executeJob (rje_name r) job"
  have c: "cnt (fst (snd (policy_loop (ct_env ct) p ?fn 1 (rp_InitialDelay p) None s [])))
      \<le> cnt s + (nat (rp_MaxAttempts p + 1) - 1)"
    by (rule policy_loop_calls) (rule executeJob_calls [where cnt = cnt and job = job, OF assms])
  then show ?thesis
    by (auto simp: guarded_call_def cb_Execute_def Retry_def Let_def split: prod.splits option.splits)
qed

lemma guarded_call_rejected:
  assumes "fst (beforeCall (ct_before ct) cb) = Some e"
  shows "guarded_call ct r job (cb, s) = (Some e, snd (beforeCall (ct_before ct) cb), s)"
  using assms by (cases "beforeCall (ct_before ct) cb") (simp add: guarded_call_def cb_Execute_def)

text \<open>The three outcomes of a call: rate limited, bulkhead full, and the guarded call.\<close>

lemma rje_limited:
  assumes "\<not> fst (Allow (ct_limiter ct) (rje_rateLimiter r))"
  shows "rje_Execute ct job (r, s) =
     (Some (Errorf [Wrap (Sentinel ErrRateLimitExceeded), Lit '': '', Str (rje_name r)]),
      r\<lparr>rje_rateLimiter := snd (Allow (ct_limiter ct) (rje_rateLimiter r))\<rparr>, s)"
  using assms
  by (cases "Allow (ct_limiter ct) (rje_rateLimiter r)") (simp add: rje_Execute_def Let_def)

lemma rje_full:
  assumes "fst (Allow (ct_limiter ct) (rje_rateLimiter r))"
    "bh_enter None False (rje_bulkhead r) = (Some e, b)"
  shows "rje_Execute ct job (r, s) =
     (Some e, recordMetrics False (r\<lparr>rje_rateLimiter := snd (Allow (ct_limiter ct) (rje_rateLimiter r)),
        rje_bulkhead := b\<rparr>), s)"
  using assms
  by (cases "Allow (ct_limiter ct) (rje_rateLimiter r)")
     (simp add: rje_Execute_def bh_Execute_def Let_def)

lemma rje_admitted:
  assumes "fst (Allow (ct_limiter ct) (rje_rateLimiter r))"
    "bh_enter None False (rje_bulkhead r) = (None, b)"
    "guarded_call ct r job (rje_circuitBreaker r, s) = (err, cb, s')"
  shows "rje_Execute ct job (r, s) =
     (err, recordMetrics (err = None)
        (r\<lparr>rje_rateLimiter := snd (Allow (ct_limiter ct) (rje_rateLimiter r)),
           rje_bulkhead := bh_leave b, rje_circuitBreaker := cb\<rparr>), s')"
proof -
  have "guarded_call ct (r\<lparr>rje_rateLimiter := x\<rparr>) job = guarded_call ct r job" for x
    by (simp add: guarded_call_def)
  with assms show ?thesis
    by (cases "Allow (ct_limiter ct) (rje_rateLimiter r)")
       (simp add: rje_Execute_def bh_Execute_def Let_def)
qed

section \<open>Properties\<close>

text \<open>(resilient_call_bounded): one call of the executor runs the job at most \<^verbatim>\<open>MaxAttempts\<close> times and
  leaves the number of taken bulkhead slots as it was; it does not run the job at all when the
  rate limit is exceeded, when the bulkhead is full or when the breaker rejects the call.\<close>

theorem resilient_call_bounded:
  assumes "\<And>s. cnt (snd (job s)) = Suc (cnt s)" "rje_retryPolicy r = Some p"
  shows "let (err, r', s') = rje_Execute ct job (r, s) in
     cnt s' \<le> cnt s + nat (rp_MaxAttempts p) \<and>
     bh_semaphore (rje_bulkhead r') = bh_semaphore (rje_bulkhead r) \<and>
     (\<not> fst (Allow (ct_limiter ct) (rje_rateLimiter r)) \<longrightarrow> s' = s \<and> err_is err ErrRateLimitExceeded) \<and>
     (bh_maxConcurrent (rje_bulkhead r) \<le> bh_semaphore (rje_bulkhead r) \<longrightarrow> s' = s \<and> err \<noteq> None) \<and>
     (fst (beforeCall (ct_before ct) (rje_circuitBreaker r)) \<noteq> None \<longrightarrow> s' = s \<and> err \<noteq> None)"
proof (cases "fst (Allow (ct_limiter ct) (rje_rateLimiter r))")
  case False
  then show ?thesis by (simp add: rje_limited)
next
  case ok: True
  obtain e b where en: "bh_enter None False (rje_bulkhead r) = (e, b)" by fastforce
  show ?thesis
  proof (cases e)
    case (Some err)
    moreover have "bh_semaphore b = bh_semaphore (rje_bulkhead r)"
      using en Some by (auto simp: bh_enter_def split: if_splits)
    ultimately show ?thesis using ok en by (simp add: rje_full)
  next
    case None
    obtain err cb s' where g: "guarded_call ct r job (rje_circuitBreaker r, s) = (err, cb, s')"
      by (metis prod_cases3)
    have b: "bh_semaphore b = Suc (bh_semaphore (rje_bulkhead r))"
      "bh_semaphore (rje_bulkhead r) < bh_maxConcurrent (rje_bulkhead r)"
      using en None by (auto simp: bh_enter_def split: if_splits)
    have r: "r = r\<lparr>rje_retryPolicy := Some p\<rparr>" using assms(2) by simp
    have "cnt s' \<le> cnt s + nat (rp_MaxAttempts p)"
      using guarded_call_calls [where cnt = cnt and job = job and p = p and r = r and s = s and ct = ct, OF assms(1)] g
      by (metis r snd_conv)
    moreover have "s' = s \<and> err \<noteq> None" if "fst (beforeCall (ct_before ct) (rje_circuitBreaker r)) \<noteq> None"
      using that guarded_call_rejected [of ct "rje_circuitBreaker r" _ r job s] g by auto
    ultimately show ?thesis
      using ok rje_admitted [of ct r b job s err cb s'] en None g b by (simp add: bh_leave_def)
  qed
qed

definition plain_times :: call_times where
  "plain_times = \<lparr>ct_limiter = 5, ct_before = 6, ct_after = 9, ct_env = steady_env\<rparr>"

theorem resilient_call_bounded_witness:
  "snd (snd (rje_Execute plain_times (\<lambda>n :: nat. (Some (Opaque 0 ''refused''), Suc n))
     (NewResilientJobExecutor 0 ''j'', 0))) \<le> 3"
  using resilient_call_bounded [of id "\<lambda>n :: nat. (Some (Opaque 0 ''refused''), Suc n)"
      "NewResilientJobExecutor 0 ''j''" _ plain_times 0]
  by (auto simp: NewResilientJobExecutor_def Let_def split: prod.splits)

text \<open>(permanent_errors_not_retried): an error of the job that wraps a skip or a cancellation, or
  whose message says that something is not found or invalid, is not retried: the executor
  created for a job calls it once.\<close>

theorem permanent_errors_not_retried:
  assumes "job s = (Some e, s')"
    and "errors_Is e ErrSkippedExecution \<or> errors_Is e ContextCanceled \<or>
       (\<exists>p \<in> {''404'', ''not found'', ''400'', ''invalid''}. Contains (err_msg e) p)"
  shows "let r = NewResilientJobExecutor now name;
             (err, t, sleeps) = Retry env (rje_retryPolicy r) (executeJob (rje_name r) job) s in
     t = s' \<and> sleeps = [] \<and> err \<noteq> None"
proof -
  let ?e = "Errorf [Lit ''resilient job '', Str name, Lit '' execution failed: '', Wrap e]"
  have nr: "\<not> job_retryable ?e"
    using assms(2) job_retryable_wrap job_retryable_message by blast
  have "executeJob name job s = (Some ?e, s')" using assms(1) by (simp add: executeJob_def)
  then show ?thesis
    unfolding NewResilientJobExecutor_def Retry_def Let_def
    by (subst policy_loop.simps) (simp add: nr del: err_msg.simps)
qed

theorem permanent_errors_not_retried_witness:
  "let (err, t, sleeps) = Retry steady_env (rje_retryPolicy (NewResilientJobExecutor 0 ''j''))
      (executeJob ''j'' (\<lambda>n :: nat. (Some (Sentinel ErrImageNotFound), Suc n))) 0 in t = 1"
proof -
  have "Contains (err_msg (Sentinel ErrImageNotFound)) ''not found''"
    by (simp add: HasPrefix_def)
  then show ?thesis
    using permanent_errors_not_retried [of "\<lambda>n :: nat. (Some (Sentinel ErrImageNotFound), Suc n)" 0
        "Sentinel ErrImageNotFound" 1 0 "''j''" steady_env]
    by (simp add: NewResilientJobExecutor_def Let_def split: prod.splits)
qed

end
