(* ===== verification/Shutdown.thy ===== *)
theory Shutdown
  imports GoError "HOL-Library.Multiset"
begin

text \<open>
  Graceful shutdown (\<^verbatim>\<open>src/core/shutdown.go\<close>). The hooks are kept sorted by an insertion from the
  end; \<^verbatim>\<open>Shutdown\<close> groups them by priority and runs the hooks of a group concurrently, one group
  after the other. The run is a step relation: the hooks of the current group start and finish
  in any order, the timeout may strike from the moment the first group is launched (also when a
  group has just finished, since the \<^verbatim>\<open>select\<close> may pick either channel), and the next group starts
  when every hook of the current one has finished. What a hook returns is left open.

  \<^verbatim>\<open>RunJobWithTracking\<close> and \<^verbatim>\<open>gracefulStop\<close> of \<^verbatim>\<open>GracefulScheduler\<close> are the steps of a second
  relation, with the wait group and the goroutines that really run a job.
\<close>

section \<open>The manager\<close>

text \<open>The function of a hook is given by an identity.\<close>

record ShutdownHook =
  h_Name :: string
  h_Priority :: int
  h_Hook :: nat

record ShutdownManager =
  sm_timeout :: duration
  sm_hooks :: "ShutdownHook list"
  sm_isShuttingDown :: bool

definition NewShutdownManager :: "duration \<Rightarrow> ShutdownManager" where
  "NewShutdownManager timeout =
     \<lparr>sm_timeout = (if timeout \<le> 0 then 30 * second else timeout), sm_hooks = [], sm_isShuttingDown = False\<rparr>"

text \<open>The loop of \<^verbatim>\<open>RegisterHook\<close>: the element at index \<open>i\<close> moves towards the front.\<close>

fun bubble :: "ShutdownHook list \<Rightarrow> nat \<Rightarrow> ShutdownHook list" where
  "bubble hs 0 = hs"
| "bubble hs (Suc i) =
     (if h_Priority (hs ! i) \<le> h_Priority (hs ! Suc i) then hs
      else bubble (hs[Suc i := hs ! i, i := hs ! Suc i]) i)"

definition RegisterHook :: "ShutdownHook \<Rightarrow> ShutdownManager \<Rightarrow> ShutdownManager" where
  "RegisterHook hook sm = sm\<lparr>sm_hooks := bubble (sm_hooks sm @ [hook]) (length (sm_hooks sm))\<rparr>"

text \<open>The groups in the order in which they run.\<close>

definition add_to_group ::
  "ShutdownHook \<Rightarrow> (int \<rightharpoonup> ShutdownHook list) \<times> int list \<Rightarrow> (int \<rightharpoonup> ShutdownHook list) \<times> int list" where
  "add_to_group hook gp =
     (case gp of (groups, priorities) \<Rightarrow>
        (groups(h_Priority hook \<mapsto> (case groups (h_Priority hook) of None \<Rightarrow> [] | Some hs \<Rightarrow> hs) @ [hook]),
         if groups (h_Priority hook) = None then priorities @ [h_Priority hook] else priorities))"

definition hook_groups :: "ShutdownHook list \<Rightarrow> ShutdownHook list list" where
  "hook_groups hooks =
     (let (groups, priorities) = fold add_to_group hooks (Map.empty, [])
      in map (\<lambda>p. the (groups p)) (sort priorities))"

section \<open>The run of the hooks\<close>

datatype hook_event = Started ShutdownHook | Finished ShutdownHook result

record shutdown_run =
  sr_waiting :: "ShutdownHook list"
  sr_running :: "ShutdownHook list"
  sr_groups :: "ShutdownHook list list"
  sr_errors :: "go_error list"
  sr_trace :: "hook_event list"
  sr_result :: "result option"

text \<open>\<^verbatim>\<open>Shutdown\<close> up to its first wait; a second call returns at once.\<close>

definition shutdown_begin :: "ShutdownManager \<Rightarrow> ShutdownManager \<times> shutdown_run" where
  "shutdown_begin sm =
     (if sm_isShuttingDown sm
      then (sm, \<lparr>sr_waiting = [], sr_running = [], sr_groups = [], sr_errors = [], sr_trace = [],
                 sr_result = Some (Some (Sentinel ErrShutdownInProgress))\<rparr>)
      else (sm\<lparr>sm_isShuttingDown := True\<rparr>,
            \<lparr>sr_waiting = [], sr_running = [], sr_groups = hook_groups (sm_hooks sm), sr_errors = [],
             sr_trace = [], sr_result = None\<rparr>))"

definition shutdown_result :: "go_error list \<Rightarrow> result" where
  "shutdown_result errs =
     (if errs = [] then None
      else Some (Errorf [Wrap (Sentinel ErrShutdownTimeout), Lit '': '', Num (int (length errs)),
                         Lit '' errors occurred'']))"

inductive shutdown_step :: "shutdown_run \<Rightarrow> shutdown_run \<Rightarrow> bool" where
  launch_group:
    "sr_result s = None \<Longrightarrow> sr_waiting s = [] \<Longrightarrow> sr_running s = [] \<Longrightarrow> sr_groups s = g # gs \<Longrightarrow>
     shutdown_step s (s\<lparr>sr_waiting := g, sr_groups := gs\<rparr>)"
| hook_starts:
    "sr_result s = None \<Longrightarrow> h \<in> set (sr_waiting s) \<Longrightarrow>
     shutdown_step s (s\<lparr>sr_waiting := remove1 h (sr_waiting s), sr_running := h # sr_running s,
        sr_trace := sr_trace s @ [Started h]\<rparr>)"
| hook_succeeds:
    "sr_result s = None \<Longrightarrow> h \<in> set (sr_running s) \<Longrightarrow>
     shutdown_step s (s\<lparr>sr_running := remove1 h (sr_running s), sr_trace := sr_trace s @ [Finished h None]\<rparr>)"
| hook_fails:
    "sr_result s = None \<Longrightarrow> h \<in> set (sr_running s) \<Longrightarrow>
     shutdown_step s (s\<lparr>sr_running := remove1 h (sr_running s),
        sr_errors := sr_errors s @ [Errorf [Lit ''hook '', Str (h_Name h), Lit '': '', Wrap e]],
        sr_trace := sr_trace s @ [Finished h (Some e)]\<rparr>)"
| timed_out:
    "sr_result s = None \<Longrightarrow> sr_waiting s \<noteq> [] \<or> sr_trace s \<noteq> [] \<Longrightarrow>
     shutdown_step s (s\<lparr>sr_result := Some (Some (Sentinel ErrShutdownTimeout))\<rparr>)"
| all_done:
    "sr_result s = None \<Longrightarrow> sr_waiting s = [] \<Longrightarrow> sr_running s = [] \<Longrightarrow> sr_groups s = [] \<Longrightarrow>
     shutdown_step s (s\<lparr>sr_result := Some (shutdown_result (sr_errors s))\<rparr>)"

inductive_cases shutdown_stepE: "shutdown_step s s'"

section \<open>Registration keeps the hooks sorted\<close>

abbreviation prio_sorted :: "ShutdownHook list \<Rightarrow> bool" where
  "prio_sorted hs \<equiv> sorted (map h_Priority hs)"

text \<open>One insertion puts the hook behind the last one whose priority is not larger.\<close>

lemma bubble_insert:
  "prio_sorted xs \<Longrightarrow> bubble (xs @ h # ys) (length xs) =
     takeWhile (\<lambda>x. h_Priority x \<le> h_Priority h) xs @ h # dropWhile (\<lambda>x. h_Priority x \<le> h_Priority h) xs @ ys"
proof (induction xs arbitrary: ys rule: rev_induct)
  case (snoc x xs)
  let ?P = "\<lambda>x. h_Priority x \<le> h_Priority h"
  have at: "((xs @ [x]) @ h # ys) ! length xs = x" "((xs @ [x]) @ h # ys) ! Suc (length xs) = h"
    by (simp_all add: nth_append)
  show ?case
  proof (cases "?P x")
    case True
    then have "\<forall>y\<in>set (xs @ [x]). ?P y" using snoc.prems by (auto simp: sorted_append)
    then have "takeWhile ?P (xs @ [x]) = xs @ [x]" "dropWhile ?P (xs @ [x]) = []"
      by (simp_all only: takeWhile_eq_all_conv dropWhile_eq_Nil_conv)
    with True at show ?thesis by simp
  next
    case False
    have "((xs @ [x]) @ h # ys)[Suc (length xs) := x, length xs := h] = xs @ h # (x # ys)"
      by (simp add: list_update_append)
    moreover have "takeWhile ?P (xs @ [x]) = takeWhile ?P xs" "dropWhile ?P (xs @ [x]) = dropWhile ?P xs @ [x]"
      using False by (simp_all add: takeWhile_tail dropWhile_append)
    ultimately show ?thesis using snoc False at by (simp add: sorted_append)
  qed
qed simp

lemma sorted_insert_mid:
  assumes "sorted (map f (a @ b))" "\<forall>x\<in>set a. f x \<le> f h" "\<forall>x\<in>set b. f h < f x"
  shows "sorted (map f (a @ h # b))"
  using assms by (auto simp: sorted_append less_imp_le)

lemma filter_mset_or:
  "(\<And>x. \<not> (P x \<and> Q x)) \<Longrightarrow> filter_mset P M + filter_mset Q M = filter_mset (\<lambda>x. P x \<or> Q x) M"
  by (induction M) auto

lemma insert_behind:
  assumes "prio_sorted xs"
  shows "takeWhile (\<lambda>x. h_Priority x \<le> h_Priority h) xs @ h # dropWhile (\<lambda>x. h_Priority x \<le> h_Priority h) xs =
    sort_key h_Priority (xs @ [h])" (is "?l = _")
proof (rule properties_for_sort_key [symmetric])
  let ?P = "\<lambda>x. h_Priority x \<le> h_Priority h"
  have split: "xs = takeWhile ?P xs @ dropWhile ?P xs" by simp
  show "mset ?l = mset (xs @ [h])" by (subst (3) split) (simp only: mset_append mset.simps, simp)
  have gt: "h_Priority h < h_Priority x" if "x \<in> set (dropWhile ?P xs)" for x
  proof -
    have "dropWhile ?P xs \<noteq> []" using that by force
    then obtain d ds where d: "dropWhile ?P xs = d # ds" by (auto simp only: neq_Nil_conv)
    then have "\<not> ?P d" using hd_dropWhile [of ?P xs] by force
    moreover have "sorted (map h_Priority (d # ds))"
      using assms by (subst (asm) split) (simp only: map_append sorted_append d)
    ultimately show ?thesis using that by (auto simp only: d list.set) auto
  qed
  show "filter (\<lambda>x. h_Priority k = h_Priority x) ?l = filter (\<lambda>x. h_Priority k = h_Priority x) (xs @ [h])"
    if "k \<in> set ?l" for k
  proof (cases "h_Priority k = h_Priority h")
    case True
    then have "filter (\<lambda>x. h_Priority k = h_Priority x) (dropWhile ?P xs) = []"
      using gt by (fastforce simp: filter_empty_conv)
    moreover have "filter (\<lambda>x. h_Priority k = h_Priority x) xs =
        filter (\<lambda>x. h_Priority k = h_Priority x) (takeWhile ?P xs) @ filter (\<lambda>x. h_Priority k = h_Priority x) (dropWhile ?P xs)"
      by (metis filter_append takeWhile_dropWhile_id)
    ultimately show ?thesis using True by simp
  next
    case False
    then show ?thesis by simp (metis filter_append takeWhile_dropWhile_id)
  qed
  have "sorted (map h_Priority (takeWhile ?P xs @ dropWhile ?P xs))" using assms by simp
  moreover have "\<forall>x\<in>set (takeWhile ?P xs). ?P x" by (auto dest: set_takeWhileD)
  ultimately show "sorted (map h_Priority ?l)" using gt by (intro sorted_insert_mid) auto
qed

lemma sort_key_snoc: "sort_key f (sort_key f xs @ [x]) = sort_key f (xs @ [x])"
proof (rule properties_for_sort_key)
  show "filter (\<lambda>y. f k = f y) (sort_key f (xs @ [x])) = filter (\<lambda>y. f k = f y) (sort_key f xs @ [x])" for k
    using sort_key_stable [of f "f k"] by (simp add: eq_commute [of "f k"])
qed simp_all

lemma register_fold:
  "sm_hooks (fold RegisterHook hs (NewShutdownManager t)) = sort_key h_Priority hs"
proof (induction hs rule: rev_induct)
  case (snoc h hs)
  let ?xs = "sort_key h_Priority hs"
  have "sm_hooks (fold RegisterHook (hs @ [h]) (NewShutdownManager t)) = bubble (?xs @ [h]) (length ?xs)"
    using snoc by (simp add: RegisterHook_def [of h])
  also have "\<dots> = sort_key h_Priority (?xs @ [h])"
    using bubble_insert [of ?xs h "[]"] insert_behind [of ?xs h] by simp
  finally show ?case by (simp only: sort_key_snoc)
qed (simp add: NewShutdownManager_def)

section \<open>Groups\<close>

lemma fold_groups:
  assumes "fold add_to_group hs (g0, p0) = (g, p)" "distinct p0" "set p0 = dom g0"
  shows "distinct p \<and> set p = dom g \<and> set p = set p0 \<union> h_Priority ` set hs \<and>
    (\<forall>q\<in>set p. the (g q) = (if q \<in> dom g0 then the (g0 q) else []) @ filter (\<lambda>h. h_Priority h = q) hs)"
  using assms
proof (induction hs arbitrary: g0 p0)
  case Nil
  then show ?case by auto
next
  case (Cons h hs)
  obtain g1 p1 where s: "add_to_group h (g0, p0) = (g1, p1)" by fastforce
  have p1: "p1 = (if h_Priority h \<in> dom g0 then p0 else p0 @ [h_Priority h])"
    and g1: "g1 = g0(h_Priority h \<mapsto> (if h_Priority h \<in> dom g0 then the (g0 (h_Priority h)) else []) @ [h])"
    using s by (auto simp: add_to_group_def split: option.splits if_splits)
  have d: "distinct p1" "set p1 = dom g1" using Cons.prems(2,3) by (auto simp: p1 g1)
  have f: "fold add_to_group hs (g1, p1) = (g, p)" using Cons.prems(1) s by simp
  note ih = Cons.IH [OF f d]
  have "set p1 = insert (h_Priority h) (set p0)" using Cons.prems(3) by (auto simp: p1)
  with ih show ?case by (auto simp: g1)
qed

lemma hook_groups_eq:
  "hook_groups hs = map (\<lambda>q. filter (\<lambda>h. h_Priority h = q) hs) (sorted_list_of_set (h_Priority ` set hs))"
proof -
  obtain g p where f: "fold add_to_group hs (Map.empty, []) = (g, p)" by fastforce
  note g = fold_groups [OF f]
  have sp: "set p = h_Priority ` set hs" "distinct p" using g by auto
  have "sort p = sorted_list_of_set (h_Priority ` set hs)"
    using sorted_list_of_set.idem_if_sorted_distinct [of "sort p"] sp by simp
  moreover have "\<forall>q\<in>set p. the (g q) = filter (\<lambda>h. h_Priority h = q) hs" using g by simp
  then have "map (\<lambda>p. the (g p)) (sort p) = map (\<lambda>q. filter (\<lambda>h. h_Priority h = q) hs) (sort p)"
    by (intro map_cong) auto
  ultimately show ?thesis using f by (simp add: hook_groups_def)
qed

definition group_prio :: "ShutdownHook list \<Rightarrow> int" where
  "group_prio g = h_Priority (hd g)"

lemma hook_groups_ok:
  "sorted_wrt (<) (map group_prio (hook_groups hs)) \<and>
   (\<forall>g\<in>set (hook_groups hs). g \<noteq> [] \<and> (\<forall>h\<in>set g. h_Priority h = group_prio g)) \<and>
   set (concat (hook_groups hs)) = set hs \<and> mset (concat (hook_groups hs)) = mset hs"
proof -
  let ?ps = "sorted_list_of_set (h_Priority ` set hs)" and ?f = "\<lambda>q. filter (\<lambda>h. h_Priority h = q) hs"
  have q: "?f q \<noteq> [] \<and> h_Priority (hd (?f q)) = q" if "q \<in> set ?ps" for q
  proof -
    have "?f q \<noteq> []" using that by (auto simp: filter_empty_conv)
    then show ?thesis using hd_in_set [of "?f q"] by auto
  qed
  have "map group_prio (hook_groups hs) = map (\<lambda>q. h_Priority (hd (?f q))) ?ps"
    by (simp add: hook_groups_eq group_prio_def)
  also have "\<dots> = ?ps" using q by (intro map_idI) auto
  finally have "sorted_wrt (<) (map group_prio (hook_groups hs))"
    by simp
  moreover have "mset (concat (map ?f ps)) = filter_mset (\<lambda>h. h_Priority h \<in> set ps) (mset hs)"
    if "distinct ps" for ps
    using that
  proof (induction ps)
    case (Cons p ps)
    have "filter_mset (\<lambda>h. h_Priority h = p) (mset hs) + filter_mset (\<lambda>h. h_Priority h \<in> set ps) (mset hs) =
        filter_mset (\<lambda>h. h_Priority h = p \<or> h_Priority h \<in> set ps) (mset hs)"
      using Cons.prems by (intro filter_mset_or) auto
    with Cons show ?case by (simp add: mset_filter)
  qed simp
  moreover have "filter_mset (\<lambda>h. h_Priority h \<in> h_Priority ` set hs) (mset hs) = mset hs"
    unfolding mset_filter [symmetric] by (subst filter_True) auto
  ultimately show ?thesis using q by (auto simp: hook_groups_eq group_prio_def)
qed

section \<open>The invariant of a run\<close>

fun finished :: "hook_event list \<Rightarrow> ShutdownHook multiset" where
  "finished [] = {#}"
| "finished (Started h # tr) = finished tr"
| "finished (Finished h r # tr) = add_mset h (finished tr)"

definition failures :: "hook_event list \<Rightarrow> hook_event list" where
  "failures tr = filter (\<lambda>ev. case ev of Finished h (Some e) \<Rightarrow> True | _ \<Rightarrow> False) tr"

text \<open>When a hook starts, every hook of a smaller priority has finished.\<close>

definition in_order :: "ShutdownHook list \<Rightarrow> hook_event list \<Rightarrow> bool" where
  "in_order hs tr \<longleftrightarrow> (\<forall>pre h post h1. tr = pre @ Started h # post \<longrightarrow> h_Priority h1 < h_Priority h \<longrightarrow>
     count (finished pre) h1 = count (mset hs) h1)"

definition run_ok :: "ShutdownHook list \<Rightarrow> shutdown_run \<Rightarrow> bool" where
  "run_ok hs s \<longleftrightarrow>
     finished (sr_trace s) + mset (sr_running s) + mset (sr_waiting s) + mset (concat (sr_groups s)) = mset hs \<and>
     (\<exists>p. (\<forall>h \<in> set (sr_waiting s) \<union> set (sr_running s). h_Priority h = p) \<and>
          (\<forall>h \<in> set (concat (sr_groups s)). p < h_Priority h)) \<and>
     sorted_wrt (<) (map group_prio (sr_groups s)) \<and>
     (\<forall>g\<in>set (sr_groups s). g \<noteq> [] \<and> (\<forall>h\<in>set g. h_Priority h = group_prio g)) \<and>
     in_order hs (sr_trace s) \<and> length (sr_errors s) = length (failures (sr_trace s))"

definition result_ok :: "ShutdownHook list \<Rightarrow> shutdown_run \<Rightarrow> bool" where
  "result_ok hs s \<longleftrightarrow>
     (case sr_result s of
        None \<Rightarrow> True
      | Some None \<Rightarrow> finished (sr_trace s) = mset hs \<and> failures (sr_trace s) = []
      | Some (Some e) \<Rightarrow> errors_Is e ErrShutdownTimeout)"

lemma run_ok_result [simp]: "run_ok hs (s\<lparr>sr_result := r\<rparr>) = run_ok hs s"
  by (simp add: run_ok_def)

lemma finished_append [simp]: "finished (xs @ ys) = finished xs + finished ys"
  by (induction xs rule: finished.induct) auto

lemma failures_append [simp]: "failures (xs @ ys) = failures xs @ failures ys"
  by (simp add: failures_def)

lemma failures_one [simp]:
  "failures [Started h] = []" "failures [Finished h None] = []" "failures [Finished h (Some e)] = [Finished h (Some e)]"
  by (simp_all add: failures_def)

lemma snoc_eq_middle: "xs @ [x] = pre @ y # post \<longleftrightarrow> (post = [] \<and> pre = xs \<and> x = y) \<or> (\<exists>z. post = z @ [x] \<and> xs = pre @ y # z)"
  by (cases post rule: rev_cases) auto

lemma in_order_finish: "in_order hs tr \<Longrightarrow> in_order hs (tr @ [Finished h r])"
  by (auto simp: in_order_def snoc_eq_middle)

lemma in_order_start:
  assumes "in_order hs tr" "\<And>h1. h_Priority h1 < h_Priority h \<Longrightarrow> count (finished tr) h1 = count (mset hs) h1"
  shows "in_order hs (tr @ [Started h])"
  using assms by (auto simp: in_order_def snoc_eq_middle)

lemma mset_remove1_add: "h \<in> set xs \<Longrightarrow> add_mset h (mset (remove1 h xs)) = mset xs"
  by simp

text \<open>The four ways in which a run goes on.\<close>

lemma run_ok_launch:
  assumes "run_ok hs s" "sr_waiting s = []" "sr_running s = []" "sr_groups s = g # gs" "sr_result s = None"
  shows "run_ok hs (s\<lparr>sr_waiting := g, sr_groups := gs\<rparr>)"
proof -
  have "\<forall>h\<in>set g. h_Priority h = group_prio g"
    and "\<forall>h \<in> set (concat gs). group_prio g < h_Priority h"
    using assms(1,4) by (auto simp: run_ok_def)
  then show ?thesis using assms unfolding run_ok_def
    by (intro conjI exI [of _ "group_prio g"]) (auto simp: ac_simps)
qed

lemma run_ok_start:
  assumes "run_ok hs s" "h \<in> set (sr_waiting s)" "sr_result s = None"
  shows "run_ok hs (s\<lparr>sr_waiting := remove1 h (sr_waiting s), sr_running := h # sr_running s,
        sr_trace := sr_trace s @ [Started h]\<rparr>)"
proof -
  obtain p where p: "\<forall>h \<in> set (sr_waiting s) \<union> set (sr_running s). h_Priority h = p"
    "\<forall>h \<in> set (concat (sr_groups s)). p < h_Priority h"
    and m: "finished (sr_trace s) + mset (sr_running s) + mset (sr_waiting s) + mset (concat (sr_groups s)) = mset hs"
    using assms(1) unfolding run_ok_def by blast
  have o: "in_order hs (sr_trace s @ [Started h])"
  proof (rule in_order_start)
    show "in_order hs (sr_trace s)" using assms(1) by (simp add: run_ok_def)
    fix h1 :: ShutdownHook assume "h_Priority h1 < h_Priority h"
    then have "h1 \<notin> set (sr_running s)" "h1 \<notin> set (sr_waiting s)" "h1 \<notin> set (concat (sr_groups s))"
      using p assms(2) by fastforce+
    then have "count (mset (sr_running s)) h1 = 0" "count (mset (sr_waiting s)) h1 = 0"
      "count (mset (concat (sr_groups s))) h1 = 0"
      by (simp_all only: count_eq_zero_iff set_mset_mset not_False_eq_True)
    then show "count (finished (sr_trace s)) h1 = count (mset hs) h1" unfolding m [symmetric] by simp
  qed
  have w: "\<forall>x \<in> set (remove1 h (sr_waiting s)) \<union> set (h # sr_running s). h_Priority x = p"
    using p assms(2) set_remove1_subset [of h "sr_waiting s"] by auto
  show ?thesis using assms o p(2) w m mset_remove1_add [OF assms(2)] unfolding run_ok_def
    by (intro conjI exI [of _ p]) (simp_all add: union_assoc)
qed

lemma run_ok_finish:
  assumes "run_ok hs s" "h \<in> set (sr_running s)" "sr_result s = None"
    "length errs = length (failures [Finished h r])"
  shows "run_ok hs (s\<lparr>sr_running := remove1 h (sr_running s), sr_errors := sr_errors s @ errs,
        sr_trace := sr_trace s @ [Finished h r]\<rparr>)"
proof -
  obtain p where p: "\<forall>h \<in> set (sr_waiting s) \<union> set (sr_running s). h_Priority h = p"
    "\<forall>h \<in> set (concat (sr_groups s)). p < h_Priority h"
    and m: "finished (sr_trace s) + mset (sr_running s) + mset (sr_waiting s) + mset (concat (sr_groups s)) = mset hs"
    using assms(1) unfolding run_ok_def by blast
  have w: "\<forall>x \<in> set (sr_waiting s) \<union> set (remove1 h (sr_running s)). h_Priority x = p"
    using p set_remove1_subset [of h "sr_running s"] by auto
  have "in_order hs (sr_trace s @ [Finished h r])"
    using assms(1) by (intro in_order_finish) (simp add: run_ok_def)
  then show ?thesis using assms w p(2) m mset_remove1_add [OF assms(2)] unfolding run_ok_def
    by (intro conjI exI [of _ p]) (simp_all add: union_assoc)
qed

lemma run_ok_step: "shutdown_step s s' \<Longrightarrow> run_ok hs s \<Longrightarrow> run_ok hs s' \<and> result_ok hs s'"
proof (induction rule: shutdown_step.induct)
  case (launch_group s g gs)
  then show ?case by (simp add: run_ok_launch result_ok_def)
next
  case (hook_starts s h)
  then show ?case by (simp add: run_ok_start result_ok_def)
next
  case (hook_succeeds s h)
  then show ?case using run_ok_finish [of hs s h "[]" None] by (simp add: result_ok_def)
next
  case (hook_fails s h e)
  then show ?case
    using run_ok_finish [of hs s h "[Errorf [Lit ''hook '', Str (h_Name h), Lit '': '', Wrap e]]" "Some e"]
    by (simp add: result_ok_def)
next
  case (timed_out s)
  then show ?case by (simp add: result_ok_def)
next
  case (all_done s)
  then show ?case by (auto simp: run_ok_def result_ok_def shutdown_result_def)
qed

lemma finite_lower_bound: "finite A \<Longrightarrow> \<exists>p :: int. \<forall>x\<in>A. p < x"
proof (intro exI ballI)
  fix x assume "finite A" "x \<in> A"
  then have "Min A \<le> x" by (rule Min_le)
  then show "Min A - 1 < x" by simp
qed

lemma run_ok_begin: "\<not> sm_isShuttingDown sm \<Longrightarrow> run_ok (sm_hooks sm) (snd (shutdown_begin sm))"
proof -
  assume a: "\<not> sm_isShuttingDown sm"
  let ?g = "hook_groups (sm_hooks sm)"
  have g: "sorted_wrt (<) (map group_prio ?g)" "\<forall>g\<in>set ?g. g \<noteq> [] \<and> (\<forall>h\<in>set g. h_Priority h = group_prio g)"
    "mset (concat ?g) = mset (sm_hooks sm)"
    using hook_groups_ok by blast+
  obtain p where "\<forall>h \<in> set (concat ?g). p < h_Priority h"
    using finite_lower_bound [of "h_Priority ` set (concat ?g)"] by auto
  then show ?thesis using g a by (auto simp: run_ok_def shutdown_begin_def in_order_def failures_def)
qed

lemma run_ok_reachable:
  assumes "shutdown_step\<^sup>*\<^sup>* (snd (shutdown_begin sm)) s" "\<not> sm_isShuttingDown sm"
  shows "run_ok (sm_hooks sm) s \<and> result_ok (sm_hooks sm) s"
  using assms(1)
proof (induction rule: rtranclp_induct)
  case base
  then show ?case using run_ok_begin [OF assms(2)] assms(2) by (simp add: result_ok_def shutdown_begin_def)
qed (use run_ok_step in blast)

text \<open>A run cannot go on for ever, and it is never stuck before it has returned.\<close>

definition run_measure :: "shutdown_run \<Rightarrow> nat" where
  "run_measure s = (if sr_result s = None then 1 else 0) + 2 * length (sr_waiting s) + length (sr_running s) +
     sum_list (map (\<lambda>g. Suc (2 * length g)) (sr_groups s))"

lemma run_measure_step: "shutdown_step s s' \<Longrightarrow> Suc (run_measure s') \<le> run_measure s"
proof (induction rule: shutdown_step.induct)
  case (hook_starts s h)
  moreover obtain n where "length (sr_waiting s) = Suc n"
    using hook_starts by (metis length_pos_if_in_set gr0_implies_Suc)
  ultimately show ?case by (simp add: run_measure_def length_remove1)
next
  case (hook_succeeds s h)
  moreover obtain n where "length (sr_running s) = Suc n"
    using hook_succeeds by (metis length_pos_if_in_set gr0_implies_Suc)
  ultimately show ?case by (simp add: run_measure_def length_remove1)
next
  case (hook_fails s h e)
  moreover obtain n where "length (sr_running s) = Suc n"
    using hook_fails by (metis length_pos_if_in_set gr0_implies_Suc)
  ultimately show ?case by (simp add: run_measure_def length_remove1)
qed (simp_all add: run_measure_def)

lemma run_measure_run: "(shutdown_step ^^ n) s s' \<Longrightarrow> n + run_measure s' \<le> run_measure s"
proof (induction n arbitrary: s')
  case (Suc n)
  then obtain y where "(shutdown_step ^^ n) s y" "shutdown_step y s'" by auto
  then show ?case using Suc.IH [of y] run_measure_step [of y s'] by simp
qed simp

lemma run_progress: "sr_result s = None \<Longrightarrow> \<exists>s'. shutdown_step s s'"
  by (cases "sr_waiting s"; cases "sr_running s"; cases "sr_groups s")
     (metis launch_group all_done hook_starts hook_succeeds list.set_intros(1))+

section \<open>Tracked jobs\<close>

text \<open>
  \<^verbatim>\<open>RunJobWithTracking\<close>: \<open>sel\<close> is the channel that wins the \<^verbatim>\<open>select\<close>, the result of the job or
  (\<^term>\<open>None\<close>) the context that is cancelled when the shutdown begins.
\<close>

definition tracking_result :: "bool \<Rightarrow> result option \<Rightarrow> result" where
  "tracking_result shutting_down sel =
     (if shutting_down then Some (Sentinel ErrCannotStartJob)
      else case sel of Some err \<Rightarrow> err | None \<Rightarrow> Some (Sentinel ErrJobCanceled))"

text \<open>\<^verbatim>\<open>gracefulStop\<close> of the scheduler: \<open>sel\<close> tells whether the wait group was done first.\<close>

definition gracefulStop :: "bool \<Rightarrow> result" where
  "gracefulStop sel = (if sel then None else Some (Sentinel ErrWaitTimeout))"

text \<open>The server: \<open>server_shutdown\<close> is what \<^verbatim>\<open>http.Server.Shutdown\<close> returns.\<close>

definition server_gracefulStop :: "result \<Rightarrow> result" where
  "server_gracefulStop server_shutdown =
     map_option (\<lambda>err. Errorf [Lit ''failed to shutdown HTTP server gracefully: '', Wrap err]) server_shutdown"

definition NewGracefulScheduler :: "ShutdownManager \<Rightarrow> ShutdownManager" where
  "NewGracefulScheduler = RegisterHook \<lparr>h_Name = ''scheduler'', h_Priority = 10, h_Hook = 0\<rparr>"

definition NewGracefulServer :: "ShutdownManager \<Rightarrow> ShutdownManager" where
  "NewGracefulServer = RegisterHook \<lparr>h_Name = ''http-server'', h_Priority = 20, h_Hook = 1\<rparr>"

text \<open>
  The calls of \<^verbatim>\<open>RunJobWithTracking\<close> in flight. \<open>gs_tracked\<close> counts the calls in their \<^verbatim>\<open>select\<close>,
  \<open>gs_jobs\<close> the goroutines in \<^verbatim>\<open>job.Run\<close>, of which \<open>gs_orphans\<close> belong to calls that have returned.
\<close>

record graceful =
  gs_shutting :: bool
  gs_active :: nat
  gs_tracked :: nat
  gs_orphans :: nat
  gs_stopped :: "result option"

definition gs_jobs :: "graceful \<Rightarrow> nat" where
  "gs_jobs s = gs_tracked s + gs_orphans s"

inductive graceful_step :: "graceful \<Rightarrow> graceful \<Rightarrow> bool" where
  job_starts:
    "\<not> gs_shutting s \<Longrightarrow>
     graceful_step s (s\<lparr>gs_active := Suc (gs_active s), gs_tracked := Suc (gs_tracked s)\<rparr>)"
| job_returns:
    "0 < gs_tracked s \<Longrightarrow>
     graceful_step s (s\<lparr>gs_active := gs_active s - 1, gs_tracked := gs_tracked s - 1\<rparr>)"
| shutdown_starts:
    "graceful_step s (s\<lparr>gs_shutting := True\<rparr>)"
| job_canceled:
    "gs_shutting s \<Longrightarrow> 0 < gs_tracked s \<Longrightarrow>
     graceful_step s (s\<lparr>gs_active := gs_active s - 1, gs_tracked := gs_tracked s - 1,
        gs_orphans := Suc (gs_orphans s)\<rparr>)"
| orphan_ends:
    "0 < gs_orphans s \<Longrightarrow> graceful_step s (s\<lparr>gs_orphans := gs_orphans s - 1\<rparr>)"
| stop_waits:
    "gs_shutting s \<Longrightarrow> gs_active s = 0 \<Longrightarrow> graceful_step s (s\<lparr>gs_stopped := Some (gracefulStop True)\<rparr>)"
| stop_times_out:
    "gs_shutting s \<Longrightarrow> graceful_step s (s\<lparr>gs_stopped := Some (gracefulStop False)\<rparr>)"

definition gs_init :: graceful where
  "gs_init = \<lparr>gs_shutting = False, gs_active = 0, gs_tracked = 0, gs_orphans = 0, gs_stopped = None\<rparr>"

lemma graceful_active:
  assumes "graceful_step\<^sup>*\<^sup>* gs_init s"
  shows "gs_active s = gs_tracked s \<and> (\<not> gs_shutting s \<longrightarrow> gs_orphans s = 0)"
  using assms
proof (induction rule: rtranclp_induct)
  case (step y z)
  from step.hyps(2) step.IH show ?case by cases auto
qed (simp add: gs_init_def)

section \<open>Properties\<close>

text \<open>(hooks_stably_sorted): registering hooks one by one keeps them as a stable sort by priority of
  the registration order would give them, and the groups that the shutdown runs are exactly the
  hooks of each priority, in increasing order of priority.\<close>

theorem hooks_stably_sorted:
  "sm_hooks (fold RegisterHook hs (NewShutdownManager t)) = sort_key h_Priority hs \<and>
   hook_groups (sm_hooks (fold RegisterHook hs (NewShutdownManager t))) =
     map (\<lambda>p. filter (\<lambda>h. h_Priority h = p) hs) (sorted_list_of_set (h_Priority ` set hs))"
  unfolding register_fold hook_groups_eq by (simp add: sort_key_stable)

text \<open>C26 (shutdown_order): in every run of the shutdown, whatever the interleaving of the hooks and the
  moment of the timeout: a hook starts only after every hook of a smaller priority has
  finished; a run that returns nil has finished every hook exactly once without an error; and
  every error, also the one for failed hooks without any timeout, is \<^verbatim>\<open>ErrShutdownTimeout\<close>.\<close>

theorem shutdown_order:
  assumes "\<not> sm_isShuttingDown sm" "shutdown_step\<^sup>*\<^sup>* (snd (shutdown_begin sm)) s"
  shows "(sr_trace s = pre @ Started h # post \<and> h_Priority h1 < h_Priority h \<longrightarrow>
      count (finished pre) h1 = count (mset (sm_hooks sm)) h1) \<and>
    (sr_result s = Some None \<longrightarrow> finished (sr_trace s) = mset (sm_hooks sm) \<and> failures (sr_trace s) = []) \<and>
    (sr_result s = Some (Some e) \<longrightarrow> errors_Is e ErrShutdownTimeout)"
  using run_ok_reachable [OF assms(2,1)] by (auto simp: run_ok_def result_ok_def in_order_def)

definition two_hooks :: ShutdownManager where
  "two_hooks = NewGracefulScheduler (NewGracefulServer (NewShutdownManager 0))"

lemma two_hooks_groups:
  "hook_groups (sm_hooks two_hooks) = [[\<lparr>h_Name = ''scheduler'', h_Priority = 10, h_Hook = 0\<rparr>],
     [\<lparr>h_Name = ''http-server'', h_Priority = 20, h_Hook = 1\<rparr>]]"
  by (simp add: two_hooks_def NewGracefulScheduler_def NewGracefulServer_def RegisterHook_def
      NewShutdownManager_def hook_groups_def add_to_group_def insort_key_def)

theorem shutdown_order_witness:
  "\<exists>s. shutdown_step\<^sup>*\<^sup>* (snd (shutdown_begin two_hooks)) s \<and> sr_waiting s \<noteq> [] \<and> \<not> sm_isShuttingDown two_hooks \<and>
     (sr_result s = Some None \<longrightarrow> finished (sr_trace s) = mset (sm_hooks two_hooks))"
proof -
  let ?s = "snd (shutdown_begin two_hooks)"
  have n: "\<not> sm_isShuttingDown two_hooks"
    by (simp add: two_hooks_def NewGracefulScheduler_def NewGracefulServer_def RegisterHook_def NewShutdownManager_def)
  have "shutdown_step ?s (?s\<lparr>sr_waiting := [\<lparr>h_Name = ''scheduler'', h_Priority = 10, h_Hook = 0\<rparr>],
      sr_groups := [[\<lparr>h_Name = ''http-server'', h_Priority = 20, h_Hook = 1\<rparr>]]\<rparr>)" (is "shutdown_step _ ?t")
    using n by (intro launch_group) (simp_all add: shutdown_begin_def two_hooks_groups)
  then have r: "shutdown_step\<^sup>*\<^sup>* ?s ?t" by blast
  with shutdown_order [OF n r] n show ?thesis by (intro exI [of _ ?t]) simp
qed

text \<open>(shutdown_terminates): a shutdown always comes to an end: it is never stuck before it has
  returned, and a run over \<open>n\<close> hooks has at most \<open>3 n + 1\<close> steps.\<close>

theorem shutdown_terminates:
  assumes "\<not> sm_isShuttingDown sm" "(shutdown_step ^^ k) (snd (shutdown_begin sm)) s"
  shows "k \<le> 3 * length (sm_hooks sm) + 1 \<and> (sr_result s = None \<longrightarrow> (\<exists>s'. shutdown_step s s'))"
proof -
  let ?g = "hook_groups (sm_hooks sm)"
  have "length (concat ?g) = length (sm_hooks sm)"
    using hook_groups_ok [of "sm_hooks sm"] by (metis size_mset)
  moreover have "sum_list (map (\<lambda>g. Suc (2 * length g)) gs) \<le> 3 * length (concat gs)" if "\<forall>g\<in>set gs. g \<noteq> []"
    for gs :: "ShutdownHook list list"
    using that by (induction gs) (auto simp: neq_Nil_conv)
  then have "sum_list (map (\<lambda>g. Suc (2 * length g)) ?g) \<le> 3 * length (concat ?g)"
    using hook_groups_ok [of "sm_hooks sm"] by blast
  ultimately have "run_measure (snd (shutdown_begin sm)) \<le> 3 * length (sm_hooks sm) + 1"
    using assms(1) by (simp add: run_measure_def shutdown_begin_def)
  with run_measure_run [OF assms(2)] show ?thesis using run_progress by auto
qed

theorem shutdown_terminates_witness:
  "\<not> sm_isShuttingDown (NewShutdownManager 0) \<and>
   (\<exists>s'. shutdown_step (snd (shutdown_begin (NewShutdownManager 0))) s')"
  using shutdown_terminates [of "NewShutdownManager 0" 0 "snd (shutdown_begin (NewShutdownManager 0))"]
  by (simp add: NewShutdownManager_def shutdown_begin_def)

text \<open>(graceful_stop_leaves_jobs): the wait group counts the calls of \<^verbatim>\<open>RunJobWithTracking\<close>, and a call
  returns as soon as the shutdown begins. The scheduler's \<^verbatim>\<open>gracefulStop\<close> can therefore report
  that all jobs have completed while a job is still running; before the shutdown the counter
  and the running jobs agree.\<close>

theorem graceful_stop_leaves_jobs:
  "(\<exists>s. graceful_step\<^sup>*\<^sup>* gs_init s \<and> gs_stopped s = Some None \<and> gs_active s = 0 \<and> 0 < gs_jobs s) \<and>
   (\<forall>s. graceful_step\<^sup>*\<^sup>* gs_init s \<longrightarrow> \<not> gs_shutting s \<longrightarrow> gs_active s = gs_jobs s)"
proof
  define s1 where "s1 = gs_init\<lparr>gs_active := 1, gs_tracked := 1\<rparr>"
  define s2 where "s2 = s1\<lparr>gs_shutting := True\<rparr>"
  define s3 where "s3 = s2\<lparr>gs_active := 0, gs_tracked := 0, gs_orphans := 1\<rparr>"
  define s4 where "s4 = s3\<lparr>gs_stopped := Some (gracefulStop True)\<rparr>"
  have "graceful_step gs_init s1" using job_starts [of gs_init] by (simp add: s1_def gs_init_def)
  moreover have "graceful_step s1 s2" unfolding s2_def by (rule shutdown_starts)
  moreover have "graceful_step s2 s3"
    using job_canceled [of s2] by (simp add: s3_def s2_def s1_def gs_init_def)
  moreover have "graceful_step s3 s4"
    unfolding s4_def by (rule stop_waits) (simp_all add: s3_def s2_def)
  ultimately have "graceful_step\<^sup>*\<^sup>* gs_init s4" by (meson converse_rtranclp_into_rtranclp rtranclp.rtrancl_refl)
  then show "\<exists>s. graceful_step\<^sup>*\<^sup>* gs_init s \<and> gs_stopped s = Some None \<and> gs_active s = 0 \<and> 0 < gs_jobs s"
    by (intro exI [of _ s4]) (simp add: s4_def s3_def gs_jobs_def gracefulStop_def)
  show "\<forall>s. graceful_step\<^sup>*\<^sup>* gs_init s \<longrightarrow> \<not> gs_shutting s \<longrightarrow> gs_active s = gs_jobs s"
    using graceful_active by (auto simp: gs_jobs_def)
qed

theorem graceful_stop_leaves_jobs_witness: "gs_active gs_init = gs_jobs gs_init"
  by (rule graceful_stop_leaves_jobs [THEN conjunct2, rule_format, OF rtranclp.rtrancl_refl])
     (simp add: gs_init_def)

end
