(* ===== verification/BufferPool.thy ===== *)
theory BufferPool
  imports GoError
begin

text \<open>
  The pool of output buffers (\<^verbatim>\<open>src/core/buffer_pool.go\<close>). The circular buffer is a third-party
  type: \<open>buf_api\<close> has its constructor, its size and its reset, and \<open>buf_laws\<close> says that a buffer
  keeps the size it was created with. \<^verbatim>\<open>sync.Pool\<close> may hand out any of its items, or drop them and
  call \<^verbatim>\<open>New\<close>: the choice is an argument of every operation. Sizes and counters are integers; the
  configured sizes are far below the range of \<^verbatim>\<open>int64\<close>.
\<close>

record 'b buf_api =
  NewBuffer :: "int \<Rightarrow> go_error + 'b"
  buf_Size :: "'b \<Rightarrow> int"
  buf_Reset :: "'b \<Rightarrow> 'b"

definition buf_laws :: "'b buf_api \<Rightarrow> bool" where
  "buf_laws api \<longleftrightarrow> (\<forall>n b. NewBuffer api n = Inr b \<longrightarrow> buf_Size api b = n) \<and>
     (\<forall>b. buf_Size api (buf_Reset api b) = buf_Size api b)"

record EnhancedBufferPoolConfig =
  MinSize :: int
  DefaultSize :: int
  MaxSize :: int
  PoolSize :: nat
  EnablePrewarming :: bool

definition DefaultEnhancedBufferPoolConfig :: EnhancedBufferPoolConfig where
  "DefaultEnhancedBufferPoolConfig =
     \<lparr>MinSize = 1024, DefaultSize = 256 * 1024, MaxSize = 10 * 1024 * 1024, PoolSize = 50,
      EnablePrewarming = True\<rparr>"

record 'b EnhancedBufferPool =
  ebp_config :: EnhancedBufferPoolConfig
  ebp_pools :: "int \<rightharpoonup> 'b list"
  ebp_totalGets :: int
  ebp_totalPuts :: int
  ebp_totalMisses :: int
  ebp_customBuffers :: int
  ebp_usageTracking :: "int \<Rightarrow> int"

section \<open>Sizes\<close>

definition selectOptimalSize :: "EnhancedBufferPoolConfig \<Rightarrow> int \<Rightarrow> int" where
  "selectOptimalSize c requestedSize =
     (if requestedSize < MinSize c then MinSize c
      else if requestedSize > MaxSize c then MaxSize c
      else if requestedSize \<le> DefaultSize c then DefaultSize c
      else
        let sizes = [DefaultSize c, DefaultSize c * 2, DefaultSize c * 4, DefaultSize c * 8, MaxSize c]
        in case find (\<lambda>sz. requestedSize \<le> sz) sizes of Some sz \<Rightarrow> sz | None \<Rightarrow> MaxSize c)"

text \<open>The integer division of Go truncates towards zero.\<close>

definition isStandardSize :: "EnhancedBufferPoolConfig \<Rightarrow> int \<Rightarrow> bool" where
  "isStandardSize c sz \<longleftrightarrow>
     sz \<in> set [MinSize c, DefaultSize c, DefaultSize c * 2, DefaultSize c * 4,
       sgn (MaxSize c) * (\<bar>MaxSize c\<bar> div 4), sgn (MaxSize c) * (\<bar>MaxSize c\<bar> div 2), MaxSize c]"

section \<open>Pools\<close>

definition createPoolForSize :: "int \<Rightarrow> 'b EnhancedBufferPool \<Rightarrow> 'b EnhancedBufferPool" where
  "createPoolForSize sz p = p\<lparr>ebp_pools := (ebp_pools p)(sz \<mapsto> [])\<rparr>"

definition getPoolForSize :: "int \<Rightarrow> 'b EnhancedBufferPool \<Rightarrow> bool \<times> 'b EnhancedBufferPool" where
  "getPoolForSize sz p =
     (if ebp_pools p sz \<noteq> None then (True, p)
      else if isStandardSize (ebp_config p) sz then (True, createPoolForSize sz p)
      else (False, p))"

text \<open>\<^verbatim>\<open>prewarmPools\<close> for one pool: failures are logged and skipped.\<close>

definition prewarm :: "'b buf_api \<Rightarrow> nat \<Rightarrow> int \<Rightarrow> 'b list" where
  "prewarm api n sz = (case NewBuffer api sz of Inl _ \<Rightarrow> [] | Inr b \<Rightarrow> replicate n b)"

definition prewarmPools :: "'b buf_api \<Rightarrow> 'b EnhancedBufferPool \<Rightarrow> 'b EnhancedBufferPool" where
  "prewarmPools api p =
     (if \<not> EnablePrewarming (ebp_config p) then p
      else p\<lparr>ebp_pools := (\<lambda>sz. map_option (\<lambda>bs. bs @ prewarm api (PoolSize (ebp_config p)) sz) (ebp_pools p sz))\<rparr>)"

definition NewEnhancedBufferPool :: "'b buf_api \<Rightarrow> EnhancedBufferPoolConfig option \<Rightarrow> 'b EnhancedBufferPool" where
  "NewEnhancedBufferPool api config =
     (let c = (case config of None \<Rightarrow> DefaultEnhancedBufferPoolConfig | Some c \<Rightarrow> c);
          p0 = \<lparr>ebp_config = c, ebp_pools = Map.empty, ebp_totalGets = 0, ebp_totalPuts = 0,
                ebp_totalMisses = 0, ebp_customBuffers = 0, ebp_usageTracking = (\<lambda>_. 0)\<rparr>;
          p1 = fold createPoolForSize
                 [MinSize c, DefaultSize c, sgn (MaxSize c) * (\<bar>MaxSize c\<bar> div 4),
                  sgn (MaxSize c) * (\<bar>MaxSize c\<bar> div 2), MaxSize c] p0
      in if EnablePrewarming c then prewarmPools api p1 else p1)"

definition trackUsage :: "int \<Rightarrow> 'b EnhancedBufferPool \<Rightarrow> 'b EnhancedBufferPool" where
  "trackUsage sz p = p\<lparr>ebp_usageTracking := (ebp_usageTracking p)(sz := ebp_usageTracking p sz + 1)\<rparr>"

text \<open>
  \<^verbatim>\<open>sync.Pool.Get\<close>: the item at an index of the pool, or the result of \<^verbatim>\<open>New\<close>, which is nil when the
  buffer cannot be created.
\<close>

definition pool_Get ::
  "'b buf_api \<Rightarrow> nat option \<Rightarrow> int \<Rightarrow> 'b EnhancedBufferPool \<Rightarrow> 'b option \<times> 'b EnhancedBufferPool" where
  "pool_Get api pick sz p =
     (case ebp_pools p sz of
        None \<Rightarrow> (None, p)
      | Some bs \<Rightarrow>
          case pick of
            Some i \<Rightarrow>
              (if i < length bs
               then (Some (bs ! i), p\<lparr>ebp_pools := (ebp_pools p)(sz \<mapsto> take i bs @ drop (Suc i) bs)\<rparr>)
               else (case NewBuffer api sz of Inl _ \<Rightarrow> None | Inr b \<Rightarrow> Some b, p))
          | None \<Rightarrow> (case NewBuffer api sz of Inl _ \<Rightarrow> None | Inr b \<Rightarrow> Some b, p\<lparr>ebp_pools := (ebp_pools p)(sz \<mapsto> [])\<rparr>))"

definition fresh_buffer :: "'b buf_api \<Rightarrow> int \<Rightarrow> go_error + 'b" where
  "fresh_buffer api targetSize =
     (case NewBuffer api targetSize of
        Inl err \<Rightarrow> Inl (Errorf [Lit ''failed to create buffer of size '', Num targetSize, Lit '': '', Wrap err])
      | Inr buf \<Rightarrow> Inr buf)"

definition GetSized ::
  "'b buf_api \<Rightarrow> nat option \<Rightarrow> int \<Rightarrow> 'b EnhancedBufferPool \<Rightarrow> (go_error + 'b) \<times> 'b EnhancedBufferPool" where
  "GetSized api pick requestedSize p =
     (let p1 = p\<lparr>ebp_totalGets := ebp_totalGets p + 1\<rparr>;
          targetSize = selectOptimalSize (ebp_config p1) requestedSize;
          p2 = trackUsage targetSize p1;
          (found, p3) = getPoolForSize targetSize p2
      in if \<not> found
         then (fresh_buffer api targetSize, p3\<lparr>ebp_customBuffers := ebp_customBuffers p3 + 1\<rparr>)
         else case pool_Get api pick targetSize p3 of
                (Some buf, p4) \<Rightarrow> (Inr buf, p4)
              | (None, p4) \<Rightarrow> (fresh_buffer api targetSize, p4\<lparr>ebp_totalMisses := ebp_totalMisses p4 + 1\<rparr>))"

definition ebp_Get ::
  "'b buf_api \<Rightarrow> nat option \<Rightarrow> 'b EnhancedBufferPool \<Rightarrow> (go_error + 'b) \<times> 'b EnhancedBufferPool" where
  "ebp_Get api pick p = GetSized api pick (DefaultSize (ebp_config p)) p"

definition ebp_Put :: "'b buf_api \<Rightarrow> 'b option \<Rightarrow> 'b EnhancedBufferPool \<Rightarrow> 'b EnhancedBufferPool" where
  "ebp_Put api buf p =
     (case buf of
        None \<Rightarrow> p
      | Some b0 \<Rightarrow>
          let p1 = p\<lparr>ebp_totalPuts := ebp_totalPuts p + 1\<rparr>; b = buf_Reset api b0; sz = buf_Size api b;
              (found, p2) = getPoolForSize sz p1
          in if found
             then p2\<lparr>ebp_pools := (ebp_pools p2)(sz \<mapsto> (case ebp_pools p2 sz of None \<Rightarrow> [] | Some bs \<Rightarrow> bs) @ [b])\<rparr>
             else p2)"

text \<open>The part of \<^verbatim>\<open>performAdaptiveManagement\<close> with an effect: the usage counters are cleared, the
  rest only logs.\<close>

definition performAdaptiveManagement :: "'b EnhancedBufferPool \<Rightarrow> 'b EnhancedBufferPool" where
  "performAdaptiveManagement p = p\<lparr>ebp_usageTracking := (\<lambda>_. 0)\<rparr>"

definition ebp_Shutdown :: "'b EnhancedBufferPool \<Rightarrow> 'b EnhancedBufferPool" where
  "ebp_Shutdown p = p\<lparr>ebp_pools := Map.empty\<rparr>"

definition hit_rate_percent :: "'b EnhancedBufferPool \<Rightarrow> real" where
  "hit_rate_percent p =
     (if ebp_totalGets p > 0
      then of_int (ebp_totalGets p - ebp_totalMisses p) / of_int (ebp_totalGets p) * 100 else 0)"

section \<open>The invariant\<close>

definition pool_ok :: "'b buf_api \<Rightarrow> 'b EnhancedBufferPool \<Rightarrow> bool" where
  "pool_ok api p \<longleftrightarrow>
     (\<forall>sz bs b. ebp_pools p sz = Some bs \<longrightarrow> b \<in> set bs \<longrightarrow> buf_Size api b = sz)"

lemma pool_ok_member: "pool_ok api p \<Longrightarrow> ebp_pools p sz = Some bs \<Longrightarrow> b \<in> set bs \<Longrightarrow> buf_Size api b = sz"
  by (simp add: pool_ok_def)

lemma pool_ok_upd:
  "pool_ok api p \<Longrightarrow> (\<forall>b\<in>set bs. buf_Size api b = sz) \<Longrightarrow> pool_ok api (p\<lparr>ebp_pools := (ebp_pools p)(sz \<mapsto> bs)\<rparr>)"
  by (simp add: pool_ok_def)

lemma pool_ok_create: "pool_ok api p \<Longrightarrow> pool_ok api (createPoolForSize sz p)"
  by (auto simp: pool_ok_def createPoolForSize_def)

lemma pool_ok_getPool: "pool_ok api p \<Longrightarrow> pool_ok api (snd (getPoolForSize sz p))"
  by (simp add: getPoolForSize_def pool_ok_create)

lemma getPool_found: "fst (getPoolForSize sz p) \<Longrightarrow> \<exists>bs. ebp_pools (snd (getPoolForSize sz p)) sz = Some bs"
  by (auto simp: getPoolForSize_def createPoolForSize_def split: if_splits)

lemma getPool_frame [simp]:
  "ebp_config (snd (getPoolForSize sz p)) = ebp_config p"
  "ebp_totalGets (snd (getPoolForSize sz p)) = ebp_totalGets p"
  "ebp_totalMisses (snd (getPoolForSize sz p)) = ebp_totalMisses p"
  "ebp_customBuffers (snd (getPoolForSize sz p)) = ebp_customBuffers p"
  by (simp_all add: getPoolForSize_def createPoolForSize_def)

lemma pool_Get_ok:
  assumes "buf_laws api" "pool_ok api p" "pool_Get api pick sz p = (r, q)"
  shows "pool_ok api q \<and> (\<forall>b. r = Some b \<longrightarrow> buf_Size api b = sz) \<and>
    ebp_config q = ebp_config p \<and> ebp_totalGets q = ebp_totalGets p \<and> ebp_totalMisses q = ebp_totalMisses p"
proof (cases "ebp_pools p sz")
  case None
  then show ?thesis using assms by (auto simp: pool_Get_def)
next
  case (Some bs)
  have all: "\<forall>b\<in>set bs. buf_Size api b = sz" using pool_ok_member [OF assms(2) Some] by blast
  have fresh: "buf_Size api b = sz" if "NewBuffer api sz = Inr b" for b
    using assms(1) that by (simp add: buf_laws_def)
  show ?thesis
  proof (cases "\<exists>i < length bs. pick = Some i")
    case True
    then obtain i where i: "i < length bs" "pick = Some i" by blast
    have "\<forall>b\<in>set (take i bs @ drop (Suc i) bs). buf_Size api b = sz"
      using all by (auto dest: in_set_takeD in_set_dropD)
    then have "pool_ok api (p\<lparr>ebp_pools := (ebp_pools p)(sz \<mapsto> take i bs @ drop (Suc i) bs)\<rparr>)"
      by (rule pool_ok_upd [OF assms(2)])
    then show ?thesis using assms(3) Some i all by (auto simp: pool_Get_def)
  next
    case False
    have "pool_ok api (p\<lparr>ebp_pools := (ebp_pools p)(sz \<mapsto> [])\<rparr>)" by (rule pool_ok_upd [OF assms(2)]) simp
    then show ?thesis
      using False assms(2,3) Some fresh by (auto simp: pool_Get_def split: option.splits sum.splits if_splits)
  qed
qed

lemma fresh_buffer_size: "buf_laws api \<Longrightarrow> fresh_buffer api n = Inr b \<Longrightarrow> buf_Size api b = n"
  by (auto simp: fresh_buffer_def buf_laws_def split: sum.splits)

lemma GetSized_ok:
  assumes laws: "buf_laws api" and ok: "pool_ok api p" and g: "GetSized api pick n p = (r, q)"
  shows "pool_ok api q \<and> ebp_config q = ebp_config p \<and> ebp_totalGets q = ebp_totalGets p + 1 \<and>
    (\<forall>b. r = Inr b \<longrightarrow> buf_Size api b = selectOptimalSize (ebp_config p) n)"
proof -
  let ?t = "selectOptimalSize (ebp_config p) n"
  define p2 where "p2 = trackUsage ?t (p\<lparr>ebp_totalGets := ebp_totalGets p + 1\<rparr>)"
  define p3 where "p3 = snd (getPoolForSize ?t p2)"
  have f2: "pool_ok api p2" "ebp_config p2 = ebp_config p" "ebp_totalGets p2 = ebp_totalGets p + 1"
    using ok by (simp_all add: p2_def trackUsage_def pool_ok_def)
  have f3: "pool_ok api p3" "ebp_config p3 = ebp_config p" "ebp_totalGets p3 = ebp_totalGets p + 1"
    using f2 by (simp_all add: p3_def pool_ok_getPool)
  obtain found where gp: "getPoolForSize ?t p2 = (found, p3)" unfolding p3_def by (metis prod.collapse)
  obtain o4 p4 where pg: "pool_Get api pick ?t p3 = (o4, p4)" by fastforce
  note pg4 = pool_Get_ok [OF laws f3(1) pg]
  have eq: "GetSized api pick n p =
      (if \<not> found then (fresh_buffer api ?t, p3\<lparr>ebp_customBuffers := ebp_customBuffers p3 + 1\<rparr>)
       else case o4 of Some buf \<Rightarrow> (Inr buf, p4)
            | None \<Rightarrow> (fresh_buffer api ?t, p4\<lparr>ebp_totalMisses := ebp_totalMisses p4 + 1\<rparr>))"
    by (simp add: GetSized_def Let_def p2_def [symmetric] gp pg split: option.splits)
  show ?thesis
  proof (cases "found \<and> o4 \<noteq> None")
    case True
    then show ?thesis using eq g pg4 f3 by auto
  next
    case False
    then have "r = fresh_buffer api ?t" using eq g by (auto split: if_splits)
    then have "\<forall>b. r = Inr b \<longrightarrow> buf_Size api b = ?t" using fresh_buffer_size [OF laws] by simp
    moreover have "pool_ok api q \<and> ebp_config q = ebp_config p \<and> ebp_totalGets q = ebp_totalGets p + 1"
      using False eq g pg4 f3 by (auto simp: pool_ok_def split: if_splits)
    ultimately show ?thesis by blast
  qed
qed

lemma Put_ok:
  assumes "buf_laws api" "pool_ok api p"
  shows "pool_ok api (ebp_Put api buf p) \<and> ebp_config (ebp_Put api buf p) = ebp_config p"
proof (cases buf)
  case (Some b)
  let ?p1 = "p\<lparr>ebp_totalPuts := ebp_totalPuts p + 1\<rparr>" and ?n = "buf_Size api b"
  have "pool_ok api ?p1" using assms(2) by (simp add: pool_ok_def)
  then have g: "pool_ok api (snd (getPoolForSize ?n ?p1))" by (rule pool_ok_getPool)
  have r: "buf_Size api (buf_Reset api b) = ?n" using assms(1) by (simp add: buf_laws_def)
  obtain found p2 where gp: "getPoolForSize ?n ?p1 = (found, p2)" by fastforce
  then have p2: "pool_ok api p2" "ebp_config p2 = ebp_config p" using g getPool_frame(1) [of ?n ?p1] by simp_all
  let ?bs = "(case ebp_pools p2 ?n of None \<Rightarrow> [] | Some bs \<Rightarrow> bs) @ [buf_Reset api b]"
  have "\<forall>b\<in>set ?bs. buf_Size api b = ?n" 
    using pool_ok_member [OF p2(1), of ?n] r by (cases "ebp_pools p2 ?n") auto
  then have "pool_ok api (p2\<lparr>ebp_pools := (ebp_pools p2)(?n \<mapsto> ?bs)\<rparr>)" by (rule pool_ok_upd [OF p2(1)])
  then show ?thesis using p2 by (simp add: Some ebp_Put_def Let_def r gp)
qed (use assms in \<open>simp add: ebp_Put_def\<close>)

lemma New_ok:
  assumes "buf_laws api"
  shows "pool_ok api (NewEnhancedBufferPool api c)"
proof -
  have w: "pool_ok api (prewarmPools api p)" if "pool_ok api p" for p
    using that assms
    by (auto simp: prewarmPools_def prewarm_def pool_ok_def buf_laws_def split: sum.splits if_splits)
  let ?c = "case c of None \<Rightarrow> DefaultEnhancedBufferPoolConfig | Some c \<Rightarrow> c"
  have "pool_ok api (fold createPoolForSize ns p)" if "pool_ok api p" for ns p
    using that by (induction ns arbitrary: p) (simp_all add: pool_ok_create)
  moreover have "pool_ok api \<lparr>ebp_config = ?c, ebp_pools = Map.empty, ebp_totalGets = 0, ebp_totalPuts = 0,
      ebp_totalMisses = 0, ebp_customBuffers = 0, ebp_usageTracking = (\<lambda>_. 0)\<rparr>"
    by (simp add: pool_ok_def)
  ultimately show ?thesis unfolding NewEnhancedBufferPool_def Let_def using w by (split if_split) blast
qed

section \<open>Sequences of operations\<close>

datatype 'b pool_event = EvGet int "nat option" | EvPut 'b | EvAdapt

fun pool_step :: "'b buf_api \<Rightarrow> 'b pool_event \<Rightarrow> 'b EnhancedBufferPool \<Rightarrow> 'b EnhancedBufferPool" where
  "pool_step api (EvGet n pick) p = snd (GetSized api pick n p)"
| "pool_step api (EvPut b) p = ebp_Put api (Some b) p"
| "pool_step api EvAdapt p = performAdaptiveManagement p"

definition pool_inv :: "'b buf_api \<Rightarrow> EnhancedBufferPoolConfig \<Rightarrow> 'b EnhancedBufferPool \<Rightarrow> bool" where
  "pool_inv api c p \<longleftrightarrow> (buf_laws api \<longrightarrow> pool_ok api p \<and> ebp_config p = c)"

lemma New_config: "ebp_config (NewEnhancedBufferPool api (Some c)) = c"
  by (simp add: NewEnhancedBufferPool_def Let_def prewarmPools_def createPoolForSize_def)

lemma pool_inv_step:
  assumes "pool_inv api c p"
  shows "pool_inv api c (pool_step api e p)"
proof (cases e)
  case (EvGet n pick)
  then show ?thesis using assms GetSized_ok [of api p pick n]
    by (cases "GetSized api pick n p") (simp add: pool_inv_def)
next
  case (EvPut b)
  then show ?thesis using assms Put_ok [of api p "Some b"] by (simp add: pool_inv_def)
next
  case EvAdapt
  then show ?thesis using assms by (simp add: pool_inv_def performAdaptiveManagement_def pool_ok_def)
qed

lemma pool_inv_init: "pool_inv api c (NewEnhancedBufferPool api (Some c))"
  by (simp add: pool_inv_def New_ok New_config)

interpretation bpm: machine "NewEnhancedBufferPool api (Some c)" "pool_step api" "pool_inv api c" for api c
  by unfold_locales (simp_all add: pool_inv_step pool_inv_init)

lemma select_bounds:
  assumes "0 < MinSize c" "MinSize c \<le> DefaultSize c" "8 * DefaultSize c \<le> MaxSize c"
  shows "MinSize c \<le> selectOptimalSize c n \<and> selectOptimalSize c n \<le> MaxSize c \<and>
    (n \<le> MaxSize c \<longrightarrow> n \<le> selectOptimalSize c n)"
  using assms by (auto simp: selectOptimalSize_def Let_def split: option.splits)

section \<open>Properties\<close>

text \<open>(buffer_pool_sizes): after any sequence of requests and returns, whatever \<^verbatim>\<open>sync.Pool\<close> keeps or
  drops, a request for \<open>n\<close> bytes is answered with a buffer of the selected size, which is at
  least \<open>n\<close> when \<open>n\<close> is within the maximum and always within the configured bounds.\<close>

theorem buffer_pool_sizes:
  assumes "buf_laws api" "0 < MinSize c" "MinSize c \<le> DefaultSize c" "8 * DefaultSize c \<le> MaxSize c"
    "GetSized api pick n (fold (pool_step api) es (NewEnhancedBufferPool api (Some c))) = (Inr b, p)"
  shows "buf_Size api b = selectOptimalSize c n \<and> MinSize c \<le> buf_Size api b \<and> buf_Size api b \<le> MaxSize c \<and>
    (n \<le> MaxSize c \<longrightarrow> n \<le> buf_Size api b)"
proof -
  have "pool_ok api (fold (pool_step api) es (NewEnhancedBufferPool api (Some c)))"
    "ebp_config (fold (pool_step api) es (NewEnhancedBufferPool api (Some c))) = c"
    using bpm.ok_run [of api c es] assms(1) by (simp_all add: pool_inv_def)
  then show ?thesis
    using GetSized_ok [OF assms(1) _ assms(5)] select_bounds [OF assms(2-4), of n] by simp
qed

text \<open>A buffer that is only its size.\<close>

definition size_api :: "int buf_api" where
  "size_api = \<lparr>NewBuffer = (\<lambda>n. if n \<le> 0 then Inl (Opaque 5 ''size'') else Inr n), buf_Size = id, buf_Reset = id\<rparr>"

lemma size_api_laws: "buf_laws size_api"
  by (auto simp: buf_laws_def size_api_def)

lemma size_api_get:
  "fst (GetSized size_api None 300000 (fold (pool_step size_api) [] (NewEnhancedBufferPool size_api (Some DefaultEnhancedBufferPoolConfig))))
     = Inr 524288"
  by (simp add: GetSized_def size_api_def NewEnhancedBufferPool_def DefaultEnhancedBufferPoolConfig_def
      selectOptimalSize_def trackUsage_def getPoolForSize_def createPoolForSize_def prewarmPools_def
      isStandardSize_def pool_Get_def prewarm_def Let_def)

theorem buffer_pool_sizes_witness:
  "\<exists>p. GetSized size_api None 300000 (NewEnhancedBufferPool size_api (Some DefaultEnhancedBufferPoolConfig)) = (Inr 524288, p) \<and>
     300000 \<le> buf_Size size_api 524288"
proof -
  obtain p where g: "GetSized size_api None 300000 (fold (pool_step size_api) []
      (NewEnhancedBufferPool size_api (Some DefaultEnhancedBufferPoolConfig))) = (Inr 524288, p)"
    using size_api_get by (metis prod.collapse)
  have "300000 \<le> buf_Size size_api 524288"
    using buffer_pool_sizes [OF size_api_laws _ _ _ g] by (simp add: DefaultEnhancedBufferPoolConfig_def)
  with g show ?thesis by auto
qed

lemma misses_step:
  assumes "\<forall>n. \<exists>b. NewBuffer api n = Inr b"
  shows "ebp_totalMisses (pool_step api e p) = ebp_totalMisses p \<and> ebp_totalGets p \<le> ebp_totalGets (pool_step api e p)"
proof (cases e)
  case (EvGet n pick)
  let ?t = "selectOptimalSize (ebp_config p) n"
  define p2 where "p2 = trackUsage ?t (p\<lparr>ebp_totalGets := ebp_totalGets p + 1\<rparr>)"
  obtain found p3 where gp: "getPoolForSize ?t p2 = (found, p3)" by fastforce
  have f: "ebp_totalMisses p3 = ebp_totalMisses p" "ebp_totalGets p3 = ebp_totalGets p + 1"
    using gp getPool_frame(2,3) [of ?t p2] by (simp_all add: p2_def trackUsage_def)
  obtain nb where nb: "NewBuffer api ?t = Inr nb" using assms by blast
  have "\<exists>b p4. pool_Get api pick ?t p3 = (Some b, p4) \<and> ebp_totalMisses p4 = ebp_totalMisses p3 \<and>
      ebp_totalGets p4 = ebp_totalGets p3" if found
  proof -
    have "\<exists>bs. ebp_pools p3 ?t = Some bs" using getPool_found [of ?t p2] gp that by simp
    then obtain bs where "ebp_pools p3 ?t = Some bs" by blast
    then show ?thesis by (cases pick) (auto simp: pool_Get_def nb)
  qed
  with f show ?thesis
    by (cases found) (auto simp: EvGet GetSized_def Let_def p2_def [symmetric] gp)
next
  case (EvPut b)
  let ?p1 = "p\<lparr>ebp_totalPuts := ebp_totalPuts p + 1\<rparr>" and ?n = "buf_Size api (buf_Reset api b)"
  show ?thesis using getPool_frame(2,3) [of ?n ?p1] EvPut
    by (cases "getPoolForSize ?n ?p1") (simp add: ebp_Put_def Let_def)
qed (simp add: performAdaptiveManagement_def)

text \<open>(hit_rate_always_full): a miss is counted only when \<^verbatim>\<open>New\<close> fails. While buffers can be created,
  the statistics show a hit rate of 100 percent after any sequence of operations with at least
  one request, also when every buffer had to be allocated.\<close>

theorem hit_rate_always_full:
  assumes "\<forall>n. \<exists>b. NewBuffer api n = Inr b"
  shows "let p = fold (pool_step api) es (NewEnhancedBufferPool api (Some c)) in
    ebp_totalGets p > 0 \<longrightarrow> hit_rate_percent p = 100"
proof -
  have "ebp_totalMisses (fold (pool_step api) es p) = ebp_totalMisses p" for p
    by (induction es arbitrary: p) (simp_all add: misses_step [OF assms])
  moreover have "ebp_totalMisses (NewEnhancedBufferPool api (Some c)) = 0"
    by (simp add: NewEnhancedBufferPool_def Let_def prewarmPools_def createPoolForSize_def)
  ultimately show ?thesis by (simp add: hit_rate_percent_def Let_def)
qed

theorem hit_rate_always_full_witness:
  "let p = fold (pool_step (size_api\<lparr>NewBuffer := Inr\<rparr>)) [EvGet 10 None, EvGet 10 None]
     (NewEnhancedBufferPool (size_api\<lparr>NewBuffer := Inr\<rparr>) (Some DefaultEnhancedBufferPoolConfig)) in
   ebp_totalGets p > 0 \<longrightarrow> hit_rate_percent p = 100"
  by (rule hit_rate_always_full) simp

end
