(* ===== verification/EnvFile.thy ===== *)
theory EnvFile
  imports GoError
begin

text \<open>
  The environment of a job (\<^verbatim>\<open>src/core/envfile.go\<close>) and its annotations
  (\<^verbatim>\<open>src/core/annotations.go\<close>). The file system is an argument that gives the bytes of a
  file and the error with which reading them ends; the Docker provider is an optional argument that gives the
  environment of a container. The theory shows that the merge is the last assignment of every
  variable in the order of first occurrence, that the parser reads back what a quoted
  assignment says, and that annotations of the user override the defaults.
\<close>

section \<open>Env files\<close>

definition dquote :: char where "dquote = CHR 0x22"

definition squote :: char where "squote = CHR 0x27"

text \<open>The stripping of the quotes around a value.\<close>

definition strip_quotes :: "string \<Rightarrow> string" where
  "strip_quotes v =
     (if 2 \<le> length v \<and>
         ((v ! 0 = dquote \<and> v ! (length v - 1) = dquote) \<or> (v ! 0 = squote \<and> v ! (length v - 1) = squote))
      then take (length v - 2) (drop 1 v) else v)"

text \<open>One iteration of the loop of \<^verbatim>\<open>ParseEnvFile\<close>; \<^term>\<open>None\<close> for a line that is skipped.\<close>

definition parse_env_line :: "string \<Rightarrow> string option" where
  "parse_env_line text =
     (let line0 = TrimSpace text in
      if line0 = [] \<or> HasPrefix line0 ''#'' then None
      else
        let line = TrimPrefix line0 ''export '' in
        case IndexByte line (CHR ''='') of
          None \<Rightarrow> None
        | Some idx \<Rightarrow>
            if idx = 0 then None
            else Some (take idx line @ ''='' @ strip_quotes (drop (idx + 1) line)))"

text \<open>The \<^verbatim>\<open>bufio.Scanner\<close> over lines with a buffer of at most 1 MiB: a line ends at a line feed or at the
  end of the file, one carriage return before it is dropped, and a line that fills the buffer is an error.\<close>

definition line_feed :: char where "line_feed = CHR 0x0A"

definition drop_cr :: "string \<Rightarrow> string" where
  "drop_cr line = (if line \<noteq> [] \<and> last line = CHR 0x0D then butlast line else line)"

definition raw_lines :: "string \<Rightarrow> string list" where
  "raw_lines data = (let ls = Split data line_feed in if last ls = [] then butlast ls else ls)"

definition ErrTooLong :: go_error where "ErrTooLong = Opaque 96 ''bufio.Scanner: token too long''"

definition scan_lines :: "string \<Rightarrow> result \<Rightarrow> string list \<times> result" where
  "scan_lines data read_err =
     (let ls = raw_lines data in
      (map drop_cr (takeWhile (\<lambda>l. length l < 1024 * 1024) ls),
       if list_all (\<lambda>l. length l < 1024 * 1024) ls then read_err else Some ErrTooLong))"

text \<open>A file that cannot be opened, or its bytes and the error of reading on.\<close>

type_synonym file_system = "string \<Rightarrow> go_error + string \<times> result"

definition ParseEnvFile :: "file_system \<Rightarrow> string \<Rightarrow> go_error + string list" where
  "ParseEnvFile fs path =
     (case fs path of
        Inl err \<Rightarrow> Inl (Errorf [Lit ''open env file: '', Wrap err])
      | Inr (data, read_err) \<Rightarrow>
          case scan_lines data read_err of
            (lines, Some err) \<Rightarrow> Inl (Errorf [Lit ''read env file: '', Wrap err])
          | (lines, None) \<Rightarrow> Inr (List.map_filter parse_env_line lines))"

section \<open>Environments of containers\<close>

text \<open>The inspector: an error, or the environment of the container (\<^term>\<open>None\<close> without a
  configuration).\<close>

type_synonym inspector = "string \<Rightarrow> go_error + string list option"

definition ResolveEnvFrom :: "inspector option \<Rightarrow> string \<Rightarrow> go_error + string list" where
  "ResolveEnvFrom provider containerName =
     (case provider of
        None \<Rightarrow> Inl (Errorf [Lit ''resolve env from container '', Quoted containerName, Lit '': '',
                    Wrap (Sentinel ErrNilContainerInspector)])
      | Some inspect \<Rightarrow>
          case inspect containerName of
            Inl err \<Rightarrow> Inl (Errorf [Lit ''inspect container '', Quoted containerName, Lit '': '', Wrap err])
          | Inr None \<Rightarrow> Inr []
          | Inr (Some env) \<Rightarrow> Inr env)"

section \<open>Merging\<close>

text \<open>The body of the closure \<^verbatim>\<open>add\<close> in \<^verbatim>\<open>MergeEnvironments\<close>.\<close>

definition add_entry :: "string \<Rightarrow> (string \<rightharpoonup> nat) \<times> string list \<Rightarrow> (string \<rightharpoonup> nat) \<times> string list" where
  "add_entry entry sr =
     (case sr of (seen, result) \<Rightarrow>
        case IndexByte entry (CHR ''='') of
          None \<Rightarrow> (seen, result)
        | Some idx \<Rightarrow>
            let key = take idx entry in
            case seen key of
              Some i \<Rightarrow> (seen, result[i := entry])
            | None \<Rightarrow> (seen(key \<mapsto> length result), result @ [entry]))"

definition MergeEnvironments :: "string list \<Rightarrow> string list \<Rightarrow> string list \<Rightarrow> string list" where
  "MergeEnvironments envFiles envFrom explicit =
     (if envFiles = [] \<and> envFrom = [] \<and> explicit = [] then []
      else snd (fold add_entry explicit (fold add_entry envFrom (fold add_entry envFiles (Map.empty, [])))))"

primrec load_files :: "file_system \<Rightarrow> string list \<Rightarrow> go_error + string list" where
  "load_files fs [] = Inr []"
| "load_files fs (path # paths) =
     (case ParseEnvFile fs path of
        Inl err \<Rightarrow> Inl (Errorf [Lit ''env-file '', Quoted path, Lit '': '', Wrap err])
      | Inr vars \<Rightarrow> map_sum id ((@) vars) (load_files fs paths))"

text \<open>The warning for an ignored container goes to the list of warnings.\<close>

primrec load_containers :: "inspector option \<Rightarrow> string list \<Rightarrow> (go_error + string list) \<times> string list" where
  "load_containers provider [] = (Inr [], [])"
| "load_containers provider (container # cs) =
     (if provider = None
      then (let (r, ws) = load_containers provider cs in (r, container # ws))
      else case ResolveEnvFrom provider container of
             Inl err \<Rightarrow> (Inl (Errorf [Lit ''env-from '', Quoted container, Lit '': '', Wrap err]), [])
           | Inr vars \<Rightarrow> (let (r, ws) = load_containers provider cs in (map_sum id ((@) vars) r, ws)))"

definition ResolveJobEnvironment ::
  "file_system \<Rightarrow> string list \<Rightarrow> string list \<Rightarrow> string list \<Rightarrow> inspector option \<Rightarrow> (go_error + string list) \<times> string list"
where
  "ResolveJobEnvironment fs envFiles envFrom explicit provider =
     (case load_files fs envFiles of
        Inl err \<Rightarrow> (Inl err, [])
      | Inr fileVars \<Rightarrow>
          case load_containers provider envFrom of
            (Inl err, ws) \<Rightarrow> (Inl err, ws)
          | (Inr fromVars, ws) \<Rightarrow> (Inr (MergeEnvironments fileVars fromVars explicit), ws))"

section \<open>Annotations\<close>

text \<open>One iteration of \<^verbatim>\<open>parseAnnotations\<close>; \<^verbatim>\<open>SplitN\<close> with limit 2 cuts at the first separator.\<close>

definition add_annotation :: "string \<Rightarrow> (string \<rightharpoonup> string) \<Rightarrow> (string \<rightharpoonup> string)" where
  "add_annotation ann m =
     (case IndexByte ann (CHR ''='') of
        None \<Rightarrow> m
      | Some idx \<Rightarrow>
          let key = TrimSpace (take idx ann); val = drop (idx + 1) ann
          in if key \<noteq> [] then m(key \<mapsto> val) else m)"

definition parseAnnotations :: "string list \<Rightarrow> (string \<rightharpoonup> string)" where
  "parseAnnotations annotations = fold add_annotation annotations Map.empty"

text \<open>\<open>hostname\<close>, \<open>version\<close> and \<open>time\<close> are what the system and the build provide.\<close>

definition getDefaultAnnotations :: "string \<Rightarrow> string \<Rightarrow> string \<Rightarrow> string \<Rightarrow> string \<Rightarrow> (string \<rightharpoonup> string)" where
  "getDefaultAnnotations hostname version time jobName jobType =
     [''ofelia.job.name'' \<mapsto> jobName,
      ''ofelia.job.type'' \<mapsto> jobType,
      ''ofelia.execution.time'' \<mapsto> time,
      ''ofelia.scheduler.host'' \<mapsto> (if hostname = [] then ''unknown'' else hostname),
      ''ofelia.version'' \<mapsto> (if version = [] then ''dev'' else version)]"

definition mergeAnnotations :: "string list \<Rightarrow> (string \<rightharpoonup> string) \<Rightarrow> (string \<rightharpoonup> string)" where
  "mergeAnnotations userAnnotations defs = defs ++ parseAnnotations userAnnotations"

section \<open>The reference for the merge\<close>

definition is_assign :: "string \<Rightarrow> bool" where
  "is_assign e \<longleftrightarrow> CHR ''='' \<in> set e"

definition env_key :: "string \<Rightarrow> string" where
  "env_key e = takeWhile (\<lambda>c. c \<noteq> CHR ''='') e"

text \<open>The last assignment of a variable, and the variables in the order of first occurrence.\<close>

definition last_assign :: "string list \<Rightarrow> string \<Rightarrow> string" where
  "last_assign es k = last (filter (\<lambda>e. env_key e = k) (filter is_assign es))"

definition first_keys :: "string list \<Rightarrow> string list" where
  "first_keys es = rev (remdups (rev (map env_key (filter is_assign es))))"

definition env_spec :: "string list \<Rightarrow> string list" where
  "env_spec es = map (last_assign es) (first_keys es)"

lemma IndexByte_takeWhile: "IndexByte e c = Some i \<Longrightarrow> take i e = takeWhile (\<lambda>x. x \<noteq> c) e"
  by (induction e arbitrary: i) (auto split: if_splits)

lemma IndexByte_key: "IndexByte e (CHR ''='') = Some idx \<Longrightarrow> take idx e = env_key e \<and> is_assign e"
  using IndexByte_takeWhile [of e "CHR ''=''" idx] IndexByte_None [of e "CHR ''=''"]
  by (simp add: env_key_def is_assign_def)

lemma set_first_keys: "set (first_keys es) = env_key ` set (filter is_assign es)"
  by (simp add: first_keys_def)

lemma first_keys_snoc:
  "first_keys (es @ [e]) =
     (if \<not> is_assign e \<or> env_key e \<in> set (first_keys es) then first_keys es else first_keys es @ [env_key e])"
proof -
  have "remdups (xs @ ys) = remdups (filter (\<lambda>x. x \<notin> set ys) xs) @ remdups ys" for xs ys :: "string list"
    by (induction xs) auto
  moreover have "remdups (k # ys) = (if k \<in> set ys then remdups ys else k # remdups ys)" for k and ys :: "string list"
    by simp
  ultimately show ?thesis by (auto simp: first_keys_def)
qed

lemma distinct_first_keys: "distinct (first_keys es)"
  by (simp add: first_keys_def)

lemma last_assign_snoc:
  "is_assign e \<Longrightarrow> last_assign (es @ [e]) k = (if env_key e = k then e else last_assign es k)"
  by (simp add: last_assign_def)

lemma map_upd_list:
  assumes "distinct ks" "i < length ks"
  shows "map (\<lambda>k. if k = ks ! i then v else f k) ks = (map f ks)[i := v]"
  using assms by (intro nth_equalityI) (auto simp: nth_list_update nth_eq_iff_index_eq)

lemma fold_add_entry:
  "\<exists>seen. fold add_entry es (Map.empty, []) = (seen, env_spec es) \<and>
     (\<forall>k i. seen k = Some i \<longleftrightarrow> i < length (first_keys es) \<and> first_keys es ! i = k)"
proof (induction es rule: rev_induct)
  case Nil
  then show ?case by (simp add: env_spec_def first_keys_def)
next
  case (snoc e es)
  then obtain seen where s: "fold add_entry es (Map.empty, []) = (seen, env_spec es)"
    and inv: "\<And>k i. seen k = Some i \<longleftrightarrow> i < length (first_keys es) \<and> first_keys es ! i = k" by blast
  have f: "fold add_entry (es @ [e]) (Map.empty, []) = add_entry e (seen, env_spec es)" by (simp add: s)
  show ?case
  proof (cases "IndexByte e (CHR ''='')")
    case None
    then have "\<not> is_assign e" by (simp add: is_assign_def IndexByte_None)
    then have "first_keys (es @ [e]) = first_keys es" "env_spec (es @ [e]) = env_spec es"
      by (simp_all add: first_keys_def env_spec_def last_assign_def)
    with None inv show ?thesis unfolding f by (intro exI [of _ seen]) (simp add: add_entry_def)
  next
    case (Some idx)
    then have k: "take idx e = env_key e" "is_assign e" using IndexByte_key by blast+
    show ?thesis
    proof (cases "seen (env_key e)")
      case None
      then have nin: "env_key e \<notin> set (first_keys es)" using inv [of "env_key e"] by (auto simp: in_set_conv_nth)
      then have fk: "first_keys (es @ [e]) = first_keys es @ [env_key e]" using k by (simp add: first_keys_snoc)
      have "map (last_assign (es @ [e])) (first_keys es) = map (last_assign es) (first_keys es)"
        using nin k by (auto simp: last_assign_snoc)
      then have "env_spec (es @ [e]) = env_spec es @ [e]"
        using k by (simp add: env_spec_def fk last_assign_snoc)
      moreover have "add_entry e (seen, env_spec es) = (seen(env_key e \<mapsto> length (first_keys es)), env_spec es @ [e])"
        using Some None k by (simp add: add_entry_def env_spec_def)
      moreover have "first_keys es ! i \<noteq> env_key e" if "i < length (first_keys es)" for i
        using nin that by (metis nth_mem)
      ultimately show ?thesis unfolding f using inv by (auto simp: fk nth_append less_Suc_eq)
    next
      case (Some i)
      then have i: "i < length (first_keys es)" "first_keys es ! i = env_key e" using inv by blast+
      then have fk: "first_keys (es @ [e]) = first_keys es"
        using k by (simp add: first_keys_snoc) (metis nth_mem)
      have "env_spec (es @ [e]) = map (\<lambda>k. if k = first_keys es ! i then e else last_assign es k) (first_keys es)"
        using k i by (auto simp: env_spec_def fk last_assign_snoc)
      also have "\<dots> = (env_spec es)[i := e]"
        unfolding env_spec_def by (rule map_upd_list [OF distinct_first_keys i(1)])
      finally have "env_spec (es @ [e]) = (env_spec es)[i := e]" .
      moreover have "add_entry e (seen, env_spec es) = (seen, (env_spec es)[i := e])"
        using \<open>IndexByte e _ = Some idx\<close> Some k by (simp add: add_entry_def)
      ultimately show ?thesis unfolding f using inv by (simp add: fk)
    qed
  qed
qed

section \<open>The parser on quoted assignments\<close>

lemma strip_front_id: "(\<And>r. r \<in> set rs \<Longrightarrow> r \<noteq> [] \<Longrightarrow> \<not> HasPrefix s r) \<Longrightarrow> strip_front rs s = s"
  by (subst strip_front.simps) (auto simp: find_None_iff split: option.splits dest: find_Some_iff [THEN iffD1])

lemma TrimSpace_id:
  assumes "c \<notin> hd ` set space_runes" "d \<notin> last ` set space_runes"
  shows "TrimSpace (c # s @ [d]) = c # s @ [d]"
proof -
  have p: "\<not> HasPrefix (c # t) r" if "r \<in> set space_runes" for r t
    using that assms(1) by (cases r) (auto simp: HasPrefix_def space_runes_def)
  have q: "\<not> HasPrefix (d # t) (rev r)" if "r \<in> set space_runes" for r t
    using that assms(2) by (cases r rule: rev_cases) (auto simp: HasPrefix_def space_runes_def)
  have "strip_front space_runes (c # s @ [d]) = c # s @ [d]" by (rule strip_front_id) (use p in auto)
  moreover have "strip_front (map rev space_runes) (d # rev s @ [c]) = d # rev s @ [c]"
    by (rule strip_front_id) (use q in auto)
  ultimately show ?thesis by (simp add: TrimSpace_def)
qed

definition good_key :: "string \<Rightarrow> bool" where
  "good_key k \<longleftrightarrow> k \<noteq> [] \<and> hd k \<notin> hd ` set space_runes \<and> hd k \<noteq> CHR ''#'' \<and> CHR ''='' \<notin> set k \<and>
     CHR '' '' \<notin> set k"

text \<open>An assignment as it is written to an env file, with the value in double quotes.\<close>

definition quoted_line :: "string \<Rightarrow> string \<Rightarrow> string" where
  "quoted_line k v = k @ ''='' @ [dquote] @ v @ [dquote]"

lemma dquote_no_space: "dquote \<notin> last ` set space_runes"
  by (simp add: space_runes_def dquote_def)

lemma strip_quotes_quoted: "strip_quotes (dquote # v @ [dquote]) = v"
  by (simp add: strip_quotes_def nth_append)

lemma export_absent: "CHR '' '' \<notin> set k \<Longrightarrow> \<not> HasPrefix (k @ CHR ''='' # v) ''export ''"
proof
  assume s: "CHR '' '' \<notin> set k" and "HasPrefix (k @ CHR ''='' # v) ''export ''"
  then obtain t where t: "k @ CHR ''='' # v = ''export '' @ t" by (auto simp: HasPrefix_iff)
  show False
  proof (cases "length k < 7")
    case True
    have "(''export '' @ t) ! length k = CHR ''=''" by (metis t nth_append_length)
    moreover have "length k \<in> {0, 1, 2, 3, 4, 5, 6}" using True unfolding insert_iff by linarith
    ultimately show False by auto
  next
    case False
    then have "k ! 6 = (k @ CHR ''='' # v) ! 6" by (simp add: nth_append)
    also have "\<dots> = CHR '' ''" by (simp add: t)
    finally show False using s False nth_mem [of 6 k] by simp
  qed
qed

lemma parse_quoted_line:
  assumes "good_key k"
  shows "parse_env_line (quoted_line k v) = Some (k @ ''='' @ v)"
proof -
  obtain c ks where k: "k = c # ks" using assms by (cases k) (auto simp: good_key_def)
  let ?line = "k @ CHR ''='' # dquote # v @ [dquote]"
  have "quoted_line k v = c # (ks @ CHR ''='' # dquote # v) @ [dquote]" by (simp add: quoted_line_def k)
  moreover have "c \<notin> hd ` set space_runes" using assms by (simp add: good_key_def k)
  ultimately have "TrimSpace (quoted_line k v) = ?line"
    using TrimSpace_id [OF _ dquote_no_space, of c "ks @ CHR ''='' # dquote # v"] by (simp add: k)
  moreover have "\<not> HasPrefix ?line ''#''" using assms by (simp add: k good_key_def HasPrefix_def)
  moreover have "TrimPrefix ?line ''export '' = ?line"
    using export_absent [of k] assms by (simp add: TrimPrefix_def good_key_def)
  moreover have "IndexByte ?line (CHR ''='') = Some (length k)"
    using assms by (intro IndexByte_append) (simp add: good_key_def)
  ultimately show ?thesis
    by (simp add: parse_env_line_def strip_quotes_quoted k)
qed

lemma map_filter_all: "(\<And>x. x \<in> set xs \<Longrightarrow> f x = Some (g x)) \<Longrightarrow> List.map_filter f xs = map g xs"
  by (induction xs) (simp_all add: map_filter_simps)

section \<open>Properties\<close>

text \<open>(environment_last_wins): the merged environment is, for every variable assigned in one of the
  sources, its last assignment in the order env files, containers, explicit settings, and the
  variables appear in the order of their first occurrence; entries without an equals sign are
  dropped.\<close>

theorem environment_last_wins:
  "MergeEnvironments envFiles envFrom explicit = env_spec (envFiles @ envFrom @ explicit)"
proof -
  have "fold add_entry explicit (fold add_entry envFrom (fold add_entry envFiles (Map.empty, []))) =
      fold add_entry (envFiles @ envFrom @ explicit) (Map.empty, [])" by simp
  then show ?thesis
    using fold_add_entry [of "envFiles @ envFrom @ explicit"]
    by (auto simp: MergeEnvironments_def env_spec_def first_keys_def)
qed

text \<open>A file of quoted assignments, one to a line.\<close>

definition env_text :: "(string \<times> string) list \<Rightarrow> string" where
  "env_text env = concat (map (\<lambda>(k, v). quoted_line k v @ [line_feed]) env)"

lemma Split_nonempty_last: "last (w # Split s c) = last (Split s c)"
  by simp

lemma raw_lines_Cons:
  assumes "line_feed \<notin> set w"
  shows "raw_lines (w @ line_feed # s) = w # raw_lines s"
  using Split_append [OF assms, of s] by (simp add: raw_lines_def Let_def)

lemma raw_lines_env:
  assumes "\<forall>(k, v) \<in> set env. line_feed \<notin> set k \<and> line_feed \<notin> set v"
  shows "raw_lines (env_text env) = map (\<lambda>(k, v). quoted_line k v) env"
  using assms
proof (induction env)
  case Nil
  then show ?case by (simp add: env_text_def raw_lines_def)
next
  case (Cons kv env)
  obtain k v where kv: "kv = (k, v)" by (cases kv)
  have "line_feed \<notin> set (quoted_line k v)"
    using Cons.prems by (simp add: kv quoted_line_def) (simp add: line_feed_def dquote_def)
  from raw_lines_Cons [OF this, of "env_text env"] show ?case
    using Cons by (simp add: kv env_text_def)
qed

lemma drop_cr_quoted: "drop_cr (quoted_line k v) = quoted_line k v"
  by (simp add: drop_cr_def quoted_line_def dquote_def)

text \<open>C36 (envfile_roundtrip): a file that assigns every variable on a line \<^verbatim>\<open>KEY="value"\<close> is read back exactly, whatever
  bytes other than a line feed the values contain, as long as no line is of 1 MiB or more and the keys are plain: not
  empty, without equals sign, blank or line feed, and not starting with a number sign or white space.\<close>

theorem envfile_roundtrip:
  assumes "\<forall>(k, v) \<in> set env. good_key k \<and> line_feed \<notin> set k \<and> line_feed \<notin> set v \<and> length k + length v + 3 < 1024 * 1024"
  shows "ParseEnvFile (\<lambda>_. Inr (env_text env, None)) path = Inr (map (\<lambda>(k, v). k @ ''='' @ v) env)"
proof -
  let ?ls = "map (\<lambda>(k, v). quoted_line k v) env"
  have raw: "raw_lines (env_text env) = ?ls" using assms by (intro raw_lines_env) auto
  have short: "list_all (\<lambda>l. length l < 1024 * 1024) ?ls"
    using assms by (auto simp: list_all_iff quoted_line_def)
  then have tw: "takeWhile (\<lambda>l. length l < 1024 * 1024) ?ls = ?ls" by (simp add: takeWhile_eq_all_conv list_all_iff)
  have cr: "map drop_cr ?ls = ?ls" by (simp add: drop_cr_quoted case_prod_beta)
  have scan: "scan_lines (env_text env) None = (?ls, None)"
    using short unfolding scan_lines_def Let_def raw tw cr by simp
  have "List.map_filter parse_env_line ?ls =
      List.map_filter (\<lambda>(k, v). parse_env_line (quoted_line k v)) env"
    by (induction env) (auto simp: map_filter_simps split: option.splits)
  also have "\<dots> = map (\<lambda>(k, v). k @ ''='' @ v) env"
    using assms by (intro map_filter_all) (auto simp: parse_quoted_line)
  finally show ?thesis by (simp add: ParseEnvFile_def scan)
qed

theorem envfile_roundtrip_witness:
  "ParseEnvFile (\<lambda>_. Inr (env_text [(''A'', '' x=1 ''), (''B'', [])], None)) ''f'' =
     Inr [''A= x=1 '', ''B='']"
  using envfile_roundtrip [of "[(''A'', '' x=1 ''), (''B'', [])]" "''f''"]
  by (simp add: good_key_def space_runes_def line_feed_def)

text \<open>A value with a line feed is not one assignment, and a line of 1 MiB makes the file unreadable.\<close>

lemma line_feed_splits: "ParseEnvFile (\<lambda>_. Inr (env_text [(''A'', [CHR ''x'', line_feed, CHR ''y''])], None)) ''f'' = Inr [''A='' @ [dquote] @ ''x'']"
proof -
  have "raw_lines (env_text [(''A'', [CHR ''x'', line_feed, CHR ''y''])]) = [''A='' @ [dquote] @ ''x'', ''y'' @ [dquote]]" by code_simp
  moreover have "drop_cr (''A='' @ [dquote] @ ''x'') = ''A='' @ [dquote] @ ''x''" "drop_cr (''y'' @ [dquote]) = ''y'' @ [dquote]"
    "parse_env_line (''A='' @ [dquote] @ ''x'') = Some (''A='' @ [dquote] @ ''x'')" "parse_env_line (''y'' @ [dquote]) = None"
    by code_simp+
  ultimately show ?thesis by (simp add: ParseEnvFile_def scan_lines_def map_filter_simps)
qed

lemma long_line_fails:
  assumes "line_feed \<notin> set l" "1024 * 1024 \<le> length l"
  shows "ParseEnvFile (\<lambda>_. Inr (l @ line_feed # s, None)) path = Inl (Errorf [Lit ''read env file: '', Wrap ErrTooLong])"
  using assms(2) by (simp add: ParseEnvFile_def scan_lines_def raw_lines_Cons [OF assms(1)])

text \<open>(annotations_user_wins): a key set by a valid annotation of the user has the value of the last
  such annotation; every other key keeps its default.\<close>

theorem annotations_user_wins:
  "mergeAnnotations (as @ [a]) defs =
     (case IndexByte a (CHR ''='') of
        None \<Rightarrow> mergeAnnotations as defs
      | Some i \<Rightarrow> if TrimSpace (take i a) = [] then mergeAnnotations as defs
                 else (mergeAnnotations as defs)(TrimSpace (take i a) \<mapsto> drop (i + 1) a)) \<and>
   mergeAnnotations [] defs = defs"
  by (auto simp: mergeAnnotations_def parseAnnotations_def add_annotation_def Let_def split: option.splits)

end
