(* ===== verification/ContainerJob.thy ===== *)
theory ContainerJob
  imports EnvFile
begin

text \<open>
  The jobs that run in containers: \<^verbatim>\<open>src/core/runjob.go\<close> (a new or an existing container is
  started and waited for) and \<^verbatim>\<open>src/core/execjob.go\<close> (a command inside a running container). The
  Docker provider is a parameter: a record of functions over a state of the daemon that also
  answers what \<^verbatim>\<open>ctx.Err()\<close> is at a moment. Every call that reaches the daemon is recorded, so
  the properties speak about the calls: which container is stopped and removed, on which
  context, and what result the run reports.

  The identifier of the container is a field of the job, which all runs of the job share; the
  steps of two overlapping runs are composed on the same state.
\<close>

section \<open>Standard library\<close>

text \<open>\<^verbatim>\<open>strconv.ParseBool\<close> with its error ignored.\<close>

definition ParseBool :: "string \<Rightarrow> bool" where
  "ParseBool s \<longleftrightarrow> s \<in> set [''1'', ''t'', ''T'', ''true'', ''TRUE'', ''True'']"

section \<open>The Docker provider\<close>

text \<open>The contexts of a run: the context of the firing with its deadline, the context with the
  job's own maximum runtime, and the fresh context of the teardown.\<close>

datatype dctx = RunCtx | WatchCtx | CleanupCtx

record container_config =
  cc_Image :: string
  cc_Cmd :: "string list"
  cc_Entrypoint :: "string list option"
  cc_Env :: "string list"
  cc_WorkingDir :: string
  cc_User :: string
  cc_Hostname :: string
  cc_AttachStdin :: bool
  cc_AttachStdout :: bool
  cc_AttachStderr :: bool
  cc_Tty :: bool
  cc_Name :: string
  cc_Labels :: "string \<rightharpoonup> string"
  cc_Binds :: "string list"
  cc_VolumesFrom :: "string list"

record exec_config =
  ec_Cmd :: "string list"
  ec_Env :: "string list"
  ec_WorkingDir :: string
  ec_User :: string
  ec_AttachStdin :: bool
  ec_AttachStdout :: bool
  ec_AttachStderr :: bool
  ec_Tty :: bool
  ec_Privileged :: bool

record 'd docker =
  d_Err :: "dctx \<Rightarrow> 'd \<Rightarrow> result"
  d_EnsureImage :: "dctx \<Rightarrow> string \<Rightarrow> bool \<Rightarrow> 'd \<Rightarrow> result \<times> 'd"
  d_CreateContainer :: "dctx \<Rightarrow> container_config \<Rightarrow> string \<Rightarrow> 'd \<Rightarrow> (go_error + string) \<times> 'd"
  d_InspectContainer :: "dctx \<Rightarrow> string \<Rightarrow> 'd \<Rightarrow> go_error + string \<times> string list option"
  d_FindNetworkByName :: "dctx \<Rightarrow> string \<Rightarrow> 'd \<Rightarrow> go_error + string list"
  d_ConnectNetwork :: "dctx \<Rightarrow> string \<Rightarrow> string \<Rightarrow> 'd \<Rightarrow> result \<times> 'd"
  d_StartContainer :: "dctx \<Rightarrow> string \<Rightarrow> 'd \<Rightarrow> result \<times> 'd"
  d_StopContainer :: "dctx \<Rightarrow> string \<Rightarrow> duration \<Rightarrow> 'd \<Rightarrow> result \<times> 'd"
  d_RemoveContainer :: "dctx \<Rightarrow> string \<Rightarrow> bool \<Rightarrow> 'd \<Rightarrow> result \<times> 'd"
  d_WaitContainer :: "dctx \<Rightarrow> string \<Rightarrow> 'd \<Rightarrow> (go_error + int) \<times> 'd"
  d_GetContainerLogs :: "dctx \<Rightarrow> string \<Rightarrow> 'd \<Rightarrow> (go_error + string list option) \<times> 'd"
  d_RunExec :: "dctx \<Rightarrow> string \<Rightarrow> exec_config \<Rightarrow> 'd \<Rightarrow> (go_error + int) \<times> 'd"

text \<open>What else a job reads: the argument parser, the file system and the default annotations.\<close>

record job_env =
  je_GetArgs :: "string \<Rightarrow> string list"
  je_fs :: file_system
  je_hostname :: string
  je_version :: string
  je_time :: string

datatype docker_call =
    EnsureImage dctx string bool
  | CreateContainer dctx container_config "go_error + string"
  | ConnectNetwork dctx string string result
  | StartContainer dctx string
  | StopContainer dctx string duration
  | RemoveContainer dctx string bool
  | WaitContainer dctx string
  | GetContainerLogs dctx string
  | RunExec dctx string exec_config

text \<open>The state of a job and its surroundings: the daemon, the calls made so far, the shared field
  \<^verbatim>\<open>containerID\<close>, the chunks written to the output of the execution and the warnings.\<close>

record 'd job_world =
  w_docker :: 'd
  w_calls :: "docker_call list"
  w_containerID :: string
  w_output :: "string list"
  w_warnings :: "string list"

definition called :: "docker_call \<Rightarrow> 'd \<Rightarrow> 'd job_world \<Rightarrow> 'd job_world" where
  "called c d w = w\<lparr>w_docker := d, w_calls := w_calls w @ [c]\<rparr>"

definition Warn :: "string \<Rightarrow> 'd job_world \<Rightarrow> 'd job_world" where
  "Warn msg w = w\<lparr>w_warnings := w_warnings w @ [msg]\<rparr>"

text \<open>The inspector that the environment of a job is read with.\<close>

definition provider_inspector :: "'d docker \<Rightarrow> 'd \<Rightarrow> inspector" where
  "provider_inspector P d c = map_sum id snd (d_InspectContainer P RunCtx c d)"

definition wrap_result :: "string \<Rightarrow> result \<Rightarrow> result" where
  "wrap_result what r = map_option (\<lambda>err. Errorf [Lit what, Wrap err]) r"

section \<open>Run jobs\<close>

record RunJob_conf =
  rj_Name :: string
  rj_Command :: string
  rj_User :: string
  rj_ContainerName :: "string option"
  rj_TTY :: bool
  rj_Delete :: string
  rj_Pull :: string
  rj_Image :: string
  rj_Network :: string
  rj_Hostname :: string
  rj_Entrypoint :: "string option"
  rj_Container :: string
  rj_Volume :: "string list"
  rj_VolumesFrom :: "string list"
  rj_Environment :: "string list"
  rj_EnvFile :: "string list"
  rj_EnvFrom :: "string list"
  rj_WorkingDir :: string
  rj_Annotations :: "string list"
  rj_MaxRuntime :: duration

definition rj_Validate :: "RunJob_conf \<Rightarrow> result" where
  "rj_Validate j = (if rj_Image j = [] \<and> rj_Container j = [] then Some (Sentinel ErrImageOrContainer) else None)"

definition jobCleanupTimeout :: duration where
  "jobCleanupTimeout = 30 * second"

definition setContainerID :: "string \<Rightarrow> 'd job_world \<Rightarrow> 'd job_world" where
  "setContainerID cid w = w\<lparr>w_containerID := cid\<rparr>"

definition entrypointSlice :: "job_env \<Rightarrow> string option \<Rightarrow> string list option" where
  "entrypointSlice E ep = map_option (je_GetArgs E) ep"

definition ensureImageAvailable ::
  "'d docker \<Rightarrow> RunJob_conf \<Rightarrow> bool \<Rightarrow> 'd job_world \<Rightarrow> result \<times> 'd job_world" where
  "ensureImageAvailable P j pull w =
     (let (r, d) = d_EnsureImage P RunCtx (rj_Image j) pull (w_docker w)
      in (wrap_result ''ensuring image: '' r, called (EnsureImage RunCtx (rj_Image j) pull) d w))"

definition container_config_of :: "job_env \<Rightarrow> RunJob_conf \<Rightarrow> string list \<Rightarrow> container_config" where
  "container_config_of E j mergedEnv =
     \<lparr>cc_Image = rj_Image j, cc_Cmd = je_GetArgs E (rj_Command j),
      cc_Entrypoint = entrypointSlice E (rj_Entrypoint j), cc_Env = mergedEnv,
      cc_WorkingDir = rj_WorkingDir j, cc_User = rj_User j, cc_Hostname = rj_Hostname j,
      cc_AttachStdin = False, cc_AttachStdout = True, cc_AttachStderr = True, cc_Tty = rj_TTY j,
      cc_Name = (case rj_ContainerName j of Some n \<Rightarrow> n | None \<Rightarrow> rj_Name j),
      cc_Labels = mergeAnnotations (rj_Annotations j)
        (getDefaultAnnotations (je_hostname E) (je_version E) (je_time E) (rj_Name j) ''run''),
      cc_Binds = rj_Volume j, cc_VolumesFrom = rj_VolumesFrom j\<rparr>"

text \<open>The loop that connects the container to the networks that were found.\<close>

primrec connect_networks ::
  "'d docker \<Rightarrow> string \<Rightarrow> string list \<Rightarrow> 'd job_world \<Rightarrow> result \<times> 'd job_world" where
  "connect_networks P cid [] w = (None, w)"
| "connect_networks P cid (n # ns) w =
     (let (r, d) = d_ConnectNetwork P RunCtx n cid (w_docker w);
          w1 = called (ConnectNetwork RunCtx n cid r) d w
      in case r of
           Some err \<Rightarrow> (Some (Errorf [Lit ''connecting network: '', Wrap err]), w1)
         | None \<Rightarrow> connect_networks P cid ns w1)"

text \<open>\<^verbatim>\<open>buildContainer\<close> returns an identifier and an error, the identifier also when the network
  could not be connected.\<close>

definition buildContainer ::
  "'d docker \<Rightarrow> job_env \<Rightarrow> RunJob_conf \<Rightarrow> 'd job_world \<Rightarrow> (string \<times> result) \<times> 'd job_world" where
  "buildContainer P E j w =
     (case fst (ResolveJobEnvironment (je_fs E) (rj_EnvFile j) (rj_EnvFrom j) (rj_Environment j)
                 (Some (provider_inspector P (w_docker w)))) of
        Inl err \<Rightarrow> (([], Some err), w)
      | Inr mergedEnv \<Rightarrow>
          let cfg = container_config_of E j mergedEnv;
              (r, d) = d_CreateContainer P RunCtx cfg (cc_Name cfg) (w_docker w);
              w1 = called (CreateContainer RunCtx cfg r) d w
          in case r of
               Inl err \<Rightarrow> (([], Some (Errorf [Lit ''creating container: '', Wrap err])), w1)
             | Inr cid \<Rightarrow>
                 if rj_Network j = [] then ((cid, None), w1)
                 else case d_FindNetworkByName P RunCtx (rj_Network j) (w_docker w1) of
                        Inl _ \<Rightarrow> ((cid, None), w1)
                      | Inr networks \<Rightarrow>
                          let (e, w2) = connect_networks P cid networks w1 in ((cid, e), w2))"

definition createOrInspectContainer ::
  "'d docker \<Rightarrow> job_env \<Rightarrow> RunJob_conf \<Rightarrow> 'd job_world \<Rightarrow> (string \<times> result) \<times> 'd job_world" where
  "createOrInspectContainer P E j w =
     (if rj_Image j \<noteq> [] \<and> rj_Container j = [] then buildContainer P E j w
      else case d_InspectContainer P RunCtx (rj_Container j) (w_docker w) of
             Inl err \<Rightarrow> (([], Some (Errorf [Lit ''inspecting container: '', Wrap err])), w)
           | Inr (cid, _) \<Rightarrow> ((cid, None), w))"

definition startContainer :: "'d docker \<Rightarrow> 'd job_world \<Rightarrow> result \<times> 'd job_world" where
  "startContainer P w =
     (let (r, d) = d_StartContainer P RunCtx (w_containerID w) (w_docker w)
      in (wrap_result ''starting container: '' r, called (StartContainer RunCtx (w_containerID w)) d w))"

definition stopContainer :: "'d docker \<Rightarrow> dctx \<Rightarrow> duration \<Rightarrow> 'd job_world \<Rightarrow> result \<times> 'd job_world" where
  "stopContainer P c timeout w =
     (let (r, d) = d_StopContainer P c (w_containerID w) timeout (w_docker w)
      in (wrap_result ''stopping container: '' r, called (StopContainer c (w_containerID w) timeout) d w))"

definition deleteContainer :: "'d docker \<Rightarrow> RunJob_conf \<Rightarrow> dctx \<Rightarrow> 'd job_world \<Rightarrow> result \<times> 'd job_world" where
  "deleteContainer P j c w =
     (if \<not> ParseBool (rj_Delete j) then (None, w)
      else
        let (r, d) = d_RemoveContainer P c (w_containerID w) False (w_docker w)
        in (wrap_result ''removing container: '' r, called (RemoveContainer c (w_containerID w) False) d w))"

text \<open>The result of an exit code, also used by \<^verbatim>\<open>ExecJob\<close>.\<close>

definition exit_result :: "int \<Rightarrow> result" where
  "exit_result code =
     (if code = 0 then None
      else if code = -1 then Some (Sentinel ErrUnexpected)
      else Some (NonZeroExitError code))"

definition watchContainer :: "'d docker \<Rightarrow> dctx \<Rightarrow> 'd job_world \<Rightarrow> result \<times> 'd job_world" where
  "watchContainer P c w =
     (let (r, d) = d_WaitContainer P c (w_containerID w) (w_docker w);
          w1 = called (WaitContainer c (w_containerID w)) d w
      in case r of
           Inl err \<Rightarrow>
             (if d_Err P c d \<noteq> None then (Some (Sentinel ErrMaxTimeRunning), w1)
              else (Some (Errorf [Lit ''waiting for container: '', Wrap err]), w1))
         | Inr exitCode \<Rightarrow> (exit_result exitCode, w1))"

text \<open>The end of \<^verbatim>\<open>startAndWait\<close>: the logs are copied to the output of the execution.\<close>

definition fetch_logs :: "'d docker \<Rightarrow> 'd job_world \<Rightarrow> 'd job_world" where
  "fetch_logs P w =
     (let (r, d) = d_GetContainerLogs P RunCtx (w_containerID w) (w_docker w);
          w1 = called (GetContainerLogs RunCtx (w_containerID w)) d w
      in case r of
           Inl err \<Rightarrow> Warn (''failed to fetch container logs: '' @ err_msg err) w1
         | Inr None \<Rightarrow> w1
         | Inr (Some chunks) \<Rightarrow> w1\<lparr>w_output := w_output w1 @ chunks\<rparr>)"

definition watch_ctx :: "RunJob_conf \<Rightarrow> dctx" where
  "watch_ctx j = (if 0 < rj_MaxRuntime j then WatchCtx else RunCtx)"

definition startAndWait :: "'d docker \<Rightarrow> RunJob_conf \<Rightarrow> 'd job_world \<Rightarrow> result \<times> 'd job_world" where
  "startAndWait P j w =
     (case startContainer P w of
        (Some err, w1) \<Rightarrow> (Some err, w1)
      | (None, w1) \<Rightarrow>
          let (err, w2) = watchContainer P (watch_ctx j) w1
          in if err_is err ErrUnexpected then (err, w2) else (err, fetch_logs P w2))"

definition cleanupOnDeadline :: "'d docker \<Rightarrow> RunJob_conf \<Rightarrow> 'd job_world \<Rightarrow> 'd job_world" where
  "cleanupOnDeadline P j w =
     (let (stopErr, w1) = stopContainer P CleanupCtx (10 * second) w;
          w2 = (case stopErr of
                  Some e \<Rightarrow> Warn (''failed to stop container after deadline: '' @ err_msg e) w1 | None \<Rightarrow> w1);
          (delErr, w3) = deleteContainer P j CleanupCtx w2
      in case delErr of Some e \<Rightarrow> Warn (''failed to delete container: '' @ err_msg e) w3 | None \<Rightarrow> w3)"

definition cleanupAfterRun :: "'d docker \<Rightarrow> RunJob_conf \<Rightarrow> 'd job_world \<Rightarrow> 'd job_world" where
  "cleanupAfterRun P j w =
     (if d_Err P RunCtx (w_docker w) = None
      then case deleteContainer P j RunCtx w of
             (Some e, w1) \<Rightarrow> Warn (''failed to delete container: '' @ err_msg e) w1
           | (None, w1) \<Rightarrow> w1
      else cleanupOnDeadline P j w)"

text \<open>\<^verbatim>\<open>Run\<close> up to \<^verbatim>\<open>setContainerID\<close>, then the rest with the deferred teardown.\<close>

definition rj_acquire :: "'d docker \<Rightarrow> job_env \<Rightarrow> RunJob_conf \<Rightarrow> 'd job_world \<Rightarrow> result \<times> 'd job_world" where
  "rj_acquire P E j w =
     (let (r, w1) = (if rj_Image j \<noteq> [] \<and> rj_Container j = []
                     then ensureImageAvailable P j (ParseBool (rj_Pull j)) w else (None, w))
      in case r of
           Some err \<Rightarrow> (Some err, w1)
         | None \<Rightarrow>
             case createOrInspectContainer P E j w1 of
               ((_, Some err), w2) \<Rightarrow> (Some err, w2)
             | ((cid, None), w2) \<Rightarrow> (None, setContainerID cid w2))"

definition rj_Run :: "'d docker \<Rightarrow> job_env \<Rightarrow> RunJob_conf \<Rightarrow> 'd job_world \<Rightarrow> result \<times> 'd job_world" where
  "rj_Run P E j w =
     (case rj_acquire P E j w of
        (Some err, w1) \<Rightarrow> (Some err, w1)
      | (None, w1) \<Rightarrow>
          let (err, w2) = startAndWait P j w1
          in (err, if rj_Container j = [] then cleanupAfterRun P j w2 else w2))"

section \<open>Exec jobs\<close>

record ExecJob_conf =
  ej_Command :: string
  ej_Container :: string
  ej_User :: string
  ej_TTY :: bool
  ej_Environment :: "string list"
  ej_EnvFile :: "string list"
  ej_EnvFrom :: "string list"
  ej_WorkingDir :: string
  ej_Privileged :: bool

definition exec_config_of :: "job_env \<Rightarrow> ExecJob_conf \<Rightarrow> string list \<Rightarrow> exec_config" where
  "exec_config_of E j mergedEnv =
     \<lparr>ec_Cmd = je_GetArgs E (ej_Command j), ec_Env = mergedEnv, ec_WorkingDir = ej_WorkingDir j,
      ec_User = ej_User j, ec_AttachStdin = False, ec_AttachStdout = True, ec_AttachStderr = True, ec_Tty = ej_TTY j, ec_Privileged = ej_Privileged j\<rparr>"

definition ej_Run :: "'d docker \<Rightarrow> job_env \<Rightarrow> ExecJob_conf \<Rightarrow> 'd job_world \<Rightarrow> result \<times> 'd job_world" where
  "ej_Run P E j w =
     (case fst (ResolveJobEnvironment (je_fs E) (ej_EnvFile j) (ej_EnvFrom j) (ej_Environment j)
                 (Some (provider_inspector P (w_docker w)))) of
        Inl err \<Rightarrow> (Some err, w)
      | Inr mergedEnv \<Rightarrow>
          let cfg = exec_config_of E j mergedEnv;
              (r, d) = d_RunExec P RunCtx (ej_Container j) cfg (w_docker w);
              w1 = called (RunExec RunCtx (ej_Container j) cfg) d w
          in case r of
               Inl err \<Rightarrow> (Some (Errorf [Lit ''exec run: '', Wrap err]), w1)
             | Inr exitCode \<Rightarrow> (exit_result exitCode, w1))"

text \<open>\<^verbatim>\<open>RunWithStreams\<close> returns the exit code beside the error.\<close>

definition RunWithStreams ::
  "'d docker \<Rightarrow> job_env \<Rightarrow> ExecJob_conf \<Rightarrow> (go_error \<Rightarrow> int) \<Rightarrow> 'd job_world \<Rightarrow> (int \<times> result) \<times> 'd job_world" where
  "RunWithStreams P E j code_with w =
     (case fst (ResolveJobEnvironment (je_fs E) (ej_EnvFile j) (ej_EnvFrom j) (ej_Environment j)
                 (Some (provider_inspector P (w_docker w)))) of
        Inl err \<Rightarrow> ((0, Some err), w)
      | Inr mergedEnv \<Rightarrow>
          let cfg = exec_config_of E j mergedEnv;
              (r, d) = d_RunExec P RunCtx (ej_Container j) cfg (w_docker w);
              w1 = called (RunExec RunCtx (ej_Container j) cfg) d w
          in case r of
               Inl err \<Rightarrow> ((code_with err, Some (Errorf [Lit ''run exec: '', Wrap err])), w1)
             | Inr exitCode \<Rightarrow> ((exitCode, None), w1))"

section \<open>The calls of a run\<close>

fun is_teardown :: "docker_call \<Rightarrow> bool" where
  "is_teardown (StopContainer c i t) = True"
| "is_teardown (RemoveContainer c i f) = True"
| "is_teardown _ = False"

text \<open>The container that a call on the life of a container names.\<close>

fun call_id :: "docker_call \<Rightarrow> string option" where
  "call_id (StartContainer c i) = Some i"
| "call_id (StopContainer c i t) = Some i"
| "call_id (RemoveContainer c i f) = Some i"
| "call_id (WaitContainer c i) = Some i"
| "call_id (GetContainerLogs c i) = Some i"
| "call_id _ = None"

definition teardowns :: "'d job_world \<Rightarrow> docker_call list" where
  "teardowns w = filter is_teardown (w_calls w)"

text \<open>The calls of an operation go to the end of the list, all with a given property, and the
  field \<^verbatim>\<open>containerID\<close> is kept.\<close>

definition extends :: "(docker_call \<Rightarrow> bool) \<Rightarrow> 'd job_world \<Rightarrow> 'd job_world \<Rightarrow> bool" where
  "extends p w w' \<longleftrightarrow> w_containerID w' = w_containerID w \<and> (\<exists>cs. w_calls w' = w_calls w @ cs \<and> list_all p cs)"

lemma extends_refl [simp]: "extends p w w"
  by (simp add: extends_def)

lemma extends_trans [trans]: "extends p w w1 \<Longrightarrow> extends p w1 w2 \<Longrightarrow> extends p w w2"
  by (auto simp: extends_def)

lemma extends_mono: "extends p w w' \<Longrightarrow> (\<And>c. p c \<Longrightarrow> q c) \<Longrightarrow> extends q w w'"
  by (auto simp: extends_def list_all_iff)

lemma extends_called [simp]: "extends p w (called c d w') \<longleftrightarrow> extends p w w' \<and> p c" if "extends p w w'"
  using that by (auto simp: extends_def called_def)

lemma extends_Warn [simp]: "extends p w (Warn m w') \<longleftrightarrow> extends p w w'"
  by (simp add: extends_def Warn_def)

lemma extends_output [simp]: "extends p w (w'\<lparr>w_output := out\<rparr>) \<longleftrightarrow> extends p w w'"
  by (simp add: extends_def)

lemma teardowns_simps [simp]:
  "teardowns (called c d w) = teardowns w @ (if is_teardown c then [c] else [])"
  "teardowns (Warn m w) = teardowns w"
  "teardowns (w\<lparr>w_output := out\<rparr>) = teardowns w"
  "teardowns (setContainerID i w) = teardowns w"
  "w_containerID (called c d w) = w_containerID w"
  "w_containerID (Warn m w) = w_containerID w"
  "w_containerID (setContainerID i w) = i"
  by (simp_all add: teardowns_def called_def Warn_def setContainerID_def)

lemma extends_teardowns: "extends (\<lambda>c. \<not> is_teardown c) w w' \<Longrightarrow> teardowns w' = teardowns w"
  by (auto simp: extends_def teardowns_def list_all_iff)

lemma connect_extends: "extends (\<lambda>c. call_id c = None) w (snd (connect_networks P cid ns w))"
proof (induction ns arbitrary: w)
  case (Cons n ns)
  have "extends (\<lambda>c. call_id c = None) w (snd (connect_networks P cid ns (called (ConnectNetwork RunCtx n cid r) d w)))" for r d
    by (rule extends_trans [OF _ Cons.IH]) simp
  then show ?case by (simp add: Let_def split: prod.splits option.splits)
qed simp

lemma build_extends: "extends (\<lambda>c. call_id c = None) w (snd (buildContainer P E j w))"
proof -
  have c: "extends (\<lambda>c. call_id c = None) w (snd (connect_networks P cid ns (called (CreateContainer RunCtx cfg r) d w)))"
    for cid ns cfg r d
    by (rule extends_trans [OF _ connect_extends]) simp
  show ?thesis
    using c by (auto simp: buildContainer_def Let_def split: prod.splits sum.splits) (metis snd_conv)
qed

lemma not_teardown: "call_id c = None \<Longrightarrow> \<not> is_teardown c"
  by (cases c) simp_all

lemma ensure_teardowns [simp]: "teardowns (snd (ensureImageAvailable P j pull w)) = teardowns w"
  by (simp add: ensureImageAvailable_def Let_def split: prod.splits)

lemma build_teardowns [simp]: "teardowns (snd (buildContainer P E j w)) = teardowns w"
  by (rule extends_teardowns, rule extends_mono [OF build_extends]) (rule not_teardown)

lemma acquire_teardowns [simp]: "teardowns (snd (rj_acquire P E j w)) = teardowns w"
proof -
  have "teardowns (snd (createOrInspectContainer P E j w)) = teardowns w" for w
    by (simp add: createOrInspectContainer_def split: sum.splits)
  then have "createOrInspectContainer P E j w1 = (r, w2) \<Longrightarrow> teardowns w2 = teardowns w1" for w1 w2 r
    by (metis snd_conv)
  moreover have "ensureImageAvailable P j pull w = (r, w2) \<Longrightarrow> teardowns w2 = teardowns w" for r w2 pull
    using ensure_teardowns [of P j pull w] by simp
  ultimately show ?thesis
    by (auto simp: rj_acquire_def Let_def split: prod.splits option.splits if_splits)
qed

text \<open>Starting, waiting and reading the logs concern the container in the field of the job.\<close>

abbreviation on_container :: "string \<Rightarrow> docker_call \<Rightarrow> bool" where
  "on_container cid c \<equiv> call_id c = Some cid \<and> \<not> is_teardown c"

lemma start_extends: "extends (on_container (w_containerID w)) w (snd (startContainer P w))"
  by (simp add: startContainer_def Let_def split: prod.splits)

lemma watch_extends: "extends (on_container (w_containerID w)) w (snd (watchContainer P c w))"
  by (simp add: watchContainer_def Let_def split: prod.splits sum.splits)

lemma fetch_extends: "extends (on_container (w_containerID w)) w (fetch_logs P w)"
  by (simp add: fetch_logs_def Let_def split: prod.splits sum.splits option.splits)

lemma extends_id: "extends p w w' \<Longrightarrow> w_containerID w' = w_containerID w"
  by (simp add: extends_def)

lemma startAndWait_extends: "extends (on_container (w_containerID w)) w (snd (startAndWait P j w))"
proof -
  obtain r w1 where s: "startContainer P w = (r, w1)" by fastforce
  obtain e w2 where x: "watchContainer P (watch_ctx j) w1 = (e, w2)" by fastforce
  have 1: "extends (on_container (w_containerID w)) w w1" using start_extends [of w P] s by simp
  have 2: "extends (on_container (w_containerID w)) w1 w2"
    using watch_extends [of w1 P "watch_ctx j"] x extends_id [OF 1] by simp
  have 3: "extends (on_container (w_containerID w)) w2 (fetch_logs P w2)"
    using fetch_extends [of w2 P] extends_id [OF 1] extends_id [OF 2] by simp
  show ?thesis
    using 1 extends_trans [OF 1 2] extends_trans [OF extends_trans [OF 1 2] 3]
    by (simp add: startAndWait_def s x split: option.splits)
qed

lemma startAndWait_frame [simp]:
  "w_containerID (snd (startAndWait P j w)) = w_containerID w"
  "teardowns (snd (startAndWait P j w)) = teardowns w"
  using startAndWait_extends [of w P j] extends_teardowns [OF extends_mono [OF startAndWait_extends [of w P j]]]
  by (simp_all add: extends_def)

lemma cleanup_extends:
  "extends (\<lambda>c. call_id c = Some (w_containerID w)) w (cleanupAfterRun P j w)"
  by (simp add: cleanupAfterRun_def cleanupOnDeadline_def deleteContainer_def stopContainer_def Let_def wrap_result_def
      split: prod.splits option.splits)

definition teardown_of :: "bool \<Rightarrow> bool \<Rightarrow> string \<Rightarrow> docker_call list" where
  "teardown_of expired del cid =
     (if expired then [StopContainer CleanupCtx cid (10 * second)] else []) @
     (if del then [RemoveContainer (if expired then CleanupCtx else RunCtx) cid False] else [])"

lemma cleanup_teardowns:
  "teardowns (cleanupAfterRun P j w) =
     teardowns w @ teardown_of (d_Err P RunCtx (w_docker w) \<noteq> None) (ParseBool (rj_Delete j)) (w_containerID w)"
  by (simp add: cleanupAfterRun_def cleanupOnDeadline_def deleteContainer_def stopContainer_def Let_def wrap_result_def
      teardown_of_def split: prod.splits option.splits)

text \<open>The container that a run works on is the one it created, unless it was given one.\<close>

lemma build_created:
  assumes "buildContainer P E j w = ((cid, e), w')" "e = None \<or> cid \<noteq> []"
  shows "\<exists>cfg. CreateContainer RunCtx cfg (Inr cid) \<in> set (w_calls w')"
proof -
  have k: "CreateContainer RunCtx cfg (Inr i) \<in> set (w_calls w2)"
    if "connect_networks P i ns (called (CreateContainer RunCtx cfg (Inr i)) d w) = (e, w2)" for cfg i ns d e w2
    using connect_extends [of "called (CreateContainer RunCtx cfg (Inr i)) d w" P i ns] that
    by (auto simp: extends_def called_def)
  have m: "CreateContainer RunCtx cfg (Inr i) \<in> set (w_calls (called (CreateContainer RunCtx cfg (Inr i)) d w))" for cfg i d
    by (simp add: called_def)
  from assms show ?thesis
    by (auto simp: buildContainer_def Let_def split: prod.splits sum.splits if_splits dest!: k intro: m)
qed

lemma acquire_created:
  assumes "rj_acquire P E j w = (None, w')" "rj_Image j \<noteq> []" "rj_Container j = []"
  shows "\<exists>cfg. CreateContainer RunCtx cfg (Inr (w_containerID w')) \<in> set (w_calls w')"
proof -
  obtain cid w2 where c: "buildContainer P E j (snd (ensureImageAvailable P j (ParseBool (rj_Pull j)) w)) = ((cid, None), w2)"
    "w' = setContainerID cid w2"
    using assms by (auto simp: rj_acquire_def createOrInspectContainer_def split: prod.splits option.splits)
  from build_created [OF c(1)] c(2) show ?thesis by (simp add: setContainerID_def)
qed

lemma extends_member: "extends p w w' \<Longrightarrow> c \<in> set (w_calls w) \<Longrightarrow> c \<in> set (w_calls w')"
  by (auto simp: extends_def)

lemma rj_Run_ok:
  assumes "rj_acquire P E j w = (None, w1)"
  shows "rj_Run P E j w = (fst (startAndWait P j w1),
     if rj_Container j = [] then cleanupAfterRun P j (snd (startAndWait P j w1)) else snd (startAndWait P j w1))"
  by (simp add: rj_Run_def assms split: prod.splits)

lemma rj_Run_err: "rj_acquire P E j w = (Some err, w1) \<Longrightarrow> rj_Run P E j w = (Some err, w1)"
  by (simp add: rj_Run_def)

text \<open>The errors of a run before the container has been waited for are wrapped errors.\<close>

lemma map_sum_Inl: "map_sum f g x = Inl e \<longleftrightarrow> (\<exists>e'. x = Inl e' \<and> e = f e')"
  by (cases x) auto

lemma env_error_wrapped:
  assumes "fst (ResolveJobEnvironment fs fl fr ex pr) = Inl err"
  shows "\<exists>ps. err = Errorf ps"
proof -
  have f: "load_files fs fl = Inl e \<Longrightarrow> \<exists>ps. e = Errorf ps" for e
    by (induction fl) (auto simp: map_sum_Inl split: sum.splits)
  have c: "load_containers pr fr = (Inl e, ws) \<Longrightarrow> \<exists>ps. e = Errorf ps" for e ws
  proof (induction fr arbitrary: ws)
    case (Cons k fr)
    then show ?case
      by (cases "load_containers pr fr") (auto simp: map_sum_Inl split: sum.splits if_splits)
  qed simp
  from assms f c show ?thesis
    by (auto simp: ResolveJobEnvironment_def split: sum.splits prod.splits)
qed

lemma connect_error_wrapped: "connect_networks P cid ns w = (Some err, w') \<Longrightarrow> \<exists>ps. err = Errorf ps"
  by (induction ns arbitrary: w) (auto simp: Let_def split: prod.splits option.splits)

lemma build_error_wrapped: "buildContainer P E j w = ((i, Some err), w') \<Longrightarrow> \<exists>ps. err = Errorf ps"
  by (auto simp: buildContainer_def Let_def split: sum.splits prod.splits if_splits
      dest: env_error_wrapped connect_error_wrapped)

lemma acquire_error_wrapped:
  assumes "rj_acquire P E j w = (Some err, w')"
  shows "\<exists>ps. err = Errorf ps"
  using assms build_error_wrapped
  by (fastforce simp: rj_acquire_def ensureImageAvailable_def createOrInspectContainer_def wrap_result_def Let_def
      split: sum.splits prod.splits if_splits option.splits)

text \<open>A run that waited for its container, with what the wait returned.\<close>

definition waited :: "'d docker \<Rightarrow> job_env \<Rightarrow> RunJob_conf \<Rightarrow> 'd job_world \<Rightarrow> go_error + int \<Rightarrow> 'd \<Rightarrow> bool" where
  "waited P E j w r d \<longleftrightarrow>
     (\<exists>w1 w2. rj_acquire P E j w = (None, w1) \<and> startContainer P w1 = (None, w2) \<and>
        d_WaitContainer P (watch_ctx j) (w_containerID w1) (w_docker w2) = (r, d))"

definition wait_result :: "'d docker \<Rightarrow> dctx \<Rightarrow> go_error + int \<Rightarrow> 'd \<Rightarrow> result" where
  "wait_result P c r d =
     (case r of
        Inr code \<Rightarrow> exit_result code
      | Inl err \<Rightarrow> if d_Err P c d \<noteq> None then Some (Sentinel ErrMaxTimeRunning)
                   else Some (Errorf [Lit ''waiting for container: '', Wrap err]))"

lemma start_id: "startContainer P w = (r, w') \<Longrightarrow> w_containerID w' = w_containerID w"
  using extends_id [OF start_extends [of w P]] by simp

lemma startAndWait_result:
  "fst (startAndWait P j w) =
     (case startContainer P w of
        (Some err, w1) \<Rightarrow> Some err
      | (None, w1) \<Rightarrow>
          case d_WaitContainer P (watch_ctx j) (w_containerID w1) (w_docker w1) of (r, d) \<Rightarrow> wait_result P (watch_ctx j) r d)"
proof (cases "startContainer P w")
  case (Pair r w1)
  then show ?thesis
    by (cases "d_WaitContainer P (watch_ctx j) (w_containerID w1) (w_docker w1)")
       (auto simp: startAndWait_def watchContainer_def wait_result_def Let_def split: option.splits sum.splits)
qed

lemma run_result_cases:
  obtains (early) ps where "fst (rj_Run P E j w) = Some (Errorf ps)" "\<And>r d. \<not> waited P E j w r d"
  | (late) r d where "waited P E j w r d" "fst (rj_Run P E j w) = wait_result P (watch_ctx j) r d"
      "\<And>r' d'. waited P E j w r' d' \<Longrightarrow> r' = r \<and> d' = d"
proof (cases "rj_acquire P E j w")
  case (Pair a w1)
  show thesis
  proof (cases a)
    case (Some err)
    then show thesis
      using Pair acquire_error_wrapped [of P E j w err w1] early by (auto simp: rj_Run_err waited_def)
  next
    case None
    obtain b w2 where s: "startContainer P w1 = (b, w2)" by fastforce
    obtain r d where x: "d_WaitContainer P (watch_ctx j) (w_containerID w1) (w_docker w2) = (r, d)" by fastforce
    have f: "fst (rj_Run P E j w) = fst (startAndWait P j w1)" using rj_Run_ok [of P E j w w1] None Pair by simp
    show thesis
    proof (cases b)
      case (Some err)
      then have "\<exists>ps. err = Errorf ps" using s by (auto simp: startContainer_def wrap_result_def Let_def split: prod.splits)
      then show thesis
        using early f s Some None Pair by (auto simp: startAndWait_result waited_def)
    next
      case b: None
      show thesis
      proof (rule late)
        show "waited P E j w r d" using None Pair b s x by (simp add: waited_def)
        show "fst (rj_Run P E j w) = wait_result P (watch_ctx j) r d"
          using f s b x start_id [OF s] by (simp add: startAndWait_result)
        show "waited P E j w r' d' \<Longrightarrow> r' = r \<and> d' = d" for r' d'
          using None Pair b s x by (simp add: waited_def)
      qed
    qed
  qed
qed

section \<open>Properties\<close>

text \<open>C15 (run_job_teardown): a run that was given a container never stops or removes anything. A run that
  creates its container ends with exactly this teardown of exactly that container, whatever
  the daemon answers: on a live context a removal if \<^verbatim>\<open>delete\<close> is set; once the context has expired
  first a stop, then the removal, both on a fresh context. A run that fails before it has its
  container tears nothing down.\<close>

theorem run_job_teardown:
  assumes "rj_Validate j = None"
  shows "case rj_acquire P E j w of
      (Some err, w1) \<Rightarrow> rj_Run P E j w = (Some err, w1) \<and> teardowns w1 = teardowns w
    | (None, w1) \<Rightarrow>
        if rj_Container j \<noteq> [] then teardowns (snd (rj_Run P E j w)) = teardowns w
        else (\<exists>cfg. CreateContainer RunCtx cfg (Inr (w_containerID w1)) \<in> set (w_calls (snd (rj_Run P E j w)))) \<and>
          teardowns (snd (rj_Run P E j w)) = teardowns w @
            teardown_of (d_Err P RunCtx (w_docker (snd (startAndWait P j w1))) \<noteq> None)
              (ParseBool (rj_Delete j)) (w_containerID w1)"
proof (cases "rj_acquire P E j w")
  case (Pair r w1)
  have t: "teardowns w1 = teardowns w" using acquire_teardowns [of P E j w] Pair by simp
  show ?thesis
  proof (cases r)
    case (Some err)
    then show ?thesis using Pair t by (simp add: rj_Run_err)
  next
    case None
    note run = rj_Run_ok [OF Pair [unfolded None]]
    have "\<exists>cfg. CreateContainer RunCtx cfg (Inr (w_containerID w1)) \<in> set (w_calls (snd (rj_Run P E j w)))"
      if "rj_Container j = []"
    proof -
      have "rj_Image j \<noteq> []" using assms that by (auto simp: rj_Validate_def split: if_splits)
      from acquire_created [OF Pair [unfolded None] this that] show ?thesis
        using that run extends_member [OF startAndWait_extends] extends_member [OF cleanup_extends] by fastforce
    qed
    then show ?thesis using Pair None t run by (simp add: cleanup_teardowns)
  qed
qed

text \<open>C16 (run_job_result): a run returns nil exactly when its container was created or found, started and
  exited with code 0; it returns a non-zero exit error exactly for the other exit codes but
  \<^verbatim>\<open>-1\<close>; and it reports the maximum runtime exactly when the wait failed on an expired context.\<close>

theorem run_job_result:
  "(fst (rj_Run P E j w) = None \<longleftrightarrow> (\<exists>d. waited P E j w (Inr 0) d)) \<and>
   (fst (rj_Run P E j w) = Some (NonZeroExitError n) \<longleftrightarrow> n \<noteq> 0 \<and> n \<noteq> -1 \<and> (\<exists>d. waited P E j w (Inr n) d)) \<and>
   (fst (rj_Run P E j w) = Some (Sentinel ErrMaxTimeRunning) \<longleftrightarrow>
      (\<exists>e d. waited P E j w (Inl e) d \<and> d_Err P (watch_ctx j) d \<noteq> None))"
proof (cases rule: run_result_cases [of P E j w])
  case (early ps)
  then show ?thesis by simp
next
  case (late r d)
  have "waited P E j w r' d' \<longleftrightarrow> r' = r \<and> d' = d" for r' d' using late(1,3) by blast
  then show ?thesis
    unfolding late(2) by (cases r) (auto simp: wait_result_def exit_result_def)
qed

text \<open>A daemon for the witnesses: it numbers the containers and everything succeeds.\<close>

definition sim_docker :: "nat docker" where
  "sim_docker =
     \<lparr>d_Err = (\<lambda>c d. None), d_EnsureImage = (\<lambda>c i p d. (None, d)),
      d_CreateContainer = (\<lambda>c cfg n d. (Inr (replicate (Suc d) (CHR ''c'')), Suc d)),
      d_InspectContainer = (\<lambda>c i d. Inr (i, None)), d_FindNetworkByName = (\<lambda>c n d. Inr [n]),
      d_ConnectNetwork = (\<lambda>c n i d. (None, d)), d_StartContainer = (\<lambda>c i d. (None, d)),
      d_StopContainer = (\<lambda>c i t d. (None, d)), d_RemoveContainer = (\<lambda>c i f d. (None, d)),
      d_WaitContainer = (\<lambda>c i d. (Inr 0, d)), d_GetContainerLogs = (\<lambda>c i d. (Inr None, d)),
      d_RunExec = (\<lambda>c i cfg d. (Inr 0, d))\<rparr>"

definition sim_env :: job_env where
  "sim_env = \<lparr>je_GetArgs = (\<lambda>s. [s]), je_fs = (\<lambda>p. Inr ([], None)), je_hostname = ''h'', je_version = ''v'',
     je_time = ''t''\<rparr>"

definition sim_job :: RunJob_conf where
  "sim_job = \<lparr>rj_Name = ''j'', rj_Command = ''true'', rj_User = [], rj_ContainerName = None, rj_TTY = False,
     rj_Delete = ''true'', rj_Pull = ''true'', rj_Image = ''alpine'', rj_Network = ''net'', rj_Hostname = [],
     rj_Entrypoint = None, rj_Container = [], rj_Volume = [], rj_VolumesFrom = [], rj_Environment = [],
     rj_EnvFile = [], rj_EnvFrom = [], rj_WorkingDir = [], rj_Annotations = [], rj_MaxRuntime = 0\<rparr>"

definition sim_world :: "nat job_world" where
  "sim_world = \<lparr>w_docker = 0, w_calls = [], w_containerID = [], w_output = [], w_warnings = []\<rparr>"

lemma sim_env_resolve: "fst (ResolveJobEnvironment (je_fs sim_env) [] [] [] pr) = Inr []"
  by (simp add: ResolveJobEnvironment_def MergeEnvironments_def)

lemmas sim_defs = sim_docker_def sim_job_def called_def Let_def

lemma sim_acquire:
  "\<exists>w'. rj_acquire sim_docker sim_env sim_job w = (None, w') \<and> w_containerID w' = replicate (Suc (w_docker w)) (CHR ''c'') \<and>
     w_docker w' = Suc (w_docker w)"
  using sim_env_resolve
  by (simp add: rj_acquire_def ensureImageAvailable_def createOrInspectContainer_def buildContainer_def sim_defs
      wrap_result_def setContainerID_def)

theorem run_job_teardown_witness:
  "teardowns (snd (rj_Run sim_docker sim_env sim_job sim_world)) = [RemoveContainer RunCtx ''c'' False]"
proof -
  obtain w' where w': "rj_acquire sim_docker sim_env sim_job sim_world = (None, w')" "w_containerID w' = ''c''"
    using sim_acquire [of sim_world] by (auto simp: sim_world_def)
  have "rj_Validate sim_job = None" "rj_Container sim_job = []" "ParseBool (rj_Delete sim_job)"
    "d_Err sim_docker c d = None" "teardowns sim_world = []" for c d
    by (simp_all add: rj_Validate_def sim_job_def ParseBool_def sim_docker_def teardowns_def sim_world_def)
  with run_job_teardown [of sim_job sim_docker sim_env sim_world] w' show ?thesis
    by (simp add: teardown_of_def)
qed

text \<open>(network_failure_leaks_container): when the new container cannot be connected to its network, the
  run ends with that error and the container it has just created is neither stopped nor
  removed, whatever \<^verbatim>\<open>delete\<close> says.\<close>

theorem network_failure_leaks_container:
  assumes "rj_Image j \<noteq> []" "rj_Container j = []"
    "ensureImageAvailable P j (ParseBool (rj_Pull j)) w = (None, w1)"
    "buildContainer P E j w1 = ((cid, Some err), w2)" "cid \<noteq> []"
  shows "rj_Run P E j w = (Some err, w2) \<and> teardowns w2 = teardowns w \<and>
    (\<exists>cfg. CreateContainer RunCtx cfg (Inr cid) \<in> set (w_calls w2))"
proof -
  have a: "rj_acquire P E j w = (Some err, w2)"
    using assms(1-4) by (simp add: rj_acquire_def createOrInspectContainer_def)
  then have "teardowns w2 = teardowns w" using acquire_teardowns [of P E j w] by simp
  moreover have "\<exists>cfg. CreateContainer RunCtx cfg (Inr cid) \<in> set (w_calls w2)"
    using build_created [OF assms(4)] assms(5) by simp
  ultimately show ?thesis using rj_Run_err [OF a] by simp
qed

theorem network_failure_leaks_container_witness:
  "\<exists>w'. rj_Run (sim_docker\<lparr>d_ConnectNetwork := \<lambda>c n i d. (Some (Opaque 0 ''no such network''), d)\<rparr>) sim_env sim_job sim_world =
       (Some (Errorf [Lit ''connecting network: '', Wrap (Opaque 0 ''no such network'')]), w') \<and> teardowns w' = []"
proof -
  let ?P = "sim_docker\<lparr>d_ConnectNetwork := \<lambda>c n i d. (Some (Opaque 0 ''no such network''), d)\<rparr>"
  obtain w1 where e: "ensureImageAvailable ?P sim_job (ParseBool (rj_Pull sim_job)) sim_world = (None, w1)"
    "w_docker w1 = 0"
    by (simp add: ensureImageAvailable_def sim_defs wrap_result_def sim_world_def)
  obtain w2 where b: "buildContainer ?P sim_env sim_job w1 =
      ((''c'', Some (Errorf [Lit ''connecting network: '', Wrap (Opaque 0 ''no such network'')])), w2)"
    using sim_env_resolve e(2) by (simp add: buildContainer_def sim_defs)
  have "teardowns sim_world = []" "rj_Image sim_job \<noteq> []" "rj_Container sim_job = []"
    by (simp_all add: teardowns_def sim_world_def sim_job_def)
  with network_failure_leaks_container [OF _ _ e(1) b] show ?thesis by auto
qed

text \<open>(overlapping_runs_mix_containers): the identifier of the container is a field of the job. When a
  second run of the same job acquires its container before the first one is through, every
  start, wait, stop and removal of both runs concerns the container of the second run: the
  container that the first run created is never started and never removed.\<close>

theorem overlapping_runs_mix_containers:
  assumes "rj_acquire P E j w = (None, w1)" "rj_acquire Q E j w1 = (None, w2)" "rj_Container j = []"
    "w3 = cleanupAfterRun P j (snd (startAndWait P j w2))"
    "w4 = cleanupAfterRun Q j (snd (startAndWait Q j w3))"
  shows "\<exists>cs. w_calls w4 = w_calls w2 @ cs \<and> list_all (\<lambda>c. call_id c = Some (w_containerID w2)) cs \<and>
    (ParseBool (rj_Delete j) \<longrightarrow> length (filter is_teardown cs) \<ge> 2)"
proof -
  let ?p = "\<lambda>c. call_id c = Some (w_containerID w2)"
  have run: "extends ?p v (cleanupAfterRun R j (snd (startAndWait R j v)))" if "w_containerID v = w_containerID w2" for R v
  proof (rule extends_trans)
    show "extends ?p v (snd (startAndWait R j v))"
      by (rule extends_mono [OF startAndWait_extends]) (simp add: that)
    show "extends ?p (snd (startAndWait R j v)) (cleanupAfterRun R j (snd (startAndWait R j v)))"
      using cleanup_extends [of "snd (startAndWait R j v)" R j] that by simp
  qed
  have 3: "extends ?p w2 w3" unfolding assms(4) by (rule run) simp
  have 4: "extends ?p w3 w4" unfolding assms(5) by (rule run) (rule extends_id [OF 3])
  obtain cs where cs: "w_calls w4 = w_calls w2 @ cs" "list_all ?p cs"
    using extends_trans [OF 3 4] by (auto simp: extends_def)
  have "teardowns w4 = teardowns w2 @ filter is_teardown cs" using cs(1) by (simp add: teardowns_def)
  then have "ParseBool (rj_Delete j) \<Longrightarrow> length (filter is_teardown cs) \<ge> 2"
    unfolding assms(4,5) by (auto simp: cleanup_teardowns teardown_of_def append_assoc dest!: arg_cong [where f = length])
  with cs show ?thesis by blast
qed

theorem overlapping_runs_mix_containers_witness:
  "\<exists>w1 w2. rj_acquire sim_docker sim_env sim_job sim_world = (None, w1) \<and>
     rj_acquire sim_docker sim_env sim_job w1 = (None, w2) \<and> w_containerID w1 = ''c'' \<and>
     (let w3 = cleanupAfterRun sim_docker sim_job (snd (startAndWait sim_docker sim_job w2));
          w4 = cleanupAfterRun sim_docker sim_job (snd (startAndWait sim_docker sim_job w3))
      in \<exists>cs. w_calls w4 = w_calls w2 @ cs \<and> list_all (\<lambda>c. call_id c = Some ''cc'') cs \<and> filter is_teardown cs \<noteq> [])"
proof -
  obtain w1 where w1: "rj_acquire sim_docker sim_env sim_job sim_world = (None, w1)" "w_containerID w1 = ''c''" "w_docker w1 = 1"
    using sim_acquire [of sim_world] by (auto simp: sim_world_def)
  obtain w2 where w2: "rj_acquire sim_docker sim_env sim_job w1 = (None, w2)" "w_containerID w2 = ''cc''"
    using sim_acquire [of w1] w1(3) by auto
  let ?w3 = "cleanupAfterRun sim_docker sim_job (snd (startAndWait sim_docker sim_job w2))"
  let ?w4 = "cleanupAfterRun sim_docker sim_job (snd (startAndWait sim_docker sim_job ?w3))"
  have j: "rj_Container sim_job = []" "ParseBool (rj_Delete sim_job)" by (simp_all add: sim_job_def ParseBool_def)
  from overlapping_runs_mix_containers [OF w1(1) w2(1) j(1) refl refl] j(2) w2(2) obtain cs where
    "w_calls ?w4 = w_calls w2 @ cs" "list_all (\<lambda>c. call_id c = Some ''cc'') cs" "filter is_teardown cs \<noteq> []"
    by fastforce
  with w1(1,2) w2(1) show ?thesis unfolding Let_def by blast
qed

end
