(* ===== verification/ServiceJob.thy ===== *)
theory ServiceJob
  imports ContainerJob
begin

text \<open>
  Jobs that run as Swarm services (\<^verbatim>\<open>src/core/runservice.go\<close>, with the task states of
  \<^verbatim>\<open>src/core/domain/service.go\<close>). The service is created, its tasks are polled until one has
  stopped, the deadline has passed or the context is done, and the service is removed. The
  provider is a parameter; what the select of the polling loop delivers (the end of the context,
  or a tick with the time and the answer of \<^verbatim>\<open>ListTasks\<close>) is a list of events.

  The theory shows how a run ends for every list of events, that the service is removed
  exactly once and on which context, which error is reported, and that volume
  specifications are read back as written.
\<close>

section \<open>Tasks\<close>

datatype TaskState =
    TaskStateNew | TaskStatePending | TaskStateAssigned | TaskStateAccepted | TaskStatePreparing
  | TaskStateReady | TaskStateStarting | TaskStateRunning | TaskStateComplete | TaskStateShutdown
  | TaskStateFailed | TaskStateRejected | TaskStateRemove | TaskStateOrphaned

fun IsTerminalState :: "TaskState \<Rightarrow> bool" where
  "IsTerminalState TaskStateComplete = True"
| "IsTerminalState TaskStateFailed = True"
| "IsTerminalState TaskStateRejected = True"
| "IsTerminalState TaskStateShutdown = True"
| "IsTerminalState TaskStateOrphaned = True"
| "IsTerminalState _ = False"

record task =
  t_State :: TaskState
  t_ExitCode :: "int option"

section \<open>Volumes\<close>

text \<open>\<^verbatim>\<open>strings.SplitN\<close> for a positive limit.\<close>

fun SplitN :: "string \<Rightarrow> char \<Rightarrow> nat \<Rightarrow> string list" where
  "SplitN s c (Suc (Suc n)) =
     (case IndexByte s c of None \<Rightarrow> [s] | Some i \<Rightarrow> take i s # SplitN (drop (Suc i) s) c (Suc n))"
| "SplitN s c (Suc 0) = [s]"
| "SplitN s c 0 = []"

datatype MountType = MountTypeBind | MountTypeVolume

record ServiceMount =
  sm_Type :: MountType
  sm_Source :: string
  sm_Target :: string
  sm_ReadOnly :: bool

definition parseVolumeMount :: "string \<Rightarrow> go_error + ServiceMount" where
  "parseVolumeMount bind =
     (let parts = SplitN bind (CHR '':'') 3 in
      if length parts < 2 \<or> parts ! 0 = [] \<or> parts ! 1 = []
      then Inl (Errorf [Wrap (Sentinel ErrInvalidVolume), Lit '': '', Quoted bind])
      else
        Inr \<lparr>sm_Type = (if \<not> HasPrefix (parts ! 0) ''/'' \<and> \<not> HasPrefix (parts ! 0) ''.''
                       then MountTypeVolume else MountTypeBind),
             sm_Source = parts ! 0, sm_Target = parts ! 1,
             sm_ReadOnly = (3 \<le> length parts \<and> list_ex (\<lambda>opt. opt = ''ro'') (Split (parts ! 2) (CHR '','')))\<rparr>)"

section \<open>The provider\<close>

record service_spec =
  ss_Labels :: "string \<rightharpoonup> string"
  ss_Image :: string
  ss_Env :: "string list"
  ss_User :: string
  ss_Hostname :: string
  ss_Dir :: string
  ss_TTY :: bool
  ss_Mounts :: "ServiceMount list"
  ss_Command :: "string list"
  ss_Networks :: "string list"
  ss_RestartCondition :: string
  ss_MaxAttempts :: u64

record 's swarm =
  sw_Err :: "dctx \<Rightarrow> 's \<Rightarrow> result"
  sw_EnsureImage :: "dctx \<Rightarrow> string \<Rightarrow> bool \<Rightarrow> 's \<Rightarrow> result \<times> 's"
  sw_inspect :: "'s \<Rightarrow> inspector"
  sw_CreateService :: "dctx \<Rightarrow> service_spec \<Rightarrow> 's \<Rightarrow> (go_error + string) \<times> 's"
  sw_InspectService :: "dctx \<Rightarrow> string \<Rightarrow> 's \<Rightarrow> (go_error + string) \<times> 's"
  sw_poll :: "'s \<Rightarrow> 's"
  sw_RemoveService :: "dctx \<Rightarrow> string \<Rightarrow> 's \<Rightarrow> result \<times> 's"

datatype svc_call =
    EnsureSvcImage dctx string bool
  | CreateService dctx service_spec "go_error + string"
  | InspectService dctx string
  | RemoveService dctx string

record 's svc_world =
  v_swarm :: 's
  v_calls :: "svc_call list"
  v_logs :: "string list"

definition svc_called :: "svc_call \<Rightarrow> 's \<Rightarrow> 's svc_world \<Rightarrow> 's svc_world" where
  "svc_called c d w = w\<lparr>v_swarm := d, v_calls := v_calls w @ [c]\<rparr>"

section \<open>The job\<close>

record RunServiceJob =
  rs_Name :: string
  rs_Command :: string
  rs_User :: string
  rs_TTY :: bool
  rs_Delete :: string
  rs_Image :: string
  rs_Network :: string
  rs_Hostname :: string
  rs_Dir :: string
  rs_Volume :: "string list"
  rs_Environment :: "string list"
  rs_EnvFile :: "string list"
  rs_EnvFrom :: "string list"
  rs_Annotations :: "string list"
  rs_MaxRuntime :: duration

definition svc_Validate :: "RunServiceJob \<Rightarrow> result" where
  "svc_Validate j = (if rs_Image j = [] then Some (Sentinel ErrImageRequired) else None)"

primrec parse_mounts :: "string list \<Rightarrow> go_error + ServiceMount list" where
  "parse_mounts [] = Inr []"
| "parse_mounts (v # vs) =
     (case parseVolumeMount v of
        Inl err \<Rightarrow> Inl (Errorf [Lit ''volume config: '', Wrap err])
      | Inr m \<Rightarrow> map_sum id ((#) m) (parse_mounts vs))"

definition service_spec_of :: "job_env \<Rightarrow> RunServiceJob \<Rightarrow> string list \<Rightarrow> ServiceMount list \<Rightarrow> service_spec" where
  "service_spec_of E j mergedEnv mounts =
     \<lparr>ss_Labels = mergeAnnotations (rs_Annotations j)
        (getDefaultAnnotations (je_hostname E) (je_version E) (je_time E) (rs_Name j) ''service''),
      ss_Image = rs_Image j, ss_Env = mergedEnv, ss_User = rs_User j, ss_Hostname = rs_Hostname j,
      ss_Dir = rs_Dir j, ss_TTY = rs_TTY j, ss_Mounts = mounts,
      ss_Command = (if rs_Command j \<noteq> [] then je_GetArgs E (rs_Command j) else []),
      ss_Networks = (if rs_Network j \<noteq> [] then [rs_Network j] else []),
      ss_RestartCondition = ''none'', ss_MaxAttempts = 1\<rparr>"

definition buildService ::
  "'s swarm \<Rightarrow> job_env \<Rightarrow> RunServiceJob \<Rightarrow> 's svc_world \<Rightarrow> (go_error + string) \<times> 's svc_world" where
  "buildService P E j w =
     (case fst (ResolveJobEnvironment (je_fs E) (rs_EnvFile j) (rs_EnvFrom j) (rs_Environment j)
                 (Some (sw_inspect P (v_swarm w)))) of
        Inl err \<Rightarrow> (Inl err, w)
      | Inr mergedEnv \<Rightarrow>
          case parse_mounts (rs_Volume j) of
            Inl err \<Rightarrow> (Inl err, w)
          | Inr mounts \<Rightarrow>
              let spec = service_spec_of E j mergedEnv mounts;
                  (r, d) = sw_CreateService P RunCtx spec (v_swarm w);
                  w1 = svc_called (CreateService RunCtx spec r) d w
              in case r of
                   Inl err \<Rightarrow> (Inl (Errorf [Lit ''create service: '', Wrap err]), w1)
                 | Inr svcID \<Rightarrow> (Inr svcID, w1))"

definition ExitCodeSwarmError :: int where "ExitCodeSwarmError = -999"

definition stopStates :: "TaskState list" where
  "stopStates = [TaskStateComplete, TaskStateFailed, TaskStateRejected]"

text \<open>The exit code and whether the service is done; an error of \<^verbatim>\<open>ListTasks\<close> is only logged.\<close>

definition findTaskStatus :: "go_error + task list \<Rightarrow> int \<times> bool" where
  "findTaskStatus answer =
     (case answer of
        Inl _ \<Rightarrow> (0, False)
      | Inr tasks \<Rightarrow>
          if tasks = [] then (0, True)
          else case find (\<lambda>t. t_State t \<in> set stopStates) tasks of
                 None \<Rightarrow> (1, False)
               | Some t \<Rightarrow>
                   let exitCode = (case t_ExitCode t of Some c \<Rightarrow> c | None \<Rightarrow> 1)
                   in (if exitCode = 0 \<and> t_State t = TaskStateRejected then 255 else exitCode, True))"

datatype poll = PollDone go_error | PollTick time "go_error + task list"

text \<open>The goroutine of \<^verbatim>\<open>watchContainer\<close>: an error or an exit code; \<^term>\<open>None\<close> while it still polls.\<close>

fun watch_loop :: "duration \<Rightarrow> time \<Rightarrow> poll list \<Rightarrow> (go_error + int) option" where
  "watch_loop maxRuntime start [] = None"
| "watch_loop maxRuntime start (PollDone err # ps) = Some (Inl err)"
| "watch_loop maxRuntime start (PollTick now answer # ps) =
     (if maxRuntime > 0 \<and> now - start > maxRuntime then Some (Inl (Sentinel ErrMaxTimeRunning))
      else case findTaskStatus answer of
             (code, True) \<Rightarrow> Some (Inr code)
           | (code, False) \<Rightarrow> watch_loop maxRuntime start ps)"

definition service_result :: "int \<Rightarrow> result" where
  "service_result exitCode =
     (if exitCode = 0 then None
      else if exitCode = -1 \<or> exitCode = ExitCodeSwarmError then Some (Sentinel ErrUnexpected)
      else Some (NonZeroExitError exitCode))"

definition svc_watchContainer ::
  "'s swarm \<Rightarrow> RunServiceJob \<Rightarrow> time \<Rightarrow> poll list \<Rightarrow> string \<Rightarrow> 's svc_world \<Rightarrow> result option \<times> 's svc_world" where
  "svc_watchContainer P j start polls svcID w =
     (let (r, d) = sw_InspectService P RunCtx svcID (v_swarm w);
          w1 = svc_called (InspectService RunCtx svcID) d w
      in case r of
           Inl err \<Rightarrow> (Some (Some (Errorf [Lit ''inspect service '', Str svcID, Lit '': '', Wrap err])), w1)
         | Inr _ \<Rightarrow>
             let w2 = w1\<lparr>v_swarm := sw_poll P (v_swarm w1)\<rparr> in
             (case watch_loop (rs_MaxRuntime j) start polls of
                None \<Rightarrow> (None, w2)
              | Some (Inl err) \<Rightarrow> (Some (Some err), w2)
              | Some (Inr exitCode) \<Rightarrow> (Some (service_result exitCode), w2)))"

definition isNotFoundError :: "go_error \<Rightarrow> bool" where
  "isNotFoundError err \<longleftrightarrow>
     (let errStr = ToLower (err_msg err)
      in Contains errStr ''not found'' \<or> Contains errStr ''no such'' \<or> Contains errStr ''404'')"

definition deleteService :: "'s swarm \<Rightarrow> RunServiceJob \<Rightarrow> dctx \<Rightarrow> string \<Rightarrow> 's svc_world \<Rightarrow> result \<times> 's svc_world" where
  "deleteService P j c svcID w =
     (if \<not> ParseBool (rs_Delete j) then (None, w)
      else
        let (r, d) = sw_RemoveService P c svcID (v_swarm w);
            w1 = svc_called (RemoveService c svcID) d w
        in case r of
             None \<Rightarrow> (None, w1)
           | Some err \<Rightarrow>
               if isNotFoundError err then (None, w1)
               else (Some (Errorf [Lit ''remove service '', Str svcID, Lit '': '', Wrap err]), w1))"

definition deleteCtx :: "'s swarm \<Rightarrow> 's svc_world \<Rightarrow> dctx" where
  "deleteCtx P w = (if sw_Err P RunCtx (v_swarm w) \<noteq> None then CleanupCtx else RunCtx)"

definition svc_Run ::
  "'s swarm \<Rightarrow> job_env \<Rightarrow> RunServiceJob \<Rightarrow> time \<Rightarrow> poll list \<Rightarrow> 's svc_world \<Rightarrow> result option \<times> 's svc_world" where
  "svc_Run P E j start polls w =
     (let (r, d) = sw_EnsureImage P RunCtx (rs_Image j) True (v_swarm w);
          w1 = svc_called (EnsureSvcImage RunCtx (rs_Image j) True) d w
      in case r of
           Some err \<Rightarrow> (Some (Some (Errorf [Lit ''ensuring image: '', Wrap err])), w1)
         | None \<Rightarrow>
             case buildService P E j w1 of
               (Inl err, w2) \<Rightarrow> (Some (Some err), w2)
             | (Inr svcID, w2) \<Rightarrow>
                 case svc_watchContainer P j start polls svcID w2 of
                   (None, w3) \<Rightarrow> (None, w3)
                 | (Some watchErr, w3) \<Rightarrow>
                     case deleteService P j (deleteCtx P w3) svcID w3 of
                       (None, w4) \<Rightarrow> (Some watchErr, w4)
                     | (Some delErr, w4) \<Rightarrow>
                         case watchErr of
                           None \<Rightarrow> (Some (Some delErr), w4)
                         | Some e \<Rightarrow>
                             (Some watchErr,
                              w4\<lparr>v_logs := v_logs w4 @ [''RunServiceJob: cleanup deleteService failed (watchErr='' @ err_msg e @
                                ''): '' @ err_msg delErr]\<rparr>))"

section \<open>The polling loop\<close>

definition overdue :: "duration \<Rightarrow> time \<Rightarrow> time \<Rightarrow> bool" where
  "overdue maxRuntime start now \<longleftrightarrow> maxRuntime > 0 \<and> now - start > maxRuntime"

fun decisive :: "duration \<Rightarrow> time \<Rightarrow> poll \<Rightarrow> bool" where
  "decisive m start (PollDone err) = True"
| "decisive m start (PollTick now answer) = (overdue m start now \<or> snd (findTaskStatus answer))"

fun verdict :: "duration \<Rightarrow> time \<Rightarrow> poll \<Rightarrow> go_error + int" where
  "verdict m start (PollDone err) = Inl err"
| "verdict m start (PollTick now answer) =
     (if overdue m start now then Inl (Sentinel ErrMaxTimeRunning) else Inr (fst (findTaskStatus answer)))"

lemma watch_loop_find: "watch_loop m start ps = map_option (verdict m start) (find (decisive m start) ps)"
  by (induction m start ps rule: watch_loop.induct) (auto simp: overdue_def split: prod.splits bool.splits)

lemma find_split:
  "find p xs = Some x \<longleftrightarrow> (\<exists>pre post. xs = pre @ x # post \<and> \<not> list_ex p pre \<and> p x)"
proof
  assume "find p xs = Some x"
  then show "\<exists>pre post. xs = pre @ x # post \<and> \<not> list_ex p pre \<and> p x"
  proof (induction xs)
    case (Cons a xs)
    show ?case
    proof (cases "p a")
      case True
      with Cons.prems have "a # xs = [] @ x # xs \<and> \<not> list_ex p [] \<and> p x" by simp
      then show ?thesis by blast
    next
      case False
      with Cons obtain pre post where "xs = pre @ x # post" "\<not> list_ex p pre" "p x" by auto
      with False have "a # xs = (a # pre) @ x # post \<and> \<not> list_ex p (a # pre) \<and> p x" by simp
      then show ?thesis by blast
    qed
  qed simp
next
  assume "\<exists>pre post. xs = pre @ x # post \<and> \<not> list_ex p pre \<and> p x"
  then obtain pre post where "xs = pre @ x # post" "\<not> list_ex p pre" "p x" by blast
  then show "find p xs = Some x" by (induction pre arbitrary: xs) auto
qed

text \<open>When a tick reports success.\<close>

lemma findTaskStatus_success:
  "findTaskStatus answer = (0, True) \<longleftrightarrow>
     answer = Inr [] \<or>
     (\<exists>tasks t. answer = Inr tasks \<and> find (\<lambda>t. t_State t \<in> set stopStates) tasks = Some t \<and>
        t_ExitCode t = Some 0 \<and> t_State t \<noteq> TaskStateRejected)"
  by (auto simp: findTaskStatus_def Let_def split: sum.splits option.splits if_splits)

section \<open>Properties\<close>

fun is_removal :: "svc_call \<Rightarrow> bool" where
  "is_removal (RemoveService c i) = True"
| "is_removal _ = False"

definition removals :: "'s svc_world \<Rightarrow> svc_call list" where
  "removals w = filter is_removal (v_calls w)"

lemma removals_simps [simp]:
  "removals (svc_called c d w) = removals w @ (if is_removal c then [c] else [])"
  "removals (w\<lparr>v_swarm := d\<rparr>) = removals w"
  "removals (w\<lparr>v_logs := l\<rparr>) = removals w"
  by (simp_all add: removals_def svc_called_def)

lemma build_removals: "buildService P E j w = (r, w') \<Longrightarrow> removals w' = removals w"
  by (auto simp: buildService_def Let_def split: sum.splits prod.splits)

lemma watch_removals: "svc_watchContainer P j start polls i w = (r, w') \<Longrightarrow> removals w' = removals w"
  by (auto simp: svc_watchContainer_def Let_def split: sum.splits prod.splits option.splits)

text \<open>(service_watch_result): the polling ends exactly at the first event that decides: the end of the
  context, a tick after the maximum runtime, or a tick at which no task is left or one is
  complete, failed or rejected. It reports success exactly when that event is a tick in time
  with no task left, or whose first stopped task exited with 0 and was not rejected.\<close>

theorem service_watch_result:
  "(watch_loop m start ps = None \<longleftrightarrow> \<not> list_ex (decisive m start) ps) \<and>
   (watch_loop m start ps = Some (Inr 0) \<longleftrightarrow>
      (\<exists>pre now answer post. ps = pre @ PollTick now answer # post \<and> \<not> list_ex (decisive m start) pre \<and>
         \<not> overdue m start now \<and>
         (answer = Inr [] \<or>
          (\<exists>tasks t. answer = Inr tasks \<and> find (\<lambda>t. t_State t \<in> set stopStates) tasks = Some t \<and>
             t_ExitCode t = Some 0 \<and> t_State t \<noteq> TaskStateRejected))))"
proof -
  have "watch_loop m start ps = None \<longleftrightarrow> \<not> list_ex (decisive m start) ps"
    by (simp add: watch_loop_find find_None_iff list_ex_iff) blast
  moreover have "watch_loop m start ps = Some (Inr 0) \<longleftrightarrow>
      (\<exists>pre now answer post. ps = pre @ PollTick now answer # post \<and> \<not> list_ex (decisive m start) pre \<and>
         \<not> overdue m start now \<and> findTaskStatus answer = (0, True))"
  proof
    assume "watch_loop m start ps = Some (Inr 0)"
    then obtain x where f: "find (decisive m start) ps = Some x" and v: "verdict m start x = Inr 0"
      by (auto simp: watch_loop_find)
    from f obtain pre post where s: "ps = pre @ x # post" "\<not> list_ex (decisive m start) pre" "decisive m start x"
      unfolding find_split by blast
    from v s(3) obtain now answer where "x = PollTick now answer" "\<not> overdue m start now" "findTaskStatus answer = (0, True)"
      by (cases x) (auto simp: prod_eq_iff split: if_splits)
    with s show "\<exists>pre now answer post. ps = pre @ PollTick now answer # post \<and> \<not> list_ex (decisive m start) pre \<and>
         \<not> overdue m start now \<and> findTaskStatus answer = (0, True)" by blast
  next
    assume "\<exists>pre now answer post. ps = pre @ PollTick now answer # post \<and> \<not> list_ex (decisive m start) pre \<and>
         \<not> overdue m start now \<and> findTaskStatus answer = (0, True)"
    then obtain pre now answer post where "ps = pre @ PollTick now answer # post" "\<not> list_ex (decisive m start) pre"
      "\<not> overdue m start now" "findTaskStatus answer = (0, True)" by blast
    then have "find (decisive m start) ps = Some (PollTick now answer)" unfolding find_split by fastforce
    then show "watch_loop m start ps = Some (Inr 0)"
      using \<open>\<not> overdue m start now\<close> \<open>findTaskStatus answer = (0, True)\<close> by (simp add: watch_loop_find)
  qed
  ultimately show ?thesis unfolding findTaskStatus_success by blast
qed

text \<open>(service_removed_once): once the watch of a created service has ended, for whatever reason, the
  service is removed exactly once if \<^verbatim>\<open>delete\<close> is set, on the context of the run while it lives
  and on a fresh one after its end; the error of the watch takes precedence over an error of
  the removal.\<close>

theorem service_removed_once:
  assumes "sw_EnsureImage P RunCtx (rs_Image j) True (v_swarm w) = (None, d)"
    "buildService P E j (svc_called (EnsureSvcImage RunCtx (rs_Image j) True) d w) = (Inr svcID, w2)"
    "svc_watchContainer P j start polls svcID w2 = (Some watchErr, w3)"
  shows "removals (snd (svc_Run P E j start polls w)) =
      removals w @ (if ParseBool (rs_Delete j) then [RemoveService (deleteCtx P w3) svcID] else []) \<and>
    fst (svc_Run P E j start polls w) =
      Some (if watchErr \<noteq> None then watchErr else fst (deleteService P j (deleteCtx P w3) svcID w3))"
proof -
  have r: "removals w3 = removals w" using build_removals [OF assms(2)] watch_removals [OF assms(3)] by simp
  obtain e w4 where d: "deleteService P j (deleteCtx P w3) svcID w3 = (e, w4)" by fastforce
  have "removals w4 = removals w3 @ (if ParseBool (rs_Delete j) then [RemoveService (deleteCtx P w3) svcID] else [])"
    using d by (auto simp: deleteService_def Let_def split: prod.splits option.splits if_splits)
  then show ?thesis
    using assms(1-3) r d unfolding svc_Run_def by (cases e; cases watchErr) simp_all
qed

definition sim_swarm :: "unit swarm" where
  "sim_swarm = \<lparr>sw_Err = (\<lambda>c s. Some (Sentinel ContextDeadlineExceeded)), sw_EnsureImage = (\<lambda>c i p s. (None, s)),
     sw_inspect = (\<lambda>s c. Inr None), sw_CreateService = (\<lambda>c spec s. (Inr ''svc'', s)),
     sw_InspectService = (\<lambda>c i s. (Inr i, s)), sw_poll = id, sw_RemoveService = (\<lambda>c i s. (None, s))\<rparr>"

definition sim_service :: RunServiceJob where
  "sim_service = \<lparr>rs_Name = ''j'', rs_Command = ''true'', rs_User = [], rs_TTY = False, rs_Delete = ''true'',
     rs_Image = ''alpine'', rs_Network = [], rs_Hostname = [], rs_Dir = [], rs_Volume = [], rs_Environment = [],
     rs_EnvFile = [], rs_EnvFrom = [], rs_Annotations = [], rs_MaxRuntime = 0\<rparr>"

theorem service_removed_once_witness:
  "removals (snd (svc_Run sim_swarm sim_env sim_service 0 [PollDone (Sentinel ContextDeadlineExceeded)]
      \<lparr>v_swarm = (), v_calls = [], v_logs = []\<rparr>)) = [RemoveService CleanupCtx ''svc'']"
proof -
  let ?w = "\<lparr>v_swarm = (), v_calls = [], v_logs = []\<rparr> :: unit svc_world"
  let ?ps = "[PollDone (Sentinel ContextDeadlineExceeded)]"
  have e: "sw_EnsureImage sim_swarm RunCtx (rs_Image sim_service) True (v_swarm ?w) = (None, ())"
    by (simp add: sim_swarm_def)
  obtain w2 where b: "buildService sim_swarm sim_env sim_service
      (svc_called (EnsureSvcImage RunCtx (rs_Image sim_service) True) () ?w) = (Inr ''svc'', w2)"
    using sim_env_resolve by (simp add: buildService_def sim_service_def sim_swarm_def Let_def)
  obtain w3 where x: "svc_watchContainer sim_swarm sim_service 0 ?ps ''svc'' w2 = (Some (Some (Sentinel ContextDeadlineExceeded)), w3)"
    by (simp add: svc_watchContainer_def sim_swarm_def Let_def)
  have "deleteCtx sim_swarm w3 = CleanupCtx" "ParseBool (rs_Delete sim_service)" "removals ?w = []"
    by (simp_all add: deleteCtx_def sim_swarm_def ParseBool_def sim_service_def removals_def)
  with service_removed_once [OF e b x] show ?thesis by simp
qed

text \<open>(terminal_tasks_ignored): a task that was shut down or orphaned is in a terminal state of the
  domain model, but the polling does not take it for stopped: with only such a task the loop
  goes on as if the tick had not happened, until the deadline.\<close>

theorem terminal_tasks_ignored:
  assumes "IsTerminalState (t_State t)" "t_State t \<notin> set stopStates" "\<not> overdue m start now"
  shows "t_State t \<in> {TaskStateShutdown, TaskStateOrphaned} \<and>
    watch_loop m start (PollTick now (Inr [t]) # ps) = watch_loop m start ps"
  using assms by (cases "t_State t") (auto simp: stopStates_def findTaskStatus_def overdue_def)

theorem terminal_tasks_ignored_witness:
  "watch_loop 0 0 [PollTick 1 (Inr [\<lparr>t_State = TaskStateShutdown, t_ExitCode = Some 0\<rparr>])] = None"
  using terminal_tasks_ignored [of "\<lparr>t_State = TaskStateShutdown, t_ExitCode = Some 0\<rparr>" 0 0 1 "[]"]
  by (simp add: stopStates_def overdue_def)

section \<open>Volume specifications\<close>

definition show_mount :: "ServiceMount \<Rightarrow> string" where
  "show_mount m = sm_Source m @ '':'' @ sm_Target m @ (if sm_ReadOnly m then '':ro'' else [])"

definition mount_ok :: "ServiceMount \<Rightarrow> bool" where
  "mount_ok m \<longleftrightarrow>
     sm_Source m \<noteq> [] \<and> sm_Target m \<noteq> [] \<and> CHR '':'' \<notin> set (sm_Source m) \<and> CHR '':'' \<notin> set (sm_Target m) \<and>
     sm_Type m = (if hd (sm_Source m) \<in> {CHR ''/'', CHR ''.''} then MountTypeBind else MountTypeVolume)"

lemma SplitN_step: "c \<notin> set a \<Longrightarrow> SplitN (a @ c # s) c (Suc (Suc n)) = a # SplitN s c (Suc n)"
  by (simp add: IndexByte_append)

lemma SplitN_absent: "c \<notin> set a \<Longrightarrow> SplitN a c (Suc n) = [a]"
  by (cases n) (simp_all add: IndexByte_None [THEN iffD2])

text \<open>(volume_mount_roundtrip): a mount whose source and target are not empty and have no colon, with
  the type that its source implies, is read back from its specification; a specification without
  a target or with an empty part is refused.\<close>

theorem volume_mount_roundtrip:
  assumes "mount_ok m"
  shows "parseVolumeMount (show_mount m) = Inr m \<and>
    parseVolumeMount (sm_Source m) = Inl (Errorf [Wrap (Sentinel ErrInvalidVolume), Lit '': '', Quoted (sm_Source m)])"
proof -
  have "SplitN (show_mount m) (CHR '':'') 3 =
      [sm_Source m, sm_Target m] @ (if sm_ReadOnly m then [''ro''] else [])"
    using assms SplitN_step [of "CHR '':''" "sm_Source m" _ 1] SplitN_step [of "CHR '':''" "sm_Target m" "''ro''" 0]
      SplitN_absent [of "CHR '':''" "sm_Target m" 1]
    by (auto simp: show_mount_def mount_ok_def numeral_3_eq_3 simp del: SplitN.simps(1))
  moreover have "SplitN (sm_Source m) (CHR '':'') 3 = [sm_Source m]"
    using assms SplitN_absent [of "CHR '':''" "sm_Source m" 2] by (simp add: mount_ok_def numeral_3_eq_3)
  moreover obtain a s where "sm_Source m = a # s" using assms by (cases "sm_Source m") (auto simp: mount_ok_def)
  ultimately show ?thesis
    using assms by (cases m) (auto simp: parseVolumeMount_def mount_ok_def HasPrefix_def Let_def)
qed

theorem volume_mount_roundtrip_witness:
  "parseVolumeMount ''/data:/d:ro'' =
     Inr \<lparr>sm_Type = MountTypeBind, sm_Source = ''/data'', sm_Target = ''/d'', sm_ReadOnly = True\<rparr>"
  using volume_mount_roundtrip [of "\<lparr>sm_Type = MountTypeBind, sm_Source = ''/data'', sm_Target = ''/d'', sm_ReadOnly = True\<rparr>"]
  by (simp add: mount_ok_def show_mount_def)

end
