(* ===== verification/Regex.thy ===== *)
theory Regex
  imports Prelude
begin

text \<open>
  Regular expressions as the validators use them: character classes, concatenation, choice,
  repetition and optional parts, with Go's \<^verbatim>\<open>MatchString\<close> as a search for a matching factor. The
  matcher works by derivatives; it is shown to decide the language of the expression. Classes
  are lists of ranges of byte values: the patterns of the program only name ASCII characters.
\<close>

datatype rexp =
    Empty
  | Eps
  | Class "(nat \<times> nat) list"
  | Alt rexp rexp
  | Cat rexp rexp
  | Rep rexp

fun in_class :: "(nat \<times> nat) list \<Rightarrow> char \<Rightarrow> bool" where
  "in_class [] c \<longleftrightarrow> False"
| "in_class ((lo, hi) # rs) c \<longleftrightarrow> (lo \<le> (of_char c :: nat) \<and> (of_char c :: nat) \<le> hi) \<or> in_class rs c"

fun nullable :: "rexp \<Rightarrow> bool" where
  "nullable Empty = False"
| "nullable Eps = True"
| "nullable (Class rs) = False"
| "nullable (Alt r s) = (nullable r \<or> nullable s)"
| "nullable (Cat r s) = (nullable r \<and> nullable s)"
| "nullable (Rep r) = True"

text \<open>Concatenation and choice that keep derivatives small.\<close>

fun cat :: "rexp \<Rightarrow> rexp \<Rightarrow> rexp" where
  "cat Empty s = Empty"
| "cat Eps s = s"
| "cat r s = Cat r s"

fun alt :: "rexp \<Rightarrow> rexp \<Rightarrow> rexp" where
  "alt Empty s = s"
| "alt r Empty = r"
| "alt r s = (if r = s then r else Alt r s)"

fun deriv :: "char \<Rightarrow> rexp \<Rightarrow> rexp" where
  "deriv c Empty = Empty"
| "deriv c Eps = Empty"
| "deriv c (Class rs) = (if in_class rs c then Eps else Empty)"
| "deriv c (Alt r s) = alt (deriv c r) (deriv c s)"
| "deriv c (Cat r s) = (if nullable r then alt (cat (deriv c r) s) (deriv c s) else cat (deriv c r) s)"
| "deriv c (Rep r) = cat (deriv c r) (Rep r)"

definition full_match :: "rexp \<Rightarrow> string \<Rightarrow> bool" where
  "full_match r s = nullable (fold deriv s r)"

definition any_char :: rexp where
  "any_char = Class [(0, 255)]"

text \<open>\<^verbatim>\<open>MatchString\<close> for a pattern without anchors; one with \<^verbatim>\<open>^\<close> and \<^verbatim>\<open>$\<close> is \<open>full_match\<close>.\<close>

definition MatchString :: "rexp \<Rightarrow> string \<Rightarrow> bool" where
  "MatchString r s = full_match (Cat (Rep any_char) (Cat r (Rep any_char))) s"

section \<open>Building expressions\<close>

definition chars :: "string \<Rightarrow> (nat \<times> nat) list" where
  "chars cs = map (\<lambda>c. (of_char c, of_char c)) cs"

primrec text_of :: "string \<Rightarrow> rexp" where
  "text_of [] = Eps"
| "text_of (c # cs) = Cat (Class (chars [c])) (text_of cs)"

fun choice :: "rexp list \<Rightarrow> rexp" where
  "choice [] = Empty"
| "choice [r] = r"
| "choice (r # rs) = Alt r (choice rs)"

fun cats :: "rexp list \<Rightarrow> rexp" where
  "cats [] = Eps"
| "cats [r] = r"
| "cats (r # rs) = Cat r (cats rs)"

definition rep1 :: "rexp \<Rightarrow> rexp" where
  "rep1 r = Cat r (Rep r)"

definition opt :: "rexp \<Rightarrow> rexp" where
  "opt r = Alt Eps r"

primrec rep_n :: "nat \<Rightarrow> rexp \<Rightarrow> rexp" where
  "rep_n 0 r = Eps"
| "rep_n (Suc n) r = Cat r (rep_n n r)"

primrec up_to :: "nat \<Rightarrow> rexp \<Rightarrow> rexp" where
  "up_to 0 r = Eps"
| "up_to (Suc n) r = opt (Cat r (up_to n r))"

section \<open>The language\<close>

inductive_set star :: "string set \<Rightarrow> string set" for A where
  star_nil: "[] \<in> star A"
| star_step: "s \<in> A \<Longrightarrow> t \<in> star A \<Longrightarrow> s @ t \<in> star A"

fun lang :: "rexp \<Rightarrow> string set" where
  "lang Empty = {}"
| "lang Eps = {[]}"
| "lang (Class rs) = {[c] |c. in_class rs c}"
| "lang (Alt r s) = lang r \<union> lang s"
| "lang (Cat r s) = {x @ y |x y. x \<in> lang r \<and> y \<in> lang s}"
| "lang (Rep r) = star (lang r)"

lemma nullable_lang: "nullable r \<longleftrightarrow> [] \<in> lang r"
  by (induction r) (auto intro: star_nil)

lemma lang_cat: "lang (cat r s) = lang (Cat r s)"
  by (cases r) auto

lemma lang_alt: "lang (alt r s) = lang (Alt r s)"
  by (cases "(r, s)" rule: alt.cases) auto

lemma star_Cons: "c # s \<in> star A \<longleftrightarrow> (\<exists>x y. s = x @ y \<and> c # x \<in> A \<and> y \<in> star A)"
proof
  have "t \<in> star A \<Longrightarrow> t = c # s \<Longrightarrow> \<exists>x y. s = x @ y \<and> c # x \<in> A \<and> y \<in> star A" for t
  proof (induction arbitrary: s rule: star.induct)
    case (star_step a t)
    show ?case
    proof (cases a)
      case Nil
      then show ?thesis using star_step by simp
    next
      case (Cons d x)
      then show ?thesis using star_step by auto
    qed
  qed simp
  then show "c # s \<in> star A \<Longrightarrow> \<exists>x y. s = x @ y \<and> c # x \<in> A \<and> y \<in> star A" by blast
next
  show "\<exists>x y. s = x @ y \<and> c # x \<in> A \<and> y \<in> star A \<Longrightarrow> c # s \<in> star A"
    using star_step by fastforce
qed

lemma lang_deriv: "s \<in> lang (deriv c r) \<longleftrightarrow> c # s \<in> lang r"
proof (induction r arbitrary: s)
  case (Cat r1 r2)
  have "c # s \<in> lang (Cat r1 r2) \<longleftrightarrow>
      (\<exists>x y. s = x @ y \<and> c # x \<in> lang r1 \<and> y \<in> lang r2) \<or> ([] \<in> lang r1 \<and> c # s \<in> lang r2)"
    by (auto simp: Cons_eq_append_conv)
  then show ?case using Cat by (auto simp: lang_cat lang_alt nullable_lang)
next
  case (Rep r)
  then show ?case by (auto simp: lang_cat star_Cons)
qed (auto simp: lang_alt)

lemma fold_deriv_lang: "x \<in> lang (fold deriv s r) \<longleftrightarrow> s @ x \<in> lang r"
  by (induction s arbitrary: r) (simp_all add: lang_deriv)

lemma full_match_lang: "full_match r s \<longleftrightarrow> s \<in> lang r"
  using fold_deriv_lang [of "[]" s r] by (simp add: full_match_def nullable_lang)

section \<open>Classes\<close>

lemma star_class: "s \<in> star {[c] |c. P c} \<longleftrightarrow> (\<forall>c\<in>set s. P c)"
  by (induction s) (auto simp: star_Cons intro: star_nil)

lemma any_char_all: "lang any_char = {[c] |c. True}"
proof -
  have "in_class [(0, 255)] c" for c using nat_of_char_less_256 [of c] unfolding in_class.simps by linarith
  then show ?thesis by (simp add: any_char_def)
qed

lemma MatchString_lang: "MatchString r s \<longleftrightarrow> (\<exists>a x b. s = a @ x @ b \<and> x \<in> lang r)"
proof -
  have "lang (Rep any_char) = UNIV" using star_class [of _ "\<lambda>_. True"] by (auto simp: any_char_all)
  then show ?thesis by (auto simp: MatchString_def full_match_lang)
qed

lemma in_class_chars: "in_class (chars cs) c \<longleftrightarrow> c \<in> set cs"
  by (induction cs) (auto simp: chars_def intro: antisym)

lemma in_class_append: "in_class (rs @ ss) c \<longleftrightarrow> in_class rs c \<or> in_class ss c"
  by (induction rs) auto

lemma lang_text_of: "lang (text_of w) = {w}"
  by (induction w) (simp_all add: in_class_chars)

lemma MatchString_text: "MatchString (text_of w) s \<longleftrightarrow> Contains s w"
  by (simp add: MatchString_lang lang_text_of Contains_iff)

lemma MatchString_class: "MatchString (Class rs) s \<longleftrightarrow> (\<exists>c\<in>set s. in_class rs c)"
proof
  assume "MatchString (Class rs) s"
  then obtain a c b where "s = a @ [c] @ b" "in_class rs c" by (auto simp: MatchString_lang)
  then show "\<exists>c\<in>set s. in_class rs c" by auto
next
  assume "\<exists>c\<in>set s. in_class rs c"
  then obtain c a b where "in_class rs c" "s = a @ [c] @ b" by (auto dest: split_list)
  then show "MatchString (Class rs) s" unfolding MatchString_lang lang.simps by blast
qed

lemma MatchString_Alt: "MatchString (Alt r t) s \<longleftrightarrow> MatchString r s \<or> MatchString t s"
  unfolding MatchString_lang lang.simps by blast

lemma full_match_rep1: "full_match (rep1 (Class rs)) s \<longleftrightarrow> s \<noteq> [] \<and> (\<forall>c\<in>set s. in_class rs c)"
proof
  show "full_match (rep1 (Class rs)) s \<Longrightarrow> s \<noteq> [] \<and> (\<forall>c\<in>set s. in_class rs c)"
    by (auto simp: full_match_lang rep1_def star_class)
  assume "s \<noteq> [] \<and> (\<forall>c\<in>set s. in_class rs c)"
  then obtain a t where "s = [a] @ t" "in_class rs a" "\<forall>c\<in>set t. in_class rs c" by (cases s) auto
  then show "full_match (rep1 (Class rs)) s"
    unfolding full_match_lang rep1_def lang.simps star_class mem_Collect_eq by blast
qed

text \<open>Every character of a match belongs to some class of the expression.\<close>

fun classes :: "rexp \<Rightarrow> (nat \<times> nat) list" where
  "classes (Class rs) = rs"
| "classes (Alt r s) = classes r @ classes s"
| "classes (Cat r s) = classes r @ classes s"
| "classes (Rep r) = classes r"
| "classes r = []"

lemma star_chars: "s \<in> star A \<Longrightarrow> (\<And>x. x \<in> A \<Longrightarrow> c \<in> set x \<Longrightarrow> P c) \<Longrightarrow> c \<in> set s \<Longrightarrow> P c"
  by (induction rule: star.induct) auto

lemma lang_classes: "s \<in> lang r \<Longrightarrow> c \<in> set s \<Longrightarrow> in_class (classes r) c"
proof (induction r arbitrary: s)
  case (Cat r1 r2)
  then show ?case by (fastforce simp: in_class_append)
next
  case (Rep r)
  have "s \<in> star (lang r)" using Rep.prems by simp
  from this Rep.IH Rep.prems(2) have "in_class (classes r) c" by (rule star_chars)
  then show ?case by simp
qed (auto simp: in_class_append)

end
