(* ===== verification/CommandValidator.thy ===== *)
theory CommandValidator
  imports Regex GoError
begin

text \<open>
  The validation of the arguments of compose jobs (\<^verbatim>\<open>src/config/command_validator.go\<close>). The theory
  gives the exact set of accepted service names, file paths and arguments, and shows that the
  check for sensitive directories can be passed by a path that starts with four slashes.
\<close>

section \<open>The validator\<close>

definition alnum :: "(nat \<times> nat) list" where
  "alnum = [(97, 122), (65, 90), (48, 57)]"

definition serviceNamePattern :: rexp where
  "serviceNamePattern = rep1 (Class (alnum @ chars ''_-.''))"

definition filePathPattern :: rexp where
  "filePathPattern = rep1 (Class (alnum @ chars ''_-./''))"

definition dangerousPatterns :: "rexp list" where
  "dangerousPatterns =
     [text_of ''$('', text_of [CHR 0x60], text_of ''|'', text_of '';'', Cat (text_of ''&'') (opt (text_of ''&'')),
      text_of ''>'', text_of ''<'', text_of ''../../'', text_of [CHR 0x00]]"

definition is_dangerous :: "string \<Rightarrow> bool" where
  "is_dangerous s \<longleftrightarrow> list_ex (\<lambda>p. MatchString p s) dangerousPatterns"

definition ValidateServiceName :: "string \<Rightarrow> result" where
  "ValidateServiceName service =
     (if service = [] then Some (Errorf [Lit ''service name cannot be empty''])
      else if length service > 255 then Some (Errorf [Lit ''service name too long (max 255 characters)''])
      else if is_dangerous service
      then Some (Errorf [Lit ''service name contains dangerous pattern: '', Str service])
      else if \<not> full_match serviceNamePattern service
      then Some (Errorf [Lit ''service name contains invalid characters: '', Str service])
      else None)"

definition sensitivePrefix :: "string list" where
  "sensitivePrefix = [''/etc/'', ''/proc/'', ''/sys/'', ''/dev/'']"

definition ValidateFilePath :: "string \<Rightarrow> result" where
  "ValidateFilePath path0 =
     (if path0 = [] then Some (Errorf [Lit ''file path cannot be empty''])
      else if length path0 > 4096 then Some (Errorf [Lit ''file path too long (max 4096 characters)''])
      else
        let path = ReplaceAll path0 ''//'' ''/'' in
        if is_dangerous path
        then Some (Errorf [Lit ''file path contains dangerous pattern: '', Str path])
        else if list_ex (HasPrefix path) sensitivePrefix
        then Some (Errorf [Lit ''file path attempts to access sensitive directory: '', Str path])
        else if \<not> full_match filePathPattern path
        then Some (Errorf [Lit ''file path contains invalid characters: '', Str path])
        else None)"

primrec check_args :: "nat \<Rightarrow> string list \<Rightarrow> result" where
  "check_args i [] = None"
| "check_args i (arg # args) =
     (if length arg > 4096
      then Some (Errorf [Lit ''argument '', Num (int i), Lit '' too long (max 4096 characters)''])
      else if is_dangerous arg
      then Some (Errorf [Lit ''argument '', Num (int i), Lit '' contains dangerous pattern: '', Str arg])
      else if Contains arg [CHR 0x00]
      then Some (Errorf [Lit ''argument '', Num (int i), Lit '' contains null byte''])
      else check_args (Suc i) args)"

definition ValidateCommandArgs :: "string list \<Rightarrow> result" where
  "ValidateCommandArgs args = check_args 0 args"

definition SanitizeCommand :: "string \<Rightarrow> string" where
  "SanitizeCommand cmd0 =
     (let cmd = ReplaceAll cmd0 [CHR 0x00] [] in if length cmd > 4096 then take 4096 cmd else cmd)"

section \<open>What the patterns mean\<close>

definition shell_char :: "char \<Rightarrow> bool" where
  "shell_char c \<longleftrightarrow> c \<in> set ([CHR 0x60, CHR 0x00] @ ''|;&><'')"

lemma MatchString_amp: "MatchString (Cat (text_of ''&'') (opt (text_of ''&''))) s \<longleftrightarrow> CHR ''&'' \<in> set s"
proof
  assume "MatchString (Cat (text_of ''&'') (opt (text_of ''&''))) s"
  then obtain a x b where "s = a @ x @ b" "x \<in> lang (Cat (text_of ''&'') (opt (text_of ''&'')))"
    unfolding MatchString_lang by blast
  then show "CHR ''&'' \<in> set s" by (auto simp: opt_def in_class_chars)
next
  assume "CHR ''&'' \<in> set s"
  then obtain a b where "s = a @ ''&'' @ b" by (auto dest: split_list)
  moreover have "''&'' \<in> lang (Cat (text_of ''&'') (opt (text_of ''&'')))"
    unfolding lang.simps lang_text_of opt_def by force
  ultimately show "MatchString (Cat (text_of ''&'') (opt (text_of ''&''))) s"
    unfolding MatchString_lang by blast
qed

lemma is_dangerous_iff:
  "is_dangerous s \<longleftrightarrow> (\<exists>c\<in>set s. shell_char c) \<or> Contains s ''$('' \<or> Contains s ''../../''"
  unfolding is_dangerous_def dangerousPatterns_def shell_char_def
  by (auto simp: MatchString_amp MatchString_text Contains_single simp del: text_of.simps Contains.simps)

lemma Contains_subset: "Contains s w \<Longrightarrow> set w \<subseteq> set s"
  by (auto simp: Contains_iff)

lemma serviceName_iff:
  "full_match serviceNamePattern s \<longleftrightarrow> s \<noteq> [] \<and> (\<forall>c\<in>set s. in_class alnum c \<or> c \<in> set ''_-.'')"
  by (simp only: serviceNamePattern_def full_match_rep1 in_class_append in_class_chars)

lemma filePath_iff:
  "full_match filePathPattern s \<longleftrightarrow> s \<noteq> [] \<and> (\<forall>c\<in>set s. in_class alnum c \<or> c \<in> set ''_-./'')"
  by (simp only: filePathPattern_def full_match_rep1 in_class_append in_class_chars)

lemma path_char_safe:
  assumes "in_class alnum c \<or> c \<in> set ''_-./''"
  shows "\<not> shell_char c \<and> c \<noteq> CHR ''$''"
  using assms by (auto simp: shell_char_def alnum_def)

lemma path_not_dangerous:
  assumes "\<forall>c\<in>set s. in_class alnum c \<or> c \<in> set ''_-./''"
  shows "is_dangerous s \<longleftrightarrow> Contains s ''../../''"
proof -
  have "\<not> Contains s ''$(''" using assms path_char_safe Contains_subset [of s "''$(''"] by fastforce
  then show ?thesis using assms path_char_safe by (auto simp: is_dangerous_iff)
qed

section \<open>Properties\<close>

text \<open>(service_name_accepted_iff): a service name is accepted exactly when it has 1 to 255 characters,
  all of them letters, digits, underscore, hyphen or dot; the list of dangerous patterns never
  decides.\<close>

theorem service_name_accepted_iff:
  "ValidateServiceName s = None \<longleftrightarrow>
     s \<noteq> [] \<and> length s \<le> 255 \<and> (\<forall>c\<in>set s. in_class alnum c \<or> c \<in> set ''_-.'')"
proof -
  have "\<not> is_dangerous s" if a: "\<forall>c\<in>set s. in_class alnum c \<or> c \<in> set ''_-.''"
  proof -
    have "CHR ''/'' \<notin> set s" using a by (auto simp: alnum_def)
    then have "\<not> Contains s ''../../''" using Contains_subset [of s "''../../''"] by auto
    moreover have "\<forall>c\<in>set s. in_class alnum c \<or> c \<in> set ''_-./''" using a by fastforce
    ultimately show ?thesis using path_not_dangerous by blast
  qed
  then show ?thesis by (auto simp: ValidateServiceName_def serviceName_iff)
qed

text \<open>(file_path_accepted_iff): a file path is accepted exactly when it is not empty, not longer than
  4096 characters, and after one pass that replaces double slashes it consists of letters,
  digits and \<^verbatim>\<open>_-./\<close>, has no two steps upwards in a row and does not start in one of the
  sensitive directories.\<close>

theorem file_path_accepted_iff:
  "ValidateFilePath p = None \<longleftrightarrow>
     (let q = ReplaceAll p ''//'' ''/'' in
      p \<noteq> [] \<and> length p \<le> 4096 \<and> q \<noteq> [] \<and> list_all (\<lambda>c. in_class alnum c \<or> c \<in> set ''_-./'') q \<and>
      \<not> Contains q ''../../'' \<and> \<not> list_ex (HasPrefix q) sensitivePrefix)"
  using path_not_dangerous [of "ReplaceAll p ''//'' ''/''"]
  by (auto simp: ValidateFilePath_def filePath_iff Let_def list_ex_iff list_all_iff simp del: Contains.simps)

text \<open>(sensitive_path_bypass): the single pass over double slashes leaves a double slash when the path
  starts with four of them, so the check for sensitive directories does not see that the path
  names a file in \<^verbatim>\<open>/etc\<close>.\<close>

theorem sensitive_path_bypass:
  "ValidateFilePath ''/etc/passwd'' \<noteq> None \<and> ValidateFilePath ''//etc/passwd'' \<noteq> None \<and>
   ValidateFilePath ''////etc/passwd'' = None"
proof (intro conjI)
  have "ReplaceAll ''////etc/passwd'' ''//'' ''/'' = ''//etc/passwd''" by (simp add: HasPrefix_def)
  moreover have "\<forall>c\<in>set ''//etc/passwd''. in_class alnum c \<or> c \<in> set ''_-./''" by (simp add: alnum_def)
  moreover have "\<not> is_dangerous ''//etc/passwd''"
    using calculation path_not_dangerous by (simp add: HasPrefix_def)
  ultimately show "ValidateFilePath ''////etc/passwd'' = None"
    by (simp add: ValidateFilePath_def filePath_iff sensitivePrefix_def HasPrefix_def alnum_def)
qed (simp_all add: ValidateFilePath_def sensitivePrefix_def HasPrefix_def Let_def del: not_None_eq)

text \<open>(command_args_accepted_iff): a list of arguments is accepted exactly when no argument is longer
  than 4096 characters or contains a back quote, a NUL byte, one of \<^verbatim>\<open>|;&><\<close>, a \<^verbatim>\<open>$(\<close> or two steps
  upwards in a row.\<close>

theorem command_args_accepted_iff:
  "ValidateCommandArgs args = None \<longleftrightarrow>
     (\<forall>a\<in>set args. length a \<le> 4096 \<and> (\<forall>c\<in>set a. \<not> shell_char c) \<and>
        \<not> Contains a ''$('' \<and> \<not> Contains a ''../../'')"
proof -
  have "check_args i args = None \<longleftrightarrow> (\<forall>a\<in>set args. length a \<le> 4096 \<and> \<not> is_dangerous a)" for i
  proof (induction args arbitrary: i)
    case (Cons a args)
    have "Contains a [CHR 0x00] \<Longrightarrow> is_dangerous a"
      by (auto simp: is_dangerous_iff Contains_single shell_char_def)
    with Cons show ?case by auto
  qed simp
  then show ?thesis by (auto simp: ValidateCommandArgs_def is_dangerous_iff simp del: Contains.simps)
qed

lemma sanitize_command: "length (SanitizeCommand c) \<le> 4096 \<and> CHR 0x00 \<notin> set (SanitizeCommand c)"
  by (auto simp: SanitizeCommand_def ReplaceAll_delete Let_def dest: in_set_takeD)

end
