(* ===== verification/CommandJob.thy ===== *)
theory CommandJob
  imports ContainerJob CommandValidator
begin

text \<open>
  The jobs that start a process: \<^verbatim>\<open>src/core/localjob.go\<close> and \<^verbatim>\<open>src/core/composejob.go\<close>. The
  argument parser, the search for the program and the process itself are parameters. The theory
  shows which commands a compose job runs, and that what it passes on has been through the
  validator of \<^verbatim>\<open>src/config/command_validator.go\<close>.
\<close>

record command =
  cmd_Path :: string
  cmd_Args :: "string list"
  cmd_Env :: "string list option"
  cmd_Dir :: string

section \<open>Compose jobs\<close>

record ComposeJob =
  cj_Command :: string
  cj_File :: string
  cj_Service :: string
  cj_Exec :: bool

definition compose_prefix :: "ComposeJob \<Rightarrow> string list" where
  "compose_prefix j =
     [''docker'', ''compose'', ''-f'', cj_File j] @
     (if cj_Exec j then [''exec'', cj_Service j] else [''run'', ''--rm'', cj_Service j])"

definition look_up :: "(string \<Rightarrow> go_error + string) \<Rightarrow> string list \<Rightarrow> go_error + string" where
  "look_up LookPath cmdArgs =
     (case LookPath (hd cmdArgs) of
        Inl err \<Rightarrow> Inl (Errorf [Lit ''look path '', Quoted (hd cmdArgs), Lit '': '', Wrap err])
      | Inr bin \<Rightarrow> Inr bin)"

definition cj_buildCommand ::
  "(string \<Rightarrow> string list) \<Rightarrow> (string \<Rightarrow> go_error + string) \<Rightarrow> ComposeJob \<Rightarrow> go_error + command" where
  "cj_buildCommand GetArgs LookPath j =
     (case ValidateFilePath (cj_File j) of
        Some err \<Rightarrow> Inl (Errorf [Lit ''invalid compose file path: '', Wrap err])
      | None \<Rightarrow>
          case ValidateServiceName (cj_Service j) of
            Some err \<Rightarrow> Inl (Errorf [Lit ''invalid service name: '', Wrap err])
          | None \<Rightarrow>
              case (if cj_Command j \<noteq> [] then ValidateCommandArgs (GetArgs (cj_Command j)) else None) of
                Some err \<Rightarrow> Inl (Errorf [Lit ''invalid command arguments: '', Wrap err])
              | None \<Rightarrow>
                  let cmdArgs = compose_prefix j @ (if cj_Command j \<noteq> [] then GetArgs (cj_Command j) else []) in
                  case look_up LookPath cmdArgs of
                    Inl err \<Rightarrow> Inl err
                  | Inr bin \<Rightarrow> Inr \<lparr>cmd_Path = bin, cmd_Args = cmdArgs, cmd_Env = None, cmd_Dir = []\<rparr>)"

text \<open>\<^verbatim>\<open>cmd.Run\<close> is a function of the command; the second component lists the commands run.\<close>

definition cj_Run ::
  "(string \<Rightarrow> string list) \<Rightarrow> (string \<Rightarrow> go_error + string) \<Rightarrow> (command \<Rightarrow> result) \<Rightarrow> ComposeJob \<Rightarrow> result \<times> command list" where
  "cj_Run GetArgs LookPath exec j =
     (case cj_buildCommand GetArgs LookPath j of
        Inl err \<Rightarrow> (Some (Errorf [Lit ''compose build command: '', Wrap err]), [])
      | Inr cmd \<Rightarrow> (wrap_result ''compose run: '' (exec cmd), [cmd]))"

section \<open>Local jobs\<close>

record LocalJob =
  lj_Command :: string
  lj_Dir :: string
  lj_Environment :: "string list"
  lj_EnvFile :: "string list"
  lj_EnvFrom :: "string list"

text \<open>The provider is nil, so \<^verbatim>\<open>env-from\<close> only leads to warnings, the second component.\<close>

definition lj_buildCommand ::
  "job_env \<Rightarrow> (string \<Rightarrow> go_error + string) \<Rightarrow> string list \<Rightarrow> LocalJob \<Rightarrow> (go_error + command) \<times> string list" where
  "lj_buildCommand E LookPath environ j =
     (let cmdArgs = je_GetArgs E (lj_Command j) in
      if cmdArgs = [] then (Inl (Sentinel ErrEmptyCommand), [])
      else case look_up LookPath cmdArgs of
             Inl err \<Rightarrow> (Inl err, [])
           | Inr bin \<Rightarrow>
               case ResolveJobEnvironment (je_fs E) (lj_EnvFile j) (lj_EnvFrom j) (lj_Environment j) None of
                 (Inl err, ws) \<Rightarrow> (Inl err, ws)
               | (Inr mergedEnv, ws) \<Rightarrow>
                   (Inr \<lparr>cmd_Path = bin, cmd_Args = cmdArgs, cmd_Env = Some (environ @ mergedEnv), cmd_Dir = lj_Dir j\<rparr>, ws))"

definition lj_Run ::
  "job_env \<Rightarrow> (string \<Rightarrow> go_error + string) \<Rightarrow> string list \<Rightarrow> (command \<Rightarrow> result) \<Rightarrow> LocalJob \<Rightarrow> result \<times> command list" where
  "lj_Run E LookPath environ exec j =
     (case fst (lj_buildCommand E LookPath environ j) of
        Inl err \<Rightarrow> (Some err, [])
      | Inr cmd \<Rightarrow> (wrap_result ''local run: '' (exec cmd), [cmd]))"

section \<open>Properties\<close>

text \<open>What the arguments of a compose job may look like.\<close>

definition safe_arg :: "string \<Rightarrow> bool" where
  "safe_arg a \<longleftrightarrow> length a \<le> 4096 \<and> list_all (\<lambda>c. \<not> shell_char c) a \<and> \<not> Contains a ''$('' \<and> \<not> Contains a ''../../''"

definition service_char :: "char \<Rightarrow> bool" where
  "service_char c \<longleftrightarrow> in_class alnum c \<or> c \<in> set ''_-.''"

lemma service_ok: "ValidateServiceName s = None \<Longrightarrow> s \<noteq> [] \<and> list_all service_char s"
  by (auto simp: ValidateServiceName_def serviceName_iff list_all_iff service_char_def split: if_splits)

lemma args_ok: "ValidateCommandArgs as = None \<Longrightarrow> list_all safe_arg as"
proof -
  have "check_args i as = None \<Longrightarrow> list_all safe_arg as" for i
    by (induction as arbitrary: i)
       (auto simp: safe_arg_def is_dangerous_iff list_all_iff simp del: Contains.simps split: if_splits)
  then show "ValidateCommandArgs as = None \<Longrightarrow> list_all safe_arg as" by (simp add: ValidateCommandArgs_def)
qed

text \<open>(compose_command_shape): a compose job runs at most one command. That command is
  \<^verbatim>\<open>docker compose -f FILE exec SERVICE\<close> or \<^verbatim>\<open>run --rm SERVICE\<close> followed by the parsed arguments, the
  service is a plain name, and no argument contains a shell metacharacter, a command
  substitution or two steps upwards; whatever the argument parser returns.\<close>

theorem compose_command_shape:
  assumes "cj_Run GetArgs LookPath exec j = (r, cmds)"
  shows "cmds = [] \<and> r \<noteq> None \<or>
    (\<exists>bin as. cmds = [\<lparr>cmd_Path = bin, cmd_Args = compose_prefix j @ as, cmd_Env = None, cmd_Dir = []\<rparr>] \<and>
       LookPath ''docker'' = Inr bin \<and> as = (if cj_Command j = [] then [] else GetArgs (cj_Command j)) \<and>
       list_all safe_arg as \<and> cj_Service j \<noteq> [] \<and> list_all service_char (cj_Service j) \<and>
       ValidateFilePath (cj_File j) = None \<and> (r = None \<longleftrightarrow> exec (hd cmds) = None))"
proof (cases "cj_buildCommand GetArgs LookPath j")
  case (Inl err)
  then show ?thesis using assms by (auto simp: cj_Run_def)
next
  case (Inr cmd)
  let ?as = "if cj_Command j = [] then [] else GetArgs (cj_Command j)"
  have v: "ValidateFilePath (cj_File j) = None" "ValidateServiceName (cj_Service j) = None" "list_all safe_arg ?as"
    using Inr args_ok [of "GetArgs (cj_Command j)"]
    by (auto simp: cj_buildCommand_def Let_def split: option.splits if_splits sum.splits)
  have h: "hd (compose_prefix j @ as) = ''docker''" for as by (simp add: compose_prefix_def)
  obtain bin where c: "LookPath ''docker'' = Inr bin"
    "cmd = \<lparr>cmd_Path = bin, cmd_Args = compose_prefix j @ ?as, cmd_Env = None, cmd_Dir = []\<rparr>"
    using Inr by (auto simp: cj_buildCommand_def Let_def look_up_def h split: option.splits if_splits sum.splits)
  then show ?thesis
    using assms Inr v service_ok [OF v(2)] by (auto simp: cj_Run_def wrap_result_def)
qed

theorem compose_command_shape_witness:
  "snd (cj_Run (\<lambda>s. [s]) (\<lambda>p. Inr (''/usr/bin/'' @ p)) (\<lambda>c. None)
      \<lparr>cj_Command = ''id'', cj_File = ''compose.yml'', cj_Service = ''web'', cj_Exec = False\<rparr>) =
    [\<lparr>cmd_Path = ''/usr/bin/docker'',
      cmd_Args = [''docker'', ''compose'', ''-f'', ''compose.yml'', ''run'', ''--rm'', ''web'', ''id''],
      cmd_Env = None, cmd_Dir = []\<rparr>]"
proof -
  let ?j = "\<lparr>cj_Command = ''id'', cj_File = ''compose.yml'', cj_Service = ''web'', cj_Exec = False\<rparr>"
  let ?run = "cj_Run (\<lambda>s. [s]) (\<lambda>p. Inr (''/usr/bin/'' @ p)) (\<lambda>c. None) ?j"
  have d: "\<not> is_dangerous s" if "list_all (\<lambda>c. in_class alnum c \<or> c \<in> set ''_-./'') s" "CHR ''/'' \<notin> set s" for s
    using that path_not_dangerous [of s] Contains_subset [of s "''../../''"] by (auto simp: list_all_iff)
  have "ValidateFilePath ''compose.yml'' = None"
    using d [of "''compose.yml''"]
    by (simp add: ValidateFilePath_def filePath_iff sensitivePrefix_def HasPrefix_def alnum_def)
  moreover have "ValidateServiceName ''web'' = None"
    using d [of "''web''"] by (simp add: ValidateServiceName_def serviceName_iff alnum_def)
  moreover have "ValidateCommandArgs [''id''] = None"
    using d [of "''id''"] by (simp add: ValidateCommandArgs_def alnum_def HasPrefix_def)
  ultimately have "fst ?run = None" by (simp add: cj_Run_def cj_buildCommand_def look_up_def Let_def wrap_result_def compose_prefix_def)
  moreover obtain r cmds where run: "?run = (r, cmds)" by fastforce
  ultimately show ?thesis
    using compose_command_shape [OF run] by (auto simp: compose_prefix_def)
qed

text \<open>(service_name_option_injection): the pattern of a service name admits a leading hyphen, so a
  service called \<^verbatim>\<open>--privileged\<close> passes the validator and reaches \<^verbatim>\<open>docker compose exec\<close> as an option.\<close>

theorem service_name_option_injection:
  "ValidateServiceName ''--privileged'' = None"
proof -
  have s: "list_all (\<lambda>c. in_class alnum c \<or> c \<in> set ''_-./'') ''--privileged''" by (simp add: alnum_def)
  then have "\<not> is_dangerous ''--privileged''"
    using path_not_dangerous [of "''--privileged''"] by (simp add: list_all_iff HasPrefix_def)
  then show ?thesis by (simp add: ValidateServiceName_def serviceName_iff alnum_def)
qed

end
