(* ===== verification/JobHash.thy ===== *)
theory JobHash
  imports Workflow
begin

text \<open>
  The hash by which a changed job is detected (\<^verbatim>\<open>GetHash\<close> of \<^verbatim>\<open>src/core/common.go\<close>). The reflected
  struct is a list of fields with their tag; nested structs are walked in place. A list of
  strings is written with the length of every element and is therefore recovered from the hash;
  plain strings are concatenated without a separator, so two different jobs can have the same
  hash.
\<close>

datatype field_value =
    FString string
  | FInt int
  | FBool bool
  | FStrings "string list"
  | FOtherSlice
  | FPointer "string option"
  | FOther

text \<open>A field is a nested struct, or a value with its name, its type and whether it has the tag
  \<^verbatim>\<open>hash:"true"\<close>.\<close>

datatype struct_field =
    Nested "struct_field list"
  | Plain string string bool field_value

definition hash_strings :: "string list \<Rightarrow> string" where
  "hash_strings strs = concat (map (\<lambda>str. show_nat (length str) @ '':'' @ str @ '','') strs)"

fun hash_value :: "string \<Rightarrow> string \<Rightarrow> field_value \<Rightarrow> go_error + string" where
  "hash_value name ty (FString s) = Inr s"
| "hash_value name ty (FInt i) = Inr (show_int i)"
| "hash_value name ty (FBool b) = Inr (if b then ''true'' else ''false'')"
| "hash_value name ty (FStrings strs) = Inr (hash_strings strs)"
| "hash_value name ty FOtherSlice = Inl (Sentinel ErrUnsupportedFieldType)"
| "hash_value name ty (FPointer None) = Inr ''<nil>''"
| "hash_value name ty (FPointer (Some s)) = Inr s"
| "hash_value name ty FOther =
     Inl (Errorf [Wrap (Sentinel ErrUnsupportedFieldType), Lit '': field '', Lit [CHR 0x27], Str name,
       Lit [CHR 0x27], Lit '' of type '', Lit [CHR 0x27], Str ty, Lit [CHR 0x27]])"

fun GetHash :: "struct_field list \<Rightarrow> string \<Rightarrow> go_error + string" where
  "GetHash [] hash = Inr hash"
| "GetHash (Nested fs # rest) hash =
     (case GetHash fs hash of Inl err \<Rightarrow> Inl err | Inr h \<Rightarrow> GetHash rest h)"
| "GetHash (Plain name ty tagged v # rest) hash =
     (if \<not> tagged then GetHash rest hash
      else case hash_value name ty v of Inl err \<Rightarrow> Inl err | Inr h \<Rightarrow> GetHash rest (hash @ h))"

text \<open>\<^verbatim>\<open>BareJob.Hash\<close>: the four tagged fields, in the order of the struct.\<close>

definition BareJob_Hash :: "'w bare_job \<Rightarrow> go_error + string" where
  "BareJob_Hash j =
     GetHash [Plain ''Schedule'' ''string'' True (FString (bj_Schedule j)),
              Plain ''Name'' ''string'' True (FString (bj_Name j)),
              Plain ''Command'' ''string'' True (FString (bj_Command j)),
              Plain ''RunOnStartup'' ''bool'' True (FBool (bj_RunOnStartup j)),
              Plain ''HistoryLimit'' ''int'' False FOther,
              Plain ''Dependencies'' ''[]string'' False (FStrings (bj_Dependencies j)),
              Plain ''OnSuccess'' ''[]string'' False (FStrings (bj_OnSuccess j)),
              Plain ''OnFailure'' ''[]string'' False (FStrings (bj_OnFailure j))] []"

section \<open>Facts\<close>

definition is_digit :: "char \<Rightarrow> bool" where
  "is_digit c \<longleftrightarrow> 48 \<le> (of_char c :: nat) \<and> (of_char c :: nat) \<le> 57"

lemma show_nat_digits: "c \<in> set (show_nat n) \<Longrightarrow> is_digit c"
proof (induction n rule: show_nat.induct)
  case (1 n)
  show ?case
  proof (cases "n < 10")
    case True
    with 1(2) show ?thesis by (subst (asm) show_nat.simps) (auto simp: is_digit_def)
  next
    case False
    have "is_digit (char_of (48 + n mod 10))" by (simp add: is_digit_def)
    then show ?thesis using 1 False by (subst (asm) (2) show_nat.simps) auto
  qed
qed

text \<open>The digits of a number, read back.\<close>

definition read_nat :: "string \<Rightarrow> nat" where
  "read_nat s = foldl (\<lambda>a c. 10 * a + (of_char c - 48)) 0 s"

lemma read_show: "read_nat (show_nat n) = n"
proof (induction n rule: show_nat.induct)
  case (1 n)
  show ?case
  proof (cases "n < 10")
    case True
    then show ?thesis by (subst show_nat.simps) (simp add: read_nat_def)
  next
    case False
    then have "read_nat (show_nat (n div 10)) = n div 10" using 1 by simp
    with False show ?thesis by (subst show_nat.simps) (simp add: read_nat_def)
  qed
qed

lemma show_nat_inj: "show_nat m = show_nat n \<Longrightarrow> m = n"
  by (metis read_show)

lemma split_digits:
  assumes "show_nat m @ CHR '':'' # x = show_nat n @ CHR '':'' # y"
  shows "m = n \<and> x = y"
proof -
  have no: "takeWhile is_digit (show_nat k @ CHR '':'' # z) = show_nat k" for k z
    using show_nat_digits by (simp add: takeWhile_append2 is_digit_def)
  have "show_nat m = show_nat n" using no [of m x] no [of n y] assms by metis
  then show ?thesis using assms by (auto dest: show_nat_inj)
qed

section \<open>Properties\<close>

text \<open>(hash_lists_injective): the encoding of a list of strings in the hash determines the list, also
  when the strings contain digits, colons or commas.\<close>

theorem hash_lists_injective: "hash_strings xs = hash_strings ys \<longleftrightarrow> xs = ys"
proof
  show "hash_strings xs = hash_strings ys \<Longrightarrow> xs = ys"
  proof (induction xs arbitrary: ys)
    case Nil
    then show ?case by (cases ys) (auto simp: hash_strings_def)
  next
    case (Cons x xs)
    then obtain y ys' where y: "ys = y # ys'" by (cases ys) (auto simp: hash_strings_def)
    have "show_nat (length x) @ CHR '':'' # (x @ '','' @ hash_strings xs) =
        show_nat (length y) @ CHR '':'' # (y @ '','' @ hash_strings ys')"
      using Cons.prems by (simp add: y hash_strings_def)
    then have "length x = length y" "x @ '','' @ hash_strings xs = y @ '','' @ hash_strings ys'"
      using split_digits by blast+
    then have "x = y" "hash_strings xs = hash_strings ys'" by simp_all
    with Cons.IH y show ?case by simp
  qed
qed simp

text \<open>(job_hash_collision): the hash of a job is the plain concatenation of its schedule, name, command
  and startup flag. It does not depend on anything else, and it does not tell apart two jobs
  whose name and command have the same concatenation.\<close>

theorem job_hash_collision:
  "BareJob_Hash j = Inr (bj_Schedule j @ bj_Name j @ bj_Command j @ (if bj_RunOnStartup j then ''true'' else ''false'')) \<and>
   BareJob_Hash (j\<lparr>bj_Name := n, bj_Command := c # cs\<rparr>) = BareJob_Hash (j\<lparr>bj_Name := n @ [c], bj_Command := cs\<rparr>)"
  by (simp add: BareJob_Hash_def)

end
