(* ===== verification/Sanitizer.thy ===== *)
theory Sanitizer
  imports CommandValidator
begin

text \<open>
  The input sanitizer of the configuration (\<^verbatim>\<open>src/config/sanitizer.go\<close>). go-cron's
  \<^verbatim>\<open>ValidateSpec\<close>, the working directory and the parsed form of a URL (what \<^verbatim>\<open>url.Parse\<close> returns)
  are arguments; \<^verbatim>\<open>filepath.Clean\<close>, \<^verbatim>\<open>filepath.Abs\<close> and \<^verbatim>\<open>filepath.Ext\<close> are modelled for Unix paths.
\<close>

section \<open>Paths\<close>

fun join :: "string \<Rightarrow> string list \<Rightarrow> string" where
  "join sep [] = []"
| "join sep [w] = w"
| "join sep (w # ws) = w @ sep @ join sep ws"

text \<open>The elements of a cleaned path, as a stack with the last element first.\<close>

definition push_elem :: "bool \<Rightarrow> string \<Rightarrow> string list \<Rightarrow> string list" where
  "push_elem rooted w out =
     (if w = [] \<or> w = ''.'' then out
      else if w = ''..''
      then (case out of
              x # xs \<Rightarrow> if x \<noteq> ''..'' then xs else w # out
            | [] \<Rightarrow> if rooted then [] else [w])
      else w # out)"

definition Clean :: "string \<Rightarrow> string" where
  "Clean path =
     (if path = [] then ''.''
      else
        let rooted = HasPrefix path ''/'';
            body = join ''/'' (rev (fold (push_elem rooted) (Split path (CHR ''/'')) []));
            res = (if rooted then ''/'' else []) @ body
        in if res = [] then ''.'' else res)"

definition Abs_path :: "(go_error + string) \<Rightarrow> string \<Rightarrow> go_error + string" where
  "Abs_path wd path =
     (if HasPrefix path ''/'' then Inr (Clean path)
      else case wd of Inl err \<Rightarrow> Inl err | Inr d \<Rightarrow> Inr (Clean (d @ ''/'' @ path)))"

text \<open>The suffix from the last dot of the last element.\<close>

definition Ext :: "string \<Rightarrow> string" where
  "Ext path =
     (let base = rev (takeWhile (\<lambda>c. c \<noteq> CHR ''/'') (rev path)) in
      if CHR ''.'' \<in> set base
      then CHR ''.'' # rev (takeWhile (\<lambda>c. c \<noteq> CHR ''.'') (rev base)) else [])"

section \<open>The sanitizer\<close>

definition newline_chars :: string where
  "newline_chars = [CHR 0x0A, CHR 0x0D]"

definition shellInjectionPattern :: rexp where
  "shellInjectionPattern =
     choice [Class (chars ('';&|<>$'' @ [CHR 0x60] @ newline_chars)), text_of ''$('', text_of ''${'',
             text_of ''&&'', text_of ''||'', text_of ''>>'', text_of ''<<'']"

definition pathTraversalPattern :: rexp where
  "pathTraversalPattern =
     choice [Cat (text_of ''..'') (Class (chars [CHR 0x5C, CHR ''/''])),
             Cat (text_of ''..%2'') (Class (chars ''fF'')), text_of ''%2e%2e'',
             text_of (''..'' @ [CHR 0x5C]), text_of ''../'']"

text \<open>The bytes of a control character: ASCII controls and the two-byte codes U+0080 to U+009F.\<close>

fun bad_control :: "string \<Rightarrow> bool" where
  "bad_control [] = False"
| "bad_control (c # s) =
     (((of_char c :: nat) < 32 \<and> c \<notin> {CHR 0x09, CHR 0x0A, CHR 0x0D} \<or> (of_char c :: nat) = 127) \<or>
      (c = CHR 0xC2 \<and> s \<noteq> [] \<and> 128 \<le> (of_char (hd s) :: nat) \<and> (of_char (hd s) :: nat) \<le> 159) \<or>
      bad_control s)"

definition SanitizeString :: "string \<Rightarrow> int \<Rightarrow> go_error + string" where
  "SanitizeString input0 maxLength =
     (if int (length input0) > maxLength
      then Inl (Errorf [Lit ''input exceeds maximum length of '', Num maxLength, Lit '' characters''])
      else
        let input = TrimSpace (ReplaceAll input0 [CHR 0x00] []) in
        if bad_control input then Inl (Errorf [Lit ''input contains invalid control characters''])
        else Inr input)"

definition dangerousCommands :: "string list" where
  "dangerousCommands =
     [''rm -rf'', ''dd if='', ''mkfs'', ''format'', '':(){:|:&};:'', ''wget '', ''curl '', ''nc '', ''telnet '',
      ''/dev/null'', ''chmod 777'', ''chmod +x'', ''sudo'', ''su -'']"

definition ValidateCommand :: "string \<Rightarrow> result" where
  "ValidateCommand command =
     (if MatchString shellInjectionPattern command
      then Some (Errorf [Lit ''command contains potentially dangerous shell characters''])
      else case find (Contains (ToLower command)) dangerousCommands of
             Some dangerous \<Rightarrow>
               Some (Errorf [Lit ''command contains potentially dangerous operation: '', Str dangerous])
           | None \<Rightarrow> None)"

definition dangerousExtensions :: "string list" where
  "dangerousExtensions = [''.exe'', ''.sh'', ''.bat'', ''.cmd'', ''.ps1'', ''.dll'', ''.so'']"

definition check_base :: "(go_error + string) \<Rightarrow> string \<Rightarrow> string \<Rightarrow> result" where
  "check_base wd cleanPath allowedBasePath =
     (case Abs_path wd cleanPath of
        Inl err \<Rightarrow> Some (Errorf [Lit ''invalid path: '', Wrap err])
      | Inr absPath \<Rightarrow>
          case Abs_path wd allowedBasePath of
            Inl err \<Rightarrow> Some (Errorf [Lit ''invalid base path: '', Wrap err])
          | Inr absBase \<Rightarrow>
              if \<not> HasPrefix absPath absBase then Some (Errorf [Lit ''path is outside allowed directory'']) else None)"

definition san_ValidatePath :: "(go_error + string) \<Rightarrow> string \<Rightarrow> string \<Rightarrow> result" where
  "san_ValidatePath wd path allowedBasePath =
     (if MatchString pathTraversalPattern path
      then Some (Errorf [Lit ''path contains directory traversal attempt''])
      else
        let cleanPath = Clean path;
            base = (if allowedBasePath \<noteq> [] then check_base wd cleanPath allowedBasePath else None);
            ext = ToLower (Ext cleanPath)
        in if base \<noteq> None then base
           else if ext \<in> set dangerousExtensions
           then Some (Errorf [Lit ''file extension '', Str ext, Lit '' is not allowed'']) else None)"

definition envNamePattern :: rexp where
  "envNamePattern = Cat (Class ([(65, 90), (97, 122)] @ chars ''_'')) (Rep (Class ([(65, 90), (97, 122), (48, 57)] @ chars ''_'')))"

definition ValidateEnvironmentVar :: "string \<Rightarrow> string \<Rightarrow> result" where
  "ValidateEnvironmentVar name val =
     (if \<not> full_match envNamePattern name
      then Some (Errorf [Lit ''invalid environment variable name: '', Str name])
      else if MatchString shellInjectionPattern val
      then Some (Errorf [Lit ''environment variable value contains potentially dangerous characters''])
      else if length val > 4096
      then Some (Errorf [Lit ''environment variable value exceeds maximum length'']) else None)"

text \<open>A parsed URL: its scheme and its host name.\<close>

record url =
  u_Scheme :: string
  u_Hostname :: string

definition digits :: "(nat \<times> nat) list" where
  "digits = [(48, 57)]"

definition hex_digits :: "(nat \<times> nat) list" where
  "hex_digits = [(97, 102), (48, 57)]"

definition digit_group :: rexp where
  "digit_group = Cat (Class digits) (up_to 2 (Class digits))"

definition ipPattern :: rexp where
  "ipPattern = cats [digit_group, text_of ''.'', digit_group, text_of ''.'', digit_group, text_of ''.'', digit_group]"

definition san_ValidateURL :: "(go_error + url) \<Rightarrow> result" where
  "san_ValidateURL parsed =
     (case parsed of
        Inl err \<Rightarrow> Some (Errorf [Lit ''invalid URL format: '', Wrap err])
      | Inr u \<Rightarrow>
          if ToLower (u_Scheme u) \<notin> {''http'', ''https''}
          then Some (Errorf [Lit ''URL scheme '', Str (u_Scheme u), Lit '' is not allowed''])
          else
            let host = ToLower (u_Hostname u) in
            if host = ''localhost'' \<or> host = ''127.0.0.1'' \<or> host = ''0.0.0.0'' \<or> HasPrefix host ''192.168.'' \<or>
               HasPrefix host ''10.'' \<or> HasPrefix host ''172.'' \<or> HasSuffix host ''.local''
            then Some (Errorf [Lit ''URL points to internal/local network''])
            else if full_match ipPattern host then Some (Errorf [Lit ''direct IP addresses are not allowed''])
            else None)"

definition lower_alnum :: "(nat \<times> nat) list" where
  "lower_alnum = [(97, 122), (48, 57)]"

definition domain_label :: rexp where
  "domain_label = Cat (Class alnum) (opt (Cat (Rep (Class (alnum @ chars ''-_''))) (Class alnum)))"

definition name_part :: rexp where
  "name_part = Cat (rep1 (Class lower_alnum)) (Rep (Cat (Class (chars ''._-'')) (rep1 (Class lower_alnum))))"

definition imagePattern :: rexp where
  "imagePattern =
     cats [opt (cats [Rep (Cat domain_label (text_of ''.'')), domain_label,
                      opt (Cat (text_of '':'') (rep1 (Class digits))), text_of ''/'']),
           name_part, Rep (Cat (text_of ''/'') name_part),
           opt (cats [text_of '':'', Class (alnum @ chars ''_''), up_to 127 (Class (alnum @ chars ''._-''))]),
           opt (Cat (text_of ''@sha256:'') (rep_n 64 (Class hex_digits)))]"

definition ValidateDockerImage :: "string \<Rightarrow> result" where
  "ValidateDockerImage img =
     (if \<not> full_match imagePattern img then Some (Errorf [Lit ''invalid Docker image name format''])
      else if Contains img ''..'' \<or> Contains img ''//''
      then Some (Errorf [Lit ''Docker image name contains suspicious patterns''])
      else if length img > 255 then Some (Errorf [Lit ''Docker image name exceeds maximum length''])
      else None)"

text \<open>\<open>spec\<close> is \<^verbatim>\<open>cron.ValidateSpec\<close> with the options of the program.\<close>

definition san_ValidateCronExpression :: "(string \<Rightarrow> result) \<Rightarrow> string \<Rightarrow> result" where
  "san_ValidateCronExpression spec expr =
     (if expr = ''@triggered'' \<or> expr = ''@manual'' \<or> expr = ''@none'' then None
      else map_option (\<lambda>err. Errorf [Lit ''invalid cron expression: '', Wrap err]) (spec expr))"

text \<open>\<^verbatim>\<open>html.EscapeString\<close>\<close>

definition escape_char :: "char \<Rightarrow> string" where
  "escape_char c =
     (if c = CHR ''&'' then ''&amp;''
      else if c = CHR 0x27 then ''&#39;''
      else if c = CHR ''<'' then ''&lt;''
      else if c = CHR ''>'' then ''&gt;''
      else if c = CHR 0x22 then ''&#34;'' else [c])"

definition SanitizeHTML :: "string \<Rightarrow> string" where
  "SanitizeHTML input = concat (map escape_char input)"

definition jobNamePattern :: rexp where
  "jobNamePattern = rep1 (Class (alnum @ chars ''_-''))"

definition ValidateJobName :: "string \<Rightarrow> result" where
  "ValidateJobName name =
     (if name = [] \<or> length name > 100
      then Some (Errorf [Lit ''job name must be between 1 and 100 characters''])
      else if \<not> full_match jobNamePattern name
      then Some (Errorf [Lit ''job name can only contain letters, numbers, dashes, and underscores''])
      else None)"

definition emailRegex :: rexp where
  "emailRegex =
     cats [rep1 (Class (alnum @ chars ''._%+-'')), text_of ''@'', rep1 (Class (alnum @ chars ''.-'')),
           text_of ''.'', Class [(97, 122), (65, 90)], rep1 (Class [(97, 122), (65, 90)])]"

definition ValidateEmailList :: "string \<Rightarrow> result" where
  "ValidateEmailList emails =
     (if emails = [] then None
      else map_option (\<lambda>email. Errorf [Lit ''invalid email address: '', Str email])
             (find (\<lambda>email. \<not> full_match emailRegex email) (map TrimSpace (Split emails (CHR '','')))))"

section \<open>Facts\<close>

definition shell_meta :: string where
  "shell_meta = '';&|<>$'' @ [CHR 0x60] @ newline_chars"

lemma shellInjection_iff: "MatchString shellInjectionPattern s \<longleftrightarrow> (\<exists>c\<in>set s. c \<in> set shell_meta)"
proof -
  have "MatchString shellInjectionPattern s \<longleftrightarrow> (\<exists>c\<in>set s. c \<in> set shell_meta) \<or>
      (\<exists>w\<in>{''$('', ''${'', ''&&'', ''||'', ''>>'', ''<<''}. Contains s w)"
    unfolding shellInjectionPattern_def shell_meta_def
    by (auto simp: MatchString_Alt MatchString_text MatchString_class in_class_chars
        simp del: text_of.simps Contains.simps)
  moreover have "\<exists>c\<in>set s. c \<in> set shell_meta"
    if "w \<in> {''$('', ''${'', ''&&'', ''||'', ''>>'', ''<<''}" "Contains s w" for w
  proof -
    have "hd w \<in> set shell_meta \<and> hd w \<in> set w" using that(1) by (auto simp: shell_meta_def)
    then show ?thesis using Contains_subset [OF that(2)] by blast
  qed
  ultimately show ?thesis by blast
qed

lemma ValidateCommand_iff:
  "ValidateCommand c = None \<longleftrightarrow>
     (\<forall>x\<in>set c. x \<notin> set shell_meta) \<and> (\<forall>d\<in>set dangerousCommands. \<not> Contains (ToLower c) d)"
  by (auto simp: ValidateCommand_def shellInjection_iff find_None_iff simp del: Contains.simps split: option.splits)
     (metis find_None_iff not_None_eq)+

lemma ValidateJobName_iff:
  "ValidateJobName n = None \<longleftrightarrow> n \<noteq> [] \<and> length n \<le> 100 \<and> (\<forall>c\<in>set n. in_class alnum c \<or> c \<in> set ''_-'')"
  unfolding ValidateJobName_def jobNamePattern_def full_match_rep1 in_class_append in_class_chars by auto

lemma Split_id: "CHR ''/'' \<notin> set w \<Longrightarrow> Split (CHR ''/'' # w) (CHR ''/'') = [[], w]"
  by (simp add: Split_absent)

text \<open>Every character of an image name is in a class of the pattern.\<close>

definition only_chars :: "(char \<Rightarrow> bool) \<Rightarrow> rexp \<Rightarrow> bool" where
  "only_chars A r \<longleftrightarrow> (\<forall>c. in_class (classes r) c \<longrightarrow> A c)"

lemma only_intros [intro]:
  "only_chars A Eps"
  "(\<And>c. in_class rs c \<Longrightarrow> A c) \<Longrightarrow> only_chars A (Class rs)"
  "only_chars A r \<Longrightarrow> only_chars A s \<Longrightarrow> only_chars A (Alt r s)"
  "only_chars A r \<Longrightarrow> only_chars A s \<Longrightarrow> only_chars A (Cat r s)"
  "only_chars A r \<Longrightarrow> only_chars A (Rep r)"
  by (auto simp: only_chars_def in_class_append)

lemma only_derived [intro]:
  "only_chars A r \<Longrightarrow> only_chars A (opt r)"
  "only_chars A r \<Longrightarrow> only_chars A (rep1 r)"
  by (auto simp: opt_def rep1_def)

lemma only_up_to: "only_chars A r \<Longrightarrow> only_chars A (up_to n r)"
  by (induction n) auto

lemma only_rep_n: "only_chars A r \<Longrightarrow> only_chars A (rep_n n r)"
  by (induction n) auto

lemma only_text: "(\<forall>c\<in>set w. A c) \<Longrightarrow> only_chars A (text_of w)"
  by (induction w) (auto simp: only_chars_def in_class_append in_class_chars)

definition image_char :: "char \<Rightarrow> bool" where
  "image_char c \<longleftrightarrow> in_class alnum c \<or> c \<in> set ''._-:/@''"

lemma only_image: "only_chars image_char imagePattern"
proof -
  have cls: "only_chars image_char (Class alnum)" "only_chars image_char (Class lower_alnum)" "only_chars image_char (Class digits)"
    "only_chars image_char (Class hex_digits)" "only_chars image_char (Class (alnum @ chars ''-_''))"
    "only_chars image_char (Class (alnum @ chars ''_''))" "only_chars image_char (Class (alnum @ chars ''._-''))"
    "only_chars image_char (Class (chars ''._-''))"
    by (rule only_intros(2); force simp: image_char_def in_class_append in_class_chars alnum_def
        lower_alnum_def digits_def hex_digits_def)+
  have tx: "only_chars image_char (text_of ''.'')" "only_chars image_char (text_of '':'')" "only_chars image_char (text_of ''/'')"
    "only_chars image_char (text_of ''@sha256:'')"
    by (rule only_text; simp add: image_char_def alnum_def)+
  have "only_chars image_char domain_label" "only_chars image_char name_part"
    unfolding domain_label_def name_part_def by (intro only_intros only_derived cls)+
  then show ?thesis unfolding imagePattern_def cats.simps
    by (intro only_intros(3-) only_derived only_up_to only_rep_n tx cls)
qed

lemma image_classes: "full_match imagePattern s \<Longrightarrow> c \<in> set s \<Longrightarrow> image_char c"
  using only_image lang_classes by (auto simp: full_match_lang only_chars_def)

section \<open>Properties\<close>

text \<open>(command_accepted_iff): a command is accepted exactly when it contains none of the characters
  \<^verbatim>\<open>;&|<>$\<close>, back quote, line feed and carriage return, and none of the listed operations in any
  case; the multi-character alternatives of the pattern never decide.\<close>

theorem command_accepted_iff:
  "ValidateCommand c = None \<longleftrightarrow>
     (\<forall>x\<in>set c. x \<notin> set shell_meta) \<and> (\<forall>d\<in>set dangerousCommands. \<not> Contains (ToLower c) d)"
  by (rule ValidateCommand_iff)

text \<open>(base_path_prefix_confusion): the check that a path lies in the allowed directory compares
  strings: a sibling directory whose name extends the name of the base is accepted, while an
  unrelated directory is refused.\<close>

theorem base_path_prefix_confusion:
  "san_ValidatePath wd ''/database/x'' ''/data'' = None \<and> san_ValidatePath wd ''/srv/x'' ''/data'' \<noteq> None"
proof -
  have nm: "\<not> MatchString pathTraversalPattern s" if "CHR ''%'' \<notin> set s" "CHR ''.'' \<notin> set s" for s
  proof
    assume "MatchString pathTraversalPattern s"
    then obtain a x b where s: "s = a @ x @ b" and x: "x \<in> lang pathTraversalPattern"
      unfolding MatchString_lang by blast
    have "CHR ''%'' \<in> set x \<or> CHR ''.'' \<in> set x"
      using x by (auto simp: pathTraversalPattern_def in_class_chars)
    then show False using that s by auto
  qed
  have "Clean ''/database/x'' = ''/database/x''" "Clean ''/data'' = ''/data''" "Clean ''/srv/x'' = ''/srv/x''"
    by (simp_all add: Clean_def push_elem_def HasPrefix_def Let_def)
  then show ?thesis
    using nm [of "''/database/x''"] nm [of "''/srv/x''"]
    by (simp add: san_ValidatePath_def check_base_def Abs_path_def HasPrefix_def Ext_def
        dangerousExtensions_def ToLower_def Let_def del: not_None_eq)
qed

lemma escape_safe: "c \<in> set (SanitizeHTML s) \<Longrightarrow> c \<notin> {CHR ''<'', CHR ''>'', CHR 0x22, CHR 0x27}"
  by (auto simp: SanitizeHTML_def escape_char_def split: if_splits)

end
