(* ===== verification/Validator.thy ===== *)
theory Validator
  imports Sanitizer
begin

text \<open>
  The validation of the configuration (\<^verbatim>\<open>src/config/validator.go\<close>). The reflected configuration is
  a tree of fields with their tags. The validator appends errors to a list; the theory shows
  that the result is the concatenation of the errors of the leaves the walk reaches, gives the
  conditions under which a leaf is accepted, and shows that the walk does not enter structs
  that are squashed into their parent.
\<close>

datatype error_value = EStr string | EInt int

record ValidationError =
  ve_Field :: string
  ve_Value :: error_value
  ve_Message :: string

type_synonym validator = "ValidationError list"

definition AddError :: "string \<Rightarrow> error_value \<Rightarrow> string \<Rightarrow> validator \<Rightarrow> validator" where
  "AddError field val message v = v @ [\<lparr>ve_Field = field, ve_Value = val, ve_Message = message\<rparr>]"

definition HasErrors :: "validator \<Rightarrow> bool" where
  "HasErrors v \<longleftrightarrow> length v > 0"

section \<open>Checks\<close>

definition ValidateRequired :: "string \<Rightarrow> string \<Rightarrow> validator \<Rightarrow> validator" where
  "ValidateRequired field val v =
     (if TrimSpace val = [] then AddError field (EStr val) ''is required'' v else v)"

definition ValidateMinLength :: "string \<Rightarrow> string \<Rightarrow> int \<Rightarrow> validator \<Rightarrow> validator" where
  "ValidateMinLength field val minLength v =
     (if int (length val) < minLength
      then AddError field (EStr val) (''must be at least '' @ show_int minLength @ '' characters'') v else v)"

definition ValidateMaxLength :: "string \<Rightarrow> string \<Rightarrow> int \<Rightarrow> validator \<Rightarrow> validator" where
  "ValidateMaxLength field val maxLength v =
     (if int (length val) > maxLength
      then AddError field (EStr val) (''must be at most '' @ show_int maxLength @ '' characters'') v else v)"

definition ValidateRange :: "string \<Rightarrow> int \<Rightarrow> int \<Rightarrow> int \<Rightarrow> validator \<Rightarrow> validator" where
  "ValidateRange field val minVal maxVal v =
     (if val < minVal \<or> val > maxVal
      then AddError field (EInt val) (''must be between '' @ show_int minVal @ '' and '' @ show_int maxVal) v else v)"

definition ValidatePositive :: "string \<Rightarrow> int \<Rightarrow> validator \<Rightarrow> validator" where
  "ValidatePositive field val v = (if val \<le> 0 then AddError field (EInt val) ''must be positive'' v else v)"

definition ValidateEmail :: "string \<Rightarrow> string \<Rightarrow> validator \<Rightarrow> validator" where
  "ValidateEmail field val v =
     (if val = [] then v
      else if \<not> full_match emailRegex val then AddError field (EStr val) ''must be a valid email address'' v else v)"

definition ValidateCronExpression :: "(string \<Rightarrow> result) \<Rightarrow> string \<Rightarrow> string \<Rightarrow> validator \<Rightarrow> validator" where
  "ValidateCronExpression spec field val v =
     (if val = [] then v
      else if val = ''@triggered'' \<or> val = ''@manual'' \<or> val = ''@none'' then v
      else case spec val of
             Some err \<Rightarrow> AddError field (EStr val) (''invalid cron expression: '' @ err_msg err) v
           | None \<Rightarrow> v)"

definition ValidateEnum :: "string \<Rightarrow> string \<Rightarrow> string list \<Rightarrow> validator \<Rightarrow> validator" where
  "ValidateEnum field val allowed v =
     (if val = [] then v
      else if val \<in> set allowed then v
      else AddError field (EStr val) (''must be one of: '' @ join '', '' allowed) v)"

definition val_ValidatePath :: "string \<Rightarrow> string \<Rightarrow> validator \<Rightarrow> validator" where
  "val_ValidatePath field val v =
     (if val = [] then v
      else if CHR 0x00 \<in> set val then AddError field (EStr val) ''contains invalid characters'' v else v)"

section \<open>Configurations\<close>

datatype cfg_value =
    VStr string
  | VInt int
  | VSlice
  | VStruct "cfg_field list"
  | VOther
and cfg_field =
    CfgField (f_name: string) (f_exported: bool) (f_gcfg: string) (f_mapstructure: string) (f_default: string)
      (f_value: cfg_value)

text \<open>\<^verbatim>\<open>strconv.Atoi\<close> succeeds on an optional sign and digits whose value is in the range of \<^verbatim>\<open>int\<close>.\<close>

definition dec_value :: "string \<Rightarrow> int" where
  "dec_value s = foldl (\<lambda>a c. 10 * a + (int (of_char c) - 48)) 0 s"

definition Atoi_ok :: "string \<Rightarrow> bool" where
  "Atoi_ok s =
     (let neg = HasPrefix s ''-''; ds = (if neg \<or> HasPrefix s ''+'' then tl s else s) in
      ds \<noteq> [] \<and> (\<forall>c\<in>set ds. in_class [(48, 57)] c) \<and>
      (if neg then dec_value ds \<le> 2 ^ 63 else dec_value ds < 2 ^ 63))"

definition isValidAddress :: "string \<Rightarrow> bool" where
  "isValidAddress addr =
     (if addr = [] then False
      else if \<not> Contains addr '':'' then False
      else
        let parts = Split addr (CHR '':'') in
        if length parts \<noteq> 2 then False else Atoi_ok (parts ! 1))"

definition isValidLogLevel :: "string \<Rightarrow> bool" where
  "isValidLogLevel level \<longleftrightarrow>
     ToLower level \<in> set [''debug'', ''trace'', ''info'', ''notice'', ''warn'', ''warning'', ''error'', ''fatal'',
       ''panic'', ''critical'']"

definition optionalFields :: "string list" where
  "optionalFields =
     [''smtp-user'', ''smtp-password'', ''email-to'', ''email-from'', ''slack-webhook'', ''save-folder'',
      ''restore-history'', ''restore-history-max-age'', ''container'', ''service'', ''image'', ''user'', ''network'',
      ''environment'', ''secrets'', ''volumes'', ''working_dir'', ''log-level'', ''env-file'', ''env-from'']"

definition isOptionalField :: "string \<Rightarrow> bool" where
  "isOptionalField path \<longleftrightarrow> list_ex (Contains path) optionalFields"

definition performSecurityValidation :: "string \<Rightarrow> string \<Rightarrow> validator \<Rightarrow> bool \<times> validator" where
  "performSecurityValidation path str v =
     (case SanitizeString str 1024 of
        Inl err \<Rightarrow> (False, AddError path (EStr str) (''input validation failed: '' @ err_msg err) v)
      | Inr _ \<Rightarrow> (True, v))"

text \<open>An error of the sanitizer becomes an error of the field.\<close>

definition report :: "string \<Rightarrow> string \<Rightarrow> string \<Rightarrow> result \<Rightarrow> validator \<Rightarrow> validator" where
  "report path str what r v =
     (case r of Some err \<Rightarrow> AddError path (EStr str) (what @ err_msg err) v | None \<Rightarrow> v)"

definition validateCronField :: "(string \<Rightarrow> result) \<Rightarrow> string \<Rightarrow> string \<Rightarrow> validator \<Rightarrow> validator" where
  "validateCronField spec path str v =
     report path str ''cron validation failed: '' (san_ValidateCronExpression spec str)
       (ValidateCronExpression spec path str v)"

definition validateEmailField :: "string \<Rightarrow> string \<Rightarrow> validator \<Rightarrow> validator" where
  "validateEmailField path str v =
     report path str ''email validation failed: '' (ValidateEmailList str) (ValidateEmail path str v)"

definition validateAddressField :: "string \<Rightarrow> string \<Rightarrow> validator \<Rightarrow> validator" where
  "validateAddressField path str v =
     (if \<not> isValidAddress str then AddError path (EStr str) ''invalid address format'' v else v)"

definition validateLogLevelField :: "string \<Rightarrow> string \<Rightarrow> validator \<Rightarrow> validator" where
  "validateLogLevelField path str v =
     (if \<not> isValidLogLevel str
      then AddError path (EStr str) ''invalid log level (use: debug, info, warn, error)'' v else v)"

definition validateCommandField :: "string \<Rightarrow> string \<Rightarrow> validator \<Rightarrow> validator" where
  "validateCommandField path str v = report path str ''command validation failed: '' (ValidateCommand str) v"

definition validateImageField :: "string \<Rightarrow> string \<Rightarrow> validator \<Rightarrow> validator" where
  "validateImageField path str v = report path str ''Docker image validation failed: '' (ValidateDockerImage str) v"

definition validatePathField :: "string \<Rightarrow> string \<Rightarrow> validator \<Rightarrow> validator" where
  "validatePathField path str v =
     report path str ''path validation failed: '' (san_ValidatePath (Inr ''/'') str []) v"

definition validateSpecificStringField :: "(string \<Rightarrow> result) \<Rightarrow> string \<Rightarrow> string \<Rightarrow> validator \<Rightarrow> validator" where
  "validateSpecificStringField spec path str v0 =
     (case performSecurityValidation path str v0 of
        (False, v) \<Rightarrow> v
      | (True, v) \<Rightarrow>
          if path = ''schedule'' \<or> path = ''cron'' then validateCronField spec path str v
          else if path = ''email-to'' \<or> path = ''email-from'' then validateEmailField path str v
          else if path = ''web-address'' \<or> path = ''pprof-address'' then validateAddressField path str v
          else if path = ''log-level'' then validateLogLevelField path str v
          else if path = ''command'' \<or> path = ''cmd'' then validateCommandField path str v
          else if path = ''image'' then validateImageField path str v
          else if path = ''save-folder'' \<or> path = ''working_dir'' then validatePathField path str v
          else v)"

definition validateStringField ::
  "(string \<Rightarrow> result) \<Rightarrow> string \<Rightarrow> string \<Rightarrow> string \<Rightarrow> validator \<Rightarrow> validator" where
  "validateStringField spec str path defaultTag v =
     (if defaultTag \<noteq> [] \<and> str = [] then v
      else
        let v1 = (if defaultTag = [] \<and> str = [] \<and> \<not> isOptionalField path then ValidateRequired path str v else v)
        in if str \<noteq> [] then validateSpecificStringField spec path str v1 else v1)"

definition validateIntField :: "int \<Rightarrow> string \<Rightarrow> validator \<Rightarrow> validator" where
  "validateIntField val path v =
     (let v1 = (if Contains path ''port'' \<and> val > 0 then ValidateRange path val 1 65535 v else v)
      in if (Contains path ''max'' \<or> Contains path ''size'') \<and> val < 0
         then AddError path (EInt val) ''must be non-negative'' v1 else v1)"

fun validateField :: "(string \<Rightarrow> result) \<Rightarrow> cfg_value \<Rightarrow> string \<Rightarrow> string \<Rightarrow> validator \<Rightarrow> validator" where
  "validateField spec (VStr str) path defaultTag v = validateStringField spec str path defaultTag v"
| "validateField spec (VInt i) path defaultTag v = validateIntField i path v"
| "validateField spec VSlice path defaultTag v = v"
| "validateField spec (VStruct fs) path defaultTag v = v"
| "validateField spec VOther path defaultTag v = v"

definition field_path :: "string \<Rightarrow> cfg_field \<Rightarrow> string" where
  "field_path path f =
     (if f_gcfg f \<noteq> [] \<and> f_gcfg f \<noteq> ''-'' then f_gcfg f
      else if f_mapstructure f \<noteq> [] \<and> f_mapstructure f \<noteq> ''-'' \<and> f_mapstructure f \<noteq> '',squash''
      then f_mapstructure f
      else if path \<noteq> [] then path @ ''.'' @ f_name f else f_name f)"

lemma size_struct: "f_value f = VStruct gs \<Longrightarrow> size_list size gs < size f"
  by (cases f) auto

function validateStruct :: "(string \<Rightarrow> result) \<Rightarrow> cfg_field list \<Rightarrow> string \<Rightarrow> validator \<Rightarrow> validator" where
  "validateStruct spec [] path v = v"
| "validateStruct spec (f # fs) path v =
     (if \<not> f_exported f then validateStruct spec fs path v
      else
        case f_value f of
          VStruct gs \<Rightarrow>
            (if f_mapstructure f \<noteq> '',squash''
             then validateStruct spec fs path (validateStruct spec gs (field_path path f) v)
             else validateStruct spec fs path (validateField spec (VStruct gs) (field_path path f) (f_default f) v))
        | w \<Rightarrow> validateStruct spec fs path (validateField spec w (field_path path f) (f_default f) v))"
  by pat_completeness auto
termination
  by (relation "measure (\<lambda>(spec, fs, path, v). size_list size fs)") (auto dest: size_struct)

definition Validate :: "(string \<Rightarrow> result) \<Rightarrow> cfg_field list option \<Rightarrow> ValidationError list option" where
  "Validate spec config =
     (let v = (case config of None \<Rightarrow> [] | Some fs \<Rightarrow> validateStruct spec fs [] [])
      in if HasErrors v then Some v else None)"

section \<open>Facts\<close>

text \<open>Every check only appends to the list of errors.\<close>

lemma report_append: "report p s w r v = v @ report p s w r []"
  by (simp add: report_def AddError_def split: option.splits)

lemma check_append:
  "ValidateRequired p s v = v @ ValidateRequired p s []"
  "ValidateRange p i lo hi v = v @ ValidateRange p i lo hi []"
  "ValidateEmail p s v = v @ ValidateEmail p s []"
  "ValidateCronExpression spec p s v = v @ ValidateCronExpression spec p s []"
  by (simp_all add: ValidateRequired_def ValidateRange_def ValidateEmail_def ValidateCronExpression_def AddError_def
      split: option.splits)

lemma string_check_append:
  "validateCronField spec p s v = v @ validateCronField spec p s []"
  "validateEmailField p s v = v @ validateEmailField p s []"
  "validateAddressField p s v = v @ validateAddressField p s []"
  "validateLogLevelField p s v = v @ validateLogLevelField p s []"
  "validateCommandField p s v = v @ validateCommandField p s []"
  "validateImageField p s v = v @ validateImageField p s []"
  "validatePathField p s v = v @ validatePathField p s []"
  unfolding validateCronField_def validateEmailField_def validateAddressField_def validateLogLevelField_def
    validateCommandField_def validateImageField_def validatePathField_def
  by (subst report_append, subst check_append, subst (2) report_append, simp)
     (subst report_append, subst check_append, subst (2) report_append, simp,
      simp_all add: AddError_def report_append [of p s _ _ v])

lemma security_append:
  "performSecurityValidation p s v = (fst (performSecurityValidation p s []), v @ snd (performSecurityValidation p s []))"
  by (simp add: performSecurityValidation_def AddError_def split: sum.splits)

lemma specific_append:
  "validateSpecificStringField spec p s v = v @ validateSpecificStringField spec p s []"
proof (cases "fst (performSecurityValidation p s [])")
  case True
  then have "performSecurityValidation p s w = (True, w)" for w
    by (simp add: performSecurityValidation_def split: sum.splits)
  then show ?thesis
    unfolding validateSpecificStringField_def
    by (simp add: string_check_append(1) [of spec p s v] string_check_append(2-) [of _ s v])
next
  case False
  then show ?thesis
    unfolding validateSpecificStringField_def by (subst security_append) (simp add: case_prod_beta)
qed

lemma validateField_append: "validateField spec w p d v = v @ validateField spec w p d []"
proof (cases w)
  case (VStr s)
  then show ?thesis
    by (cases "s = []") (simp_all add: validateStringField_def Let_def specific_append [of spec p s v] check_append(1) [of p "[]" v])
next
  case (VInt i)
  then show ?thesis
    by (simp add: validateIntField_def Let_def AddError_def check_append(2) [of p i 1 65535 v])
qed simp_all

text \<open>The leaves that the walk reaches, with their path and default.\<close>

function leaves :: "cfg_field list \<Rightarrow> string \<Rightarrow> (string \<times> string \<times> cfg_value) list" where
  "leaves [] path = []"
| "leaves (f # fs) path =
     (if \<not> f_exported f then leaves fs path
      else
        case f_value f of
          VStruct gs \<Rightarrow> (if f_mapstructure f \<noteq> '',squash'' then leaves gs (field_path path f) else []) @ leaves fs path
        | w \<Rightarrow> (field_path path f, f_default f, w) # leaves fs path)"
  by pat_completeness auto
termination
  by (relation "measure (\<lambda>(fs, path). size_list size fs)") (auto dest: size_struct)

lemma validateStruct_leaves:
  "validateStruct spec fs path v = v @ concat (map (\<lambda>(p, d, w). validateField spec w p d []) (leaves fs path))"
proof (induction spec fs path v rule: validateStruct.induct)
  case (2 spec f fs path v)
  show ?case
  proof (cases "f_exported f")
    case False
    then show ?thesis using 2 by simp
  next
    case True
    show ?thesis
    proof (cases "f_value f")
      case (VStruct gs)
      then show ?thesis using True 2 by (cases "f_mapstructure f = '',squash''") simp_all
    qed (use True 2 validateField_append [of spec "f_value f" "field_path path f" "f_default f" v] in simp_all)
  qed
qed simp

text \<open>What a leaf must satisfy.\<close>

definition string_ok :: "(string \<Rightarrow> result) \<Rightarrow> string \<Rightarrow> string \<Rightarrow> bool" where
  "string_ok spec p s \<longleftrightarrow>
     length s \<le> 1024 \<and> \<not> bad_control (TrimSpace (ReplaceAll s [CHR 0x00] [])) \<and>
     (p \<in> {''schedule'', ''cron''} \<longrightarrow> s \<in> {''@triggered'', ''@manual'', ''@none''} \<or> spec s = None) \<and>
     (p \<in> {''email-to'', ''email-from''} \<longrightarrow> full_match emailRegex s \<and> ValidateEmailList s = None) \<and>
     (p \<in> {''web-address'', ''pprof-address''} \<longrightarrow> isValidAddress s) \<and>
     (p = ''log-level'' \<longrightarrow> isValidLogLevel s) \<and>
     (p \<in> {''command'', ''cmd''} \<longrightarrow> ValidateCommand s = None) \<and>
     (p = ''image'' \<longrightarrow> ValidateDockerImage s = None) \<and>
     (p \<in> {''save-folder'', ''working_dir''} \<longrightarrow> san_ValidatePath (Inr ''/'') s [] = None)"

fun leaf_ok :: "(string \<Rightarrow> result) \<Rightarrow> string \<times> string \<times> cfg_value \<Rightarrow> bool" where
  "leaf_ok spec (p, d, VStr s) = (if s = [] then d \<noteq> [] \<or> isOptionalField p else string_ok spec p s)"
| "leaf_ok spec (p, d, VInt i) =
     ((Contains p ''port'' \<longrightarrow> i \<le> 65535) \<and> (Contains p ''max'' \<or> Contains p ''size'' \<longrightarrow> 0 \<le> i))"
| "leaf_ok spec (p, d, w) = True"

lemma report_nil: "report p s w r v = [] \<longleftrightarrow> v = [] \<and> r = None"
  by (simp add: report_def AddError_def split: option.splits)

lemma string_check_nil:
  "s \<noteq> [] \<Longrightarrow> validateCronField spec p s [] = [] \<longleftrightarrow> s \<in> {''@triggered'', ''@manual'', ''@none''} \<or> spec s = None"
  "s \<noteq> [] \<Longrightarrow> validateEmailField p s [] = [] \<longleftrightarrow> full_match emailRegex s \<and> ValidateEmailList s = None"
  "validateAddressField p s [] = [] \<longleftrightarrow> isValidAddress s"
  "validateLogLevelField p s [] = [] \<longleftrightarrow> isValidLogLevel s"
  "validateCommandField p s [] = [] \<longleftrightarrow> ValidateCommand s = None"
  "validateImageField p s [] = [] \<longleftrightarrow> ValidateDockerImage s = None"
  "validatePathField p s [] = [] \<longleftrightarrow> san_ValidatePath (Inr ''/'') s [] = None"
  by (auto simp: validateCronField_def validateEmailField_def validateAddressField_def validateLogLevelField_def
      validateCommandField_def validateImageField_def validatePathField_def report_nil AddError_def
      ValidateCronExpression_def san_ValidateCronExpression_def ValidateEmail_def split: option.splits)

lemma sanitized_iff: "(\<exists>t. SanitizeString s 1024 = Inr t) \<longleftrightarrow> length s \<le> 1024 \<and> \<not> bad_control (TrimSpace (ReplaceAll s [CHR 0x00] []))"
  by (simp add: SanitizeString_def Let_def)

lemma specific_nil:
  assumes "s \<noteq> []"
  shows "validateSpecificStringField spec p s [] = [] \<longleftrightarrow> string_ok spec p s"
proof (cases "SanitizeString s 1024")
  case (Inl e)
  then have "\<not> (\<exists>t. SanitizeString s 1024 = Inr t)" by simp
  with Inl show ?thesis
    unfolding sanitized_iff by (auto simp: validateSpecificStringField_def performSecurityValidation_def AddError_def string_ok_def)
next
  case (Inr t)
  then have "\<exists>t. SanitizeString s 1024 = Inr t" by simp
  with Inr show ?thesis using assms
    unfolding sanitized_iff by (simp add: validateSpecificStringField_def performSecurityValidation_def string_ok_def string_check_nil)
qed

lemma TrimSpace_Nil [simp]: "TrimSpace [] = []"
proof -
  have "strip_front rs [] = []" for rs
    by (subst strip_front.simps) (auto simp: HasPrefix_def split: option.splits dest: find_Some_iff [THEN iffD1])
  then show ?thesis by (simp add: TrimSpace_def)
qed

lemma leaf_nil: "validateField spec w p d [] = [] \<longleftrightarrow> leaf_ok spec (p, d, w)"
proof (cases w)
  case (VStr s)
  then show ?thesis
    by (cases "s = []") (simp_all add: validateStringField_def ValidateRequired_def AddError_def Let_def specific_nil)
next
  case (VInt i)
  then show ?thesis by (auto simp: validateIntField_def ValidateRange_def AddError_def Let_def simp del: Contains.simps)
qed simp_all

section \<open>Properties\<close>

text \<open>C39 (config_accepted_iff): the configuration is accepted exactly when every leaf that the walk reaches
  is valid. A string that is empty needs a default or a field that is optional. Any other string, whatever the field, is at most 1024 bytes long
  and, without null bytes and surrounding white space, has no control characters other than tab and line breaks; in
  their fields, schedules parse, email addresses are one address each, and listen addresses,
  log levels, commands, images and paths pass their checks. Ports are at most 65535, sizes and maxima are not negative. No
  string is searched for SQL patterns, and no list of addresses is accepted, although \<^verbatim>\<open>docs/packages/config.md\<close> and
  \<^verbatim>\<open>docs/CONFIGURATION.md\<close> say so.\<close>

theorem config_accepted_iff:
  "Validate spec (Some fs) = None \<longleftrightarrow> list_all (leaf_ok spec) (leaves fs [])"
proof -
  have "Validate spec (Some fs) = None \<longleftrightarrow> concat (map (\<lambda>(p, d, w). validateField spec w p d []) (leaves fs [])) = []"
    by (simp add: Validate_def HasErrors_def validateStruct_leaves)
  then show ?thesis using leaf_nil by (auto simp: list_all_iff simp del: leaf_ok.simps)
qed

text \<open>(squashed_structs_not_validated): the walk does not enter a struct that is squashed into its
  parent: whatever values its fields have (a mail address, a folder or a command that is refused
  elsewhere), the configuration is accepted as if the struct were not there.\<close>

theorem squashed_structs_not_validated:
  "Validate spec (Some (CfgField name exported gcfg '',squash'' dflt (VStruct gs) # fs)) = Validate spec (Some fs)"
proof -
  have "leaves (CfgField name exported gcfg '',squash'' dflt (VStruct gs) # fs) [] = leaves fs []" by simp
  then show ?thesis unfolding Validate_def by (simp add: validateStruct_leaves del: leaves.simps)
qed

end
