(* ===== verification/ConfigMerge.thy ===== *)
theory ConfigMerge
  imports EnvFile
begin

text \<open>
  How settings from several sources are combined: the defaults that a job inherits from the global
  section (\<^verbatim>\<open>src/cli/config.go\<close>), the global settings that service containers may set by labels
  (\<^verbatim>\<open>src/cli/config_global_merge.go\<close>), and the webhooks (\<^verbatim>\<open>src/cli/config_webhook.go\<close>,
  \<^verbatim>\<open>src/middlewares/webhook_config.go\<close>). A pointer to a bool or a string is an option. A range over a
  Go map is a fold over an association list, in any order of its keys.

  A value that is set is never replaced by a later source; the locale \<open>first_set\<close> states this for
  one field and is interpreted for every type of field.
\<close>

section \<open>One field\<close>

text \<open>The pattern \<^verbatim>\<open>if dst is unset and src is set: dst = src; changed = true\<close>.\<close>

definition merge_field :: "('a \<Rightarrow> bool) \<Rightarrow> 'a \<Rightarrow> 'a \<Rightarrow> bool \<times> 'a" where
  "merge_field unset dst src = (if unset dst \<and> \<not> unset src then (True, src) else (False, dst))"

text \<open>The pattern \<^verbatim>\<open>if job is unset: job = global\<close>.\<close>

definition inherit :: "('a \<Rightarrow> bool) \<Rightarrow> 'a \<Rightarrow> 'a \<Rightarrow> 'a" where
  "inherit unset job global = (if unset job then global else job)"

abbreviation no_string :: "string \<Rightarrow> bool" where "no_string s \<equiv> s = []"
abbreviation no_int :: "int \<Rightarrow> bool" where "no_int i \<equiv> i = 0"
abbreviation no_option :: "'a option \<Rightarrow> bool" where "no_option x \<equiv> x = None"
abbreviation no_bool :: "bool \<Rightarrow> bool" where "no_bool b \<equiv> \<not> b"

locale first_set =
  fixes unset :: "'a \<Rightarrow> bool"
  assumes unset_unique: "unset x \<Longrightarrow> unset y \<Longrightarrow> x = y"
begin

lemma merge_changed: "fst (merge_field unset x y) \<longleftrightarrow> snd (merge_field unset x y) \<noteq> x"
  using unset_unique by (auto simp: merge_field_def)

lemma merge_inherit: "snd (merge_field unset x y) = inherit unset x y"
  using unset_unique by (auto simp: merge_field_def inherit_def)

lemma merge_again: "\<not> fst (merge_field unset (snd (merge_field unset x y)) y)"
  by (auto simp: merge_field_def)

lemma merge_set: "\<not> unset x \<Longrightarrow> merge_field unset x y = (False, x)"
  by (simp add: merge_field_def)

lemma inherit_idem: "inherit unset (inherit unset x y) y = inherit unset x y"
  by (simp add: inherit_def)

lemma inherit_assoc: "inherit unset (inherit unset x y) z = inherit unset x (inherit unset y z)"
  by (simp add: inherit_def)

end

interpretation str: first_set no_string by unfold_locales simp
interpretation num: first_set no_int by unfold_locales simp
interpretation opt: first_set no_option by unfold_locales simp
interpretation bool: first_set no_bool by unfold_locales simp

section \<open>Settings\<close>

record SlackConfig =
  SlackWebhook :: string
  SlackOnlyOnError :: "bool option"

record MailConfig =
  SMTPHost :: string
  SMTPPort :: int
  SMTPUser :: string
  SMTPPassword :: string
  SMTPTLSSkipVerify :: bool
  SMTPTLSPolicy :: string
  EmailTo :: string
  EmailFrom :: string
  EmailSubject :: string
  MailOnlyOnError :: "bool option"

record SaveConfig =
  SaveFolder :: string
  SaveOnlyOnError :: "bool option"
  RestoreHistory :: "bool option"
  RestoreHistoryMaxAge :: duration

record WebhookGlobalConfig =
  wg_Webhooks :: string
  wg_AllowRemotePresets :: bool
  wg_TrustedPresetSources :: string
  wg_PresetCacheTTL :: duration
  wg_PresetCacheDir :: string
  wg_AllowedHosts :: string
  wg_DefaultPreset :: "string option"

record globals =
  g_Slack :: SlackConfig
  g_Save :: SaveConfig
  g_Mail :: MailConfig
  g_Webhook :: WebhookGlobalConfig
  g_LogLevel :: string
  g_MaxRuntime :: duration
  g_AllowHostJobsFromLabels :: bool
  g_EnableStrictValidation :: bool
  g_DefaultUser :: string
  g_NotificationCooldown :: duration

definition RestoreHistoryEnabled :: "SaveConfig \<Rightarrow> bool" where
  "RestoreHistoryEnabled c = (case RestoreHistory c of Some b \<Rightarrow> b | None \<Rightarrow> SaveFolder c \<noteq> [])"

definition GetRestoreHistoryMaxAge :: "SaveConfig \<Rightarrow> duration" where
  "GetRestoreHistoryMaxAge c = (if RestoreHistoryMaxAge c > 0 then RestoreHistoryMaxAge c else 24 * hour)"

definition resolveSMTPTLSPolicy :: "string \<Rightarrow> string" where
  "resolveSMTPTLSPolicy p =
     (if p = [] \<or> p = ''mandatory'' then ''mandatory''
      else if p = ''opportunistic'' \<or> p = ''none'' then p
      else ''mandatory'')"

section \<open>What a job inherits\<close>

definition mergeSlackDefaults :: "SlackConfig \<Rightarrow> SlackConfig \<Rightarrow> SlackConfig" where
  "mergeSlackDefaults global job =
     job\<lparr>SlackWebhook := inherit no_string (SlackWebhook job) (SlackWebhook global),
         SlackOnlyOnError := inherit no_option (SlackOnlyOnError job) (SlackOnlyOnError global)\<rparr>"

definition mergeMailDefaults :: "MailConfig \<Rightarrow> MailConfig \<Rightarrow> MailConfig" where
  "mergeMailDefaults global job =
     job\<lparr>SMTPHost := inherit no_string (SMTPHost job) (SMTPHost global),
         SMTPPort := inherit no_int (SMTPPort job) (SMTPPort global),
         SMTPUser := inherit no_string (SMTPUser job) (SMTPUser global),
         SMTPPassword := inherit no_string (SMTPPassword job) (SMTPPassword global),
         SMTPTLSSkipVerify := (if SMTPTLSSkipVerify global \<and> \<not> SMTPTLSSkipVerify job then SMTPTLSSkipVerify global
                               else SMTPTLSSkipVerify job),
         SMTPTLSPolicy := inherit no_string (SMTPTLSPolicy job) (SMTPTLSPolicy global),
         EmailTo := inherit no_string (EmailTo job) (EmailTo global),
         EmailFrom := inherit no_string (EmailFrom job) (EmailFrom global),
         EmailSubject := inherit no_string (EmailSubject job) (EmailSubject global),
         MailOnlyOnError := inherit no_option (MailOnlyOnError job) (MailOnlyOnError global)\<rparr>"

definition mergeSaveDefaults :: "SaveConfig \<Rightarrow> SaveConfig \<Rightarrow> SaveConfig" where
  "mergeSaveDefaults global job =
     job\<lparr>SaveFolder := inherit no_string (SaveFolder job) (SaveFolder global),
         SaveOnlyOnError := inherit no_option (SaveOnlyOnError job) (SaveOnlyOnError global)\<rparr>"

definition mergeNotificationDefaults ::
  "globals \<Rightarrow> SlackConfig \<times> MailConfig \<times> SaveConfig \<Rightarrow> SlackConfig \<times> MailConfig \<times> SaveConfig" where
  "mergeNotificationDefaults g j =
     (case j of (slack, mail, save) \<Rightarrow>
        (mergeSlackDefaults (g_Slack g) slack, mergeMailDefaults (g_Mail g) mail, mergeSaveDefaults (g_Save g) save))"

definition applyDefaultUser :: "globals \<Rightarrow> string \<Rightarrow> string" where
  "applyDefaultUser g user =
     (if user = [] then g_DefaultUser g else if user = ''default'' then [] else user)"

section \<open>Global settings from labels\<close>

definition mergeSlackGlobals :: "SlackConfig \<Rightarrow> SlackConfig \<Rightarrow> bool \<times> SlackConfig" where
  "mergeSlackGlobals dst src =
     (let (c1, w) = merge_field no_string (SlackWebhook dst) (SlackWebhook src);
          (c2, e) = merge_field no_option (SlackOnlyOnError dst) (SlackOnlyOnError src)
      in (c1 \<or> c2, dst\<lparr>SlackWebhook := w, SlackOnlyOnError := e\<rparr>))"

definition mergeMailSMTPGlobals :: "MailConfig \<Rightarrow> MailConfig \<Rightarrow> bool \<times> MailConfig" where
  "mergeMailSMTPGlobals dst src =
     (let (c1, h) = merge_field no_string (SMTPHost dst) (SMTPHost src);
          (c2, p) = merge_field no_int (SMTPPort dst) (SMTPPort src);
          (c3, u) = merge_field no_string (SMTPUser dst) (SMTPUser src);
          (c4, w) = merge_field no_string (SMTPPassword dst) (SMTPPassword src);
          (c5, t) = merge_field no_bool (SMTPTLSSkipVerify dst) (SMTPTLSSkipVerify src)
      in (c1 \<or> c2 \<or> c3 \<or> c4 \<or> c5,
          dst\<lparr>SMTPHost := h, SMTPPort := p, SMTPUser := u, SMTPPassword := w, SMTPTLSSkipVerify := t\<rparr>))"

definition mergeMailEnvelopeGlobals :: "MailConfig \<Rightarrow> MailConfig \<Rightarrow> bool \<times> MailConfig" where
  "mergeMailEnvelopeGlobals dst src =
     (let (c1, t) = merge_field no_string (EmailTo dst) (EmailTo src);
          (c2, f) = merge_field no_string (EmailFrom dst) (EmailFrom src);
          (c3, s) = merge_field no_string (EmailSubject dst) (EmailSubject src)
      in (c1 \<or> c2 \<or> c3, dst\<lparr>EmailTo := t, EmailFrom := f, EmailSubject := s\<rparr>))"

definition mergeMailFlagGlobals :: "MailConfig \<Rightarrow> MailConfig \<Rightarrow> bool \<times> MailConfig" where
  "mergeMailFlagGlobals dst src =
     (let (c, e) = merge_field no_option (MailOnlyOnError dst) (MailOnlyOnError src)
      in (c, dst\<lparr>MailOnlyOnError := e\<rparr>))"

definition mergeMailGlobals :: "MailConfig \<Rightarrow> MailConfig \<Rightarrow> bool \<times> MailConfig" where
  "mergeMailGlobals dst src =
     (let (c1, d1) = mergeMailSMTPGlobals dst src;
          (c2, d2) = mergeMailEnvelopeGlobals d1 src;
          (c3, d3) = mergeMailFlagGlobals d2 src
      in (c1 \<or> c2 \<or> c3, d3))"

definition mergeSaveGlobals :: "SaveConfig \<Rightarrow> SaveConfig \<Rightarrow> bool \<times> SaveConfig" where
  "mergeSaveGlobals dst src =
     (let (c1, f) = merge_field no_string (SaveFolder dst) (SaveFolder src);
          (c2, e) = merge_field no_option (SaveOnlyOnError dst) (SaveOnlyOnError src);
          (c3, r) = merge_field no_option (RestoreHistory dst) (RestoreHistory src);
          (c4, a) = merge_field no_int (RestoreHistoryMaxAge dst) (RestoreHistoryMaxAge src)
      in (c1 \<or> c2 \<or> c3 \<or> c4,
          dst\<lparr>SaveFolder := f, SaveOnlyOnError := e, RestoreHistory := r, RestoreHistoryMaxAge := a\<rparr>))"

text \<open>A duration whose default stands for unset.\<close>

definition merge_default :: "duration \<Rightarrow> duration \<Rightarrow> duration \<Rightarrow> bool \<times> duration" where
  "merge_default dflt dst src = (if dst = dflt \<and> src \<noteq> 0 \<and> src \<noteq> dflt then (True, src) else (False, dst))"

definition mergeSchedulingGlobals :: "globals \<Rightarrow> globals \<Rightarrow> bool \<times> globals" where
  "mergeSchedulingGlobals dst src =
     (let (c1, l) = merge_field no_string (g_LogLevel dst) (g_LogLevel src);
          (c2, m) = merge_default (24 * hour) (g_MaxRuntime dst) (g_MaxRuntime src);
          (c3, n) = merge_field no_int (g_NotificationCooldown dst) (g_NotificationCooldown src);
          (c4, v) = merge_field no_bool (g_EnableStrictValidation dst) (g_EnableStrictValidation src)
      in (c1 \<or> c2 \<or> c3 \<or> c4,
          dst\<lparr>g_LogLevel := l, g_MaxRuntime := m, g_NotificationCooldown := n, g_EnableStrictValidation := v\<rparr>))"

definition applyAllowListedGlobals :: "globals \<Rightarrow> globals \<Rightarrow> bool \<times> globals" where
  "applyAllowListedGlobals c parsed =
     (let (c1, s) = mergeSlackGlobals (g_Slack c) (g_Slack parsed);
          (c2, m) = mergeMailGlobals (g_Mail c) (g_Mail parsed);
          (c3, v) = mergeSaveGlobals (g_Save c) (g_Save parsed);
          (c4, g) = mergeSchedulingGlobals (c\<lparr>g_Slack := s, g_Mail := m, g_Save := v\<rparr>) parsed
      in (c1 \<or> c2 \<or> c3 \<or> c4, g))"

text \<open>\<^verbatim>\<open>refreshRuntimeKnobsAfterGlobalMerge\<close>: the log level and the cooldown that are applied anew.\<close>

definition refreshRuntimeKnobs :: "globals \<Rightarrow> string \<Rightarrow> duration \<Rightarrow> string option \<times> duration option" where
  "refreshRuntimeKnobs g prevLogLevel prevCooldown =
     ((if g_LogLevel g \<noteq> prevLogLevel \<and> g_LogLevel g \<noteq> [] then Some (g_LogLevel g) else None),
      (if g_NotificationCooldown g \<noteq> prevCooldown \<and> g_NotificationCooldown g > 0
       then Some (g_NotificationCooldown g) else None))"

definition mergeWebhookGlobals :: "WebhookGlobalConfig \<Rightarrow> WebhookGlobalConfig \<Rightarrow> bool \<times> WebhookGlobalConfig" where
  "mergeWebhookGlobals dst src =
     (let (c1, w) = merge_field no_string (wg_Webhooks dst) (wg_Webhooks src);
          (c2, h) = (if wg_AllowedHosts dst = ''*'' \<and> wg_AllowedHosts src \<noteq> ''*'' \<and> wg_AllowedHosts src \<noteq> []
                     then (True, wg_AllowedHosts src) else (False, wg_AllowedHosts dst));
          (c3, t) = merge_default (24 * hour) (wg_PresetCacheTTL dst) (wg_PresetCacheTTL src);
          (c4, p) = merge_field no_option (wg_DefaultPreset dst) (wg_DefaultPreset src)
      in (c1 \<or> c2 \<or> c3 \<or> c4,
          dst\<lparr>wg_Webhooks := w, wg_AllowedHosts := h, wg_PresetCacheTTL := t, wg_DefaultPreset := p\<rparr>))"

section \<open>The contract of a merge\<close>

text \<open>
  Every merge reports a change exactly when it made one, and settles: with the same source again
  nothing changes. The reconciliation loop relies on both, as a reported change rebuilds the
  middlewares of all jobs.
\<close>

locale settling_merge =
  fixes merge :: "'a \<Rightarrow> 'a \<Rightarrow> bool \<times> 'a"
  assumes changed: "fst (merge d s) \<longleftrightarrow> snd (merge d s) \<noteq> d"
    and settled: "snd (merge (snd (merge d s)) s) = snd (merge d s)"
begin

lemma merge_again: "merge (snd (merge d s)) s = (False, snd (merge d s))"
  using changed [of "snd (merge d s)" s] settled [of d s] by (simp add: prod_eq_iff)

lemma merge_iterate: "((\<lambda>d. snd (merge d s)) ^^ Suc n) d = snd (merge d s)"
  by (induction n) (simp_all add: settled)

end

lemma merge_field_settled [simp]:
  "merge_field unset (snd (merge_field unset d s)) s = (False, snd (merge_field unset d s))"
  by (simp add: merge_field_def)

lemma merge_default_settled [simp]:
  "merge_default t (snd (merge_default t d s)) s = (False, snd (merge_default t d s))"
  by (auto simp: merge_default_def)

lemma merge_default_changed: "fst (merge_default t d s) \<longleftrightarrow> snd (merge_default t d s) \<noteq> d"
  by (auto simp: merge_default_def)

lemmas field_changed = str.merge_changed num.merge_changed opt.merge_changed bool.merge_changed
  merge_default_changed

lemma slack_update_iff: "d\<lparr>SlackWebhook := a, SlackOnlyOnError := b\<rparr> = d \<longleftrightarrow> a = SlackWebhook d \<and> b = SlackOnlyOnError d"
  by (cases d) auto

interpretation slack: settling_merge mergeSlackGlobals
  by unfold_locales (simp_all add: mergeSlackGlobals_def case_prod_beta Let_def field_changed slack_update_iff)

lemma smtp_update_iff:
  "d\<lparr>SMTPHost := a, SMTPPort := b, SMTPUser := c, SMTPPassword := e, SMTPTLSSkipVerify := f\<rparr> = d \<longleftrightarrow>
     a = SMTPHost d \<and> b = SMTPPort d \<and> c = SMTPUser d \<and> e = SMTPPassword d \<and> f = SMTPTLSSkipVerify d"
  by (cases d) auto

interpretation smtp: settling_merge mergeMailSMTPGlobals
  by unfold_locales (simp_all add: mergeMailSMTPGlobals_def case_prod_beta Let_def field_changed smtp_update_iff)

lemma mail_parts:
  "snd (mergeMailGlobals d s) =
     d\<lparr>SMTPHost := snd (merge_field no_string (SMTPHost d) (SMTPHost s)),
       SMTPPort := snd (merge_field no_int (SMTPPort d) (SMTPPort s)),
       SMTPUser := snd (merge_field no_string (SMTPUser d) (SMTPUser s)),
       SMTPPassword := snd (merge_field no_string (SMTPPassword d) (SMTPPassword s)),
       SMTPTLSSkipVerify := snd (merge_field no_bool (SMTPTLSSkipVerify d) (SMTPTLSSkipVerify s)),
       EmailTo := snd (merge_field no_string (EmailTo d) (EmailTo s)),
       EmailFrom := snd (merge_field no_string (EmailFrom d) (EmailFrom s)),
       EmailSubject := snd (merge_field no_string (EmailSubject d) (EmailSubject s)),
       MailOnlyOnError := snd (merge_field no_option (MailOnlyOnError d) (MailOnlyOnError s))\<rparr>"
  by (simp add: mergeMailGlobals_def mergeMailSMTPGlobals_def mergeMailEnvelopeGlobals_def mergeMailFlagGlobals_def
      case_prod_beta Let_def)

lemma mail_changed_parts:
  "fst (mergeMailGlobals d s) \<longleftrightarrow> fst (mergeMailSMTPGlobals d s) \<or>
     snd (merge_field no_string (EmailTo d) (EmailTo s)) \<noteq> EmailTo d \<or>
     snd (merge_field no_string (EmailFrom d) (EmailFrom s)) \<noteq> EmailFrom d \<or>
     snd (merge_field no_string (EmailSubject d) (EmailSubject s)) \<noteq> EmailSubject d \<or>
     snd (merge_field no_option (MailOnlyOnError d) (MailOnlyOnError s)) \<noteq> MailOnlyOnError d"
  by (simp add: mergeMailGlobals_def mergeMailSMTPGlobals_def mergeMailEnvelopeGlobals_def mergeMailFlagGlobals_def
      case_prod_beta Let_def field_changed) blast

lemma mail_update_iff:
  "d\<lparr>SMTPHost := a, SMTPPort := b, SMTPUser := c, SMTPPassword := e, SMTPTLSSkipVerify := f, EmailTo := g,
     EmailFrom := h, EmailSubject := i, MailOnlyOnError := j\<rparr> = d \<longleftrightarrow>
     a = SMTPHost d \<and> b = SMTPPort d \<and> c = SMTPUser d \<and> e = SMTPPassword d \<and> f = SMTPTLSSkipVerify d \<and>
     g = EmailTo d \<and> h = EmailFrom d \<and> i = EmailSubject d \<and> j = MailOnlyOnError d"
  by (cases d) auto

interpretation mail: settling_merge mergeMailGlobals
proof
  fix d s
  show "fst (mergeMailGlobals d s) \<longleftrightarrow> snd (mergeMailGlobals d s) \<noteq> d"
    unfolding mail_changed_parts mail_parts mail_update_iff
    by (simp add: mergeMailSMTPGlobals_def case_prod_beta Let_def field_changed)
  show "snd (mergeMailGlobals (snd (mergeMailGlobals d s)) s) = snd (mergeMailGlobals d s)"
    unfolding mail_parts by simp
qed

lemma save_update_iff:
  "d\<lparr>SaveFolder := a, SaveOnlyOnError := b, RestoreHistory := c, RestoreHistoryMaxAge := e\<rparr> = d \<longleftrightarrow>
     a = SaveFolder d \<and> b = SaveOnlyOnError d \<and> c = RestoreHistory d \<and> e = RestoreHistoryMaxAge d"
  by (cases d) auto

interpretation save: settling_merge mergeSaveGlobals
  by unfold_locales (simp_all add: mergeSaveGlobals_def case_prod_beta Let_def field_changed save_update_iff)

lemma sched_update_iff:
  "d\<lparr>g_LogLevel := a, g_MaxRuntime := b, g_NotificationCooldown := c, g_EnableStrictValidation := e\<rparr> = d \<longleftrightarrow>
     a = g_LogLevel d \<and> b = g_MaxRuntime d \<and> c = g_NotificationCooldown d \<and> e = g_EnableStrictValidation d"
  by (cases d) auto

interpretation scheduling: settling_merge mergeSchedulingGlobals
  by unfold_locales (simp_all add: mergeSchedulingGlobals_def case_prod_beta Let_def field_changed sched_update_iff)

lemma webhook_update_iff:
  "d\<lparr>wg_Webhooks := a, wg_AllowedHosts := b, wg_PresetCacheTTL := c, wg_DefaultPreset := e\<rparr> = d \<longleftrightarrow>
     a = wg_Webhooks d \<and> b = wg_AllowedHosts d \<and> c = wg_PresetCacheTTL d \<and> e = wg_DefaultPreset d"
  by (cases d) auto

interpretation webhook: settling_merge mergeWebhookGlobals
  by unfold_locales
    (auto simp: mergeWebhookGlobals_def case_prod_beta Let_def field_changed webhook_update_iff)

section \<open>All label settings together\<close>

text \<open>The result of the merge as a reference: every setting a label may give is inherited from the
  labels when the configuration leaves it unset, every other setting is the one of the configuration.\<close>

definition fill_mail :: "MailConfig \<Rightarrow> MailConfig \<Rightarrow> MailConfig" where
  "fill_mail d s = (mergeMailDefaults s d)\<lparr>SMTPTLSPolicy := SMTPTLSPolicy d\<rparr>"

definition fill_globals :: "globals \<Rightarrow> globals \<Rightarrow> globals" where
  "fill_globals c p =
     c\<lparr>g_Slack := mergeSlackDefaults (g_Slack p) (g_Slack c),
       g_Mail := fill_mail (g_Mail c) (g_Mail p),
       g_Save := (mergeSaveDefaults (g_Save p) (g_Save c))
         \<lparr>RestoreHistory := inherit no_option (RestoreHistory (g_Save c)) (RestoreHistory (g_Save p)),
          RestoreHistoryMaxAge := inherit no_int (RestoreHistoryMaxAge (g_Save c)) (RestoreHistoryMaxAge (g_Save p))\<rparr>,
       g_LogLevel := inherit no_string (g_LogLevel c) (g_LogLevel p),
       g_MaxRuntime := (if g_MaxRuntime c = 24 * hour \<and> g_MaxRuntime p \<noteq> 0 then g_MaxRuntime p else g_MaxRuntime c),
       g_NotificationCooldown := inherit no_int (g_NotificationCooldown c) (g_NotificationCooldown p),
       g_EnableStrictValidation := (g_EnableStrictValidation c \<or> g_EnableStrictValidation p)\<rparr>"

lemmas field_inherit = str.merge_inherit num.merge_inherit opt.merge_inherit bool.merge_inherit

lemma snd_slack: "snd (mergeSlackGlobals d s) = mergeSlackDefaults s d"
  by (simp add: mergeSlackGlobals_def mergeSlackDefaults_def case_prod_beta Let_def field_inherit)

lemma snd_mail: "snd (mergeMailGlobals d s) = fill_mail d s"
  by (cases d) (simp add: mail_parts field_inherit mergeMailDefaults_def fill_mail_def inherit_def)

lemma snd_save:
  "snd (mergeSaveGlobals d s) = (mergeSaveDefaults s d)
     \<lparr>RestoreHistory := inherit no_option (RestoreHistory d) (RestoreHistory s),
      RestoreHistoryMaxAge := inherit no_int (RestoreHistoryMaxAge d) (RestoreHistoryMaxAge s)\<rparr>"
  by (simp add: mergeSaveGlobals_def mergeSaveDefaults_def case_prod_beta Let_def field_inherit)

lemma snd_all:
  "snd (applyAllowListedGlobals c p) =
     snd (mergeSchedulingGlobals (c\<lparr>g_Slack := snd (mergeSlackGlobals (g_Slack c) (g_Slack p)),
       g_Mail := snd (mergeMailGlobals (g_Mail c) (g_Mail p)),
       g_Save := snd (mergeSaveGlobals (g_Save c) (g_Save p))\<rparr>) p)"
  by (simp add: applyAllowListedGlobals_def case_prod_beta Let_def)

lemma scheduling_frame [simp]:
  "g_Slack (snd (mergeSchedulingGlobals c p)) = g_Slack c"
  "g_Mail (snd (mergeSchedulingGlobals c p)) = g_Mail c"
  "g_Save (snd (mergeSchedulingGlobals c p)) = g_Save c"
  by (simp_all add: mergeSchedulingGlobals_def case_prod_beta Let_def)

lemma scheduling_local:
  "mergeSchedulingGlobals (c\<lparr>g_Slack := a, g_Mail := b, g_Save := e\<rparr>) p =
     apsnd (\<lambda>g. g\<lparr>g_Slack := a, g_Mail := b, g_Save := e\<rparr>) (mergeSchedulingGlobals c p)"
  by (simp add: mergeSchedulingGlobals_def case_prod_beta Let_def)

lemma globals_update_iff:
  "g\<lparr>g_Slack := a, g_Mail := b, g_Save := e\<rparr> = g' \<longleftrightarrow>
     a = g_Slack g' \<and> b = g_Mail g' \<and> e = g_Save g' \<and>
     g = g'\<lparr>g_Slack := g_Slack g, g_Mail := g_Mail g, g_Save := g_Save g\<rparr>"
  by (cases g; cases g') auto

lemma changed_all:
  "fst (applyAllowListedGlobals c p) \<longleftrightarrow>
     fst (mergeSlackGlobals (g_Slack c) (g_Slack p)) \<or> fst (mergeMailGlobals (g_Mail c) (g_Mail p)) \<or>
     fst (mergeSaveGlobals (g_Save c) (g_Save p)) \<or> fst (mergeSchedulingGlobals c p)"
  by (simp add: applyAllowListedGlobals_def case_prod_beta Let_def scheduling_local)

interpretation all: settling_merge applyAllowListedGlobals
proof
  fix c p
  have "c = snd (mergeSchedulingGlobals c p) \<longleftrightarrow> \<not> fst (mergeSchedulingGlobals c p)"
    using scheduling.changed [of c p] by auto
  then show "fst (applyAllowListedGlobals c p) \<longleftrightarrow> snd (applyAllowListedGlobals c p) \<noteq> c"
    by (simp add: changed_all snd_all scheduling_local globals_update_iff slack.changed mail.changed save.changed
        scheduling.changed)
  show "snd (applyAllowListedGlobals (snd (applyAllowListedGlobals c p)) p) = snd (applyAllowListedGlobals c p)"
    by (simp add: snd_all slack.settled mail.settled save.settled scheduling_local scheduling.settled)
qed

lemma snd_all_fill: "snd (applyAllowListedGlobals c p) = fill_globals c p"
  by (simp add: snd_all snd_slack snd_mail snd_save scheduling_local fill_globals_def)
    (auto simp: mergeSchedulingGlobals_def case_prod_beta Let_def field_inherit merge_default_def inherit_def)

section \<open>Properties\<close>

text \<open>(label_globals_settle): merging the global settings of the service containers into the live
  configuration gives exactly the settings of the configuration with the unset ones filled from the
  labels, reports a change exactly when the configuration changed, and is settled after one pass however
  often the same labels are merged again; the switch that allows host jobs from labels, the default user
  and the webhook settings are never taken from labels, and neither is the SMTP TLS policy, although the list
  of allowed labels names it.\<close>

theorem label_globals_settle:
  "applyAllowListedGlobals c p = (fill_globals c p \<noteq> c, fill_globals c p) \<and>
   ((\<lambda>d. snd (applyAllowListedGlobals d p)) ^^ Suc n) c = fill_globals c p \<and>
   g_AllowHostJobsFromLabels (fill_globals c p) = g_AllowHostJobsFromLabels c \<and>
   g_DefaultUser (fill_globals c p) = g_DefaultUser c \<and> g_Webhook (fill_globals c p) = g_Webhook c \<and>
   SMTPTLSPolicy (g_Mail (fill_globals c p)) = SMTPTLSPolicy (g_Mail c)"
  using all.changed [of c p] all.merge_iterate [where d = c and s = p and n = n]
  by (simp add: prod_eq_iff snd_all_fill del: funpow.simps) (simp add: fill_globals_def fill_mail_def)

end
