(* ===== verification/GoParse.thy ===== *)
theory GoParse
  imports Prelude
begin

text \<open>
  The number and duration parsers of Go's \<^verbatim>\<open>strconv\<close> and \<^verbatim>\<open>time\<close> packages that read settings from
  labels and INI keys: \<^verbatim>\<open>strconv.Atoi\<close> for a 64-bit \<^verbatim>\<open>int\<close> and \<^verbatim>\<open>time.ParseDuration\<close>. A parse that
  fails is \<^term>\<open>None\<close>. The fraction of a duration is computed over real numbers where Go uses
  \<^verbatim>\<open>float64\<close>.
\<close>

definition is_digit :: "char \<Rightarrow> bool" where
  "is_digit c \<longleftrightarrow> 48 \<le> (of_char c :: nat) \<and> (of_char c :: nat) \<le> 57"

definition digit_val :: "char \<Rightarrow> int" where
  "digit_val c = int (of_char c) - 48"

definition digits_val :: "string \<Rightarrow> int" where
  "digits_val s = foldl (\<lambda>a c. 10 * a + digit_val c) 0 s"

definition Atoi :: "string \<Rightarrow> int option" where
  "Atoi s =
     (let neg = HasPrefix s ''-''; ds = (if neg \<or> HasPrefix s ''+'' then tl s else s)
      in if ds = [] \<or> \<not> list_all is_digit ds then None
         else if neg then (if digits_val ds \<le> 2 ^ 63 then Some (- digits_val ds) else None)
         else (if digits_val ds < 2 ^ 63 then Some (digits_val ds) else None))"

text \<open>The units of a duration, micro signs in their two UTF-8 encodings.\<close>

definition unit_map :: "(string \<times> int) list" where
  "unit_map =
     [(''ns'', 1), (''us'', 1000), ([CHR 0xC2, CHR 0xB5, CHR ''s''], 1000), ([CHR 0xCE, CHR 0xBC, CHR ''s''], 1000),
      (''ms'', millisecond), (''s'', second), (''m'', minute), (''h'', hour)]"

text \<open>\<^verbatim>\<open>leadingFraction\<close>: digits after the first one that would overflow are dropped.\<close>

fun leading_fraction :: "int \<Rightarrow> int \<Rightarrow> string \<Rightarrow> int \<times> int" where
  "leading_fraction x scale [] = (x, scale)"
| "leading_fraction x scale (c # s) =
     (if (2 ^ 63 - 1) div 10 < x \<or> 2 ^ 63 < 10 * x + digit_val c then (x, scale)
      else leading_fraction (10 * x + digit_val c) (10 * scale) s)"

text \<open>One component such as \<^verbatim>\<open>1.5h\<close>: its value and the rest of the string.\<close>

definition duration_part :: "string \<Rightarrow> (int \<times> string) option" where
  "duration_part s =
     (let int_digits = takeWhile is_digit s;
          s1 = dropWhile is_digit s;
          dot = (s1 \<noteq> [] \<and> hd s1 = CHR ''.'');
          frac_digits = (if dot then takeWhile is_digit (tl s1) else []);
          s2 = (if dot then dropWhile is_digit (tl s1) else s1);
          u = takeWhile (\<lambda>c. c \<noteq> CHR ''.'' \<and> \<not> is_digit c) s2;
          v = digits_val int_digits
      in if 2 ^ 63 < v \<or> int_digits = [] \<and> frac_digits = [] then None
         else case map_of unit_map u of
                None \<Rightarrow> None
              | Some n \<Rightarrow>
                  if 2 ^ 63 div n < v then None
                  else
                    let (f, scale) = leading_fraction 0 1 frac_digits;
                        total = v * n + (if 0 < f then trunc (real_of_int f * (real_of_int n / real_of_int scale)) else 0)
                    in if 2 ^ 63 < total then None
                       else Some (total, dropWhile (\<lambda>c. c \<noteq> CHR ''.'' \<and> \<not> is_digit c) s2))"

lemma duration_part_shorter: "duration_part s = Some (v, s') \<Longrightarrow> length s' < length s"
proof -
  assume p: "duration_part s = Some (v, s')"
  define s1 where "s1 = dropWhile is_digit s"
  define s2 where "s2 = (if s1 \<noteq> [] \<and> hd s1 = CHR ''.'' then dropWhile is_digit (tl s1) else s1)"
  have len: "length s2 \<le> length s"
    using length_dropWhile_le [of is_digit s] length_dropWhile_le [of is_digit "tl s1"]
    by (auto simp: s2_def s1_def)
  have "s' = dropWhile (\<lambda>c. c \<noteq> CHR ''.'' \<and> \<not> is_digit c) s2 \<and>
     map_of unit_map (takeWhile (\<lambda>c. c \<noteq> CHR ''.'' \<and> \<not> is_digit c) s2) \<noteq> None"
    using p unfolding duration_part_def Let_def s1_def [symmetric] s2_def [symmetric]
    by (auto simp: s2_def split: if_split_asm option.splits prod.splits)
  moreover have "map_of unit_map [] = None" by (simp add: unit_map_def)
  ultimately have "s' = dropWhile (\<lambda>c. c \<noteq> CHR ''.'' \<and> \<not> is_digit c) s2"
    and "takeWhile (\<lambda>c. c \<noteq> CHR ''.'' \<and> \<not> is_digit c) s2 \<noteq> []" by metis+
  then have "length s' < length s2"
    by (metis dropWhile_append1 length_append length_greater_0_conv less_add_same_cancel2 takeWhile_dropWhile_id)
  with len show ?thesis by simp
qed

function duration_parts :: "int \<Rightarrow> string \<Rightarrow> int option" where
  "duration_parts d s =
     (if s = [] then Some d
      else case duration_part s of
             None \<Rightarrow> None
           | Some (v, s') \<Rightarrow> if 2 ^ 63 < d + v then None else duration_parts (d + v) s')"
  by pat_completeness auto
termination
  by (relation "measure (\<lambda>(d, s). length s)") (auto dest: duration_part_shorter)

declare duration_parts.simps [simp del]

definition ParseDuration :: "string \<Rightarrow> duration option" where
  "ParseDuration s =
     (let neg = HasPrefix s ''-''; s1 = (if neg \<or> HasPrefix s ''+'' then tl s else s)
      in if s1 = ''0'' then Some 0
         else if s1 = [] then None
         else case duration_parts 0 s1 of
                None \<Rightarrow> None
              | Some d \<Rightarrow> if neg then Some (- d) else if d \<le> 2 ^ 63 - 1 then Some d else None)"

section \<open>Results fit into 64 bits\<close>

lemma digits_val_snoc [simp]: "digits_val (s @ [c]) = 10 * digits_val s + digit_val c"
  by (simp add: digits_val_def)

lemma digits_val_nonneg: "list_all is_digit s \<Longrightarrow> 0 \<le> digits_val s"
proof (induction s rule: rev_induct)
  case (snoc c s)
  moreover have "0 \<le> digit_val c" if "is_digit c" using that by (simp add: is_digit_def digit_val_def)
  ultimately show ?case by simp
qed (simp add: digits_val_def)

lemma Atoi_range: "Atoi s = Some n \<Longrightarrow> - (2 ^ 63) \<le> n \<and> n < 2 ^ 63"
  using digits_val_nonneg [of s] digits_val_nonneg [of "tl s"]
  by (auto simp: Atoi_def Let_def split: if_splits)

end
