(* ===== verification/EnvSubst.thy ===== *)
theory EnvSubst
  imports Prelude
begin

text \<open>
  Substitution of environment variables in configuration values (\<^verbatim>\<open>src/cli/envsubst.go\<close>). The process
  environment is an argument. The pattern for a reference, a dollar sign and braces around a name and an
  optional default, can be matched in one way only, so its matcher is a scanner: the name is the longest
  run of name characters, and what follows is the closing brace or a default up to the first closing brace.
\<close>

definition name_start :: "char \<Rightarrow> bool" where
  "name_start c \<longleftrightarrow> (let n = (of_char c :: nat) in 65 \<le> n \<and> n \<le> 90 \<or> 97 \<le> n \<and> n \<le> 122) \<or> c = CHR ''_''"

definition name_char :: "char \<Rightarrow> bool" where
  "name_char c \<longleftrightarrow> name_start c \<or> (let n = (of_char c :: nat) in 48 \<le> n \<and> n \<le> 57)"

text \<open>A match of \<^verbatim>\<open>envVarPattern\<close> at the start of the string: the name, the default part and the rest.\<close>

definition env_ref :: "string \<Rightarrow> (string \<times> string \<times> string) option" where
  "env_ref s =
     (if \<not> HasPrefix s ''${'' then None
      else
        let s1 = drop 2 s; name = takeWhile name_char s1; s2 = dropWhile name_char s1
        in if name = [] \<or> \<not> name_start (hd name) then None
           else if HasPrefix s2 ''}'' then Some (name, [], drop 1 s2)
           else if \<not> HasPrefix s2 '':-'' then None
           else
             let dflt = takeWhile (\<lambda>c. c \<noteq> CHR ''}'') (drop 2 s2); s3 = dropWhile (\<lambda>c. c \<noteq> CHR ''}'') (drop 2 s2)
             in if s3 = [] then None else Some (name, '':-'' @ dflt, drop 1 s3))"

text \<open>The function that replaces one match.\<close>

definition expand_ref :: "(string \<rightharpoonup> string) \<Rightarrow> string \<Rightarrow> string \<Rightarrow> string" where
  "expand_ref LookupEnv varName defaultPart =
     (case LookupEnv varName of
        Some val \<Rightarrow> if val \<noteq> [] then val
                    else if HasPrefix defaultPart '':-'' then drop 2 defaultPart
                    else ''${'' @ varName @ defaultPart @ ''}''
      | None \<Rightarrow> if HasPrefix defaultPart '':-'' then drop 2 defaultPart
                else ''${'' @ varName @ defaultPart @ ''}'')"

lemma env_ref_shorter: "env_ref s = Some (n, d, r) \<Longrightarrow> length r < length s"
proof -
  assume e: "env_ref s = Some (n, d, r)"
  then have "HasPrefix s ''${''" by (auto simp: env_ref_def split: if_splits)
  then have "2 \<le> length s" by (auto simp: HasPrefix_iff)
  moreover have "length r \<le> length (drop 2 s)"
    using e length_dropWhile_le [of name_char "drop 2 s"]
      length_dropWhile_le [of "\<lambda>c. c \<noteq> CHR ''}''" "drop 2 (dropWhile name_char (drop 2 s))"]
    by (auto simp: env_ref_def Let_def simp del: drop_drop split: if_splits)
  ultimately show ?thesis by simp
qed

function ExpandEnvVars :: "(string \<rightharpoonup> string) \<Rightarrow> string \<Rightarrow> string" where
  "ExpandEnvVars env [] = []"
| "ExpandEnvVars env (c # s) =
     (case env_ref (c # s) of
        None \<Rightarrow> c # ExpandEnvVars env s
      | Some (name, dflt, rest) \<Rightarrow> expand_ref env name dflt @ ExpandEnvVars env rest)"
  by pat_completeness auto
termination
  by (relation "measure (\<lambda>(env, s). length s)") (auto dest: env_ref_shorter)

section \<open>Substitution\<close>

lemma env_ref_dollar: "c \<noteq> CHR ''$'' \<Longrightarrow> env_ref (c # s) = None"
  by (simp add: env_ref_def HasPrefix_def)

lemma expand_literal: "CHR ''$'' \<notin> set a \<Longrightarrow> ExpandEnvVars env (a @ s) = a @ ExpandEnvVars env s"
  by (induction a) (auto simp: env_ref_dollar)

lemma brace_no_name: "\<not> name_char (CHR ''}'')" "\<not> name_char (CHR '':'')"
  by (simp_all add: name_char_def name_start_def)

definition is_env_name :: "string \<Rightarrow> bool" where
  "is_env_name n \<longleftrightarrow> n \<noteq> [] \<and> name_start (hd n) \<and> list_all name_char n"

lemma takeWhile_all_append: "list_all P xs \<Longrightarrow> \<not> P c \<Longrightarrow> takeWhile P (xs @ c # ys) = xs \<and> dropWhile P (xs @ c # ys) = c # ys"
  by (induction xs) auto

lemma env_ref_plain: "is_env_name n \<Longrightarrow> env_ref (''${'' @ n @ ''}'' @ s) = Some (n, [], s)"
  using takeWhile_all_append [of name_char n "CHR ''}''" s] brace_no_name
  by (simp add: env_ref_def is_env_name_def HasPrefix_def)

lemma env_ref_default:
  assumes "is_env_name n" "CHR ''}'' \<notin> set d"
  shows "env_ref (''${'' @ n @ '':-'' @ d @ ''}'' @ s) = Some (n, '':-'' @ d, s)"
proof -
  have "list_all (\<lambda>c. c \<noteq> CHR ''}'') d" using assms(2) by (auto simp: list_all_iff)
  then show ?thesis
    using assms takeWhile_all_append [of name_char n "CHR '':''" "CHR ''-'' # d @ CHR ''}'' # s"] brace_no_name
      takeWhile_all_append [of "\<lambda>c. c \<noteq> CHR ''}''" d "CHR ''}''" s]
    by (simp add: env_ref_def is_env_name_def HasPrefix_def)
qed

lemma expand_at: "env_ref s = Some (n, d, r) \<Longrightarrow> ExpandEnvVars env s = expand_ref env n d @ ExpandEnvVars env r"
  by (cases s) (auto simp: env_ref_def HasPrefix_def)

section \<open>Properties\<close>

text \<open>(env_vars_expanded): text before the first dollar sign is kept, and a reference with a default is
  replaced by the value of the variable when it is set and not empty and by the default otherwise, a
  reference without a default by the value or by itself; what follows is expanded on its own, so a value
  is never expanded again.\<close>

theorem env_vars_expanded:
  assumes "CHR ''$'' \<notin> set a" "is_env_name n" "CHR ''}'' \<notin> set d"
  shows "ExpandEnvVars env (a @ ''${'' @ n @ '':-'' @ d @ ''}'' @ b) =
           a @ (if env n \<in> {None, Some []} then d else the (env n)) @ ExpandEnvVars env b \<and>
         ExpandEnvVars env (a @ ''${'' @ n @ ''}'' @ b) =
           a @ (if env n \<in> {None, Some []} then ''${'' @ n @ ''}'' else the (env n)) @ ExpandEnvVars env b"
  using expand_literal [OF assms(1)] expand_at [OF env_ref_default [OF assms(2,3)]] expand_at [OF env_ref_plain [OF assms(2)]]
  by (auto simp: expand_ref_def HasPrefix_def split: option.splits)

theorem env_vars_expanded_witness:
  "ExpandEnvVars [''HOST'' \<mapsto> ''${X}''] (''a'' @ ''${'' @ ''HOST'' @ '':-'' @ ''b'' @ ''}'' @ ''/c'') = ''a${X}/c''"
  using env_vars_expanded [of "''a''" "''HOST''" "''b''" "[''HOST'' \<mapsto> ''${X}'']" "''/c''"]
  by (simp add: is_env_name_def name_char_def name_start_def env_ref_def HasPrefix_def)

end
