(* ===== verification/Webhooks.thy ===== *)
theory Webhooks
  imports ConfigMerge GoParse EnvSubst Sanitizer "HOL-Library.AList"
begin

text \<open>
  Webhook settings: the configuration of one webhook (\<^verbatim>\<open>src/middlewares/webhook_config.go\<close>), the
  sections and labels it is read from and the synchronisation with labels (\<^verbatim>\<open>src/cli/config_webhook.go\<close>,
  \<^verbatim>\<open>src/cli/config.go\<close>), the names a job selects (\<^verbatim>\<open>src/middlewares/webhook.go\<close>) and the hosts a
  webhook may reach (\<^verbatim>\<open>src/middlewares/webhook_security.go\<close>).

  A Go map that is ranged over is an association list, so every order of its keys is covered.
  The environment, the INI reader's integer parser and \<^verbatim>\<open>url.Parse\<close> are arguments.
\<close>

section \<open>One webhook\<close>

record WebhookConfig =
  wh_Name :: string
  wh_Preset :: string
  wh_ID :: string
  wh_Secret :: string
  wh_URL :: string
  wh_Link :: string
  wh_LinkText :: string
  wh_Trigger :: string
  wh_Timeout :: duration
  wh_RetryCount :: int
  wh_RetryDelay :: duration
  wh_CustomVars :: "(string \<times> string) list"

definition DefaultPresetName :: string where
  "DefaultPresetName = ''json-post''"

definition EffectiveDefaultPreset :: "WebhookGlobalConfig option \<Rightarrow> string" where
  "EffectiveDefaultPreset g =
     (case g of None \<Rightarrow> DefaultPresetName
      | Some c \<Rightarrow> (case wg_DefaultPreset c of None \<Rightarrow> DefaultPresetName | Some p \<Rightarrow> p))"

definition DefaultWebhookConfig :: WebhookConfig where
  "DefaultWebhookConfig =
     \<lparr>wh_Name = [], wh_Preset = [], wh_ID = [], wh_Secret = [], wh_URL = [], wh_Link = [], wh_LinkText = [],
      wh_Trigger = ''error'', wh_Timeout = 10 * second, wh_RetryCount = 3, wh_RetryDelay = 5 * second,
      wh_CustomVars = []\<rparr>"

definition DefaultWebhookGlobalConfig :: "string \<Rightarrow> string \<Rightarrow> WebhookGlobalConfig" where
  "DefaultWebhookGlobalConfig TempDir XDG_CACHE_HOME =
     \<lparr>wg_Webhooks = [], wg_AllowRemotePresets = False, wg_TrustedPresetSources = [], wg_PresetCacheTTL = 24 * hour,
      wg_PresetCacheDir = (if XDG_CACHE_HOME \<noteq> [] then XDG_CACHE_HOME @ ''/ofelia/presets'' else TempDir),
      wg_AllowedHosts = ''*'', wg_DefaultPreset = None\<rparr>"

definition wh_Validate :: "WebhookConfig \<Rightarrow> result" where
  "wh_Validate c =
     (if wh_Preset c = [] \<and> wh_URL c = []
      then Some (Errorf [Lit ''webhook '', Quoted (wh_Name c), Lit '': either preset or url must be specified''])
      else if wh_Trigger c \<notin> set [''always'', ''error'', ''success'', ''skipped'', []]
      then Some (Errorf [Lit ''webhook '', Quoted (wh_Name c), Lit '': invalid trigger '', Quoted (wh_Trigger c),
                         Lit '' (must be always, error, success, or skipped)''])
      else if wh_Timeout c < 0
      then Some (Errorf [Lit ''webhook '', Quoted (wh_Name c), Lit '': timeout cannot be negative''])
      else if wh_RetryCount c < 0
      then Some (Errorf [Lit ''webhook '', Quoted (wh_Name c), Lit '': retry-count cannot be negative''])
      else if wh_RetryDelay c < 0
      then Some (Errorf [Lit ''webhook '', Quoted (wh_Name c), Lit '': retry-delay cannot be negative''])
      else None)"

definition ApplyDefaults :: "WebhookConfig \<Rightarrow> WebhookConfig" where
  "ApplyDefaults c =
     c\<lparr>wh_Trigger := inherit no_string (wh_Trigger c) (wh_Trigger DefaultWebhookConfig),
       wh_Timeout := inherit no_int (wh_Timeout c) (wh_Timeout DefaultWebhookConfig),
       wh_RetryCount := inherit no_int (wh_RetryCount c) (wh_RetryCount DefaultWebhookConfig),
       wh_RetryDelay := inherit no_int (wh_RetryDelay c) (wh_RetryDelay DefaultWebhookConfig)\<rparr>"

definition ShouldNotify :: "WebhookConfig \<Rightarrow> bool \<Rightarrow> bool \<Rightarrow> bool" where
  "ShouldNotify c failed skipped =
     (if wh_Trigger c = ''error'' then failed
      else if wh_Trigger c = ''success'' then \<not> failed \<and> \<not> skipped
      else if wh_Trigger c = ''skipped'' then skipped
      else if wh_Trigger c = ''always'' then True
      else failed)"

section \<open>Names\<close>

definition ParseWebhookNames :: "string \<Rightarrow> string list" where
  "ParseWebhookNames s =
     (if s = [] then [] else filter (\<lambda>p. p \<noteq> []) (map TrimSpace (Split s (CHR '',''))))"

text \<open>The body of the two loops of \<^verbatim>\<open>unionWebhookNames\<close>.\<close>

definition union_one :: "string \<Rightarrow> string set \<times> string list \<Rightarrow> string set \<times> string list" where
  "union_one n so = (case so of (seen, out) \<Rightarrow> if n \<in> seen then (seen, out) else (insert n seen, out @ [n]))"

definition unionWebhookNames :: "string list \<Rightarrow> string list \<Rightarrow> string list" where
  "unionWebhookNames global perJob =
     (if global = [] then perJob
      else if perJob = [] then global
      else snd (fold union_one perJob (fold union_one global ({}, []))))"

definition parseWebhookName :: "string \<Rightarrow> string" where
  "parseWebhookName sectionName =
     (let s = TrimSpace (TrimPrefix sectionName ''webhook'') in
      if 2 \<le> length s \<and>
         ((s ! 0 = dquote \<and> s ! (length s - 1) = dquote) \<or> (s ! 0 = squote \<and> s ! (length s - 1) = squote))
      then take (length s - 2) (drop 1 s) else s)"

section \<open>Reading settings\<close>

text \<open>\<^verbatim>\<open>parseWebhookConfig\<close>: \<open>key\<close> gives the keys of the section, \<open>ini_Int\<close> is the integer parser of the
  INI reader, whose durations are those of \<^verbatim>\<open>time.ParseDuration\<close>.\<close>

definition with_key :: "(string \<rightharpoonup> string) \<Rightarrow> string \<Rightarrow> (string \<Rightarrow> 'a option) \<Rightarrow> ('a \<Rightarrow> 'c \<Rightarrow> 'c) \<Rightarrow> 'c \<Rightarrow> 'c" where
  "with_key key k parse upd c =
     (case key k of None \<Rightarrow> c | Some s \<Rightarrow> (case parse s of None \<Rightarrow> c | Some v \<Rightarrow> upd v c))"

definition parseWebhookConfig ::
  "(string \<Rightarrow> int option) \<Rightarrow> (string \<rightharpoonup> string) \<Rightarrow> (string \<rightharpoonup> string) \<Rightarrow> WebhookConfig \<Rightarrow> WebhookConfig" where
  "parseWebhookConfig ini_Int env key =
     with_key key ''link-text'' (\<lambda>s. Some (ExpandEnvVars env s)) (\<lambda>v. wh_LinkText_update (\<lambda>_. v)) \<circ>
     with_key key ''link'' (\<lambda>s. Some (ExpandEnvVars env s)) (\<lambda>v. wh_Link_update (\<lambda>_. v)) \<circ>
     with_key key ''retry-delay'' ParseDuration (\<lambda>v. wh_RetryDelay_update (\<lambda>_. v)) \<circ>
     with_key key ''retry-count'' ini_Int (\<lambda>v. wh_RetryCount_update (\<lambda>_. v)) \<circ>
     with_key key ''timeout'' ParseDuration (\<lambda>v. wh_Timeout_update (\<lambda>_. v)) \<circ>
     with_key key ''trigger'' (\<lambda>s. Some (ExpandEnvVars env s)) (\<lambda>v. wh_Trigger_update (\<lambda>_. v)) \<circ>
     with_key key ''url'' (\<lambda>s. Some (ExpandEnvVars env s)) (\<lambda>v. wh_URL_update (\<lambda>_. v)) \<circ>
     with_key key ''secret'' (\<lambda>s. Some (ExpandEnvVars env s)) (\<lambda>v. wh_Secret_update (\<lambda>_. v)) \<circ>
     with_key key ''id'' (\<lambda>s. Some (ExpandEnvVars env s)) (\<lambda>v. wh_ID_update (\<lambda>_. v)) \<circ>
     with_key key ''preset'' (\<lambda>s. Some (ExpandEnvVars env s)) (\<lambda>v. wh_Preset_update (\<lambda>_. v))"

text \<open>One iteration of \<^verbatim>\<open>applyWebhookLabelParams\<close>.\<close>

definition apply_label_param :: "string \<times> string \<Rightarrow> WebhookConfig \<Rightarrow> WebhookConfig" where
  "apply_label_param kv c =
     (let key = ToLower (fst kv); val = snd kv in
      if key = ''preset'' then c\<lparr>wh_Preset := val\<rparr>
      else if key = ''id'' then c\<lparr>wh_ID := val\<rparr>
      else if key = ''secret'' then c\<lparr>wh_Secret := val\<rparr>
      else if key = ''url'' then c\<lparr>wh_URL := val\<rparr>
      else if key = ''trigger'' then c\<lparr>wh_Trigger := val\<rparr>
      else if key = ''timeout'' then (case ParseDuration val of Some d \<Rightarrow> c\<lparr>wh_Timeout := d\<rparr> | None \<Rightarrow> c)
      else if key = ''retry-count'' then (case Atoi val of Some n \<Rightarrow> c\<lparr>wh_RetryCount := n\<rparr> | None \<Rightarrow> c)
      else if key = ''retry-delay'' then (case ParseDuration val of Some d \<Rightarrow> c\<lparr>wh_RetryDelay := d\<rparr> | None \<Rightarrow> c)
      else if key = ''link'' then c\<lparr>wh_Link := val\<rparr>
      else if key = ''link-text'' then c\<lparr>wh_LinkText := val\<rparr>
      else c)"

definition applyWebhookLabelParams :: "(string \<times> string) list \<Rightarrow> WebhookConfig \<Rightarrow> WebhookConfig" where
  "applyWebhookLabelParams params c = fold apply_label_param params c"

section \<open>All webhooks\<close>

record WebhookConfigs =
  wc_Global :: WebhookGlobalConfig
  wc_Webhooks :: "(string \<times> WebhookConfig) list"
  wc_iniWebhookNames :: "string set"

definition NewWebhookConfigs :: "WebhookGlobalConfig \<Rightarrow> WebhookConfigs" where
  "NewWebhookConfigs g = \<lparr>wc_Global = g, wc_Webhooks = [], wc_iniWebhookNames = {}\<rparr>"

text \<open>\<^verbatim>\<open>parseWebhookSections\<close> over the sections of an INI file, each with its name and keys.\<close>

fun parseWebhookSections ::
  "(string \<Rightarrow> int option) \<Rightarrow> (string \<rightharpoonup> string) \<Rightarrow> (string \<times> (string \<rightharpoonup> string)) list \<Rightarrow> WebhookConfigs \<Rightarrow>
   result \<times> WebhookConfigs" where
  "parseWebhookSections ini_Int env [] wc = (None, wc)"
| "parseWebhookSections ini_Int env ((sect, key) # sects) wc =
     (let name = TrimSpace sect in
      if \<not> HasPrefix name ''webhook'' then parseWebhookSections ini_Int env sects wc
      else
        let webhookName = parseWebhookName name in
        if webhookName = [] then (Some (Errorf [Lit ''webhook section must have a name: [webhook '', Quoted ''name'', Lit '']'']), wc)
        else parseWebhookSections ini_Int env sects
               (wc\<lparr>wc_Webhooks := AList.update webhookName
                      (parseWebhookConfig ini_Int env key (DefaultWebhookConfig\<lparr>wh_Name := webhookName\<rparr>)) (wc_Webhooks wc),
                   wc_iniWebhookNames := insert webhookName (wc_iniWebhookNames wc)\<rparr>))"

definition buildWebhookConfigsFromLabels ::
  "(string \<times> (string \<times> string) list) list \<Rightarrow> WebhookConfigs \<Rightarrow> WebhookConfigs" where
  "buildWebhookConfigsFromLabels labels wc =
     wc\<lparr>wc_Webhooks := fold (\<lambda>(name, params) m.
          AList.update name (applyWebhookLabelParams params (DefaultWebhookConfig\<lparr>wh_Name := name\<rparr>)) m) labels (wc_Webhooks wc)\<rparr>"

text \<open>The manager's map of webhooks, filled by \<^verbatim>\<open>Register\<close>.\<close>

definition Register :: "WebhookConfig \<Rightarrow> (string \<rightharpoonup> WebhookConfig) \<Rightarrow> go_error + (string \<rightharpoonup> WebhookConfig)" where
  "Register config m =
     (if wh_Name config = [] then Inl (Errorf [Lit ''webhook name cannot be empty''])
      else Inr (m(wh_Name config \<mapsto> config)))"

fun InitManager :: "(string \<times> WebhookConfig) list \<Rightarrow> (string \<rightharpoonup> WebhookConfig) \<Rightarrow> result \<times> (string \<rightharpoonup> WebhookConfig)" where
  "InitManager [] m = (None, m)"
| "InitManager ((name, config) # cs) m =
     (case Register (config\<lparr>wh_Name := name\<rparr>) m of
        Inl err \<Rightarrow> (Some (Errorf [Lit ''register webhook '', Quoted name, Lit '': '', Wrap err]), m)
      | Inr m' \<Rightarrow> InitManager cs m')"

definition webhookConfigChanged :: "WebhookConfig \<Rightarrow> WebhookConfig \<Rightarrow> bool" where
  "webhookConfigChanged a b \<longleftrightarrow>
     wh_Preset a \<noteq> wh_Preset b \<or> wh_URL a \<noteq> wh_URL b \<or> wh_ID a \<noteq> wh_ID b \<or> wh_Secret a \<noteq> wh_Secret b \<or>
     wh_Trigger a \<noteq> wh_Trigger b \<or> wh_Timeout a \<noteq> wh_Timeout b \<or> wh_RetryCount a \<noteq> wh_RetryCount b \<or>
     wh_RetryDelay a \<noteq> wh_RetryDelay b \<or> wh_Link a \<noteq> wh_Link b \<or> wh_LinkText a \<noteq> wh_LinkText b"

text \<open>The bodies of the two loops of \<^verbatim>\<open>applyWebhookChanges\<close>.\<close>

definition sync_one :: "string set \<Rightarrow> string \<times> WebhookConfig \<Rightarrow> bool \<times> (string \<times> WebhookConfig) list \<Rightarrow>
   bool \<times> (string \<times> WebhookConfig) list" where
  "sync_one ini nw cm =
     (case nw of (name, wh) \<Rightarrow> case cm of (changed, m) \<Rightarrow>
        if name \<in> ini then (changed, m)
        else case map_of m name of
               None \<Rightarrow> (True, AList.update name wh m)
             | Some existing \<Rightarrow>
                 if webhookConfigChanged existing wh then (True, AList.update name wh m) else (changed, m))"

definition drop_one :: "string set \<Rightarrow> (string \<rightharpoonup> WebhookConfig) \<Rightarrow> string \<Rightarrow> bool \<times> (string \<times> WebhookConfig) list \<Rightarrow>
   bool \<times> (string \<times> WebhookConfig) list" where
  "drop_one ini parsed name cm =
     (case cm of (changed, m) \<Rightarrow>
        if name \<in> ini then (changed, m)
        else if parsed name = None then (True, AList.delete name m) else (changed, m))"

definition applyWebhookChanges :: "WebhookConfigs \<Rightarrow> WebhookConfigs \<Rightarrow> bool \<times> WebhookConfigs" where
  "applyWebhookChanges parsed c =
     (let (c1, m1) = fold (sync_one (wc_iniWebhookNames c)) (wc_Webhooks parsed) (False, wc_Webhooks c);
          (c2, m2) = fold (drop_one (wc_iniWebhookNames c) (map_of (wc_Webhooks parsed))) (map fst m1) (c1, m1);
          (c3, g) = mergeWebhookGlobals (wc_Global c) (wc_Global parsed)
      in (c2 \<or> c3, c\<lparr>wc_Webhooks := m2, wc_Global := g\<rparr>))"

text \<open>Start-up: \<^verbatim>\<open>mergeWebhookConfigs\<close>; reload of the INI file: \<^verbatim>\<open>mergeReloadedWebhookSections\<close>.\<close>

definition add_missing :: "string \<times> WebhookConfig \<Rightarrow> (string \<times> WebhookConfig) list \<Rightarrow> (string \<times> WebhookConfig) list" where
  "add_missing nw m = (if map_of m (fst nw) \<noteq> None then m else AList.update (fst nw) (snd nw) m)"

definition mergeWebhookConfigs :: "WebhookConfigs option \<Rightarrow> WebhookConfigs \<Rightarrow> WebhookConfigs" where
  "mergeWebhookConfigs parsed c =
     (case parsed of
        None \<Rightarrow> c
      | Some p \<Rightarrow> c\<lparr>wc_Webhooks := fold add_missing (wc_Webhooks p) (wc_Webhooks c),
                    wc_Global := snd (mergeWebhookGlobals (wc_Global c) (wc_Global p))\<rparr>)"

fun merge_reloaded :: "(string \<times> WebhookConfig) list \<Rightarrow> bool \<times> WebhookConfigs \<Rightarrow> bool \<times> WebhookConfigs" where
  "merge_reloaded [] ac = ac"
| "merge_reloaded ((name, wh) # ws) (added, c) =
     (if map_of (wc_Webhooks c) name \<noteq> None then merge_reloaded ws (added, c)
      else merge_reloaded ws (True, c\<lparr>wc_Webhooks := AList.update name wh (wc_Webhooks c),
                                        wc_iniWebhookNames := insert name (wc_iniWebhookNames c)\<rparr>))"

definition mergeReloadedWebhookSections :: "WebhookConfigs option \<Rightarrow> WebhookConfigs \<Rightarrow> bool \<times> WebhookConfigs" where
  "mergeReloadedWebhookSections parsed c =
     (case parsed of None \<Rightarrow> (False, c) | Some p \<Rightarrow> merge_reloaded (wc_Webhooks p) (False, c))"

section \<open>Global webhook labels\<close>

text \<open>Label values are any JSON-like value; only strings are read.\<close>

datatype label_value = LStr string | LOther

definition pickWebhookLabel :: "(string \<rightharpoonup> label_value) \<Rightarrow> string \<Rightarrow> string option" where
  "pickWebhookLabel labels canonical =
     (case labels canonical of
        Some v \<Rightarrow> (case v of LStr s \<Rightarrow> Some s | LOther \<Rightarrow> None)
      | None \<Rightarrow>
          if canonical \<noteq> ''webhook-webhooks'' then None
          else (case labels ''webhooks'' of Some (LStr s) \<Rightarrow> Some s | _ \<Rightarrow> None))"

definition applyGlobalWebhookLabels :: "(string \<rightharpoonup> label_value) \<Rightarrow> WebhookGlobalConfig \<Rightarrow> WebhookGlobalConfig" where
  "applyGlobalWebhookLabels labels g =
     (let g1 = (case pickWebhookLabel labels ''webhook-webhooks'' of Some s \<Rightarrow> g\<lparr>wg_Webhooks := s\<rparr> | None \<Rightarrow> g);
          g2 = (case labels ''webhook-preset-cache-ttl'' of
                  Some (LStr s) \<Rightarrow> (case ParseDuration s of Some d \<Rightarrow> g1\<lparr>wg_PresetCacheTTL := d\<rparr> | None \<Rightarrow> g1)
                | _ \<Rightarrow> g1)
      in case labels ''webhook-default-preset'' of
           Some (LStr s) \<Rightarrow> g2\<lparr>wg_DefaultPreset := Some s\<rparr>
         | _ \<Rightarrow> g2)"

section \<open>Allowed hosts\<close>

record weburl = url + u_Host :: string

definition ValidateWebhookURLImpl :: "(go_error + weburl) \<Rightarrow> result" where
  "ValidateWebhookURLImpl parsed =
     (case parsed of
        Inl err \<Rightarrow> Some (Errorf [Lit ''invalid URL: '', Wrap err])
      | Inr u \<Rightarrow>
          if u_Scheme u \<noteq> ''http'' \<and> u_Scheme u \<noteq> ''https''
          then Some (Errorf [Lit ''URL scheme must be http or https, got '', Quoted (u_Scheme u)])
          else if u_Host u = [] then Some (Errorf [Lit ''URL must have a host''])
          else if u_Hostname u = [] then Some (Errorf [Lit ''URL must have a hostname''])
          else None)"

definition DefaultWebhookSecurityConfig :: "string list" where
  "DefaultWebhookSecurityConfig = [''*'']"

definition NewWebhookSecurityValidator :: "string list option \<Rightarrow> string list" where
  "NewWebhookSecurityValidator hosts =
     (case hosts of None \<Rightarrow> DefaultWebhookSecurityConfig
      | Some hs \<Rightarrow> if hs = [] then DefaultWebhookSecurityConfig else hs)"

definition isAllowAll :: "string list \<Rightarrow> bool" where
  "isAllowAll hosts \<longleftrightarrow> ''*'' \<in> set hosts"

definition isAllowedHost :: "string list \<Rightarrow> string \<Rightarrow> bool" where
  "isAllowedHost hosts hostname =
     (let lowerHost = ToLower hostname in
      list_ex (\<lambda>allowed. let lowerAllowed = ToLower allowed in
        lowerHost = lowerAllowed \<or> HasPrefix lowerAllowed ''*.'' \<and> HasSuffix lowerHost (drop 1 lowerAllowed)) hosts)"

definition wsv_Validate :: "string list \<Rightarrow> (go_error + weburl) \<Rightarrow> result" where
  "wsv_Validate hosts parsed =
     (case parsed of
        Inl err \<Rightarrow> Some (Errorf [Lit ''invalid URL: '', Wrap err])
      | Inr u \<Rightarrow>
          if u_Scheme u \<noteq> ''http'' \<and> u_Scheme u \<noteq> ''https''
          then Some (Errorf [Lit ''URL scheme must be http or https''])
          else if u_Hostname u = [] then Some (Errorf [Lit ''URL must have a hostname''])
          else if isAllowAll hosts then None
          else if \<not> isAllowedHost hosts (u_Hostname u)
          then Some (Errorf [Lit ''host '', Quoted (u_Hostname u), Lit '' is not in allowed hosts list''])
          else None)"

definition SecurityConfigFromGlobal :: "WebhookGlobalConfig option \<Rightarrow> string list" where
  "SecurityConfigFromGlobal global =
     (case global of
        None \<Rightarrow> DefaultWebhookSecurityConfig
      | Some g \<Rightarrow>
          let allowedHosts = (if wg_AllowedHosts g = [] then ''*'' else wg_AllowedHosts g)
          in filter (\<lambda>h. h \<noteq> []) (map TrimSpace (Split allowedHosts (CHR '',''))))"

text \<open>\<^verbatim>\<open>SetGlobalSecurityConfig\<close>: the validator installed for all webhooks and remote presets.\<close>

definition SetGlobalSecurityConfig :: "string list option \<Rightarrow> (go_error + weburl) \<Rightarrow> result" where
  "SetGlobalSecurityConfig config =
     (case config of
        Some hosts \<Rightarrow> wsv_Validate (NewWebhookSecurityValidator (Some hosts))
      | None \<Rightarrow> ValidateWebhookURLImpl)"

section \<open>Synchronisation with labels\<close>

text \<open>What the webhooks are after a synchronisation: those of the INI file are kept, all others are the
  labelled ones, where a webhook whose settings are the same keeps its object.\<close>

definition sync_spec :: "string set \<Rightarrow> (string \<rightharpoonup> WebhookConfig) \<Rightarrow> (string \<rightharpoonup> WebhookConfig) \<Rightarrow> (string \<rightharpoonup> WebhookConfig)" where
  "sync_spec ini parsed current name =
     (if name \<in> ini then current name
      else case parsed name of
             None \<Rightarrow> None
           | Some wh \<Rightarrow>
               (case current name of
                  Some existing \<Rightarrow> if webhookConfigChanged existing wh then Some wh else Some existing
                | None \<Rightarrow> Some wh))"

lemma changed_irrefl [simp]: "\<not> webhookConfigChanged a a"
  by (simp add: webhookConfigChanged_def)

lemma sync_one_map:
  "map_of (snd (sync_one ini (name, wh) (ch, m))) =
     (if name \<in> ini \<or> (\<exists>ex. map_of m name = Some ex \<and> \<not> webhookConfigChanged ex wh) then map_of m
      else (map_of m)(name \<mapsto> wh))"
  by (auto simp: sync_one_def update_conv' split: option.splits)

lemma sync_one_flag:
  "fst (sync_one ini nw (ch, m)) \<longleftrightarrow> ch \<or> map_of (snd (sync_one ini nw (ch, m))) \<noteq> map_of m"
  by (cases nw) (auto simp: sync_one_def update_conv' fun_upd_idem_iff split: option.splits)

lemma sync_fold_keeps: "name \<notin> fst ` set P \<Longrightarrow> map_of (snd (fold (sync_one ini) P (ch, m))) name = map_of m name"
proof (induction P arbitrary: ch m)
  case (Cons a P)
  obtain ch' m' where s: "sync_one ini a (ch, m) = (ch', m')" by fastforce
  have "map_of m' name = map_of m name"
    using sync_one_map [of ini "fst a" "snd a" ch m] s Cons.prems by (auto split: if_splits)
  with Cons s show ?case by simp
qed simp

lemma sync_fold_step:
  assumes "distinct (map fst ((name, wh) # P))" "sync_one ini (name, wh) (ch, m) = (ch', m')"
  shows "map_of (snd (fold (sync_one ini) P (ch', m'))) name = map_of m' name"
    and "n \<noteq> name \<Longrightarrow> map_of m' n = map_of m n"
    and "name \<in> ini \<Longrightarrow> map_of m' name = map_of m name"
    and "name \<notin> ini \<Longrightarrow> map_of m' name = sync_spec ini [name \<mapsto> wh] (map_of m) name"
    and "ch' \<longleftrightarrow> ch \<or> map_of m' name \<noteq> map_of m name"
proof -
  have m': "map_of m' = (if name \<in> ini \<or> (\<exists>ex. map_of m name = Some ex \<and> \<not> webhookConfigChanged ex wh) then map_of m
      else (map_of m)(name \<mapsto> wh))"
    using sync_one_map [of ini name wh ch m] assms(2) by simp
  show "map_of (snd (fold (sync_one ini) P (ch', m'))) name = map_of m' name"
    using assms(1) by (intro sync_fold_keeps) simp
  show "n \<noteq> name \<Longrightarrow> map_of m' n = map_of m n" "name \<in> ini \<Longrightarrow> map_of m' name = map_of m name"
    by (simp_all add: m')
  show "name \<notin> ini \<Longrightarrow> map_of m' name = sync_spec ini [name \<mapsto> wh] (map_of m) name"
    by (auto simp: m' sync_spec_def split: option.splits)
  show "ch' \<longleftrightarrow> ch \<or> map_of m' name \<noteq> map_of m name"
    using sync_one_flag [of ini "(name, wh)" ch m] assms(2) by (auto simp: m' fun_upd_idem_iff)
qed

lemma sync_fold_map:
  assumes "distinct (map fst P)"
  shows "map_of (snd (fold (sync_one ini) P (ch, m))) n =
     (if n \<in> ini \<or> map_of P n = None then map_of m n else sync_spec ini (map_of P) (map_of m) n)"
  using assms
proof (induction P arbitrary: ch m)
  case (Cons a P)
  obtain name wh where a: "a = (name, wh)" by fastforce
  obtain ch' m' where s: "sync_one ini (name, wh) (ch, m) = (ch', m')" by fastforce
  note step = sync_fold_step [OF Cons.prems [unfolded a] s]
  show ?case
  proof (cases "n = name")
    case True
    then show ?thesis using step(1,3,4) by (auto simp: a s sync_spec_def)
  next
    case False
    then show ?thesis
      using Cons.IH [of ch' m'] Cons.prems step(2) [OF False] by (auto simp: a s sync_spec_def)
  qed
qed simp

lemma sync_fold_flag:
  assumes "distinct (map fst P)"
  shows "fst (fold (sync_one ini) P (ch, m)) \<longleftrightarrow> ch \<or> map_of (snd (fold (sync_one ini) P (ch, m))) \<noteq> map_of m"
  using assms
proof (induction P arbitrary: ch m)
  case (Cons a P)
  obtain name wh where a: "a = (name, wh)" by fastforce
  obtain ch' m' where s: "sync_one ini (name, wh) (ch, m) = (ch', m')" by fastforce
  note step = sync_fold_step [OF Cons.prems [unfolded a] s]
  define r where "r = map_of (snd (fold (sync_one ini) P (ch', m')))"
  have "r = map_of m' \<Longrightarrow> map_of m' name = map_of m name \<Longrightarrow> r = map_of m"
    using step(2) by (metis ext)
  moreover have "r = map_of m \<Longrightarrow> map_of m' name = map_of m name \<and> r = map_of m'"
    using step(1,2) by (metis ext r_def)
  ultimately have "ch' \<or> r \<noteq> map_of m' \<longleftrightarrow> ch \<or> r \<noteq> map_of m" using step(5) by blast
  then show ?case using Cons.IH [of ch' m'] Cons.prems by (simp add: a s r_def)
qed simp

lemma drop_fold:
  "fst (fold (drop_one ini p) ks (ch, m)) \<longleftrightarrow> ch \<or> (\<exists>k\<in>set ks. k \<notin> ini \<and> p k = None)"
  "map_of (snd (fold (drop_one ini p) ks (ch, m))) n =
     (if n \<in> set ks \<and> n \<notin> ini \<and> p n = None then None else map_of m n)"
proof (induction ks arbitrary: ch m)
  case (Cons k ks)
  { case 1 then show ?case using Cons(1) by (auto simp: drop_one_def)
  next
    case 2 then show ?case using Cons(2) by (auto simp: drop_one_def delete_conv') }
qed simp_all

lemma drop_all:
  "fst (fold (drop_one ini p) (map fst m) (ch, m)) \<longleftrightarrow>
     ch \<or> map_of (snd (fold (drop_one ini p) (map fst m) (ch, m))) \<noteq> map_of m"
  "map_of (snd (fold (drop_one ini p) (map fst m) (ch, m))) n =
     (if n \<notin> ini \<and> p n = None then None else map_of m n)"
proof -
  show m: "map_of (snd (fold (drop_one ini p) (map fst m) (ch, m))) n =
     (if n \<notin> ini \<and> p n = None then None else map_of m n)" for n
    by (auto simp: drop_fold(2) map_of_eq_None_iff image_iff)
  have "(\<exists>k\<in>fst ` set m. k \<notin> ini \<and> p k = None) \<longleftrightarrow>
      (\<lambda>n. if n \<notin> ini \<and> p n = None then None else map_of m n) \<noteq> map_of m"
    unfolding Bex_def fun_eq_iff using map_of_eq_None_iff [of m] by (metis (lifting))
  moreover have "map_of (snd (fold (drop_one ini p) (map fst m) (ch, m))) =
      (\<lambda>n. if n \<notin> ini \<and> p n = None then None else map_of m n)" using m by blast
  ultimately show "fst (fold (drop_one ini p) (map fst m) (ch, m)) \<longleftrightarrow>
     ch \<or> map_of (snd (fold (drop_one ini p) (map fst m) (ch, m))) \<noteq> map_of m"
    by (simp add: drop_fold(1))
qed

text \<open>The webhooks after \<^verbatim>\<open>applyWebhookChanges\<close>, and when it reports a change.\<close>

lemma sync_spec_idem: "sync_spec ini p (sync_spec ini p m) = sync_spec ini p m"
  by (auto simp: sync_spec_def fun_eq_iff split: option.splits)

lemma applyWebhookChanges_map:
  assumes "distinct (map fst (wc_Webhooks p))"
  shows "map_of (wc_Webhooks (snd (applyWebhookChanges p c))) =
     sync_spec (wc_iniWebhookNames c) (map_of (wc_Webhooks p)) (map_of (wc_Webhooks c))"
    and "fst (applyWebhookChanges p c) \<longleftrightarrow>
      map_of (wc_Webhooks (snd (applyWebhookChanges p c))) \<noteq> map_of (wc_Webhooks c) \<or>
      wc_Global (snd (applyWebhookChanges p c)) \<noteq> wc_Global c"
proof -
  let ?ini = "wc_iniWebhookNames c" and ?p = "map_of (wc_Webhooks p)" and ?m = "map_of (wc_Webhooks c)"
  obtain c1 m1 where 1: "fold (sync_one ?ini) (wc_Webhooks p) (False, wc_Webhooks c) = (c1, m1)" by fastforce
  obtain c2 m2 where 2: "fold (drop_one ?ini ?p) (map fst m1) (c1, m1) = (c2, m2)" by fastforce
  have r: "applyWebhookChanges p c = (c2 \<or> fst (mergeWebhookGlobals (wc_Global c) (wc_Global p)),
     c\<lparr>wc_Webhooks := m2, wc_Global := snd (mergeWebhookGlobals (wc_Global c) (wc_Global p))\<rparr>)"
    by (simp add: applyWebhookChanges_def 1 2 case_prod_beta)
  have m1: "map_of m1 n = (if n \<in> ?ini \<or> ?p n = None then ?m n else sync_spec ?ini ?p ?m n)" for n
    using sync_fold_map [OF assms, of ?ini False "wc_Webhooks c" n] 1 by simp
  have m2: "map_of m2 n = (if n \<notin> ?ini \<and> ?p n = None then None else map_of m1 n)" for n
    using drop_all(2) [of ?ini ?p m1 c1 n] 2 by simp
  have s: "map_of m2 = sync_spec ?ini ?p ?m" by (auto simp: m1 m2 sync_spec_def fun_eq_iff split: option.splits)
  then show "map_of (wc_Webhooks (snd (applyWebhookChanges p c))) = sync_spec ?ini ?p ?m" by (simp add: r)
  have c1: "c1 \<longleftrightarrow> map_of m1 \<noteq> ?m" using sync_fold_flag [OF assms, of ?ini False "wc_Webhooks c"] 1 by simp
  have c2: "c2 \<longleftrightarrow> c1 \<or> map_of m2 \<noteq> map_of m1" using drop_all(1) [of ?ini ?p m1 c1] 2 by simp
  have "map_of m1 = ?m" if "map_of m2 = ?m"
  proof
    fix n show "map_of m1 n = ?m n" using fun_cong [OF that, of n] by (auto simp: m1 m2 split: if_splits)
  qed
  then have "c2 \<longleftrightarrow> map_of m2 \<noteq> ?m" using c1 c2 by metis
  then show "fst (applyWebhookChanges p c) \<longleftrightarrow>
      map_of (wc_Webhooks (snd (applyWebhookChanges p c))) \<noteq> ?m \<or> wc_Global (snd (applyWebhookChanges p c)) \<noteq> wc_Global c"
    by (simp add: r webhook.changed)
qed

lemma applyWebhookChanges_frame [simp]:
  "wc_iniWebhookNames (snd (applyWebhookChanges p c)) = wc_iniWebhookNames c"
  "wc_Global (snd (applyWebhookChanges p c)) = snd (mergeWebhookGlobals (wc_Global c) (wc_Global p))"
  by (simp_all add: applyWebhookChanges_def case_prod_beta)

section \<open>Names of a job\<close>

lemma union_inv:
  assumes "distinct out"
  shows "\<exists>out'. fold union_one ns (set out, out) = (set out', out') \<and> distinct out' \<and> set out' = set out \<union> set ns \<and>
     (\<exists>t. out' = out @ t)"
  using assms
proof (induction ns arbitrary: out)
  case (Cons n ns)
  show ?case
  proof (cases "n \<in> set out")
    case True
    then show ?thesis using Cons.IH [OF Cons.prems] by (auto simp: union_one_def insert_absorb)
  next
    case False
    then have "distinct (out @ [n])" using Cons.prems by simp
    from Cons.IH [OF this] False show ?thesis by (auto simp: union_one_def)
  qed
qed auto

section \<open>Allowed hosts\<close>

text \<open>An entry of the list is a host name, or an asterisk, a dot and a domain for all hosts below it.\<close>

definition host_matches :: "string \<Rightarrow> string \<Rightarrow> bool" where
  "host_matches entry host \<longleftrightarrow>
     ToLower host = ToLower entry \<or> (\<exists>domain name. ToLower entry = ''*.'' @ domain \<and> ToLower host = name @ ''.'' @ domain)"

lemma isAllowedHost_iff: "isAllowedHost hosts h \<longleftrightarrow> list_ex (\<lambda>a. host_matches a h) hosts"
proof -
  have "HasPrefix a ''*.'' \<and> HasSuffix b (drop 1 a) \<longleftrightarrow> (\<exists>domain name. a = ''*.'' @ domain \<and> b = name @ ''.'' @ domain)"
    for a b by (auto simp: HasPrefix_iff HasSuffix_iff)
  then show ?thesis by (simp add: isAllowedHost_def host_matches_def Let_def)
qed

section \<open>Properties\<close>

text \<open>(webhook_sync): a synchronisation with the labels leaves every webhook of the INI file as it is, makes
  all other webhooks those of the labels, reports a change exactly when a webhook or a global setting
  changed, and a second synchronisation with the same labels reports none.\<close>

theorem webhook_sync:
  assumes "distinct (map fst (wc_Webhooks p))"
  shows "map_of (wc_Webhooks (snd (applyWebhookChanges p c))) =
           sync_spec (wc_iniWebhookNames c) (map_of (wc_Webhooks p)) (map_of (wc_Webhooks c)) \<and>
         (fst (applyWebhookChanges p c) \<longleftrightarrow>
            map_of (wc_Webhooks (snd (applyWebhookChanges p c))) \<noteq> map_of (wc_Webhooks c) \<or>
            wc_Global (snd (applyWebhookChanges p c)) \<noteq> wc_Global c) \<and>
         \<not> fst (applyWebhookChanges p (snd (applyWebhookChanges p c)))"
  using applyWebhookChanges_map [OF assms, of c] applyWebhookChanges_map [OF assms, of "snd (applyWebhookChanges p c)"]
  by (simp add: sync_spec_idem webhook.settled)

definition sim_hook :: "string \<Rightarrow> string \<Rightarrow> WebhookConfig" where
  "sim_hook name u = DefaultWebhookConfig\<lparr>wh_Name := name, wh_URL := u\<rparr>"

definition sim_hooks :: "(string \<times> WebhookConfig) list \<Rightarrow> string set \<Rightarrow> WebhookConfigs" where
  "sim_hooks ws ini =
     \<lparr>wc_Global = DefaultWebhookGlobalConfig ''/tmp'' [], wc_Webhooks = ws, wc_iniWebhookNames = ini\<rparr>"

theorem webhook_sync_witness:
  "\<not> fst (applyWebhookChanges (sim_hooks [(''a'', sim_hook ''a'' ''x''), (''b'', sim_hook ''b'' ''y'')] {})
      (snd (applyWebhookChanges (sim_hooks [(''a'', sim_hook ''a'' ''x''), (''b'', sim_hook ''b'' ''y'')] {})
         (sim_hooks [(''a'', sim_hook ''a'' ''z''), (''c'', sim_hook ''c'' ''v'')] {''a''}))))"
  by (rule webhook_sync [of "sim_hooks [(''a'', sim_hook ''a'' ''x''), (''b'', sim_hook ''b'' ''y'')] {}"
        "sim_hooks [(''a'', sim_hook ''a'' ''z''), (''c'', sim_hook ''c'' ''v'')] {''a''}",
        THEN conjunct2, THEN conjunct2]) (simp add: sim_hooks_def)

text \<open>(label_edit_ignored): once a label has set the webhooks of all jobs, a later label value has no effect,
  whatever it is: the first value stays until the process restarts.\<close>

theorem label_edit_ignored:
  assumes "wg_Webhooks (wc_Global p1) \<noteq> []" "wg_Webhooks (wc_Global c) = []"
  shows "wg_Webhooks (wc_Global (snd (applyWebhookChanges p2 (snd (applyWebhookChanges p1 c))))) = wg_Webhooks (wc_Global p1)"
  using assms by (simp add: mergeWebhookGlobals_def case_prod_beta Let_def merge_field_def)

theorem label_edit_ignored_witness:
  "wg_Webhooks (wc_Global (snd (applyWebhookChanges (NewWebhookConfigs ((DefaultWebhookGlobalConfig ''/tmp'' [])\<lparr>wg_Webhooks := ''ops''\<rparr>))
     (snd (applyWebhookChanges (NewWebhookConfigs ((DefaultWebhookGlobalConfig ''/tmp'' [])\<lparr>wg_Webhooks := ''slack''\<rparr>))
       (NewWebhookConfigs (DefaultWebhookGlobalConfig ''/tmp'' []))))))) = ''slack''"
  using label_edit_ignored [of "NewWebhookConfigs ((DefaultWebhookGlobalConfig ''/tmp'' [])\<lparr>wg_Webhooks := ''slack''\<rparr>)"
      "NewWebhookConfigs (DefaultWebhookGlobalConfig ''/tmp'' [])"
      "NewWebhookConfigs ((DefaultWebhookGlobalConfig ''/tmp'' [])\<lparr>wg_Webhooks := ''ops''\<rparr>)"]
  by (simp add: NewWebhookConfigs_def DefaultWebhookGlobalConfig_def)

text \<open>(webhook_names_union): a job is given exactly the global webhooks and its own; a webhook is given at
  most once when both lists have entries, but when one list is empty the other is taken as it is, so a
  name that is repeated there is notified repeatedly.\<close>

theorem webhook_names_union:
  "set (unionWebhookNames global perJob) = set global \<union> set perJob \<and>
   (distinct (unionWebhookNames global perJob) \<longleftrightarrow> global \<noteq> [] \<and> perJob \<noteq> [] \<or> distinct global \<and> distinct perJob)"
proof (cases "global = [] \<or> perJob = []")
  case False
  obtain o1 where 1: "fold union_one global ({}, []) = (set o1, o1)" "distinct o1" "set o1 = set global"
    using union_inv [of "[]" global] by auto
  obtain o2 where "fold union_one perJob (set o1, o1) = (set o2, o2)" "distinct o2" "set o2 = set o1 \<union> set perJob"
    using union_inv [OF 1(2), of perJob] by auto
  then show ?thesis using False 1 by (simp add: unionWebhookNames_def)
qed (auto simp: unionWebhookNames_def)

text \<open>(webhook_host_policy): with the validator that the global settings install, a webhook request is sent
  exactly when its URL parses, has the scheme http or https and a host name, and the list of allowed hosts
  is blank or contains an asterisk or an entry for the host.\<close>

theorem webhook_host_policy:
  "SetGlobalSecurityConfig (Some (SecurityConfigFromGlobal (Some g))) parsed = None \<longleftrightarrow>
     (case parsed of
        Inl _ \<Rightarrow> False
      | Inr u \<Rightarrow>
          (u_Scheme u = ''http'' \<or> u_Scheme u = ''https'') \<and> u_Hostname u \<noteq> [] \<and>
          (let hosts = ParseWebhookNames (if wg_AllowedHosts g = [] then ''*'' else wg_AllowedHosts g)
           in hosts = [] \<or> ''*'' \<in> set hosts \<or> list_ex (\<lambda>entry. host_matches entry (u_Hostname u)) hosts))"
proof -
  have "SecurityConfigFromGlobal (Some g) = ParseWebhookNames (if wg_AllowedHosts g = [] then ''*'' else wg_AllowedHosts g)"
    by (simp add: SecurityConfigFromGlobal_def ParseWebhookNames_def Let_def)
  then show ?thesis
    by (auto simp: SetGlobalSecurityConfig_def NewWebhookSecurityValidator_def wsv_Validate_def isAllowAll_def
        isAllowedHost_iff DefaultWebhookSecurityConfig_def Let_def split: sum.splits)
qed

end
