(* ===== verification/Preset.thy ===== *)
theory Preset
  imports Webhooks
begin

text \<open>
  Presets of webhooks: their parsing, the URL of a request and the escaping of text in JSON bodies
  (\<^verbatim>\<open>src/middlewares/preset.go\<close>), the GitHub shorthand for remote presets
  (\<^verbatim>\<open>src/middlewares/preset_github.go\<close>), the loader with its sources, and the attachment of webhooks to
  jobs (\<^verbatim>\<open>src/middlewares/webhook.go\<close>, \<^verbatim>\<open>src/cli/config.go\<close>).

  The YAML decoder, the file system, \<^verbatim>\<open>url.Parse\<close> and the answers of HTTP servers are arguments. The
  regular expression of the shorthand can be matched in one way only, so its matcher is a scanner.
\<close>

section \<open>Presets\<close>

record PresetVariable =
  pv_Description :: string
  pv_Required :: bool
  pv_Sensitive :: bool
  pv_Default :: string
  pv_Example :: string

record Preset =
  p_Name :: string
  p_Description :: string
  p_Version :: string
  p_URLScheme :: string
  p_Method :: string
  p_Headers :: "string \<rightharpoonup> string"
  p_Variables :: "(string \<times> PresetVariable) list"
  p_Body :: string

definition ParsePreset :: "(string \<Rightarrow> go_error + Preset) \<Rightarrow> string \<Rightarrow> go_error + Preset" where
  "ParsePreset yaml_Unmarshal data =
     (case yaml_Unmarshal data of
        Inl err \<Rightarrow> Inl (Errorf [Lit ''unmarshal preset YAML: '', Wrap err])
      | Inr preset \<Rightarrow>
          if p_URLScheme preset = [] \<and> p_Body preset = []
          then Inl (Errorf [Lit ''preset must have either url_scheme or body defined''])
          else
            let p1 = (if p_Method preset = [] then preset\<lparr>p_Method := ''POST''\<rparr> else preset)
            in Inr (if p_Method p1 = ''POST'' \<and> p_Headers p1 ''Content-Type'' = None
                    then p1\<lparr>p_Headers := (p_Headers p1)(''Content-Type'' \<mapsto> ''application/json'')\<rparr> else p1))"

definition braced :: "string \<Rightarrow> string" where
  "braced k = ''{'' @ k @ ''}''"

definition BuildURL :: "Preset \<Rightarrow> WebhookConfig \<Rightarrow> go_error + string" where
  "BuildURL p config =
     (if wh_URL config \<noteq> [] then Inr (wh_URL config)
      else
        let u1 = ReplaceAll (p_URLScheme p) (braced ''id'') (wh_ID config);
            u2 = ReplaceAll u1 (braced ''secret'') (wh_Secret config);
            u3 = fold (\<lambda>(k, v) u. ReplaceAll u (braced k) v) (wh_CustomVars config) u2
        in if Contains u3 ''{'' \<and> Contains u3 ''}''
           then Inl (Errorf [Lit ''URL contains unreplaced variables: '', Str u3]) else Inr u3)"

definition substituteVariables :: "WebhookConfig \<Rightarrow> string \<Rightarrow> string" where
  "substituteVariables config s =
     fold (\<lambda>(k, v) s. ReplaceAll s (braced k) v) (wh_CustomVars config)
       (ReplaceAll (ReplaceAll (ReplaceAll s (braced ''id'') (wh_ID config)) (braced ''secret'') (wh_Secret config))
         (braced ''url'') (wh_URL config))"

section \<open>Text in JSON\<close>

definition needsJSONEscape :: "string \<Rightarrow> bool" where
  "needsJSONEscape s \<longleftrightarrow> list_ex (\<lambda>c. c = CHR 0x22 \<or> c = CHR 0x5C \<or> (of_char c :: nat) < 0x20) s"

definition json_escape_byte :: "char \<Rightarrow> string" where
  "json_escape_byte c =
     (if c = CHR 0x22 then [CHR 0x5C, CHR 0x22]
      else if c = CHR 0x5C then [CHR 0x5C, CHR 0x5C]
      else if c = CHR 0x08 then [CHR 0x5C, CHR ''b'']
      else if c = CHR 0x0C then [CHR 0x5C, CHR ''f'']
      else if c = CHR 0x0A then [CHR 0x5C, CHR ''n'']
      else if c = CHR 0x0D then [CHR 0x5C, CHR ''r'']
      else if c = CHR 0x09 then [CHR 0x5C, CHR ''t'']
      else if (of_char c :: nat) < 0x20
      then [CHR 0x5C, CHR ''u'', CHR ''0'', CHR ''0'', hex_digit (of_char c div 16), hex_digit (of_char c mod 16)]
      else [c])"

definition jsonStringEscape :: "string \<Rightarrow> string" where
  "jsonStringEscape s = (if \<not> needsJSONEscape s then s else concat (map json_escape_byte s))"

section \<open>The GitHub shorthand\<close>

record GitHubShorthand =
  gh_Org :: string
  gh_Repo :: string
  gh_Path :: string
  gh_Version :: string

text \<open>The groups of \<^verbatim>\<open>githubShorthandRegex\<close>; a group that takes no part is empty.\<close>

definition gh_path :: "string \<Rightarrow> string" where
  "gh_path s = (if s \<noteq> [] \<and> hd s = CHR ''/'' then takeWhile (\<lambda>c. c \<noteq> CHR ''@'') s else [])"

definition gh_version :: "string \<Rightarrow> string option" where
  "gh_version s = (if s = [] then Some [] else if tl s = [] \<or> CHR 0x0A \<in> set (tl s) then None else Some (tl s))"

definition gh_match :: "string \<Rightarrow> (string \<times> string \<times> string \<times> string) option" where
  "gh_match s =
     (if \<not> HasPrefix s ''gh:'' then None
      else
        let s0 = drop 3 s;
            org = takeWhile (\<lambda>c. c \<noteq> CHR ''/'') s0;
            s1 = dropWhile (\<lambda>c. c \<noteq> CHR ''/'') s0
        in if org = [] \<or> s1 = [] then None
           else
             let repo = takeWhile (\<lambda>c. c \<noteq> CHR ''/'' \<and> c \<noteq> CHR ''@'') (tl s1);
                 s2 = dropWhile (\<lambda>c. c \<noteq> CHR ''/'' \<and> c \<noteq> CHR ''@'') (tl s1);
                 path = gh_path s2
             in if repo = [] then None
                else map_option (\<lambda>version. (org, repo, path, version)) (gh_version (drop (length path) s2)))"

definition ParseGitHubShorthandDetails :: "string \<Rightarrow> go_error + GitHubShorthand" where
  "ParseGitHubShorthandDetails shorthand =
     (if \<not> HasPrefix shorthand ''gh:'' then Inl (Errorf [Lit ''not a GitHub shorthand''])
      else case gh_match shorthand of
             None \<Rightarrow> Inl (Errorf [Lit ''invalid GitHub shorthand format''])
           | Some (org, repo, path, version) \<Rightarrow>
               Inr \<lparr>gh_Org = org, gh_Repo = repo, gh_Path = TrimPrefix path ''/'',
                    gh_Version = (if version \<noteq> [] then version else ''main'')\<rparr>)"

definition ParseGitHubShorthand :: "string \<Rightarrow> go_error + string" where
  "ParseGitHubShorthand shorthand =
     (if \<not> HasPrefix shorthand ''gh:'' then Inl (Errorf [Lit ''not a GitHub shorthand (must start with gh:)''])
      else case gh_match shorthand of
             None \<Rightarrow> Inl (Errorf [Lit ''invalid GitHub shorthand format: '', Str shorthand,
                                  Lit '' (expected gh:org/repo/path[@version])''])
           | Some (org, repo, m3, m4) \<Rightarrow>
               let path = (if m3 \<noteq> [] then TrimPrefix m3 ''/'' else []);
                   version = (if m4 \<noteq> [] then m4 else ''main'');
                   path1 = (if path \<noteq> [] \<and> \<not> HasSuffix path ''.yaml'' \<and> \<not> HasSuffix path ''.yml''
                            then path @ ''.yaml'' else path)
               in Inr (''https://raw.githubusercontent.com/'' @ org @ ''/'' @ repo @ ''/'' @ version @ ''/'' @
                       (if path1 \<noteq> [] then path1 else ''preset.yaml'')))"

definition FormatGitHubShorthand :: "string \<Rightarrow> string \<Rightarrow> string \<Rightarrow> string \<Rightarrow> string" where
  "FormatGitHubShorthand org repo path version =
     ''gh:'' @ org @ ''/'' @ repo @
     (if path \<noteq> [] then (if \<not> HasPrefix path ''/'' then ''/'' else []) @ path else []) @
     (if version \<noteq> [] \<and> version \<noteq> ''main'' then ''@'' @ version else [])"

definition IsVersioned :: "string \<Rightarrow> bool" where
  "IsVersioned shorthand = Contains shorthand ''@''"

text \<open>The part after and the part before the last at sign.\<close>

definition ExtractVersionFromShorthand :: "string \<Rightarrow> string" where
  "ExtractVersionFromShorthand s = (if CHR ''@'' \<in> set s then rev (takeWhile (\<lambda>c. c \<noteq> CHR ''@'') (rev s)) else [])"

definition StripVersionFromShorthand :: "string \<Rightarrow> string" where
  "StripVersionFromShorthand s =
     (if CHR ''@'' \<in> set s then rev (tl (dropWhile (\<lambda>c. c \<noteq> CHR ''@'') (rev s))) else s)"

definition IsSemanticVersion :: "string \<Rightarrow> bool" where
  "IsSemanticVersion version = (let v = TrimPrefix version ''v'' in v \<noteq> [] \<and> is_digit (hd v))"

definition IsBranch :: "string \<Rightarrow> bool" where
  "IsBranch version \<longleftrightarrow>
     version \<in> set [''main'', ''master'', ''develop'', ''dev'', ''staging'', ''production''] \<or>
     HasPrefix version ''feature/'' \<or> HasPrefix version ''fix/'' \<or> HasPrefix version ''release/''"

section \<open>Trusted sources\<close>

definition matchGlobPattern :: "string \<Rightarrow> string \<Rightarrow> bool" where
  "matchGlobPattern pattern s =
     (if HasSuffix pattern ''*'' then HasPrefix s (take (length pattern - 1) pattern) else pattern = s)"

definition isTrustedSource :: "WebhookGlobalConfig option \<Rightarrow> string \<Rightarrow> bool" where
  "isTrustedSource global source =
     (case global of
        None \<Rightarrow> False
      | Some g \<Rightarrow>
          wg_TrustedPresetSources g \<noteq> [] \<and>
          list_ex (\<lambda>pattern. matchGlobPattern pattern source)
            (filter (\<lambda>p. p \<noteq> []) (map TrimSpace (Split (wg_TrustedPresetSources g) (CHR '','')))))"

section \<open>Escaped text reads back\<close>

text \<open>The reader of the inside of a JSON string (RFC 8259, section 7) for code points below 256.\<close>

definition hex_val :: "char \<Rightarrow> nat" where
  "hex_val c = (let n = of_char c in if 48 \<le> n \<and> n \<le> 57 then n - 48 else n - 87)"

fun json_unescape :: "string \<Rightarrow> string option" where
  "json_unescape [] = Some []"
| "json_unescape (c # s) =
     (if c = CHR 0x22 \<or> (of_char c :: nat) < 0x20 then None
      else if c \<noteq> CHR 0x5C then map_option ((#) c) (json_unescape s)
      else case s of
             [] \<Rightarrow> None
           | e # t \<Rightarrow>
               if e = CHR ''u'' then
                 (case t of
                    d1 # d2 # d3 # d4 # t' \<Rightarrow>
                      if d1 = CHR ''0'' \<and> d2 = CHR ''0''
                      then map_option ((#) (char_of (16 * hex_val d3 + hex_val d4))) (json_unescape t') else None
                  | _ \<Rightarrow> None)
               else case map_of [(CHR 0x22, CHR 0x22), (CHR 0x5C, CHR 0x5C), (CHR ''/'', CHR ''/''), (CHR ''b'', CHR 0x08),
                                 (CHR ''f'', CHR 0x0C), (CHR ''n'', CHR 0x0A), (CHR ''r'', CHR 0x0D), (CHR ''t'', CHR 0x09)] e of
                      None \<Rightarrow> None
                    | Some c' \<Rightarrow> map_option ((#) c') (json_unescape t))"

lemma hex_roundtrip: "n < 16 \<Longrightarrow> hex_val (hex_digit n) = n"
  by (simp add: hex_val_def hex_digit_def Let_def)

lemma unescape_byte: "json_unescape (json_escape_byte c @ s) = map_option ((#) c) (json_unescape s)"
proof (cases "(of_char c :: nat) < 0x20")
  case True
  then have h: "of_char c div 16 < (16 :: nat)" by simp
  have "char_of (16 * hex_val (hex_digit (of_char c div 16)) + hex_val (hex_digit (of_char c mod 16))) = c"
    using h by (simp add: hex_roundtrip mult.commute [of 16] div_mult_mod_eq)
  with True show ?thesis by (simp add: json_escape_byte_def)
qed (simp add: json_escape_byte_def)

lemma escape_plain: "\<not> needsJSONEscape s \<Longrightarrow> concat (map json_escape_byte s) = s"
  by (induction s) (auto simp: needsJSONEscape_def json_escape_byte_def)

lemma unescape_concat: "json_unescape (concat (map json_escape_byte s)) = Some s"
  by (induction s) (simp_all add: unescape_byte)

section \<open>Shorthands read back\<close>

definition shorthand_ok :: "string \<Rightarrow> string \<Rightarrow> string \<Rightarrow> string \<Rightarrow> bool" where
  "shorthand_ok org repo path version \<longleftrightarrow>
     org \<noteq> [] \<and> CHR ''/'' \<notin> set org \<and> repo \<noteq> [] \<and> CHR ''/'' \<notin> set repo \<and> CHR ''@'' \<notin> set repo \<and>
     CHR ''@'' \<notin> set path \<and> \<not> HasPrefix path ''/'' \<and> version \<noteq> [] \<and> CHR 0x0A \<notin> set version"

lemma takeWhile_neq: "c \<notin> set xs \<Longrightarrow> takeWhile (\<lambda>x. x \<noteq> c) (xs @ c # ys) = xs \<and> dropWhile (\<lambda>x. x \<noteq> c) (xs @ c # ys) = c # ys"
  by (induction xs) auto

lemma takeWhile_repo:
  assumes "CHR ''/'' \<notin> set repo" "CHR ''@'' \<notin> set repo" "t = [] \<or> hd t = CHR ''/'' \<or> hd t = CHR ''@''"
  shows "takeWhile (\<lambda>c. c \<noteq> CHR ''/'' \<and> c \<noteq> CHR ''@'') (repo @ t) = repo"
    and "dropWhile (\<lambda>c. c \<noteq> CHR ''/'' \<and> c \<noteq> CHR ''@'') (repo @ t) = t"
  using assms by (induction repo) (auto simp: takeWhile_eq_Nil_iff dropWhile_eq_self_iff)

lemma gh_path_append:
  assumes "CHR ''@'' \<notin> set m3" "m3 = [] \<or> hd m3 = CHR ''/''" "v = [] \<or> hd v = CHR ''@''"
  shows "gh_path (m3 @ v) = m3"
proof -
  have "takeWhile (\<lambda>c. c \<noteq> CHR ''@'') (m3 @ v) = m3"
    using assms(1,3) by (induction m3) (auto simp: takeWhile_eq_Nil_iff)
  then show ?thesis using assms by (cases m3) (auto simp: gh_path_def)
qed

definition gh_suffix :: "string \<Rightarrow> string" where
  "gh_suffix m4 = (if m4 = [] then [] else CHR ''@'' # m4)"

lemma gh_suffix: "gh_suffix m4 = [] \<or> hd (gh_suffix m4) = CHR ''@''"
  by (simp add: gh_suffix_def)

lemma gh_version_suffix: "CHR 0x0A \<notin> set m4 \<Longrightarrow> gh_version (gh_suffix m4) = Some m4"
  by (simp add: gh_version_def gh_suffix_def)

lemma gh_match_parts:
  assumes "org \<noteq> []" "CHR ''/'' \<notin> set org" "repo \<noteq> []" "CHR ''/'' \<notin> set repo" "CHR ''@'' \<notin> set repo"
    "CHR ''@'' \<notin> set m3" "m3 = [] \<or> hd m3 = CHR ''/''" "CHR 0x0A \<notin> set m4"
  shows "gh_match (''gh:'' @ org @ ''/'' @ repo @ m3 @ gh_suffix m4) = Some (org, repo, m3, m4)"
proof -
  have t: "m3 @ gh_suffix m4 = [] \<or> hd (m3 @ gh_suffix m4) = CHR ''/'' \<or> hd (m3 @ gh_suffix m4) = CHR ''@''"
    using assms(7) gh_suffix [of m4] by (cases m3) auto
  show ?thesis
    using assms takeWhile_neq [of "CHR ''/''" org "repo @ m3 @ gh_suffix m4"] takeWhile_repo [OF assms(4,5) t]
      gh_path_append [OF assms(6,7) gh_suffix [of m4]] gh_version_suffix [OF assms(8)]
    unfolding gh_match_def by (simp add: HasPrefix_def Let_def)
qed

section \<open>Properties\<close>

text \<open>(json_escape_roundtrip): text that a webhook body embeds in a JSON string is read back unchanged by a JSON
  reader, for every byte sequence; in particular it contains no bare quote and no control character.\<close>

theorem json_escape_roundtrip: "json_unescape (jsonStringEscape s) = Some s"
proof (cases "needsJSONEscape s")
  case False
  then show ?thesis using unescape_concat [of s] by (simp add: jsonStringEscape_def escape_plain)
qed (simp add: jsonStringEscape_def unescape_concat)

text \<open>(github_shorthand_roundtrip): the shorthand that is written for an organisation, repository, path and
  version is parsed back into the same parts.\<close>

theorem github_shorthand_roundtrip:
  assumes "shorthand_ok org repo path version"
  shows "ParseGitHubShorthandDetails (FormatGitHubShorthand org repo path version) =
     Inr \<lparr>gh_Org = org, gh_Repo = repo, gh_Path = path, gh_Version = version\<rparr>"
proof -
  define m3 where "m3 = (if path \<noteq> [] then CHR ''/'' # path else [])"
  define m4 where "m4 = (if version \<noteq> ''main'' then version else [])"
  have f: "FormatGitHubShorthand org repo path version =
      ''gh:'' @ org @ ''/'' @ repo @ m3 @ gh_suffix m4"
    using assms by (auto simp: gh_suffix_def FormatGitHubShorthand_def m3_def m4_def shorthand_ok_def)
  have "gh_match (FormatGitHubShorthand org repo path version) = Some (org, repo, m3, m4)"
    unfolding f by (rule gh_match_parts) (use assms in \<open>auto simp: m3_def m4_def shorthand_ok_def\<close>)
  moreover have "TrimPrefix m3 ''/'' = path" by (auto simp: m3_def TrimPrefix_def HasPrefix_def)
  ultimately show ?thesis
    using assms by (auto simp: ParseGitHubShorthandDetails_def f HasPrefix_def m4_def shorthand_ok_def)
qed

theorem github_shorthand_roundtrip_witness:
  "ParseGitHubShorthandDetails (FormatGitHubShorthand ''acme'' ''presets'' ''a/b.yaml'' ''v1'') =
     Inr \<lparr>gh_Org = ''acme'', gh_Repo = ''presets'', gh_Path = ''a/b.yaml'', gh_Version = ''v1''\<rparr>"
  by (rule github_shorthand_roundtrip) (simp add: shorthand_ok_def HasPrefix_def)

end
