(* ===== verification/PresetCache.thy ===== *)
theory PresetCache
  imports Preset
begin

text \<open>
  The cache of remote presets (\<^verbatim>\<open>src/middlewares/preset_cache.go\<close>): a map in memory in front of a directory
  that holds, for the hash of a URL, a metadata file and a preset file. Files are represented by what
  they decode to (\<^term>\<open>None\<close> for invalid metadata, an error for an invalid preset); \<open>reread\<close> is what
  parsing gives back for a preset that was marshalled to YAML, and \<open>hash\<close> is the hash function. The
  result of every write and listing is an argument, removals whose error the code ignores succeed. The clock has one value during an operation.
\<close>

section \<open>The cache\<close>

record cacheMetadata =
  cm_URL :: string
  cm_FetchedAt :: time
  cm_ExpiresAt :: time
  cm_Version :: string

record preset_cache =
  pc_ttl :: duration
  pc_memory :: "string \<rightharpoonup> Preset \<times> time"
  pc_meta :: "string \<rightharpoonup> cacheMetadata option"
  pc_files :: "string \<rightharpoonup> go_error + Preset"

text \<open>\<^verbatim>\<open>NewPresetCache\<close>: an empty memory over the files that are there.\<close>

definition NewPresetCache ::
  "duration \<Rightarrow> (string \<rightharpoonup> cacheMetadata option) \<Rightarrow> (string \<rightharpoonup> go_error + Preset) \<Rightarrow> preset_cache" where
  "NewPresetCache ttl meta files = \<lparr>pc_ttl = ttl, pc_memory = Map.empty, pc_meta = meta, pc_files = files\<rparr>"

definition getFromDisk :: "time \<Rightarrow> string \<Rightarrow> string \<Rightarrow> preset_cache \<Rightarrow> (go_error + Preset) \<times> preset_cache" where
  "getFromDisk now key url c =
     (case pc_meta c key of
        None \<Rightarrow> (Inl (Errorf [Lit ''cache miss: '', Wrap (Opaque 0 ''file does not exist'')]), c)
      | Some None \<Rightarrow> (Inl (Errorf [Lit ''invalid cache metadata: '', Wrap (Opaque 0 ''yaml'')]), c)
      | Some (Some meta) \<Rightarrow>
          if now > cm_ExpiresAt meta
          then (Inl (Errorf [Lit ''cache expired'']),
                c\<lparr>pc_meta := (pc_meta c)(key := None), pc_files := (pc_files c)(key := None)\<rparr>)
          else if cm_URL meta \<noteq> url then (Inl (Errorf [Lit ''cache key collision'']), c)
          else (case pc_files c key of
                  None \<Rightarrow> (Inl (Errorf [Lit ''read cached preset: '', Wrap (Opaque 0 ''file does not exist'')]), c)
                | Some (Inl err) \<Rightarrow> (Inl (Errorf [Lit ''parse cached preset: '', Wrap err]), c)
                | Some (Inr preset) \<Rightarrow> (Inr preset, c)))"

definition cache_Get :: "(string \<Rightarrow> string) \<Rightarrow> time \<Rightarrow> string \<Rightarrow> preset_cache \<Rightarrow> (go_error + Preset) \<times> preset_cache" where
  "cache_Get hash now url c =
     (let key = hash url in
      case pc_memory c key of
        Some (preset, expiresAt) \<Rightarrow>
          if now < expiresAt then (Inr preset, c)
          else (case getFromDisk now key url c of
                  (Inl err, c1) \<Rightarrow> (Inl err, c1)
                | (Inr p, c1) \<Rightarrow> (Inr p, c1\<lparr>pc_memory := (pc_memory c1)(key \<mapsto> (p, now + pc_ttl c1))\<rparr>))
      | None \<Rightarrow>
          (case getFromDisk now key url c of
             (Inl err, c1) \<Rightarrow> (Inl err, c1)
           | (Inr p, c1) \<Rightarrow> (Inr p, c1\<lparr>pc_memory := (pc_memory c1)(key \<mapsto> (p, now + pc_ttl c1))\<rparr>)))"

text \<open>A failed write leaves the file as it was (\<^term>\<open>None\<close>) or with some content.\<close>

datatype 'f file_write = Written | WriteFailed go_error "'f option"

definition putToDisk ::
  "(Preset \<Rightarrow> go_error + Preset) \<Rightarrow> cacheMetadata option file_write \<Rightarrow> (go_error + Preset) file_write \<Rightarrow> time \<Rightarrow>
   string \<Rightarrow> string \<Rightarrow> Preset \<Rightarrow> time \<Rightarrow> preset_cache \<Rightarrow> result \<times> preset_cache" where
  "putToDisk reread w_meta w_preset now key url preset expiresAt c =
     (let meta = \<lparr>cm_URL = url, cm_FetchedAt = now, cm_ExpiresAt = expiresAt, cm_Version = p_Version preset\<rparr> in
      case w_meta of
        WriteFailed err left \<Rightarrow>
          (Some (Errorf [Lit ''write cache metadata: '', Wrap err]),
           (case left of None \<Rightarrow> c | Some f \<Rightarrow> c\<lparr>pc_meta := (pc_meta c)(key \<mapsto> f)\<rparr>))
      | Written \<Rightarrow>
          let c1 = c\<lparr>pc_meta := (pc_meta c)(key \<mapsto> Some meta)\<rparr> in
          case w_preset of
            WriteFailed err left \<Rightarrow>
              (Some (Errorf [Lit ''write cached preset: '', Wrap err]),
               (case left of None \<Rightarrow> c1 | Some f \<Rightarrow> c1\<lparr>pc_files := (pc_files c1)(key \<mapsto> f)\<rparr>))
          | Written \<Rightarrow> (None, c1\<lparr>pc_files := (pc_files c1)(key \<mapsto> reread preset)\<rparr>))"

definition cache_Put ::
  "(string \<Rightarrow> string) \<Rightarrow> (Preset \<Rightarrow> go_error + Preset) \<Rightarrow> cacheMetadata option file_write \<Rightarrow> (go_error + Preset) file_write \<Rightarrow>
   time \<Rightarrow> string \<Rightarrow> Preset \<Rightarrow> preset_cache \<Rightarrow> result \<times> preset_cache" where
  "cache_Put hash reread w_meta w_preset now url preset c =
     (let key = hash url; expiresAt = now + pc_ttl c
      in putToDisk reread w_meta w_preset now key url preset expiresAt
           (c\<lparr>pc_memory := (pc_memory c)(key \<mapsto> (preset, expiresAt))\<rparr>))"

definition cache_Invalidate :: "(string \<Rightarrow> string) \<Rightarrow> string \<Rightarrow> preset_cache \<Rightarrow> preset_cache" where
  "cache_Invalidate hash url c =
     (let key = hash url
      in c\<lparr>pc_memory := (pc_memory c)(key := None), pc_meta := (pc_meta c)(key := None),
           pc_files := (pc_files c)(key := None)\<rparr>)"

text \<open>\<^verbatim>\<open>Clear\<close>: \<open>entries\<close> is the listing of the directory, or its error, with the result of each removal.\<close>

datatype cache_file = MetaFile string | PresetFile string

primrec remove_file :: "cache_file \<Rightarrow> preset_cache \<Rightarrow> preset_cache" where
  "remove_file (MetaFile k) c = c\<lparr>pc_meta := (pc_meta c)(k := None)\<rparr>"
| "remove_file (PresetFile k) c = c\<lparr>pc_files := (pc_files c)(k := None)\<rparr>"

fun clear_disk :: "(cache_file \<times> result) list \<Rightarrow> preset_cache \<Rightarrow> result \<times> preset_cache" where
  "clear_disk [] c = (None, c)"
| "clear_disk ((f, Some err) # fs) c = (Some (Errorf [Lit ''remove cached file: '', Wrap err]), c)"
| "clear_disk ((f, None) # fs) c = clear_disk fs (remove_file f c)"

definition cache_Clear :: "go_error + (cache_file \<times> result) list \<Rightarrow> preset_cache \<Rightarrow> result \<times> preset_cache" where
  "cache_Clear entries c =
     (let c1 = c\<lparr>pc_memory := Map.empty\<rparr> in
      case entries of
        Inl err \<Rightarrow> (Some (Errorf [Lit ''read cache directory: '', Wrap err]), c1)
      | Inr fs \<Rightarrow> clear_disk fs c1)"

text \<open>\<^verbatim>\<open>Cleanup\<close>: \<open>keys\<close> are the metadata files that the directory lists.\<close>

definition cleanup_entry :: "time \<Rightarrow> string \<Rightarrow> preset_cache \<Rightarrow> preset_cache" where
  "cleanup_entry now key c =
     (case pc_meta c key of
        None \<Rightarrow> c
      | Some None \<Rightarrow> remove_file (MetaFile key) c
      | Some (Some meta) \<Rightarrow>
          if now > cm_ExpiresAt meta then remove_file (PresetFile key) (remove_file (MetaFile key) c) else c)"

definition cache_Cleanup :: "time \<Rightarrow> go_error + string list \<Rightarrow> preset_cache \<Rightarrow> result \<times> preset_cache" where
  "cache_Cleanup now keys c =
     (let c1 = c\<lparr>pc_memory := (\<lambda>key. case pc_memory c key of
             None \<Rightarrow> None | Some (p, e) \<Rightarrow> if now > e then None else Some (p, e))\<rparr> in
      case keys of
        Inl err \<Rightarrow> (Some (Errorf [Lit ''read cache directory: '', Wrap err]), c1)
      | Inr ks \<Rightarrow> (None, fold (cleanup_entry now) ks c1))"

section \<open>Histories\<close>

datatype cache_op =
    OpPut string Preset "cacheMetadata option file_write" "(go_error + Preset) file_write"
  | OpGet string
  | OpInvalidate string
  | OpClear "go_error + (cache_file \<times> result) list"
  | OpCleanup "go_error + string list"
  | OpRestart

primrec cache_step :: "(string \<Rightarrow> string) \<Rightarrow> (Preset \<Rightarrow> go_error + Preset) \<Rightarrow> time \<Rightarrow> cache_op \<Rightarrow> preset_cache \<Rightarrow> preset_cache" where
  "cache_step hash reread now (OpPut url p wm wp) c = snd (cache_Put hash reread wm wp now url p c)"
| "cache_step hash reread now (OpGet url) c = snd (cache_Get hash now url c)"
| "cache_step hash reread now (OpInvalidate url) c = cache_Invalidate hash url c"
| "cache_step hash reread now (OpClear es) c = snd (cache_Clear es c)"
| "cache_step hash reread now (OpCleanup ks) c = snd (cache_Cleanup now ks c)"
| "cache_step hash reread now OpRestart c = NewPresetCache (pc_ttl c) (pc_meta c) (pc_files c)"

definition cache_run :: "(string \<Rightarrow> string) \<Rightarrow> (Preset \<Rightarrow> go_error + Preset) \<Rightarrow> (time \<times> cache_op) list \<Rightarrow> preset_cache \<Rightarrow> preset_cache" where
  "cache_run hash reread ops c = fold (\<lambda>(now, op). cache_step hash reread now op) ops c"

text \<open>The presets that were put under a key, with their times; a put whose files are written whole or
  not at all.\<close>

definition put_log :: "(string \<Rightarrow> string) \<Rightarrow> (time \<times> cache_op) list \<Rightarrow> (time \<times> string \<times> Preset) set" where
  "put_log hash ops = {(t, hash url, p) |t url p wm wp. (t, OpPut url p wm wp) \<in> set ops}"

fun whole_write :: "cache_op \<Rightarrow> bool" where
  "whole_write (OpPut url p Written Written) = True"
| "whole_write (OpPut url p (WriteFailed e None) wp) = True"
| "whole_write (OpPut url p wm wp) = False"
| "whole_write _ = True"

section \<open>The age of what is served\<close>

definition cache_inv :: "(Preset \<Rightarrow> go_error + Preset) \<Rightarrow> duration \<Rightarrow> (time \<times> string \<times> Preset) set \<Rightarrow> preset_cache \<Rightarrow> bool" where
  [inv_defs]: "cache_inv reread ttl puts c \<longleftrightarrow> pc_ttl c = ttl \<and>
     (\<forall>k p e. pc_memory c k = Some (p, e) \<longrightarrow>
        (\<exists>t0 q. (t0, k, q) \<in> puts \<and> (p = q \<or> reread q = Inr p) \<and> e \<le> t0 + 2 * ttl)) \<and>
     (\<forall>k m p. pc_meta c k = Some (Some m) \<longrightarrow> pc_files c k = Some (Inr p) \<longrightarrow>
        (\<exists>t0 q. (t0, k, q) \<in> puts \<and> reread q = Inr p \<and> cm_ExpiresAt m = t0 + ttl))"

lemma cache_inv_memory:
  "cache_inv reread ttl puts c \<Longrightarrow> pc_memory c k = Some (p, e) \<Longrightarrow>
     \<exists>t0 q. (t0, k, q) \<in> puts \<and> (p = q \<or> reread q = Inr p) \<and> e \<le> t0 + 2 * ttl"
  by (simp add: cache_inv_def)

lemma cache_inv_disk:
  "cache_inv reread ttl puts c \<Longrightarrow> pc_meta c k = Some (Some m) \<Longrightarrow> pc_files c k = Some (Inr p) \<Longrightarrow>
     \<exists>t0 q. (t0, k, q) \<in> puts \<and> reread q = Inr p \<and> cm_ExpiresAt m = t0 + ttl"
  by (simp add: cache_inv_def)

text \<open>Forgetting entries keeps the invariant.\<close>

lemma map_le_Some: "f \<subseteq>\<^sub>m g \<Longrightarrow> f x = Some y \<Longrightarrow> g x = Some y"
  unfolding map_le_def by (metis domI)

lemma cache_inv_smaller:
  assumes "cache_inv reread ttl puts c" "pc_ttl c' = pc_ttl c" "pc_memory c' \<subseteq>\<^sub>m pc_memory c"
    "pc_meta c' \<subseteq>\<^sub>m pc_meta c" "pc_files c' \<subseteq>\<^sub>m pc_files c"
  shows "cache_inv reread ttl puts c'"
  unfolding cache_inv_def
proof (intro conjI allI impI)
  show "pc_ttl c' = ttl" using assms(1,2) by (simp add: cache_inv_def)
next
  fix k p e assume "pc_memory c' k = Some (p, e)"
  then show "\<exists>t0 q. (t0, k, q) \<in> puts \<and> (p = q \<or> reread q = Inr p) \<and> e \<le> t0 + 2 * ttl"
    by (rule cache_inv_memory [OF assms(1) map_le_Some [OF assms(3)]])
next
  fix k m p assume "pc_meta c' k = Some (Some m)" "pc_files c' k = Some (Inr p)"
  then show "\<exists>t0 q. (t0, k, q) \<in> puts \<and> reread q = Inr p \<and> cm_ExpiresAt m = t0 + ttl"
    by (rule cache_inv_disk [OF assms(1) map_le_Some [OF assms(4)] map_le_Some [OF assms(5)]])
qed

lemma cache_inv_log: "cache_inv reread ttl puts c \<Longrightarrow> puts \<subseteq> puts' \<Longrightarrow> cache_inv reread ttl puts' c"
  unfolding cache_inv_def by blast

lemma map_le_delete [simp]: "m(k := None) \<subseteq>\<^sub>m m"
  by (simp add: map_le_def)

lemma getFromDisk_result:
  assumes "getFromDisk now key url c = (r, c')"
  shows "pc_ttl c' = pc_ttl c" "pc_memory c' = pc_memory c" "pc_meta c' \<subseteq>\<^sub>m pc_meta c" "pc_files c' \<subseteq>\<^sub>m pc_files c"
    and "r = Inr p \<Longrightarrow> c' = c \<and> pc_files c key = Some (Inr p) \<and> (\<exists>m. pc_meta c key = Some (Some m) \<and> now \<le> cm_ExpiresAt m)"
  using assms by (auto simp: getFromDisk_def split: option.splits sum.splits if_splits)

lemma cache_Get_cases:
  assumes "cache_Get hash now url c = (r, c')"
  obtains (memory) p e where "pc_memory c (hash url) = Some (p, e)" "now < e" "r = Inr p" "c' = c"
  | (disk) p where "getFromDisk now (hash url) url c = (Inr p, c)" "r = Inr p"
      "c' = c\<lparr>pc_memory := (pc_memory c)(hash url \<mapsto> (p, now + pc_ttl c))\<rparr>"
  | (miss) e where "getFromDisk now (hash url) url c = (Inl e, c')" "r = Inl e"
proof -
  obtain r1 c1 where g: "getFromDisk now (hash url) url c = (r1, c1)" by fastforce
  have "(\<exists>p e. pc_memory c (hash url) = Some (p, e) \<and> now < e \<and> r = Inr p \<and> c' = c) \<or>
    (\<exists>p. r1 = Inr p \<and> r = Inr p \<and> c' = c1\<lparr>pc_memory := (pc_memory c1)(hash url \<mapsto> (p, now + pc_ttl c1))\<rparr>) \<or>
    (\<exists>e. r1 = Inl e \<and> r = Inl e \<and> c' = c1)"
    using assms by (auto simp: cache_Get_def Let_def g split: option.splits sum.splits if_splits prod.splits)
  then show thesis using that g getFromDisk_result(5) [OF g] by blast
qed

lemma cache_Get_inv:
  assumes inv: "cache_inv reread ttl puts c" and "cache_Get hash now url c = (r, c')"
  shows "cache_inv reread ttl puts c'"
  using assms(2)
proof (cases rule: cache_Get_cases)
  case (disk p)
  have d: "pc_files c (hash url) = Some (Inr p)" "\<exists>m. pc_meta c (hash url) = Some (Some m) \<and> now \<le> cm_ExpiresAt m"
    using getFromDisk_result(5) [OF disk(1)] by auto
  then obtain t0 q where "(t0, hash url, q) \<in> puts" "reread q = Inr p" "now \<le> t0 + ttl"
    using cache_inv_disk [OF inv] by metis
  moreover have "pc_ttl c = ttl" using inv by (simp add: cache_inv_def)
  ultimately have "\<exists>t0 q. (t0, hash url, q) \<in> puts \<and> (p = q \<or> reread q = Inr p) \<and> now + pc_ttl c \<le> t0 + 2 * ttl"
    by (intro exI [of _ t0] exI [of _ q]) simp
  with inv disk(3) show ?thesis by (auto simp: cache_inv_def)
next
  case (miss e)
  then show ?thesis using getFromDisk_result [OF miss(1)] by (intro cache_inv_smaller [OF inv]) auto
qed (simp add: inv)

lemma cache_Put_inv:
  assumes inv: "cache_inv reread ttl puts c" and "whole_write (OpPut url p wm wp)" "(now, hash url, p) \<in> puts" "0 \<le> ttl"
  shows "cache_inv reread ttl puts (snd (cache_Put hash reread wm wp now url p c))"
proof -
  have t: "pc_ttl c = ttl" using inv by (simp add: cache_inv_def)
  let ?c = "c\<lparr>pc_memory := (pc_memory c)(hash url \<mapsto> (p, now + ttl))\<rparr>"
  have mem: "cache_inv reread ttl puts ?c"
    using inv assms(3,4) by (auto simp: cache_inv_def intro!: exI [of _ now])
  let ?m = "\<lparr>cm_URL = url, cm_FetchedAt = now, cm_ExpiresAt = now + ttl, cm_Version = p_Version p\<rparr>"
  have "cache_inv reread ttl puts (?c\<lparr>pc_meta := (pc_meta c)(hash url \<mapsto> Some ?m), pc_files := (pc_files c)(hash url \<mapsto> reread p)\<rparr>)"
    using mem assms(3) by (auto simp: cache_inv_def)
  with mem show ?thesis
    using assms(2) by (cases "OpPut url p wm wp" rule: whole_write.cases) (auto simp: cache_Put_def putToDisk_def Let_def t)
qed

lemma remove_file_smaller:
  "pc_ttl (remove_file f c) = pc_ttl c" "pc_memory (remove_file f c) = pc_memory c"
  "pc_meta (remove_file f c) \<subseteq>\<^sub>m pc_meta c" "pc_files (remove_file f c) \<subseteq>\<^sub>m pc_files c"
  by (cases f; simp)+

lemma remove_file_inv: "cache_inv reread ttl puts c \<Longrightarrow> cache_inv reread ttl puts (remove_file f c)"
  by (erule cache_inv_smaller) (simp_all add: remove_file_smaller)

lemma clear_disk_inv: "cache_inv reread ttl puts c \<Longrightarrow> cache_inv reread ttl puts (snd (clear_disk fs c))"
  by (induction fs c rule: clear_disk.induct) (auto simp: remove_file_inv)

lemma cleanup_entry_inv: "cache_inv reread ttl puts c \<Longrightarrow> cache_inv reread ttl puts (cleanup_entry now k c)"
  by (auto simp: cleanup_entry_def simp del: remove_file.simps intro: remove_file_inv split: option.splits)

lemma cleanup_inv: "cache_inv reread ttl puts c \<Longrightarrow> cache_inv reread ttl puts (fold (cleanup_entry now) ks c)"
  by (induction ks arbitrary: c) (auto intro: cleanup_entry_inv)

lemma cache_step_inv:
  assumes inv: "cache_inv reread ttl puts c" and "whole_write op" "0 \<le> ttl"
    "\<And>url p wm wp. op = OpPut url p wm wp \<Longrightarrow> (now, hash url, p) \<in> puts"
  shows "cache_inv reread ttl puts (cache_step hash reread now op c)"
proof (cases op)
  case (OpGet url)
  obtain r c' where "cache_Get hash now url c = (r, c')" by fastforce
  then show ?thesis using cache_Get_inv [OF inv] OpGet by simp
next
  case (OpPut url p wm wp)
  then show ?thesis using cache_Put_inv [OF inv, of url p wm wp now hash] assms by simp
next
  case (OpInvalidate url)
  then show ?thesis by (auto simp: cache_Invalidate_def Let_def intro: cache_inv_smaller [OF inv])
next
  case (OpClear es)
  have "cache_inv reread ttl puts (c\<lparr>pc_memory := Map.empty\<rparr>)" by (rule cache_inv_smaller [OF inv]) auto
  then show ?thesis using OpClear by (auto simp: cache_Clear_def Let_def clear_disk_inv split: sum.splits)
next
  case (OpCleanup ks)
  have "cache_inv reread ttl puts (c\<lparr>pc_memory := (\<lambda>key. case pc_memory c key of
             None \<Rightarrow> None | Some (p, e) \<Rightarrow> if now > e then None else Some (p, e))\<rparr>)"
    by (rule cache_inv_smaller [OF inv]) (auto simp: map_le_def split: option.splits if_splits)
  then show ?thesis using OpCleanup by (auto simp: cache_Cleanup_def Let_def cleanup_inv split: sum.splits)
next
  case OpRestart
  then show ?thesis by (auto simp: NewPresetCache_def intro: cache_inv_smaller [OF inv])
qed

text \<open>The invariant holds after every history, whose puts are the ones served.\<close>

lemma cache_run_inv:
  assumes "list_all (\<lambda>(t, op). whole_write op) ops" "0 \<le> ttl" "put_log hash ops \<subseteq> puts" "cache_inv reread ttl puts c"
  shows "cache_inv reread ttl puts (cache_run hash reread ops c)"
  using assms
proof (induction ops arbitrary: c)
  case (Cons x ops)
  obtain t op where x: "x = (t, op)" by fastforce
  have "(t, hash url, p) \<in> puts" if "op = OpPut url p wm wp" for url p wm wp
    using Cons.prems(3) that x by (force simp: put_log_def)
  then have "cache_inv reread ttl puts (cache_step hash reread t op c)"
    using Cons.prems x by (intro cache_step_inv) auto
  moreover have "put_log hash ops \<subseteq> puts" using Cons.prems(3) by (force simp: put_log_def)
  ultimately show ?case using Cons x by (simp add: cache_run_def)
qed (simp add: cache_run_def)

lemma empty_cache_inv: "cache_inv reread ttl puts (NewPresetCache ttl Map.empty Map.empty)"
  by (simp add: cache_inv_def NewPresetCache_def)

section \<open>Properties\<close>

text \<open>(preset_cache_age): after every history of the cache, with restarts and lost files, a preset that is
  served was put for the same key less than twice the time to live ago, and is that preset or what was
  read back for it.\<close>

theorem preset_cache_age:
  assumes "0 < ttl" "list_all (\<lambda>(t, op). whole_write op) ops"
    and "fst (cache_Get hash now url (cache_run hash reread ops (NewPresetCache ttl Map.empty Map.empty))) = Inr p"
  shows "\<exists>t0 q. (t0, hash url, q) \<in> put_log hash ops \<and> (p = q \<or> reread q = Inr p) \<and> now - t0 < 2 * ttl"
proof -
  let ?c = "cache_run hash reread ops (NewPresetCache ttl Map.empty Map.empty)"
  have inv: "cache_inv reread ttl (put_log hash ops) ?c"
    using assms by (intro cache_run_inv empty_cache_inv) auto
  obtain c' where "cache_Get hash now url ?c = (Inr p, c')" using assms(3) by (metis prod.collapse)
  then show ?thesis
  proof (cases rule: cache_Get_cases)
    case (memory p' e)
    then show ?thesis using cache_inv_memory [OF inv, of "hash url" p e] by force
  next
    case (disk p')
    then obtain m where "pc_files ?c (hash url) = Some (Inr p)" "pc_meta ?c (hash url) = Some (Some m)" "now \<le> cm_ExpiresAt m"
      using getFromDisk_result(5) [OF disk(1)] by auto
    then show ?thesis using cache_inv_disk [OF inv] assms(1) by force
  qed simp
qed

definition sim_preset :: Preset where
  "sim_preset = \<lparr>p_Name = ''slack'', p_Description = [], p_Version = ''1'', p_URLScheme = ''https://x'', p_Method = ''POST'',
     p_Headers = Map.empty, p_Variables = [], p_Body = ''b''\<rparr>"

text \<open>(preset_cache_outlives_ttl): a preset that is found on disk at some time within its life is kept in memory
  for another full life: after a restart it is served until almost twice the time to live after it was
  fetched.\<close>

theorem preset_cache_outlives_ttl:
  assumes "reread p = Inr p" "t0 \<le> t1" "t1 \<le> t0 + ttl" "t2 < t1 + ttl"
  shows "fst (cache_Get hash t2 url (cache_run hash reread
           [(t0, OpPut url p Written Written), (t0, OpRestart), (t1, OpGet url)]
           (NewPresetCache ttl Map.empty Map.empty))) = Inr p"
  using assms by (simp add: cache_run_def cache_Put_def putToDisk_def NewPresetCache_def cache_Get_def getFromDisk_def Let_def)

theorem preset_cache_age_witness:
  "\<exists>t0 q. (t0, ''u'', q) \<in> put_log id [(0, OpPut ''u'' sim_preset Written Written), (0, OpRestart), (10, OpGet ''u'')] \<and>
     (sim_preset = q \<or> Inr q = (Inr sim_preset :: go_error + Preset)) \<and> 19 - t0 < 2 * 10"
  using preset_cache_age [of 10 "[(0, OpPut ''u'' sim_preset Written Written), (0, OpRestart), (10, OpGet ''u'')]" id 19 "''u''"
      Inr sim_preset]
  by (simp add: cache_run_def cache_Put_def putToDisk_def NewPresetCache_def cache_Get_def getFromDisk_def Let_def)

theorem preset_cache_outlives_ttl_witness:
  "fst (cache_Get id 19 ''u'' (cache_run id Inr
      [(0, OpPut ''u'' sim_preset Written Written), (0, OpRestart), (10, OpGet ''u'')]
      (NewPresetCache 10 Map.empty Map.empty))) = Inr sim_preset"
  by (rule preset_cache_outlives_ttl) simp_all

end
