(* ===== verification/PresetLoader.thy ===== *)
theory PresetLoader
  imports PresetCache
begin

text \<open>
  Loading presets and attaching webhooks to jobs: the loader with its sources, bundled presets, files,
  directories, the GitHub shorthand and URLs (\<^verbatim>\<open>src/middlewares/preset.go\<close>), the creation of a webhook and
  the manager (\<^verbatim>\<open>src/middlewares/webhook.go\<close>) and the attachment to a job (\<^verbatim>\<open>src/cli/config.go\<close>).

  The record \<open>load_env\<close> holds what is outside of the program: files, the YAML decoder, \<^verbatim>\<open>url.Parse\<close>, HTTP
  servers with the status, the chunks and the read error of their answer, and the clock. Its field for
  the URL check is the validator that \<open>SetGlobalSecurityConfig\<close> installed. Every HTTP request is part of
  the result. \<^verbatim>\<open>NewWebhook\<close> changes the configuration it is given, which is shared with the manager and
  with the list of configured webhooks; the changed configuration is part of the result.
\<close>

section \<open>The loader\<close>

record load_env =
  re_ReadFile :: "string \<Rightarrow> go_error + string"
  re_Stat :: "string \<Rightarrow> bool"
  re_yaml :: "string \<Rightarrow> go_error + Preset"
  re_validate :: "string \<Rightarrow> result"
  re_NewRequest :: "string \<Rightarrow> result"
  re_Do :: "string \<Rightarrow> go_error + int \<times> string list \<times> result"
  re_hash :: "string \<Rightarrow> string"
  re_reread :: "Preset \<Rightarrow> go_error + Preset"
  re_now :: time
  re_w_meta :: "cacheMetadata option file_write"
  re_w_preset :: "(go_error + Preset) file_write"

record preset_loader =
  l_bundledPresets :: "string \<rightharpoonup> Preset"
  l_localPresetDirs :: "string list"
  l_cache :: "preset_cache option"
  l_globalConfig :: "WebhookGlobalConfig option"

text \<open>\<^verbatim>\<open>loadBundledPresets\<close> over the embedded directory: names, whether it is a directory, contents.\<close>

fun loadBundledPresets ::
  "load_env \<Rightarrow> (string \<times> bool \<times> (go_error + string)) list \<Rightarrow> (string \<rightharpoonup> Preset) \<Rightarrow> result \<times> (string \<rightharpoonup> Preset)" where
  "loadBundledPresets env [] m = (None, m)"
| "loadBundledPresets env ((name, is_dir, content) # es) m =
     (if is_dir \<or> \<not> HasSuffix name ''.yaml'' then loadBundledPresets env es m
      else case content of
             Inl err \<Rightarrow> (Some (Errorf [Lit ''read embedded preset '', Str name, Lit '': '', Wrap err]), m)
           | Inr data \<Rightarrow>
               (case ParsePreset (re_yaml env) data of
                  Inl err \<Rightarrow> (Some (Errorf [Lit ''parse embedded preset '', Str name, Lit '': '', Wrap err]), m)
                | Inr preset \<Rightarrow>
                    loadBundledPresets env es
                      (m((if p_Name preset = [] then TrimSuffix name ''.yaml'' else p_Name preset) \<mapsto> preset))))"

definition NewPresetLoader ::
  "load_env \<Rightarrow> (string \<times> bool \<times> (go_error + string)) list \<Rightarrow> preset_cache \<Rightarrow> WebhookGlobalConfig option \<Rightarrow> preset_loader" where
  "NewPresetLoader env embedded disk global =
     \<lparr>l_bundledPresets = snd (loadBundledPresets env embedded Map.empty), l_localPresetDirs = [],
      l_cache = (case global of
                   None \<Rightarrow> None
                 | Some g \<Rightarrow> if wg_AllowRemotePresets g
                             then Some (NewPresetCache (wg_PresetCacheTTL g) (pc_meta disk) (pc_files disk)) else None),
      l_globalConfig = global\<rparr>"

definition DefaultPreset :: "preset_loader \<Rightarrow> string" where
  "DefaultPreset l =
     (case l_globalConfig l of None \<Rightarrow> DefaultPresetName | Some g \<Rightarrow> EffectiveDefaultPreset (Some g))"

definition loadFromFile :: "load_env \<Rightarrow> string \<Rightarrow> go_error + Preset" where
  "loadFromFile env path =
     (case re_ReadFile env path of
        Inl err \<Rightarrow> Inl (Errorf [Lit ''read preset file '', Str path, Lit '': '', Wrap err])
      | Inr data \<Rightarrow>
          (case ParsePreset (re_yaml env) data of
             Inl err \<Rightarrow> Inl (Errorf [Lit ''parse preset file '', Str path, Lit '': '', Wrap err])
           | Inr preset \<Rightarrow> Inr preset))"

text \<open>The loop that reads the body; it ends at the first error, whatever it is.\<close>

fun read_body :: "string \<Rightarrow> string list \<Rightarrow> go_error + string" where
  "read_body data [] = Inr data"
| "read_body data (chunk # chunks) =
     (if 1024 * 1024 < length (data @ chunk)
      then Inl (Errorf [Lit ''preset file too large (max '', Num (1024 * 1024), Lit '' bytes)''])
      else read_body (data @ chunk) chunks)"

definition remote_allowed :: "preset_loader \<Rightarrow> bool" where
  "remote_allowed l \<longleftrightarrow> (case l_globalConfig l of None \<Rightarrow> False | Some g \<Rightarrow> wg_AllowRemotePresets g)"

definition cache_put :: "load_env \<Rightarrow> string \<Rightarrow> Preset \<Rightarrow> preset_loader \<Rightarrow> preset_loader" where
  "cache_put env url preset l =
     (case l_cache l of
        None \<Rightarrow> l
      | Some c \<Rightarrow> l\<lparr>l_cache := Some (snd (cache_Put (re_hash env) (re_reread env) (re_w_meta env) (re_w_preset env)
                                          (re_now env) url preset c))\<rparr>)"

definition fetch_preset :: "load_env \<Rightarrow> string \<Rightarrow> preset_loader \<Rightarrow> (go_error + Preset) \<times> string list \<times> preset_loader" where
  "fetch_preset env url l =
     (case re_validate env url of
        Some err \<Rightarrow> (Inl (Errorf [Lit ''preset URL validation failed: '', Wrap err]), [], l)
      | None \<Rightarrow>
          case re_NewRequest env url of
            Some err \<Rightarrow> (Inl (Errorf [Lit ''create request for '', Str url, Lit '': '', Wrap err]), [], l)
          | None \<Rightarrow>
              case re_Do env url of
                Inl err \<Rightarrow> (Inl (Errorf [Lit ''fetch preset from '', Str url, Lit '': '', Wrap err]), [url], l)
              | Inr (status, chunks, read_err) \<Rightarrow>
                  if status \<noteq> 200
                  then (Inl (Errorf [Lit ''fetch preset from '', Str url, Lit '': HTTP '', Num status]), [url], l)
                  else case read_body [] chunks of
                         Inl err \<Rightarrow> (Inl err, [url], l)
                       | Inr data \<Rightarrow>
                           (case ParsePreset (re_yaml env) data of
                              Inl err \<Rightarrow> (Inl (Errorf [Lit ''parse preset from '', Str url, Lit '': '', Wrap err]), [url], l)
                            | Inr preset \<Rightarrow> (Inr preset, [url], cache_put env url preset l)))"

definition loadFromURL :: "load_env \<Rightarrow> string \<Rightarrow> preset_loader \<Rightarrow> (go_error + Preset) \<times> string list \<times> preset_loader" where
  "loadFromURL env url l =
     (if \<not> remote_allowed l
      then (Inl (Errorf [Lit ''remote presets are disabled (set allow-remote-presets = true)'']), [], l)
      else case l_cache l of
             None \<Rightarrow> fetch_preset env url l
           | Some c \<Rightarrow>
               (case cache_Get (re_hash env) (re_now env) url c of
                  (Inr preset, c1) \<Rightarrow> (Inr preset, [], l\<lparr>l_cache := Some c1\<rparr>)
                | (Inl _, c1) \<Rightarrow> fetch_preset env url (l\<lparr>l_cache := Some c1\<rparr>)))"

definition loadFromGitHub :: "load_env \<Rightarrow> string \<Rightarrow> preset_loader \<Rightarrow> (go_error + Preset) \<times> string list \<times> preset_loader" where
  "loadFromGitHub env spec l =
     (if \<not> remote_allowed l
      then (Inl (Errorf [Lit ''remote presets are disabled (set allow-remote-presets = true)'']), [], l)
      else case ParseGitHubShorthand spec of
             Inl err \<Rightarrow> (Inl err, [], l)
           | Inr url \<Rightarrow>
               if \<not> isTrustedSource (l_globalConfig l) spec
               then (Inl (Errorf [Lit ''preset source '', Quoted spec, Lit '' is not in trusted-preset-sources'']), [], l)
               else loadFromURL env url l)"

definition preset_path :: "string \<Rightarrow> string \<Rightarrow> string" where
  "preset_path spec dir = Clean (dir @ ''/'' @ spec @ ''.yaml'')"

definition Load :: "load_env \<Rightarrow> string \<Rightarrow> preset_loader \<Rightarrow> (go_error + Preset) \<times> string list \<times> preset_loader" where
  "Load env spec l =
     (if spec = [] then (Inl (Errorf [Lit ''preset specification cannot be empty'']), [], l)
      else case l_bundledPresets l spec of
             Some preset \<Rightarrow> (Inr preset, [], l)
           | None \<Rightarrow>
               if HasPrefix spec ''/'' \<or> HasPrefix spec ''./'' \<or> HasPrefix spec ''../'' then (loadFromFile env spec, [], l)
               else case List.find (re_Stat env) (map (preset_path spec) (l_localPresetDirs l)) of
                      Some path \<Rightarrow> (loadFromFile env path, [], l)
                    | None \<Rightarrow>
                        if HasPrefix spec ''gh:'' then loadFromGitHub env spec l
                        else if HasPrefix spec ''http://'' \<or> HasPrefix spec ''https://'' then loadFromURL env spec l
                        else (Inl (Errorf [Lit ''preset '', Quoted spec,
                                           Lit '' not found (checked: bundled, local dirs, github, url)'']), [], l))"

section \<open>Webhooks\<close>

record webhook =
  w_Config :: WebhookConfig
  w_Preset :: Preset

definition var_value :: "WebhookConfig \<Rightarrow> string \<Rightarrow> string" where
  "var_value config name =
     (if name = ''id'' then wh_ID config
      else if name = ''secret'' then wh_Secret config
      else if name = ''url'' then wh_URL config
      else case map_of (wh_CustomVars config) name of None \<Rightarrow> [] | Some v \<Rightarrow> v)"

definition validatePresetVariables :: "Preset \<Rightarrow> WebhookConfig \<Rightarrow> result" where
  "validatePresetVariables preset config =
     (case List.find (\<lambda>(name, v). pv_Required v \<and> var_value config name = []) (p_Variables preset) of
        None \<Rightarrow> None
      | Some (name, v) \<Rightarrow> Some (Errorf [Lit ''required variable '', Quoted name,
                                        Lit '' not provided (description: '', Str (pv_Description v), Lit '')'']))"

definition with_defaults :: "preset_loader \<Rightarrow> WebhookConfig \<Rightarrow> WebhookConfig" where
  "with_defaults l config =
     (let c = ApplyDefaults config in if wh_Preset c = [] then c\<lparr>wh_Preset := DefaultPreset l\<rparr> else c)"

definition new_webhook ::
  "load_env \<Rightarrow> WebhookConfig \<Rightarrow> preset_loader \<Rightarrow> (go_error + webhook) \<times> preset_loader" where
  "new_webhook env config l =
     (if wh_Preset config = []
      then (Inl (Errorf [Lit ''webhook '', Quoted (wh_Name config), Lit '': preset is required when [global] webhook-default-preset is set to an empty string (opt-out)'']), l)
      else case wh_Validate config of
             Some err \<Rightarrow> (Inl err, l)
           | None \<Rightarrow>
               (case Load env (wh_Preset config) l of
                  (Inl err, reqs, l1) \<Rightarrow>
                    (Inl (Errorf [Lit ''webhook '', Quoted (wh_Name config), Lit '': load preset '', Quoted (wh_Preset config),
                                  Lit '': '', Wrap err]), l1)
                | (Inr preset, reqs, l1) \<Rightarrow>
                    (case validatePresetVariables preset config of
                       Some err \<Rightarrow> (Inl (Errorf [Lit ''webhook '', Quoted (wh_Name config), Lit '': '', Wrap err]), l1)
                     | None \<Rightarrow> (Inr \<lparr>w_Config = config, w_Preset = preset\<rparr>, l1))))"

definition NewWebhook ::
  "load_env \<Rightarrow> WebhookConfig option \<Rightarrow> preset_loader option \<Rightarrow>
   (go_error + webhook option) \<times> WebhookConfig option \<times> preset_loader option" where
  "NewWebhook env config loader =
     (case config of
        None \<Rightarrow> (Inr None, None, loader)
      | Some c \<Rightarrow>
          case loader of
            None \<Rightarrow> (Inl (Errorf [Lit ''webhook '', Quoted (wh_Name c), Lit '': preset loader is required'']),
                     Some (ApplyDefaults c), None)
          | Some l \<Rightarrow>
              let c1 = with_defaults l c; (r, l1) = new_webhook env c1 l
              in (map_sum id Some r, Some c1, Some l1))"

section \<open>The manager\<close>

record webhook_manager =
  wm_webhooks :: "string \<rightharpoonup> WebhookConfig"
  wm_loader :: preset_loader
  wm_global :: WebhookGlobalConfig

fun GetMiddlewares :: "load_env \<Rightarrow> string list \<Rightarrow> webhook_manager \<Rightarrow> (go_error + webhook list) \<times> webhook_manager" where
  "GetMiddlewares env [] m = (Inr [], m)"
| "GetMiddlewares env (n # ns) m =
     (let name = TrimSpace n in
      if name = [] then GetMiddlewares env ns m
      else case wm_webhooks m name of
             None \<Rightarrow> (Inl (Errorf [Lit ''webhook '', Quoted name, Lit '' not found'']), m)
           | Some config \<Rightarrow>
               let config' = with_defaults (wm_loader m) config;
                   (r, l') = new_webhook env config' (wm_loader m);
                   m' = m\<lparr>wm_webhooks := (wm_webhooks m)(name \<mapsto> config'), wm_loader := l'\<rparr>
               in (case r of
                     Inl err \<Rightarrow> (Inl (Errorf [Lit ''create webhook '', Quoted name, Lit '': '', Wrap err]), m')
                   | Inr w \<Rightarrow>
                       (case GetMiddlewares env ns m' of
                          (Inl err, m'') \<Rightarrow> (Inl err, m'')
                        | (Inr ws, m'') \<Rightarrow> (Inr (w # ws), m''))))"

definition GlobalWebhookNames :: "webhook_manager \<Rightarrow> string list" where
  "GlobalWebhookNames m = ParseWebhookNames (wg_Webhooks (wm_global m))"

text \<open>\<^verbatim>\<open>NewWebhookMiddleware\<close>: nothing, one webhook, or the composite of several.\<close>

datatype attached = NoWebhook | OneWebhook webhook | Composite "webhook list"

definition NewWebhookMiddleware :: "webhook list \<Rightarrow> attached" where
  "NewWebhookMiddleware ws = (case ws of [] \<Rightarrow> NoWebhook | [w] \<Rightarrow> OneWebhook w | _ \<Rightarrow> Composite ws)"

primrec attached_webhooks :: "attached \<Rightarrow> webhook list" where
  "attached_webhooks NoWebhook = []"
| "attached_webhooks (OneWebhook w) = [w]"
| "attached_webhooks (Composite ws) = ws"

definition attachJobWebhookMiddlewares ::
  "load_env \<Rightarrow> webhook_manager option \<Rightarrow> string list \<Rightarrow> attached \<times> webhook_manager option" where
  "attachJobWebhookMiddlewares env wm perJobNames =
     (case wm of
        None \<Rightarrow> (NoWebhook, None)
      | Some m \<Rightarrow>
          let names = unionWebhookNames (GlobalWebhookNames m) perJobNames in
          if names = [] then (NoWebhook, Some m)
          else case GetMiddlewares env names m of
                 (Inl err, m') \<Rightarrow> (NoWebhook, Some m')
               | (Inr ws, m') \<Rightarrow> (NewWebhookMiddleware ws, Some m'))"

section \<open>Requests\<close>

lemma fetch_requests:
  "fst (snd (fetch_preset env url l)) = (if re_validate env url = None \<and> re_NewRequest env url = None then [url] else [])"
  by (auto simp: fetch_preset_def split: option.splits sum.splits prod.splits)

lemma loadFromURL_requests:
  "fst (snd (loadFromURL env url l)) = [] \<or>
   fst (snd (loadFromURL env url l)) = [url] \<and> remote_allowed l \<and> re_validate env url = None"
proof (cases "l_cache l")
  case None
  then show ?thesis by (simp add: loadFromURL_def fetch_requests)
next
  case (Some c)
  obtain r c1 where "cache_Get (re_hash env) (re_now env) url c = (r, c1)" by fastforce
  with Some show ?thesis by (cases r) (simp_all add: loadFromURL_def fetch_requests)
qed

lemma loadFromGitHub_requests:
  "fst (snd (loadFromGitHub env spec l)) = [] \<or>
   (\<exists>url. ParseGitHubShorthand spec = Inr url \<and> isTrustedSource (l_globalConfig l) spec \<and>
      fst (snd (loadFromGitHub env spec l)) = [url] \<and> remote_allowed l \<and> re_validate env url = None)"
  using loadFromURL_requests [of env _ l] by (auto simp: loadFromGitHub_def split: sum.splits)

section \<open>The webhooks of a job\<close>

lemma new_webhook_config: "new_webhook env c l = (Inr w, l') \<Longrightarrow> w_Config w = c"
  by (auto simp: new_webhook_def split: if_splits option.splits sum.splits prod.splits)

lemma with_defaults_Name [simp]: "wh_Name (with_defaults l c) = wh_Name c"
  by (simp add: with_defaults_def ApplyDefaults_def Let_def)

definition named :: "webhook_manager \<Rightarrow> bool" where
  [inv_defs]: "named m \<longleftrightarrow> (\<forall>n c. wm_webhooks m n = Some c \<longrightarrow> wh_Name c = n)"

lemma named_update: "named m \<Longrightarrow> wm_webhooks m n = Some c \<Longrightarrow> named (m\<lparr>wm_webhooks := (wm_webhooks m)(n \<mapsto> with_defaults l c), wm_loader := l'\<rparr>)"
  by (simp add: named_def)

text \<open>\<^verbatim>\<open>InitManager\<close> gives the manager its invariant.\<close>

lemma InitManager_named: "(\<forall>n c. m n = Some c \<longrightarrow> wh_Name c = n) \<Longrightarrow> snd (InitManager cs m) n = Some c \<Longrightarrow> wh_Name c = n"
  by (induction cs m rule: InitManager.induct) (auto simp: Register_def split: if_splits sum.splits)

lemma GetMiddlewares_names:
  "named m \<Longrightarrow> GetMiddlewares env ns m = (Inr ws, m') \<Longrightarrow>
     map (\<lambda>w. wh_Name (w_Config w)) ws = filter (\<lambda>n. n \<noteq> []) (map TrimSpace ns)"
proof (induction env ns m arbitrary: ws m' rule: GetMiddlewares.induct)
  case (2 env n ns m)
  show ?case
  proof (cases "TrimSpace n = []")
    case False
    then obtain config where c: "wm_webhooks m (TrimSpace n) = Some config"
      using 2(4) by (auto simp: Let_def split: option.splits)
    let ?c = "with_defaults (wm_loader m) config"
    obtain r l' where w: "new_webhook env ?c (wm_loader m) = (r, l')" by fastforce
    let ?m = "m\<lparr>wm_webhooks := (wm_webhooks m)(TrimSpace n \<mapsto> ?c), wm_loader := l'\<rparr>"
    obtain h where r: "r = Inr h" using 2(4) False by (auto simp: Let_def c w split: sum.splits)
    obtain ws' m'' where g: "GetMiddlewares env ns ?m = (Inr ws', m'')" "ws = h # ws'"
      using 2(4) False by (auto simp: Let_def c w r split: sum.splits prod.splits)
    have "map (\<lambda>w. wh_Name (w_Config w)) ws' = filter (\<lambda>n. n \<noteq> []) (map TrimSpace ns)"
      using 2(2) [OF refl False c refl refl w [symmetric] refl r] named_update [OF 2(3) c] g(1) by simp
    moreover have "wh_Name (w_Config h) = TrimSpace n"
      using new_webhook_config [of env ?c _ h l'] w r c 2(3) by (simp add: named_def)
    ultimately show ?thesis using False g(2) by simp
  qed (use 2 in \<open>simp add: Let_def\<close>)
qed simp

lemma attached_new [simp]: "attached_webhooks (NewWebhookMiddleware ws) = ws"
  by (auto simp: NewWebhookMiddleware_def split: list.splits)

section \<open>Properties\<close>

text \<open>(remote_presets_gated): loading a preset makes at most one HTTP request, and makes one only when remote
  presets are allowed and the URL passes the check for allowed hosts; the URL is the one the user gave,
  or that of a GitHub shorthand whose source is trusted.\<close>

theorem remote_presets_gated:
  "fst (snd (Load env spec l)) = [] \<or>
   (\<exists>url. fst (snd (Load env spec l)) = [url] \<and> remote_allowed l \<and> re_validate env url = None \<and>
      (url = spec \<and> (HasPrefix spec ''http://'' \<or> HasPrefix spec ''https://'') \<or>
       ParseGitHubShorthand spec = Inr url \<and> isTrustedSource (l_globalConfig l) spec))"
  using loadFromURL_requests [of env spec l] loadFromGitHub_requests [of env spec l]
  by (auto simp: Load_def split: option.splits)

text \<open>(trusted_sources_bypassed): the list of trusted sources is only consulted for GitHub shorthands. With an
  empty list no shorthand is fetched, but a preset is fetched from any URL that is written out.\<close>

theorem trusted_sources_bypassed:
  assumes "l_globalConfig l = Some g" "wg_AllowRemotePresets g" "wg_TrustedPresetSources g = []"
    "l_bundledPresets l = Map.empty" "l_localPresetDirs l = []" "l_cache l = None"
    "re_validate env (''https://'' @ rest) = None" "re_NewRequest env (''https://'' @ rest) = None"
  shows "fst (snd (Load env (''https://'' @ rest) l)) = [''https://'' @ rest] \<and>
         fst (snd (Load env (''gh:'' @ rest) l)) = []"
proof -
  have "fst (snd (loadFromGitHub env (''gh:'' @ rest) l)) = []"
    using loadFromGitHub_requests [of env "''gh:'' @ rest" l] assms by (auto simp: isTrustedSource_def)
  then show ?thesis
    using assms fetch_requests [of env "''https://'' @ rest" l]
    by (simp add: Load_def HasPrefix_def loadFromURL_def remote_allowed_def)
qed

definition sim_load_env :: load_env where
  "sim_load_env = \<lparr>re_ReadFile = (\<lambda>_. Inl (Opaque 0 ''no file'')), re_Stat = (\<lambda>_. False), re_yaml = (\<lambda>_. Inr sim_preset),
     re_validate = (\<lambda>_. None), re_NewRequest = (\<lambda>_. None), re_Do = (\<lambda>_. Inr (200, [''x''], None)),
     re_hash = id, re_reread = Inr, re_now = 0, re_w_meta = Written, re_w_preset = Written\<rparr>"

definition sim_global :: WebhookGlobalConfig where
  "sim_global = (DefaultWebhookGlobalConfig ''/tmp'' [])\<lparr>wg_AllowRemotePresets := True\<rparr>"

definition sim_loader :: preset_loader where
  "sim_loader = \<lparr>l_bundledPresets = Map.empty, l_localPresetDirs = [], l_cache = None, l_globalConfig = Some sim_global\<rparr>"

theorem trusted_sources_bypassed_witness:
  "fst (snd (Load sim_load_env (''https://'' @ ''evil.example/p.yaml'') sim_loader)) = [''https://'' @ ''evil.example/p.yaml'']"
  by (rule trusted_sources_bypassed [where g = sim_global, THEN conjunct1])
    (simp_all add: sim_load_env_def sim_loader_def sim_global_def DefaultWebhookGlobalConfig_def)

text \<open>(webhooks_all_or_none): a job gets one webhook for every name it selects, in the order of the names,
  or, when one of them cannot be made, none at all.\<close>

theorem webhooks_all_or_none:
  assumes "named m"
  shows "map (\<lambda>w. wh_Name (w_Config w)) (attached_webhooks (fst (attachJobWebhookMiddlewares env (Some m) perJob))) =
           filter (\<lambda>n. n \<noteq> []) (map TrimSpace (unionWebhookNames (GlobalWebhookNames m) perJob)) \<or>
         attached_webhooks (fst (attachJobWebhookMiddlewares env (Some m) perJob)) = [] \<and>
           (\<exists>err. fst (GetMiddlewares env (unionWebhookNames (GlobalWebhookNames m) perJob) m) = Inl err)"
proof -
  let ?ns = "unionWebhookNames (GlobalWebhookNames m) perJob"
  obtain r m' where "GetMiddlewares env ?ns m = (r, m')" by fastforce
  then show ?thesis
    using GetMiddlewares_names [OF assms, of env ?ns] by (cases r) (auto simp: attachJobWebhookMiddlewares_def Let_def)
qed

definition sim_manager :: webhook_manager where
  "sim_manager = \<lparr>wm_webhooks = [''ops'' \<mapsto> (sim_hook ''ops'' ''https://h'')\<lparr>wh_Preset := ''https://p''\<rparr>],
     wm_loader = sim_loader, wm_global = sim_global\<rparr>"

lemma sim_TrimSpace: "TrimSpace ''ops'' = ''ops''"
  using TrimSpace_id [of "CHR ''o''" "CHR ''s''" "''p''"] by (simp add: space_runes_def)

lemma sim_GetMiddlewares: "\<exists>ws m'. GetMiddlewares sim_load_env [''ops''] sim_manager = (Inr ws, m')"
  by (simp add: sim_TrimSpace sim_manager_def sim_hook_def with_defaults_def ApplyDefaults_def inherit_def DefaultWebhookConfig_def
      new_webhook_def wh_Validate_def Load_def sim_loader_def sim_global_def DefaultWebhookGlobalConfig_def HasPrefix_def
      loadFromURL_def remote_allowed_def fetch_preset_def sim_load_env_def ParsePreset_def sim_preset_def
      validatePresetVariables_def Let_def)

theorem webhooks_all_or_none_witness:
  "map (\<lambda>w. wh_Name (w_Config w)) (attached_webhooks (fst (attachJobWebhookMiddlewares sim_load_env (Some sim_manager) [''ops'']))) =
     [''ops'']"
proof -
  have "named sim_manager" by (simp add: named_def sim_manager_def sim_hook_def DefaultWebhookConfig_def)
  moreover have "unionWebhookNames (GlobalWebhookNames sim_manager) [''ops''] = [''ops'']"
    by (simp add: unionWebhookNames_def GlobalWebhookNames_def sim_manager_def sim_global_def DefaultWebhookGlobalConfig_def ParseWebhookNames_def)
  ultimately show ?thesis
    using webhooks_all_or_none [of sim_manager sim_load_env "[''ops'']"] sim_GetMiddlewares by (auto simp: sim_TrimSpace)
qed

text \<open>(url_only_webhook_never_settles): a webhook from labels that gives a URL but no preset is changed when it
  is attached to a job, as the default preset is written into it. The next synchronisation with the very
  same labels then reports a change again, so all middlewares are rebuilt on every event of a container.\<close>

theorem url_only_webhook_never_settles:
  assumes "distinct (map fst (wc_Webhooks p))" "map_of (wc_Webhooks p) name = Some wh" "wh_Preset wh = []"
    "DefaultPreset l \<noteq> []" "name \<notin> wc_iniWebhookNames c" "map_of (wc_Webhooks c) name = Some (with_defaults l wh)"
  shows "fst (applyWebhookChanges p c)"
proof -
  have "webhookConfigChanged (with_defaults l wh) wh"
    using assms(3,4) by (simp add: webhookConfigChanged_def with_defaults_def ApplyDefaults_def Let_def)
  then have "sync_spec (wc_iniWebhookNames c) (map_of (wc_Webhooks p)) (map_of (wc_Webhooks c)) name \<noteq> map_of (wc_Webhooks c) name"
    using assms changed_irrefl by (auto simp: sync_spec_def)
  then show ?thesis using applyWebhookChanges_map [OF assms(1), of c] by metis
qed

theorem url_only_webhook_never_settles_witness:
  "fst (applyWebhookChanges (sim_hooks [(''ops'', sim_hook ''ops'' ''https://h'')] {})
     (sim_hooks [(''ops'', with_defaults sim_loader (sim_hook ''ops'' ''https://h''))] {}))"
  by (rule url_only_webhook_never_settles [where name = "''ops''" and wh = "sim_hook ''ops'' ''https://h''" and l = sim_loader])
    (simp_all add: sim_hooks_def sim_hook_def DefaultWebhookConfig_def sim_loader_def DefaultPreset_def EffectiveDefaultPreset_def
      sim_global_def DefaultWebhookGlobalConfig_def DefaultPresetName_def)

end
