(* ===== verification/Notify.thy ===== *)
theory Notify
  imports Execution PresetLoader
begin

text \<open>
  Notifications about executions: the deduplicator (\<^verbatim>\<open>src/middlewares/dedup.go\<close>), the Slack, mail, save and
  webhook middlewares (\<^verbatim>\<open>slack.go\<close>, \<^verbatim>\<open>mail.go\<close>, \<^verbatim>\<open>save.go\<close>, \<^verbatim>\<open>webhook.go\<close>), and how they are attached
  to a job (\<^verbatim>\<open>src/cli/config.go\<close>). They are middlewares of the theory \<open>Execution\<close>; their world holds the
  entries of the one deduplicator that all of them share and the list of delivery attempts with their
  outcome. The outcome of a delivery (HTTP, SMTP, file system), its duration and the hash function are
  arguments. Whether a configuration has a deduplicator is a flag beside it.
\<close>

section \<open>The deduplicator\<close>

definition generateKey :: "(string \<Rightarrow> string) \<Rightarrow> string \<Rightarrow> string \<Rightarrow> execution \<Rightarrow> string" where
  "generateKey hash name command e =
     hash (name @ command @ (case e_Error e of None \<Rightarrow> [] | Some err \<Rightarrow> err_msg err))"

text \<open>The decision for a key, and \<^verbatim>\<open>ShouldNotify\<close>.\<close>

definition dedup_key :: "duration \<Rightarrow> time \<Rightarrow> string \<Rightarrow> (string \<rightharpoonup> time) \<Rightarrow> bool \<times> (string \<rightharpoonup> time)" where
  "dedup_key cooldown now key entries =
     (case entries key of
        None \<Rightarrow> (True, entries(key \<mapsto> now))
      | Some lastNotified \<Rightarrow>
          if now - lastNotified \<ge> cooldown then (True, entries(key \<mapsto> now)) else (False, entries))"

definition dedup_ShouldNotify ::
  "duration \<Rightarrow> (string \<Rightarrow> string) \<Rightarrow> string \<Rightarrow> string \<Rightarrow> time \<Rightarrow> execution \<Rightarrow> (string \<rightharpoonup> time) \<Rightarrow> bool \<times> (string \<rightharpoonup> time)" where
  "dedup_ShouldNotify cooldown hash name command now e entries =
     (if cooldown = 0 then (True, entries)
      else if \<not> e_Failed e then (True, entries)
      else dedup_key cooldown now (generateKey hash name command e) entries)"

definition dedup_Cleanup :: "duration \<Rightarrow> time \<Rightarrow> (string \<rightharpoonup> time) \<Rightarrow> (string \<rightharpoonup> time)" where
  "dedup_Cleanup cooldown now entries =
     (\<lambda>key. case entries key of None \<Rightarrow> None | Some t \<Rightarrow> if now - t \<ge> cooldown then None else Some t)"

section \<open>Deliveries\<close>

datatype channel = ChSlack | ChMail | ChSave | ChWebhook string

record notify_world =
  nw_entries :: "string \<rightharpoonup> time"
  nw_attempts :: "(channel \<times> bool) list"

record notify_env =
  ne_hash :: "string \<Rightarrow> string"
  ne_cooldown :: duration
  ne_name :: string
  ne_command :: string
  ne_slack :: "string \<Rightarrow> bool"
  ne_mail :: "MailConfig \<Rightarrow> bool"
  ne_save :: "SaveConfig \<Rightarrow> bool"
  ne_send :: "WebhookConfig \<Rightarrow> nat \<Rightarrow> result"
  ne_done :: "WebhookConfig \<Rightarrow> nat \<Rightarrow> result"
  ne_time :: "channel \<Rightarrow> duration"

definition boolVal :: "bool option \<Rightarrow> bool" where
  "boolVal b = (case b of None \<Rightarrow> False | Some v \<Rightarrow> v)"

definition deliver :: "notify_env \<Rightarrow> channel \<Rightarrow> bool \<Rightarrow> notify_world run \<Rightarrow> notify_world \<times> time" where
  "deliver env ch ok r =
     ((r_world r)\<lparr>nw_attempts := nw_attempts (r_world r) @ [(ch, ok)]\<rparr>, r_now r + ne_time env ch)"

text \<open>A delivery behind the deduplicator: \<open>dedup\<close> says whether the configuration has one.\<close>

definition deduped :: "notify_env \<Rightarrow> bool \<Rightarrow> (notify_world run \<Rightarrow> notify_world \<times> time) \<Rightarrow> notify_world run \<Rightarrow> notify_world \<times> time" where
  "deduped env dedup send r =
     (if dedup \<and> e_Failed (r_exec r)
      then (let (ok, entries) = dedup_ShouldNotify (ne_cooldown env) (ne_hash env) (ne_name env) (ne_command env) (r_now r)
                                  (r_exec r) (nw_entries (r_world r));
                r1 = r\<lparr>r_world := (r_world r)\<lparr>nw_entries := entries\<rparr>\<rparr>
            in if ok then send r1 else (r_world r1, r_now r1))
      else send r)"

definition reporter :: "string \<Rightarrow> (notify_world run \<Rightarrow> notify_world \<times> time) \<Rightarrow> notify_world middleware" where
  "reporter type eff =
     \<lparr>mw_type = type, mw_ContinueOnStop = True, mw_pre = (\<lambda>_. None), mw_stops = True, mw_effect = eff\<rparr>"

definition Slack :: "notify_env \<Rightarrow> bool \<Rightarrow> SlackConfig \<Rightarrow> notify_world middleware" where
  "Slack env dedup c = reporter ''*middlewares.Slack''
     (\<lambda>r. if e_Failed (r_exec r) \<or> \<not> boolVal (SlackOnlyOnError c)
          then deduped env dedup (deliver env ChSlack (ne_slack env (SlackWebhook c))) r
          else (r_world r, r_now r))"

definition Mail :: "notify_env \<Rightarrow> bool \<Rightarrow> MailConfig \<Rightarrow> notify_world middleware" where
  "Mail env dedup c = reporter ''*middlewares.Mail''
     (\<lambda>r. if \<not> (e_Failed (r_exec r) \<or> \<not> boolVal (MailOnlyOnError c)) then (r_world r, r_now r)
          else deduped env dedup (deliver env ChMail (ne_mail env c)) r)"

definition Save :: "notify_env \<Rightarrow> SaveConfig \<Rightarrow> notify_world middleware" where
  "Save env c = reporter ''*middlewares.Save''
     (\<lambda>r. if e_Failed (r_exec r) \<or> \<not> boolVal (SaveOnlyOnError c)
          then deliver env ChSave (ne_save env c) r else (r_world r, r_now r))"

text \<open>\<^verbatim>\<open>IsEmpty\<close> compares all fields, also the deduplicator, with the zero value.\<close>

definition IsEmpty_Slack :: "bool \<Rightarrow> SlackConfig \<Rightarrow> bool" where
  "IsEmpty_Slack dedup c \<longleftrightarrow> \<not> dedup \<and> c = \<lparr>SlackWebhook = [], SlackOnlyOnError = None\<rparr>"

definition empty_MailConfig :: MailConfig where
  "empty_MailConfig = \<lparr>SMTPHost = [], SMTPPort = 0, SMTPUser = [], SMTPPassword = [], SMTPTLSSkipVerify = False,
     SMTPTLSPolicy = [], EmailTo = [], EmailFrom = [], EmailSubject = [], MailOnlyOnError = None\<rparr>"

definition IsEmpty_Mail :: "bool \<Rightarrow> MailConfig \<Rightarrow> bool" where
  "IsEmpty_Mail dedup c \<longleftrightarrow> \<not> dedup \<and> c = empty_MailConfig"

definition IsEmpty_Save :: "SaveConfig \<Rightarrow> bool" where
  "IsEmpty_Save c \<longleftrightarrow>
     c = \<lparr>SaveFolder = [], SaveOnlyOnError = None, RestoreHistory = None, RestoreHistoryMaxAge = 0\<rparr>"

definition NewSlack :: "notify_env \<Rightarrow> bool \<Rightarrow> SlackConfig \<Rightarrow> notify_world middleware option" where
  "NewSlack env dedup c = (if IsEmpty_Slack dedup c then None else Some (Slack env dedup c))"

definition NewMail :: "notify_env \<Rightarrow> bool \<Rightarrow> MailConfig \<Rightarrow> notify_world middleware option" where
  "NewMail env dedup c = (if IsEmpty_Mail dedup c then None else Some (Mail env dedup c))"

definition NewSave :: "notify_env \<Rightarrow> SaveConfig \<Rightarrow> notify_world middleware option" where
  "NewSave env c = (if IsEmpty_Save c then None else Some (Save env c))"

section \<open>Webhooks\<close>

text \<open>The loop of \<^verbatim>\<open>sendWithRetry\<close> from attempt \<open>k\<close> with \<open>n\<close> attempts left; \<open>ne_done\<close> is the error of the
  run context when it ends during the wait before an attempt. The second component is the number of
  requests sent.\<close>

primrec send_loop :: "notify_env \<Rightarrow> WebhookConfig \<Rightarrow> nat \<Rightarrow> nat \<Rightarrow> result \<Rightarrow> result \<times> nat" where
  "send_loop env c 0 k lastErr =
     (Some (Errorf ([Lit ''all '', Num (wh_RetryCount c + 1), Lit '' attempts failed, last error: ''] @
        (case lastErr of None \<Rightarrow> [] | Some e \<Rightarrow> [Wrap e]))), 0)"
| "send_loop env c (Suc n) k lastErr =
     (case (if 0 < k then ne_done env c k else None) of
        Some err \<Rightarrow> (Some (Errorf [Lit ''webhook '', Quoted (wh_Name c), Lit '' retry interrupted: '', Wrap err]), 0)
      | None \<Rightarrow>
          (case ne_send env c k of
             Some err \<Rightarrow> (let (r, m) = send_loop env c n (Suc k) (Some err) in (r, Suc m))
           | None \<Rightarrow> (None, 1)))"

definition sendWithRetry :: "notify_env \<Rightarrow> WebhookConfig \<Rightarrow> result \<times> nat" where
  "sendWithRetry env c = send_loop env c (nat (wh_RetryCount c + 1)) 0 None"

definition webhook_effect :: "notify_env \<Rightarrow> bool \<Rightarrow> WebhookConfig \<Rightarrow> notify_world run \<Rightarrow> notify_world \<times> time" where
  "webhook_effect env dedup c r =
     (if \<not> ShouldNotify c (e_Failed (r_exec r)) (e_Skipped (r_exec r)) then (r_world r, r_now r)
      else deduped env dedup (deliver env (ChWebhook (wh_Name c)) (fst (sendWithRetry env c) = None)) r)"

definition Webhook :: "notify_env \<Rightarrow> bool \<Rightarrow> WebhookConfig \<Rightarrow> notify_world middleware" where
  "Webhook env dedup c = reporter ''*middlewares.Webhook'' (webhook_effect env dedup c)"

text \<open>The composite runs the webhooks one after the other; it is the last middleware of the chain, so the
  call of \<^verbatim>\<open>ctx.Next\<close> by each of them finds nothing left to run.\<close>

primrec webhook_effects :: "notify_env \<Rightarrow> bool \<Rightarrow> WebhookConfig list \<Rightarrow> notify_world run \<Rightarrow> notify_world \<times> time" where
  "webhook_effects env dedup [] r = (r_world r, r_now r)"
| "webhook_effects env dedup (c # cs) r =
     (let (w, t) = webhook_effect env dedup c r in webhook_effects env dedup cs (r\<lparr>r_world := w, r_now := t\<rparr>))"

definition WebhookMiddleware :: "notify_env \<Rightarrow> bool \<Rightarrow> WebhookConfig list \<Rightarrow> notify_world middleware" where
  "WebhookMiddleware env dedup cs = reporter ''*middlewares.WebhookMiddleware'' (webhook_effects env dedup cs)"

text \<open>No loader of configurations gives a webhook a deduplicator.\<close>

primrec webhook_middleware :: "notify_env \<Rightarrow> attached \<Rightarrow> notify_world middleware option" where
  "webhook_middleware env NoWebhook = None"
| "webhook_middleware env (OneWebhook w) = Some (Webhook env False (w_Config w))"
| "webhook_middleware env (Composite ws) = Some (WebhookMiddleware env False (map w_Config ws))"

text \<open>\<^verbatim>\<open>buildJobMiddlewares\<close>; the deduplicator was given to the configurations by \<^verbatim>\<open>injectDedup\<close>.\<close>

definition buildJobMiddlewares ::
  "notify_env \<Rightarrow> bool \<Rightarrow> bool \<Rightarrow> SlackConfig \<Rightarrow> SaveConfig \<Rightarrow> MailConfig \<Rightarrow> attached \<Rightarrow> notify_world container" where
  "buildJobMiddlewares env dedup noOverlap slack save mail webhooks =
     Use [NewOverlap noOverlap, NewSlack env dedup slack, NewSave env save, NewMail env dedup mail,
          webhook_middleware env webhooks] empty_container"

text \<open>\<^verbatim>\<open>initNotificationDedup\<close>: deduplication is on when the cooldown is positive.\<close>

definition initNotificationDedup :: "globals \<Rightarrow> bool" where
  "initNotificationDedup g \<longleftrightarrow> \<not> g_NotificationCooldown g \<le> 0"

section \<open>Effects of a chain\<close>

definition apply_effect :: "'w middleware \<Rightarrow> 'w run \<Rightarrow> 'w run" where
  "apply_effect m r = (let (w, t) = mw_effect m r in r\<lparr>r_world := w, r_now := t\<rparr>)"

lemma apply_effect_exec [simp]: "r_exec (apply_effect m r) = r_exec r"
  by (simp add: apply_effect_def Let_def split: prod.splits)

lemma after_stopped:
  "\<not> c_IsRunning c \<Longrightarrow> mw_after m err c = c\<lparr>c_run := apply_effect m (c_run c)\<rparr>"
  by (simp add: mw_after_def apply_effect_def c_IsRunning_def c_Stop_def ctx_Stop_idle Let_def split: prod.splits)

text \<open>When no middleware stops the execution beforehand, the job runs first and the effects follow from the
  last middleware to the first, on the stopped execution.\<close>

lemma chain_effects:
  assumes "never_stops (c_middlewares c)" "c_IsRunning c" "job (c_run c) = (Return err, w, t)"
  shows "c_run (snd (Next job c)) =
     foldr apply_effect (drop (c_current c) (c_middlewares c)) (ctx_Stop (job_error err) ((c_run c)\<lparr>r_world := w, r_now := t\<rparr>))"
  using assms
proof (induction "length (c_middlewares c) - c_current c" arbitrary: c)
  case 0
  then have "doNext job c = run_job job c" by (simp add: doNext_job)
  moreover have "run_job job c = (Return (job_error err), c\<lparr>c_executed := True, c_run := (c_run c)\<lparr>r_world := w, r_now := t\<rparr>\<rparr>)"
    using 0(4) by (cases err) (simp_all add: run_job_def job_error_def)
  ultimately show ?case using 0(1) by (subst Next.simps) (simp add: c_Stop_def)
next
  case (Suc n)
  let ?m = "c_middlewares c ! c_current c" and ?c1 = "c\<lparr>c_current := Suc (c_current c)\<rparr>"
  have i: "c_current c < length (c_middlewares c)" using Suc(2) by simp
  have b: "mw_before ?m ?c1 = ?c1" using Suc(3) i by (simp add: mw_before_def never_stops_def)
  have ih: "c_run (snd (Next job ?c1)) = foldr apply_effect (drop (Suc (c_current c)) (c_middlewares c))
      (ctx_Stop (job_error err) ((c_run c)\<lparr>r_world := w, r_now := t\<rparr>))"
    using Suc(1) [of ?c1] Suc(2-5) by (simp add: c_IsRunning_def)
  have "fst (Next job ?c1) = Return None"
    using passive_chain(1) [of "c_middlewares c" ?c1 job err w t] Suc(3-5) by (simp add: c_IsRunning_def)
  then obtain c2 where n: "Next job ?c1 = (Return None, c2)" by (metis prod.collapse)
  have "\<not> c_IsRunning c2" using chain_settles(1) [of job ?c1] n by (simp add: settled_def)
  then have "doNext job c = (Return None, c2\<lparr>c_run := apply_effect ?m (c_run c2)\<rparr>)"
    using i Suc(4) b n by (simp add: doNext_mw after_stopped)
  moreover have "c_Stop None (c2\<lparr>c_run := apply_effect ?m (c_run c2)\<rparr>) = c2\<lparr>c_run := apply_effect ?m (c_run c2)\<rparr>"
    using \<open>\<not> c_IsRunning c2\<close> by (simp add: c_Stop_def ctx_Stop_idle c_IsRunning_def)
  ultimately have "c_run (snd (Next job c)) = apply_effect ?m (c_run c2)" by (subst Next.simps) simp
  then show ?case using ih n i by (simp add: Cons_nth_drop_Suc [symmetric])
qed

section \<open>Deduplication against a reference\<close>

datatype dedup_event = FailedRun time string | CleanupTick time

primrec event_time :: "dedup_event \<Rightarrow> time" where
  "event_time (FailedRun t k) = t"
| "event_time (CleanupTick t) = t"

fun dedup_run :: "duration \<Rightarrow> (string \<rightharpoonup> time) \<Rightarrow> dedup_event list \<Rightarrow> bool list" where
  "dedup_run cooldown entries [] = []"
| "dedup_run cooldown entries (FailedRun now key # es) =
     (let (ok, entries') = dedup_key cooldown now key entries in ok # dedup_run cooldown entries' es)"
| "dedup_run cooldown entries (CleanupTick now # es) = dedup_run cooldown (dedup_Cleanup cooldown now entries) es"

text \<open>The reference remembers every notification that was sent and forgets nothing.\<close>

fun dedup_ref :: "duration \<Rightarrow> (string \<times> time) list \<Rightarrow> dedup_event list \<Rightarrow> bool list" where
  "dedup_ref cooldown sent [] = []"
| "dedup_ref cooldown sent (FailedRun now key # es) =
     (let ok = list_all (\<lambda>(k, t). k = key \<longrightarrow> now - t \<ge> cooldown) sent
      in ok # dedup_ref cooldown (if ok then (key, now) # sent else sent) es)"
| "dedup_ref cooldown sent (CleanupTick now # es) = dedup_ref cooldown sent es"

definition dedup_rel :: "duration \<Rightarrow> time \<Rightarrow> (string \<rightharpoonup> time) \<Rightarrow> (string \<times> time) list \<Rightarrow> bool" where
  [inv_defs]: "dedup_rel cooldown T m sent \<longleftrightarrow>
     (\<forall>k t. (k, t) \<in> set sent \<longrightarrow> t \<le> T \<and> (case m k of Some l \<Rightarrow> t \<le> l | None \<Rightarrow> cooldown \<le> T - t)) \<and>
     (\<forall>k l. m k = Some l \<longrightarrow> (k, l) \<in> set sent)"

lemma dedup_rel_sent:
  assumes "dedup_rel cooldown T m sent" "(k, t) \<in> set sent"
  shows "t \<le> T" "m k = Some l \<Longrightarrow> t \<le> l" "m k = None \<Longrightarrow> cooldown \<le> T - t"
proof -
  have "t \<le> T \<and> (case m k of Some l \<Rightarrow> t \<le> l | None \<Rightarrow> cooldown \<le> T - t)"
    using assms unfolding dedup_rel_def by blast
  then show "t \<le> T" "m k = Some l \<Longrightarrow> t \<le> l" "m k = None \<Longrightarrow> cooldown \<le> T - t" by auto
qed

lemma dedup_rel_entry: "dedup_rel cooldown T m sent \<Longrightarrow> m k = Some l \<Longrightarrow> (k, l) \<in> set sent"
  unfolding dedup_rel_def by blast

lemma dedup_rel_decision:
  assumes rel: "dedup_rel cooldown T m sent" and "T \<le> now"
  shows "fst (dedup_key cooldown now key m) \<longleftrightarrow> list_all (\<lambda>(k, t). k = key \<longrightarrow> now - t \<ge> cooldown) sent"
proof (cases "m key")
  case None
  then have "cooldown \<le> now - t" if "(key, t) \<in> set sent" for t
    using dedup_rel_sent(3) [OF rel that None] assms(2) by linarith
  then have "list_all (\<lambda>(k, t). k = key \<longrightarrow> now - t \<ge> cooldown) sent" unfolding list_all_iff by blast
  with None show ?thesis by (simp add: dedup_key_def)
next
  case (Some l)
  have "cooldown \<le> now - t" if "(key, t) \<in> set sent" "cooldown \<le> now - l" for t
    using dedup_rel_sent(2) [OF rel that(1) Some] that(2) by linarith
  with Some dedup_rel_entry [OF rel Some] show ?thesis by (auto simp: dedup_key_def list_all_iff)
qed

lemma dedup_relI:
  assumes "\<And>k t. (k, t) \<in> set sent \<Longrightarrow> t \<le> T"
    "\<And>k t l. (k, t) \<in> set sent \<Longrightarrow> m k = Some l \<Longrightarrow> t \<le> l"
    "\<And>k t. (k, t) \<in> set sent \<Longrightarrow> m k = None \<Longrightarrow> cooldown \<le> T - t"
    "\<And>k l. m k = Some l \<Longrightarrow> (k, l) \<in> set sent"
  shows "dedup_rel cooldown T m sent"
  unfolding dedup_rel_def using assms by (auto split: option.split)

lemma dedup_rel_later: "dedup_rel cooldown T m sent \<Longrightarrow> T \<le> now \<Longrightarrow> dedup_rel cooldown now m sent"
  by (rule dedup_relI) (auto dest: dedup_rel_sent dedup_rel_entry)

lemma dedup_rel_notify:
  assumes rel: "dedup_rel cooldown T m sent" "T \<le> now" and d: "dedup_key cooldown now key m = (ok, m')"
  shows "dedup_rel cooldown now m' (if ok then (key, now) # sent else sent)"
proof (cases ok)
  case True
  then have m': "m' = m(key \<mapsto> now)" using d by (auto simp: dedup_key_def split: option.splits if_splits)
  note rel' = dedup_rel_later [OF rel]
  have "dedup_rel cooldown now m' ((key, now) # sent)"
    by (rule dedup_relI)
      (use rel' in \<open>auto simp: m' dest: dedup_rel_sent dedup_rel_entry split: if_splits\<close>)
  with True show ?thesis by simp
next
  case False
  then have "m' = m" using d by (auto simp: dedup_key_def split: option.splits if_splits)
  with False dedup_rel_later [OF rel] show ?thesis by simp
qed

lemma dedup_rel_cleanup:
  assumes "dedup_rel cooldown T m sent" "T \<le> now"
  shows "dedup_rel cooldown now (dedup_Cleanup cooldown now m) sent"
proof -
  note rel = dedup_rel_later [OF assms]
  show ?thesis
  proof (rule dedup_relI)
    fix k t assume s: "(k, t) \<in> set sent" and "dedup_Cleanup cooldown now m k = None"
    then show "cooldown \<le> now - t"
      using dedup_rel_sent(2,3) [OF rel s] by (force simp: dedup_Cleanup_def split: option.splits if_splits)
  qed (auto simp: dedup_Cleanup_def split: option.splits if_splits dest: dedup_rel_sent [OF rel] dedup_rel_entry [OF rel])
qed

lemma dedup_run_ref:
  "dedup_rel cooldown T m sent \<Longrightarrow> sorted (T # map event_time es) \<Longrightarrow> dedup_run cooldown m es = dedup_ref cooldown sent es"
proof (induction es arbitrary: T m sent)
  case (Cons e es)
  show ?case
  proof (cases e)
    case (FailedRun now key)
    obtain ok m' where d: "dedup_key cooldown now key m = (ok, m')" by fastforce
    have "T \<le> now" using Cons.prems(2) FailedRun by simp
    note dec = dedup_rel_decision [OF Cons.prems(1) this, of key] and rel = dedup_rel_notify [OF Cons.prems(1) this d]
    have "dedup_run cooldown m' es = dedup_ref cooldown (if ok then (key, now) # sent else sent) es"
      using Cons.prems(2) FailedRun by (intro Cons.IH [OF rel]) auto
    then show ?thesis using dec d FailedRun by (simp add: Let_def)
  next
    case (CleanupTick now)
    have "dedup_rel cooldown now (dedup_Cleanup cooldown now m) sent"
      using Cons.prems CleanupTick by (intro dedup_rel_cleanup [of _ T]) auto
    then show ?thesis using Cons.IH [of now] Cons.prems(2) CleanupTick by simp
  qed
qed simp

section \<open>The channels of a failed job\<close>

lemma webhook_effects_attempts:
  "nw_attempts (fst (webhook_effects env False cs r)) =
     nw_attempts (r_world r) @ map (\<lambda>c. (ChWebhook (wh_Name c), fst (sendWithRetry env c) = None))
       (filter (\<lambda>c. ShouldNotify c (e_Failed (r_exec r)) (e_Skipped (r_exec r))) cs)"
proof (induction cs arbitrary: r)
  case (Cons c cs)
  obtain w t where e: "webhook_effect env False c r = (w, t)" by fastforce
  then have "nw_attempts w = nw_attempts (r_world r) @ (if ShouldNotify c (e_Failed (r_exec r)) (e_Skipped (r_exec r))
      then [(ChWebhook (wh_Name c), fst (sendWithRetry env c) = None)] else [])"
    by (auto simp: webhook_effect_def deduped_def deliver_def split: if_splits)
  then show ?case using Cons [of "r\<lparr>r_world := w, r_now := t\<rparr>"] e by simp
qed simp

text \<open>The attempts of one middleware on a failed execution without deduplication.\<close>

definition tries :: "notify_world middleware option \<Rightarrow> notify_world run \<Rightarrow> (channel \<times> bool) list \<Rightarrow> bool" where
  "tries m r as \<longleftrightarrow> (case m of None \<Rightarrow> as = []
     | Some m \<Rightarrow> nw_attempts (r_world (apply_effect m r)) = nw_attempts (r_world r) @ as)"

lemma tries_failed:
  assumes "e_Failed (r_exec r)"
  shows "tries (NewSlack env False slack) r
      (if IsEmpty_Slack False slack then [] else [(ChSlack, ne_slack env (SlackWebhook slack))])"
    and "tries (NewSave env save) r (if IsEmpty_Save save then [] else [(ChSave, ne_save env save)])"
    and "tries (NewMail env False mail) r (if IsEmpty_Mail False mail then [] else [(ChMail, ne_mail env mail)])"
    and "tries (webhook_middleware env ws) r
      (map (\<lambda>c. (ChWebhook (wh_Name c), fst (sendWithRetry env c) = None))
         (filter (\<lambda>c. ShouldNotify c True (e_Skipped (r_exec r))) (map w_Config (attached_webhooks ws))))"
  using assms webhook_effects_attempts [of env _ r]
  by (auto simp: tries_def NewSlack_def NewSave_def NewMail_def Slack_def Save_def Mail_def reporter_def apply_effect_def
      deduped_def deliver_def)
    (cases ws; simp add: Webhook_def WebhookMiddleware_def reporter_def apply_effect_def webhook_effect_def deduped_def deliver_def
      case_prod_beta split: if_splits)

definition apply_opt :: "'w middleware option \<Rightarrow> 'w run \<Rightarrow> 'w run" where
  "apply_opt m = (case m of None \<Rightarrow> id | Some m \<Rightarrow> apply_effect m)"

lemma apply_opt_exec [simp]: "r_exec (apply_opt m r) = r_exec r"
  by (cases m) (simp_all add: apply_opt_def)

lemma tries_apply: "tries m r as \<Longrightarrow> nw_attempts (r_world (apply_opt m r)) = nw_attempts (r_world r) @ as"
  by (cases m) (simp_all add: tries_def apply_opt_def)

lemma foldr_map_filter: "foldr apply_effect (List.map_filter id ms) r = foldr apply_opt ms r"
  by (induction ms) (auto simp: map_filter_simps apply_opt_def split: option.splits)

lemma job_chain:
  "Middlewares (buildJobMiddlewares env dedup False slack save mail ws) =
     List.map_filter id [NewSlack env dedup slack, NewSave env save, NewMail env dedup mail, webhook_middleware env ws]"
  by (cases ws)
    (simp_all add: buildJobMiddlewares_def NewOverlap_def NewSlack_def NewSave_def NewMail_def Slack_def Save_def Mail_def
      Webhook_def WebhookMiddleware_def reporter_def use_one_def empty_container_def Middlewares_def map_filter_simps)

lemma job_chain_passive: "never_stops (Middlewares (buildJobMiddlewares env dedup False slack save mail ws))"
  by (cases ws)
    (simp_all add: job_chain never_stops_def NewSlack_def NewSave_def NewMail_def Slack_def Save_def Mail_def
      Webhook_def WebhookMiddleware_def reporter_def map_filter_simps)

text \<open>One run of a job behind its middlewares.\<close>

lemma job_run_effects:
  assumes "e_IsRunning (r_exec r)" "job r = (Return err, w, t)"
  shows "c_run (snd (Next job (NewContext (buildJobMiddlewares env dedup False slack save mail ws) r))) =
     apply_opt (NewSlack env dedup slack) (apply_opt (NewSave env save) (apply_opt (NewMail env dedup mail)
       (apply_opt (webhook_middleware env ws) (ctx_Stop (job_error err) (r\<lparr>r_world := w, r_now := t\<rparr>)))))"
proof -
  let ?c = "NewContext (buildJobMiddlewares env dedup False slack save mail ws) r"
  have "c_run (snd (Next job ?c)) = foldr apply_effect (drop (c_current ?c) (c_middlewares ?c))
      (ctx_Stop (job_error err) ((c_run ?c)\<lparr>r_world := w, r_now := t\<rparr>))"
    by (rule chain_effects) (use assms in \<open>simp_all add: NewContext_def job_chain_passive c_IsRunning_def\<close>)
  then show ?thesis by (simp add: NewContext_def job_chain foldr_map_filter del: map_filter_simps)
qed

lemma failed_stop:
  assumes "e_IsRunning (r_exec r)" "\<not> e_Failed (r_exec r)" "\<not> e_Skipped (r_exec r)" "\<not> errors_Is e ErrSkippedExecution"
  shows "e_Failed (r_exec (ctx_Stop (job_error (Some e)) (r\<lparr>r_world := w, r_now := t\<rparr>)))"
    and "\<not> e_Skipped (r_exec (ctx_Stop (job_error (Some e)) (r\<lparr>r_world := w, r_now := t\<rparr>)))"
  using assms exec_Stop_status [OF assms(2,3), of t t "job_error (Some e)"] by (simp_all add: ctx_Stop_def)

lemma send_loop_count: "snd (send_loop env c n k l) \<le> n"
  by (induction n arbitrary: k l) (auto simp: Let_def case_prod_beta split: option.splits)

text \<open>The waits before the attempts \<open>k\<close> to \<open>k + i\<close> are not interrupted; there is none before attempt 0.\<close>

definition undisturbed :: "notify_env \<Rightarrow> WebhookConfig \<Rightarrow> nat \<Rightarrow> nat \<Rightarrow> bool" where
  "undisturbed env c k i \<longleftrightarrow> list_all (\<lambda>j. j = 0 \<or> ne_done env c j = None) [k..<Suc (k + i)]"

lemma undisturbed_0: "undisturbed env c k 0 \<longleftrightarrow> k = 0 \<or> ne_done env c k = None"
  by (simp add: undisturbed_def)

lemma undisturbed_Suc: "undisturbed env c k (Suc i) \<longleftrightarrow> (k = 0 \<or> ne_done env c k = None) \<and> undisturbed env c (Suc k) i"
proof -
  have "[k..<Suc (k + Suc i)] = k # [Suc k..<Suc (Suc k + i)]" by (simp add: upt_conv_Cons)
  then show ?thesis unfolding undisturbed_def by (simp only: list.pred_inject)
qed

lemma undisturbed_first: "undisturbed env c k i \<Longrightarrow> k = 0 \<or> ne_done env c k = None"
  by (cases i) (simp_all add: undisturbed_0 undisturbed_Suc)

lemma send_loop_ok:
  "fst (send_loop env c n k l) = None \<longleftrightarrow> (\<exists>i<n. ne_send env c (k + i) = None \<and> undisturbed env c k i)"
proof (induction n arbitrary: k l)
  case (Suc n)
  show ?case
  proof (cases "k = 0 \<or> ne_done env c k = None")
    case True
    have "fst (send_loop env c (Suc n) k l) = None \<longleftrightarrow>
        ne_send env c k = None \<or> (\<exists>i<n. ne_send env c (Suc k + i) = None \<and> undisturbed env c (Suc k) i)"
      using True Suc.IH by (cases "ne_send env c k") (auto simp: case_prod_beta Let_def)
    also have "\<dots> \<longleftrightarrow> (\<exists>i<Suc n. ne_send env c (k + i) = None \<and> undisturbed env c k i)"
      using True unfolding Ex_less_Suc2 by (simp add: undisturbed_0 undisturbed_Suc)
    finally show ?thesis .
  next
    case False
    then show ?thesis using undisturbed_first [of env c k] by (auto split: option.splits)
  qed
qed simp

section \<open>Properties\<close>

text \<open>(webhook_retry): a webhook is sent at most once more than its retry count, and counts as delivered exactly
  when an attempt within this number succeeds before the run context ends during one of the waits.\<close>

theorem webhook_retry:
  "snd (sendWithRetry env c) \<le> nat (wh_RetryCount c + 1) \<and>
   (fst (sendWithRetry env c) = None \<longleftrightarrow>
      (\<exists>k<nat (wh_RetryCount c + 1). ne_send env c k = None \<and> undisturbed env c 0 k))"
  using send_loop_ok [of env c "nat (wh_RetryCount c + 1)" 0 None] by (simp add: sendWithRetry_def send_loop_count)

text \<open>C34 (failure_reaches_every_channel): without deduplication, a failed run of a job is reported once on every
  channel that is configured, first by the webhooks whose trigger covers failures, in their order, then by
  mail, the save folder and Slack, and whether one delivery succeeds has no influence on the others.\<close>

theorem failure_reaches_every_channel:
  assumes "e_IsRunning (r_exec r)" "\<not> e_Failed (r_exec r)" "\<not> e_Skipped (r_exec r)"
    "job r = (Return (Some e), w, t)" "\<not> errors_Is e ErrSkippedExecution"
  shows "nw_attempts (r_world (c_run (snd (Next job (NewContext (buildJobMiddlewares env False False slack save mail ws) r))))) =
     nw_attempts w @
     map (\<lambda>c. (ChWebhook (wh_Name c), fst (sendWithRetry env c) = None))
       (filter (\<lambda>c. ShouldNotify c True False) (map w_Config (attached_webhooks ws))) @
     (if IsEmpty_Mail False mail then [] else [(ChMail, ne_mail env mail)]) @
     (if IsEmpty_Save save then [] else [(ChSave, ne_save env save)]) @
     (if IsEmpty_Slack False slack then [] else [(ChSlack, ne_slack env (SlackWebhook slack))])"
proof -
  let ?r = "ctx_Stop (job_error (Some e)) (r\<lparr>r_world := w, r_now := t\<rparr>)"
  note f = failed_stop [OF assms(1-3,5), where w = w and t = t]
  have "r_world ?r = w" by simp
  then show ?thesis
    using f tries_apply [OF tries_failed(4), of ?r env ws]
      tries_apply [OF tries_failed(3), of "apply_opt (webhook_middleware env ws) ?r" env mail]
      tries_apply [OF tries_failed(2), of "apply_opt (NewMail env False mail) (apply_opt (webhook_middleware env ws) ?r)" env save]
      tries_apply [OF tries_failed(1), of "apply_opt (NewSave env save) (apply_opt (NewMail env False mail)
        (apply_opt (webhook_middleware env ws) ?r))" env slack]
    unfolding job_run_effects [OF assms(1), of job, OF assms(4)] by simp
qed

definition sim_notify_env :: notify_env where
  "sim_notify_env = \<lparr>ne_hash = id, ne_cooldown = 60, ne_name = ''job'', ne_command = ''cmd'', ne_slack = (\<lambda>_. True),
     ne_mail = (\<lambda>c. SMTPHost c \<noteq> []), ne_save = (\<lambda>_. True), ne_send = (\<lambda>_ _. None), ne_done = (\<lambda>_ _. None), ne_time = (\<lambda>_. 1)\<rparr>"

definition sim_run :: "notify_world run" where
  "sim_run = \<lparr>r_exec = (new_execution ''id'' [] [])\<lparr>e_IsRunning := True\<rparr>, r_running = 1, r_now = 1000,
     r_world = \<lparr>nw_entries = Map.empty, nw_attempts = []\<rparr>\<rparr>"

definition sim_slack :: SlackConfig where
  "sim_slack = \<lparr>SlackWebhook = ''https://hooks'', SlackOnlyOnError = None\<rparr>"

definition sim_save :: SaveConfig where
  "sim_save = \<lparr>SaveFolder = [], SaveOnlyOnError = None, RestoreHistory = None, RestoreHistoryMaxAge = 0\<rparr>"

definition sim_body :: "notify_world body" where
  "sim_body r = (Return (Some (Opaque 1 ''boom'')), r_world r, r_now r)"

theorem failure_reaches_every_channel_witness:
  "nw_attempts (r_world (c_run (snd (Next sim_body (NewContext
     (buildJobMiddlewares sim_notify_env False False sim_slack sim_save empty_MailConfig NoWebhook) sim_run))))) = [(ChSlack, True)]"
  using failure_reaches_every_channel [of sim_run sim_body "Opaque 1 ''boom''" "r_world sim_run" 1000 sim_notify_env sim_slack
      sim_save empty_MailConfig NoWebhook]
  by (simp add: sim_run_def new_execution_def sim_body_def IsEmpty_Mail_def IsEmpty_Save_def IsEmpty_Slack_def sim_save_def
      sim_slack_def sim_notify_env_def)

text \<open>(cooldown_silences_slack): with a notification cooldown, a job that reports to Slack and has no mail settings
  reports a failure to nobody. The deduplicator makes the empty mail settings count as settings, the mail
  middleware runs first, takes the only notification of the cooldown and cannot deliver it, and Slack is
  suppressed as a duplicate.\<close>

theorem cooldown_silences_slack:
  assumes "e_IsRunning (r_exec r)" "\<not> e_Failed (r_exec r)" "\<not> e_Skipped (r_exec r)"
    "job r = (Return (Some e), w, t)" "\<not> errors_Is e ErrSkippedExecution"
    "nw_entries w = Map.empty" "0 < ne_cooldown env" "ne_time env ChMail < ne_cooldown env"
    "IsEmpty_Save save" "\<not> ne_mail env empty_MailConfig"
  shows "nw_attempts (r_world (c_run (snd (Next job (NewContext
           (buildJobMiddlewares env True False slack save empty_MailConfig NoWebhook) r))))) = nw_attempts w @ [(ChMail, False)]"
proof -
  let ?r = "ctx_Stop (job_error (Some e)) (r\<lparr>r_world := w, r_now := t\<rparr>)"
  note f = failed_stop [OF assms(1-3,5), where w = w and t = t]
  define k where "k = generateKey (ne_hash env) (ne_name env) (ne_command env) (r_exec ?r)"
  have "apply_opt (NewMail env True empty_MailConfig) ?r =
      ?r\<lparr>r_world := w\<lparr>nw_entries := [k \<mapsto> t], nw_attempts := nw_attempts w @ [(ChMail, False)]\<rparr>, r_now := t + ne_time env ChMail\<rparr>"
    using f assms(6,7,10)
    by (simp add: apply_opt_def NewMail_def IsEmpty_Mail_def Mail_def reporter_def apply_effect_def deduped_def deliver_def
        dedup_ShouldNotify_def dedup_key_def k_def)
  then show ?thesis
    using f assms(7-9) unfolding job_run_effects [OF assms(1), of job, OF assms(4)]
    by (simp add: apply_opt_def NewSave_def NewSlack_def IsEmpty_Slack_def Slack_def reporter_def apply_effect_def deduped_def
        dedup_ShouldNotify_def dedup_key_def k_def [symmetric])
qed

theorem cooldown_silences_slack_witness:
  "nw_attempts (r_world (c_run (snd (Next sim_body (NewContext
     (buildJobMiddlewares sim_notify_env True False sim_slack sim_save empty_MailConfig NoWebhook) sim_run))))) = [(ChMail, False)]"
  using cooldown_silences_slack [of sim_run sim_body "Opaque 1 ''boom''" "r_world sim_run" 1000 sim_notify_env sim_save sim_slack]
  by (simp add: sim_run_def new_execution_def sim_body_def IsEmpty_Save_def sim_save_def sim_notify_env_def empty_MailConfig_def)

text \<open>(dedup_reference): over any sequence of failures and clean-ups in the order of time, the deduplicator lets a
  notification pass exactly when no notification with the same key was sent within the cooldown.\<close>

theorem dedup_reference:
  assumes "sorted (map event_time es)"
  shows "dedup_run cooldown Map.empty es = dedup_ref cooldown [] es"
proof (cases es)
  case (Cons e es')
  have "dedup_rel cooldown (event_time e) Map.empty []" by (simp add: dedup_rel_def)
  then show ?thesis using assms Cons by (intro dedup_run_ref) auto
qed simp

theorem dedup_reference_witness:
  "dedup_run 10 Map.empty [FailedRun 0 ''a'', FailedRun 5 ''a'', FailedRun 6 ''b'', CleanupTick 9, FailedRun 10 ''a''] =
     [True, False, True, True]"
  using dedup_reference [of "[FailedRun 0 ''a'', FailedRun 5 ''a'', FailedRun 6 ''b'', CleanupTick 9, FailedRun 10 ''a'']" 10]
  by simp

end
