(* ===== verification/KeyNames.thy ===== *)
theory KeyNames
  imports Prelude
begin

text \<open>
  How the decoder of settings compares the key of an input with the name of a field
  (\<^verbatim>\<open>caseInsensitiveMatch\<close> and \<^verbatim>\<open>normalizeKey\<close> of \<^verbatim>\<open>src/cli/config_decode.go\<close>): without regard to case, dashes and
  underscores.
\<close>

section \<open>Comparing keys\<close>

text \<open>\<^verbatim>\<open>strings.EqualFold\<close>; letters outside ASCII are compared as they are.\<close>

definition EqualFold :: "string \<Rightarrow> string \<Rightarrow> bool" where
  "EqualFold s t \<longleftrightarrow> ToLower s = ToLower t"

definition normalizeKey :: "string \<Rightarrow> string" where
  "normalizeKey key = ReplaceAll (ReplaceAll (ToLower key) ''-'' []) ''_'' []"

definition caseInsensitiveMatch :: "string \<Rightarrow> string \<Rightarrow> bool" where
  "caseInsensitiveMatch mapKey fieldName \<longleftrightarrow> EqualFold (normalizeKey mapKey) (normalizeKey fieldName)"

section \<open>Facts\<close>

lemma toLower_idem [simp]: "toLower (toLower c) = toLower c"
  by (auto simp: toLower_def)

lemma ToLower_idem [simp]: "ToLower (ToLower s) = ToLower s"
  by (simp add: ToLower_def)

lemma of_toLower: "(of_char (toLower c) :: nat) = (if of_char c \<in> {65..90::nat} then of_char c + 32 else of_char c)"
  by (auto simp: toLower_def)

lemma toLower_sep [simp]: "toLower c = CHR ''-'' \<longleftrightarrow> c = CHR ''-''" "toLower c = CHR ''_'' \<longleftrightarrow> c = CHR ''_''"
proof -
  have iff: "a = b \<longleftrightarrow> (of_char a :: nat) = of_char b" for a b :: char by simp
  have "(of_char (CHR ''-'') :: nat) = 45" "(of_char (CHR ''_'') :: nat) = 95" by simp_all
  then show "toLower c = CHR ''-'' \<longleftrightarrow> c = CHR ''-''" "toLower c = CHR ''_'' \<longleftrightarrow> c = CHR ''_''"
    unfolding iff [of "toLower c"] iff [of c] of_toLower by auto
qed

lemma normalizeKey_filter: "normalizeKey key = filter (\<lambda>c. c \<noteq> CHR ''_'' \<and> c \<noteq> CHR ''-'') (ToLower key)"
  by (simp add: normalizeKey_def ReplaceAll_delete conj_commute)

lemma match_normal: "caseInsensitiveMatch k f \<longleftrightarrow> normalizeKey k = normalizeKey f"
proof -
  have "ToLower (normalizeKey s) = normalizeKey s" for s
    by (induction s) (auto simp: normalizeKey_filter ToLower_def)
  then show ?thesis by (simp add: caseInsensitiveMatch_def EqualFold_def)
qed

lemma match_first:
  "caseInsensitiveMatch (c # k) (d # f) \<Longrightarrow> c \<noteq> CHR ''-'' \<Longrightarrow> c \<noteq> CHR ''_'' \<Longrightarrow> d \<noteq> CHR ''-'' \<Longrightarrow> d \<noteq> CHR ''_'' \<Longrightarrow>
   toLower c = toLower d"
  by (simp add: match_normal normalizeKey_filter ToLower_def)

end
