(* ===== verification/DockerLabels.thy ===== *)
theory DockerLabels
  imports Webhooks KeyNames "HOL-Library.Product_Lexorder" "HOL-Library.List_Lexorder" "HOL-Library.Char_ord"
begin

text \<open>
  Settings and jobs from container labels (\<^verbatim>\<open>src/cli/docker-labels.go\<close>): which labels are taken from
  which container, and the maps of raw job parameters they give. The labels of a container are a Go map,
  hence an association list, in any order. The JSON decoder for array parameters and the decoder of the
  raw maps into job configurations (\<^verbatim>\<open>mapstructure\<close>) are arguments; a decoder gives what it could decode
  and an error.
\<close>

section \<open>Containers\<close>

record container_info =
  ci_Name :: string
  ci_Created :: time
  ci_Running :: bool
  ci_Labels :: "(string \<times> string) list"

definition globalLabelAllowList :: "string list" where
  "globalLabelAllowList =
     [''log-level'', ''max-runtime'', ''notification-cooldown'', ''enable-strict-validation'',
      ''slack-webhook'', ''slack-only-on-error'',
      ''smtp-host'', ''smtp-port'', ''smtp-user'', ''smtp-password'', ''smtp-tls-skip-verify'', ''smtp-tls-policy'',
      ''email-to'', ''email-from'', ''email-subject'', ''mail-only-on-error'',
      ''save-only-on-error'', ''restore-history'', ''restore-history-max-age'',
      ''webhook-webhooks'', ''webhook-preset-cache-ttl'', ''webhook-default-preset'', ''webhooks'']"

definition hasServiceLabel :: "(string \<times> string) list \<Rightarrow> bool" where
  "hasServiceLabel labels = list_ex (\<lambda>(k, v). k = ''ofelia.service'' \<and> v = ''true'') labels"

definition getJobPrefix :: "(string \<times> string) list \<Rightarrow> string \<Rightarrow> string" where
  "getJobPrefix labels containerName =
     (case map_of labels ''com.docker.compose.service'' of
        Some serviceName \<Rightarrow> if serviceName \<noteq> [] then serviceName else containerName
      | None \<Rightarrow> containerName)"

definition sortContainers :: "container_info list \<Rightarrow> container_info list" where
  "sortContainers containers = sort_key (\<lambda>c. (\<not> ci_Running c, - ci_Created c, ci_Name c)) containers"

section \<open>Which jobs a container may define\<close>

definition checkJobTypeAllowedOnServiceContainer :: "string \<Rightarrow> bool \<Rightarrow> bool" where
  "checkJobTypeAllowedOnServiceContainer jobType isService =
     (if isService then True
      else if jobType \<in> {''job-local'', ''job-service-run''} then False
      else if jobType \<in> {''job-run'', ''job-exec'', ''job-compose''} then True
      else False)"

definition checkJobTypeAllowedOnStoppedContainer :: "string \<Rightarrow> bool \<Rightarrow> bool" where
  "checkJobTypeAllowedOnStoppedContainer jobType isRunning =
     (if isRunning then True
      else if jobType = ''job-run'' then True
      else False)"

definition canRunJobOnContainer :: "string \<Rightarrow> bool \<Rightarrow> bool \<Rightarrow> bool" where
  "canRunJobOnContainer jobType isRunning isService =
     (checkJobTypeAllowedOnServiceContainer jobType isService \<and> checkJobTypeAllowedOnStoppedContainer jobType isRunning)"

section \<open>Raw jobs\<close>

datatype param_value = PStr string | PArr "string list"

type_synonym job_params = "string \<rightharpoonup> param_value"
type_synonym job_map = "string \<rightharpoonup> job_params"

definition setJobParam :: "(string \<Rightarrow> string list option) \<Rightarrow> string \<Rightarrow> string \<Rightarrow> job_params \<Rightarrow> job_params" where
  "setJobParam json_arr paramName paramVal params =
     (if ToLower paramName \<in> set [''volume'', ''environment'', ''volumes-from'', ''depends-on'', ''on-success'', ''on-failure'',
           ''env-file'', ''env-from'']
      then (case json_arr paramVal of
              Some arr \<Rightarrow> params(paramName \<mapsto> PArr arr)
            | None \<Rightarrow> params(paramName \<mapsto> PStr paramVal))
      else params(paramName \<mapsto> PStr paramVal))"

text \<open>\<^verbatim>\<open>ensureJob\<close> followed by \<^verbatim>\<open>setJobParam\<close> on the job of that name.\<close>

definition set_param :: "(string \<Rightarrow> string list option) \<Rightarrow> string \<Rightarrow> string \<Rightarrow> string \<Rightarrow> job_map \<Rightarrow> job_map" where
  "set_param json_arr name param val m =
     m(name \<mapsto> setJobParam json_arr param val (case m name of None \<Rightarrow> Map.empty | Some p \<Rightarrow> p))"

definition mergeJobMaps :: "('k \<rightharpoonup> 'v) \<Rightarrow> ('k \<rightharpoonup> 'v) \<Rightarrow> bool \<Rightarrow> ('k \<rightharpoonup> 'v)" where
  "mergeJobMaps left right useRightIfExists =
     (\<lambda>k. case right k of
            None \<Rightarrow> left k
          | Some v \<Rightarrow> if left k = None \<or> useRightIfExists then Some v else left k)"

definition addContainerNameToJobsIfNeeded :: "string \<Rightarrow> job_map \<Rightarrow> job_map" where
  "addContainerNameToJobsIfNeeded containerName jobs =
     (\<lambda>n. case jobs n of
            None \<Rightarrow> None
          | Some job \<Rightarrow>
              if job ''image'' \<noteq> None then Some job
              else if job ''container'' = None then Some (job(''container'' \<mapsto> PStr containerName)) else Some job)"

section \<open>Labels into maps\<close>

record label_maps =
  lm_exec :: job_map
  lm_local :: job_map
  lm_run :: job_map
  lm_service :: job_map
  lm_compose :: job_map
  lm_globals :: "string \<rightharpoonup> string"
  lm_webhooks :: "string \<rightharpoonup> (string \<rightharpoonup> string)"

definition empty_maps :: label_maps where
  "empty_maps = \<lparr>lm_exec = Map.empty, lm_local = Map.empty, lm_run = Map.empty, lm_service = Map.empty,
     lm_compose = Map.empty, lm_globals = Map.empty, lm_webhooks = Map.empty\<rparr>"

definition filterGlobalLabelKey :: "string \<Rightarrow> string \<Rightarrow> (string \<rightharpoonup> string) \<Rightarrow> (string \<rightharpoonup> string)" where
  "filterGlobalLabelKey key val globals =
     (if key \<in> set globalLabelAllowList then globals(key \<mapsto> val) else globals)"

definition applyJobParameterToJobMaps ::
  "(string \<Rightarrow> string list option) \<Rightarrow> string \<Rightarrow> string \<Rightarrow> string \<Rightarrow> string \<Rightarrow> string \<Rightarrow> label_maps \<Rightarrow> label_maps" where
  "applyJobParameterToJobMaps json_arr jobType jobName jobParam paramValue scopedJobName m =
     (if jobType = ''job-exec'' then m\<lparr>lm_exec := set_param json_arr scopedJobName jobParam paramValue (lm_exec m)\<rparr>
      else if jobType = ''job-local'' then m\<lparr>lm_local := set_param json_arr jobName jobParam paramValue (lm_local m)\<rparr>
      else if jobType = ''job-service-run'' then m\<lparr>lm_service := set_param json_arr jobName jobParam paramValue (lm_service m)\<rparr>
      else if jobType = ''job-run'' then m\<lparr>lm_run := set_param json_arr jobName jobParam paramValue (lm_run m)\<rparr>
      else if jobType = ''job-compose'' then m\<lparr>lm_compose := set_param json_arr jobName jobParam paramValue (lm_compose m)\<rparr>
      else m)"

text \<open>What a label of a container says: nothing, a global setting, a parameter of a webhook, or a parameter
  of a job with its type, name and scoped name.\<close>

datatype label_action = Ignored | GlobalKey string | WebhookParam string string | JobParam string string string string

definition label_action_of :: "container_info \<Rightarrow> string \<Rightarrow> label_action" where
  "label_action_of c k =
     (let isService = hasServiceLabel (ci_Labels c) in
      if k = ''ofelia.enabled'' \<or> k = ''ofelia.service'' \<or> k = ''com.docker.compose.service'' then Ignored
      else
        let parts = Split k (CHR ''.'') in
        if length parts < 2 then Ignored
        else if length parts < 4 then (if isService then GlobalKey (parts ! 1) else Ignored)
        else
          let jobType = parts ! 1; jobName = parts ! 2; jobParam = parts ! 3 in
          if jobType = ''webhook'' then (if isService then WebhookParam jobName jobParam else Ignored)
          else
            let scopedName = (if jobType = ''job-exec'' then getJobPrefix (ci_Labels c) (ci_Name c) @ ''.'' @ jobName else jobName)
            in if \<not> canRunJobOnContainer jobType (ci_Running c) isService then Ignored
               else JobParam jobType jobName jobParam scopedName)"

text \<open>The body of the loop over the labels of a container. The fields for exec and run jobs hold those of
  this container.\<close>

definition label_step ::
  "(string \<Rightarrow> string list option) \<Rightarrow> container_info \<Rightarrow> string \<times> string \<Rightarrow> label_maps \<Rightarrow> label_maps" where
  "label_step json_arr c kv m =
     (case label_action_of c (fst kv) of
        Ignored \<Rightarrow> m
      | GlobalKey key \<Rightarrow> m\<lparr>lm_globals := filterGlobalLabelKey key (snd kv) (lm_globals m)\<rparr>
      | WebhookParam name param \<Rightarrow>
          m\<lparr>lm_webhooks := (lm_webhooks m)(name \<mapsto>
              (case lm_webhooks m name of None \<Rightarrow> Map.empty | Some p \<Rightarrow> p)(param \<mapsto> snd kv))\<rparr>
      | JobParam jobType jobName jobParam scopedName \<Rightarrow>
          applyJobParameterToJobMaps json_arr jobType jobName jobParam (snd kv) scopedName m)"

text \<open>One container: its exec and run jobs start empty and are merged into those found before.\<close>

definition container_labels :: "(string \<Rightarrow> string list option) \<Rightarrow> container_info \<Rightarrow> label_maps \<Rightarrow> label_maps" where
  "container_labels json_arr c m = fold (label_step json_arr c) (ci_Labels c) (m\<lparr>lm_exec := Map.empty, lm_run := Map.empty\<rparr>)"

definition named_jobs :: "container_info \<Rightarrow> job_map \<Rightarrow> job_map" where
  "named_jobs c jobs = (if hasServiceLabel (ci_Labels c) then jobs else addContainerNameToJobsIfNeeded (ci_Name c) jobs)"

definition container_step :: "(string \<Rightarrow> string list option) \<Rightarrow> container_info \<Rightarrow> label_maps \<Rightarrow> label_maps" where
  "container_step json_arr c m =
     (let m1 = container_labels json_arr c m
      in m1\<lparr>lm_exec := mergeJobMaps (lm_exec m) (named_jobs c (lm_exec m1)) False,
            lm_run := mergeJobMaps (lm_run m) (named_jobs c (lm_run m1)) (ci_Running c)\<rparr>)"

definition splitContainersLabelsIntoJobMapsByType :: "(string \<Rightarrow> string list option) \<Rightarrow> container_info list \<Rightarrow> label_maps" where
  "splitContainersLabelsIntoJobMapsByType json_arr containers =
     fold (container_step json_arr) (sortContainers containers) empty_maps"

section \<open>The configuration from labels\<close>

datatype job_kind = KExec | KLocal | KService | KRun | KCompose

record 'j label_decoders =
  ld_globals :: "(string \<rightharpoonup> string) \<Rightarrow> globals \<Rightarrow> result \<times> globals"
  ld_jobs :: "job_kind \<Rightarrow> job_map \<Rightarrow> result \<times> (string \<rightharpoonup> 'j)"
  ld_webhooks :: "(string \<rightharpoonup> (string \<rightharpoonup> string)) \<Rightarrow> (string \<times> (string \<times> string) list) list"

record 'j label_config =
  lc_Global :: globals
  lc_Webhooks :: "(string \<times> WebhookConfig) list"
  lc_Jobs :: "job_kind \<Rightarrow> (string \<rightharpoonup> 'j)"
  lc_marked :: bool

text \<open>\<^verbatim>\<open>decodeInto\<close> for the kinds in turn; an empty map is not decoded.\<close>

fun decode_jobs :: "'j label_decoders \<Rightarrow> (job_kind \<Rightarrow> job_map) \<Rightarrow> job_kind list \<Rightarrow> (job_kind \<Rightarrow> (string \<rightharpoonup> 'j)) \<Rightarrow>
    result \<times> (job_kind \<Rightarrow> (string \<rightharpoonup> 'j))" where
  "decode_jobs ld raw [] jobs = (None, jobs)"
| "decode_jobs ld raw (k # ks) jobs =
     (if raw k = Map.empty then decode_jobs ld raw ks jobs
      else case ld_jobs ld k (raw k) of
             (None, js) \<Rightarrow> decode_jobs ld raw ks (jobs(k := js))
           | (Some err, js) \<Rightarrow> (Some (Errorf [Lit ''decode jobs: '', Wrap err]), jobs(k := js)))"

definition raw_jobs :: "bool \<Rightarrow> label_maps \<Rightarrow> job_kind \<Rightarrow> job_map" where
  "raw_jobs allowHost m k =
     (case k of
        KExec \<Rightarrow> lm_exec m
      | KLocal \<Rightarrow> if \<not> allowHost then Map.empty else lm_local m
      | KService \<Rightarrow> lm_service m
      | KRun \<Rightarrow> lm_run m
      | KCompose \<Rightarrow> if \<not> allowHost then Map.empty else lm_compose m)"

definition string_labels :: "(string \<rightharpoonup> string) \<Rightarrow> (string \<rightharpoonup> label_value)" where
  "string_labels g = (\<lambda>k. map_option LStr (g k))"

text \<open>\<^verbatim>\<open>newScratchConfig\<close> followed by \<^verbatim>\<open>buildFromDockerContainers\<close>: \<open>g\<close> is the copy of the live settings.\<close>

definition buildFromDockerContainers ::
  "'j label_decoders \<Rightarrow> (string \<Rightarrow> string list option) \<Rightarrow> container_info list \<Rightarrow> globals \<Rightarrow> result \<times> 'j label_config" where
  "buildFromDockerContainers ld json_arr containers g =
     (let m = splitContainersLabelsIntoJobMapsByType json_arr containers;
          (err, g1) = (if lm_globals m = Map.empty then (None, g) else ld_globals ld (lm_globals m) g)
      in case err of
           Some e \<Rightarrow> (Some (Errorf [Lit ''decode global labels: '', Wrap e]),
                      \<lparr>lc_Global = g1, lc_Webhooks = [], lc_Jobs = (\<lambda>_. Map.empty), lc_marked = False\<rparr>)
         | None \<Rightarrow>
             let g2 = (if lm_globals m = Map.empty then g1
                       else g1\<lparr>g_Webhook := applyGlobalWebhookLabels (string_labels (lm_globals m)) (g_Webhook g1)\<rparr>);
                 ws = wc_Webhooks (buildWebhookConfigsFromLabels (ld_webhooks ld (lm_webhooks m)) (NewWebhookConfigs (g_Webhook g2)));
                 (jerr, jobs) = decode_jobs ld (raw_jobs (g_AllowHostJobsFromLabels g2) m) [KExec, KLocal, KService, KRun, KCompose]
                                  (\<lambda>_. Map.empty)
             in (jerr, \<lparr>lc_Global = g2, lc_Webhooks = ws, lc_Jobs = jobs, lc_marked = (jerr = None)\<rparr>))"

section \<open>Where settings and jobs come from\<close>

definition service :: "container_info \<Rightarrow> bool" where
  "service c \<longleftrightarrow> hasServiceLabel (ci_Labels c)"

text \<open>The container has a label of a job of this type and name.\<close>

definition labels_job :: "string \<Rightarrow> string \<Rightarrow> container_info \<Rightarrow> bool" where
  "labels_job jobType n c \<longleftrightarrow>
     (\<exists>l\<in>fst ` set (ci_Labels c). 4 \<le> length (Split l (CHR ''.'')) \<and> Split l (CHR ''.'') ! 1 = jobType \<and> Split l (CHR ''.'') ! 2 = n)"

definition origin :: "container_info set \<Rightarrow> label_maps \<Rightarrow> bool" where
  [inv_defs]: "origin cs m \<longleftrightarrow>
     (\<forall>k v. lm_globals m k = Some v \<longrightarrow> k \<in> set globalLabelAllowList \<and>
        (\<exists>c\<in>cs. service c \<and> (\<exists>l. (l, v) \<in> set (ci_Labels c) \<and> Split l (CHR ''.'') ! 1 = k))) \<and>
     (\<forall>n\<in>dom (lm_webhooks m). \<exists>c\<in>cs. service c \<and> labels_job ''webhook'' n c) \<and>
     (\<forall>n\<in>dom (lm_local m). \<exists>c\<in>cs. service c \<and> ci_Running c \<and> labels_job ''job-local'' n c) \<and>
     (\<forall>n\<in>dom (lm_service m). \<exists>c\<in>cs. service c \<and> ci_Running c \<and> labels_job ''job-service-run'' n c) \<and>
     (\<forall>n\<in>dom (lm_compose m). \<exists>c\<in>cs. ci_Running c \<and> labels_job ''job-compose'' n c) \<and>
     (\<forall>n\<in>dom (lm_run m). \<exists>c\<in>cs. labels_job ''job-run'' n c) \<and>
     (\<forall>n\<in>dom (lm_exec m). \<exists>c\<in>cs. ci_Running c \<and>
        (\<exists>j. n = getJobPrefix (ci_Labels c) (ci_Name c) @ ''.'' @ j \<and> labels_job ''job-exec'' j c))"

lemma dom_set_param [simp]: "dom (set_param ja n p v m) = insert n (dom m)"
  by (auto simp: set_param_def)

lemma can_run:
  "canRunJobOnContainer ty running isService \<Longrightarrow>
     ((ty = ''job-local'' \<or> ty = ''job-service-run'') \<longrightarrow> isService) \<and> (ty \<noteq> ''job-run'' \<longrightarrow> running)"
  by (auto simp: canRunJobOnContainer_def checkJobTypeAllowedOnServiceContainer_def checkJobTypeAllowedOnStoppedContainer_def
      split: if_splits)

lemma label_action_facts:
  assumes "k \<in> fst ` set (ci_Labels c)"
  shows "label_action_of c k = GlobalKey key \<Longrightarrow> service c \<and> Split k (CHR ''.'') ! 1 = key"
    and "label_action_of c k = WebhookParam n p \<Longrightarrow> service c \<and> labels_job ''webhook'' n c"
    and "label_action_of c k = JobParam ty n p sn \<Longrightarrow> labels_job ty n c \<and> canRunJobOnContainer ty (ci_Running c) (service c) \<and>
      sn = (if ty = ''job-exec'' then getJobPrefix (ci_Labels c) (ci_Name c) @ ''.'' @ n else n)"
proof -
  let ?ps = "Split k (CHR ''.'')"
  have d: "labels_job (?ps ! 1) (?ps ! 2) c" if "\<not> length ?ps < 4" using that assms by (force simp: labels_job_def)
  show "label_action_of c k = GlobalKey key \<Longrightarrow> service c \<and> ?ps ! 1 = key"
    and "label_action_of c k = WebhookParam n p \<Longrightarrow> service c \<and> labels_job ''webhook'' n c"
    and "label_action_of c k = JobParam ty n p sn \<Longrightarrow> labels_job ty n c \<and> canRunJobOnContainer ty (ci_Running c) (service c) \<and>
      sn = (if ty = ''job-exec'' then getJobPrefix (ci_Labels c) (ci_Name c) @ ''.'' @ n else n)"
    using d unfolding label_action_of_def Let_def service_def
    by (force split: if_split_asm)+
qed

text \<open>What one more entry needs, for each map.\<close>

lemma originI_param:
  assumes "origin cs m" "c \<in> cs"
  shows "ci_Running c \<Longrightarrow> labels_job ''job-exec'' n c \<Longrightarrow> x = getJobPrefix (ci_Labels c) (ci_Name c) @ ''.'' @ n \<Longrightarrow>
      origin cs (m\<lparr>lm_exec := set_param ja x p v (lm_exec m)\<rparr>)"
    and "service c \<Longrightarrow> ci_Running c \<Longrightarrow> labels_job ''job-local'' n c \<Longrightarrow> origin cs (m\<lparr>lm_local := set_param ja n p v (lm_local m)\<rparr>)"
    and "service c \<Longrightarrow> ci_Running c \<Longrightarrow> labels_job ''job-service-run'' n c \<Longrightarrow> origin cs (m\<lparr>lm_service := set_param ja n p v (lm_service m)\<rparr>)"
    and "ci_Running c \<Longrightarrow> labels_job ''job-compose'' n c \<Longrightarrow> origin cs (m\<lparr>lm_compose := set_param ja n p v (lm_compose m)\<rparr>)"
    and "labels_job ''job-run'' n c \<Longrightarrow> origin cs (m\<lparr>lm_run := set_param ja n p v (lm_run m)\<rparr>)"
    and "service c \<Longrightarrow> labels_job ''webhook'' n c \<Longrightarrow> origin cs (m\<lparr>lm_webhooks := (lm_webhooks m)(n \<mapsto> ps)\<rparr>)"
proof -
  note o = assms(1) [unfolded origin_def]
  show "ci_Running c \<Longrightarrow> labels_job ''job-exec'' n c \<Longrightarrow> x = getJobPrefix (ci_Labels c) (ci_Name c) @ ''.'' @ n \<Longrightarrow>
      origin cs (m\<lparr>lm_exec := set_param ja x p v (lm_exec m)\<rparr>)"
    using o assms(2) unfolding origin_def by simp blast
  show "service c \<Longrightarrow> ci_Running c \<Longrightarrow> labels_job ''job-local'' n c \<Longrightarrow> origin cs (m\<lparr>lm_local := set_param ja n p v (lm_local m)\<rparr>)"
    using o assms(2) unfolding origin_def by simp blast
  show "service c \<Longrightarrow> ci_Running c \<Longrightarrow> labels_job ''job-service-run'' n c \<Longrightarrow> origin cs (m\<lparr>lm_service := set_param ja n p v (lm_service m)\<rparr>)"
    using o assms(2) unfolding origin_def by simp blast
  show "ci_Running c \<Longrightarrow> labels_job ''job-compose'' n c \<Longrightarrow> origin cs (m\<lparr>lm_compose := set_param ja n p v (lm_compose m)\<rparr>)"
    using o assms(2) unfolding origin_def by simp blast
  show "labels_job ''job-run'' n c \<Longrightarrow> origin cs (m\<lparr>lm_run := set_param ja n p v (lm_run m)\<rparr>)"
    using o assms(2) unfolding origin_def by simp blast
  show "service c \<Longrightarrow> labels_job ''webhook'' n c \<Longrightarrow> origin cs (m\<lparr>lm_webhooks := (lm_webhooks m)(n \<mapsto> ps)\<rparr>)"
    using o assms(2) unfolding origin_def by simp blast
qed

lemma origin_job:
  assumes "origin cs m" "c \<in> cs" "labels_job ty n c" "canRunJobOnContainer ty (ci_Running c) (service c)"
    "sn = (if ty = ''job-exec'' then getJobPrefix (ci_Labels c) (ci_Name c) @ ''.'' @ n else n)"
  shows "origin cs (applyJobParameterToJobMaps ja ty n p v sn m)"
proof -
  note add = originI_param [OF assms(1,2)]
  have c: "(ty = ''job-local'' \<or> ty = ''job-service-run'') \<longrightarrow> service c" "ty \<noteq> ''job-run'' \<longrightarrow> ci_Running c"
    using can_run [OF assms(4)] by blast+
  consider "ty = ''job-exec''" | "ty = ''job-local''" | "ty = ''job-service-run''" | "ty = ''job-run''" | "ty = ''job-compose''"
    | "ty \<notin> {''job-exec'', ''job-local'', ''job-service-run'', ''job-run'', ''job-compose''}" by blast
  then show ?thesis
  proof cases
    case 1 then show ?thesis using add(1) [of n sn] assms(3,5) c by (simp add: applyJobParameterToJobMaps_def)
  next
    case 2 then show ?thesis using add(2) [of n] assms(3) c by (simp add: applyJobParameterToJobMaps_def)
  next
    case 3 then show ?thesis using add(3) [of n] assms(3) c by (simp add: applyJobParameterToJobMaps_def)
  next
    case 4 then show ?thesis using add(5) [of n] assms(3) by (simp add: applyJobParameterToJobMaps_def)
  next
    case 5 then show ?thesis using add(4) [of n] assms(3) c by (simp add: applyJobParameterToJobMaps_def)
  next
    case 6 then show ?thesis using assms(1) by (simp add: applyJobParameterToJobMaps_def)
  qed
qed

lemma origin_label:
  assumes "origin cs m" "c \<in> cs" "(k, v) \<in> set (ci_Labels c)"
  shows "origin cs (label_step ja c (k, v) m)"
proof -
  have k: "k \<in> fst ` set (ci_Labels c)" using assms(3) by force
  show ?thesis
  proof (cases "label_action_of c k")
    case (GlobalKey key)
    then show ?thesis using assms label_action_facts(1) [OF k] by (auto simp: label_step_def origin_def filterGlobalLabelKey_def)
  next
    case (WebhookParam n p)
    then show ?thesis using label_action_facts(2) [OF k WebhookParam] originI_param(6) [OF assms(1,2)] by (simp add: label_step_def)
  next
    case (JobParam ty n p sn)
    then show ?thesis using label_action_facts(3) [OF k JobParam] origin_job [OF assms(1,2)] by (simp add: label_step_def)
  qed (simp add: label_step_def assms(1))
qed

lemma origin_labels:
  assumes "origin cs m" "c \<in> cs" "set ls \<subseteq> set (ci_Labels c)"
  shows "origin cs (fold (label_step ja c) ls m)"
  using assms by (induction ls arbitrary: m) (auto intro: origin_label)

lemma dom_mergeJobMaps: "dom (mergeJobMaps l r b) = dom l \<union> dom r"
  by (auto simp: mergeJobMaps_def split: option.splits if_splits)

lemma dom_named_jobs [simp]: "dom (named_jobs c js) = dom js"
  by (auto simp: named_jobs_def addContainerNameToJobsIfNeeded_def split: option.splits if_splits)

lemma origin_container:
  assumes "origin cs m" "c \<in> cs"
  shows "origin cs (container_step ja c m)"
proof -
  have "origin cs (m\<lparr>lm_exec := Map.empty, lm_run := Map.empty\<rparr>)" using assms(1) by (simp add: origin_def)
  then have "origin cs (container_labels ja c m)" unfolding container_labels_def by (rule origin_labels [OF _ assms(2)]) simp
  with assms(1) show ?thesis by (simp add: origin_def container_step_def Let_def dom_mergeJobMaps ball_Un)
qed

lemma origin_containers: "origin cs m \<Longrightarrow> set xs \<subseteq> cs \<Longrightarrow> origin cs (fold (container_step ja) xs m)"
  by (induction xs arbitrary: m) (auto intro: origin_container)

lemma set_sortContainers [simp]: "set (sortContainers cs) = set cs"
  by (simp add: sortContainers_def)

lemma split_origin: "origin (set cs) (splitContainersLabelsIntoJobMapsByType ja cs)"
  unfolding splitContainersLabelsIntoJobMapsByType_def
  by (rule origin_containers) (simp_all add: origin_def empty_maps_def)

section \<open>Run jobs that several containers define\<close>

text \<open>The run jobs that the labels of one container define.\<close>

definition own_run :: "(string \<Rightarrow> string list option) \<Rightarrow> container_info \<Rightarrow> job_map" where
  "own_run ja c = named_jobs c (lm_run (container_labels ja c empty_maps))"

lemma apply_run [simp]:
  "lm_run (applyJobParameterToJobMaps ja ty n p v sn m) = (if ty = ''job-run'' then set_param ja n p v (lm_run m) else lm_run m)"
  by (simp add: applyJobParameterToJobMaps_def)

lemma label_step_run: "lm_run m = lm_run m' \<Longrightarrow> lm_run (label_step ja c kv m) = lm_run (label_step ja c kv m')"
  by (cases "label_action_of c (fst kv)") (simp_all add: label_step_def)

lemma labels_run: "lm_run m = lm_run m' \<Longrightarrow> lm_run (fold (label_step ja c) ls m) = lm_run (fold (label_step ja c) ls m')"
proof (induction ls arbitrary: m m')
  case (Cons l ls)
  show ?case using Cons.IH [OF label_step_run [OF Cons.prems, of ja c l]] by simp
qed simp

lemma container_step_run: "lm_run (container_step ja c m) = mergeJobMaps (lm_run m) (own_run ja c) (ci_Running c)"
  using labels_run [of "m\<lparr>lm_exec := Map.empty, lm_run := Map.empty\<rparr>" "empty_maps\<lparr>lm_exec := Map.empty, lm_run := Map.empty\<rparr>" ja c "ci_Labels c"]
  by (simp add: container_step_def Let_def own_run_def container_labels_def empty_maps_def)

definition winner :: "container_info list \<Rightarrow> container_info option" where
  "winner cs = (case rev (filter ci_Running cs) of c # _ \<Rightarrow> Some c | [] \<Rightarrow> (case cs of c # _ \<Rightarrow> Some c | [] \<Rightarrow> None))"

lemma winner_Nil [simp]: "winner [] = None"
  by (simp add: winner_def)

lemma winner_snoc:
  "winner (cs @ [c]) = (if ci_Running c \<or> cs = [] then Some c else winner cs)"
  by (cases cs) (auto simp: winner_def split: list.splits)

lemma winner_in: "winner cs = Some c \<Longrightarrow> c \<in> set cs"
proof (induction cs rule: rev_induct)
  case (snoc d cs)
  then show ?case by (auto simp: winner_snoc split: if_splits)
qed simp

lemma winner_some: "cs \<noteq> [] \<Longrightarrow> \<exists>c. winner cs = Some c"
  by (cases cs) (auto simp: winner_def split: list.splits)

lemma run_fold:
  "lm_run (fold (container_step ja) cs empty_maps) n =
     (case winner (filter (\<lambda>c. own_run ja c n \<noteq> None) cs) of None \<Rightarrow> None | Some c \<Rightarrow> own_run ja c n)"
proof (induction cs rule: rev_induct)
  case Nil
  then show ?case by (simp add: empty_maps_def)
next
  case (snoc c cs)
  let ?D = "filter (\<lambda>c. own_run ja c n \<noteq> None) cs"
  have w: "own_run ja d n \<noteq> None" if "winner ?D = Some d" for d using winner_in [OF that] by simp
  show ?case
  proof (cases "own_run ja c n")
    case None
    then show ?thesis using snoc by (simp add: container_step_run mergeJobMaps_def)
  next
    case (Some j)
    then have f: "filter (\<lambda>c. own_run ja c n \<noteq> None) (cs @ [c]) = ?D @ [c]" by simp
    have m: "lm_run (fold (container_step ja) (cs @ [c]) empty_maps) n =
        (if lm_run (fold (container_step ja) cs empty_maps) n = None \<or> ci_Running c then Some j
         else lm_run (fold (container_step ja) cs empty_maps) n)"
      by (simp add: container_step_run mergeJobMaps_def Some)
    show ?thesis
    proof (cases "?D = []")
      case True
      then show ?thesis unfolding m f winner_snoc snoc by (simp add: Some)
    next
      case False
      then obtain d where d: "winner ?D = Some d" using winner_some by blast
      then show ?thesis unfolding m f winner_snoc snoc using False w [OF d] by (auto simp: Some)
    qed
  qed
qed

section \<open>Decoding\<close>

lemma decode_jobs_untouched: "k \<notin> set ks \<or> raw k = Map.empty \<Longrightarrow> snd (decode_jobs ld raw ks jobs) k = jobs k"
  by (induction ld raw ks jobs rule: decode_jobs.induct) (auto split: prod.splits option.splits)

lemma origin_globals: "origin cs m \<Longrightarrow> lm_globals m k = Some v \<Longrightarrow> k \<in> set globalLabelAllowList"
  unfolding origin_def by blast

text \<open>The jobs are those that decoding gives, or none.\<close>

definition decoded_globals :: "'j label_decoders \<Rightarrow> label_maps \<Rightarrow> globals \<Rightarrow> result \<times> globals" where
  "decoded_globals ld m g = (if lm_globals m = Map.empty then (None, g) else ld_globals ld (lm_globals m) g)"

lemma build_jobs:
  assumes "splitContainersLabelsIntoJobMapsByType ja cs = m"
  shows "lc_Jobs (snd (buildFromDockerContainers ld ja cs g)) =
     (if fst (decoded_globals ld m g) = None
      then snd (decode_jobs ld (raw_jobs (g_AllowHostJobsFromLabels (snd (decoded_globals ld m g))) m)
                  [KExec, KLocal, KService, KRun, KCompose] (\<lambda>_. Map.empty))
      else (\<lambda>_. Map.empty))"
proof -
  obtain err g1 where "decoded_globals ld m g = (err, g1)" by fastforce
  then show ?thesis
    unfolding buildFromDockerContainers_def assms Let_def decoded_globals_def [symmetric]
    by (cases err) (simp_all add: case_prod_beta del: decode_jobs.simps)
qed

section \<open>Properties\<close>

text \<open>(labels_have_an_origin): whatever the labels of the containers are, every global setting that is taken from
  labels is on the list of allowed settings and is a label of a service container; webhooks, local and
  service jobs come from service containers; and all jobs except run jobs come from running containers.\<close>

theorem labels_have_an_origin: "origin (set cs) (splitContainersLabelsIntoJobMapsByType ja cs)"
  by (rule split_origin)

text \<open>The order of the containers and the one that \<open>winner\<close> takes.\<close>

definition container_key :: "container_info \<Rightarrow> bool \<times> int \<times> string" where
  "container_key c = (\<not> ci_Running c, - ci_Created c, ci_Name c)"

lemma sorted_last: "sorted (map f xs) \<Longrightarrow> x \<in> set xs \<Longrightarrow> f x \<le> f (last xs)"
  for f :: "'a \<Rightarrow> 'b :: linorder"
  by (induction xs rule: rev_induct) (auto simp: sorted_append)

lemma sorted_hd: "sorted (map f xs) \<Longrightarrow> x \<in> set xs \<Longrightarrow> f (hd xs) \<le> f x"
  for f :: "'a \<Rightarrow> 'b :: linorder"
  by (cases xs) auto

lemma winner_extreme:
  assumes "sorted (map container_key cs)" "winner cs = Some w"
  shows "if \<exists>c\<in>set cs. ci_Running c then ci_Running w \<and> (\<forall>c\<in>set cs. ci_Running c \<longrightarrow> container_key c \<le> container_key w)
    else (\<forall>c\<in>set cs. container_key w \<le> container_key c)"
proof (cases "filter ci_Running cs" rule: rev_cases)
  case Nil
  then have none: "\<not> (\<exists>c\<in>set cs. ci_Running c)" by (auto simp: filter_empty_conv)
  have "cs \<noteq> []" "w = hd cs" using assms(2) Nil by (auto simp: winner_def split: list.splits)
  then show ?thesis using none sorted_hd [OF assms(1)] by auto
next
  case (snoc ds d)
  then have "w = d" using assms(2) by (simp add: winner_def)
  have "d \<in> set (filter ci_Running cs)" unfolding snoc by simp
  then have d: "d \<in> set cs" "ci_Running d" by simp_all
  have "sorted (map container_key (filter ci_Running cs))" using assms(1) by (rule sorted_filter)
  from sorted_last [OF this] have le: "container_key c \<le> container_key (last (filter ci_Running cs))"
    if "c \<in> set (filter ci_Running cs)" for c using that .
  have "last (filter ci_Running cs) = d" unfolding snoc by simp
  then have "container_key c \<le> container_key d" if "c \<in> set cs" "ci_Running c" for c
    using le [of c] that by simp
  then show ?thesis using \<open>w = d\<close> d by auto
qed

lemma sortContainers_sorted: "sorted (map container_key (filter P (sortContainers cs)))"
  unfolding sortContainers_def container_key_def by (rule sorted_filter) (rule sorted_sort_key)

text \<open>C28 (run_job_winner): of the containers that define a run job of the same name one is taken whole, which does not
  depend on the order of the containers: if some of them run, the running one that was created first (the
  last in the order of names among those created at that time), and if none runs, the one that was created last (the first
  in the order of names).\<close>

theorem run_job_winner:
  "(\<nexists>c. c \<in> set cs \<and> own_run ja c n \<noteq> None) \<and> lm_run (splitContainersLabelsIntoJobMapsByType ja cs) n = None \<or>
   (\<exists>w. w \<in> set cs \<and> own_run ja w n \<noteq> None \<and> lm_run (splitContainersLabelsIntoJobMapsByType ja cs) n = own_run ja w n \<and>
      (if \<exists>c. c \<in> set cs \<and> own_run ja c n \<noteq> None \<and> ci_Running c
       then ci_Running w \<and> (\<nexists>c. c \<in> set cs \<and> own_run ja c n \<noteq> None \<and> ci_Running c \<and>
              (ci_Created c < ci_Created w \<or> ci_Created c = ci_Created w \<and> ci_Name w < ci_Name c))
       else (\<nexists>c. c \<in> set cs \<and> own_run ja c n \<noteq> None \<and>
              (ci_Created w < ci_Created c \<or> ci_Created c = ci_Created w \<and> ci_Name c < ci_Name w))))"
proof -
  let ?D = "filter (\<lambda>c. own_run ja c n \<noteq> None) (sortContainers cs)"
  have D: "c \<in> set ?D \<longleftrightarrow> c \<in> set cs \<and> own_run ja c n \<noteq> None" for c by auto
  have r: "lm_run (splitContainersLabelsIntoJobMapsByType ja cs) n = (case winner ?D of None \<Rightarrow> None | Some c \<Rightarrow> own_run ja c n)"
    unfolding splitContainersLabelsIntoJobMapsByType_def by (rule run_fold)
  show ?thesis
  proof (cases "winner ?D")
    case None
    then have "?D = []" using winner_some by force
    then show ?thesis using r None by (auto simp: filter_empty_conv)
  next
    case (Some w)
    have w: "w \<in> set cs" "own_run ja w n \<noteq> None" using winner_in [OF Some] D by auto
    have e: "if \<exists>c\<in>set ?D. ci_Running c then ci_Running w \<and> (\<forall>c\<in>set ?D. ci_Running c \<longrightarrow> container_key c \<le> container_key w)
      else (\<forall>c\<in>set ?D. container_key w \<le> container_key c)"
      by (rule winner_extreme [OF sortContainers_sorted Some])
    have lt: "\<not> container_key c \<le> container_key w"
      if "ci_Running c" "ci_Running w" "ci_Created c < ci_Created w \<or> ci_Created c = ci_Created w \<and> ci_Name w < ci_Name c" for c
      using that by (auto simp: container_key_def not_le)
    have gt: "\<not> container_key w \<le> container_key c"
      if "\<not> ci_Running c" "\<not> ci_Running w" "ci_Created w < ci_Created c \<or> ci_Created c = ci_Created w \<and> ci_Name c < ci_Name w" for c
      using that by (auto simp: container_key_def not_le)
    show ?thesis
    proof (cases "\<exists>c\<in>set ?D. ci_Running c")
      case True
      then have "ci_Running w \<and> (\<forall>c\<in>set ?D. ci_Running c \<longrightarrow> container_key c \<le> container_key w)" using e by simp
      then have rw: "ci_Running w" and le: "\<And>c. c \<in> set ?D \<Longrightarrow> ci_Running c \<Longrightarrow> container_key c \<le> container_key w" by blast+
      have "\<nexists>c. c \<in> set cs \<and> own_run ja c n \<noteq> None \<and> ci_Running c \<and>
          (ci_Created c < ci_Created w \<or> ci_Created c = ci_Created w \<and> ci_Name w < ci_Name c)"
        using lt [OF _ rw] le D by blast
      moreover have "\<exists>c. c \<in> set cs \<and> own_run ja c n \<noteq> None \<and> ci_Running c" using True D by blast
      ultimately show ?thesis using r Some w rw by (intro disjI2 exI [of _ w]) simp
    next
      case False
      then have le: "\<And>c. c \<in> set ?D \<Longrightarrow> container_key w \<le> container_key c" using e by auto
      have nr: "\<not> ci_Running c" if "c \<in> set cs" "own_run ja c n \<noteq> None" for c using False D that by blast
      have "\<nexists>c. c \<in> set cs \<and> own_run ja c n \<noteq> None \<and>
          (ci_Created w < ci_Created c \<or> ci_Created c = ci_Created w \<and> ci_Name c < ci_Name w)"
        using gt nr w le D by blast
      moreover have "\<not> (\<exists>c. c \<in> set cs \<and> own_run ja c n \<noteq> None \<and> ci_Running c)" using nr by blast
      ultimately show ?thesis using r Some w by (intro disjI2 exI [of _ w]) (simp only: if_False, simp)
    qed
  qed
qed

text \<open>No key on the list of allowed settings matches the switch for host jobs, in whatever spelling.\<close>

lemma switch_not_allowed: "\<forall>k\<in>set globalLabelAllowList. \<not> caseInsensitiveMatch k ''allow-host-jobs-from-labels''"
proof -
  have no: "\<not> caseInsensitiveMatch (c # k) ''allow-host-jobs-from-labels''"
    if "c \<in> set ''lmnesrw''" for c k
    using that by (auto dest!: match_first simp: toLower_def)
  show ?thesis unfolding globalLabelAllowList_def by (simp add: no)
qed

text \<open>C29 (host_jobs_need_permission): when the configuration file does not allow host jobs from labels, no labels of
  any containers give a local or compose job. The decoder of global settings is assumed to leave the
  switch alone when none of the decoded keys matches its name without regard to case, dashes and underscores.\<close>

theorem host_jobs_need_permission:
  assumes "\<And>labels g. (\<And>k. caseInsensitiveMatch k ''allow-host-jobs-from-labels'' \<Longrightarrow> labels k = None) \<Longrightarrow>
      g_AllowHostJobsFromLabels (snd (ld_globals ld labels g)) = g_AllowHostJobsFromLabels g"
    and "\<not> g_AllowHostJobsFromLabels g"
  shows "lc_Jobs (snd (buildFromDockerContainers ld ja cs g)) KLocal = Map.empty \<and>
         lc_Jobs (snd (buildFromDockerContainers ld ja cs g)) KCompose = Map.empty"
proof -
  let ?m = "splitContainersLabelsIntoJobMapsByType ja cs"
  have "lm_globals ?m k = None" if "caseInsensitiveMatch k ''allow-host-jobs-from-labels''" for k
    using origin_globals [OF split_origin, of ja cs k] switch_not_allowed that by (cases "lm_globals ?m k") auto
  then have g: "\<not> g_AllowHostJobsFromLabels (snd (decoded_globals ld ?m g))"
    using assms by (simp add: decoded_globals_def)
  have "snd (decode_jobs ld (raw_jobs False ?m) [KExec, KLocal, KService, KRun, KCompose] (\<lambda>_. Map.empty)) k = Map.empty"
    if "k = KLocal \<or> k = KCompose" for k
    using that by (subst decode_jobs_untouched) (auto simp: raw_jobs_def)
  then show ?thesis unfolding build_jobs [OF refl] using g by simp
qed

text \<open>The simulated decoders: a job is its map of parameters, and no global setting is changed.\<close>

definition sim_decoders :: "go_error option \<Rightarrow> job_params label_decoders" where
  "sim_decoders err = \<lparr>ld_globals = (\<lambda>_ g. (None, g)), ld_jobs = (\<lambda>k js. (if k = KExec then err else None, js)), ld_webhooks = (\<lambda>_. [])\<rparr>"

definition sim_globals :: globals where
  "sim_globals = \<lparr>g_Slack = \<lparr>SlackWebhook = [], SlackOnlyOnError = None\<rparr>,
     g_Save = \<lparr>SaveFolder = [], SaveOnlyOnError = None, RestoreHistory = None, RestoreHistoryMaxAge = 0\<rparr>,
     g_Mail = \<lparr>SMTPHost = [], SMTPPort = 0, SMTPUser = [], SMTPPassword = [], SMTPTLSSkipVerify = False,
       SMTPTLSPolicy = [], EmailTo = [], EmailFrom = [], EmailSubject = [], MailOnlyOnError = None\<rparr>,
     g_Webhook = DefaultWebhookGlobalConfig ''/tmp'' [], g_LogLevel = [], g_MaxRuntime = 24 * hour,
     g_AllowHostJobsFromLabels = False, g_EnableStrictValidation = False, g_DefaultUser = ''nobody'', g_NotificationCooldown = 0\<rparr>"

definition sim_container :: container_info where
  "sim_container = \<lparr>ci_Name = ''web'', ci_Created = 1, ci_Running = True,
     ci_Labels = [(''ofelia.service'', ''true''), (''ofelia.job-local.evil.command'', ''id''), (''ofelia.job-run.b.image'', ''x'')]\<rparr>"

theorem host_jobs_need_permission_witness:
  "lc_Jobs (snd (buildFromDockerContainers (sim_decoders None) (\<lambda>_. None) [sim_container] sim_globals)) KLocal = Map.empty"
  by (rule host_jobs_need_permission [THEN conjunct1]) (simp_all add: sim_decoders_def sim_globals_def)

text \<open>(decode_error_drops_jobs): when the exec jobs of any container cannot be decoded, no local, service, run or
  compose job of any container is read, and the caller, which ignores the error, removes them all.\<close>

theorem decode_error_drops_jobs:
  assumes "lm_exec (splitContainersLabelsIntoJobMapsByType ja cs) \<noteq> Map.empty"
    "fst (ld_jobs ld KExec (lm_exec (splitContainersLabelsIntoJobMapsByType ja cs))) = Some err" "k \<noteq> KExec"
  shows "lc_Jobs (snd (buildFromDockerContainers ld ja cs g)) k = Map.empty"
proof -
  let ?m = "splitContainersLabelsIntoJobMapsByType ja cs"
  obtain js where "ld_jobs ld KExec (lm_exec ?m) = (Some err, js)" using assms(2) by (metis prod.collapse)
  then have "snd (decode_jobs ld (raw_jobs b ?m) [KExec, KLocal, KService, KRun, KCompose] (\<lambda>_. Map.empty)) k = Map.empty" for b
    using assms(1,3) by (simp add: raw_jobs_def)
  then show ?thesis unfolding build_jobs [OF refl] by simp
qed

definition sim_exec_container :: container_info where
  "sim_exec_container = \<lparr>ci_Name = ''web'', ci_Created = 1, ci_Running = True,
     ci_Labels = [(''ofelia.job-exec.a.no-overlap'', ''maybe''), (''ofelia.job-run.b.image'', ''x'')]\<rparr>"

theorem decode_error_drops_jobs_witness:
  "lc_Jobs (snd (buildFromDockerContainers (sim_decoders (Some (Opaque 0 ''bad bool''))) (\<lambda>_. None) [sim_exec_container] sim_globals)) KRun
     = Map.empty"
proof (rule decode_error_drops_jobs [where err = "Opaque 0 ''bad bool''"])
  have "''web.a'' \<in> dom (lm_exec (splitContainersLabelsIntoJobMapsByType (\<lambda>_. None) [sim_exec_container]))"
    by (simp add: splitContainersLabelsIntoJobMapsByType_def sortContainers_def sim_exec_container_def container_step_def
        container_labels_def label_step_def label_action_of_def hasServiceLabel_def canRunJobOnContainer_def
        checkJobTypeAllowedOnServiceContainer_def checkJobTypeAllowedOnStoppedContainer_def applyJobParameterToJobMaps_def
        dom_mergeJobMaps empty_maps_def getJobPrefix_def Let_def del: domIff)
  then show "lm_exec (splitContainersLabelsIntoJobMapsByType (\<lambda>_. None) [sim_exec_container]) \<noteq> Map.empty" by auto
qed (simp_all add: sim_decoders_def)

end
