(* ===== verification/Reconcile.thy ===== *)
theory Reconcile
  imports Registry DockerLabels
begin

text \<open>
  Keeping the scheduler in step with the configuration (\<^verbatim>\<open>src/cli/config.go\<close>): \<^verbatim>\<open>mergeJobs\<close> at start-up,
  and \<^verbatim>\<open>syncJobMap\<close>, \<^verbatim>\<open>replaceIfChanged\<close> and \<^verbatim>\<open>addNewJob\<close> after a change of labels or of the INI file.
  They work on the scheduler of the theory \<open>Scheduler\<close> and on one of the maps of configured jobs (an
  association list in the order in which Go ranges over it) from names to job objects, which are
  references. What a decoded job object holds (its schedule and other fields after the defaults, its
  validation, its hash, its middlewares) is the record \<open>job_ops\<close>; the closure \<^verbatim>\<open>prep\<close> writes it to the
  heap and sets the name.
\<close>

section \<open>Jobs and their sources\<close>

datatype JobSource = SrcNone | SrcINI | SrcLabel

record 'w job_ops =
  jo_job :: "ref \<Rightarrow> 'w bare_job"
  jo_Validate :: "ref \<Rightarrow> result"
  jo_Hash :: "ref \<Rightarrow> go_error + string"
  jo_mws :: "ref \<Rightarrow> 'w middleware option list"

record ('c, 'w) live =
  lv_sched :: "('c, 'w) Scheduler"
  lv_source :: "ref \<Rightarrow> JobSource"

type_synonym job_table = "(string \<times> ref) list"

section \<open>Start-up\<close>

definition merge_job :: "(ref \<Rightarrow> JobSource) \<Rightarrow> string \<times> ref \<Rightarrow> job_table \<Rightarrow> job_table" where
  "merge_job source nj dst =
     (case map_of dst (fst nj) of
        Some existing \<Rightarrow> if source existing = SrcINI then dst else AList.update (fst nj) (snd nj) dst
      | None \<Rightarrow> AList.update (fst nj) (snd nj) dst)"

definition mergeJobs :: "(ref \<Rightarrow> JobSource) \<Rightarrow> job_table \<Rightarrow> job_table \<Rightarrow> job_table" where
  "mergeJobs source dst src = fold (merge_job source) src dst"

section \<open>Synchronisation\<close>

definition prep_job :: "'w job_ops \<Rightarrow> string \<Rightarrow> ref \<Rightarrow> ('c, 'w) live \<Rightarrow> ('c, 'w) live" where
  "prep_job ops name r lv =
     lv\<lparr>lv_sched := (lv_sched lv)\<lparr>s_heap := (s_heap (lv_sched lv))(r := (jo_job ops r)\<lparr>bj_Name := name\<rparr>)\<rparr>\<rparr>"

definition set_source :: "JobSource \<Rightarrow> ref \<Rightarrow> ('c, 'w) live \<Rightarrow> ('c, 'w) live" where
  "set_source src r lv = lv\<lparr>lv_source := (lv_source lv)(r := src)\<rparr>"

definition buildMiddlewares :: "'w job_ops \<Rightarrow> ref \<Rightarrow> ('c, 'w) live \<Rightarrow> ('c, 'w) live" where
  "buildMiddlewares ops r lv =
     (let s = lv_sched lv; j = s_heap s r
      in lv\<lparr>lv_sched := s\<lparr>s_heap := (s_heap s)(r := j\<lparr>bj_mws := Use (jo_mws ops r) (bj_mws j)\<rparr>)\<rparr>\<rparr>)"

definition lv_RemoveJob :: "'c cron_api \<Rightarrow> ref \<Rightarrow> ('c, 'w) live \<Rightarrow> ('c, 'w) live" where
  "lv_RemoveJob cr r lv = lv\<lparr>lv_sched := snd (RemoveJob cr r (lv_sched lv))\<rparr>"

definition lv_AddJob :: "'c cron_api \<Rightarrow> ref \<Rightarrow> ('c, 'w) live \<Rightarrow> ('c, 'w) live" where
  "lv_AddJob cr r lv = lv\<lparr>lv_sched := snd (AddJobWithTags cr r [] (lv_sched lv))\<rparr>"

definition replaceIfChanged ::
  "'c cron_api \<Rightarrow> 'w job_ops \<Rightarrow> string \<Rightarrow> ref \<Rightarrow> ref \<Rightarrow> JobSource \<Rightarrow> ('c, 'w) live \<Rightarrow> bool \<times> ('c, 'w) live" where
  "replaceIfChanged cr ops name oldJob newJob source lv =
     (let lv1 = set_source source newJob (prep_job ops name newJob lv) in
      if jo_Validate ops newJob \<noteq> None then (False, lv1)
      else case jo_Hash ops newJob of
             Inl _ \<Rightarrow> (False, lv1)
           | Inr newHash \<Rightarrow>
               (case jo_Hash ops oldJob of
                  Inl _ \<Rightarrow> (False, lv1)
                | Inr oldHash \<Rightarrow>
                    if newHash = oldHash then (False, lv1)
                    else (True, lv_AddJob cr newJob (buildMiddlewares ops newJob (lv_RemoveJob cr oldJob lv1)))))"

definition addNewJob ::
  "'c cron_api \<Rightarrow> 'w job_ops \<Rightarrow> string \<Rightarrow> ref \<Rightarrow> JobSource \<Rightarrow> job_table \<times> ('c, 'w) live \<Rightarrow> job_table \<times> ('c, 'w) live" where
  "addNewJob cr ops name j source st =
     (case st of (current, lv) \<Rightarrow>
        let lv1 = prep_job ops name j (if source \<noteq> SrcNone then set_source source j lv else lv)
        in if jo_Validate ops j \<noteq> None then (current, lv1)
           else (AList.update name j current, lv_AddJob cr j (buildMiddlewares ops j lv1)))"

text \<open>The bodies of the two loops of \<^verbatim>\<open>syncJobMap\<close>.\<close>

definition sync_current ::
  "'c cron_api \<Rightarrow> 'w job_ops \<Rightarrow> JobSource \<Rightarrow> (string \<rightharpoonup> ref) \<Rightarrow> string \<times> ref \<Rightarrow> job_table \<times> ('c, 'w) live \<Rightarrow>
   job_table \<times> ('c, 'w) live" where
  "sync_current cr ops source parsed nj st =
     (case nj of (name, j) \<Rightarrow> case st of (current, lv) \<Rightarrow>
        if source \<noteq> SrcNone \<and> lv_source lv j \<noteq> source \<and> lv_source lv j \<noteq> SrcNone then (current, lv)
        else case parsed name of
               None \<Rightarrow> (AList.delete name current, lv_RemoveJob cr j lv)
             | Some newJob \<Rightarrow>
                 (case replaceIfChanged cr ops name j newJob source lv of
                    (updated, lv1) \<Rightarrow> (if updated then AList.update name newJob current else current, lv1)))"

definition sync_parsed ::
  "'c cron_api \<Rightarrow> 'w job_ops \<Rightarrow> JobSource \<Rightarrow> string \<times> ref \<Rightarrow> job_table \<times> ('c, 'w) live \<Rightarrow> job_table \<times> ('c, 'w) live" where
  "sync_parsed cr ops source nj st =
     (case nj of (name, j) \<Rightarrow> case st of (current, lv) \<Rightarrow>
        case map_of current name of
          None \<Rightarrow> addNewJob cr ops name j source (current, lv)
        | Some cur \<Rightarrow>
            if lv_source lv cur = source then (current, lv)
            else if source = SrcINI \<and> lv_source lv cur = SrcLabel
            then addNewJob cr ops name j source (current, lv_RemoveJob cr cur lv)
            else (current, lv))"

definition syncJobMap ::
  "'c cron_api \<Rightarrow> 'w job_ops \<Rightarrow> JobSource \<Rightarrow> job_table \<Rightarrow> job_table \<times> ('c, 'w) live \<Rightarrow> job_table \<times> ('c, 'w) live" where
  "syncJobMap cr ops source parsed st =
     fold (sync_parsed cr ops source) parsed (fold (sync_current cr ops source (map_of parsed)) (fst st) st)"

section \<open>The scheduler as a map\<close>

definition in_reg :: "('c, 'w) live \<Rightarrow> string \<rightharpoonup> ref" where
  "in_reg lv n = map_option fst (registry (lv_sched lv) n)"

abbreviation jobs_of :: "('c, 'w) live \<Rightarrow> ref set" where
  "jobs_of lv \<equiv> set (s_Jobs (lv_sched lv))"

lemma in_reg_iff: "sched_ok cr (lv_sched lv) \<Longrightarrow> in_reg lv n = Some r \<longleftrightarrow> r \<in> jobs_of lv \<and> name_of (lv_sched lv) r = n"
  by (auto simp: in_reg_def registry_def sched_ok_def registry_ok_def)

lemma prep_frame:
  assumes "sched_ok cr (lv_sched lv)" "r \<notin> jobs_of lv"
  shows "sched_ok cr (lv_sched (prep_job ops n r lv))" "in_reg (prep_job ops n r lv) = in_reg lv"
    "jobs_of (prep_job ops n r lv) = jobs_of lv" "name_of (lv_sched (prep_job ops n r lv)) r = n"
    "bj_Schedule (s_heap (lv_sched (prep_job ops n r lv)) r) = bj_Schedule (jo_job ops r)"
    "lv_source (prep_job ops n r lv) = lv_source lv"
  using heap_fresh [OF assms] by (simp_all add: prep_job_def in_reg_def registry_def fun_eq_iff)

lemma build_frame:
  assumes "sched_ok cr (lv_sched lv)" "r \<notin> jobs_of lv"
  shows "sched_ok cr (lv_sched (buildMiddlewares ops r lv))" "in_reg (buildMiddlewares ops r lv) = in_reg lv"
    "jobs_of (buildMiddlewares ops r lv) = jobs_of lv" "name_of (lv_sched (buildMiddlewares ops r lv)) r = name_of (lv_sched lv) r"
    "bj_Schedule (s_heap (lv_sched (buildMiddlewares ops r lv)) r) = bj_Schedule (s_heap (lv_sched lv) r)"
    "lv_source (buildMiddlewares ops r lv) = lv_source lv"
  using heap_fresh [OF assms] by (simp_all add: buildMiddlewares_def Let_def in_reg_def registry_def fun_eq_iff)

lemma set_source_frame [simp]:
  "lv_sched (set_source src r lv) = lv_sched lv" "in_reg (set_source src r lv) = in_reg lv"
  "lv_source (set_source src r lv) = (lv_source lv)(r := src)"
  by (simp_all add: set_source_def in_reg_def fun_eq_iff)

lemma remove_frame:
  assumes "cron_laws cr" "sched_ok cr (lv_sched lv)" "in_reg lv n = Some r"
  shows "sched_ok cr (lv_sched (lv_RemoveJob cr r lv))" "in_reg (lv_RemoveJob cr r lv) = (in_reg lv)(n := None)"
    "jobs_of (lv_RemoveJob cr r lv) = jobs_of lv - {r}" "s_heap (lv_sched (lv_RemoveJob cr r lv)) = s_heap (lv_sched lv)"
    "lv_source (lv_RemoveJob cr r lv) = lv_source lv"
proof -
  let ?s = "lv_sched lv"
  have r: "r \<in> set (s_Jobs ?s)" "name_of ?s r = n" using in_reg_iff [OF assms(2)] assms(3) by auto
  have ok: "registry_ok ?s" "entries_ok ?s (set (Entries cr (s_cron ?s)))" using assms(2) by (simp_all add: sched_ok_def)
  note res = RemoveJob_restricted [OF ok r(1), of cr]
  show "sched_ok cr (lv_sched (lv_RemoveJob cr r lv))"
    using sched_ok_RemoveJob [OF assms(1,2) r(1)] by (simp add: lv_RemoveJob_def)
  show "in_reg (lv_RemoveJob cr r lv) = (in_reg lv)(n := None)"
    using restricted_registry [OF res] r(2) by (auto simp: in_reg_def lv_RemoveJob_def restrict_map_def fun_eq_iff)
  have "{x \<in> set (s_Jobs ?s). name_of ?s x \<noteq> n} = set (s_Jobs ?s) - {r}"
    using name_inj [OF ok(1)] r by (auto simp: inj_on_def)
  then show "jobs_of (lv_RemoveJob cr r lv) = jobs_of lv - {r}"
    using res r(2) by (simp add: restricted_def lv_RemoveJob_def)
  show "s_heap (lv_sched (lv_RemoveJob cr r lv)) = s_heap (lv_sched lv)" "lv_source (lv_RemoveJob cr r lv) = lv_source lv"
    by (simp_all add: lv_RemoveJob_def RemoveJob_def Let_def)
qed

text \<open>Schedules that go-cron accepts under a free name of \<open>N\<close>, while its entries have different names, all of
  \<open>N\<close>. (It cannot accept every new name: the identifiers of entries have 64 bits.)\<close>

definition accepts :: "'c cron_api \<Rightarrow> string set \<Rightarrow> string \<Rightarrow> bool" where
  "accepts cr N sched \<longleftrightarrow> sched \<noteq> [] \<and>
     (\<forall>r n now c. n \<in> N \<longrightarrow> n \<noteq> [] \<longrightarrow> n \<notin> ce_Name ` set (Entries cr c) \<longrightarrow> inj_on ce_Name (set (Entries cr c)) \<longrightarrow>
        ce_Name ` set (Entries cr c) \<subseteq> N \<longrightarrow> (\<exists>i c'. AddJob cr sched r n [] now c = (Inr i, c')))"

lemma add_frame:
  assumes "cron_laws cr" "sched_ok cr (lv_sched lv)" "name_of (lv_sched lv) r = n" "n \<noteq> []" "in_reg lv n = None"
    "n \<in> N" "dom (in_reg lv) \<subseteq> N" "accepts cr N (bj_Schedule (s_heap (lv_sched lv) r))"
  shows "sched_ok cr (lv_sched (lv_AddJob cr r lv))" "in_reg (lv_AddJob cr r lv) = (in_reg lv)(n \<mapsto> r)"
    "jobs_of (lv_AddJob cr r lv) = insert r (jobs_of lv)" "lv_source (lv_AddJob cr r lv) = lv_source lv"
proof -
  let ?s = "lv_sched lv"
  have "n \<notin> name_of ?s ` set (s_Jobs ?s)"
    using assms(5) in_reg_iff [OF assms(2), of n] by auto
  moreover have e: "ce_Name ` set (Entries cr (s_cron ?s)) = name_of ?s ` set (s_Jobs ?s)" "inj_on ce_Name (set (Entries cr (s_cron ?s)))"
    using assms(2) entry_names [of ?s "set (Entries cr (s_cron ?s))"] by (simp_all add: sched_ok_def, simp add: entries_ok_def)
  moreover have "name_of ?s ` set (s_Jobs ?s) \<subseteq> N"
    using assms(7) in_reg_iff [OF assms(2)] by (force simp: dom_def)
  ultimately obtain i c where "AddJob cr (bj_Schedule (s_heap ?s r)) r n [] (bj_RunOnStartup (s_heap ?s r)) (s_cron ?s) = (Inr i, c)"
    using assms(4,6,8) unfolding accepts_def by metis
  then obtain s' where s': "AddJobWithTags cr r [] ?s = (None, s')"
    using assms(3,8) by (auto simp: AddJobWithTags_def Let_def accepts_def)
  from AddJobWithTags_ok [OF assms(1,2) _ s'] assms(3,4)
  have "sched_ok cr s'" "registry s' = (registry ?s)(n \<mapsto> (r, False))" "s_Jobs s' = s_Jobs ?s @ [r]" by auto
  then show "sched_ok cr (lv_sched (lv_AddJob cr r lv))" "in_reg (lv_AddJob cr r lv) = (in_reg lv)(n \<mapsto> r)"
    "jobs_of (lv_AddJob cr r lv) = insert r (jobs_of lv)" "lv_source (lv_AddJob cr r lv) = lv_source lv"
    using s' by (auto simp: lv_AddJob_def in_reg_def fun_eq_iff)
qed

section \<open>The invariant of a synchronisation\<close>

text \<open>Every job of the table is the scheduled job of its name; objects of the new configuration that are not in the
  table are not scheduled, and their names are free.\<close>

definition linked :: "'c cron_api \<Rightarrow> string set \<Rightarrow> (ref \<Rightarrow> JobSource) \<Rightarrow> JobSource \<Rightarrow> (string \<rightharpoonup> ref) \<Rightarrow> job_table \<Rightarrow> ('c, 'w) live \<Rightarrow> bool" where
  [inv_defs]: "linked cr N src0 source parsed cur lv \<longleftrightarrow>
     sched_ok cr (lv_sched lv) \<and> distinct (map fst cur) \<and> dom (in_reg lv) \<subseteq> N \<and>
     (\<forall>n r. map_of cur n = Some r \<longrightarrow> in_reg lv n = Some r) \<and>
     (\<forall>n r. parsed n = Some r \<longrightarrow> map_of cur n \<noteq> Some r \<longrightarrow> r \<notin> jobs_of lv) \<and>
     (\<forall>n\<in>dom parsed. map_of cur n = None \<longrightarrow> in_reg lv n = None) \<and>
     (\<forall>r. r \<notin> ran parsed \<longrightarrow> lv_source lv r = src0 r) \<and>
     (\<forall>n r. parsed n = Some r \<longrightarrow> map_of cur n = Some r \<longrightarrow> lv_source lv r = source)"

text \<open>The new configuration: different objects under names, valid, with accepted schedules, and hashes for all.\<close>

definition good_parsed :: "'c cron_api \<Rightarrow> string set \<Rightarrow> 'w job_ops \<Rightarrow> (string \<rightharpoonup> ref) \<Rightarrow> bool" where
  "good_parsed cr N ops parsed \<longleftrightarrow>
     dom parsed \<subseteq> N \<and> [] \<notin> dom parsed \<and> (\<forall>m n r. parsed m = Some r \<longrightarrow> parsed n = Some r \<longrightarrow> m = n) \<and>
     (\<forall>r\<in>ran parsed. jo_Validate ops r = None \<and> accepts cr N (bj_Schedule (jo_job ops r))) \<and>
     (\<forall>r. \<exists>h. jo_Hash ops r = Inr h)"

lemma linkedI:
  assumes "sched_ok cr (lv_sched lv)" "distinct (map fst cur)"
    "\<And>n r. map_of cur n = Some r \<Longrightarrow> in_reg lv n = Some r"
    "\<And>n r. parsed n = Some r \<Longrightarrow> map_of cur n \<noteq> Some r \<Longrightarrow> r \<notin> jobs_of lv"
    "\<And>n r. parsed n = Some r \<Longrightarrow> map_of cur n = None \<Longrightarrow> in_reg lv n = None"
    "\<And>r. r \<notin> ran parsed \<Longrightarrow> lv_source lv r = src0 r"
    "\<And>n r. parsed n = Some r \<Longrightarrow> map_of cur n = Some r \<Longrightarrow> lv_source lv r = source" "dom (in_reg lv) \<subseteq> N"
  shows "linked cr N src0 source parsed cur lv"
  unfolding linked_def using assms by blast

lemma linkedD:
  assumes "linked cr N src0 source parsed cur lv"
  shows "sched_ok cr (lv_sched lv)" "distinct (map fst cur)"
    "map_of cur n = Some r \<Longrightarrow> in_reg lv n = Some r"
    "parsed n = Some r \<Longrightarrow> map_of cur n \<noteq> Some r \<Longrightarrow> r \<notin> jobs_of lv"
    "parsed n = Some r \<Longrightarrow> map_of cur n = None \<Longrightarrow> in_reg lv n = None"
    "r \<notin> ran parsed \<Longrightarrow> lv_source lv r = src0 r"
    "parsed n = Some r \<Longrightarrow> map_of cur n = Some r \<Longrightarrow> lv_source lv r = source" "dom (in_reg lv) \<subseteq> N"
  using assms unfolding linked_def by blast+

lemma good_parsedD:
  assumes "good_parsed cr N ops parsed" "parsed n = Some r"
  shows "n \<noteq> []" "parsed m = Some r \<Longrightarrow> m = n" "jo_Validate ops r = None" "accepts cr N (bj_Schedule (jo_job ops r))"
    "\<exists>h. jo_Hash ops x = Inr h" "n \<in> N"
  using assms unfolding good_parsed_def by (auto simp: ranI)

text \<open>A new object enters the table, in place of the job of its name if there is one.\<close>

lemma enter:
  assumes laws: "cron_laws cr" and good: "good_parsed cr N ops parsed" and l: "linked cr N src0 source parsed cur lv"
    and p: "parsed n = Some r" and fresh: "map_of cur n \<noteq> Some r"
    and lv0: "sched_ok cr (lv_sched lv0)" "in_reg lv0 = (in_reg lv)(n := None)" "jobs_of lv0 \<subseteq> jobs_of lv"
      "lv_source lv0 = (lv_source lv)(r := source)"
      "name_of (lv_sched lv0) r = n" "bj_Schedule (s_heap (lv_sched lv0) r) = bj_Schedule (jo_job ops r)"
  shows "linked cr N src0 source parsed (AList.update n r cur) (lv_AddJob cr r (buildMiddlewares ops r lv0))"
    and "in_reg (lv_AddJob cr r (buildMiddlewares ops r lv0)) = (in_reg lv)(n \<mapsto> r)"
proof -
  let ?lv1 = "buildMiddlewares ops r lv0" and ?lv = "lv_AddJob cr r (buildMiddlewares ops r lv0)"
  have "r \<notin> jobs_of lv0" using linkedD(4) [OF l p fresh] lv0(3) by blast
  note b = build_frame [OF lv0(1) this, of ops]
  have "in_reg ?lv1 n = None" using b(2) lv0(2) by simp
  moreover have "accepts cr N (bj_Schedule (s_heap (lv_sched ?lv1) r))" using b(5) lv0(6) good_parsedD(4) [OF good p] by simp
  moreover have "dom (in_reg ?lv1) \<subseteq> N" using b(2) lv0(2) linkedD(8) [OF l] by auto
  ultimately have a: "sched_ok cr (lv_sched ?lv)" "in_reg ?lv = (in_reg lv)(n \<mapsto> r)" "jobs_of ?lv \<subseteq> insert r (jobs_of lv)"
    "lv_source ?lv = (lv_source lv)(r := source)"
    using add_frame [OF laws b(1), of r n N] b(2-4,6) lv0 good_parsedD(1,6) [OF good p] by auto
  then show "in_reg ?lv = (in_reg lv)(n \<mapsto> r)" by simp
  have inj: "x \<noteq> r" if "parsed m = Some x" "m \<noteq> n" for m x using good_parsedD(2) [OF good p] that by blast
  show "linked cr N src0 source parsed (AList.update n r cur) ?lv"
  proof (rule linkedI)
    show "distinct (map fst (AList.update n r cur))" using linkedD(2) [OF l] by (rule distinct_update)
    fix m x assume "map_of (AList.update n r cur) m = Some x"
    then show "in_reg ?lv m = Some x" using linkedD(3) [OF l] by (auto simp: a(2) update_conv' split: if_splits)
  next
    fix m x assume m: "parsed m = Some x" and "map_of (AList.update n r cur) m \<noteq> Some x"
    then have "m \<noteq> n" "map_of cur m \<noteq> Some x" using p by (auto simp: update_conv' split: if_splits)
    then show "x \<notin> jobs_of ?lv" using linkedD(4) [OF l m] inj [OF m] a(3) by blast
  next
    fix m x assume "parsed m = Some x" "map_of (AList.update n r cur) m = None"
    then show "in_reg ?lv m = None" using linkedD(5) [OF l] by (auto simp: a(2) update_conv' split: if_splits)
  next
    fix x assume "x \<notin> ran parsed"
    then show "lv_source ?lv x = src0 x" using linkedD(6) [OF l] p by (auto simp: a(4) ranI)
  next
    fix m x assume m: "parsed m = Some x" and "map_of (AList.update n r cur) m = Some x"
    then show "lv_source ?lv x = source" using linkedD(7) [OF l m] p by (auto simp: a(4) update_conv' split: if_splits)
  qed (use a(1,2) linkedD(8) [OF l] good_parsedD(6) [OF good p] in auto)
qed

text \<open>A job leaves the table and the scheduler.\<close>

lemma leave:
  assumes "cron_laws cr" and l: "linked cr N src0 source parsed cur lv" and c: "map_of cur n = Some j" and "parsed n = None"
  shows "linked cr N src0 source parsed (AList.delete n cur) (lv_RemoveJob cr j lv)"
proof -
  note r = remove_frame [OF assms(1) linkedD(1) [OF l] linkedD(3) [OF l c]]
  show ?thesis
  proof (rule linkedI)
    show "distinct (map fst (AList.delete n cur))" using linkedD(2) [OF l] by (rule distinct_delete)
    fix m x assume m: "parsed m = Some x" and "map_of (AList.delete n cur) m \<noteq> Some x"
    then have "map_of cur m \<noteq> Some x" using assms(4) by (auto simp: delete_conv' split: if_splits)
    then show "x \<notin> jobs_of (lv_RemoveJob cr j lv)" using linkedD(4) [OF l m] r(3) by blast
  qed (use r(1,2,5) linkedD [OF l] in \<open>auto simp: delete_conv' split: if_splits\<close>)
qed

section \<open>The two loops\<close>

text \<open>What a visit of the name does to a job of the table, and to the entry under a name of the new
  configuration.\<close>

definition foreign :: "(ref \<Rightarrow> JobSource) \<Rightarrow> JobSource \<Rightarrow> ref \<Rightarrow> bool" where
  "foreign src source j \<longleftrightarrow> src j \<noteq> source \<and> src j \<noteq> SrcNone"

definition refreshed :: "'w job_ops \<Rightarrow> (ref \<Rightarrow> JobSource) \<Rightarrow> JobSource \<Rightarrow> ref option \<Rightarrow> ref \<Rightarrow> ref option" where
  "refreshed ops src source new j =
     (if foreign src source j then Some j
      else case new of None \<Rightarrow> None | Some c \<Rightarrow> if jo_Hash ops c = jo_Hash ops j then Some j else Some c)"

definition claimed :: "(ref \<Rightarrow> JobSource) \<Rightarrow> JobSource \<Rightarrow> ref \<Rightarrow> ref option \<Rightarrow> ref option" where
  "claimed src source c x =
     (case x of None \<Rightarrow> Some c | Some j \<Rightarrow> if j \<noteq> c \<and> source = SrcINI \<and> src j = SrcLabel then Some c else Some j)"

abbreviation view :: "job_table \<times> ('c, 'w) live \<Rightarrow> string \<Rightarrow> ref option \<times> ref option" where
  "view st n \<equiv> (map_of (fst st) n, in_reg (snd st) n)"

lemma fold_pointwise:
  assumes "\<And>n j st. (n, j) \<in> set xs \<Longrightarrow> I st \<Longrightarrow> v st n = v st0 n \<Longrightarrow>
      I (f (n, j) st) \<and> v (f (n, j) st) = (v st)(n := g n j)"
    and "distinct (map fst xs)" "I st0"
  shows "I (fold f xs st0) \<and> v (fold f xs st0) = (\<lambda>n. case map_of xs n of None \<Rightarrow> v st0 n | Some j \<Rightarrow> g n j)"
proof -
  have "I (fold f ys st) \<and> v (fold f ys st) = (\<lambda>n. case map_of ys n of None \<Rightarrow> v st n | Some j \<Rightarrow> g n j)"
    if "set ys \<subseteq> set xs" "distinct (map fst ys)" "I st" "\<And>n. n \<in> fst ` set ys \<Longrightarrow> v st n = v st0 n" for ys st
    using that
  proof (induction ys arbitrary: st)
    case (Cons y ys)
    obtain n j where y: "y = (n, j)" by fastforce
    have s: "I (f (n, j) st)" "v (f (n, j) st) = (v st)(n := g n j)"
      using assms(1) [of n j st] Cons.prems y by auto
    have n: "n \<notin> fst ` set ys" "map_of ys n = None"
      using Cons.prems(2) y by (auto simp: map_of_eq_None_iff)
    have "v (f (n, j) st) m = v st0 m" if "m \<in> fst ` set ys" for m
      using Cons.prems(4) [of m] that n s(2) by auto
    with Cons.IH [of "f (n, j) st"] Cons.prems s(1)
    have "I (fold f ys (f (n, j) st))"
      "v (fold f ys (f (n, j) st)) = (\<lambda>m. case map_of ys m of None \<Rightarrow> v (f (n, j) st) m | Some j \<Rightarrow> g m j)"
      by auto
    with s(2) n show ?case by (auto simp: y fun_eq_iff split: option.splits)
  qed simp
  with assms(2,3) show ?thesis by blast
qed

text \<open>Preparing a new object that is not scheduled.\<close>

lemma staged:
  fixes ops :: "'w job_ops" and lv :: "('c, 'w) live"
  assumes "linked cr N src0 source parsed cur lv" "parsed n = Some r" "map_of cur n \<noteq> Some r"
  defines "lv1 \<equiv> set_source source r (prep_job ops n r lv)"
  shows "linked cr N src0 source parsed cur lv1" "in_reg lv1 = in_reg lv" "jobs_of lv1 = jobs_of lv"
    "lv_source lv1 = (lv_source lv)(r := source)" "name_of (lv_sched lv1) r = n"
    "bj_Schedule (s_heap (lv_sched lv1) r) = bj_Schedule (jo_job ops r)"
proof -
  note l = linkedD [OF assms(1)]
  note p = prep_frame [OF l(1) l(4) [OF assms(2,3)], of ops n]
  show eq: "in_reg lv1 = in_reg lv" "jobs_of lv1 = jobs_of lv" "lv_source lv1 = (lv_source lv)(r := source)"
    "name_of (lv_sched lv1) r = n" "bj_Schedule (s_heap (lv_sched lv1) r) = bj_Schedule (jo_job ops r)"
    using p by (simp_all add: lv1_def)
  show "linked cr N src0 source parsed cur lv1"
  proof (rule linkedI)
    show "sched_ok cr (lv_sched lv1)" using p(1) by (simp add: lv1_def)
    show "x \<notin> jobs_of lv1" if "parsed m = Some x" "map_of cur m \<noteq> Some x" for m x
      using l(4) that eq(2) by blast
  qed (use l eq assms(2) in \<open>auto simp: ranI\<close>)
qed

lemma scheduled_not_parsed:
  assumes "linked cr N src0 source parsed cur lv" "map_of cur n = Some j" "parsed n \<noteq> Some j"
  shows "j \<notin> ran parsed"
proof
  note l = linkedD [OF assms(1)]
  assume "j \<in> ran parsed"
  then obtain m where m: "parsed m = Some j" by (auto simp: ran_def)
  have j: "j \<in> jobs_of lv" "name_of (lv_sched lv) j = n" using in_reg_iff [OF l(1)] l(3) [OF assms(2)] by auto
  then have "map_of cur m = Some j" using l(4) [OF m] by blast
  then have "name_of (lv_sched lv) j = m" using in_reg_iff [OF l(1)] l(3) by blast
  with j(2) m assms(3) show False by simp
qed

text \<open>One visit of the first loop.\<close>

lemma sync_current_step:
  assumes laws: "cron_laws cr" and good: "good_parsed cr N ops parsed" and src: "source \<noteq> SrcNone"
    and l: "linked cr N src0 source parsed cur lv" and c: "map_of cur n = Some j" and new: "j \<notin> ran parsed"
  defines "st \<equiv> sync_current cr ops source parsed (n, j) (cur, lv)" and "v \<equiv> refreshed ops src0 source (parsed n) j"
  shows "linked cr N src0 source parsed (fst st) (snd st) \<and> view st = (view (cur, lv))(n := (v, v))"
proof -
  have reg: "in_reg lv n = Some j" and sj: "lv_source lv j = src0 j" using linkedD(3,6) [OF l] c new by auto
  consider "foreign src0 source j" | "\<not> foreign src0 source j" "parsed n = None"
    | r where "\<not> foreign src0 source j" "parsed n = Some r" by blast
  then show ?thesis
  proof cases
    case 1
    then show ?thesis using src sj c reg l by (auto simp: st_def v_def sync_current_def refreshed_def foreign_def)
  next
    case 2
    then have "st = (AList.delete n cur, lv_RemoveJob cr j lv)" "v = None"
      using sj by (auto simp: st_def v_def sync_current_def refreshed_def foreign_def)
    then show ?thesis using leave [OF laws l c 2(2)] remove_frame(2) [OF laws linkedD(1) [OF l] reg]
      by (auto simp: delete_conv' fun_eq_iff)
  next
    case (3 r)
    let ?lv1 = "set_source source r (prep_job ops n r lv)"
    have fresh: "map_of cur n \<noteq> Some r" using new 3(2) c by (auto simp: ranI)
    note stg = staged [OF l 3(2) fresh, of ops]
    obtain h h' where h: "jo_Hash ops r = Inr h" "jo_Hash ops j = Inr h'" using good_parsedD(5) [OF good 3(2)] by metis
    show ?thesis
    proof (cases "h = h'")
      case True
      then have "st = (cur, ?lv1)" "v = Some j"
        using 3 sj h good_parsedD(3) [OF good 3(2)]
        by (auto simp: st_def v_def sync_current_def refreshed_def foreign_def replaceIfChanged_def Let_def)
      then show ?thesis using stg(1,2) c reg by auto
    next
      case False
      let ?lv0 = "lv_RemoveJob cr j ?lv1"
      have st: "st = (AList.update n r cur, lv_AddJob cr r (buildMiddlewares ops r ?lv0))" "v = Some r"
        using False 3 sj h good_parsedD(3) [OF good 3(2)]
        by (auto simp: st_def v_def sync_current_def refreshed_def foreign_def replaceIfChanged_def Let_def)
      have "in_reg ?lv1 n = Some j" using stg(2) reg by simp
      note rm = remove_frame [OF laws linkedD(1) [OF stg(1)] this]
      have "jobs_of ?lv0 \<subseteq> jobs_of lv" using rm(3) stg(3) by blast
      note e = enter [OF laws good l 3(2) fresh rm(1) _ this]
      show ?thesis unfolding st fst_conv snd_conv using e stg rm by (auto simp: update_conv' fun_eq_iff)
    qed
  qed
qed

text \<open>One visit of the second loop.\<close>

lemma addNewJob_step:
  assumes laws: "cron_laws cr" and good: "good_parsed cr N ops parsed" and src: "source \<noteq> SrcNone"
    and l: "linked cr N src0 source parsed cur lv" and p: "parsed n = Some r" and fresh: "map_of cur n \<noteq> Some r"
    and lv': "sched_ok cr (lv_sched lv')" "in_reg lv' = (in_reg lv)(n := None)" "jobs_of lv' \<subseteq> jobs_of lv" "lv_source lv' = lv_source lv"
  defines "st \<equiv> addNewJob cr ops n r source (cur, lv')"
  shows "linked cr N src0 source parsed (fst st) (snd st) \<and> view st = (view (cur, lv))(n := (Some r, Some r))"
proof -
  let ?lv0 = "prep_job ops n r (set_source source r lv')"
  have st: "st = (AList.update n r cur, lv_AddJob cr r (buildMiddlewares ops r ?lv0))"
    using src good_parsedD(3) [OF good p] by (simp add: st_def addNewJob_def Let_def)
  have "r \<notin> jobs_of (set_source source r lv')" using linkedD(4) [OF l p fresh] lv'(3) by auto
  note pf = prep_frame [OF _ this, of cr ops n]
  have "jobs_of ?lv0 \<subseteq> jobs_of lv" using pf lv' by simp
  note e = enter [OF laws good l p fresh _ _ this]
  show ?thesis unfolding st fst_conv snd_conv using e pf lv' by (auto simp: update_conv' fun_eq_iff)
qed

lemma sync_parsed_step:
  assumes laws: "cron_laws cr" and good: "good_parsed cr N ops parsed" and src: "source \<noteq> SrcNone"
    and l: "linked cr N src0 source parsed cur lv" and p: "parsed n = Some r"
  defines "st \<equiv> sync_parsed cr ops source (n, r) (cur, lv)" and "v \<equiv> claimed src0 source r (map_of cur n)"
  shows "linked cr N src0 source parsed (fst st) (snd st) \<and> view st = (view (cur, lv))(n := (v, v))"
proof -
  consider "map_of cur n = None" | "map_of cur n = Some r" | j where "map_of cur n = Some j" "j \<noteq> r"
    by (cases "map_of cur n") auto
  then show ?thesis
  proof cases
    case 1
    then have "in_reg lv n = None" using linkedD(5) [OF l p] by blast
    with 1 addNewJob_step [OF laws good src l p, of lv] linkedD(1) [OF l] show ?thesis
      by (auto simp: st_def v_def sync_parsed_def claimed_def fun_upd_idem)
  next
    case 2
    then show ?thesis using linkedD(3,7) [OF l] p l
      by (auto simp: st_def v_def sync_parsed_def claimed_def fun_eq_iff)
  next
    case (3 j)
    then have sj: "lv_source lv j = src0 j" and reg: "in_reg lv n = Some j"
      using scheduled_not_parsed [OF l 3(1)] p linkedD(3,6) [OF l] by auto
    show ?thesis
    proof (cases "source = SrcINI \<and> src0 j = SrcLabel")
      case True
      then have "st = addNewJob cr ops n r source (cur, lv_RemoveJob cr j lv)" "v = Some r"
        using 3 sj by (auto simp: st_def v_def sync_parsed_def claimed_def)
      then show ?thesis
        using addNewJob_step [OF laws good src l p, of "lv_RemoveJob cr j lv"]
          remove_frame [OF laws linkedD(1) [OF l] reg] 3 by auto
    next
      case False
      then have "st = (cur, lv)" "v = Some j" using 3 sj by (auto simp: st_def v_def sync_parsed_def claimed_def)
      then show ?thesis using l 3 reg by (auto simp: fun_eq_iff)
    qed
  qed
qed

section \<open>The table after a synchronisation\<close>

text \<open>The table before: it lists scheduled jobs. The new configuration: objects that are not scheduled, under names
  that no job outside the table has.\<close>

definition in_step :: "'c cron_api \<Rightarrow> job_table \<Rightarrow> ('c, 'w) live \<Rightarrow> bool" where
  "in_step cr cur lv \<longleftrightarrow> sched_ok cr (lv_sched lv) \<and> distinct (map fst cur) \<and> map_of cur \<subseteq>\<^sub>m in_reg lv"

definition new_objects :: "job_table \<Rightarrow> job_table \<Rightarrow> ('c, 'w) live \<Rightarrow> bool" where
  "new_objects parsed cur lv \<longleftrightarrow>
     distinct (map fst parsed) \<and> ran (map_of parsed) \<inter> jobs_of lv = {} \<and>
     dom (map_of parsed) \<inter> dom (in_reg lv) \<subseteq> dom (map_of cur)"

text \<open>What a name stands for afterwards.\<close>

definition reconciled ::
  "'w job_ops \<Rightarrow> (ref \<Rightarrow> JobSource) \<Rightarrow> JobSource \<Rightarrow> (string \<rightharpoonup> ref) \<Rightarrow> (string \<rightharpoonup> ref) \<Rightarrow> string \<rightharpoonup> ref" where
  "reconciled ops src source cur parsed n =
     (case cur n of
        None \<Rightarrow> parsed n
      | Some j \<Rightarrow>
          if foreign src source j
          then (if source = SrcINI \<and> src j = SrcLabel \<and> parsed n \<noteq> None then parsed n else Some j)
          else case parsed n of None \<Rightarrow> None | Some c \<Rightarrow> if jo_Hash ops c = jo_Hash ops j then Some j else Some c)"

lemma new_objectsD:
  assumes "new_objects parsed cur lv" "map_of parsed n = Some r"
  shows "r \<notin> jobs_of lv" "map_of cur n = None \<Longrightarrow> in_reg lv n = None"
  using assms(1) ranI [of "map_of parsed" n, OF assms(2)] domI [of "map_of parsed" n, OF assms(2)]
  unfolding new_objects_def by blast+

lemma linked_start:
  assumes "in_step cr cur lv" "new_objects parsed cur lv" "dom (in_reg lv) \<subseteq> N"
  shows "linked cr N (lv_source lv) source (map_of parsed) cur lv"
proof (rule linkedI)
  have ok: "sched_ok cr (lv_sched lv)" and m: "map_of cur \<subseteq>\<^sub>m in_reg lv" using assms(1) by (simp_all add: in_step_def)
  show reg: "in_reg lv n = Some r" if "map_of cur n = Some r" for n r
    using m that by (auto simp: map_le_def dom_def)
  note fresh = new_objectsD(1) [OF assms(2)]
  show "r \<notin> jobs_of lv" if "map_of parsed n = Some r" for n r by (rule fresh [OF that])
  show "in_reg lv n = None" if "map_of parsed n = Some r" "map_of cur n = None" for n r
    by (rule new_objectsD(2) [OF assms(2) that])
  show "lv_source lv r = source" if "map_of parsed n = Some r" "map_of cur n = Some r" for n r
    using fresh [OF that(1)] reg [OF that(2)] in_reg_iff [OF ok] by blast
qed (use assms in \<open>simp_all add: in_step_def\<close>)

lemma two_visits:
  "(case parsed n of None \<Rightarrow> (case cur n of None \<Rightarrow> None | Some j \<Rightarrow> refreshed ops src source (parsed n) j)
      | Some c \<Rightarrow> claimed src source c (case cur n of None \<Rightarrow> None | Some j \<Rightarrow> refreshed ops src source (parsed n) j)) =
   reconciled ops src source cur parsed n"
  by (cases "cur n"; cases "parsed n") (auto simp: reconciled_def refreshed_def claimed_def foreign_def)

lemma first_loop:
  assumes laws: "cron_laws cr" and good: "good_parsed cr N ops (map_of parsed)" and src: "source \<noteq> SrcNone"
    and pre: "in_step cr cur lv" "new_objects parsed cur lv" "dom (in_reg lv) \<subseteq> N"
  defines "st \<equiv> fold (sync_current cr ops source (map_of parsed)) cur (cur, lv)"
    and "v \<equiv> \<lambda>n. case map_of cur n of None \<Rightarrow> None | Some j \<Rightarrow> refreshed ops (lv_source lv) source (map_of parsed n) j"
  shows "linked cr N (lv_source lv) source (map_of parsed) (fst st) (snd st) \<and>
    view st = (\<lambda>n. (v n, if map_of cur n = None then in_reg lv n else v n))"
proof -
  note l = linked_start [OF pre, of source]
  have d: "distinct (map fst cur)" using pre(1) by (simp add: in_step_def)
  let ?I = "\<lambda>st. linked cr N (lv_source lv) source (map_of parsed) (fst st) (snd st)"
  let ?g = "\<lambda>n j. (refreshed ops (lv_source lv) source (map_of parsed n) j, refreshed ops (lv_source lv) source (map_of parsed n) j)"
  have "?I st \<and> view st = (\<lambda>n. case map_of cur n of None \<Rightarrow> view (cur, lv) n | Some j \<Rightarrow> ?g n j)"
    unfolding st_def
  proof (rule fold_pointwise [OF _ d])
    fix n j and st' :: "job_table \<times> ('a, 'b) live"
    assume nj: "(n, j) \<in> set cur" and I: "?I st'" and same: "view st' n = view (cur, lv) n"
    have c: "map_of cur n = Some j" using nj d by simp
    then have "j \<notin> ran (map_of parsed)"
      using pre(2) linkedD(3) [OF l c] in_reg_iff [OF linkedD(1) [OF l]] by (auto simp: new_objects_def)
    then show "?I (sync_current cr ops source (map_of parsed) (n, j) st') \<and>
        view (sync_current cr ops source (map_of parsed) (n, j) st') = (view st')(n := ?g n j)"
      using sync_current_step [OF laws good src I, of n j] same c by (cases st') simp
  qed (use l in simp)
  then show ?thesis unfolding v_def by (auto simp: fun_eq_iff split: option.splits)
qed

lemma second_loop:
  assumes laws: "cron_laws cr" and good: "good_parsed cr N ops (map_of parsed)" and src: "source \<noteq> SrcNone"
    and d: "distinct (map fst parsed)" and l: "linked cr N src0 source (map_of parsed) (fst st) (snd st)"
  defines "st' \<equiv> fold (sync_parsed cr ops source) parsed st"
    and "v \<equiv> \<lambda>n c. claimed src0 source c (map_of (fst st) n)"
  shows "linked cr N src0 source (map_of parsed) (fst st') (snd st') \<and>
    view st' = (\<lambda>n. case map_of parsed n of None \<Rightarrow> view st n | Some c \<Rightarrow> (v n c, v n c))"
  unfolding st'_def
proof (rule fold_pointwise [OF _ d])
  let ?I = "\<lambda>st. linked cr N src0 source (map_of parsed) (fst st) (snd st)"
  fix n c and st1 :: "job_table \<times> ('a, 'b) live"
  assume nj: "(n, c) \<in> set parsed" and I: "?I st1" and same: "view st1 n = view st n"
  then have p: "map_of parsed n = Some c" using d by simp
  show "?I (sync_parsed cr ops source (n, c) st1) \<and>
      view (sync_parsed cr ops source (n, c) st1) = (view st1)(n := (v n c, v n c))"
    using sync_parsed_step [OF laws good src I p] same by (cases st1) (simp add: v_def)
qed (use l in simp)

text \<open>The whole synchronisation.\<close>

lemma sync_sound:
  assumes "cron_laws cr" "source \<noteq> SrcNone" "in_step cr cur lv" "new_objects parsed cur lv"
    "good_parsed cr N ops (map_of parsed)" "dom (in_reg lv) \<subseteq> N"
  defines "new \<equiv> reconciled ops (lv_source lv) source (map_of cur) (map_of parsed)"
  shows "case syncJobMap cr ops source parsed (cur, lv) of (cur', lv') \<Rightarrow>
    map_of cur' = new \<and> in_step cr cur' lv' \<and>
    in_reg lv' = (\<lambda>n. if map_of cur n = None \<and> map_of parsed n = None then in_reg lv n else new n) \<and>
    (\<forall>r. r \<notin> ran (map_of parsed) \<longrightarrow> lv_source lv' r = lv_source lv r)"
proof -
  obtain cur' lv' where st: "syncJobMap cr ops source parsed (cur, lv) = (cur', lv')" by fastforce
  have d: "distinct (map fst parsed)" using assms(4) by (simp add: new_objects_def)
  note one = first_loop [OF assms(1,5,2,3,4,6)]
  note two = second_loop [OF assms(1,5,2) d conjunct1 [OF one], folded syncJobMap_def [of cr ops source parsed "(cur, lv)", simplified], unfolded st]
  have "map_of cur' n = new n \<and> in_reg lv' n = (if map_of cur n = None \<and> map_of parsed n = None then in_reg lv n else new n)" for n
    using fun_cong [OF conjunct2 [OF one], of n] fun_cong [OF conjunct2 [OF two], of n]
    unfolding new_def two_visits [symmetric] by (cases "map_of parsed n"; cases "map_of cur n") simp_all
  moreover have "in_step cr cur' lv'" "\<forall>r. r \<notin> ran (map_of parsed) \<longrightarrow> lv_source lv' r = lv_source lv r"
    using linkedD(1-3,6) [OF conjunct1 [OF two]] by (auto simp: in_step_def map_le_def)
  ultimately show ?thesis unfolding st by (simp add: fun_eq_iff)
qed

section \<open>Properties\<close>

text \<open>C2 (sync_follows_configuration): let every job of the table be the scheduled job of its name in a consistent
  scheduler, and let the new configuration bring new objects with distinct, non-empty names that are valid, that can be
  hashed and whose schedules go-cron accepts, where no job outside the table holds one of the new names. Then a synchronisation
  for one source leaves the table that the rules describe (jobs of the source that are gone are dropped, changed ones replaced,
  unchanged ones kept, jobs of the other source kept except that an INI job takes a label job's
  name), the scheduler runs exactly these jobs under these names and no other job is touched. What happens when
  a name is taken by another kind of job, or a schedule is refused, is stated by \<^verbatim>\<open>clashing_name_unschedules\<close> and
  \<^verbatim>\<open>bad_schedule_drops_job\<close>.\<close>

theorem sync_follows_configuration:
  fixes lv :: "('c, 'w) live"
  assumes "cron_laws cr" "source \<noteq> SrcNone" "in_step cr cur lv" "new_objects parsed cur lv"
    "good_parsed cr (dom (in_reg lv) \<union> dom (map_of parsed)) ops (map_of parsed)"
  defines "new \<equiv> reconciled ops (lv_source lv) source (map_of cur) (map_of parsed)"
  shows "case syncJobMap cr ops source parsed (cur, lv) of (cur', lv') \<Rightarrow>
    map_of cur' = new \<and> in_step cr cur' lv' \<and>
    in_reg lv' = (\<lambda>n. if map_of cur n = None \<and> map_of parsed n = None then in_reg lv n else new n)"
  using sync_sound [OF assms(1-5) Un_upper1] unfolding new_def by (auto split: prod.splits)

text \<open>A list of entries that gives a new entry the first free identifier, and two jobs on it.\<close>

definition first_free :: "nat set \<Rightarrow> nat" where
  "first_free I = hd (filter (\<lambda>i. i \<notin> I) [1..<card I + 2])"

definition small_cron :: "cron_entry list cron_api" where
  "small_cron = list_cron\<lparr>AddJob := (\<lambda>sched r n tags now c.
     let i = first_free (ce_ID ` set c) in
     if n \<in> ce_Name ` set c then (Inl (Opaque 3 ''duplicate name''), c)
     else if 2 ^ 64 \<le> i then (Inl (Opaque 4 ''too many entries''), c)
     else (Inr i, c @ [\<lparr>ce_ID = i, ce_Name = n, ce_Tags = tags\<rparr>]))\<rparr>"

lemma first_free: "finite I \<Longrightarrow> first_free I \<notin> I \<and> 0 < first_free I \<and> first_free I < card I + 2"
proof -
  assume "finite I"
  let ?xs = "filter (\<lambda>i. i \<notin> I) [1..<card I + 2]"
  have "?xs \<noteq> []"
  proof
    assume "?xs = []"
    then have "{1..<card I + 2} \<subseteq> I" unfolding filter_empty_conv set_upt by blast
    from card_mono [OF \<open>finite I\<close> this] show False by simp
  qed
  then have "first_free I \<in> set ?xs" unfolding first_free_def by (rule hd_in_set)
  then show ?thesis unfolding set_filter set_upt by auto
qed

lemma small_cron_laws: "cron_laws small_cron"
proof -
  have ff: "first_free (ce_ID ` set c) \<notin> ce_ID ` set c" "0 < first_free (ce_ID ` set c)" for c
    using first_free [of "ce_ID ` set c"] by simp_all
  show ?thesis
    unfolding cron_laws_def cron_add_law_def cron_remove_law_def cron_pause_law_def cron_frame_law_def
    by (simp add: small_cron_def list_cron_def Let_def ff)
qed

lemma small_cron_accepts:
  assumes "finite N" "card N < 100" "sched \<noteq> []"
  shows "accepts small_cron N sched"
proof -
  have "first_free (ce_ID ` set c) < 2 ^ 64" if "inj_on ce_Name (set c)" "ce_Name ` set c \<subseteq> N" for c :: "cron_entry list"
  proof -
    have "card (ce_ID ` set c) \<le> card (set c)" by (simp add: card_image_le)
    also have "\<dots> = card (ce_Name ` set c)" using that(1) by (simp add: card_image)
    also have "\<dots> \<le> card N" using assms(1) that(2) by (rule card_mono)
    finally show ?thesis using first_free [of "ce_ID ` set c"] assms(2) by simp
  qed
  then show ?thesis using assms(3) by (auto simp: accepts_def small_cron_def list_cron_def Let_def not_le [symmetric])
qed

definition sync_ops :: "unit job_ops" where
  "sync_ops = \<lparr>jo_job = (\<lambda>r. (plain_job [] [])\<lparr>bj_Schedule := ''@daily''\<rparr>), jo_Validate = (\<lambda>r. None),
     jo_Hash = (\<lambda>r. Inr (if r = 0 then ''old'' else ''new'')), jo_mws = (\<lambda>r. [])\<rparr>"

definition one_live :: "(cron_entry list, unit) live" where
  "one_live = \<lparr>lv_sched = snd (AddJobWithTags small_cron 0 [] (newSchedulerInternal small_cron two_jobs)), lv_source = (\<lambda>r. SrcLabel)\<rparr>"

lemma one_live_facts:
  "sched_ok small_cron (lv_sched one_live)" "in_reg one_live = [''a'' \<mapsto> 0]" "jobs_of one_live = {0}"
proof -
  let ?s = "newSchedulerInternal small_cron two_jobs"
  let ?lv = "\<lparr>lv_sched = ?s, lv_source = (\<lambda>r. SrcLabel)\<rparr> :: (cron_entry list, unit) live"
  have f: "name_of ?s 0 = ''a''" "in_reg ?lv = Map.empty" "jobs_of ?lv = {}" "bj_Schedule (s_heap ?s 0) \<noteq> []"
    by (simp_all add: newSchedulerInternal_def two_jobs_def plain_job_def in_reg_def registry_def fun_eq_iff)
  have "accepts small_cron {''a''} (bj_Schedule (s_heap ?s 0))" by (rule small_cron_accepts) (use f in simp_all)
  with add_frame [OF small_cron_laws, of ?lv 0 "''a''" "{''a''}"] sched_ok_init [OF small_cron_laws, of two_jobs] f
  show "sched_ok small_cron (lv_sched one_live)" "in_reg one_live = [''a'' \<mapsto> 0]" "jobs_of one_live = {0}"
    by (simp_all add: one_live_def lv_AddJob_def)
qed

theorem sync_follows_configuration_witness:
  "case syncJobMap small_cron sync_ops SrcLabel [(''a'', 1), (''b'', 2)] ([(''a'', 0)], one_live) of (cur', lv') \<Rightarrow>
     map_of cur' = [''a'' \<mapsto> 1, ''b'' \<mapsto> 2] \<and> in_reg lv' = [''a'' \<mapsto> 1, ''b'' \<mapsto> 2]"
proof -
  let ?p = "[(''a'', 1), (''b'', 2)] :: job_table"
  have src: "SrcLabel \<noteq> SrcNone" by simp
  have pre: "in_step small_cron [(''a'', 0)] one_live" "new_objects ?p [(''a'', 0)] one_live"
    using one_live_facts by (simp_all add: in_step_def new_objects_def ran_def)
  have "good_parsed small_cron (dom (in_reg one_live) \<union> dom (map_of ?p)) sync_ops (map_of ?p)"
    unfolding good_parsed_def
    using small_cron_accepts [of "{''a'', ''b''}" "''@daily''"]
    by (auto simp: one_live_facts sync_ops_def insert_commute split: if_splits)
  note sync = sync_follows_configuration [OF small_cron_laws src pre this]
  have new: "reconciled sync_ops (lv_source one_live) SrcLabel (map_of [(''a'', 0)]) (map_of ?p) = [''a'' \<mapsto> 1, ''b'' \<mapsto> 2]"
    by (auto simp: one_live_def reconciled_def foreign_def sync_ops_def fun_eq_iff)
  have "(\<lambda>n. if map_of [(''a'', 0)] n = None \<and> map_of ?p n = None then in_reg one_live n else [''a'' \<mapsto> 1, ''b'' \<mapsto> 2] n) =
      [''a'' \<mapsto> 1, ''b'' \<mapsto> 2]"
    by (simp add: one_live_facts fun_eq_iff)
  with sync show ?thesis unfolding new by (auto split: prod.splits)
qed

section \<open>Errors that are dropped\<close>

text \<open>A failed registration changes neither the list of jobs nor the lookup.\<close>

lemma add_failed:
  assumes "fst (AddJobWithTags cr r [] (lv_sched lv)) \<noteq> None"
  shows "in_reg (lv_AddJob cr r lv) = in_reg lv" "s_Jobs (lv_sched (lv_AddJob cr r lv)) = s_Jobs (lv_sched lv)"
    "lv_source (lv_AddJob cr r lv) = lv_source lv"
    "name_of (lv_sched (lv_AddJob cr r lv)) = name_of (lv_sched lv)" "id_of (lv_sched (lv_AddJob cr r lv)) = id_of (lv_sched lv)"
  using assms by (auto simp: lv_AddJob_def AddJobWithTags_def use_global_mws_def Let_def in_reg_def registry_def fun_eq_iff
      split: if_splits prod.splits sum.splits)

definition rejects :: "'c cron_api \<Rightarrow> string \<Rightarrow> bool" where
  "rejects cr sched \<longleftrightarrow> (\<forall>r n now c. \<exists>e c'. AddJob cr sched r n [] now c = (Inl e, c'))"

lemma remove_first_keeps: "x \<in> set xs \<Longrightarrow> \<not> P x \<Longrightarrow> x \<in> set (remove_first P xs)"
  by (induction xs) auto

lemma entry_id_pos:
  assumes "entries_ok s E" "x \<in> set (s_Jobs s)"
  shows "id_of s x \<noteq> 0"
proof -
  have "(name_of s x, id_of s x) \<in> (\<lambda>e. (ce_Name e, of_nat (ce_ID e))) ` E"
    using assms unfolding entries_ok_def by blast
  then obtain e where e: "e \<in> E" "id_of s x = of_nat (ce_ID e)" by auto
  then have "0 < ce_ID e" "ce_ID e < 2 ^ 64" using assms(1) unfolding entries_ok_def by blast+
  then show ?thesis unfolding e(2) by (simp add: word_of_nat_eq_0_iff nat_dvd_not_less)
qed

text \<open>(bad_schedule_drops_job): when a changed job of the configuration has a schedule that go-cron rejects, \<^verbatim>\<open>replaceIfChanged\<close>
  has already removed the old job; it ignores the error and reports the update as done, so the job is
  no longer scheduled under its name although the table has it.\<close>

theorem bad_schedule_drops_job:
  assumes "sched_ok cr (lv_sched lv)" "in_reg lv n = Some oldJob" "newJob \<notin> jobs_of lv"
    "jo_Validate ops newJob = None" "jo_Hash ops newJob = Inr h" "jo_Hash ops oldJob = Inr h'" "h \<noteq> h'"
    "rejects cr (bj_Schedule (jo_job ops newJob))"
  shows "case replaceIfChanged cr ops n oldJob newJob source lv of
    (updated, lv') \<Rightarrow> updated \<and> in_reg lv' n = None \<and> (\<forall>m. m \<noteq> n \<longrightarrow> in_reg lv' m = in_reg lv m)"
proof -
  let ?lv1 = "set_source source newJob (prep_job ops n newJob lv)"
  let ?lv2 = "buildMiddlewares ops newJob (lv_RemoveJob cr oldJob ?lv1)"
  have old: "name_of (lv_sched lv) oldJob = n" "oldJob \<noteq> newJob" using in_reg_iff [OF assms(1)] assms(2,3) by auto
  have r: "replaceIfChanged cr ops n oldJob newJob source lv = (True, lv_AddJob cr newJob ?lv2)"
    using assms(4-7) by (simp add: replaceIfChanged_def Let_def)
  have "bj_Schedule (s_heap (lv_sched ?lv2) newJob) = bj_Schedule (jo_job ops newJob)"
    by (simp add: buildMiddlewares_def lv_RemoveJob_def RemoveJob_def prep_job_def Let_def)
  then have "fst (AddJobWithTags cr newJob [] (lv_sched ?lv2)) \<noteq> None"
    using assms(8) by (auto simp: rejects_def AddJobWithTags_def use_global_mws_def Let_def split: prod.splits sum.splits) (metis Pair_inject sum.distinct(1))
  then have "in_reg (lv_AddJob cr newJob ?lv2) = in_reg ?lv2" by (rule add_failed(1))
  also have "\<dots> = (in_reg lv)(n := None)"
    using old by (auto simp: buildMiddlewares_def lv_RemoveJob_def RemoveJob_def prep_job_def Let_def
        set_source_def in_reg_def registry_def fun_eq_iff)
  finally show ?thesis unfolding r by simp
qed

theorem bad_schedule_drops_job_witness:
  "case replaceIfChanged (small_cron\<lparr>AddJob := (\<lambda>sched r n tags now c. (Inl (Opaque 5 ''bad spec''), c))\<rparr>) sync_ops ''a'' 0 1 SrcLabel one_live of
     (updated, lv') \<Rightarrow> updated \<and> in_reg lv' ''a'' = None"
proof -
  let ?cr = "small_cron\<lparr>AddJob := (\<lambda>sched r n tags now c. (Inl (Opaque 5 ''bad spec''), c))\<rparr>"
  have ok: "sched_ok ?cr (lv_sched one_live)" using one_live_facts(1) by (simp add: sched_ok_def)
  show ?thesis
    using bad_schedule_drops_job [OF ok, of "''a''" 0 1 sync_ops "''new''" "''old''" SrcLabel]
    by (auto simp: one_live_facts sync_ops_def rejects_def split: prod.splits)
qed

text \<open>(clashing_name_unschedules): names are unique in the scheduler but each kind of job has its own table. A new
  job whose name a job of another kind has is not scheduled, the error is dropped and the table lists it; when
  its labels go away, the removal by name takes the other job out of go-cron and out of the
  lookup, while the list of jobs keeps it.\<close>

theorem clashing_name_unschedules:
  assumes laws: "cron_laws cr" and ok: "sched_ok cr (lv_sched lv)" and x: "in_reg lv n = Some x" and r: "r \<notin> jobs_of lv"
    and v: "jo_Validate ops r = None" "bj_cronID (jo_job ops r) = 0" and src: "source \<noteq> SrcNone"
  shows "case syncJobMap cr ops source [(n, r)] ([], lv) of (cur1, lv1) \<Rightarrow>
    cur1 = [(n, r)] \<and> in_reg lv1 n = Some x \<and>
    (case syncJobMap cr ops source [] (cur1, lv1) of (cur2, lv2) \<Rightarrow>
      cur2 = [] \<and> in_reg lv2 n = None \<and> n \<notin> ce_Name ` set (Entries cr (s_cron (lv_sched lv2))) \<and> x \<in> jobs_of lv2)"
proof -
  let ?lv0 = "prep_job ops n r (set_source source r lv)"
  let ?lvb = "buildMiddlewares ops r ?lv0"
  let ?lv1 = "lv_AddJob cr r ?lvb"
  have x': "x \<in> jobs_of lv" "name_of (lv_sched lv) x = n" "x \<noteq> r" using in_reg_iff [OF ok] x r by auto
  then have "n \<in> name_of (lv_sched lv) ` jobs_of lv" by blast
  then have n: "n \<noteq> []" using ok unfolding sched_ok_def registry_ok_def by metis
  have r': "r \<notin> jobs_of (set_source source r lv)" "r \<notin> jobs_of ?lv0" using r by (simp_all add: prep_job_def)
  note p = prep_frame [OF _ r'(1), of cr ops n, simplified, OF ok]
  note b = build_frame [OF p(1) r'(2), of ops]
  have "fst (AddJobWithTags cr r [] (lv_sched ?lvb)) \<noteq> None"
  proof
    assume "fst (AddJobWithTags cr r [] (lv_sched ?lvb)) = None"
    then have "registry (lv_sched ?lvb) n = None"
      using AddJobWithTags_ok [OF laws b(1), of r "[]"] b(4) p(4) n by (cases "AddJobWithTags cr r [] (lv_sched ?lvb)") auto
    then have "in_reg ?lvb n = None" by (simp add: in_reg_def)
    then show False using b(2) p(2) x by simp
  qed
  note a = add_failed [OF this]
  have st1: "syncJobMap cr ops source [(n, r)] ([], lv) = ([(n, r)], ?lv1)"
    using src v(1) by (simp add: syncJobMap_def sync_parsed_def addNewJob_def Let_def)
  have reg: "in_reg ?lv1 n = Some x" using a(1) b(2) p(2) x by simp
  have nr: "name_of (lv_sched ?lv1) r = n" using fun_cong [OF a(4), of r] b(4) p(4) by simp
  have "id_of (lv_sched ?lv1) r = 0" using fun_cong [OF a(5), of r] v(2) by (simp add: buildMiddlewares_def prep_job_def Let_def)
  moreover have "id_of (lv_sched lv) x \<noteq> 0"
  proof -
    have "entries_ok (lv_sched lv) (set (Entries cr (s_cron (lv_sched lv))))" using ok by (simp add: sched_ok_def)
    then show ?thesis using x'(1) by (rule entry_id_pos)
  qed
  then have "id_of (lv_sched ?lv1) x \<noteq> 0" using fun_cong [OF a(5), of x] x'(3) by (simp add: buildMiddlewares_def prep_job_def Let_def)
  moreover have "x \<in> jobs_of ?lv1" using a(2) b(3) p(3) x'(1) by simp
  ultimately have "x \<in> jobs_of (lv_RemoveJob cr r ?lv1)"
    using x'(3) by (simp add: lv_RemoveJob_def RemoveJob_def Let_def remove_first_keeps)
  moreover have "in_reg (lv_RemoveJob cr r ?lv1) n = None" using nr
    by (simp add: lv_RemoveJob_def RemoveJob_def Let_def in_reg_def registry_def)
  moreover have "n \<notin> ce_Name ` set (Entries cr (s_cron (lv_sched (lv_RemoveJob cr r ?lv1))))" using nr laws n
    by (auto simp: lv_RemoveJob_def RemoveJob_def Let_def cron_laws_def cron_remove_law_def cron_frame_law_def)
  moreover have "lv_source ?lv1 r = source" using a(3) b(6) p(6) by simp
  then have "syncJobMap cr ops source [] ([(n, r)], ?lv1) = ([], lv_RemoveJob cr r ?lv1)"
    by (simp add: syncJobMap_def sync_current_def)
  ultimately show ?thesis using st1 reg by simp
qed

theorem clashing_name_unschedules_witness:
  "case syncJobMap small_cron sync_ops SrcLabel [(''a'', 1)] ([], one_live) of (cur1, lv1) \<Rightarrow>
     cur1 = [(''a'', 1)] \<and>
     (case syncJobMap small_cron sync_ops SrcLabel [] (cur1, lv1) of (cur2, lv2) \<Rightarrow> in_reg lv2 ''a'' = None \<and> 0 \<in> jobs_of lv2)"
  using clashing_name_unschedules [OF small_cron_laws one_live_facts(1), of "''a''" 0 1 sync_ops SrcLabel]
  by (auto simp: one_live_facts sync_ops_def plain_job_def split: prod.splits)

end
