(* ===== verification/Reload.thy ===== *)
theory Reload
  imports Reconcile ServiceJob
begin

text \<open>
  The configuration of a running daemon (\<^verbatim>\<open>src/cli/config.go\<close>, \<^verbatim>\<open>src/cli/config_webhook.go\<close>, \<^verbatim>\<open>GetDockerContainers\<close> and
  \<^verbatim>\<open>refreshContainerLabels\<close> of \<^verbatim>\<open>src/cli/docker_config_handler.go\<close>): start-up, updates from container labels and reloads
  of the INI file, over the tables of all kinds of jobs. Decoding of labels and of the INI
  file is an argument; so is what the job objects hold at an update (\<open>job_ops\<close>, which depends on the global
  settings, the deduplicator and the webhook manager that the preparation of a job reads).
\<close>

section \<open>Containers\<close>

record docker_container =
  dk_Name :: string
  dk_Created :: time
  dk_Running :: bool
  dk_Labels :: "(string \<times> string) list"

datatype list_result = Listed "docker_container list" | ListFailed go_error

definition add_filter :: "string \<times> string \<Rightarrow> (string \<rightharpoonup> string list) \<Rightarrow> string \<rightharpoonup> string list" where
  "add_filter kv filters =
     (case filters (fst kv) of
        Some values \<Rightarrow> filters(fst kv \<mapsto> values @ [snd kv])
      | None \<Rightarrow> filters(fst kv \<mapsto> [snd kv]))"

fun parse_filters :: "string list \<Rightarrow> (string \<rightharpoonup> string list) \<Rightarrow> go_error + (string \<rightharpoonup> string list)" where
  "parse_filters [] filters = Inr filters"
| "parse_filters (f # fs) filters =
     (case SplitN f (CHR ''='') 2 of
        [key, val] \<Rightarrow> parse_filters fs (add_filter (key, val) filters)
      | _ \<Rightarrow> Inl (Errorf [Lit ''invalid docker filter '', Quoted f]))"

definition ofelia_labels :: "docker_container \<Rightarrow> (string \<times> string) list" where
  "ofelia_labels c = filter (\<lambda>(k, _). HasPrefix k ''ofelia'' \<or> k = ''com.docker.compose.service'') (dk_Labels c)"

definition ErrNoContainerWithOfeliaEnabled :: go_error where
  "ErrNoContainerWithOfeliaEnabled = Opaque 40 ''couldn't find containers with label 'ofelia.enabled=true' ''"

definition GetDockerContainers ::
  "((string \<rightharpoonup> string list) \<Rightarrow> bool \<Rightarrow> list_result) \<Rightarrow> string list \<Rightarrow> bool \<Rightarrow> container_info list \<times> result" where
  "GetDockerContainers ListContainers fs includeStopped =
     (case parse_filters fs [''label'' \<mapsto> [''ofelia.enabled=true'']] of
        Inl err \<Rightarrow> ([], Some err)
      | Inr filters \<Rightarrow>
          (case ListContainers filters includeStopped of
             ListFailed err \<Rightarrow> ([], Some (Errorf [Lit ''failed to list Docker containers: '', Wrap err]))
           | Listed [] \<Rightarrow> ([], Some ErrNoContainerWithOfeliaEnabled)
           | Listed conts \<Rightarrow>
               (map (\<lambda>c. \<lparr>ci_Name = dk_Name c, ci_Created = dk_Created c, ci_Running = dk_Running c, ci_Labels = ofelia_labels c\<rparr>)
                  (filter (\<lambda>c. dk_Name c \<noteq> [] \<and> ofelia_labels c \<noteq> []) conts), None)))"

section \<open>The configuration\<close>

datatype slog_level = LevelDebug | LevelInfo | LevelWarn | LevelError

text \<open>\<^verbatim>\<open>WebhookConfigs.Global\<close> is an alias of the webhook settings in \<open>cf_Global\<close>. \<open>cf_dedup\<close> is the cooldown of
  \<^verbatim>\<open>notificationDedup\<close>; \<open>cf_globalDedup\<close> tells whether the global Slack and mail settings point to it.\<close>

record ('c, 'w) Config =
  cf_Global :: globals
  cf_Webhooks :: "(string \<times> WebhookConfig) list"
  cf_iniWebhooks :: "string set"
  cf_Manager :: "(string \<rightharpoonup> WebhookConfig) option"
  cf_Jobs :: "job_kind \<Rightarrow> job_table"
  cf_live :: "('c, 'w) live"
  cf_dedup :: "duration option"
  cf_globalDedup :: bool
  cf_levelVar :: slog_level
  cf_modTime :: time

record 'w config_env =
  ce_ops :: "globals \<Rightarrow> duration option \<Rightarrow> (string \<rightharpoonup> WebhookConfig) option \<Rightarrow> 'w job_ops"
  ce_sched_mws :: "globals \<Rightarrow> bool \<Rightarrow> 'w middleware option list"
  ce_decoders :: "ref label_decoders"
  ce_json_arr :: "string \<Rightarrow> string list option"
  ce_range :: "(string \<rightharpoonup> ref) \<Rightarrow> job_table"

definition cf_ops :: "'w config_env \<Rightarrow> ('c, 'w) Config \<Rightarrow> 'w job_ops" where
  "cf_ops E c = ce_ops E (cf_Global c) (cf_dedup c) (cf_Manager c)"

definition cf_hooks :: "('c, 'w) Config \<Rightarrow> WebhookConfigs" where
  "cf_hooks c = \<lparr>wc_Global = g_Webhook (cf_Global c), wc_Webhooks = cf_Webhooks c, wc_iniWebhookNames = cf_iniWebhooks c\<rparr>"

definition set_hooks :: "WebhookConfigs \<Rightarrow> ('c, 'w) Config \<Rightarrow> ('c, 'w) Config" where
  "set_hooks wc c = c\<lparr>cf_Global := (cf_Global c)\<lparr>g_Webhook := wc_Global wc\<rparr>, cf_Webhooks := wc_Webhooks wc,
     cf_iniWebhooks := wc_iniWebhookNames wc\<rparr>"

definition cf_initDedup :: "('c, 'w) Config \<Rightarrow> ('c, 'w) Config" where
  "cf_initDedup c =
     (if g_NotificationCooldown (cf_Global c) \<le> 0 then c
      else c\<lparr>cf_dedup := Some (g_NotificationCooldown (cf_Global c)), cf_globalDedup := True\<rparr>)"

text \<open>\<^verbatim>\<open>ApplyLogLevel\<close> (\<^verbatim>\<open>src/cli/logging.go\<close>).\<close>

definition ApplyLogLevel :: "string \<Rightarrow> slog_level \<Rightarrow> result \<times> slog_level" where
  "ApplyLogLevel level lv =
     (let l = ToLower level in
      if level = [] then (None, lv)
      else if l \<in> {''trace'', ''debug''} then (None, LevelDebug)
      else if l \<in> {''info'', ''notice''} then (None, LevelInfo)
      else if l \<in> {''warning'', ''warn''} then (None, LevelWarn)
      else if l \<in> {''error'', ''fatal'', ''panic'', ''critical''} then (None, LevelError)
      else (Some (Errorf [Lit ''invalid log level: '', Quoted level]), lv))"

text \<open>\<^verbatim>\<open>applyAllowListedGlobals\<close>, then \<^verbatim>\<open>refreshRuntimeKnobsAfterGlobalMerge\<close>.\<close>

definition merge_globals :: "globals \<Rightarrow> ('c, 'w) Config \<Rightarrow> ('c, 'w) Config" where
  "merge_globals parsed c =
     (let prev = cf_Global c;
          c1 = c\<lparr>cf_Global := snd (applyAllowListedGlobals (cf_Global c) parsed)\<rparr>;
          c2 = (if g_LogLevel (cf_Global c1) \<noteq> g_LogLevel prev \<and> g_LogLevel (cf_Global c1) \<noteq> []
                then c1\<lparr>cf_levelVar := snd (ApplyLogLevel (g_LogLevel (cf_Global c1)) (cf_levelVar c1))\<rparr> else c1)
      in if g_NotificationCooldown (cf_Global c2) \<noteq> g_NotificationCooldown prev then cf_initDedup c2 else c2)"

definition label_scratch :: "'w config_env \<Rightarrow> container_info list \<Rightarrow> ('c, 'w) Config \<Rightarrow> ref label_config" where
  "label_scratch E cs c = snd (buildFromDockerContainers (ce_decoders E) (ce_json_arr E) cs (cf_Global c))"

text \<open>\<^verbatim>\<open>markJobSource\<close> for all kinds, at the end of a decoding without error.\<close>

definition mark_sources :: "'w config_env \<Rightarrow> ref label_config \<Rightarrow> ('c, 'w) Config \<Rightarrow> ('c, 'w) Config" where
  "mark_sources E p c =
     (if \<not> lc_marked p then c
      else c\<lparr>cf_live := (cf_live c)\<lparr>lv_source := (\<lambda>r.
        if list_ex (\<lambda>k. r \<in> snd ` set (ce_range E (lc_Jobs p k))) [KExec, KLocal, KService, KRun, KCompose]
        then SrcLabel else lv_source (cf_live c) r)\<rparr>\<rparr>)"

definition scratch_hooks :: "ref label_config \<Rightarrow> WebhookConfigs" where
  "scratch_hooks p = \<lparr>wc_Global = g_Webhook (lc_Global p), wc_Webhooks = lc_Webhooks p, wc_iniWebhookNames = {}\<rparr>"

section \<open>Updates\<close>

definition sync_kind ::
  "'c cron_api \<Rightarrow> 'w job_ops \<Rightarrow> JobSource \<Rightarrow> (job_kind \<Rightarrow> job_table) \<Rightarrow> job_kind \<Rightarrow>
   (job_kind \<Rightarrow> job_table) \<times> ('c, 'w) live \<Rightarrow> (job_kind \<Rightarrow> job_table) \<times> ('c, 'w) live" where
  "sync_kind cr ops source parsed k st =
     (case st of (tabs, lv) \<Rightarrow>
        case syncJobMap cr ops source (parsed k) (tabs k, lv) of (cur, lv') \<Rightarrow> (tabs(k := cur), lv'))"

definition sync_jobs ::
  "'c cron_api \<Rightarrow> 'w job_ops \<Rightarrow> JobSource \<Rightarrow> (job_kind \<Rightarrow> job_table) \<Rightarrow> ('c, 'w) Config \<Rightarrow> ('c, 'w) Config" where
  "sync_jobs cr ops source parsed c =
     (case fold (sync_kind cr ops source parsed) [KExec, KRun, KLocal, KService, KCompose] (cf_Jobs c, cf_live c) of
        (tabs, lv) \<Rightarrow> c\<lparr>cf_Jobs := tabs, cf_live := lv\<rparr>)"

text \<open>Rebuilding the middlewares of one job: \<^verbatim>\<open>ResetMiddlewares\<close>, \<^verbatim>\<open>buildMiddlewares\<close>, then the scheduler's.\<close>

definition rebuild_job :: "'w job_ops \<Rightarrow> ref \<Rightarrow> ('c, 'w) live \<Rightarrow> ('c, 'w) live" where
  "rebuild_job ops r lv =
     (let s = lv_sched lv; j = s_heap s r;
          m = Use (map Some (Middlewares (s_mws s))) (Use (jo_mws ops r) (ResetMiddlewares [] (bj_mws j)))
      in lv\<lparr>lv_sched := s\<lparr>s_heap := (s_heap s)(r := j\<lparr>bj_mws := m\<rparr>)\<rparr>\<rparr>)"

definition rebuild_scheduler :: "'w middleware option list \<Rightarrow> ('c, 'w) live \<Rightarrow> ('c, 'w) live" where
  "rebuild_scheduler ms lv =
     lv\<lparr>lv_sched := (lv_sched lv)\<lparr>s_mws := Use ms (ResetMiddlewares [] (s_mws (lv_sched lv)))\<rparr>\<rparr>"

definition rebuild_with :: "'w config_env \<Rightarrow> (('c, 'w) Scheduler \<Rightarrow> ref list) \<Rightarrow> ('c, 'w) Config \<Rightarrow> ('c, 'w) Config" where
  "rebuild_with E jobs c =
     (let lv = rebuild_scheduler (ce_sched_mws E (cf_Global c) (cf_globalDedup c)) (cf_live c)
      in c\<lparr>cf_live := fold (rebuild_job (cf_ops E c)) (jobs (lv_sched lv)) lv\<rparr>)"

definition rebuildAllMiddlewares :: "'w config_env \<Rightarrow> ('c, 'w) Config \<Rightarrow> ('c, 'w) Config" where
  "rebuildAllMiddlewares E c = rebuild_with E s_Jobs c"

text \<open>\<^verbatim>\<open>InitManager\<close> replaces the manager, and leaves it incomplete when a webhook is refused.\<close>

definition cf_InitManager :: "('c, 'w) Config \<Rightarrow> result \<times> ('c, 'w) Config" where
  "cf_InitManager c =
     (case InitManager (cf_Webhooks c) Map.empty of (err, m) \<Rightarrow> (err, c\<lparr>cf_Manager := Some m\<rparr>))"

definition syncWebhookConfigs :: "'w config_env \<Rightarrow> WebhookConfigs \<Rightarrow> ('c, 'w) Config \<Rightarrow> ('c, 'w) Config" where
  "syncWebhookConfigs E parsed c =
     (case applyWebhookChanges parsed (cf_hooks c) of
        (False, wc) \<Rightarrow> set_hooks wc c
      | (True, wc) \<Rightarrow>
          (case cf_InitManager (set_hooks wc c) of
             (Some err, c1) \<Rightarrow> c1
           | (None, c1) \<Rightarrow> rebuildAllMiddlewares E c1))"

definition dockerContainersUpdate ::
  "'c cron_api \<Rightarrow> 'w config_env \<Rightarrow> container_info list \<Rightarrow> ('c, 'w) Config \<Rightarrow> ('c, 'w) Config" where
  "dockerContainersUpdate cr E containers c =
     (let parsed = label_scratch E containers c;
          c1 = merge_globals (lc_Global parsed) (mark_sources E parsed c);
          c2 = sync_jobs cr (cf_ops E c1) SrcLabel (\<lambda>k. ce_range E (lc_Jobs parsed k)) c1
      in syncWebhookConfigs E (scratch_hooks parsed) c2)"

definition refreshContainerLabels ::
  "'c cron_api \<Rightarrow> 'w config_env \<Rightarrow> container_info list \<times> result \<Rightarrow> ('c, 'w) Config \<Rightarrow> ('c, 'w) Config" where
  "refreshContainerLabels cr E got c = dockerContainersUpdate cr E (fst got) c"

section \<open>Reload of the INI file\<close>

record ini_files =
  if_Glob :: "string \<Rightarrow> go_error + string list"
  if_ModTime :: "string \<Rightarrow> go_error + time"

definition resolveConfigFiles :: "ini_files \<Rightarrow> string \<Rightarrow> go_error + string list" where
  "resolveConfigFiles F pattern =
     (case if_Glob F pattern of
        Inl err \<Rightarrow> Inl (Errorf [Lit ''invalid glob pattern '', Quoted pattern, Lit '': '', Wrap err])
      | Inr files \<Rightarrow> Inr (sort (if files = [] then [pattern] else files)))"

fun latest_of :: "ini_files \<Rightarrow> string list \<Rightarrow> time \<Rightarrow> go_error + time" where
  "latest_of F [] latest = Inr latest"
| "latest_of F (f # fs) latest =
     (case if_ModTime F f of
        Inl err \<Rightarrow> Inl (Errorf [Lit ''stat '', Quoted f, Lit '': '', Wrap err])
      | Inr t \<Rightarrow> latest_of F fs (if latest < t then t else latest))"

definition latestChanged :: "ini_files \<Rightarrow> time \<Rightarrow> string list \<Rightarrow> time \<Rightarrow> go_error + time \<times> bool" where
  "latestChanged F zero files prev =
     (case latest_of F files zero of Inl err \<Rightarrow> Inl err | Inr latest \<Rightarrow> Inr (latest, prev < latest))"

record parsed_ini =
  pi_Global :: globals
  pi_others_differ :: bool
  pi_Jobs :: "job_kind \<Rightarrow> job_table"
  pi_Webhooks :: "WebhookConfigs option"

definition refreshWebhookManagerOnGlobalChange :: "('c, 'w) Config \<Rightarrow> ('c, 'w) Config" where
  "refreshWebhookManagerOnGlobalChange c = (if cf_Manager c = None then c else snd (cf_InitManager c))"

definition reload_globals :: "'w config_env \<Rightarrow> parsed_ini \<Rightarrow> ('c, 'w) Config \<Rightarrow> ('c, 'w) Config" where
  "reload_globals E parsed c =
     (if pi_Global parsed = cf_Global c \<and> \<not> pi_others_differ parsed \<and> \<not> cf_globalDedup c then c
      else
        let c1 = refreshWebhookManagerOnGlobalChange (c\<lparr>cf_Global := pi_Global parsed, cf_globalDedup := False\<rparr>);
            c2 = rebuild_with E (\<lambda>s. GetActiveJobs s @ GetDisabledJobs s) c1
        in c2\<lparr>cf_levelVar := snd (ApplyLogLevel (g_LogLevel (cf_Global c2)) (cf_levelVar c2))\<rparr>)"

text \<open>Everything before the jobs are synchronised.\<close>

definition ini_ready :: "'w config_env \<Rightarrow> parsed_ini \<Rightarrow> time \<Rightarrow> ('c, 'w) Config \<Rightarrow> ('c, 'w) Config" where
  "ini_ready E parsed latest c =
     (let c1 = reload_globals E parsed (c\<lparr>cf_modTime := latest\<rparr>);
          (added, wc) = mergeReloadedWebhookSections (pi_Webhooks parsed) (cf_hooks c1);
          c2 = set_hooks wc c1
      in if added then refreshWebhookManagerOnGlobalChange c2 else c2)"

definition iniConfigUpdate ::
  "'c cron_api \<Rightarrow> 'w config_env \<Rightarrow> ini_files \<Rightarrow> time \<Rightarrow> (string \<Rightarrow> go_error + parsed_ini) \<Rightarrow> string \<Rightarrow>
   ('c, 'w) Config \<Rightarrow> result \<times> ('c, 'w) Config" where
  "iniConfigUpdate cr E F zero BuildFromFile configPath c =
     (if configPath = [] then (None, c)
      else case resolveConfigFiles F configPath of
             Inl err \<Rightarrow> (Some err, c)
           | Inr files \<Rightarrow>
               (case latestChanged F zero files (cf_modTime c) of
                  Inl err \<Rightarrow> (Some err, c)
                | Inr (latest, False) \<Rightarrow> (None, c)
                | Inr (latest, True) \<Rightarrow>
                    (case BuildFromFile configPath of
                       Inl err \<Rightarrow> (Some err, c)
                     | Inr parsed \<Rightarrow>
                         let c1 = ini_ready E parsed latest c
                         in (None, sync_jobs cr (cf_ops E c1) SrcINI (pi_Jobs parsed) c1))))"

section \<open>Start-up\<close>

definition mergeJobsFromDockerContainers ::
  "'w config_env \<Rightarrow> container_info list \<times> result \<Rightarrow> ('c, 'w) Config \<Rightarrow> ('c, 'w) Config" where
  "mergeJobsFromDockerContainers E got c =
     (case got of
        (_, Some err) \<Rightarrow> c
      | (containers, None) \<Rightarrow>
          let parsed = label_scratch E containers c;
              c0 = mark_sources E parsed c;
              c1 = c0\<lparr>cf_Jobs := (\<lambda>k. mergeJobs (lv_source (cf_live c0)) (cf_Jobs c0 k) (ce_range E (lc_Jobs parsed k)))\<rparr>;
              c2 = set_hooks (mergeWebhookConfigs (Some (scratch_hooks parsed)) (cf_hooks c1)) c1
          in merge_globals (lc_Global parsed) c2)"

definition register_job :: "'c cron_api \<Rightarrow> 'w job_ops \<Rightarrow> string \<times> ref \<Rightarrow> ('c, 'w) live \<Rightarrow> ('c, 'w) live" where
  "register_job cr ops nj lv = lv_AddJob cr (snd nj) (buildMiddlewares ops (snd nj) (prep_job ops (fst nj) (snd nj) lv))"

definition registerAllJobs :: "'c cron_api \<Rightarrow> 'w config_env \<Rightarrow> ('c, 'w) Config \<Rightarrow> ('c, 'w) Config" where
  "registerAllJobs cr E c =
     c\<lparr>cf_live := fold (register_job cr (cf_ops E c)) (concat (map (cf_Jobs c) [KExec, KRun, KLocal, KService, KCompose])) (cf_live c)\<rparr>"

definition InitializeApp ::
  "'c cron_api \<Rightarrow> 'w config_env \<Rightarrow> (ref \<Rightarrow> 'w bare_job) \<Rightarrow> result \<Rightarrow> container_info list \<times> result \<Rightarrow>
   ('c, 'w) Config \<Rightarrow> result \<times> ('c, 'w) Config" where
  "InitializeApp cr E h initDockerHandler got c =
     (let c1 = cf_initDedup (c\<lparr>cf_live := (cf_live c)\<lparr>lv_sched := newSchedulerInternal cr h\<rparr>\<rparr>) in
      case initDockerHandler of
        Some err \<Rightarrow> (Some err, c1)
      | None \<Rightarrow>
          let c2 = mergeJobsFromDockerContainers E got c1;
              (err, c3) = (if cf_Webhooks c2 \<noteq> [] then cf_InitManager c2 else (None, c2))
          in case err of
               Some e \<Rightarrow> (Some (Errorf [Lit ''initialize webhook manager: '', Wrap e]), c3)
             | None \<Rightarrow>
                 (None, registerAllJobs cr E
                    (c3\<lparr>cf_live := (let lv = cf_live c3 in
                       lv\<lparr>lv_sched := (lv_sched lv)\<lparr>s_mws := Use (ce_sched_mws E (cf_Global c3) (cf_globalDedup c3)) (s_mws (lv_sched lv))\<rparr>\<rparr>)\<rparr>)))"

section \<open>All kinds of jobs\<close>

text \<open>Every name belongs to one kind of jobs (\<open>kd\<close>); the tables list scheduled jobs; the new objects are
  different for different kinds and acceptable.\<close>

abbreviation tabs_ok :: "'c cron_api \<Rightarrow> (string \<Rightarrow> job_kind) \<Rightarrow> (job_kind \<Rightarrow> job_table) \<Rightarrow> ('c, 'w) live \<Rightarrow> bool" where
  "tabs_ok cr kd tabs lv \<equiv> (\<forall>k. in_step cr (tabs k) lv \<and> dom (map_of (tabs k)) \<subseteq> {n. kd n = k})"

definition config_ok :: "'c cron_api \<Rightarrow> (string \<Rightarrow> job_kind) \<Rightarrow> ('c, 'w) Config \<Rightarrow> bool" where
  "config_ok cr kd c \<longleftrightarrow> tabs_ok cr kd (cf_Jobs c) (cf_live c)"

definition parsed_ok ::
  "'c cron_api \<Rightarrow> string set \<Rightarrow> (string \<Rightarrow> job_kind) \<Rightarrow> 'w job_ops \<Rightarrow> (job_kind \<Rightarrow> job_table) \<Rightarrow> bool" where
  "parsed_ok cr N kd ops parsed \<longleftrightarrow>
     (\<forall>k. good_parsed cr N ops (map_of (parsed k)) \<and> dom (map_of (parsed k)) \<subseteq> {n. kd n = k}) \<and>
     (\<forall>k k' r. r \<in> ran (map_of (parsed k)) \<longrightarrow> r \<in> ran (map_of (parsed k')) \<longrightarrow> k = k')"

lemma parsed_okD:
  assumes "parsed_ok cr N kd ops parsed"
  shows "good_parsed cr N ops (map_of (parsed k))" "map_of (parsed k) n = Some r \<Longrightarrow> kd n = k"
    "r \<in> ran (map_of (parsed k)) \<Longrightarrow> r \<in> ran (map_of (parsed k')) \<Longrightarrow> k = k'"
    "dom (map_of (parsed k)) \<subseteq> N"
  using assms unfolding parsed_ok_def good_parsed_def by (blast, blast, blast, blast)

lemma reconciled_cases: "reconciled ops src source cur parsed n = Some r \<Longrightarrow> cur n = Some r \<or> parsed n = Some r"
  by (auto simp: reconciled_def split: option.splits if_splits)

lemma reconciled_cong:
  "(\<And>j. cur n = Some j \<Longrightarrow> src j = src' j) \<Longrightarrow> reconciled ops src source cur parsed n = reconciled ops src' source cur parsed n"
  by (auto simp: reconciled_def foreign_def split: option.splits)

text \<open>One kind. The other tables and the objects that wait for their turn are not affected.\<close>

lemma sync_kind_step:
  fixes lv :: "('c, 'w) live"
  assumes laws: "cron_laws cr" and src: "source \<noteq> SrcNone" and tabs: "tabs_ok cr kd tabs lv"
    and p: "parsed_ok cr N kd ops parsed" and new: "new_objects (parsed k) (tabs k) lv" and N: "dom (in_reg lv) \<subseteq> N"
  defines "new_k \<equiv> reconciled ops (lv_source lv) source (map_of (tabs k)) (map_of (parsed k))"
  obtains tabs' lv' where "sync_kind cr ops source parsed k (tabs, lv) = (tabs', lv')" "tabs_ok cr kd tabs' lv'"
    "map_of (tabs' k) = new_k" "\<And>k'. k' \<noteq> k \<Longrightarrow> tabs' k' = tabs k'"
    "in_reg lv' = (\<lambda>n. if map_of (tabs k) n = None \<and> map_of (parsed k) n = None then in_reg lv n else new_k n)"
    "\<And>r. r \<notin> ran (map_of (parsed k)) \<Longrightarrow> lv_source lv' r = lv_source lv r" "dom (in_reg lv') \<subseteq> N"
    "\<And>k'. k' \<noteq> k \<Longrightarrow> new_objects (parsed k') (tabs k') lv \<Longrightarrow> new_objects (parsed k') (tabs' k') lv'"
proof -
  obtain cur lv' where st: "syncJobMap cr ops source (parsed k) (tabs k, lv) = (cur, lv')" by fastforce
  let ?tabs = "tabs(k := cur)"
  have k: "in_step cr (tabs k) lv" using tabs by blast
  note s = sync_sound [OF laws src k new parsed_okD(1) [OF p] N, unfolded st prod.case, folded new_k_def]
  have dn: "n \<in> N \<and> kd n = k" if "new_k n = Some r" for n r
  proof -
    have "map_of (tabs k) n = Some r \<or> map_of (parsed k) n = Some r" using that reconciled_cases unfolding new_k_def by metis
    then show ?thesis
    proof
      assume t: "map_of (tabs k) n = Some r"
      then have "in_reg lv n = Some r" using k by (force simp: in_step_def map_le_def dom_def)
      then show ?thesis using t tabs N by blast
    qed (use parsed_okD(2,4) [OF p, of k] in blast)
  qed
  have keep: "in_reg lv' n = in_reg lv n" if "kd n \<noteq> k" for n
    using s that tabs parsed_okD(2) [OF p, of k n] by (auto simp: dom_def)
  have sub: "jobs_of lv' \<subseteq> jobs_of lv \<union> ran (map_of (parsed k))"
  proof
    fix x assume "x \<in> jobs_of lv'"
    have ok: "sched_ok cr (lv_sched lv')" "sched_ok cr (lv_sched lv)" using s k by (simp_all add: in_step_def)
    obtain n where n: "in_reg lv' n = Some x" using in_reg_iff [OF ok(1)] \<open>x \<in> jobs_of lv'\<close> by blast
    then consider "in_reg lv n = Some x" | "map_of (tabs k) n = Some x" | "map_of (parsed k) n = Some x"
      using s reconciled_cases [of ops "lv_source lv" source "map_of (tabs k)" "map_of (parsed k)" n x]
      unfolding new_k_def by (metis (no_types, lifting))
    then show "x \<in> jobs_of lv \<union> ran (map_of (parsed k))"
    proof cases
      case 2
      then have "in_reg lv n = Some x" using k by (force simp: in_step_def map_le_def dom_def)
      then show ?thesis using in_reg_iff [OF ok(2)] by blast
    qed (use in_reg_iff [OF ok(2)] in \<open>auto simp: ran_def\<close>)
  qed
  show thesis
  proof (rule that)
    show "sync_kind cr ops source parsed k (tabs, lv) = (?tabs, lv')" by (simp add: sync_kind_def st)
    show "tabs_ok cr kd ?tabs lv'"
    proof
      fix k'
      show "in_step cr (?tabs k') lv' \<and> dom (map_of (?tabs k')) \<subseteq> {n. kd n = k'}"
      proof (cases "k' = k")
        case True
        then show ?thesis using s dn by auto
      next
        case False
        then have t: "in_step cr (tabs k') lv" "dom (map_of (tabs k')) \<subseteq> {n. kd n = k'}" using tabs by auto
        then have "map_of (tabs k') \<subseteq>\<^sub>m in_reg lv'" using keep False by (force simp: in_step_def map_le_def)
        then show ?thesis using t False s by (simp add: in_step_def)
      qed
    qed
    have "x \<in> N" if "in_reg lv x = Some y" for x y using N that by blast
    then show "dom (in_reg lv') \<subseteq> N" using s dn by (auto split: if_splits)
    fix k' assume k': "k' \<noteq> k" and o: "new_objects (parsed k') (tabs k') lv"
    have "ran (map_of (parsed k')) \<inter> ran (map_of (parsed k)) = {}" using parsed_okD(3) [OF p] k' by blast
    moreover have "dom (map_of (parsed k')) \<inter> dom (in_reg lv') = dom (map_of (parsed k')) \<inter> dom (in_reg lv)"
      using keep parsed_okD(2) [OF p, of k'] k' by force
    ultimately show "new_objects (parsed k') (?tabs k') lv'"
      using o sub k' unfolding new_objects_def by auto
  qed (use s in auto)
qed

text \<open>All kinds of a list.\<close>

lemma sync_kinds_sound:
  fixes lv :: "('c, 'w) live"
  assumes laws: "cron_laws cr" and src: "source \<noteq> SrcNone" and p: "parsed_ok cr N kd ops parsed"
    and "distinct ks" "tabs_ok cr kd tabs lv" "\<forall>k\<in>set ks. new_objects (parsed k) (tabs k) lv" "dom (in_reg lv) \<subseteq> N"
  defines "R \<equiv> \<lambda>tabs lv k. reconciled ops (lv_source lv) source (map_of (tabs k)) (map_of (parsed k))"
  shows "case fold (sync_kind cr ops source parsed) ks (tabs, lv) of (tabs', lv') \<Rightarrow>
    tabs_ok cr kd tabs' lv' \<and> (\<forall>k. map_of (tabs' k) = (if k \<in> set ks then R tabs lv k else map_of (tabs k))) \<and>
    in_reg lv' = (\<lambda>n. if kd n \<in> set ks \<and> (map_of (tabs (kd n)) n \<noteq> None \<or> map_of (parsed (kd n)) n \<noteq> None)
                      then R tabs lv (kd n) n else in_reg lv n)"
  using assms(4-7)
proof (induction ks arbitrary: tabs lv)
  case Nil
  then show ?case by simp
next
  case (Cons k ks)
  have d: "k \<notin> set ks" "distinct ks" and new: "new_objects (parsed k) (tabs k) lv" using Cons.prems(1,3) by auto
  obtain tabs' lv' where st: "sync_kind cr ops source parsed k (tabs, lv) = (tabs', lv')" "tabs_ok cr kd tabs' lv'"
    "map_of (tabs' k) = R tabs lv k" "\<And>k'. k' \<noteq> k \<Longrightarrow> tabs' k' = tabs k'"
    "in_reg lv' = (\<lambda>n. if map_of (tabs k) n = None \<and> map_of (parsed k) n = None then in_reg lv n else R tabs lv k n)"
    "\<And>r. r \<notin> ran (map_of (parsed k)) \<Longrightarrow> lv_source lv' r = lv_source lv r" "dom (in_reg lv') \<subseteq> N"
    "\<And>k'. k' \<noteq> k \<Longrightarrow> new_objects (parsed k') (tabs k') lv \<Longrightarrow> new_objects (parsed k') (tabs' k') lv'"
    unfolding R_def by (rule sync_kind_step [OF laws src Cons.prems(2) p new Cons.prems(4)]) blast
  have "\<forall>k'\<in>set ks. new_objects (parsed k') (tabs' k') lv'" 
  proof
    fix k' assume "k' \<in> set ks"
    then have "k' \<noteq> k" "new_objects (parsed k') (tabs k') lv" using d(1) Cons.prems(3) by auto
    then show "new_objects (parsed k') (tabs' k') lv'" by (rule st(8))
  qed
  note IH = Cons.IH [OF d(2) st(2) this st(7)]
  have src_same: "lv_source lv' j = lv_source lv j" if "map_of (tabs k') n = Some j" for k' n j
  proof -
    have k': "in_step cr (tabs k') lv" using Cons.prems(2) by blast
    then have "in_reg lv n = Some j" using that by (force simp: in_step_def map_le_def dom_def)
    then have "j \<in> jobs_of lv" using in_reg_iff k' unfolding in_step_def by blast
    then have "j \<notin> ran (map_of (parsed k))" using new unfolding new_objects_def by blast
    then show ?thesis by (rule st(6))
  qed
  have R: "R tabs' lv' k' = R tabs lv k'" if "k' \<in> set ks" for k'
  proof -
    have "k' \<noteq> k" using that d(1) by blast
    then show ?thesis unfolding R_def st(4) [OF \<open>k' \<noteq> k\<close>] by (intro ext reconciled_cong) (rule src_same)
  qed
  have other: "in_reg lv' n = in_reg lv n" if "kd n \<noteq> k" for n
    using st(5) that Cons.prems(2) parsed_okD(2) [OF p, of k n] by (auto simp: dom_def)
  obtain tabs2 lv2 where f: "fold (sync_kind cr ops source parsed) ks (tabs', lv') = (tabs2, lv2)" by fastforce
  have "map_of (tabs2 k') = (if k' \<in> set (k # ks) then R tabs lv k' else map_of (tabs k'))" for k'
    using IH [unfolded f prod.case] R st(3,4) d(1) by (cases "k' = k") auto
  moreover have "in_reg lv2 n = (if kd n \<in> set (k # ks) \<and> (map_of (tabs (kd n)) n \<noteq> None \<or> map_of (parsed (kd n)) n \<noteq> None)
      then R tabs lv (kd n) n else in_reg lv n)" for n
  proof (cases "kd n = k")
    case True
    then have "in_reg lv2 n = in_reg lv' n" using IH [unfolded f prod.case] d(1) by simp
    then show ?thesis using st(5) True by simp
  next
    case False
    then have "in_reg lv2 n = (if kd n \<in> set ks \<and> (map_of (tabs (kd n)) n \<noteq> None \<or> map_of (parsed (kd n)) n \<noteq> None)
      then R tabs lv (kd n) n else in_reg lv n)" using IH [unfolded f prod.case] R [of "kd n"] st(4) [OF False] other [OF False] by auto
    then show ?thesis using False by simp
  qed
  ultimately show ?case using IH [unfolded f prod.case] by (simp add: st(1) f fun_eq_iff)
qed

lemma kinds: "distinct [KExec, KRun, KLocal, KService, KCompose]" "set [KExec, KRun, KLocal, KService, KCompose] = UNIV"
proof -
  have "k \<in> {KExec, KRun, KLocal, KService, KCompose}" for k by (cases k) auto
  then show "set [KExec, KRun, KLocal, KService, KCompose] = UNIV" by auto
qed simp

lemma sync_jobs_sound:
  fixes c :: "('c, 'w) Config"
  assumes "cron_laws cr" "source \<noteq> SrcNone" "config_ok cr kd c" "parsed_ok cr N kd ops parsed"
    "\<And>k. new_objects (parsed k) (cf_Jobs c k) (cf_live c)" "dom (in_reg (cf_live c)) \<subseteq> N"
  defines "c' \<equiv> sync_jobs cr ops source parsed c"
    and "R \<equiv> \<lambda>k. reconciled ops (lv_source (cf_live c)) source (map_of (cf_Jobs c k)) (map_of (parsed k))"
  shows "config_ok cr kd c'" "map_of (cf_Jobs c' k) = R k"
    "in_reg (cf_live c') n =
       (if map_of (cf_Jobs c (kd n)) n = None \<and> map_of (parsed (kd n)) n = None then in_reg (cf_live c) n else R (kd n) n)"
    "cf_Global c' = cf_Global c" "cf_Webhooks c' = cf_Webhooks c" "cf_iniWebhooks c' = cf_iniWebhooks c"
proof -
  obtain tabs lv where f: "fold (sync_kind cr ops source parsed) [KExec, KRun, KLocal, KService, KCompose] (cf_Jobs c, cf_live c) = (tabs, lv)"
    by fastforce
  have c': "c' = c\<lparr>cf_Jobs := tabs, cf_live := lv\<rparr>" unfolding c'_def sync_jobs_def f by simp
  note s = sync_kinds_sound [OF assms(1,2,4) kinds(1) assms(3) [unfolded config_ok_def] _ assms(6), unfolded f prod.case kinds(2)]
  have "\<forall>k\<in>UNIV. new_objects (parsed k) (cf_Jobs c k) (cf_live c)" using assms(5) by blast
  note s = s [OF this]
  show "config_ok cr kd c'" using conjunct1 [OF s] by (simp add: c' config_ok_def)
  show "map_of (cf_Jobs c' k) = R k"
    "in_reg (cf_live c') n =
       (if map_of (cf_Jobs c (kd n)) n = None \<and> map_of (parsed (kd n)) n = None then in_reg (cf_live c) n else R (kd n) n)"
    "cf_Global c' = cf_Global c" "cf_Webhooks c' = cf_Webhooks c" "cf_iniWebhooks c' = cf_iniWebhooks c"
    using s by (simp_all add: c' R_def)
qed

section \<open>What an update leaves alone\<close>

definition same_registry :: "('c, 'w) live \<Rightarrow> ('c, 'w) live \<Rightarrow> bool" where
  "same_registry lv lv' \<longleftrightarrow>
     s_Jobs (lv_sched lv') = s_Jobs (lv_sched lv) \<and> s_jobsByName (lv_sched lv') = s_jobsByName (lv_sched lv) \<and>
     s_disabledNames (lv_sched lv') = s_disabledNames (lv_sched lv) \<and> s_cron (lv_sched lv') = s_cron (lv_sched lv) \<and>
     (\<lambda>r. name_of (lv_sched lv') r) = (\<lambda>r. name_of (lv_sched lv) r) \<and> (\<lambda>r. id_of (lv_sched lv') r) = (\<lambda>r. id_of (lv_sched lv) r)"

lemma same_registryD:
  assumes "same_registry lv lv'"
  shows "in_reg lv' = in_reg lv" "jobs_of lv' = jobs_of lv" "in_step cr cur lv' \<longleftrightarrow> in_step cr cur lv"
proof -
  have n: "name_of (lv_sched lv') r = name_of (lv_sched lv) r" "id_of (lv_sched lv') r = id_of (lv_sched lv) r" for r
    using assms unfolding same_registry_def by meson+
  show r: "in_reg lv' = in_reg lv" "jobs_of lv' = jobs_of lv"
    using assms by (simp_all add: same_registry_def in_reg_def registry_def fun_eq_iff)
  have "sched_ok cr (lv_sched lv') \<longleftrightarrow> sched_ok cr (lv_sched lv)"
    using assms unfolding same_registry_def sched_ok_def registry_ok_def entries_ok_def by (simp add: n)
  then show "in_step cr cur lv' \<longleftrightarrow> in_step cr cur lv" unfolding in_step_def r by simp
qed

lemma same_registry_refl [simp]: "same_registry lv lv"
  by (simp add: same_registry_def)

lemma same_registry_fold:
  "(\<And>r lv. same_registry lv (f r lv)) \<Longrightarrow> same_registry lv (fold f rs lv)"
proof (induction rs arbitrary: lv)
  case (Cons r rs)
  have "same_registry lv (f r lv)" "same_registry (f r lv) (fold f rs (f r lv))" using Cons by blast+
  then show ?case by (simp add: same_registry_def)
qed simp

lemma rebuild_same: "same_registry (cf_live c) (cf_live (rebuild_with E jobs c))"
proof -
  have "same_registry lv (rebuild_job ops r lv)" for ops r and lv :: "('a, 'b) live"
    by (auto simp: same_registry_def rebuild_job_def Let_def)
  then have "same_registry lv (fold (rebuild_job ops) rs lv)" for ops rs and lv :: "('a, 'b) live"
    by (rule same_registry_fold)
  moreover have "same_registry lv (rebuild_scheduler ms lv)" for ms and lv :: "('a, 'b) live"
    by (simp add: same_registry_def rebuild_scheduler_def)
  ultimately show ?thesis unfolding rebuild_with_def Let_def same_registry_def by simp
qed

lemma rebuild_frame [simp]:
  "cf_Jobs (rebuild_with E jobs c) = cf_Jobs c" "cf_Global (rebuild_with E jobs c) = cf_Global c"
  "cf_dedup (rebuild_with E jobs c) = cf_dedup c" "cf_globalDedup (rebuild_with E jobs c) = cf_globalDedup c"
  by (simp_all add: rebuild_with_def Let_def)

lemma sync_hooks_frame:
  "cf_Jobs (syncWebhookConfigs E p c) = cf_Jobs c" "same_registry (cf_live c) (cf_live (syncWebhookConfigs E p c))"
proof -
  obtain ch wc where a: "applyWebhookChanges p (cf_hooks c) = (ch, wc)" by fastforce
  obtain err c1 where i: "cf_InitManager (set_hooks wc c) = (err, c1)" by fastforce
  have f: "cf_Jobs (set_hooks wc c) = cf_Jobs c" "cf_live (set_hooks wc c) = cf_live c" by (simp_all add: set_hooks_def)
  have c1: "cf_Jobs c1 = cf_Jobs c" "cf_live c1 = cf_live c"
    using i f by (auto simp: cf_InitManager_def split: prod.splits)
  have "cf_Jobs (syncWebhookConfigs E p c) = cf_Jobs c \<and> same_registry (cf_live c) (cf_live (syncWebhookConfigs E p c))"
    using f c1 rebuild_same [of c1 E s_Jobs]
    by (cases ch; cases err) (simp_all add: syncWebhookConfigs_def a i rebuildAllMiddlewares_def)
  then show "cf_Jobs (syncWebhookConfigs E p c) = cf_Jobs c" "same_registry (cf_live c) (cf_live (syncWebhookConfigs E p c))"
    by blast+
qed

lemma merge_globals_frame [simp]: "cf_Jobs (merge_globals g c) = cf_Jobs c" "cf_live (merge_globals g c) = cf_live c"
  by (simp_all add: merge_globals_def cf_initDedup_def Let_def)

lemma mark_frame:
  "cf_Jobs (mark_sources E p c) = cf_Jobs c" "same_registry (cf_live c) (cf_live (mark_sources E p c))"
  "(\<And>k. r \<notin> snd ` set (ce_range E (lc_Jobs p k))) \<Longrightarrow> lv_source (cf_live (mark_sources E p c)) r = lv_source (cf_live c) r"
  by (simp_all add: mark_sources_def same_registry_def)

text \<open>An update from labels: the decoded jobs, and what they were decoded for.\<close>

definition label_jobs :: "'w config_env \<Rightarrow> container_info list \<Rightarrow> ('c, 'w) Config \<Rightarrow> job_kind \<Rightarrow> job_table" where
  "label_jobs E cs c k = ce_range E (lc_Jobs (label_scratch E cs c) k)"

definition label_ops :: "'w config_env \<Rightarrow> container_info list \<Rightarrow> ('c, 'w) Config \<Rightarrow> 'w job_ops" where
  "label_ops E cs c = cf_ops E (merge_globals (lc_Global (label_scratch E cs c)) (mark_sources E (label_scratch E cs c) c))"

definition update_ok :: "'c cron_api \<Rightarrow> 'w config_env \<Rightarrow> (string \<Rightarrow> job_kind) \<Rightarrow> container_info list \<Rightarrow> ('c, 'w) Config \<Rightarrow> bool" where
  "update_ok cr E kd cs c \<longleftrightarrow>
     parsed_ok cr (dom (in_reg (cf_live c)) \<union> (\<Union>k. dom (map_of (label_jobs E cs c k)))) kd (label_ops E cs c) (label_jobs E cs c) \<and>
     (\<forall>k. new_objects (label_jobs E cs c k) (cf_Jobs c k) (cf_live c))"

lemma update_sound:
  fixes c :: "('c, 'w) Config"
  assumes "cron_laws cr" "config_ok cr kd c" "update_ok cr E kd cs c"
  defines "c' \<equiv> dockerContainersUpdate cr E cs c"
    and "R \<equiv> \<lambda>k. reconciled (label_ops E cs c) (lv_source (cf_live c)) SrcLabel (map_of (cf_Jobs c k)) (map_of (label_jobs E cs c k))"
  shows "config_ok cr kd c'" "map_of (cf_Jobs c' k) = R k"
    "in_reg (cf_live c') n =
       (if map_of (cf_Jobs c (kd n)) n = None \<and> map_of (label_jobs E cs c (kd n)) n = None then in_reg (cf_live c) n else R (kd n) n)"
proof -
  let ?P = "label_scratch E cs c" and ?N = "dom (in_reg (cf_live c)) \<union> (\<Union>k. dom (map_of (label_jobs E cs c k)))"
  let ?c0 = "mark_sources E ?P c"
  let ?c1 = "merge_globals (lc_Global ?P) ?c0"
  let ?c2 = "sync_jobs cr (label_ops E cs c) SrcLabel (label_jobs E cs c) ?c1"
  note same = same_registryD [OF mark_frame(2) [where E = E and p = ?P and c = c]]
  have c': "c' = syncWebhookConfigs E (scratch_hooks ?P) ?c2"
    by (simp add: c'_def dockerContainersUpdate_def label_ops_def label_jobs_def [abs_def] Let_def)
  note hooks = sync_hooks_frame [where E = E and p = "scratch_hooks ?P" and c = ?c2] and reg = same_registryD [OF sync_hooks_frame(2) [where E = E and p = "scratch_hooks ?P" and c = ?c2]]
  have ok1: "config_ok cr kd ?c1" using assms(2) by (simp add: config_ok_def mark_frame(1) same)
  have p: "parsed_ok cr ?N kd (label_ops E cs c) (label_jobs E cs c)"
    and new: "\<And>k. new_objects (label_jobs E cs c k) (cf_Jobs c k) (cf_live c)" using assms(3) by (simp_all add: update_ok_def)
  have new1: "new_objects (label_jobs E cs c k) (cf_Jobs ?c1 k) (cf_live ?c1)" for k
    using new [of k] by (simp add: new_objects_def mark_frame(1) same)
  have N1: "dom (in_reg (cf_live ?c1)) \<subseteq> ?N" by (simp add: same)
  have S: "SrcLabel \<noteq> SrcNone" by simp
  note snd = sync_jobs_sound [OF assms(1) S ok1 p new1 N1]
  have src: "lv_source (cf_live ?c1) j = lv_source (cf_live c) j" if "map_of (cf_Jobs c k) m = Some j" for k m j
  proof -
    have k: "in_step cr (cf_Jobs c k) (cf_live c)" using assms(2) by (simp add: config_ok_def)
    then have "in_reg (cf_live c) m = Some j" using that by (force simp: in_step_def map_le_def dom_def)
    then have j: "j \<in> jobs_of (cf_live c)" using in_reg_iff k unfolding in_step_def by blast
    have "j \<notin> snd ` set (ce_range E (lc_Jobs ?P k'))" for k'
    proof
      assume "j \<in> snd ` set (ce_range E (lc_Jobs ?P k'))"
      moreover have "distinct (map fst (label_jobs E cs c k'))" using new [of k'] by (simp add: new_objects_def)
      ultimately have "j \<in> ran (map_of (label_jobs E cs c k'))" by (simp add: ran_distinct label_jobs_def)
      then show False using new [of k'] j unfolding new_objects_def by blast
    qed
    then show ?thesis using mark_frame(3) [where r = j and E = E and p = ?P and c = c] by simp
  qed
  have R: "reconciled (label_ops E cs c) (lv_source (cf_live ?c1)) SrcLabel (map_of (cf_Jobs ?c1 k)) (map_of (label_jobs E cs c k)) m = R k m" for k m
    unfolding R_def merge_globals_frame mark_frame(1) using src by (intro reconciled_cong) auto
  show "config_ok cr kd c'" using snd(1) unfolding config_ok_def c' hooks(1) reg(3) .
  show "map_of (cf_Jobs c' k) = R k" unfolding c' hooks(1) snd(2) by (rule ext) (rule R)
  show "in_reg (cf_live c') n =
       (if map_of (cf_Jobs c (kd n)) n = None \<and> map_of (label_jobs E cs c (kd n)) n = None then in_reg (cf_live c) n else R (kd n) n)"
    unfolding c' reg(1) snd(3) R by (simp add: mark_frame(1) same)
qed

section \<open>Properties\<close>

text \<open>C3 (label_update_follows_labels): let every job of the five tables be the scheduled job of its name, each name in the table of one
  kind, and let the labels decode to new, valid jobs that can be hashed, with schedules that go-cron accepts and names that no other
  kind of job and no job outside the tables holds. Then after an update from container labels every table, of all five
  kinds, is the one the rules of precedence give for the old table and the jobs decoded from the labels, the scheduler runs
  exactly the jobs of the tables under their names and leaves every other job alone, whatever the update did to
  global settings, webhooks and middlewares. Without these assumptions jobs are lost: a refused schedule by
  \<^verbatim>\<open>bad_schedule_drops_job\<close>, a name of two kinds by \<^verbatim>\<open>clashing_name_unschedules\<close>.\<close>

theorem label_update_follows_labels:
  fixes c :: "('c, 'w) Config"
  assumes "cron_laws cr" "config_ok cr kd c" "update_ok cr E kd cs c"
  defines "c' \<equiv> dockerContainersUpdate cr E cs c"
    and "R \<equiv> \<lambda>k. reconciled (label_ops E cs c) (lv_source (cf_live c)) SrcLabel (map_of (cf_Jobs c k)) (map_of (label_jobs E cs c k))"
  shows "config_ok cr kd c' \<and> map_of (cf_Jobs c' k) = R k \<and>
    in_reg (cf_live c') n =
      (if map_of (cf_Jobs c (kd n)) n = None \<and> map_of (label_jobs E cs c (kd n)) n = None then in_reg (cf_live c) n else R (kd n) n)"
  unfolding c'_def R_def using update_sound [OF assms(1-3)] by blast

definition sim_cont :: container_info where
  "sim_cont = \<lparr>ci_Name = ''web'', ci_Created = 1, ci_Running = True, ci_Labels = [(''ofelia.job-run.b.image'', ''x'')]\<rparr>"

definition sim_env_of :: "unit config_env" where
  "sim_env_of = \<lparr>ce_ops = (\<lambda>_ _ _. sync_ops), ce_sched_mws = (\<lambda>_ _. []),
     ce_decoders = \<lparr>ld_globals = (\<lambda>_ g. (None, g)), ld_jobs = (\<lambda>k _. (None, if k = KRun then [''b'' \<mapsto> 2] else Map.empty)), ld_webhooks = (\<lambda>_. [])\<rparr>,
     ce_json_arr = (\<lambda>_. None), ce_range = (\<lambda>m. case m ''b'' of None \<Rightarrow> [] | Some r \<Rightarrow> [(''b'', r)])\<rparr>"

definition sim_config :: "JobSource \<Rightarrow> (cron_entry list, unit) Config" where
  "sim_config src = \<lparr>cf_Global = sim_globals, cf_Webhooks = [], cf_iniWebhooks = {}, cf_Manager = None,
     cf_Jobs = (\<lambda>k. if k = KRun then [(''a'', 0)] else []), cf_live = one_live\<lparr>lv_source := (\<lambda>_. src)\<rparr>, cf_dedup = None,
     cf_globalDedup = False, cf_levelVar = LevelInfo, cf_modTime = 0\<rparr>"

lemma sim_config_sel [simp]:
  "cf_Jobs (sim_config src) = (\<lambda>k. if k = KRun then [(''a'', 0)] else [])" "lv_source (cf_live (sim_config src)) = (\<lambda>_. src)"
  by (simp_all add: sim_config_def)

lemma decode_all:
  assumes "\<And>k js. ld_jobs ld k js = (None, f k)" "distinct ks"
  shows "snd (decode_jobs ld raw ks jobs) = (\<lambda>k. if k \<in> set ks \<and> raw k \<noteq> Map.empty then f k else jobs k)"
  using assms(2) by (induction ks arbitrary: jobs) (auto simp: assms(1) fun_eq_iff)

lemma sim_live: "same_registry one_live (cf_live (sim_config src))"
  by (simp add: same_registry_def sim_config_def)

lemma sim_config_ok: "config_ok small_cron (\<lambda>_. KRun) (sim_config src)"
proof -
  have "in_step small_cron (cf_Jobs (sim_config src) k) one_live" for k
    using one_live_facts by (simp add: in_step_def sim_config_def)
  then show ?thesis unfolding config_ok_def same_registryD(3) [OF sim_live] by (auto simp: sim_config_def)
qed

lemma sim_run_labels: "lm_run (splitContainersLabelsIntoJobMapsByType (\<lambda>_. None) [sim_cont]) \<noteq> Map.empty"
proof -
  have "''b'' \<in> dom (lm_run (splitContainersLabelsIntoJobMapsByType (\<lambda>_. None) [sim_cont]))"
    by (simp add: splitContainersLabelsIntoJobMapsByType_def sortContainers_def sim_cont_def container_step_def
        container_labels_def label_step_def label_action_of_def hasServiceLabel_def canRunJobOnContainer_def
        checkJobTypeAllowedOnServiceContainer_def checkJobTypeAllowedOnStoppedContainer_def applyJobParameterToJobMaps_def
        dom_mergeJobMaps empty_maps_def Let_def del: domIff)
  then show ?thesis by auto
qed

lemma sim_label_jobs:
  "label_jobs sim_env_of [sim_cont] (sim_config src) = (\<lambda>k. if k = KRun then [(''b'', 2)] else [])"
proof -
  let ?ld = "ce_decoders sim_env_of" and ?m = "splitContainersLabelsIntoJobMapsByType (\<lambda>_. None) [sim_cont]"
  let ?f = "\<lambda>k. if k = KRun then [''b'' \<mapsto> 2] else Map.empty"
  have ld: "ld_jobs ?ld k js = (None, ?f k)" for k js by (simp add: sim_env_of_def)
  have d: "distinct [KExec, KLocal, KService, KRun, KCompose]" by simp
  have "snd (decode_jobs ?ld (raw_jobs b ?m) [KExec, KLocal, KService, KRun, KCompose] (\<lambda>_. Map.empty)) =
      (\<lambda>k. if k = KRun then [''b'' \<mapsto> 2] else Map.empty)" for b
    unfolding decode_all [where f = ?f, OF ld d] using sim_run_labels by (auto simp: raw_jobs_def fun_eq_iff)
  moreover have "fst (decoded_globals ?ld ?m g) = None" for g by (simp add: decoded_globals_def sim_env_of_def)
  ultimately have j: "lc_Jobs (snd (buildFromDockerContainers ?ld (\<lambda>_. None) [sim_cont] g)) = (\<lambda>k. if k = KRun then [''b'' \<mapsto> 2] else Map.empty)" for g
    unfolding build_jobs [OF refl] by simp
  have "ce_json_arr sim_env_of = (\<lambda>_. None)" by (simp add: sim_env_of_def)
  then have "lc_Jobs (label_scratch sim_env_of [sim_cont] (sim_config src)) = (\<lambda>k. if k = KRun then [''b'' \<mapsto> 2] else Map.empty)"
    unfolding label_scratch_def using j by simp
  then show ?thesis by (simp add: label_jobs_def fun_eq_iff) (simp add: sim_env_of_def)
qed

lemma sim_update_ok: "update_ok small_cron sim_env_of (\<lambda>_. KRun) [sim_cont] (sim_config src)"
proof -
  have ops: "label_ops sim_env_of [sim_cont] (sim_config src) = sync_ops" by (simp add: label_ops_def cf_ops_def sim_env_of_def)
  have reg: "in_reg (cf_live (sim_config src)) = [''a'' \<mapsto> 0]" "jobs_of (cf_live (sim_config src)) = {0}"
    using same_registryD(1,2) [OF sim_live] one_live_facts by simp_all
  have N: "dom (in_reg (cf_live (sim_config src))) \<union> (\<Union>k. dom (map_of (label_jobs sim_env_of [sim_cont] (sim_config src) k))) = {''a'', ''b''}"
    by (auto simp: sim_label_jobs reg split: if_splits)
  have "good_parsed small_cron {''a'', ''b''} sync_ops (map_of (label_jobs sim_env_of [sim_cont] (sim_config src) k))" for k
    using small_cron_accepts [of "{''a'', ''b''}" "''@daily''"]
    by (auto simp: good_parsed_def sim_label_jobs sync_ops_def split: if_splits)
  then show ?thesis unfolding update_ok_def N ops parsed_ok_def
    by (auto simp: sim_label_jobs new_objects_def reg ran_def split: if_splits)
qed

theorem label_update_follows_labels_witness:
  "let c' = dockerContainersUpdate small_cron sim_env_of [sim_cont] (sim_config SrcLabel)
   in map_of (cf_Jobs c' KRun) = [''b'' \<mapsto> 2] \<and> in_reg (cf_live c') ''a'' = None \<and> in_reg (cf_live c') ''b'' = Some 2"
proof -
  have "reconciled ops (lv_source (cf_live (sim_config SrcLabel))) SrcLabel (map_of (cf_Jobs (sim_config SrcLabel) KRun))
      (map_of (label_jobs sim_env_of [sim_cont] (sim_config SrcLabel) KRun)) = [''b'' \<mapsto> 2]" for ops :: "unit job_ops"
    by (auto simp: reconciled_def foreign_def sim_label_jobs fun_eq_iff)
  then show ?thesis
    using label_update_follows_labels [OF small_cron_laws sim_config_ok sim_update_ok, of SrcLabel KRun "''a''"]
      label_update_follows_labels [OF small_cron_laws sim_config_ok sim_update_ok, of SrcLabel KRun "''b''"]
    by (auto simp: Let_def sim_label_jobs split: if_splits)
qed

text \<open>C4 (ini_jobs_survive_label_updates): under the assumptions of \<^verbatim>\<open>label_update_follows_labels\<close> (valid jobs with accepted schedules, every
  name used by one kind of job only), no update from container labels removes or replaces a job of the INI file: it keeps its place in
  the table of its kind and in the scheduler, although labels may declare a job of its name and kind. A label job of the same name but another
  kind is excluded by the assumptions, and it does unschedule the INI job, by \<^verbatim>\<open>clashing_name_unschedules\<close>.\<close>

theorem ini_jobs_survive_label_updates:
  assumes "cron_laws cr" "config_ok cr kd c" "update_ok cr E kd cs c"
    and j: "map_of (cf_Jobs c k) n = Some j" "lv_source (cf_live c) j = SrcINI"
  shows "map_of (cf_Jobs (dockerContainersUpdate cr E cs c) k) n = Some j \<and>
    in_reg (cf_live (dockerContainersUpdate cr E cs c)) n = Some j"
proof -
  have "reconciled ops (lv_source (cf_live c)) SrcLabel (map_of (cf_Jobs c k)) p n = Some j" for ops p
    using j by (simp add: reconciled_def foreign_def)
  moreover have "kd n = k" using assms(2) j(1) by (force simp: config_ok_def dom_def)
  ultimately show ?thesis using update_sound(2,3) [OF assms(1-3)] j(1) by auto
qed

theorem ini_jobs_survive_label_updates_witness:
  "in_reg (cf_live (dockerContainersUpdate small_cron sim_env_of [sim_cont] (sim_config SrcINI))) ''a'' = Some 0"
  using ini_jobs_survive_label_updates [OF small_cron_laws sim_config_ok sim_update_ok, of SrcINI KRun "''a''" 0]
  by simp

text \<open>Without containers nothing is decoded.\<close>

lemma no_containers: "lc_Jobs (snd (buildFromDockerContainers ld ja [] g)) = (\<lambda>_. Map.empty)"
proof -
  have "raw_jobs b (splitContainersLabelsIntoJobMapsByType ja []) k = Map.empty" for b k
    by (cases k) (simp_all add: raw_jobs_def splitContainersLabelsIntoJobMapsByType_def sortContainers_def empty_maps_def)
  then show ?thesis unfolding build_jobs [OF refl] by simp
qed

text \<open>(docker_error_drops_label_jobs): when the list of containers cannot be read (the daemon restarts, a call times out), the error is
  only logged and the update runs with no containers: every job from labels is removed from its table and from the
  scheduler, until a later refresh adds them again.\<close>

theorem docker_error_drops_label_jobs:
  fixes c :: "('c, 'w) Config"
  assumes "cron_laws cr" "config_ok cr kd c" "ce_range E Map.empty = []" "\<And>r. \<exists>h. jo_Hash (label_ops E [] c) r = Inr h"
    and got: "ListContainers filters includeStopped = ListFailed err"
      "parse_filters fs [''label'' \<mapsto> [''ofelia.enabled=true'']] = Inr filters"
    and j: "map_of (cf_Jobs c k) n = Some j" "lv_source (cf_live c) j = SrcLabel"
  defines "c' \<equiv> refreshContainerLabels cr E (GetDockerContainers ListContainers fs includeStopped) c"
  shows "map_of (cf_Jobs c' k) n = None \<and> in_reg (cf_live c') n = None"
proof -
  have l: "label_jobs E [] c = (\<lambda>_. [])" by (simp add: label_jobs_def label_scratch_def no_containers assms(3) fun_eq_iff)
  have "update_ok cr E kd [] c"
    using assms(4) by (simp add: update_ok_def parsed_ok_def good_parsed_def new_objects_def l)
  note u = update_sound [OF assms(1,2) this]
  have c': "c' = dockerContainersUpdate cr E [] c" by (simp add: c'_def refreshContainerLabels_def GetDockerContainers_def got)
  have "kd n = k" using assms(2) j(1) by (force simp: config_ok_def dom_def)
  then show ?thesis unfolding c' u(2,3) using j by (simp add: l reconciled_def foreign_def)
qed

theorem docker_error_drops_label_jobs_witness:
  "in_reg (cf_live (refreshContainerLabels small_cron sim_env_of
     (GetDockerContainers (\<lambda>_ _. ListFailed (Opaque 1 ''connection refused'')) [] False) (sim_config SrcLabel))) ''a'' = None"
proof -
  have ops: "label_ops sim_env_of [] (sim_config SrcLabel) = sync_ops" by (simp add: label_ops_def cf_ops_def sim_env_of_def)
  have "jo_Hash (label_ops sim_env_of [] (sim_config SrcLabel)) r = Inr (if r = 0 then ''old'' else ''new'')" for r
    unfolding ops by (simp add: sync_ops_def)
  then have h: "\<exists>h. jo_Hash (label_ops sim_env_of [] (sim_config SrcLabel)) r = Inr h" for r by blast
  have r: "ce_range sim_env_of Map.empty = []" by (simp add: sim_env_of_def)
  show ?thesis
    using docker_error_drops_label_jobs [OF small_cron_laws sim_config_ok r h, where k = KRun and n = "''a''" and j = 0 and
        ListContainers = "\<lambda>_ _. ListFailed (Opaque 1 ''connection refused'')" and fs = "[]" and includeStopped = False]
    by simp
qed

section \<open>Reloads of the INI file\<close>

lemma manager_frame [simp]:
  "cf_Jobs (refreshWebhookManagerOnGlobalChange c) = cf_Jobs c" "cf_live (refreshWebhookManagerOnGlobalChange c) = cf_live c"
  "cf_dedup (refreshWebhookManagerOnGlobalChange c) = cf_dedup c" "cf_globalDedup (refreshWebhookManagerOnGlobalChange c) = cf_globalDedup c"
  "cf_Global (refreshWebhookManagerOnGlobalChange c) = cf_Global c"
  by (simp_all add: refreshWebhookManagerOnGlobalChange_def cf_InitManager_def split: prod.splits)

lemma hooks_frame [simp]:
  "cf_Jobs (set_hooks wc c) = cf_Jobs c" "cf_live (set_hooks wc c) = cf_live c" "cf_dedup (set_hooks wc c) = cf_dedup c"
  "cf_globalDedup (set_hooks wc c) = cf_globalDedup c"
  by (simp_all add: set_hooks_def)

lemma reload_globals_frame:
  "cf_Jobs (reload_globals E parsed c) = cf_Jobs c" "same_registry (cf_live c) (cf_live (reload_globals E parsed c))"
  "lv_source (cf_live (reload_globals E parsed c)) = lv_source (cf_live c)" "cf_dedup (reload_globals E parsed c) = cf_dedup c"
  "cf_globalDedup (reload_globals E parsed c) = False"
proof -
  let ?c1 = "refreshWebhookManagerOnGlobalChange (c\<lparr>cf_Global := pi_Global parsed, cf_globalDedup := False\<rparr>)"
  have src: "lv_source (fold (rebuild_job ops) rs lv) = lv_source lv" for ops rs and lv :: "('a, 'b) live"
    by (induction rs arbitrary: lv) (simp_all add: rebuild_job_def Let_def)
  show "cf_Jobs (reload_globals E parsed c) = cf_Jobs c" "cf_dedup (reload_globals E parsed c) = cf_dedup c"
    "cf_globalDedup (reload_globals E parsed c) = False"
    by (auto simp: reload_globals_def Let_def)
  show "same_registry (cf_live c) (cf_live (reload_globals E parsed c))"
    using rebuild_same [of ?c1 E "\<lambda>s. GetActiveJobs s @ GetDisabledJobs s"] by (simp add: reload_globals_def Let_def)
  show "lv_source (cf_live (reload_globals E parsed c)) = lv_source (cf_live c)"
    by (simp add: reload_globals_def rebuild_with_def rebuild_scheduler_def Let_def src del: fold_append)
qed

lemma ini_ready_frame:
  "cf_Jobs (ini_ready E parsed latest c) = cf_Jobs c" "same_registry (cf_live c) (cf_live (ini_ready E parsed latest c))"
  "lv_source (cf_live (ini_ready E parsed latest c)) = lv_source (cf_live c)" "cf_dedup (ini_ready E parsed latest c) = cf_dedup c"
  "\<not> cf_globalDedup (ini_ready E parsed latest c)"
  using reload_globals_frame [where E = E and parsed = parsed and c = "c\<lparr>cf_modTime := latest\<rparr>"]
  by (simp_all add: ini_ready_def Let_def split: prod.splits)

text \<open>The reload sees a changed file that can be read.\<close>

definition ini_changed :: "ini_files \<Rightarrow> time \<Rightarrow> (string \<Rightarrow> go_error + parsed_ini) \<Rightarrow> string \<Rightarrow> ('c, 'w) Config \<Rightarrow> time \<Rightarrow> parsed_ini \<Rightarrow> bool" where
  "ini_changed F zero BuildFromFile path c latest parsed \<longleftrightarrow>
     path \<noteq> [] \<and> BuildFromFile path = Inr parsed \<and>
     (case resolveConfigFiles F path of
        Inl _ \<Rightarrow> False | Inr files \<Rightarrow> latestChanged F zero files (cf_modTime c) = Inr (latest, True))"

lemma ini_update_changed:
  assumes "ini_changed F zero B path c latest parsed"
  shows "iniConfigUpdate cr E F zero B path c =
    (None, sync_jobs cr (cf_ops E (ini_ready E parsed latest c)) SrcINI (pi_Jobs parsed) (ini_ready E parsed latest c))"
  using assms by (auto simp: ini_changed_def iniConfigUpdate_def Let_def split: sum.splits)

text \<open>C5 (ini_reload_follows_file): let every job of the tables be the scheduled job of its name, each name in the table of one kind.
  When the INI file has changed and can be loaded, and its jobs are new, valid jobs that can be hashed, with accepted schedules and names that no
  other kind of job and no job outside the tables holds, then a reload leaves in every table the jobs that the rules of precedence give for the
  old table and the file (jobs of the file replace label jobs of the same name, label jobs of other names stay),
  and the scheduler runs exactly these under their names and leaves every other job alone.\<close>

theorem ini_reload_follows_file:
  fixes c :: "('c, 'w) Config"
  assumes "cron_laws cr" "config_ok cr kd c" "ini_changed F zero B path c latest parsed"
    and p: "parsed_ok cr (dom (in_reg (cf_live c)) \<union> (\<Union>k. dom (map_of (pi_Jobs parsed k)))) kd (cf_ops E (ini_ready E parsed latest c)) (pi_Jobs parsed)"
    and new: "\<And>k. new_objects (pi_Jobs parsed k) (cf_Jobs c k) (cf_live c)"
  defines "R \<equiv> \<lambda>k. reconciled (cf_ops E (ini_ready E parsed latest c)) (lv_source (cf_live c)) SrcINI (map_of (cf_Jobs c k)) (map_of (pi_Jobs parsed k))"
  shows "case iniConfigUpdate cr E F zero B path c of (err, c') \<Rightarrow>
    err = None \<and> config_ok cr kd c' \<and> map_of (cf_Jobs c' k) = R k \<and>
    in_reg (cf_live c') n =
      (if map_of (cf_Jobs c (kd n)) n = None \<and> map_of (pi_Jobs parsed (kd n)) n = None then in_reg (cf_live c) n else R (kd n) n)"
proof -
  let ?c1 = "ini_ready E parsed latest c"
  note f = ini_ready_frame [where E = E and parsed = parsed and latest = latest and c = c] and same = same_registryD [OF ini_ready_frame(2) [where E = E and parsed = parsed and latest = latest and c = c]]
  have ok: "config_ok cr kd ?c1" using assms(2) by (simp add: config_ok_def f(1) same)
  have new1: "new_objects (pi_Jobs parsed k) (cf_Jobs ?c1 k) (cf_live ?c1)" for k
    using new [of k] by (simp add: new_objects_def f(1) same)
  have N: "dom (in_reg (cf_live ?c1)) \<subseteq> dom (in_reg (cf_live c)) \<union> (\<Union>k. dom (map_of (pi_Jobs parsed k)))" by (simp add: same)
  have S: "SrcINI \<noteq> SrcNone" by simp
  from sync_jobs_sound [OF assms(1) S ok p new1 N] show ?thesis
    unfolding ini_update_changed [OF assms(3)] R_def by (simp add: f(1,3) same)
qed

theorem ini_reload_follows_file_witness:
  "case iniConfigUpdate small_cron sim_env_of \<lparr>if_Glob = (\<lambda>p. Inr [p]), if_ModTime = (\<lambda>_. Inr 5)\<rparr> 0
      (\<lambda>_. Inr \<lparr>pi_Global = sim_globals, pi_others_differ = False, pi_Jobs = (\<lambda>k. if k = KRun then [(''a'', 1)] else []), pi_Webhooks = None\<rparr>)
      ''ofelia.ini'' (sim_config SrcLabel) of
     (err, c') \<Rightarrow> err = None \<and> in_reg (cf_live c') ''a'' = Some 1"
proof -
  let ?F = "\<lparr>if_Glob = (\<lambda>p. Inr [p]), if_ModTime = (\<lambda>_. Inr 5)\<rparr> :: ini_files"
  let ?p = "\<lparr>pi_Global = sim_globals, pi_others_differ = False, pi_Jobs = (\<lambda>k. if k = KRun then [(''a'', 1)] else []), pi_Webhooks = None\<rparr> :: parsed_ini"
  let ?c = "sim_config SrcLabel"
  have ch: "ini_changed ?F 0 (\<lambda>_. Inr ?p) ''ofelia.ini'' ?c 5 ?p"
    by (simp add: ini_changed_def resolveConfigFiles_def latestChanged_def sim_config_def)
  have ops: "cf_ops sim_env_of (ini_ready sim_env_of ?p 5 ?c) = sync_ops" by (simp add: cf_ops_def sim_env_of_def)
  have reg: "in_reg (cf_live ?c) = [''a'' \<mapsto> 0]" "jobs_of (cf_live ?c) = {0}"
    using same_registryD(1,2) [OF sim_live] one_live_facts by simp_all
  have N: "dom (in_reg (cf_live ?c)) \<union> (\<Union>k. dom (map_of (pi_Jobs ?p k))) = {''a''}" by (auto simp: reg split: if_splits)
  have good: "parsed_ok small_cron (dom (in_reg (cf_live ?c)) \<union> (\<Union>k. dom (map_of (pi_Jobs ?p k)))) (\<lambda>_. KRun)
      (cf_ops sim_env_of (ini_ready sim_env_of ?p 5 ?c)) (pi_Jobs ?p)"
    unfolding N ops parsed_ok_def good_parsed_def using small_cron_accepts [of "{''a''}" "''@daily''"]
    by (auto simp: sync_ops_def ran_def split: if_splits)
  have new: "new_objects (pi_Jobs ?p k) (cf_Jobs ?c k) (cf_live ?c)" for k
    by (auto simp: new_objects_def reg ran_def split: if_splits)
  show ?thesis
    using ini_reload_follows_file [OF small_cron_laws sim_config_ok ch good new, of KRun "''a''"]
    by (auto simp: ops reconciled_def foreign_def sync_ops_def split: prod.splits)
qed

text \<open>(reload_loses_cooldown): a reload of a changed INI file detaches the global Slack and mail settings from the deduplicator and
  keeps the deduplicator of the old cooldown, whatever cooldown the new file asks for.\<close>

theorem reload_loses_cooldown:
  assumes "ini_changed F zero B path c latest parsed"
  shows "case iniConfigUpdate cr E F zero B path c of (err, c') \<Rightarrow> cf_dedup c' = cf_dedup c \<and> \<not> cf_globalDedup c'"
proof -
  have "cf_dedup (sync_jobs cr ops src p c1) = cf_dedup c1 \<and> cf_globalDedup (sync_jobs cr ops src p c1) = cf_globalDedup c1"
    for ops src p and c1 :: "('a, 'b) Config"
    unfolding sync_jobs_def by (simp split: prod.splits)
  then show ?thesis unfolding ini_update_changed [OF assms] by (simp add: ini_ready_frame(4,5))
qed

theorem reload_loses_cooldown_witness:
  "case iniConfigUpdate small_cron sim_env_of \<lparr>if_Glob = (\<lambda>p. Inr [p]), if_ModTime = (\<lambda>_. Inr 5)\<rparr> 0
      (\<lambda>_. Inr \<lparr>pi_Global = sim_globals\<lparr>g_NotificationCooldown := 60\<rparr>, pi_others_differ = False, pi_Jobs = (\<lambda>_. []), pi_Webhooks = None\<rparr>)
      ''ofelia.ini'' (sim_config SrcLabel) of
     (err, c') \<Rightarrow> cf_dedup c' = None"
  using reload_loses_cooldown [where F = "\<lparr>if_Glob = (\<lambda>p. Inr [p]), if_ModTime = (\<lambda>_. Inr 5)\<rparr>" and zero = 0 and path = "''ofelia.ini''"
      and c = "sim_config SrcLabel" and latest = 5 and cr = small_cron and E = sim_env_of
      and parsed = "\<lparr>pi_Global = sim_globals\<lparr>g_NotificationCooldown := 60\<rparr>, pi_others_differ = False, pi_Jobs = (\<lambda>_. []), pi_Webhooks = None\<rparr>"
      and B = "\<lambda>_. Inr \<lparr>pi_Global = sim_globals\<lparr>g_NotificationCooldown := 60\<rparr>, pi_others_differ = False, pi_Jobs = (\<lambda>_. []), pi_Webhooks = None\<rparr>"]
  by (auto simp: ini_changed_def resolveConfigFiles_def latestChanged_def sim_config_def split: prod.splits)

end
