(* ===== verification/Runs.thy ===== *)
theory Runs
  imports Prelude
begin

text \<open>
  Runs of a labelled step relation, for the parts of the program that several goroutines share: a step is one
  critical section or one branch of a \<^verbatim>\<open>select\<close>, its label says which. The locale \<open>transition\<close> carries a property of
  states from steps to runs.
\<close>

inductive runs :: "('s \<Rightarrow> 'a \<Rightarrow> 's \<Rightarrow> bool) \<Rightarrow> 's \<Rightarrow> 'a list \<Rightarrow> 's \<Rightarrow> bool" for step where
  none: "runs step s [] s"
| more: "runs step s as t \<Longrightarrow> step t a u \<Longrightarrow> runs step s (as @ [a]) u"

lemma runs_trans: "runs step t bs u \<Longrightarrow> runs step s as t \<Longrightarrow> runs step s (as @ bs) u"
proof (induction rule: runs.induct)
  case (more t bs u b v)
  then show ?case using runs.more [of step s "as @ bs" u b v] by simp
qed simp

lemma runs_one: "step s a t \<Longrightarrow> runs step s [a] t"
  using runs.more [OF runs.none] by fastforce

lemma runs_step: "step s a t \<Longrightarrow> runs step t as u \<Longrightarrow> runs step s (a # as) u"
  using runs_trans [of step t as u s "[a]"] runs_one [of step s a t] by simp

locale transition =
  fixes step :: "'s \<Rightarrow> 'a \<Rightarrow> 's \<Rightarrow> bool"
    and ok :: "'s \<Rightarrow> bool"
  assumes ok_step: "step s a t \<Longrightarrow> ok s \<Longrightarrow> ok t"
begin

lemma ok_runs: "runs step s as t \<Longrightarrow> ok s \<Longrightarrow> ok t"
  by (induction rule: runs.induct) (auto intro: ok_step)

end

text \<open>A relation between the labels of a run so far and the state.\<close>

locale history =
  fixes step :: "'s \<Rightarrow> 'a \<Rightarrow> 's \<Rightarrow> bool"
    and rel :: "'a list \<Rightarrow> 's \<Rightarrow> bool"
  assumes rel_step: "step s a t \<Longrightarrow> rel as s \<Longrightarrow> rel (as @ [a]) t"
begin

lemma rel_runs: "runs step s as t \<Longrightarrow> rel [] s \<Longrightarrow> rel as t"
  by (induction rule: runs.induct) (auto intro: rel_step)

end

end
