(* ===== verification/DockerEvents.thy ===== *)
theory DockerEvents
  imports Reload Runs
begin

text \<open>
  The goroutines that watch Docker and the INI file (\<^verbatim>\<open>src/cli/docker_config_handler.go\<close>) and the subscription
  they read (\<^verbatim>\<open>src/core/adapters/docker/event.go\<close>): the event loop with its backoff, the polling that replaces a
  broken event stream, explicit polling, the polling of the INI file and \<^verbatim>\<open>Shutdown\<close>. A step is one critical section or one
  branch of a \<^verbatim>\<open>select\<close>; the goroutines interleave in any order. What an event says is not read by the program, so
  a channel of events is their number. The updates handed to the configuration are recorded in their order.
\<close>

section \<open>The subscription\<close>

text \<open>The goroutine that forwards events runs, holds an event it has to send, closes the two channels, or has ended.\<close>

datatype forwarder = FwRun | FwSend | FwCloseErr | FwCloseEvents | FwEnded

record subscription =
  sb_forwarder :: forwarder
  sb_events :: nat
  sb_evClosed :: bool
  sb_errs :: "result list"
  sb_errClosed :: bool

definition ErrNilDockerClient :: go_error where
  "ErrNilDockerClient = Opaque 41 ''docker adapter: nil SDK client''"

definition Subscribe :: "bool \<Rightarrow> subscription" where
  "Subscribe client =
     (if client
      then \<lparr>sb_forwarder = FwRun, sb_events = 0, sb_evClosed = False, sb_errs = [], sb_errClosed = False\<rparr>
      else \<lparr>sb_forwarder = FwEnded, sb_events = 0, sb_evClosed = True, sb_errs = [Some ErrNilDockerClient], sb_errClosed = True\<rparr>)"

text \<open>Before the first subscription there is nothing to receive.\<close>

definition no_subscription :: subscription where
  "no_subscription = \<lparr>sb_forwarder = FwEnded, sb_events = 0, sb_evClosed = True, sb_errs = [], sb_errClosed = True\<rparr>"

definition event_buffer :: nat where "event_buffer = 100"

datatype fw_action =
    FwEvent
  | FwPush
  | FwError result
  | FwEventsEnd
  | FwCancelled
  | FwCloseErrCh
  | FwCloseEventCh

text \<open>The branches of the goroutine; an error is what \<^verbatim>\<open>convertError\<close> made of it.\<close>

inductive fw_step :: "bool \<Rightarrow> subscription \<Rightarrow> fw_action \<Rightarrow> subscription \<Rightarrow> bool" for canceled where
  fw_event: "sb_forwarder b = FwRun \<Longrightarrow> fw_step canceled b FwEvent (b\<lparr>sb_forwarder := FwSend\<rparr>)"
| fw_push: "sb_forwarder b = FwSend \<Longrightarrow> sb_events b < event_buffer \<Longrightarrow>
     fw_step canceled b FwPush (b\<lparr>sb_forwarder := FwRun, sb_events := Suc (sb_events b)\<rparr>)"
| fw_error: "sb_forwarder b = FwRun \<Longrightarrow>
     fw_step canceled b (FwError e) (b\<lparr>sb_forwarder := FwCloseErr, sb_errs := (if e = None then sb_errs b else sb_errs b @ [e])\<rparr>)"
| fw_end: "sb_forwarder b = FwRun \<Longrightarrow> fw_step canceled b FwEventsEnd (b\<lparr>sb_forwarder := FwCloseErr\<rparr>)"
| fw_cancelled: "canceled \<Longrightarrow> sb_forwarder b \<in> {FwRun, FwSend} \<Longrightarrow> fw_step canceled b FwCancelled (b\<lparr>sb_forwarder := FwCloseErr\<rparr>)"
| fw_close_err: "sb_forwarder b = FwCloseErr \<Longrightarrow>
     fw_step canceled b FwCloseErrCh (b\<lparr>sb_forwarder := FwCloseEvents, sb_errClosed := True\<rparr>)"
| fw_close_events: "sb_forwarder b = FwCloseEvents \<Longrightarrow>
     fw_step canceled b FwCloseEventCh (b\<lparr>sb_forwarder := FwEnded, sb_evClosed := True\<rparr>)"

inductive_cases fw_stepE: "fw_step canceled b a b'"

section \<open>The handler\<close>

datatype watch_phase = WCheck | WListen | WRefresh | WBackoff | WDone

datatype update = LabelUpdate "container_info list" | IniUpdate

record DockerHandler =
  dh_filters :: "string list"
  dh_includeStopped :: bool
  dh_pollingFallback :: duration
  dh_canceled :: bool
  dh_provider :: bool
  dh_eventsFailed :: bool
  dh_fallbackPollingActive :: bool
  dh_fallbackCancel :: "nat option"
  dh_watch :: watch_phase
  dh_backoff :: duration
  dh_sub :: subscription
  dh_polls :: bool
  dh_configPolls :: bool
  dh_spawned :: nat
  dh_pollers :: "nat list"
  dh_canceledCtx :: "nat set"
  dh_nextCtx :: nat
  dh_updates :: "update list"
  dh_panic :: bool

record DockerConfig =
  dc_Filters :: "string list"
  dc_IncludeStopped :: bool
  dc_ConfigPollInterval :: duration
  dc_UseEvents :: bool
  dc_DockerPollInterval :: duration
  dc_PollingFallback :: duration
  dc_PollInterval :: duration
  dc_DisablePolling :: bool

text \<open>\<^verbatim>\<open>resolveConfig\<close> only warns and hands the four settings on.\<close>

definition resolveConfig :: "DockerConfig \<Rightarrow> duration \<times> duration \<times> duration \<times> bool" where
  "resolveConfig cfg = (dc_ConfigPollInterval cfg, dc_DockerPollInterval cfg, dc_PollingFallback cfg, dc_UseEvents cfg)"

definition buildSDKProvider :: "result \<Rightarrow> result \<Rightarrow> result" where
  "buildSDKProvider newProvider ping =
     (case newProvider of
        Some err \<Rightarrow> Some (Errorf [Lit ''failed to create SDK Docker provider: '', Wrap err])
      | None \<Rightarrow> (case ping of
          Some err \<Rightarrow> Some (Errorf [Lit ''SDK provider failed to connect to Docker: '', Wrap err])
        | None \<Rightarrow> None))"

definition initialBackoff :: duration where "initialBackoff = second"
definition maxBackoff :: duration where "maxBackoff = 5 * minute"

definition NewDockerHandler :: "DockerConfig \<Rightarrow> bool \<Rightarrow> result \<Rightarrow> result \<Rightarrow> result \<Rightarrow> go_error + DockerHandler" where
  "NewDockerHandler cfg given newProvider sdkPing ping =
     (case resolveConfig cfg of (configPoll, dockerPoll, fallback, useEvents) \<Rightarrow>
      (case (if given then None else buildSDKProvider newProvider sdkPing) of
         Some err \<Rightarrow> Inl err
       | None \<Rightarrow> (case ping of
           Some err \<Rightarrow> Inl (Errorf [Lit ''failed to connect to Docker daemon: '', Wrap err])
         | None \<Rightarrow>
             Inr \<lparr>dh_filters = dc_Filters cfg, dh_includeStopped = dc_IncludeStopped cfg, dh_pollingFallback = fallback,
               dh_canceled = False, dh_provider = True, dh_eventsFailed = False, dh_fallbackPollingActive = False,
               dh_fallbackCancel = None, dh_watch = (if useEvents then WCheck else WDone), dh_backoff = initialBackoff,
               dh_sub = no_subscription, dh_polls = (0 < dockerPoll), dh_configPolls = (0 < configPoll), dh_spawned = 0,
               dh_pollers = [], dh_canceledCtx = {}, dh_nextCtx = 0, dh_updates = [], dh_panic = False\<rparr>)))"

text \<open>Listing containers with the provider removed is a call on a nil interface, unless a bad filter ends it before.\<close>

definition dh_refresh :: "list_result \<Rightarrow> DockerHandler \<Rightarrow> DockerHandler" where
  "dh_refresh answer c =
     (case parse_filters (dh_filters c) [''label'' \<mapsto> [''ofelia.enabled=true'']] of
        Inr _ \<Rightarrow> if dh_provider c
          then c\<lparr>dh_updates := dh_updates c @ [LabelUpdate (fst (GetDockerContainers (\<lambda>_ _. answer) (dh_filters c) (dh_includeStopped c)))]\<rparr>
          else c\<lparr>dh_panic := True\<rparr>
      | Inl _ \<Rightarrow> c\<lparr>dh_updates := dh_updates c @ [LabelUpdate (fst (GetDockerContainers (\<lambda>_ _. answer) (dh_filters c) (dh_includeStopped c)))]\<rparr>)"

definition handleEventStreamError :: "DockerHandler \<Rightarrow> DockerHandler" where
  "handleEventStreamError c =
     (if dh_eventsFailed c then c
      else let c1 = c\<lparr>dh_eventsFailed := True\<rparr>
           in if 0 < dh_pollingFallback c1 \<and> \<not> dh_fallbackPollingActive c1 then c1\<lparr>dh_spawned := Suc (dh_spawned c1)\<rparr> else c1)"

definition clearEventStreamError :: "DockerHandler \<Rightarrow> DockerHandler" where
  "clearEventStreamError c =
     (let c1 = c\<lparr>dh_eventsFailed := False\<rparr>
      in case dh_fallbackCancel c1 of None \<Rightarrow> c1 | Some k \<Rightarrow> c1\<lparr>dh_canceledCtx := insert k (dh_canceledCtx c1)\<rparr>)"

text \<open>\<^verbatim>\<open>startFallbackPolling\<close> up to its loop.\<close>

definition startFallbackPolling :: "DockerHandler \<Rightarrow> DockerHandler" where
  "startFallbackPolling c =
     (let c1 = c\<lparr>dh_spawned := dh_spawned c - 1\<rparr>
      in if dh_fallbackPollingActive c1 then c1
         else c1\<lparr>dh_fallbackPollingActive := True, dh_fallbackCancel := Some (dh_nextCtx c1),
                 dh_pollers := dh_nextCtx c1 # dh_pollers c1, dh_nextCtx := Suc (dh_nextCtx c1)\<rparr>)"

definition stopFallbackPolling :: "nat \<Rightarrow> DockerHandler \<Rightarrow> DockerHandler" where
  "stopFallbackPolling k c =
     c\<lparr>dh_fallbackPollingActive := False, dh_fallbackCancel := None, dh_pollers := removeAll k (dh_pollers c)\<rparr>"

definition next_backoff :: "duration \<Rightarrow> duration" where
  "next_backoff backoff = min (2 * backoff) maxBackoff"

datatype dh_action =
    WatchStop
  | WatchSubscribe bool
  | ErrReceived
  | ErrChClosed
  | EventReceived
  | EventChClosed
  | WatchRefresh list_result
  | BackoffOver
  | Forward fw_action
  | FallbackStart
  | FallbackTick nat list_result
  | FallbackStop nat
  | PollTick list_result
  | PollStop
  | ConfigTick
  | ConfigStop
  | ShutdownCancel
  | ShutdownClose

text \<open>\<^verbatim>\<open>Shutdown\<close> cancels the context, waits for the goroutines of the wait group and removes the provider.\<close>

inductive dh_step :: "DockerHandler \<Rightarrow> dh_action \<Rightarrow> DockerHandler \<Rightarrow> bool" where
  watch_stop: "dh_watch c \<in> {WCheck, WListen, WBackoff} \<Longrightarrow> dh_canceled c \<Longrightarrow> dh_step c WatchStop (c\<lparr>dh_watch := WDone\<rparr>)"
| watch_subscribe: "dh_watch c = WCheck \<Longrightarrow> \<not> dh_canceled c \<Longrightarrow>
     dh_step c (WatchSubscribe client)
       (if dh_provider c then c\<lparr>dh_watch := WListen, dh_sub := Subscribe client\<rparr> else c\<lparr>dh_panic := True\<rparr>)"
| err_received: "dh_watch c = WListen \<Longrightarrow> sb_errs (dh_sub c) = e # es \<Longrightarrow>
     dh_step c ErrReceived
       ((if e \<noteq> None then handleEventStreamError c else c)\<lparr>dh_watch := WBackoff, dh_sub := (dh_sub c)\<lparr>sb_errs := es\<rparr>\<rparr>)"
| err_ch_closed: "dh_watch c = WListen \<Longrightarrow> sb_errs (dh_sub c) = [] \<Longrightarrow> sb_errClosed (dh_sub c) \<Longrightarrow>
     dh_step c ErrChClosed (c\<lparr>dh_watch := WCheck\<rparr>)"
| event_received: "dh_watch c = WListen \<Longrightarrow> sb_events (dh_sub c) = Suc n \<Longrightarrow>
     dh_step c EventReceived
       ((clearEventStreamError c)\<lparr>dh_backoff := initialBackoff, dh_watch := WRefresh, dh_sub := (dh_sub c)\<lparr>sb_events := n\<rparr>\<rparr>)"
| event_ch_closed: "dh_watch c = WListen \<Longrightarrow> sb_events (dh_sub c) = 0 \<Longrightarrow> sb_evClosed (dh_sub c) \<Longrightarrow>
     dh_step c EventChClosed (c\<lparr>dh_watch := WCheck\<rparr>)"
| watch_refresh: "dh_watch c = WRefresh \<Longrightarrow> dh_step c (WatchRefresh answer) ((dh_refresh answer c)\<lparr>dh_watch := WListen\<rparr>)"
| backoff_over: "dh_watch c = WBackoff \<Longrightarrow>
     dh_step c BackoffOver (c\<lparr>dh_watch := WCheck, dh_backoff := next_backoff (dh_backoff c)\<rparr>)"
| forward: "fw_step (dh_canceled c) (dh_sub c) a b \<Longrightarrow> dh_step c (Forward a) (c\<lparr>dh_sub := b\<rparr>)"
| fallback_start: "0 < dh_spawned c \<Longrightarrow> dh_step c FallbackStart (startFallbackPolling c)"
| fallback_tick: "k \<in> set (dh_pollers c) \<Longrightarrow> dh_step c (FallbackTick k answer) (dh_refresh answer c)"
| fallback_stop: "k \<in> set (dh_pollers c) \<Longrightarrow> k \<in> dh_canceledCtx c \<or> dh_canceled c \<Longrightarrow>
     dh_step c (FallbackStop k) (stopFallbackPolling k c)"
| poll_tick: "dh_polls c \<Longrightarrow> dh_step c (PollTick answer) (dh_refresh answer c)"
| poll_stop: "dh_polls c \<Longrightarrow> dh_canceled c \<Longrightarrow> dh_step c PollStop (c\<lparr>dh_polls := False\<rparr>)"
| config_tick: "dh_configPolls c \<Longrightarrow> dh_step c ConfigTick (c\<lparr>dh_updates := dh_updates c @ [IniUpdate]\<rparr>)"
| config_stop: "dh_configPolls c \<Longrightarrow> dh_canceled c \<Longrightarrow> dh_step c ConfigStop (c\<lparr>dh_configPolls := False\<rparr>)"
| shutdown_cancel: "dh_step c ShutdownCancel (c\<lparr>dh_canceled := True\<rparr>)"
| shutdown_close: "dh_canceled c \<Longrightarrow> dh_watch c = WDone \<Longrightarrow> \<not> dh_polls c \<Longrightarrow> \<not> dh_configPolls c \<Longrightarrow>
     dh_step c ShutdownClose (c\<lparr>dh_provider := False\<rparr>)"

inductive_cases dh_stepE: "dh_step c a c'"
inductive_simps watch_refresh_iff: "dh_step c (WatchRefresh answer) c'"

section \<open>The invariant\<close>

definition sub_ok :: "subscription \<Rightarrow> bool" where
  "sub_ok b \<longleftrightarrow> sb_events b \<le> event_buffer \<and> length (sb_errs b) \<le> 1 \<and>
     (sb_errs b \<noteq> [] \<longrightarrow> sb_forwarder b \<in> {FwCloseErr, FwCloseEvents, FwEnded}) \<and>
     (sb_errClosed b \<longleftrightarrow> sb_forwarder b \<in> {FwCloseEvents, FwEnded}) \<and> (sb_evClosed b \<longleftrightarrow> sb_forwarder b = FwEnded)"

definition fallback_ok :: "DockerHandler \<Rightarrow> bool" where
  "fallback_ok c \<longleftrightarrow>
     ((dh_pollers c = [] \<and> dh_fallbackCancel c = None \<and> \<not> dh_fallbackPollingActive c) \<or>
      (\<exists>k. dh_pollers c = [k] \<and> dh_fallbackCancel c = Some k \<and> dh_fallbackPollingActive c \<and> k < dh_nextCtx c)) \<and>
     (\<forall>k\<in>dh_canceledCtx c. k < dh_nextCtx c) \<and>
     (dh_pollers c \<noteq> [] \<or> 0 < dh_spawned c \<longrightarrow> 0 < dh_pollingFallback c)"

definition closed_ok :: "DockerHandler \<Rightarrow> bool" where
  "closed_ok c \<longleftrightarrow> (\<not> dh_provider c \<longrightarrow> dh_canceled c \<and> dh_watch c = WDone \<and> \<not> dh_polls c \<and> \<not> dh_configPolls c) \<and>
     (dh_panic c \<longrightarrow> \<not> dh_provider c \<and> 0 < dh_pollingFallback c)"

definition handler_ok :: "DockerHandler \<Rightarrow> bool" where
  "handler_ok c \<longleftrightarrow> sub_ok (dh_sub c) \<and> fallback_ok c \<and> closed_ok c \<and>
     initialBackoff \<le> dh_backoff c \<and> dh_backoff c \<le> maxBackoff"

lemma refresh_frame [simp]:
  "dh_pollers (dh_refresh a c) = dh_pollers c" "dh_fallbackCancel (dh_refresh a c) = dh_fallbackCancel c"
  "dh_fallbackPollingActive (dh_refresh a c) = dh_fallbackPollingActive c" "dh_nextCtx (dh_refresh a c) = dh_nextCtx c"
  "dh_canceledCtx (dh_refresh a c) = dh_canceledCtx c" "dh_spawned (dh_refresh a c) = dh_spawned c"
  "dh_pollingFallback (dh_refresh a c) = dh_pollingFallback c" "dh_provider (dh_refresh a c) = dh_provider c"
  "dh_canceled (dh_refresh a c) = dh_canceled c" "dh_watch (dh_refresh a c) = dh_watch c" "dh_polls (dh_refresh a c) = dh_polls c"
  "dh_configPolls (dh_refresh a c) = dh_configPolls c" "dh_sub (dh_refresh a c) = dh_sub c"
  "dh_backoff (dh_refresh a c) = dh_backoff c" "dh_eventsFailed (dh_refresh a c) = dh_eventsFailed c"
  "dh_provider c \<Longrightarrow> dh_panic (dh_refresh a c) = dh_panic c"
  by (simp_all add: dh_refresh_def split: sum.split)

lemma handle_frame [simp]:
  "dh_pollers (handleEventStreamError c) = dh_pollers c" "dh_fallbackCancel (handleEventStreamError c) = dh_fallbackCancel c"
  "dh_fallbackPollingActive (handleEventStreamError c) = dh_fallbackPollingActive c"
  "dh_nextCtx (handleEventStreamError c) = dh_nextCtx c" "dh_canceledCtx (handleEventStreamError c) = dh_canceledCtx c"
  "dh_pollingFallback (handleEventStreamError c) = dh_pollingFallback c" "dh_provider (handleEventStreamError c) = dh_provider c"
  "dh_canceled (handleEventStreamError c) = dh_canceled c" "dh_polls (handleEventStreamError c) = dh_polls c"
  "dh_configPolls (handleEventStreamError c) = dh_configPolls c" "dh_backoff (handleEventStreamError c) = dh_backoff c"
  "dh_panic (handleEventStreamError c) = dh_panic c" "dh_sub (handleEventStreamError c) = dh_sub c"
  "dh_eventsFailed (handleEventStreamError c)"
  by (simp_all add: handleEventStreamError_def Let_def)

lemma clear_frame [simp]:
  "dh_pollers (clearEventStreamError c) = dh_pollers c" "dh_fallbackCancel (clearEventStreamError c) = dh_fallbackCancel c"
  "dh_fallbackPollingActive (clearEventStreamError c) = dh_fallbackPollingActive c"
  "dh_nextCtx (clearEventStreamError c) = dh_nextCtx c" "dh_spawned (clearEventStreamError c) = dh_spawned c"
  "dh_pollingFallback (clearEventStreamError c) = dh_pollingFallback c" "dh_provider (clearEventStreamError c) = dh_provider c"
  "dh_canceled (clearEventStreamError c) = dh_canceled c" "dh_polls (clearEventStreamError c) = dh_polls c"
  "dh_configPolls (clearEventStreamError c) = dh_configPolls c" "dh_panic (clearEventStreamError c) = dh_panic c"
  "\<not> dh_eventsFailed (clearEventStreamError c)" "dh_sub (clearEventStreamError c) = dh_sub c"
  by (simp_all add: clearEventStreamError_def Let_def split: option.split)

lemma forward_ok: "fw_step x b a b' \<Longrightarrow> sub_ok b \<Longrightarrow> sub_ok b'"
  by (induction rule: fw_step.induct) (auto simp: sub_ok_def event_buffer_def)

lemma sub_ok_received:
  "sub_ok b \<Longrightarrow> sb_errs b = e # es \<Longrightarrow> sub_ok (b\<lparr>sb_errs := es\<rparr>)"
  "sub_ok b \<Longrightarrow> sb_events b = Suc n \<Longrightarrow> sub_ok (b\<lparr>sb_events := n\<rparr>)"
  "sub_ok (Subscribe client)"
  by (auto simp: sub_ok_def Subscribe_def)

lemma backoff_bounds:
  "initialBackoff \<le> d \<Longrightarrow> initialBackoff \<le> next_backoff d" "next_backoff d \<le> maxBackoff" "initialBackoff \<le> maxBackoff"
  by (simp_all add: next_backoff_def initialBackoff_def maxBackoff_def)

lemma fallback_ok_steps:
  "fallback_ok c \<Longrightarrow> fallback_ok (handleEventStreamError c)"
  "fallback_ok c \<Longrightarrow> fallback_ok (clearEventStreamError c)"
  "fallback_ok c \<Longrightarrow> 0 < dh_spawned c \<Longrightarrow> fallback_ok (startFallbackPolling c)"
  "fallback_ok c \<Longrightarrow> k \<in> set (dh_pollers c) \<Longrightarrow> fallback_ok (stopFallbackPolling k c)"
     apply (auto simp: fallback_ok_def handleEventStreamError_def Let_def)[1]
    apply (auto simp: fallback_ok_def clearEventStreamError_def Let_def)[1]
   apply (auto simp: fallback_ok_def startFallbackPolling_def Let_def less_SucI)[1]
  apply (auto simp: fallback_ok_def stopFallbackPolling_def)[1]
  done

lemma fallback_ok_frame:
  "fallback_ok (c\<lparr>dh_watch := w\<rparr>) = fallback_ok c" "fallback_ok (c\<lparr>dh_sub := b\<rparr>) = fallback_ok c"
  "fallback_ok (c\<lparr>dh_backoff := d\<rparr>) = fallback_ok c" "fallback_ok (dh_refresh a c) = fallback_ok c"
  "fallback_ok (c\<lparr>dh_panic := x\<rparr>) = fallback_ok c" "fallback_ok (c\<lparr>dh_canceled := x\<rparr>) = fallback_ok c"
  "fallback_ok (c\<lparr>dh_polls := x\<rparr>) = fallback_ok c" "fallback_ok (c\<lparr>dh_configPolls := x\<rparr>) = fallback_ok c"
  "fallback_ok (c\<lparr>dh_provider := x\<rparr>) = fallback_ok c" "fallback_ok (c\<lparr>dh_updates := us\<rparr>) = fallback_ok c"
  by (simp_all add: fallback_ok_def)

lemma panic_only_without_provider: "dh_panic (dh_refresh a c) \<Longrightarrow> dh_panic c \<or> \<not> dh_provider c"
  by (auto simp: dh_refresh_def split: sum.splits if_splits)

lemma step_ok: "dh_step c a c' \<Longrightarrow> handler_ok c \<Longrightarrow> handler_ok c'"
proof (induction rule: dh_step.induct)
  case (fallback_tick k c answer)
  then show ?case
    using panic_only_without_provider [of answer c] by (force simp: handler_ok_def fallback_ok_frame closed_ok_def fallback_ok_def)
next
  case (fallback_start c)
  then show ?case
    using fallback_ok_steps(3) [of c] by (auto simp: handler_ok_def closed_ok_def startFallbackPolling_def Let_def)
next
  case (fallback_stop k c)
  then show ?case
    using fallback_ok_steps(4) [of c k] by (auto simp: handler_ok_def closed_ok_def stopFallbackPolling_def)
qed (auto simp: handler_ok_def fallback_ok_frame closed_ok_def sub_ok_received backoff_bounds forward_ok fallback_ok_steps
    dest: panic_only_without_provider split: if_splits)

lemma new_handler_ok: "NewDockerHandler cfg given newProvider sdkPing ping = Inr c \<Longrightarrow> handler_ok c"
  by (auto simp: NewDockerHandler_def handler_ok_def sub_ok_def no_subscription_def fallback_ok_def closed_ok_def backoff_bounds
      resolveConfig_def event_buffer_def split: if_splits option.splits)

interpretation handler: transition dh_step handler_ok
  by unfold_locales (rule step_ok)

section \<open>The steps as a function\<close>

text \<open>A label determines the step, so a schedule can be run.\<close>

fun fw_perform :: "bool \<Rightarrow> fw_action \<Rightarrow> subscription \<Rightarrow> subscription option" where
  "fw_perform x FwEvent b = (if sb_forwarder b = FwRun then Some (b\<lparr>sb_forwarder := FwSend\<rparr>) else None)"
| "fw_perform x FwPush b =
     (if sb_forwarder b = FwSend \<and> sb_events b < event_buffer
      then Some (b\<lparr>sb_forwarder := FwRun, sb_events := Suc (sb_events b)\<rparr>) else None)"
| "fw_perform x (FwError e) b =
     (if sb_forwarder b = FwRun
      then Some (b\<lparr>sb_forwarder := FwCloseErr, sb_errs := (if e = None then sb_errs b else sb_errs b @ [e])\<rparr>) else None)"
| "fw_perform x FwEventsEnd b = (if sb_forwarder b = FwRun then Some (b\<lparr>sb_forwarder := FwCloseErr\<rparr>) else None)"
| "fw_perform x FwCancelled b = (if x \<and> sb_forwarder b \<in> {FwRun, FwSend} then Some (b\<lparr>sb_forwarder := FwCloseErr\<rparr>) else None)"
| "fw_perform x FwCloseErrCh b =
     (if sb_forwarder b = FwCloseErr then Some (b\<lparr>sb_forwarder := FwCloseEvents, sb_errClosed := True\<rparr>) else None)"
| "fw_perform x FwCloseEventCh b =
     (if sb_forwarder b = FwCloseEvents then Some (b\<lparr>sb_forwarder := FwEnded, sb_evClosed := True\<rparr>) else None)"

fun perform :: "dh_action \<Rightarrow> DockerHandler \<Rightarrow> DockerHandler option" where
  "perform WatchStop c = (if dh_watch c \<in> {WCheck, WListen, WBackoff} \<and> dh_canceled c then Some (c\<lparr>dh_watch := WDone\<rparr>) else None)"
| "perform (WatchSubscribe client) c =
     (if dh_watch c = WCheck \<and> \<not> dh_canceled c
      then Some (if dh_provider c then c\<lparr>dh_watch := WListen, dh_sub := Subscribe client\<rparr> else c\<lparr>dh_panic := True\<rparr>) else None)"
| "perform ErrReceived c =
     (case sb_errs (dh_sub c) of
        [] \<Rightarrow> None
      | e # es \<Rightarrow> if dh_watch c = WListen
          then Some ((if e \<noteq> None then handleEventStreamError c else c)\<lparr>dh_watch := WBackoff, dh_sub := (dh_sub c)\<lparr>sb_errs := es\<rparr>\<rparr>)
          else None)"
| "perform ErrChClosed c =
     (if dh_watch c = WListen \<and> sb_errs (dh_sub c) = [] \<and> sb_errClosed (dh_sub c) then Some (c\<lparr>dh_watch := WCheck\<rparr>) else None)"
| "perform EventReceived c =
     (if dh_watch c = WListen \<and> 0 < sb_events (dh_sub c)
      then Some ((clearEventStreamError c)\<lparr>dh_backoff := initialBackoff, dh_watch := WRefresh,
                   dh_sub := (dh_sub c)\<lparr>sb_events := sb_events (dh_sub c) - 1\<rparr>\<rparr>)
      else None)"
| "perform EventChClosed c =
     (if dh_watch c = WListen \<and> sb_events (dh_sub c) = 0 \<and> sb_evClosed (dh_sub c) then Some (c\<lparr>dh_watch := WCheck\<rparr>) else None)"
| "perform (WatchRefresh answer) c = (if dh_watch c = WRefresh then Some ((dh_refresh answer c)\<lparr>dh_watch := WListen\<rparr>) else None)"
| "perform BackoffOver c =
     (if dh_watch c = WBackoff then Some (c\<lparr>dh_watch := WCheck, dh_backoff := next_backoff (dh_backoff c)\<rparr>) else None)"
| "perform (Forward a) c = map_option (\<lambda>b. c\<lparr>dh_sub := b\<rparr>) (fw_perform (dh_canceled c) a (dh_sub c))"
| "perform FallbackStart c = (if 0 < dh_spawned c then Some (startFallbackPolling c) else None)"
| "perform (FallbackTick k answer) c = (if k \<in> set (dh_pollers c) then Some (dh_refresh answer c) else None)"
| "perform (FallbackStop k) c =
     (if k \<in> set (dh_pollers c) \<and> (k \<in> dh_canceledCtx c \<or> dh_canceled c) then Some (stopFallbackPolling k c) else None)"
| "perform (PollTick answer) c = (if dh_polls c then Some (dh_refresh answer c) else None)"
| "perform PollStop c = (if dh_polls c \<and> dh_canceled c then Some (c\<lparr>dh_polls := False\<rparr>) else None)"
| "perform ConfigTick c = (if dh_configPolls c then Some (c\<lparr>dh_updates := dh_updates c @ [IniUpdate]\<rparr>) else None)"
| "perform ConfigStop c = (if dh_configPolls c \<and> dh_canceled c then Some (c\<lparr>dh_configPolls := False\<rparr>) else None)"
| "perform ShutdownCancel c = Some (c\<lparr>dh_canceled := True\<rparr>)"
| "perform ShutdownClose c =
     (if dh_canceled c \<and> dh_watch c = WDone \<and> \<not> dh_polls c \<and> \<not> dh_configPolls c then Some (c\<lparr>dh_provider := False\<rparr>) else None)"

lemma fw_step_perform: "fw_step x b a b' \<longleftrightarrow> fw_perform x a b = Some b'"
proof (cases a)
  case (FwError e)
  then show ?thesis using fw_error [of b x e] by (auto elim: fw_step.cases split: if_splits)
qed (auto intro: fw_step.intros elim: fw_step.cases split: if_splits)

lemma dh_step_perform: "dh_step c a c' \<longleftrightarrow> perform a c = Some c'"
proof
  show "dh_step c a c' \<Longrightarrow> perform a c = Some c'"
    by (induction rule: dh_step.induct) (auto simp: fw_step_perform)
next
  assume p: "perform a c = Some c'"
  show "dh_step c a c'"
  proof (cases a)
    case ErrReceived
    then show ?thesis using p err_received [of c] by (auto split: list.splits if_splits)
  next
    case EventReceived
    then show ?thesis using p event_received [of c "sb_events (dh_sub c) - 1"] by (auto split: if_splits)
  next
    case (WatchSubscribe client)
    then show ?thesis using p watch_subscribe [of c client] by (auto split: if_splits)
  next
    case (Forward x)
    then show ?thesis using p by (auto simp: fw_step_perform intro: forward)
  qed (use p in \<open>auto split: if_splits intro: dh_step.intros\<close>)
qed

fun schedule :: "dh_action list \<Rightarrow> DockerHandler \<Rightarrow> DockerHandler option" where
  "schedule [] c = Some c"
| "schedule (a # as) c = (case perform a c of None \<Rightarrow> None | Some c' \<Rightarrow> schedule as c')"

lemma schedule_runs: "schedule as c = Some c' \<Longrightarrow> runs dh_step c as c'"
  by (induction as arbitrary: c) (auto simp: dh_step_perform [symmetric] intro: runs.none runs_step split: option.splits)

section \<open>Theorems\<close>

lemma fallback_interval_fixed: "runs dh_step c0 as c \<Longrightarrow> dh_pollingFallback c = dh_pollingFallback c0"
proof (induction rule: runs.induct)
  case (more s as t a u)
  have "dh_pollingFallback u = dh_pollingFallback t"
    using more.hyps(2)
    by (induction rule: dh_step.induct) (simp_all add: startFallbackPolling_def stopFallbackPolling_def Let_def)
  then show ?case using more.IH by simp
qed simp

lemma new_handler_interval:
  "NewDockerHandler cfg given newProvider sdkPing ping = Inr c \<Longrightarrow> dh_pollingFallback c = dc_PollingFallback cfg"
  by (auto simp: NewDockerHandler_def resolveConfig_def split: if_splits option.splits)

lemma handler_bounds:
  assumes "handler_ok c"
  shows "length (dh_pollers c) \<le> 1 \<and> (dh_fallbackPollingActive c \<longleftrightarrow> dh_pollers c \<noteq> []) \<and>
    (dh_pollers c \<noteq> [] \<longrightarrow> 0 < dh_pollingFallback c) \<and>
    second \<le> dh_backoff c \<and> dh_backoff c \<le> 300 * second \<and> sb_events (dh_sub c) \<le> 100 \<and>
    (dh_panic c \<longrightarrow> \<not> dh_provider c \<and> 0 < dh_pollingFallback c)"
proof -
  have ok: "fallback_ok c" "closed_ok c" "sub_ok (dh_sub c)" "initialBackoff \<le> dh_backoff c" "dh_backoff c \<le> maxBackoff"
    using assms by (simp_all add: handler_ok_def)
  have "length (dh_pollers c) \<le> 1" "dh_fallbackPollingActive c \<longleftrightarrow> dh_pollers c \<noteq> []"
    "dh_pollers c \<noteq> [] \<longrightarrow> 0 < dh_pollingFallback c"
    using ok(1) by (auto simp: fallback_ok_def)
  moreover have "dh_panic c \<longrightarrow> \<not> dh_provider c \<and> 0 < dh_pollingFallback c" using ok(2) by (simp add: closed_ok_def)
  moreover have "sb_events (dh_sub c) \<le> 100" using ok(3) by (simp add: sub_ok_def event_buffer_def)
  moreover have "second \<le> dh_backoff c" "dh_backoff c \<le> 300 * second"
    using ok(4,5) by (simp_all add: initialBackoff_def maxBackoff_def)
  ultimately show ?thesis by blast
qed

text \<open>The number of waits since the last event.\<close>

definition waits :: "dh_action list \<Rightarrow> nat" where
  "waits as = length (filter (\<lambda>a. a = BackoffOver) (takeWhile (\<lambda>a. a \<noteq> EventReceived) (rev as)))"

lemma waits_snoc [simp]:
  "waits [] = 0" "waits (as @ [a]) = (if a = EventReceived then 0 else if a = BackoffOver then Suc (waits as) else waits as)"
  by (simp_all add: waits_def)

definition backoff_after :: "nat \<Rightarrow> duration" where
  "backoff_after n = min (2 ^ n * second) (5 * minute)"

lemma backoff_after_Suc: "next_backoff (backoff_after n) = backoff_after (Suc n)"
  by (simp add: next_backoff_def backoff_after_def maxBackoff_def min_def)

lemma backoff_step: "dh_step c a c' \<Longrightarrow>
    dh_backoff c' = (if a = EventReceived then initialBackoff else if a = BackoffOver then next_backoff (dh_backoff c) else dh_backoff c)"
  by (induction rule: dh_step.induct) (auto simp: startFallbackPolling_def stopFallbackPolling_def Let_def)

interpretation backoff: history dh_step "\<lambda>as c. dh_backoff c = backoff_after (waits as)"
proof
  show "dh_backoff t = backoff_after (waits (as @ [a]))" if "dh_step s a t" "dh_backoff s = backoff_after (waits as)" for s a t as
    using backoff_step [OF that(1)] that(2) by (simp add: backoff_after_Suc) (simp add: backoff_after_def initialBackoff_def)
qed

lemma backoff_of_run:
  assumes "NewDockerHandler cfg given newProvider sdkPing ping = Inr c0" "runs dh_step c0 as c"
  shows "dh_backoff c = min (2 ^ waits as * second) (5 * minute)"
proof -
  have "dh_backoff c0 = backoff_after (waits [])"
    using assms(1) by (auto simp: NewDockerHandler_def backoff_after_def initialBackoff_def resolveConfig_def split: if_splits option.splits)
  then show ?thesis using backoff.rel_runs [OF assms(2)] by (simp add: backoff_after_def)
qed

text \<open>Only a tick of the fallback poller can panic.\<close>

lemma panic_step:
  assumes "dh_step c a c'" "handler_ok c" "dh_panic c'" "\<not> dh_panic c"
  shows "\<not> dh_provider c \<and> (\<exists>k answer. a = FallbackTick k answer \<and> k \<in> set (dh_pollers c))"
  using assms
proof (induction rule: dh_step.induct)
  case (fallback_tick k c answer)
  then show ?case using panic_only_without_provider [of answer c] by blast
next
  case (watch_subscribe c client)
  then show ?case by (auto simp: handler_ok_def closed_ok_def split: if_splits)
next
  case (watch_refresh c answer)
  then show ?case using panic_only_without_provider [of answer c] by (auto simp: handler_ok_def closed_ok_def)
next
  case (poll_tick c answer)
  then show ?case using panic_only_without_provider [of answer c] by (auto simp: handler_ok_def closed_ok_def)
qed (auto simp: startFallbackPolling_def stopFallbackPolling_def Let_def split: if_splits)

text \<open>C24 (event_watch_safe): However the goroutines interleave, at most one goroutine polls in place of the event
  stream and only when a fallback interval is set. The wait of the event loop after an error it has received is one second doubled for every such
  wait since the last event, and at most five minutes; a closed channel makes it subscribe again at once, see
  \<^verbatim>\<open>stream_error_lost\<close>. Once Shutdown has removed the Docker provider the goroutines it waited for are gone, and the only step that can still
  call the removed provider, and panic, is a tick of that fallback poller.\<close>
theorem event_watch_safe:
  assumes "NewDockerHandler cfg given newProvider sdkPing ping = Inr c0" "runs dh_step c0 as c"
  shows "length (dh_pollers c) \<le> 1 \<and> (dh_fallbackPollingActive c \<longleftrightarrow> dh_pollers c \<noteq> []) \<and>
    (dh_pollers c \<noteq> [] \<longrightarrow> 0 < dc_PollingFallback cfg) \<and>
    dh_backoff c = min (2 ^ waits as * second) (5 * minute) \<and> sb_events (dh_sub c) \<le> 100 \<and>
    (\<not> dh_provider c \<longrightarrow> dh_canceled c \<and> dh_watch c = WDone \<and> \<not> dh_polls c \<and> \<not> dh_configPolls c) \<and>
    (\<forall>a c'. dh_step c a c' \<and> dh_panic c' \<longrightarrow>
       dh_panic c \<or> \<not> dh_provider c \<and> (\<exists>k answer. a = FallbackTick k answer \<and> dh_pollers c = [k]))"
proof -
  have ok: "handler_ok c" by (rule handler.ok_runs [OF assms(2) new_handler_ok [OF assms(1)]])
  have one: "\<And>k. k \<in> set (dh_pollers c) \<Longrightarrow> dh_pollers c = [k]"
    using ok by (auto simp: handler_ok_def fallback_ok_def)
  have "\<forall>a c'. dh_step c a c' \<and> dh_panic c' \<longrightarrow>
      dh_panic c \<or> \<not> dh_provider c \<and> (\<exists>k answer. a = FallbackTick k answer \<and> dh_pollers c = [k])"
    using panic_step [OF _ ok] one by blast
  moreover have "\<not> dh_provider c \<longrightarrow> dh_canceled c \<and> dh_watch c = WDone \<and> \<not> dh_polls c \<and> \<not> dh_configPolls c"
    using ok by (simp add: handler_ok_def closed_ok_def)
  moreover note backoff_of_run [OF assms] handler_bounds [OF ok, unfolded fallback_interval_fixed [OF assms(2)] new_handler_interval [OF assms(1)]]
  ultimately show ?thesis by blast
qed

definition watch_cfg :: DockerConfig where
  "watch_cfg = \<lparr>dc_Filters = [], dc_IncludeStopped = False, dc_ConfigPollInterval = 0, dc_UseEvents = True,
     dc_DockerPollInterval = 0, dc_PollingFallback = 10 * second, dc_PollInterval = 0, dc_DisablePolling = False\<rparr>"

definition watch_start :: DockerHandler where
  "watch_start = \<lparr>dh_filters = [], dh_includeStopped = False, dh_pollingFallback = 10 * second,
     dh_canceled = False, dh_provider = True, dh_eventsFailed = False, dh_fallbackPollingActive = False,
     dh_fallbackCancel = None, dh_watch = WCheck, dh_backoff = second,
     dh_sub = no_subscription, dh_polls = False, dh_configPolls = False, dh_spawned = 0,
     dh_pollers = [], dh_canceledCtx = {}, dh_nextCtx = 0, dh_updates = [], dh_panic = False\<rparr>"

lemma watch_start: "NewDockerHandler watch_cfg True None None None = Inr watch_start"
  by (simp add: NewDockerHandler_def watch_cfg_def watch_start_def resolveConfig_def initialBackoff_def)

definition stream_error :: result where "stream_error = Some (Opaque 1 ''EOF'')"

text \<open>A failing stream whose error reaches the loop: the poller runs.\<close>

definition failing :: "dh_action list" where
  "failing = [WatchSubscribe True, Forward (FwError stream_error), ErrReceived, FallbackStart]"

lemma failing_runs:
  "\<exists>c. runs dh_step watch_start failing c \<and> dh_pollers c = [0] \<and> dh_watch c = WBackoff \<and> \<not> dh_panic c \<and> dh_provider c"
proof -
  have "\<exists>c. schedule failing watch_start = Some c \<and> dh_pollers c = [0] \<and> dh_watch c = WBackoff \<and> \<not> dh_panic c \<and> dh_provider c"
    by (simp add: failing_def stream_error_def watch_start_def Subscribe_def handleEventStreamError_def startFallbackPolling_def)
  then show ?thesis using schedule_runs by blast
qed

theorem event_watch_safe_witness:
  "\<exists>c c'. runs dh_step watch_start (failing @ [BackoffOver]) c \<and> dh_pollers c = [0] \<and> dh_backoff c = 2 * second \<and>
     dh_step c ShutdownCancel c' \<and> \<not> dh_panic c'"
proof -
  obtain c where c: "runs dh_step watch_start failing c" "dh_pollers c = [0]" "dh_watch c = WBackoff" "\<not> dh_panic c" "dh_provider c"
    using failing_runs by blast
  let ?d = "c\<lparr>dh_watch := WCheck, dh_backoff := next_backoff (dh_backoff c)\<rparr>"
  have r: "runs dh_step watch_start (failing @ [BackoffOver]) ?d" using c(1,3) by (blast intro: runs.more backoff_over)
  have "waits (failing @ [BackoffOver]) = 1" by (simp add: waits_def failing_def)
  with event_watch_safe [OF watch_start r] have b: "dh_backoff ?d = 2 * second" by simp
  have "dh_step ?d ShutdownCancel (?d\<lparr>dh_canceled := True\<rparr>)" by (rule shutdown_cancel)
  moreover have "\<not> dh_panic (?d\<lparr>dh_canceled := True\<rparr>)"
    using event_watch_safe [OF watch_start r] calculation c(4,5) by fastforce
  ultimately show ?thesis using r b c(2) by (intro exI [of _ ?d] exI [of _ "?d\<lparr>dh_canceled := True\<rparr>"]) simp
qed

text \<open>(backoff_doubles): After any run the wait before the next subscription is one second doubled for every wait
  since the last event, and at most five minutes.\<close>
theorem backoff_doubles:
  assumes "NewDockerHandler cfg given newProvider sdkPing ping = Inr c0" "runs dh_step c0 as c"
  shows "dh_backoff c = min (2 ^ waits as * second) (5 * minute)"
  by (rule backoff_of_run [OF assms])

theorem backoff_doubles_witness:
  "\<exists>c. runs dh_step watch_start (failing @ [BackoffOver]) c \<and> dh_backoff c = 2 * second"
proof -
  obtain c where c: "runs dh_step watch_start failing c" "dh_watch c = WBackoff" using failing_runs by blast
  then have r: "runs dh_step watch_start (failing @ [BackoffOver]) (c\<lparr>dh_watch := WCheck, dh_backoff := next_backoff (dh_backoff c)\<rparr>)"
    by (blast intro: runs.more backoff_over)
  have "waits (failing @ [BackoffOver]) = 1" by (simp add: waits_def failing_def)
  then show ?thesis using r backoff_doubles [OF watch_start r] by auto
qed

text \<open>A subscription with an error, as the steps of the forwarding goroutine leave it.\<close>

definition failed_sub :: subscription where
  "failed_sub = \<lparr>sb_forwarder = FwEnded, sb_events = 0, sb_evClosed = True, sb_errs = [stream_error], sb_errClosed = True\<rparr>"

definition stream_fails :: "dh_action list" where
  "stream_fails = [Forward (FwError stream_error), Forward FwCloseErrCh, Forward FwCloseEventCh]"

lemma schedule_append: "schedule (as @ bs) c = (case schedule as c of None \<Rightarrow> None | Some c' \<Rightarrow> schedule bs c')"
  by (induction as arbitrary: c) (simp_all split: option.split)

lemma stream_fails_schedule:
  "dh_sub c = \<lparr>sb_forwarder = FwRun, sb_events = 0, sb_evClosed = False, sb_errs = [], sb_errClosed = False\<rparr> \<Longrightarrow>
   schedule stream_fails c = Some (c\<lparr>dh_sub := failed_sub\<rparr>)"
  by (simp add: stream_fails_def stream_error_def failed_sub_def)

text \<open>An event between two failures, with the second failure before the poller notices that it was stopped.\<close>

definition lost_poller :: "dh_action list" where
  "lost_poller = (WatchSubscribe True # stream_fails) @ [ErrReceived, FallbackStart, BackoffOver, WatchSubscribe True,
     Forward FwEvent, Forward FwPush, EventReceived, WatchRefresh (Listed [])] @ stream_fails @ [ErrReceived, FallbackStop 0]"

lemma lost_poller_schedule:
  assumes "NewDockerHandler cfg given newProvider sdkPing ping = Inr c0" "dc_UseEvents cfg" "0 < dc_PollingFallback cfg"
  shows "\<exists>c. schedule lost_poller c0 = Some c \<and> \<not> dh_canceled c \<and> dh_provider c \<and> dh_eventsFailed c \<and> dh_pollers c = [] \<and> dh_spawned c = 0"
proof -
  have c0: "dh_watch c0 = WCheck" "dh_provider c0" "\<not> dh_canceled c0" "\<not> dh_eventsFailed c0" "\<not> dh_fallbackPollingActive c0"
    "dh_pollers c0 = []" "dh_spawned c0 = 0" "dh_canceledCtx c0 = {}" "dh_nextCtx c0 = 0" "0 < dh_pollingFallback c0"
    using assms by (auto simp: NewDockerHandler_def resolveConfig_def split: if_splits option.splits)
  show ?thesis
    by (simp add: lost_poller_def schedule_append stream_fails_schedule Subscribe_def c0 failed_sub_def stream_error_def
        handleEventStreamError_def clearEventStreamError_def startFallbackPolling_def stopFallbackPolling_def event_buffer_def)
qed

lemma fallback_stays_off:
  assumes "runs dh_step c as c'" "dh_eventsFailed c" "dh_pollers c = []" "dh_spawned c = 0" "EventReceived \<notin> set as"
  shows "dh_eventsFailed c' \<and> dh_pollers c' = [] \<and> dh_spawned c' = 0"
  using assms
proof (induction rule: runs.induct)
  case (more s as t a u)
  have t: "dh_eventsFailed t \<and> dh_pollers t = [] \<and> dh_spawned t = 0" using more by simp
  have "a \<noteq> EventReceived" using more.prems by auto
  with more.hyps(2) t show ?case
    by (induction rule: dh_step.induct) (auto simp: handleEventStreamError_def)
qed simp

text \<open>C25 (fallback_polling_lost): Although a fallback interval is set and no shutdown is requested, the running handler can reach a state in which the
  event stream is marked as failed and no goroutine polls or has been started to poll, and then none ever does, whatever happens, as long as no event arrives: the poller of a first failure
  is still active when the second failure looks for it, and then obeys the stop of the recovery in between.\<close>
theorem fallback_polling_lost:
  assumes "NewDockerHandler cfg given newProvider sdkPing ping = Inr c0" "dc_UseEvents cfg" "0 < dc_PollingFallback cfg"
  shows "\<exists>as c. runs dh_step c0 as c \<and> ShutdownCancel \<notin> set as \<and> \<not> dh_canceled c \<and> dh_provider c \<and> dh_eventsFailed c \<and>
    (\<forall>as' c'. runs dh_step c as' c' \<longrightarrow> EventReceived \<notin> set as' \<longrightarrow> dh_eventsFailed c' \<and> dh_pollers c' = [] \<and> dh_spawned c' = 0)"
proof -
  obtain c where c: "schedule lost_poller c0 = Some c" "dh_eventsFailed c" "dh_pollers c = []" "dh_spawned c = 0" "\<not> dh_canceled c" "dh_provider c"
    using lost_poller_schedule [OF assms] by blast
  have "runs dh_step c0 lost_poller c" by (rule schedule_runs [OF c(1)])
  moreover have "ShutdownCancel \<notin> set lost_poller" by (simp add: lost_poller_def stream_fails_def)
  ultimately show ?thesis using c(2,5,6) fallback_stays_off [OF _ c(2-4)] by blast
qed

theorem fallback_polling_lost_witness:
  "\<exists>as c. runs dh_step watch_start as c \<and> ShutdownCancel \<notin> set as \<and> \<not> dh_canceled c \<and> dh_eventsFailed c \<and> dh_pollers c = []"
proof -
  obtain as c where c: "runs dh_step watch_start as c" "ShutdownCancel \<notin> set as" "\<not> dh_canceled c" "dh_eventsFailed c"
      "\<forall>as' c'. runs dh_step c as' c' \<longrightarrow> EventReceived \<notin> set as' \<longrightarrow> dh_eventsFailed c' \<and> dh_pollers c' = [] \<and> dh_spawned c' = 0"
    using fallback_polling_lost [OF watch_start] by (auto simp: watch_cfg_def)
  have "dh_pollers c = []" using c(5) runs.none [of dh_step c] by fastforce
  then show ?thesis using c(1-4) by blast
qed

text \<open>(stream_error_lost): An error that Docker sends on the event stream can be lost: both channels are closed after it, and when
  the loop takes the branch of the closed event channel it reconnects at once, without a wait and without
  marking the stream as failed.\<close>
theorem stream_error_lost:
  assumes "NewDockerHandler cfg given newProvider sdkPing ping = Inr c0" "dc_UseEvents cfg"
  shows "\<exists>c. runs dh_step c0 (WatchSubscribe True # stream_fails @ [EventChClosed]) c \<and>
    dh_watch c = WCheck \<and> \<not> dh_eventsFailed c \<and> dh_spawned c = 0"
proof -
  have c0: "dh_watch c0 = WCheck" "dh_provider c0" "\<not> dh_canceled c0" "\<not> dh_eventsFailed c0" "dh_spawned c0 = 0"
    using assms by (auto simp: NewDockerHandler_def resolveConfig_def split: if_splits option.splits)
  have "\<exists>c. schedule (WatchSubscribe True # stream_fails @ [EventChClosed]) c0 = Some c \<and>
      dh_watch c = WCheck \<and> \<not> dh_eventsFailed c \<and> dh_spawned c = 0"
    by (simp add: c0 schedule_append stream_fails_schedule Subscribe_def failed_sub_def)
  then show ?thesis using schedule_runs by blast
qed

theorem stream_error_lost_witness:
  "\<exists>c. runs dh_step watch_start (WatchSubscribe True # stream_fails @ [EventChClosed]) c \<and> \<not> dh_eventsFailed c"
  using stream_error_lost [OF watch_start] by (auto simp: watch_cfg_def)

text \<open>What each goroutine of the wait group does after the context is cancelled.\<close>

definition drain :: "DockerHandler \<Rightarrow> dh_action list" where
  "drain c = (if dh_watch c = WRefresh then [WatchRefresh (Listed [])] else []) @ (if dh_watch c = WDone then [] else [WatchStop]) @
     (if dh_polls c then [PollStop] else []) @ (if dh_configPolls c then [ConfigStop] else []) @ [ShutdownClose]"

lemma drain_schedule: "dh_canceled c \<Longrightarrow> \<exists>c'. schedule (drain c) c = Some c' \<and> \<not> dh_provider c'"
  by (cases "dh_watch c") (auto simp: drain_def)

lemma cancelled_step: "dh_step c a c' \<Longrightarrow> dh_canceled c \<or> a = ShutdownCancel \<Longrightarrow> dh_canceled c'"
  by (induction rule: dh_step.induct) (auto simp: startFallbackPolling_def stopFallbackPolling_def Let_def)

lemma cancelled_run: "runs dh_step c0 as c \<Longrightarrow> ShutdownCancel \<in> set as \<Longrightarrow> dh_canceled c"
  by (induction rule: runs.induct) (auto dest: cancelled_step)

lemma drain_length: "length (drain c) \<le> 5"
  by (simp add: drain_def)

text \<open>(shutdown_completes): From every reachable state in which Shutdown has cancelled the context, the goroutines it
  waits for can end and Shutdown can remove the provider, in at most five steps.\<close>
theorem shutdown_completes:
  assumes "runs dh_step c0 as c" "ShutdownCancel \<in> set as"
  shows "\<exists>bs c'. runs dh_step c bs c' \<and> length bs \<le> 5 \<and> \<not> dh_provider c'"
proof -
  obtain c' where c': "schedule (drain c) c = Some c'" "\<not> dh_provider c'" using drain_schedule [OF cancelled_run [OF assms]] by blast
  have "runs dh_step c (drain c) c'" by (rule schedule_runs [OF c'(1)])
  then show ?thesis using c'(2) drain_length [of c] by blast
qed

theorem shutdown_completes_witness:
  "\<exists>bs c'. runs dh_step (watch_start\<lparr>dh_canceled := True\<rparr>) bs c' \<and> length bs \<le> 5 \<and> \<not> dh_provider c'"
  using shutdown_completes [OF runs_one [of dh_step, OF shutdown_cancel [of watch_start]]] by simp

text \<open>(poller_outlives_shutdown): The goroutine that polls in place of the event stream is not in the wait group of Shutdown: with a
  fallback interval and filters that parse, a run exists in which it lists containers after Shutdown has removed the
  provider, a call on a nil interface that panics.\<close>
theorem poller_outlives_shutdown:
  assumes "NewDockerHandler cfg given newProvider sdkPing ping = Inr c0" "dc_UseEvents cfg" "0 < dc_PollingFallback cfg"
    and "parse_filters (dc_Filters cfg) [''label'' \<mapsto> [''ofelia.enabled=true'']] = Inr filters"
  shows "\<exists>as c. runs dh_step c0 as c \<and> ShutdownClose \<in> set as \<and> dh_panic c"
proof -
  have c0: "dh_watch c0 = WCheck" "dh_provider c0" "\<not> dh_canceled c0" "\<not> dh_eventsFailed c0" "\<not> dh_fallbackPollingActive c0"
    "dh_pollers c0 = []" "dh_nextCtx c0 = 0" "0 < dh_pollingFallback c0" "dh_filters c0 = dc_Filters cfg"
    using assms(1-3) by (auto simp: NewDockerHandler_def resolveConfig_def split: if_splits option.splits)
  have "\<exists>c. schedule (failing @ [ShutdownCancel]) c0 = Some c \<and> dh_canceled c \<and> dh_pollers c = [0] \<and> dh_filters c = dc_Filters cfg \<and>
      dh_watch c = WBackoff"
    by (simp add: failing_def stream_error_def c0 Subscribe_def handleEventStreamError_def startFallbackPolling_def)
  then obtain c where c: "runs dh_step c0 (failing @ [ShutdownCancel]) c" "dh_canceled c" "dh_pollers c = [0]"
      "dh_filters c = dc_Filters cfg" "dh_watch c = WBackoff"
    using schedule_runs by blast
  have "\<exists>c'. schedule (drain c) c = Some c' \<and> \<not> dh_provider c' \<and> dh_pollers c' = [0] \<and> dh_filters c' = dc_Filters cfg"
    using c(2-5) by (auto simp: drain_def)
  then obtain c' where c': "runs dh_step c (drain c) c'" "\<not> dh_provider c'" "dh_pollers c' = [0]" "dh_filters c' = dc_Filters cfg"
    using schedule_runs by blast
  have "dh_step c' (FallbackTick 0 (Listed [])) (dh_refresh (Listed []) c')" using c'(3) by (simp add: fallback_tick)
  moreover have "dh_panic (dh_refresh (Listed []) c')" using c'(2,4) assms(4) by (simp add: dh_refresh_def)
  moreover have "runs dh_step c0 ((failing @ [ShutdownCancel]) @ drain c) c'" by (rule runs_trans [OF c'(1) c(1)])
  moreover have "ShutdownClose \<in> set (drain c)" by (simp add: drain_def)
  ultimately show ?thesis
    using runs.more [of dh_step c0 "(failing @ [ShutdownCancel]) @ drain c" c'] by fastforce
qed

theorem poller_outlives_shutdown_witness: "\<exists>as c. runs dh_step watch_start as c \<and> dh_panic c"
  using poller_outlives_shutdown [OF watch_start] by (auto simp: watch_cfg_def)

end
