(* ===== verification/Deprecations.thy ===== *)
theory Deprecations
  imports DockerEvents
begin

text \<open>
  Deprecated options (\<^verbatim>\<open>src/cli/deprecations.go\<close>): the list of them with how each is detected and migrated, the registry that
  warns once per load of the configuration, and the migration of the Docker settings. Of the configuration this part
  reads the Slack webhooks and the Docker section. The texts of the warnings are left out.
\<close>

section \<open>The list\<close>

record dep_config =
  dg_GlobalSlack :: string
  dg_ExecSlack :: "string list"
  dg_RunSlack :: "string list"
  dg_LocalSlack :: "string list"
  dg_ComposeSlack :: "string list"
  dg_ServiceSlack :: "string list"
  dg_Docker :: DockerConfig

record Deprecation =
  de_Option :: string
  de_KeyName :: string
  de_CheckFunc :: "dep_config \<Rightarrow> bool"
  de_MigrateFunc :: "(dep_config \<Rightarrow> dep_config) option"

definition slack_in_use :: "dep_config \<Rightarrow> bool" where
  "slack_in_use cfg =
     (if dg_GlobalSlack cfg \<noteq> [] then True
      else if list_ex (\<lambda>w. w \<noteq> []) (dg_ExecSlack cfg) then True
      else if list_ex (\<lambda>w. w \<noteq> []) (dg_RunSlack cfg) then True
      else if list_ex (\<lambda>w. w \<noteq> []) (dg_LocalSlack cfg) then True
      else if list_ex (\<lambda>w. w \<noteq> []) (dg_ComposeSlack cfg) then True
      else list_ex (\<lambda>w. w \<noteq> []) (dg_ServiceSlack cfg))"

definition poll_interval_docker :: "DockerConfig \<Rightarrow> DockerConfig" where
  "poll_interval_docker d =
     (if dc_PollInterval d \<le> 0 then d
      else let d1 = (if dc_ConfigPollInterval d = 10 * second then d\<lparr>dc_ConfigPollInterval := dc_PollInterval d\<rparr> else d);
               d2 = (if \<not> dc_UseEvents d1 \<and> dc_DockerPollInterval d1 = 0 then d1\<lparr>dc_DockerPollInterval := dc_PollInterval d1\<rparr> else d1)
           in if dc_PollingFallback d2 = 10 * second then d2\<lparr>dc_PollingFallback := dc_PollInterval d2\<rparr> else d2)"

definition no_poll_docker :: "DockerConfig \<Rightarrow> DockerConfig" where
  "no_poll_docker d = (if \<not> dc_DisablePolling d then d else d\<lparr>dc_DockerPollInterval := 0, dc_PollingFallback := 0\<rparr>)"

definition Deprecations :: "Deprecation list" where
  "Deprecations =
     [\<lparr>de_Option = ''slack-webhook'', de_KeyName = [], de_CheckFunc = slack_in_use, de_MigrateFunc = None\<rparr>,
      \<lparr>de_Option = ''poll-interval'', de_KeyName = ''pollinterval'', de_CheckFunc = (\<lambda>cfg. 0 < dc_PollInterval (dg_Docker cfg)),
       de_MigrateFunc = Some (\<lambda>cfg. cfg\<lparr>dg_Docker := poll_interval_docker (dg_Docker cfg)\<rparr>)\<rparr>,
      \<lparr>de_Option = ''no-poll'', de_KeyName = ''nopoll'', de_CheckFunc = (\<lambda>cfg. dc_DisablePolling (dg_Docker cfg)),
       de_MigrateFunc = Some (\<lambda>cfg. cfg\<lparr>dg_Docker := no_poll_docker (dg_Docker cfg)\<rparr>)\<rparr>]"

section \<open>Detection and migration\<close>

text \<open>The keys of the loaded files, when they are known, are preferred to the values.\<close>

definition is_deprecated :: "string set option \<Rightarrow> dep_config \<Rightarrow> Deprecation \<Rightarrow> bool" where
  "is_deprecated usedKeys cfg dep =
     (case usedKeys of
        Some keys \<Rightarrow> if de_KeyName dep \<noteq> [] then de_KeyName dep \<in> keys else de_CheckFunc dep cfg
      | None \<Rightarrow> de_CheckFunc dep cfg)"

record DeprecationRegistry =
  dr_warnings :: "string set"
  dr_logged :: "string list"

definition reset_warnings :: "DeprecationRegistry \<Rightarrow> DeprecationRegistry" where
  "reset_warnings r = r\<lparr>dr_warnings := {}\<rparr>"

definition warn_once :: "string \<Rightarrow> DeprecationRegistry \<Rightarrow> DeprecationRegistry" where
  "warn_once name r =
     (if name \<in> dr_warnings r then r else r\<lparr>dr_warnings := insert name (dr_warnings r), dr_logged := dr_logged r @ [name]\<rparr>)"

fun check_list :: "string set option \<Rightarrow> dep_config \<Rightarrow> Deprecation list \<Rightarrow> DeprecationRegistry \<Rightarrow> Deprecation list \<times> DeprecationRegistry" where
  "check_list usedKeys cfg [] r = ([], r)"
| "check_list usedKeys cfg (dep # deps) r =
     (if is_deprecated usedKeys cfg dep
      then case check_list usedKeys cfg deps (warn_once (de_Option dep) r) of (found, r') \<Rightarrow> (dep # found, r')
      else check_list usedKeys cfg deps r)"

definition CheckWithKeys :: "string set option \<Rightarrow> dep_config \<Rightarrow> DeprecationRegistry \<Rightarrow> Deprecation list \<times> DeprecationRegistry" where
  "CheckWithKeys usedKeys cfg r = check_list usedKeys cfg Deprecations r"

definition ForDoctorWithKeys :: "string set option \<Rightarrow> dep_config \<Rightarrow> Deprecation list" where
  "ForDoctorWithKeys usedKeys cfg = filter (is_deprecated usedKeys cfg) Deprecations"

definition migrate_one :: "string set option \<Rightarrow> Deprecation \<Rightarrow> dep_config \<Rightarrow> dep_config" where
  "migrate_one usedKeys dep cfg =
     (case de_MigrateFunc dep of None \<Rightarrow> cfg | Some migrate \<Rightarrow> if is_deprecated usedKeys cfg dep then migrate cfg else cfg)"

definition ApplyDeprecationMigrationsWithKeys :: "string set option \<Rightarrow> dep_config \<Rightarrow> dep_config" where
  "ApplyDeprecationMigrationsWithKeys usedKeys cfg = fold (migrate_one usedKeys) Deprecations cfg"

section \<open>Facts\<close>

text \<open>The migration as a function of the Docker section: only the two Docker options migrate.\<close>

definition poll_dep :: "string set option \<Rightarrow> DockerConfig \<Rightarrow> bool" where
  "poll_dep keys d = (case keys of Some ks \<Rightarrow> ''pollinterval'' \<in> ks | None \<Rightarrow> 0 < dc_PollInterval d)"

definition no_poll_dep :: "string set option \<Rightarrow> DockerConfig \<Rightarrow> bool" where
  "no_poll_dep keys d = (case keys of Some ks \<Rightarrow> ''nopoll'' \<in> ks | None \<Rightarrow> dc_DisablePolling d)"

definition migrate_docker :: "string set option \<Rightarrow> DockerConfig \<Rightarrow> DockerConfig" where
  "migrate_docker keys d =
     (let d1 = (if poll_dep keys d then poll_interval_docker d else d) in if no_poll_dep keys d then no_poll_docker d1 else d1)"

lemma poll_interval_fields [simp]:
  "dc_PollInterval (poll_interval_docker d) = dc_PollInterval d" "dc_DisablePolling (poll_interval_docker d) = dc_DisablePolling d"
  "dc_UseEvents (poll_interval_docker d) = dc_UseEvents d" "dc_Filters (poll_interval_docker d) = dc_Filters d"
  "dc_IncludeStopped (poll_interval_docker d) = dc_IncludeStopped d"
  by (simp_all add: poll_interval_docker_def Let_def)

lemma poll_interval_set:
  "dc_ConfigPollInterval (poll_interval_docker d) =
     (if 0 < dc_PollInterval d \<and> dc_ConfigPollInterval d = 10 * second then dc_PollInterval d else dc_ConfigPollInterval d)"
  "dc_DockerPollInterval (poll_interval_docker d) =
     (if 0 < dc_PollInterval d \<and> \<not> dc_UseEvents d \<and> dc_DockerPollInterval d = 0 then dc_PollInterval d else dc_DockerPollInterval d)"
  "dc_PollingFallback (poll_interval_docker d) =
     (if 0 < dc_PollInterval d \<and> dc_PollingFallback d = 10 * second then dc_PollInterval d else dc_PollingFallback d)"
  by (simp_all add: poll_interval_docker_def Let_def)

lemma no_poll_fields [simp]:
  "dc_PollInterval (no_poll_docker d) = dc_PollInterval d" "dc_DisablePolling (no_poll_docker d) = dc_DisablePolling d"
  "dc_UseEvents (no_poll_docker d) = dc_UseEvents d" "dc_ConfigPollInterval (no_poll_docker d) = dc_ConfigPollInterval d"
  "dc_Filters (no_poll_docker d) = dc_Filters d" "dc_IncludeStopped (no_poll_docker d) = dc_IncludeStopped d"
  by (simp_all add: no_poll_docker_def)

lemma no_poll_set:
  "dc_DockerPollInterval (no_poll_docker d) = (if dc_DisablePolling d then 0 else dc_DockerPollInterval d)"
  "dc_PollingFallback (no_poll_docker d) = (if dc_DisablePolling d then 0 else dc_PollingFallback d)"
  by (simp_all add: no_poll_docker_def)

lemma migrations_docker:
  "ApplyDeprecationMigrationsWithKeys keys cfg = cfg\<lparr>dg_Docker := migrate_docker keys (dg_Docker cfg)\<rparr>"
  by (cases keys)
    (simp_all add: ApplyDeprecationMigrationsWithKeys_def Deprecations_def migrate_one_def is_deprecated_def migrate_docker_def
      poll_dep_def no_poll_dep_def Let_def)

lemma migrate_docker_deps [simp]:
  "poll_dep keys (migrate_docker keys d) = poll_dep keys d" "no_poll_dep keys (migrate_docker keys d) = no_poll_dep keys d"
  by (simp_all add: poll_dep_def no_poll_dep_def migrate_docker_def Let_def split: option.split)

lemma migrate_docker_fields [simp]:
  "dc_PollInterval (migrate_docker keys d) = dc_PollInterval d" "dc_DisablePolling (migrate_docker keys d) = dc_DisablePolling d"
  "dc_UseEvents (migrate_docker keys d) = dc_UseEvents d" "dc_Filters (migrate_docker keys d) = dc_Filters d"
  "dc_IncludeStopped (migrate_docker keys d) = dc_IncludeStopped d"
  by (simp_all add: migrate_docker_def Let_def)

lemma migrate_docker_set:
  "dc_ConfigPollInterval (migrate_docker keys d) =
     (if poll_dep keys d \<and> 0 < dc_PollInterval d \<and> dc_ConfigPollInterval d = 10 * second then dc_PollInterval d
      else dc_ConfigPollInterval d)"
  "dc_DockerPollInterval (migrate_docker keys d) =
     (if no_poll_dep keys d \<and> dc_DisablePolling d then 0
      else if poll_dep keys d \<and> 0 < dc_PollInterval d \<and> \<not> dc_UseEvents d \<and> dc_DockerPollInterval d = 0 then dc_PollInterval d
      else dc_DockerPollInterval d)"
  "dc_PollingFallback (migrate_docker keys d) =
     (if no_poll_dep keys d \<and> dc_DisablePolling d then 0
      else if poll_dep keys d \<and> 0 < dc_PollInterval d \<and> dc_PollingFallback d = 10 * second then dc_PollInterval d
      else dc_PollingFallback d)"
  by (auto simp: migrate_docker_def Let_def no_poll_set poll_interval_set)

lemma migrate_docker_twice: "migrate_docker keys (migrate_docker keys d) = migrate_docker keys d"
  by (rule DockerConfig.equality) (auto simp: migrate_docker_set)

text \<open>(migrations_idempotent): Migrating the deprecated options a second time, with the same keys, changes nothing.\<close>
theorem migrations_idempotent:
  "ApplyDeprecationMigrationsWithKeys keys (ApplyDeprecationMigrationsWithKeys keys cfg) = ApplyDeprecationMigrationsWithKeys keys cfg"
  by (simp add: migrations_docker migrate_docker_twice)

text \<open>(migrated_polling): With the keys unknown, a configuration that sets no-poll ends without any polling of containers;
  one that sets poll-interval and not no-poll polls containers at that interval when events are off and no other interval
  is set; and the new options are untouched when no deprecated option is set.\<close>
theorem migrated_polling:
  "let d = dg_Docker cfg; d' = dg_Docker (ApplyDeprecationMigrationsWithKeys None cfg) in
     dc_DockerPollInterval d' = (if dc_DisablePolling d then 0
       else if 0 < dc_PollInterval d \<and> \<not> dc_UseEvents d \<and> dc_DockerPollInterval d = 0 then dc_PollInterval d
       else dc_DockerPollInterval d) \<and>
     dc_PollingFallback d' = (if dc_DisablePolling d then 0
       else if 0 < dc_PollInterval d \<and> dc_PollingFallback d = 10 * second then dc_PollInterval d
       else dc_PollingFallback d) \<and>
     dc_ConfigPollInterval d' = (if 0 < dc_PollInterval d \<and> dc_ConfigPollInterval d = 10 * second then dc_PollInterval d
       else dc_ConfigPollInterval d)"
  by (simp add: migrations_docker Let_def migrate_docker_set poll_dep_def no_poll_dep_def)

lemma check_list_doctor: "fst (check_list keys cfg deps r) = filter (is_deprecated keys cfg) deps"
  by (induction deps arbitrary: r) (auto simp: split_beta)

definition logged_ok :: "DeprecationRegistry \<Rightarrow> DeprecationRegistry \<Rightarrow> bool" where
  "logged_ok r0 r \<longleftrightarrow> (\<exists>new. dr_logged r = dr_logged r0 @ new \<and> distinct new \<and> set new = dr_warnings r)"

lemma check_list_logged: "logged_ok r0 r \<Longrightarrow> logged_ok r0 (snd (check_list keys cfg deps r))"
proof (induction deps arbitrary: r)
  case (Cons dep deps)
  have "logged_ok r0 (warn_once (de_Option dep) r)"
    using Cons.prems by (auto simp: logged_ok_def warn_once_def)
  then show ?case using Cons.IH Cons.prems by (auto split: prod.split simp: split_beta)
qed simp

lemma checks_logged: "logged_ok r0 r \<Longrightarrow> logged_ok r0 (fold (\<lambda>(keys, cfg) r. snd (CheckWithKeys keys cfg r)) cs r)"
  by (induction cs arbitrary: r) (auto simp: CheckWithKeys_def check_list_logged)

text \<open>(deprecations_warned_once): After a reset, any number of checks of any configurations logs every deprecated option at most
  once, and a check reports the same options as the doctor.\<close>
theorem deprecations_warned_once:
  "\<exists>new. dr_logged (fold (\<lambda>(keys, cfg) r. snd (CheckWithKeys keys cfg r)) cs (reset_warnings r)) = dr_logged r @ new \<and> distinct new \<and>
     fst (CheckWithKeys keys cfg r') = ForDoctorWithKeys keys cfg"
proof -
  have "logged_ok r (reset_warnings r)" by (simp add: logged_ok_def reset_warnings_def)
  from checks_logged [OF this, of cs] show ?thesis
    by (auto simp: logged_ok_def CheckWithKeys_def check_list_doctor ForDoctorWithKeys_def)
qed

end
