(* ===== verification/GoNet.thy ===== *)
theory GoNet
  imports GoParse GoError
begin

text \<open>
  The parts of Go's \<^verbatim>\<open>net\<close> package that the web server uses to find the address of a client:
  \<^verbatim>\<open>net.ParseIP\<close>, \<^verbatim>\<open>IP.To4\<close>, \<^verbatim>\<open>IP.IsLoopback\<close>, \<^verbatim>\<open>IP.String\<close>, \<^verbatim>\<open>net.ParseCIDR\<close>, \<^verbatim>\<open>IPNet.Contains\<close> and
  \<^verbatim>\<open>net.SplitHostPort\<close>. An address is a list of 16 bytes (4 for the network number of an IPv4 network); IPv4
  addresses have the prefix \<^verbatim>\<open>::ffff:0:0/96\<close>. A parse that fails is \<^term>\<open>None\<close>.
\<close>

unbundle bit_operations_syntax

type_synonym byte = "8 word"
type_synonym ip = "byte list"

definition v4InV6Prefix :: ip where
  "v4InV6Prefix = [0, 0, 0, 0, 0, 0, 0, 0, 0, 0, 0xFF, 0xFF]"

section \<open>Addresses\<close>

definition v4_octet :: "string \<Rightarrow> byte option" where
  "v4_octet s =
     (if s = [] \<or> \<not> list_all is_digit s \<or> (1 < length s \<and> hd s = CHR ''0'') \<or> 255 < digits_val s then None
      else Some (of_int (digits_val s)))"

definition parse_v4_fields :: "string \<Rightarrow> ip option" where
  "parse_v4_fields s =
     (case map v4_octet (Split s (CHR ''.'')) of
        [Some a, Some b, Some c, Some d] \<Rightarrow> Some [a, b, c, d]
      | _ \<Rightarrow> None)"

definition v6_digit :: "char \<Rightarrow> nat option" where
  "v6_digit c =
     (let n = (of_char c :: nat) in
      if 48 \<le> n \<and> n \<le> 57 then Some (n - 48)
      else if 97 \<le> n \<and> n \<le> 102 then Some (n - 87)
      else if 65 \<le> n \<and> n \<le> 70 then Some (n - 55)
      else None)"

definition hex_value :: "string \<Rightarrow> nat" where
  "hex_value s = foldl (\<lambda>a c. 16 * a + the (v6_digit c)) 0 s"

text \<open>The groups of an IPv6 address: \<open>n\<close> pairs of bytes may follow \<open>ip\<close>, \<open>ell\<close> is the position of an
  ellipsis. The result is the bytes, the position, and the rest of the string.\<close>

fun v6_groups :: "nat \<Rightarrow> ip \<Rightarrow> nat option \<Rightarrow> string \<Rightarrow> (ip \<times> nat option \<times> string) option" where
  "v6_groups 0 ip ell s = Some (ip, ell, s)"
| "v6_groups (Suc n) ip ell s =
     (let ds = takeWhile (\<lambda>c. v6_digit c \<noteq> None) s;
          rest = drop (length ds) s
      in if ds = [] \<or> 4 < length ds then None
         else if rest \<noteq> [] \<and> hd rest = CHR ''.''
         then (if ell = None \<and> length ip \<noteq> 12 \<or> 16 < length ip + 4 then None
               else case parse_v4_fields s of None \<Rightarrow> None | Some v4 \<Rightarrow> Some (ip @ v4, ell, []))
         else
           let acc = hex_value ds;
               ip1 = ip @ [of_nat (acc div 256), of_nat (acc mod 256)]
           in if rest = [] then Some (ip1, ell, [])
              else if hd rest \<noteq> CHR '':'' \<or> length rest = 1 then None
              else
                let s1 = tl rest in
                if hd s1 = CHR '':''
                then (if ell \<noteq> None then None
                      else if tl s1 = [] then Some (ip1, Some (length ip1), [])
                      else v6_groups n ip1 (Some (length ip1)) (tl s1))
                else v6_groups n ip1 ell s1)"

definition fill_ellipsis :: "ip \<Rightarrow> nat option \<Rightarrow> ip option" where
  "fill_ellipsis ip ell =
     (if length ip < 16
      then (case ell of None \<Rightarrow> None | Some k \<Rightarrow> Some (take k ip @ replicate (16 - length ip) 0 @ drop k ip))
      else if ell \<noteq> None then None else Some ip)"

text \<open>Addresses with a zone (\<^verbatim>\<open>%\<close>) are not accepted by \<^verbatim>\<open>ParseIP\<close> and \<^verbatim>\<open>ParseCIDR\<close>.\<close>

definition parse_v6 :: "string \<Rightarrow> ip option" where
  "parse_v6 s =
     (let start = HasPrefix s ''::''; s1 = (if start then drop 2 s else s); ell = (if start then Some 0 else None)
      in if start \<and> s1 = [] then Some (replicate 16 0)
         else case v6_groups 8 [] ell s1 of
                None \<Rightarrow> None
              | Some (ip, ell', rest) \<Rightarrow> if rest \<noteq> [] then None else fill_ellipsis ip ell')"

datatype addr_kind = V4 | V6

definition addr_kind_of :: "string \<Rightarrow> addr_kind option" where
  "addr_kind_of s =
     (case filter (\<lambda>c. c \<in> {CHR ''.'', CHR '':'', CHR ''%''}) s of
        [] \<Rightarrow> None
      | c # _ \<Rightarrow> if c = CHR ''.'' then Some V4 else if c = CHR '':'' then Some V6 else None)"

text \<open>\<^verbatim>\<open>netip.ParseAddr\<close> without zone: the kind and the 16 bytes.\<close>

definition ParseAddr :: "string \<Rightarrow> (addr_kind \<times> ip) option" where
  "ParseAddr s =
     (case addr_kind_of s of
        None \<Rightarrow> None
      | Some V4 \<Rightarrow> map_option (\<lambda>ip. (V4, v4InV6Prefix @ ip)) (parse_v4_fields s)
      | Some V6 \<Rightarrow> if CHR ''%'' \<in> set s then None else map_option (\<lambda>ip. (V6, ip)) (parse_v6 s))"

definition ParseIP :: "string \<Rightarrow> ip option" where
  "ParseIP s = map_option snd (ParseAddr s)"

definition To4 :: "ip \<Rightarrow> ip option" where
  "To4 ip =
     (if length ip = 4 then Some ip
      else if length ip = 16 \<and> take 12 ip = v4InV6Prefix then Some (drop 12 ip)
      else None)"

definition IsLoopback :: "ip \<Rightarrow> bool" where
  "IsLoopback ip =
     (case To4 ip of Some ip4 \<Rightarrow> ip4 ! 0 = 127 | None \<Rightarrow> ip = replicate 15 0 @ [1])"

section \<open>Networks\<close>

record ip_net =
  net_IP :: ip
  net_Mask :: "byte list"

definition CIDRMask :: "nat \<Rightarrow> nat \<Rightarrow> byte list" where
  "CIDRMask ones bytes =
     map (\<lambda>i. if 8 * (i + 1) \<le> ones then 0xFF
               else if ones \<le> 8 * i then 0
               else NOT (mask (8 * (i + 1) - ones))) [0..<bytes]"

definition and_bytes :: "byte list \<Rightarrow> byte list \<Rightarrow> byte list" where
  "and_bytes a b = map2 (\<lambda>x y. x AND y) a b"

text \<open>\<^verbatim>\<open>dtoi\<close> on a whole string.\<close>

definition dtoi :: "string \<Rightarrow> int option" where
  "dtoi s = (if s = [] \<or> \<not> list_all is_digit s \<or> 0xFFFFFF \<le> digits_val s then None else Some (digits_val s))"

definition ParseCIDR :: "string \<Rightarrow> ip_net option" where
  "ParseCIDR s =
     (case IndexByte s (CHR ''/'') of
        None \<Rightarrow> None
      | Some i \<Rightarrow>
          (case (ParseAddr (take i s), dtoi (drop (Suc i) s)) of
             (Some (k, ip), Some n) \<Rightarrow>
               (case k of
                  V4 \<Rightarrow> if n > 32 then None
                        else let m = CIDRMask (nat n) 4 in Some \<lparr>net_IP = and_bytes (drop 12 ip) m, net_Mask = m\<rparr>
                | V6 \<Rightarrow> if n > 128 then None
                        else let m = CIDRMask (nat n) 16 in Some \<lparr>net_IP = and_bytes ip m, net_Mask = m\<rparr>)
           | _ \<Rightarrow> None))"

definition networkNumberAndMask :: "ip_net \<Rightarrow> ip \<times> byte list" where
  "networkNumberAndMask n =
     (let ip = (case To4 (net_IP n) of Some ip4 \<Rightarrow> ip4 | None \<Rightarrow> net_IP n)
      in (ip, if length (net_Mask n) = 16 \<and> length ip = 4 then drop 12 (net_Mask n) else net_Mask n))"

definition net_Contains :: "ip_net \<Rightarrow> ip \<Rightarrow> bool" where
  "net_Contains n ip =
     (let (nn, m) = networkNumberAndMask n;
          x = (case To4 ip of Some ip4 \<Rightarrow> ip4 | None \<Rightarrow> ip)
      in length x = length nn \<and> and_bytes nn m = and_bytes x m)"

section \<open>Printing\<close>

definition show_octet :: "byte \<Rightarrow> string" where
  "show_octet b = show_nat (unat b)"

definition show_v6_digit :: "nat \<Rightarrow> char" where
  "show_v6_digit n = (if n < 10 then char_of (48 + n) else char_of (87 + n))"

definition show_hex :: "nat \<Rightarrow> string" where
  "show_hex n =
     (let ds = [n div 4096 mod 16, n div 256 mod 16, n div 16 mod 16]
      in map show_v6_digit (dropWhile (\<lambda>d. d = 0) ds @ [n mod 16]))"

definition join_with :: "char \<Rightarrow> string list \<Rightarrow> string" where
  "join_with c ws = (case ws of [] \<Rightarrow> [] | w # ws' \<Rightarrow> w @ concat (map (\<lambda>v. c # v) ws'))"

definition ip_groups :: "ip \<Rightarrow> nat list" where
  "ip_groups ip = map (\<lambda>i. 256 * unat (ip ! (2 * i)) + unat (ip ! (2 * i + 1))) [0..<8]"

text \<open>The first longest run of at least two zero groups: start and length.\<close>

definition zero_run :: "nat list \<Rightarrow> nat \<Rightarrow> nat" where
  "zero_run gs i = length (takeWhile (\<lambda>g. g = 0) (drop i gs))"

definition best_run :: "nat list \<Rightarrow> nat \<times> nat" where
  "best_run gs = foldl (\<lambda>(s, l) i. if l < zero_run gs i then (i, zero_run gs i) else (s, l)) (0, 1) [0..<8]"

definition ip_String :: "ip \<Rightarrow> string" where
  "ip_String ip =
     (case To4 ip of
        Some ip4 \<Rightarrow> join_with (CHR ''.'') (map show_octet ip4)
      | None \<Rightarrow>
          let gs = ip_groups ip; (s, l) = best_run gs; ws = map show_hex gs
          in if l < 2 then join_with (CHR '':'') ws
             else join_with (CHR '':'') (take s ws) @ ''::'' @ join_with (CHR '':'') (drop (s + l) ws))"

section \<open>Host and port\<close>

text \<open>\<^verbatim>\<open>net.SplitHostPort\<close>: the host of an address with a port.\<close>

definition last_index :: "string \<Rightarrow> char \<Rightarrow> nat option" where
  "last_index s c = map_option (\<lambda>i. length s - 1 - i) (IndexByte (rev s) c)"

definition SplitHostPort :: "string \<Rightarrow> (string \<times> string) option" where
  "SplitHostPort hostport =
     (case last_index hostport (CHR '':'') of
        None \<Rightarrow> None
      | Some i \<Rightarrow>
          if hostport \<noteq> [] \<and> hd hostport = CHR ''[''
          then (case IndexByte hostport (CHR '']'') of
                  None \<Rightarrow> None
                | Some e \<Rightarrow>
                    if e + 1 \<noteq> i then None
                    else
                      let host = take (e - 1) (drop 1 hostport)
                      in if CHR ''['' \<in> set (drop 1 hostport) \<or> CHR '']'' \<in> set (drop (e + 1) hostport) then None
                         else Some (host, drop (Suc i) hostport))
          else if CHR '':'' \<in> set (take i hostport) then None
          else if CHR ''['' \<in> set hostport \<or> CHR '']'' \<in> set hostport then None
          else Some (take i hostport, drop (Suc i) hostport))"

section \<open>Facts about addresses\<close>

lemma digits_show_nat: "list_all is_digit (show_nat n) \<and> digits_val (show_nat n) = int n"
proof (induction n rule: show_nat.induct)
  case (1 n)
  have d: "is_digit (char_of (48 + k))" "digit_val (char_of (48 + k)) = int k" if "k < 10" for k :: nat
    using that by (auto simp: is_digit_def digit_val_def)
  show ?case
  proof (cases "n < 10")
    case True
    then show ?thesis using d [of n] by (subst (1 2) show_nat.simps) (simp add: digits_val_def)
  next
    case False
    then show ?thesis
      using 1 d [of "n mod 10"] by (subst (1 2) show_nat.simps) (simp add: zdiv_int zmod_int)
  qed
qed

lemma show_nat_hd: "n \<noteq> 0 \<Longrightarrow> hd (show_nat n) \<noteq> CHR ''0''"
proof (induction n rule: show_nat.induct)
  case (1 n)
  show ?case
  proof (cases "n < 10")
    case True
    then have "(of_char (char_of (48 + n) :: char) :: nat) \<noteq> of_char (CHR ''0'')" using \<open>n \<noteq> 0\<close> by simp
    then have "char_of (48 + n) \<noteq> CHR ''0''" by metis
    then show ?thesis using True by (subst show_nat.simps) simp
  next
    case False
    then show ?thesis using 1 by (subst show_nat.simps) simp
  qed
qed

lemma show_nat_short: "n < 10 \<Longrightarrow> length (show_nat n) = 1"
  by (subst show_nat.simps) simp

lemma v4_octet_show: "v4_octet (show_octet b) = Some b"
proof -
  have "uint b < 256" using unsigned_less [of b] by simp
  moreover have "hd (show_nat (unat b)) \<noteq> CHR ''0'' \<or> length (show_nat (unat b)) = 1"
    using show_nat_hd [of "unat b"] show_nat_short [of 0] by (cases "unat b = 0") auto
  ultimately show ?thesis
    using digits_show_nat [of "unat b"] by (auto simp: v4_octet_def show_octet_def)
qed

lemma show_octet_plain: "c \<in> set (show_octet b) \<Longrightarrow> c \<notin> {CHR ''.'', CHR '':'', CHR ''%'', CHR ''/''}"
  using digits_show_nat [of "unat b"] by (auto simp: show_octet_def list_all_iff is_digit_def dest!: bspec [of _ _ c])

definition dotted :: "ip \<Rightarrow> string" where
  "dotted ip4 = join_with (CHR ''.'') (map show_octet ip4)"

lemma dotted_parse: "parse_v4_fields (dotted [a, b, c, d]) = Some [a, b, c, d]"
proof -
  have "CHR ''.'' \<notin> set (show_octet x)" for x using show_octet_plain [of "CHR ''.''" x] by blast
  then show ?thesis
    by (simp add: dotted_def join_with_def parse_v4_fields_def Split_append Split_absent v4_octet_show)
qed

lemma dotted_chars: "set (dotted [a, b, c, d]) \<inter> {CHR '':'', CHR ''%'', CHR ''/''} = {} \<and> CHR ''.'' \<in> set (dotted [a, b, c, d])"
  using show_octet_plain [of _ a] show_octet_plain [of _ b] show_octet_plain [of _ c] show_octet_plain [of _ d]
  by (auto simp: dotted_def join_with_def)

lemma dotted_kind: "addr_kind_of (dotted [a, b, c, d]) = Some V4"
proof -
  let ?s = "dotted [a, b, c, d]"
  let ?P = "\<lambda>x. x \<in> {CHR ''.'', CHR '':'', CHR ''%''}"
  obtain x xs where f: "filter ?P ?s = x # xs"
    using dotted_chars [of a b c d] by (cases "filter ?P ?s") (auto simp: filter_empty_conv)
  have "x \<in> set (filter ?P ?s)" unfolding f by simp
  then have "x \<in> set ?s" "?P x" by simp_all
  then have "x = CHR ''.''" using dotted_chars [of a b c d] by blast
  with f show ?thesis by (simp add: addr_kind_of_def)
qed

lemma dotted_ParseAddr: "ParseAddr (dotted [a, b, c, d]) = Some (V4, v4InV6Prefix @ [a, b, c, d])"
  by (simp add: ParseAddr_def dotted_kind dotted_parse)

lemma CIDRMask_full: "CIDRMask 32 4 = [0xFF, 0xFF, 0xFF, 0xFF]"
  by (simp add: CIDRMask_def upt_rec)

lemma and_full [simp]: "and_bytes [a, b, c, d] ([0xFF, 0xFF, 0xFF, 0xFF]) = [a, b, c, d]"
proof -
  have "(0xFF :: byte) = - 1" by simp
  then have "x AND 0xFF = x" for x :: byte by (metis and.right_neutral)
  then show ?thesis by (simp add: and_bytes_def numeral_eq_Suc)
qed

text \<open>The network of a single IPv4 address.\<close>

lemma dotted_ParseCIDR:
  "ParseCIDR (dotted [a, b, c, d] @ ''/32'') = Some \<lparr>net_IP = [a, b, c, d], net_Mask = [0xFF, 0xFF, 0xFF, 0xFF]\<rparr>"
proof -
  have "IndexByte (dotted [a, b, c, d] @ ''/32'') (CHR ''/'') = Some (length (dotted [a, b, c, d]))"
    using IndexByte_append [of "CHR ''/''" "dotted [a, b, c, d]" "''32''"] dotted_chars [of a b c d] by simp
  moreover have "dtoi ''32'' = Some 32" by (simp add: dtoi_def digits_val_def digit_val_def is_digit_def)
  ultimately show ?thesis
    by (simp add: ParseCIDR_def dotted_ParseAddr CIDRMask_full v4InV6Prefix_def Let_def)
qed

lemma single_Contains:
  assumes "length x = 16"
  shows "net_Contains \<lparr>net_IP = [a, b, c, d], net_Mask = [0xFF, 0xFF, 0xFF, 0xFF]\<rparr> x \<longleftrightarrow> x = v4InV6Prefix @ [a, b, c, d]"
proof (cases "take 12 x = v4InV6Prefix")
  case True
  have "length (drop 12 x) = Suc (Suc (Suc (Suc 0)))" using assms by simp
  then obtain p q r t where d: "drop 12 x = [p, q, r, t]" unfolding length_Suc_conv length_0_conv by blast
  have x: "x = v4InV6Prefix @ [p, q, r, t]" using True d by (metis append_take_drop_id)
  then show ?thesis using assms True
    by (auto simp: net_Contains_def networkNumberAndMask_def To4_def d)
next
  case False
  then have "x \<noteq> v4InV6Prefix @ [a, b, c, d]" by (auto simp: v4InV6Prefix_def)
  with False assms show ?thesis by (simp add: net_Contains_def networkNumberAndMask_def To4_def)
qed

lemma parse_v4_length: "parse_v4_fields s = Some x \<Longrightarrow> length x = 4"
  by (auto simp: parse_v4_fields_def split: list.splits option.splits)

lemma v6_groups_length:
  "v6_groups n ip ell s = Some (ip', ell', rest) \<Longrightarrow> length ip + 2 * n \<le> 16 \<Longrightarrow> length ip' \<le> 16"
proof (induction n arbitrary: ip ell s)
  case (Suc n)
  define ip1 where "ip1 = ip @ [of_nat (hex_value (takeWhile (\<lambda>c. v6_digit c \<noteq> None) s) div 256),
      of_nat (hex_value (takeWhile (\<lambda>c. v6_digit c \<noteq> None) s) mod 256)]"
  have len: "length ip1 + 2 * n \<le> 16" using Suc.prems(2) by (simp add: ip1_def)
  have "(\<exists>v4. parse_v4_fields s = Some v4 \<and> length ip + 4 \<le> 16 \<and> ip' = ip @ v4) \<or> ip' = ip1 \<or>
      (\<exists>e s'. v6_groups n ip1 e s' = Some (ip', ell', rest))"
    using Suc.prems(1) unfolding v6_groups.simps Let_def ip1_def [symmetric]
    by (simp split: if_split_asm option.split_asm; blast)
  then show ?case using Suc.IH [OF _ len] len parse_v4_length by fastforce
qed simp

lemma fill_ellipsis_length: "length ip \<le> 16 \<Longrightarrow> fill_ellipsis ip ell = Some ip' \<Longrightarrow> length ip' = 16"
  by (auto simp: fill_ellipsis_def split: if_splits option.splits)

lemma ParseIP_length: "ParseIP s = Some ip \<Longrightarrow> length ip = 16"
proof -
  have v6: "length x = 16" if "parse_v6 t = Some x" for t x
    using that by (auto simp: parse_v6_def Let_def split: if_splits option.splits prod.splits
        dest!: v6_groups_length fill_ellipsis_length [rotated])
  assume "ParseIP s = Some ip"
  then show ?thesis
    by (auto simp: ParseIP_def ParseAddr_def v4InV6Prefix_def dest: parse_v4_length v6 split: option.splits addr_kind.splits if_splits)
qed

end
