(* ===== verification/WebAuth.thy ===== *)
theory WebAuth
  imports GoNet "HOL-Library.Signed_Division"
begin

text \<open>
  The authentication of the web interface (\<^verbatim>\<open>src/web/auth_secure.go\<close> and the client addresses of
  \<^verbatim>\<open>src/web/middleware.go\<close>): the limiter of login attempts per client, the tokens of logged-in users and
  against cross-site requests, the address of a client behind trusted proxies, and the login handler. The limiter
  of \<^verbatim>\<open>golang.org/x/time/rate\<close>, the JSON decoder of the credentials and bcrypt are parameters; random
  tokens are arguments. Requests and responses are the parts of \<^verbatim>\<open>net/http\<close> that the handlers read and write:
  \<open>rq_Header\<close> is \<^verbatim>\<open>Header.Get\<close>, which is empty for a missing key, and a handler receives the response that
  has been built up so far.

  The theory shows that the tables of tokens, with their lazy and periodic cleanup, decide as a reference that
  remembers what was issued, used and revoked; that a login succeeds exactly when every check passes; that the
  limits of clients do not influence each other; that a plain IPv4 address as trusted proxy trusts exactly that
  address; and that a client behind a trusted proxy that appends to \<^verbatim>\<open>X-Forwarded-For\<close> chooses its own address.
\<close>

section \<open>Requests and responses\<close>

record request =
  rq_Method :: string
  rq_Path :: string
  rq_RemoteAddr :: string
  rq_TLS :: bool
  rq_Header :: "string \<Rightarrow> string"
  rq_Cookie :: "string \<Rightarrow> string option"
  rq_Body :: string

datatype json =
    JNull | JBool bool | JInt int | JReal real | JString string | JTime time | JList "json list"
  | JObject "(string \<times> json) list"

datatype body = NoBody | TextBody string | JsonBody json | FileBody string

record cookie =
  ck_Name :: string
  ck_Value :: string
  ck_Path :: string
  ck_HttpOnly :: bool
  ck_Secure :: bool
  ck_SameSiteStrict :: bool
  ck_MaxAge :: int

record response =
  rs_Status :: nat
  rs_Header :: "string \<rightharpoonup> string"
  rs_Cookies :: "cookie list"
  rs_Body :: body

definition fresh_response :: response where
  "fresh_response = \<lparr>rs_Status = 200, rs_Header = Map.empty, rs_Cookies = [], rs_Body = NoBody\<rparr>"

definition set_header :: "string \<Rightarrow> string \<Rightarrow> response \<Rightarrow> response" where
  "set_header k v w = w\<lparr>rs_Header := (rs_Header w)(k \<mapsto> v)\<rparr>"

definition http_Error :: "string \<Rightarrow> nat \<Rightarrow> response \<Rightarrow> response" where
  "http_Error msg code w =
     (set_header ''X-Content-Type-Options'' ''nosniff'' (set_header ''Content-Type'' ''text/plain; charset=utf-8'' w))
       \<lparr>rs_Status := code, rs_Body := TextBody msg\<rparr>"

definition set_cookie :: "cookie \<Rightarrow> response \<Rightarrow> response" where
  "set_cookie c w = w\<lparr>rs_Cookies := rs_Cookies w @ [c]\<rparr>"

definition send_json :: "json \<Rightarrow> response \<Rightarrow> response" where
  "send_json j w = (set_header ''Content-Type'' ''application/json'' w)\<lparr>rs_Body := JsonBody j\<rparr>"

lemma response_simps [simp]:
  "rs_Status (http_Error msg code w) = code" "rs_Status (set_header k v w) = rs_Status w"
  "rs_Status (set_cookie c w) = rs_Status w" "rs_Status (send_json j w) = rs_Status w"
  "rs_Body (http_Error msg code w) = TextBody msg" "rs_Body (send_json j w) = JsonBody j"
  "rs_Header (set_header k v w) = (rs_Header w)(k \<mapsto> v)" "rs_Header (set_cookie c w) = rs_Header w"
  "rs_Header (send_json j w) = (rs_Header w)(''Content-Type'' \<mapsto> ''application/json'')"
  "rs_Status fresh_response = 200" "rs_Header fresh_response = Map.empty"
  by (simp_all add: http_Error_def set_header_def set_cookie_def send_json_def fresh_response_def)

section \<open>The address of a client\<close>

definition extractRemoteIP :: "string \<Rightarrow> string" where
  "extractRemoteIP remoteAddr =
     (case SplitHostPort remoteAddr of None \<Rightarrow> remoteAddr | Some (host, _) \<Rightarrow> host)"

definition isLoopback :: "string \<Rightarrow> bool" where
  "isLoopback ip = (case ParseIP ip of None \<Rightarrow> False | Some parsed \<Rightarrow> IsLoopback parsed)"

definition isTrustedProxy :: "string \<Rightarrow> ip_net list \<Rightarrow> bool" where
  "isTrustedProxy ip trustedProxies =
     (if isLoopback ip then True
      else case ParseIP ip of
             None \<Rightarrow> False
           | Some parsed \<Rightarrow> list_ex (\<lambda>cidr. net_Contains cidr parsed) trustedProxies)"

text \<open>The error of the first entry that does not parse is its text.\<close>

definition parse_proxy :: "string \<Rightarrow> string + ip_net" where
  "parse_proxy s =
     (let entry = (if CHR ''/'' \<in> set s then Inr s
                   else case ParseIP s of
                          None \<Rightarrow> Inl s
                        | Some ip \<Rightarrow> Inr (ip_String ip @ ''/'' @ show_nat (if To4 ip = None then 128 else 32)))
      in case entry of
           Inl bad \<Rightarrow> Inl bad
         | Inr cidr \<Rightarrow> (case ParseCIDR cidr of None \<Rightarrow> Inl cidr | Some network \<Rightarrow> Inr network))"

fun ParseTrustedProxies :: "string list \<Rightarrow> string + ip_net list" where
  "ParseTrustedProxies [] = Inr []"
| "ParseTrustedProxies (s # cidrs) =
     (case parse_proxy s of
        Inl bad \<Rightarrow> Inl bad
      | Inr network \<Rightarrow>
          (case ParseTrustedProxies cidrs of Inl bad \<Rightarrow> Inl bad | Inr nets \<Rightarrow> Inr (network # nets)))"

definition getClientIP :: "request \<Rightarrow> ip_net list \<Rightarrow> string" where
  "getClientIP r trustedProxies =
     (let remoteIP = extractRemoteIP (rq_RemoteAddr r);
          xff = rq_Header r ''X-Forwarded-For'';
          xri = rq_Header r ''X-Real-IP''
      in if isTrustedProxy remoteIP trustedProxies
         then (if xff \<noteq> [] then TrimSpace (hd (Split xff (CHR '',''))) else if xri \<noteq> [] then xri else remoteIP)
         else remoteIP)"

section \<open>The limiter of login attempts\<close>

record 'l rate_api =
  rate_NewLimiter :: "duration \<Rightarrow> int \<Rightarrow> 'l"
  rate_Allow :: "time \<Rightarrow> 'l \<Rightarrow> bool \<times> 'l"

record 'l login_limiter =
  ll_limiters :: "string \<rightharpoonup> 'l"
  ll_lastAccess :: "string \<rightharpoonup> time"
  ll_rate :: int
  ll_burst :: int

definition new_login_limiter :: "int \<Rightarrow> int \<Rightarrow> 'l login_limiter" where
  "new_login_limiter ratePerMinute burst =
     \<lparr>ll_limiters = Map.empty, ll_lastAccess = Map.empty, ll_rate = ratePerMinute, ll_burst = burst\<rparr>"

text \<open>The interval of \<^verbatim>\<open>rate.Every\<close>; the division truncates.\<close>

definition login_interval :: "'l login_limiter \<Rightarrow> duration" where
  "login_interval rl = minute sdiv ll_rate rl"

definition GetLimiter :: "'l rate_api \<Rightarrow> time \<Rightarrow> string \<Rightarrow> 'l login_limiter \<Rightarrow> 'l \<times> 'l login_limiter" where
  "GetLimiter ra now key rl0 =
     (let rl = rl0\<lparr>ll_lastAccess := (ll_lastAccess rl0)(key \<mapsto> now)\<rparr> in
      case ll_limiters rl key of
        Some limiter \<Rightarrow> (limiter, rl)
      | None \<Rightarrow>
          let limiter = rate_NewLimiter ra (login_interval rl) (ll_burst rl)
          in (limiter, rl\<lparr>ll_limiters := (ll_limiters rl)(key \<mapsto> limiter)\<rparr>))"

definition login_Allow :: "'l rate_api \<Rightarrow> time \<Rightarrow> string \<Rightarrow> 'l login_limiter \<Rightarrow> bool \<times> 'l login_limiter" where
  "login_Allow ra now key rl0 =
     (case GetLimiter ra now key rl0 of
        (limiter, rl) \<Rightarrow>
          (case rate_Allow ra now limiter of
             (ok, limiter') \<Rightarrow> (ok, rl\<lparr>ll_limiters := (ll_limiters rl)(key \<mapsto> limiter')\<rparr>)))"

definition CleanupOldLimiters :: "time \<Rightarrow> duration \<Rightarrow> 'l login_limiter \<Rightarrow> 'l login_limiter" where
  "CleanupOldLimiters now maxAge rl =
     (let old = {key \<in> dom (ll_lastAccess rl). the (ll_lastAccess rl key) < now - maxAge}
      in rl\<lparr>ll_limiters := ll_limiters rl |` (- old), ll_lastAccess := ll_lastAccess rl |` (- old)\<rparr>)"

section \<open>Tokens\<close>

record TokenData =
  td_Username :: string
  td_ExpiresAt :: time

record SecureTokenManager =
  tm_secretKey :: string
  tm_tokens :: "string \<rightharpoonup> TokenData"
  tm_tokenExpiry :: duration
  tm_csrfTokens :: "string \<rightharpoonup> time"
  tm_closed :: bool

text \<open>\<open>random\<close> is the encoded outcome of \<^verbatim>\<open>rand.Read\<close>; the product of the expiry is one of 64 bits.\<close>

definition NewSecureTokenManager :: "go_error + string \<Rightarrow> string \<Rightarrow> int \<Rightarrow> go_error + SecureTokenManager" where
  "NewSecureTokenManager random secretKey expiryHours =
     (let key = (if secretKey = []
                 then (case random of Inl err \<Rightarrow> Inl (Errorf [Lit ''failed to generate secret key: '', Wrap err])
                                    | Inr k \<Rightarrow> Inr k)
                 else Inr secretKey)
      in case key of
           Inl err \<Rightarrow> Inl err
         | Inr k \<Rightarrow> Inr \<lparr>tm_secretKey = k, tm_tokens = Map.empty,
                          tm_tokenExpiry = signed_take_bit 63 (expiryHours * hour),
                          tm_csrfTokens = Map.empty, tm_closed = False\<rparr>)"

definition GenerateCSRFToken ::
  "time \<Rightarrow> go_error + string \<Rightarrow> SecureTokenManager \<Rightarrow> (go_error + string) \<times> SecureTokenManager" where
  "GenerateCSRFToken now random tm =
     (case random of
        Inl err \<Rightarrow> (Inl (Errorf [Lit ''failed to generate CSRF token: '', Wrap err]), tm)
      | Inr token \<Rightarrow> (Inr token, tm\<lparr>tm_csrfTokens := (tm_csrfTokens tm)(token \<mapsto> now + 1 * hour)\<rparr>))"

definition ValidateCSRFToken :: "time \<Rightarrow> string \<Rightarrow> SecureTokenManager \<Rightarrow> bool \<times> SecureTokenManager" where
  "ValidateCSRFToken now token tm =
     (case tm_csrfTokens tm token of
        None \<Rightarrow> (False, tm)
      | Some expiry \<Rightarrow>
          if expiry < now then (False, tm\<lparr>tm_csrfTokens := (tm_csrfTokens tm)(token := None)\<rparr>)
          else (True, tm\<lparr>tm_csrfTokens := (tm_csrfTokens tm)(token := None)\<rparr>))"

definition GenerateToken ::
  "time \<Rightarrow> go_error + string \<Rightarrow> string \<Rightarrow> SecureTokenManager \<Rightarrow> (go_error + string) \<times> SecureTokenManager" where
  "GenerateToken now random username tm =
     (case random of
        Inl err \<Rightarrow> (Inl (Errorf [Lit ''failed to generate authentication token: '', Wrap err]), tm)
      | Inr token \<Rightarrow>
          (Inr token,
           tm\<lparr>tm_tokens := (tm_tokens tm)(token \<mapsto> \<lparr>td_Username = username, td_ExpiresAt = now + tm_tokenExpiry tm\<rparr>)\<rparr>))"

definition ValidateToken :: "time \<Rightarrow> string \<Rightarrow> SecureTokenManager \<Rightarrow> TokenData option" where
  "ValidateToken now token tm =
     (case tm_tokens tm token of
        None \<Rightarrow> None
      | Some data \<Rightarrow> if td_ExpiresAt data < now then None else Some data)"

definition RevokeToken :: "string \<Rightarrow> SecureTokenManager \<Rightarrow> SecureTokenManager" where
  "RevokeToken token tm = tm\<lparr>tm_tokens := (tm_tokens tm)(token := None)\<rparr>"

definition cleanupExpiredTokens :: "time \<Rightarrow> SecureTokenManager \<Rightarrow> SecureTokenManager" where
  "cleanupExpiredTokens now tm =
     tm\<lparr>tm_tokens := tm_tokens tm |` {t. \<exists>d. tm_tokens tm t = Some d \<and> \<not> td_ExpiresAt d < now}\<rparr>"

definition cleanupExpiredCSRFTokens :: "time \<Rightarrow> SecureTokenManager \<Rightarrow> SecureTokenManager" where
  "cleanupExpiredCSRFTokens now tm =
     tm\<lparr>tm_csrfTokens := tm_csrfTokens tm |` {t. \<exists>e. tm_csrfTokens tm t = Some e \<and> \<not> e < now}\<rparr>"

definition tm_Close :: "SecureTokenManager \<Rightarrow> SecureTokenManager" where
  "tm_Close tm = tm\<lparr>tm_closed := True\<rparr>"

text \<open>A tick of \<^verbatim>\<open>cleanupRoutine\<close>, which has returned after \<^verbatim>\<open>Close\<close>.\<close>

definition cleanup_tick :: "time \<Rightarrow> SecureTokenManager \<Rightarrow> SecureTokenManager" where
  "cleanup_tick now tm =
     (if tm_closed tm then tm else cleanupExpiredCSRFTokens now (cleanupExpiredTokens now tm))"

section \<open>Login\<close>

record SecureAuthConfig =
  ac_Enabled :: bool
  ac_Username :: string
  ac_PasswordHash :: string
  ac_SecretKey :: string
  ac_TokenExpiry :: int
  ac_MaxAttempts :: int
  ac_TrustedProxies :: "string list"

record 'l login_env =
  le_rate :: "'l rate_api"
  le_decode :: "string \<Rightarrow> (string \<times> string) option"
  le_bcrypt :: "string \<Rightarrow> string \<Rightarrow> bool"
  le_auth_random :: "go_error + string"
  le_csrf_random :: "go_error + string"

definition auth_cookie :: "request \<Rightarrow> string \<Rightarrow> int \<Rightarrow> cookie" where
  "auth_cookie r v age =
     \<lparr>ck_Name = ''auth_token'', ck_Value = v, ck_Path = ''/'', ck_HttpOnly = True,
      ck_Secure = (rq_TLS r \<or> rq_Header r ''X-Forwarded-Proto'' = ''https''), ck_SameSiteStrict = True, ck_MaxAge = age\<rparr>"

text \<open>The part of \<^verbatim>\<open>ServeHTTP\<close> after the credentials have been accepted.\<close>

definition issue_tokens ::
  "'l login_env \<Rightarrow> time \<Rightarrow> request \<Rightarrow> string \<Rightarrow> response \<Rightarrow> SecureTokenManager \<Rightarrow> response \<times> SecureTokenManager" where
  "issue_tokens le now r username w tm =
     (case GenerateToken now (le_auth_random le) username tm of
        (Inl _, tm1) \<Rightarrow> (http_Error ''Failed to generate token'' 500 w, tm1)
      | (Inr token, tm1) \<Rightarrow>
          (case GenerateCSRFToken now (le_csrf_random le) tm1 of
             (Inl _, tm2) \<Rightarrow> (http_Error ''Failed to generate CSRF token'' 500 w, tm2)
           | (Inr csrf, tm2) \<Rightarrow>
               (send_json (JObject [(''token'', JString token), (''csrf_token'', JString csrf),
                                    (''expires_in'', JReal (Seconds (tm_tokenExpiry tm2)))])
                  (set_cookie (auth_cookie r token (trunc (Seconds (tm_tokenExpiry tm2)))) w), tm2)))"

definition login_ServeHTTP ::
  "'l login_env \<Rightarrow> SecureAuthConfig \<Rightarrow> ip_net list \<Rightarrow> time \<Rightarrow> request \<Rightarrow> response \<Rightarrow>
   SecureTokenManager \<times> 'l login_limiter \<Rightarrow> response \<times> SecureTokenManager \<times> 'l login_limiter" where
  "login_ServeHTTP le cfg nets now r w st =
     (case st of (tm, rl) \<Rightarrow>
        if rq_Method r \<noteq> ''POST'' then (http_Error ''Method not allowed'' 405 w, tm, rl)
        else case login_Allow (le_rate le) now (getClientIP r nets) rl of
          (False, rl1) \<Rightarrow> (http_Error ''Too many login attempts'' 429 w, tm, rl1)
        | (True, rl1) \<Rightarrow>
            let csrfToken = rq_Header r ''X-CSRF-Token'' in
            if csrfToken = [] then (http_Error ''CSRF token required'' 403 w, tm, rl1)
            else case ValidateCSRFToken now csrfToken tm of
              (False, tm1) \<Rightarrow> (http_Error ''Invalid CSRF token'' 403 w, tm1, rl1)
            | (True, tm1) \<Rightarrow>
                (case le_decode le (rq_Body r) of
                   None \<Rightarrow> (http_Error ''Invalid request body'' 400 w, tm1, rl1)
                 | Some (username, password) \<Rightarrow>
                     if username \<noteq> ac_Username cfg \<or> \<not> le_bcrypt le (ac_PasswordHash cfg) password
                     then (http_Error ''Invalid credentials'' 401 w, tm1, rl1)
                     else case issue_tokens le now r username w tm1 of (w', tm2) \<Rightarrow> (w', tm2, rl1)))"

section \<open>Histories of tokens\<close>

text \<open>What happens to the tables, with the time of each event.\<close>

datatype tm_event =
    TmIssue time string string | TmCheck time string | TmRevoke time string
  | TmCsrf time string | TmUse time string | TmTick time | TmClose time

primrec tm_time :: "tm_event \<Rightarrow> time" where
  "tm_time (TmIssue now u t) = now"
| "tm_time (TmCheck now t) = now"
| "tm_time (TmRevoke now t) = now"
| "tm_time (TmCsrf now t) = now"
| "tm_time (TmUse now t) = now"
| "tm_time (TmTick now) = now"
| "tm_time (TmClose now) = now"

fun tm_step :: "tm_event \<Rightarrow> SecureTokenManager \<Rightarrow> SecureTokenManager" where
  "tm_step (TmIssue now u t) tm = snd (GenerateToken now (Inr t) u tm)"
| "tm_step (TmCheck now t) tm = tm"
| "tm_step (TmRevoke now t) tm = RevokeToken t tm"
| "tm_step (TmCsrf now t) tm = snd (GenerateCSRFToken now (Inr t) tm)"
| "tm_step (TmUse now t) tm = snd (ValidateCSRFToken now t tm)"
| "tm_step (TmTick now) tm = cleanup_tick now tm"
| "tm_step (TmClose now) tm = tm_Close tm"

text \<open>The reference remembers when a token was last issued and forgets it only when it is revoked or used.\<close>

fun ref_issued :: "tm_event \<Rightarrow> (string \<rightharpoonup> string \<times> time) \<Rightarrow> string \<rightharpoonup> string \<times> time" where
  "ref_issued (TmIssue now u t) m = m(t \<mapsto> (u, now))"
| "ref_issued (TmRevoke now t) m = m(t := None)"
| "ref_issued _ m = m"

fun ref_csrf :: "tm_event \<Rightarrow> (string \<rightharpoonup> time) \<Rightarrow> string \<rightharpoonup> time" where
  "ref_csrf (TmCsrf now t) m = m(t \<mapsto> now)"
| "ref_csrf (TmUse now t) m = m(t := None)"
| "ref_csrf _ m = m"

definition issued :: "tm_event list \<Rightarrow> string \<rightharpoonup> string \<times> time" where
  "issued es = fold ref_issued es Map.empty"

definition csrf_issued :: "tm_event list \<Rightarrow> string \<rightharpoonup> time" where
  "csrf_issued es = fold ref_csrf es Map.empty"

text \<open>A table agrees with the reference up to entries that have expired at \<open>now\<close>.\<close>

definition agrees :: "('d \<Rightarrow> time) \<Rightarrow> time \<Rightarrow> (string \<rightharpoonup> 'd) \<Rightarrow> (string \<rightharpoonup> 'd) \<Rightarrow> bool" where
  "agrees expires now m ref \<longleftrightarrow> (\<forall>t. m t = ref t \<or> m t = None \<and> (\<exists>d. ref t = Some d \<and> expires d < now))"

lemma agrees_later: "agrees expires now m ref \<Longrightarrow> now \<le> now' \<Longrightarrow> agrees expires now' m ref"
  unfolding agrees_def by (meson order.strict_trans2)

lemma agrees_upd: "agrees expires now m ref \<Longrightarrow> agrees expires now (m(t := x)) (ref(t := x))"
  by (simp add: agrees_def)

lemma agrees_clean:
  "agrees expires now m ref \<Longrightarrow> agrees expires now (m |` {t. \<exists>d. m t = Some d \<and> \<not> expires d < now}) ref"
  unfolding agrees_def restrict_map_def by (auto split: if_splits) (metis not_None_eq)

lemma agrees_lookup:
  "agrees expires now m ref \<Longrightarrow>
   (case m t of None \<Rightarrow> None | Some d \<Rightarrow> if expires d < now then None else Some d) =
   (case ref t of None \<Rightarrow> None | Some d \<Rightarrow> if expires d < now then None else Some d)"
  unfolding agrees_def by (auto split: option.splits) (metis option.distinct(1) option.inject)+

text \<open>The data of the tables that the reference stands for.\<close>

definition as_tokens :: "duration \<Rightarrow> (string \<rightharpoonup> string \<times> time) \<Rightarrow> string \<rightharpoonup> TokenData" where
  "as_tokens d m t = map_option (\<lambda>(u, now). \<lparr>td_Username = u, td_ExpiresAt = now + d\<rparr>) (m t)"

definition as_csrf :: "(string \<rightharpoonup> time) \<Rightarrow> string \<rightharpoonup> time" where
  "as_csrf m t = map_option (\<lambda>now. now + 1 * hour) (m t)"

lemma as_upd:
  "as_tokens d (m(t \<mapsto> (u, now))) = (as_tokens d m)(t \<mapsto> \<lparr>td_Username = u, td_ExpiresAt = now + d\<rparr>)"
  "as_tokens d (m(t := None)) = (as_tokens d m)(t := None)"
  "as_csrf (k(t \<mapsto> now)) = (as_csrf k)(t \<mapsto> now + 1 * hour)" "as_csrf (k(t := None)) = (as_csrf k)(t := None)"
  by (auto simp: as_tokens_def as_csrf_def fun_eq_iff)

definition tm_tracks :: "time \<Rightarrow> (string \<rightharpoonup> string \<times> time) \<Rightarrow> (string \<rightharpoonup> time) \<Rightarrow> SecureTokenManager \<Rightarrow> bool" where
  [inv_defs]: "tm_tracks now m k tm \<longleftrightarrow>
     agrees td_ExpiresAt now (tm_tokens tm) (as_tokens (tm_tokenExpiry tm) m) \<and>
     agrees id now (tm_csrfTokens tm) (as_csrf k)"

lemma tm_step_tracks:
  assumes "tm_tracks now m k tm" "now \<le> tm_time e"
  shows "tm_tracks (tm_time e) (ref_issued e m) (ref_csrf e k) (tm_step e tm)"
    and "tm_tokenExpiry (tm_step e tm) = tm_tokenExpiry tm"
proof -
  have "agrees td_ExpiresAt (tm_time e) (tm_tokens tm) (as_tokens (tm_tokenExpiry tm) m)"
    and "agrees id (tm_time e) (tm_csrfTokens tm) (as_csrf k)"
    using assms agrees_later unfolding tm_tracks_def by blast+
  note a = this
  have c: "agrees id t (x |` {t'. \<exists>d. x t' = Some d \<and> \<not> d < t}) y" if "agrees id t x y" for t x y
    using agrees_clean [OF that] by simp
  have None_upd: "agrees id t (x(u := None)) (y(u := None))" "x u = None \<Longrightarrow> agrees id t x (y(u := None))"
    if "agrees id t x y" for t u x y
    using agrees_upd [OF that, of u None] by (auto simp: fun_upd_idem)
  show "tm_tracks (tm_time e) (ref_issued e m) (ref_csrf e k) (tm_step e tm)"
    using a by (cases e) (auto simp: tm_tracks_def GenerateToken_def GenerateCSRFToken_def RevokeToken_def
        ValidateCSRFToken_def cleanup_tick_def cleanupExpiredTokens_def cleanupExpiredCSRFTokens_def tm_Close_def
        as_upd agrees_upd agrees_clean c None_upd split: option.splits)
  show "tm_tokenExpiry (tm_step e tm) = tm_tokenExpiry tm"
    by (cases e) (auto simp: GenerateToken_def GenerateCSRFToken_def RevokeToken_def
        ValidateCSRFToken_def cleanup_tick_def cleanupExpiredTokens_def cleanupExpiredCSRFTokens_def tm_Close_def
        split: option.splits)
qed

fun in_order :: "time \<Rightarrow> tm_event list \<Rightarrow> time \<Rightarrow> bool" where
  "in_order t [] now \<longleftrightarrow> t \<le> now"
| "in_order t (e # es) now \<longleftrightarrow> t \<le> tm_time e \<and> in_order (tm_time e) es now"

lemma tm_run_tracks:
  "tm_tracks t m k tm \<Longrightarrow> in_order t es now \<Longrightarrow>
   tm_tracks now (fold ref_issued es m) (fold ref_csrf es k) (fold tm_step es tm) \<and>
   tm_tokenExpiry (fold tm_step es tm) = tm_tokenExpiry tm"
proof (induction es arbitrary: t m k tm)
  case Nil
  then show ?case by (auto simp: tm_tracks_def intro: agrees_later)
next
  case (Cons e es)
  from Cons.prems(2) have e: "t \<le> tm_time e" "in_order (tm_time e) es now" by simp_all
  from Cons.IH [OF tm_step_tracks(1) [OF Cons.prems(1) e(1)] e(2)] tm_step_tracks(2) [OF Cons.prems(1) e(1)]
  show ?case by simp
qed

section \<open>Properties of tokens\<close>

text \<open>C12 (tokens_follow_history): whatever sequence of logins, checks, log-outs, requests for and uses of CSRF
  tokens, and periodic cleanups has happened, a token is accepted exactly when its last issue was not followed by
  its revocation and is not older than the expiry, for the user it was issued to; a CSRF token is accepted exactly
  when it has not been presented since it was last issued and is at most one hour old.\<close>

theorem tokens_follow_history:
  assumes "NewSecureTokenManager random key hours = Inr tm0" "in_order t0 es now"
  shows "ValidateToken now tok (fold tm_step es tm0) =
      (case issued es tok of
         None \<Rightarrow> None
       | Some (u, t) \<Rightarrow> if now \<le> t + tm_tokenExpiry tm0
                        then Some \<lparr>td_Username = u, td_ExpiresAt = t + tm_tokenExpiry tm0\<rparr> else None) \<and>
    fst (ValidateCSRFToken now tok (fold tm_step es tm0)) =
      (case csrf_issued es tok of None \<Rightarrow> False | Some t \<Rightarrow> now \<le> t + hour)"
proof -
  have "tm_tracks t0 Map.empty Map.empty tm0"
    using assms(1) by (auto simp: NewSecureTokenManager_def Let_def tm_tracks_def agrees_def as_tokens_def as_csrf_def
        split: sum.splits if_splits)
  from tm_run_tracks [OF this assms(2)]
  have a: "agrees td_ExpiresAt now (tm_tokens (fold tm_step es tm0)) (as_tokens (tm_tokenExpiry tm0) (issued es))"
    and c: "agrees id now (tm_csrfTokens (fold tm_step es tm0)) (as_csrf (csrf_issued es))"
    by (auto simp: tm_tracks_def issued_def csrf_issued_def)
  show ?thesis
    using agrees_lookup [OF a, of tok] agrees_lookup [OF c, of tok]
    by (auto simp: ValidateToken_def ValidateCSRFToken_def as_tokens_def as_csrf_def not_less split: option.splits if_splits)
qed

definition token_day :: "tm_event list" where
  "token_day = [TmCsrf 0 ''c'', TmUse 5 ''c'', TmIssue 5 ''ann'' ''t'', TmTick hour, TmIssue hour ''bob'' ''u'',
     TmRevoke (2 * hour) ''u'', TmTick (3 * hour)]"

theorem tokens_follow_history_witness:
  "\<exists>tm0. NewSecureTokenManager (Inr ''k'') [] 24 = Inr tm0 \<and> tm_tokenExpiry tm0 = 24 * hour \<and>
     ValidateToken (4 * hour) ''t'' (fold tm_step token_day tm0) = Some \<lparr>td_Username = ''ann'', td_ExpiresAt = 5 + 24 * hour\<rparr> \<and>
     fst (ValidateCSRFToken (4 * hour) ''c'' (fold tm_step token_day tm0)) = False"
proof -
  obtain tm0 where t: "NewSecureTokenManager (Inr ''k'') [] 24 = Inr tm0" and d: "tm_tokenExpiry tm0 = 24 * hour"
    by (simp add: NewSecureTokenManager_def Let_def signed_take_bit_int_eq_self)
  have o: "in_order 0 token_day (4 * hour)" by (simp add: token_day_def)
  have i: "issued token_day ''t'' = Some (''ann'', 5)" "csrf_issued token_day ''c'' = None"
    by (simp_all add: issued_def csrf_issued_def token_day_def)
  have "ValidateToken (4 * hour) ''t'' (fold tm_step token_day tm0) = Some \<lparr>td_Username = ''ann'', td_ExpiresAt = 5 + 24 * hour\<rparr>"
    using tokens_follow_history [OF t o, of "''t''"] i d by simp
  moreover have "fst (ValidateCSRFToken (4 * hour) ''c'' (fold tm_step token_day tm0)) = False"
    using tokens_follow_history [OF t o, of "''c''"] i by simp
  ultimately show ?thesis using t d by blast
qed

section \<open>Properties of the login\<close>

text \<open>The conditions of a login, in the order in which they are checked.\<close>

definition login_allowed :: "'l login_env \<Rightarrow> ip_net list \<Rightarrow> time \<Rightarrow> request \<Rightarrow> 'l login_limiter \<Rightarrow> bool" where
  "login_allowed le nets now r rl \<longleftrightarrow>
     rq_Method r = ''POST'' \<and> fst (login_Allow (le_rate le) now (getClientIP r nets) rl)"

definition csrf_accepted :: "time \<Rightarrow> request \<Rightarrow> SecureTokenManager \<Rightarrow> bool" where
  "csrf_accepted now r tm \<longleftrightarrow>
     rq_Header r ''X-CSRF-Token'' \<noteq> [] \<and> fst (ValidateCSRFToken now (rq_Header r ''X-CSRF-Token'') tm)"

definition credentials_accepted :: "'l login_env \<Rightarrow> SecureAuthConfig \<Rightarrow> request \<Rightarrow> bool" where
  "credentials_accepted le cfg r \<longleftrightarrow>
     (case le_decode le (rq_Body r) of
        None \<Rightarrow> False
      | Some (u, p) \<Rightarrow> u = ac_Username cfg \<and> le_bcrypt le (ac_PasswordHash cfg) p)"

lemma ValidateCSRFToken_frame [simp]:
  "tm_tokens (snd (ValidateCSRFToken now t tm)) = tm_tokens tm"
  "tm_tokenExpiry (snd (ValidateCSRFToken now t tm)) = tm_tokenExpiry tm"
  by (auto simp: ValidateCSRFToken_def split: option.splits)

lemma ValidateCSRFToken_used: "tm_csrfTokens (snd (ValidateCSRFToken now t tm)) = (tm_csrfTokens tm)(t := None)"
  by (auto simp: ValidateCSRFToken_def fun_upd_idem split: option.splits)

lemma issue_tokens_ok:
  "le_auth_random le = Inr t \<Longrightarrow> le_csrf_random le = Inr c \<Longrightarrow>
   rs_Status (fst (issue_tokens le now r u w tm)) = rs_Status w \<and>
   tm_tokens (snd (issue_tokens le now r u w tm)) =
     (tm_tokens tm)(t \<mapsto> \<lparr>td_Username = u, td_ExpiresAt = now + tm_tokenExpiry tm\<rparr>) \<and>
   tm_csrfTokens (snd (issue_tokens le now r u w tm)) = (tm_csrfTokens tm)(c \<mapsto> now + hour)"
  by (simp add: issue_tokens_def GenerateToken_def GenerateCSRFToken_def)

lemma login_refused:
  "\<not> login_allowed le nets now r rl \<Longrightarrow>
   \<exists>rl'. login_ServeHTTP le cfg nets now r w (tm, rl) =
     (if rq_Method r = ''POST'' then http_Error ''Too many login attempts'' 429 w else http_Error ''Method not allowed'' 405 w, tm, rl')"
  by (auto simp: login_ServeHTTP_def login_allowed_def split: prod.splits bool.splits)

lemma login_no_csrf:
  "login_allowed le nets now r rl \<Longrightarrow> \<not> csrf_accepted now r tm \<Longrightarrow>
   \<exists>msg rl'. login_ServeHTTP le cfg nets now r w (tm, rl) = (http_Error msg 403 w,
     (if rq_Header r ''X-CSRF-Token'' = [] then tm else snd (ValidateCSRFToken now (rq_Header r ''X-CSRF-Token'') tm)), rl')"
  by (auto simp: login_ServeHTTP_def login_allowed_def csrf_accepted_def Let_def split: prod.splits bool.splits)

lemma login_bad_credentials:
  "login_allowed le nets now r rl \<Longrightarrow> csrf_accepted now r tm \<Longrightarrow> \<not> credentials_accepted le cfg r \<Longrightarrow>
   \<exists>msg code rl'. login_ServeHTTP le cfg nets now r w (tm, rl) =
     (http_Error msg code w, snd (ValidateCSRFToken now (rq_Header r ''X-CSRF-Token'') tm), rl') \<and> code \<in> {400, 401}"
  by (auto simp: login_ServeHTTP_def login_allowed_def csrf_accepted_def credentials_accepted_def Let_def
      split: prod.splits bool.splits option.splits)

lemma login_accepted:
  assumes "login_allowed le nets now r rl" "csrf_accepted now r tm" "credentials_accepted le cfg r"
  shows "\<exists>rl'. login_ServeHTTP le cfg nets now r w (tm, rl) =
     (let i = issue_tokens le now r (ac_Username cfg) w (snd (ValidateCSRFToken now (rq_Header r ''X-CSRF-Token'') tm))
      in (fst i, snd i, rl'))"
proof -
  obtain rl1 where a: "login_Allow (le_rate le) now (getClientIP r nets) rl = (True, rl1)" and m: "rq_Method r = ''POST''"
    using assms(1) unfolding login_allowed_def by (metis (full_types) prod.collapse)
  obtain tm1 where c: "ValidateCSRFToken now (rq_Header r ''X-CSRF-Token'') tm = (True, tm1)"
    and h: "rq_Header r ''X-CSRF-Token'' \<noteq> []"
    using assms(2) unfolding csrf_accepted_def by (metis (full_types) prod.collapse)
  obtain p where d: "le_decode le (rq_Body r) = Some (ac_Username cfg, p)" "le_bcrypt le (ac_PasswordHash cfg) p"
    using assms(3) by (auto simp: credentials_accepted_def split: option.splits)
  show ?thesis by (simp add: login_ServeHTTP_def a m c h d Let_def split_beta)
qed

lemma login_outcome:
  assumes "le_auth_random le = Inr t" "le_csrf_random le = Inr c"
  shows "let (w, tm', rl') = login_ServeHTTP le cfg nets now r fresh_response (tm, rl);
             presented = rq_Header r ''X-CSRF-Token'';
             accepted = (login_allowed le nets now r rl \<and> csrf_accepted now r tm \<and> credentials_accepted le cfg r)
         in (rs_Status w = 200 \<longleftrightarrow> accepted) \<and>
            tm_tokens tm' = (if accepted
              then (tm_tokens tm)(t \<mapsto> \<lparr>td_Username = ac_Username cfg, td_ExpiresAt = now + tm_tokenExpiry tm\<rparr>)
              else tm_tokens tm) \<and>
            tm_csrfTokens tm' =
              (if \<not> login_allowed le nets now r rl \<or> presented = [] then tm_csrfTokens tm
               else if accepted then (tm_csrfTokens tm)(presented := None, c \<mapsto> now + hour)
               else (tm_csrfTokens tm)(presented := None))"
proof -
  let ?presented = "rq_Header r ''X-CSRF-Token''"
  let ?tm1 = "snd (ValidateCSRFToken now ?presented tm)"
  consider (refused) "\<not> login_allowed le nets now r rl"
    | (csrf) "login_allowed le nets now r rl" "\<not> csrf_accepted now r tm"
    | (cred) "login_allowed le nets now r rl" "csrf_accepted now r tm" "\<not> credentials_accepted le cfg r"
    | (ok) "login_allowed le nets now r rl" "csrf_accepted now r tm" "credentials_accepted le cfg r" by blast
  then show ?thesis
  proof cases
    case refused
    from login_refused [OF this, of cfg fresh_response tm] show ?thesis using refused by (auto split: if_splits)
  next
    case csrf
    from login_no_csrf [OF this, of cfg fresh_response] show ?thesis
      using csrf by (auto simp: ValidateCSRFToken_used)
  next
    case cred
    from login_bad_credentials [OF this, of fresh_response] cred show ?thesis
      by (auto simp: ValidateCSRFToken_used csrf_accepted_def)
  next
    case ok
    from login_accepted [OF ok, of fresh_response] ok issue_tokens_ok [OF assms, of now r "ac_Username cfg" fresh_response ?tm1]
    show ?thesis by (auto simp: Let_def ValidateCSRFToken_used csrf_accepted_def)
  qed
qed

text \<open>C11 (login_needs_every_check): when the source of random numbers works, a login is answered with 200 exactly
  for a POST request that the limiter admits, whose CSRF token is accepted and whose body holds the configured user
  name and a password that matches the hash; in exactly these cases a token for that user becomes valid, and in all
  others the tokens stay as they are. A request the limiter refuses does not use up its CSRF token, every other
  presented one is gone, whether or not the password was right.\<close>

theorem login_needs_every_check:
  assumes "le_auth_random le = Inr t" "le_csrf_random le = Inr c"
  shows "let (w, tm', rl') = login_ServeHTTP le cfg nets now r fresh_response (tm, rl);
             presented = rq_Header r ''X-CSRF-Token'';
             accepted = (login_allowed le nets now r rl \<and> csrf_accepted now r tm \<and> credentials_accepted le cfg r)
         in (rs_Status w = 200 \<longleftrightarrow> accepted) \<and>
            tm_tokens tm' = (if accepted
              then (tm_tokens tm)(t \<mapsto> \<lparr>td_Username = ac_Username cfg, td_ExpiresAt = now + tm_tokenExpiry tm\<rparr>)
              else tm_tokens tm) \<and>
            tm_csrfTokens tm' =
              (if \<not> login_allowed le nets now r rl \<or> presented = [] then tm_csrfTokens tm
               else if accepted then (tm_csrfTokens tm)(presented := None, c \<mapsto> now + hour)
               else (tm_csrfTokens tm)(presented := None))"
  by (rule login_outcome [OF assms])

text \<open>A limiter that counts, and a server with one user.\<close>

definition count_rate :: "nat rate_api" where
  "count_rate = \<lparr>rate_NewLimiter = (\<lambda>d b. nat b), rate_Allow = (\<lambda>now l. if 0 < l then (True, l - 1) else (False, l))\<rparr>"

definition demo_login :: "nat login_env" where
  "demo_login = \<lparr>le_rate = count_rate, le_decode = (\<lambda>b. if b = ''ann:x'' then Some (''ann'', ''x'') else None),
     le_bcrypt = (\<lambda>h p. h = ''#'' @ p), le_auth_random = Inr ''t1'', le_csrf_random = Inr ''c1''\<rparr>"

definition demo_auth :: SecureAuthConfig where
  "demo_auth = \<lparr>ac_Enabled = True, ac_Username = ''ann'', ac_PasswordHash = ''#x'', ac_SecretKey = ''k'',
     ac_TokenExpiry = 24, ac_MaxAttempts = 5, ac_TrustedProxies = []\<rparr>"

definition demo_tm :: SecureTokenManager where
  "demo_tm = \<lparr>tm_secretKey = ''k'', tm_tokens = Map.empty, tm_tokenExpiry = 24 * hour,
     tm_csrfTokens = [''c0'' \<mapsto> hour], tm_closed = False\<rparr>"

definition demo_request :: request where
  "demo_request = \<lparr>rq_Method = ''POST'', rq_Path = ''/api/login'', rq_RemoteAddr = ''h'', rq_TLS = True,
     rq_Header = (\<lambda>k. if k = ''X-CSRF-Token'' then ''c0'' else []), rq_Cookie = (\<lambda>k. None), rq_Body = ''ann:x''\<rparr>"

lemma demo_accepted:
  "login_allowed demo_login [] 7 demo_request (new_login_limiter 5 5)" "csrf_accepted 7 demo_request demo_tm"
  "credentials_accepted demo_login demo_auth demo_request"
  "le_auth_random demo_login = Inr ''t1''" "le_csrf_random demo_login = Inr ''c1''"
  by (simp_all add: login_allowed_def csrf_accepted_def credentials_accepted_def demo_request_def demo_login_def demo_tm_def
      demo_auth_def login_Allow_def GetLimiter_def new_login_limiter_def count_rate_def ValidateCSRFToken_def)

lemma demo_login_status:
  "rs_Status (fst (login_ServeHTTP demo_login demo_auth [] 7 demo_request fresh_response (demo_tm, new_login_limiter 5 5))) = 200"
  using login_outcome [OF demo_accepted(4,5), of demo_auth "[]" 7 demo_request demo_tm "new_login_limiter 5 5"] demo_accepted(1-3)
  by (auto simp: Let_def split: prod.splits)

theorem login_needs_every_check_witness:
  "rs_Status (fst (login_ServeHTTP demo_login demo_auth [] 7 demo_request fresh_response (demo_tm, new_login_limiter 5 5))) = 200"
  using login_needs_every_check [OF demo_accepted(4,5), of demo_auth "[]" 7 demo_request demo_tm "new_login_limiter 5 5"]
    demo_accepted(1-3)
  by (auto simp: Let_def split: prod.splits)

section \<open>Properties of the limiter of logins\<close>

text \<open>Attempts at times by clients, and what is decided; the same for a single limiter.\<close>

fun decisions :: "'l rate_api \<Rightarrow> (time \<times> string) list \<Rightarrow> 'l login_limiter \<Rightarrow> (string \<times> bool) list" where
  "decisions ra [] rl = []"
| "decisions ra ((now, key) # es) rl =
     (let (ok, rl') = login_Allow ra now key rl in (key, ok) # decisions ra es rl')"

fun single_decisions :: "'l rate_api \<Rightarrow> time list \<Rightarrow> 'l \<Rightarrow> bool list" where
  "single_decisions ra [] l = []"
| "single_decisions ra (now # ts) l = (let (ok, l') = rate_Allow ra now l in ok # single_decisions ra ts l')"

definition limiter_of :: "'l rate_api \<Rightarrow> string \<Rightarrow> 'l login_limiter \<Rightarrow> 'l" where
  "limiter_of ra key rl =
     (case ll_limiters rl key of Some l \<Rightarrow> l | None \<Rightarrow> rate_NewLimiter ra (login_interval rl) (ll_burst rl))"

lemma login_Allow_step:
  "login_Allow ra now key rl = (ok, rl') \<Longrightarrow>
   rate_Allow ra now (limiter_of ra key rl) = (ok, limiter_of ra key rl') \<and>
   (\<forall>k. k \<noteq> key \<longrightarrow> limiter_of ra k rl' = limiter_of ra k rl) \<and>
   dom (ll_limiters rl') = insert key (dom (ll_limiters rl)) \<and> ll_rate rl' = ll_rate rl \<and> ll_burst rl' = ll_burst rl"
  by (auto simp: login_Allow_def GetLimiter_def limiter_of_def login_interval_def Let_def split: option.splits prod.splits)

text \<open>(login_limits_per_client): for any interleaving of the attempts of any number of clients, the decisions on
  one client are those of a limiter of its own that sees only the attempts of this client.\<close>

theorem login_limits_per_client:
  "map snd (filter (\<lambda>(k, _). k = key) (decisions ra es rl)) =
   single_decisions ra (map fst (filter (\<lambda>(_, k). k = key) es)) (limiter_of ra key rl)"
proof (induction es arbitrary: rl)
  case (Cons e es)
  obtain now k where e: "e = (now, k)" by fastforce
  obtain ok rl' where a: "login_Allow ra now k rl = (ok, rl')" by fastforce
  show ?case
  proof (cases "k = key")
    case True
    with a login_Allow_step [OF a] Cons.IH [of rl'] show ?thesis by (simp add: e)
  next
    case False
    with a login_Allow_step [OF a] Cons.IH [of rl'] show ?thesis by (simp add: e)
  qed
qed simp

section \<open>Properties of client addresses\<close>

text \<open>(plain_proxy_is_one_address): an IPv4 address without a mask in the list of trusted proxies parses to a
  network that holds this address and no other, in whatever form an address is written.\<close>

theorem plain_proxy_is_one_address:
  assumes "ParseIP s = Some ip" "To4 ip \<noteq> None" "CHR ''/'' \<notin> set s"
  shows "\<exists>n. ParseTrustedProxies [s] = Inr [n] \<and>
    (\<forall>x. isTrustedProxy x [n] \<longleftrightarrow> isLoopback x \<or> ParseIP x = Some ip)"
proof -
  have len: "length ip = 16" by (rule ParseIP_length [OF assms(1)])
  then have pre: "take 12 ip = v4InV6Prefix" and "length (drop 12 ip) = Suc (Suc (Suc (Suc 0)))"
    using assms(2) by (auto simp: To4_def split: if_splits)
  then obtain a b c d where d: "drop 12 ip = [a, b, c, d]" unfolding length_Suc_conv length_0_conv by blast
  have ip: "ip = v4InV6Prefix @ [a, b, c, d]" using pre d by (metis append_take_drop_id)
  let ?n = "\<lparr>net_IP = [a, b, c, d], net_Mask = [0xFF, 0xFF, 0xFF, 0xFF]\<rparr>"
  have t4: "To4 ip = Some [a, b, c, d]" using len pre d by (simp add: To4_def)
  have "show_nat 32 = ''32''" by code_simp
  then have "ip_String ip @ ''/'' @ show_nat 32 = dotted [a, b, c, d] @ ''/32''"
    by (simp add: ip_String_def t4 dotted_def)
  then have "parse_proxy s = Inr ?n"
    using assms t4 dotted_ParseCIDR [of a b c d] by (simp add: parse_proxy_def)
  then have p: "ParseTrustedProxies [s] = Inr [?n]" by simp
  have "isTrustedProxy x [?n] \<longleftrightarrow> isLoopback x \<or> ParseIP x = Some ip" for x
    using single_Contains [OF ParseIP_length [of x]] ip by (auto simp: isTrustedProxy_def split: option.splits)
  with p show ?thesis by blast
qed

theorem plain_proxy_is_one_address_witness:
  "\<exists>n. ParseTrustedProxies [''10.0.0.1''] = Inr [n] \<and>
     (\<forall>x. isTrustedProxy x [n] \<longleftrightarrow> isLoopback x \<or> ParseIP x = Some (v4InV6Prefix @ [10, 0, 0, 1]))"
proof -
  have "ParseIP ''10.0.0.1'' = Some (v4InV6Prefix @ [10, 0, 0, 1])" "To4 (v4InV6Prefix @ [10, 0, 0, 1]) \<noteq> None"
    by code_simp+
  then show ?thesis by (rule plain_proxy_is_one_address) simp
qed

text \<open>What arrives behind a proxy that appends the address of its peer to \<^verbatim>\<open>X-Forwarded-For\<close>, as the nginx
  configuration in \<^verbatim>\<open>docs/SECURITY.md\<close> does, when the client has sent the value \<open>chosen\<close>.\<close>

definition forwarded :: "string \<Rightarrow> string \<Rightarrow> string \<Rightarrow> request" where
  "forwarded proxy peer chosen =
     \<lparr>rq_Method = ''POST'', rq_Path = ''/api/login'', rq_RemoteAddr = proxy, rq_TLS = False,
      rq_Header = (\<lambda>k. if k = ''X-Forwarded-For'' then chosen @ '', '' @ peer else []),
      rq_Cookie = (\<lambda>k. None), rq_Body = []\<rparr>"

definition plain_value :: "string \<Rightarrow> bool" where
  "plain_value s \<longleftrightarrow> CHR '','' \<notin> set s \<and> TrimSpace s = s"

lemma forwarded_address:
  assumes "isTrustedProxy (extractRemoteIP proxy) nets" "plain_value chosen"
  shows "getClientIP (forwarded proxy peer chosen) nets = chosen"
proof -
  have "Split (chosen @ '','' @ '' '' @ peer) (CHR '','') = chosen # Split ('' '' @ peer) (CHR '','')"
    using assms(2) Split_append [of "CHR '',''" chosen "'' '' @ peer"] by (simp add: plain_value_def)
  then show ?thesis using assms by (simp add: getClientIP_def forwarded_def Let_def plain_value_def)
qed

lemma decisions_fresh:
  "distinct keys \<Longrightarrow> \<forall>k\<in>set keys. ll_limiters rl k = None \<Longrightarrow>
   \<forall>t. fst (rate_Allow ra t (rate_NewLimiter ra (login_interval rl) (ll_burst rl))) \<Longrightarrow>
   map snd (decisions ra (map (\<lambda>k. (time_of k, k)) keys) rl) = replicate (length keys) True"
proof (induction keys arbitrary: rl)
  case (Cons k keys)
  obtain ok rl' where a: "login_Allow ra (time_of k) k rl = (ok, rl')" by fastforce
  have "limiter_of ra k rl = rate_NewLimiter ra (login_interval rl) (ll_burst rl)"
    using Cons.prems(2) by (simp add: limiter_of_def)
  with login_Allow_step [OF a] Cons.prems(3) have ok: "ok" by (metis fst_conv)
  have "\<forall>x\<in>set keys. ll_limiters rl' x = None"
    using login_Allow_step [OF a] Cons.prems(1,2) by (metis distinct.simps(2) domIff insert_iff list.set_intros(2))
  moreover have "login_interval rl' = login_interval rl" "ll_burst rl' = ll_burst rl"
    using login_Allow_step [OF a] by (simp_all add: login_interval_def)
  ultimately show ?case using Cons.IH [of rl'] Cons.prems ok a by simp
qed simp

text \<open>(forwarded_address_is_chosen): behind a trusted proxy that appends to \<^verbatim>\<open>X-Forwarded-For\<close>, the address
  used for a client is the one the client has written itself, so a client that sends a different value with every
  attempt is never refused by the limiter of logins, however many attempts it makes.\<close>

theorem forwarded_address_is_chosen:
  assumes "isTrustedProxy (extractRemoteIP proxy) nets" "distinct values" "list_all plain_value values"
    "\<forall>t. fst (rate_Allow ra t (rate_NewLimiter ra (minute sdiv n) b))"
  shows "map (\<lambda>v. getClientIP (forwarded proxy peer v) nets) values = values \<and>
    map snd (decisions ra (map (\<lambda>v. (time_of v, getClientIP (forwarded proxy peer v) nets)) values) (new_login_limiter n b)) =
      replicate (length values) True"
proof -
  have v: "getClientIP (forwarded proxy peer v) nets = v" if "v \<in> set values" for v
    using forwarded_address [OF assms(1)] assms(3) that by (simp add: list_all_iff)
  have ids: "map (\<lambda>v. getClientIP (forwarded proxy peer v) nets) values = values"
    using v by (simp add: map_idI)
  have eq: "map (\<lambda>v. (time_of v, getClientIP (forwarded proxy peer v) nets)) values = map (\<lambda>v. (time_of v, v)) values"
    using v by simp
  have "map snd (decisions ra (map (\<lambda>v. (time_of v, v)) values) (new_login_limiter n b)) = replicate (length values) True"
    using assms(2,4) by (intro decisions_fresh) (simp_all add: new_login_limiter_def login_interval_def)
  then show ?thesis unfolding eq using ids by blast
qed

theorem forwarded_address_is_chosen_witness:
  "map snd (decisions count_rate (map (\<lambda>v. (0, getClientIP (forwarded ''127.0.0.1:80'' ''10.1.1.1'' v) [])) [''a'', ''b''])
     (new_login_limiter 1 1)) = [True, True]"
proof -
  have "isTrustedProxy (extractRemoteIP ''127.0.0.1:80'') []" by code_simp
  moreover have "list_all plain_value [''a'', ''b'']" by code_simp
  moreover have "\<forall>t. fst (rate_Allow count_rate t (rate_NewLimiter count_rate (minute sdiv 1) 1))" by (simp add: count_rate_def)
  ultimately show ?thesis
    using forwarded_address_is_chosen [of "''127.0.0.1:80''" "[]" "[''a'', ''b'']" count_rate 1 1 "''10.1.1.1''" "\<lambda>v. 0"]
    by (auto simp: numeral_2_eq_2 simp del: decisions.simps)
qed

end
