(* ===== verification/WebLimit.thy ===== *)
theory WebLimit
  imports WebAuth
begin

text \<open>
  The middlewares around every request of the web server (\<^verbatim>\<open>src/web/middleware.go\<close>): the limiter of requests
  per client address in a sliding window, with its periodic cleanup, and the security headers. The theory shows
  that the limiter decides as one that remembers every admitted request forever, and that no client is admitted
  more often than the limit in any window of time.
\<close>

section \<open>The limiter\<close>

record window_limiter =
  wl_requests :: "string \<rightharpoonup> time list"
  wl_limit :: int
  wl_window :: duration
  wl_trustedProxies :: "ip_net list"
  wl_closed :: bool

definition newRateLimiter :: "int \<Rightarrow> duration \<Rightarrow> window_limiter" where
  "newRateLimiter limit window =
     \<lparr>wl_requests = Map.empty, wl_limit = limit, wl_window = window, wl_trustedProxies = [], wl_closed = False\<rparr>"

definition rl_close :: "window_limiter \<Rightarrow> window_limiter" where
  "rl_close rl = rl\<lparr>wl_closed := True\<rparr>"

definition win_recent :: "time \<Rightarrow> duration \<Rightarrow> time list \<Rightarrow> time list" where
  "win_recent now window ts = filter (\<lambda>t. now - t < window) ts"

definition rl_cleanup :: "time \<Rightarrow> window_limiter \<Rightarrow> window_limiter" where
  "rl_cleanup now rl =
     rl\<lparr>wl_requests := (\<lambda>ip. case wl_requests rl ip of
          None \<Rightarrow> None
        | Some ts \<Rightarrow> (let valid = win_recent now (wl_window rl) ts in if 0 < length valid then Some valid else None))\<rparr>"

text \<open>A tick of the cleanup goroutine, which returns when the limiter is closed.\<close>

definition rl_tick :: "time \<Rightarrow> window_limiter \<Rightarrow> window_limiter" where
  "rl_tick now rl = (if wl_closed rl then rl else rl_cleanup now rl)"

definition rl_client :: "request \<Rightarrow> ip_net list \<Rightarrow> string" where
  "rl_client r trustedProxies =
     (let ip = extractRemoteIP (rq_RemoteAddr r);
          xForwarded = rq_Header r ''X-Forwarded-For'';
          xRealIP = rq_Header r ''X-Real-IP''
      in if isTrustedProxy ip trustedProxies
         then (if xForwarded \<noteq> [] then TrimSpace (Split xForwarded (CHR '','') ! 0)
               else if xRealIP \<noteq> [] then xRealIP else ip)
         else ip)"

text \<open>The critical section of the middleware: whether the request is served.\<close>

definition rl_admit :: "time \<Rightarrow> string \<Rightarrow> window_limiter \<Rightarrow> bool \<times> window_limiter" where
  "rl_admit now ip rl0 =
     (let rl = (if wl_requests rl0 ip = None then rl0\<lparr>wl_requests := (wl_requests rl0)(ip \<mapsto> [])\<rparr> else rl0);
          valid = win_recent now (wl_window rl) (the (wl_requests rl ip))
      in if wl_limit rl \<le> int (length valid) then (False, rl)
         else (True, rl\<lparr>wl_requests := (wl_requests rl)(ip \<mapsto> valid @ [now])\<rparr>))"

definition rl_middleware ::
  "(request \<Rightarrow> response \<Rightarrow> 's \<Rightarrow> response \<times> 's) \<Rightarrow> time \<Rightarrow> request \<Rightarrow> response \<Rightarrow> window_limiter \<times> 's \<Rightarrow>
   response \<times> window_limiter \<times> 's" where
  "rl_middleware nxt now r w st =
     (case st of (rl, s) \<Rightarrow>
        case rl_admit now (rl_client r (wl_trustedProxies rl)) rl of
          (False, rl1) \<Rightarrow> (http_Error ''Rate limit exceeded'' 429 w, rl1, s)
        | (True, rl1) \<Rightarrow> (case nxt r w s of (w', s') \<Rightarrow> (w', rl1, s')))"

section \<open>Security headers\<close>

definition security_header_values :: "(string \<times> string) list" where
  "security_header_values =
     [(''X-Content-Type-Options'', ''nosniff''), (''X-Frame-Options'', ''DENY''),
      (''X-XSS-Protection'', ''1; mode=block''), (''Referrer-Policy'', ''strict-origin-when-cross-origin''),
      (''Content-Security-Policy'',
       ''default-src '' @ CHR 0x27 # ''self'' @ CHR 0x27 # ''; script-src '' @ CHR 0x27 # ''self'' @ CHR 0x27 # '' ''
         @ CHR 0x27 # ''unsafe-inline'' @ CHR 0x27 # ''; style-src '' @ CHR 0x27 # ''self'' @ CHR 0x27 # '' ''
         @ CHR 0x27 # ''unsafe-inline'' @ CHR 0x27 # ''; img-src '' @ CHR 0x27 # ''self'' @ CHR 0x27 # '' data:'')]"

definition securityHeaders ::
  "(request \<Rightarrow> response \<Rightarrow> 's \<Rightarrow> response \<times> 's) \<Rightarrow> request \<Rightarrow> response \<Rightarrow> 's \<Rightarrow> response \<times> 's" where
  "securityHeaders nxt r w s =
     (let w1 = fold (\<lambda>(k, v). set_header k v) security_header_values w;
          w2 = (if rq_TLS r then set_header ''Strict-Transport-Security'' ''max-age=31536000; includeSubDomains'' w1 else w1)
      in nxt r w2 s)"

section \<open>Histories of requests\<close>

datatype win_event = WinRequest time string | WinTick time | WinClose time

primrec win_time :: "win_event \<Rightarrow> time" where
  "win_time (WinRequest t ip) = t"
| "win_time (WinTick t) = t"
| "win_time (WinClose t) = t"

text \<open>The limiter together with the log of the requests it has admitted.\<close>

fun win_step :: "win_event \<Rightarrow> window_limiter \<times> (time \<times> string) list \<Rightarrow> window_limiter \<times> (time \<times> string) list" where
  "win_step (WinRequest t ip) (rl, lg) =
     (case rl_admit t ip rl of (ok, rl') \<Rightarrow> (rl', if ok then lg @ [(t, ip)] else lg))"
| "win_step (WinTick t) (rl, lg) = (rl_tick t rl, lg)"
| "win_step (WinClose t) (rl, lg) = (rl_close rl, lg)"

fun win_ordered :: "time \<Rightarrow> win_event list \<Rightarrow> time \<Rightarrow> bool" where
  "win_ordered t [] now \<longleftrightarrow> t \<le> now"
| "win_ordered t (e # es) now \<longleftrightarrow> t \<le> win_time e \<and> win_ordered (win_time e) es now"

text \<open>The admitted requests of a client in a period.\<close>

definition admitted_in :: "(time \<Rightarrow> bool) \<Rightarrow> string \<Rightarrow> (time \<times> string) list \<Rightarrow> time list" where
  "admitted_in P ip lg = map fst (filter (\<lambda>(t, i). i = ip \<and> P t) lg)"

lemma admitted_in_simps [simp]:
  "admitted_in P ip [] = []"
  "admitted_in P ip (lg @ [(t, i)]) = admitted_in P ip lg @ (if i = ip \<and> P t then [t] else [])"
  by (simp_all add: admitted_in_def)

lemma filter_admitted: "filter Q (admitted_in P ip lg) = admitted_in (\<lambda>t. P t \<and> Q t) ip lg"
  by (induction lg) (auto simp: admitted_in_def)

lemma recent_recent: "now \<le> now' \<Longrightarrow> win_recent now' w (win_recent now w ts) = win_recent now' w ts"
  by (auto simp: win_recent_def intro!: filter_cong)

definition win_tracks :: "time \<Rightarrow> window_limiter \<times> (time \<times> string) list \<Rightarrow> bool" where
  [inv_defs]: "win_tracks now s \<longleftrightarrow> (case s of (rl, lg) \<Rightarrow>
     (\<forall>ip. win_recent now (wl_window rl) (case wl_requests rl ip of None \<Rightarrow> [] | Some ts \<Rightarrow> ts) =
        admitted_in (\<lambda>t. now - t < wl_window rl) ip lg) \<and>
     (\<forall>(t, ip)\<in>set lg. t \<le> now) \<and>
     (\<forall>a ip. int (length (admitted_in (\<lambda>t. a \<le> t \<and> t < a + wl_window rl) ip lg)) \<le> max 0 (wl_limit rl)))"

lemma win_tracks_later:
  assumes "win_tracks now s" "now \<le> now'"
  shows "win_tracks now' s"
proof -
  obtain rl lg where s: "s = (rl, lg)" by fastforce
  let ?w = "wl_window rl"
  have "win_recent now' ?w (case wl_requests rl ip of None \<Rightarrow> [] | Some ts \<Rightarrow> ts) = admitted_in (\<lambda>t. now' - t < ?w) ip lg" for ip
  proof -
    let ?ts = "case wl_requests rl ip of None \<Rightarrow> [] | Some ts \<Rightarrow> ts"
    have "win_recent now' ?w ?ts = win_recent now' ?w (win_recent now ?w ?ts)" by (rule recent_recent [OF assms(2), symmetric])
    also have "\<dots> = win_recent now' ?w (admitted_in (\<lambda>t. now - t < ?w) ip lg)" using assms(1) by (simp add: s win_tracks_def)
    also have "\<dots> = admitted_in (\<lambda>t. now - t < ?w \<and> now' - t < ?w) ip lg" by (simp add: win_recent_def filter_admitted)
    also have "\<dots> = admitted_in (\<lambda>t. now' - t < ?w) ip lg"
      using assms(2) by (auto simp: admitted_in_def intro!: arg_cong [of _ _ "map fst"] filter_cong)
    finally show ?thesis .
  qed
  with assms show ?thesis by (auto simp: s win_tracks_def)
qed

text \<open>The decision, in terms of the log.\<close>

lemma rl_admit_result:
  assumes "win_tracks now (rl, lg)"
  shows "fst (rl_admit now ip rl) \<longleftrightarrow> int (length (admitted_in (\<lambda>t. now - t < wl_window rl) ip lg)) < wl_limit rl"
    and "wl_limit (snd (rl_admit now ip rl)) = wl_limit rl" "wl_window (snd (rl_admit now ip rl)) = wl_window rl"
    and "win_recent now (wl_window rl) (case wl_requests (snd (rl_admit now ip rl)) i of None \<Rightarrow> [] | Some ts \<Rightarrow> ts) =
      win_recent now (wl_window rl) (case wl_requests rl i of None \<Rightarrow> [] | Some ts \<Rightarrow> ts) @
      (if i = ip \<and> fst (rl_admit now ip rl) \<and> 0 < wl_window rl then [now] else [])"
proof -
  have "win_recent now (wl_window rl) (case wl_requests rl ip of None \<Rightarrow> [] | Some ts \<Rightarrow> ts) =
      admitted_in (\<lambda>t. now - t < wl_window rl) ip lg"
    using assms by (simp add: win_tracks_def)
  then show "fst (rl_admit now ip rl) \<longleftrightarrow> int (length (admitted_in (\<lambda>t. now - t < wl_window rl) ip lg)) < wl_limit rl"
    by (auto simp: rl_admit_def Let_def split: option.splits)
  show "wl_limit (snd (rl_admit now ip rl)) = wl_limit rl" "wl_window (snd (rl_admit now ip rl)) = wl_window rl"
    by (simp_all add: rl_admit_def Let_def)
  have app: "win_recent now w (xs @ [now]) = win_recent now w xs @ (if 0 < w then [now] else [])" for w xs
    by (simp add: win_recent_def)
  show "win_recent now (wl_window rl) (case wl_requests (snd (rl_admit now ip rl)) i of None \<Rightarrow> [] | Some ts \<Rightarrow> ts) =
      win_recent now (wl_window rl) (case wl_requests rl i of None \<Rightarrow> [] | Some ts \<Rightarrow> ts) @
      (if i = ip \<and> fst (rl_admit now ip rl) \<and> 0 < wl_window rl then [now] else [])"
    by (auto simp: rl_admit_def Let_def app recent_recent split: option.splits)
qed

lemma win_step_tracks:
  assumes "win_tracks now s" "now \<le> win_time e"
  shows "win_tracks (win_time e) (win_step e s) \<and> wl_limit (fst (win_step e s)) = wl_limit (fst s) \<and>
    wl_window (fst (win_step e s)) = wl_window (fst s)"
proof -
  obtain rl lg where s: "s = (rl, lg)" by fastforce
  let ?w = "wl_window rl"
  from win_tracks_later [OF assms] have tr: "win_tracks (win_time e) (rl, lg)" by (simp add: s)
  show ?thesis
  proof (cases e)
    case (WinRequest t ip)
    obtain ok rl' where a: "rl_admit t ip rl = (ok, rl')" by fastforce
    have trt: "win_tracks t (rl, lg)" using tr WinRequest by simp
    note res = rl_admit_result [OF trt, of ip, unfolded a fst_conv snd_conv]
    have r: "win_recent t ?w (case wl_requests rl' i of None \<Rightarrow> [] | Some ts \<Rightarrow> ts) =
        admitted_in (\<lambda>x. t - x < ?w) i (if ok then lg @ [(t, ip)] else lg)" for i
      using res(4) [of i] trt by (auto simp: win_tracks_def)
    have b: "int (length (admitted_in (\<lambda>x. a \<le> x \<and> x < a + ?w) i (if ok then lg @ [(t, ip)] else lg))) \<le> max 0 (wl_limit rl)" for a i
    proof (cases "ok \<and> i = ip \<and> a \<le> t \<and> t < a + ?w")
      case True
      have "length (admitted_in (\<lambda>x. a \<le> x \<and> x < a + ?w) ip lg) \<le> length (admitted_in (\<lambda>x. t - x < ?w) ip lg)"
        unfolding admitted_in_def length_map using True by (intro length_filter_le_mono) auto
      with res(1) True show ?thesis by simp
    next
      case False
      then show ?thesis using trt by (auto simp: win_tracks_def)
    qed
    have t: "\<forall>(x, i)\<in>set (if ok then lg @ [(t, ip)] else lg). x \<le> t" using trt by (auto simp: win_tracks_def)
    show ?thesis using r b t res(2,3) by (simp add: WinRequest s a win_tracks_def del: if_image_distrib)
  next
    case (WinTick t)
    have c: "win_recent t ?w (case wl_requests (rl_cleanup t rl) i of None \<Rightarrow> [] | Some ts \<Rightarrow> ts) =
        win_recent t ?w (case wl_requests rl i of None \<Rightarrow> [] | Some ts \<Rightarrow> ts)" for i
      by (auto simp: rl_cleanup_def Let_def recent_recent split: option.splits) (simp_all add: win_recent_def)
    have f: "wl_limit (rl_cleanup t rl) = wl_limit rl" "wl_window (rl_cleanup t rl) = wl_window rl" by (simp_all add: rl_cleanup_def)
    from tr WinTick have "win_tracks t (rl, lg)" by simp
    then show ?thesis by (simp add: WinTick s rl_tick_def win_tracks_def c f)
  next
    case (WinClose t)
    with tr show ?thesis by (simp add: s rl_close_def win_tracks_def)
  qed
qed

lemma win_run_tracks:
  "win_tracks t s \<Longrightarrow> win_ordered t es now \<Longrightarrow>
   win_tracks now (fold win_step es s) \<and> wl_limit (fst (fold win_step es s)) = wl_limit (fst s) \<and>
   wl_window (fst (fold win_step es s)) = wl_window (fst s)"
proof (induction es arbitrary: t s)
  case (Cons e es)
  then have e: "t \<le> win_time e" "win_ordered (win_time e) es now" by simp_all
  from win_step_tracks [OF Cons.prems(1) e(1)] Cons.IH [of "win_time e" "win_step e s"] e(2) show ?case by simp
qed (auto intro: win_tracks_later)

section \<open>Properties\<close>

text \<open>C35 (requests_per_window): whatever requests have arrived and however often old entries have been cleaned up,
  the next request of a client is served exactly when fewer than the limit of its requests have been admitted
  during the last window; so in every period as long as the window at most that many requests of a client are
  served.\<close>

theorem requests_per_window:
  assumes "win_ordered t0 es now" "0 \<le> limit"
  shows "let (rl, lg) = fold win_step es (newRateLimiter limit window, []) in
    (fst (rl_admit now ip rl) \<longleftrightarrow> int (length (admitted_in (\<lambda>t. now - t < window) ip lg)) < limit) \<and>
    int (length (admitted_in (\<lambda>t. a \<le> t \<and> t < a + window) ip lg)) \<le> limit"
proof -
  have "win_tracks t0 (newRateLimiter limit window, [])"
    using assms(2) by (simp add: win_tracks_def newRateLimiter_def win_recent_def)
  from win_run_tracks [OF this assms(1)] obtain rl lg where
    run: "fold win_step es (newRateLimiter limit window, []) = (rl, lg)" and tr: "win_tracks now (rl, lg)"
    and f: "wl_limit rl = limit" "wl_window rl = window"
    by (cases "fold win_step es (newRateLimiter limit window, [])") (auto simp: newRateLimiter_def)
  have "int (length (admitted_in (\<lambda>t. a \<le> t \<and> t < a + window) ip lg)) \<le> limit"
    using tr assms(2) f by (simp add: win_tracks_def)
  then show ?thesis using rl_admit_result(1) [OF tr, of ip] by (simp add: run f)
qed

theorem requests_per_window_witness:
  "fst (rl_admit 61 ''a'' (fst (fold win_step [WinRequest 0 ''a'', WinRequest 1 ''b'', WinRequest 2 ''a'', WinTick 60, WinRequest 60 ''a'']
      (newRateLimiter 2 60, [])))) = False"
proof -
  let ?es = "[WinRequest 0 ''a'', WinRequest 1 ''b'', WinRequest 2 ''a'', WinTick 60, WinRequest 60 ''a'']"
  have "win_ordered 0 ?es 61" by simp
  moreover have "snd (fold win_step ?es (newRateLimiter 2 60, [])) = [(0, ''a''), (1, ''b''), (2, ''a''), (60, ''a'')]"
    by code_simp
  ultimately show ?thesis
    using requests_per_window [of 0 ?es 61 2 60 "''a''"] by (auto simp: admitted_in_def Let_def split: prod.splits simp del: fold_simps)
qed

end
