(* ===== verification/Health.thy ===== *)
theory Health
  imports WebAuth "HOL-Library.AList"
begin

text \<open>
  The health checks of the web server (\<^verbatim>\<open>src/web/health.go\<close>): the three periodic checks, the table of their
  results, the overall status and the endpoints for health, readiness and liveness. What the Docker daemon answers
  within the time limits and the numbers of the Go runtime are arguments. The range over the map of checks visits
  them in an arbitrary order, the argument \<open>order\<close>. The theory shows that the overall status is the worst of the
  checks in every order, when the server is ready, and that \<^verbatim>\<open>/health\<close> never reports a failure by its status code.
\<close>

datatype HealthStatus = Healthy | Degraded | Unhealthy

primrec status_text :: "HealthStatus \<Rightarrow> string" where
  "status_text Healthy = ''healthy''"
| "status_text Degraded = ''degraded''"
| "status_text Unhealthy = ''unhealthy''"

record HealthCheck =
  hk_Name :: string
  hk_Status :: HealthStatus
  hk_Message :: string
  hk_LastChecked :: time
  hk_Duration :: duration

record HealthChecker =
  hc_startTime :: time
  hc_provider :: bool
  hc_version :: string
  hc_checks :: "(string \<times> HealthCheck) list"
  hc_checkInterval :: duration

definition NewHealthChecker :: "time \<Rightarrow> bool \<Rightarrow> string \<Rightarrow> HealthChecker" where
  "NewHealthChecker now provider version =
     \<lparr>hc_startTime = now, hc_provider = provider, hc_version = version, hc_checks = [], hc_checkInterval = 30 * second\<rparr>"

text \<open>The answers of \<^verbatim>\<open>Ping\<close> and \<^verbatim>\<open>Info\<close>, a call that runs into its time limit being an error, and the memory
  statistics.\<close>

record probe =
  pb_Ping :: result
  pb_Info :: "go_error + string \<times> int"
  pb_Alloc :: u64
  pb_Sys :: u64

record system_info =
  si_GoVersion :: string
  si_NumGoroutine :: int
  si_NumCPU :: int
  si_NumGC :: u32

definition put_check :: "HealthCheck \<Rightarrow> HealthChecker \<Rightarrow> HealthChecker" where
  "put_check c hc = hc\<lparr>hc_checks := AList.update (hk_Name c) c (hc_checks hc)\<rparr>"

definition checkDocker :: "time \<Rightarrow> time \<Rightarrow> probe \<Rightarrow> HealthChecker \<Rightarrow> HealthChecker" where
  "checkDocker start stop p hc =
     (let (status, message) =
        (if \<not> hc_provider hc then (Unhealthy, ''Docker provider not initialized'')
         else case pb_Ping p of
           Some err \<Rightarrow> (Unhealthy, ''Docker daemon unreachable: '' @ err_msg err)
         | None \<Rightarrow>
             (case pb_Info p of
                Inl err \<Rightarrow> (Degraded, ''Could not get Docker info: '' @ err_msg err)
              | Inr (version, running) \<Rightarrow>
                  (Healthy, ''Docker '' @ version @ '' running with '' @ show_int running @ '' containers'')))
      in put_check \<lparr>hk_Name = ''docker'', hk_Status = status, hk_Message = message, hk_LastChecked = start,
           hk_Duration = stop - start\<rparr> hc)"

definition checkScheduler :: "time \<Rightarrow> time \<Rightarrow> HealthChecker \<Rightarrow> HealthChecker" where
  "checkScheduler start stop hc =
     put_check \<lparr>hk_Name = ''scheduler'', hk_Status = Healthy, hk_Message = ''Scheduler is operational'',
       hk_LastChecked = start, hk_Duration = stop - start\<rparr> hc"

definition checkSystemResources :: "time \<Rightarrow> time \<Rightarrow> probe \<Rightarrow> HealthChecker \<Rightarrow> HealthChecker" where
  "checkSystemResources start stop p hc =
     (let memoryUsagePercent = real (unat (pb_Alloc p)) / real (unat (pb_Sys p)) * 100;
          (status, message) =
            (if memoryUsagePercent > 90 then (Unhealthy, ''Memory usage critical'')
             else if memoryUsagePercent > 75 then (Degraded, ''Memory usage high'')
             else (Healthy, ''System resources normal''))
      in put_check \<lparr>hk_Name = ''system'', hk_Status = status, hk_Message = message, hk_LastChecked = start,
           hk_Duration = stop - start\<rparr> hc)"

definition performAllChecks :: "time \<Rightarrow> time \<Rightarrow> probe \<Rightarrow> HealthChecker \<Rightarrow> HealthChecker" where
  "performAllChecks start stop p hc =
     checkSystemResources start stop p (checkScheduler start stop (checkDocker start stop p hc))"

text \<open>The loop that determines the overall status; it stops at the first unhealthy check.\<close>

fun overall_status :: "HealthStatus \<Rightarrow> HealthCheck list \<Rightarrow> HealthStatus" where
  "overall_status status [] = status"
| "overall_status status (c # checks) =
     (if hk_Status c = Unhealthy then Unhealthy
      else if hk_Status c = Degraded \<and> status = Healthy then overall_status Degraded checks
      else overall_status status checks)"

definition visited :: "string list \<Rightarrow> HealthChecker \<Rightarrow> HealthCheck list" where
  "visited order hc = List.map_filter (map_of (hc_checks hc)) order"

record HealthResponse =
  hr_Status :: HealthStatus
  hr_Timestamp :: time
  hr_Uptime :: real
  hr_Version :: string
  hr_Checks :: "(string \<times> HealthCheck) list"
  hr_System :: system_info
  hr_MemoryAlloc :: u64
  hr_MemoryTotal :: u64

definition GetHealth :: "string list \<Rightarrow> time \<Rightarrow> probe \<Rightarrow> system_info \<Rightarrow> HealthChecker \<Rightarrow> HealthResponse" where
  "GetHealth order now p si hc =
     \<lparr>hr_Status = overall_status Healthy (visited order hc), hr_Timestamp = now,
      hr_Uptime = Seconds (now - hc_startTime hc), hr_Version = hc_version hc, hr_Checks = hc_checks hc,
      hr_System = si, hr_MemoryAlloc = pb_Alloc p, hr_MemoryTotal = pb_Sys p\<rparr>"

text \<open>The JSON of the answers; \<^verbatim>\<open>omitempty\<close> drops an empty message.\<close>

definition check_json :: "HealthCheck \<Rightarrow> json" where
  "check_json c =
     JObject ([(''name'', JString (hk_Name c)), (''status'', JString (status_text (hk_Status c)))] @
       (if hk_Message c = [] then [] else [(''message'', JString (hk_Message c))]) @
       [(''lastChecked'', JTime (hk_LastChecked c)), (''durationMs'', JInt (hk_Duration c))])"

definition health_json :: "HealthResponse \<Rightarrow> json" where
  "health_json h =
     JObject [(''status'', JString (status_text (hr_Status h))), (''timestamp'', JTime (hr_Timestamp h)),
       (''uptimeSeconds'', JReal (hr_Uptime h)), (''version'', JString (hr_Version h)),
       (''checks'', JObject (map (\<lambda>(n, c). (n, check_json c)) (hr_Checks h))),
       (''system'', JObject [(''goVersion'', JString (si_GoVersion (hr_System h))),
          (''goroutines'', JInt (si_NumGoroutine (hr_System h))), (''cpus'', JInt (si_NumCPU (hr_System h))),
          (''memoryAllocBytes'', JInt (uint (hr_MemoryAlloc h))), (''memoryTotalBytes'', JInt (uint (hr_MemoryTotal h))),
          (''gcRuns'', JInt (uint (si_NumGC (hr_System h))))])]"

definition LivenessHandler :: "response \<Rightarrow> response" where
  "LivenessHandler w = w\<lparr>rs_Status := 200, rs_Body := TextBody ''OK''\<rparr>"

definition ReadinessHandler :: "HealthResponse \<Rightarrow> response \<Rightarrow> response" where
  "ReadinessHandler health w =
     (let statusCode = (if hr_Status health = Unhealthy then 503 else 200)
      in (send_json (health_json health) w)\<lparr>rs_Status := statusCode\<rparr>)"

definition HealthHandler :: "HealthResponse \<Rightarrow> response \<Rightarrow> response" where
  "HealthHandler health w = (send_json (health_json health) w)\<lparr>rs_Status := 200\<rparr>"

section \<open>The worst of the checks\<close>

instantiation HealthStatus :: linorder
begin

definition less_eq_HealthStatus :: "HealthStatus \<Rightarrow> HealthStatus \<Rightarrow> bool" where
  "less_eq_HealthStatus a b \<longleftrightarrow> a = Healthy \<or> b = Unhealthy \<or> a = b"

definition less_HealthStatus :: "HealthStatus \<Rightarrow> HealthStatus \<Rightarrow> bool" where
  "less_HealthStatus a b \<longleftrightarrow> a \<noteq> b \<and> (a = Healthy \<or> b = Unhealthy)"

instance
proof
  fix x y z :: HealthStatus
  show "x < y \<longleftrightarrow> x \<le> y \<and> \<not> y \<le> x" "x \<le> x" "x \<le> y \<or> y \<le> x"
    by (cases x; cases y; simp add: less_eq_HealthStatus_def less_HealthStatus_def)+
  show "x \<le> y \<Longrightarrow> y \<le> z \<Longrightarrow> x \<le> z" "x \<le> y \<Longrightarrow> y \<le> x \<Longrightarrow> x = y"
    by (cases x; cases y; cases z; simp add: less_eq_HealthStatus_def)+
qed

end

lemma status_bounds [simp]: "Healthy \<le> s" "s \<le> Unhealthy" "max Unhealthy s = Unhealthy" "max s Unhealthy = Unhealthy"
  "max Healthy s = s" "max s Healthy = s"
  by (cases s; simp add: less_eq_HealthStatus_def max_def)+

lemma overall_Unhealthy: "overall_status s checks = Unhealthy \<longleftrightarrow> s = Unhealthy \<or> Unhealthy \<in> hk_Status ` set checks"
  by (induction s checks rule: overall_status.induct) auto

lemma overall_Healthy: "overall_status s checks = Healthy \<longleftrightarrow> s = Healthy \<and> hk_Status ` set checks \<subseteq> {Healthy}"
proof (induction s checks rule: overall_status.induct)
  case (2 s c checks)
  then show ?case by (cases "hk_Status c") auto
qed auto

lemma overall_status_worst: "overall_status Healthy checks = Max (insert Healthy (hk_Status ` set checks))"
proof (rule Max_eqI [symmetric])
  let ?m = "overall_status Healthy checks"
  show "?m \<in> insert Healthy (hk_Status ` set checks)"
  proof (cases ?m)
    case Degraded
    have "Unhealthy \<notin> hk_Status ` set checks"
      using overall_Unhealthy [of Healthy checks] unfolding Degraded by simp
    note nu = this
    have "\<not> hk_Status ` set checks \<subseteq> {Healthy}"
      using overall_Healthy [of Healthy checks] unfolding Degraded by (simp only: HealthStatus.distinct simp_thms)
    then obtain x where x: "x \<in> hk_Status ` set checks" "x \<notin> {Healthy}" by (meson subsetI)
    then have "x \<noteq> Healthy" "x \<noteq> Unhealthy" using nu by (simp, metis)
    then have "x = Degraded" by (cases x) simp_all
    with x(1) Degraded show ?thesis by simp
  qed (use overall_Unhealthy [of Healthy checks] in auto)
  show "x \<le> ?m" if "x \<in> insert Healthy (hk_Status ` set checks)" for x
    using that overall_Unhealthy [of Healthy checks] overall_Healthy [of Healthy checks]
    by (cases x; cases ?m) (auto simp: less_eq_HealthStatus_def)
qed simp

lemma memory_percent:
  fixes a b :: nat
  assumes "0 < b"
  shows "90 < real a / real b * 100 \<longleftrightarrow> \<not> 10 * a \<le> 9 * b"
proof -
  have "90 < real a / real b * 100 \<longleftrightarrow> 9 * real b < 10 * real a"
    using assms by (simp add: pos_less_divide_eq mult.commute)
  also have "\<dots> \<longleftrightarrow> real (9 * b) < real (10 * a)" by simp
  finally show ?thesis by (simp only: of_nat_less_iff not_le)
qed

section \<open>Properties\<close>

lemma set_visited: "set order = fst ` set (hc_checks hc) \<Longrightarrow> set (visited order hc) = ran (map_of (hc_checks hc))"
  by (force simp: visited_def List.map_filter_def ran_def dom_map_of_conv_image_fst [symmetric] dom_def)

lemma ReadinessHandler_status:
  "rs_Status (ReadinessHandler (GetHealth order now p si hc) w) =
     (if Unhealthy \<in> hk_Status ` set (visited order hc) then 503 else 200)"
  by (simp add: GetHealth_def ReadinessHandler_def Let_def overall_Unhealthy)

text \<open>(health_is_the_worst_check): in whatever order the range over the map visits the checks, the overall status
  is the worst of them, healthy when there is none yet; \<^verbatim>\<open>/ready\<close> answers 503 exactly when a check is unhealthy,
  and \<^verbatim>\<open>/health\<close> and \<^verbatim>\<open>/live\<close> answer 200 whatever the checks say.\<close>

theorem health_is_the_worst_check:
  assumes "set order = fst ` set (hc_checks hc)"
  shows "let h = GetHealth order now p si hc in
    hr_Status h = Max (insert Healthy (hk_Status ` ran (map_of (hc_checks hc)))) \<and>
    rs_Status (ReadinessHandler h w) = (if Unhealthy \<in> hk_Status ` ran (map_of (hc_checks hc)) then 503 else 200) \<and>
    rs_Status (HealthHandler h w) = 200 \<and> rs_Status (LivenessHandler w) = 200"
  unfolding Let_def ReadinessHandler_status set_visited [OF assms]
  by (simp add: GetHealth_def HealthHandler_def LivenessHandler_def overall_status_worst set_visited [OF assms])

lemma checkDocker_put:
  "\<exists>m. checkDocker start stop p hc = put_check \<lparr>hk_Name = ''docker'',
     hk_Status = (if \<not> hc_provider hc \<or> pb_Ping p \<noteq> None then Unhealthy
                  else if \<exists>e. pb_Info p = Inl e then Degraded else Healthy),
     hk_Message = m, hk_LastChecked = start, hk_Duration = stop - start\<rparr> hc"
  by (auto simp: checkDocker_def Let_def split: option.splits sum.splits)

lemma checkSystemResources_put:
  "\<exists>m. checkSystemResources start stop p hc = put_check \<lparr>hk_Name = ''system'',
     hk_Status = (if real (unat (pb_Alloc p)) / real (unat (pb_Sys p)) * 100 > 90 then Unhealthy
                  else if real (unat (pb_Alloc p)) / real (unat (pb_Sys p)) * 100 > 75 then Degraded else Healthy),
     hk_Message = m, hk_LastChecked = start, hk_Duration = stop - start\<rparr> hc"
  by (auto simp: checkSystemResources_def Let_def)

lemma put_check_frame [simp]: "hc_provider (put_check c hc) = hc_provider hc"
  by (simp add: put_check_def)

lemma put_three:
  assumes "hc_checks hc = [] \<or> map fst (hc_checks hc) = [''docker'', ''scheduler'', ''system'']"
    "hk_Name a = ''docker''" "hk_Name b = ''scheduler''" "hk_Name c = ''system''"
  shows "hc_checks (put_check c (put_check b (put_check a hc))) = [(''docker'', a), (''scheduler'', b), (''system'', c)]"
  using assms by (auto simp: put_check_def map_eq_Cons_conv)

lemma performed_checks:
  assumes "hc_checks hc = [] \<or> map fst (hc_checks hc) = [''docker'', ''scheduler'', ''system'']"
  shows "map fst (hc_checks (performAllChecks start stop p hc)) = [''docker'', ''scheduler'', ''system'']"
    "map (hk_Status \<circ> snd) (hc_checks (performAllChecks start stop p hc)) =
      [if \<not> hc_provider hc \<or> pb_Ping p \<noteq> None then Unhealthy else if \<exists>e. pb_Info p = Inl e then Degraded else Healthy,
       Healthy,
       if real (unat (pb_Alloc p)) / real (unat (pb_Sys p)) * 100 > 90 then Unhealthy
       else if real (unat (pb_Alloc p)) / real (unat (pb_Sys p)) * 100 > 75 then Degraded else Healthy]"
    "hc_provider (performAllChecks start stop p hc) = hc_provider hc"
proof -
  obtain m1 where d: "checkDocker start stop p hc = put_check \<lparr>hk_Name = ''docker'',
     hk_Status = (if \<not> hc_provider hc \<or> pb_Ping p \<noteq> None then Unhealthy
                  else if \<exists>e. pb_Info p = Inl e then Degraded else Healthy),
     hk_Message = m1, hk_LastChecked = start, hk_Duration = stop - start\<rparr> hc"
    using checkDocker_put by blast
  let ?hc2 = "checkScheduler start stop (checkDocker start stop p hc)"
  obtain m3 where s: "checkSystemResources start stop p ?hc2 = put_check \<lparr>hk_Name = ''system'',
     hk_Status = (if real (unat (pb_Alloc p)) / real (unat (pb_Sys p)) * 100 > 90 then Unhealthy
                  else if real (unat (pb_Alloc p)) / real (unat (pb_Sys p)) * 100 > 75 then Degraded else Healthy),
     hk_Message = m3, hk_LastChecked = start, hk_Duration = stop - start\<rparr> ?hc2"
    using checkSystemResources_put by blast
  show "map fst (hc_checks (performAllChecks start stop p hc)) = [''docker'', ''scheduler'', ''system'']"
    unfolding performAllChecks_def s unfolding checkScheduler_def d by (subst put_three [OF assms]) simp_all
  show "map (hk_Status \<circ> snd) (hc_checks (performAllChecks start stop p hc)) =
      [if \<not> hc_provider hc \<or> pb_Ping p \<noteq> None then Unhealthy else if \<exists>e. pb_Info p = Inl e then Degraded else Healthy,
       Healthy,
       if real (unat (pb_Alloc p)) / real (unat (pb_Sys p)) * 100 > 90 then Unhealthy
       else if real (unat (pb_Alloc p)) / real (unat (pb_Sys p)) * 100 > 75 then Degraded else Healthy]"
    unfolding performAllChecks_def s unfolding checkScheduler_def d by (subst put_three [OF assms]) simp_all
  show "hc_provider (performAllChecks start stop p hc) = hc_provider hc" unfolding performAllChecks_def s unfolding checkScheduler_def d by simp
qed

text \<open>(ready_after_checks): once the periodic checks have run, the server is ready exactly when there is a Docker
  provider, its last ping was answered in time and at most nine tenths of the memory obtained from the system is
  allocated; before the first run it counts as ready.\<close>

theorem ready_after_checks:
  assumes "hc = NewHealthChecker t0 provider version"
    "set order = {''docker'', ''scheduler'', ''system''}" "0 < pb_Sys p"
  shows "rs_Status (ReadinessHandler (GetHealth order now p si (performAllChecks start stop p (performAllChecks t1 t2 q hc))) w) =
      (if provider \<and> pb_Ping p = None \<and> 10 * unat (pb_Alloc p) \<le> 9 * unat (pb_Sys p) then 200 else 503) \<and>
    rs_Status (ReadinessHandler (GetHealth [] now p si hc) w) = 200"
proof -
  let ?hc1 = "performAllChecks t1 t2 q hc"
  let ?hc2 = "performAllChecks start stop p ?hc1"
  have e: "hc_checks hc = []" and pr: "hc_provider hc = provider" using assms(1) by (simp_all add: NewHealthChecker_def)
  have pr1: "hc_provider ?hc1 = provider" using performed_checks(3) [of hc] e pr by simp
  have f1: "map fst (hc_checks ?hc1) = [''docker'', ''scheduler'', ''system'']" using performed_checks(1) [of hc] e by simp
  note c2 = performed_checks(1,2) [OF disjI2 [OF f1], of start stop p]
  have keys: "fst ` set (hc_checks ?hc2) = {''docker'', ''scheduler'', ''system''}"
    using arg_cong [OF c2(1), of set] by simp
  have dist: "distinct (map fst (hc_checks ?hc2))" unfolding c2(1) by simp
  have "ran (map_of (hc_checks ?hc2)) = snd ` set (hc_checks ?hc2)" by (rule ran_distinct [OF dist])
  then have st: "hk_Status ` ran (map_of (hc_checks ?hc2)) = set (map (hk_Status \<circ> snd) (hc_checks ?hc2))"
    by (simp add: image_comp)
  have "0 < unat (pb_Sys p)" using assms(3) by (simp add: word_less_nat_alt)
  then have mem: "real (unat (pb_Alloc p)) / real (unat (pb_Sys p)) * 100 > 90 \<longleftrightarrow> \<not> 10 * unat (pb_Alloc p) \<le> 9 * unat (pb_Sys p)"
    by (rule memory_percent)
  have u: "Unhealthy \<in> set (map (hk_Status \<circ> snd) (hc_checks ?hc2)) \<longleftrightarrow>
      \<not> provider \<or> pb_Ping p \<noteq> None \<or> \<not> 10 * unat (pb_Alloc p) \<le> 9 * unat (pb_Sys p)"
    unfolding c2(2) mem pr1 by (auto split: if_splits)
  have "set (visited order ?hc2) = ran (map_of (hc_checks ?hc2))" using assms(2) keys by (intro set_visited) simp
  then show ?thesis
    unfolding ReadinessHandler_status using st u by (auto simp: visited_def List.map_filter_def)
qed

definition demo_probe :: probe where
  "demo_probe = \<lparr>pb_Ping = None, pb_Info = Inr (''28.0'', 3), pb_Alloc = 95, pb_Sys = 100\<rparr>"

definition demo_system :: system_info where
  "demo_system = \<lparr>si_GoVersion = ''go1.26'', si_NumGoroutine = 9, si_NumCPU = 4, si_NumGC = 2\<rparr>"

theorem health_is_the_worst_check_witness:
  "hr_Status (GetHealth [''x''] 9 demo_probe demo_system
     (put_check \<lparr>hk_Name = ''x'', hk_Status = Degraded, hk_Message = [], hk_LastChecked = 1, hk_Duration = 1\<rparr> (NewHealthChecker 0 True ''1'')))
   = Degraded"
  using health_is_the_worst_check [of "[''x'']"
      "put_check \<lparr>hk_Name = ''x'', hk_Status = Degraded, hk_Message = [], hk_LastChecked = 1, hk_Duration = 1\<rparr> (NewHealthChecker 0 True ''1'')"
      9 demo_probe demo_system]
  by (simp add: put_check_def NewHealthChecker_def Let_def max_def less_eq_HealthStatus_def)

theorem ready_after_checks_witness:
  "rs_Status (ReadinessHandler (GetHealth [''system'', ''docker'', ''scheduler''] 9 demo_probe demo_system
     (performAllChecks 5 6 demo_probe (performAllChecks 1 2 demo_probe (NewHealthChecker 0 True ''1'')))) fresh_response) = 503"
proof -
  have pos: "0 < pb_Sys demo_probe" and m: "\<not> 10 * unat (pb_Alloc demo_probe) \<le> 9 * unat (pb_Sys demo_probe)"
    by (simp_all add: demo_probe_def)
  have "set [''system'', ''docker'', ''scheduler''] = {''docker'', ''scheduler'', ''system''}" by auto
  from ready_after_checks [OF refl this pos] m show ?thesis by (simp only: if_False simp_thms)
qed

end
