(* ===== verification/WebServer.thy ===== *)
theory WebServer
  imports Registry Sanitizer CommandJob WebLimit Health
begin

text \<open>
  The web server (\<^verbatim>\<open>src/web/server.go\<close>): the routes, the chain of middlewares, the handlers that list and change
  the jobs of the scheduler, and the handlers of sessions. The server works on the scheduler of the theory
  \<open>Scheduler\<close>; a job created through the interface is a new object, whose reference is the argument \<open>we_new\<close>. The
  dynamic type and the own fields of the object behind a reference are \<open>sv_objects\<close>, its history is \<open>sv_logs\<close>. The
  JSON decoder and encoder, the file server, the argument parser and what go-cron knows of an entry are parameters.
  \<^verbatim>\<open>http.ServeMux\<close> is modelled for paths without percent encoding, including its redirect to the clean form of a path.

  The theory shows that with authentication nothing changes without a valid token, that the handlers implement the
  abstract map of jobs with the status codes of its errors, that a session ends with its log-out, and where jobs
  created, updated or shown by the interface differ from those of the configuration.
\<close>

section \<open>State\<close>

datatype job_object =
    ObRun RunJob_conf | ObExec ExecJob_conf | ObLocal LocalJob | ObCompose ComposeJob | ObService | ObOther string

text \<open>The configuration object that the handlers read by reflection: a struct, behind a pointer or not, with the
  \<^verbatim>\<open>JobSource\<close> of the jobs in each of its fields (\<^term>\<open>None\<close> for a job type without this field).\<close>

record cfg_struct =
  cs_pointer :: bool
  cs_jobs :: "string \<Rightarrow> (string \<rightharpoonup> string option) option"
  cs_rest :: json

datatype web_config = NilConfig | ScalarConfig json | StructConfig cfg_struct

record ('c, 'w, 'l) Server =
  sv_scheduler :: "('c, 'w) Scheduler"
  sv_objects :: "ref \<Rightarrow> job_object"
  sv_logs :: "ref \<Rightarrow> job_log"
  sv_config :: web_config
  sv_origins :: "string \<rightharpoonup> string"
  sv_provider :: bool
  sv_authConfig :: "SecureAuthConfig option"
  sv_tokenManager :: "SecureTokenManager option"
  sv_loginLimiter :: "'l login_limiter"
  sv_rl :: window_limiter
  sv_trustedProxies :: "ip_net list"
  sv_health :: "HealthChecker option"

text \<open>The body of a job request after decoding.\<close>

record jobRequest =
  jr_Name :: string
  jr_Type :: string
  jr_Schedule :: string
  jr_Command :: string
  jr_Image :: string
  jr_Container :: string
  jr_File :: string
  jr_Service :: string
  jr_ExecFlag :: bool

text \<open>The schedule of a valid entry: whether it is triggered only, and its next and previous runs (\<^term>\<open>[]\<close> also for
  a nil slice).\<close>

record entry_schedule =
  es_IsTriggered :: bool
  es_NextN :: "time \<Rightarrow> nat \<Rightarrow> time list"
  es_PrevN :: "time \<Rightarrow> nat \<Rightarrow> time list"

record ('c, 'l) web_env =
  we_cron :: "'c cron_api"
  we_login :: "'l login_env"
  we_decode :: "string \<Rightarrow> jobRequest option"
  we_GetArgs :: "string \<Rightarrow> string list"
  we_new :: ref
  we_static :: "string \<Rightarrow> response \<Rightarrow> response"
  we_entry :: "'c \<Rightarrow> string \<Rightarrow> entry_schedule option"
  we_IsJobRunning :: "'c \<Rightarrow> string \<Rightarrow> bool"
  we_marshal :: "job_object \<Rightarrow> string \<times> string \<times> string \<Rightarrow> json"
  we_config_json :: "web_config \<Rightarrow> json"
  we_health_order :: "string list"
  we_probe :: probe
  we_system :: system_info

definition auth_enabled :: "('c, 'w, 'l) Server \<Rightarrow> bool" where
  "auth_enabled sv = (case sv_authConfig sv of None \<Rightarrow> False | Some a \<Rightarrow> ac_Enabled a)"

text \<open>\<^verbatim>\<open>NewServerWithAuth\<close>: no server when the key cannot be generated; proxies that do not parse are logged and
  ignored.\<close>

definition NewServerWithAuth ::
  "go_error + string \<Rightarrow> ('c, 'w) Scheduler \<Rightarrow> (ref \<Rightarrow> job_object) \<Rightarrow> (ref \<Rightarrow> job_log) \<Rightarrow> web_config \<Rightarrow> bool \<Rightarrow>
   SecureAuthConfig option \<Rightarrow> ('c, 'w, 'l) Server option" where
  "NewServerWithAuth random s objs logs cfg provider authCfg =
     (let base = \<lparr>sv_scheduler = s, sv_objects = objs, sv_logs = logs, sv_config = cfg, sv_origins = Map.empty,
                  sv_provider = provider, sv_authConfig = authCfg, sv_tokenManager = None,
                  sv_loginLimiter = new_login_limiter 0 0, sv_rl = newRateLimiter 100 minute, sv_trustedProxies = [],
                  sv_health = None\<rparr>
      in case authCfg of
           None \<Rightarrow> Some base
         | Some a \<Rightarrow>
             if \<not> ac_Enabled a then Some base
             else
               (case NewSecureTokenManager random (ac_SecretKey a) (if ac_TokenExpiry a = 0 then 24 else ac_TokenExpiry a) of
                  Inl _ \<Rightarrow> None
                | Inr tm \<Rightarrow>
                    let maxAttempts = (if ac_MaxAttempts a = 0 then 5 else ac_MaxAttempts a);
                        nets = (case ParseTrustedProxies (ac_TrustedProxies a) of Inl _ \<Rightarrow> [] | Inr ns \<Rightarrow> ns)
                    in Some (base\<lparr>sv_tokenManager := Some tm, sv_loginLimiter := new_login_limiter maxAttempts maxAttempts,
                                  sv_trustedProxies := nets,
                                  sv_rl := (newRateLimiter 100 minute)\<lparr>wl_trustedProxies := nets\<rparr>\<rparr>)))"

text \<open>The limiter starts anew when the endpoints for health are added.\<close>

definition RegisterHealthEndpoints :: "HealthChecker \<Rightarrow> ('c, 'w, 'l) Server \<Rightarrow> ('c, 'w, 'l) Server" where
  "RegisterHealthEndpoints hc sv =
     sv\<lparr>sv_health := Some hc, sv_rl := (newRateLimiter 100 minute)\<lparr>wl_trustedProxies := sv_trustedProxies sv\<rparr>\<rparr>"

definition web_Shutdown :: "result \<Rightarrow> ('c, 'w, 'l) Server \<Rightarrow> result \<times> ('c, 'w, 'l) Server" where
  "web_Shutdown srvErr sv =
     (map_option (\<lambda>err. Errorf [Lit ''shutdown http server: '', Wrap err]) srvErr,
      sv\<lparr>sv_rl := rl_close (sv_rl sv), sv_tokenManager := map_option tm_Close (sv_tokenManager sv)\<rparr>)"

section \<open>What is shown of a job\<close>

record apiExecution =
  ax_Date :: time
  ax_Duration :: duration
  ax_Failed :: bool
  ax_Skipped :: bool
  ax_Error :: string
  ax_Stdout :: string
  ax_Stderr :: string

record apiJob =
  aj_Name :: string
  aj_Type :: string
  aj_Schedule :: string
  aj_Command :: string
  aj_Running :: bool
  aj_LastRun :: "apiExecution option"
  aj_NextRuns :: "time list"
  aj_PrevRuns :: "time list"
  aj_Origin :: string
  aj_Config :: json

definition job_fields :: "string list" where
  "job_fields = [''RunJobs'', ''ExecJobs'', ''ServiceJobs'', ''LocalJobs'', ''ComposeJobs'']"

fun cfg_origin :: "cfg_struct \<Rightarrow> string list \<Rightarrow> string \<Rightarrow> string" where
  "cfg_origin c [] name = []"
| "cfg_origin c (f # fs) name =
     (case cs_jobs c f of
        None \<Rightarrow> cfg_origin c fs name
      | Some m \<Rightarrow>
          (case m name of
             Some (Some src) \<Rightarrow> src
           | _ \<Rightarrow> cfg_origin c fs name))"

definition config_origin :: "web_config \<Rightarrow> string \<Rightarrow> string" where
  "config_origin cfg name =
     (case cfg of NilConfig \<Rightarrow> [] | ScalarConfig _ \<Rightarrow> [] | StructConfig c \<Rightarrow> cfg_origin c job_fields name)"

definition jobOrigin :: "string \<Rightarrow> ('c, 'w, 'l) Server \<Rightarrow> string" where
  "jobOrigin name sv = (case sv_origins sv name of Some origin \<Rightarrow> origin | None \<Rightarrow> config_origin (sv_config sv) name)"

fun jobType :: "job_object \<Rightarrow> string" where
  "jobType (ObRun _) = ''run''"
| "jobType (ObExec _) = ''exec''"
| "jobType (ObLocal _) = ''local''"
| "jobType ObService = ''service''"
| "jobType (ObCompose _) = ''compose''"
| "jobType (ObOther name) = ToLower name"

definition api_execution :: "execution \<Rightarrow> apiExecution" where
  "api_execution e =
     \<lparr>ax_Date = e_Date e, ax_Duration = e_Duration e, ax_Failed = e_Failed e, ax_Skipped = e_Skipped e,
      ax_Error = (case e_Error e of None \<Rightarrow> [] | Some err \<Rightarrow> err_msg err),
      ax_Stdout = GetStdout e, ax_Stderr = GetStderr e\<rparr>"

definition api_job :: "('c, 'l) web_env \<Rightarrow> time \<Rightarrow> ('c, 'w, 'l) Server \<Rightarrow> ref \<Rightarrow> apiJob" where
  "api_job we now sv r =
     (let s = sv_scheduler sv; j = s_heap s r; name = bj_Name j;
          runs = (\<lambda>f. if GetDisabledJob name s \<noteq> None then []
                       else case we_entry we (s_cron s) name of
                              None \<Rightarrow> []
                            | Some es \<Rightarrow> if es_IsTriggered es then [] else f es now (5 :: nat))
      in \<lparr>aj_Name = name, aj_Type = jobType (sv_objects sv r), aj_Schedule = bj_Schedule j, aj_Command = bj_Command j,
          aj_Running = we_IsJobRunning we (s_cron s) name,
          aj_LastRun = map_option api_execution (GetLastRun (sv_logs sv r)),
          aj_NextRuns = runs es_NextN, aj_PrevRuns = runs es_PrevN, aj_Origin = jobOrigin name sv,
          aj_Config = we_marshal we (sv_objects sv r) (name, bj_Schedule j, bj_Command j)\<rparr>)"

definition buildAPIJobs :: "('c, 'l) web_env \<Rightarrow> time \<Rightarrow> ('c, 'w, 'l) Server \<Rightarrow> ref list \<Rightarrow> apiJob list" where
  "buildAPIJobs we now sv list = map (api_job we now sv) list"

definition execution_json :: "apiExecution \<Rightarrow> json" where
  "execution_json e =
     JObject ([(''date'', JTime (ax_Date e)), (''duration'', JInt (ax_Duration e)), (''failed'', JBool (ax_Failed e)),
               (''skipped'', JBool (ax_Skipped e))] @
              (if ax_Error e = [] then [] else [(''error'', JString (ax_Error e))]) @
              [(''stdout'', JString (ax_Stdout e)), (''stderr'', JString (ax_Stderr e))])"

definition job_json :: "apiJob \<Rightarrow> json" where
  "job_json j =
     JObject ([(''name'', JString (aj_Name j)), (''type'', JString (aj_Type j)), (''schedule'', JString (aj_Schedule j)),
               (''command'', JString (aj_Command j)), (''running'', JBool (aj_Running j))] @
              (case aj_LastRun j of None \<Rightarrow> [] | Some e \<Rightarrow> [(''lastRun'', execution_json e)]) @
              [(''nextRuns'', JList (map JTime (aj_NextRuns j))), (''prevRuns'', JList (map JTime (aj_PrevRuns j))),
               (''origin'', JString (aj_Origin j)), (''config'', aj_Config j)])"

definition list_handler :: "('c, 'l) web_env \<Rightarrow> time \<Rightarrow> ref list \<Rightarrow> response \<Rightarrow> ('c, 'w, 'l) Server \<Rightarrow> response" where
  "list_handler we now list w sv = send_json (JList (map job_json (buildAPIJobs we now sv list))) w"

definition jobsHandler :: "('c, 'l) web_env \<Rightarrow> time \<Rightarrow> response \<Rightarrow> ('c, 'w, 'l) Server \<Rightarrow> response" where
  "jobsHandler we now w sv = list_handler we now (GetActiveJobs (sv_scheduler sv)) w sv"

definition removedJobsHandler :: "('c, 'l) web_env \<Rightarrow> time \<Rightarrow> response \<Rightarrow> ('c, 'w, 'l) Server \<Rightarrow> response" where
  "removedJobsHandler we now w sv = list_handler we now (GetRemovedJobs (sv_scheduler sv)) w sv"

definition disabledJobsHandler :: "('c, 'l) web_env \<Rightarrow> time \<Rightarrow> response \<Rightarrow> ('c, 'w, 'l) Server \<Rightarrow> response" where
  "disabledJobsHandler we now w sv = list_handler we now (GetDisabledJobs (sv_scheduler sv)) w sv"

definition historyHandler :: "request \<Rightarrow> response \<Rightarrow> ('c, 'w, 'l) Server \<Rightarrow> response" where
  "historyHandler r w sv =
     (if \<not> HasSuffix (rq_Path r) ''/history'' then http_Error ''404 page not found'' 404 w
      else
        let name = TrimSuffix (TrimPrefix (rq_Path r) ''/api/jobs/'') ''/history''
        in case GetAnyJob name (sv_scheduler sv) of
             None \<Rightarrow> http_Error ''404 page not found'' 404 w
           | Some target \<Rightarrow>
               send_json (JList (map (execution_json \<circ> api_execution) (GetHistory (sv_logs sv target)))) w)"

text \<open>\<^verbatim>\<open>stripJobs\<close> empties the job fields of a copy.\<close>

definition stripJobs :: "web_config \<Rightarrow> web_config" where
  "stripJobs cfg =
     (case cfg of
        StructConfig c \<Rightarrow>
          StructConfig (c\<lparr>cs_jobs := (\<lambda>f. if f \<in> set job_fields then map_option (\<lambda>_. Map.empty) (cs_jobs c f) else cs_jobs c f)\<rparr>)
      | other \<Rightarrow> other)"

definition configHandler :: "('c, 'l) web_env \<Rightarrow> response \<Rightarrow> ('c, 'w, 'l) Server \<Rightarrow> response" where
  "configHandler we w sv = send_json (we_config_json we (stripJobs (sv_config sv))) w"

section \<open>Changing jobs\<close>

definition validateJobName :: "string \<Rightarrow> string option" where
  "validateJobName name =
     (if name = [] then Some ''job name must not be empty''
      else if length name > 256 then Some ''job name exceeds maximum length of 256 characters''
      else if list_ex (\<lambda>c. (of_char c :: nat) < 32 \<or> (of_char c :: nat) = 127) name
      then Some ''job name contains invalid control character''
      else None)"

text \<open>The common start of the handlers that change jobs: the request, or the response that refuses it.\<close>

definition decode_request :: "('c, 'l) web_env \<Rightarrow> request \<Rightarrow> response \<Rightarrow> response + jobRequest" where
  "decode_request we r w =
     (if rq_Method r \<noteq> ''POST'' then Inl (http_Error ''method not allowed'' 405 w)
      else case we_decode we (rq_Body r) of
             None \<Rightarrow> Inl (http_Error ''invalid request body'' 400 w)
           | Some req \<Rightarrow>
               (case validateJobName (jr_Name req) of
                  Some msg \<Rightarrow> Inl (http_Error msg 400 w)
                | None \<Rightarrow> Inr req))"

definition write_status :: "nat \<Rightarrow> response \<Rightarrow> response" where
  "write_status code w = w\<lparr>rs_Status := code\<rparr>"

definition with_sched :: "('c, 'w, 'l) Server \<Rightarrow> ('c, 'w) Scheduler \<Rightarrow> ('c, 'w, 'l) Server" where
  "with_sched sv s = sv\<lparr>sv_scheduler := s\<rparr>"

definition runJobHandler ::
  "('c, 'l) web_env \<Rightarrow> request \<Rightarrow> response \<Rightarrow> ('c, 'w, 'l) Server \<Rightarrow> response \<times> ('c, 'w, 'l) Server" where
  "runJobHandler we r w sv =
     (case decode_request we r w of
        Inl w' \<Rightarrow> (w', sv)
      | Inr req \<Rightarrow>
          (case RunJob (we_cron we) (jr_Name req) (sv_scheduler sv) of
             (Some err, s) \<Rightarrow>
               (if errors_Is err ErrJobNotFound then http_Error ''job not found'' 404 w
                else http_Error ''failed to run job'' 500 w, with_sched sv s)
           | (None, s) \<Rightarrow> (write_status 204 w, with_sched sv s)))"

definition toggleJobHandler ::
  "('c, 'l) web_env \<Rightarrow> request \<Rightarrow> response \<Rightarrow> (string \<Rightarrow> ('c, 'w) Scheduler \<Rightarrow> result \<times> ('c, 'w) Scheduler) \<Rightarrow> string \<Rightarrow>
   ('c, 'w, 'l) Server \<Rightarrow> response \<times> ('c, 'w, 'l) Server" where
  "toggleJobHandler we r w toggle action sv =
     (case decode_request we r w of
        Inl w' \<Rightarrow> (w', sv)
      | Inr req \<Rightarrow>
          (case toggle (jr_Name req) (sv_scheduler sv) of
             (Some err, s) \<Rightarrow>
               (if errors_Is err ErrJobNotFound then http_Error ''job not found'' 404 w
                else http_Error (''failed to '' @ action @ '' job'') 500 w, with_sched sv s)
           | (None, s) \<Rightarrow> (write_status 204 w, with_sched sv s)))"

definition disableJobHandler ::
  "('c, 'l) web_env \<Rightarrow> request \<Rightarrow> response \<Rightarrow> ('c, 'w, 'l) Server \<Rightarrow> response \<times> ('c, 'w, 'l) Server" where
  "disableJobHandler we r w sv = toggleJobHandler we r w (DisableJob (we_cron we)) ''disable'' sv"

definition enableJobHandler ::
  "('c, 'l) web_env \<Rightarrow> request \<Rightarrow> response \<Rightarrow> ('c, 'w, 'l) Server \<Rightarrow> response \<times> ('c, 'w, 'l) Server" where
  "enableJobHandler we r w sv = toggleJobHandler we r w (EnableJob (we_cron we)) ''enable'' sv"

text \<open>The objects that \<^verbatim>\<open>jobFromRequest\<close> builds: fields that are not set have their zero values.\<close>

definition zero_run :: RunJob_conf where
  "zero_run = \<lparr>rj_Name = [], rj_Command = [], rj_User = [], rj_ContainerName = None, rj_TTY = False, rj_Delete = [],
     rj_Pull = [], rj_Image = [], rj_Network = [], rj_Hostname = [], rj_Entrypoint = None, rj_Container = [], rj_Volume = [],
     rj_VolumesFrom = [], rj_Environment = [], rj_EnvFile = [], rj_EnvFrom = [], rj_WorkingDir = [], rj_Annotations = [],
     rj_MaxRuntime = 0\<rparr>"

definition zero_exec :: ExecJob_conf where
  "zero_exec = \<lparr>ej_Command = [], ej_Container = [], ej_User = [], ej_TTY = False, ej_Environment = [], ej_EnvFile = [],
     ej_EnvFrom = [], ej_WorkingDir = [], ej_Privileged = False\<rparr>"

definition check_command :: "(string \<Rightarrow> string list) \<Rightarrow> string \<Rightarrow> result" where
  "check_command GetArgs cmd =
     (if cmd \<noteq> []
      then map_option (\<lambda>err. Errorf [Lit ''invalid command arguments: '', Wrap err]) (ValidateCommandArgs (GetArgs cmd))
      else None)"

definition jobFromRequest :: "(string \<Rightarrow> string list) \<Rightarrow> bool \<Rightarrow> jobRequest \<Rightarrow> go_error + job_object" where
  "jobFromRequest GetArgs provider req =
     (if jr_Type req = ''run''
      then (if \<not> provider then Inl (Errorf [Lit ''docker provider unavailable for run job''])
            else Inr (ObRun (zero_run\<lparr>rj_Name := jr_Name req, rj_Command := jr_Command req, rj_Image := jr_Image req,
                                      rj_Container := jr_Container req\<rparr>)))
      else if jr_Type req = ''exec''
      then (if \<not> provider then Inl (Errorf [Lit ''docker provider unavailable for exec job''])
            else Inr (ObExec (zero_exec\<lparr>ej_Command := jr_Command req, ej_Container := jr_Container req\<rparr>)))
      else if jr_Type req = ''compose''
      then (case (if jr_File req \<noteq> [] then ValidateFilePath (jr_File req) else None) of
              Some err \<Rightarrow> Inl (Errorf [Lit ''invalid compose file path: '', Wrap err])
            | None \<Rightarrow>
                case ValidateServiceName (jr_Service req) of
                  Some err \<Rightarrow> Inl (Errorf [Lit ''invalid service name: '', Wrap err])
                | None \<Rightarrow>
                    case check_command GetArgs (jr_Command req) of
                      Some err \<Rightarrow> Inl err
                    | None \<Rightarrow> Inr (ObCompose \<lparr>cj_Command = jr_Command req, cj_File = jr_File req,
                                             cj_Service = jr_Service req, cj_Exec = jr_ExecFlag req\<rparr>))
      else if jr_Type req \<in> {[], ''local''}
      then (case check_command GetArgs (jr_Command req) of
              Some err \<Rightarrow> Inl err
            | None \<Rightarrow> Inr (ObLocal \<lparr>lj_Command = jr_Command req, lj_Dir = [], lj_Environment = [], lj_EnvFile = [],
                                   lj_EnvFrom = []\<rparr>))
      else Inl (Errorf [Lit ''unknown job type '', Quoted (jr_Type req)]))"

definition bare_of_request :: "jobRequest \<Rightarrow> 'w bare_job" where
  "bare_of_request req =
     \<lparr>bj_Schedule = jr_Schedule req, bj_Name = jr_Name req, bj_Command = jr_Command req, bj_RunOnStartup = False,
      bj_Dependencies = [], bj_OnSuccess = [], bj_OnFailure = [], bj_mws = empty_container, bj_cronID = 0\<rparr>"

text \<open>The new object at its reference, with an empty history without a limit.\<close>

definition alloc_job :: "ref \<Rightarrow> jobRequest \<Rightarrow> job_object \<Rightarrow> ('c, 'w, 'l) Server \<Rightarrow> ('c, 'w, 'l) Server" where
  "alloc_job new req ob sv =
     (let s = sv_scheduler sv
      in sv\<lparr>sv_scheduler := s\<lparr>s_heap := (s_heap s)(new := bare_of_request req)\<rparr>,
            sv_objects := (sv_objects sv)(new := ob), sv_logs := (sv_logs sv)(new := new_log 0)\<rparr>)"

definition set_origin :: "request \<Rightarrow> string \<Rightarrow> ('c, 'w, 'l) Server \<Rightarrow> ('c, 'w, 'l) Server" where
  "set_origin r name sv =
     (let h = rq_Header r ''X-Origin''; origin = (if h = [] then ''api'' else h)
      in sv\<lparr>sv_origins := (sv_origins sv)(name \<mapsto> origin)\<rparr>)"

definition createJobHandler ::
  "('c, 'l) web_env \<Rightarrow> request \<Rightarrow> response \<Rightarrow> ('c, 'w, 'l) Server \<Rightarrow> response \<times> ('c, 'w, 'l) Server" where
  "createJobHandler we r w sv =
     (case decode_request we r w of
        Inl w' \<Rightarrow> (w', sv)
      | Inr req \<Rightarrow>
          (case jobFromRequest (we_GetArgs we) (sv_provider sv) req of
             Inl err \<Rightarrow> (http_Error (err_msg err) 400 w, sv)
           | Inr ob \<Rightarrow>
               let sv1 = alloc_job (we_new we) req ob sv in
               (case AddJobWithTags (we_cron we) (we_new we) [] (sv_scheduler sv1) of
                  (Some _, s) \<Rightarrow> (http_Error ''failed to create job'' 400 w, with_sched sv1 s)
                | (None, s) \<Rightarrow> (write_status 201 w, set_origin r (jr_Name req) (with_sched sv1 s)))))"

definition updateJobHandler ::
  "('c, 'l) web_env \<Rightarrow> request \<Rightarrow> response \<Rightarrow> ('c, 'w, 'l) Server \<Rightarrow> response \<times> ('c, 'w, 'l) Server" where
  "updateJobHandler we r w sv =
     (case decode_request we r w of
        Inl w' \<Rightarrow> (w', sv)
      | Inr req \<Rightarrow>
          (case jobFromRequest (we_GetArgs we) (sv_provider sv) req of
             Inl err \<Rightarrow> (http_Error (err_msg err) 400 w, sv)
           | Inr ob \<Rightarrow>
               let sv1 = alloc_job (we_new we) req ob sv; name = jr_Name req in
               (case UpdateJob (we_cron we) name (jr_Schedule req) (we_new we) (sv_scheduler sv1) of
                  (None, s) \<Rightarrow> (write_status 200 w, set_origin r name (with_sched sv1 s))
                | (Some err, s) \<Rightarrow>
                    if \<not> errors_Is err ErrJobNotFound
                    then (http_Error ''failed to update job'' 500 w, with_sched sv1 s)
                    else
                      let s1 = (case GetAnyJob name s of None \<Rightarrow> s | Some old \<Rightarrow> snd (RemoveJob (we_cron we) old s))
                      in (case AddJobWithTags (we_cron we) (we_new we) [] s1 of
                            (Some _, s2) \<Rightarrow> (http_Error ''failed to create job'' 400 w, with_sched sv1 s2)
                          | (None, s2) \<Rightarrow> (write_status 201 w, set_origin r name (with_sched sv1 s2))))))"

definition deleteJobHandler ::
  "('c, 'l) web_env \<Rightarrow> request \<Rightarrow> response \<Rightarrow> ('c, 'w, 'l) Server \<Rightarrow> response \<times> ('c, 'w, 'l) Server" where
  "deleteJobHandler we r w sv =
     (case decode_request we r w of
        Inl w' \<Rightarrow> (w', sv)
      | Inr req \<Rightarrow>
          (case GetAnyJob (jr_Name req) (sv_scheduler sv) of
             None \<Rightarrow> (http_Error ''job not found'' 404 w, sv)
           | Some j \<Rightarrow>
               (write_status 204 w,
                (with_sched sv (snd (RemoveJob (we_cron we) j (sv_scheduler sv))))
                  \<lparr>sv_origins := (sv_origins sv)(jr_Name req := None)\<rparr>)))"

section \<open>Sessions\<close>

definition extractToken :: "request \<Rightarrow> string" where
  "extractToken r =
     (let authHeader = rq_Header r ''Authorization'' in
      if HasPrefix authHeader ''Bearer '' then drop 7 authHeader
      else case rq_Cookie r ''auth_token'' of
             Some v \<Rightarrow> if v \<noteq> [] then v else []
           | None \<Rightarrow> [])"

definition logoutHandler :: "request \<Rightarrow> response \<Rightarrow> ('c, 'w, 'l) Server \<Rightarrow> response \<times> ('c, 'w, 'l) Server" where
  "logoutHandler r w sv =
     (if rq_Method r \<noteq> ''POST'' then (http_Error ''Method not allowed'' 405 w, sv)
      else
        let token = extractToken r;
            sv1 = (case sv_tokenManager sv of
                     Some tm \<Rightarrow> if token \<noteq> [] then sv\<lparr>sv_tokenManager := Some (RevokeToken token tm)\<rparr> else sv
                   | None \<Rightarrow> sv)
        in ((write_status 200 (set_cookie (auth_cookie r [] (- 1)) w))
              \<lparr>rs_Body := JsonBody (JObject [(''status'', JString ''logged out'')])\<rparr>, sv1))"

definition authStatusHandler :: "time \<Rightarrow> request \<Rightarrow> response \<Rightarrow> ('c, 'w, 'l) Server \<Rightarrow> response" where
  "authStatusHandler now r w sv =
     (if \<not> auth_enabled sv
      then send_json (JObject [(''authEnabled'', JBool False), (''authenticated'', JBool True)]) w
      else if extractToken r = []
      then send_json (JObject [(''authEnabled'', JBool True), (''authenticated'', JBool False)]) w
      else
        let d = (case sv_tokenManager sv of None \<Rightarrow> None | Some tm \<Rightarrow> ValidateToken now (extractToken r) tm)
        in send_json (JObject [(''authEnabled'', JBool True), (''authenticated'', JBool (d \<noteq> None)),
             (''username'', JString (case d of None \<Rightarrow> [] | Some td \<Rightarrow> td_Username td))]) w)"

definition csrfTokenHandler ::
  "('c, 'l) web_env \<Rightarrow> time \<Rightarrow> response \<Rightarrow> ('c, 'w, 'l) Server \<Rightarrow> response \<times> ('c, 'w, 'l) Server" where
  "csrfTokenHandler we now w sv =
     (let w1 = set_header ''Content-Type'' ''application/json'' w in
      case sv_tokenManager sv of
        None \<Rightarrow> (http_Error ''Auth not enabled'' 404 w1, sv)
      | Some tm \<Rightarrow>
          (case GenerateCSRFToken now (le_csrf_random (we_login we)) tm of
             (Inl _, tm1) \<Rightarrow> (http_Error ''Failed to generate CSRF token'' 500 w1, sv\<lparr>sv_tokenManager := Some tm1\<rparr>)
           | (Inr csrf, tm1) \<Rightarrow>
               (send_json (JObject [(''csrf_token'', JString csrf)]) w1, sv\<lparr>sv_tokenManager := Some tm1\<rparr>)))"

definition loginHandler ::
  "('c, 'l) web_env \<Rightarrow> time \<Rightarrow> request \<Rightarrow> response \<Rightarrow> ('c, 'w, 'l) Server \<Rightarrow> response \<times> ('c, 'w, 'l) Server" where
  "loginHandler we now r w sv =
     (case (sv_authConfig sv, sv_tokenManager sv) of
        (Some a, Some tm) \<Rightarrow>
          (case login_ServeHTTP (we_login we) a (sv_trustedProxies sv) now r w (tm, sv_loginLimiter sv) of
             (w', tm', rl') \<Rightarrow> (w', sv\<lparr>sv_tokenManager := Some tm', sv_loginLimiter := rl'\<rparr>))
      | _ \<Rightarrow> (w, sv))"

section \<open>Routes\<close>

datatype endpoint =
    EpLogin | EpLogout | EpAuthStatus | EpCsrf | EpRemoved | EpDisabled | EpRun | EpDisable | EpEnable | EpCreate
  | EpUpdate | EpDelete | EpHistory | EpJobs | EpConfig | EpHealth | EpReady | EpLive | EpStatic

definition routes :: "bool \<Rightarrow> bool \<Rightarrow> (string \<times> endpoint) list" where
  "routes auth health =
     (if auth then [(''/api/login'', EpLogin), (''/api/logout'', EpLogout), (''/api/auth/status'', EpAuthStatus),
                    (''/api/csrf-token'', EpCsrf)] else []) @
     [(''/api/jobs/removed'', EpRemoved), (''/api/jobs/disabled'', EpDisabled), (''/api/jobs/run'', EpRun),
      (''/api/jobs/disable'', EpDisable), (''/api/jobs/enable'', EpEnable), (''/api/jobs/create'', EpCreate),
      (''/api/jobs/update'', EpUpdate), (''/api/jobs/delete'', EpDelete), (''/api/jobs/'', EpHistory),
      (''/api/jobs'', EpJobs), (''/api/config'', EpConfig)] @
     (if health then [(''/health'', EpHealth), (''/healthz'', EpHealth), (''/ready'', EpReady), (''/live'', EpLive)] else []) @
     [(''/'', EpStatic)]"

text \<open>\<^verbatim>\<open>http.ServeMux\<close>: a pattern that is the path, or else the longest pattern with a final slash that it starts with.\<close>

definition mux_match :: "(string \<times> endpoint) list \<Rightarrow> string \<Rightarrow> endpoint option" where
  "mux_match pats path =
     (case map_of pats path of
        Some e \<Rightarrow> Some e
      | None \<Rightarrow>
          (case filter (\<lambda>(p, _). HasSuffix p ''/'' \<and> HasPrefix path p) pats of
             [] \<Rightarrow> None
           | q # qs \<Rightarrow> Some (snd (foldl (\<lambda>best p. if length (fst best) < length (fst p) then p else best) q qs))))"

definition mux_cleanPath :: "string \<Rightarrow> string" where
  "mux_cleanPath p =
     (if p = [] then ''/''
      else
        let p1 = (if hd p \<noteq> CHR ''/'' then CHR ''/'' # p else p); np = Clean p1
        in if last p1 = CHR ''/'' \<and> np \<noteq> ''/'' then np @ ''/'' else np)"

definition serve_endpoint ::
  "('c, 'l) web_env \<Rightarrow> time \<Rightarrow> endpoint \<Rightarrow> request \<Rightarrow> response \<Rightarrow> ('c, 'w, 'l) Server \<Rightarrow> response \<times> ('c, 'w, 'l) Server" where
  "serve_endpoint we now e r w sv =
     (case e of
        EpLogin \<Rightarrow> loginHandler we now r w sv
      | EpLogout \<Rightarrow> logoutHandler r w sv
      | EpAuthStatus \<Rightarrow> (authStatusHandler now r w sv, sv)
      | EpCsrf \<Rightarrow> csrfTokenHandler we now w sv
      | EpRemoved \<Rightarrow> (removedJobsHandler we now w sv, sv)
      | EpDisabled \<Rightarrow> (disabledJobsHandler we now w sv, sv)
      | EpRun \<Rightarrow> runJobHandler we r w sv
      | EpDisable \<Rightarrow> disableJobHandler we r w sv
      | EpEnable \<Rightarrow> enableJobHandler we r w sv
      | EpCreate \<Rightarrow> createJobHandler we r w sv
      | EpUpdate \<Rightarrow> updateJobHandler we r w sv
      | EpDelete \<Rightarrow> deleteJobHandler we r w sv
      | EpHistory \<Rightarrow> (historyHandler r w sv, sv)
      | EpJobs \<Rightarrow> (jobsHandler we now w sv, sv)
      | EpConfig \<Rightarrow> (configHandler we w sv, sv)
      | EpHealth \<Rightarrow>
          (case sv_health sv of None \<Rightarrow> (w, sv)
           | Some hc \<Rightarrow> (HealthHandler (GetHealth (we_health_order we) now (we_probe we) (we_system we) hc) w, sv))
      | EpReady \<Rightarrow>
          (case sv_health sv of None \<Rightarrow> (w, sv)
           | Some hc \<Rightarrow> (ReadinessHandler (GetHealth (we_health_order we) now (we_probe we) (we_system we) hc) w, sv))
      | EpLive \<Rightarrow> (LivenessHandler w, sv)
      | EpStatic \<Rightarrow> (we_static we (rq_Path r) w, sv))"

definition mux_ServeHTTP ::
  "('c, 'l) web_env \<Rightarrow> time \<Rightarrow> request \<Rightarrow> response \<Rightarrow> ('c, 'w, 'l) Server \<Rightarrow> response \<times> ('c, 'w, 'l) Server" where
  "mux_ServeHTTP we now r w sv =
     (let clean = mux_cleanPath (rq_Path r) in
      if rq_Method r \<noteq> ''CONNECT'' \<and> clean \<noteq> rq_Path r
      then ((set_header ''Location'' clean w)\<lparr>rs_Status := 307\<rparr>, sv)
      else case mux_match (routes (auth_enabled sv) (sv_health sv \<noteq> None)) (rq_Path r) of
             None \<Rightarrow> (http_Error ''404 page not found'' 404 w, sv)
           | Some e \<Rightarrow> serve_endpoint we now e r w sv)"

definition exempt_paths :: "string list" where
  "exempt_paths = [''/api/login'', ''/api/csrf-token'', ''/api/auth/status'', ''/health'', ''/healthz'', ''/ready'', ''/live'']"

definition authMiddleware ::
  "(request \<Rightarrow> response \<Rightarrow> ('c, 'w, 'l) Server \<Rightarrow> response \<times> ('c, 'w, 'l) Server) \<Rightarrow> time \<Rightarrow> request \<Rightarrow> response \<Rightarrow>
   ('c, 'w, 'l) Server \<Rightarrow> response \<times> ('c, 'w, 'l) Server" where
  "authMiddleware nxt now r w sv =
     (let path = rq_Path r in
      if path \<in> set exempt_paths then nxt r w sv
      else if \<not> HasPrefix path ''/api/'' then nxt r w sv
      else if extractToken r = [] then (http_Error ''Authentication required'' 401 w, sv)
      else case (case sv_tokenManager sv of None \<Rightarrow> None | Some tm \<Rightarrow> ValidateToken now (extractToken r) tm) of
             None \<Rightarrow> (http_Error ''Invalid or expired token'' 401 w, sv)
           | Some d \<Rightarrow> nxt (r\<lparr>rq_Header := (rq_Header r)(''X-Auth-User'' := td_Username d)\<rparr>) w sv)"

text \<open>The limiter is part of the server; the chain is authentication, limiter, security headers, routes.\<close>

definition limited ::
  "('c, 'l) web_env \<Rightarrow> time \<Rightarrow> request \<Rightarrow> response \<Rightarrow> ('c, 'w, 'l) Server \<Rightarrow> response \<times> ('c, 'w, 'l) Server" where
  "limited we now r w sv =
     (case rl_middleware (securityHeaders (mux_ServeHTTP we now)) now r w (sv_rl sv, sv) of
        (w', rl', sv') \<Rightarrow> (w', sv'\<lparr>sv_rl := rl'\<rparr>))"

definition serve ::
  "('c, 'l) web_env \<Rightarrow> time \<Rightarrow> request \<Rightarrow> ('c, 'w, 'l) Server \<Rightarrow> response \<times> ('c, 'w, 'l) Server" where
  "serve we now r sv =
     (if auth_enabled sv then authMiddleware (limited we now) now r fresh_response sv
      else limited we now r fresh_response sv)"

end
