(* ===== verification/WebApi.thy ===== *)
theory WebApi
  imports WebServer
begin

text \<open>
  What the web server of the theory \<open>WebServer\<close> guarantees: the gate of the authentication, the handlers as
  operations of the abstract map of jobs, sessions, and where jobs of the interface deviate from configured ones.
\<close>

section \<open>Frames of the handlers\<close>

text \<open>What no read or session handler changes.\<close>

definition same_jobs :: "('c, 'w, 'l) Server \<Rightarrow> ('c, 'w, 'l) Server \<Rightarrow> bool" where
  "same_jobs sv sv' \<longleftrightarrow>
     sv_scheduler sv' = sv_scheduler sv \<and> sv_objects sv' = sv_objects sv \<and> sv_logs sv' = sv_logs sv \<and>
     sv_origins sv' = sv_origins sv \<and> sv_config sv' = sv_config sv"

lemma same_jobs_simps [simp]:
  "same_jobs sv sv" "same_jobs sv (sv'\<lparr>sv_tokenManager := t\<rparr>) \<longleftrightarrow> same_jobs sv sv'"
  "same_jobs sv (sv'\<lparr>sv_loginLimiter := l\<rparr>) \<longleftrightarrow> same_jobs sv sv'"
  "same_jobs sv (sv'\<lparr>sv_rl := r\<rparr>) \<longleftrightarrow> same_jobs sv sv'"
  by (simp_all add: same_jobs_def)

text \<open>The endpoints that serve without a token: the ones for signing in, for health, and the static files.\<close>

definition public :: "endpoint \<Rightarrow> bool" where
  "public e \<longleftrightarrow> e \<in> {EpLogin, EpAuthStatus, EpCsrf, EpHealth, EpReady, EpLive, EpStatic}"

lemma public_same_jobs: "public e \<Longrightarrow> same_jobs sv (snd (serve_endpoint we now e r w sv))"
  by (auto simp: public_def serve_endpoint_def loginHandler_def csrfTokenHandler_def Let_def
      split: endpoint.splits option.splits prod.splits sum.splits)

lemma foldl_picks: "(\<And>a b. f a b = a \<or> f a b = b) \<Longrightarrow> foldl f q qs \<in> set (q # qs)"
proof (induction qs arbitrary: q)
  case (Cons a qs)
  from Cons.IH [OF Cons.prems, of "f q a"] Cons.prems [of q a] show ?case by auto
qed simp

lemma mux_match_sound:
  assumes "mux_match pats path = Some e"
  shows "\<exists>p. (p, e) \<in> set pats \<and> (p = path \<or> HasSuffix p ''/'' \<and> HasPrefix path p)"
proof (cases "map_of pats path")
  case (Some e')
  with assms show ?thesis by (auto simp: mux_match_def dest: map_of_SomeD)
next
  case None
  obtain q qs where f: "filter (\<lambda>(p, _). HasSuffix p ''/'' \<and> HasPrefix path p) pats = q # qs"
    and e: "e = snd (foldl (\<lambda>best p. if length (fst best) < length (fst p) then p else best) q qs)"
    using assms None by (auto simp: mux_match_def split: list.splits)
  let ?b = "foldl (\<lambda>best p. if length (fst best) < length (fst p) then p else best) q qs"
  have "?b \<in> set (q # qs)"
    by (rule foldl_picks) simp
  then have "?b \<in> set (filter (\<lambda>(p, _). HasSuffix p ''/'' \<and> HasPrefix path p) pats)" unfolding f .
  then have "(fst ?b, snd ?b) \<in> set pats" "HasSuffix (fst ?b) ''/'' \<and> HasPrefix path (fst ?b)"
    by (simp_all add: split_beta)
  then show ?thesis unfolding e by blast
qed

text \<open>Patterns of the endpoints behind the gate.\<close>

lemma route_patterns:
  "list_all (\<lambda>(p, e). public e \<or> HasPrefix p ''/api/'' \<and> p \<notin> set exempt_paths \<and> (HasSuffix p ''/'' \<longrightarrow> p = ''/api/jobs/''))
     (routes True True)"
  by code_simp

lemma routes_subset: "set (routes a h) \<subseteq> set (routes True True)"
  by (cases a; cases h; simp add: routes_def)

lemma protected_path:
  assumes "mux_match (routes a h) path = Some e" "\<not> public e"
  shows "HasPrefix path ''/api/'' \<and> path \<notin> set exempt_paths"
proof -
  from mux_match_sound [OF assms(1)] obtain p where
    p: "(p, e) \<in> set (routes a h)" "p = path \<or> HasSuffix p ''/'' \<and> HasPrefix path p" by blast
  have q: "HasPrefix p ''/api/''" "p \<notin> set exempt_paths" "HasSuffix p ''/'' \<Longrightarrow> p = ''/api/jobs/''"
    using bspec [OF route_patterns [unfolded list_all_iff] subsetD [OF routes_subset p(1)]] assms(2) by auto
  show ?thesis
  proof (cases "p = path")
    case True
    with q show ?thesis by simp
  next
    case False
    with p(2) q(3) obtain t where t: "path = ''/api/jobs/'' @ t" by (auto simp: HasPrefix_iff)
    have "\<not> HasPrefix x ''/api/jobs/''" if "x \<in> set exempt_paths" for x
      using that by (auto simp: exempt_paths_def HasPrefix_def)
    moreover have "HasPrefix path ''/api/jobs/''" "HasPrefix path ''/api/''" by (auto simp: t HasPrefix_iff)
    ultimately show ?thesis by blast
  qed
qed

text \<open>The session of a request.\<close>

definition session_of :: "time \<Rightarrow> request \<Rightarrow> ('c, 'w, 'l) Server \<Rightarrow> TokenData option" where
  "session_of now r sv =
     (if extractToken r = [] then None
      else case sv_tokenManager sv of None \<Rightarrow> None | Some tm \<Rightarrow> ValidateToken now (extractToken r) tm)"

lemma limited_cases:
  "limited we now r w sv =
     (case rl_admit now (rl_client r (wl_trustedProxies (sv_rl sv))) (sv_rl sv) of
        (False, rl1) \<Rightarrow> (http_Error ''Rate limit exceeded'' 429 w, sv\<lparr>sv_rl := rl1\<rparr>)
      | (True, rl1) \<Rightarrow>
          let res = securityHeaders (mux_ServeHTTP we now) r w sv in (fst res, (snd res)\<lparr>sv_rl := rl1\<rparr>))"
  by (simp add: limited_def rl_middleware_def Let_def split: prod.split bool.split)

lemma limited_same_jobs:
  assumes "\<And>w'. same_jobs sv (snd (mux_ServeHTTP we now r w' sv))"
  shows "same_jobs sv (snd (limited we now r w sv))"
proof -
  obtain ok rl where a: "rl_admit now (rl_client r (wl_trustedProxies (sv_rl sv))) (sv_rl sv) = (ok, rl)" by fastforce
  have "same_jobs sv (snd (securityHeaders (mux_ServeHTTP we now) r w sv))"
    unfolding securityHeaders_def Let_def by (rule assms)
  then show ?thesis by (cases ok) (simp_all add: limited_cases a Let_def)
qed

lemma mux_same_jobs:
  assumes "\<And>e. mux_match (routes (auth_enabled sv) (sv_health sv \<noteq> None)) (rq_Path r) = Some e \<Longrightarrow> public e"
  shows "same_jobs sv (snd (mux_ServeHTTP we now r w sv))"
  using assms public_same_jobs [of _ sv we now r w] by (auto simp: mux_ServeHTTP_def Let_def split: option.splits)

section \<open>The gate\<close>

text \<open>C9 (no_session_no_api): with authentication enabled, a request without a valid token changes neither the
  scheduler and its jobs nor their origins, whatever its path and method; and for every path that leads to an
  endpoint other than sign-in, health and static files it is answered with 401 and changes nothing at all, not even
  the limiter.\<close>

theorem no_session_no_api:
  assumes "auth_enabled sv" "session_of now r sv = None"
  shows "same_jobs sv (snd (serve we now r sv)) \<and>
    (\<forall>e. mux_match (routes True (sv_health sv \<noteq> None)) (rq_Path r) = Some e \<longrightarrow> \<not> public e \<longrightarrow>
       rs_Status (fst (serve we now r sv)) = 401 \<and> snd (serve we now r sv) = sv)"
proof -
  have gate: "rs_Status (fst (serve we now r sv)) = 401 \<and> snd (serve we now r sv) = sv"
    if "HasPrefix (rq_Path r) ''/api/''" "rq_Path r \<notin> set exempt_paths"
    using that assms by (auto simp: serve_def authMiddleware_def session_of_def Let_def split: if_splits option.splits)
  have "same_jobs sv (snd (serve we now r sv))"
  proof (cases "HasPrefix (rq_Path r) ''/api/'' \<and> rq_Path r \<notin> set exempt_paths")
    case True
    then show ?thesis using gate by simp
  next
    case False
    then have "\<And>e. mux_match (routes (auth_enabled sv) (sv_health sv \<noteq> None)) (rq_Path r) = Some e \<Longrightarrow> public e"
      using protected_path by blast
    then have "same_jobs sv (snd (limited we now r fresh_response sv))"
      by (intro limited_same_jobs mux_same_jobs)
    then show ?thesis using False by (auto simp: serve_def authMiddleware_def Let_def)
  qed
  with gate protected_path show ?thesis by blast
qed

section \<open>The handlers and the map of jobs\<close>

lemma decode_request_ok:
  "decode_request we r w = Inr req \<longleftrightarrow>
     rq_Method r = ''POST'' \<and> we_decode we (rq_Body r) = Some req \<and> validateJobName (jr_Name req) = None"
  by (auto simp: decode_request_def split: option.splits)

lemma valid_name_nonempty: "validateJobName n = None \<Longrightarrow> n \<noteq> []"
  by (auto simp: validateJobName_def split: if_splits)

lemma not_found_text: "err_is (Some err) ErrJobNotFound \<longleftrightarrow> errors_Is err ErrJobNotFound"
  by (simp add: err_is_def)

lemma with_sched_simps [simp]:
  "sv_scheduler (with_sched sv s) = s" "sv_origins (with_sched sv s) = sv_origins sv"
  "sv_scheduler (set_origin r n sv) = sv_scheduler sv" "rs_Status (write_status c w) = c"
  by (simp_all add: with_sched_def set_origin_def write_status_def Let_def)

lemma toggle_result:
  assumes "decode_request we r w = Inr req" "toggle (jr_Name req) (sv_scheduler sv) = (res, s)"
  shows "toggleJobHandler we r w toggle action sv =
    (case res of None \<Rightarrow> write_status 204 w
     | Some err \<Rightarrow> if errors_Is err ErrJobNotFound then http_Error ''job not found'' 404 w
                    else http_Error (''failed to '' @ action @ '' job'') 500 w, with_sched sv s)"
  using assms by (simp add: toggleJobHandler_def split: option.splits)

lemma disable_effect:
  assumes "cron_laws (we_cron we)" "sched_ok (we_cron we) (sv_scheduler sv)" "decode_request we r w = Inr req"
  shows "case registry (sv_scheduler sv) (jr_Name req) of
      None \<Rightarrow> rs_Status (fst (disableJobHandler we r w sv)) = 404 \<and>
        sv_scheduler (snd (disableJobHandler we r w sv)) = sv_scheduler sv
    | Some (j, _) \<Rightarrow> rs_Status (fst (disableJobHandler we r w sv)) = 204 \<and>
        registry (sv_scheduler (snd (disableJobHandler we r w sv))) = (registry (sv_scheduler sv))(jr_Name req \<mapsto> (j, True))"
    and "sched_ok (we_cron we) (sv_scheduler (snd (disableJobHandler we r w sv)))"
proof -
  obtain res s where d: "DisableJob (we_cron we) (jr_Name req) (sv_scheduler sv) = (res, s)" by fastforce
  note h = toggle_result [where toggle = "DisableJob (we_cron we)" and action = "''disable''", OF assms(3) d]
  show "case registry (sv_scheduler sv) (jr_Name req) of
      None \<Rightarrow> rs_Status (fst (disableJobHandler we r w sv)) = 404 \<and>
        sv_scheduler (snd (disableJobHandler we r w sv)) = sv_scheduler sv
    | Some (j, _) \<Rightarrow> rs_Status (fst (disableJobHandler we r w sv)) = 204 \<and>
        registry (sv_scheduler (snd (disableJobHandler we r w sv))) = (registry (sv_scheduler sv))(jr_Name req \<mapsto> (j, True))"
    using DisableJob_effect [OF assms(1,2), of "jr_Name req"]
    by (auto simp: disableJobHandler_def h d err_is_def split: option.splits)
  show "sched_ok (we_cron we) (sv_scheduler (snd (disableJobHandler we r w sv)))"
    using sched_ok_DisableJob [OF assms(1,2), of "jr_Name req"] by (simp add: disableJobHandler_def h d)
qed

lemma enable_effect:
  assumes "cron_laws (we_cron we)" "sched_ok (we_cron we) (sv_scheduler sv)" "decode_request we r w = Inr req"
  shows "case registry (sv_scheduler sv) (jr_Name req) of
      None \<Rightarrow> rs_Status (fst (enableJobHandler we r w sv)) = 404 \<and>
        sv_scheduler (snd (enableJobHandler we r w sv)) = sv_scheduler sv
    | Some (j, _) \<Rightarrow> rs_Status (fst (enableJobHandler we r w sv)) = 204 \<and>
        registry (sv_scheduler (snd (enableJobHandler we r w sv))) = (registry (sv_scheduler sv))(jr_Name req \<mapsto> (j, False))"
    and "sched_ok (we_cron we) (sv_scheduler (snd (enableJobHandler we r w sv)))"
proof -
  obtain res s where d: "EnableJob (we_cron we) (jr_Name req) (sv_scheduler sv) = (res, s)" by fastforce
  note h = toggle_result [where toggle = "EnableJob (we_cron we)" and action = "''enable''", OF assms(3) d]
  show "case registry (sv_scheduler sv) (jr_Name req) of
      None \<Rightarrow> rs_Status (fst (enableJobHandler we r w sv)) = 404 \<and>
        sv_scheduler (snd (enableJobHandler we r w sv)) = sv_scheduler sv
    | Some (j, _) \<Rightarrow> rs_Status (fst (enableJobHandler we r w sv)) = 204 \<and>
        registry (sv_scheduler (snd (enableJobHandler we r w sv))) = (registry (sv_scheduler sv))(jr_Name req \<mapsto> (j, False))"
    using EnableJob_effect [OF assms(1,2), of "jr_Name req"]
    by (auto simp: enableJobHandler_def h d err_is_def split: option.splits)
  show "sched_ok (we_cron we) (sv_scheduler (snd (enableJobHandler we r w sv)))"
    using sched_ok_EnableJob [OF assms(1,2), of "jr_Name req"] by (simp add: enableJobHandler_def h d)
qed

lemma delete_effect:
  assumes "cron_laws (we_cron we)" "sched_ok (we_cron we) (sv_scheduler sv)" "decode_request we r w = Inr req"
  shows "case registry (sv_scheduler sv) (jr_Name req) of
      None \<Rightarrow> rs_Status (fst (deleteJobHandler we r w sv)) = 404 \<and> snd (deleteJobHandler we r w sv) = sv
    | Some _ \<Rightarrow> rs_Status (fst (deleteJobHandler we r w sv)) = 204 \<and>
        registry (sv_scheduler (snd (deleteJobHandler we r w sv))) = (registry (sv_scheduler sv))(jr_Name req := None)"
    and "sched_ok (we_cron we) (sv_scheduler (snd (deleteJobHandler we r w sv)))"
proof -
  let ?s = "sv_scheduler sv" let ?n = "jr_Name req"
  have reg: "registry_ok ?s" "entries_ok ?s (set (Entries (we_cron we) (s_cron ?s)))" using assms(2) by (simp_all add: sched_ok_def)
  have "(case registry ?s ?n of
      None \<Rightarrow> rs_Status (fst (deleteJobHandler we r w sv)) = 404 \<and> snd (deleteJobHandler we r w sv) = sv
    | Some _ \<Rightarrow> rs_Status (fst (deleteJobHandler we r w sv)) = 204 \<and>
        registry (sv_scheduler (snd (deleteJobHandler we r w sv))) = (registry ?s)(?n := None)) \<and>
    sched_ok (we_cron we) (sv_scheduler (snd (deleteJobHandler we r w sv)))"
  proof (cases "s_jobsByName ?s ?n")
    case None
    then show ?thesis using assms(2,3) by (simp add: deleteJobHandler_def registry_def GetAnyJob_def)
  next
    case (Some j)
    then have j: "j \<in> set (s_Jobs ?s)" "name_of ?s j = ?n" using byName_iff [OF reg(1), of ?n j] by auto
    have "registry (snd (RemoveJob (we_cron we) j ?s)) = (registry ?s)(?n := None)"
      using restricted_registry [OF RemoveJob_restricted [OF reg j(1), of "we_cron we"]] j(2)
      by (auto simp: restrict_map_def fun_eq_iff)
    then show ?thesis
      using Some assms(3) sched_ok_RemoveJob [OF assms(1,2) j(1)]
      by (simp add: deleteJobHandler_def registry_def GetAnyJob_def)
  qed
  then show "case registry ?s ?n of
      None \<Rightarrow> rs_Status (fst (deleteJobHandler we r w sv)) = 404 \<and> snd (deleteJobHandler we r w sv) = sv
    | Some _ \<Rightarrow> rs_Status (fst (deleteJobHandler we r w sv)) = 204 \<and>
        registry (sv_scheduler (snd (deleteJobHandler we r w sv))) = (registry ?s)(?n := None)"
    and "sched_ok (we_cron we) (sv_scheduler (snd (deleteJobHandler we r w sv)))" by simp_all
qed

text \<open>The object of a request that is not scheduled yet.\<close>

lemma alloc_frame:
  assumes "sched_ok cr (sv_scheduler sv)" "new \<notin> set (s_Jobs (sv_scheduler sv))"
  shows "sched_ok cr (sv_scheduler (alloc_job new req ob sv))"
    "registry (sv_scheduler (alloc_job new req ob sv)) = registry (sv_scheduler sv)"
    "s_Jobs (sv_scheduler (alloc_job new req ob sv)) = s_Jobs (sv_scheduler sv)"
    "name_of (sv_scheduler (alloc_job new req ob sv)) new = jr_Name req"
  using heap_fresh [OF assms] by (simp_all add: alloc_job_def Let_def registry_def fun_eq_iff bare_of_request_def)

lemma create_effect:
  assumes "cron_laws (we_cron we)" "sched_ok (we_cron we) (sv_scheduler sv)" "decode_request we r w = Inr req"
    "we_new we \<notin> set (s_Jobs (sv_scheduler sv))"
  shows "if rs_Status (fst (createJobHandler we r w sv)) = 201
    then registry (sv_scheduler sv) (jr_Name req) = None \<and>
      registry (sv_scheduler (snd (createJobHandler we r w sv))) =
        (registry (sv_scheduler sv))(jr_Name req \<mapsto> (we_new we, False))
    else rs_Status (fst (createJobHandler we r w sv)) = 400 \<and>
      registry (sv_scheduler (snd (createJobHandler we r w sv))) = registry (sv_scheduler sv)"
    and "sched_ok (we_cron we) (sv_scheduler (snd (createJobHandler we r w sv)))"
proof -
  let ?s = "sv_scheduler sv" let ?n = "jr_Name req"
  have n: "?n \<noteq> []" using assms(3) decode_request_ok valid_name_nonempty by metis
  have "(if rs_Status (fst (createJobHandler we r w sv)) = 201
    then registry ?s ?n = None \<and>
      registry (sv_scheduler (snd (createJobHandler we r w sv))) = (registry ?s)(?n \<mapsto> (we_new we, False))
    else rs_Status (fst (createJobHandler we r w sv)) = 400 \<and>
      registry (sv_scheduler (snd (createJobHandler we r w sv))) = registry ?s) \<and>
    sched_ok (we_cron we) (sv_scheduler (snd (createJobHandler we r w sv)))"
  proof (cases "jobFromRequest (we_GetArgs we) (sv_provider sv) req")
    case (Inl err)
    then show ?thesis using assms(2,3) by (simp add: createJobHandler_def)
  next
    case (Inr ob)
    let ?s1 = "sv_scheduler (alloc_job (we_new we) req ob sv)"
    note al = alloc_frame [OF assms(2,4), of req ob]
    obtain res s where a: "AddJobWithTags (we_cron we) (we_new we) [] ?s1 = (res, s)" by fastforce
    show ?thesis
    proof (cases res)
      case None
      from AddJobWithTags_ok [OF assms(1) al(1) _ a [unfolded None]] al n show ?thesis
        by (simp add: createJobHandler_def assms(3) Inr Let_def a None)
    next
      case (Some err)
      from AddJobWithTags_error [OF assms(1) al(1) _ a [unfolded Some]] al n show ?thesis
        by (simp add: createJobHandler_def assms(3) Inr Let_def a Some)
    qed
  qed
  then show "if rs_Status (fst (createJobHandler we r w sv)) = 201
    then registry ?s ?n = None \<and>
      registry (sv_scheduler (snd (createJobHandler we r w sv))) = (registry ?s)(?n \<mapsto> (we_new we, False))
    else rs_Status (fst (createJobHandler we r w sv)) = 400 \<and>
      registry (sv_scheduler (snd (createJobHandler we r w sv))) = registry ?s"
    and "sched_ok (we_cron we) (sv_scheduler (snd (createJobHandler we r w sv)))" by blast+
qed

lemma run_effect:
  assumes "cron_laws (we_cron we)" "sched_ok (we_cron we) (sv_scheduler sv)" "decode_request we r w = Inr req"
  shows "registry (sv_scheduler (snd (runJobHandler we r w sv))) = registry (sv_scheduler sv)"
    and "sched_ok (we_cron we) (sv_scheduler (snd (runJobHandler we r w sv)))"
    and "rs_Status (fst (runJobHandler we r w sv)) \<in> (case registry (sv_scheduler sv) (jr_Name req) of
      Some (_, False) \<Rightarrow> {204, 404, 500} | _ \<Rightarrow> {404})"
proof -
  obtain res s where a: "RunJob (we_cron we) (jr_Name req) (sv_scheduler sv) = (res, s)" by fastforce
  note fr = RunJob_frame [OF assms(1,2), of "jr_Name req"]
  show "registry (sv_scheduler (snd (runJobHandler we r w sv))) = registry (sv_scheduler sv)"
    "sched_ok (we_cron we) (sv_scheduler (snd (runJobHandler we r w sv)))"
    using fr by (auto simp: runJobHandler_def assms(3) a split: option.splits)
  show "rs_Status (fst (runJobHandler we r w sv)) \<in> (case registry (sv_scheduler sv) (jr_Name req) of
      Some (_, False) \<Rightarrow> {204, 404, 500} | _ \<Rightarrow> {404})"
  proof (cases "s_jobsByName (sv_scheduler sv) (jr_Name req) = None \<or> jr_Name req \<in> s_disabledNames (sv_scheduler sv)")
    case True
    then have "rs_Status (fst (runJobHandler we r w sv)) = 404" by (simp add: runJobHandler_def assms(3) RunJob_def)
    with True show ?thesis by (auto simp: registry_def split: option.splits bool.splits)
  next
    case False
    then have "\<exists>j. registry (sv_scheduler sv) (jr_Name req) = Some (j, False)" by (auto simp: registry_def)
    moreover have "rs_Status (fst (runJobHandler we r w sv)) \<in> {204, 404, 500}"
      by (auto simp: runJobHandler_def assms(3) a split: option.splits)
    ultimately show ?thesis by auto
  qed
qed

text \<open>C10 (api_implements_registry): on a consistent scheduler a well-formed request acts on the map from names to jobs
  as its endpoint says, with matching status codes: disabling and enabling set the flag (204) or find no job (404),
  deletion removes exactly the name (204) or finds no job (404), creation binds a name that was free to the new job
  (201) or is refused and changes nothing (400), running changes nothing and reports a job that is missing or disabled
  with 404; and the scheduler stays consistent.\<close>

theorem api_implements_registry:
  assumes "cron_laws (we_cron we)" "sched_ok (we_cron we) (sv_scheduler sv)" "decode_request we r w = Inr req"
    "we_new we \<notin> set (s_Jobs (sv_scheduler sv))"
  shows "let R = registry (sv_scheduler sv); n = jr_Name req;
      after = (\<lambda>h. (rs_Status (fst (h we r w sv)), registry (sv_scheduler (snd (h we r w sv)))))
    in (case R n of
          None \<Rightarrow> after disableJobHandler = (404, R) \<and> after enableJobHandler = (404, R) \<and> after deleteJobHandler = (404, R)
        | Some (j, _) \<Rightarrow> after disableJobHandler = (204, R(n \<mapsto> (j, True))) \<and>
            after enableJobHandler = (204, R(n \<mapsto> (j, False))) \<and> after deleteJobHandler = (204, R(n := None))) \<and>
       after createJobHandler \<in> {(201, R(n \<mapsto> (we_new we, False))), (400, R)} \<and>
       (R n = None \<or> after createJobHandler = (400, R)) \<and>
       snd (after runJobHandler) = R \<and>
       (case R n of Some (_, False) \<Rightarrow> True | _ \<Rightarrow> fst (after runJobHandler) = 404) \<and>
       list_all (\<lambda>h. sched_ok (we_cron we) (sv_scheduler (snd (h we r w sv))))
         [disableJobHandler, enableJobHandler, deleteJobHandler, createJobHandler, runJobHandler]"
proof -
  note d = disable_effect [OF assms(1-3)] and e = enable_effect [OF assms(1-3)] and x = delete_effect [OF assms(1-3)]
    and c = create_effect [OF assms] and u = run_effect [OF assms(1-3)]
  show ?thesis
  proof (cases "registry (sv_scheduler sv) (jr_Name req)")
    case None
    with d e x c u show ?thesis by (auto simp: Let_def split: if_splits)
  next
    case (Some p)
    obtain j f where "p = (j, f)" by fastforce
    with Some d e x c u show ?thesis by (auto simp: Let_def split: if_splits bool.splits)
  qed
qed

text \<open>A server on a list of entries without authentication, where the body of a request is the name of a local job.\<close>

definition local_request :: "string \<Rightarrow> jobRequest" where
  "local_request n = \<lparr>jr_Name = n, jr_Type = ''local'', jr_Schedule = ''@daily'', jr_Command = [], jr_Image = [],
     jr_Container = [], jr_File = [], jr_Service = [], jr_ExecFlag = False\<rparr>"

definition demo_env :: "ref \<Rightarrow> (cron_entry list, nat) web_env" where
  "demo_env new = \<lparr>we_cron = list_cron, we_login = demo_login, we_decode = (\<lambda>b. Some (local_request b)),
     we_GetArgs = (\<lambda>c. [c]), we_new = new, we_static = (\<lambda>p w. w), we_entry = (\<lambda>c n. None),
     we_IsJobRunning = (\<lambda>c n. False), we_marshal = (\<lambda>ob f. JNull), we_config_json = (\<lambda>c. JNull),
     we_health_order = [], we_probe = demo_probe, we_system = demo_system\<rparr>"

definition demo_server :: "(cron_entry list, unit, nat) Server" where
  "demo_server = \<lparr>sv_scheduler = newSchedulerInternal list_cron (\<lambda>r. plain_job [] []), sv_objects = (\<lambda>r. ObService),
     sv_logs = (\<lambda>r. new_log 10), sv_config = NilConfig, sv_origins = Map.empty, sv_provider = True, sv_authConfig = None,
     sv_tokenManager = None, sv_loginLimiter = new_login_limiter 5 5, sv_rl = newRateLimiter 100 minute,
     sv_trustedProxies = [], sv_health = None\<rparr>"

definition post :: "string \<Rightarrow> string \<Rightarrow> request" where
  "post path body = \<lparr>rq_Method = ''POST'', rq_Path = path, rq_RemoteAddr = ''10.0.0.1:99'', rq_TLS = False,
     rq_Header = (\<lambda>k. []), rq_Cookie = (\<lambda>k. None), rq_Body = body\<rparr>"

lemma demo_simps [simp]:
  "we_cron (demo_env new) = list_cron" "we_new (demo_env new) = new" "we_decode (demo_env new) b = Some (local_request b)"
  "sv_provider demo_server = True" "sv_origins demo_server = Map.empty"
  "sv_scheduler demo_server = newSchedulerInternal list_cron (\<lambda>r. plain_job [] [])"
  "rq_Method (post p b) = ''POST''" "rq_Body (post p b) = b" "rq_Path (post p b) = p" "jr_Name (local_request n) = n"
  "jr_Schedule (local_request n) = ''@daily''"
  by (simp_all add: demo_env_def demo_server_def post_def local_request_def)

lemma demo_request_ok: "validateJobName n = None \<Longrightarrow> decode_request (demo_env new) (post p n) w = Inr (local_request n)"
  by (simp add: decode_request_ok)

lemma demo_job: "jobFromRequest f prov (local_request n) =
    Inr (ObLocal \<lparr>lj_Command = [], lj_Dir = [], lj_Environment = [], lj_EnvFile = [], lj_EnvFrom = []\<rparr>)"
  by (simp add: jobFromRequest_def local_request_def check_command_def)

theorem api_implements_registry_witness:
  "let res = createJobHandler (demo_env 1) (post ''/api/jobs/create'' ''a'') fresh_response demo_server
   in (rs_Status (fst res), registry (sv_scheduler (snd res))) \<in> {(201, [''a'' \<mapsto> (1, False)]), (400, Map.empty)}"
proof -
  have ok: "sched_ok list_cron (sv_scheduler demo_server)" using sched_ok_init [OF list_cron_laws] by simp
  have n: "validateJobName ''a'' = None" by (simp add: validateJobName_def)
  have R: "registry (sv_scheduler demo_server) = Map.empty" by (simp add: registry_def newSchedulerInternal_def fun_eq_iff)
  have "1 \<notin> set (s_Jobs (sv_scheduler demo_server))" by (simp add: newSchedulerInternal_def)
  then show ?thesis
    using api_implements_registry [of "demo_env 1" demo_server "post ''/api/jobs/create'' ''a''" fresh_response "local_request ''a''"]
      list_cron_laws ok demo_request_ok [OF n] R
    by (simp add: Let_def del: demo_simps(6))
qed

section \<open>Updates\<close>

text \<open>go-cron knows nothing of the errors of the scheduler.\<close>

definition foreign_errors :: "'c cron_api \<Rightarrow> bool" where
  "foreign_errors cr \<longleftrightarrow>
     (\<forall>n sched r c err. fst (UpdateEntryJobByName cr n sched r c) = Some err \<longrightarrow> \<not> errors_Is err ErrJobNotFound)"

lemma UpdateJob_active:
  assumes "sched_ok cr s" "registry s n = Some (j, False)" "name_of s new = n"
  shows "case UpdateJob cr n sched new s of
      (None, s') \<Rightarrow> registry s' = (registry s)(n \<mapsto> (new, False))
    | (Some err, s') \<Rightarrow> registry s' = registry s \<and> (foreign_errors cr \<longrightarrow> \<not> errors_Is err ErrJobNotFound)"
proof -
  have ok: "registry_ok s" using assms(1) by (simp add: sched_ok_def)
  have b: "s_jobsByName s n = Some j" "n \<notin> s_disabledNames s" using assms(2) by (auto simp: registry_def)
  obtain res c where u: "UpdateEntryJobByName cr n sched new (s_cron s) = (res, c)" by fastforce
  have f: "foreign_errors cr \<Longrightarrow> res = Some err \<Longrightarrow> \<not> errors_Is err ErrJobNotFound" for err
    unfolding foreign_errors_def by (metis fst_conv u)
  show ?thesis
    using b u f by (cases res) (auto simp: UpdateJob_def getJob_byName [OF ok] Let_def registry_def fun_eq_iff)
qed

lemma UpdateJob_missing:
  assumes "registry_ok s" "\<not> (\<exists>j. registry s n = Some (j, False))"
  shows "\<exists>err. UpdateJob cr n sched new s = (Some err, s) \<and> errors_Is err ErrJobNotFound"
proof -
  have "s_jobsByName s n = None \<or> n \<in> s_disabledNames s" using assms(2) by (auto simp: registry_def)
  then show ?thesis by (auto simp: UpdateJob_def getJob_byName [OF assms(1)])
qed

text \<open>(update_effect): an update of an active job replaces it (200) or is refused and changes nothing (500); an
  update of a name without a job creates the job (201) or is refused (400). An update of a disabled job removes it
  first: it ends with a new job that is enabled (201), or, when the scheduler refuses the new schedule, without any
  job of that name (400).\<close>

theorem update_effect:
  assumes "cron_laws (we_cron we)" "foreign_errors (we_cron we)" "sched_ok (we_cron we) (sv_scheduler sv)"
    "decode_request we r w = Inr req" "jobFromRequest (we_GetArgs we) (sv_provider sv) req = Inr ob"
    "we_new we \<notin> set (s_Jobs (sv_scheduler sv))"
  shows "let R = registry (sv_scheduler sv); n = jr_Name req; res = updateJobHandler we r w sv;
      after = (rs_Status (fst res), registry (sv_scheduler (snd res)))
    in case R n of
         Some (_, False) \<Rightarrow> after \<in> {(200, R(n \<mapsto> (we_new we, False))), (500, R)}
       | Some (_, True) \<Rightarrow> after \<in> {(201, R(n \<mapsto> (we_new we, False))), (400, R(n := None))}
       | None \<Rightarrow> after \<in> {(201, R(n \<mapsto> (we_new we, False))), (400, R)}"
proof -
  let ?cr = "we_cron we" let ?n = "jr_Name req" let ?new = "we_new we"
  let ?s = "sv_scheduler sv" let ?sv1 = "alloc_job ?new req ob sv" let ?s1 = "sv_scheduler ?sv1"
  let ?R = "registry ?s"
  have n: "?n \<noteq> []" using assms(4) decode_request_ok valid_name_nonempty by metis
  note al = alloc_frame [OF assms(3,6), of req ob]
  have ok1: "registry_ok ?s1" "entries_ok ?s1 (set (Entries ?cr (s_cron ?s1)))" using al(1) by (simp_all add: sched_ok_def)
  have add: "(rs_Status (fst (updateJobHandler we r w sv)), registry (sv_scheduler (snd (updateJobHandler we r w sv)))) \<in>
      {(201, (registry s2)(?n \<mapsto> (?new, False))), (400, registry s2)}"
    if upd: "UpdateJob ?cr ?n (jr_Schedule req) ?new ?s1 = (Some err, s')" "errors_Is err ErrJobNotFound"
      and rem: "s2 = (case GetAnyJob ?n s' of None \<Rightarrow> s' | Some old \<Rightarrow> snd (RemoveJob ?cr old s'))"
      and s2: "sched_ok ?cr s2" "name_of s2 ?new = ?n" for err s' s2
  proof -
    obtain res s3 where a: "AddJobWithTags ?cr ?new [] s2 = (res, s3)" by fastforce
    show ?thesis
    proof (cases res)
      case None
      from AddJobWithTags_ok [OF assms(1) s2(1) _ a [unfolded None]] s2(2) n show ?thesis
        by (simp add: updateJobHandler_def assms(4,5) Let_def upd rem [symmetric] a None)
    next
      case (Some e)
      from AddJobWithTags_error [OF assms(1) s2(1) _ a [unfolded Some]] s2(2) n show ?thesis
        by (simp add: updateJobHandler_def assms(4,5) Let_def upd rem [symmetric] a Some)
    qed
  qed
  show ?thesis
  proof (cases "?R ?n")
    case None
    then have "\<not> (\<exists>j. registry ?s1 ?n = Some (j, False))" by (simp add: al(2))
    from UpdateJob_missing [OF ok1(1) this] obtain err where
      u: "UpdateJob ?cr ?n (jr_Schedule req) ?new ?s1 = (Some err, ?s1)" "errors_Is err ErrJobNotFound" by blast
    have "registry ?s1 ?n = None" using None by (simp add: al(2))
    then have "GetAnyJob ?n ?s1 = None" by (simp add: GetAnyJob_def registry_def)
    then have "?s1 = (case GetAnyJob ?n ?s1 of None \<Rightarrow> ?s1 | Some old \<Rightarrow> snd (RemoveJob ?cr old ?s1))" by simp
    from add [OF u this al(1,4)] None show ?thesis by (simp add: Let_def al(2))
  next
    case (Some p)
    obtain j f where p: "p = (j, f)" by fastforce
    show ?thesis
    proof (cases f)
      case False
      have "registry ?s1 ?n = Some (j, False)" using Some p False by (simp add: al(2))
      from UpdateJob_active [OF al(1) this al(4), of "jr_Schedule req"] Some p False assms(2) show ?thesis
        by (auto simp: Let_def updateJobHandler_def assms(4,5) al(2) split: prod.splits option.splits)
    next
      case True
      then have "\<not> (\<exists>j. registry ?s1 ?n = Some (j, False))" using Some p by (simp add: al(2))
      from UpdateJob_missing [OF ok1(1) this] obtain err where
        u: "UpdateJob ?cr ?n (jr_Schedule req) ?new ?s1 = (Some err, ?s1)" "errors_Is err ErrJobNotFound" by blast
      have g: "s_jobsByName ?s1 ?n = Some j" using Some p fun_cong [OF al(2), of ?n] by (auto simp: registry_def)
      then have j: "j \<in> set (s_Jobs ?s1)" "name_of ?s1 j = ?n" using byName_iff [OF ok1(1), of ?n j] by auto
      let ?s2 = "snd (RemoveJob ?cr j ?s1)"
      have s2: "sched_ok ?cr ?s2" "name_of ?s2 ?new = ?n"
        using sched_ok_RemoveJob [OF assms(1) al(1) j(1)] al(4) by (simp_all add: RemoveJob_def Let_def)
      have "registry ?s2 = ?R(?n := None)"
        using restricted_registry [OF RemoveJob_restricted [OF ok1 j(1), of ?cr]] j(2) al(2)
        by (auto simp: restrict_map_def fun_eq_iff)
      moreover have "?s2 = (case GetAnyJob ?n ?s1 of None \<Rightarrow> ?s1 | Some old \<Rightarrow> snd (RemoveJob ?cr old ?s1))"
        using g by (simp add: GetAnyJob_def)
      from add [OF u this s2] have "(rs_Status (fst (updateJobHandler we r w sv)), registry (sv_scheduler (snd (updateJobHandler we r w sv)))) \<in>
          {(201, (registry ?s2)(?n \<mapsto> (?new, False))), (400, registry ?s2)}" .
      ultimately show ?thesis using Some p True by (simp add: Let_def)
    qed
  qed
qed

lemma list_foreign_errors: "foreign_errors list_cron"
  by (simp add: foreign_errors_def list_cron_def)

theorem update_effect_witness:
  "let res = updateJobHandler (demo_env 1) (post ''/api/jobs/update'' ''a'') fresh_response demo_server
   in (rs_Status (fst res), registry (sv_scheduler (snd res))) \<in> {(201, [''a'' \<mapsto> (1, False)]), (400, Map.empty)}"
proof -
  have ok: "sched_ok list_cron (sv_scheduler demo_server)" using sched_ok_init [OF list_cron_laws] by simp
  have n: "validateJobName ''a'' = None" by (simp add: validateJobName_def)
  have R: "registry (sv_scheduler demo_server) = Map.empty" by (simp add: registry_def newSchedulerInternal_def fun_eq_iff)
  have "1 \<notin> set (s_Jobs (sv_scheduler demo_server))" by (simp add: newSchedulerInternal_def)
  then show ?thesis
    using update_effect [of "demo_env 1" demo_server "post ''/api/jobs/update'' ''a''" fresh_response "local_request ''a''"]
      list_cron_laws list_foreign_errors ok demo_request_ok [OF n] demo_job R
    by (simp add: Let_def del: demo_simps(6))
qed

lemma remove_first_find: "find P xs = Some q \<Longrightarrow> remove_first P xs = remove1 q xs"
  by (induction xs) (auto dest: find_Some_in split: if_splits)

text \<open>(delete_after_update): \<^verbatim>\<open>UpdateJob\<close> does not give the new object the identifier of its entry, so all updated jobs
  have the identifier 0. When a job is deleted and another job with its identifier comes earlier in the list, the
  other job disappears from the list although it stays scheduled and is still found by name, and the deleted job
  stays in the list although it is gone.\<close>

theorem delete_after_update:
  assumes "registry_ok (sv_scheduler sv)" "decode_request we r w = Inr req" "GetAnyJob (jr_Name req) (sv_scheduler sv) = Some j"
    "find (\<lambda>x. id_of (sv_scheduler sv) x = id_of (sv_scheduler sv) j) (s_Jobs (sv_scheduler sv)) = Some q" "q \<noteq> j"
  shows "let s = sv_scheduler sv; res = deleteJobHandler we r w sv; s' = sv_scheduler (snd res)
    in rs_Status (fst res) = 204 \<and> set (s_Jobs s') = set (s_Jobs s) - {q} \<and> j \<in> set (s_Jobs s') \<and>
       GetAnyJob (jr_Name req) s' = None \<and> GetAnyJob (name_of s q) s' = Some q"
proof -
  let ?s = "sv_scheduler sv"
  have j: "j \<in> set (s_Jobs ?s)" "name_of ?s j = jr_Name req"
    using byName_iff [OF assms(1)] assms(3) by (auto simp: GetAnyJob_def)
  have q: "q \<in> set (s_Jobs ?s)" using find_Some_in [OF assms(4)] by simp
  have "name_of ?s q \<noteq> name_of ?s j" using name_inj [OF assms(1)] q j(1) assms(5) by (auto simp: inj_on_def)
  moreover have "s_jobsByName ?s (name_of ?s q) = Some q" using byName_iff [OF assms(1)] q by simp
  moreover have "(\<lambda>x. x = j \<or> id_of ?s x = id_of ?s j) = (\<lambda>x. id_of ?s x = id_of ?s j)" by auto
  then have "remove_first (\<lambda>x. x = j \<or> id_of ?s x = id_of ?s j) (s_Jobs ?s) = remove1 q (s_Jobs ?s)"
    using remove_first_find [OF assms(4)] by simp
  ultimately show ?thesis
    using assms(2,3,5) j jobs_distinct [OF assms(1)]
    by (simp add: deleteJobHandler_def Let_def RemoveJob_def GetAnyJob_def)
qed

text \<open>The object of an update has the identifier 0.\<close>

lemma updated_id:
  "id_of (sv_scheduler (alloc_job new req ob sv)) new = 0 \<and>
   (UpdateJob cr n sched new s = (res, s') \<longrightarrow> id_of s' new = id_of s new)"
  by (auto simp: alloc_job_def bare_of_request_def Let_def UpdateJob_def use_global_mws_def split: if_splits prod.splits option.splits)

text \<open>Two jobs that have been created and updated.\<close>

definition updated_server :: "(cron_entry list, unit, nat) Server" where
  "updated_server = demo_server\<lparr>sv_scheduler := (sv_scheduler demo_server)\<lparr>
     s_heap := (\<lambda>r. plain_job (if r = 3 then ''a'' else ''b'') []), s_Jobs := [3, 4],
     s_jobsByName := [''a'' \<mapsto> 3, ''b'' \<mapsto> 4],
     s_cron := [\<lparr>ce_ID = 1, ce_Name = ''a'', ce_Tags = []\<rparr>, \<lparr>ce_ID = 2, ce_Name = ''b'', ce_Tags = []\<rparr>]\<rparr>\<rparr>"

theorem delete_after_update_witness:
  "let s' = sv_scheduler (snd (deleteJobHandler (demo_env 5) (post ''/api/jobs/delete'' ''b'') fresh_response updated_server))
   in 4 \<in> set (s_Jobs s') \<and> GetAnyJob ''b'' s' = None \<and> GetAnyJob ''a'' s' = Some 3 \<and> set (s_Jobs s') = {4}"
proof -
  let ?s = "sv_scheduler updated_server"
  have v: "validateJobName ''b'' = None" by (simp add: validateJobName_def)
  have facts: "s_Jobs ?s = [3, 4]" "name_of ?s 3 = ''a''" "id_of ?s 3 = 0" "id_of ?s 4 = 0" "s_jobsByName ?s ''b'' = Some 4"
    by (simp_all add: updated_server_def plain_job_def)
  have "registry_ok ?s"
    by (auto simp: registry_ok_def updated_server_def newSchedulerInternal_def plain_job_def)
  from delete_after_update [OF this demo_request_ok [OF v], of 4 3 5 "''/api/jobs/delete''" fresh_response]
  show ?thesis using facts by (auto simp: Let_def GetAnyJob_def)
qed

section \<open>Jobs of the interface\<close>

definition is_removal :: "docker_call \<Rightarrow> bool" where
  "is_removal c = (case c of RemoveContainer _ _ _ \<Rightarrow> True | _ \<Rightarrow> False)"

lemma no_delete_no_removal:
  assumes "\<not> ParseBool (rj_Delete j)"
  shows "filter is_removal (teardowns (snd (rj_Run P E j w))) = filter is_removal (teardowns w)"
proof (cases "rj_acquire P E j w")
  case (Pair res w1)
  have t: "teardowns w1 = teardowns w" using acquire_teardowns [of P E j w] Pair by simp
  have d: "filter is_removal (teardown_of e False cid) = []" for e cid by (simp add: teardown_of_def is_removal_def)
  show ?thesis
  proof (cases res)
    case (Some err)
    then show ?thesis using Pair t by (simp add: rj_Run_err)
  next
    case None
    then show ?thesis
      using rj_Run_ok [OF Pair [unfolded None]] assms t d by (simp add: cleanup_teardowns)
  qed
qed

text \<open>(api_jobs_lack_defaults): the jobs that the interface creates do not get the defaults of configured jobs. No
  run of a run job ever removes the container it creates; run and exec jobs have no user, so they run as the user of
  the image; every run of a compose job without a file fails before any command is started; and the history of a job
  is not limited.\<close>

theorem api_jobs_lack_defaults:
  assumes "jobFromRequest GetArgs provider req = Inr ob"
  shows "(case ob of
        ObRun j \<Rightarrow> rj_User j = [] \<and> filter is_removal (teardowns (snd (rj_Run P E j w))) = filter is_removal (teardowns w)
      | ObExec j \<Rightarrow> ej_User j = []
      | ObCompose j \<Rightarrow> cj_File j = [] \<longrightarrow> (\<exists>err. cj_Run GetArgs LookPath exec j = (Some err, []))
      | _ \<Rightarrow> True) \<and>
    jl_HistoryLimit (sv_logs (alloc_job new req ob sv) new) = 0"
proof -
  have "\<not> ParseBool []" by (simp add: ParseBool_def)
  then have run: "filter is_removal (teardowns (snd (rj_Run P E j w))) = filter is_removal (teardowns w)" if "rj_Delete j = []" for j
    using no_delete_no_removal [of j P E w] that by simp
  have comp: "\<exists>err. cj_Run GetArgs LookPath exec j = (Some err, [])" if "cj_File j = []" for j
  proof -
    have "ValidateFilePath [] \<noteq> None" by (simp add: ValidateFilePath_def)
    then show ?thesis using that by (auto simp: cj_Run_def cj_buildCommand_def)
  qed
  show ?thesis
    using assms run comp
    by (auto simp: jobFromRequest_def zero_run_def zero_exec_def alloc_job_def new_log_def Let_def
        split: if_splits option.splits)
qed

theorem api_jobs_lack_defaults_witness:
  "\<forall>LookPath exec. \<exists>err. cj_Run (\<lambda>c. [c]) LookPath exec \<lparr>cj_Command = [], cj_File = [], cj_Service = ''web'', cj_Exec = False\<rparr> = (Some err, [])"
proof (intro allI)
  fix LookPath exec
  let ?req = "(local_request ''a'')\<lparr>jr_Type := ''compose'', jr_Service := ''web''\<rparr>"
  have "ValidateServiceName ''web'' = None" by code_simp
  then have "jobFromRequest (\<lambda>c. [c]) True ?req = Inr (ObCompose \<lparr>cj_Command = [], cj_File = [], cj_Service = ''web'', cj_Exec = False\<rparr>)"
    by (simp add: jobFromRequest_def local_request_def check_command_def)
  from conjunct1 [OF api_jobs_lack_defaults [OF this, where LookPath = LookPath and exec = exec]]
  show "\<exists>err. cj_Run (\<lambda>c. [c]) LookPath exec \<lparr>cj_Command = [], cj_File = [], cj_Service = ''web'', cj_Exec = False\<rparr> = (Some err, [])"
    by simp
qed

section \<open>Sessions\<close>

lemma login_session:
  assumes "le_auth_random (we_login we) = Inr t" "le_csrf_random (we_login we) = Inr c" "t \<noteq> []"
    "sv_authConfig sv = Some a" "sv_tokenManager sv = Some tm"
    "rs_Status (fst (loginHandler we now r fresh_response sv)) = 200"
  shows "\<exists>tm'. sv_tokenManager (snd (loginHandler we now r fresh_response sv)) = Some tm' \<and>
    tm_tokens tm' = (tm_tokens tm)(t \<mapsto> \<lparr>td_Username = ac_Username a, td_ExpiresAt = now + tm_tokenExpiry tm\<rparr>)"
proof -
  obtain w' tm' rl' where l: "login_ServeHTTP (we_login we) a (sv_trustedProxies sv) now r fresh_response (tm, sv_loginLimiter sv) = (w', tm', rl')"
    by (metis prod_cases3)
  have "rs_Status w' = 200" and "sv_tokenManager (snd (loginHandler we now r fresh_response sv)) = Some tm'"
    using assms(4-6) l by (simp_all add: loginHandler_def)
  then show ?thesis
    using login_outcome [OF assms(1,2), of a "sv_trustedProxies sv" now r tm "sv_loginLimiter sv"]
    by (auto simp: l Let_def split: if_splits)
qed

lemma session_after_logout:
  assumes "rq_Method r = ''POST''" "extractToken r \<noteq> []"
  shows "session_of later r' (snd (logoutHandler r w sv)) =
    (if extractToken r' = extractToken r then None else session_of later r' sv)"
  using assms
  by (auto simp: logoutHandler_def Let_def session_of_def RevokeToken_def ValidateToken_def split: option.splits)

text \<open>C13 (session_lifecycle): a successful login opens a session of the configured user for every request that carries
  the token, in the header or in the cookie, until the token expires; a request to log out that carries the token ends
  it for every later request, and leaves the sessions of all other tokens alone.\<close>

theorem session_lifecycle:
  assumes "le_auth_random (we_login we) = Inr t" "le_csrf_random (we_login we) = Inr c" "t \<noteq> []"
    "sv_authConfig sv = Some a" "sv_tokenManager sv = Some tm"
    "rs_Status (fst (loginHandler we now r fresh_response sv)) = 200"
    "extractToken q = t" "rq_Method out = ''POST''" "extractToken out = t"
  shows "let sv1 = snd (loginHandler we now r fresh_response sv); sv2 = snd (logoutHandler out w sv1)
    in session_of later q sv1 =
         (if later \<le> now + tm_tokenExpiry tm
          then Some \<lparr>td_Username = ac_Username a, td_ExpiresAt = now + tm_tokenExpiry tm\<rparr> else None) \<and>
       session_of later q sv2 = None \<and>
       session_of later p sv2 = (if extractToken p = t then None else session_of later p sv)"
proof -
  obtain tm' where l: "sv_tokenManager (snd (loginHandler we now r fresh_response sv)) = Some tm'"
    "tm_tokens tm' = (tm_tokens tm)(t \<mapsto> \<lparr>td_Username = ac_Username a, td_ExpiresAt = now + tm_tokenExpiry tm\<rparr>)"
    using login_session [OF assms(1-6)] by blast
  let ?sv1 = "snd (loginHandler we now r fresh_response sv)"
  have other: "session_of later p ?sv1 = session_of later p sv" if "extractToken p \<noteq> t"
    using that l assms(5) by (simp add: session_of_def ValidateToken_def)
  have own: "session_of later q ?sv1 = (if later \<le> now + tm_tokenExpiry tm
      then Some \<lparr>td_Username = ac_Username a, td_ExpiresAt = now + tm_tokenExpiry tm\<rparr> else None)"
    using l assms(3,7) by (simp add: session_of_def ValidateToken_def)
  have ended: "session_of later x (snd (logoutHandler out w ?sv1)) = (if extractToken x = t then None else session_of later x ?sv1)" for x
    using session_after_logout [OF assms(8), of later x w ?sv1] assms(3,9) by simp
  show ?thesis using other by (simp add: Let_def own ended assms(7))
qed

text \<open>A server with one user.\<close>

definition guarded_server :: "(cron_entry list, unit, nat) Server" where
  "guarded_server = demo_server\<lparr>sv_authConfig := Some demo_auth, sv_tokenManager := Some demo_tm\<rparr>"

definition with_bearer :: "string \<Rightarrow> request \<Rightarrow> request" where
  "with_bearer t r = r\<lparr>rq_Header := (\<lambda>k. if k = ''Authorization'' then ''Bearer '' @ t else [])\<rparr>"

lemma bearer_token: "extractToken (with_bearer t r) = t"
  by (simp add: extractToken_def with_bearer_def HasPrefix_def)

theorem session_lifecycle_witness:
  "let sv1 = snd (loginHandler (demo_env 1) 7 demo_request fresh_response guarded_server) in
   session_of 8 (with_bearer ''t1'' demo_request) sv1 = Some \<lparr>td_Username = ''ann'', td_ExpiresAt = 7 + 24 * hour\<rparr> \<and>
   session_of 8 (with_bearer ''t1'' demo_request)
     (snd (logoutHandler (with_bearer ''t1'' (post ''/api/logout'' [])) fresh_response sv1)) = None"
proof -
  have e: "we_login (demo_env k) = demo_login" for k by (simp add: demo_env_def)
  have le: "le_auth_random demo_login = Inr ''t1''" "le_csrf_random demo_login = Inr ''c1''"
    by (simp_all add: demo_login_def)
  have g: "sv_authConfig guarded_server = Some demo_auth" "sv_tokenManager guarded_server = Some demo_tm"
    by (simp_all add: guarded_server_def)
  have d: "tm_tokenExpiry demo_tm = 24 * hour" "ac_Username demo_auth = ''ann''" by (simp_all add: demo_tm_def demo_auth_def)
  have m: "rq_Method (with_bearer ''t1'' (post ''/api/logout'' [])) = ''POST''" by (simp add: with_bearer_def post_def)
  have f: "sv_trustedProxies guarded_server = []" "sv_loginLimiter guarded_server = new_login_limiter 5 5"
    by (simp_all add: guarded_server_def demo_server_def)
  have "rs_Status (fst (loginHandler (demo_env 1) 7 demo_request fresh_response guarded_server)) = 200"
    using demo_login_status by (simp add: loginHandler_def g e f split_beta)
  from session_lifecycle [where w = fresh_response and later = 8 and t = "''t1''" and c = "''c1''", OF _ _ _ g this bearer_token m bearer_token] e le d
  show ?thesis by (simp add: Let_def bearer_token)
qed

theorem no_session_no_api_witness:
  "rs_Status (fst (serve (demo_env 1) 7 (post ''/api/jobs/create'' ''a'') guarded_server)) = 401"
proof -
  have "auth_enabled guarded_server" by (simp add: auth_enabled_def guarded_server_def demo_auth_def)
  moreover have "session_of 7 (post ''/api/jobs/create'' ''a'') guarded_server = None"
    by (simp add: session_of_def extractToken_def post_def HasPrefix_def)
  moreover have "sv_health guarded_server = None" by (simp add: guarded_server_def demo_server_def)
  moreover have "mux_match (routes True False) ''/api/jobs/create'' = Some EpCreate" by code_simp
  moreover have "\<not> public EpCreate" by (simp add: public_def)
  ultimately show ?thesis using no_session_no_api [of guarded_server 7 "post ''/api/jobs/create'' ''a''" "demo_env 1"] by simp
qed

section \<open>Security headers\<close>

definition secured :: "response \<Rightarrow> bool" where
  "secured w \<longleftrightarrow> list_all (\<lambda>(k, v). rs_Header w k = Some v) security_header_values"

lemma secured_keep [simp]:
  "secured w \<Longrightarrow> secured (http_Error m c w)" "secured w \<Longrightarrow> secured (send_json j w)"
  "secured (set_cookie ck w) \<longleftrightarrow> secured w" "secured (write_status n w) \<longleftrightarrow> secured w"
  "secured (w\<lparr>rs_Body := b\<rparr>) \<longleftrightarrow> secured w" "secured (w\<lparr>rs_Status := n\<rparr>) \<longleftrightarrow> secured w"
  "secured w \<Longrightarrow> secured (set_header ''Content-Type'' v w)" "secured w \<Longrightarrow> secured (set_header ''Location'' v w)"
  by (simp_all add: secured_def security_header_values_def http_Error_def set_header_def send_json_def write_status_def set_cookie_def)

lemma secured_set: "secured (fold (\<lambda>(k, v). set_header k v) security_header_values w)"
  by (simp add: secured_def security_header_values_def)

lemma secured_hsts: "secured w \<Longrightarrow> secured (set_header ''Strict-Transport-Security'' v w)"
  by (simp add: secured_def security_header_values_def)

lemma secured_decode: "secured w \<Longrightarrow> decode_request we r w = Inl w' \<Longrightarrow> secured w'"
  by (auto simp: decode_request_def split: if_splits option.splits)

lemma secured_login: "secured w \<Longrightarrow> secured (fst (login_ServeHTTP le cfg nets now r w st))"
  by (cases st) (auto simp: login_ServeHTTP_def issue_tokens_def Let_def split: prod.splits option.splits sum.splits bool.splits)

lemma secured_endpoint:
  assumes "secured w" "\<And>p w. secured w \<Longrightarrow> secured (we_static we p w)"
  shows "secured (fst (serve_endpoint we now e r w sv))"
proof (cases e)
  case EpLogin
  then show ?thesis
    by (simp add: serve_endpoint_def loginHandler_def split_beta secured_login assms(1) split: option.splits)
next
  case EpUpdate
  then show ?thesis using assms(1)
    by (auto simp: serve_endpoint_def updateJobHandler_def Let_def secured_decode split: sum.splits prod.splits option.splits)
qed (use assms in \<open>auto simp: serve_endpoint_def logoutHandler_def authStatusHandler_def csrfTokenHandler_def removedJobsHandler_def
    disabledJobsHandler_def jobsHandler_def list_handler_def runJobHandler_def disableJobHandler_def enableJobHandler_def
    toggleJobHandler_def createJobHandler_def deleteJobHandler_def historyHandler_def configHandler_def HealthHandler_def
    ReadinessHandler_def LivenessHandler_def Let_def secured_decode split: sum.splits prod.splits option.splits\<close>)

text \<open>(headers_behind_the_gate): a response carries the security headers exactly when the request has passed the
  authentication and the limiter: whatever endpoint serves it, all of them are set; the responses that these two
  middlewares write themselves have none of the headers against framing and injection.\<close>

theorem headers_behind_the_gate:
  assumes "\<And>p w. secured w \<Longrightarrow> secured (we_static we p w)"
  shows "let w = fst (serve we now r sv); gated = (auth_enabled sv \<and> HasPrefix (rq_Path r) ''/api/'' \<and>
        rq_Path r \<notin> set exempt_paths \<and> session_of now r sv = None);
      refused = (gated \<or> \<not> fst (rl_admit now (rl_client r (wl_trustedProxies (sv_rl sv))) (sv_rl sv)))
    in secured w \<longleftrightarrow> \<not> refused"
proof -
  have mux: "secured (fst (mux_ServeHTTP we now q w sv))" if "secured w" for q w
    using that secured_endpoint [OF that assms] by (auto simp: mux_ServeHTTP_def Let_def split: option.splits)
  have inner: "secured (fst (securityHeaders (mux_ServeHTTP we now) q w sv))" for q w
    by (simp add: securityHeaders_def Let_def mux secured_set secured_hsts)
  have none: "\<not> secured (http_Error m c fresh_response)" for m c
    by (simp add: secured_def security_header_values_def http_Error_def)
  have lim: "secured (fst (limited we now q fresh_response sv)) \<longleftrightarrow> fst (rl_admit now (rl_client q (wl_trustedProxies (sv_rl sv))) (sv_rl sv))" for q
    by (auto simp: limited_cases inner none Let_def split: prod.splits bool.splits)
  have cl: "rl_client (q\<lparr>rq_Header := (rq_Header q)(''X-Auth-User'' := u)\<rparr>) ns = rl_client q ns" for q u ns
    by (simp add: rl_client_def Let_def)
  show ?thesis
    by (auto simp: Let_def serve_def authMiddleware_def session_of_def none lim cl split: option.splits)
qed

theorem headers_behind_the_gate_witness:
  "\<not> secured (fst (serve (demo_env 1) 7 (post ''/api/jobs/create'' ''a'') guarded_server))"
proof -
  have "secured w \<Longrightarrow> secured (we_static (demo_env 1) p w)" for p w by (simp add: demo_env_def)
  moreover have "auth_enabled guarded_server" by (simp add: auth_enabled_def guarded_server_def demo_auth_def)
  moreover have "session_of 7 (post ''/api/jobs/create'' ''a'') guarded_server = None"
    by (simp add: session_of_def extractToken_def post_def HasPrefix_def)
  moreover have "HasPrefix ''/api/jobs/create'' ''/api/'' \<and> ''/api/jobs/create'' \<notin> set exempt_paths" by code_simp
  ultimately show ?thesis
    using headers_behind_the_gate [of "demo_env 1" 7 "post ''/api/jobs/create'' ''a''" guarded_server] by (simp add: Let_def)
qed

end
