(* ===== verification/Daemon.thy ===== *)
theory Daemon
  imports Deprecations Shutdown WebApi
begin

text \<open>
  The daemon process (\<^verbatim>\<open>src/cli/daemon.go\<close>): how options of the command line and of the INI file combine, the start-up
  sequence with the web server it creates, the wait for a server to answer, and the life of the process with its
  shutdown. Reading the INI file and \<^verbatim>\<open>InitializeApp\<close> (modelled in \<open>Reload\<close>) are arguments here, with the settings this
  part reads as their results.
\<close>

section \<open>Options\<close>

definition defaultWebAddr :: string where "defaultWebAddr = '':8081''"
definition defaultPprofAddr :: string where "defaultPprofAddr = ''127.0.0.1:8080''"

record DaemonCommand =
  c_DockerFilters :: "string list"
  c_DockerPollInterval :: "duration option"
  c_DockerUseEvents :: "bool option"
  c_DockerNoPoll :: "bool option"
  c_DockerIncludeStopped :: "bool option"
  c_LogLevel :: string
  c_EnablePprof :: bool
  c_PprofAddr :: string
  c_EnableWeb :: bool
  c_WebAddr :: string
  c_WebAuthEnabled :: bool
  c_WebUsername :: string
  c_WebPasswordHash :: string
  c_WebSecretKey :: string
  c_WebTokenExpiry :: int
  c_WebMaxLoginAttempts :: int
  c_WebTrustedProxies :: "string list"

record WebGlobals =
  wg_LogLevel :: string
  wg_EnableWeb :: bool
  wg_WebAddr :: string
  wg_WebAuthEnabled :: bool
  wg_WebUsername :: string
  wg_WebPasswordHash :: string
  wg_WebSecretKey :: string
  wg_WebTokenExpiry :: int
  wg_WebMaxLoginAttempts :: int
  wg_WebTrustedProxies :: "string list"
  wg_EnablePprof :: bool
  wg_PprofAddr :: string

record daemon_config =
  dq_Global :: WebGlobals
  dq_Docker :: DockerConfig

definition applyWebOptions :: "DaemonCommand \<Rightarrow> WebGlobals \<Rightarrow> WebGlobals" where
  "applyWebOptions c g =
     (let g1 = (if c_EnableWeb c then g\<lparr>wg_EnableWeb := True\<rparr> else g)
      in if c_WebAddr c \<noteq> defaultWebAddr then g1\<lparr>wg_WebAddr := c_WebAddr c\<rparr> else g1)"

definition applyAuthOptions :: "DaemonCommand \<Rightarrow> WebGlobals \<Rightarrow> WebGlobals" where
  "applyAuthOptions c g =
     (let g1 = (if c_WebAuthEnabled c then g\<lparr>wg_WebAuthEnabled := True\<rparr> else g);
          g2 = (if c_WebUsername c \<noteq> [] then g1\<lparr>wg_WebUsername := c_WebUsername c\<rparr> else g1);
          g3 = (if c_WebPasswordHash c \<noteq> [] then g2\<lparr>wg_WebPasswordHash := c_WebPasswordHash c\<rparr> else g2);
          g4 = (if c_WebSecretKey c \<noteq> [] then g3\<lparr>wg_WebSecretKey := c_WebSecretKey c\<rparr> else g3);
          g5 = (if c_WebTokenExpiry c \<noteq> 24 then g4\<lparr>wg_WebTokenExpiry := c_WebTokenExpiry c\<rparr> else g4);
          g6 = (if c_WebMaxLoginAttempts c \<noteq> 5 then g5\<lparr>wg_WebMaxLoginAttempts := c_WebMaxLoginAttempts c\<rparr> else g5)
      in if 0 < length (c_WebTrustedProxies c) then g6\<lparr>wg_WebTrustedProxies := c_WebTrustedProxies c\<rparr> else g6)"

definition applyServerOptions :: "DaemonCommand \<Rightarrow> WebGlobals \<Rightarrow> WebGlobals" where
  "applyServerOptions c g =
     (let g1 = (if c_EnablePprof c then g\<lparr>wg_EnablePprof := True\<rparr> else g);
          g2 = (if c_PprofAddr c \<noteq> defaultPprofAddr then g1\<lparr>wg_PprofAddr := c_PprofAddr c\<rparr> else g1)
      in if c_LogLevel c \<noteq> [] then g2\<lparr>wg_LogLevel := c_LogLevel c\<rparr> else g2)"

definition applyDockerOptions :: "DaemonCommand \<Rightarrow> DockerConfig \<Rightarrow> DockerConfig" where
  "applyDockerOptions c d =
     (let d1 = (if 0 < length (c_DockerFilters c) then d\<lparr>dc_Filters := c_DockerFilters c\<rparr> else d);
          d2 = (case c_DockerPollInterval c of Some x \<Rightarrow> d1\<lparr>dc_PollInterval := x\<rparr> | None \<Rightarrow> d1);
          d3 = (case c_DockerUseEvents c of Some x \<Rightarrow> d2\<lparr>dc_UseEvents := x\<rparr> | None \<Rightarrow> d2);
          d4 = (case c_DockerNoPoll c of Some x \<Rightarrow> d3\<lparr>dc_DisablePolling := x\<rparr> | None \<Rightarrow> d3)
      in case c_DockerIncludeStopped c of Some x \<Rightarrow> d4\<lparr>dc_IncludeStopped := x\<rparr> | None \<Rightarrow> d4)"

definition applyOptions :: "DaemonCommand \<Rightarrow> daemon_config \<Rightarrow> daemon_config" where
  "applyOptions c cfg =
     cfg\<lparr>dq_Docker := applyDockerOptions c (dq_Docker cfg),
         dq_Global := applyServerOptions c (applyAuthOptions c (applyWebOptions c (dq_Global cfg)))\<rparr>"

definition applyWebDefaults :: "WebGlobals \<Rightarrow> DaemonCommand \<Rightarrow> DaemonCommand" where
  "applyWebDefaults g c =
     (let c1 = (if \<not> c_EnableWeb c then c\<lparr>c_EnableWeb := wg_EnableWeb g\<rparr> else c)
      in if c_WebAddr c1 = defaultWebAddr \<and> wg_WebAddr g \<noteq> [] then c1\<lparr>c_WebAddr := wg_WebAddr g\<rparr> else c1)"

text \<open>The statements of this function each test and set one field of their own.\<close>

definition applyAuthDefaults :: "WebGlobals \<Rightarrow> DaemonCommand \<Rightarrow> DaemonCommand" where
  "applyAuthDefaults g c =
     c\<lparr>c_WebAuthEnabled := (if \<not> c_WebAuthEnabled c then wg_WebAuthEnabled g else c_WebAuthEnabled c),
       c_WebUsername := (if c_WebUsername c = [] \<and> wg_WebUsername g \<noteq> [] then wg_WebUsername g else c_WebUsername c),
       c_WebPasswordHash := (if c_WebPasswordHash c = [] \<and> wg_WebPasswordHash g \<noteq> [] then wg_WebPasswordHash g else c_WebPasswordHash c),
       c_WebSecretKey := (if c_WebSecretKey c = [] \<and> wg_WebSecretKey g \<noteq> [] then wg_WebSecretKey g else c_WebSecretKey c),
       c_WebTokenExpiry := (if c_WebTokenExpiry c = 24 \<and> wg_WebTokenExpiry g \<noteq> 0 then wg_WebTokenExpiry g else c_WebTokenExpiry c),
       c_WebMaxLoginAttempts := (if c_WebMaxLoginAttempts c = 5 \<and> wg_WebMaxLoginAttempts g \<noteq> 0
         then wg_WebMaxLoginAttempts g else c_WebMaxLoginAttempts c),
       c_WebTrustedProxies := (if length (c_WebTrustedProxies c) = 0 \<and> 0 < length (wg_WebTrustedProxies g)
         then wg_WebTrustedProxies g else c_WebTrustedProxies c)\<rparr>"

definition applyServerDefaults :: "WebGlobals \<Rightarrow> DaemonCommand \<Rightarrow> DaemonCommand" where
  "applyServerDefaults g c =
     (let c1 = (if \<not> c_EnablePprof c then c\<lparr>c_EnablePprof := wg_EnablePprof g\<rparr> else c)
      in if c_PprofAddr c1 = defaultPprofAddr \<and> wg_PprofAddr g \<noteq> [] then c1\<lparr>c_PprofAddr := wg_PprofAddr g\<rparr> else c1)"

definition applyConfigDefaults :: "daemon_config \<Rightarrow> DaemonCommand \<Rightarrow> DaemonCommand" where
  "applyConfigDefaults cfg c = applyServerDefaults (dq_Global cfg) (applyAuthDefaults (dq_Global cfg) (applyWebDefaults (dq_Global cfg) c))"

section \<open>Start-up\<close>

text \<open>The settings of a configuration without a file: \<^verbatim>\<open>NewConfig\<close> sets the defaults that the struct tags name.\<close>

definition NewConfig :: daemon_config where
  "NewConfig = \<lparr>
     dq_Global = \<lparr>wg_LogLevel = [], wg_EnableWeb = False, wg_WebAddr = '':8081'', wg_WebAuthEnabled = False, wg_WebUsername = [],
       wg_WebPasswordHash = [], wg_WebSecretKey = [], wg_WebTokenExpiry = 24, wg_WebMaxLoginAttempts = 5, wg_WebTrustedProxies = [],
       wg_EnablePprof = False, wg_PprofAddr = ''127.0.0.1:8080''\<rparr>,
     dq_Docker = \<lparr>dc_Filters = [], dc_IncludeStopped = False, dc_ConfigPollInterval = 10 * second, dc_UseEvents = True,
       dc_DockerPollInterval = 0, dc_PollingFallback = 10 * second, dc_PollInterval = 0, dc_DisablePolling = False\<rparr>\<rparr>"

text \<open>What the steps of \<^verbatim>\<open>boot\<close> return: the INI file and \<^verbatim>\<open>InitializeApp\<close>, which may change the
  configuration through labels. The web server is built on the scheduler, objects and logs that \<^verbatim>\<open>InitializeApp\<close> leaves.\<close>

record boot_env =
  be_BuildFromFile :: "go_error + daemon_config"
  be_InitializeApp :: "daemon_config \<Rightarrow> result \<times> daemon_config"

record ('c, 'w, 'l) booted =
  bo_result :: result
  bo_cmd :: DaemonCommand
  bo_config :: daemon_config
  bo_level :: slog_level
  bo_handlerConfig :: DockerConfig
  bo_hooks :: ShutdownManager
  bo_web :: "('c, 'w, 'l) Server option"

definition ErrWebAuthUsername :: go_error where
  "ErrWebAuthUsername = Opaque 42 ''web-auth-enabled requires web-username to be set''"

definition ErrWebAuthPassword :: go_error where
  "ErrWebAuthPassword = Opaque 43 ''web-auth-enabled requires web-password-hash to be set''"

definition boot_auth :: "DaemonCommand \<Rightarrow> go_error + SecureAuthConfig option" where
  "boot_auth c =
     (if \<not> c_WebAuthEnabled c then Inr None
      else if c_WebUsername c = [] then Inl ErrWebAuthUsername
      else if c_WebPasswordHash c = [] then Inl ErrWebAuthPassword
      else Inr (Some \<lparr>ac_Enabled = True, ac_Username = c_WebUsername c, ac_PasswordHash = c_WebPasswordHash c,
                      ac_SecretKey = c_WebSecretKey c, ac_TokenExpiry = c_WebTokenExpiry c,
                      ac_MaxAttempts = c_WebMaxLoginAttempts c, ac_TrustedProxies = c_WebTrustedProxies c\<rparr>))"

definition boot ::
  "boot_env \<Rightarrow> (SecureAuthConfig option \<Rightarrow> ('c, 'w, 'l) Server option) \<Rightarrow> HealthChecker \<Rightarrow> DaemonCommand \<Rightarrow> slog_level \<Rightarrow>
   go_error + ('c, 'w, 'l) booted" where
  "boot be NewServer hc c0 level =
     (case ApplyLogLevel (c_LogLevel c0) level of
        (Some err, _) \<Rightarrow> Inl (Errorf [Lit ''invalid log level configuration: '', Wrap err])
      | (None, level1) \<Rightarrow>
          let sm = NewShutdownManager (30 * second);
              file = (case be_BuildFromFile be of Inl _ \<Rightarrow> NewConfig | Inr cfg \<Rightarrow> cfg);
              cfg1 = applyOptions c0 file;
              c1 = applyConfigDefaults cfg1 c0;
              level2 = (if c_LogLevel c1 = [] then snd (ApplyLogLevel (wg_LogLevel (dq_Global cfg1)) level1) else level1)
          in case be_InitializeApp be cfg1 of (err, cfg2) \<Rightarrow>
             let cfg3 = applyOptions c1 cfg2;
                 sm1 = NewGracefulScheduler sm;
                 b = \<lparr>bo_result = err, bo_cmd = c1, bo_config = cfg3, bo_level = level2, bo_handlerConfig = dq_Docker cfg1,
                      bo_hooks = sm1, bo_web = None\<rparr>
             in if \<not> c_EnableWeb c1 then Inr b
                else case boot_auth c1 of
                  Inl e \<Rightarrow> Inr (b\<lparr>bo_result := Some e\<rparr>)
                | Inr auth \<Rightarrow>
                    (case NewServer auth of
                       None \<Rightarrow> Inr (b\<lparr>bo_result := Some (Opaque 44 ''failed to initialize web server (check logs for details)'')\<rparr>)
                     | Some sv \<Rightarrow> Inr (b\<lparr>bo_hooks := NewGracefulServer sm1, bo_web := Some (RegisterHealthEndpoints hc sv)\<rparr>)))"

text \<open>Waiting for a server: the deadline, a value of its error channel, or a probe of the port every 50 ms.\<close>

datatype wait_event = WaitDeadline | WaitError result | WaitProbe bool

fun waitForServerWithErrChan :: "go_error \<Rightarrow> wait_event list \<Rightarrow> result option" where
  "waitForServerWithErrChan deadline [] = None"
| "waitForServerWithErrChan deadline (WaitDeadline # es) = Some (Some (Errorf [Lit ''timeout waiting for server: '', Wrap deadline]))"
| "waitForServerWithErrChan deadline (WaitError e # es) =
     (case e of Some err \<Rightarrow> Some (Some (Errorf [Lit ''server failed to start: '', Wrap err])) | None \<Rightarrow> waitForServerWithErrChan deadline es)"
| "waitForServerWithErrChan deadline (WaitProbe up # es) = (if up then Some None else waitForServerWithErrChan deadline es)"

text \<open>\<^verbatim>\<open>start\<close>: the scheduler, then the pprof server, then the web server; the waits are given by their results.\<close>

definition daemon_start :: "result \<Rightarrow> result \<Rightarrow> result \<Rightarrow> DaemonCommand \<Rightarrow> result" where
  "daemon_start schedulerStart pprofWait webWait c =
     (case schedulerStart of
        Some err \<Rightarrow> Some (Errorf [Lit ''failed to start scheduler: '', Wrap err])
      | None \<Rightarrow>
          (case (if c_EnablePprof c then pprofWait else None) of
             Some err \<Rightarrow> Some (Errorf [Lit ''pprof server startup failed: '', Wrap err])
           | None \<Rightarrow>
               (case (if c_EnableWeb c then webWait else None) of
                  Some err \<Rightarrow> Some (Errorf [Lit ''web server startup failed: '', Wrap err])
                | None \<Rightarrow> None)))"

section \<open>The life of the process\<close>

text \<open>
  \<^verbatim>\<open>Execute\<close> after \<^verbatim>\<open>boot\<close>: the main goroutine is in \<^verbatim>\<open>start\<close>, then waits for the channel \<^verbatim>\<open>done\<close>, then leaves
  \<^verbatim>\<open>main\<close>, which ends the process with all its goroutines. The signal handler takes one signal and runs the
  shutdown manager; a goroutine closes \<^verbatim>\<open>done\<close> when the shutdown has begun; each server goroutine that fails puts its error
  into its channel and then closes \<^verbatim>\<open>done\<close>.
\<close>

datatype daemon_server = PprofServer | WebServer

datatype main_phase = BeforeScheduler | BeforePprof | AwaitPprof | BeforeWeb | AwaitWeb | AwaitDone | Returned result

record process =
  pr_cmd :: DaemonCommand
  pr_sm :: ShutdownManager
  pr_run :: "shutdown_run option"
  pr_serving :: "daemon_server set"
  pr_errCh :: "daemon_server \<Rightarrow> result"
  pr_closing :: "daemon_server set"
  pr_done :: bool
  pr_main :: main_phase

datatype process_action =
    SchedulerStarts result | PprofStage | PprofAwaited go_error "wait_event list" | WebStage | WebAwaited go_error "wait_event list"
  | MainReturns | ShutdownSignal | DoneByShutdown | ServerFails daemon_server go_error | DoneByServer daemon_server | HookStep

fun exited :: "main_phase \<Rightarrow> bool" where
  "exited (Returned r) = True"
| "exited _ = False"

text \<open>What a wait can read from the error channel.\<close>

fun errors_from :: "result \<Rightarrow> wait_event list \<Rightarrow> bool" where
  "errors_from ch [] = True"
| "errors_from ch (WaitError e # es) = (e \<noteq> None \<and> e = ch \<and> errors_from ch es)"
| "errors_from ch (x # es) = errors_from ch es"

definition after_scheduler :: "result \<Rightarrow> main_phase" where
  "after_scheduler r =
     (case r of Some err \<Rightarrow> Returned (Some (Errorf [Lit ''failed to start scheduler: '', Wrap err])) | None \<Rightarrow> BeforePprof)"

definition after_pprof :: "result \<Rightarrow> main_phase" where
  "after_pprof r =
     (case r of Some err \<Rightarrow> Returned (Some (Errorf [Lit ''pprof server startup failed: '', Wrap err])) | None \<Rightarrow> BeforeWeb)"

definition after_web :: "result \<Rightarrow> main_phase" where
  "after_web r =
     (case r of Some err \<Rightarrow> Returned (Some (Errorf [Lit ''web server startup failed: '', Wrap err])) | None \<Rightarrow> AwaitDone)"

inductive process_step :: "process \<Rightarrow> process_action \<Rightarrow> process \<Rightarrow> bool" where
  scheduler_starts: "pr_main p = BeforeScheduler \<Longrightarrow> process_step p (SchedulerStarts r) (p\<lparr>pr_main := after_scheduler r\<rparr>)"
| pprof_stage: "pr_main p = BeforePprof \<Longrightarrow>
     process_step p PprofStage
       (if c_EnablePprof (pr_cmd p) then p\<lparr>pr_serving := insert PprofServer (pr_serving p), pr_main := AwaitPprof\<rparr>
        else p\<lparr>pr_main := BeforeWeb\<rparr>)"
| pprof_awaited: "pr_main p = AwaitPprof \<Longrightarrow> errors_from (pr_errCh p PprofServer) es \<Longrightarrow> waitForServerWithErrChan deadline es = Some r \<Longrightarrow>
     process_step p (PprofAwaited deadline es) (p\<lparr>pr_main := after_pprof r\<rparr>)"
| web_stage: "pr_main p = BeforeWeb \<Longrightarrow>
     process_step p WebStage
       (if c_EnableWeb (pr_cmd p) then p\<lparr>pr_serving := insert WebServer (pr_serving p), pr_main := AwaitWeb\<rparr>
        else p\<lparr>pr_main := AwaitDone\<rparr>)"
| web_awaited: "pr_main p = AwaitWeb \<Longrightarrow> errors_from (pr_errCh p WebServer) es \<Longrightarrow> waitForServerWithErrChan deadline es = Some r \<Longrightarrow>
     process_step p (WebAwaited deadline es) (p\<lparr>pr_main := after_web r\<rparr>)"
| main_returns: "pr_main p = AwaitDone \<Longrightarrow> pr_done p \<Longrightarrow> process_step p MainReturns (p\<lparr>pr_main := Returned None\<rparr>)"
| shutdown_signal: "\<not> exited (pr_main p) \<Longrightarrow> pr_run p = None \<Longrightarrow> shutdown_begin (pr_sm p) = (sm, r) \<Longrightarrow>
     process_step p ShutdownSignal (p\<lparr>pr_sm := sm, pr_run := Some r\<rparr>)"
| done_by_shutdown: "\<not> exited (pr_main p) \<Longrightarrow> sm_isShuttingDown (pr_sm p) \<Longrightarrow> process_step p DoneByShutdown (p\<lparr>pr_done := True\<rparr>)"
| server_fails: "\<not> exited (pr_main p) \<Longrightarrow> s \<in> pr_serving p \<Longrightarrow>
     process_step p (ServerFails s e)
       (p\<lparr>pr_serving := pr_serving p - {s}, pr_errCh := (pr_errCh p)(s := Some e), pr_closing := insert s (pr_closing p)\<rparr>)"
| done_by_server: "\<not> exited (pr_main p) \<Longrightarrow> s \<in> pr_closing p \<Longrightarrow>
     process_step p (DoneByServer s) (p\<lparr>pr_closing := pr_closing p - {s}, pr_done := True\<rparr>)"
| hook_step: "\<not> exited (pr_main p) \<Longrightarrow> pr_run p = Some r \<Longrightarrow> shutdown_step r r' \<Longrightarrow> process_step p HookStep (p\<lparr>pr_run := Some r'\<rparr>)"

inductive_cases process_stepE: "process_step p a q"

definition new_process :: "DaemonCommand \<Rightarrow> ShutdownManager \<Rightarrow> process" where
  "new_process c sm = \<lparr>pr_cmd = c, pr_sm = sm, pr_run = None, pr_serving = {}, pr_errCh = (\<lambda>_. None), pr_closing = {},
     pr_done = False, pr_main = BeforeScheduler\<rparr>"

section \<open>Theorems on options\<close>

text \<open>Docker settings from the command line are settings of the deprecated options.\<close>

lemma applyDockerOptions_fields [simp]:
  "dc_ConfigPollInterval (applyDockerOptions c d) = dc_ConfigPollInterval d"
  "dc_DockerPollInterval (applyDockerOptions c d) = dc_DockerPollInterval d"
  "dc_PollingFallback (applyDockerOptions c d) = dc_PollingFallback d"
  "dc_UseEvents (applyDockerOptions c d) = (case c_DockerUseEvents c of Some x \<Rightarrow> x | None \<Rightarrow> dc_UseEvents d)"
  "dc_IncludeStopped (applyDockerOptions c d) = (case c_DockerIncludeStopped c of Some x \<Rightarrow> x | None \<Rightarrow> dc_IncludeStopped d)"
  "dc_Filters (applyDockerOptions c d) = (if c_DockerFilters c = [] then dc_Filters d else c_DockerFilters c)"
  by (simp_all add: applyDockerOptions_def Let_def split: option.split)

lemma handler_config:
  "NewDockerHandler d given newProvider sdkPing ping = NewDockerHandler d' given newProvider sdkPing ping"
  if "dc_Filters d = dc_Filters d'" "dc_IncludeStopped d = dc_IncludeStopped d'" "resolveConfig d = resolveConfig d'"
  unfolding NewDockerHandler_def that ..

text \<open>(cli_polling_flags_ignored): The options docker-poll-interval and docker-no-poll of the command line have no effect on the Docker
  handler: they set the deprecated fields after the migration of those fields. In the INI file no-poll turns the
  fallback polling off.\<close>
theorem cli_polling_flags_ignored:
  "NewDockerHandler (dq_Docker (applyOptions c cfg)) given newProvider sdkPing ping =
     NewDockerHandler (dq_Docker (applyOptions (c\<lparr>c_DockerPollInterval := None, c_DockerNoPoll := None\<rparr>) cfg)) given newProvider sdkPing ping \<and>
   dc_PollingFallback (dg_Docker (ApplyDeprecationMigrationsWithKeys None (f\<lparr>dg_Docker := d\<lparr>dc_DisablePolling := True\<rparr>\<rparr>))) = 0"
  by (intro conjI handler_config)
    (simp_all add: applyOptions_def resolveConfig_def migrations_docker migrate_docker_set no_poll_dep_def)

text \<open>A conditional update as an update by a conditional value.\<close>

lemma cond_set:
  "(if P then g\<lparr>wg_LogLevel := x0\<rparr> else g) = g\<lparr>wg_LogLevel := if P then x0 else wg_LogLevel g\<rparr>"
  "(if P then g\<lparr>wg_EnableWeb := x1\<rparr> else g) = g\<lparr>wg_EnableWeb := if P then x1 else wg_EnableWeb g\<rparr>"
  "(if P then g\<lparr>wg_WebAddr := x2\<rparr> else g) = g\<lparr>wg_WebAddr := if P then x2 else wg_WebAddr g\<rparr>"
  "(if P then g\<lparr>wg_WebAuthEnabled := x3\<rparr> else g) = g\<lparr>wg_WebAuthEnabled := if P then x3 else wg_WebAuthEnabled g\<rparr>"
  "(if P then g\<lparr>wg_WebUsername := x4\<rparr> else g) = g\<lparr>wg_WebUsername := if P then x4 else wg_WebUsername g\<rparr>"
  "(if P then g\<lparr>wg_WebPasswordHash := x5\<rparr> else g) = g\<lparr>wg_WebPasswordHash := if P then x5 else wg_WebPasswordHash g\<rparr>"
  "(if P then g\<lparr>wg_WebSecretKey := x6\<rparr> else g) = g\<lparr>wg_WebSecretKey := if P then x6 else wg_WebSecretKey g\<rparr>"
  "(if P then g\<lparr>wg_WebTokenExpiry := x7\<rparr> else g) = g\<lparr>wg_WebTokenExpiry := if P then x7 else wg_WebTokenExpiry g\<rparr>"
  "(if P then g\<lparr>wg_WebMaxLoginAttempts := x8\<rparr> else g) = g\<lparr>wg_WebMaxLoginAttempts := if P then x8 else wg_WebMaxLoginAttempts g\<rparr>"
  "(if P then g\<lparr>wg_WebTrustedProxies := x9\<rparr> else g) = g\<lparr>wg_WebTrustedProxies := if P then x9 else wg_WebTrustedProxies g\<rparr>"
  "(if P then g\<lparr>wg_EnablePprof := x10\<rparr> else g) = g\<lparr>wg_EnablePprof := if P then x10 else wg_EnablePprof g\<rparr>"
  "(if P then g\<lparr>wg_PprofAddr := x11\<rparr> else g) = g\<lparr>wg_PprofAddr := if P then x11 else wg_PprofAddr g\<rparr>"
  "(if P then c\<lparr>c_EnableWeb := x1\<rparr> else c) = c\<lparr>c_EnableWeb := if P then x1 else c_EnableWeb c\<rparr>"
  "(if P then c\<lparr>c_WebAddr := x2\<rparr> else c) = c\<lparr>c_WebAddr := if P then x2 else c_WebAddr c\<rparr>"
  "(if P then c\<lparr>c_WebAuthEnabled := x3\<rparr> else c) = c\<lparr>c_WebAuthEnabled := if P then x3 else c_WebAuthEnabled c\<rparr>"
  "(if P then c\<lparr>c_WebUsername := x4\<rparr> else c) = c\<lparr>c_WebUsername := if P then x4 else c_WebUsername c\<rparr>"
  "(if P then c\<lparr>c_WebPasswordHash := x5\<rparr> else c) = c\<lparr>c_WebPasswordHash := if P then x5 else c_WebPasswordHash c\<rparr>"
  "(if P then c\<lparr>c_WebSecretKey := x6\<rparr> else c) = c\<lparr>c_WebSecretKey := if P then x6 else c_WebSecretKey c\<rparr>"
  "(if P then c\<lparr>c_WebTokenExpiry := x7\<rparr> else c) = c\<lparr>c_WebTokenExpiry := if P then x7 else c_WebTokenExpiry c\<rparr>"
  "(if P then c\<lparr>c_WebMaxLoginAttempts := x8\<rparr> else c) = c\<lparr>c_WebMaxLoginAttempts := if P then x8 else c_WebMaxLoginAttempts c\<rparr>"
  "(if P then c\<lparr>c_WebTrustedProxies := x9\<rparr> else c) = c\<lparr>c_WebTrustedProxies := if P then x9 else c_WebTrustedProxies c\<rparr>"
  "(if P then c\<lparr>c_EnablePprof := x10\<rparr> else c) = c\<lparr>c_EnablePprof := if P then x10 else c_EnablePprof c\<rparr>"
  "(if P then c\<lparr>c_PprofAddr := x11\<rparr> else c) = c\<lparr>c_PprofAddr := if P then x11 else c_PprofAddr c\<rparr>"
  by simp_all

lemma web_options:
  "wg_EnableWeb (applyWebOptions c g) = (c_EnableWeb c \<or> wg_EnableWeb g)"
  "wg_WebAddr (applyWebOptions c g) = (if c_WebAddr c \<noteq> defaultWebAddr then c_WebAddr c else wg_WebAddr g)"
  "wg_LogLevel (applyWebOptions c g) = wg_LogLevel g"
  "wg_WebAuthEnabled (applyWebOptions c g) = wg_WebAuthEnabled g"
  "wg_WebUsername (applyWebOptions c g) = wg_WebUsername g"
  "wg_WebPasswordHash (applyWebOptions c g) = wg_WebPasswordHash g"
  "wg_WebSecretKey (applyWebOptions c g) = wg_WebSecretKey g"
  "wg_WebTokenExpiry (applyWebOptions c g) = wg_WebTokenExpiry g"
  "wg_WebMaxLoginAttempts (applyWebOptions c g) = wg_WebMaxLoginAttempts g"
  "wg_WebTrustedProxies (applyWebOptions c g) = wg_WebTrustedProxies g"
  "wg_EnablePprof (applyWebOptions c g) = wg_EnablePprof g"
  "wg_PprofAddr (applyWebOptions c g) = wg_PprofAddr g"
  by (auto simp: applyWebOptions_def cond_set Let_def)

lemma auth_options:
  "wg_WebAuthEnabled (applyAuthOptions c g) = (c_WebAuthEnabled c \<or> wg_WebAuthEnabled g)"
  "wg_WebUsername (applyAuthOptions c g) = (if c_WebUsername c \<noteq> [] then c_WebUsername c else wg_WebUsername g)"
  "wg_WebPasswordHash (applyAuthOptions c g) = (if c_WebPasswordHash c \<noteq> [] then c_WebPasswordHash c else wg_WebPasswordHash g)"
  "wg_WebSecretKey (applyAuthOptions c g) = (if c_WebSecretKey c \<noteq> [] then c_WebSecretKey c else wg_WebSecretKey g)"
  "wg_WebTokenExpiry (applyAuthOptions c g) = (if c_WebTokenExpiry c \<noteq> 24 then c_WebTokenExpiry c else wg_WebTokenExpiry g)"
  "wg_WebMaxLoginAttempts (applyAuthOptions c g) =
     (if c_WebMaxLoginAttempts c \<noteq> 5 then c_WebMaxLoginAttempts c else wg_WebMaxLoginAttempts g)"
  "wg_WebTrustedProxies (applyAuthOptions c g) = (if c_WebTrustedProxies c \<noteq> [] then c_WebTrustedProxies c else wg_WebTrustedProxies g)"
  "wg_LogLevel (applyAuthOptions c g) = wg_LogLevel g"
  "wg_EnableWeb (applyAuthOptions c g) = wg_EnableWeb g"
  "wg_WebAddr (applyAuthOptions c g) = wg_WebAddr g"
  "wg_EnablePprof (applyAuthOptions c g) = wg_EnablePprof g"
  "wg_PprofAddr (applyAuthOptions c g) = wg_PprofAddr g"
  by (simp_all add: applyAuthOptions_def cond_set Let_def)

lemma server_options:
  "wg_EnablePprof (applyServerOptions c g) = (c_EnablePprof c \<or> wg_EnablePprof g)"
  "wg_PprofAddr (applyServerOptions c g) = (if c_PprofAddr c \<noteq> defaultPprofAddr then c_PprofAddr c else wg_PprofAddr g)"
  "wg_LogLevel (applyServerOptions c g) = (if c_LogLevel c \<noteq> [] then c_LogLevel c else wg_LogLevel g)"
  "wg_EnableWeb (applyServerOptions c g) = wg_EnableWeb g"
  "wg_WebAddr (applyServerOptions c g) = wg_WebAddr g"
  "wg_WebAuthEnabled (applyServerOptions c g) = wg_WebAuthEnabled g"
  "wg_WebUsername (applyServerOptions c g) = wg_WebUsername g"
  "wg_WebPasswordHash (applyServerOptions c g) = wg_WebPasswordHash g"
  "wg_WebSecretKey (applyServerOptions c g) = wg_WebSecretKey g"
  "wg_WebTokenExpiry (applyServerOptions c g) = wg_WebTokenExpiry g"
  "wg_WebMaxLoginAttempts (applyServerOptions c g) = wg_WebMaxLoginAttempts g"
  "wg_WebTrustedProxies (applyServerOptions c g) = wg_WebTrustedProxies g"
  by (auto simp: applyServerOptions_def cond_set Let_def)

lemma web_defaults:
  "c_EnableWeb (applyWebDefaults g c) = (c_EnableWeb c \<or> wg_EnableWeb g)"
  "c_WebAddr (applyWebDefaults g c) = (if c_WebAddr c = defaultWebAddr \<and> wg_WebAddr g \<noteq> [] then wg_WebAddr g else c_WebAddr c)"
  "c_LogLevel (applyWebDefaults g c) = c_LogLevel c"
  "c_WebAuthEnabled (applyWebDefaults g c) = c_WebAuthEnabled c"
  "c_WebUsername (applyWebDefaults g c) = c_WebUsername c"
  "c_WebPasswordHash (applyWebDefaults g c) = c_WebPasswordHash c"
  "c_WebSecretKey (applyWebDefaults g c) = c_WebSecretKey c"
  "c_WebTokenExpiry (applyWebDefaults g c) = c_WebTokenExpiry c"
  "c_WebMaxLoginAttempts (applyWebDefaults g c) = c_WebMaxLoginAttempts c"
  "c_WebTrustedProxies (applyWebDefaults g c) = c_WebTrustedProxies c"
  "c_EnablePprof (applyWebDefaults g c) = c_EnablePprof c"
  "c_PprofAddr (applyWebDefaults g c) = c_PprofAddr c"
  by (auto simp: applyWebDefaults_def cond_set Let_def)

lemma auth_defaults:
  "c_WebAuthEnabled (applyAuthDefaults g c) = (c_WebAuthEnabled c \<or> wg_WebAuthEnabled g)"
  "c_WebUsername (applyAuthDefaults g c) = (if c_WebUsername c = [] then wg_WebUsername g else c_WebUsername c)"
  "c_WebPasswordHash (applyAuthDefaults g c) = (if c_WebPasswordHash c = [] then wg_WebPasswordHash g else c_WebPasswordHash c)"
  "c_WebSecretKey (applyAuthDefaults g c) = (if c_WebSecretKey c = [] then wg_WebSecretKey g else c_WebSecretKey c)"
  "c_WebTokenExpiry (applyAuthDefaults g c) =
     (if c_WebTokenExpiry c = 24 \<and> wg_WebTokenExpiry g \<noteq> 0 then wg_WebTokenExpiry g else c_WebTokenExpiry c)"
  "c_WebMaxLoginAttempts (applyAuthDefaults g c) =
     (if c_WebMaxLoginAttempts c = 5 \<and> wg_WebMaxLoginAttempts g \<noteq> 0 then wg_WebMaxLoginAttempts g else c_WebMaxLoginAttempts c)"
  "c_WebTrustedProxies (applyAuthDefaults g c) = (if c_WebTrustedProxies c = [] then wg_WebTrustedProxies g else c_WebTrustedProxies c)"
  "c_LogLevel (applyAuthDefaults g c) = c_LogLevel c"
  "c_EnableWeb (applyAuthDefaults g c) = c_EnableWeb c"
  "c_WebAddr (applyAuthDefaults g c) = c_WebAddr c"
  "c_EnablePprof (applyAuthDefaults g c) = c_EnablePprof c"
  "c_PprofAddr (applyAuthDefaults g c) = c_PprofAddr c"
  by (simp_all add: applyAuthDefaults_def)

lemma server_defaults:
  "c_EnablePprof (applyServerDefaults g c) = (c_EnablePprof c \<or> wg_EnablePprof g)"
  "c_PprofAddr (applyServerDefaults g c) = (if c_PprofAddr c = defaultPprofAddr \<and> wg_PprofAddr g \<noteq> [] then wg_PprofAddr g else c_PprofAddr c)"
  "c_LogLevel (applyServerDefaults g c) = c_LogLevel c"
  "c_EnableWeb (applyServerDefaults g c) = c_EnableWeb c"
  "c_WebAddr (applyServerDefaults g c) = c_WebAddr c"
  "c_WebAuthEnabled (applyServerDefaults g c) = c_WebAuthEnabled c"
  "c_WebUsername (applyServerDefaults g c) = c_WebUsername c"
  "c_WebPasswordHash (applyServerDefaults g c) = c_WebPasswordHash c"
  "c_WebSecretKey (applyServerDefaults g c) = c_WebSecretKey c"
  "c_WebTokenExpiry (applyServerDefaults g c) = c_WebTokenExpiry c"
  "c_WebMaxLoginAttempts (applyServerDefaults g c) = c_WebMaxLoginAttempts c"
  "c_WebTrustedProxies (applyServerDefaults g c) = c_WebTrustedProxies c"
  by (auto simp: applyServerDefaults_def cond_set Let_def)

lemmas settings = web_options auth_options server_options web_defaults auth_defaults server_defaults

text \<open>(options_precedence): After the start-up has merged the options, the daemon and its configuration agree on every web and
  server setting: the command line wins when it differs from the default, else the INI file when it sets the option, else
  the default. In particular an option given with its default value does not override the file.\<close>
theorem options_precedence:
  "let cfg1 = applyOptions c cfg; c1 = applyConfigDefaults cfg1 c; g = dq_Global cfg; g1 = dq_Global cfg1 in
     c_EnableWeb c1 = (c_EnableWeb c \<or> wg_EnableWeb g) \<and> wg_EnableWeb g1 = c_EnableWeb c1 \<and>
     c_WebAuthEnabled c1 = (c_WebAuthEnabled c \<or> wg_WebAuthEnabled g) \<and> wg_WebAuthEnabled g1 = c_WebAuthEnabled c1 \<and>
     c_EnablePprof c1 = (c_EnablePprof c \<or> wg_EnablePprof g) \<and> wg_EnablePprof g1 = c_EnablePprof c1 \<and>
     c_WebAddr c1 = (if c_WebAddr c \<noteq> '':8081'' then c_WebAddr c else if wg_WebAddr g \<noteq> [] then wg_WebAddr g else '':8081'') \<and>
     c_PprofAddr c1 = (if c_PprofAddr c \<noteq> ''127.0.0.1:8080'' then c_PprofAddr c
       else if wg_PprofAddr g \<noteq> [] then wg_PprofAddr g else ''127.0.0.1:8080'') \<and>
     c_WebUsername c1 = (if c_WebUsername c \<noteq> [] then c_WebUsername c else wg_WebUsername g) \<and> wg_WebUsername g1 = c_WebUsername c1 \<and>
     c_WebPasswordHash c1 = (if c_WebPasswordHash c \<noteq> [] then c_WebPasswordHash c else wg_WebPasswordHash g) \<and>
     wg_WebPasswordHash g1 = c_WebPasswordHash c1 \<and>
     c_WebSecretKey c1 = (if c_WebSecretKey c \<noteq> [] then c_WebSecretKey c else wg_WebSecretKey g) \<and> wg_WebSecretKey g1 = c_WebSecretKey c1 \<and>
     c_WebTokenExpiry c1 = (if c_WebTokenExpiry c \<noteq> 24 then c_WebTokenExpiry c
       else if wg_WebTokenExpiry g \<noteq> 0 then wg_WebTokenExpiry g else 24) \<and>
     c_WebMaxLoginAttempts c1 = (if c_WebMaxLoginAttempts c \<noteq> 5 then c_WebMaxLoginAttempts c
       else if wg_WebMaxLoginAttempts g \<noteq> 0 then wg_WebMaxLoginAttempts g else 5) \<and>
     c_WebTrustedProxies c1 = (if c_WebTrustedProxies c \<noteq> [] then c_WebTrustedProxies c else wg_WebTrustedProxies g) \<and>
     wg_WebTrustedProxies g1 = c_WebTrustedProxies c1 \<and>
     wg_LogLevel g1 = (if c_LogLevel c \<noteq> [] then c_LogLevel c else wg_LogLevel g)"
  unfolding Let_def applyOptions_def applyConfigDefaults_def
  by (intro conjI) (simp_all add: settings defaultWebAddr_def defaultPprofAddr_def)

section \<open>Theorems on the start-up\<close>

definition boot_cmd :: "boot_env \<Rightarrow> DaemonCommand \<Rightarrow> DaemonCommand" where
  "boot_cmd be c =
     (let file = (case be_BuildFromFile be of Inl _ \<Rightarrow> NewConfig | Inr cfg \<Rightarrow> cfg)
      in applyConfigDefaults (applyOptions c file) c)"

lemma boot_cases:
  assumes "boot be NewServer hc c level = Inr b"
  shows "bo_cmd b = boot_cmd be c"
    and "bo_hooks b = (if bo_web b = None then NewGracefulScheduler (NewShutdownManager (30 * second))
           else NewGracefulServer (NewGracefulScheduler (NewShutdownManager (30 * second))))"
    and "bo_web b = Some sv \<Longrightarrow> c_EnableWeb (bo_cmd b) \<and>
      (\<exists>auth sv'. boot_auth (bo_cmd b) = Inr auth \<and> NewServer auth = Some sv' \<and> sv = RegisterHealthEndpoints hc sv')"
  using assms
  by (auto simp: boot_def boot_cmd_def Let_def split: prod.splits option.splits sum.splits if_splits)

lemma new_server_auth: "NewServerWithAuth random s objs logs wcfg provider auth = Some sv \<Longrightarrow> sv_authConfig sv = auth"
  by (auto simp: NewServerWithAuth_def Let_def split: option.splits if_splits sum.splits)

lemma boot_auth_enabled: "boot_auth c = Inr auth \<Longrightarrow>
    (case auth of None \<Rightarrow> \<not> c_WebAuthEnabled c
     | Some a \<Rightarrow> c_WebAuthEnabled c \<and> ac_Enabled a \<and> ac_Username a \<noteq> [] \<and> ac_PasswordHash a \<noteq> [])"
  by (auto simp: boot_auth_def split: if_splits)

text \<open>C14 (boot_enforces_auth): a web server that the daemon starts has authentication exactly when it is enabled on the command line or
  in the INI file, and then a user name and a password hash are set. When the INI file cannot be loaded the daemon falls back to the defaults: the server is started only if the
  command line asks for it, and without authentication unless the command line enables it, whatever the file says.
  With the server the shutdown gets its second hook.\<close>
theorem boot_enforces_auth:
  assumes "boot be (NewServerWithAuth random s objs logs wcfg provider) hc c level = Inr b" "bo_web b = Some sv"
  shows "(case be_BuildFromFile be of
      Inr file \<Rightarrow> auth_enabled sv = (c_WebAuthEnabled c \<or> wg_WebAuthEnabled (dq_Global file))
    | Inl err \<Rightarrow> c_EnableWeb c \<and> auth_enabled sv = c_WebAuthEnabled c) \<and>
    (case sv_authConfig sv of None \<Rightarrow> True | Some a \<Rightarrow> ac_Username a \<noteq> [] \<and> ac_PasswordHash a \<noteq> []) \<and>
    map h_Name (sm_hooks (bo_hooks b)) = [''scheduler'', ''http-server'']"
proof -
  obtain auth sv' where a: "boot_auth (bo_cmd b) = Inr auth" "NewServerWithAuth random s objs logs wcfg provider auth = Some sv'"
      "sv = RegisterHealthEndpoints hc sv'"
    using boot_cases(3) [OF assms(1,2)] by blast
  have sv: "sv_authConfig sv = auth" using new_server_auth [OF a(2)] a(3) by (simp add: RegisterHealthEndpoints_def)
  have c: "case be_BuildFromFile be of
      Inr file \<Rightarrow> c_WebAuthEnabled (bo_cmd b) = (c_WebAuthEnabled c \<or> wg_WebAuthEnabled (dq_Global file))
    | Inl err \<Rightarrow> c_WebAuthEnabled (bo_cmd b) = c_WebAuthEnabled c \<and> c_EnableWeb (bo_cmd b) = c_EnableWeb c"
    unfolding boot_cases(1) [OF assms(1)] boot_cmd_def Let_def
    by (auto simp: applyConfigDefaults_def applyOptions_def settings NewConfig_def split: sum.splits)
  have w: "c_EnableWeb (bo_cmd b)" using boot_cases(3) [OF assms(1,2)] by blast
  have "map h_Name (sm_hooks (bo_hooks b)) = [''scheduler'', ''http-server'']"
    using boot_cases(2) [OF assms(1)] assms(2)
    by (simp add: NewGracefulServer_def NewGracefulScheduler_def NewShutdownManager_def RegisterHook_def)
  then show ?thesis
    using boot_auth_enabled [OF a(1)] c w sv by (auto simp: auth_enabled_def split: option.splits sum.splits)
qed

definition sim_daemon_globals :: WebGlobals where
  "sim_daemon_globals = \<lparr>wg_LogLevel = [], wg_EnableWeb = False, wg_WebAddr = [], wg_WebAuthEnabled = True, wg_WebUsername = ''admin'',
     wg_WebPasswordHash = ''hash'', wg_WebSecretKey = ''key'', wg_WebTokenExpiry = 24, wg_WebMaxLoginAttempts = 5,
     wg_WebTrustedProxies = [], wg_EnablePprof = False, wg_PprofAddr = []\<rparr>"

definition sim_boot_env :: boot_env where
  "sim_boot_env = \<lparr>be_BuildFromFile = Inr \<lparr>dq_Global = sim_daemon_globals, dq_Docker = watch_cfg\<rparr>, be_InitializeApp = (\<lambda>cfg. (None, cfg))\<rparr>"

definition sim_command :: DaemonCommand where
  "sim_command = \<lparr>c_DockerFilters = [], c_DockerPollInterval = None, c_DockerUseEvents = None, c_DockerNoPoll = None,
     c_DockerIncludeStopped = None, c_LogLevel = [], c_EnablePprof = False, c_PprofAddr = defaultPprofAddr, c_EnableWeb = True,
     c_WebAddr = defaultWebAddr, c_WebAuthEnabled = False, c_WebUsername = [], c_WebPasswordHash = [], c_WebSecretKey = [],
     c_WebTokenExpiry = 24, c_WebMaxLoginAttempts = 5, c_WebTrustedProxies = []\<rparr>"

lemma boot_with_web:
  assumes "ApplyLogLevel (c_LogLevel c) level = (None, level1)" "c_EnableWeb (boot_cmd be c)" "boot_auth (boot_cmd be c) = Inr auth"
    "NewServer auth = Some sv"
  shows "\<exists>b. boot be NewServer hc c level = Inr b \<and> bo_web b = Some (RegisterHealthEndpoints hc sv)"
  using assms by (simp add: boot_def boot_cmd_def Let_def split: prod.split)

lemma sim_boot:
  fixes s :: "('c, 'w) Scheduler"
  shows "\<exists>b (sv :: ('c, 'w, 'l) Server). bo_web b = Some sv \<and>
    boot sim_boot_env (NewServerWithAuth (Inr ''k'') s objs logs NilConfig True) (NewHealthChecker 0 True ''1'') sim_command LevelInfo = Inr b"
proof -
  let ?c = "boot_cmd sim_boot_env sim_command"
  have l: "ApplyLogLevel (c_LogLevel sim_command) LevelInfo = (None, LevelInfo)" by (simp add: ApplyLogLevel_def sim_command_def)
  have c: "c_EnableWeb ?c" "c_WebAuthEnabled ?c" "c_WebUsername ?c = ''admin''" "c_WebPasswordHash ?c = ''hash''" "c_WebSecretKey ?c = ''key''"
    unfolding boot_cmd_def Let_def sim_boot_env_def boot_env.simps sum.case applyConfigDefaults_def applyOptions_def
    by (simp_all add: settings) (simp_all add: sim_command_def sim_daemon_globals_def)
  have "\<exists>a. boot_auth ?c = Inr (Some a) \<and> ac_SecretKey a = ''key''" by (simp add: boot_auth_def c)
  then obtain a where a: "boot_auth ?c = Inr (Some a)" "ac_SecretKey a = ''key''" by blast
  have "\<exists>sv :: ('c, 'w, 'l) Server. NewServerWithAuth (Inr ''k'') s objs logs NilConfig True (Some a) = Some sv"
    using a(2) by (auto simp: NewServerWithAuth_def NewSecureTokenManager_def Let_def split: if_splits)
  then obtain sv :: "('c, 'w, 'l) Server" where "NewServerWithAuth (Inr ''k'') s objs logs NilConfig True (Some a) = Some sv" by blast
  from boot_with_web [where NewServer = "NewServerWithAuth (Inr ''k'') s objs logs NilConfig True", OF l c(1) a(1) this]
  show ?thesis by blast
qed

theorem boot_enforces_auth_witness:
  "\<exists>b sv. boot sim_boot_env (NewServerWithAuth (Inr ''k'') (sv_scheduler demo_server) (sv_objects demo_server) (sv_logs demo_server) NilConfig True)
     (NewHealthChecker 0 True ''1'') sim_command LevelInfo = Inr b \<and> bo_web b = Some (sv :: (cron_entry list, unit, nat) Server) \<and> auth_enabled sv"
proof -
  obtain b and sv :: "(cron_entry list, unit, nat) Server" where b: "boot sim_boot_env (NewServerWithAuth (Inr ''k'')
      (sv_scheduler demo_server) (sv_objects demo_server) (sv_logs demo_server) NilConfig True) (NewHealthChecker 0 True ''1'')
      sim_command LevelInfo = Inr b" "bo_web b = Some sv"
    using sim_boot by blast
  have "be_BuildFromFile sim_boot_env = Inr \<lparr>dq_Global = sim_daemon_globals, dq_Docker = watch_cfg\<rparr>" by (simp add: sim_boot_env_def)
  with boot_enforces_auth [OF b] have "auth_enabled sv" by (simp add: sim_daemon_globals_def)
  with b show ?thesis by blast
qed

section \<open>Theorems on the life of the process\<close>

text \<open>What has happened when the main goroutine is at a place of \<^verbatim>\<open>start\<close>.\<close>

fun awaited_ok :: "daemon_server \<Rightarrow> process_action \<Rightarrow> bool" where
  "awaited_ok PprofServer (PprofAwaited d es) = (waitForServerWithErrChan d es = Some None)"
| "awaited_ok WebServer (WebAwaited d es) = (waitForServerWithErrChan d es = Some None)"
| "awaited_ok s a = False"

fun start_error :: "process_action \<Rightarrow> go_error option" where
  "start_error (SchedulerStarts (Some e)) = Some (Errorf [Lit ''failed to start scheduler: '', Wrap e])"
| "start_error (PprofAwaited d es) =
     (case waitForServerWithErrChan d es of
        Some (Some e) \<Rightarrow> Some (Errorf [Lit ''pprof server startup failed: '', Wrap e]) | _ \<Rightarrow> None)"
| "start_error (WebAwaited d es) =
     (case waitForServerWithErrChan d es of
        Some (Some e) \<Rightarrow> Some (Errorf [Lit ''web server startup failed: '', Wrap e]) | _ \<Rightarrow> None)"
| "start_error a = None"

fun failure_of :: "DaemonCommand \<Rightarrow> process_action \<Rightarrow> bool" where
  "failure_of c (ServerFails PprofServer e) = c_EnablePprof c"
| "failure_of c (ServerFails WebServer e) = c_EnableWeb c"
| "failure_of c a = False"

definition pprof_up :: "DaemonCommand \<Rightarrow> process_action list \<Rightarrow> bool" where
  "pprof_up c as \<longleftrightarrow> SchedulerStarts None \<in> set as \<and> (c_EnablePprof c \<longrightarrow> list_ex (awaited_ok PprofServer) as)"

definition all_up :: "DaemonCommand \<Rightarrow> process_action list \<Rightarrow> bool" where
  "all_up c as \<longleftrightarrow> pprof_up c as \<and> (c_EnableWeb c \<longrightarrow> list_ex (awaited_ok WebServer) as)"

fun reached :: "DaemonCommand \<Rightarrow> process_action list \<Rightarrow> bool \<Rightarrow> main_phase \<Rightarrow> bool" where
  "reached c as done BeforeScheduler = True"
| "reached c as done BeforePprof = (SchedulerStarts None \<in> set as)"
| "reached c as done AwaitPprof = (SchedulerStarts None \<in> set as \<and> c_EnablePprof c)"
| "reached c as done BeforeWeb = pprof_up c as"
| "reached c as done AwaitWeb = (pprof_up c as \<and> c_EnableWeb c)"
| "reached c as done AwaitDone = all_up c as"
| "reached c as done (Returned None) = (all_up c as \<and> done)"
| "reached c as done (Returned (Some err)) = list_ex (\<lambda>a. start_error a = Some err) as"

definition process_ok :: "DaemonCommand \<Rightarrow> process_action list \<Rightarrow> process \<Rightarrow> bool" where
  "process_ok c as p \<longleftrightarrow> pr_cmd p = c \<and> reached c as (pr_done p) (pr_main p) \<and>
     (PprofServer \<in> pr_serving p \<longrightarrow> c_EnablePprof c) \<and> (WebServer \<in> pr_serving p \<longrightarrow> c_EnableWeb c) \<and>
     (pr_closing p \<noteq> {} \<longrightarrow> list_ex (failure_of c) as) \<and>
     (pr_done p \<longrightarrow> list_ex (failure_of c) as \<or> ShutdownSignal \<in> set as) \<and>
     (sm_isShuttingDown (pr_sm p) \<longleftrightarrow> ShutdownSignal \<in> set as)"

lemma up_snoc: "pprof_up c as \<Longrightarrow> pprof_up c (as @ bs)" "all_up c as \<Longrightarrow> all_up c (as @ bs)"
  by (auto simp: pprof_up_def all_up_def)

lemma reached_snoc: "reached c as d m \<Longrightarrow> reached c (as @ bs) d m" "reached c as d m \<Longrightarrow> reached c as True m"
  by (cases "(c, as, d, m)" rule: reached.cases; simp add: up_snoc)+

lemma begin_shutting: "sm_isShuttingDown (fst (shutdown_begin sm))" "shutdown_begin sm = (sm', r) \<Longrightarrow> sm_isShuttingDown sm'"
  by (auto simp: shutdown_begin_def split: if_splits)

lemma reached_after:
  "reached c (as @ [SchedulerStarts r]) d (after_scheduler r)"
  "waitForServerWithErrChan dl es = Some r \<Longrightarrow> reached c as d AwaitPprof \<Longrightarrow> reached c (as @ [PprofAwaited dl es]) d (after_pprof r)"
  "waitForServerWithErrChan dl es = Some r \<Longrightarrow> reached c as d AwaitWeb \<Longrightarrow> reached c (as @ [WebAwaited dl es]) d (after_web r)"
  by (cases r; simp add: after_scheduler_def after_pprof_def after_web_def pprof_up_def all_up_def)+

lemma failure_of_enabled:
  "(PprofServer \<in> S \<longrightarrow> c_EnablePprof c) \<Longrightarrow> (WebServer \<in> S \<longrightarrow> c_EnableWeb c) \<Longrightarrow> s \<in> S \<Longrightarrow> failure_of c (ServerFails s e)"
  by (cases s) simp_all

lemma process_ok_step:
  assumes "process_step s a t" "process_ok c as s"
  shows "process_ok c (as @ [a]) t"
  using assms(1)
proof cases
  case (scheduler_starts r)
  then show ?thesis using assms(2) reached_after(1) [of c as r "pr_done s"] by (simp add: process_ok_def disj_imp)
next
  case pprof_stage
  then show ?thesis using assms(2) by (cases "c_EnablePprof c") (simp_all add: process_ok_def pprof_up_def)
next
  case (pprof_awaited es deadline r)
  then show ?thesis using assms(2) reached_after(2) [OF pprof_awaited(5), of c as "pr_done s"] by (simp add: process_ok_def)
next
  case web_stage
  then show ?thesis using assms(2) by (cases "c_EnableWeb c") (simp_all add: process_ok_def all_up_def pprof_up_def)
next
  case (web_awaited es deadline r)
  then show ?thesis using assms(2) reached_after(3) [OF web_awaited(5), of c as "pr_done s"] by (simp add: process_ok_def)
next
  case main_returns
  then show ?thesis using assms(2) by (simp add: process_ok_def up_snoc)
next
  case (shutdown_signal sm r)
  then show ?thesis using assms(2) reached_snoc(1) [of c as "pr_done s" "pr_main s"] by (simp add: process_ok_def begin_shutting)
next
  case done_by_shutdown
  then show ?thesis
    using assms(2) reached_snoc(1) [of c as True "pr_main s"] reached_snoc(2) [of c as "pr_done s" "pr_main s"]
    by (simp add: process_ok_def)
next
  case (server_fails x e)
  have "failure_of c (ServerFails x e)"
    using assms(2) server_fails(4) failure_of_enabled [of "pr_serving s"] by (simp add: process_ok_def)
  then show ?thesis
    using assms(2) server_fails reached_snoc(1) [of c as "pr_done s" "pr_main s"] by (simp add: process_ok_def)
next
  case (done_by_server x)
  then have "list_ex (failure_of c) as" using assms(2) by (auto simp: process_ok_def)
  then show ?thesis
    using assms(2) done_by_server reached_snoc(1) [of c as True "pr_main s"] reached_snoc(2) [of c as "pr_done s" "pr_main s"]
    by (simp add: process_ok_def)
next
  case (hook_step r r')
  then show ?thesis using assms(2) reached_snoc(1) [of c as "pr_done s" "pr_main s"] by (simp add: process_ok_def)
qed

interpretation process: history process_step "process_ok c"
  by unfold_locales (rule process_ok_step)

lemma new_process_ok: "\<not> sm_isShuttingDown sm \<Longrightarrow> process_ok c [] (new_process c sm)"
  by (simp add: process_ok_def new_process_def)

text \<open>C27 (daemon_exit): \<^verbatim>\<open>Execute\<close> after the boot, however the goroutines interleave: it returns without an error only after the scheduler and every
  enabled server have been started, and only after a shutdown signal or the failure of an enabled server. It returns an error only when starting the
  scheduler failed, or the wait for the pprof or the web server did, and that is the error it wraps. Once the
  start is over and a signal has been received, two steps that are always possible end the process, and they leave the hooks of the shutdown
  as they are, run or not.\<close>
theorem daemon_exit:
  assumes "runs process_step (new_process c sm) as p" "\<not> sm_isShuttingDown sm"
  shows "(pr_main p = Returned None \<longrightarrow>
      SchedulerStarts None \<in> set as \<and> (c_EnablePprof c \<longrightarrow> list_ex (awaited_ok PprofServer) as) \<and>
      (c_EnableWeb c \<longrightarrow> list_ex (awaited_ok WebServer) as) \<and>
      (ShutdownSignal \<in> set as \<or> list_ex (failure_of c) as)) \<and>
    (\<forall>err. pr_main p = Returned (Some err) \<longrightarrow> list_ex (\<lambda>a. start_error a = Some err) as) \<and>
    (pr_main p = AwaitDone \<and> ShutdownSignal \<in> set as \<longrightarrow>
      (\<exists>q. runs process_step p [DoneByShutdown, MainReturns] q \<and> pr_main q = Returned None \<and> pr_run q = pr_run p))"
proof -
  have ok: "process_ok c as p" using process.rel_runs [OF assms(1) new_process_ok [OF assms(2)]] .
  have "\<exists>q. runs process_step p [DoneByShutdown, MainReturns] q \<and> pr_main q = Returned None \<and> pr_run q = pr_run p"
    if "pr_main p = AwaitDone" "ShutdownSignal \<in> set as"
  proof -
    let ?q = "p\<lparr>pr_done := True\<rparr>"
    have "process_step p DoneByShutdown ?q" using that ok by (simp add: process_ok_def done_by_shutdown)
    moreover have "process_step ?q MainReturns (?q\<lparr>pr_main := Returned None\<rparr>)" using that by (simp add: main_returns)
    ultimately have "runs process_step p [DoneByShutdown, MainReturns] (?q\<lparr>pr_main := Returned None\<rparr>)"
      by (intro runs_step [OF _ runs_one])
    then show ?thesis by fastforce
  qed
  moreover have "pr_main p = Returned None \<longrightarrow> all_up c as \<and> (ShutdownSignal \<in> set as \<or> list_ex (failure_of c) as)"
    "\<forall>err. pr_main p = Returned (Some err) \<longrightarrow> list_ex (\<lambda>a. start_error a = Some err) as"
    using ok by (auto simp: process_ok_def)
  ultimately show ?thesis unfolding all_up_def pprof_up_def by blast
qed

text \<open>A command with the web server.\<close>

definition web_command :: DaemonCommand where
  "web_command = \<lparr>c_DockerFilters = [], c_DockerPollInterval = None, c_DockerUseEvents = None, c_DockerNoPoll = None,
     c_DockerIncludeStopped = None, c_LogLevel = [], c_EnablePprof = False, c_PprofAddr = [], c_EnableWeb = True,
     c_WebAddr = '':8081'', c_WebAuthEnabled = False, c_WebUsername = [], c_WebPasswordHash = [], c_WebSecretKey = [],
     c_WebTokenExpiry = 24, c_WebMaxLoginAttempts = 5, c_WebTrustedProxies = []\<rparr>"

definition started_web :: "go_error \<Rightarrow> process_action list" where
  "started_web d = [SchedulerStarts None, PprofStage, WebStage, WebAwaited d [WaitProbe False, WaitProbe True]]"

lemma started_web_runs:
  "runs process_step (new_process web_command sm) (started_web d)
     ((new_process web_command sm)\<lparr>pr_serving := {WebServer}, pr_main := AwaitDone\<rparr>)"
proof -
  let ?p0 = "new_process web_command sm"
  let ?p1 = "?p0\<lparr>pr_main := BeforePprof\<rparr>" and ?p2 = "?p0\<lparr>pr_main := BeforeWeb\<rparr>" and ?p3 = "?p0\<lparr>pr_serving := {WebServer}, pr_main := AwaitWeb\<rparr>"
  have "process_step ?p0 (SchedulerStarts None) ?p1" using scheduler_starts [of ?p0 None] by (simp add: new_process_def after_scheduler_def)
  moreover have "process_step ?p1 PprofStage ?p2" using pprof_stage [of ?p1] by (simp add: new_process_def web_command_def)
  moreover have "process_step ?p2 WebStage ?p3" using web_stage [of ?p2] by (simp add: new_process_def web_command_def)
  moreover have "process_step ?p3 (WebAwaited d [WaitProbe False, WaitProbe True]) (?p3\<lparr>pr_main := AwaitDone\<rparr>)"
    using web_awaited [of ?p3 "[WaitProbe False, WaitProbe True]" d None] by (simp add: after_web_def)
  moreover have "?p3\<lparr>pr_main := AwaitDone\<rparr> = ?p0\<lparr>pr_serving := {WebServer}, pr_main := AwaitDone\<rparr>" by simp
  ultimately show ?thesis unfolding started_web_def by (metis runs_step runs_one)
qed

text \<open>A daemon whose web server cannot listen.\<close>

definition web_refused :: "go_error \<Rightarrow> go_error \<Rightarrow> process_action list" where
  "web_refused d e = [SchedulerStarts None, PprofStage, WebStage, ServerFails WebServer e, WebAwaited d [WaitError (Some e)]]"

lemma web_refused_runs:
  "\<exists>p. runs process_step (new_process web_command sm) (web_refused d e) p \<and>
     pr_main p = Returned (Some (Errorf [Lit ''web server startup failed: '', Wrap (Errorf [Lit ''server failed to start: '', Wrap e])]))"
proof -
  let ?p0 = "new_process web_command sm"
  let ?p1 = "?p0\<lparr>pr_main := BeforePprof\<rparr>" and ?p2 = "?p0\<lparr>pr_main := BeforeWeb\<rparr>" and ?p3 = "?p0\<lparr>pr_serving := {WebServer}, pr_main := AwaitWeb\<rparr>"
  let ?p4 = "?p3\<lparr>pr_serving := {}, pr_errCh := (pr_errCh ?p3)(WebServer := Some e), pr_closing := {WebServer}\<rparr>"
  let ?r = "Some (Errorf [Lit ''server failed to start: '', Wrap e])"
  have "process_step ?p0 (SchedulerStarts None) ?p1" using scheduler_starts [of ?p0 None] by (simp add: new_process_def after_scheduler_def)
  moreover have "process_step ?p1 PprofStage ?p2" using pprof_stage [of ?p1] by (simp add: new_process_def web_command_def)
  moreover have "process_step ?p2 WebStage ?p3" using web_stage [of ?p2] by (simp add: new_process_def web_command_def)
  moreover have "process_step ?p3 (ServerFails WebServer e) ?p4" using server_fails [of ?p3 WebServer e] by (simp add: new_process_def)
  moreover have "process_step ?p4 (WebAwaited d [WaitError (Some e)]) (?p4\<lparr>pr_main := after_web ?r\<rparr>)"
    using web_awaited [of ?p4 "[WaitError (Some e)]" d ?r] by simp
  ultimately have "runs process_step ?p0 (web_refused d e) (?p4\<lparr>pr_main := after_web ?r\<rparr>)"
    unfolding web_refused_def by (intro runs_step [OF _ runs_step [OF _ runs_step [OF _ runs_step [OF _ runs_one]]]])
  then show ?thesis by (intro exI [of _ "?p4\<lparr>pr_main := after_web ?r\<rparr>"]) (simp add: after_web_def)
qed

lemma two_hooks_idle: "\<not> sm_isShuttingDown two_hooks"
  by (simp add: two_hooks_def NewGracefulScheduler_def NewGracefulServer_def RegisterHook_def NewShutdownManager_def)

theorem daemon_exit_witness:
  "(\<exists>p q. runs process_step (new_process web_command two_hooks) (started_web (Sentinel ErrJobNotFound) @ [ShutdownSignal]) p \<and>
      runs process_step p [DoneByShutdown, MainReturns] q \<and> pr_main q = Returned None \<and> pr_run q = pr_run p \<and> pr_run p \<noteq> None) \<and>
   (\<exists>p err. runs process_step (new_process web_command two_hooks) (web_refused (Sentinel ErrJobNotFound) (Opaque 1 ''in use'')) p \<and>
      pr_main p = Returned (Some err) \<and>
      list_ex (\<lambda>a. start_error a = Some err) (web_refused (Sentinel ErrJobNotFound) (Opaque 1 ''in use'')))"
proof
  let ?p = "(new_process web_command two_hooks)\<lparr>pr_serving := {WebServer}, pr_main := AwaitDone\<rparr>"
  obtain sm r where b: "shutdown_begin (pr_sm ?p) = (sm, r)" by fastforce
  have "process_step ?p ShutdownSignal (?p\<lparr>pr_sm := sm, pr_run := Some r\<rparr>)"
    by (rule shutdown_signal [OF _ _ b]) (simp_all add: new_process_def)
  then have r: "runs process_step (new_process web_command two_hooks) (started_web (Sentinel ErrJobNotFound) @ [ShutdownSignal])
      (?p\<lparr>pr_sm := sm, pr_run := Some r\<rparr>)"
    by (rule runs.more [OF started_web_runs])
  from daemon_exit [OF r two_hooks_idle] obtain q where "runs process_step (?p\<lparr>pr_sm := sm, pr_run := Some r\<rparr>) [DoneByShutdown, MainReturns] q"
      "pr_main q = Returned None" "pr_run q = pr_run (?p\<lparr>pr_sm := sm, pr_run := Some r\<rparr>)"
    by fastforce
  with r show "\<exists>p q. runs process_step (new_process web_command two_hooks) (started_web (Sentinel ErrJobNotFound) @ [ShutdownSignal]) p \<and>
      runs process_step p [DoneByShutdown, MainReturns] q \<and> pr_main q = Returned None \<and> pr_run q = pr_run p \<and> pr_run p \<noteq> None"
    by (intro exI [of _ "?p\<lparr>pr_sm := sm, pr_run := Some r\<rparr>"] exI [of _ q]) simp
next
  let ?as = "web_refused (Sentinel ErrJobNotFound) (Opaque 1 ''in use'')"
  obtain p err where p: "runs process_step (new_process web_command two_hooks) ?as p" "pr_main p = Returned (Some err)"
    using web_refused_runs by blast
  with daemon_exit [OF p(1) two_hooks_idle] show "\<exists>p err. runs process_step (new_process web_command two_hooks) ?as p \<and>
      pr_main p = Returned (Some err) \<and> list_ex (\<lambda>a. start_error a = Some err) ?as"
    by blast
qed

text \<open>(daemon_abandons_hooks): The graceful shutdown is not waited for: once the daemon runs, with any hooks registered, a signal can end the
  process before one of them has started, because the channel that the main goroutine waits for is closed when the shutdown begins.\<close>
theorem daemon_abandons_hooks:
  assumes "pr_main p = AwaitDone" "pr_run p = None" "\<not> sm_isShuttingDown (pr_sm p)"
  shows "\<exists>q r. runs process_step p [ShutdownSignal, DoneByShutdown, MainReturns] q \<and> pr_main q = Returned None \<and>
    pr_run q = Some r \<and> sr_trace r = [] \<and> sr_result r = None \<and> sr_groups r = hook_groups (sm_hooks (pr_sm p))"
proof -
  let ?r = "snd (shutdown_begin (pr_sm p))"
  let ?p1 = "p\<lparr>pr_sm := fst (shutdown_begin (pr_sm p)), pr_run := Some ?r\<rparr>"
  let ?p2 = "?p1\<lparr>pr_done := True\<rparr>"
  have "process_step p ShutdownSignal ?p1" by (rule shutdown_signal) (simp_all add: assms)
  moreover have "process_step ?p1 DoneByShutdown ?p2" by (rule done_by_shutdown) (simp_all add: assms begin_shutting)
  moreover have "process_step ?p2 MainReturns (?p2\<lparr>pr_main := Returned None\<rparr>)" by (rule main_returns) (simp_all add: assms)
  ultimately have "runs process_step p [ShutdownSignal, DoneByShutdown, MainReturns] (?p2\<lparr>pr_main := Returned None\<rparr>)"
    by (intro runs_step [OF _ runs_step [OF _ runs_one]])
  moreover have "sr_trace ?r = []" "sr_result ?r = None" "sr_groups ?r = hook_groups (sm_hooks (pr_sm p))"
    using assms by (simp_all add: shutdown_begin_def)
  ultimately show ?thesis by (intro exI [of _ "?p2\<lparr>pr_main := Returned None\<rparr>"] exI [of _ ?r]) simp
qed

theorem daemon_abandons_hooks_witness:
  "\<exists>q r. runs process_step ((new_process web_command two_hooks)\<lparr>pr_main := AwaitDone\<rparr>) [ShutdownSignal, DoneByShutdown, MainReturns] q \<and>
     pr_run q = Some r \<and> sr_trace r = [] \<and> length (sr_groups r) = 2"
proof -
  let ?p = "(new_process web_command two_hooks)\<lparr>pr_main := AwaitDone\<rparr>"
  have a: "pr_main ?p = AwaitDone" "pr_run ?p = None" "\<not> sm_isShuttingDown (pr_sm ?p)"
    using two_hooks_idle by (simp_all add: new_process_def)
  obtain q r where q: "runs process_step ?p [ShutdownSignal, DoneByShutdown, MainReturns] q" "pr_run q = Some r" "sr_trace r = []"
      "sr_groups r = hook_groups (sm_hooks (pr_sm ?p))"
    using daemon_abandons_hooks [OF a] by blast
  have "length (sr_groups r) = 2" unfolding q(4) by (simp add: new_process_def two_hooks_groups)
  with q(1-3) show ?thesis by blast
qed

end
