(* ===== verification/ContainerWait.thy ===== *)
theory ContainerWait
  imports Runs GoError
begin

text \<open>
  Waiting for a container: the goroutine of \<^verbatim>\<open>ContainerServiceAdapter.Wait\<close> (\<^verbatim>\<open>src/core/adapters/docker/container.go\<close>) and
  the loop of \<^verbatim>\<open>SDKDockerProvider.WaitContainer\<close> (\<^verbatim>\<open>src/core/docker_sdk_provider.go\<close>), which talk over two channels with
  room for one value each. A step is one branch of a \<^verbatim>\<open>select\<close> or one \<^verbatim>\<open>close\<close>; the end of the context and the answer of
  the daemon are steps of the surroundings. The errors of the SDK and what \<^verbatim>\<open>convertError\<close> makes of them
  (\<^verbatim>\<open>src/core/adapters/docker/convert.go\<close>, \<^verbatim>\<open>src/core/domain/errors.go\<close>) come first.
\<close>

section \<open>Errors of the SDK\<close>

text \<open>The classification of \<^verbatim>\<open>errdefs\<close> is an argument.\<close>

record errdefs =
  ed_NotFound :: "go_error \<Rightarrow> bool"
  ed_Conflict :: "go_error \<Rightarrow> bool"
  ed_Unauthorized :: "go_error \<Rightarrow> bool"
  ed_PermissionDenied :: "go_error \<Rightarrow> bool"
  ed_DeadlineExceeded :: "go_error \<Rightarrow> bool"
  ed_Canceled :: "go_error \<Rightarrow> bool"
  ed_Unavailable :: "go_error \<Rightarrow> bool"

definition domain_ErrConflict :: go_error where "domain_ErrConflict = Opaque 60 ''resource conflict''"
definition domain_ErrUnauthorized :: go_error where "domain_ErrUnauthorized = Opaque 61 ''unauthorized''"
definition domain_ErrForbidden :: go_error where "domain_ErrForbidden = Opaque 62 ''forbidden''"
definition domain_ErrTimeout :: go_error where "domain_ErrTimeout = Opaque 63 ''operation timed out''"
definition domain_ErrCanceled :: go_error where "domain_ErrCanceled = Opaque 64 ''operation canceled''"
definition domain_ErrConnectionFailed :: go_error where "domain_ErrConnectionFailed = Opaque 65 ''connection failed''"

definition ContainerNotFoundError :: "string \<Rightarrow> go_error" where
  "ContainerNotFoundError cid = Opaque 66 (''container not found: '' @ cid)"

definition convertError :: "errdefs \<Rightarrow> go_error \<Rightarrow> go_error" where
  "convertError E err =
     (if ed_NotFound E err then ContainerNotFoundError (err_msg err)
      else if ed_Conflict E err then domain_ErrConflict
      else if ed_Unauthorized E err then domain_ErrUnauthorized
      else if ed_PermissionDenied E err then domain_ErrForbidden
      else if ed_DeadlineExceeded E err then domain_ErrTimeout
      else if ed_Canceled E err then domain_ErrCanceled
      else if ed_Unavailable E err then domain_ErrConnectionFailed
      else err)"

section \<open>The two goroutines\<close>

text \<open>Where the goroutine of the adapter is: at its \<^verbatim>\<open>select\<close>, before \<^verbatim>\<open>close(errCh)\<close>, before \<^verbatim>\<open>close(respCh)\<close>, or gone.\<close>

datatype adapter_pc = AtSelect | AtCloseErr | AtCloseResp | Gone

record wait_response =
  wr_StatusCode :: int
  wr_Error :: "string option"

record wait_state =
  ws_ctx :: result
  ws_statusCh :: "wait_response option"
  ws_sdkErrCh :: result
  ws_adapter :: adapter_pc
  ws_errBuf :: result
  ws_errClosed :: bool
  ws_respBuf :: "wait_response option"
  ws_respClosed :: bool
  ws_errNil :: bool
  ws_recorded :: "string list"
  ws_returned :: "(int \<times> result) option"

text \<open>Both channels are made; the adapter has called the daemon; \<open>ws_errNil\<close> says that the loop has set \<^verbatim>\<open>errCh = nil\<close>.\<close>

definition wait_begin :: wait_state where
  "wait_begin =
     \<lparr>ws_ctx = None, ws_statusCh = None, ws_sdkErrCh = None, ws_adapter = AtSelect, ws_errBuf = None, ws_errClosed = False,
      ws_respBuf = None, ws_respClosed = False, ws_errNil = False, ws_recorded = [], ws_returned = None\<rparr>"

datatype wait_action =
    CtxEnds go_error | DaemonAnswers wait_response | DaemonFails go_error
  | SendCtx | SendErr | SendResp | CloseErr | CloseResp
  | TakeCtx | TakeErrClosed | TakeErr | TakeRespClosed | TakeResp

definition wait_error :: "string \<Rightarrow> go_error \<Rightarrow> result" where
  "wait_error cid err = WrapContainerError ''wait'' cid (Some err)"

text \<open>What the loop does with a response.\<close>

definition on_response :: "string \<Rightarrow> wait_response \<Rightarrow> string list \<Rightarrow> (int \<times> result) \<times> string list" where
  "on_response cid resp recorded =
     (case wr_Error resp of
        None \<Rightarrow> ((wr_StatusCode resp, None), recorded)
      | Some msg \<Rightarrow>
          if msg = [] then ((wr_StatusCode resp, None), recorded)
          else ((wr_StatusCode resp, wait_error cid (Errorf [Wrap (Sentinel ErrUnexpected), Lit '': '', Str msg])),
                recorded @ [''wait_container'']))"

text \<open>The channels of the SDK hold one value between them: it answers or it fails.\<close>

inductive wait_step :: "errdefs \<Rightarrow> string \<Rightarrow> wait_state \<Rightarrow> wait_action \<Rightarrow> wait_state \<Rightarrow> bool" for E cid where
  ctx_ends: "ws_ctx s = None \<Longrightarrow> wait_step E cid s (CtxEnds e) (s\<lparr>ws_ctx := Some e\<rparr>)"
| daemon_answers:
    "\<lbrakk>ws_statusCh s = None; ws_sdkErrCh s = None; ws_adapter s = AtSelect\<rbrakk> \<Longrightarrow>
     wait_step E cid s (DaemonAnswers resp) (s\<lparr>ws_statusCh := Some resp\<rparr>)"
| daemon_fails:
    "\<lbrakk>ws_statusCh s = None; ws_sdkErrCh s = None; ws_adapter s = AtSelect\<rbrakk> \<Longrightarrow>
     wait_step E cid s (DaemonFails e) (s\<lparr>ws_sdkErrCh := Some e\<rparr>)"
| send_ctx:
    "\<lbrakk>ws_adapter s = AtSelect; ws_ctx s = Some e\<rbrakk> \<Longrightarrow>
     wait_step E cid s SendCtx (s\<lparr>ws_errBuf := Some e, ws_adapter := AtCloseErr\<rparr>)"
| send_err:
    "\<lbrakk>ws_adapter s = AtSelect; ws_sdkErrCh s = Some e\<rbrakk> \<Longrightarrow>
     wait_step E cid s SendErr (s\<lparr>ws_errBuf := Some (convertError E e), ws_adapter := AtCloseErr\<rparr>)"
| send_resp:
    "\<lbrakk>ws_adapter s = AtSelect; ws_statusCh s = Some resp\<rbrakk> \<Longrightarrow>
     wait_step E cid s SendResp (s\<lparr>ws_respBuf := Some resp, ws_adapter := AtCloseErr\<rparr>)"
| close_err: "ws_adapter s = AtCloseErr \<Longrightarrow> wait_step E cid s CloseErr (s\<lparr>ws_errClosed := True, ws_adapter := AtCloseResp\<rparr>)"
| close_resp: "ws_adapter s = AtCloseResp \<Longrightarrow> wait_step E cid s CloseResp (s\<lparr>ws_respClosed := True, ws_adapter := Gone\<rparr>)"
| take_ctx:
    "\<lbrakk>ws_returned s = None; ws_ctx s = Some e\<rbrakk> \<Longrightarrow>
     wait_step E cid s TakeCtx (s\<lparr>ws_recorded := ws_recorded s @ [''wait_container''],
       ws_returned := Some (-1, Some (Errorf [Lit ''waiting for container: '', Wrap e]))\<rparr>)"
| take_err_closed:
    "\<lbrakk>ws_returned s = None; \<not> ws_errNil s; ws_errBuf s = None; ws_errClosed s\<rbrakk> \<Longrightarrow>
     wait_step E cid s TakeErrClosed (s\<lparr>ws_errNil := True\<rparr>)"
| take_err:
    "\<lbrakk>ws_returned s = None; \<not> ws_errNil s; ws_errBuf s = Some e\<rbrakk> \<Longrightarrow>
     wait_step E cid s TakeErr (s\<lparr>ws_errBuf := None, ws_recorded := ws_recorded s @ [''wait_container''],
       ws_returned := Some (-1, wait_error cid e)\<rparr>)"
| take_resp_closed:
    "\<lbrakk>ws_returned s = None; ws_respBuf s = None; ws_respClosed s\<rbrakk> \<Longrightarrow>
     wait_step E cid s TakeRespClosed (s\<lparr>ws_returned := Some (-1, wait_error cid (Sentinel ErrResponseChannelClosed))\<rparr>)"
| take_resp:
    "\<lbrakk>ws_returned s = None; ws_respBuf s = Some resp; on_response cid resp (ws_recorded s) = (r, recorded)\<rbrakk> \<Longrightarrow>
     wait_step E cid s TakeResp (s\<lparr>ws_respBuf := None, ws_recorded := recorded, ws_returned := Some r\<rparr>)"

inductive_cases wait_stepE: "wait_step E cid s a t"

section \<open>What always holds\<close>

definition channels_ok :: "errdefs \<Rightarrow> wait_state \<Rightarrow> bool" where
  "channels_ok E s \<longleftrightarrow>
     (ws_adapter s = AtSelect \<longrightarrow> ws_errBuf s = None \<and> ws_respBuf s = None) \<and>
     (ws_errClosed s \<longleftrightarrow> ws_adapter s \<in> {AtCloseResp, Gone}) \<and> (ws_respClosed s \<longleftrightarrow> ws_adapter s = Gone) \<and>
     (ws_errNil s \<longrightarrow> ws_errClosed s \<and> ws_errBuf s = None) \<and>
     (ws_statusCh s = None \<or> ws_sdkErrCh s = None) \<and>
     (\<forall>e. ws_errBuf s = Some e \<longrightarrow> ws_ctx s = Some e \<or> (\<exists>e'. ws_sdkErrCh s = Some e' \<and> e = convertError E e')) \<and>
     (\<forall>resp. ws_respBuf s = Some resp \<longrightarrow> ws_statusCh s = Some resp \<and> ws_errBuf s = None) \<and>
     (ws_returned s = None \<and> ws_adapter s \<noteq> AtSelect \<longrightarrow> ws_errBuf s \<noteq> None \<or> ws_respBuf s \<noteq> None)"

definition returned_ok :: "errdefs \<Rightarrow> string \<Rightarrow> wait_state \<Rightarrow> bool" where
  "returned_ok E cid s \<longleftrightarrow>
     (case ws_returned s of
        None \<Rightarrow> True
      | Some (code, err) \<Rightarrow>
          (\<exists>resp. ws_statusCh s = Some resp \<and> (code, err) = fst (on_response cid resp [])) \<or>
          (\<exists>e. ws_sdkErrCh s = Some e \<and> code = -1 \<and>
             err \<in> {wait_error cid (convertError E e), wait_error cid (Sentinel ErrResponseChannelClosed)}) \<or>
          ws_ctx s \<noteq> None \<and> err \<noteq> None)"

lemma on_response_fst: "fst (on_response cid resp rs) = fst (on_response cid resp rs')"
  by (simp add: on_response_def split: option.split)

lemma wait_error_not_None [simp]: "wait_error cid e \<noteq> None" "None \<noteq> wait_error cid e"
  by (auto simp: wait_error_def WrapContainerError_def wrap_error_def)

lemma on_response_None: "(c, None) = fst (on_response cid resp rs) \<Longrightarrow> wr_StatusCode resp = c \<and> wr_Error resp \<in> {None, Some []}"
  by (cases "wr_Error resp") (auto simp: on_response_def split: if_splits)

lemma channels_step: "wait_step E cid s a t \<Longrightarrow> channels_ok E s \<Longrightarrow> channels_ok E t"
  by (erule wait_stepE) (auto simp: channels_ok_def)

lemma returned_step: "wait_step E cid s a t \<Longrightarrow> channels_ok E s \<Longrightarrow> returned_ok E cid s \<Longrightarrow> returned_ok E cid t"
proof (erule wait_stepE)
  fix resp r recorded
  assume "channels_ok E s" "ws_respBuf s = Some resp" "on_response cid resp (ws_recorded s) = (r, recorded)"
    "t = s\<lparr>ws_respBuf := None, ws_recorded := recorded, ws_returned := Some r\<rparr>"
  then show "returned_ok E cid t"
    using on_response_fst [of cid resp "ws_recorded s" "[]"] by (cases r) (auto simp: returned_ok_def channels_ok_def)
next
  fix e
  assume "channels_ok E s" "ws_errBuf s = Some e" "t = s\<lparr>ws_errBuf := None, ws_recorded := ws_recorded s @ [''wait_container''],
       ws_returned := Some (-1, wait_error cid e)\<rparr>"
  then show "returned_ok E cid t" by (auto simp: returned_ok_def channels_ok_def)
qed (auto simp: returned_ok_def channels_ok_def split: option.splits)

interpretation wait: transition "wait_step E cid" "\<lambda>s. channels_ok E s \<and> returned_ok E cid s"
  by unfold_locales (blast intro: channels_step returned_step)

definition recorded_ok :: "wait_state \<Rightarrow> bool" where
  "recorded_ok s \<longleftrightarrow> ws_recorded s = [] \<or> ws_recorded s = [''wait_container''] \<and> ws_returned s \<noteq> None"

lemma recorded_step: "wait_step E cid s a t \<Longrightarrow> recorded_ok s \<Longrightarrow> recorded_ok t"
  by (erule wait_stepE) (auto simp: recorded_ok_def on_response_def split: option.splits if_splits)

interpretation recorded: transition "wait_step E cid" recorded_ok
  by unfold_locales (rule recorded_step)

lemma wait_records: "runs (wait_step E cid) wait_begin as s \<Longrightarrow> ws_recorded s \<in> {[], [''wait_container'']}"
  using recorded.ok_runs [of E cid wait_begin as s] by (auto simp: recorded_ok_def wait_begin_def)

lemma begin_ok: "channels_ok E wait_begin" "returned_ok E cid wait_begin"
  by (simp_all add: channels_ok_def returned_ok_def wait_begin_def)

section \<open>Properties\<close>

text \<open>C18 (wait_follows_daemon): whatever the order in which the two goroutines and the daemon move, a wait that returns without an
  error returns the exit code the daemon gave, and while the context lasts an answer of the daemon is never lost: the
  result is that answer, or, when the daemon failed, an error.\<close>

theorem wait_follows_daemon:
  assumes "runs (wait_step E cid) wait_begin as s" "ws_returned s = Some (code, err)"
  shows "(err = None \<longrightarrow> (\<exists>resp. ws_statusCh s = Some resp \<and> code = wr_StatusCode resp \<and> wr_Error resp \<in> {None, Some []})) \<and>
    (ws_ctx s = None \<longrightarrow>
       (\<exists>resp. ws_statusCh s = Some resp \<and> (code, err) = fst (on_response cid resp [])) \<or>
       (\<exists>e. ws_sdkErrCh s = Some e \<and> code = -1 \<and>
          err \<in> {wait_error cid (convertError E e), wait_error cid (Sentinel ErrResponseChannelClosed)}))"
proof -
  have "returned_ok E cid s" using wait.ok_runs [OF assms(1)] begin_ok by blast
  moreover note on_response_None
  ultimately show ?thesis using assms(2) wait_error_not_None [of cid]
    unfolding returned_ok_def by (simp only: option.case prod.case) (metis insert_iff empty_iff)
qed

text \<open>The daemon answers at once.\<close>

definition answered :: "wait_response \<Rightarrow> wait_state" where
  "answered resp = wait_begin\<lparr>ws_statusCh := Some resp, ws_adapter := AtCloseErr, ws_returned := Some (wr_StatusCode resp, None)\<rparr>"

lemma answered_run: "runs (wait_step E cid) wait_begin [DaemonAnswers \<lparr>wr_StatusCode = n, wr_Error = None\<rparr>, SendResp, TakeResp]
    (answered \<lparr>wr_StatusCode = n, wr_Error = None\<rparr>)"
proof -
  let ?r = "\<lparr>wr_StatusCode = n, wr_Error = None\<rparr>"
  let ?s1 = "wait_begin\<lparr>ws_statusCh := Some ?r\<rparr>"
  let ?s2 = "?s1\<lparr>ws_respBuf := Some ?r, ws_adapter := AtCloseErr\<rparr>"
  have "wait_step E cid wait_begin (DaemonAnswers ?r) ?s1" by (rule daemon_answers) (simp_all add: wait_begin_def)
  moreover have "wait_step E cid ?s1 SendResp ?s2" by (rule send_resp) (simp_all add: wait_begin_def)
  moreover have "wait_step E cid ?s2 TakeResp (?s2\<lparr>ws_respBuf := None, ws_recorded := [], ws_returned := Some (n, None)\<rparr>)"
    by (rule take_resp [where resp = ?r]) (simp_all add: wait_begin_def on_response_def)
  moreover have "?s2\<lparr>ws_respBuf := None, ws_recorded := [], ws_returned := Some (n, None)\<rparr> = answered ?r"
    by (simp add: answered_def wait_begin_def)
  ultimately show ?thesis by (simp only:) (intro runs_step runs_one)
qed

theorem wait_follows_daemon_witness:
  "\<forall>E. \<exists>as s. runs (wait_step E ''c'') wait_begin as s \<and> ws_returned s = Some (3, None) \<and>
     (\<exists>resp. ws_statusCh s = Some resp \<and> 3 = wr_StatusCode resp \<and> wr_Error resp \<in> {None, Some []})"
proof
  fix E
  let ?r = "\<lparr>wr_StatusCode = 3, wr_Error = None\<rparr>"
  have r: "ws_returned (answered ?r) = Some (3, None)" by (simp add: answered_def)
  show "\<exists>as s. runs (wait_step E ''c'') wait_begin as s \<and> ws_returned s = Some (3, None) \<and>
     (\<exists>resp. ws_statusCh s = Some resp \<and> 3 = wr_StatusCode resp \<and> wr_Error resp \<in> {None, Some []})"
    using answered_run [of E "''c''" 3] r wait_follows_daemon [OF answered_run r] by blast
qed

text \<open>The steps of the goroutines, which none of the surroundings has to wait for.\<close>

fun inner :: "wait_action \<Rightarrow> bool" where
  "inner (CtxEnds e) = False"
| "inner (DaemonAnswers r) = False"
| "inner (DaemonFails e) = False"
| "inner _ = True"

fun adapter_work :: "adapter_pc \<Rightarrow> nat" where
  "adapter_work AtSelect = 3" | "adapter_work AtCloseErr = 2" | "adapter_work AtCloseResp = 1" | "adapter_work Gone = 0"

definition wait_work :: "wait_state \<Rightarrow> nat" where
  "wait_work s = adapter_work (ws_adapter s) + (if ws_returned s \<noteq> None then 0 else if ws_errNil s then 1 else 2)"

lemma inner_decreases: "wait_step E cid s a t \<Longrightarrow> inner a \<Longrightarrow> wait_work t < wait_work s"
  by (erule wait_stepE) (simp_all add: wait_work_def)

lemma inner_runs_bounded: "runs (wait_step E cid) s as t \<Longrightarrow> list_all inner as \<Longrightarrow> wait_work t + length as \<le> wait_work s"
  by (induction rule: runs.induct) (fastforce dest: inner_decreases)+

lemma wait_progress:
  assumes "channels_ok E s" "ws_returned s = None" "ws_ctx s \<noteq> None \<or> ws_statusCh s \<noteq> None \<or> ws_sdkErrCh s \<noteq> None"
  shows "\<exists>a t. inner a \<and> wait_step E cid s a t"
proof (cases "ws_adapter s = AtSelect")
  case True
  with assms(3) consider e where "ws_ctx s = Some e" | r where "ws_statusCh s = Some r" | e where "ws_sdkErrCh s = Some e" by auto
  then show ?thesis
  proof cases
    case (1 e) then show ?thesis using send_ctx [OF True 1] by (meson inner.simps)
  next
    case (2 r) then show ?thesis using send_resp [OF True 2] by (meson inner.simps)
  next
    case (3 e) then show ?thesis using send_err [OF True 3] by (meson inner.simps)
  qed
next
  case False
  with assms(1,2) consider (e) e where "ws_errBuf s = Some e" "\<not> ws_errNil s" | (r) resp where "ws_respBuf s = Some resp"
    by (auto simp: channels_ok_def)
  then show ?thesis
  proof cases
    case e then show ?thesis using take_err [OF assms(2) e(2,1)] by (meson inner.simps)
  next
    case r
    obtain x rs where "on_response cid resp (ws_recorded s) = (x, rs)" by fastforce
    then show ?thesis using take_resp [OF assms(2) r] by (meson inner.simps)
  qed
qed

text \<open>C19 (wait_returns): once the context has ended or the daemon has answered or failed, at most five more steps of the two
  goroutines are possible, and as long as the wait has not returned one of them is: however they are scheduled, it
  returns.\<close>

theorem wait_returns:
  assumes "runs (wait_step E cid) wait_begin as s" "ws_ctx s \<noteq> None \<or> ws_statusCh s \<noteq> None \<or> ws_sdkErrCh s \<noteq> None"
  shows "(\<forall>bs t. runs (wait_step E cid) s bs t \<and> list_all inner bs \<longrightarrow> length bs \<le> 5) \<and>
    (ws_returned s = None \<longrightarrow> (\<exists>a t. inner a \<and> wait_step E cid s a t))"
proof (intro conjI allI impI)
  fix bs t
  assume "runs (wait_step E cid) s bs t \<and> list_all inner bs"
  then have "wait_work t + length bs \<le> wait_work s" using inner_runs_bounded by blast
  also have "wait_work s \<le> 5" by (cases "ws_adapter s") (simp_all add: wait_work_def)
  finally show "length bs \<le> 5" by simp
next
  assume "ws_returned s = None"
  then show "\<exists>a t. inner a \<and> wait_step E cid s a t"
    using wait_progress [OF _ _ assms(2)] wait.ok_runs [OF assms(1)] begin_ok by blast
qed

theorem wait_returns_witness:
  "\<forall>E. \<exists>a t. inner a \<and>
     wait_step E ''c'' (wait_begin\<lparr>ws_statusCh := Some \<lparr>wr_StatusCode = 0, wr_Error = None\<rparr>\<rparr>) a t"
proof
  fix E
  let ?s = "wait_begin\<lparr>ws_statusCh := Some \<lparr>wr_StatusCode = 0, wr_Error = None\<rparr>\<rparr>"
  have "wait_step E ''c'' wait_begin (DaemonAnswers \<lparr>wr_StatusCode = 0, wr_Error = None\<rparr>) ?s"
    by (rule daemon_answers) (simp_all add: wait_begin_def)
  then have "runs (wait_step E ''c'') wait_begin [DaemonAnswers \<lparr>wr_StatusCode = 0, wr_Error = None\<rparr>] ?s" by (rule runs_one)
  then show "\<exists>a t. inner a \<and> wait_step E ''c'' ?s a t"
    by (rule wait_returns [THEN conjunct2, THEN mp]) (simp_all add: wait_begin_def)
qed

text \<open>C20 (wait_error_masked): for every failure of the daemon there are two schedules of the same goroutines. In one the loop takes
  the error from its channel; in the other the adapter has closed both channels first, \<^verbatim>\<open>select\<close> finds them both ready and
  takes the closed one of the responses: the error is replaced by \<^verbatim>\<open>ErrResponseChannelClosed\<close>, and is not counted.\<close>

theorem wait_error_masked:
  "(\<exists>s. runs (wait_step E cid) wait_begin [DaemonFails e, SendErr, CloseErr, CloseResp, TakeErr] s \<and>
      ws_returned s = Some (-1, wait_error cid (convertError E e)) \<and> ws_recorded s = [''wait_container'']) \<and>
   (\<exists>s. runs (wait_step E cid) wait_begin [DaemonFails e, SendErr, CloseErr, CloseResp, TakeRespClosed] s \<and>
      ws_returned s = Some (-1, wait_error cid (Sentinel ErrResponseChannelClosed)) \<and> ws_recorded s = [])"
proof -
  let ?s1 = "wait_begin\<lparr>ws_sdkErrCh := Some e\<rparr>"
  let ?s2 = "?s1\<lparr>ws_errBuf := Some (convertError E e), ws_adapter := AtCloseErr\<rparr>"
  let ?s3 = "?s2\<lparr>ws_errClosed := True, ws_adapter := AtCloseResp\<rparr>"
  let ?s4 = "?s3\<lparr>ws_respClosed := True, ws_adapter := Gone\<rparr>"
  have "wait_step E cid wait_begin (DaemonFails e) ?s1" by (rule daemon_fails) (simp_all add: wait_begin_def)
  moreover have "wait_step E cid ?s1 SendErr ?s2" by (rule send_err) (simp_all add: wait_begin_def)
  moreover have "wait_step E cid ?s2 CloseErr ?s3" by (rule close_err) simp
  moreover have "wait_step E cid ?s3 CloseResp ?s4" by (rule close_resp) simp
  moreover have "wait_step E cid ?s4 TakeErr (?s4\<lparr>ws_errBuf := None, ws_recorded := ws_recorded ?s4 @ [''wait_container''],
       ws_returned := Some (-1, wait_error cid (convertError E e))\<rparr>)" by (rule take_err) (simp_all add: wait_begin_def)
  moreover have "wait_step E cid ?s4 TakeRespClosed
      (?s4\<lparr>ws_returned := Some (-1, wait_error cid (Sentinel ErrResponseChannelClosed))\<rparr>)"
    by (rule take_resp_closed) (simp_all add: wait_begin_def)
  ultimately show ?thesis
    by (intro conjI exI) (rule runs_step runs_one | assumption | simp add: wait_begin_def)+
qed

end
