(* ===== verification/DockerClient.thy ===== *)
theory DockerClient
  imports Sanitizer "HOL-Library.State_Monad" "HOL-Library.List_Lexorder" "HOL-Library.Char_ord"
begin

text \<open>
  The client of the Docker daemon (\<^verbatim>\<open>src/core/adapters/docker/client.go\<close>): the host and its scheme, the HTTP transport of each
  scheme, and the TLS material it carries. The environment is read through a state that records the names read. The loader
  of certificates (\<^verbatim>\<open>tlsconfig.Client\<close>), \<^verbatim>\<open>url.Parse\<close>, the default host and the constructor of the SDK are arguments; of the
  negotiation of the API version nothing is visible in the result but its bound. The field \<^verbatim>\<open>HTTPClient\<close> of the
  configuration, which the code never reads, has no counterpart.
\<close>

section \<open>Configuration and environment\<close>

record ClientConfig =
  cc_Host :: string
  cc_Version :: string
  cc_HTTPHeaders :: "(string \<times> string) list option"
  cc_MaxIdleConns :: int
  cc_MaxIdleConnsPerHost :: int
  cc_MaxConnsPerHost :: int
  cc_IdleConnTimeout :: duration
  cc_DialTimeout :: duration
  cc_ResponseHeaderTimeout :: duration
  cc_NegotiateTimeout :: duration
  cc_TLSCertPath :: string
  cc_TLSVerify :: "bool option"

definition defaultNegotiateTimeout :: duration where "defaultNegotiateTimeout = 30 * second"

definition DefaultConfig :: ClientConfig where
  "DefaultConfig =
     \<lparr>cc_Host = [], cc_Version = [], cc_HTTPHeaders = None, cc_MaxIdleConns = 100, cc_MaxIdleConnsPerHost = 50,
      cc_MaxConnsPerHost = 100, cc_IdleConnTimeout = 90 * second, cc_DialTimeout = 30 * second,
      cc_ResponseHeaderTimeout = 120 * second, cc_NegotiateTimeout = defaultNegotiateTimeout,
      cc_TLSCertPath = [], cc_TLSVerify = None\<rparr>"

definition zeroConfig :: ClientConfig where
  "zeroConfig =
     \<lparr>cc_Host = [], cc_Version = [], cc_HTTPHeaders = None, cc_MaxIdleConns = 0, cc_MaxIdleConnsPerHost = 0, cc_MaxConnsPerHost = 0,
      cc_IdleConnTimeout = 0, cc_DialTimeout = 0, cc_ResponseHeaderTimeout = 0, cc_NegotiateTimeout = 0, cc_TLSCertPath = [],
      cc_TLSVerify = None\<rparr>"

record tls_options =
  to_CAFile :: string
  to_CertFile :: string
  to_KeyFile :: string
  to_InsecureSkipVerify :: bool

datatype dial = DialUnix string duration | DialTCP string duration

record 't transport =
  tr_MaxIdleConns :: int
  tr_MaxIdleConnsPerHost :: int
  tr_MaxConnsPerHost :: int
  tr_IdleConnTimeout :: duration
  tr_ResponseHeaderTimeout :: duration
  tr_Dial :: "dial option"
  tr_ForceAttemptHTTP2 :: bool
  tr_NoHTTP2 :: bool
  tr_TLSClientConfig :: "'t option"

text \<open>\<open>tr_NoHTTP2\<close>: the empty map in \<^verbatim>\<open>TLSNextProto\<close>.\<close>

text \<open>What the SDK is built with.\<close>

record 't docker_client =
  cl_Host :: string
  cl_Version :: "string option"
  cl_Headers :: "(string \<times> string) list option"
  cl_Transport :: "'t transport"
  cl_NegotiateTimeout :: duration

record 't docker_env =
  de_getenv :: "string \<Rightarrow> string"
  de_DefaultDockerHost :: string
  de_tls :: "tls_options \<Rightarrow> go_error + 't"
  de_urlHost :: "string \<Rightarrow> string option"
  de_NewClientWithOpts :: "'t docker_client \<Rightarrow> result"

definition getenv :: "'t docker_env \<Rightarrow> string \<Rightarrow> (string list, string) state" where
  "getenv D k = State (\<lambda>reads. (de_getenv D k, reads @ [k]))"

definition ErrUnsupportedDockerHostScheme :: go_error where
  "ErrUnsupportedDockerHostScheme = Opaque 50 ''unsupported DOCKER_HOST scheme''"
definition ErrMissingDockerHostScheme :: go_error where
  "ErrMissingDockerHostScheme = Opaque 51 ''missing DOCKER_HOST scheme''"
definition ErrTCPTLSRequiresCertMaterial :: go_error where
  "ErrTCPTLSRequiresCertMaterial = Opaque 52 ''tcp+tls:// requires TLS material''"
definition ErrHTTPSRequiresUsableCertMaterial :: go_error where
  "ErrHTTPSRequiresUsableCertMaterial = Opaque 53 ''https:// has TLS material configured but it is unreadable or invalid''"

section \<open>TLS material\<close>

definition hasTLSMaterial :: "'t docker_env \<Rightarrow> ClientConfig option \<Rightarrow> (string list, bool) state" where
  "hasTLSMaterial D config =
     (if (case config of Some c \<Rightarrow> cc_TLSCertPath c \<noteq> [] | None \<Rightarrow> False) then State_Monad.return True
      else do { p \<leftarrow> getenv D ''DOCKER_CERT_PATH''; State_Monad.return (p \<noteq> []) })"

definition cert_file :: "string \<Rightarrow> string \<Rightarrow> string" where
  "cert_file certPath name = Clean (certPath @ ''/'' @ name)"

definition resolveTLSConfig :: "'t docker_env \<Rightarrow> ClientConfig \<Rightarrow> (string list, go_error + 't option) state" where
  "resolveTLSConfig D config = do {
     certPath \<leftarrow> (if cc_TLSCertPath config = [] then getenv D ''DOCKER_CERT_PATH'' else State_Monad.return (cc_TLSCertPath config));
     if certPath = [] then State_Monad.return (Inr None)
     else do {
       verify \<leftarrow> (case cc_TLSVerify config of
           Some v \<Rightarrow> State_Monad.return v
         | None \<Rightarrow> do { v \<leftarrow> getenv D ''DOCKER_TLS_VERIFY''; State_Monad.return (v \<noteq> []) });
       State_Monad.return
         (case de_tls D \<lparr>to_CAFile = cert_file certPath ''ca.pem'', to_CertFile = cert_file certPath ''cert.pem'',
                         to_KeyFile = cert_file certPath ''key.pem'', to_InsecureSkipVerify = (\<not> verify)\<rparr> of
            Inl err \<Rightarrow> Inl (Errorf [Lit ''loading docker TLS config from '', Str certPath,
                         Lit '' (expected ca.pem, cert.pem, key.pem): '', Wrap err])
          | Inr t \<Rightarrow> Inr (Some t))
     }
   }"

section \<open>Transports\<close>

definition disableHTTP2AutoConfig :: "'t transport \<Rightarrow> 't transport" where
  "disableHTTP2AutoConfig t = t\<lparr>tr_NoHTTP2 := True\<rparr>"

definition applyDockerTLS :: "'t docker_env \<Rightarrow> 't transport \<Rightarrow> ClientConfig \<Rightarrow> (string list, 't transport) state" where
  "applyDockerTLS D t config = do {
     r \<leftarrow> resolveTLSConfig D config;
     State_Monad.return (case r of Inl _ \<Rightarrow> t | Inr None \<Rightarrow> t | Inr (Some c) \<Rightarrow> t\<lparr>tr_TLSClientConfig := Some c\<rparr>)
   }"

definition applyUnixTransport :: "'t docker_env \<Rightarrow> 't transport \<Rightarrow> ClientConfig \<Rightarrow> string \<Rightarrow> (string list, 't transport) state" where
  "applyUnixTransport D t cfg host =
     State_Monad.return (t\<lparr>tr_Dial := Some (DialUnix (TrimPrefix host ''unix://'') (cc_DialTimeout cfg)), tr_ForceAttemptHTTP2 := False\<rparr>)"

definition applyTLSTransport :: "'t docker_env \<Rightarrow> 't transport \<Rightarrow> ClientConfig \<Rightarrow> string \<Rightarrow> (string list, 't transport) state" where
  "applyTLSTransport D t cfg host = applyDockerTLS D (t\<lparr>tr_ForceAttemptHTTP2 := True\<rparr>) cfg"

definition applyTCPTransport :: "'t docker_env \<Rightarrow> 't transport \<Rightarrow> ClientConfig \<Rightarrow> string \<Rightarrow> (string list, 't transport) state" where
  "applyTCPTransport D t cfg host = State_Monad.return (t\<lparr>tr_ForceAttemptHTTP2 := False\<rparr>)"

definition applyHTTPTransport :: "'t docker_env \<Rightarrow> 't transport \<Rightarrow> ClientConfig \<Rightarrow> string \<Rightarrow> (string list, 't transport) state" where
  "applyHTTPTransport D t cfg host =
     (let addr = (case de_urlHost D host of
                    Some h \<Rightarrow> if h \<noteq> [] then h else TrimPrefix host ''http://''
                  | None \<Rightarrow> TrimPrefix host ''http://'')
      in State_Monad.return (t\<lparr>tr_Dial := Some (DialTCP addr (cc_DialTimeout cfg)), tr_ForceAttemptHTTP2 := False\<rparr>))"

definition applyPlainTransport :: "'t docker_env \<Rightarrow> 't transport \<Rightarrow> ClientConfig \<Rightarrow> string \<Rightarrow> (string list, 't transport) state" where
  "applyPlainTransport D t cfg host = State_Monad.return (t\<lparr>tr_ForceAttemptHTTP2 := False\<rparr>)"

record 't schemeHandler =
  sh_allowed :: bool
  sh_tlsCapable :: bool
  sh_apply :: "'t docker_env \<Rightarrow> 't transport \<Rightarrow> ClientConfig \<Rightarrow> string \<Rightarrow> (string list, 't transport) state"

definition schemeHandlers :: "(string \<times> 't schemeHandler) list" where
  "schemeHandlers =
     [(''unix'', \<lparr>sh_allowed = True, sh_tlsCapable = False, sh_apply = applyUnixTransport\<rparr>),
      (''tcp'', \<lparr>sh_allowed = True, sh_tlsCapable = False, sh_apply = applyTCPTransport\<rparr>),
      (''http'', \<lparr>sh_allowed = True, sh_tlsCapable = False, sh_apply = applyHTTPTransport\<rparr>),
      (''https'', \<lparr>sh_allowed = True, sh_tlsCapable = True, sh_apply = applyTLSTransport\<rparr>),
      (''npipe'', \<lparr>sh_allowed = True, sh_tlsCapable = False, sh_apply = applyPlainTransport\<rparr>),
      (''tcp+tls'', \<lparr>sh_allowed = True, sh_tlsCapable = True, sh_apply = applyTLSTransport\<rparr>)]"

definition allowedSchemes :: "(string \<times> 't schemeHandler) list \<Rightarrow> string list" where
  "allowedSchemes handlers = sort (map fst (filter (\<lambda>(name, h). sh_allowed h) handlers))"

definition formatSupportedSchemes :: "(string \<times> 't schemeHandler) list \<Rightarrow> string" where
  "formatSupportedSchemes handlers = join '', '' (map (\<lambda>s. s @ ''://'') (allowedSchemes handlers))"

section \<open>The host\<close>

text \<open>\<^verbatim>\<open>strings.Cut\<close>\<close>

fun Cut :: "string \<Rightarrow> string \<Rightarrow> (string \<times> string) option" where
  "Cut [] sep = (if sep = [] then Some ([], []) else None)"
| "Cut (c # cs) sep =
     (if HasPrefix (c # cs) sep then Some ([], drop (length sep) (c # cs))
      else map_option (\<lambda>(a, b). (c # a, b)) (Cut cs sep))"

definition effective_host :: "'t docker_env \<Rightarrow> ClientConfig option \<Rightarrow> (string list, string) state" where
  "effective_host D cfg = do {
     host \<leftarrow> (let h = (case cfg of Some c \<Rightarrow> cc_Host c | None \<Rightarrow> [])
             in if h = [] then getenv D ''DOCKER_HOST'' else State_Monad.return h);
     State_Monad.return (if host = [] then de_DefaultDockerHost D else host)
   }"

definition check_scheme :: "'t docker_env \<Rightarrow> string \<Rightarrow> go_error + string \<times> string" where
  "check_scheme D host =
     (case Cut host ''://'' of
        None \<Rightarrow> Inl (Errorf [Wrap ErrMissingDockerHostScheme, Lit '': '', Quoted host, Lit '' (e.g. '', Quoted ''unix://'', Lit '', '', Quoted ''tcp://'',
                     Lit ''); supported schemes: '',
                     Str (formatSupportedSchemes (schemeHandlers :: (string \<times> 't schemeHandler) list))])
      | Some (rawScheme, rest) \<Rightarrow>
          let scheme = ToLower rawScheme in
          (case map_of (schemeHandlers :: (string \<times> 't schemeHandler) list) scheme of
             Some h \<Rightarrow> if sh_allowed h then Inr (scheme @ ''://'' @ rest, scheme)
               else Inl (Errorf [Wrap ErrUnsupportedDockerHostScheme, Lit '': '', Quoted (scheme @ ''://''), Lit ''; supported schemes: '',
                          Str (formatSupportedSchemes (schemeHandlers :: (string \<times> 't schemeHandler) list))])
           | None \<Rightarrow> Inl (Errorf [Wrap ErrUnsupportedDockerHostScheme, Lit '': '', Quoted (scheme @ ''://''), Lit ''; supported schemes: '',
                          Str (formatSupportedSchemes (schemeHandlers :: (string \<times> 't schemeHandler) list))])))"

definition resolveDockerHost :: "'t docker_env \<Rightarrow> ClientConfig option \<Rightarrow> (string list, go_error + string \<times> string) state" where
  "resolveDockerHost D cfg = do { host \<leftarrow> effective_host D cfg; State_Monad.return (check_scheme D host) }"

definition validateAndNormalizeHost :: "'t docker_env \<Rightarrow> string \<Rightarrow> (string list, go_error + string) state" where
  "validateAndNormalizeHost D host =
     (if host = [] then State_Monad.return (Inr [])
      else do {
        r \<leftarrow> resolveDockerHost D (Some (zeroConfig\<lparr>cc_Host := host\<rparr>));
        State_Monad.return (case r of Inl err \<Rightarrow> Inl err | Inr (resolved, _) \<Rightarrow> Inr resolved)
      })"

definition resolveHostForDispatch :: "'t docker_env \<Rightarrow> ClientConfig \<Rightarrow> (string list, string \<times> string) state" where
  "resolveHostForDispatch D cfg = do {
     host \<leftarrow> effective_host D (Some cfg);
     State_Monad.return (case Cut host ''://'' of None \<Rightarrow> (host, []) | Some (rawScheme, _) \<Rightarrow> (host, ToLower rawScheme))
   }"

definition upgradeTCPToHTTPSIfTLSMaterial :: "'t docker_env \<Rightarrow> string \<Rightarrow> ClientConfig \<Rightarrow> (string list, string) state" where
  "upgradeTCPToHTTPSIfTLSMaterial D host cfg =
     (if \<not> HasPrefix host ''tcp://'' then State_Monad.return host
      else do {
        m \<leftarrow> hasTLSMaterial D (Some cfg);
        State_Monad.return (if m then ''https://'' @ TrimPrefix host ''tcp://'' else host)
      })"

section \<open>The client\<close>

definition createHTTPClient :: "'t docker_env \<Rightarrow> ClientConfig \<Rightarrow> (string list, 't transport) state" where
  "createHTTPClient D config = do {
     (host, scheme) \<leftarrow> resolveHostForDispatch D config;
     let transport = \<lparr>tr_MaxIdleConns = cc_MaxIdleConns config, tr_MaxIdleConnsPerHost = cc_MaxIdleConnsPerHost config,
          tr_MaxConnsPerHost = cc_MaxConnsPerHost config, tr_IdleConnTimeout = cc_IdleConnTimeout config,
          tr_ResponseHeaderTimeout = cc_ResponseHeaderTimeout config, tr_Dial = None, tr_ForceAttemptHTTP2 = False,
          tr_NoHTTP2 = False, tr_TLSClientConfig = None\<rparr>;
     (case map_of schemeHandlers scheme of
        Some h \<Rightarrow> do {
          t \<leftarrow> sh_apply h D transport config host;
          State_Monad.return (if \<not> sh_tlsCapable h then disableHTTP2AutoConfig t else t)
        }
      | None \<Rightarrow> State_Monad.return (disableHTTP2AutoConfig (transport\<lparr>tr_ForceAttemptHTTP2 := False\<rparr>)))
   }"

definition tls_gates :: "'t docker_env \<Rightarrow> string \<Rightarrow> ClientConfig \<Rightarrow> (string list, result) state" where
  "tls_gates D scheme config =
     (if scheme = ''tcp+tls'' then do {
        m \<leftarrow> hasTLSMaterial D (Some config);
        if \<not> m then State_Monad.return (Some (Errorf [Wrap ErrTCPTLSRequiresCertMaterial,
            Lit '': set DOCKER_CERT_PATH (or ClientConfig.TLSCertPath); see docs/TROUBLESHOOTING.md'']))
        else do {
          r \<leftarrow> resolveTLSConfig D config;
          State_Monad.return (case r of
              Inl tlsErr \<Rightarrow> Some (Errorf [Wrap ErrTCPTLSRequiresCertMaterial,
                Lit '': cert material at the configured path is unreadable or invalid; see docs/TROUBLESHOOTING.md: '', Wrap tlsErr])
            | Inr _ \<Rightarrow> None)
        }
      }
      else if scheme = ''https'' then do {
        m \<leftarrow> hasTLSMaterial D (Some config);
        if \<not> m then State_Monad.return None
        else do {
          r \<leftarrow> resolveTLSConfig D config;
          State_Monad.return (case r of
              Inl tlsErr \<Rightarrow> Some (Errorf [Wrap ErrHTTPSRequiresUsableCertMaterial,
                Lit '': cert material at the configured path is unreadable or invalid; see docs/TROUBLESHOOTING.md: '', Wrap tlsErr])
            | Inr _ \<Rightarrow> None)
        }
      }
      else State_Monad.return None)"

definition NewClientWithConfig :: "'t docker_env \<Rightarrow> ClientConfig option \<Rightarrow> (string list, go_error + 't docker_client) state" where
  "NewClientWithConfig D cfg = do {
     let config = (case cfg of None \<Rightarrow> DefaultConfig | Some c \<Rightarrow> c);
     r \<leftarrow> resolveDockerHost D (Some config);
     (case r of
        Inl err \<Rightarrow> State_Monad.return (Inl (Errorf [Lit ''creating docker client: '', Wrap err]))
      | Inr (normalizedHost, scheme) \<Rightarrow> do {
          gate \<leftarrow> tls_gates D scheme config;
          (case gate of
             Some err \<Rightarrow> State_Monad.return (Inl err)
           | None \<Rightarrow> do {
               host \<leftarrow> upgradeTCPToHTTPSIfTLSMaterial D normalizedHost config;
               t \<leftarrow> createHTTPClient D (config\<lparr>cc_Host := host\<rparr>);
               let cl = \<lparr>cl_Host = host, cl_Version = (if cc_Version config \<noteq> [] then Some (cc_Version config) else None),
                     cl_Headers = cc_HTTPHeaders config, cl_Transport = t,
                     cl_NegotiateTimeout = (if cc_NegotiateTimeout config \<le> 0 then defaultNegotiateTimeout else cc_NegotiateTimeout config)\<rparr>;
               State_Monad.return (case de_NewClientWithOpts D cl of
                   Some err \<Rightarrow> Inl (Errorf [Lit ''creating docker client: '', Wrap err])
                 | None \<Rightarrow> Inr cl)
             })
        })
   }"

section \<open>What the operations return\<close>

lemma run_getenv [simp]: "run_state (getenv D k) reads = (de_getenv D k, reads @ [k])"
  by (simp add: getenv_def)

definition cert_path :: "'t docker_env \<Rightarrow> ClientConfig \<Rightarrow> string" where
  "cert_path D c = (if cc_TLSCertPath c = [] then de_getenv D ''DOCKER_CERT_PATH'' else cc_TLSCertPath c)"

definition verifies :: "'t docker_env \<Rightarrow> ClientConfig \<Rightarrow> bool" where
  "verifies D c = (case cc_TLSVerify c of Some v \<Rightarrow> v | None \<Rightarrow> de_getenv D ''DOCKER_TLS_VERIFY'' \<noteq> [])"

definition tls_load :: "'t docker_env \<Rightarrow> ClientConfig \<Rightarrow> go_error + 't" where
  "tls_load D c = de_tls D \<lparr>to_CAFile = cert_file (cert_path D c) ''ca.pem'', to_CertFile = cert_file (cert_path D c) ''cert.pem'',
     to_KeyFile = cert_file (cert_path D c) ''key.pem'', to_InsecureSkipVerify = (\<not> verifies D c)\<rparr>"

definition host_of :: "'t docker_env \<Rightarrow> ClientConfig \<Rightarrow> string" where
  "host_of D c = (let h = (if cc_Host c = [] then de_getenv D ''DOCKER_HOST'' else cc_Host c)
                  in if h = [] then de_DefaultDockerHost D else h)"

text \<open>Every step returns a value that does not depend on the reads before it, and adds its own reads.\<close>

lemma run_hasTLSMaterial:
  "run_state (hasTLSMaterial D (Some c)) reads =
     (cert_path D c \<noteq> [], reads @ (if cc_TLSCertPath c = [] then [''DOCKER_CERT_PATH''] else []))"
  by (simp add: hasTLSMaterial_def cert_path_def)

lemma run_resolveTLSConfig:
  "run_state (resolveTLSConfig D c) reads =
     (if cert_path D c = [] then Inr None
      else case tls_load D c of
          Inl err \<Rightarrow> Inl (Errorf [Lit ''loading docker TLS config from '', Str (cert_path D c),
                         Lit '' (expected ca.pem, cert.pem, key.pem): '', Wrap err])
        | Inr t \<Rightarrow> Inr (Some t),
      reads @ (if cc_TLSCertPath c = [] then [''DOCKER_CERT_PATH''] else []) @
        (if cert_path D c \<noteq> [] \<and> cc_TLSVerify c = None then [''DOCKER_TLS_VERIFY''] else []))"
  by (cases "cc_TLSCertPath c = []"; cases "cc_TLSVerify c")
    (simp_all add: resolveTLSConfig_def cert_path_def tls_load_def verifies_def split: sum.split)

lemma run_effective_host:
  "run_state (effective_host D (Some c)) reads = (host_of D c, reads @ (if cc_Host c = [] then [''DOCKER_HOST''] else []))"
  by (simp add: effective_host_def host_of_def)

lemma run_resolveDockerHost:
  "run_state (resolveDockerHost D (Some c)) reads =
     (check_scheme D (host_of D c), reads @ (if cc_Host c = [] then [''DOCKER_HOST''] else []))"
  by (simp add: resolveDockerHost_def run_effective_host)

lemma host_given: "cc_Host c \<noteq> [] \<Longrightarrow> host_of D c = cc_Host c"
  by (simp add: host_of_def)

lemma dispatch_given:
  "cc_Host c \<noteq> [] \<Longrightarrow> run_state (resolveHostForDispatch D c) reads =
     ((cc_Host c, case Cut (cc_Host c) ''://'' of None \<Rightarrow> [] | Some (s, _) \<Rightarrow> ToLower s), reads)"
  by (simp add: resolveHostForDispatch_def run_effective_host host_given split: option.split)

section \<open>Schemes\<close>

abbreviation known_scheme :: "string \<Rightarrow> bool" where
  "known_scheme s \<equiv> s \<in> set [''unix'', ''tcp'', ''http'', ''https'', ''npipe'', ''tcp+tls'']"

lemma map_of_schemes:
  "(\<exists>h. map_of schemeHandlers s = Some h) \<longleftrightarrow> known_scheme s"
  "map_of schemeHandlers s = Some h \<Longrightarrow> sh_allowed h \<and> sh_tlsCapable h = (s \<in> {''https'', ''tcp+tls''})"
  by (auto simp: schemeHandlers_def split: if_splits)

lemma known_scheme_facts:
  assumes "known_scheme s"
  shows "ToLower s = s" "Cut (s @ ''://'' @ rest) ''://'' = Some (s, rest)"
    "HasPrefix (s @ ''://'' @ rest) ''tcp://'' = (s = ''tcp'')"
  using assms by (auto simp: ToLower_def toLower_def HasPrefix_def)

lemma HasPrefix_step:
  "HasPrefix (x # s) (y # p) \<longleftrightarrow> x = y \<and> HasPrefix s p" "HasPrefix s []" "\<not> HasPrefix [] (y # p)"
  by (simp_all add: HasPrefix_def)

lemma tls_scheme_prefix:
  assumes "known_scheme s"
  shows "HasPrefix (s @ ''://'' @ rest) ''https://'' \<or> HasPrefix (s @ ''://'' @ rest) ''tcp+tls://'' \<longleftrightarrow> s \<in> {''https'', ''tcp+tls''}"
  using assms unfolding list.set by (elim insertE emptyE; hypsubst; simp add: HasPrefix_step)

lemma check_scheme_accepts:
  "check_scheme D host = Inr (h, s) \<longleftrightarrow>
     (\<exists>raw rest. Cut host ''://'' = Some (raw, rest) \<and> s = ToLower raw \<and> known_scheme s \<and> h = s @ ''://'' @ rest)"
proof
  assume "check_scheme D host = Inr (h, s)"
  then obtain raw rest where c: "Cut host ''://'' = Some (raw, rest)" "s = ToLower raw" "h = s @ ''://'' @ rest"
      "\<exists>x. map_of (schemeHandlers :: (string \<times> 'a schemeHandler) list) s = Some x"
    by (auto simp: check_scheme_def Let_def split: option.splits if_splits)
  then show "\<exists>raw rest. Cut host ''://'' = Some (raw, rest) \<and> s = ToLower raw \<and> known_scheme s \<and> h = s @ ''://'' @ rest"
    using map_of_schemes(1) by blast
next
  assume "\<exists>raw rest. Cut host ''://'' = Some (raw, rest) \<and> s = ToLower raw \<and> known_scheme s \<and> h = s @ ''://'' @ rest"
  then obtain raw rest where c: "Cut host ''://'' = Some (raw, rest)" "s = ToLower raw" "h = s @ ''://'' @ rest" "known_scheme s" by blast
  obtain x where x: "map_of (schemeHandlers :: (string \<times> 'a schemeHandler) list) s = Some x" using c(4) map_of_schemes(1) by blast
  show "check_scheme D host = Inr (h, s)"
    using map_of_schemes(2) [OF x] x c by (simp add: check_scheme_def Let_def)
qed

lemma check_scheme_given:
  assumes "known_scheme s"
  shows "check_scheme D (host_of D (c\<lparr>cc_Host := s @ ''://'' @ rest\<rparr>)) = Inr (s @ ''://'' @ rest, s)"
proof -
  have "host_of D (c\<lparr>cc_Host := s @ ''://'' @ rest\<rparr>) = s @ ''://'' @ rest" by (simp add: host_of_def)
  then show ?thesis
    unfolding check_scheme_accepts using assms known_scheme_facts(1) [OF assms] known_scheme_facts(2) [OF assms, of rest]
    by (intro exI [of _ s] exI [of _ rest]) simp
qed

section \<open>The client that is built\<close>

text \<open>The transport of a host with a known scheme: what its TLS configuration and its HTTP/2 switch are.\<close>

definition loaded :: "'t docker_env \<Rightarrow> ClientConfig \<Rightarrow> 't option" where
  "loaded D c = (if cert_path D c = [] then None else case tls_load D c of Inl _ \<Rightarrow> None | Inr t \<Rightarrow> Some t)"

lemma transport_facts:
  assumes "cc_Host c = s @ ''://'' @ rest" "known_scheme s"
  shows "tr_NoHTTP2 (fst (run_state (createHTTPClient D c) reads)) = (s \<notin> {''https'', ''tcp+tls''})"
    "tr_TLSClientConfig (fst (run_state (createHTTPClient D c) reads)) = (if s \<in> {''https'', ''tcp+tls''} then loaded D c else None)"
    "count_list (snd (run_state (createHTTPClient D c) reads)) ''DOCKER_HOST'' = count_list reads ''DOCKER_HOST''"
proof -
  have d: "run_state (resolveHostForDispatch D c) reads = ((cc_Host c, s), reads)"
    using dispatch_given [of c D reads] known_scheme_facts(1) [OF assms(2)] known_scheme_facts(2) [OF assms(2), of rest] assms(1) by simp
  note defs = createHTTPClient_def schemeHandlers_def applyUnixTransport_def applyTCPTransport_def applyHTTPTransport_def
    applyPlainTransport_def applyTLSTransport_def applyDockerTLS_def run_resolveTLSConfig disableHTTP2AutoConfig_def Let_def loaded_def
  show "tr_NoHTTP2 (fst (run_state (createHTTPClient D c) reads)) = (s \<notin> {''https'', ''tcp+tls''})"
    using assms(2) d by (cases "tls_load D c") (auto simp: defs)
  show "tr_TLSClientConfig (fst (run_state (createHTTPClient D c) reads)) = (if s \<in> {''https'', ''tcp+tls''} then loaded D c else None)"
    using assms(2) d by (cases "tls_load D c") (auto simp: defs)
  show "count_list (snd (run_state (createHTTPClient D c) reads)) ''DOCKER_HOST'' = count_list reads ''DOCKER_HOST''"
    using assms(2) d by (auto simp: defs)
qed

lemma run_upgrade:
  assumes "known_scheme s"
  shows "run_state (upgradeTCPToHTTPSIfTLSMaterial D (s @ ''://'' @ rest) c) reads =
    ((if s = ''tcp'' \<and> cert_path D c \<noteq> [] then ''https'' else s) @ ''://'' @ rest,
     reads @ (if s = ''tcp'' \<and> cc_TLSCertPath c = [] then [''DOCKER_CERT_PATH''] else []))"
  using assms known_scheme_facts(3) [OF assms, of rest]
  by (auto simp: upgradeTCPToHTTPSIfTLSMaterial_def run_hasTLSMaterial TrimPrefix_def HasPrefix_def)

text \<open>The gates let exactly the hosts through whose material, where it is demanded or configured, can be loaded.\<close>

lemma gates_open:
  "fst (run_state (tls_gates D s c) reads) = None \<longleftrightarrow>
     (s = ''tcp+tls'' \<longrightarrow> loaded D c \<noteq> None) \<and> (s = ''https'' \<and> cert_path D c \<noteq> [] \<longrightarrow> loaded D c \<noteq> None)"
  by (cases "tls_load D c") (auto simp: tls_gates_def run_hasTLSMaterial run_resolveTLSConfig loaded_def)

lemma gates_reads:
  "count_list (snd (run_state (tls_gates D s c) reads)) ''DOCKER_HOST'' = count_list reads ''DOCKER_HOST''"
  by (auto simp: tls_gates_def run_hasTLSMaterial run_resolveTLSConfig)

text \<open>What the material is does not depend on the host.\<close>

lemma loaded_host [simp]: "loaded D (c\<lparr>cc_Host := h\<rparr>) = loaded D c" "cert_path D (c\<lparr>cc_Host := h\<rparr>) = cert_path D c"
  by (simp_all add: loaded_def cert_path_def tls_load_def verifies_def)

text \<open>One construction, from the scheme of the host to the client.\<close>

definition dialled_scheme :: "'t docker_env \<Rightarrow> ClientConfig \<Rightarrow> string \<Rightarrow> string" where
  "dialled_scheme D c s = (if s = ''tcp'' \<and> cert_path D c \<noteq> [] then ''https'' else s)"

definition built_for :: "'t docker_env \<Rightarrow> ClientConfig \<Rightarrow> string \<Rightarrow> string \<Rightarrow> 't docker_client \<Rightarrow> bool" where
  "built_for D c s rest cl \<longleftrightarrow>
     (let f = dialled_scheme D c s in
      cl_Host cl = f @ ''://'' @ rest \<and> tr_NoHTTP2 (cl_Transport cl) = (f \<notin> {''https'', ''tcp+tls''}) \<and>
      tr_TLSClientConfig (cl_Transport cl) = (if f \<in> {''https'', ''tcp+tls''} then loaded D c else None))"

lemma client_rejected:
  assumes "check_scheme D (host_of D c) = Inl err"
  shows "run_state (NewClientWithConfig D (Some c)) reads =
    (Inl (Errorf [Lit ''creating docker client: '', Wrap err]), reads @ (if cc_Host c = [] then [''DOCKER_HOST''] else []))"
  using assms by (simp add: NewClientWithConfig_def run_resolveDockerHost)

lemma client_gated:
  assumes "check_scheme D (host_of D c) = Inr (s @ ''://'' @ rest, s)" "run_state (tls_gates D s c) (reads @ (if cc_Host c = [] then [''DOCKER_HOST''] else [])) = (Some err, reads')"
  shows "run_state (NewClientWithConfig D (Some c)) reads = (Inl err, reads')"
  using assms by (simp add: NewClientWithConfig_def run_resolveDockerHost split: if_splits)

lemma client_built:
  assumes "check_scheme D (host_of D c) = Inr (s @ ''://'' @ rest, s)" "known_scheme s"
    and "run_state (tls_gates D s c) (reads @ (if cc_Host c = [] then [''DOCKER_HOST''] else [])) = (None, reads1)"
  obtains cl reads2 where "run_state (NewClientWithConfig D (Some c)) reads =
      (case de_NewClientWithOpts D cl of Some err \<Rightarrow> Inl (Errorf [Lit ''creating docker client: '', Wrap err]) | None \<Rightarrow> Inr cl, reads2)"
    "built_for D c s rest cl" "count_list reads2 ''DOCKER_HOST'' = count_list reads1 ''DOCKER_HOST''"
proof -
  define g h where "g = s @ ''://'' @ rest" and "h = dialled_scheme D c s @ ''://'' @ rest"
  have f: "known_scheme (dialled_scheme D c s)" using assms(2) by (auto simp: dialled_scheme_def)
  define up where "up = reads1 @ (if s = ''tcp'' \<and> cc_TLSCertPath c = [] then [''DOCKER_CERT_PATH''] else [])"
  have u: "run_state (upgradeTCPToHTTPSIfTLSMaterial D g c) reads1 = (h, up)"
    unfolding up_def g_def h_def dialled_scheme_def by (rule run_upgrade [OF assms(2)])
  have up: "count_list up ''DOCKER_HOST'' = count_list reads1 ''DOCKER_HOST''" by (simp add: up_def)
  obtain t reads2 where t: "run_state (createHTTPClient D (c\<lparr>cc_Host := h\<rparr>)) up = (t, reads2)" by fastforce
  have "cc_Host (c\<lparr>cc_Host := h\<rparr>) = dialled_scheme D c s @ ''://'' @ rest" by (simp add: h_def)
  note tf = transport_facts [OF this f, of D up, unfolded t fst_conv snd_conv loaded_host]
  define cl where "cl = \<lparr>cl_Host = h, cl_Version = (if cc_Version c \<noteq> [] then Some (cc_Version c) else None),
     cl_Headers = cc_HTTPHeaders c, cl_Transport = t,
     cl_NegotiateTimeout = (if cc_NegotiateTimeout c \<le> 0 then defaultNegotiateTimeout else cc_NegotiateTimeout c)\<rparr>"
  show ?thesis
  proof (rule that)
    show "run_state (NewClientWithConfig D (Some c)) reads =
      (case de_NewClientWithOpts D cl of Some err \<Rightarrow> Inl (Errorf [Lit ''creating docker client: '', Wrap err]) | None \<Rightarrow> Inr cl, reads2)"
      using assms(1,3) u t unfolding g_def [symmetric] cl_def
      by (simp add: NewClientWithConfig_def run_resolveDockerHost Let_def split del: if_split)
    show "built_for D c s rest cl" using tf by (simp add: built_for_def Let_def cl_def h_def)
    show "count_list reads2 ''DOCKER_HOST'' = count_list reads1 ''DOCKER_HOST''" using tf(3) up by simp
  qed
qed

text \<open>So a construction ends in one of three ways.\<close>

lemma client_cases:
  obtains (scheme) err where "check_scheme D (host_of D c) = Inl err" "fst (run_state (NewClientWithConfig D (Some c)) reads) = Inl (Errorf [Lit ''creating docker client: '', Wrap err])"
  | (gate) err s rest where "check_scheme D (host_of D c) = Inr (s @ ''://'' @ rest, s)" "fst (run_state (NewClientWithConfig D (Some c)) reads) = Inl err"
      "\<not> ((s = ''tcp+tls'' \<longrightarrow> loaded D c \<noteq> None) \<and> (s = ''https'' \<and> cert_path D c \<noteq> [] \<longrightarrow> loaded D c \<noteq> None))"
  | (built) s rest cl where "check_scheme D (host_of D c) = Inr (s @ ''://'' @ rest, s)" "known_scheme s" "built_for D c s rest cl"
      "fst (run_state (NewClientWithConfig D (Some c)) reads) =
        (case de_NewClientWithOpts D cl of Some err \<Rightarrow> Inl (Errorf [Lit ''creating docker client: '', Wrap err]) | None \<Rightarrow> Inr cl)"
      "(s = ''tcp+tls'' \<longrightarrow> loaded D c \<noteq> None) \<and> (s = ''https'' \<and> cert_path D c \<noteq> [] \<longrightarrow> loaded D c \<noteq> None)"
proof (cases "check_scheme D (host_of D c)")
  case (Inl err)
  then show ?thesis using client_rejected [OF Inl] scheme by simp
next
  case (Inr hs)
  obtain h s where hs: "hs = (h, s)" by fastforce
  then obtain rest where c: "check_scheme D (host_of D c) = Inr (s @ ''://'' @ rest, s)" "known_scheme s"
    using Inr check_scheme_accepts by metis
  obtain g reads1 where g: "run_state (tls_gates D s c) (reads @ (if cc_Host c = [] then [''DOCKER_HOST''] else [])) = (g, reads1)" by fastforce
  note o = gates_open [of D s c "reads @ (if cc_Host c = [] then [''DOCKER_HOST''] else [])", unfolded g, simplified]
  show ?thesis
  proof (cases g)
    case (Some err)
    show ?thesis
    proof (rule gate [OF c(1)])
      show "fst (run_state (NewClientWithConfig D (Some c)) reads) = Inl err"
        using client_gated [OF c(1)] g unfolding Some by simp
      show "\<not> ((s = ''tcp+tls'' \<longrightarrow> loaded D c \<noteq> None) \<and> (s = ''https'' \<and> cert_path D c \<noteq> [] \<longrightarrow> loaded D c \<noteq> None))"
        using o unfolding Some by simp
    qed
  next
    case None
    obtain cl reads2 where "run_state (NewClientWithConfig D (Some c)) reads =
      (case de_NewClientWithOpts D cl of Some err \<Rightarrow> Inl (Errorf [Lit ''creating docker client: '', Wrap err]) | None \<Rightarrow> Inr cl, reads2)"
      "built_for D c s rest cl" by (rule client_built [OF c g [unfolded None]])
    with o show ?thesis using built [OF c] unfolding None by simp
  qed
qed

section \<open>Properties\<close>

text \<open>C32 (no_silent_downgrade): whatever the environment holds, a client made for a host that asks for TLS, \<^verbatim>\<open>tcp+tls://\<close> in any
  spelling, or \<^verbatim>\<open>https://\<close> with certificates configured, carries the certificates that were loaded: were they missing or
  unreadable, there is no client. HTTP/2 is suppressed on its transport exactly when the scheme dialled is not one of these two.\<close>

theorem no_silent_downgrade:
  assumes "fst (run_state (NewClientWithConfig D (Some c)) reads) = Inr cl" "check_scheme D (host_of D c) = Inr (h, s)"
  shows "(s = ''tcp+tls'' \<or> s = ''https'' \<and> cert_path D c \<noteq> [] \<longrightarrow>
      (\<exists>t. tls_load D c = Inr t \<and> tr_TLSClientConfig (cl_Transport cl) = Some t)) \<and>
    (tr_NoHTTP2 (cl_Transport cl) \<longleftrightarrow> \<not> HasPrefix (cl_Host cl) ''https://'' \<and> \<not> HasPrefix (cl_Host cl) ''tcp+tls://'') \<and>
    (tr_NoHTTP2 (cl_Transport cl) \<longrightarrow> tr_TLSClientConfig (cl_Transport cl) = None)"
proof (rule client_cases [of D c reads])
  fix s' rest cl'
  assume a: "check_scheme D (host_of D c) = Inr (s' @ ''://'' @ rest, s')" "known_scheme s'" "built_for D c s' rest cl'"
    "fst (run_state (NewClientWithConfig D (Some c)) reads) =
      (case de_NewClientWithOpts D cl' of Some err \<Rightarrow> Inl (Errorf [Lit ''creating docker client: '', Wrap err]) | None \<Rightarrow> Inr cl')"
    "(s' = ''tcp+tls'' \<longrightarrow> loaded D c \<noteq> None) \<and> (s' = ''https'' \<and> cert_path D c \<noteq> [] \<longrightarrow> loaded D c \<noteq> None)"
  have s: "s' = s" "cl' = cl" using a(1,4) assms by (auto split: option.splits)
  have f: "known_scheme (dialled_scheme D c s)" using a(2) unfolding s by (auto simp: dialled_scheme_def)
  have l: "loaded D c \<noteq> None \<Longrightarrow> \<exists>t. tls_load D c = Inr t \<and> loaded D c = Some t" by (auto simp: loaded_def split: if_splits sum.splits)
  show ?thesis
  proof (intro conjI)
    show "s = ''tcp+tls'' \<or> s = ''https'' \<and> cert_path D c \<noteq> [] \<longrightarrow>
      (\<exists>t. tls_load D c = Inr t \<and> tr_TLSClientConfig (cl_Transport cl) = Some t)"
      using a(3,5) l unfolding s by (auto simp: built_for_def dialled_scheme_def Let_def)
    show "tr_NoHTTP2 (cl_Transport cl) \<longleftrightarrow> \<not> HasPrefix (cl_Host cl) ''https://'' \<and> \<not> HasPrefix (cl_Host cl) ''tcp+tls://''"
      using a(3) tls_scheme_prefix [OF f, of rest] unfolding s built_for_def Let_def by (elim conjE) (simp only: de_Morgan_disj [symmetric])
    show "tr_NoHTTP2 (cl_Transport cl) \<longrightarrow> tr_TLSClientConfig (cl_Transport cl) = None"
      using a(3) unfolding s by (simp add: built_for_def Let_def)
  qed
qed (use assms in auto)

text \<open>An environment in which the certificates are those of one directory, \<^verbatim>\<open>/certs\<close>, and the loader fails for every other.\<close>

definition sample_env :: "string \<Rightarrow> string \<Rightarrow> tls_options docker_env" where
  "sample_env host certs =
     \<lparr>de_getenv = (\<lambda>k. if k = ''DOCKER_HOST'' then host else if k = ''DOCKER_CERT_PATH'' then certs else []),
      de_DefaultDockerHost = ''unix:///var/run/docker.sock'',
      de_tls = (\<lambda>t. if HasPrefix (to_CAFile t) ''/certs/'' then Inr t else Inl (Opaque 90 ''no such file'')),
      de_urlHost = (\<lambda>_. None), de_NewClientWithOpts = (\<lambda>_. None)\<rparr>"

theorem no_silent_downgrade_witness:
  "\<exists>cl. fst (run_state (NewClientWithConfig (sample_env ''TCP+TLS://h:1'' ''/certs'') (Some DefaultConfig)) []) = Inr cl \<and>
     tr_TLSClientConfig (cl_Transport cl) \<noteq> None"
proof -
  let ?D = "sample_env ''TCP+TLS://h:1'' ''/certs''"
  have "isl (fst (run_state (NewClientWithConfig ?D (Some DefaultConfig)) [])) = False" by code_simp
  then obtain cl where cl: "fst (run_state (NewClientWithConfig ?D (Some DefaultConfig)) []) = Inr cl"
    by (cases "fst (run_state (NewClientWithConfig ?D (Some DefaultConfig)) [])") simp_all
  moreover have "check_scheme ?D (host_of ?D DefaultConfig) = Inr (''tcp+tls://h:1'', ''tcp+tls'')" by code_simp
  ultimately show ?thesis using no_silent_downgrade [OF cl] by blast
qed

text \<open>(tcp_upgrade_unchecked): the host \<^verbatim>\<open>tcp://\<close> with certificates configured becomes \<^verbatim>\<open>https://\<close> only after these checks, so
  that certificates that cannot be loaded stop neither the daemon nor the upgrade: the client that is made dials \<^verbatim>\<open>https://\<close>
  without any of them, where the same configuration with \<^verbatim>\<open>https://\<close> written out is an error.\<close>

theorem tcp_upgrade_unchecked:
  assumes "cert_path D c \<noteq> []" "tls_load D c = Inl err" "\<And>cl. de_NewClientWithOpts D cl = None"
  shows "(\<exists>cl. fst (run_state (NewClientWithConfig D (Some (c\<lparr>cc_Host := ''tcp://'' @ addr\<rparr>))) reads) = Inr cl \<and>
       cl_Host cl = ''https://'' @ addr \<and> tr_TLSClientConfig (cl_Transport cl) = None) \<and>
    isl (fst (run_state (NewClientWithConfig D (Some (c\<lparr>cc_Host := ''https://'' @ addr\<rparr>))) reads))"
proof
  have l: "loaded D c = None" using assms(1,2) by (simp add: loaded_def)
  have k: "known_scheme ''tcp''" "known_scheme ''https''" by simp_all
  show "\<exists>cl. fst (run_state (NewClientWithConfig D (Some (c\<lparr>cc_Host := ''tcp://'' @ addr\<rparr>))) reads) = Inr cl \<and>
       cl_Host cl = ''https://'' @ addr \<and> tr_TLSClientConfig (cl_Transport cl) = None"
    by (rule client_cases [of D "c\<lparr>cc_Host := ''tcp://'' @ addr\<rparr>" reads])
      (use check_scheme_given [OF k(1), where D = D and c = c and rest = addr] assms l in \<open>auto simp: built_for_def dialled_scheme_def Let_def\<close>)
  show "isl (fst (run_state (NewClientWithConfig D (Some (c\<lparr>cc_Host := ''https://'' @ addr\<rparr>))) reads))"
    by (rule client_cases [of D "c\<lparr>cc_Host := ''https://'' @ addr\<rparr>" reads])
      (use check_scheme_given [OF k(2), where D = D and c = c and rest = addr] assms l in \<open>auto simp: isl_def\<close>)
qed

theorem tcp_upgrade_unchecked_witness:
  "(\<exists>cl. fst (run_state (NewClientWithConfig (sample_env [] ''/typo'') (Some (DefaultConfig\<lparr>cc_Host := ''tcp://h:1''\<rparr>))) []) = Inr cl \<and>
       cl_Host cl = ''https://h:1'' \<and> tr_TLSClientConfig (cl_Transport cl) = None) \<and>
    isl (fst (run_state (NewClientWithConfig (sample_env [] ''/typo'') (Some (DefaultConfig\<lparr>cc_Host := ''https://h:1''\<rparr>))) []))"
proof -
  have "cert_path (sample_env [] ''/typo'') DefaultConfig = ''/typo''" by (simp add: cert_path_def sample_env_def DefaultConfig_def)
  moreover have "tls_load (sample_env [] ''/typo'') DefaultConfig = Inl (Opaque 90 ''no such file'')" by code_simp
  ultimately show ?thesis
    using tcp_upgrade_unchecked [of "sample_env [] ''/typo''" DefaultConfig "Opaque 90 ''no such file''" "''h:1''" "[]"]
    by (simp add: sample_env_def)
qed

text \<open>(docker_host_read_once): one construction reads \<^verbatim>\<open>DOCKER_HOST\<close> once, when the configuration names no host, and not at
  all when it names one, on every path to a client or an error.\<close>

theorem docker_host_read_once:
  "count_list (snd (run_state (NewClientWithConfig D (Some c)) [])) ''DOCKER_HOST'' = (if cc_Host c = [] then 1 else 0)"
proof (cases "check_scheme D (host_of D c)")
  case (Inl err)
  then show ?thesis by (simp add: client_rejected)
next
  case (Inr hs)
  obtain h s where hs: "hs = (h, s)" by fastforce
  then obtain rest where c: "check_scheme D (host_of D c) = Inr (s @ ''://'' @ rest, s)" "known_scheme s"
    using Inr check_scheme_accepts [of D "host_of D c" h s] by auto
  obtain g reads where g: "run_state (tls_gates D s c) ([] @ (if cc_Host c = [] then [''DOCKER_HOST''] else [])) = (g, reads)" by fastforce
  have r: "count_list reads ''DOCKER_HOST'' = (if cc_Host c = [] then 1 else 0)"
    using gates_reads [of D s c "[] @ (if cc_Host c = [] then [''DOCKER_HOST''] else [])"] unfolding g by simp
  show ?thesis
  proof (cases g)
    case (Some err)
    show ?thesis using client_gated [OF c(1) g [unfolded Some]] r by simp
  next
    case None
    obtain r' reads' where "run_state (NewClientWithConfig D (Some c)) [] = (r', reads')"
        "count_list reads' ''DOCKER_HOST'' = count_list reads ''DOCKER_HOST''"
      by (rule client_built [OF c g [unfolded None]]) blast
    with r show ?thesis by simp
  qed
qed

end
