(* ===== verification/DockerProvider.thy ===== *)
theory DockerProvider
  imports ContainerWait ContainerJob DockerClient
begin

text \<open>
  The Docker provider of the jobs (\<^verbatim>\<open>src/core/docker_sdk_provider.go\<close>) on the adapters of
  \<^verbatim>\<open>src/core/adapters/docker/\<close> (containers, exec, images, networks, credentials). The SDK is an argument: a record of
  the calls the adapters make, over a state of the daemon. The provider is an instance of the record that run and exec
  jobs use.
\<close>

section \<open>References of images\<close>

record ParsedReference =
  pr_Repository :: string
  pr_Tag :: string
  pr_Digest :: string

text \<open>\<open>SplitLast\<close>: what is before and after the last occurrence of a byte, where \<^verbatim>\<open>lastIndex\<close> finds one.\<close>

fun SplitLast :: "string \<Rightarrow> char \<Rightarrow> (string \<times> string) option" where
  "SplitLast [] c = None"
| "SplitLast (x # xs) c =
     (case SplitLast xs c of
        Some (a, b) \<Rightarrow> Some (x # a, b)
      | None \<Rightarrow> if x = c then Some ([], xs) else None)"

definition ParseRepositoryTag :: "string \<Rightarrow> ParsedReference" where
  "ParseRepositoryTag repoTag =
     (case SplitLast repoTag (CHR ''@'') of
        Some (repo, digest) \<Rightarrow> \<lparr>pr_Repository = repo, pr_Tag = ''latest'', pr_Digest = digest\<rparr>
      | None \<Rightarrow>
          (case SplitLast repoTag (CHR '':'') of
             Some (repo, tag) \<Rightarrow>
               if CHR ''/'' \<notin> set tag then \<lparr>pr_Repository = repo, pr_Tag = tag, pr_Digest = []\<rparr>
               else \<lparr>pr_Repository = repoTag, pr_Tag = ''latest'', pr_Digest = []\<rparr>
           | None \<Rightarrow> \<lparr>pr_Repository = repoTag, pr_Tag = ''latest'', pr_Digest = []\<rparr>))"

section \<open>The SDK\<close>

text \<open>What a pull streams back, and the output of a command; the second component is the error that ends the stream.\<close>

datatype pull_message = PullStatus string | PullError string

datatype exec_chunk = OnStdout string | OnStderr string

record RemoveOptions =
  ro_RemoveVolumes :: bool
  ro_RemoveLinks :: bool
  ro_Force :: bool

record exec_inspect =
  ei_ID :: string
  ei_Running :: bool
  ei_ExitCode :: int

text \<open>\<open>sdk_wait\<close> is one wait as \<open>ContainerWait\<close> has it: the state in which the two goroutines and the daemon leave it,
  with what the daemon answered, what the loop returned and which errors it counted.\<close>

record 'd sdk =
  sdk_errdefs :: errdefs
  sdk_CtxErr :: "dctx \<Rightarrow> 'd \<Rightarrow> result"
  sdk_ContainerCreate :: "dctx \<Rightarrow> container_config \<Rightarrow> string \<Rightarrow> 'd \<Rightarrow> (go_error + string) \<times> 'd"
  sdk_ContainerStart :: "dctx \<Rightarrow> string \<Rightarrow> 'd \<Rightarrow> (go_error + unit) \<times> 'd"
  sdk_ContainerStop :: "dctx \<Rightarrow> string \<Rightarrow> int option \<Rightarrow> 'd \<Rightarrow> (go_error + unit) \<times> 'd"
  sdk_ContainerRemove :: "dctx \<Rightarrow> string \<Rightarrow> RemoveOptions \<Rightarrow> 'd \<Rightarrow> (go_error + unit) \<times> 'd"
  sdk_ContainerInspect :: "dctx \<Rightarrow> string \<Rightarrow> 'd \<Rightarrow> (go_error + string \<times> string list option) \<times> 'd"
  sdk_ContainerLogs :: "dctx \<Rightarrow> string \<Rightarrow> 'd \<Rightarrow> (go_error + string list option) \<times> 'd"
  sdk_wait :: "dctx \<Rightarrow> string \<Rightarrow> 'd \<Rightarrow> wait_state \<times> 'd"
  sdk_ExecCreate :: "dctx \<Rightarrow> string \<Rightarrow> exec_config \<Rightarrow> 'd \<Rightarrow> (go_error + string) \<times> 'd"
  sdk_ExecAttach :: "dctx \<Rightarrow> string \<Rightarrow> bool \<Rightarrow> 'd \<Rightarrow> (go_error + exec_chunk list \<times> result) \<times> 'd"
  sdk_ExecInspect :: "dctx \<Rightarrow> string \<Rightarrow> 'd \<Rightarrow> (go_error + exec_inspect) \<times> 'd"
  sdk_ImagePull :: "dctx \<Rightarrow> string \<Rightarrow> string \<Rightarrow> 'd \<Rightarrow> (go_error + pull_message list \<times> result) \<times> 'd"
  sdk_ImageInspect :: "dctx \<Rightarrow> string \<Rightarrow> 'd \<Rightarrow> (go_error + unit) \<times> 'd"
  sdk_NetworkConnect :: "dctx \<Rightarrow> string \<Rightarrow> string \<Rightarrow> 'd \<Rightarrow> (go_error + unit) \<times> 'd"
  sdk_NetworkList :: "dctx \<Rightarrow> (string \<times> string list) list \<Rightarrow> 'd \<Rightarrow> (go_error + string list) \<times> 'd"
  sdk_Ping :: "dctx \<Rightarrow> 'd \<Rightarrow> (go_error + unit) \<times> 'd"

section \<open>Adapters\<close>

definition ErrNilSDKClient :: go_error where
  "ErrNilSDKClient = Opaque 41 ''docker adapter: nil SDK client''"

text \<open>The shape the methods of the adapters share: \<^verbatim>\<open>checkClient\<close>, the call, and \<^verbatim>\<open>convertError\<close>.\<close>

definition adapt :: "'d sdk option \<Rightarrow> ('d sdk \<Rightarrow> 'd \<Rightarrow> (go_error + 'a) \<times> 'd) \<Rightarrow> 'd \<Rightarrow> (go_error + 'a) \<times> 'd" where
  "adapt K f d =
     (case K of
        None \<Rightarrow> (Inl ErrNilSDKClient, d)
      | Some k \<Rightarrow>
          (case f k d of
             (Inl err, d') \<Rightarrow> (Inl (convertError (sdk_errdefs k) err), d')
           | (Inr x, d') \<Rightarrow> (Inr x, d')))"

definition ErrNilContainerConfig :: go_error where
  "ErrNilContainerConfig = Opaque 70 ''container: nil ContainerConfig''"

definition Containers_Create :: "'d sdk option \<Rightarrow> dctx \<Rightarrow> container_config option \<Rightarrow> 'd \<Rightarrow> (go_error + string) \<times> 'd" where
  "Containers_Create K c config d =
     (case config of
        None \<Rightarrow> (Inl (if K = None then ErrNilSDKClient else ErrNilContainerConfig), d)
      | Some cfg \<Rightarrow> adapt K (\<lambda>k. sdk_ContainerCreate k c cfg (cc_Name cfg)) d)"

text \<open>\<^verbatim>\<open>int(timeout.Seconds())\<close> cuts a duration off towards zero.\<close>

definition whole_seconds :: "duration \<Rightarrow> int" where
  "whole_seconds t = (if t < 0 then - ((- t) div second) else t div second)"

definition Containers_Stop :: "'d sdk option \<Rightarrow> dctx \<Rightarrow> string \<Rightarrow> duration option \<Rightarrow> 'd \<Rightarrow> (go_error + unit) \<times> 'd" where
  "Containers_Stop K c cid timeout d = adapt K (\<lambda>k. sdk_ContainerStop k c cid (map_option whole_seconds timeout)) d"

definition Images_Pull ::
  "'d sdk option \<Rightarrow> dctx \<Rightarrow> string \<Rightarrow> string \<Rightarrow> string \<Rightarrow> 'd \<Rightarrow> (go_error + pull_message list \<times> result) \<times> 'd" where
  "Images_Pull K c repository tag auth d =
     (let ref = (if tag \<noteq> [] then repository @ '':'' @ tag else repository) in adapt K (\<lambda>k. sdk_ImagePull k c ref auth) d)"

definition PullAndWait :: "'d sdk option \<Rightarrow> dctx \<Rightarrow> string \<Rightarrow> string \<Rightarrow> string \<Rightarrow> 'd \<Rightarrow> (go_error + unit) \<times> 'd" where
  "PullAndWait K c repository tag auth d =
     (case Images_Pull K c repository tag auth d of
        (Inl err, d') \<Rightarrow> (Inl err, d')
      | (Inr (messages, None), d') \<Rightarrow> (Inr (), d')
      | (Inr (messages, Some err), d') \<Rightarrow> (Inl (Errorf [Lit ''reading image pull response: '', Wrap err]), d'))"

text \<open>\<^verbatim>\<open>domain.IsNotFound\<close> of a converted error: the error was classified as not found.\<close>

definition Images_Exists :: "'d sdk option \<Rightarrow> dctx \<Rightarrow> string \<Rightarrow> 'd \<Rightarrow> (go_error + bool) \<times> 'd" where
  "Images_Exists K c ref d =
     (case K of
        None \<Rightarrow> (Inl ErrNilSDKClient, d)
      | Some k \<Rightarrow>
          (case sdk_ImageInspect k c ref d of
             (Inl err, d') \<Rightarrow>
               (if ed_NotFound (sdk_errdefs k) err then Inr False else Inl (convertError (sdk_errdefs k) err), d')
           | (Inr _, d') \<Rightarrow> (Inr True, d')))"

definition io_EOF :: go_error where "io_EOF = Opaque 1 ''EOF''"
definition ErrNilExecConfig :: go_error where "ErrNilExecConfig = Opaque 71 ''exec: nil ExecConfig''"
definition ErrNoExecOutputWriter :: go_error where
  "ErrNoExecOutputWriter = Opaque 72 ''exec: non-TTY mode requires at least one of stdout or stderr''"

definition Exec_Create :: "'d sdk option \<Rightarrow> dctx \<Rightarrow> string \<Rightarrow> exec_config option \<Rightarrow> 'd \<Rightarrow> (go_error + string) \<times> 'd" where
  "Exec_Create K c cid config d =
     (case config of
        None \<Rightarrow> (Inl (if K = None then ErrNilSDKClient else ErrNilExecConfig), d)
      | Some cfg \<Rightarrow> adapt K (\<lambda>k. sdk_ExecCreate k c cid cfg) d)"

text \<open>What reaches the two writers: with a terminal both streams are one. Without one, \<^verbatim>\<open>stdcopy.StdCopy\<close> panics on output for
  a writer that is nil.\<close>

definition copied :: "bool \<Rightarrow> bool \<Rightarrow> bool \<Rightarrow> exec_chunk list \<Rightarrow> (string list \<times> string list) option" where
  "copied tty stdout stderr chunks =
     (let text = (\<lambda>c. case c of OnStdout s \<Rightarrow> s | OnStderr s \<Rightarrow> s);
          out = concat (map (\<lambda>c. case c of OnStdout s \<Rightarrow> [s] | OnStderr s \<Rightarrow> []) chunks);
          err = concat (map (\<lambda>c. case c of OnStdout s \<Rightarrow> [] | OnStderr s \<Rightarrow> [s]) chunks)
      in if tty then Some (if stdout then map text chunks else [], [])
         else if \<not> stdout \<and> out \<noteq> [] \<or> \<not> stderr \<and> err \<noteq> [] then None
         else Some (out, err))"

text \<open>\<open>stdout\<close> and \<open>stderr\<close> say whether the writers are there. The result comes with what was written to them and is \<open>None\<close>
  after a panic.\<close>

definition Exec_Run ::
  "'d sdk option \<Rightarrow> dctx \<Rightarrow> string \<Rightarrow> exec_config option \<Rightarrow> bool \<Rightarrow> bool \<Rightarrow> 'd \<Rightarrow>
   ((go_error + int) \<times> (string list \<times> string list)) option \<times> 'd" where
  "Exec_Run K c cid config stdout stderr d =
     (case (K, config) of
        (None, _) \<Rightarrow> (Some (Inl ErrNilSDKClient, [], []), d)
      | (_, None) \<Rightarrow> (Some (Inl ErrNilExecConfig, [], []), d)
      | (Some k, Some cfg) \<Rightarrow>
          if \<not> ec_Tty cfg \<and> \<not> stdout \<and> \<not> stderr then (Some (Inl ErrNoExecOutputWriter, [], []), d)
          else (case Exec_Create K c cid config d of
                  (Inl err, d1) \<Rightarrow> (Some (Inl err, [], []), d1)
                | (Inr execID, d1) \<Rightarrow>
                    (case adapt K (\<lambda>k. sdk_ExecAttach k c execID (ec_Tty cfg)) d1 of
                       (Inl err, d2) \<Rightarrow> (Some (Inl err, [], []), d2)
                     | (Inr (chunks, end_err), d2) \<Rightarrow>
                         (case copied (ec_Tty cfg) stdout stderr chunks of
                            None \<Rightarrow> (None, d2)
                          | Some out \<Rightarrow>
                              let copy_err = (if ec_Tty cfg \<and> \<not> stdout then None else end_err)
                              in if copy_err \<notin> {None, Some io_EOF}
                                 then (Some (Inl (Errorf [Lit ''copying exec output: '', Wrap (the copy_err)]), out), d2)
                                 else (case adapt K (\<lambda>k. sdk_ExecInspect k c execID) d2 of
                                         (Inl err, d3) \<Rightarrow> (Some (Inl err, out), d3)
                                       | (Inr i, d3) \<Rightarrow> (Some (Inr (ei_ExitCode i), out), d3))))))"

section \<open>Credentials\<close>

record AuthConfig =
  ac_Username :: string
  ac_Password :: string
  ac_Auth :: string
  ac_Email :: string
  ac_ServerAddress :: string
  ac_IdentityToken :: string
  ac_RegistryToken :: string

definition no_auth :: AuthConfig where
  "no_auth = \<lparr>ac_Username = [], ac_Password = [], ac_Auth = [], ac_Email = [], ac_ServerAddress = [], ac_IdentityToken = [],
     ac_RegistryToken = []\<rparr>"

text \<open>Arguments: loading the configuration of the docker CLI with its credential helpers, \<^verbatim>\<open>json.Marshal\<close> with the base64
  encoding, and the domain of \<^verbatim>\<open>reference.ParseNormalizedNamed\<close>.\<close>

record docker_cli =
  dc_Load :: "go_error + (string \<Rightarrow> go_error + AuthConfig)"
  dc_Encode :: "AuthConfig \<Rightarrow> go_error + string"
  dc_Domain :: "string \<Rightarrow> string option"

definition normalizeRegistry :: "string \<Rightarrow> string" where
  "normalizeRegistry registry =
     (if registry = [] \<or> registry = ''docker.io'' \<or> registry = ''index.docker.io'' then ''https://index.docker.io/v1/'' else registry)"

definition convertAuthConfig :: "AuthConfig \<Rightarrow> AuthConfig" where
  "convertAuthConfig src =
     \<lparr>ac_Username = ac_Username src, ac_Password = ac_Password src, ac_Auth = ac_Auth src, ac_Email = [],
      ac_ServerAddress = ac_ServerAddress src, ac_IdentityToken = ac_IdentityToken src, ac_RegistryToken = ac_RegistryToken src\<rparr>"

definition GetAuthConfig :: "docker_cli \<Rightarrow> string \<Rightarrow> go_error + AuthConfig" where
  "GetAuthConfig C registry =
     (case dc_Load C of
        Inl _ \<Rightarrow> Inr no_auth
      | Inr get \<Rightarrow> (case get (normalizeRegistry registry) of Inl _ \<Rightarrow> Inr no_auth | Inr a \<Rightarrow> Inr (convertAuthConfig a)))"

definition GetEncodedAuth :: "docker_cli \<Rightarrow> string \<Rightarrow> go_error + string" where
  "GetEncodedAuth C registry =
     (case GetAuthConfig C registry of
        Inl err \<Rightarrow> Inl err
      | Inr auth \<Rightarrow>
          if ac_Username auth = [] \<and> ac_Password auth = [] \<and> ac_IdentityToken auth = [] \<and> ac_Auth auth = [] then Inr []
          else dc_Encode C auth)"

definition ExtractRegistry :: "docker_cli \<Rightarrow> string \<Rightarrow> string" where
  "ExtractRegistry C img = (case dc_Domain C img of None \<Rightarrow> ''docker.io'' | Some r \<Rightarrow> r)"

section \<open>The provider\<close>

text \<open>\<open>sp_metrics\<close> and \<open>sp_logger\<close>: a recorder and a logger are set. The state adds to that of the daemon what was recorded and
  logged.\<close>

record 'd SDKDockerProvider =
  sp_sdk :: "'d sdk"
  sp_cli :: docker_cli
  sp_metrics :: bool
  sp_logger :: bool
  sp_auth :: bool

record 'd provider_state =
  ps_daemon :: 'd
  ps_operations :: "string list"
  ps_errors :: "string list"
  ps_log :: "string list"

definition recordOperation :: "'d SDKDockerProvider \<Rightarrow> string \<Rightarrow> 'd provider_state \<Rightarrow> 'd provider_state" where
  "recordOperation p name s = (if sp_metrics p then s\<lparr>ps_operations := ps_operations s @ [name]\<rparr> else s)"

definition recordError :: "'d SDKDockerProvider \<Rightarrow> string \<Rightarrow> 'd provider_state \<Rightarrow> 'd provider_state" where
  "recordError p name s = (if sp_metrics p then s\<lparr>ps_errors := ps_errors s @ [name]\<rparr> else s)"

definition logMessage :: "'d SDKDockerProvider \<Rightarrow> string \<Rightarrow> 'd provider_state \<Rightarrow> 'd provider_state" where
  "logMessage p msg s = (if sp_logger p then s\<lparr>ps_log := ps_log s @ [msg]\<rparr> else s)"

text \<open>The shape of the operations: count, call, and on an error count it and wrap it.\<close>

definition operation ::
  "'d SDKDockerProvider \<Rightarrow> string \<Rightarrow> (go_error \<Rightarrow> go_error) \<Rightarrow> ('a \<Rightarrow> string option) \<Rightarrow> ('d \<Rightarrow> (go_error + 'a) \<times> 'd) \<Rightarrow>
   'd provider_state \<Rightarrow> (go_error + 'a) \<times> 'd provider_state" where
  "operation p name wrap message call s =
     (let s1 = recordOperation p name s;
          (r, d) = call (ps_daemon s1);
          s2 = s1\<lparr>ps_daemon := d\<rparr>
      in case r of
           Inl err \<Rightarrow> (Inl (wrap err), recordError p name s2)
         | Inr x \<Rightarrow> (Inr x, case message x of None \<Rightarrow> s2 | Some m \<Rightarrow> logMessage p m s2))"

definition container_error :: "string \<Rightarrow> string \<Rightarrow> go_error \<Rightarrow> go_error" where
  "container_error op cid err = the (WrapContainerError op cid (Some err))"

definition image_error :: "string \<Rightarrow> string \<Rightarrow> go_error \<Rightarrow> go_error" where
  "image_error op img err = the (WrapImageError op img (Some err))"

definition wrap_with :: "string \<Rightarrow> go_error \<Rightarrow> go_error" where
  "wrap_with what err = Errorf [Lit what, Wrap err]"

subsection \<open>Containers\<close>

definition sp_CreateContainer ::
  "'d SDKDockerProvider \<Rightarrow> dctx \<Rightarrow> container_config \<Rightarrow> string \<Rightarrow> 'd provider_state \<Rightarrow> (go_error + string) \<times> 'd provider_state" where
  "sp_CreateContainer p c config name =
     operation p ''create_container'' (container_error ''create'' name)
       (\<lambda>cid. Some (''Created container '' @ cid @ '' ('' @ name @ '')''))
       (Containers_Create (Some (sp_sdk p)) c (Some (if name \<noteq> [] then config\<lparr>cc_Name := name\<rparr> else config)))"

definition sp_StartContainer ::
  "'d SDKDockerProvider \<Rightarrow> dctx \<Rightarrow> string \<Rightarrow> 'd provider_state \<Rightarrow> (go_error + unit) \<times> 'd provider_state" where
  "sp_StartContainer p c cid =
     operation p ''start_container'' (container_error ''start'' cid) (\<lambda>_. Some (''Started container '' @ cid))
       (adapt (Some (sp_sdk p)) (\<lambda>k. sdk_ContainerStart k c cid))"

definition sp_StopContainer ::
  "'d SDKDockerProvider \<Rightarrow> dctx \<Rightarrow> string \<Rightarrow> duration option \<Rightarrow> 'd provider_state \<Rightarrow> (go_error + unit) \<times> 'd provider_state" where
  "sp_StopContainer p c cid timeout =
     operation p ''stop_container'' (container_error ''stop'' cid) (\<lambda>_. Some (''Stopped container '' @ cid))
       (Containers_Stop (Some (sp_sdk p)) c cid timeout)"

definition sp_RemoveContainer ::
  "'d SDKDockerProvider \<Rightarrow> dctx \<Rightarrow> string \<Rightarrow> bool \<Rightarrow> 'd provider_state \<Rightarrow> (go_error + unit) \<times> 'd provider_state" where
  "sp_RemoveContainer p c cid force =
     operation p ''remove_container'' (container_error ''remove'' cid) (\<lambda>_. Some (''Removed container '' @ cid))
       (adapt (Some (sp_sdk p))
         (\<lambda>k. sdk_ContainerRemove k c cid \<lparr>ro_RemoveVolumes = False, ro_RemoveLinks = False, ro_Force = force\<rparr>))"

definition sp_InspectContainer ::
  "'d SDKDockerProvider \<Rightarrow> dctx \<Rightarrow> string \<Rightarrow> 'd provider_state \<Rightarrow> (go_error + string \<times> string list option) \<times> 'd provider_state" where
  "sp_InspectContainer p c cid =
     operation p ''inspect_container'' (container_error ''inspect'' cid) (\<lambda>_. None)
       (adapt (Some (sp_sdk p)) (\<lambda>k. sdk_ContainerInspect k c cid))"

definition sp_GetContainerLogs ::
  "'d SDKDockerProvider \<Rightarrow> dctx \<Rightarrow> string \<Rightarrow> 'd provider_state \<Rightarrow> (go_error + string list option) \<times> 'd provider_state" where
  "sp_GetContainerLogs p c cid =
     operation p ''get_logs'' (container_error ''get_logs'' cid) (\<lambda>_. None)
       (adapt (Some (sp_sdk p)) (\<lambda>k. sdk_ContainerLogs k c cid))"

text \<open>What the caller gets of a wait; it only goes on once the loop has returned.\<close>

definition wait_value :: "wait_state \<Rightarrow> go_error + int" where
  "wait_value t =
     (case ws_returned t of
        Some (code, None) \<Rightarrow> Inr code
      | Some (code, Some e) \<Rightarrow> Inl e
      | None \<Rightarrow> Inl (Opaque 94 ''the loop has not returned''))"

definition sp_WaitContainer ::
  "'d SDKDockerProvider \<Rightarrow> dctx \<Rightarrow> string \<Rightarrow> 'd provider_state \<Rightarrow> (go_error + int) \<times> 'd provider_state" where
  "sp_WaitContainer p c cid s =
     (let s1 = recordOperation p ''wait_container'' s;
          (t, d) = sdk_wait (sp_sdk p) c cid (ps_daemon s1)
      in (wait_value t, foldl (\<lambda>s name. recordError p name s) (s1\<lparr>ps_daemon := d\<rparr>) (ws_recorded t)))"

subsection \<open>Exec\<close>

definition sp_CreateExec ::
  "'d SDKDockerProvider \<Rightarrow> dctx \<Rightarrow> string \<Rightarrow> exec_config option \<Rightarrow> 'd provider_state \<Rightarrow> (go_error + string) \<times> 'd provider_state" where
  "sp_CreateExec p c cid config =
     operation p ''create_exec'' (container_error ''create_exec'' cid)
       (\<lambda>e. Some (''Created exec instance '' @ e @ '' for container '' @ cid)) (Exec_Create (Some (sp_sdk p)) c cid config)"

definition sp_StartExec ::
  "'d SDKDockerProvider \<Rightarrow> dctx \<Rightarrow> string \<Rightarrow> bool \<Rightarrow> 'd provider_state \<Rightarrow>
   (go_error + exec_chunk list \<times> result) \<times> 'd provider_state" where
  "sp_StartExec p c execID tty =
     operation p ''start_exec'' (container_error ''start_exec'' execID) (\<lambda>_. Some (''Started exec instance '' @ execID))
       (adapt (Some (sp_sdk p)) (\<lambda>k. sdk_ExecAttach k c execID tty))"

definition sp_InspectExec ::
  "'d SDKDockerProvider \<Rightarrow> dctx \<Rightarrow> string \<Rightarrow> 'd provider_state \<Rightarrow> (go_error + exec_inspect) \<times> 'd provider_state" where
  "sp_InspectExec p c execID =
     operation p ''inspect_exec'' (container_error ''inspect_exec'' execID) (\<lambda>_. None)
       (adapt (Some (sp_sdk p)) (\<lambda>k. sdk_ExecInspect k c execID))"

text \<open>Both writers are those of the execution, so \<open>Exec_Run\<close> does not panic here (\<open>exec_run_returns\<close>).\<close>

definition sp_RunExec ::
  "'d SDKDockerProvider \<Rightarrow> dctx \<Rightarrow> string \<Rightarrow> exec_config \<Rightarrow> 'd provider_state \<Rightarrow>
   ((go_error + int) \<times> string list \<times> string list) \<times> 'd provider_state" where
  "sp_RunExec p c cid config s =
     (let s1 = recordOperation p ''run_exec'' s;
          (r, d) = Exec_Run (Some (sp_sdk p)) c cid (Some config) True True (ps_daemon s1);
          s2 = s1\<lparr>ps_daemon := d\<rparr>
      in case the r of
           (Inl err, out) \<Rightarrow> ((Inl (container_error ''run_exec'' cid err), out), recordError p ''run_exec'' s2)
         | (Inr code, out) \<Rightarrow> ((Inr code, out), s2))"

subsection \<open>Images\<close>

definition registry_auth :: "'d SDKDockerProvider \<Rightarrow> string \<Rightarrow> string" where
  "registry_auth p img =
     (if sp_auth p then (case GetEncodedAuth (sp_cli p) (ExtractRegistry (sp_cli p) img) of Inr a \<Rightarrow> a | Inl _ \<Rightarrow> []) else [])"

definition sp_PullImage ::
  "'d SDKDockerProvider \<Rightarrow> dctx \<Rightarrow> string \<Rightarrow> 'd provider_state \<Rightarrow> (go_error + unit) \<times> 'd provider_state" where
  "sp_PullImage p c img s =
     (let s1 = recordOperation p ''pull_image'' s;
          ref = ParseRepositoryTag img;
          registry = ExtractRegistry (sp_cli p) img;
          auth = registry_auth p img;
          s2 = (if auth \<noteq> [] then logMessage p (''Using registry auth for '' @ registry) s1 else s1);
          (r, d) = PullAndWait (Some (sp_sdk p)) c (pr_Repository ref) (pr_Tag ref) auth (ps_daemon s2);
          s3 = s2\<lparr>ps_daemon := d\<rparr>
      in case r of
           Inl err \<Rightarrow> (Inl (image_error ''pull'' img err), recordError p ''pull_image'' s3)
         | Inr _ \<Rightarrow> (Inr (), logMessage p (''Pulled image '' @ img) s3))"

definition sp_HasImageLocally ::
  "'d SDKDockerProvider \<Rightarrow> dctx \<Rightarrow> string \<Rightarrow> 'd provider_state \<Rightarrow> (go_error + bool) \<times> 'd provider_state" where
  "sp_HasImageLocally p c img =
     operation p ''check_image'' (image_error ''check'' img) (\<lambda>_. None) (Images_Exists (Some (sp_sdk p)) c img)"

definition sp_EnsureImage ::
  "'d SDKDockerProvider \<Rightarrow> dctx \<Rightarrow> string \<Rightarrow> bool \<Rightarrow> 'd provider_state \<Rightarrow> result \<times> 'd provider_state" where
  "sp_EnsureImage p c img forcePull s =
     (let (pull1, s1) = (if forcePull then (case sp_PullImage p c img s of (r, s') \<Rightarrow> (Some r, s')) else (None, s))
      in if pull1 = Some (Inr ()) then (None, s1)
         else
           let (check, s2) = sp_HasImageLocally p c img s1
           in if check = Inr True then (None, logMessage p (''Found image '' @ img @ '' locally'') s2)
              else
                let (pull2, s3) = (if \<not> forcePull then (case sp_PullImage p c img s2 of (r, s') \<Rightarrow> (Some r, s')) else (pull1, s2))
                in if \<not> forcePull \<and> pull2 = Some (Inr ()) then (None, s3)
                   else (case pull2 of
                           Some (Inl pullError) \<Rightarrow> (Some pullError, s3)
                         | _ \<Rightarrow> (case check of Inl checkErr \<Rightarrow> (Some checkErr, s3) | Inr _ \<Rightarrow> (None, s3))))"

subsection \<open>Networks and the daemon\<close>

definition sp_ConnectNetwork ::
  "'d SDKDockerProvider \<Rightarrow> dctx \<Rightarrow> string \<Rightarrow> string \<Rightarrow> 'd provider_state \<Rightarrow> (go_error + unit) \<times> 'd provider_state" where
  "sp_ConnectNetwork p c networkID cid =
     operation p ''connect_network'' (container_error ''connect_network'' cid)
       (\<lambda>_. Some (''Connected container '' @ cid @ '' to network '' @ networkID))
       (adapt (Some (sp_sdk p)) (\<lambda>k. sdk_NetworkConnect k c networkID cid))"

definition sp_FindNetworkByName ::
  "'d SDKDockerProvider \<Rightarrow> dctx \<Rightarrow> string \<Rightarrow> 'd provider_state \<Rightarrow> (go_error + string list) \<times> 'd provider_state" where
  "sp_FindNetworkByName p c name =
     operation p ''list_networks'' (wrap_with ''listing networks: '') (\<lambda>_. None)
       (adapt (Some (sp_sdk p)) (\<lambda>k. sdk_NetworkList k c [(''name'', [name])]))"

definition sp_Ping :: "'d SDKDockerProvider \<Rightarrow> dctx \<Rightarrow> 'd provider_state \<Rightarrow> (go_error + unit) \<times> 'd provider_state" where
  "sp_Ping p c = operation p ''ping'' (wrap_with ''pinging docker: '') (\<lambda>_. None) (adapt (Some (sp_sdk p)) (\<lambda>k. sdk_Ping k c))"

subsection \<open>The provider of the jobs\<close>

definition as_result :: "(go_error + 'a) \<times> 's \<Rightarrow> result \<times> 's" where
  "as_result x = (case x of (Inl err, s) \<Rightarrow> (Some err, s) | (Inr _, s) \<Rightarrow> (None, s))"

text \<open>The two queries of the record do not return a state: what they count is left out of a job's run.\<close>

definition provider_docker :: "'d SDKDockerProvider \<Rightarrow> 'd provider_state docker" where
  "provider_docker p =
     \<lparr>d_Err = (\<lambda>c s. sdk_CtxErr (sp_sdk p) c (ps_daemon s)),
      d_EnsureImage = sp_EnsureImage p, d_CreateContainer = sp_CreateContainer p,
      d_InspectContainer = (\<lambda>c i s. fst (sp_InspectContainer p c i s)),
      d_FindNetworkByName = (\<lambda>c n s. fst (sp_FindNetworkByName p c n s)),
      d_ConnectNetwork = (\<lambda>c n i s. as_result (sp_ConnectNetwork p c n i s)),
      d_StartContainer = (\<lambda>c i s. as_result (sp_StartContainer p c i s)),
      d_StopContainer = (\<lambda>c i t s. as_result (sp_StopContainer p c i (Some t) s)),
      d_RemoveContainer = (\<lambda>c i f s. as_result (sp_RemoveContainer p c i f s)),
      d_WaitContainer = sp_WaitContainer p, d_GetContainerLogs = sp_GetContainerLogs p,
      d_RunExec = (\<lambda>c i cfg s. case sp_RunExec p c i cfg s of ((r, _), s') \<Rightarrow> (r, s'))\<rparr>"

subsection \<open>Making a provider\<close>

record SDKDockerProviderConfig =
  pc_Host :: string
  pc_Logger :: bool
  pc_MetricsRecorder :: bool
  pc_AuthProvider :: bool
  pc_NegotiateTimeout :: duration

text \<open>\<open>mk\<close> is the client of the SDK on the transport that was built.\<close>

definition NewSDKDockerProvider ::
  "'t docker_env \<Rightarrow> docker_cli \<Rightarrow> ('t docker_client \<Rightarrow> 'd sdk) \<Rightarrow> SDKDockerProviderConfig option \<Rightarrow>
   (string list, go_error + 'd SDKDockerProvider) state" where
  "NewSDKDockerProvider D C mk cfg = do {
     let config = DefaultConfig\<lparr>cc_Host := (case cfg of Some c \<Rightarrow> pc_Host c | None \<Rightarrow> []),
       cc_NegotiateTimeout := (case cfg of Some c \<Rightarrow> if 0 < pc_NegotiateTimeout c then pc_NegotiateTimeout c else defaultNegotiateTimeout
                               | None \<Rightarrow> defaultNegotiateTimeout)\<rparr>;
     r \<leftarrow> NewClientWithConfig D (Some config);
     State_Monad.return (case r of
         Inl err \<Rightarrow> Inl (Errorf [Lit ''creating docker client: '', Wrap err])
       | Inr cl \<Rightarrow> Inr (case cfg of
             Some c \<Rightarrow> \<lparr>sp_sdk = mk cl, sp_cli = C, sp_metrics = pc_MetricsRecorder c, sp_logger = pc_Logger c, sp_auth = pc_AuthProvider c\<rparr>
           | None \<Rightarrow> \<lparr>sp_sdk = mk cl, sp_cli = C, sp_metrics = False, sp_logger = False, sp_auth = False\<rparr>))
   }"

text \<open>The provider of the daemon process (\<^verbatim>\<open>src/cli/docker_config_handler.go\<close>).\<close>

definition newSDKDockerProvider ::
  "'t docker_env \<Rightarrow> docker_cli \<Rightarrow> ('t docker_client \<Rightarrow> 'd sdk) \<Rightarrow> (string list, go_error + 'd SDKDockerProvider) state" where
  "newSDKDockerProvider D C mk =
     NewSDKDockerProvider D C mk
       (Some \<lparr>pc_Host = [], pc_Logger = False, pc_MetricsRecorder = False, pc_AuthProvider = True, pc_NegotiateTimeout = 0\<rparr>)"

section \<open>Waits\<close>

text \<open>The law of the argument \<open>sdk_wait\<close>: each wait ends, in a state that some schedule of the two goroutines reaches.\<close>

definition waits_by_goroutines :: "'d sdk \<Rightarrow> bool" where
  "waits_by_goroutines k \<longleftrightarrow>
     (\<forall>c cid d. \<exists>as. runs (wait_step (sdk_errdefs k) cid) wait_begin as (fst (sdk_wait k c cid d)) \<and>
        ws_returned (fst (sdk_wait k c cid d)) \<noteq> None)"

text \<open>The end of the wait in the state \<open>s\<close> of the provider.\<close>

definition wait_end :: "'d SDKDockerProvider \<Rightarrow> dctx \<Rightarrow> string \<Rightarrow> 'd provider_state \<Rightarrow> wait_state" where
  "wait_end p c cid s = fst (sdk_wait (sp_sdk p) c cid (ps_daemon s))"

lemma recordOperation_daemon [simp]: "ps_daemon (recordOperation p name s) = ps_daemon s"
  by (simp add: recordOperation_def)

lemma wait_value_end: "fst (sp_WaitContainer p c cid s) = wait_value (wait_end p c cid s)"
  by (simp add: sp_WaitContainer_def wait_end_def Let_def split: prod.split)

lemma wait_value_code: "wait_value t = Inr code \<Longrightarrow> ws_returned t = Some (code, None)"
  by (auto simp: wait_value_def split: option.splits prod.splits)

section \<open>Calls and counters\<close>

datatype provider_call =
    CallCreate dctx container_config string | CallStart dctx string | CallStop dctx string "duration option"
  | CallRemove dctx string bool | CallInspect dctx string | CallWait dctx string | CallLogs dctx string
  | CallCreateExec dctx string "exec_config option" | CallStartExec dctx string bool | CallInspectExec dctx string
  | CallRunExec dctx string exec_config | CallPull dctx string | CallHasImage dctx string | CallEnsureImage dctx string bool
  | CallConnect dctx string string | CallFindNetwork dctx string | CallPing dctx

fun provide :: "'d SDKDockerProvider \<Rightarrow> provider_call \<Rightarrow> 'd provider_state \<Rightarrow> 'd provider_state" where
  "provide p (CallCreate c cfg n) s = snd (sp_CreateContainer p c cfg n s)"
| "provide p (CallStart c i) s = snd (sp_StartContainer p c i s)"
| "provide p (CallStop c i t) s = snd (sp_StopContainer p c i t s)"
| "provide p (CallRemove c i f) s = snd (sp_RemoveContainer p c i f s)"
| "provide p (CallInspect c i) s = snd (sp_InspectContainer p c i s)"
| "provide p (CallWait c i) s = snd (sp_WaitContainer p c i s)"
| "provide p (CallLogs c i) s = snd (sp_GetContainerLogs p c i s)"
| "provide p (CallCreateExec c i cfg) s = snd (sp_CreateExec p c i cfg s)"
| "provide p (CallStartExec c i t) s = snd (sp_StartExec p c i t s)"
| "provide p (CallInspectExec c i) s = snd (sp_InspectExec p c i s)"
| "provide p (CallRunExec c i cfg) s = snd (sp_RunExec p c i cfg s)"
| "provide p (CallPull c i) s = snd (sp_PullImage p c i s)"
| "provide p (CallHasImage c i) s = snd (sp_HasImageLocally p c i s)"
| "provide p (CallEnsureImage c i f) s = snd (sp_EnsureImage p c i f s)"
| "provide p (CallConnect c n i) s = snd (sp_ConnectNetwork p c n i s)"
| "provide p (CallFindNetwork c n) s = snd (sp_FindNetworkByName p c n s)"
| "provide p (CallPing c) s = snd (sp_Ping p c s)"

definition provider_begin :: "'d \<Rightarrow> 'd provider_state" where
  "provider_begin d = \<lparr>ps_daemon = d, ps_operations = [], ps_errors = [], ps_log = []\<rparr>"

text \<open>No operation has more errors than calls, and without a recorder nothing is counted.\<close>

definition counts_ok :: "'d SDKDockerProvider \<Rightarrow> 'd provider_state \<Rightarrow> bool" where
  "counts_ok p s \<longleftrightarrow> (\<forall>name. count_list (ps_errors s) name \<le> count_list (ps_operations s) name) \<and>
     (\<not> sp_metrics p \<longrightarrow> ps_operations s = [] \<and> ps_errors s = [])"

lemma record_ok:
  "counts_ok p s \<Longrightarrow> counts_ok p (recordOperation p n s)"
  "counts_ok p s \<Longrightarrow> counts_ok p (recordError p n (recordOperation p n s))"
  "counts_ok p (logMessage p m s) = counts_ok p s"
  "counts_ok p (s\<lparr>ps_daemon := d\<rparr>) = counts_ok p s"
  by (auto simp: counts_ok_def recordOperation_def recordError_def logMessage_def count_list_append intro: le_SucI)

lemma record_daemon [simp]: "(recordOperation p n s)\<lparr>ps_daemon := d\<rparr> = recordOperation p n (s\<lparr>ps_daemon := d\<rparr>)"
  by (simp add: recordOperation_def)

lemma daemon_kept [simp]:
  "ps_daemon (recordOperation p n s) = ps_daemon s" "ps_daemon (recordError p n s) = ps_daemon s"
  "ps_daemon (logMessage p m s) = ps_daemon s"
  by (simp_all add: recordOperation_def recordError_def logMessage_def)

lemma record_log [simp]: "logMessage p m (recordOperation p n s) = recordOperation p n (logMessage p m s)"
  by (simp add: recordOperation_def logMessage_def)

lemma operation_ok: "counts_ok p s \<Longrightarrow> counts_ok p (snd (operation p name wrap message call s))"
  by (auto simp: operation_def Let_def record_ok split: prod.splits sum.splits option.splits)

text \<open>A pull and an exec that is run count as the other operations do.\<close>

lemma pull_ok: "counts_ok p s \<Longrightarrow> counts_ok p (snd (sp_PullImage p c i s))"
  by (auto simp: sp_PullImage_def Let_def record_ok split: prod.splits sum.splits)

lemma ensure_ok: "counts_ok p s \<Longrightarrow> counts_ok p (snd (sp_EnsureImage p c i f s))"
proof -
  assume s: "counts_ok p s"
  have h: "counts_ok p (snd (sp_HasImageLocally p c i t))" if "counts_ok p t" for t
    using that by (simp add: sp_HasImageLocally_def operation_ok)
  obtain r1 s1 where p1: "sp_PullImage p c i s = (r1, s1)" by fastforce
  obtain h1 t1 where h1: "sp_HasImageLocally p c i s = (h1, t1)" by fastforce
  obtain h2 t2 where h2: "sp_HasImageLocally p c i s1 = (h2, t2)" by fastforce
  obtain r2 s2 where p2: "sp_PullImage p c i t1 = (r2, s2)" by fastforce
  have "counts_ok p s1" "counts_ok p t1" using pull_ok [OF s, of c i] h [OF s] p1 h1 by simp_all
  moreover from this have "counts_ok p t2" "counts_ok p s2" using pull_ok [of p t1 c i] h [of s1] p2 h2 by simp_all
  ultimately show ?thesis
    by (cases f) (simp_all add: sp_EnsureImage_def Let_def p1 h1 h2 p2 record_ok split: sum.split)
qed

text \<open>With both writers an exec returns.\<close>

lemma exec_run_returns: "fst (Exec_Run K c cid config True True d) \<noteq> None"
  by (auto simp: Exec_Run_def copied_def Let_def split: option.splits prod.splits sum.splits)

lemma run_exec_ok: "counts_ok p s \<Longrightarrow> counts_ok p (snd (sp_RunExec p c i cfg s))"
  by (auto simp: sp_RunExec_def Let_def record_ok split: prod.splits sum.splits)

lemma wait_ok:
  assumes "waits_by_goroutines (sp_sdk p)" "counts_ok p s"
  shows "counts_ok p (snd (sp_WaitContainer p c i s))"
proof -
  obtain t d where w: "sdk_wait (sp_sdk p) c i (ps_daemon s) = (t, d)" by fastforce
  obtain as where "runs (wait_step (sdk_errdefs (sp_sdk p)) i) wait_begin as (fst (sdk_wait (sp_sdk p) c i (ps_daemon s)))"
    using assms(1) unfolding waits_by_goroutines_def by blast
  then have "ws_recorded t \<in> {[], [''wait_container'']}" using wait_records w by simp
  with assms(2) show ?thesis
    by (auto simp: sp_WaitContainer_def w Let_def record_ok)
qed

lemma provide_ok: "waits_by_goroutines (sp_sdk p) \<Longrightarrow> counts_ok p s \<Longrightarrow> counts_ok p (provide p call s)"
  by (cases call)
    (simp_all add: operation_ok pull_ok ensure_ok run_exec_ok wait_ok sp_CreateContainer_def sp_StartContainer_def
      sp_StopContainer_def sp_RemoveContainer_def sp_InspectContainer_def sp_GetContainerLogs_def sp_CreateExec_def
      sp_StartExec_def sp_InspectExec_def sp_HasImageLocally_def sp_ConnectNetwork_def sp_FindNetworkByName_def sp_Ping_def)

lemma provider_docker_wait [simp]: "d_WaitContainer (provider_docker p) = sp_WaitContainer p"
  by (simp add: provider_docker_def)

text \<open>The last occurrence of a byte.\<close>

lemma SplitLast_none: "c \<notin> set s \<Longrightarrow> SplitLast s c = None"
  by (induction s) auto

lemma SplitLast_iff: "SplitLast s c = None \<longleftrightarrow> c \<notin> set s"
  by (induction s) (auto split: option.splits)

lemma SplitLast_app: "c \<notin> set b \<Longrightarrow> SplitLast (a @ c # b) c = Some (a, b)"
  by (induction a) (auto simp: SplitLast_none)

lemma SplitLast_some: "SplitLast s c = Some (a, b) \<Longrightarrow> s = a @ c # b \<and> c \<notin> set b"
  by (induction s arbitrary: a b) (auto split: option.splits if_splits simp: SplitLast_iff)

text \<open>A daemon whose containers all end with the exit code 0 and whose pulls all stream an error.\<close>

definition sample_sdk :: "unit sdk" where
  "sample_sdk =
     \<lparr>sdk_errdefs = \<lparr>ed_NotFound = (\<lambda>_. False), ed_Conflict = (\<lambda>_. False), ed_Unauthorized = (\<lambda>_. False),
        ed_PermissionDenied = (\<lambda>_. False), ed_DeadlineExceeded = (\<lambda>_. False), ed_Canceled = (\<lambda>_. False), ed_Unavailable = (\<lambda>_. False)\<rparr>,
      sdk_CtxErr = (\<lambda>c d. None), sdk_ContainerCreate = (\<lambda>c cfg n d. (Inr ''c1'', d)), sdk_ContainerStart = (\<lambda>c i d. (Inr (), d)),
      sdk_ContainerStop = (\<lambda>c i t d. (Inr (), d)), sdk_ContainerRemove = (\<lambda>c i f d. (Inr (), d)),
      sdk_ContainerInspect = (\<lambda>c i d. (Inr (i, None), d)), sdk_ContainerLogs = (\<lambda>c i d. (Inr None, d)),
      sdk_wait = (\<lambda>c i d. (answered \<lparr>wr_StatusCode = 0, wr_Error = None\<rparr>, d)), sdk_ExecCreate = (\<lambda>c i cfg d. (Inr ''e1'', d)),
      sdk_ExecAttach = (\<lambda>c i t d. (Inr ([], None), d)),
      sdk_ExecInspect = (\<lambda>c i d. (Inr \<lparr>ei_ID = i, ei_Running = False, ei_ExitCode = 0\<rparr>, d)),
      sdk_ImagePull = (\<lambda>c ref a d. (Inr ([PullError ''no space left on device''], None), d)),
      sdk_ImageInspect = (\<lambda>c ref d. (Inl (Opaque 90 ''no such image''), d)), sdk_NetworkConnect = (\<lambda>c n i d. (Inr (), d)),
      sdk_NetworkList = (\<lambda>c f d. (Inr [], d)), sdk_Ping = (\<lambda>c d. (Inr (), d))\<rparr>"

definition sample_provider :: "unit SDKDockerProvider" where
  "sample_provider =
     \<lparr>sp_sdk = sample_sdk, sp_cli = \<lparr>dc_Load = Inl (Opaque 90 ''no config''), dc_Encode = (\<lambda>_. Inr []), dc_Domain = (\<lambda>_. None)\<rparr>,
      sp_metrics = True, sp_logger = False, sp_auth = True\<rparr>"

lemma sample_waits: "waits_by_goroutines (sp_sdk sample_provider)"
  unfolding waits_by_goroutines_def
proof (intro allI)
  fix c cid and d :: unit
  have "ws_returned (answered \<lparr>wr_StatusCode = 0, wr_Error = None\<rparr>) \<noteq> None" by (simp add: answered_def)
  then show "\<exists>as. runs (wait_step (sdk_errdefs (sp_sdk sample_provider)) cid) wait_begin as (fst (sdk_wait (sp_sdk sample_provider) c cid d)) \<and>
      ws_returned (fst (sdk_wait (sp_sdk sample_provider) c cid d)) \<noteq> None"
    using answered_run by (fastforce simp: sample_provider_def sample_sdk_def)
qed

section \<open>Properties\<close>

text \<open>(provider_counts): in any sequence of calls of the provider, no operation is counted as failed more often than it was
  called, and the provider the daemon process makes counts nothing at all, since it is given no recorder.\<close>

theorem provider_counts:
  assumes "waits_by_goroutines (sp_sdk p)"
  shows "(let s = foldl (\<lambda>s call. provide p call s) (provider_begin d) calls in
      (\<forall>name. count_list (ps_errors s) name \<le> count_list (ps_operations s) name) \<and>
      (\<forall>D C mk reads. fst (run_state (newSDKDockerProvider D C mk) reads) = Inr p \<longrightarrow> ps_operations s = [] \<and> ps_errors s = []))"
proof -
  have "counts_ok p (foldl (\<lambda>s call. provide p call s) s calls)" if "counts_ok p s" for s
    using that by (induction calls arbitrary: s) (simp_all add: provide_ok [OF assms])
  moreover have "counts_ok p (provider_begin d)" by (simp add: counts_ok_def provider_begin_def)
  moreover have "\<not> sp_metrics p" if "fst (run_state (newSDKDockerProvider D C mk) reads) = Inr p" for D C mk reads
    using that by (auto simp: newSDKDockerProvider_def NewSDKDockerProvider_def split: prod.splits sum.splits)
  ultimately show ?thesis unfolding counts_ok_def Let_def by blast
qed

theorem provider_counts_witness:
  "(let s = foldl (\<lambda>s call. provide sample_provider call s) (provider_begin ()) [CallWait RunCtx ''c1'', CallHasImage RunCtx ''a'']
    in ps_errors s = [''check_image''] \<and> (\<forall>name. count_list (ps_errors s) name \<le> count_list (ps_operations s) name))"
proof -
  have "ps_errors (foldl (\<lambda>s call. provide sample_provider call s) (provider_begin ())
      [CallWait RunCtx ''c1'', CallHasImage RunCtx ''a'']) = [''check_image'']" by code_simp
  then show ?thesis
    using provider_counts [OF sample_waits, of "()" "[CallWait RunCtx ''c1'', CallHasImage RunCtx ''a'']"] by (simp only: Let_def) blast
qed

text \<open>C17 (run_job_success): when a run job on the real provider ends without an error, it had created or found a container and started it, and the
  one wait it then made ended in a state that the two goroutines of the wait reach, in which the daemon has answered this wait
  with the exit code 0 and no message: no other exit code and no error of the daemon is ever reported as success, however the goroutines are
  scheduled. That the wait of the SDK is one of these schedules and returns is a hypothesis.\<close>

theorem run_job_success:
  assumes "waits_by_goroutines (sp_sdk p)" "fst (rj_Run (provider_docker p) E j w) = None"
  shows "\<exists>w1 w2 as resp. rj_acquire (provider_docker p) E j w = (None, w1) \<and> startContainer (provider_docker p) w1 = (None, w2) \<and>
    runs (wait_step (sdk_errdefs (sp_sdk p)) (w_containerID w1)) wait_begin as (wait_end p (watch_ctx j) (w_containerID w1) (w_docker w2)) \<and>
    ws_statusCh (wait_end p (watch_ctx j) (w_containerID w1) (w_docker w2)) = Some resp \<and>
    wr_StatusCode resp = 0 \<and> wr_Error resp \<in> {None, Some []}"
proof (cases rule: run_result_cases [of "provider_docker p" E j w])
  case (early ps)
  with assms(2) show ?thesis by simp
next
  case (late r d)
  have "r = Inr 0" using late(2) assms(2) by (auto simp: wait_result_def exit_result_def split: sum.splits if_splits)
  with late(1) obtain w1 w2 where w: "rj_acquire (provider_docker p) E j w = (None, w1)" "startContainer (provider_docker p) w1 = (None, w2)"
      "sp_WaitContainer p (watch_ctx j) (w_containerID w1) (w_docker w2) = (Inr 0, d)"
    unfolding waited_def provider_docker_wait by blast
  let ?t = "wait_end p (watch_ctx j) (w_containerID w1) (w_docker w2)"
  obtain as where t: "runs (wait_step (sdk_errdefs (sp_sdk p)) (w_containerID w1)) wait_begin as ?t"
    using assms(1) unfolding waits_by_goroutines_def wait_end_def by blast
  have ret: "ws_returned ?t = Some (0, None)"
    using wait_value_code wait_value_end [of p "watch_ctx j" "w_containerID w1" "w_docker w2"] w(3) by simp
  have "returned_ok (sdk_errdefs (sp_sdk p)) (w_containerID w1) ?t" using wait.ok_runs [OF t] begin_ok by blast
  with ret obtain resp where "ws_statusCh ?t = Some resp" "(0, None) = fst (on_response (w_containerID w1) resp [])"
    by (auto simp: returned_ok_def)
  then show ?thesis using w(1,2) t on_response_None by blast
qed

definition sample_job :: RunJob_conf where
  "sample_job =
     \<lparr>rj_Name = ''j'', rj_Command = [], rj_User = [], rj_ContainerName = None, rj_TTY = False, rj_Delete = [], rj_Pull = [],
      rj_Image = [], rj_Network = [], rj_Hostname = [], rj_Entrypoint = None, rj_Container = ''c1'', rj_Volume = [],
      rj_VolumesFrom = [], rj_Environment = [], rj_EnvFile = [], rj_EnvFrom = [], rj_WorkingDir = [], rj_Annotations = [],
      rj_MaxRuntime = 0\<rparr>"

definition sample_job_env :: job_env where
  "sample_job_env = \<lparr>je_GetArgs = (\<lambda>_. []), je_fs = (\<lambda>_. Inl (Opaque 90 [])), je_hostname = [], je_version = [], je_time = []\<rparr>"

theorem run_job_success_witness:
  "(let w = \<lparr>w_docker = provider_begin (), w_calls = [], w_containerID = [], w_output = [], w_warnings = []\<rparr> in
    \<exists>w1 w2 resp. rj_acquire (provider_docker sample_provider) sample_job_env sample_job w = (None, w1) \<and>
      startContainer (provider_docker sample_provider) w1 = (None, w2) \<and>
      ws_statusCh (wait_end sample_provider (watch_ctx sample_job) (w_containerID w1) (w_docker w2)) = Some resp \<and>
      wr_StatusCode resp = 0)"
proof -
  have "fst (rj_Run (provider_docker sample_provider) sample_job_env sample_job
      \<lparr>w_docker = provider_begin (), w_calls = [], w_containerID = [], w_output = [], w_warnings = []\<rparr>) = None" by code_simp
  from run_job_success [OF sample_waits this] show ?thesis unfolding Let_def by blast
qed

text \<open>(pinned_image_unchecked): an image pinned by its digest is pulled by the tag \<^verbatim>\<open>latest\<close> of its repository instead, and
  \<^verbatim>\<open>EnsureImage\<close> with a forced pull is content with any pull whose stream can be read to its end: neither the errors the
  stream reports nor what is present afterwards are looked at.\<close>

theorem pinned_image_unchecked:
  assumes "CHR ''@'' \<notin> set digest"
    and "sdk_ImagePull (sp_sdk p) c (repo @ '':latest'') (registry_auth p (repo @ ''@'' @ digest)) (ps_daemon s) = (Inr (messages, None), d)"
  shows "fst (sp_EnsureImage p c (repo @ ''@'' @ digest) True s) = None \<and>
    ps_daemon (snd (sp_EnsureImage p c (repo @ ''@'' @ digest) True s)) = d"
proof -
  let ?img = "repo @ ''@'' @ digest"
  have "ParseRepositoryTag ?img = \<lparr>pr_Repository = repo, pr_Tag = ''latest'', pr_Digest = digest\<rparr>"
    using SplitLast_app [OF assms(1), of repo] by (simp add: ParseRepositoryTag_def)
  moreover have "PullAndWait (Some (sp_sdk p)) c repo ''latest'' (registry_auth p ?img) (ps_daemon s) = (Inr (), d)"
    using assms(2) by (simp add: PullAndWait_def Images_Pull_def adapt_def)
  ultimately have "fst (sp_PullImage p c ?img s) = Inr ()" "ps_daemon (snd (sp_PullImage p c ?img s)) = d"
    by (cases "registry_auth p ?img = []"; simp_all add: sp_PullImage_def Let_def)+
  then obtain s' where "sp_PullImage p c ?img s = (Inr (), s')" "ps_daemon s' = d" by (metis prod.collapse)
  then show ?thesis by (simp add: sp_EnsureImage_def Let_def)
qed

theorem pinned_image_unchecked_witness:
  "fst (sp_EnsureImage sample_provider RunCtx ''alpine@sha256:0'' True (provider_begin ())) = None"
  using pinned_image_unchecked [of "''sha256:0''" sample_provider RunCtx "''alpine''" "provider_begin ()"
      "[PullError ''no space left on device'']" "()"]
  by (simp add: sample_provider_def sample_sdk_def)

end
