(* ===== verification/SwarmAdapter.thy ===== *)
theory SwarmAdapter
  imports ServiceJob ContainerWait
begin

text \<open>
  The Swarm adapter (\<^verbatim>\<open>src/core/adapters/docker/service.go\<close>) between the services of \<^verbatim>\<open>src/core/domain/service.go\<close> and
  those of the SDK: the conversions in both directions, of which one undoes the other up to a normal form, and the loops
  that wait for tasks. The records of the SDK hold the fields the conversions name, and in \<open>sdk_fields\<close> all the other fields of their type
  that are set, which the conversions drop.
\<close>

section \<open>Services of the domain\<close>

record domain_mount =
  dm_Type :: string
  dm_Source :: string
  dm_Target :: string
  dm_ReadOnly :: bool

record ContainerSpec =
  cs_Image :: string
  cs_Labels :: "string \<rightharpoonup> string"
  cs_Command :: "string list"
  cs_Args :: "string list"
  cs_Hostname :: string
  cs_Env :: "string list"
  cs_Dir :: string
  cs_User :: string
  cs_Mounts :: "domain_mount list"
  cs_TTY :: bool
  cs_OpenStdin :: bool

record Resources =
  re_NanoCPUs :: int
  re_MemoryBytes :: int

record ResourceRequirements =
  rr_Limits :: "Resources option"
  rr_Reservations :: "Resources option"

record ServiceRestartPolicy =
  rp_Condition :: string
  rp_Delay :: "duration option"
  rp_MaxAttempts :: "u64 option"
  rp_Window :: "duration option"

record SpreadOver = so_SpreadDescriptor :: string
record PlacementPreference = pp_Spread :: "SpreadOver option"

record Placement =
  pl_Constraints :: "string list"
  pl_Preferences :: "PlacementPreference list"

record LogDriver =
  ld_Name :: string
  ld_Options :: "string \<rightharpoonup> string"

record NetworkAttachment =
  na_Target :: string
  na_Aliases :: "string list"

record TaskSpec =
  ts_ContainerSpec :: ContainerSpec
  ts_Resources :: "ResourceRequirements option"
  ts_RestartPolicy :: "ServiceRestartPolicy option"
  ts_Placement :: "Placement option"
  ts_Networks :: "NetworkAttachment list"
  ts_LogDriver :: "LogDriver option"

record PortConfig =
  pt_Name :: string
  pt_Protocol :: string
  pt_TargetPort :: u32
  pt_PublishedPort :: u32
  pt_PublishMode :: string

record EndpointSpec =
  es_Mode :: string
  es_Ports :: "PortConfig list"

text \<open>\<open>sm_Global\<close>: the pointer to the empty structure \<^verbatim>\<open>GlobalService\<close> is set.\<close>

record ReplicatedService = rs_Replicas :: "u64 option"

record ServiceMode =
  sm_Replicated :: "ReplicatedService option"
  sm_Global :: bool

record ServiceSpec =
  sp_Name :: string
  sp_Labels :: "string \<rightharpoonup> string"
  sp_TaskTemplate :: TaskSpec
  sp_Mode :: ServiceMode
  sp_Networks :: "NetworkAttachment list"
  sp_EndpointSpec :: "EndpointSpec option"

record domain_service =
  sv_ID :: string
  sv_Version :: u64
  sv_CreatedAt :: int
  sv_UpdatedAt :: int
  sv_Spec :: ServiceSpec

section \<open>Services of the SDK\<close>

text \<open>The fields of a type of the SDK that the code does not name, such as secrets, configurations, health checks, options of mounts and
  networks: the ones that are set, with their values; \<open>[]\<close> is the zero value of all of them.\<close>

type_synonym sdk_fields = "(string \<times> string) list"

record SwarmMount =
  xm_Type :: string
  xm_Source :: string
  xm_Target :: string
  xm_ReadOnly :: bool
  xm_Others :: sdk_fields

record SwarmContainerSpec =
  xc_Image :: string
  xc_Labels :: "string \<rightharpoonup> string"
  xc_Command :: "string list"
  xc_Args :: "string list"
  xc_Hostname :: string
  xc_Env :: "string list"
  xc_Dir :: string
  xc_User :: string
  xc_Mounts :: "SwarmMount list"
  xc_TTY :: bool
  xc_OpenStdin :: bool
  xc_Others :: sdk_fields

record SwarmResources =
  xr_NanoCPUs :: int
  xr_MemoryBytes :: int
  xr_Others :: sdk_fields

record SwarmRequirements =
  xq_Limits :: "SwarmResources option"
  xq_Reservations :: "SwarmResources option"
  xq_Others :: sdk_fields

record SwarmRestartPolicy =
  xp_Condition :: string
  xp_Delay :: "duration option"
  xp_MaxAttempts :: "u64 option"
  xp_Window :: "duration option"

record SwarmPlacement =
  xl_Constraints :: "string list"
  xl_Preferences :: "string option list"
  xl_Others :: sdk_fields

record SwarmDriver =
  xd_Name :: string
  xd_Options :: "string \<rightharpoonup> string"

record SwarmNetwork =
  xn_Target :: string
  xn_Aliases :: "string list"
  xn_Others :: sdk_fields

record SwarmTaskSpec =
  xt_ContainerSpec :: "SwarmContainerSpec option"
  xt_Resources :: "SwarmRequirements option"
  xt_RestartPolicy :: "SwarmRestartPolicy option"
  xt_Placement :: "SwarmPlacement option"
  xt_Networks :: "SwarmNetwork list"
  xt_LogDriver :: "SwarmDriver option"
  xt_Others :: sdk_fields

record SwarmPort =
  xo_Name :: string
  xo_Protocol :: string
  xo_TargetPort :: u32
  xo_PublishedPort :: u32
  xo_PublishMode :: string

record SwarmEndpoint =
  xe_Mode :: string
  xe_Ports :: "SwarmPort list"

text \<open>The mode of the SDK: \<open>Some\<close> the pointer to the number of replicas, whether the global mode is set, and the two modes of jobs, a
  replicated job with its maximum and total numbers. The other two components of a specification are the configurations of updates and
  rollbacks, when they are set.\<close>

record SwarmMode =
  xk_Replicated :: "u64 option option"
  xk_Global :: bool
  xk_ReplicatedJob :: "(u64 option \<times> u64 option) option"
  xk_GlobalJob :: bool

record SwarmServiceSpec =
  xs_Name :: string
  xs_Labels :: "string \<rightharpoonup> string"
  xs_TaskTemplate :: SwarmTaskSpec
  xs_Mode :: SwarmMode
  xs_EndpointSpec :: "SwarmEndpoint option"
  xs_UpdateConfig :: "sdk_fields option"
  xs_RollbackConfig :: "sdk_fields option"
  xs_Others :: sdk_fields

record SwarmService =
  xv_ID :: string
  xv_Version :: u64
  xv_CreatedAt :: int
  xv_UpdatedAt :: int
  xv_Spec :: SwarmServiceSpec
  xv_Others :: sdk_fields

section \<open>To the SDK\<close>

definition to_mount :: "domain_mount \<Rightarrow> SwarmMount" where
  "to_mount m = \<lparr>xm_Type = dm_Type m, xm_Source = dm_Source m, xm_Target = dm_Target m, xm_ReadOnly = dm_ReadOnly m, xm_Others = []\<rparr>"

definition to_container_spec :: "ContainerSpec \<Rightarrow> SwarmContainerSpec" where
  "to_container_spec c =
     \<lparr>xc_Image = cs_Image c, xc_Labels = cs_Labels c, xc_Command = cs_Command c, xc_Args = cs_Args c, xc_Hostname = cs_Hostname c,
      xc_Env = cs_Env c, xc_Dir = cs_Dir c, xc_User = cs_User c, xc_Mounts = map to_mount (cs_Mounts c), xc_TTY = cs_TTY c,
      xc_OpenStdin = cs_OpenStdin c, xc_Others = []\<rparr>"

definition to_resources :: "Resources \<Rightarrow> SwarmResources" where
  "to_resources r = \<lparr>xr_NanoCPUs = re_NanoCPUs r, xr_MemoryBytes = re_MemoryBytes r, xr_Others = []\<rparr>"

definition to_network :: "NetworkAttachment \<Rightarrow> SwarmNetwork" where
  "to_network n = \<lparr>xn_Target = na_Target n, xn_Aliases = na_Aliases n, xn_Others = []\<rparr>"

definition to_restart_policy :: "ServiceRestartPolicy \<Rightarrow> SwarmRestartPolicy" where
  "to_restart_policy r = \<lparr>xp_Condition = rp_Condition r, xp_Delay = rp_Delay r, xp_MaxAttempts = rp_MaxAttempts r, xp_Window = rp_Window r\<rparr>"

definition to_requirements :: "ResourceRequirements \<Rightarrow> SwarmRequirements" where
  "to_requirements r =
     \<lparr>xq_Limits = map_option to_resources (rr_Limits r), xq_Reservations = map_option to_resources (rr_Reservations r),
      xq_Others = []\<rparr>"

definition to_placement :: "Placement \<Rightarrow> SwarmPlacement" where
  "to_placement p =
     \<lparr>xl_Constraints = pl_Constraints p,
      xl_Preferences = map (\<lambda>pref. map_option so_SpreadDescriptor (pp_Spread pref)) (pl_Preferences p), xl_Others = []\<rparr>"

definition to_driver :: "LogDriver \<Rightarrow> SwarmDriver" where
  "to_driver l = \<lparr>xd_Name = ld_Name l, xd_Options = ld_Options l\<rparr>"

definition convertTaskTemplateToSwarm :: "TaskSpec \<Rightarrow> SwarmTaskSpec" where
  "convertTaskTemplateToSwarm src =
     \<lparr>xt_ContainerSpec = Some (to_container_spec (ts_ContainerSpec src)),
      xt_Resources = map_option to_requirements (ts_Resources src),
      xt_RestartPolicy = map_option to_restart_policy (ts_RestartPolicy src),
      xt_Placement = map_option to_placement (ts_Placement src),
      xt_Networks = map to_network (ts_Networks src), xt_LogDriver = map_option to_driver (ts_LogDriver src),
      xt_Others = []\<rparr>"

definition to_port :: "PortConfig \<Rightarrow> SwarmPort" where
  "to_port p =
     \<lparr>xo_Name = pt_Name p, xo_Protocol = pt_Protocol p, xo_TargetPort = pt_TargetPort p, xo_PublishedPort = pt_PublishedPort p,
      xo_PublishMode = pt_PublishMode p\<rparr>"

definition to_mode :: "ServiceMode \<Rightarrow> SwarmMode" where
  "to_mode m =
     (case sm_Replicated m of
        Some r \<Rightarrow> \<lparr>xk_Replicated = Some (rs_Replicas r), xk_Global = False, xk_ReplicatedJob = None, xk_GlobalJob = False\<rparr>
      | None \<Rightarrow> \<lparr>xk_Replicated = None, xk_Global = sm_Global m, xk_ReplicatedJob = None, xk_GlobalJob = False\<rparr>)"

definition to_endpoint :: "EndpointSpec \<Rightarrow> SwarmEndpoint" where
  "to_endpoint e = \<lparr>xe_Mode = es_Mode e, xe_Ports = map to_port (es_Ports e)\<rparr>"

text \<open>The networks of the service are appended to those of the task.\<close>

definition convertToSwarmSpec :: "ServiceSpec \<Rightarrow> SwarmServiceSpec" where
  "convertToSwarmSpec spec =
     (let t = convertTaskTemplateToSwarm (sp_TaskTemplate spec) in
      \<lparr>xs_Name = sp_Name spec, xs_Labels = sp_Labels spec,
       xs_TaskTemplate = t\<lparr>xt_Networks := xt_Networks t @ map to_network (sp_Networks spec)\<rparr>,
       xs_Mode = to_mode (sp_Mode spec), xs_EndpointSpec = map_option to_endpoint (sp_EndpointSpec spec),
       xs_UpdateConfig = None, xs_RollbackConfig = None, xs_Others = []\<rparr>)"

section \<open>From the SDK\<close>

definition from_mount :: "SwarmMount \<Rightarrow> domain_mount" where
  "from_mount m = \<lparr>dm_Type = xm_Type m, dm_Source = xm_Source m, dm_Target = xm_Target m, dm_ReadOnly = xm_ReadOnly m\<rparr>"

definition from_container_spec :: "SwarmContainerSpec \<Rightarrow> ContainerSpec" where
  "from_container_spec c =
     \<lparr>cs_Image = xc_Image c, cs_Labels = xc_Labels c, cs_Command = xc_Command c, cs_Args = xc_Args c, cs_Hostname = xc_Hostname c,
      cs_Env = xc_Env c, cs_Dir = xc_Dir c, cs_User = xc_User c, cs_Mounts = map from_mount (xc_Mounts c), cs_TTY = xc_TTY c,
      cs_OpenStdin = xc_OpenStdin c\<rparr>"

definition empty_container_spec :: ContainerSpec where
  "empty_container_spec =
     \<lparr>cs_Image = [], cs_Labels = Map.empty, cs_Command = [], cs_Args = [], cs_Hostname = [], cs_Env = [], cs_Dir = [], cs_User = [],
      cs_Mounts = [], cs_TTY = False, cs_OpenStdin = False\<rparr>"

definition from_resources :: "SwarmResources \<Rightarrow> Resources" where
  "from_resources r = \<lparr>re_NanoCPUs = xr_NanoCPUs r, re_MemoryBytes = xr_MemoryBytes r\<rparr>"

definition from_network :: "SwarmNetwork \<Rightarrow> NetworkAttachment" where
  "from_network n = \<lparr>na_Target = xn_Target n, na_Aliases = xn_Aliases n\<rparr>"

definition from_restart_policy :: "SwarmRestartPolicy \<Rightarrow> ServiceRestartPolicy" where
  "from_restart_policy r =
     \<lparr>rp_Condition = xp_Condition r, rp_Delay = xp_Delay r, rp_MaxAttempts = xp_MaxAttempts r, rp_Window = xp_Window r\<rparr>"

definition from_requirements :: "SwarmRequirements \<Rightarrow> ResourceRequirements" where
  "from_requirements r =
     \<lparr>rr_Limits = map_option from_resources (xq_Limits r), rr_Reservations = map_option from_resources (xq_Reservations r)\<rparr>"

definition from_placement :: "SwarmPlacement \<Rightarrow> Placement" where
  "from_placement p =
     \<lparr>pl_Constraints = xl_Constraints p,
      pl_Preferences = map (\<lambda>s. \<lparr>pp_Spread = map_option (\<lambda>d. \<lparr>so_SpreadDescriptor = d\<rparr>) s\<rparr>) (xl_Preferences p)\<rparr>"

definition from_driver :: "SwarmDriver \<Rightarrow> LogDriver" where
  "from_driver l = \<lparr>ld_Name = xd_Name l, ld_Options = xd_Options l\<rparr>"

definition convertTaskTemplateFromSwarm :: "SwarmTaskSpec \<Rightarrow> TaskSpec" where
  "convertTaskTemplateFromSwarm src =
     \<lparr>ts_ContainerSpec = (case xt_ContainerSpec src of Some cs \<Rightarrow> from_container_spec cs | None \<Rightarrow> empty_container_spec),
      ts_Resources = map_option from_requirements (xt_Resources src),
      ts_RestartPolicy = map_option from_restart_policy (xt_RestartPolicy src),
      ts_Placement = map_option from_placement (xt_Placement src),
      ts_Networks = map from_network (xt_Networks src), ts_LogDriver = map_option from_driver (xt_LogDriver src)\<rparr>"

definition from_port :: "SwarmPort \<Rightarrow> PortConfig" where
  "from_port p =
     \<lparr>pt_Name = xo_Name p, pt_Protocol = xo_Protocol p, pt_TargetPort = xo_TargetPort p, pt_PublishedPort = xo_PublishedPort p,
      pt_PublishMode = xo_PublishMode p\<rparr>"

definition from_mode :: "SwarmMode \<Rightarrow> ServiceMode" where
  "from_mode m =
     (case xk_Replicated m of
        Some r \<Rightarrow> \<lparr>sm_Replicated = Some \<lparr>rs_Replicas = r\<rparr>, sm_Global = False\<rparr>
      | None \<Rightarrow> \<lparr>sm_Replicated = None, sm_Global = xk_Global m\<rparr>)"

definition from_endpoint :: "SwarmEndpoint \<Rightarrow> EndpointSpec" where
  "from_endpoint e = \<lparr>es_Mode = xe_Mode e, es_Ports = map from_port (xe_Ports e)\<rparr>"

definition convertFromSwarmService :: "SwarmService \<Rightarrow> domain_service" where
  "convertFromSwarmService svc =
     \<lparr>sv_ID = xv_ID svc, sv_Version = xv_Version svc, sv_CreatedAt = xv_CreatedAt svc, sv_UpdatedAt = xv_UpdatedAt svc,
      sv_Spec = \<lparr>sp_Name = xs_Name (xv_Spec svc), sp_Labels = xs_Labels (xv_Spec svc),
        sp_TaskTemplate = convertTaskTemplateFromSwarm (xs_TaskTemplate (xv_Spec svc)),
        sp_Mode = from_mode (xs_Mode (xv_Spec svc)), sp_Networks = [],
        sp_EndpointSpec = map_option from_endpoint (xs_EndpointSpec (xv_Spec svc))\<rparr>\<rparr>"

section \<open>Tasks\<close>

record SwarmContainerStatus =
  xa_ContainerID :: string
  xa_PID :: int
  xa_ExitCode :: int

record SwarmTask =
  xk_ID :: string
  xk_ServiceID :: string
  xk_NodeID :: string
  xk_DesiredState :: string
  xk_CreatedAt :: int
  xk_UpdatedAt :: int
  xk_Timestamp :: int
  xk_State :: string
  xk_Message :: string
  xk_Err :: string
  xk_ContainerStatus :: "SwarmContainerStatus option"

record ContainerStatus =
  ct_ContainerID :: string
  ct_PID :: int
  ct_ExitCode :: int

record TaskStatus =
  tu_Timestamp :: int
  tu_State :: string
  tu_Message :: string
  tu_Err :: string
  tu_ContainerStatus :: "ContainerStatus option"

record domain_task =
  tk_ID :: string
  tk_ServiceID :: string
  tk_NodeID :: string
  tk_Status :: TaskStatus
  tk_DesiredState :: string
  tk_CreatedAt :: int
  tk_UpdatedAt :: int

definition convertFromSwarmTask :: "SwarmTask \<Rightarrow> domain_task" where
  "convertFromSwarmTask t =
     \<lparr>tk_ID = xk_ID t, tk_ServiceID = xk_ServiceID t, tk_NodeID = xk_NodeID t,
      tk_Status = \<lparr>tu_Timestamp = xk_Timestamp t, tu_State = xk_State t, tu_Message = xk_Message t, tu_Err = xk_Err t,
        tu_ContainerStatus = map_option
          (\<lambda>c. \<lparr>ct_ContainerID = xa_ContainerID c, ct_PID = xa_PID c, ct_ExitCode = xa_ExitCode c\<rparr>) (xk_ContainerStatus t)\<rparr>,
      tk_DesiredState = xk_DesiredState t, tk_CreatedAt = xk_CreatedAt t, tk_UpdatedAt = xk_UpdatedAt t\<rparr>"

text \<open>\<^verbatim>\<open>IsTerminalState\<close> on the names of the states.\<close>

definition terminal :: "domain_task \<Rightarrow> bool" where
  "terminal t \<longleftrightarrow> tu_State (tk_Status t) \<in> set [''complete'', ''failed'', ''rejected'', ''shutdown'', ''orphaned'']"

text \<open>What the \<^verbatim>\<open>select\<close> of the loops delivers: the end of the context, or a tick with the daemon's list of tasks.\<close>

datatype poll = PollOver | PollTick "go_error + SwarmTask list"

definition ListTasks :: "errdefs \<Rightarrow> go_error + SwarmTask list \<Rightarrow> go_error + domain_task list" where
  "ListTasks E answer = map_sum (convertError E) (map convertFromSwarmTask) answer"

fun WaitForTask :: "errdefs \<Rightarrow> poll list \<Rightarrow> (go_error + domain_task) option" where
  "WaitForTask E [] = None"
| "WaitForTask E (PollOver # ps) = Some (Inl domain_ErrTimeout)"
| "WaitForTask E (PollTick answer # ps) =
     (case ListTasks E answer of
        Inl err \<Rightarrow> Some (Inl err)
      | Inr [] \<Rightarrow> WaitForTask E ps
      | Inr (t # ts) \<Rightarrow> if terminal t then Some (Inr t) else WaitForTask E ps)"

fun WaitForServiceTasks :: "errdefs \<Rightarrow> poll list \<Rightarrow> (go_error + domain_task list) option" where
  "WaitForServiceTasks E [] = None"
| "WaitForServiceTasks E (PollOver # ps) = Some (Inl domain_ErrTimeout)"
| "WaitForServiceTasks E (PollTick answer # ps) =
     (case ListTasks E answer of
        Inl err \<Rightarrow> Some (Inl err)
      | Inr tasks \<Rightarrow>
          if tasks = [] then WaitForServiceTasks E ps
          else if list_all terminal tasks then Some (Inr tasks) else WaitForServiceTasks E ps)"

section \<open>One direction undoes the other\<close>

text \<open>What the conversions keep of a specification of the SDK: the fields they name, at most one of the two modes of services, and an empty
  container where there is none.\<close>

definition kept_mount :: "SwarmMount \<Rightarrow> SwarmMount" where "kept_mount m = m\<lparr>xm_Others := []\<rparr>"
definition kept_resources :: "SwarmResources \<Rightarrow> SwarmResources" where "kept_resources r = r\<lparr>xr_Others := []\<rparr>"
definition kept_network :: "SwarmNetwork \<Rightarrow> SwarmNetwork" where "kept_network n = n\<lparr>xn_Others := []\<rparr>"
definition kept_placement :: "SwarmPlacement \<Rightarrow> SwarmPlacement" where "kept_placement p = p\<lparr>xl_Others := []\<rparr>"

definition kept_container :: "SwarmContainerSpec \<Rightarrow> SwarmContainerSpec" where
  "kept_container c = c\<lparr>xc_Mounts := map kept_mount (xc_Mounts c), xc_Others := []\<rparr>"

definition no_container :: SwarmContainerSpec where
  "no_container = \<lparr>xc_Image = [], xc_Labels = Map.empty, xc_Command = [], xc_Args = [], xc_Hostname = [], xc_Env = [], xc_Dir = [],
     xc_User = [], xc_Mounts = [], xc_TTY = False, xc_OpenStdin = False, xc_Others = []\<rparr>"

definition kept_requirements :: "SwarmRequirements \<Rightarrow> SwarmRequirements" where
  "kept_requirements r = r\<lparr>xq_Limits := map_option kept_resources (xq_Limits r),
     xq_Reservations := map_option kept_resources (xq_Reservations r), xq_Others := []\<rparr>"

definition kept_task :: "SwarmTaskSpec \<Rightarrow> SwarmTaskSpec" where
  "kept_task t = t\<lparr>
     xt_ContainerSpec := Some (case xt_ContainerSpec t of Some c \<Rightarrow> kept_container c | None \<Rightarrow> no_container),
     xt_Resources := map_option kept_requirements (xt_Resources t), xt_Placement := map_option kept_placement (xt_Placement t),
     xt_Networks := map kept_network (xt_Networks t), xt_Others := []\<rparr>"

definition kept_mode :: "SwarmMode \<Rightarrow> SwarmMode" where
  "kept_mode m = m\<lparr>xk_Global := (xk_Replicated m = None \<and> xk_Global m), xk_ReplicatedJob := None, xk_GlobalJob := False\<rparr>"

definition kept_spec :: "SwarmServiceSpec \<Rightarrow> SwarmServiceSpec" where
  "kept_spec x = x\<lparr>xs_TaskTemplate := kept_task (xs_TaskTemplate x), xs_Mode := kept_mode (xs_Mode x),
     xs_UpdateConfig := None, xs_RollbackConfig := None, xs_Others := []\<rparr>"

named_theorems conversions

lemmas [conversions] = to_mount_def from_mount_def to_resources_def from_resources_def to_network_def from_network_def
  to_restart_policy_def from_restart_policy_def to_driver_def from_driver_def to_port_def from_port_def
  kept_mount_def kept_resources_def kept_network_def

lemma leaf_inverse [simp]:
  "from_mount (to_mount m) = m" "to_mount (from_mount m') = kept_mount m'"
  "from_resources (to_resources r) = r" "to_resources (from_resources r') = kept_resources r'"
  "from_network (to_network n) = n" "to_network (from_network n') = kept_network n'"
  "from_restart_policy (to_restart_policy p) = p" "to_restart_policy (from_restart_policy p') = p'"
  "from_driver (to_driver l) = l" "to_driver (from_driver l') = l'"
  "from_port (to_port o1) = o1" "to_port (from_port o2) = o2"
  by (simp_all add: conversions)

lemma leaf_comp [simp]:
  "from_mount \<circ> to_mount = id" "to_mount \<circ> from_mount = kept_mount" "from_resources \<circ> to_resources = id"
  "to_resources \<circ> from_resources = kept_resources" "from_network \<circ> to_network = id" "to_network \<circ> from_network = kept_network"
  "from_restart_policy \<circ> to_restart_policy = id" "to_restart_policy \<circ> from_restart_policy = id" "from_driver \<circ> to_driver = id"
  "to_driver \<circ> from_driver = id" "from_port \<circ> to_port = id" "to_port \<circ> from_port = id"
  by (simp_all add: fun_eq_iff)

lemma node_inverse [simp]:
  "from_container_spec (to_container_spec c) = c" "to_container_spec (from_container_spec c') = kept_container c'"
  "to_container_spec empty_container_spec = no_container"
  "from_requirements (to_requirements r) = r" "to_requirements (from_requirements r') = kept_requirements r'"
  "from_endpoint (to_endpoint e) = e" "to_endpoint (from_endpoint e') = e'"
  by (simp_all add: to_container_spec_def from_container_spec_def to_requirements_def from_requirements_def to_endpoint_def
      from_endpoint_def kept_container_def kept_requirements_def no_container_def empty_container_spec_def option.map_comp option.map_id)

lemma placement_inverse [simp]: "from_placement (to_placement p) = p" "to_placement (from_placement p') = kept_placement p'"
proof -
  have "\<lparr>pp_Spread = map_option (\<lambda>d. \<lparr>so_SpreadDescriptor = d\<rparr>) (map_option so_SpreadDescriptor (pp_Spread x))\<rparr> = x" for x
    by (cases x; cases "pp_Spread x") simp_all
  then show "from_placement (to_placement p) = p" by (simp add: to_placement_def from_placement_def o_def)
  have "map_option so_SpreadDescriptor (map_option (\<lambda>d. \<lparr>so_SpreadDescriptor = d\<rparr>) x) = x" for x
    by (cases x) simp_all
  then show "to_placement (from_placement p') = kept_placement p'"
    by (simp add: to_placement_def from_placement_def kept_placement_def o_def)
qed

lemma node_comp [simp]:
  "from_requirements \<circ> to_requirements = id" "to_requirements \<circ> from_requirements = kept_requirements" "from_endpoint \<circ> to_endpoint = id"
  "to_endpoint \<circ> from_endpoint = id" "from_placement \<circ> to_placement = id" "to_placement \<circ> from_placement = kept_placement"
  by (simp_all add: fun_eq_iff)

text \<open>The normal form: all networks at the task, and one mode.\<close>

definition normal_mode :: "ServiceMode \<Rightarrow> ServiceMode" where
  "normal_mode m = (if sm_Replicated m = None then m else m\<lparr>sm_Global := False\<rparr>)"

definition normal_spec :: "ServiceSpec \<Rightarrow> ServiceSpec" where
  "normal_spec spec =
     spec\<lparr>sp_TaskTemplate := (sp_TaskTemplate spec)\<lparr>ts_Networks := ts_Networks (sp_TaskTemplate spec) @ sp_Networks spec\<rparr>,
          sp_Networks := [], sp_Mode := normal_mode (sp_Mode spec)\<rparr>"

lemma mode_inverse: "from_mode (to_mode m) = normal_mode m" "to_mode (normal_mode m) = to_mode m"
  by (cases m; simp add: to_mode_def from_mode_def normal_mode_def split: option.split)+

lemma task_inverse: "convertTaskTemplateFromSwarm (convertTaskTemplateToSwarm t) = t"
  by (simp add: convertTaskTemplateFromSwarm_def convertTaskTemplateToSwarm_def option.map_comp option.map_id)

lemma task_kept: "convertTaskTemplateToSwarm (convertTaskTemplateFromSwarm t) = kept_task t"
  by (cases t) (simp add: convertTaskTemplateFromSwarm_def convertTaskTemplateToSwarm_def kept_task_def option.map_comp option.map_id
      split: option.split)

lemma mode_kept: "to_mode (from_mode m) = kept_mode m"
  by (cases m) (auto simp: to_mode_def from_mode_def kept_mode_def split: option.split)

lemma from_to_spec: "sv_Spec (convertFromSwarmService (svc\<lparr>xv_Spec := convertToSwarmSpec spec\<rparr>)) = normal_spec spec"
proof -
  have "convertTaskTemplateFromSwarm (t\<lparr>xt_Networks := ns\<rparr>) = (convertTaskTemplateFromSwarm t)\<lparr>ts_Networks := map from_network ns\<rparr>" for t ns
    by (simp add: convertTaskTemplateFromSwarm_def)
  moreover have "map from_network (xt_Networks (convertTaskTemplateToSwarm t)) = ts_Networks t" for t
    by (simp add: convertTaskTemplateToSwarm_def)
  ultimately show ?thesis
    by (simp add: convertFromSwarmService_def convertToSwarmSpec_def normal_spec_def Let_def task_inverse mode_inverse
        option.map_comp option.map_id)
qed

lemma to_normal_spec: "convertToSwarmSpec (normal_spec spec) = convertToSwarmSpec spec"
  by (simp add: convertToSwarmSpec_def normal_spec_def Let_def convertTaskTemplateToSwarm_def mode_inverse)

lemma service_kept: "convertToSwarmSpec (sv_Spec (convertFromSwarmService svc)) = kept_spec (xv_Spec svc)"
  by (cases "xv_Spec svc") (simp add: convertFromSwarmService_def convertToSwarmSpec_def kept_spec_def Let_def task_kept mode_kept
      option.map_comp option.map_id)

section \<open>Properties\<close>

text \<open>C38 (service_roundtrip): a service that was created from a specification is read back as this specification with its networks
  at the task and at most one mode, which is sent as the same service again. A service of the daemon that is read and converted back
  keeps every field the conversions name, and loses everything else: all other fields of the types of the SDK (secrets, configurations, health
  checks, options of mounts, networks and tasks), the update and rollback configurations, the modes of jobs; a task without container
  gets an empty one.\<close>

theorem service_roundtrip:
  "sv_Spec (convertFromSwarmService (svc\<lparr>xv_Spec := convertToSwarmSpec spec\<rparr>)) = normal_spec spec \<and>
   convertToSwarmSpec (normal_spec spec) = convertToSwarmSpec spec \<and>
   convertToSwarmSpec (sv_Spec (convertFromSwarmService svc)) = kept_spec (xv_Spec svc)"
  by (intro conjI from_to_spec to_normal_spec service_kept)

text \<open>(secrets_lost): the secrets of a service do not survive: read and converted back, its specification is another one.\<close>

theorem secrets_lost:
  assumes "xt_ContainerSpec (xs_TaskTemplate (xv_Spec svc)) = Some c" "xc_Others c \<noteq> []"
  shows "convertToSwarmSpec (sv_Spec (convertFromSwarmService svc)) \<noteq> xv_Spec svc"
proof
  assume "convertToSwarmSpec (sv_Spec (convertFromSwarmService svc)) = xv_Spec svc"
  then have "map_option xc_Others (xt_ContainerSpec (xs_TaskTemplate (kept_spec (xv_Spec svc)))) = Some (xc_Others c)"
    using service_kept assms(1) by simp
  then show False using assms by (simp add: kept_spec_def kept_task_def kept_container_def)
qed

text \<open>A poll that decides nothing.\<close>

fun undecided :: "poll \<Rightarrow> bool" where
  "undecided PollOver = False"
| "undecided (PollTick (Inl err)) = False"
| "undecided (PollTick (Inr tasks)) = (\<not> (tasks \<noteq> [] \<and> list_all terminal (map convertFromSwarmTask tasks)))"

text \<open>(service_tasks_done): the wait for a service returns at its first decisive poll, and tasks only when there are some
  and all of them are in a final state.\<close>

theorem service_tasks_done:
  "WaitForServiceTasks E (filter undecided ps @ PollTick (Inr tasks) # qs) =
     (if undecided (PollTick (Inr tasks)) then WaitForServiceTasks E qs else Some (Inr (map convertFromSwarmTask tasks)))"
proof -
  have "WaitForServiceTasks E (p # ps) = WaitForServiceTasks E ps" if "undecided p" for p ps
    using that by (cases p rule: undecided.cases) (auto simp: ListTasks_def)
  then have "WaitForServiceTasks E (filter undecided ps @ rs) = WaitForServiceTasks E rs" for rs
    by (induction ps) simp_all
  then show ?thesis by (simp add: ListTasks_def)
qed

end
