(* ===== verification/PerfMetrics.thy ===== *)
theory PerfMetrics
  imports Runs "HOL-Library.AList"
begin

text \<open>
  The performance metrics (\<^verbatim>\<open>src/core/performance_metrics.go\<close>): counters of Docker operations, of jobs, of retries and of
  containers, the statistics of durations, and the number of concurrent jobs with its peak, which several goroutines
  update without a lock. Counters and durations are integers; rates are rational numbers.
\<close>

section \<open>State\<close>

record LatencyTracker =
  lt_Count :: int
  lt_Total :: duration
  lt_Min :: duration
  lt_Max :: duration
  lt_Average :: duration

record JobMetrics =
  jm_ExecutionCount :: int
  jm_TotalDuration :: duration
  jm_AverageDuration :: duration
  jm_MinDuration :: duration
  jm_MaxDuration :: duration
  jm_SuccessCount :: int
  jm_FailureCount :: int
  jm_LastExecution :: "int option"
  jm_LastSuccess :: "int option"
  jm_LastFailure :: "int option"

record RetryMetrics =
  rm_TotalAttempts :: int
  rm_SuccessfulRetries :: int
  rm_FailedRetries :: int
  rm_LastRetry :: "int option"

text \<open>A custom metric: a flag, the reasons for skipped jobs, or any other value.\<close>

datatype custom_metric = FlagMetric bool | SkipReasons "(string \<times> int) list" | OtherMetric string

record PerformanceMetrics =
  pm_dockerOpsCount :: "(string \<times> int) list"
  pm_dockerErrorsCount :: "(string \<times> int) list"
  pm_dockerLatencies :: "(string \<times> LatencyTracker) list"
  pm_jobExecutions :: "(string \<times> JobMetrics) list"
  pm_totalJobsScheduled :: int
  pm_totalJobsExecuted :: int
  pm_totalJobsSkipped :: int
  pm_totalJobsFailed :: int
  pm_maxConcurrentJobs :: int
  pm_currentJobs :: int
  pm_peakMemoryUsage :: int
  pm_currentMemoryUsage :: int
  pm_bufferPoolStats :: "(string \<times> custom_metric) list"
  pm_customMetrics :: "(string \<times> custom_metric) list"
  pm_retryMetrics :: "(string \<times> RetryMetrics) list"
  pm_containerEvents :: int
  pm_containerMonitorFallbacks :: int
  pm_containerWaitDurations :: "rat list"
  pm_startTime :: int

definition NewPerformanceMetrics :: "int \<Rightarrow> PerformanceMetrics" where
  "NewPerformanceMetrics now =
     \<lparr>pm_dockerOpsCount = [], pm_dockerErrorsCount = [], pm_dockerLatencies = [], pm_jobExecutions = [],
      pm_totalJobsScheduled = 0, pm_totalJobsExecuted = 0, pm_totalJobsSkipped = 0, pm_totalJobsFailed = 0,
      pm_maxConcurrentJobs = 0, pm_currentJobs = 0, pm_peakMemoryUsage = 0, pm_currentMemoryUsage = 0,
      pm_bufferPoolStats = [], pm_customMetrics = [], pm_retryMetrics = [], pm_containerEvents = 0,
      pm_containerMonitorFallbacks = 0, pm_containerWaitDurations = [], pm_startTime = now\<rparr>"

text \<open>Reading a key that a map does not have gives zero.\<close>

definition count_of :: "(string \<times> int) list \<Rightarrow> string \<Rightarrow> int" where
  "count_of m k = (case map_of m k of None \<Rightarrow> 0 | Some n \<Rightarrow> n)"

definition bump :: "string \<Rightarrow> (string \<times> int) list \<Rightarrow> (string \<times> int) list" where
  "bump k m = AList.update k (count_of m k + 1) m"

text \<open>Division of Go truncates; the counts are positive.\<close>

definition average :: "duration \<Rightarrow> int \<Rightarrow> duration" where
  "average t n = (if t < 0 then - ((- t) div n) else t div n)"

section \<open>Recording\<close>

definition empty_retry :: RetryMetrics where
  "empty_retry = \<lparr>rm_TotalAttempts = 0, rm_SuccessfulRetries = 0, rm_FailedRetries = 0, rm_LastRetry = None\<rparr>"

definition pm_RecordJobRetry :: "string \<Rightarrow> bool \<Rightarrow> int \<Rightarrow> PerformanceMetrics \<Rightarrow> PerformanceMetrics" where
  "pm_RecordJobRetry job success now pm =
     (let m = (case map_of (pm_retryMetrics pm) job of Some m \<Rightarrow> m | None \<Rightarrow> empty_retry);
          m' = \<lparr>rm_TotalAttempts = rm_TotalAttempts m + 1,
                rm_SuccessfulRetries = rm_SuccessfulRetries m + (if success then 1 else 0),
                rm_FailedRetries = rm_FailedRetries m + (if success then 0 else 1), rm_LastRetry = Some now\<rparr>
      in pm\<lparr>pm_retryMetrics := AList.update job m' (pm_retryMetrics pm)\<rparr>)"

definition RecordContainerEvent :: "PerformanceMetrics \<Rightarrow> PerformanceMetrics" where
  "RecordContainerEvent pm = pm\<lparr>pm_containerEvents := pm_containerEvents pm + 1\<rparr>"

definition RecordContainerMonitorFallback :: "PerformanceMetrics \<Rightarrow> PerformanceMetrics" where
  "RecordContainerMonitorFallback pm = pm\<lparr>pm_containerMonitorFallbacks := pm_containerMonitorFallbacks pm + 1\<rparr>"

definition RecordCustomMetric :: "string \<Rightarrow> custom_metric \<Rightarrow> PerformanceMetrics \<Rightarrow> PerformanceMetrics" where
  "RecordCustomMetric name v pm = pm\<lparr>pm_customMetrics := AList.update name v (pm_customMetrics pm)\<rparr>"

definition RecordContainerMonitorMethod :: "bool \<Rightarrow> PerformanceMetrics \<Rightarrow> PerformanceMetrics" where
  "RecordContainerMonitorMethod usingEvents = RecordCustomMetric ''container_monitor_using_events'' (FlagMetric usingEvents)"

definition RecordContainerWaitDuration :: "rat \<Rightarrow> PerformanceMetrics \<Rightarrow> PerformanceMetrics" where
  "RecordContainerWaitDuration seconds pm =
     (let ds = pm_containerWaitDurations pm @ [seconds]
      in pm\<lparr>pm_containerWaitDurations := (if 1000 < length ds then drop (length ds - 1000) ds else ds)\<rparr>)"

definition RecordDockerOperation :: "string \<Rightarrow> PerformanceMetrics \<Rightarrow> PerformanceMetrics" where
  "RecordDockerOperation op pm = pm\<lparr>pm_dockerOpsCount := bump op (pm_dockerOpsCount pm)\<rparr>"

definition RecordDockerError :: "string \<Rightarrow> PerformanceMetrics \<Rightarrow> PerformanceMetrics" where
  "RecordDockerError op pm = pm\<lparr>pm_dockerErrorsCount := bump op (pm_dockerErrorsCount pm)\<rparr>"

definition track :: "duration \<Rightarrow> LatencyTracker option \<Rightarrow> LatencyTracker" where
  "track d found =
     (let t = (case found of Some t \<Rightarrow> t
               | None \<Rightarrow> \<lparr>lt_Count = 0, lt_Total = 0, lt_Min = d, lt_Max = d, lt_Average = 0\<rparr>)
      in \<lparr>lt_Count = lt_Count t + 1, lt_Total = lt_Total t + d,
          lt_Min = (if d < lt_Min t \<or> lt_Min t = 0 then d else lt_Min t),
          lt_Max = (if lt_Max t < d then d else lt_Max t),
          lt_Average = average (lt_Total t + d) (lt_Count t + 1)\<rparr>)"

definition RecordDockerLatency :: "string \<Rightarrow> duration \<Rightarrow> PerformanceMetrics \<Rightarrow> PerformanceMetrics" where
  "RecordDockerLatency op d pm =
     pm\<lparr>pm_dockerLatencies := AList.update op (track d (map_of (pm_dockerLatencies pm) op)) (pm_dockerLatencies pm)\<rparr>"

definition job_track :: "duration \<Rightarrow> bool \<Rightarrow> int \<Rightarrow> JobMetrics option \<Rightarrow> JobMetrics" where
  "job_track d success now found =
     (let m = (case found of Some m \<Rightarrow> m
               | None \<Rightarrow> \<lparr>jm_ExecutionCount = 0, jm_TotalDuration = 0, jm_AverageDuration = 0, jm_MinDuration = d,
                          jm_MaxDuration = d, jm_SuccessCount = 0, jm_FailureCount = 0, jm_LastExecution = None,
                          jm_LastSuccess = None, jm_LastFailure = None\<rparr>)
      in \<lparr>jm_ExecutionCount = jm_ExecutionCount m + 1, jm_TotalDuration = jm_TotalDuration m + d,
          jm_AverageDuration = average (jm_TotalDuration m + d) (jm_ExecutionCount m + 1),
          jm_MinDuration = (if d < jm_MinDuration m \<or> jm_MinDuration m = 0 then d else jm_MinDuration m),
          jm_MaxDuration = (if jm_MaxDuration m < d then d else jm_MaxDuration m),
          jm_SuccessCount = jm_SuccessCount m + (if success then 1 else 0),
          jm_FailureCount = jm_FailureCount m + (if success then 0 else 1), jm_LastExecution = Some now,
          jm_LastSuccess = (if success then Some now else jm_LastSuccess m),
          jm_LastFailure = (if success then jm_LastFailure m else Some now)\<rparr>)"

definition RecordJobExecution :: "string \<Rightarrow> duration \<Rightarrow> bool \<Rightarrow> int \<Rightarrow> PerformanceMetrics \<Rightarrow> PerformanceMetrics" where
  "RecordJobExecution job d success now pm =
     pm\<lparr>pm_totalJobsExecuted := pm_totalJobsExecuted pm + 1,
        pm_totalJobsFailed := pm_totalJobsFailed pm + (if success then 0 else 1),
        pm_jobExecutions := AList.update job (job_track d success now (map_of (pm_jobExecutions pm) job)) (pm_jobExecutions pm)\<rparr>"

definition RecordJobScheduled :: "PerformanceMetrics \<Rightarrow> PerformanceMetrics" where
  "RecordJobScheduled pm = pm\<lparr>pm_totalJobsScheduled := pm_totalJobsScheduled pm + 1\<rparr>"

definition RecordJobSkipped :: "string \<Rightarrow> PerformanceMetrics \<Rightarrow> PerformanceMetrics" where
  "RecordJobSkipped reason pm =
     (let pm1 = pm\<lparr>pm_totalJobsSkipped := pm_totalJobsSkipped pm + 1\<rparr>;
          known = (case map_of (pm_customMetrics pm1) ''job_skip_reasons'' of None \<Rightarrow> SkipReasons [] | Some v \<Rightarrow> v)
      in case known of
           SkipReasons m \<Rightarrow> RecordCustomMetric ''job_skip_reasons'' (SkipReasons (bump reason m)) pm1
         | _ \<Rightarrow> pm1)"

definition RecordConcurrentJobs :: "int \<Rightarrow> PerformanceMetrics \<Rightarrow> PerformanceMetrics" where
  "RecordConcurrentJobs n pm = pm\<lparr>pm_currentJobs := n, pm_maxConcurrentJobs := max (pm_maxConcurrentJobs pm) n\<rparr>"

definition RecordMemoryUsage :: "int \<Rightarrow> PerformanceMetrics \<Rightarrow> PerformanceMetrics" where
  "RecordMemoryUsage bytes pm = pm\<lparr>pm_currentMemoryUsage := bytes, pm_peakMemoryUsage := max (pm_peakMemoryUsage pm) bytes\<rparr>"

definition RecordBufferPoolStats :: "(string \<times> custom_metric) list \<Rightarrow> PerformanceMetrics \<Rightarrow> PerformanceMetrics" where
  "RecordBufferPoolStats stats pm = pm\<lparr>pm_bufferPoolStats := stats\<rparr>"

text \<open>One goroutine at a time; the interleaved start is in the section on concurrent jobs.\<close>

definition RecordJobStart :: "PerformanceMetrics \<Rightarrow> PerformanceMetrics" where
  "RecordJobStart pm = RecordConcurrentJobs (pm_currentJobs pm + 1) pm"

definition RecordJobComplete :: "string \<Rightarrow> duration \<Rightarrow> bool \<Rightarrow> int \<Rightarrow> PerformanceMetrics \<Rightarrow> PerformanceMetrics" where
  "RecordJobComplete job d panicked now pm =
     (let pm1 = RecordJobExecution job d (\<not> panicked) now pm in pm1\<lparr>pm_currentJobs := pm_currentJobs pm1 - 1\<rparr>)"

definition pm_Reset :: "int \<Rightarrow> PerformanceMetrics \<Rightarrow> PerformanceMetrics" where
  "pm_Reset now pm = NewPerformanceMetrics now"

section \<open>Reading\<close>

definition rate :: "int \<Rightarrow> int \<Rightarrow> rat" where
  "rate part whole = (if 0 < whole then of_int part / of_int whole * 100 else 0)"

record docker_metrics =
  md_total_operations :: int
  md_total_errors :: int
  md_error_rate_percent :: rat
  md_operations_by_type :: "(string \<times> int) list"
  md_errors_by_type :: "(string \<times> int) list"
  md_latencies :: "(string \<times> LatencyTracker) list"

definition GetDockerMetrics :: "PerformanceMetrics \<Rightarrow> docker_metrics" where
  "GetDockerMetrics pm =
     (let totalOps = sum_list (map snd (pm_dockerOpsCount pm)); totalErrors = sum_list (map snd (pm_dockerErrorsCount pm))
      in \<lparr>md_total_operations = totalOps, md_total_errors = totalErrors, md_error_rate_percent = rate totalErrors totalOps,
          md_operations_by_type = pm_dockerOpsCount pm, md_errors_by_type = pm_dockerErrorsCount pm,
          md_latencies = pm_dockerLatencies pm\<rparr>)"

record job_metrics =
  mj_total_scheduled :: int
  mj_total_executed :: int
  mj_total_skipped :: int
  mj_total_failed :: int
  mj_success_rate_percent :: rat
  mj_job_details :: "(string \<times> JobMetrics \<times> rat) list"

definition GetJobMetrics :: "PerformanceMetrics \<Rightarrow> job_metrics" where
  "GetJobMetrics pm =
     \<lparr>mj_total_scheduled = pm_totalJobsScheduled pm, mj_total_executed = pm_totalJobsExecuted pm,
      mj_total_skipped = pm_totalJobsSkipped pm, mj_total_failed = pm_totalJobsFailed pm,
      mj_success_rate_percent = rate (pm_totalJobsExecuted pm - pm_totalJobsFailed pm) (pm_totalJobsExecuted pm),
      mj_job_details = map (\<lambda>(job, m). (job, m, rate (jm_SuccessCount m) (jm_ExecutionCount m))) (pm_jobExecutions pm)\<rparr>"

definition getRetryMetrics :: "PerformanceMetrics \<Rightarrow> (string \<times> RetryMetrics \<times> rat) list" where
  "getRetryMetrics pm =
     map (\<lambda>(job, m). (job, m, rate (rm_SuccessfulRetries m) (rm_TotalAttempts m))) (pm_retryMetrics pm)"

definition avg_wait_duration :: "PerformanceMetrics \<Rightarrow> rat" where
  "avg_wait_duration pm =
     (let ds = pm_containerWaitDurations pm in if ds \<noteq> [] then sum_list ds / of_nat (length ds) else 0)"

section \<open>The statistics of a job\<close>

text \<open>What the records of a job amount to: a fold over its executions.\<close>

definition job_history :: "(duration \<times> bool \<times> int) list \<Rightarrow> JobMetrics option" where
  "job_history xs = foldl (\<lambda>m (d, ok, now). Some (job_track d ok now m)) None xs"

lemma job_history_snoc: "job_history (xs @ [(d, ok, now)]) = Some (job_track d ok now (job_history xs))"
  by (simp add: job_history_def)

lemma jobs_recorded:
  "map_of (pm_jobExecutions (foldl (\<lambda>pm (d, ok, now). RecordJobExecution job d ok now pm) pm xs)) job =
     foldl (\<lambda>m (d, ok, now). Some (job_track d ok now m)) (map_of (pm_jobExecutions pm) job) xs"
  by (induction xs arbitrary: pm) (auto simp: RecordJobExecution_def update_conv' split: prod.splits)

definition oks :: "(duration \<times> bool \<times> int) list \<Rightarrow> nat" where
  "oks xs = length (filter (\<lambda>(d, ok, now). ok) xs)"

lemma job_history_facts:
  assumes "xs \<noteq> []" "\<forall>x \<in> set xs. 0 < fst x"
  shows "\<exists>m. job_history xs = Some m \<and> jm_ExecutionCount m = int (length xs) \<and> jm_TotalDuration m = sum_list (map fst xs) \<and>
    jm_SuccessCount m = int (oks xs) \<and> jm_FailureCount m = int (length xs) - int (oks xs) \<and>
    jm_MinDuration m = Min (fst ` set xs) \<and> jm_MaxDuration m = Max (fst ` set xs) \<and>
    jm_AverageDuration m = sum_list (map fst xs) div int (length xs)"
  using assms
proof (induction xs rule: rev_induct)
  case (snoc x xs)
  obtain d ok now where x: "x = (d, ok, now)" using prod_cases3 by blast
  have pos: "0 < d" "\<forall>x \<in> set xs. 0 < fst x" using snoc.prems(2) x by simp_all
  have "0 \<le> sum_list (map fst xs)" using pos(2) by (induction xs) auto
  then have avg: "average (d + sum_list (map fst xs)) n = (d + sum_list (map fst xs)) div n" for n
    using pos(1) by (simp add: average_def)
  show ?case
  proof (cases "xs = []")
    case True
    then show ?thesis using pos(1) by (simp add: x job_history_def job_track_def oks_def average_def)
  next
    case False
    then obtain m where m: "job_history xs = Some m" "jm_ExecutionCount m = int (length xs)" "jm_TotalDuration m = sum_list (map fst xs)"
        "jm_SuccessCount m = int (oks xs)" "jm_FailureCount m = int (length xs) - int (oks xs)"
        "jm_MinDuration m = Min (fst ` set xs)" "jm_MaxDuration m = Max (fst ` set xs)"
      using snoc.IH pos(2) by auto
    have fin: "finite (fst ` set xs)" "fst ` set xs \<noteq> {}" using False by simp_all
    have "jm_MinDuration m \<noteq> 0" using Min_in [OF fin] pos(2) m(6) by force
    moreover have "Min (fst ` set (xs @ [x])) = min d (Min (fst ` set xs))" "Max (fst ` set (xs @ [x])) = max d (Max (fst ` set xs))"
      using fin by (simp_all add: x)
    ultimately show ?thesis
      using m by (simp add: x job_history_snoc [of xs d ok now, unfolded m(1)] job_track_def oks_def avg min_def max_def add.commute)
  qed
qed simp

section \<open>Concurrent jobs\<close>

text \<open>Where a goroutine is between the start and the completion of its job: before the addition to \<^verbatim>\<open>currentJobs\<close>, before the
  store of the count it got, at the loop over the peak (\<open>Swapping\<close> with the peak it has read), running, and done.\<close>

datatype start_pc = Counting | Storing int | Peaking int | Swapping int int | Running int | Completed int

record concurrent =
  con_current :: int
  con_max :: int
  con_pc :: "nat \<Rightarrow> start_pc"

definition con_begin :: concurrent where
  "con_begin = \<lparr>con_current = 0, con_max = 0, con_pc = (\<lambda>_. Counting)\<rparr>"

datatype con_action = AddCurrent nat | StoreCurrent nat | LoadPeak nat | SwapPeak nat | CompleteJob nat

inductive con_step :: "concurrent \<Rightarrow> con_action \<Rightarrow> concurrent \<Rightarrow> bool" where
  add: "con_pc c i = Counting \<Longrightarrow>
    con_step c (AddCurrent i) (c\<lparr>con_current := con_current c + 1, con_pc := (con_pc c)(i := Storing (con_current c + 1))\<rparr>)"
| store: "con_pc c i = Storing n \<Longrightarrow>
    con_step c (StoreCurrent i) (c\<lparr>con_current := n, con_pc := (con_pc c)(i := Peaking n)\<rparr>)"
| load: "con_pc c i = Peaking n \<Longrightarrow>
    con_step c (LoadPeak i)
      (c\<lparr>con_pc := (con_pc c)(i := if n \<le> con_max c then Running n else Swapping n (con_max c))\<rparr>)"
| swap: "con_pc c i = Swapping n peak \<Longrightarrow>
    con_step c (SwapPeak i)
      (if con_max c = peak then c\<lparr>con_max := n, con_pc := (con_pc c)(i := Running n)\<rparr>
       else c\<lparr>con_pc := (con_pc c)(i := Peaking n)\<rparr>)"
| complete: "con_pc c i = Running n \<Longrightarrow>
    con_step c (CompleteJob i) (c\<lparr>con_current := con_current c - 1, con_pc := (con_pc c)(i := Completed n)\<rparr>)"

inductive_cases con_stepE: "con_step c a c'"

text \<open>The peak is a count that some started goroutine got, and at least every one of them.\<close>

definition at_peak :: "concurrent \<Rightarrow> bool" where
  "at_peak c \<longleftrightarrow> con_max c = 0 \<or> (\<exists>i. con_pc c i \<in> {Running (con_max c), Completed (con_max c)})"

lemma at_peak_other:
  "at_peak c \<Longrightarrow> (\<And>n. con_pc c i \<notin> {Running n, Completed n}) \<Longrightarrow> con_max c' = con_max c \<Longrightarrow> con_pc c' = (con_pc c)(i := x) \<Longrightarrow> at_peak c'"
  unfolding at_peak_def by (metis fun_upd_other insert_iff empty_iff)

lemma at_peak_step: "con_step c a c' \<Longrightarrow> at_peak c \<Longrightarrow> at_peak c'"
proof (erule con_stepE)
  fix i n peak
  assume a: "at_peak c" "con_pc c i = Swapping n peak" "c' = (if con_max c = peak then c\<lparr>con_max := n, con_pc := (con_pc c)(i := Running n)\<rparr>
       else c\<lparr>con_pc := (con_pc c)(i := Peaking n)\<rparr>)"
  show "at_peak c'"
  proof (cases "con_max c = peak")
    case True
    then show ?thesis using a(3) by (auto simp: at_peak_def)
  next
    case False
    then show ?thesis using at_peak_other [of c i c' "Peaking n"] a by simp
  qed
next
  fix i n
  assume a: "at_peak c" "con_pc c i = Running n" "c' = c\<lparr>con_current := con_current c - 1, con_pc := (con_pc c)(i := Completed n)\<rparr>"
  then show "at_peak c'" unfolding at_peak_def by (metis (no_types, lifting) concurrent.select_convs(2,3) concurrent.surjective concurrent.update_convs(1,3) fun_upd_apply insert_iff start_pc.distinct(29) start_pc.inject(4) singletonD)
next
  fix i
  assume "at_peak c" "con_pc c i = Counting" "c' = c\<lparr>con_current := con_current c + 1, con_pc := (con_pc c)(i := Storing (con_current c + 1))\<rparr>"
  then show "at_peak c'" using at_peak_other [of c i c'] by simp
next
  fix i n
  assume "at_peak c" "con_pc c i = Storing n" "c' = c\<lparr>con_current := n, con_pc := (con_pc c)(i := Peaking n)\<rparr>"
  then show "at_peak c'" using at_peak_other [of c i c'] by simp
next
  fix i n
  assume "at_peak c" "con_pc c i = Peaking n" "c' = c\<lparr>con_pc := (con_pc c)(i := if n \<le> con_max c then Running n else Swapping n (con_max c))\<rparr>"
  then show "at_peak c'" using at_peak_other [of c i c'] by simp
qed

definition below_peak :: "concurrent \<Rightarrow> bool" where
  "below_peak c \<longleftrightarrow> 0 \<le> con_max c \<and> (\<forall>i n. con_pc c i \<in> {Running n, Completed n} \<longrightarrow> n \<le> con_max c) \<and>
     (\<forall>i n p. con_pc c i = Swapping n p \<longrightarrow> p < n \<and> 0 \<le> p)"

lemma below_peak_step: "con_step c a c' \<Longrightarrow> below_peak c \<Longrightarrow> below_peak c'"
  by (erule con_stepE) (force simp: below_peak_def split: if_splits)+

interpretation peak: transition con_step "\<lambda>c. at_peak c \<and> below_peak c"
  by unfold_locales (blast intro: at_peak_step below_peak_step)

section \<open>Properties\<close>

text \<open>(job_statistics): the statistics of a job are those of the list of its executions, in whatever state of the other
  metrics they were recorded: how many there were, how many succeeded, and the sum, the mean, the smallest and the
  largest of their durations, as long as these are positive.\<close>

theorem job_statistics:
  assumes "xs \<noteq> []" "\<forall>x \<in> set xs. 0 < fst x" "map_of (pm_jobExecutions pm) job = None"
  shows "\<exists>m. map_of (pm_jobExecutions (foldl (\<lambda>pm (d, ok, now). RecordJobExecution job d ok now pm) pm xs)) job = Some m \<and>
    jm_ExecutionCount m = int (length xs) \<and> jm_TotalDuration m = sum_list (map fst xs) \<and>
    jm_SuccessCount m = int (oks xs) \<and> jm_FailureCount m = int (length xs) - int (oks xs) \<and>
    jm_MinDuration m = Min (fst ` set xs) \<and> jm_MaxDuration m = Max (fst ` set xs) \<and>
    jm_AverageDuration m = sum_list (map fst xs) div int (length xs)"
  using job_history_facts [OF assms(1,2)] by (simp add: jobs_recorded assms(3) job_history_def)

theorem job_statistics_witness:
  "\<exists>m. map_of (pm_jobExecutions (foldl (\<lambda>pm (d, ok, now). RecordJobExecution ''j'' d ok now pm) (NewPerformanceMetrics 0)
      [(5, True, 1), (3, False, 2)])) ''j'' = Some m \<and> jm_MinDuration m = Min {5, 3} \<and> jm_FailureCount m = 1"
  using job_statistics [of "[(5, True, 1), (3, False, 2)]" "NewPerformanceMetrics 0" "''j''"]
  by (auto simp: NewPerformanceMetrics_def oks_def)

text \<open>(concurrent_peak): however the goroutines of starting jobs interleave, the recorded peak is at least the count every
  started job got and, unless no job has started, one of these counts.\<close>

theorem concurrent_peak:
  assumes "runs con_step con_begin as c"
  shows "(\<forall>i n. con_pc c i \<in> {Running n, Completed n} \<longrightarrow> n \<le> con_max c) \<and>
    (con_max c = 0 \<or> (\<exists>i. con_pc c i \<in> {Running (con_max c), Completed (con_max c)}))"
  using peak.ok_runs [OF assms] by (auto simp: con_begin_def at_peak_def below_peak_def)

text \<open>Two jobs start at once and complete.\<close>

definition two_jobs :: "con_action list" where
  "two_jobs = [AddCurrent 0, AddCurrent 1, StoreCurrent 1, StoreCurrent 0, LoadPeak 0, SwapPeak 0, LoadPeak 1, SwapPeak 1,
     CompleteJob 0, CompleteJob 1]"

lemma two_jobs_run:
  "runs con_step con_begin two_jobs
     \<lparr>con_current = -1, con_max = 2, con_pc = (\<lambda>_. Counting)(0 := Completed 1, 1 := Completed 2)\<rparr>"
proof -
  let ?c = "\<lambda>cur mx p q. \<lparr>con_current = cur, con_max = mx, con_pc = (\<lambda>_. Counting)(0 := p, 1 := q)\<rparr>"
  have n: "(\<lambda>_. x)(0 := p, Suc 0 := q, 0 := p') = (\<lambda>_. x)(0 := p', Suc 0 := q)" for x p q p' :: start_pc by auto
  have "con_step con_begin (AddCurrent 0) (?c 1 0 (Storing 1) Counting)"
    using con_step.add [of con_begin 0] by (simp add: con_begin_def fun_upd_twist [of 0 "Suc 0"] fun_upd_idem)
  moreover have "con_step (?c 1 0 (Storing 1) Counting) (AddCurrent 1) (?c 2 0 (Storing 1) (Storing 2))"
    using con_step.add [of "?c 1 0 (Storing 1) Counting" 1] by simp
  moreover have "con_step (?c 2 0 (Storing 1) (Storing 2)) (StoreCurrent 1) (?c 2 0 (Storing 1) (Peaking 2))"
    using con_step.store [of "?c 2 0 (Storing 1) (Storing 2)" 1 2] by simp
  moreover have "con_step (?c 2 0 (Storing 1) (Peaking 2)) (StoreCurrent 0) (?c 1 0 (Peaking 1) (Peaking 2))"
    using con_step.store [of "?c 2 0 (Storing 1) (Peaking 2)" 0 1] by (simp add: n)
  moreover have "con_step (?c 1 0 (Peaking 1) (Peaking 2)) (LoadPeak 0) (?c 1 0 (Swapping 1 0) (Peaking 2))"
    using con_step.load [of "?c 1 0 (Peaking 1) (Peaking 2)" 0 1] by (simp add: n)
  moreover have "con_step (?c 1 0 (Swapping 1 0) (Peaking 2)) (SwapPeak 0) (?c 1 1 (Running 1) (Peaking 2))"
    using con_step.swap [of "?c 1 0 (Swapping 1 0) (Peaking 2)" 0 1 0] by (simp add: n)
  moreover have "con_step (?c 1 1 (Running 1) (Peaking 2)) (LoadPeak 1) (?c 1 1 (Running 1) (Swapping 2 1))"
    using con_step.load [of "?c 1 1 (Running 1) (Peaking 2)" 1 2] by simp
  moreover have "con_step (?c 1 1 (Running 1) (Swapping 2 1)) (SwapPeak 1) (?c 1 2 (Running 1) (Running 2))"
    using con_step.swap [of "?c 1 1 (Running 1) (Swapping 2 1)" 1 2 1] by simp
  moreover have "con_step (?c 1 2 (Running 1) (Running 2)) (CompleteJob 0) (?c 0 2 (Completed 1) (Running 2))"
    using con_step.complete [of "?c 1 2 (Running 1) (Running 2)" 0 1] by (simp add: n)
  moreover have "con_step (?c 0 2 (Completed 1) (Running 2)) (CompleteJob 1) (?c (-1) 2 (Completed 1) (Completed 2))"
    using con_step.complete [of "?c 0 2 (Completed 1) (Running 2)" 1 2] by simp
  ultimately show ?thesis unfolding two_jobs_def by (intro runs_step runs_one)
qed

theorem concurrent_peak_witness:
  "\<forall>i n. con_pc \<lparr>con_current = -1, con_max = 2, con_pc = (\<lambda>_. Counting)(0 := Completed 1, 1 := Completed 2)\<rparr> i
      \<in> {Running n, Completed n} \<longrightarrow> n \<le> 2"
  using concurrent_peak [OF two_jobs_run] by simp

text \<open>(concurrent_jobs_drift): \<^verbatim>\<open>RecordJobStart\<close> adds to the counter and then stores the count it got again. When two jobs
  start at once the older count can be stored last, and after both have completed the number of running jobs is -1.\<close>

theorem concurrent_jobs_drift:
  "\<exists>c. runs con_step con_begin two_jobs c \<and> con_pc c 0 = Completed 1 \<and> con_pc c 1 = Completed 2 \<and> con_current c = -1"
  by (intro exI [of _ "\<lparr>con_current = -1, con_max = 2, con_pc = (\<lambda>_. Counting)(0 := Completed 1, 1 := Completed 2)\<rparr>"])
    (simp add: two_jobs_run [simplified])

end
