(* ===== verification/History.thy ===== *)
theory History
  imports Execution Sanitizer ConfigMerge "HOL-Library.AList" "HOL-Library.Multiset"
begin

text \<open>
  Files of executions: what the save middleware writes (\<^verbatim>\<open>src/middlewares/save.go\<close>), the names it writes to
  (\<^verbatim>\<open>src/middlewares/sanitize.go\<close>), and how the histories of jobs are restored from them at start-up
  (\<^verbatim>\<open>src/middlewares/restore.go\<close>). A directory is a list of files in any order; of a JSON file the model keeps the fields
  that are read back, and the layout of the date in a name is an argument.
\<close>

section \<open>Names\<close>

text \<open>\<^verbatim>\<open>strings.Replacer\<close> with the pairs of \<^verbatim>\<open>NewPathSanitizer\<close>: from left to right, two dots at once.\<close>

definition unsafe_chars :: "char set" where
  "unsafe_chars = {CHR ''/'', CHR 0x5C, CHR ''~'', CHR ''$'', CHR 0x60, CHR ''|'', CHR ''<'', CHR ''>'', CHR '':'', CHR 0x22,
     CHR ''?'', CHR ''*'', CHR 0x00}"

fun replacer :: "string \<Rightarrow> string" where
  "replacer [] = []"
| "replacer [c] = [if c \<in> unsafe_chars then CHR ''_'' else c]"
| "replacer (c # d # s) =
     (if c = CHR ''.'' \<and> d = CHR ''.'' then CHR ''_'' # replacer s
      else (if c \<in> unsafe_chars then CHR ''_'' else c) # replacer (d # s))"

text \<open>\<^verbatim>\<open>filepath.Ext\<close>: the suffix from the last dot, of a name without separators.\<close>

definition Ext :: "string \<Rightarrow> string" where
  "Ext s = (if CHR ''.'' \<in> set s then CHR ''.'' # rev (takeWhile (\<lambda>c. c \<noteq> CHR ''.'') (rev s)) else [])"

definition SanitizeFilename :: "string \<Rightarrow> string" where
  "SanitizeFilename filename =
     (let safe = replacer filename;
          short = (if 255 < length safe
                   then (if length (Ext safe) < 255 then take (255 - length (Ext safe)) safe @ Ext safe else take 255 safe)
                   else safe)
      in if short = [] \<or> short = ''.'' then ''unnamed'' else short)"

definition SanitizeJobName :: "string \<Rightarrow> string" where
  "SanitizeJobName = SanitizeFilename"

text \<open>The patterns of \<^verbatim>\<open>dangerousPatterns\<close>.\<close>

fun double_dot :: "string \<Rightarrow> bool" where
  "double_dot (c # d # s) \<longleftrightarrow> c = CHR ''.'' \<and> d = CHR ''.'' \<or> double_dot (d # s)"
| "double_dot _ \<longleftrightarrow> False"

definition dangerous :: "string \<Rightarrow> bool" where
  "dangerous path \<longleftrightarrow>
     double_dot path \<or> HasPrefix path ''~'' \<or>
     list_ex (HasPrefix (ToLower path)) [''con'', ''prn'', ''aux'', ''nul''] \<or>
     list_ex (\<lambda>c. c \<in> set ''<>:|?*'' \<or> c = CHR 0x22) path"

definition SanitizePath :: "string \<Rightarrow> string" where
  "SanitizePath path =
     (let cleaned = Clean (replacer path);
          cleaned1 = (if dangerous cleaned then replacer cleaned else cleaned)
      in if HasPrefix cleaned1 ''/'' then
           (let t = dropWhile (\<lambda>c. c = CHR ''/'' \<or> c = CHR 0x5C) cleaned1
            in if 1 < length t \<and> t ! 1 = CHR '':'' then dropWhile (\<lambda>c. c = CHR ''/'' \<or> c = CHR 0x5C) (drop 2 t) else t)
         else cleaned1)"

definition ValidateSaveFolder :: "string \<Rightarrow> result" where
  "ValidateSaveFolder folder =
     (if dangerous folder then Some (Opaque 80 ''invalid save folder path: contains dangerous pattern'')
      else case find (HasPrefix (Clean folder))
          [''/etc'', ''/bin'', ''/sbin'', ''/usr/bin'', ''/usr/sbin'', ''/sys'', ''/proc'', ''/dev''] of
        Some d \<Rightarrow> Some (Errorf [Lit ''invalid save folder: cannot write to system directory '', Str d])
      | None \<Rightarrow> None)"

section \<open>Saving\<close>

text \<open>The fields of an execution that are written and read back.\<close>

record savedExecution =
  se_Job :: string
  se_ID :: string
  se_Date :: time
  se_Duration :: duration
  se_IsRunning :: bool
  se_Failed :: bool
  se_Skipped :: bool

datatype content = Saved savedExecution | Bytes string

record saved_file =
  sf_Dir :: bool
  sf_ModTime :: time
  sf_Content :: "go_error + content"

type_synonym directory = "(string \<times> saved_file) list"

text \<open>Arguments: \<^verbatim>\<open>MkdirAll\<close> and \<^verbatim>\<open>WriteFile\<close> with their errors, and the layout of a date.\<close>

record save_env =
  sv_mkdir :: "string \<Rightarrow> result"
  sv_write :: "string \<Rightarrow> result"
  sv_format :: "time \<Rightarrow> string"

definition save_name :: "save_env \<Rightarrow> time \<Rightarrow> string \<Rightarrow> string" where
  "save_name S date job = sv_format S date @ ''_'' @ SanitizeJobName job"

definition writeFile :: "save_env \<Rightarrow> time \<Rightarrow> content \<Rightarrow> string \<Rightarrow> directory \<Rightarrow> result \<times> directory" where
  "writeFile S now data filename D =
     (case sv_write S filename of
        Some err \<Rightarrow> (Some (Errorf [Lit ''write file '', Quoted filename, Lit '': '', Wrap err]), D)
      | None \<Rightarrow> (None, AList.update filename \<lparr>sf_Dir = False, sf_ModTime = now, sf_Content = Inr data\<rparr> D))"

definition saved_of :: "string \<Rightarrow> execution \<Rightarrow> savedExecution" where
  "saved_of job e =
     \<lparr>se_Job = job, se_ID = e_ID e, se_Date = e_Date e, se_Duration = e_Duration e, se_IsRunning = e_IsRunning e,
      se_Failed = e_Failed e, se_Skipped = e_Skipped e\<rparr>"

definition buffer_bytes :: "string option \<Rightarrow> string" where
  "buffer_bytes b = (case b of Some s \<Rightarrow> s | None \<Rightarrow> [])"

definition saveToDisk :: "save_env \<Rightarrow> string \<Rightarrow> string \<Rightarrow> execution \<Rightarrow> time \<Rightarrow> directory \<Rightarrow> result \<times> directory" where
  "saveToDisk S folder job e now D =
     (case ValidateSaveFolder folder of
        Some err \<Rightarrow> (Some (Errorf [Lit ''invalid save folder: '', Wrap err]), D)
      | None \<Rightarrow>
          (case sv_mkdir S folder of
             Some err \<Rightarrow> (Some (Errorf [Lit ''mkdir '', Quoted folder, Lit '': '', Wrap err]), D)
           | None \<Rightarrow>
               let root = save_name S (e_Date e) job in
               (case writeFile S now (Bytes (buffer_bytes (e_ErrorStream e))) (root @ ''.stderr.log'') D of
                  (Some err, D1) \<Rightarrow> (Some (Errorf [Lit ''write stderr log: '', Wrap err]), D1)
                | (None, D1) \<Rightarrow>
                    (case writeFile S now (Bytes (buffer_bytes (e_OutputStream e))) (root @ ''.stdout.log'') D1 of
                       (Some err, D2) \<Rightarrow> (Some (Errorf [Lit ''write stdout log: '', Wrap err]), D2)
                     | (None, D2) \<Rightarrow>
                         (case writeFile S now (Saved (saved_of job e)) (root @ ''.json'') D2 of
                            (Some err, D3) \<Rightarrow> (Some (Errorf [Lit ''write context json: write json file: '', Wrap err]), D3)
                          | (None, D3) \<Rightarrow> (None, D3))))))"

section \<open>Restoring\<close>

text \<open>\<^verbatim>\<open>parseHistoryFile\<close>: never as running.\<close>

definition restored_execution :: "savedExecution \<Rightarrow> execution" where
  "restored_execution s =
     \<lparr>e_ID = se_ID s, e_Date = se_Date s, e_Duration = se_Duration s, e_IsRunning = False, e_Failed = se_Failed s,
      e_Skipped = se_Skipped s, e_Error = None, e_OutputStream = None, e_ErrorStream = None, e_CapturedStdout = [],
      e_CapturedStderr = []\<rparr>"

definition parseHistoryFile :: "saved_file \<Rightarrow> go_error + string \<times> execution" where
  "parseHistoryFile f =
     (case sf_Content f of
        Inl err \<Rightarrow> Inl (Errorf [Lit ''read file: '', Wrap err])
      | Inr (Bytes b) \<Rightarrow> Inl (Opaque 81 ''parse json'')
      | Inr (Saved s) \<Rightarrow> if se_Job s = [] then Inl (Opaque 82 ''invalid argument'') else Inr (se_Job s, restored_execution s))"

text \<open>The callback of \<^verbatim>\<open>filepath.Walk\<close>, for a file inside the folder.\<close>

definition history_entry :: "time \<Rightarrow> string \<times> saved_file \<Rightarrow> (string \<times> execution) option" where
  "history_entry cutoff nf =
     (let (name, f) = nf in
      if sf_Dir f \<or> \<not> HasSuffix name ''.json'' \<or> sf_ModTime f < cutoff then None
      else case parseHistoryFile f of
             Inl _ \<Rightarrow> None
           | Inr (job, e) \<Rightarrow> if e_Date e < cutoff then None else Some (job, e))"

definition parseHistoryFiles :: "time \<Rightarrow> directory \<Rightarrow> (string \<times> execution) list" where
  "parseHistoryFiles cutoff D = List.map_filter (history_entry cutoff) D"

definition group_entry :: "(string \<times> execution list) list \<Rightarrow> string \<times> execution \<Rightarrow> (string \<times> execution list) list" where
  "group_entry g je =
     (let (job, e) = je in AList.update job ((case map_of g job of Some es \<Rightarrow> es | None \<Rightarrow> []) @ [e]) g)"

text \<open>The state of the save folder: what \<^verbatim>\<open>os.Stat\<close> says, and the files a walk finds.\<close>

datatype save_folder = FolderMissing | StatError go_error | NoFolder | Folder directory

definition restore_group :: "(string \<rightharpoonup> job_log) \<Rightarrow> string \<times> execution list \<Rightarrow> (string \<rightharpoonup> job_log)" where
  "restore_group jobs g =
     (let (job, es) = g in
      case jobs job of
        None \<Rightarrow> jobs
      | Some l \<Rightarrow> jobs(job \<mapsto> foldl (\<lambda>l e. SetLastRun e l) l (sort_key e_Date es)))"

definition restore_history :: "string \<Rightarrow> save_folder \<Rightarrow> duration \<Rightarrow> time \<Rightarrow> (string \<rightharpoonup> job_log) \<Rightarrow> result \<times> (string \<rightharpoonup> job_log)" where
  "restore_history saveFolder F maxAge now jobs =
     (if saveFolder = [] \<or> ValidateSaveFolder saveFolder \<noteq> None then (None, jobs)
      else case F of
             FolderMissing \<Rightarrow> (None, jobs)
           | StatError err \<Rightarrow> (Some (Errorf [Lit ''stat save folder: '', Wrap err]), jobs)
           | NoFolder \<Rightarrow> (None, jobs)
           | Folder D \<Rightarrow> (None, foldl restore_group jobs (foldl group_entry [] (parseHistoryFiles (now - maxAge) D))))"

definition restoreJobHistory :: "SaveConfig \<Rightarrow> save_folder \<Rightarrow> time \<Rightarrow> (string \<rightharpoonup> job_log) \<Rightarrow> (string \<rightharpoonup> job_log)" where
  "restoreJobHistory c F now jobs =
     (if \<not> RestoreHistoryEnabled c then jobs
      else snd (restore_history (SaveFolder c) F (GetRestoreHistoryMaxAge c) now jobs))"

section \<open>Names that are safe\<close>

lemma replacer_set: "set (replacer s) \<inter> unsafe_chars = {}"
  by (induction s rule: replacer.induct) (auto simp: unsafe_chars_def)

lemma replacer_hd: "replacer s = CHR ''.'' # t \<Longrightarrow> \<exists>u. s = CHR ''.'' # u"
  by (cases s rule: replacer.cases) (auto simp: unsafe_chars_def split: if_splits)

lemma double_dot_Cons: "double_dot (x # s) \<longleftrightarrow> x = CHR ''.'' \<and> (\<exists>t. s = CHR ''.'' # t) \<or> double_dot s"
  by (cases s) auto

lemma replacer_no_double_dot: "\<not> double_dot (replacer s)"
proof (induction s rule: replacer.induct)
  case (3 c d s)
  show ?case
  proof (cases "c = CHR ''.'' \<and> d = CHR ''.''")
    case True
    with 3 show ?thesis by (simp add: double_dot_Cons)
  next
    case False
    have "c = CHR ''.''" if "(if c \<in> unsafe_chars then CHR ''_'' else c) = CHR ''.''" using that by (simp split: if_splits)
    with False 3 replacer_hd [of "d # s"] show ?thesis by (auto simp: double_dot_Cons)
  qed
qed simp_all

lemma Ext_facts: "set (Ext s) \<subseteq> set s" "length (Ext s) \<le> length s"
proof -
  have e: "\<exists>u. rev s = takeWhile (\<lambda>c. c \<noteq> CHR ''.'') (rev s) @ CHR ''.'' # u" if "CHR ''.'' \<in> set s"
  proof -
    have ne: "dropWhile (\<lambda>c. c \<noteq> CHR ''.'') (rev s) \<noteq> []" using that by (auto simp: dropWhile_eq_Nil_conv)
    then have "hd (dropWhile (\<lambda>c. c \<noteq> CHR ''.'') (rev s)) = CHR ''.''" using hd_dropWhile by blast
    with ne obtain u where "dropWhile (\<lambda>c. c \<noteq> CHR ''.'') (rev s) = CHR ''.'' # u"
      by (cases "dropWhile (\<lambda>c. c \<noteq> CHR ''.'') (rev s)") simp_all
    then have "rev s = takeWhile (\<lambda>c. c \<noteq> CHR ''.'') (rev s) @ CHR ''.'' # u"
      using takeWhile_dropWhile_id [of "\<lambda>c. c \<noteq> CHR ''.''" "rev s"] by simp
    then show ?thesis by blast
  qed
  show "set (Ext s) \<subseteq> set s" by (auto simp: Ext_def dest: set_takeWhileD)
  show "length (Ext s) \<le> length s"
  proof (cases "CHR ''.'' \<in> set s")
    case True
    then obtain u where "rev s = takeWhile (\<lambda>c. c \<noteq> CHR ''.'') (rev s) @ CHR ''.'' # u" using e by blast
    then have "length (rev s) = length (takeWhile (\<lambda>c. c \<noteq> CHR ''.'') (rev s)) + Suc (length u)" by (metis length_append length_Cons)
    then show ?thesis by (simp add: Ext_def True)
  next
    case False
    then show ?thesis by (simp add: Ext_def)
  qed
qed

section \<open>Groups\<close>

lemma map_of_group_entry:
  "map_of (group_entry g (k, e)) j =
     (if j = k then Some ((case map_of g k of Some es \<Rightarrow> es | None \<Rightarrow> []) @ [e]) else map_of g j)"
  by (simp add: group_entry_def update_conv')

lemma group_entries:
  "map_of (foldl group_entry g xs) j =
     (case map_of g j of
        Some es \<Rightarrow> Some (es @ map snd (filter (\<lambda>(k, e). k = j) xs))
      | None \<Rightarrow> (let es = map snd (filter (\<lambda>(k, e). k = j) xs) in if es = [] then None else Some es))"
proof (induction xs arbitrary: g)
  case Nil
  show ?case by (simp split: option.split)
next
  case (Cons x xs)
  obtain k e where x: "x = (k, e)" by fastforce
  show ?case
    by (cases "map_of g j") (auto simp: x Cons.IH map_of_group_entry Let_def)
qed

lemma group_keys: "distinct (map fst g) \<Longrightarrow> distinct (map fst (foldl group_entry g xs))"
  by (induction xs arbitrary: g) (auto simp: group_entry_def distinct_update split: prod.splits)

lemma restore_groups:
  "distinct (map fst gs) \<Longrightarrow>
   foldl restore_group jobs gs j =
     (case map_of gs j of
        None \<Rightarrow> jobs j
      | Some es \<Rightarrow> map_option (\<lambda>l. foldl (\<lambda>l e. SetLastRun e l) l (sort_key e_Date es)) (jobs j))"
proof (induction gs arbitrary: jobs)
  case (Cons g gs)
  obtain k es where g: "g = (k, es)" by fastforce
  have n: "map_of gs k = None" using Cons.prems by (simp add: g map_of_eq_None_iff image_iff)
  have "restore_group jobs g j = (if j = k then map_option (\<lambda>l. foldl (\<lambda>l e. SetLastRun e l) l (sort_key e_Date es)) (jobs j) else jobs j)"
    by (auto simp: g restore_group_def split: option.splits)
  with Cons n show ?case by (auto simp: g split: option.splits)
qed simp

text \<open>What a restore leaves of each job.\<close>

definition entries_of :: "string \<Rightarrow> (string \<times> execution) list \<Rightarrow> execution list" where
  "entries_of j xs = map snd (filter (\<lambda>(k, e). k = j) xs)"

lemma restored_job:
  assumes "saveFolder \<noteq> []" "ValidateSaveFolder saveFolder = None"
  shows "snd (restore_history saveFolder (Folder D) maxAge now jobs) j =
    map_option (\<lambda>l. foldl (\<lambda>l e. SetLastRun e l) l (sort_key e_Date (entries_of j (parseHistoryFiles (now - maxAge) D)))) (jobs j)"
  using assms restore_groups [OF group_keys [of "[]"]]
  by (auto simp: restore_history_def group_entries entries_of_def Let_def option.map_id0 [unfolded id_def] split: option.split)

section \<open>Saved and restored\<close>

definition no_save_errors :: "save_env \<Rightarrow> bool" where
  "no_save_errors S \<longleftrightarrow> (\<forall>f. sv_mkdir S f = None \<and> sv_write S f = None)"

text \<open>The runs of several jobs: the job, the execution, and when its files were written.\<close>

type_synonym saved_run = "string \<times> execution \<times> time"

definition save_all :: "save_env \<Rightarrow> string \<Rightarrow> saved_run list \<Rightarrow> directory" where
  "save_all S folder xs = foldl (\<lambda>D (job, e, now). snd (saveToDisk S folder job e now D)) [] xs"

definition run_root :: "save_env \<Rightarrow> saved_run \<Rightarrow> string" where
  "run_root S x = (let (job, e, now) = x in save_name S (e_Date e) job)"

definition run_files :: "save_env \<Rightarrow> saved_run \<Rightarrow> directory" where
  "run_files S x =
     (let (job, e, now) = x; f = (\<lambda>c. \<lparr>sf_Dir = False, sf_ModTime = now, sf_Content = Inr c\<rparr>)
      in [(run_root S x @ ''.stderr.log'', f (Bytes (buffer_bytes (e_ErrorStream e)))),
          (run_root S x @ ''.stdout.log'', f (Bytes (buffer_bytes (e_OutputStream e)))),
          (run_root S x @ ''.json'', f (Saved (saved_of job e)))])"

lemma update_fresh: "k \<notin> fst ` set al \<Longrightarrow> AList.update k v al = al @ [(k, v)]"
  by (induction al) auto

lemma suffix_names:
  "a @ ''.json'' \<noteq> b @ ''.stderr.log''" "a @ ''.json'' \<noteq> b @ ''.stdout.log''" "a @ ''.stderr.log'' \<noteq> b @ ''.stdout.log''"
proof -
  show "a @ ''.json'' \<noteq> b @ ''.stderr.log''" "a @ ''.json'' \<noteq> b @ ''.stdout.log''"
    by (auto dest: arg_cong [where f = last])
  show "a @ ''.stderr.log'' \<noteq> b @ ''.stdout.log''" by simp
qed

lemma save_fresh:
  assumes "no_save_errors S" "ValidateSaveFolder folder = None" "\<And>f. f \<in> fst ` set (run_files S (job, e, now)) \<Longrightarrow> f \<notin> fst ` set D"
  shows "snd (saveToDisk S folder job e now D) = D @ run_files S (job, e, now)"
proof -
  define r where "r = save_name S (e_Date e) job"
  define f where "f = (\<lambda>c. \<lparr>sf_Dir = False, sf_ModTime = now, sf_Content = Inr c\<rparr> :: saved_file)"
  define x1 x2 x3 where "x1 = (r @ ''.stderr.log'', f (Bytes (buffer_bytes (e_ErrorStream e))))"
    and "x2 = (r @ ''.stdout.log'', f (Bytes (buffer_bytes (e_OutputStream e))))" and "x3 = (r @ ''.json'', f (Saved (saved_of job e)))"
  have files: "run_files S (job, e, now) = [x1, x2, x3]"
    by (simp add: run_files_def run_root_def x1_def x2_def x3_def r_def f_def Let_def)
  have w: "writeFile S now c n E = (None, AList.update n (f c) E)" for c n E
    using assms(1) by (simp add: writeFile_def no_save_errors_def f_def)
  have m: "sv_mkdir S folder = None" using assms(1) by (simp add: no_save_errors_def)
  have n: "fst x1 \<notin> fst ` set D" "fst x2 \<notin> fst ` set (D @ [x1])" "fst x3 \<notin> fst ` set (D @ [x1, x2])"
    using assms(3) [unfolded files] suffix_names [of r r]
    by (auto simp: x1_def x2_def x3_def simp del: append_assoc)
  have "snd (saveToDisk S folder job e now D) = AList.update (fst x3) (snd x3) (AList.update (fst x2) (snd x2) (AList.update (fst x1) (snd x1) D))"
    unfolding x1_def x2_def x3_def saveToDisk_def assms(2) m r_def [symmetric] Let_def option.case w prod.case fst_conv snd_conv ..
  also have "\<dots> = D @ [x1, x2, x3]"
    using update_fresh [OF n(1), of "snd x1"] update_fresh [OF n(2), of "snd x2"] update_fresh [OF n(3), of "snd x3"] by simp
  finally show ?thesis by (simp add: files)
qed

lemma run_files_names: "fst ` set (run_files S x) = (\<lambda>t. run_root S x @ t) ` {''.stderr.log'', ''.stdout.log'', ''.json''}"
  by (cases x) (simp add: run_files_def Let_def)

lemma same_suffix: "t \<in> {''.stderr.log'', ''.stdout.log'', ''.json''} \<Longrightarrow> t' \<in> {''.stderr.log'', ''.stdout.log'', ''.json''} \<Longrightarrow>
    a @ t = b @ t' \<Longrightarrow> a = b"
  using suffix_names by (elim insertE emptyE) (auto simp: suffix_names [symmetric])

lemma save_all_files:
  assumes "no_save_errors S" "ValidateSaveFolder folder = None" "distinct (map (run_root S) xs)"
  shows "save_all S folder xs = concat (map (run_files S) xs)"
  using assms(3)
proof (induction xs rule: rev_induct)
  case Nil
  show ?case by (simp add: save_all_def)
next
  case (snoc x xs)
  obtain job e now where x: "x = (job, e, now)" using prod_cases3 by blast
  have "f \<notin> fst ` set (concat (map (run_files S) xs))" if f: "f \<in> fst ` set (run_files S (job, e, now))" for f
  proof
    assume "f \<in> fst ` set (concat (map (run_files S) xs))"
    then obtain y where y: "y \<in> set xs" "f \<in> fst ` set (run_files S y)" by auto
    from f obtain t where t: "t \<in> {''.stderr.log'', ''.stdout.log'', ''.json''}" "f = run_root S x @ t"
      unfolding run_files_names x by (elim imageE)
    from y(2) obtain t' where t': "t' \<in> {''.stderr.log'', ''.stdout.log'', ''.json''}" "f = run_root S y @ t'"
      unfolding run_files_names by (elim imageE)
    have "run_root S y = run_root S x" by (rule same_suffix [OF t'(1) t(1)]) (simp only: t(2) [symmetric] t'(2) [symmetric])
    then show False using snoc.prems y(1) by (auto simp: image_iff)
  qed
  then show ?case
    using snoc save_fresh [OF assms(1,2), of job e now "save_all S folder xs"] by (simp add: save_all_def x)
qed

text \<open>The entries a walk finds, in any order.\<close>

lemma walked_entries:
  assumes "job \<noteq> []" "cutoff \<le> e_Date e" "cutoff \<le> now"
  shows "List.map_filter (history_entry cutoff) (run_files S (job, e, now)) = [(job, restored_execution (saved_of job e))]"
proof -
  have "HasSuffix (a @ ''.json'') ''.json''" "\<not> HasSuffix (a @ ''.stderr.log'') ''.json''" "\<not> HasSuffix (a @ ''.stdout.log'') ''.json''"
    for a by (simp_all add: HasSuffix_def)
  then show ?thesis
    using assms by (simp add: List.map_filter_def run_files_def history_entry_def parseHistoryFile_def saved_of_def Let_def
        restored_execution_def)
qed

lemma map_filter_append: "List.map_filter f (xs @ ys) = List.map_filter f xs @ List.map_filter f ys"
  by (simp add: List.map_filter_def)

lemma all_walked:
  assumes "\<forall>(job, e, t) \<in> set xs. job \<noteq> [] \<and> cutoff \<le> e_Date e \<and> cutoff \<le> t"
  shows "List.map_filter (history_entry cutoff) (concat (map (run_files S) xs)) =
    map (\<lambda>(job, e, t). (job, restored_execution (saved_of job e))) xs"
  using assms by (induction xs) (auto simp: walked_entries map_filter_append List.map_filter_simps split: prod.splits)

lemma map_filter_mset: "mset xs = mset ys \<Longrightarrow> mset (List.map_filter f xs) = mset (List.map_filter f ys)"
  by (simp add: List.map_filter_def)

section \<open>Properties\<close>

text \<open>A log after the runs \<open>es\<close>, at least one, have been entered.\<close>

lemma enter_all:
  "es \<noteq> [] \<Longrightarrow> foldl (\<lambda>l e. SetLastRun e l) l es =
     l\<lparr>jl_history := recent (jl_HistoryLimit l) (jl_history l @ es), jl_lastRun := Some (last es)\<rparr>"
proof (induction es rule: rev_induct)
  case (snoc e es)
  have one: "SetLastRun e l' = l'\<lparr>jl_history := recent (jl_HistoryLimit l') (jl_history l' @ [e]), jl_lastRun := Some e\<rparr>" for l'
    using SetLastRun_history [of e l'] by (simp add: SetLastRun_def Let_def)
  show ?case
  proof (cases "es = []")
    case True
    then show ?thesis by (simp add: one)
  next
    case False
    then show ?thesis using snoc.IH recent_snoc [of "jl_HistoryLimit l" "jl_history l @ es" e] by (simp add: one)
  qed
qed simp

text \<open>The saved runs of a job as the code restores them.\<close>

definition recorded_runs :: "string \<Rightarrow> saved_run list \<Rightarrow> execution list" where
  "recorded_runs j xs = sort_key e_Date (map (\<lambda>(job, e, t). restored_execution (saved_of job e)) (filter (\<lambda>(job, e, t). job = j) xs))"

lemma recorded_fields:
  "restored_execution (saved_of job e) =
     \<lparr>e_ID = e_ID e, e_Date = e_Date e, e_Duration = e_Duration e, e_IsRunning = False, e_Failed = e_Failed e, e_Skipped = e_Skipped e,
      e_Error = None, e_OutputStream = None, e_ErrorStream = None, e_CapturedStdout = [], e_CapturedStderr = []\<rparr>"
  by (simp add: restored_execution_def saved_of_def)

lemma restored_history:
  assumes "no_save_errors S" "folder \<noteq> []" "ValidateSaveFolder folder = None"
    and "distinct (map (run_root S) xs)"
    and "\<forall>(job, e, t) \<in> set xs. job \<noteq> [] \<and> now - maxAge \<le> e_Date e \<and> now - maxAge \<le> t"
    and "distinct (map (\<lambda>(job, e, t). (job, e_Date e)) xs)"
    and "mset D = mset (save_all S folder xs)"
  shows "snd (restore_history folder (Folder D) maxAge now jobs) j =
    map_option (\<lambda>l. foldl (\<lambda>l e. SetLastRun e l) l (recorded_runs j xs)) (jobs j)"
proof -
  let ?E = "map (\<lambda>(job, e, t). (job, restored_execution (saved_of job e))) xs"
  let ?R = "map (\<lambda>(job, e, t). restored_execution (saved_of job e)) (filter (\<lambda>(job, e, t). job = j) xs)"
  have "mset (parseHistoryFiles (now - maxAge) D) = mset ?E"
    using map_filter_mset [OF assms(7), of "history_entry (now - maxAge)"] all_walked [OF assms(5), of S]
    unfolding parseHistoryFiles_def save_all_files [OF assms(1,3,4)] by (simp only:)
  then have "mset (entries_of j (parseHistoryFiles (now - maxAge) D)) = mset (entries_of j ?E)"
    by (simp add: entries_of_def)
  moreover have "entries_of j ?E = ?R" by (induction xs) (auto simp: entries_of_def)
  ultimately have m: "mset (entries_of j (parseHistoryFiles (now - maxAge) D)) = mset ?R" by simp
  have "map e_Date ?R = map snd (filter (\<lambda>(k, d). k = j) (map (\<lambda>(job, e, t). (job, e_Date e)) xs))"
    by (induction xs) (auto simp: restored_execution_def saved_of_def)
  moreover have "distinct (map snd (filter (\<lambda>(k, d). k = j) ys))" if "distinct ys" for ys :: "(string \<times> time) list"
    using that by (induction ys) auto
  ultimately have d: "distinct (map e_Date ?R)" using assms(6) by simp
  have "set (entries_of j (parseHistoryFiles (now - maxAge) D)) = set ?R" using m by (rule mset_eq_setD)
  then have "inj_on e_Date (set (entries_of j (parseHistoryFiles (now - maxAge) D)))" using d by (simp only: distinct_map)
  then have "sort_key e_Date (entries_of j (parseHistoryFiles (now - maxAge) D)) = recorded_runs j xs"
    using m unfolding recorded_runs_def by (intro sort_key_inj_key_eq) simp_all
  then show ?thesis by (simp add: restored_job [OF assms(2,3)])
qed

text \<open>C37 (history_survives_restart): when every run was saved, with a folder the sanitizer accepts and a name of its own for each
  run, a restart within the age limit enters into the history of each known job its saved runs in the order of their dates,
  whatever the order in which the files are found, the newest ones as far as the history limit allows: each with its identifier, date, duration and
  its failed and skipped marks, not running, and without its error and its output, which are saved but not restored. Jobs that no longer exist are passed over.\<close>

theorem history_survives_restart:
  fixes jobs :: "string \<Rightarrow> job_log option" and j :: string
  assumes "no_save_errors S" "folder \<noteq> []" "ValidateSaveFolder folder = None"
    and "distinct (map (run_root S) xs)"
    and "\<forall>(job, e, t) \<in> set xs. job \<noteq> [] \<and> now - maxAge \<le> e_Date e \<and> now - maxAge \<le> t"
    and "distinct (map (\<lambda>(job, e, t). (job, e_Date e)) xs)"
    and "mset D = mset (save_all S folder xs)"
  defines "runs \<equiv> sort_key e_Date (map (\<lambda>(job, e, t).
      \<lparr>e_ID = e_ID e, e_Date = e_Date e, e_Duration = e_Duration e, e_IsRunning = False, e_Failed = e_Failed e, e_Skipped = e_Skipped e,
       e_Error = None, e_OutputStream = None, e_ErrorStream = None, e_CapturedStdout = [], e_CapturedStderr = []\<rparr>)
      (filter (\<lambda>(job, e, t). job = j) xs))"
  shows "snd (restore_history folder (Folder D) maxAge now jobs) j =
    map_option (\<lambda>l. if runs = [] then l
      else l\<lparr>jl_history := recent (jl_HistoryLimit l) (jl_history l @ runs), jl_lastRun := Some (last runs)\<rparr>) (jobs j)"
proof -
  have runs: "recorded_runs j xs = runs" unfolding recorded_runs_def runs_def recorded_fields ..
  show ?thesis
    unfolding restored_history [OF assms(1-7)] runs
    by (cases "jobs j"; cases "runs = []") (simp_all add: enter_all)
qed

definition sample_save :: save_env where
  "sample_save = \<lparr>sv_mkdir = (\<lambda>_. None), sv_write = (\<lambda>_. None), sv_format = (\<lambda>t. if t < 10 then ''t0'' else ''t1'')\<rparr>"

definition sample_run :: "string \<Rightarrow> time \<Rightarrow> saved_run" where
  "sample_run job t = (job, (new_execution ''id'' [] [])\<lparr>e_Date := t, e_Duration := 7, e_Failed := True\<rparr>, t)"

definition empty_log :: job_log where
  "empty_log = \<lparr>jl_HistoryLimit = 10, jl_history = [], jl_lastRun = None\<rparr>"

lemma sample_saves: "no_save_errors sample_save" "ValidateSaveFolder ''/logs'' = None"
proof -
  show "no_save_errors sample_save" by (simp add: no_save_errors_def sample_save_def)
  show "ValidateSaveFolder ''/logs'' = None" by code_simp
qed

theorem history_survives_restart_witness:
  "map_option (\<lambda>l. map (\<lambda>e. (e_Date e, e_Failed e, e_Duration e)) (jl_history l)) (snd (restore_history ''/logs''
      (Folder (rev (save_all sample_save ''/logs'' [sample_run ''a'' 20, sample_run ''a'' 5]))) 100 50 [''a'' \<mapsto> empty_log]) ''a'') =
   Some [(5, True, 7), (20, True, 7)]"
proof -
  let ?xs = "[sample_run ''a'' 20, sample_run ''a'' 5]"
  have "distinct (map (run_root sample_save) ?xs)" by code_simp
  moreover have "distinct (map (\<lambda>(job, e, t). (job, e_Date e)) ?xs)"
    "\<forall>(job, e, t) \<in> set ?xs. job \<noteq> [] \<and> 50 - 100 \<le> e_Date e \<and> 50 - 100 \<le> t" by (simp_all add: sample_run_def)
  ultimately have "snd (restore_history ''/logs'' (Folder (rev (save_all sample_save ''/logs'' ?xs))) 100 50 [''a'' \<mapsto> empty_log]) ''a'' =
      map_option (\<lambda>l. let runs = sort_key e_Date (map (\<lambda>(job, e, t).
          \<lparr>e_ID = e_ID e, e_Date = e_Date e, e_Duration = e_Duration e, e_IsRunning = False, e_Failed = e_Failed e, e_Skipped = e_Skipped e,
           e_Error = None, e_OutputStream = None, e_ErrorStream = None, e_CapturedStdout = [], e_CapturedStderr = []\<rparr>)
          (filter (\<lambda>(job, e, t). job = ''a'') ?xs)) in
        if runs = [] then l else l\<lparr>jl_history := recent (jl_HistoryLimit l) (jl_history l @ runs), jl_lastRun := Some (last runs)\<rparr>)
        ([''a'' \<mapsto> empty_log] ''a'')"
    unfolding Let_def using sample_saves by (intro history_survives_restart) simp_all
  then show ?thesis by (simp add: sample_run_def empty_log_def recent_def insort_key_def Let_def)
qed

text \<open>(same_second_overwritten): names hold the date to the second and the sanitized name of the job. When two jobs whose names
  are sanitized alike start within one second, the second one overwrites the files of the first: a restart restores
  nothing of the first.\<close>

theorem same_second_overwritten:
  assumes "no_save_errors S" "folder \<noteq> []" "ValidateSaveFolder folder = None"
    and "job1 \<noteq> job2" "run_root S (job1, e1, t1) = run_root S (job2, e2, t2)"
  shows "save_all S folder [(job1, e1, t1), (job2, e2, t2)] = run_files S (job2, e2, t2) \<and>
    snd (restore_history folder (Folder (save_all S folder [(job1, e1, t1), (job2, e2, t2)])) maxAge now jobs) job1 = jobs job1"
proof -
  define r where "r = run_root S (job2, e2, t2)"
  have f1: "save_all S folder [(job1, e1, t1)] = run_files S (job1, e1, t1)"
    using save_all_files [OF assms(1,3), of "[(job1, e1, t1)]"] by simp
  have w: "writeFile S t c n D = (None, AList.update n \<lparr>sf_Dir = False, sf_ModTime = t, sf_Content = Inr c\<rparr> D)" for t c n D
    using assms(1) by (simp add: writeFile_def no_save_errors_def)
  have m: "sv_mkdir S folder = None" using assms(1) by (simp add: no_save_errors_def)
  have r2: "save_name S (e_Date e2) job2 = r" by (simp add: r_def run_root_def)
  have n: "r @ ''.stderr.log'' \<noteq> r @ ''.stdout.log''" "r @ ''.stderr.log'' \<noteq> r @ ''.json''" "r @ ''.stdout.log'' \<noteq> r @ ''.json''"
    using suffix_names [of r r] by simp_all
  have u: "AList.update k3 v3 (AList.update k2 v2 (AList.update k1 v1 [(k1, u1), (k2, u2), (k3, u3)])) = [(k1, v1), (k2, v2), (k3, v3)]"
    if "k1 \<noteq> k2" "k1 \<noteq> k3" "k2 \<noteq> k3" for k1 k2 k3 and u1 u2 u3 v1 v2 v3 :: saved_file
    using that by simp
  have all: "save_all S folder [(job1, e1, t1), (job2, e2, t2)] = run_files S (job2, e2, t2)"
  proof -
    have "save_all S folder [(job1, e1, t1), (job2, e2, t2)] = snd (saveToDisk S folder job2 e2 t2 (run_files S (job1, e1, t1)))"
      using f1 by (simp add: save_all_def)
    also have "\<dots> = run_files S (job2, e2, t2)"
      unfolding saveToDisk_def assms(3) m r2 Let_def option.case w prod.case snd_conv run_files_def assms(5) r_def [symmetric]
      by (rule u [OF n])
    finally show ?thesis .
  qed
  have "entries_of job1 (parseHistoryFiles cutoff (run_files S (job2, e2, t2))) = []" for cutoff
    using assms(4) by (auto simp: entries_of_def parseHistoryFiles_def List.map_filter_def run_files_def history_entry_def
        parseHistoryFile_def saved_of_def Let_def HasSuffix_def split: if_splits)
  then show ?thesis unfolding all by (simp add: restored_job [OF assms(2,3)] option.map_id0 [unfolded id_def])
qed

theorem same_second_overwritten_witness:
  "snd (restore_history ''/logs'' (Folder (save_all sample_save ''/logs'' [sample_run ''a/b'' 5, sample_run ''a_b'' 5])) 100 50
     [''a/b'' \<mapsto> empty_log]) ''a/b'' = Some empty_log"
proof -
  have "run_root sample_save (sample_run ''a/b'' 5) = run_root sample_save (sample_run ''a_b'' 5)" by code_simp
  then show ?thesis
    using same_second_overwritten [OF sample_saves(1) _ sample_saves(2), of "''a/b''" "''a_b''", THEN conjunct2]
    unfolding sample_run_def by fastforce
qed

text \<open>(safe_file_names): the file name made of any job name is neither empty nor a directory of its own, is not longer than 255
  bytes and has no separator, no NUL and none of the other characters that are replaced, so the files of a job stay in the save folder.\<close>

theorem safe_file_names:
  "SanitizeJobName s \<notin> {[], ''.'', ''..''} \<and> length (SanitizeJobName s) \<le> 255 \<and> set (SanitizeJobName s) \<inter> unsafe_chars = {}"
proof -
  define short where "short =
    (if 255 < length (replacer s)
     then (if length (Ext (replacer s)) < 255 then take (255 - length (Ext (replacer s))) (replacer s) @ Ext (replacer s)
           else take 255 (replacer s))
     else replacer s)"
  have n: "SanitizeJobName s = (if short = [] \<or> short = ''.'' then ''unnamed'' else short)"
    by (simp add: SanitizeJobName_def SanitizeFilename_def short_def Let_def)
  have set: "set short \<subseteq> set (replacer s)"
    using Ext_facts(1) [of "replacer s"] by (auto simp: short_def dest: in_set_takeD)
  have len: "length short \<le> 255" "255 < length (replacer s) \<Longrightarrow> length short = 255" by (auto simp: short_def)
  have "short \<noteq> ''..''"
  proof
    assume a: "short = ''..''"
    then have "\<not> 255 < length (replacer s)" using len(2) by auto
    then have "replacer s = ''..''" using a by (simp add: short_def)
    then show False using replacer_no_double_dot [of s] by simp
  qed
  then show ?thesis using n set len(1) replacer_set [of s] by (auto simp: unsafe_chars_def)
qed

end
