(* ===== verification/ConfigKeys.thy ===== *)
theory ConfigKeys
  imports Regex GoParse ServiceJob KeyNames
begin

text \<open>
  The keys of a configuration section (\<^verbatim>\<open>src/cli/config_decode.go\<close>, \<^verbatim>\<open>src/cli/config_validate.go\<close>,
  \<^verbatim>\<open>getKnownKeysForJobType\<close> of \<^verbatim>\<open>src/cli/config.go\<close>): which keys the
  reflected type of a job names, the closest known key by edit distance, and the validators of cron
  expressions, image references and durations.

  The edit distance fills a matrix in place; it is shown to be the least number of single-byte
  insertions, deletions and substitutions that turn one string into the other.
\<close>

section \<open>Used keys\<close>

text \<open>The \<^verbatim>\<open>map[string]bool\<close> of used keys is the set of its keys; every stored value is true.\<close>

record DecodeResult =
  dr_UsedKeys :: "string set"
  dr_UnusedKeys :: "string list"

definition collectInputKeys :: "(string \<times> 'a) list \<Rightarrow> string set" where
  "collectInputKeys input = (\<lambda>(k, _). normalizeKey k) ` set input"

fun mergeUsedKeys :: "DecodeResult option list \<Rightarrow> string set" where
  "mergeUsedKeys [] = {}"
| "mergeUsedKeys (None # rs) = mergeUsedKeys rs"
| "mergeUsedKeys (Some r # rs) = dr_UsedKeys r \<union> mergeUsedKeys rs"

section \<open>The keys of a type\<close>

text \<open>\<^verbatim>\<open>reflect.Type\<close> as far as the extraction looks at it; \<open>f_Tag\<close> is the \<^verbatim>\<open>mapstructure\<close> tag.\<close>

datatype rtype = RPointer rtype | RStruct "rfield list" | ROther
and rfield = RField (f_Name: string) (f_Exported: bool) (f_Anonymous: bool) (f_Tag: string) (f_Type: rtype)

definition hasSquashTag :: "rfield \<Rightarrow> bool" where
  "hasSquashTag f \<longleftrightarrow> Contains (f_Tag f) ''squash''"

text \<open>The key of a field that is neither skipped nor flattened.\<close>

definition field_key :: "rfield \<Rightarrow> string" where
  "field_key f =
     (let name = hd (Split (f_Tag f) (CHR '','')) in
      if f_Tag f \<noteq> [] \<and> name \<noteq> [] \<and> name \<noteq> ''-'' then name else ToLower (f_Name f))"

text \<open>\<^verbatim>\<open>extractMapstructureKeysFromType\<close>: one pointer is followed, then only a struct has keys.\<close>

fun struct_keys :: "rtype \<Rightarrow> string list" and fields_keys :: "rfield list \<Rightarrow> string list" and
    pointee_keys :: "rtype \<Rightarrow> string list" where
  "pointee_keys (RStruct fs) = fields_keys fs"
| "pointee_keys _ = []"
| "struct_keys (RPointer t) = pointee_keys t"
| "struct_keys (RStruct fs) = fields_keys fs"
| "struct_keys ROther = []"
| "fields_keys [] = []"
| "fields_keys (RField name exported anonymous tag t # fs) =
     (if \<not> exported then fields_keys fs
      else if anonymous \<or> Contains tag ''squash'' then struct_keys t @ fields_keys fs
      else if tag = ''-'' then fields_keys fs
      else field_key (RField name exported anonymous tag t) # fields_keys fs)"

definition extractMapstructureKeys :: "rtype \<Rightarrow> string list" where
  "extractMapstructureKeys t = struct_keys t"

section \<open>The types of the jobs\<close>

text \<open>A field with a tag, a field without, an embedded struct and an unexported field.\<close>

definition tagged_field :: "string \<Rightarrow> string \<Rightarrow> rfield" where
  "tagged_field name tag = RField name True False tag ROther"

definition plain :: "string \<Rightarrow> rfield" where
  "plain name = RField name True False [] ROther"

definition squashed :: "string \<Rightarrow> rfield list \<Rightarrow> rfield" where
  "squashed name fs = RField name True True '',squash'' (RStruct fs)"

definition unexported :: "string \<Rightarrow> rfield" where
  "unexported name = RField name False False [] ROther"

definition BareJob_fields :: "rfield list" where
  "BareJob_fields =
     [plain ''Schedule'', plain ''Name'', plain ''Command'', tagged_field ''RunOnStartup'' ''run-on-startup'',
      plain ''HistoryLimit'', plain ''MaxRetries'', plain ''RetryDelayMs'', plain ''RetryExponential'',
      plain ''RetryMaxDelayMs'', tagged_field ''Dependencies'' ''depends-on,'', tagged_field ''OnSuccess'' ''on-success,'',
      tagged_field ''OnFailure'' ''on-failure,'', plain ''AllowParallel'', RField ''middlewareContainer'' False True [] ROther,
      unexported ''running'', unexported ''lock'', unexported ''history'', unexported ''lastRun'', unexported ''cronID'']"

definition ExecJob_fields :: "rfield list" where
  "ExecJob_fields =
     [squashed ''BareJob'' BareJob_fields, plain ''Provider'', plain ''Container'', plain ''User'', plain ''TTY'',
      tagged_field ''Environment'' ''environment'', tagged_field ''EnvFile'' ''env-file,'', tagged_field ''EnvFrom'' ''env-from,'',
      tagged_field ''WorkingDir'' ''working-dir'', plain ''Privileged'']"

definition RunJob_fields :: "rfield list" where
  "RunJob_fields =
     [squashed ''BareJob'' BareJob_fields, plain ''Provider'', plain ''User'', tagged_field ''ContainerName'' ''container-name'',
      plain ''TTY'', plain ''Delete'', plain ''Pull'', plain ''Image'', plain ''Network'', plain ''Hostname'',
      plain ''Entrypoint'', plain ''Container'', plain ''Volume'', tagged_field ''VolumesFrom'' ''volumes-from,'',
      tagged_field ''Environment'' ''environment'', tagged_field ''EnvFile'' ''env-file,'', tagged_field ''EnvFrom'' ''env-from,'',
      tagged_field ''WorkingDir'' ''working-dir'', tagged_field ''Annotations'' ''annotations'', tagged_field ''MaxRuntime'' ''max-runtime'',
      unexported ''containerID'', unexported ''mu'']"

definition RunServiceJob_fields :: "rfield list" where
  "RunServiceJob_fields =
     [squashed ''BareJob'' BareJob_fields, plain ''Provider'', plain ''User'', plain ''TTY'', plain ''Delete'', plain ''Image'',
      plain ''Network'', plain ''Hostname'', plain ''Dir'', plain ''Volume'', tagged_field ''Environment'' ''environment'',
      tagged_field ''EnvFile'' ''env-file,'', tagged_field ''EnvFrom'' ''env-from,'', tagged_field ''Annotations'' ''annotations'',
      tagged_field ''MaxRuntime'' ''max-runtime'']"

definition LocalJob_fields :: "rfield list" where
  "LocalJob_fields =
     [squashed ''BareJob'' BareJob_fields, plain ''Dir'', tagged_field ''Environment'' ''environment'',
      tagged_field ''EnvFile'' ''env-file,'', tagged_field ''EnvFrom'' ''env-from,'']"

definition ComposeJob_fields :: "rfield list" where
  "ComposeJob_fields =
     [squashed ''BareJob'' BareJob_fields, tagged_field ''File'' ''file'', tagged_field ''Service'' ''service'', tagged_field ''Exec'' ''exec'']"

text \<open>The five configuration types embed the job and the same settings of the middlewares.\<close>

definition job_config_type :: "string \<Rightarrow> rfield list \<Rightarrow> rtype" where
  "job_config_type name job =
     RStruct
       [squashed name job,
        squashed ''OverlapConfig'' [tagged_field ''NoOverlap'' ''no-overlap''],
        squashed ''SlackConfig''
          [tagged_field ''SlackWebhook'' ''slack-webhook'', tagged_field ''SlackOnlyOnError'' ''slack-only-on-error'', tagged_field ''Dedup'' ''-''],
        squashed ''SaveConfig''
          [tagged_field ''SaveFolder'' ''save-folder'', tagged_field ''SaveOnlyOnError'' ''save-only-on-error'',
           tagged_field ''RestoreHistory'' ''restore-history'', tagged_field ''RestoreHistoryMaxAge'' ''restore-history-max-age''],
        squashed ''MailConfig''
          [tagged_field ''SMTPHost'' ''smtp-host'', tagged_field ''SMTPPort'' ''smtp-port'', tagged_field ''SMTPUser'' ''smtp-user'',
           tagged_field ''SMTPPassword'' ''smtp-password'', tagged_field ''SMTPTLSSkipVerify'' ''smtp-tls-skip-verify'',
           tagged_field ''SMTPTLSPolicy'' ''smtp-tls-policy'', tagged_field ''EmailTo'' ''email-to'', tagged_field ''EmailFrom'' ''email-from'',
           tagged_field ''EmailSubject'' ''email-subject'', tagged_field ''MailOnlyOnError'' ''mail-only-on-error'', tagged_field ''Dedup'' ''-''],
        squashed ''JobWebhookConfig'' [tagged_field ''Webhooks'' ''webhooks''],
        tagged_field ''JobSource'' ''-'']"

definition getKnownKeysForJobType :: "string \<Rightarrow> string list" where
  "getKnownKeysForJobType jobType =
     (if jobType = ''job-exec'' then extractMapstructureKeys (job_config_type ''ExecJob'' ExecJob_fields)
      else if jobType = ''job-run'' then extractMapstructureKeys (job_config_type ''RunJob'' RunJob_fields)
      else if jobType = ''job-service-run'' then extractMapstructureKeys (job_config_type ''RunServiceJob'' RunServiceJob_fields)
      else if jobType = ''job-local'' then extractMapstructureKeys (job_config_type ''LocalJob'' LocalJob_fields)
      else if jobType = ''job-compose'' then extractMapstructureKeys (job_config_type ''ComposeJob'' ComposeJob_fields)
      else [])"

section \<open>The closest key\<close>

text \<open>\<^verbatim>\<open>levenshteinDistance\<close>: the matrix of distances of prefixes, filled row by row in place.\<close>

definition init_matrix :: "string \<Rightarrow> string \<Rightarrow> nat list list" where
  "init_matrix a b =
     (let m = map (\<lambda>i. (replicate (length b + 1) 0)[0 := i]) [0..<length a + 1]
      in m[0 := fold (\<lambda>j row. row[j := j]) [0..<length b + 1] (m ! 0)])"

definition fill_cell :: "string \<Rightarrow> string \<Rightarrow> nat \<Rightarrow> nat \<Rightarrow> nat list list \<Rightarrow> nat list list" where
  "fill_cell a b i j m =
     (let cost = (if a ! (i - 1) = b ! (j - 1) then 0 else 1)
      in m[i := (m ! i)[j := min (m ! (i - 1) ! j + 1)
                              (min (m ! i ! (j - 1) + 1) (m ! (i - 1) ! (j - 1) + cost))]])"

definition fill_row :: "string \<Rightarrow> string \<Rightarrow> nat \<Rightarrow> nat list list \<Rightarrow> nat list list" where
  "fill_row a b i m = fold (fill_cell a b i) [1..<length b + 1] m"

definition levenshteinDistance :: "string \<Rightarrow> string \<Rightarrow> nat" where
  "levenshteinDistance a b =
     (if a = [] then length b
      else if b = [] then length a
      else fold (fill_row a b) [1..<length a + 1] (init_matrix a b) ! length a ! length b)"

definition suggestion_threshold :: "string \<Rightarrow> nat" where
  "suggestion_threshold key = (if 5 < length key then length key * 2 div 5 else 3)"

text \<open>One iteration of the loop of \<^verbatim>\<open>findClosestMatch\<close> on (\<^verbatim>\<open>bestMatch\<close>, \<^verbatim>\<open>bestDistance\<close>).\<close>

definition closest_step :: "string \<Rightarrow> string \<Rightarrow> string \<times> nat \<Rightarrow> string \<times> nat" where
  "closest_step key candidate best =
     (let candidate = ToLower candidate; distance = levenshteinDistance key candidate
      in if distance < snd best \<and> distance \<le> suggestion_threshold key then (candidate, distance) else best)"

definition findClosestMatch :: "string \<Rightarrow> string list \<Rightarrow> string" where
  "findClosestMatch key candidates =
     (if candidates = [] then []
      else let key = ToLower key in fst (fold (closest_step key) candidates ([], length key + 1)))"

record UnknownKeyWarning =
  uk_Section :: string
  uk_Key :: string
  uk_Suggestion :: string

definition GenerateUnknownKeyWarnings :: "string \<Rightarrow> string list \<Rightarrow> string list \<Rightarrow> UnknownKeyWarning list" where
  "GenerateUnknownKeyWarnings sect unusedKeys knownKeys =
     map (\<lambda>key. let w = \<lparr>uk_Section = sect, uk_Key = key, uk_Suggestion = []\<rparr>; suggestion = findClosestMatch key knownKeys
                in if suggestion \<noteq> [] then w\<lparr>uk_Suggestion := suggestion\<rparr> else w) unusedKeys"

section \<open>Validators\<close>

text \<open>\<^verbatim>\<open>strings.Fields\<close>: the maximal runs of bytes that are not white space.\<close>

function split_fields :: "string \<Rightarrow> string \<Rightarrow> string list" where
  "split_fields cur [] = (if cur = [] then [] else [cur])"
| "split_fields cur (c # s) =
     (case find (HasPrefix (c # s)) space_runes of
        Some r \<Rightarrow> (if cur = [] then [] else [cur]) @ split_fields [] (drop (length r - 1) s)
      | None \<Rightarrow> split_fields (cur @ [c]) s)"
  by pat_completeness auto
termination
  by (relation "measure (\<lambda>(cur, s). length s)") auto

definition Fields :: "string \<Rightarrow> string list" where
  "Fields s = split_fields [] s"

definition special_schedules :: "string list" where
  "special_schedules =
     [''@yearly'', ''@annually'', ''@monthly'', ''@weekly'', ''@daily'', ''@midnight'', ''@hourly'',
      ''@triggered'', ''@manual'', ''@none'']"

definition digit_class :: "(nat \<times> nat) list" where "digit_class = [(48, 57)]"
definition alnum_class :: "(nat \<times> nat) list" where "alnum_class = [(97, 122), (65, 90), (48, 57)]"

definition cronFieldRegex :: rexp where
  "cronFieldRegex = rep1 (Class (digit_class @ chars ''*-,/?LW#''))"

definition validateCron :: "string \<Rightarrow> bool" where
  "validateCron value =
     (if value = [] then True
      else if HasPrefix value ''@'' then
        if value \<in> set special_schedules then True
        else if HasPrefix value ''@every '' then ParseDuration (drop 7 value) \<noteq> None
        else False
      else
        let parts = Fields value in
        if length parts < 5 \<or> 6 < length parts then False
        else list_all (full_match cronFieldRegex) parts)"

definition image_word :: rexp where
  "image_word = Cat (Class alnum_class) (opt (Cat (Rep (Class (alnum_class @ chars ''._-''))) (Class alnum_class)))"

definition imageRegex :: rexp where
  "imageRegex =
     cats [image_word, Rep (Cat (Class (chars ''/'')) image_word),
           opt (Cat (Class (chars '':'')) (rep1 (Class (alnum_class @ chars ''._-'')))),
           opt (Cat (text_of ''@sha256:'') (rep_n 64 (Class [(97, 102), (48, 57)])))]"

definition validateDockerImage :: "string \<Rightarrow> bool" where
  "validateDockerImage value =
     (if value = [] then True
      else
        let bad_port =
          (if Contains value '':'' \<and> Contains value ''/'' then
             let parts = SplitN value (CHR ''/'') 2 in
             if length parts = 2 \<and> Contains (parts ! 0) '':'' then
               let hostPort = SplitN (parts ! 0) (CHR '':'') 2 in
               length hostPort = 2 \<and> hostPort ! 1 \<noteq> [] \<and> \<not> list_all is_digit (hostPort ! 1)
             else False
           else False)
        in if bad_port then False else full_match imageRegex value \<or> Contains value ''/'')"

datatype duration_field = FDuration duration | FInt64 int | FAny

definition validateDurationGTE :: "duration_field \<Rightarrow> string \<Rightarrow> bool" where
  "validateDurationGTE field param =
     (case field of
        FDuration dur \<Rightarrow> (case ParseDuration param of None \<Rightarrow> False | Some minDur \<Rightarrow> minDur \<le> dur)
      | FInt64 dur \<Rightarrow> (case ParseDuration param of None \<Rightarrow> False | Some minDur \<Rightarrow> minDur \<le> dur)
      | FAny \<Rightarrow> True)"

text \<open>\<^verbatim>\<open>ValidateConfig\<close>: the errors of the validator library, \<open>fe_Value\<close> printed with \<^verbatim>\<open>%v\<close>.\<close>

record FieldError =
  fe_Field :: string
  fe_Tag :: string
  fe_Param :: string
  fe_Value :: string

datatype struct_result = StructValid | StructInvalid "FieldError list" | StructFailed go_error

definition ErrValidationFailed :: go_error where "ErrValidationFailed = Opaque 95 ''validation failed''"

definition formatValidationError :: "FieldError \<Rightarrow> string" where
  "formatValidationError e =
     (let field = fe_Field e; tag = fe_Tag e; param = fe_Param e; got = '' (got: '' @ fe_Value e @ '')''
      in if tag = ''required'' then field @ '': required field is empty''
         else if tag = ''gte'' then field @ '': must be >= '' @ param @ got
         else if tag = ''lte'' then field @ '': must be <= '' @ param @ got
         else if tag = ''min'' then field @ '': must be at least '' @ param @ '' characters'' @ got
         else if tag = ''max'' then field @ '': must be at most '' @ param @ '' characters'' @ got
         else if tag = ''oneof'' then field @ '': must be one of ['' @ param @ '']'' @ got
         else if tag = ''url'' then field @ '': must be a valid URL'' @ got
         else if tag = ''email'' then field @ '': must be a valid email'' @ got
         else if tag = ''cron'' then field @ '': must be a valid cron expression'' @ got
         else if tag = ''dockerimage'' then field @ '': must be a valid Docker image reference'' @ got
         else if tag = ''duration_gte'' then field @ '': duration must be >= '' @ param @ got
         else field @ '': validation '' @ [squote] @ tag @ [squote] @ '' failed'' @ got)"

fun join_lines :: "string list \<Rightarrow> string" where
  "join_lines [] = []"
| "join_lines [m] = m"
| "join_lines (m # ms) = m @ [CHR 0x0A] @ ''  '' @ join_lines ms"

definition ValidateConfig :: "struct_result \<Rightarrow> result" where
  "ValidateConfig r =
     (case r of
        StructValid \<Rightarrow> None
      | StructFailed err \<Rightarrow> Some (Errorf [Wrap ErrValidationFailed, Lit '': '', Wrap err])
      | StructInvalid errs \<Rightarrow>
          Some (Errorf [Wrap ErrValidationFailed, Lit ('':'' @ [CHR 0x0A] @ ''  ''), Str (join_lines (map formatValidationError errs))]))"

section \<open>The edit distance\<close>

text \<open>One edit: insert, delete or replace a byte.\<close>

inductive edit1 :: "string \<Rightarrow> string \<Rightarrow> bool" where
  Insert: "edit1 (u @ v) (u @ c # v)"
| Delete: "edit1 (u @ c # v) (u @ v)"
| Replace: "edit1 (u @ c # v) (u @ d # v)"

text \<open>An alignment of two strings and its cost, read from the right as the matrix is.\<close>

inductive align :: "string \<Rightarrow> string \<Rightarrow> nat \<Rightarrow> bool" where
  Nil: "align [] [] 0"
| Del: "align a b n \<Longrightarrow> align (a @ [x]) b (Suc n)"
| Ins: "align a b n \<Longrightarrow> align a (b @ [y]) (Suc n)"
| Sub: "align a b n \<Longrightarrow> align (a @ [x]) (b @ [y]) (n + (if x = y then 0 else 1))"

inductive_cases align_snocE: "align (a @ [x]) (b @ [y]) n"
inductive_cases align_NilE: "align [] [] n"

text \<open>The recurrence of the matrix.\<close>

fun lev :: "string \<Rightarrow> string \<Rightarrow> nat \<Rightarrow> nat \<Rightarrow> nat" where
  "lev a b 0 j = j"
| "lev a b (Suc i) 0 = Suc i"
| "lev a b (Suc i) (Suc j) =
     min (lev a b i (Suc j) + 1)
       (min (lev a b (Suc i) j + 1) (lev a b i j + (if a ! i = b ! j then 0 else 1)))"

lemma align_left: "align a [] (length a)"
  by (induction a rule: rev_induct) (auto intro: align.intros)

lemma align_right: "align [] b (length b)"
  by (induction b rule: rev_induct) (auto intro: align.intros)

lemma align_append: "align a b n \<Longrightarrow> align a0 b0 m \<Longrightarrow> align (a0 @ a) (b0 @ b) (m + n)"
proof (induction rule: align.induct)
  case (Del a b n x)
  then show ?case using align.Del [of "a0 @ a" "b0 @ b" "m + n" x] by simp
next
  case (Ins a b n y)
  then show ?case using align.Ins [of "a0 @ a" "b0 @ b" "m + n" y] by simp
next
  case (Sub a b n x y)
  then show ?case using align.Sub [of "a0 @ a" "b0 @ b" "m + n" x y] by (simp add: add.assoc)
qed simp

lemma align_length: "align a b n \<Longrightarrow> length a \<le> length b + n \<and> length b \<le> length a + n"
  by (induction rule: align.induct) auto

lemma align_refl: "align a a 0"
proof (induction a rule: rev_induct)
  case (snoc x a)
  then show ?case using align.Sub [of a a 0 x x] by simp
qed (rule align.Nil)

text \<open>An alignment with a concatenation splits.\<close>

lemma align_split:
  "align a b n \<Longrightarrow> b = u @ v \<Longrightarrow>
   \<exists>a1 a2 n1 n2. a = a1 @ a2 \<and> n = n1 + n2 \<and> align a1 u n1 \<and> align a2 v n2"
proof (induction arbitrary: u v rule: align.induct)
  case Nil
  then show ?case by (auto intro: align.Nil)
next
  case (Del a b n x)
  then obtain a1 a2 n1 n2 where "a = a1 @ a2" "n = n1 + n2" "align a1 u n1" "align a2 v n2" by blast
  then show ?case
    using align.Del [of a2 v n2 x] by (intro exI [of _ a1] exI [of _ "a2 @ [x]"] exI [of _ n1] exI [of _ "Suc n2"]) simp
next
  case (Ins a b n y)
  show ?case
  proof (cases v rule: rev_cases)
    case Nil
    then have "align a u (Suc n)" using Ins align.Ins [of a b n y] by simp
    then show ?thesis using Nil align.Nil by (intro exI [of _ a] exI [of _ "[]"] exI [of _ "Suc n"] exI [of _ 0]) simp
  next
    case (snoc v' z)
    then have v: "b = u @ v'" "y = z" using Ins.prems by auto
    then obtain a1 a2 n1 n2 where "a = a1 @ a2" "n = n1 + n2" "align a1 u n1" "align a2 v' n2" using Ins.IH by blast
    then show ?thesis
      using snoc v align.Ins [of a2 v' n2 z]
      by (intro exI [of _ a1] exI [of _ a2] exI [of _ n1] exI [of _ "Suc n2"]) simp
  qed
next
  case (Sub a b n x y)
  show ?case
  proof (cases v rule: rev_cases)
    case Nil
    then show ?thesis
      using Sub align.Sub [of a b n x y] align.Nil
      by (intro exI [of _ "a @ [x]"] exI [of _ "[]"] exI [of _ "n + (if x = y then 0 else 1)"] exI [of _ 0]) simp
  next
    case (snoc v' z)
    then have v: "b = u @ v'" "y = z" using Sub.prems by auto
    then obtain a1 a2 n1 n2 where "a = a1 @ a2" "n = n1 + n2" "align a1 u n1" "align a2 v' n2" using Sub.IH by blast
    then show ?thesis
      using snoc v align.Sub [of a2 v' n2 x z]
      by (intro exI [of _ a1] exI [of _ "a2 @ [x]"] exI [of _ n1] exI [of _ "n2 + (if x = z then 0 else 1)"]) simp
  qed
qed

lemma align_single: "align a [c] n \<Longrightarrow> \<exists>m\<le>Suc n. align a [d] m"
proof -
  assume a: "align a [c] n"
  show ?thesis
  proof (cases a rule: rev_cases)
    case Nil
    then show ?thesis using align_right [of "[d]"] by (intro exI [of _ 1]) simp
  next
    case (snoc a' x)
    have "align a [d] (length a' + (if x = d then 0 else 1))"
      using align.Sub [OF align_left, of a' x d] snoc by simp
    then show ?thesis using align_length [OF a] snoc by (intro exI conjI) (assumption?, auto)
  qed
qed

lemma edit1_snoc: "edit1 a b \<Longrightarrow> edit1 (a @ [x]) (b @ [x])"
proof (induction rule: edit1.induct)
  case (Insert u v c)
  then show ?case using edit1.Insert [of u "v @ [x]" c] by simp
next
  case (Delete u c v)
  then show ?case using edit1.Delete [of u c "v @ [x]"] by simp
next
  case (Replace u c v d)
  then show ?case using edit1.Replace [of u c "v @ [x]" d] by simp
qed

lemma edits_snoc: "(edit1 ^^ n) a b \<Longrightarrow> (edit1 ^^ n) (a @ [x]) (b @ [x])"
proof (induction n arbitrary: b)
  case (Suc n)
  then obtain c where "(edit1 ^^ n) a c" "edit1 c b" by auto
  then show ?case using relpowp_Suc_I [OF Suc.IH edit1_snoc] by blast
qed simp

lemma align_edits: "align a b n \<Longrightarrow> (edit1 ^^ n) a b"
proof (induction rule: align.induct)
  case (Del a b n x)
  then show ?case using relpowp_Suc_I2 [of edit1 "a @ [x]" a n b] edit1.Delete [of a x "[]"] by simp
next
  case (Ins a b n y)
  then show ?case using relpowp_Suc_I [of n edit1 a b] edit1.Insert [of b "[]" y] by simp
next
  case (Sub a b n x y)
  have "(edit1 ^^ n) (a @ [x]) (b @ [x])" using Sub.IH by (rule edits_snoc)
  moreover have "edit1 (b @ [x]) (b @ [y])" using edit1.Replace [of b x "[]" y] by simp
  ultimately show ?case using relpowp_Suc_I by (cases "x = y") fastforce+
qed simp

lemma align_edit1:
  assumes "edit1 b c" and "align a b n"
  shows "\<exists>m\<le>Suc n. align a c m"
  using assms(1)
proof cases
  case (Insert u v x)
  then obtain a1 a2 n1 n2 where s: "a = a1 @ a2" "n = n1 + n2" "align a1 u n1" "align a2 v n2"
    using align_split [OF assms(2)] by blast
  have "align a2 (x # v) (Suc n2)" using align_append [OF s(4) align_right [of "[x]"]] by simp
  then show ?thesis using align_append [of a2 "x # v" "Suc n2" a1 u n1] s Insert by auto
next
  case (Delete u x v)
  then obtain a1 a2 n1 n2 where s: "a = a1 @ a2" "n = n1 + n2" "align a1 u n1" "align a2 ([x] @ v) n2"
    using align_split [OF assms(2), of u "x # v"] by auto
  obtain a3 a4 n3 n4 where t: "a2 = a3 @ a4" "n2 = n3 + n4" "align a3 [x] n3" "align a4 v n4"
    using align_split [OF s(4)] by blast
  have "align (a3 @ a4) v (length a3 + n4)" using align_append [OF t(4) align_left [of a3]] by simp
  then have "align a c (n1 + (length a3 + n4))" using align_append [of "a3 @ a4" v _ a1 u n1] s t Delete by simp
  then show ?thesis using align_length [OF t(3)] s t by (intro exI conjI) (assumption?, auto)
next
  case (Replace u x v y)
  then obtain a1 a2 n1 n2 where s: "a = a1 @ a2" "n = n1 + n2" "align a1 u n1" "align a2 ([x] @ v) n2"
    using align_split [OF assms(2), of u "x # v"] by auto
  obtain a3 a4 n3 n4 where t: "a2 = a3 @ a4" "n2 = n3 + n4" "align a3 [x] n3" "align a4 v n4"
    using align_split [OF s(4)] by blast
  obtain m where m: "m \<le> Suc n3" "align a3 [y] m" using align_single [OF t(3)] by blast
  have "align (a3 @ a4) (y # v) (m + n4)" using align_append [OF t(4) m(2)] by simp
  then have "align a c (n1 + (m + n4))" using align_append [of "a3 @ a4" "y # v" _ a1 u n1] s t Replace by simp
  then show ?thesis using m(1) s t by (intro exI conjI) (assumption?, auto)
qed

lemma edits_align: "(edit1 ^^ n) a b \<Longrightarrow> \<exists>m\<le>n. align a b m"
proof (induction n arbitrary: b)
  case 0
  then show ?case using align_refl by auto
next
  case (Suc n)
  then obtain c where "(edit1 ^^ n) a c" "edit1 c b" by auto
  then obtain m k where "m \<le> n" "align a c m" "k \<le> Suc m" "align a b k" using Suc.IH align_edit1 by meson
  then show ?case by (intro exI [of _ k]) simp
qed

lemma lev_align:
  "i \<le> length a \<Longrightarrow> j \<le> length b \<Longrightarrow> align (take i a) (take j b) (lev a b i j)"
proof (induction i j rule: lev.induct [where ?a0.0 = a and ?a1.0 = b, consumes 0])
  case (1 a b j)
  then show ?case using align_right [of "take j b"] by simp
next
  case (2 a b i)
  then show ?case using align_left [of "take (Suc i) a"] by simp
next
  case (3 a b i j)
  then have "align (take i a) (take (Suc j) b) (lev a b i (Suc j))" "align (take (Suc i) a) (take j b) (lev a b (Suc i) j)"
    "align (take i a) (take j b) (lev a b i j)" by simp_all
  then show ?case
    using 3(4,5) align.Del [of "take i a" "take (Suc j) b" _ "a ! i"] align.Ins [of "take (Suc i) a" "take j b" _ "b ! j"]
      align.Sub [of "take i a" "take j b" _ "a ! i" "b ! j"]
    by (auto simp: min_def take_Suc_conv_app_nth)
qed

lemma lev_0 [simp]: "lev a b i 0 = i"
  by (cases i) simp_all

lemma lev_minimal:
  "align a' b' n \<Longrightarrow> a' = take i a \<Longrightarrow> b' = take j b \<Longrightarrow> i \<le> length a \<Longrightarrow> j \<le> length b \<Longrightarrow> lev a b i j \<le> n"
proof (induction arbitrary: i j rule: align.induct)
  case Nil
  then show ?case by (cases i; cases j) auto
next
  case (Del a' b' n x)
  then obtain k where k: "i = Suc k" "a' = take k a" by (cases i) (auto simp: take_Suc_conv_app_nth)
  then have "lev a b k j \<le> n" using Del by simp
  then show ?case using k by (cases j) auto
next
  case (Ins a' b' n y)
  then obtain k where k: "j = Suc k" "b' = take k b" by (cases j) (auto simp: take_Suc_conv_app_nth)
  then have "lev a b i k \<le> n" using Ins by simp
  then show ?case using k by (cases i) auto
next
  case (Sub a' b' n x y)
  then obtain k l where k: "i = Suc k" "a' = take k a" "a ! k = x" "j = Suc l" "b' = take l b" "b ! l = y"
    by (cases i; cases j) (auto simp: take_Suc_conv_app_nth)
  then have "lev a b k l \<le> n" using Sub by simp
  then show ?case using k by auto
qed

text \<open>The part of the matrix that is final before cell (\<open>i\<close>, \<open>j\<close>) is written.\<close>

definition final_cell :: "nat \<Rightarrow> nat \<Rightarrow> nat \<Rightarrow> nat \<Rightarrow> bool" where
  "final_cell i j p q \<longleftrightarrow> p < i \<or> (p = i \<and> q < j) \<or> p = 0 \<or> q = 0"

definition filled :: "string \<Rightarrow> string \<Rightarrow> nat \<Rightarrow> nat \<Rightarrow> nat list list \<Rightarrow> bool" where
  "filled a b i j m \<longleftrightarrow>
     length m = Suc (length a) \<and> (\<forall>p\<le>length a. length (m ! p) = Suc (length b)) \<and>
     (\<forall>p q. p \<le> length a \<longrightarrow> q \<le> length b \<longrightarrow> final_cell i j p q \<longrightarrow> m ! p ! q = lev a b p q)"

lemma filled_value:
  "filled a b i j m \<Longrightarrow> p \<le> length a \<Longrightarrow> q \<le> length b \<Longrightarrow> final_cell i j p q \<Longrightarrow> m ! p ! q = lev a b p q"
  by (simp add: filled_def)

lemma filled_mono:
  "filled a b i j m \<Longrightarrow> (\<And>p q. q \<le> length b \<Longrightarrow> final_cell i' j' p q \<Longrightarrow> final_cell i j p q) \<Longrightarrow> filled a b i' j' m"
  by (simp add: filled_def)

lemma first_row: "k \<le> length row \<Longrightarrow> fold (\<lambda>j row. row[j := j]) [0..<k] row = [0..<k] @ drop k row"
proof (induction k)
  case (Suc k)
  then show ?case by (simp add: list_update_append Cons_nth_drop_Suc [symmetric])
qed simp

lemma init_filled: "filled a b 1 1 (init_matrix a b)"
proof -
  define row where "row = [0..<length b + 1]"
  have row: "fold (\<lambda>j row. row[j := j]) [0..<length b + 1] ((replicate (length b + 1) 0)[0 := 0]) = row"
    unfolding row_def by (subst first_row) simp_all
  have first: "map (\<lambda>i. (replicate (length b + 1) 0)[0 := i]) [0..<length a + 1] ! 0 = (replicate (length b + 1) 0)[0 := 0]"
    by (simp del: upt_Suc replicate.simps)
  have m: "init_matrix a b = (map (\<lambda>i. (replicate (length b + 1) 0)[0 := i]) [0..<length a + 1])[0 := row]"
    unfolding init_matrix_def Let_def by (simp only: first row)
  have "init_matrix a b ! p ! q = lev a b p q" if "p \<le> length a" "q \<le> length b" "final_cell 1 1 p q" for p q
    using that unfolding m row_def
    by (cases p) (auto simp: nth_list_update final_cell_def simp del: upt_Suc replicate.simps)
  moreover have "length (init_matrix a b ! p) = Suc (length b)" if "p \<le> length a" for p
    using that unfolding m row_def by (simp add: nth_list_update del: upt_Suc replicate.simps)
  moreover have "length (init_matrix a b) = Suc (length a)" unfolding m by simp
  ultimately show ?thesis by (simp add: filled_def)
qed

lemma cell_filled:
  assumes "filled a b (Suc i) (Suc j) m" and "i < length a" and "j < length b"
  shows "filled a b (Suc i) (Suc (Suc j)) (fill_cell a b (Suc i) (Suc j) m)"
proof -
  have "m ! i ! Suc j = lev a b i (Suc j)" "m ! Suc i ! j = lev a b (Suc i) j" "m ! i ! j = lev a b i j"
    using assms by (simp_all add: filled_value final_cell_def)
  then have cell: "fill_cell a b (Suc i) (Suc j) m = m[Suc i := (m ! Suc i)[Suc j := lev a b (Suc i) (Suc j)]]"
    by (simp add: fill_cell_def Let_def)
  have before: "p = Suc i \<and> q = Suc j \<or> final_cell (Suc i) (Suc j) p q" if "final_cell (Suc i) (Suc (Suc j)) p q" for p q
    using that by (auto simp: final_cell_def)
  have "m[Suc i := (m ! Suc i)[Suc j := lev a b (Suc i) (Suc j)]] ! p ! q = lev a b p q"
    if "p \<le> length a" "q \<le> length b" "final_cell (Suc i) (Suc (Suc j)) p q" for p q
  proof (cases "p = Suc i \<and> q = Suc j")
    case True
    then show ?thesis using assms by (simp add: filled_def del: lev.simps)
  next
    case False
    then have "m ! p ! q = lev a b p q" using before [OF that(3)] that(1,2) filled_value [OF assms(1)] by blast
    then show ?thesis using False assms by (auto simp: filled_def nth_list_update simp del: lev.simps)
  qed
  moreover have "length (m[Suc i := (m ! Suc i)[Suc j := lev a b (Suc i) (Suc j)]] ! p) = Suc (length b)"
    if "p \<le> length a" for p
    using assms(1,2) that by (cases "p = Suc i") (simp_all add: filled_def del: lev.simps)
  moreover have "length m = Suc (length a)" using assms(1) by (simp add: filled_def)
  ultimately show ?thesis unfolding cell filled_def by (simp del: lev.simps)
qed

lemma row_filled:
  assumes "filled a b (Suc i) 1 m" and "i < length a"
  shows "filled a b (Suc (Suc i)) 1 (fill_row a b (Suc i) m)"
proof -
  have "k \<le> length b \<Longrightarrow> filled a b (Suc i) (Suc k) (fold (fill_cell a b (Suc i)) [1..<k + 1] m)" for k
  proof (induction k)
    case (Suc k)
    then show ?case using cell_filled [of a b i k] assms by simp
  qed (use assms in simp)
  then have "filled a b (Suc i) (Suc (length b)) (fill_row a b (Suc i) m)" by (simp add: fill_row_def)
  then show ?thesis by (rule filled_mono) (auto simp: final_cell_def)
qed

lemma matrix_filled:
  "k \<le> length a \<Longrightarrow> filled a b (Suc k) 1 (fold (fill_row a b) [1..<k + 1] (init_matrix a b))"
proof (induction k)
  case 0
  then show ?case using init_filled by simp
next
  case (Suc k)
  then show ?case using row_filled [of a b k] by simp
qed

lemma levenshtein_lev: "levenshteinDistance a b = lev a b (length a) (length b)"
proof (cases "a = [] \<or> b = []")
  case True
  then show ?thesis by (cases "a = []") (auto simp: levenshteinDistance_def)
next
  case False
  then show ?thesis
    using filled_value [OF matrix_filled [of "length a" a b], of "length a" "length b"]
    by (simp add: levenshteinDistance_def final_cell_def del: upt_Suc)
qed

lemma levenshtein_align: "align a b (levenshteinDistance a b)"
  using lev_align [of "length a" a "length b" b] by (simp add: levenshtein_lev)

lemma levenshtein_least: "(edit1 ^^ n) a b \<Longrightarrow> levenshteinDistance a b \<le> n"
  using edits_align [of n a b] lev_minimal [of a b _ "length a" a "length b" b]
  by (fastforce simp: levenshtein_lev)

text \<open>C7 (levenshtein_is_edit_distance): \<^verbatim>\<open>levenshteinDistance\<close> is the edit distance of the two byte
  strings: the entry of the matrix at its last row and column is the least number of insertions,
  deletions and replacements of a byte that turn the one into the other.\<close>

theorem levenshtein_is_edit_distance: "levenshteinDistance a b = (LEAST n. (edit1 ^^ n) a b)"
  using align_edits [OF levenshtein_align] levenshtein_least by (rule Least_equality [symmetric])

lemma levenshtein_zero: "levenshteinDistance a b = 0 \<longleftrightarrow> a = b"
  using align_edits [OF levenshtein_align, of a b] levenshtein_least [of 0 a b] by auto

lemma edit1_sym: "edit1 a b \<Longrightarrow> edit1 b a"
  by (induction rule: edit1.induct) (rule edit1.intros)+

lemma edits_sym: "(edit1 ^^ n) a b \<Longrightarrow> (edit1 ^^ n) b a"
proof (induction n arbitrary: b)
  case (Suc n)
  then obtain c where "(edit1 ^^ n) a c" "edit1 c b" by auto
  then show ?case using relpowp_Suc_I2 [of edit1 b c n a] Suc.IH edit1_sym by blast
qed simp

lemma levenshtein_sym: "levenshteinDistance a b = levenshteinDistance b a"
  using levenshtein_least align_edits [OF levenshtein_align] edits_sym by (meson order_antisym)

lemma levenshtein_triangle: "levenshteinDistance a c \<le> levenshteinDistance a b + levenshteinDistance b c"
  by (rule levenshtein_least) (auto simp: relpowp_add intro: relcomppI align_edits levenshtein_align)

lemma levenshtein_lengths: "length a \<le> length b + levenshteinDistance a b \<and> length b \<le> length a + levenshteinDistance a b"
  by (rule align_length [OF levenshtein_align])

section \<open>The suggestion\<close>

lemma arg_min_list_snoc:
  "xs \<noteq> [] \<Longrightarrow> arg_min_list f (xs @ [c]) = (if f c < f (arg_min_list f xs) then c else arg_min_list f xs)"
  for f :: "'a \<Rightarrow> nat"
  by (induction f xs rule: arg_min_list.induct) (auto simp: Let_def)

definition near_keys :: "string \<Rightarrow> string list \<Rightarrow> string list" where
  "near_keys key cs =
     filter (\<lambda>c. levenshteinDistance key c \<le> min (suggestion_threshold key) (length key)) (map ToLower cs)"

lemma closest_fold:
  "fold (closest_step key) cs ([], length key + 1) =
     (let near = near_keys key cs in
      if near = [] then ([], length key + 1)
      else (arg_min_list (levenshteinDistance key) near, levenshteinDistance key (arg_min_list (levenshteinDistance key) near)))"
proof (induction cs rule: rev_induct)
  case Nil
  then show ?case by (simp add: near_keys_def)
next
  case (snoc c cs)
  have "levenshteinDistance key (arg_min_list (levenshteinDistance key) (near_keys key cs)) \<le> length key"
    if "near_keys key cs \<noteq> []"
    using arg_min_list_in [OF that, of "levenshteinDistance key"] by (auto simp: near_keys_def)
  moreover have "near_keys key (cs @ [c]) = near_keys key cs @
     (if levenshteinDistance key (ToLower c) \<le> min (suggestion_threshold key) (length key) then [ToLower c] else [])"
    by (simp add: near_keys_def)
  ultimately show ?case
    using snoc by (auto simp: closest_step_def Let_def arg_min_list_snoc split: if_splits)
qed

text \<open>C31 (closest_match_reference): a suggestion is the first of the known keys with the least edit distance from the key, both in lower case,
  among those within the threshold: up to three edits for a key of at most five bytes, up to two fifths of its length, rounded down, for a longer one,
  and never more than its length; without such a key there is none. This is what the code does; the comment at
  \<^verbatim>\<open>src/cli/config_validate.go:246\<close> says fewer than three edits or less than 40%, which contradicts it at both bounds.\<close>

theorem closest_match_reference:
  "findClosestMatch key candidates =
     (let k = ToLower key;
          near = filter (\<lambda>c. levenshteinDistance k c \<le> min (if 5 < length k then length k * 2 div 5 else 3) (length k))
            (map ToLower candidates)
      in if near = [] then [] else arg_min_list (levenshteinDistance k) near)"
  using closest_fold [of "ToLower key" candidates] by (simp add: findClosestMatch_def near_keys_def suggestion_threshold_def Let_def)

lemma closest_fst: "findClosestMatch key cs =
   (let near = near_keys (ToLower key) cs in
    if near = [] then [] else arg_min_list (levenshteinDistance (ToLower key)) near)"
  using closest_fold [of "ToLower key" cs] by (simp add: findClosestMatch_def near_keys_def Let_def)

lemma closest_match_best:
  assumes "findClosestMatch key cs \<noteq> []" and "c \<in> set cs"
  shows "levenshteinDistance (ToLower key) (findClosestMatch key cs) \<le> levenshteinDistance (ToLower key) (ToLower c)"
proof (cases "ToLower c \<in> set (near_keys (ToLower key) cs)")
  case True
  then show ?thesis using f_arg_min_list_f [of "near_keys (ToLower key) cs" "levenshteinDistance (ToLower key)"]
    by (auto simp: closest_fst Let_def)
next
  case False
  have "findClosestMatch key cs \<in> set (near_keys (ToLower key) cs)"
    using assms(1) arg_min_list_in [of "near_keys (ToLower key) cs"] by (auto simp: closest_fst Let_def split: if_splits)
  then show ?thesis using False assms(2) by (auto simp: near_keys_def)
qed

lemma GenerateUnknownKeyWarnings_eq:
  "GenerateUnknownKeyWarnings sect unused known =
     map (\<lambda>key. \<lparr>uk_Section = sect, uk_Key = key, uk_Suggestion = findClosestMatch key known\<rparr>) unused"
  by (auto simp: GenerateUnknownKeyWarnings_def Let_def)

section \<open>Known keys\<close>

text \<open>The keys of every kind of job: those of \<^verbatim>\<open>BareJob\<close>, those of the kinds, those of the middlewares.\<close>

definition bare_keys :: "string list" where
  "bare_keys =
     [''schedule'', ''name'', ''command'', ''run-on-startup'', ''historylimit'', ''maxretries'',
      ''retrydelayms'', ''retryexponential'', ''retrymaxdelayms'', ''depends-on'', ''on-success'',
      ''on-failure'', ''allowparallel'']"

definition kind_keys :: "string list" where
  "kind_keys =
     [''provider'', ''container'', ''user'', ''tty'', ''environment'', ''env-file'', ''env-from'',
      ''working-dir'', ''privileged'', ''container-name'', ''delete'', ''pull'', ''image'', ''network'',
      ''hostname'', ''entrypoint'', ''volume'', ''volumes-from'', ''annotations'', ''max-runtime'', ''dir'',
      ''file'', ''service'', ''exec'']"

definition middleware_keys :: "string list" where
  "middleware_keys =
     [''no-overlap'', ''slack-webhook'', ''slack-only-on-error'', ''save-folder'', ''save-only-on-error'',
      ''restore-history'', ''restore-history-max-age'', ''smtp-host'', ''smtp-port'', ''smtp-user'',
      ''smtp-password'', ''smtp-tls-skip-verify'', ''smtp-tls-policy'', ''email-to'', ''email-from'',
      ''email-subject'', ''mail-only-on-error'', ''webhooks'']"

lemma known_keys_cases:
  "getKnownKeysForJobType ''job-exec'' = bare_keys @
     [''provider'', ''container'', ''user'', ''tty'', ''environment'', ''env-file'', ''env-from'',
      ''working-dir'', ''privileged''] @ middleware_keys"
  "getKnownKeysForJobType ''job-run'' = bare_keys @
     [''provider'', ''user'', ''container-name'', ''tty'', ''delete'', ''pull'', ''image'', ''network'',
      ''hostname'', ''entrypoint'', ''container'', ''volume'', ''volumes-from'', ''environment'', ''env-file'',
      ''env-from'', ''working-dir'', ''annotations'', ''max-runtime''] @ middleware_keys"
  "getKnownKeysForJobType ''job-service-run'' = bare_keys @
     [''provider'', ''user'', ''tty'', ''delete'', ''image'', ''network'', ''hostname'', ''dir'', ''volume'',
      ''environment'', ''env-file'', ''env-from'', ''annotations'', ''max-runtime''] @ middleware_keys"
  "getKnownKeysForJobType ''job-local'' = bare_keys @
     [''dir'', ''environment'', ''env-file'', ''env-from''] @ middleware_keys"
  "getKnownKeysForJobType ''job-compose'' = bare_keys @
     [''file'', ''service'', ''exec''] @ middleware_keys"
  by code_simp+


lemma all_keys_distinct: "distinct (map normalizeKey (bare_keys @ kind_keys @ middleware_keys))"
  by code_simp

lemma known_keys_sub:
  "distinct (getKnownKeysForJobType t) \<and> set (getKnownKeysForJobType t) \<subseteq> set (bare_keys @ kind_keys @ middleware_keys)"
proof -
  have all: "distinct (bare_keys @ kind_keys @ middleware_keys)" 
    using all_keys_distinct unfolding distinct_map by (rule conjunct1)
  have part: "distinct (bare_keys @ ks @ middleware_keys) \<and>
      set (bare_keys @ ks @ middleware_keys) \<subseteq> set (bare_keys @ kind_keys @ middleware_keys)"
    if "distinct ks" "set ks \<subseteq> set kind_keys" for ks
    using all that by auto
  consider "t \<in> {''job-exec'', ''job-run'', ''job-service-run'', ''job-local'', ''job-compose''}" | "getKnownKeysForJobType t = []"
    by (cases "t \<in> {''job-exec'', ''job-run'', ''job-service-run'', ''job-local'', ''job-compose''}")
       (simp_all add: getKnownKeysForJobType_def)
  then show ?thesis
  proof cases
    case 1
    then show ?thesis
      by (elim insertE emptyE; hypsubst; unfold known_keys_cases; intro part; simp add: kind_keys_def)
  qed simp
qed

text \<open>(job_keys_unambiguous): no input key matches two settings of a job: the keys of every kind of job stay
  distinct when case, dashes and underscores are ignored, as the decoder compares them.\<close>

theorem job_keys_unambiguous: "distinct (map normalizeKey (getKnownKeysForJobType t))"
proof -
  have "inj_on normalizeKey (set (bare_keys @ kind_keys @ middleware_keys))"
    using all_keys_distinct unfolding distinct_map by (rule conjunct2)
  with known_keys_sub [of t] show ?thesis by (auto simp: distinct_map simp del: set_append intro: inj_on_subset)
qed

section \<open>What the validators accept\<close>

lemma split_no_slash: "CHR ''/'' \<notin> set v \<Longrightarrow> \<not> Contains v ''/''"
  by (simp add: Contains_single)

lemma SplitN_two: "SplitN v c 2 = (case IndexByte v c of None \<Rightarrow> [v] | Some i \<Rightarrow> [take i v, drop (Suc i) v])"
  by (simp add: numeral_2_eq_2 split: option.splits)

text \<open>(image_check_is_vacuous): \<^verbatim>\<open>validateDockerImage\<close> accepts every reference of the form \<^verbatim>\<open>host/rest\<close> whose
  host has no colon, or a port of digits, whatever bytes follow the slash.\<close>

theorem image_check_is_vacuous:
  assumes "CHR ''/'' \<notin> set host"
  shows "validateDockerImage (host @ CHR ''/'' # rest) \<longleftrightarrow>
    (case IndexByte host (CHR '':'') of None \<Rightarrow> True | Some i \<Rightarrow> list_all is_digit (drop (Suc i) host))"
proof -
  have "IndexByte (host @ CHR ''/'' # rest) (CHR ''/'') = Some (length host)"
    using assms by (rule IndexByte_append)
  moreover have "Contains (host @ CHR ''/'' # rest) ''/''" by (simp add: Contains_single)
  moreover have "Contains host '':'' \<Longrightarrow> Contains (host @ CHR ''/'' # rest) '':''" by (simp add: Contains_single)
  ultimately show ?thesis
    using IndexByte_None [of host "CHR '':''"]
    by (cases "IndexByte host (CHR '':'')") (auto simp: validateDockerImage_def SplitN_two Let_def Contains_single)
qed

theorem image_check_is_vacuous_witness:
  "validateDockerImage ''registry:5000/!! not an image !!''"
  using image_check_is_vacuous [of "''registry:5000''" "''!! not an image !!''"] by (simp add: is_digit_def)

text \<open>The threshold of a key of six or seven bytes is lower than that of a shorter one.\<close>

lemma threshold_not_monotone:
  "suggestion_threshold ''alpha'' = 3 \<and> suggestion_threshold ''alphas'' = 2 \<and> suggestion_threshold ''alphabe'' = 2"
  by (simp add: suggestion_threshold_def)

text \<open>The distance is that of the keys as they are written, although the decoder ignores dashes.\<close>

lemma distance_counts_dashes:
  "levenshteinDistance ''max-retry'' ''maxretries'' = 4 \<and> suggestion_threshold ''max-retry'' = 3 \<and>
   levenshteinDistance (normalizeKey ''max-retry'') ''maxretries'' = 3 \<and> suggestion_threshold (normalizeKey ''max-retry'') = 3"
  by code_simp

text \<open>\<^verbatim>\<open>validateCron\<close> on an expression of fields: five or six of them, of the characters of the class.\<close>

lemma cron_field: "full_match cronFieldRegex s \<longleftrightarrow> s \<noteq> [] \<and> list_all (\<lambda>c. is_digit c \<or> c \<in> set ''*-,/?LW#'') s"
  by (simp add: cronFieldRegex_def full_match_rep1 in_class_append in_class_chars digit_class_def is_digit_def list_all_iff)

lemma validateCron_fields:
  "value \<noteq> [] \<Longrightarrow> \<not> HasPrefix value ''@'' \<Longrightarrow>
   validateCron value \<longleftrightarrow> length (Fields value) \<in> {5, 6} \<and> list_all (full_match cronFieldRegex) (Fields value)"
  by (auto simp: validateCron_def Let_def)

lemma cron_rejects_names: "\<not> validateCron ''0 0 * * MON''"
  by code_simp

lemma cron_every_unchecked: "validateCron ''@every -5m''"
  by code_simp

lemma duration_gte_exact:
  "validateDurationGTE (FDuration d) param \<longleftrightarrow> (\<exists>m. ParseDuration param = Some m \<and> m \<le> d)"
  by (simp add: validateDurationGTE_def split: option.splits)

end
