(* ===== verification/IniParse.thy ===== *)
theory IniParse
  imports Reload Deprecations ConfigKeys EnvSubst
begin

text \<open>
  From INI files to a configuration (\<^verbatim>\<open>BuildFromFile\<close>, \<^verbatim>\<open>BuildFromString\<close>, \<^verbatim>\<open>parseIni\<close> and its helpers in
  \<^verbatim>\<open>src/cli/config.go\<close>, \<^verbatim>\<open>decodeWithMetadata\<close> of \<^verbatim>\<open>src/cli/config_decode.go\<close>): the sections of one file
  after the other fill one configuration, unknown keys are collected and logged with a suggestion, and
  deprecated options are migrated at the end.

  The INI reader and the mapstructure decoder are arguments (\<open>ini_world\<close>, \<open>decoders\<close>), with the values of
  the settings they fill as type parameters; so is the strict validation, whose walk over the settings
  is modelled in \<^verbatim>\<open>Validator\<close>. The hints at the end of error messages are left out, and so is the log of a load
  that fails.
\<close>

section \<open>Sections\<close>

text \<open>A section as the INI reader gives it: \<open>ik_Value\<close> is \<^verbatim>\<open>Key.Value\<close>, \<open>ik_Vals\<close> is \<^verbatim>\<open>ValueWithShadows\<close>.\<close>

record ini_key =
  ik_Name :: string
  ik_Value :: string
  ik_Vals :: "string list"

record ini_section =
  is_Name :: string
  is_Keys :: "ini_key list"

datatype ini_value = VStr string | VList "string list"

definition key_value :: "(string \<rightharpoonup> string) \<Rightarrow> ini_key \<Rightarrow> ini_value" where
  "key_value env key =
     (case ik_Vals key of
        [] \<Rightarrow> VStr []
      | [v] \<Rightarrow> VStr (ExpandEnvVars env v)
      | vals \<Rightarrow> VList (map (ExpandEnvVars env) vals))"

definition sectionToMap :: "(string \<rightharpoonup> string) \<Rightarrow> ini_section \<Rightarrow> string \<rightharpoonup> ini_value" where
  "sectionToMap env sect = fold (\<lambda>key m. m(ik_Name key \<mapsto> key_value env key)) (is_Keys sect) Map.empty"

text \<open>\<^verbatim>\<open>strings.Trim(s, cutset)\<close> for one byte.\<close>

definition TrimByte :: "char \<Rightarrow> string \<Rightarrow> string" where
  "TrimByte c s = rev (dropWhile ((=) c) (rev (dropWhile ((=) c) s)))"

definition parseJobName :: "(string \<rightharpoonup> string) \<Rightarrow> string \<Rightarrow> string \<Rightarrow> string" where
  "parseJobName env sect pre = ExpandEnvVars env (TrimByte dquote (TrimSpace (TrimPrefix sect pre)))"

section \<open>Decoding\<close>

text \<open>What \<^verbatim>\<open>mapstructure\<close> reports: the new value, the keys it decoded and the keys it did not match.\<close>

record 'o decoded =
  de_Out :: 'o
  de_Keys :: "string list"
  de_Unused :: "string list"

definition decodeWithMetadata ::
  "result \<Rightarrow> ((string \<rightharpoonup> ini_value) \<Rightarrow> 'o \<Rightarrow> go_error + 'o decoded) \<Rightarrow> (string \<rightharpoonup> ini_value) \<Rightarrow> 'o \<Rightarrow>
   go_error + 'o \<times> DecodeResult" where
  "decodeWithMetadata new_decoder decode input output =
     (case new_decoder of
        Some err \<Rightarrow> Inl (Errorf [Lit ''create decoder: '', Wrap err])
      | None \<Rightarrow>
          (case decode input output of
             Inl err \<Rightarrow> Inl (Errorf [Lit ''decode: '', Wrap err])
           | Inr d \<Rightarrow> Inr (de_Out d, \<lparr>dr_UsedKeys = normalizeKey ` set (de_Keys d), dr_UnusedKeys = de_Unused d\<rparr>)))"

text \<open>The decoder for every target, with what the parser reads of the settings. A job starts from its zero value.\<close>

record ('g, 'j) decoders =
  id_New :: result
  id_Global :: "(string \<rightharpoonup> ini_value) \<Rightarrow> 'g \<Rightarrow> go_error + 'g decoded"
  id_Docker :: "(string \<rightharpoonup> ini_value) \<Rightarrow> DockerConfig \<Rightarrow> go_error + DockerConfig decoded"
  id_Job :: "job_kind \<Rightarrow> (string \<rightharpoonup> ini_value) \<Rightarrow> 'j \<Rightarrow> go_error + 'j decoded"
  id_zero :: "job_kind \<Rightarrow> 'j"
  id_Image :: "'j \<Rightarrow> string"
  id_Container :: "'j \<Rightarrow> string"
  id_JobSlack :: "'j \<Rightarrow> string"
  id_GlobalSlack :: "'g \<Rightarrow> string"
  id_Strict :: "'g \<Rightarrow> bool"
  id_Int :: "string \<Rightarrow> int option"
  id_env :: "string \<rightharpoonup> string"
  id_Hooks :: "'g \<Rightarrow> WebhookGlobalConfig"

text \<open>A job of the INI file; \<open>ij_Source\<close> is its \<^verbatim>\<open>JobSource\<close>.\<close>

record 'j ini_job =
  ij_Job :: 'j
  ij_Source :: JobSource

text \<open>\<^verbatim>\<open>WebhookConfigs.Global\<close> is an alias of the webhook settings in \<open>ic_Global\<close>.\<close>

record ('g, 'j) ini_config =
  ic_Global :: 'g
  ic_Docker :: DockerConfig
  ic_Jobs :: "job_kind \<Rightarrow> (string \<times> 'j ini_job) list"
  ic_Webhooks :: "(string \<times> WebhookConfig) list"
  ic_iniWebhooks :: "string set"

definition ic_hooks :: "('g, 'j) decoders \<Rightarrow> ('g, 'j) ini_config \<Rightarrow> WebhookConfigs" where
  "ic_hooks D c = \<lparr>wc_Global = id_Hooks D (ic_Global c), wc_Webhooks = ic_Webhooks c, wc_iniWebhookNames = ic_iniWebhooks c\<rparr>"

record jobUnknownKeys =
  ju_JobType :: string
  ju_JobName :: string
  ju_UnknownKeys :: "string list"

record parseResult =
  pr_usedKeys :: "string set"
  pr_unknownGlobal :: "string list"
  pr_unknownDocker :: "string list"
  pr_unknownJobs :: "jobUnknownKeys list"

definition GetSection :: "string \<Rightarrow> ini_section list \<Rightarrow> ini_section option" where
  "GetSection name sects = find (\<lambda>s. is_Name s = name) sects"

definition parseGlobalAndDocker ::
  "('g, 'j) decoders \<Rightarrow> ini_section list \<Rightarrow> ('g, 'j) ini_config \<Rightarrow> go_error + ('g, 'j) ini_config \<times> parseResult" where
  "parseGlobalAndDocker D sects c =
     (let r0 = \<lparr>pr_usedKeys = {}, pr_unknownGlobal = [], pr_unknownDocker = [], pr_unknownJobs = []\<rparr>;
          step1 =
            (case GetSection ''global'' sects of
               None \<Rightarrow> Inr (c, r0)
             | Some sec \<Rightarrow>
                 (case decodeWithMetadata (id_New D) (id_Global D) (sectionToMap (id_env D) sec) (ic_Global c) of
                    Inl err \<Rightarrow> Inl (Errorf [Lit ''decode [global]: '', Wrap err])
                  | Inr (g, dec) \<Rightarrow>
                      Inr (c\<lparr>ic_Global := g\<rparr>,
                           r0\<lparr>pr_usedKeys := pr_usedKeys r0 \<union> dr_UsedKeys dec, pr_unknownGlobal := dr_UnusedKeys dec\<rparr>)))
      in case step1 of
           Inl err \<Rightarrow> Inl err
         | Inr (c1, r1) \<Rightarrow>
             (case GetSection ''docker'' sects of
                None \<Rightarrow> Inr (c1, r1)
              | Some sec \<Rightarrow>
                  (case decodeWithMetadata (id_New D) (id_Docker D) (sectionToMap (id_env D) sec) (ic_Docker c1) of
                     Inl err \<Rightarrow> Inl (Errorf [Lit ''decode [docker]: '', Wrap err])
                   | Inr (d, dec) \<Rightarrow>
                       Inr (c1\<lparr>ic_Docker := d\<rparr>,
                            r1\<lparr>pr_usedKeys := pr_usedKeys r1 \<union> dr_UsedKeys dec, pr_unknownDocker := dr_UnusedKeys dec\<rparr>))))"

text \<open>\<^verbatim>\<open>Validate\<close> of the kinds of jobs that have it.\<close>

definition validate_job :: "('g, 'j) decoders \<Rightarrow> job_kind \<Rightarrow> 'j \<Rightarrow> result" where
  "validate_job D k j =
     (case k of
        KRun \<Rightarrow> if id_Image D j = [] \<and> id_Container D j = [] then Some (Sentinel ErrImageOrContainer) else None
      | KService \<Rightarrow> if id_Image D j = [] then Some (Sentinel ErrImageRequired) else None
      | _ \<Rightarrow> None)"

definition decodeJob ::
  "('g, 'j) decoders \<Rightarrow> job_kind \<Rightarrow> string \<Rightarrow> ini_section \<Rightarrow> ('g, 'j) ini_config \<times> jobUnknownKeys list \<Rightarrow>
   go_error + ('g, 'j) ini_config \<times> jobUnknownKeys list" where
  "decodeJob D k pre sect cu =
     (let jobName = parseJobName (id_env D) (TrimSpace (is_Name sect)) pre in
      case decodeWithMetadata (id_New D) (id_Job D k) (sectionToMap (id_env D) sect) (id_zero D k) of
        Inl err \<Rightarrow> Inl (Errorf [Lit ''failed to decode job '', Quoted jobName, Lit '' configuration: '', Wrap err])
      | Inr (j, res) \<Rightarrow>
          let unknown = (if dr_UnusedKeys res \<noteq> []
                         then snd cu @ [\<lparr>ju_JobType = pre, ju_JobName = jobName, ju_UnknownKeys = dr_UnusedKeys res\<rparr>] else snd cu)
          in case validate_job D k j of
               Some err \<Rightarrow> Inl (Errorf [Lit ''job '', Quoted jobName, Lit '' configuration error: '', Wrap err])
             | None \<Rightarrow>
                 Inr ((fst cu)\<lparr>ic_Jobs := (ic_Jobs (fst cu))
                        (k := AList.update jobName \<lparr>ij_Job = j, ij_Source = SrcINI\<rparr> (ic_Jobs (fst cu) k))\<rparr>, unknown))"

definition section_kind :: "string \<Rightarrow> (job_kind \<times> string) option" where
  "section_kind name =
     (if HasPrefix name ''job-exec'' then Some (KExec, ''job-exec'')
      else if HasPrefix name ''job-run'' then Some (KRun, ''job-run'')
      else if HasPrefix name ''job-service-run'' then Some (KService, ''job-service-run'')
      else if HasPrefix name ''job-local'' then Some (KLocal, ''job-local'')
      else if HasPrefix name ''job-compose'' then Some (KCompose, ''job-compose'')
      else None)"

fun parse_jobs ::
  "('g, 'j) decoders \<Rightarrow> ini_section list \<Rightarrow> ('g, 'j) ini_config \<times> jobUnknownKeys list \<Rightarrow>
   go_error + ('g, 'j) ini_config \<times> jobUnknownKeys list" where
  "parse_jobs D [] cu = Inr cu"
| "parse_jobs D (sect # sects) cu =
     (case section_kind (TrimSpace (is_Name sect)) of
        None \<Rightarrow> parse_jobs D sects cu
      | Some (k, pre) \<Rightarrow>
          (case decodeJob D k pre sect cu of Inl err \<Rightarrow> Inl err | Inr cu' \<Rightarrow> parse_jobs D sects cu'))"

definition webhook_section :: "ini_section \<Rightarrow> string \<times> (string \<rightharpoonup> string)" where
  "webhook_section sect = (is_Name sect, map_of (map (\<lambda>k. (ik_Name k, ik_Value k)) (is_Keys sect)))"

definition parseIni ::
  "('g, 'j) decoders \<Rightarrow> ini_section list \<Rightarrow> ('g, 'j) ini_config \<Rightarrow> go_error + ('g, 'j) ini_config \<times> parseResult" where
  "parseIni D sects c =
     (case parseGlobalAndDocker D sects c of
        Inl err \<Rightarrow> Inl err
      | Inr (c1, r) \<Rightarrow>
          (case parseWebhookSections (id_Int D) (id_env D) (map webhook_section sects) (ic_hooks D c1) of
             (Some err, _) \<Rightarrow> Inl err
           | (None, wc) \<Rightarrow>
               (case parse_jobs D sects (c1\<lparr>ic_Webhooks := wc_Webhooks wc, ic_iniWebhooks := wc_iniWebhookNames wc\<rparr>, []) of
                  Inl err \<Rightarrow> Inl err
                | Inr (c2, unknown) \<Rightarrow> Inr (c2, r\<lparr>pr_unknownJobs := unknown\<rparr>))))"

section \<open>Warnings\<close>

datatype key_warning =
    UnknownGlobal string string
  | UnknownDocker string string
  | UnknownJobKey (kw_JobType: string) (kw_JobName: string) (kw_File: string) (kw_Key: string) (kw_Suggestion: string)

text \<open>The file name is empty for a configuration string; without a suggestion the log asks for a typo.\<close>

definition logJobUnknownKeyWarnings :: "jobUnknownKeys list \<Rightarrow> string \<Rightarrow> key_warning list" where
  "logJobUnknownKeyWarnings unknownJobs filename =
     concat (map (\<lambda>job.
       let knownKeys = getKnownKeysForJobType (ju_JobType job) in
       map (\<lambda>key. UnknownJobKey (ju_JobType job) (ju_JobName job) filename key (findClosestMatch key knownKeys))
         (ju_UnknownKeys job)) unknownJobs)"

definition logUnknownKeyWarnings :: "string \<Rightarrow> parseResult \<Rightarrow> key_warning list" where
  "logUnknownKeyWarnings filename res =
     map (UnknownGlobal filename) (pr_unknownGlobal res) @
     map (UnknownDocker filename) (pr_unknownDocker res) @
     logJobUnknownKeyWarnings (pr_unknownJobs res) filename"

section \<open>Loading\<close>

record ini_world =
  iw_Files :: ini_files
  iw_ReadFile :: "string \<Rightarrow> go_error + string"
  iw_LoadSources :: "string \<Rightarrow> go_error + ini_section list"
  iw_zero :: time

text \<open>What the deprecations look at, and the registry with the warnings already given.\<close>

definition dep_view :: "('g, 'j) decoders \<Rightarrow> ('g, 'j) ini_config \<Rightarrow> dep_config" where
  "dep_view D c =
     (let slacks = (\<lambda>k. map (\<lambda>(_, j). id_JobSlack D (ij_Job j)) (ic_Jobs c k)) in
      \<lparr>dg_GlobalSlack = id_GlobalSlack D (ic_Global c), dg_ExecSlack = slacks KExec, dg_RunSlack = slacks KRun,
       dg_LocalSlack = slacks KLocal, dg_ComposeSlack = slacks KCompose, dg_ServiceSlack = slacks KService,
       dg_Docker = ic_Docker c\<rparr>)"

definition handle_deprecations ::
  "('g, 'j) decoders \<Rightarrow> string set \<Rightarrow> ('g, 'j) ini_config \<Rightarrow> DeprecationRegistry \<Rightarrow> ('g, 'j) ini_config \<times> DeprecationRegistry" where
  "handle_deprecations D keys c reg =
     (let reg1 = reset_warnings reg;
          c1 = c\<lparr>ic_Docker := dg_Docker (ApplyDeprecationMigrationsWithKeys (Some keys) (dep_view D c))\<rparr>
      in (c1, snd (CheckWithKeys (Some keys) (dep_view D c1) reg1)))"

text \<open>The configuration, the used keys, the latest modification time and the warnings so far.\<close>

record ('g, 'j) loading =
  lo_Config :: "('g, 'j) ini_config"
  lo_Keys :: "string set"
  lo_Latest :: time
  lo_Warnings :: "key_warning list"

definition load_file ::
  "ini_world \<Rightarrow> ('g, 'j) decoders \<Rightarrow> string \<Rightarrow> ('g, 'j) loading \<Rightarrow> go_error + ('g, 'j) loading" where
  "load_file W D f l =
     (case iw_ReadFile W f of
        Inl err \<Rightarrow> Inl (Errorf [Lit ''failed to load config file '', Quoted f, Lit '': '', Wrap err])
      | Inr bytes \<Rightarrow>
          (case iw_LoadSources W bytes of
             Inl err \<Rightarrow> Inl (Errorf [Lit ''failed to parse config file '', Quoted f, Lit '': '', Wrap err])
           | Inr sects \<Rightarrow>
               (case parseIni D sects (lo_Config l) of
                  Inl err \<Rightarrow> Inl (Errorf [Lit ''failed to parse config file '', Quoted f, Lit '': '', Wrap err])
                | Inr (c, res) \<Rightarrow>
                    Inr \<lparr>lo_Config = c, lo_Keys = lo_Keys l \<union> pr_usedKeys res,
                         lo_Latest = (case if_ModTime (iw_Files W) f of
                            Inr t \<Rightarrow> if lo_Latest l < t then t else lo_Latest l
                          | Inl _ \<Rightarrow> lo_Latest l),
                         lo_Warnings = lo_Warnings l @ logUnknownKeyWarnings f res\<rparr>)))"

fun load_files_from ::
  "ini_world \<Rightarrow> ('g, 'j) decoders \<Rightarrow> string list \<Rightarrow> ('g, 'j) loading \<Rightarrow> go_error + ('g, 'j) loading" where
  "load_files_from W D [] l = Inr l"
| "load_files_from W D (f # fs) l =
     (case load_file W D f l of Inl err \<Rightarrow> Inl err | Inr l' \<Rightarrow> load_files_from W D fs l')"

record ('g, 'j) built =
  bu_Config :: "('g, 'j) ini_config"
  bu_Files :: "string list"
  bu_ModTime :: time
  bu_Warnings :: "key_warning list"
  bu_Registry :: DeprecationRegistry

text \<open>\<open>fresh\<close> is what \<^verbatim>\<open>NewConfig\<close> returns; \<open>strict\<close> is \<^verbatim>\<open>NewConfigValidator(c).Validate\<close>.\<close>

definition BuildFromFile ::
  "ini_world \<Rightarrow> ('g, 'j) decoders \<Rightarrow> (('g, 'j) ini_config \<Rightarrow> result) \<Rightarrow> ('g, 'j) ini_config \<Rightarrow> DeprecationRegistry \<Rightarrow>
   string \<Rightarrow> go_error + ('g, 'j) built" where
  "BuildFromFile W D strict fresh reg filename =
     (case resolveConfigFiles (iw_Files W) filename of
        Inl err \<Rightarrow> Inl err
      | Inr files \<Rightarrow>
          (case load_files_from W D files
                  \<lparr>lo_Config = fresh, lo_Keys = {}, lo_Latest = iw_zero W, lo_Warnings = []\<rparr> of
             Inl err \<Rightarrow> Inl err
           | Inr l \<Rightarrow>
               (case (if id_Strict D (ic_Global (lo_Config l)) then strict (lo_Config l) else None) of
                  Some err \<Rightarrow> Inl (Errorf [Lit ''configuration validation failed: '', Wrap err])
                | None \<Rightarrow>
                    (case handle_deprecations D (lo_Keys l) (lo_Config l) reg of
                       (c, reg') \<Rightarrow> Inr \<lparr>bu_Config = c, bu_Files = files, bu_ModTime = lo_Latest l,
                                          bu_Warnings = lo_Warnings l, bu_Registry = reg'\<rparr>))))"

definition BuildFromString ::
  "ini_world \<Rightarrow> ('g, 'j) decoders \<Rightarrow> (('g, 'j) ini_config \<Rightarrow> result) \<Rightarrow> ('g, 'j) ini_config \<Rightarrow> DeprecationRegistry \<Rightarrow>
   string \<Rightarrow> go_error + ('g, 'j) built" where
  "BuildFromString W D strict fresh reg configStr =
     (case iw_LoadSources W configStr of
        Inl err \<Rightarrow> Inl (Errorf [Lit ''load ini from string: '', Wrap err])
      | Inr sects \<Rightarrow>
          (case parseIni D sects fresh of
             Inl err \<Rightarrow> Inl (Errorf [Lit ''parse ini from string: '', Wrap err])
           | Inr (c, res) \<Rightarrow>
               (case (if id_Strict D (ic_Global c) then strict c else None) of
                  Some err \<Rightarrow> Inl (Errorf [Lit ''configuration validation failed: '', Wrap err])
                | None \<Rightarrow>
                    (case handle_deprecations D (pr_usedKeys res) c reg of
                       (c', reg') \<Rightarrow> Inr \<lparr>bu_Config = c', bu_Files = [], bu_ModTime = iw_zero W,
                          bu_Warnings = logUnknownKeyWarnings [] res, bu_Registry = reg'\<rparr>))))"

section \<open>Names of jobs\<close>

lemma TrimPrefix_append [simp]: "TrimPrefix (p @ s) p = s"
  by (simp add: TrimPrefix_def HasPrefix_def)

lemma TrimByte_quotes:
  "n = [] \<or> (hd n \<noteq> c \<and> last n \<noteq> c) \<Longrightarrow> TrimByte c (c # n @ [c]) = n"
proof (cases n rule: rev_cases)
  case (snoc m y)
  assume "n = [] \<or> (hd n \<noteq> c \<and> last n \<noteq> c)"
  then have "hd n \<noteq> c" "y \<noteq> c" using snoc by auto
  moreover have "dropWhile ((=) c) (n @ [c]) = n @ [c]" using \<open>hd n \<noteq> c\<close> \<open>y \<noteq> c\<close> snoc by (cases m) auto
  ultimately show ?thesis using snoc by (simp add: TrimByte_def)
qed (simp add: TrimByte_def)

section \<open>Jobs of a list of sections\<close>

text \<open>What a section declares, when it is decoded without an error.\<close>

definition declared_name :: "('g, 'j) decoders \<Rightarrow> ini_section \<Rightarrow> (job_kind \<times> string) option" where
  "declared_name D sect =
     map_option (\<lambda>(k, pre). (k, parseJobName (id_env D) (TrimSpace (is_Name sect)) pre)) (section_kind (TrimSpace (is_Name sect)))"

definition declared_job :: "('g, 'j) decoders \<Rightarrow> job_kind \<Rightarrow> ini_section \<Rightarrow> 'j ini_job" where
  "declared_job D k sect =
     \<lparr>ij_Job = (case decodeWithMetadata (id_New D) (id_Job D k) (sectionToMap (id_env D) sect) (id_zero D k) of
                  Inr (j, _) \<Rightarrow> j | Inl _ \<Rightarrow> id_zero D k),
      ij_Source = SrcINI\<rparr>"

definition last_declared :: "('g, 'j) decoders \<Rightarrow> job_kind \<Rightarrow> string \<Rightarrow> ini_section list \<Rightarrow> ini_section option" where
  "last_declared D k n sects = find (\<lambda>s. declared_name D s = Some (k, n)) (rev sects)"

lemma decodeJob_Inr:
  assumes "decodeJob D k pre sect cu = Inr cu'"
  shows "fst cu' = (fst cu)\<lparr>ic_Jobs := (ic_Jobs (fst cu))
    (k := AList.update (parseJobName (id_env D) (TrimSpace (is_Name sect)) pre) (declared_job D k sect) (ic_Jobs (fst cu) k))\<rparr>"
  using assms by (auto simp: decodeJob_def declared_job_def Let_def split: sum.splits prod.splits option.splits)

lemma find_append: "find P (xs @ ys) = (case find P xs of None \<Rightarrow> find P ys | r \<Rightarrow> r)"
  by (induction xs) auto

lemma last_declared_append:
  "last_declared D k n (xs @ ys) = (case last_declared D k n ys of None \<Rightarrow> last_declared D k n xs | r \<Rightarrow> r)"
  unfolding last_declared_def by (simp add: find_append split: option.split)

lemma last_declared_Nil [simp]: "last_declared D k n [] = None"
  by (simp add: last_declared_def)

lemma last_declared_single [simp]: "last_declared D k n [s] = (if declared_name D s = Some (k, n) then Some s else None)"
  by (simp add: last_declared_def)

lemma last_declared_Cons:
  "last_declared D k n (s # ys) =
     (case last_declared D k n ys of None \<Rightarrow> if declared_name D s = Some (k, n) then Some s else None | r \<Rightarrow> r)"
  using last_declared_append [of D k n "[s]" ys] by (simp cong: option.case_cong)

lemma parse_jobs_lookup:
  "parse_jobs D sects cu = Inr cu' \<Longrightarrow>
   map_of (ic_Jobs (fst cu') k) n =
     (case last_declared D k n sects of None \<Rightarrow> map_of (ic_Jobs (fst cu) k) n | Some s \<Rightarrow> Some (declared_job D k s))"
proof (induction sects arbitrary: cu)
  case (Cons s sects)
  show ?case
  proof (cases "section_kind (TrimSpace (is_Name s))")
    case None
    then show ?thesis using Cons by (simp add: last_declared_Cons declared_name_def split: option.split)
  next
    case (Some kp)
    then obtain k' pre where kp: "section_kind (TrimSpace (is_Name s)) = Some (k', pre)" by (cases kp) auto
    with Cons.prems obtain cu1 where cu1: "decodeJob D k' pre s cu = Inr cu1" "parse_jobs D sects cu1 = Inr cu'"
      by (auto split: sum.splits)
    have "map_of (ic_Jobs (fst cu1) k) n = (if declared_name D s = Some (k, n) then Some (declared_job D k s)
        else map_of (ic_Jobs (fst cu) k) n)"
      using decodeJob_Inr [OF cu1(1)] kp by (auto simp: declared_name_def update_conv)
    then show ?thesis using Cons.IH [OF cu1(2)] by (auto simp: last_declared_Cons split: option.split)
  qed
qed simp

lemma parseGlobalAndDocker_jobs:
  "parseGlobalAndDocker D sects c = Inr (c', r) \<Longrightarrow> ic_Jobs c' = ic_Jobs c"
  by (auto simp: parseGlobalAndDocker_def Let_def split: option.splits sum.splits prod.splits)

lemma parseIni_lookup:
  assumes "parseIni D sects c = Inr (c', r)"
  shows "map_of (ic_Jobs c' k) n =
    (case last_declared D k n sects of None \<Rightarrow> map_of (ic_Jobs c k) n | Some s \<Rightarrow> Some (declared_job D k s))"
  using assms
  by (auto simp: parseIni_def split: sum.splits prod.splits option.splits
      dest!: parse_jobs_lookup [where k = k and n = n] parseGlobalAndDocker_jobs)

section \<open>Jobs of several files\<close>

definition file_sections :: "ini_world \<Rightarrow> string \<Rightarrow> ini_section list" where
  "file_sections W f =
     (case iw_ReadFile W f of Inl _ \<Rightarrow> [] | Inr bytes \<Rightarrow> (case iw_LoadSources W bytes of Inl _ \<Rightarrow> [] | Inr sects \<Rightarrow> sects))"

lemma load_file_Inr:
  assumes "load_file W D f l = Inr l'"
  obtains c res where "parseIni D (file_sections W f) (lo_Config l) = Inr (c, res)" "lo_Config l' = c"
    "lo_Keys l' = lo_Keys l \<union> pr_usedKeys res"
  using assms by (auto simp: load_file_def file_sections_def split: sum.splits prod.splits)

lemma load_files_lookup:
  "load_files_from W D fs l = Inr l' \<Longrightarrow>
   map_of (ic_Jobs (lo_Config l') k) n =
     (case last_declared D k n (concat (map (file_sections W) fs)) of
        None \<Rightarrow> map_of (ic_Jobs (lo_Config l) k) n | Some s \<Rightarrow> Some (declared_job D k s))"
proof (induction fs arbitrary: l)
  case (Cons f fs)
  then obtain l1 where l1: "load_file W D f l = Inr l1" "load_files_from W D fs l1 = Inr l'" by (auto split: sum.splits)
  obtain c res where p: "parseIni D (file_sections W f) (lo_Config l) = Inr (c, res)" "lo_Config l1 = c"
    using load_file_Inr [OF l1(1)] by metis
  show ?case
    using Cons.IH [OF l1(2)] parseIni_lookup [OF p(1), of k n] p(2)
    by (auto simp: last_declared_append split: option.split)
qed simp

lemma handle_deprecations_jobs: "ic_Jobs (fst (handle_deprecations D keys c reg)) = ic_Jobs c"
  by (simp add: handle_deprecations_def Let_def)

text \<open>C6 (last_section_wins): the jobs of a configuration loaded from files are those of the sections that the INI reader returns for
  all the files, in the lexical order of the files' names; a name that several of these sections declare has the declaration of the last one, and the
  earlier ones leave no trace. Sections with identical headers in one file are one section already for the
  reader; \<^verbatim>\<open>[job-run x]\<close> and \<^verbatim>\<open>[job-run "x"]\<close>, and the sections of different files, are different sections of one name.\<close>

theorem last_section_wins:
  assumes "BuildFromFile W D strict fresh reg pattern = Inr b"
  shows "sorted (bu_Files b) \<and>
    map_of (ic_Jobs (bu_Config b) k) n =
      (case find (\<lambda>s. declared_name D s = Some (k, n)) (rev (concat (map (file_sections W) (bu_Files b)))) of
         None \<Rightarrow> map_of (ic_Jobs fresh k) n
       | Some s \<Rightarrow> Some (declared_job D k s))"
proof -
  from assms obtain files l where b: "resolveConfigFiles (iw_Files W) pattern = Inr files"
    "load_files_from W D files \<lparr>lo_Config = fresh, lo_Keys = {}, lo_Latest = iw_zero W, lo_Warnings = []\<rparr> = Inr l"
    "bu_Files b = files" "bu_Config b = fst (handle_deprecations D (lo_Keys l) (lo_Config l) reg)"
    unfolding BuildFromFile_def by (force split: sum.splits option.splits prod.splits if_split_asm)
  have "sorted files" using b(1) by (auto simp: resolveConfigFiles_def split: sum.splits)
  then show ?thesis
    using load_files_lookup [OF b(2), of k n] b(3,4)
    by (simp add: handle_deprecations_jobs last_declared_def cong: option.case_cong)
qed

section \<open>Sections that are skipped\<close>

lemma parse_jobs_append:
  "parse_jobs D (xs @ ys) cu = (case parse_jobs D xs cu of Inl err \<Rightarrow> Inl err | Inr cu' \<Rightarrow> parse_jobs D ys cu')"
  by (induction D xs cu rule: parse_jobs.induct) (auto split: option.splits sum.splits prod.splits)

lemma webhooks_skip:
  "\<not> HasPrefix (TrimSpace (fst s)) ''webhook'' \<Longrightarrow>
   parseWebhookSections ini_Int env (xs @ s # ys) wc = parseWebhookSections ini_Int env (xs @ ys) wc"
  by (induction xs arbitrary: wc) (cases s, auto simp: Let_def split: prod.splits)+

lemma GetSection_skip: "is_Name s \<noteq> name \<Longrightarrow> GetSection name (xs @ s # ys) = GetSection name (xs @ ys)"
  by (simp add: GetSection_def find_append cong: option.case_cong)

text \<open>C30 (unknown_section_ignored): a section whose name is none of the known ones is dropped without a warning:
  the configuration and everything reported are as if it were not in the file.\<close>

theorem unknown_section_ignored:
  assumes "section_kind (TrimSpace (is_Name s)) = None" and "is_Name s \<noteq> ''global''" and "is_Name s \<noteq> ''docker''"
    and "\<not> HasPrefix (TrimSpace (is_Name s)) ''webhook''"
  shows "parseIni D (xs @ s # ys) c = parseIni D (xs @ ys) c"
proof -
  have jobs: "parse_jobs D (xs @ s # ys) cu = parse_jobs D (xs @ ys) cu" for cu
    using assms(1) by (simp add: parse_jobs_append cong: sum.case_cong)
  have globals: "parseGlobalAndDocker D (xs @ s # ys) c = parseGlobalAndDocker D (xs @ ys) c"
    unfolding parseGlobalAndDocker_def GetSection_skip [OF assms(2)] GetSection_skip [OF assms(3)] ..
  have webhooks: "parseWebhookSections (id_Int D) (id_env D) (map webhook_section (xs @ s # ys)) wc =
      parseWebhookSections (id_Int D) (id_env D) (map webhook_section (xs @ ys)) wc" for wc
    using webhooks_skip [of "webhook_section s" "id_Int D" "id_env D" "map webhook_section xs" "map webhook_section ys" wc] assms(4)
    by (simp add: webhook_section_def)
  show ?thesis unfolding parseIni_def jobs globals webhooks ..
qed

section \<open>Names of jobs in headers\<close>

lemma TrimSpace_blank: "TrimSpace (CHR '' '' # s) = TrimSpace s"
proof -
  have "find (\<lambda>r. r \<noteq> [] \<and> HasPrefix (CHR '' '' # s) r) space_runes = Some '' ''"
    by (simp add: space_runes_def HasPrefix_def)
  then have "strip_front space_runes (CHR '' '' # s) = strip_front space_runes s"
    by (subst strip_front.simps) simp
  then show ?thesis by (simp add: TrimSpace_def)
qed

lemma TrimSpace_quoted: "TrimSpace (dquote # n @ [dquote]) = dquote # n @ [dquote]"
  by (rule TrimSpace_id) (simp_all add: space_runes_def dquote_def)

text \<open>(job_name_roundtrip): the name in the header \<^verbatim>\<open>[job-run "name"]\<close> of a section is the name of the job,
  whatever spaces it holds, unless it starts or ends with a quote or refers to the environment.\<close>

theorem job_name_roundtrip:
  assumes "CHR ''$'' \<notin> set n" and "n = [] \<or> (hd n \<noteq> dquote \<and> last n \<noteq> dquote)"
  shows "parseJobName env (p @ '' '' @ dquote # n @ [dquote]) p = n"
proof -
  have "parseJobName env (p @ '' '' @ dquote # n @ [dquote]) p = ExpandEnvVars env (TrimByte dquote (dquote # n @ [dquote]))"
    by (simp add: parseJobName_def TrimSpace_blank TrimSpace_quoted)
  also have "\<dots> = ExpandEnvVars env n" using TrimByte_quotes [OF assms(2)] by simp
  also have "\<dots> = n" using expand_literal [OF assms(1), of env "[]"] by simp
  finally show ?thesis .
qed

theorem job_name_roundtrip_witness:
  "parseJobName Map.empty (''job-run'' @ '' '' @ dquote # '' nightly backup '' @ [dquote]) ''job-run'' = '' nightly backup ''"
  by (rule job_name_roundtrip) (simp_all add: dquote_def)

text \<open>A header that only starts with the name of a kind declares a job of that kind.\<close>

lemma prefix_is_enough:
  "section_kind ''job-runner foo'' = Some (KRun, ''job-run'') \<and> parseJobName Map.empty ''job-runner foo'' ''job-run'' = ''ner foo''"
  by code_simp

section \<open>Two files\<close>

text \<open>A world of two files that declare the same job, whose decoder reads the key \<^verbatim>\<open>command\<close>.\<close>

definition sim_decode :: "(string \<rightharpoonup> ini_value) \<Rightarrow> 'o \<Rightarrow> (string \<Rightarrow> 'o) \<Rightarrow> go_error + 'o decoded" where
  "sim_decode input zero mk =
     (case input ''command'' of
        Some (VStr s) \<Rightarrow> Inr \<lparr>de_Out = mk s, de_Keys = [''command''], de_Unused = []\<rparr>
      | _ \<Rightarrow> Inr \<lparr>de_Out = zero, de_Keys = [], de_Unused = []\<rparr>)"

definition sim_ini_decoders :: "(string, string) decoders" where
  "sim_ini_decoders =
     \<lparr>id_New = None, id_Global = (\<lambda>i g. sim_decode i g (\<lambda>s. s)), id_Docker = (\<lambda>i d. sim_decode i d (\<lambda>_. d)),
      id_Job = (\<lambda>_ i j. sim_decode i j (\<lambda>s. s)), id_zero = (\<lambda>_. []), id_Image = (\<lambda>j. j), id_Container = (\<lambda>j. j),
      id_JobSlack = (\<lambda>_. []), id_GlobalSlack = (\<lambda>_. []), id_Strict = (\<lambda>_. False), id_Int = (\<lambda>_. None),
      id_env = Map.empty, id_Hooks = (\<lambda>_. DefaultWebhookGlobalConfig [] [])\<rparr>"

definition sim_section :: "string \<Rightarrow> string \<Rightarrow> ini_section" where
  "sim_section name cmd = \<lparr>is_Name = name, is_Keys = [\<lparr>ik_Name = ''command'', ik_Value = cmd, ik_Vals = [cmd]\<rparr>]\<rparr>"

definition sim_ini_world :: ini_world where
  "sim_ini_world =
     \<lparr>iw_Files = \<lparr>if_Glob = (\<lambda>_. Inr [''b.ini'', ''a.ini'']), if_ModTime = (\<lambda>_. Inr 5)\<rparr>,
      iw_ReadFile = (\<lambda>f. Inr f),
      iw_LoadSources = (\<lambda>s. Inr [sim_section ''job-local x'' (if s = ''a.ini'' then ''first'' else ''second'')]),
      iw_zero = 0\<rparr>"

definition sim_fresh :: "(string, string) ini_config" where
  "sim_fresh = \<lparr>ic_Global = [], ic_Docker = watch_cfg, ic_Jobs = (\<lambda>_. []), ic_Webhooks = [], ic_iniWebhooks = {}\<rparr>"

definition sim_ini_registry :: DeprecationRegistry where
  "sim_ini_registry = \<lparr>dr_warnings = {}, dr_logged = []\<rparr>"

text \<open>The two files are read in the order of their names, and the second declaration is the job.\<close>

lemma sim_files: "sort [''b.ini'', ''a.ini''] = [''a.ini'', ''b.ini'']"
  by code_simp

lemma sim_header:
  "section_kind (TrimSpace ''job-local x'') = Some (KLocal, ''job-local'')"
  "parseJobName Map.empty (TrimSpace ''job-local x'') ''job-local'' = ''x''"
  "HasPrefix (TrimSpace ''job-local x'') ''webhook'' \<longleftrightarrow> False"
  by code_simp+

lemma sim_parse:
  assumes "CHR ''$'' \<notin> set cmd"
  shows "parseIni sim_ini_decoders [sim_section ''job-local x'' cmd] c =
    Inr (c\<lparr>ic_Jobs := (ic_Jobs c)(KLocal := AList.update ''x'' \<lparr>ij_Job = cmd, ij_Source = SrcINI\<rparr> (ic_Jobs c KLocal))\<rparr>,
         \<lparr>pr_usedKeys = {}, pr_unknownGlobal = [], pr_unknownDocker = [], pr_unknownJobs = []\<rparr>)"
proof -
  have "sectionToMap Map.empty (sim_section n cmd) = [''command'' \<mapsto> VStr cmd]" for n
    using expand_literal [OF assms, of Map.empty "[]"] by (simp add: sectionToMap_def sim_section_def key_value_def)
  then have "decodeJob sim_ini_decoders KLocal ''job-local'' (sim_section ''job-local x'' cmd) (c, []) =
      Inr (c\<lparr>ic_Jobs := (ic_Jobs c)(KLocal := AList.update ''x'' \<lparr>ij_Job = cmd, ij_Source = SrcINI\<rparr> (ic_Jobs c KLocal))\<rparr>, [])" for c
    unfolding decodeJob_def
    by (simp add: decodeWithMetadata_def sim_ini_decoders_def sim_decode_def sim_section_def sim_header validate_job_def)
  moreover have "parseGlobalAndDocker sim_ini_decoders [sim_section ''job-local x'' cmd] c =
      Inr (c, \<lparr>pr_usedKeys = {}, pr_unknownGlobal = [], pr_unknownDocker = [], pr_unknownJobs = []\<rparr>)"
    by (simp add: parseGlobalAndDocker_def GetSection_def sim_section_def)
  moreover have "parseWebhookSections ini_Int env (map webhook_section [sim_section ''job-local x'' cmd]) wc = (None, wc)" for ini_Int env wc
    by (simp add: webhook_section_def sim_section_def sim_header)
  ultimately show ?thesis
    by (simp add: parseIni_def ic_hooks_def sim_section_def sim_header)
qed

lemma sim_ini_load:
  "load_file sim_ini_world sim_ini_decoders f l =
     Inr \<lparr>lo_Config = (lo_Config l)\<lparr>ic_Jobs := (ic_Jobs (lo_Config l))(KLocal := AList.update ''x''
            \<lparr>ij_Job = (if f = ''a.ini'' then ''first'' else ''second''), ij_Source = SrcINI\<rparr> (ic_Jobs (lo_Config l) KLocal))\<rparr>,
          lo_Keys = lo_Keys l, lo_Latest = (if lo_Latest l < 5 then 5 else lo_Latest l), lo_Warnings = lo_Warnings l\<rparr>"
  by (simp add: load_file_def sim_ini_world_def sim_parse logUnknownKeyWarnings_def logJobUnknownKeyWarnings_def)

lemma sim_ini_build:
  "\<exists>b. BuildFromFile sim_ini_world sim_ini_decoders (\<lambda>_. None) sim_fresh sim_ini_registry ''*.ini'' = Inr b \<and>
       bu_Files b = [''a.ini'', ''b.ini'']"
proof -
  have "resolveConfigFiles (iw_Files sim_ini_world) ''*.ini'' = Inr [''a.ini'', ''b.ini'']"
    by (simp add: resolveConfigFiles_def sim_ini_world_def sim_files)
  moreover have "id_Strict sim_ini_decoders = (\<lambda>_. False)" by (simp add: sim_ini_decoders_def)
  ultimately show ?thesis
    by (simp add: BuildFromFile_def sim_ini_load split: prod.split)
qed

theorem last_section_wins_witness:
  "\<exists>b. BuildFromFile sim_ini_world sim_ini_decoders (\<lambda>_. None) sim_fresh sim_ini_registry ''*.ini'' = Inr b \<and>
       map_of (ic_Jobs (bu_Config b) KLocal) ''x'' = Some \<lparr>ij_Job = ''second'', ij_Source = SrcINI\<rparr>"
proof -
  obtain b where b: "BuildFromFile sim_ini_world sim_ini_decoders (\<lambda>_. None) sim_fresh sim_ini_registry ''*.ini'' = Inr b"
    "bu_Files b = [''a.ini'', ''b.ini'']"
    using sim_ini_build by blast
  have name: "declared_name sim_ini_decoders (sim_section ''job-local x'' cmd) = Some (KLocal, ''x'')" for cmd
    by (simp add: declared_name_def sim_section_def sim_header) (simp add: sim_ini_decoders_def sim_header)
  have "file_sections sim_ini_world f = [sim_section ''job-local x'' (if f = ''a.ini'' then ''first'' else ''second'')]" for f
    by (simp add: file_sections_def sim_ini_world_def)
  then have "find (\<lambda>s. declared_name sim_ini_decoders s = Some (KLocal, ''x''))
      (rev (concat (map (file_sections sim_ini_world) (bu_Files b)))) = Some (sim_section ''job-local x'' ''second'')"
    by (simp add: b(2) name)
  moreover have "declared_job sim_ini_decoders KLocal (sim_section ''job-local x'' ''second'') = \<lparr>ij_Job = ''second'', ij_Source = SrcINI\<rparr>"
    by code_simp
  ultimately show ?thesis
    using last_section_wins [OF b(1), of KLocal "''x''"] b(1) by simp
qed

theorem unknown_section_ignored_witness:
  "parseIni sim_ini_decoders ([] @ sim_section ''job-locale x'' ''first'' # [sim_section ''jobs-local x'' ''second'']) sim_fresh =
   parseIni sim_ini_decoders ([sim_section ''job-locale x'' ''first''] @ []) sim_fresh"
proof -
  have h: "section_kind (TrimSpace (is_Name (sim_section ''jobs-local x'' ''second''))) = None"
    "\<not> HasPrefix (TrimSpace (is_Name (sim_section ''jobs-local x'' ''second''))) ''webhook''" by code_simp+
  show ?thesis
    using unknown_section_ignored [of "sim_section ''jobs-local x'' ''second''" sim_ini_decoders "[sim_section ''job-locale x'' ''first'']" "[]" sim_fresh] h
    by (simp add: sim_section_def)
qed

section \<open>A file and a string\<close>

definition loaded_config :: "go_error + ('g, 'j) built \<Rightarrow> (('g, 'j) ini_config \<times> DeprecationRegistry) option" where
  "loaded_config r = (case r of Inl _ \<Rightarrow> None | Inr b \<Rightarrow> Some (bu_Config b, bu_Registry b))"

text \<open>(string_loads_as_file): \<^verbatim>\<open>BuildFromString\<close> accepts what \<^verbatim>\<open>BuildFromFile\<close> accepts from a single file of
  that content, with the same configuration, migrations and deprecation warnings.\<close>

theorem string_loads_as_file:
  assumes "if_Glob (iw_Files W) pattern = Inr [f]" and "iw_ReadFile W f = Inr bytes"
  shows "loaded_config (BuildFromFile W D strict fresh reg pattern) = loaded_config (BuildFromString W D strict fresh reg bytes)"
proof -
  have "resolveConfigFiles (iw_Files W) pattern = Inr [f]"
    using assms(1) by (simp add: resolveConfigFiles_def)
  then show ?thesis
    using assms(2)
    by (auto simp: loaded_config_def BuildFromFile_def BuildFromString_def load_file_def
        split: sum.splits option.splits prod.splits)
qed

theorem string_loads_as_file_witness:
  "loaded_config (BuildFromFile (sim_ini_world\<lparr>iw_Files := \<lparr>if_Glob = (\<lambda>p. Inr [p]), if_ModTime = (\<lambda>_. Inr 5)\<rparr>\<rparr>)
      sim_ini_decoders (\<lambda>_. None) sim_fresh sim_ini_registry ''a.ini'') =
   loaded_config (BuildFromString (sim_ini_world\<lparr>iw_Files := \<lparr>if_Glob = (\<lambda>p. Inr [p]), if_ModTime = (\<lambda>_. Inr 5)\<rparr>\<rparr>)
      sim_ini_decoders (\<lambda>_. None) sim_fresh sim_ini_registry ''a.ini'')"
  by (rule string_loads_as_file [where f = "''a.ini''"]) (simp_all add: sim_ini_world_def)

end
