(* ===== verification/Spec2Isabelle.thy ===== *)
theory Spec2Isabelle
  imports Registry JobRun ResilientJob Semaphore Workflow Shutdown BufferPool EnvFile ServiceJob CommandJob JobHash
    CommandValidator Validator Notify Reload Daemon DockerProvider SwarmAdapter PerfMetrics History IniParse
begin

text \<open>
  Ofelia, a job scheduler for Docker: its core, its configuration, its notifications and its web interface.

  The daemon reads job definitions from an INI file and from the labels of containers
  (\<^verbatim>\<open>src/cli\<close>, checked by \<^verbatim>\<open>src/config\<close>), registers them with a scheduler on top of the library go-cron
  (\<^verbatim>\<open>src/core/scheduler.go\<close>), and lets go-cron fire them. A firing runs a chain of middlewares around the
  job (\<^verbatim>\<open>src/core/common.go\<close>, \<^verbatim>\<open>src/middlewares\<close>), retries it, limits how many run at once, and the job
  itself calls Docker or starts a process (\<^verbatim>\<open>src/core/runjob.go\<close> and its siblings). The middlewares
  report the result by Slack, mail, webhooks and files. Labels that change at run time are synchronised with the
  scheduler, an HTTP interface shows and changes them, and a shutdown stops everything in order.

  \<^bold>\<open>Theories.\<close>

  \<^item> \<open>Prelude\<close>: words of Go's integer types, durations, strings, association lists, and the locales \<open>machine\<close>
    (invariants of runs of a step function) that the components share. \<open>GoError\<close> (\<^verbatim>\<open>core/errors.go\<close>): error
    values with wrapping, and which are retryable. \<open>GoParse\<close>: \<^verbatim>\<open>strconv.Atoi\<close> and \<^verbatim>\<open>time.ParseDuration\<close>.
    \<open>Regex\<close>: a derivative matcher for the regular expressions of the validators.
  \<^item> \<open>Execution\<close> (\<^verbatim>\<open>common.go\<close>, \<^verbatim>\<open>bare_job.go\<close>, \<^verbatim>\<open>overlap.go\<close>): executions and their buffers, the chain of
    middlewares for any job body, the history of runs. \<open>Retry\<close> (\<^verbatim>\<open>retry.go\<close>). \<open>JobRun\<close>
    (\<^verbatim>\<open>jobWrapper.runWithCtx\<close>): one firing, panics included.
  \<^item> \<open>Resilience\<close>, \<open>RateLimits\<close> (\<^verbatim>\<open>resilience.go\<close>) and \<open>ResilientJob\<close> (\<^verbatim>\<open>resilient_job.go\<close>): retry policy, circuit
    breaker, token bucket, bulkhead, and their composition. \<open>Semaphore\<close>: the bound on running jobs.
  \<^item> \<open>Workflow\<close> (\<^verbatim>\<open>workflow.go\<close>): dependencies between jobs. \<open>Scheduler\<close>, \<open>Registry\<close> (\<^verbatim>\<open>scheduler.go\<close>): the
    operations of the scheduler, their invariant, and the refinement of a map from names to jobs.
    \<open>Shutdown\<close> (\<^verbatim>\<open>shutdown.go\<close>): hooks in order of priority, the timeout, the graceful scheduler.
  \<^item> \<open>ContainerJob\<close>, \<open>ServiceJob\<close>, \<open>CommandJob\<close> (\<^verbatim>\<open>runjob.go\<close>, \<^verbatim>\<open>execjob.go\<close>, \<^verbatim>\<open>runservice.go\<close>, \<^verbatim>\<open>composejob.go\<close>,
    \<^verbatim>\<open>localjob.go\<close>): the bodies of jobs as sequences of calls to a Docker provider that may fail at every call.
    \<open>EnvFile\<close> (\<^verbatim>\<open>envfile.go\<close>, \<^verbatim>\<open>annotations.go\<close>), \<open>JobHash\<close>, \<open>BufferPool\<close> (\<^verbatim>\<open>buffer_pool.go\<close>).
  \<^item> \<open>DockerClient\<close> (\<^verbatim>\<open>adapters/docker/client.go\<close>): the host, its TLS material and the transport. \<open>ContainerWait\<close>: the two goroutines
    of a wait. \<open>DockerProvider\<close> (\<^verbatim>\<open>docker_sdk_provider.go\<close>, \<^verbatim>\<open>adapters/docker\<close>): the provider those jobs call, as an instance of
    their parameter. \<open>SwarmAdapter\<close> (\<^verbatim>\<open>adapters/docker/service.go\<close>): services to and from the SDK, with the
    fields of the SDK that are lost on the way. \<open>PerfMetrics\<close>
    (\<^verbatim>\<open>performance_metrics.go\<close>): counters and statistics. \<open>History\<close> (\<^verbatim>\<open>middlewares/save.go\<close>, \<^verbatim>\<open>sanitize.go\<close>,
    \<^verbatim>\<open>restore.go\<close>): files of executions and the histories restored from them.
  \<^item> \<open>CommandValidator\<close>, \<open>Sanitizer\<close>, \<open>Validator\<close> (\<^verbatim>\<open>src/config\<close>): the checks of a configuration.
  \<^item> \<open>EnvSubst\<close>, \<open>ConfigMerge\<close>, \<open>DockerLabels\<close>, \<open>Reconcile\<close>, \<open>Reload\<close> (\<^verbatim>\<open>src/cli\<close>): variables in INI files, defaults a
    job inherits and global settings from labels, job definitions from labels, the synchronisation of the
    scheduler with them, and the handlers that start it: start-up, changes of labels, reloads of the INI file.
  \<^item> \<open>KeyNames\<close> and \<open>ConfigKeys\<close> (\<^verbatim>\<open>cli/config_decode.go\<close>, \<^verbatim>\<open>cli/config_validate.go\<close>): how keys are compared, the keys each kind
    of job knows, the closest key by edit distance, the validators of single settings. \<open>IniParse\<close> (\<^verbatim>\<open>BuildFromFile\<close> in
    \<^verbatim>\<open>cli/config.go\<close>): from the sections of INI files to the configuration, with the warnings on unknown keys.
  \<^item> \<open>Webhooks\<close>, \<open>Preset\<close>, \<open>PresetCache\<close>, \<open>PresetLoader\<close>, \<open>Notify\<close> (\<^verbatim>\<open>src/middlewares\<close>, \<^verbatim>\<open>cli/config_webhook.go\<close>):
    webhook definitions and the hosts they may reach, presets from files, GitHub or URLs with their cache,
    deduplication, and the stack of notification middlewares of a job.
  \<^item> \<open>Runs\<close>: runs of labelled step relations. \<open>DockerEvents\<close> (\<^verbatim>\<open>cli/docker_config_handler.go\<close>, \<^verbatim>\<open>adapters/docker/event.go\<close>): the
    goroutines that watch Docker. \<open>Deprecations\<close> (\<^verbatim>\<open>cli/deprecations.go\<close>), \<open>Daemon\<close> (\<^verbatim>\<open>cli/daemon.go\<close>): the options and their
    precedence, the start-up, and \<^verbatim>\<open>Execute\<close> with its goroutines from the start of the servers to the end of the process, with the server of \<open>WebServer\<close> and the manager of \<open>Shutdown\<close>.
  \<^item> \<open>GoNet\<close> (the addresses of package \<^verbatim>\<open>net\<close>), \<open>WebAuth\<close> (\<^verbatim>\<open>web/auth_secure.go\<close>): client addresses, login limiter,
    tokens, login. \<open>WebLimit\<close> (\<^verbatim>\<open>web/middleware.go\<close>): the limit of requests and the security headers. \<open>Health\<close>
    (\<^verbatim>\<open>web/health.go\<close>): the checks behind the health endpoints. \<open>WebServer\<close> (\<^verbatim>\<open>web/server.go\<close>): routes, the chain of
    handlers and the endpoints over the scheduler of \<open>Registry\<close>; \<open>WebApi\<close>: what a client of the interface can do.

  \<^bold>\<open>State and effects.\<close> Structures are records with the fields the code uses; objects that are shared by
  pointer (the jobs of the scheduler) live on a heap from references to records. Every operation returns its
  result and the new state; errors are values of the type \<open>go_error\<close>. Concurrent parts (circuit
  breaker, semaphore, bulkhead, shutdown, event watcher, waits, the daemon process) are steps of their callers in any order, one step per critical
  section or operation on a channel. Integers whose wrap-around matters are words; durations and times are
  integers in nanoseconds.

  \<^bold>\<open>What the lemmas show.\<close> For the scheduler, the consistency of its tables after every sequence of operations and the
  refinement of a map; for a synchronisation, that the tables and the scheduler hold exactly the jobs that the
  rules of precedence give. For jobs, that every container or service a run creates is removed when it
  should be, whatever fails, and that the result of a firing is the result of the job. For the limits (semaphore,
  bulkhead, token bucket, retries, history, cache age) their bounds under every interleaving. For the configuration,
  which input is accepted, round trips of the formats, and where settings from labels can
  come from. For notifications, who is told of a failure and how often it is retried. For the web interface, that no request
  without a session reaches the jobs, that every request refines an operation on the map of jobs, how long a
  session lives and how many requests and logins a client gets. Theorems on
  behaviour that departs from the documentation are stated as such beside the properties of their component.

  \<^bold>\<open>Parameters.\<close> go-cron is a record of operations with the laws \<open>cron_laws\<close> (entries have different names and 64-bit
  identifiers); a list of entries satisfies them. The Docker provider of the jobs, the SDK behind it, the file system, HTTP, YAML, \<^verbatim>\<open>url.Parse\<close>, \<^verbatim>\<open>mapstructure\<close> and
  \<^verbatim>\<open>args.GetArgs\<close> are arguments of the definitions that call them, mostly with no law at all. So are bcrypt, the decoder of JSON bodies, \<^verbatim>\<open>rate.Limiter\<close> and the file server of the web
  interface; random tokens are arguments of a login, and the router is modelled for paths without percent
  encoding. Go ranges over
  a map in any order: the maps a loop ranges over are association lists in an arbitrary order.

  \<^bold>\<open>Loops.\<close> Every loop is a total recursion: over lists, over the attempts that remain, or over the events (ticks of
  a timer, wake-ups, polled task lists) that the loop consumes. There is no fuel; a loop that waits for
  ever is one that runs out of events, and the theorems on it say after which events it returns.

  \<^bold>\<open>Not modelled.\<close> Log lines; the Docker SDK itself, and of its adapters (\<^verbatim>\<open>src/core/adapters\<close>) the methods that only translate fields; the text of messages
  and the HTTP and SMTP transports; the command line (\<^verbatim>\<open>doctor\<close>, \<^verbatim>\<open>init\<close>, \<^verbatim>\<open>validate\<close>), 
  the INI reader and the decoding by mapstructure; the
  Prometheus exposition and test doubles.
\<close>

end
